(* ===== verification/Prelude.thy ===== *)
theory Prelude
  imports Main "HOL-Library.AList" "HOL-Library.Char_ord" "HOL-Library.List_Lexorder"
begin

text \<open>
  Shared vocabulary of the development: JavaScript values as they come out of a storage or
  a request (\<open>jval\<close>), the numeric and textual checks the validators share
  (safe integers, lower-case hexadecimal digests, base64url identifiers), insertion-ordered
  objects as association lists, the error record of \<open>@hyeboard/core\<close>, and the generic
  run of a state machine together with the three interfaces (locales) that several
  components provide: an invariant-keeping machine, a fixed-window limiter and a
  self-cleaning store.
\<close>

section \<open>Sums as results\<close>

definition sbind :: "'e + 'a \<Rightarrow> ('a \<Rightarrow> 'e + 'b) \<Rightarrow> 'e + 'b" where
  "sbind r f = (case r of Inl e \<Rightarrow> Inl e | Inr x \<Rightarrow> f x)"

lemma sbind_simps [simp]:
  "sbind (Inl e) f = Inl e"
  "sbind (Inr x) f = f x"
  by (simp_all add: sbind_def)

lemma sbind_Inr_iff: "sbind r f = Inr y \<longleftrightarrow> (\<exists>x. r = Inr x \<and> f x = Inr y)"
  by (cases r) auto

fun traverse :: "('a \<Rightarrow> 'e + 'b) \<Rightarrow> 'a list \<Rightarrow> 'e + 'b list" where
  "traverse f [] = Inr []"
| "traverse f (x # xs) = sbind (f x) (\<lambda>y. sbind (traverse f xs) (\<lambda>ys. Inr (y # ys)))"

lemma traverse_Inr_iff:
  "traverse f xs = Inr ys \<longleftrightarrow> list_all2 (\<lambda>x y. f x = Inr y) xs ys"
  by (induction xs arbitrary: ys) (auto simp: sbind_Inr_iff list_all2_Cons1)

lemma traverse_map_Inr: "(\<And>x. x \<in> set xs \<Longrightarrow> f (g x) = Inr x) \<Longrightarrow> traverse f (map g xs) = Inr xs"
  by (induction xs) auto

section \<open>JavaScript values\<close>

text \<open>
  A value of type \<open>unknown\<close> in the source. \<open>JInt\<close> is a number that
  \<open>Number.isInteger\<close> accepts, \<open>JNonInt\<close> any other number (a fraction, \<open>NaN\<close>, an
  infinity): no validator of the source distinguishes those. An object is the list of its
  own properties in insertion order; every object the code handles here has string keys
  that are not array indices, so that insertion order is the enumeration order.
\<close>

datatype jval =
    JUndefined
  | JNull
  | JBool bool
  | JInt int
  | JNonInt
  | JStr string
  | JArr "jval list"
  | JObj "(string \<times> jval) list"

text \<open>Reading a property: \<open>undefined\<close> when it is absent.\<close>

definition field :: "string \<Rightarrow> (string \<times> jval) list \<Rightarrow> jval" where
  "field k kvs = (case map_of kvs k of None \<Rightarrow> JUndefined | Some v \<Rightarrow> v)"

lemma field_Cons [simp]: "field k ((k', v) # kvs) = (if k = k' then v else field k kvs)"
  by (simp add: field_def)

lemma field_Nil [simp]: "field k [] = JUndefined"
  by (simp add: field_def)

text \<open>A property of a value that is known to be an object.\<close>

fun prop_of :: "string \<Rightarrow> jval \<Rightarrow> jval" where
  "prop_of k (JObj kvs) = field k kvs"
| "prop_of k _ = JUndefined"

fun has_own :: "string \<Rightarrow> jval \<Rightarrow> bool" where
  "has_own k (JObj kvs) = (k \<in> fst ` set kvs)"
| "has_own k _ = False"

text \<open>No object has two properties of one name, at any depth.\<close>

fun js_value :: "jval \<Rightarrow> bool" where
  "js_value (JArr vs) = list_all js_value vs"
| "js_value (JObj kvs) = (distinct (map fst kvs) \<and> list_all (\<lambda>(k, v). js_value v) kvs)"
| "js_value _ = True"

lemma js_value_field: "js_value (JObj kvs) \<Longrightarrow> js_value (field k kvs)"
  by (auto simp: field_def list_all_iff split: option.splits dest!: map_of_SomeD)

section \<open>Numbers\<close>

definition max_safe_integer :: int where
  "max_safe_integer = 9007199254740991"

definition safe_integer :: "int \<Rightarrow> bool" where
  "safe_integer n \<longleftrightarrow> - max_safe_integer \<le> n \<and> n \<le> max_safe_integer"

definition pos_safe :: "int \<Rightarrow> bool" where
  "pos_safe n \<longleftrightarrow> safe_integer n \<and> 0 < n"

lemma pos_safe_iff: "pos_safe n \<longleftrightarrow> 0 < n \<and> n \<le> max_safe_integer"
  by (auto simp: pos_safe_def safe_integer_def max_safe_integer_def)

text \<open>
  The range of \<open>Date.now()\<close> for a clock past the epoch: a time value of ECMAScript is at
  most 8.64e15 milliseconds, which leaves room below \<open>Number.MAX_SAFE_INTEGER\<close> for every
  window and lease the code adds to it.
\<close>

definition valid_now :: "int \<Rightarrow> bool" where
  "valid_now t \<longleftrightarrow> 0 < t \<and> t \<le> 8640000000000000"

text \<open>\<open>Math.ceil(d / 1000)\<close> on a whole number of milliseconds.\<close>

definition ceil_seconds :: "int \<Rightarrow> int" where
  "ceil_seconds d = - ((- d) div 1000)"

text \<open>\<open>Math.max(1, Math.ceil((at - now) / 1000))\<close>, the advertised waiting time.\<close>

definition retry_after :: "int \<Rightarrow> int \<Rightarrow> int" where
  "retry_after at now = max 1 (ceil_seconds (at - now))"

lemma retry_after_pos: "1 \<le> retry_after at now"
  by (simp add: retry_after_def)

lemma retry_after_reaches: "at \<le> now + 1000 * retry_after at now"
  unfolding retry_after_def ceil_seconds_def by linarith

lemma retry_after_tight: "now < at \<Longrightarrow> now + 1000 * (retry_after at now - 1) < at"
  unfolding retry_after_def ceil_seconds_def by (simp add: max_def) linarith

section \<open>Identifier patterns\<close>

definition b64url_chars :: string where
  "b64url_chars = ''ABCDEFGHIJKLMNOPQRSTUVWXYZabcdefghijklmnopqrstuvwxyz0123456789_-''"

text \<open>\<open>/^[A-Za-z0-9_-]{22}$/\<close>\<close>

definition token22 :: "string \<Rightarrow> bool" where
  "token22 s \<longleftrightarrow> length s = 22 \<and> list_all (\<lambda>c. c \<in> set b64url_chars) s"

definition hex_chars :: string where
  "hex_chars = ''0123456789abcdef''"

text \<open>\<open>/^[0-9a-f]{n}$/\<close>\<close>

definition hex_n :: "nat \<Rightarrow> string \<Rightarrow> bool" where
  "hex_n n s \<longleftrightarrow> length s = n \<and> list_all (\<lambda>c. c \<in> set hex_chars) s"

section \<open>White space\<close>

text \<open>\<open>trim\<close> on the characters of a header, which are Latin-1.\<close>

definition js_space :: "char \<Rightarrow> bool" where
  "js_space c \<longleftrightarrow> c \<in> {CHR '' '', CHR 0x09, CHR 0x0A, CHR 0x0B, CHR 0x0C, CHR 0x0D, CHR 0xA0}"

definition js_trim :: "string \<Rightarrow> string" where
  "js_trim s = rev (dropWhile js_space (rev (dropWhile js_space s)))"

lemma js_trim_id: "s \<noteq> [] \<Longrightarrow> \<not> js_space (hd s) \<Longrightarrow> \<not> js_space (last s) \<Longrightarrow> js_trim s = s"
proof -
  assume "s \<noteq> []" "\<not> js_space (hd s)" "\<not> js_space (last s)"
  then have "dropWhile js_space s = s" "dropWhile js_space (rev s) = rev s"
    by (simp_all add: dropWhile_eq_self_iff hd_rev)
  then show ?thesis by (simp add: js_trim_def)
qed

lemma dropWhile_hd: "dropWhile P s = [] \<or> \<not> P (hd (dropWhile P s))"
  by (induction s) auto

lemma js_trim_trim [simp]: "js_trim (js_trim s) = js_trim s"
proof (cases "js_trim s = []")
  case True
  have "js_trim [] = []" by (simp add: js_trim_def)
  with True show ?thesis by (simp only:)
next
  case False
  let ?d = "dropWhile js_space s" and ?t = "js_trim s"
  have last: "\<not> js_space (last ?t)"
  proof -
    define w where "w = dropWhile js_space (rev ?d)"
    have "js_trim s = rev w" by (simp add: js_trim_def w_def)
    moreover have "w = [] \<or> \<not> js_space (hd w)" unfolding w_def by (rule dropWhile_hd)
    ultimately show ?thesis using False by (auto simp: last_rev)
  qed
  have "?d = js_trim s @ rev (takeWhile js_space (rev ?d))"
    by (metis js_trim_def rev_append rev_rev_ident takeWhile_dropWhile_id)
  then have "hd ?t = hd ?d" "?d \<noteq> []" using False by (metis hd_append2, force)
  then have "\<not> js_space (hd ?t)" using dropWhile_hd [of js_space s] by metis
  then show ?thesis using False last by (intro js_trim_id)
qed

lemma js_trim_map:
  assumes "\<And>c. js_space (f c) = js_space c"
  shows "js_trim (map f s) = map f (js_trim s)"
proof -
  have "js_space \<circ> f = js_space" using assms by auto
  then show ?thesis by (simp add: js_trim_def dropWhile_map rev_map)
qed

section \<open>Insertion-ordered objects\<close>

text \<open>
  \<open>{ ...obj, [k]: v }\<close> and \<open>obj[k] = v\<close> keep the position of an existing key and append a
  new one: \<open>AList.update\<close>. Pruning by \<open>Object.entries(...).filter\<close> is \<open>filter\<close>.
\<close>

named_theorems alist_simps "lookup, update and pruning of insertion-ordered objects"

lemma map_of_update [alist_simps]: "map_of (AList.update k v al) = (map_of al)(k \<mapsto> v)"
  by (simp add: update_conv')

lemma distinct_update_keys [intro]: "distinct (map fst al) \<Longrightarrow> distinct (map fst (AList.update k v al))"
  by (rule distinct_update)

lemma distinct_filter_keys [intro]: "distinct (map fst al) \<Longrightarrow> distinct (map fst (filter P al))"
  by (induction al) auto

lemma map_of_filter_distinct [alist_simps]:
  "distinct (map fst al) \<Longrightarrow>
   map_of (filter P al) k = (case map_of al k of None \<Rightarrow> None | Some v \<Rightarrow> if P (k, v) then Some v else None)"
proof (induction al)
  case Nil
  then show ?case by simp
next
  case (Cons x xs)
  then show ?case
    by (cases x) (auto split: option.splits dest: map_of_SomeD simp: map_of_eq_None_iff image_iff)
qed

lemma map_of_filter_None: "map_of al k = None \<Longrightarrow> map_of (filter P al) k = None"
  by (auto simp: map_of_eq_None_iff)

lemma set_update_subset: "set (AList.update k v al) \<subseteq> insert (k, v) (set al)"
  by (induction al) auto

lemma update_ball:
  "\<forall>x \<in> set al. P x \<Longrightarrow> P (k, v) \<Longrightarrow> \<forall>x \<in> set (AList.update k v al). P x"
  using set_update_subset by fastforce

section \<open>Errors of the core package\<close>

text \<open>\<open>HyeboardError\<close> of \<open>packages/core/src/index.ts\<close>: code, message, HTTP status, details.\<close>

record hyeboard_error =
  err_code :: string
  err_message :: string
  err_status :: int
  err_details :: "(string \<times> jval) list"

definition core_error :: "string \<Rightarrow> string \<Rightarrow> int \<Rightarrow> hyeboard_error" where
  "core_error code message status = \<lparr>err_code = code, err_message = message, err_status = status, err_details = []\<rparr>"

text \<open>\<open>None\<close> as an error is an exception that is no error of the core package.\<close>

definition lift_core :: "hyeboard_error + 'a \<Rightarrow> hyeboard_error option + 'a" where
  "lift_core r = (case r of Inl e \<Rightarrow> Inl (Some e) | Inr x \<Rightarrow> Inr x)"

section \<open>Runs of a machine\<close>

fun run :: "('s \<Rightarrow> 'op \<Rightarrow> 's) \<Rightarrow> 's \<Rightarrow> 'op list \<Rightarrow> 's" where
  "run step s [] = s"
| "run step s (x # xs) = run step (step s x) xs"

text \<open>Every operation of the run is admissible in the state it meets.\<close>

fun run_ok :: "('s \<Rightarrow> 'op \<Rightarrow> 's) \<Rightarrow> ('s \<Rightarrow> 'op \<Rightarrow> bool) \<Rightarrow> 's \<Rightarrow> 'op list \<Rightarrow> bool" where
  "run_ok step ok s [] = True"
| "run_ok step ok s (x # xs) = (ok s x \<and> run_ok step ok (step s x) xs)"

text \<open>The units a run is granted, summed over its operations.\<close>

fun granted :: "('s \<Rightarrow> 'op \<Rightarrow> 's) \<Rightarrow> ('s \<Rightarrow> 'op \<Rightarrow> int) \<Rightarrow> 's \<Rightarrow> 'op list \<Rightarrow> int" where
  "granted step cost s [] = 0"
| "granted step cost s (x # xs) = cost s x + granted step cost (step s x) xs"

lemma run_append: "run step s (xs @ ys) = run step (run step s xs) ys"
  by (induction xs arbitrary: s) auto

lemma run_ok_append:
  "run_ok step ok s (xs @ ys) \<longleftrightarrow> run_ok step ok s xs \<and> run_ok step ok (run step s xs) ys"
  by (induction xs arbitrary: s) auto

text \<open>Requests with a time: the clock never goes back, and the time of the last request.\<close>

definition clocked :: "int \<Rightarrow> (int \<times> 'c) list \<Rightarrow> bool" where
  "clocked t0 xs \<longleftrightarrow> sorted (t0 # map fst xs)"

lemma clocked_simps [simp]:
  "clocked t0 []"
  "clocked t0 (x # xs) \<longleftrightarrow> t0 \<le> fst x \<and> clocked (fst x) xs"
  by (auto simp: clocked_def)

definition last_time :: "int \<Rightarrow> (int \<times> 'c) list \<Rightarrow> int" where
  "last_time t0 xs = last (t0 # map fst xs)"

lemma last_time_simps [simp]:
  "last_time t0 [] = t0"
  "last_time t0 (x # xs) = last_time (fst x) xs"
  by (simp_all add: last_time_def)

text \<open>Interface: a machine whose admissible operations keep an invariant.\<close>

locale machine =
  fixes step :: "'s \<Rightarrow> 'op \<Rightarrow> 's"
    and ok :: "'s \<Rightarrow> 'op \<Rightarrow> bool"
    and inv :: "'s \<Rightarrow> bool"
  assumes step_inv: "inv s \<Longrightarrow> ok s x \<Longrightarrow> inv (step s x)"
begin

lemma run_inv: "inv s \<Longrightarrow> run_ok step ok s xs \<Longrightarrow> inv (run step s xs)"
  by (induction xs arbitrary: s) (auto intro: step_inv)

lemma run_preserves:
  assumes "\<And>s x. inv s \<Longrightarrow> ok s x \<Longrightarrow> P s \<Longrightarrow> P (step s x)"
  shows "inv s \<Longrightarrow> P s \<Longrightarrow> run_ok step ok s xs \<Longrightarrow> P (run step s xs)"
  by (induction xs arbitrary: s) (auto intro: step_inv assms)

end

text \<open>
  Interface: a machine with a fixed-window limiter. While the limiter is \<open>live\<close> and the clock
  is before its reset time, an operation leaves the reset time alone, adds what it grants to
  the units used and keeps the limiter live.
\<close>

locale window_limiter = machine step ok inv
  for step :: "'s \<Rightarrow> 'op \<Rightarrow> 's" and ok :: "'s \<Rightarrow> 'op \<Rightarrow> bool" and inv :: "'s \<Rightarrow> bool" +
  fixes clock :: "'op \<Rightarrow> int"
    and live :: "'s \<Rightarrow> bool"
    and reset :: "'s \<Rightarrow> int"
    and used :: "'s \<Rightarrow> int"
    and cost :: "'s \<Rightarrow> 'op \<Rightarrow> int"
    and cap :: int
  assumes open_step: "inv s \<Longrightarrow> ok s x \<Longrightarrow> live s \<Longrightarrow> clock x < reset s \<Longrightarrow>
      live (step s x) \<and> reset (step s x) = reset s \<and> used (step s x) = used s + cost s x"
    and used_cap: "inv s \<Longrightarrow> used s \<le> cap"
begin

lemma granted_eq:
  "inv s \<Longrightarrow> run_ok step ok s xs \<Longrightarrow> live s \<Longrightarrow> \<forall>x \<in> set xs. clock x < reset s \<Longrightarrow>
   used (run step s xs) = used s + granted step cost s xs"
proof (induction xs arbitrary: s)
  case Nil
  then show ?case by simp
next
  case (Cons x xs)
  then have "inv (step s x)" "live (step s x)" "reset (step s x) = reset s"
    "used (step s x) = used s + cost s x"
    using open_step [of s x] step_inv [of s x] by auto
  with Cons.IH [of "step s x"] Cons.prems show ?case by simp
qed

lemma granted_le:
  assumes "inv s" "run_ok step ok s xs" "live s" "\<forall>x \<in> set xs. clock x < reset s"
  shows "granted step cost s xs \<le> cap - used s"
  using granted_eq [OF assms] used_cap [OF run_inv [OF assms(1,2)]] by linarith

end

text \<open>A sequence of alarms, each firing at or after the time it was due.\<close>

fun fires :: "('s \<Rightarrow> int \<Rightarrow> 's) \<Rightarrow> ('s \<Rightarrow> int option) \<Rightarrow> 's \<Rightarrow> int list \<Rightarrow> bool" where
  "fires clean due s [] = True"
| "fires clean due s (t # ts) =
     (valid_now t \<and> (case due s of None \<Rightarrow> False | Some a \<Rightarrow> a \<le> t) \<and> fires clean due (clean s t) ts)"

text \<open>
  Interface: a store with an alarm. \<open>due s\<close> is the time of the alarm it keeps scheduled;
  cleaning at or after that time removes at least one entry and schedules only the future.
\<close>

locale alarmed_store =
  fixes clean :: "'s \<Rightarrow> int \<Rightarrow> 's"
    and due :: "'s \<Rightarrow> int option"
    and entries :: "'s \<Rightarrow> nat"
    and inv :: "'s \<Rightarrow> bool"
  assumes clean_inv: "inv s \<Longrightarrow> valid_now t \<Longrightarrow> inv (clean s t)"
    and clean_progress: "inv s \<Longrightarrow> valid_now t \<Longrightarrow> due s = Some a \<Longrightarrow> a \<le> t \<Longrightarrow> entries (clean s t) < entries s"
    and clean_future: "inv s \<Longrightarrow> valid_now t \<Longrightarrow> due (clean s t) = Some a \<Longrightarrow> t < a"
begin

text \<open>
  Every alarm that fires takes at least one entry away: from a store of \<open>n\<close> entries at
  most \<open>n\<close> alarms fire in a row.
\<close>

lemma fires_bound:
  "inv s \<Longrightarrow> fires clean due s ts \<Longrightarrow> length ts + entries (run clean s ts) \<le> entries s"
proof (induction ts arbitrary: s)
  case Nil
  then show ?case by simp
next
  case (Cons t ts)
  then obtain a where "due s = Some a" "a \<le> t" "valid_now t" by (auto split: option.splits)
  with Cons.prems have "entries (clean s t) < entries s" "inv (clean s t)"
    by (auto intro: clean_progress clean_inv)
  with Cons.IH [of "clean s t"] Cons.prems show ?case by simp
qed

lemma fires_inv: "inv s \<Longrightarrow> fires clean due s ts \<Longrightarrow> inv (run clean s ts)"
  by (induction ts arbitrary: s) (auto intro: clean_inv)

end

text \<open>
  Interface: an alarmed store that schedules its own cleaning completely: with nothing
  scheduled it holds nothing that expires, so when no alarm is left the store is empty.
\<close>

locale self_cleaning = alarmed_store clean due entries inv
  for clean :: "'s \<Rightarrow> int \<Rightarrow> 's" and due :: "'s \<Rightarrow> int option" and entries :: "'s \<Rightarrow> nat" and inv :: "'s \<Rightarrow> bool" +
  assumes due_None: "inv s \<Longrightarrow> due s = None \<longleftrightarrow> entries s = 0"
begin

lemma fires_done:
  "inv s \<Longrightarrow> fires clean due s ts \<Longrightarrow> due (run clean s ts) = None \<Longrightarrow> entries (run clean s ts) = 0"
  using fires_inv due_None by blast

end

end
