(* ===== verification/RefreshControl.thy ===== *)
theory RefreshControl
  imports Prelude
begin

text \<open>
  The VNU refresh authority, \<open>apps/worker/src/vnu/vnu-refresh-control.ts\<close>: per principal,
  the one active access/grant pair, the lease of a refresh in flight, the tombstones of
  revoked access tokens and grants, and two fixed windows that bound refreshes and manual
  activations. The transitions are pure functions from the stored state, the request and the
  clock to the next state, the reply and a \<open>changed\<close> flag; here each is one definition, with
  the exceptions the source throws as \<open>Inl\<close>. The validators read untyped storage values.
\<close>

section \<open>Constants and data\<close>

definition VNU_REFRESH_ATTEMPT_LIMIT :: int where "VNU_REFRESH_ATTEMPT_LIMIT = 5"
definition VNU_REFRESH_WINDOW_MS :: int where "VNU_REFRESH_WINDOW_MS = 15 * 60 * 1000"
definition VNU_MANUAL_ACTIVATION_LIMIT :: int where "VNU_MANUAL_ACTIVATION_LIMIT = 5"
definition VNU_MANUAL_ACTIVATION_WINDOW_SECONDS :: int where
  "VNU_MANUAL_ACTIVATION_WINDOW_SECONDS = 900"
definition VNU_MANUAL_ACTIVATION_WINDOW_MS :: int where
  "VNU_MANUAL_ACTIVATION_WINDOW_MS = VNU_MANUAL_ACTIVATION_WINDOW_SECONDS * 1000"
definition VNU_REFRESH_LEASE_MS :: int where "VNU_REFRESH_LEASE_MS = 2 * 60 * 1000"

lemmas refresh_constants =
  VNU_REFRESH_ATTEMPT_LIMIT_def VNU_REFRESH_WINDOW_MS_def VNU_MANUAL_ACTIVATION_LIMIT_def
  VNU_MANUAL_ACTIVATION_WINDOW_SECONDS_def VNU_MANUAL_ACTIVATION_WINDOW_MS_def
  VNU_REFRESH_LEASE_MS_def

record linked_pair =
  accessTokenId :: string
  accessExpiresAt :: int
  grantId :: string
  grantExpiresAt :: int

record refresh_lease =
  lease_pair :: linked_pair
  lease_expiresAt :: int

record refresh_window =
  win_count :: int
  win_resetAt :: int

text \<open>
  \<open>RevokedGrantTombstone\<close>: a bare expiry (the oldest form), or the pair's other half with
  an optional refresh successor. Absent and \<open>undefined\<close> successors read alike.
\<close>

datatype tombstone =
    Expiry int
  | Linked (ts_access: string) (ts_accessExpiresAt: int) (ts_grantExpiresAt: int)
      (ts_successor: "linked_pair option")

record refresh_state =
  active :: "linked_pair option"
  lease :: "refresh_lease option"
  revokedAccess :: "(string \<times> int) list"
  revokedGrants :: "(string \<times> tombstone) list"
  window :: refresh_window
  activationWindow :: "refresh_window option"

datatype begin_result =
    Accepted int
  | InProgress int
  | BeginLimited int int int
  | BeginRevoked

datatype activate_result =
    Activated
  | ActivateLimited int int int

datatype complete_result = Completed | CompleteRevoked

datatype abort_result = Aborted | AbortRevoked

datatype revoke_result = Revoked | Mismatch | Expired

datatype access_result = Active | AccessRevoked

record 'a transition_output =
  out_state :: refresh_state
  out_result :: 'a
  out_changed :: bool

datatype refresh_error =
    InvalidPair
  | InvalidState
  | GrantExpiryChanged
  | InvalidRotationIdentifiers
  | RotationCollision

section \<open>Validators of untyped values\<close>

text \<open>
  Every check of \<open>assertLinkedPair\<close> throws the same error, so their order is not observable.
\<close>

definition assertLinkedPair :: "jval \<Rightarrow> refresh_error + linked_pair" where
  "assertLinkedPair v = (case v of
     JObj kvs \<Rightarrow>
       if sort (map fst kvs) \<noteq> [''accessExpiresAt'', ''accessTokenId'', ''grantExpiresAt'', ''grantId'']
       then Inl InvalidPair
       else (case (field ''accessTokenId'' kvs, field ''grantId'' kvs,
                   field ''accessExpiresAt'' kvs, field ''grantExpiresAt'' kvs) of
               (JStr a, JStr g, JInt ae, JInt ge) \<Rightarrow>
                 if token22 a \<and> token22 g \<and> pos_safe ae \<and> pos_safe ge
                 then Inr \<lparr>accessTokenId = a, accessExpiresAt = ae, grantId = g, grantExpiresAt = ge\<rparr>
                 else Inl InvalidPair
             | _ \<Rightarrow> Inl InvalidPair)
   | _ \<Rightarrow> Inl InvalidPair)"

text \<open>The same assertion on a value that already has the shape of a pair.\<close>

definition valid_pair :: "linked_pair \<Rightarrow> bool" where
  "valid_pair p \<longleftrightarrow> token22 (accessTokenId p) \<and> token22 (grantId p) \<and>
     pos_safe (accessExpiresAt p) \<and> pos_safe (grantExpiresAt p)"

text \<open>\<open>Object.keys(x).sort().join(",")\<close>\<close>

fun join_keys :: "string list \<Rightarrow> string" where
  "join_keys [] = ''''"
| "join_keys [k] = k"
| "join_keys (k # ks) = k @ '','' @ join_keys ks"

definition sorted_keys :: "(string \<times> jval) list \<Rightarrow> string" where
  "sorted_keys kvs = join_keys (sort (map fst kvs))"

definition samePair :: "linked_pair option \<Rightarrow> linked_pair \<Rightarrow> bool" where
  "samePair left right = (case left of
     None \<Rightarrow> False
   | Some l \<Rightarrow> accessTokenId l = accessTokenId right \<and> accessExpiresAt l = accessExpiresAt right \<and>
       grantId l = grantId right \<and> grantExpiresAt l = grantExpiresAt right)"

lemma samePair_iff [simp]: "samePair left right \<longleftrightarrow> left = Some right"
  by (auto simp: samePair_def split: option.splits)

definition assertLinkedGrantTombstone :: "jval \<Rightarrow> string \<Rightarrow> refresh_error + tombstone" where
  "assertLinkedGrantTombstone v revokedGrantId = (case v of
     JObj kvs \<Rightarrow>
       if sorted_keys kvs \<noteq> ''accessExpiresAt,accessTokenId,grantExpiresAt'' \<and>
          sorted_keys kvs \<noteq> ''accessExpiresAt,accessTokenId,grantExpiresAt,refreshSuccessor''
       then Inl InvalidState
       else (case (field ''accessTokenId'' kvs, field ''accessExpiresAt'' kvs, field ''grantExpiresAt'' kvs) of
               (JStr a, JInt ae, JInt ge) \<Rightarrow>
                 if \<not> (token22 a \<and> pos_safe ae \<and> pos_safe ge) then Inl InvalidState
                 else if field ''refreshSuccessor'' kvs = JUndefined then Inr (Linked a ae ge None)
                 else sbind (assertLinkedPair (field ''refreshSuccessor'' kvs)) (\<lambda>succ.
                   if accessTokenId succ = a \<or> grantId succ = revokedGrantId \<or> grantExpiresAt succ \<noteq> ge
                   then Inl InvalidState
                   else Inr (Linked a ae ge (Some succ)))
             | _ \<Rightarrow> Inl InvalidState)
   | _ \<Rightarrow> Inl InvalidState)"

text \<open>
  The window checks of \<open>parseVnuRefreshControlState\<close> and \<open>assertActivationWindow\<close> differ in
  the least count and the limit.
\<close>

definition parseWindow :: "int \<Rightarrow> int \<Rightarrow> jval \<Rightarrow> refresh_error + refresh_window" where
  "parseWindow least most v = (case v of
     JObj kvs \<Rightarrow>
       if sorted_keys kvs \<noteq> ''count,resetAt'' then Inl InvalidState
       else (case (field ''count'' kvs, field ''resetAt'' kvs) of
               (JInt c, JInt r) \<Rightarrow>
                 if safe_integer c \<and> least \<le> c \<and> c \<le> most \<and> pos_safe r
                 then Inr \<lparr>win_count = c, win_resetAt = r\<rparr>
                 else Inl InvalidState
             | _ \<Rightarrow> Inl InvalidState)
   | _ \<Rightarrow> Inl InvalidState)"

definition assertActivationWindow :: "jval \<Rightarrow> refresh_error + refresh_window" where
  "assertActivationWindow = parseWindow 1 VNU_MANUAL_ACTIVATION_LIMIT"

definition parseLease :: "jval \<Rightarrow> refresh_error + refresh_lease" where
  "parseLease v = (case v of
     JObj kvs \<Rightarrow>
       if sorted_keys kvs \<noteq> ''expiresAt,pair'' then Inl InvalidState
       else sbind (assertLinkedPair (field ''pair'' kvs)) (\<lambda>p.
              case field ''expiresAt'' kvs of
                JInt e \<Rightarrow> if pos_safe e then Inr \<lparr>lease_pair = p, lease_expiresAt = e\<rparr> else Inl InvalidState
              | _ \<Rightarrow> Inl InvalidState)
   | _ \<Rightarrow> Inl InvalidState)"

fun parseAccessEntry :: "string \<times> jval \<Rightarrow> refresh_error + (string \<times> int)" where
  "parseAccessEntry (k, JInt e) = (if token22 k \<and> pos_safe e then Inr (k, e) else Inl InvalidState)"
| "parseAccessEntry (k, _) = Inl InvalidState"

definition parseGrantEntry :: "string \<times> jval \<Rightarrow> refresh_error + (string \<times> tombstone)" where
  "parseGrantEntry kv = (case kv of (k, v) \<Rightarrow>
     if \<not> token22 k then Inl InvalidState
     else (case v of
             JInt e \<Rightarrow> if pos_safe e then Inr (k, Expiry e) else Inl InvalidState
           | JNonInt \<Rightarrow> Inl InvalidState
           | _ \<Rightarrow> sbind (assertLinkedGrantTombstone v k) (\<lambda>t. Inr (k, t))))"

definition parseEntries :: "(string \<times> jval \<Rightarrow> refresh_error + 'b) \<Rightarrow> jval \<Rightarrow> refresh_error + 'b list" where
  "parseEntries f v = (case v of JObj kvs \<Rightarrow> traverse f kvs | _ \<Rightarrow> Inl InvalidState)"

text \<open>A field that is checked only when it is not \<open>undefined\<close>.\<close>

definition optional :: "(jval \<Rightarrow> refresh_error + 'a) \<Rightarrow> jval \<Rightarrow> refresh_error + 'a option" where
  "optional p v = (if v = JUndefined then Inr None else sbind (p v) (\<lambda>x. Inr (Some x)))"

definition lease_consistent :: "refresh_state \<Rightarrow> bool" where
  "lease_consistent s = (case lease s of
     None \<Rightarrow> True
   | Some l \<Rightarrow> active s \<noteq> None \<and> samePair (active s) (lease_pair l) \<and>
       lease_expiresAt l \<le> grantExpiresAt (lease_pair l))"

definition active_consistent :: "refresh_state \<Rightarrow> bool" where
  "active_consistent s = (case active s of
     None \<Rightarrow> True
   | Some p \<Rightarrow> map_of (revokedAccess s) (accessTokenId p) = None \<and>
       map_of (revokedGrants s) (grantId p) = None)"

definition state_keys :: "string list" where
  "state_keys = [''active'', ''lease'', ''revokedAccess'', ''revokedGrants'', ''window'', ''activationWindow'']"

definition parseVnuRefreshControlState :: "jval \<Rightarrow> refresh_error + refresh_state option" where
  "parseVnuRefreshControlState v = (case v of
     JUndefined \<Rightarrow> Inr None
   | JObj kvs \<Rightarrow>
       if \<not> list_all (\<lambda>(k, _). k \<in> set state_keys) kvs then Inl InvalidState
       else sbind (optional assertLinkedPair (field ''active'' kvs)) (\<lambda>act.
            sbind (optional parseLease (field ''lease'' kvs)) (\<lambda>lea.
            sbind (parseEntries parseAccessEntry (field ''revokedAccess'' kvs)) (\<lambda>ra.
            sbind (parseEntries parseGrantEntry (field ''revokedGrants'' kvs)) (\<lambda>rg.
            sbind (parseWindow 0 VNU_REFRESH_ATTEMPT_LIMIT (field ''window'' kvs)) (\<lambda>w.
            sbind (optional assertActivationWindow (field ''activationWindow'' kvs)) (\<lambda>aw.
            let s = \<lparr>active = act, lease = lea, revokedAccess = ra, revokedGrants = rg,
                     window = w, activationWindow = aw\<rparr>
            in if lease_consistent s \<and> active_consistent s then Inr (Some s) else Inl InvalidState))))))
   | _ \<Rightarrow> Inl InvalidState)"

section \<open>Tombstones\<close>

definition linkedGrantTombstone :: "linked_pair \<Rightarrow> tombstone" where
  "linkedGrantTombstone p = Linked (accessTokenId p) (accessExpiresAt p) (grantExpiresAt p) None"

definition refreshSuccessorGrantTombstone :: "linked_pair \<Rightarrow> linked_pair \<Rightarrow> tombstone" where
  "refreshSuccessorGrantTombstone old nxt =
     Linked (accessTokenId old) (accessExpiresAt old) (grantExpiresAt old) (Some nxt)"

fun grantTombstoneExpiresAt :: "tombstone \<Rightarrow> int" where
  "grantTombstoneExpiresAt (Expiry e) = e"
| "grantTombstoneExpiresAt (Linked _ _ ge _) = ge"

definition exactlyLinksGrantTombstone :: "tombstone option \<Rightarrow> linked_pair \<Rightarrow> bool" where
  "exactlyLinksGrantTombstone t p = (case t of
     Some (Linked a ae ge _) \<Rightarrow> a = accessTokenId p \<and> ae = accessExpiresAt p \<and> ge = grantExpiresAt p
   | _ \<Rightarrow> False)"

definition refreshSuccessor :: "tombstone option \<Rightarrow> linked_pair option" where
  "refreshSuccessor t = (case t of Some (Linked _ _ _ succ) \<Rightarrow> succ | _ \<Rightarrow> None)"

section \<open>Transitions\<close>

definition emptyState :: "int \<Rightarrow> refresh_state" where
  "emptyState now = \<lparr>active = None, lease = None, revokedAccess = [], revokedGrants = [],
     window = \<lparr>win_count = 0, win_resetAt = now + VNU_REFRESH_WINDOW_MS\<rparr>, activationWindow = None\<rparr>"

definition stored_or_empty :: "refresh_state option \<Rightarrow> int \<Rightarrow> refresh_state" where
  "stored_or_empty stored now = (case stored of None \<Rightarrow> emptyState now | Some s \<Rightarrow> s)"

definition cleanVnuRefreshState :: "refresh_state option \<Rightarrow> int \<Rightarrow> refresh_state" where
  "cleanVnuRefreshState input now = (let source = stored_or_empty input now in
     \<lparr>active = (case active source of Some p \<Rightarrow> if grantExpiresAt p > now then Some p else None | None \<Rightarrow> None),
      lease = (case lease source of
         Some l \<Rightarrow> if lease_expiresAt l > now \<and> grantExpiresAt (lease_pair l) > now then Some l else None
       | None \<Rightarrow> None),
      revokedAccess = filter (\<lambda>(_, e). e > now) (revokedAccess source),
      revokedGrants = filter (\<lambda>(_, t). grantTombstoneExpiresAt t > now) (revokedGrants source),
      window = (if now \<ge> win_resetAt (window source)
                then \<lparr>win_count = 0, win_resetAt = now + VNU_REFRESH_WINDOW_MS\<rparr>
                else window source),
      activationWindow = (case activationWindow source of
         Some w \<Rightarrow> if win_count w > 0 \<and> now < win_resetAt w then Some w else None
       | None \<Rightarrow> None)\<rparr>)"

text \<open>
  \<open>sameVnuRefreshState\<close> compares the JSON texts; on states with the field order the
  transitions build, that is equality (object entries keep their insertion order here too).
\<close>

definition sameVnuRefreshState :: "refresh_state option \<Rightarrow> refresh_state \<Rightarrow> bool" where
  "sameVnuRefreshState left right \<longleftrightarrow> left = Some right"

definition unchanged :: "refresh_state option \<Rightarrow> int \<Rightarrow> 'a \<Rightarrow> 'a transition_output" where
  "unchanged stored now result =
     \<lparr>out_state = stored_or_empty stored now, out_result = result, out_changed = False\<rparr>"

definition changed :: "refresh_state option \<Rightarrow> refresh_state \<Rightarrow> 'a \<Rightarrow> 'a transition_output" where
  "changed stored s result =
     \<lparr>out_state = s, out_result = result, out_changed = (\<not> sameVnuRefreshState stored s)\<rparr>"

definition revokeExact :: "refresh_state \<Rightarrow> linked_pair \<Rightarrow> tombstone \<Rightarrow> refresh_state" where
  "revokeExact s p grantTombstone = s\<lparr>
     active := None,
     lease := (case lease s of Some l \<Rightarrow> if samePair (Some (lease_pair l)) p then None else Some l | None \<Rightarrow> None),
     revokedAccess := AList.update (accessTokenId p) (accessExpiresAt p) (revokedAccess s),
     revokedGrants := AList.update (grantId p) grantTombstone (revokedGrants s)\<rparr>"

definition applyActivatePair ::
  "refresh_state option \<Rightarrow> linked_pair \<Rightarrow> int \<Rightarrow> refresh_error + activate_result transition_output" where
  "applyActivatePair stored p now = (
     if \<not> valid_pair p then Inl InvalidPair
     else if (case stored of Some s \<Rightarrow> samePair (active s) p \<and> lease s = None | None \<Rightarrow> False)
     then Inr (unchanged stored now Activated)
     else let s = cleanVnuRefreshState stored now in
       if (case activationWindow s of Some w \<Rightarrow> win_count w \<ge> VNU_MANUAL_ACTIVATION_LIMIT | None \<Rightarrow> False)
       then Inr (unchanged stored now
              (ActivateLimited (retry_after (win_resetAt (the (activationWindow s))) now)
                 VNU_MANUAL_ACTIVATION_LIMIT VNU_MANUAL_ACTIVATION_WINDOW_SECONDS))
       else let replaced = (case active s of
                  Some q \<Rightarrow> if \<not> samePair (active s) p then revokeExact s q (linkedGrantTombstone q) else s
                | None \<Rightarrow> s);
              aw = (case activationWindow s of
                  Some w \<Rightarrow> w\<lparr>win_count := win_count w + 1\<rparr>
                | None \<Rightarrow> \<lparr>win_count = 1, win_resetAt = now + VNU_MANUAL_ACTIVATION_WINDOW_MS\<rparr>) in
         Inr (changed stored (replaced\<lparr>active := Some p, lease := None, activationWindow := Some aw\<rparr>)
                Activated))"

text \<open>JavaScript truthiness of an optional expiry: present and not zero.\<close>

definition truthy_expiry :: "int option \<Rightarrow> bool" where
  "truthy_expiry e = (case e of None \<Rightarrow> False | Some n \<Rightarrow> n \<noteq> 0)"

definition truthy_tombstone :: "tombstone option \<Rightarrow> bool" where
  "truthy_tombstone t = (case t of None \<Rightarrow> False | Some (Expiry n) \<Rightarrow> n \<noteq> 0 | Some (Linked _ _ _ _) \<Rightarrow> True)"

lemma truthy_None [simp]: "\<not> truthy_expiry None" "\<not> truthy_tombstone None"
  by (simp_all add: truthy_expiry_def truthy_tombstone_def)

definition applyBeginRefresh ::
  "refresh_state option \<Rightarrow> linked_pair \<Rightarrow> int \<Rightarrow> refresh_error + begin_result transition_output" where
  "applyBeginRefresh stored p now = (
     if \<not> valid_pair p then Inl InvalidPair
     else let s = cleanVnuRefreshState stored now in
       if grantExpiresAt p \<le> now \<or> truthy_expiry (map_of (revokedAccess s) (accessTokenId p)) \<or>
          truthy_tombstone (map_of (revokedGrants s) (grantId p)) \<or> \<not> samePair (active s) p
       then Inr (unchanged stored now BeginRevoked)
       else if (case lease s of Some l \<Rightarrow> samePair (Some (lease_pair l)) p | None \<Rightarrow> False)
       then Inr (unchanged stored now (InProgress (retry_after (lease_expiresAt (the (lease s))) now)))
       else if win_count (window s) \<ge> VNU_REFRESH_ATTEMPT_LIMIT
       then Inr (unchanged stored now (BeginLimited (retry_after (win_resetAt (window s)) now) 5 900))
       else let leaseExpiresAt = min (now + VNU_REFRESH_LEASE_MS) (grantExpiresAt p) in
         Inr (changed stored
           (s\<lparr>lease := Some \<lparr>lease_pair = p, lease_expiresAt = leaseExpiresAt\<rparr>,
             window := (window s)\<lparr>win_count := win_count (window s) + 1\<rparr>\<rparr>)
           (Accepted leaseExpiresAt)))"

definition applyCompleteRefresh ::
  "refresh_state option \<Rightarrow> linked_pair \<Rightarrow> linked_pair \<Rightarrow> int \<Rightarrow> refresh_error + complete_result transition_output" where
  "applyCompleteRefresh stored old nxt now = (
     if \<not> valid_pair old \<or> \<not> valid_pair nxt then Inl InvalidPair
     else if grantExpiresAt nxt \<noteq> grantExpiresAt old then Inl GrantExpiryChanged
     else if accessTokenId nxt = accessTokenId old \<or> grantId nxt = grantId old
     then Inl InvalidRotationIdentifiers
     else if (case stored of
                Some s \<Rightarrow> map_of (revokedAccess s) (accessTokenId nxt) \<noteq> None \<or>
                          map_of (revokedGrants s) (grantId nxt) \<noteq> None
              | None \<Rightarrow> False)
     then Inl RotationCollision
     else let s = cleanVnuRefreshState stored now in
       if grantExpiresAt old \<le> now \<or> \<not> samePair (active s) old \<or>
          (case lease s of None \<Rightarrow> True | Some l \<Rightarrow> \<not> samePair (Some (lease_pair l)) old)
       then Inr (unchanged stored now CompleteRevoked)
       else Inr (changed stored
              ((revokeExact s old (refreshSuccessorGrantTombstone old nxt))\<lparr>active := Some nxt\<rparr>)
              Completed))"

definition applyAbortRefresh ::
  "refresh_state option \<Rightarrow> linked_pair \<Rightarrow> bool \<Rightarrow> int \<Rightarrow> refresh_error + abort_result transition_output" where
  "applyAbortRefresh stored p terminal now = (
     if \<not> valid_pair p then Inl InvalidPair
     else let s = cleanVnuRefreshState stored now in
       if truthy_expiry (map_of (revokedAccess s) (accessTokenId p)) \<or>
          truthy_tombstone (map_of (revokedGrants s) (grantId p))
       then Inr (unchanged stored now AbortRevoked)
       else (case (lease s, active s) of
               (Some l, Some q) \<Rightarrow>
                 if \<not> samePair (Some (lease_pair l)) p \<or> \<not> samePair (Some q) p
                 then Inr (unchanged stored now Aborted)
                 else if \<not> terminal then Inr (changed stored (s\<lparr>lease := None\<rparr>) Aborted)
                 else Inr (changed stored (revokeExact s q (linkedGrantTombstone q)) AbortRevoked)
             | _ \<Rightarrow> Inr (unchanged stored now Aborted)))"

definition applyRevokeLinkedPairByAccess ::
  "refresh_state option \<Rightarrow> linked_pair \<Rightarrow> int \<Rightarrow> refresh_error + revoke_result transition_output" where
  "applyRevokeLinkedPairByAccess stored p now = (
     if \<not> valid_pair p then Inl InvalidPair
     else if accessExpiresAt p \<le> now \<and> grantExpiresAt p \<le> now
     then Inr (unchanged stored now Expired)
     else let s = cleanVnuRefreshState stored now;
              grantTombstone = map_of (revokedGrants s) (grantId p) in
       if map_of (revokedAccess s) (accessTokenId p) = Some (accessExpiresAt p) \<and>
          exactlyLinksGrantTombstone grantTombstone p
       then Inr (unchanged stored now Revoked)
       else if accessExpiresAt p \<le> now \<and> exactlyLinksGrantTombstone grantTombstone p
       then Inr (unchanged stored now Revoked)
       else if active s \<noteq> None \<and> \<not> samePair (active s) p
       then Inr (unchanged stored now Mismatch)
       else if \<not> samePair (active s) p
       then Inr (unchanged stored now Mismatch)
       else Inr (changed stored (revokeExact s p (linkedGrantTombstone p)) Revoked))"

definition applyRevokePrincipalByLinkedGrant ::
  "refresh_state option \<Rightarrow> linked_pair \<Rightarrow> int \<Rightarrow> refresh_error + revoke_result transition_output" where
  "applyRevokePrincipalByLinkedGrant stored proof now = (
     if \<not> valid_pair proof then Inl InvalidPair
     else if grantExpiresAt proof \<le> now then Inr (unchanged stored now Expired)
     else let s = cleanVnuRefreshState stored now;
              exactActiveProof = samePair (active s) proof;
              ts = map_of (revokedGrants s) (grantId proof);
              exactGrantTombstone = exactlyLinksGrantTombstone ts proof in
       if \<not> exactActiveProof \<and> \<not> exactGrantTombstone then Inr (unchanged stored now Mismatch)
       else (case active s of
               None \<Rightarrow> Inr (unchanged stored now Revoked)
             | Some current \<Rightarrow>
                 if \<not> exactActiveProof \<and>
                    \<not> (case refreshSuccessor ts of
                         None \<Rightarrow> False
                       | Some succ \<Rightarrow> samePair (active s) succ \<and>
                           (case lease s of None \<Rightarrow> True | Some l \<Rightarrow> samePair (Some (lease_pair l)) succ))
                 then Inr (unchanged stored now Mismatch)
                 else Inr (changed stored
                        (revokeExact
                           (s\<lparr>revokedAccess := AList.update (accessTokenId proof) (accessExpiresAt proof) (revokedAccess s),
                              revokedGrants := AList.update (grantId proof) (linkedGrantTombstone proof) (revokedGrants s)\<rparr>)
                           current (linkedGrantTombstone current))
                        Revoked)))"

definition applyRevokeExactLinkedPair ::
  "refresh_state option \<Rightarrow> linked_pair \<Rightarrow> int \<Rightarrow> refresh_error + revoke_result transition_output" where
  "applyRevokeExactLinkedPair = applyRevokeLinkedPairByAccess"

definition applyCheckAccess ::
  "refresh_state option \<Rightarrow> linked_pair \<Rightarrow> int \<Rightarrow> refresh_error + access_result transition_output" where
  "applyCheckAccess stored access now = (
     if \<not> valid_pair access then Inl InvalidPair
     else let s = cleanVnuRefreshState stored now;
              didChange = (stored \<noteq> None \<and> \<not> sameVnuRefreshState stored s);
              isActive = (samePair (active s) access \<and> accessExpiresAt access > now) in
       Inr \<lparr>out_state = s,
            out_result = (if isActive \<and> \<not> truthy_expiry (map_of (revokedAccess s) (accessTokenId access)) \<and>
                            \<not> truthy_tombstone (map_of (revokedGrants s) (grantId access))
                          then Active else AccessRevoked),
            out_changed = didChange\<rparr>)"

section \<open>Alarm and quiescence\<close>

definition expiry_times :: "refresh_state \<Rightarrow> int list" where
  "expiry_times s =
     map snd (revokedAccess s) @ map (grantTombstoneExpiresAt \<circ> snd) (revokedGrants s) @
     (case active s of Some p \<Rightarrow> [grantExpiresAt p] | None \<Rightarrow> []) @
     (case lease s of Some l \<Rightarrow> [lease_expiresAt l] | None \<Rightarrow> []) @
     (if win_count (window s) > 0 then [win_resetAt (window s)] else []) @
     (case activationWindow s of Some w \<Rightarrow> if win_count w > 0 then [win_resetAt w] else [] | None \<Rightarrow> [])"

definition nextVnuRefreshAlarm :: "refresh_state \<Rightarrow> int option" where
  "nextVnuRefreshAlarm s = (case expiry_times s of [] \<Rightarrow> None | t # ts \<Rightarrow> Some (fold min ts t))"

definition isQuiescentVnuRefreshState :: "refresh_state \<Rightarrow> bool" where
  "isQuiescentVnuRefreshState s \<longleftrightarrow>
     active s = None \<and> lease s = None \<and> revokedAccess s = [] \<and> revokedGrants s = [] \<and>
     win_count (window s) = 0 \<and> activationWindow s = None"

section \<open>Well-formed states\<close>

text \<open>What \<open>parseVnuRefreshControlState\<close> accepts, as a predicate on typed states.\<close>

fun wf_tombstone :: "string \<Rightarrow> tombstone \<Rightarrow> bool" where
  "wf_tombstone k (Expiry e) = pos_safe e"
| "wf_tombstone k (Linked a ae ge succ) =
     (token22 a \<and> pos_safe ae \<and> pos_safe ge \<and>
      (case succ of None \<Rightarrow> True
       | Some p \<Rightarrow> valid_pair p \<and> accessTokenId p \<noteq> a \<and> grantId p \<noteq> k \<and> grantExpiresAt p = ge))"

definition wf_window :: "int \<Rightarrow> int \<Rightarrow> refresh_window \<Rightarrow> bool" where
  "wf_window least most w \<longleftrightarrow> least \<le> win_count w \<and> win_count w \<le> most \<and> pos_safe (win_resetAt w)"

definition wf_lease :: "refresh_lease \<Rightarrow> bool" where
  "wf_lease l \<longleftrightarrow> valid_pair (lease_pair l) \<and> pos_safe (lease_expiresAt l)"

definition wf_access :: "(string \<times> int) list \<Rightarrow> bool" where
  "wf_access al \<longleftrightarrow> distinct (map fst al) \<and> (\<forall>kv \<in> set al. token22 (fst kv) \<and> pos_safe (snd kv))"

definition wf_grants :: "(string \<times> tombstone) list \<Rightarrow> bool" where
  "wf_grants al \<longleftrightarrow> distinct (map fst al) \<and> (\<forall>kv \<in> set al. token22 (fst kv) \<and> wf_tombstone (fst kv) (snd kv))"

definition wf_parts :: "refresh_state \<Rightarrow> bool" where
  "wf_parts s \<longleftrightarrow>
     pred_option valid_pair (active s) \<and> pred_option wf_lease (lease s) \<and>
     wf_access (revokedAccess s) \<and> wf_grants (revokedGrants s) \<and>
     wf_window 0 VNU_REFRESH_ATTEMPT_LIMIT (window s) \<and>
     pred_option (wf_window 1 VNU_MANUAL_ACTIVATION_LIMIT) (activationWindow s)"

definition wf_state :: "refresh_state \<Rightarrow> bool" where
  "wf_state s \<longleftrightarrow> wf_parts s \<and> lease_consistent s \<and> active_consistent s"

definition wf_stored :: "refresh_state option \<Rightarrow> bool" where
  "wf_stored stored = pred_option wf_state stored"

lemma wf_access_update:
  "wf_access al \<Longrightarrow> token22 k \<Longrightarrow> pos_safe e \<Longrightarrow> wf_access (AList.update k e al)"
  unfolding wf_access_def
  by (intro conjI distinct_update_keys update_ball) auto

lemma wf_grants_update:
  "wf_grants al \<Longrightarrow> token22 k \<Longrightarrow> wf_tombstone k t \<Longrightarrow> wf_grants (AList.update k t al)"
  unfolding wf_grants_def
  by (intro conjI distinct_update_keys update_ball) auto

lemma wf_access_filter: "wf_access al \<Longrightarrow> wf_access (filter P al)"
  by (auto simp: wf_access_def)

lemma wf_grants_filter: "wf_grants al \<Longrightarrow> wf_grants (filter P al)"
  by (auto simp: wf_grants_def)

lemma wf_linkedGrantTombstone: "valid_pair p \<Longrightarrow> wf_tombstone k (linkedGrantTombstone p)"
  by (simp add: linkedGrantTombstone_def valid_pair_def)

lemma valid_now_add: "valid_now t \<Longrightarrow> 0 \<le> d \<Longrightarrow> d \<le> 900000 \<Longrightarrow> pos_safe (t + d)"
  by (simp add: valid_now_def pos_safe_iff max_safe_integer_def)

lemma wf_emptyState: "valid_now now \<Longrightarrow> wf_state (emptyState now)"
  by (simp add: wf_state_def wf_parts_def emptyState_def wf_access_def wf_grants_def wf_window_def
      lease_consistent_def active_consistent_def valid_now_add refresh_constants)

lemma wf_stored_or_empty: "wf_stored stored \<Longrightarrow> valid_now now \<Longrightarrow> wf_state (stored_or_empty stored now)"
  by (cases stored) (simp_all add: stored_or_empty_def wf_emptyState wf_stored_def)

section \<open>Cleaning\<close>

lemma clean_simps:
  "active (cleanVnuRefreshState stored now) =
     (case active (stored_or_empty stored now) of
        Some p \<Rightarrow> if grantExpiresAt p > now then Some p else None | None \<Rightarrow> None)"
  "revokedAccess (cleanVnuRefreshState stored now) =
     filter (\<lambda>(_, e). e > now) (revokedAccess (stored_or_empty stored now))"
  "revokedGrants (cleanVnuRefreshState stored now) =
     filter (\<lambda>(_, t). grantTombstoneExpiresAt t > now) (revokedGrants (stored_or_empty stored now))"
  by (simp_all add: cleanVnuRefreshState_def Let_def)

lemma clean_wf:
  assumes "wf_stored stored" "valid_now now"
  shows "wf_state (cleanVnuRefreshState stored now)"
proof -
  let ?s = "stored_or_empty stored now" and ?c = "cleanVnuRefreshState stored now"
  have wf: "wf_state ?s" by (rule wf_stored_or_empty [OF assms])
  then have parts: "wf_parts ?s" and lc: "lease_consistent ?s" and ac: "active_consistent ?s"
    by (auto simp: wf_state_def)
  have da: "distinct (map fst (revokedAccess ?s))" and dg: "distinct (map fst (revokedGrants ?s))"
    using parts by (auto simp: wf_parts_def wf_access_def wf_grants_def)
  have "wf_parts ?c"
    using parts assms(2)
    by (auto simp: wf_parts_def cleanVnuRefreshState_def Let_def wf_access_filter wf_grants_filter
        wf_window_def valid_now_add refresh_constants split: option.splits)
  moreover have "lease_consistent ?c"
    using lc by (auto simp: lease_consistent_def cleanVnuRefreshState_def Let_def split: option.splits)
  moreover have "active_consistent ?c"
    using ac by (auto simp: active_consistent_def cleanVnuRefreshState_def Let_def map_of_filter_None
        split: option.splits if_splits)
  ultimately show ?thesis by (simp add: wf_state_def)
qed

lemma clean_active_future:
  "active (cleanVnuRefreshState stored now) = Some p \<Longrightarrow> now < grantExpiresAt p"
  by (auto simp: clean_simps split: option.splits if_splits)

lemma clean_lease_future:
  "lease (cleanVnuRefreshState stored now) = Some l \<Longrightarrow> now < lease_expiresAt l"
  by (auto simp: cleanVnuRefreshState_def Let_def split: option.splits if_splits)

text \<open>After cleaning, an entry is present exactly when JavaScript finds it truthy.\<close>

lemma clean_truthy_access:
  assumes "valid_now now"
  shows "truthy_expiry (map_of (revokedAccess (cleanVnuRefreshState stored now)) k) \<longleftrightarrow>
         map_of (revokedAccess (cleanVnuRefreshState stored now)) k \<noteq> None"
  using assms
  by (auto simp: truthy_expiry_def clean_simps valid_now_def dest!: map_of_SomeD split: option.splits)

lemma clean_truthy_grant:
  assumes "valid_now now"
  shows "truthy_tombstone (map_of (revokedGrants (cleanVnuRefreshState stored now)) k) \<longleftrightarrow>
         map_of (revokedGrants (cleanVnuRefreshState stored now)) k \<noteq> None"
  using assms
  by (auto simp: truthy_tombstone_def clean_simps valid_now_def dest!: map_of_SomeD
      split: option.splits tombstone.splits)

lemmas clean_truthy = clean_truthy_access clean_truthy_grant

section \<open>Every transition keeps the state well-formed\<close>

lemma revokeExact_wf:
  assumes "wf_parts s" "valid_pair p" "wf_tombstone (grantId p) t"
    and "\<And>l. lease s = Some l \<Longrightarrow> lease_pair l = p"
  shows "wf_state (revokeExact s p t)" "lease (revokeExact s p t) = None"
proof -
  show none: "lease (revokeExact s p t) = None"
    using assms(4) by (auto simp: revokeExact_def split: option.splits)
  have "token22 (accessTokenId p)" "pos_safe (accessExpiresAt p)" "token22 (grantId p)"
    using assms(2) by (auto simp: valid_pair_def)
  with assms(1,3) have "wf_parts (revokeExact s p t)"
    using none by (auto simp: wf_parts_def revokeExact_def wf_access_update wf_grants_update)
  then show "wf_state (revokeExact s p t)"
    using none by (simp add: wf_state_def lease_consistent_def active_consistent_def)
      (simp add: revokeExact_def)
qed

lemma wf_state_lease_active: "wf_state s \<Longrightarrow> lease s = Some l \<Longrightarrow> active s = Some (lease_pair l)"
  by (auto simp: wf_state_def lease_consistent_def)

lemma wf_state_active: "wf_state s \<Longrightarrow> active s = Some p \<Longrightarrow>
  valid_pair p \<and> map_of (revokedAccess s) (accessTokenId p) = None \<and> map_of (revokedGrants s) (grantId p) = None"
  by (auto simp: wf_state_def wf_parts_def active_consistent_def)

lemma revoke_active_wf:
  assumes "wf_state s" "active s = Some q" "wf_tombstone (grantId q) t"
  shows "wf_state (revokeExact s q t)" "lease (revokeExact s q t) = None"
proof -
  have parts: "wf_parts s" "valid_pair q"
    using assms(1) wf_state_active [OF assms(1,2)] by (auto simp: wf_state_def)
  have l: "lease_pair l = q" if "lease s = Some l" for l
    using wf_state_lease_active [OF assms(1) that] assms(2) by simp
  show "wf_state (revokeExact s q t)" "lease (revokeExact s q t) = None"
    using revokeExact_wf [OF parts assms(3) l] by auto
qed

text \<open>
  The callers mint both identifiers of a new pair at random; \<open>fresh_pair\<close> is what the
  transitions rely on: no live tombstone carries them and the active pair shares neither.
\<close>

definition fresh_pair :: "refresh_state \<Rightarrow> linked_pair \<Rightarrow> bool" where
  "fresh_pair s p \<longleftrightarrow>
     map_of (revokedAccess s) (accessTokenId p) = None \<and> map_of (revokedGrants s) (grantId p) = None \<and>
     (case active s of None \<Rightarrow> True
      | Some q \<Rightarrow> q = p \<or> accessTokenId q \<noteq> accessTokenId p \<and> grantId q \<noteq> grantId p)"

named_theorems transition_wf "transitions keep stored states well-formed"

lemma unchanged_wf:
  "wf_stored stored \<Longrightarrow> valid_now now \<Longrightarrow> wf_state (out_state (unchanged stored now r))"
  by (simp add: unchanged_def wf_stored_or_empty)

lemma activated_wf:
  assumes s: "wf_state s" and p: "valid_pair p" and fresh: "fresh_pair s p"
    and aw: "wf_window 1 VNU_MANUAL_ACTIVATION_LIMIT aw"
  shows "wf_state ((case active s of
            Some q \<Rightarrow> if \<not> samePair (active s) p then revokeExact s q (linkedGrantTombstone q) else s
          | None \<Rightarrow> s)\<lparr>active := Some p, lease := None, activationWindow := Some aw\<rparr>)"
proof -
  have install: "wf_state (r\<lparr>active := Some p, lease := None, activationWindow := Some aw\<rparr>)"
    if "wf_parts r" "map_of (revokedAccess r) (accessTokenId p) = None"
      "map_of (revokedGrants r) (grantId p) = None" for r
    using that p aw
    by (simp add: wf_state_def wf_parts_def lease_consistent_def active_consistent_def)
  have same: "wf_state (s\<lparr>active := Some p, lease := None, activationWindow := Some aw\<rparr>)"
    using s fresh by (intro install) (auto simp: wf_state_def fresh_pair_def)
  show ?thesis
  proof (cases "active s")
    case None
    then show ?thesis using same by simp
  next
    case (Some q)
    show ?thesis
    proof (cases "q = p")
      case True
      then show ?thesis using same Some by simp
    next
      case False
      let ?r = "revokeExact s q (linkedGrantTombstone q)"
      have "wf_state ?r"
        using wf_state_active [OF s Some] by (intro revoke_active_wf(1) [OF s Some] wf_linkedGrantTombstone) auto
      moreover have "map_of (revokedAccess ?r) (accessTokenId p) = None"
        "map_of (revokedGrants ?r) (grantId p) = None"
        using fresh Some False by (auto simp: revokeExact_def fresh_pair_def alist_simps)
      ultimately have "wf_state (?r\<lparr>active := Some p, lease := None, activationWindow := Some aw\<rparr>)"
        by (intro install) (auto simp: wf_state_def)
      then show ?thesis using False Some by simp
    qed
  qed
qed

lemma applyActivatePair_wf [transition_wf]:
  assumes "applyActivatePair stored p now = Inr out" "wf_stored stored" "valid_now now"
    and "fresh_pair (cleanVnuRefreshState stored now) p"
  shows "wf_state (out_state out)"
proof -
  let ?s = "cleanVnuRefreshState stored now"
  let ?lim = "case activationWindow ?s of Some w \<Rightarrow> win_count w \<ge> VNU_MANUAL_ACTIVATION_LIMIT | None \<Rightarrow> False"
  let ?aw = "case activationWindow ?s of
      Some w \<Rightarrow> w\<lparr>win_count := win_count w + 1\<rparr>
    | None \<Rightarrow> \<lparr>win_count = 1, win_resetAt = now + VNU_MANUAL_ACTIVATION_WINDOW_MS\<rparr>"
  have s: "wf_state ?s" by (rule clean_wf [OF assms(2,3)])
  have p: "valid_pair p" using assms(1) by (auto simp: applyActivatePair_def split: if_splits)
  show ?thesis
  proof (cases "?lim \<or> (case stored of Some s \<Rightarrow> samePair (active s) p \<and> lease s = None | None \<Rightarrow> False)")
    case True
    then have "\<exists>r. out = unchanged stored now r"
      using assms(1) p by (auto simp: applyActivatePair_def Let_def split: if_splits)
    then show ?thesis using unchanged_wf [OF assms(2,3)] by auto
  next
    case False
    have "wf_window 1 VNU_MANUAL_ACTIVATION_LIMIT ?aw"
      using s False assms(3)
      by (auto simp: wf_state_def wf_parts_def wf_window_def refresh_constants valid_now_add split: option.splits)
    from activated_wf [OF s p assms(4) this] show ?thesis
      using False assms(1) p unfolding applyActivatePair_def Let_def changed_def by auto
  qed
qed

lemma applyBeginRefresh_wf [transition_wf]:
  assumes "applyBeginRefresh stored p now = Inr out" "wf_stored stored" "valid_now now"
  shows "wf_state (out_state out)"
proof -
  let ?s = "cleanVnuRefreshState stored now"
  have s: "wf_state ?s" by (rule clean_wf [OF assms(2,3)])
  have p: "valid_pair p" using assms(1) by (auto simp: applyBeginRefresh_def split: if_splits)
  have "out_state out = stored_or_empty stored now \<or>
     (active ?s = Some p \<and> win_count (window ?s) < VNU_REFRESH_ATTEMPT_LIMIT \<and> now < grantExpiresAt p \<and>
      out_state out = ?s\<lparr>lease := Some \<lparr>lease_pair = p, lease_expiresAt = min (now + VNU_REFRESH_LEASE_MS) (grantExpiresAt p)\<rparr>,
        window := (window ?s)\<lparr>win_count := win_count (window ?s) + 1\<rparr>\<rparr>)"
    using assms(1) p
    by (auto simp: applyBeginRefresh_def Let_def unchanged_def changed_def split: if_splits)
  then show ?thesis
  proof
    assume "out_state out = stored_or_empty stored now"
    then show ?thesis using wf_stored_or_empty [OF assms(2,3)] by simp
  next
    assume *: "active ?s = Some p \<and> win_count (window ?s) < VNU_REFRESH_ATTEMPT_LIMIT \<and> now < grantExpiresAt p \<and>
      out_state out = ?s\<lparr>lease := Some \<lparr>lease_pair = p, lease_expiresAt = min (now + VNU_REFRESH_LEASE_MS) (grantExpiresAt p)\<rparr>,
        window := (window ?s)\<lparr>win_count := win_count (window ?s) + 1\<rparr>\<rparr>"
    have "pos_safe (min (now + VNU_REFRESH_LEASE_MS) (grantExpiresAt p))"
      using assms(3) p valid_now_add [OF assms(3), of VNU_REFRESH_LEASE_MS]
      by (auto simp: min_def valid_pair_def refresh_constants)
    then show ?thesis
      using * s p
      by (auto simp: wf_state_def wf_parts_def wf_lease_def wf_window_def lease_consistent_def active_consistent_def)
  qed
qed

lemma applyCompleteRefresh_cases:
  assumes "applyCompleteRefresh stored old nxt now = Inr out"
  shows "valid_pair old \<and> valid_pair nxt \<and> grantExpiresAt nxt = grantExpiresAt old \<and>
    accessTokenId nxt \<noteq> accessTokenId old \<and> grantId nxt \<noteq> grantId old \<and>
    (out = unchanged stored now CompleteRevoked \<or>
     (\<exists>s0. stored = Some s0 \<and> map_of (revokedAccess s0) (accessTokenId nxt) = None \<and>
       map_of (revokedGrants s0) (grantId nxt) = None \<and>
       now < grantExpiresAt old \<and>
       active (cleanVnuRefreshState stored now) = Some old \<and>
       map_option lease_pair (lease (cleanVnuRefreshState stored now)) = Some old \<and>
       out = changed stored ((revokeExact (cleanVnuRefreshState stored now) old
                (refreshSuccessorGrantTombstone old nxt))\<lparr>active := Some nxt\<rparr>) Completed))"
proof (cases stored)
  case None
  then have "active (cleanVnuRefreshState stored now) = None"
    by (simp add: clean_simps stored_or_empty_def emptyState_def)
  with None assms show ?thesis
    by (auto simp: applyCompleteRefresh_def Let_def split: if_splits)
next
  case (Some s0)
  with assms show ?thesis
    by (auto simp: applyCompleteRefresh_def Let_def split: if_splits option.splits)
qed

lemma rotate_wf:
  assumes s: "wf_state s" and a: "active s = Some old" and n: "valid_pair nxt"
    and e: "grantExpiresAt nxt = grantExpiresAt old"
    and ne: "accessTokenId nxt \<noteq> accessTokenId old" "grantId nxt \<noteq> grantId old"
    and free: "map_of (revokedAccess s) (accessTokenId nxt) = None" "map_of (revokedGrants s) (grantId nxt) = None"
  shows "wf_state ((revokeExact s old (refreshSuccessorGrantTombstone old nxt))\<lparr>active := Some nxt\<rparr>)"
proof -
  let ?r = "revokeExact s old (refreshSuccessorGrantTombstone old nxt)"
  have "valid_pair old" using wf_state_active [OF s a] by simp
  with n e ne have t: "wf_tombstone (grantId old) (refreshSuccessorGrantTombstone old nxt)"
    by (auto simp: refreshSuccessorGrantTombstone_def valid_pair_def)
  have r: "wf_state ?r" "lease ?r = None" using revoke_active_wf [OF s a t] by auto
  have "map_of (revokedAccess ?r) (accessTokenId nxt) = None" "map_of (revokedGrants ?r) (grantId nxt) = None"
    using free ne by (auto simp: revokeExact_def alist_simps)
  with r n show ?thesis
    by (auto simp: wf_state_def wf_parts_def lease_consistent_def active_consistent_def)
qed

lemma clean_no_tombstone:
  assumes "stored = Some s0"
  shows "map_of (revokedAccess s0) k = None \<Longrightarrow> map_of (revokedAccess (cleanVnuRefreshState stored now)) k = None"
    and "map_of (revokedGrants s0) k = None \<Longrightarrow> map_of (revokedGrants (cleanVnuRefreshState stored now)) k = None"
  using assms by (auto simp: clean_simps stored_or_empty_def map_of_filter_None)

lemma applyCompleteRefresh_wf [transition_wf]:
  assumes "applyCompleteRefresh stored old nxt now = Inr out" "wf_stored stored" "valid_now now"
  shows "wf_state (out_state out)"
  using applyCompleteRefresh_cases [OF assms(1)] unchanged_wf [OF assms(2,3)] clean_wf [OF assms(2,3)]
  by (auto simp: changed_def intro!: rotate_wf clean_no_tombstone)

lemma applyAbortRefresh_wf [transition_wf]:
  assumes "applyAbortRefresh stored p terminal now = Inr out" "wf_stored stored" "valid_now now"
  shows "wf_state (out_state out)"
proof -
  let ?s = "cleanVnuRefreshState stored now"
  have s: "wf_state ?s" by (rule clean_wf [OF assms(2,3)])
  have rev: "wf_state (revokeExact ?s p (linkedGrantTombstone p))" if "active ?s = Some p"
    using revoke_active_wf(1) [OF s that] wf_state_active [OF s that] by (auto intro: wf_linkedGrantTombstone)
  have drop: "wf_state (?s\<lparr>lease := None\<rparr>)"
    using s by (auto simp: wf_state_def wf_parts_def lease_consistent_def active_consistent_def split: option.splits)
  show ?thesis
    using assms(1) rev drop unchanged_wf [OF assms(2,3)]
    by (auto simp: applyAbortRefresh_def Let_def changed_def split: if_splits option.splits)
qed

lemma applyRevokeLinkedPairByAccess_wf [transition_wf]:
  assumes "applyRevokeLinkedPairByAccess stored p now = Inr out" "wf_stored stored" "valid_now now"
  shows "wf_state (out_state out)"
proof -
  let ?s = "cleanVnuRefreshState stored now"
  have s: "wf_state ?s" by (rule clean_wf [OF assms(2,3)])
  have rev: "wf_state (revokeExact ?s p (linkedGrantTombstone p))" if "active ?s = Some p"
    using revoke_active_wf(1) [OF s that] wf_state_active [OF s that] by (auto intro: wf_linkedGrantTombstone)
  show ?thesis
    using assms(1) rev unchanged_wf [OF assms(2,3)]
    by (auto simp: applyRevokeLinkedPairByAccess_def Let_def changed_def split: if_splits)
qed

lemma applyRevokePrincipalByLinkedGrant_wf [transition_wf]:
  assumes "applyRevokePrincipalByLinkedGrant stored p now = Inr out" "wf_stored stored" "valid_now now"
  shows "wf_state (out_state out)"
proof -
  let ?s = "cleanVnuRefreshState stored now"
  let ?m = "?s\<lparr>revokedAccess := AList.update (accessTokenId p) (accessExpiresAt p) (revokedAccess ?s),
               revokedGrants := AList.update (grantId p) (linkedGrantTombstone p) (revokedGrants ?s)\<rparr>"
  have s: "wf_state ?s" by (rule clean_wf [OF assms(2,3)])
  have p: "valid_pair p"
    using assms(1) by (auto simp: applyRevokePrincipalByLinkedGrant_def split: if_splits)
  have m: "wf_parts ?m"
    using s p by (auto simp: wf_state_def wf_parts_def wf_linkedGrantTombstone valid_pair_def
        intro!: wf_access_update wf_grants_update)
  have rev: "wf_state (revokeExact ?m q (linkedGrantTombstone q))" if "active ?s = Some q" for q
    using wf_state_active [OF s that] wf_state_lease_active [OF s] that
    by (intro revokeExact_wf(1) [OF m]) (auto intro: wf_linkedGrantTombstone)
  show ?thesis
    using assms(1) rev unchanged_wf [OF assms(2,3)] p
    by (auto simp: applyRevokePrincipalByLinkedGrant_def Let_def changed_def split: if_splits option.splits)
qed

lemma applyCheckAccess_wf [transition_wf]:
  assumes "applyCheckAccess stored p now = Inr out" "wf_stored stored" "valid_now now"
  shows "wf_state (out_state out)"
  using assms(1) clean_wf [OF assms(2,3)] by (auto simp: applyCheckAccess_def Let_def split: if_splits)

end
