(* ===== verification/RefreshStore.thy ===== *)
theory RefreshStore
  imports RefreshControl
begin

text \<open>
  The durable authority around the refresh transitions:
  \<open>apps/worker/src/vnu/vnu-refresh-control-durable-object.ts\<close> (one storage cell, one alarm,
  every request a storage transaction) and the coordinator class of
  \<open>vnu-refresh-control.ts\<close> that maps a principal to its object and every failure to one
  error. The cell holds the structured clone of the state, an untyped value that is parsed
  again by the next request.
\<close>

section \<open>The stored form of a state\<close>

definition enc_pair :: "linked_pair \<Rightarrow> jval" where
  "enc_pair p = JObj [(''accessTokenId'', JStr (accessTokenId p)), (''accessExpiresAt'', JInt (accessExpiresAt p)),
     (''grantId'', JStr (grantId p)), (''grantExpiresAt'', JInt (grantExpiresAt p))]"

definition enc_lease :: "refresh_lease \<Rightarrow> jval" where
  "enc_lease l = JObj [(''pair'', enc_pair (lease_pair l)), (''expiresAt'', JInt (lease_expiresAt l))]"

definition enc_window :: "refresh_window \<Rightarrow> jval" where
  "enc_window w = JObj [(''count'', JInt (win_count w)), (''resetAt'', JInt (win_resetAt w))]"

fun enc_tombstone :: "tombstone \<Rightarrow> jval" where
  "enc_tombstone (Expiry e) = JInt e"
| "enc_tombstone (Linked a ae ge succ) = JObj (
     [(''accessTokenId'', JStr a), (''accessExpiresAt'', JInt ae), (''grantExpiresAt'', JInt ge)] @
     (case succ of None \<Rightarrow> [] | Some p \<Rightarrow> [(''refreshSuccessor'', enc_pair p)]))"

definition enc_option :: "('a \<Rightarrow> jval) \<Rightarrow> 'a option \<Rightarrow> jval" where
  "enc_option f x = (case x of None \<Rightarrow> JUndefined | Some y \<Rightarrow> f y)"

definition enc_state :: "refresh_state \<Rightarrow> jval" where
  "enc_state s = JObj (
     [(''active'', enc_option enc_pair (active s)),
      (''lease'', enc_option enc_lease (lease s)),
      (''revokedAccess'', JObj (map (\<lambda>(k, e). (k, JInt e)) (revokedAccess s))),
      (''revokedGrants'', JObj (map (\<lambda>(k, t). (k, enc_tombstone t)) (revokedGrants s))),
      (''window'', enc_window (window s))] @
     (case activationWindow s of None \<Rightarrow> [] | Some w \<Rightarrow> [(''activationWindow'', enc_window w)]))"

subsection \<open>Parsing what was stored\<close>

lemma pair_keys_sorted:
  "sort [''accessTokenId'', ''accessExpiresAt'', ''grantId'', ''grantExpiresAt''] =
   [''accessExpiresAt'', ''accessTokenId'', ''grantExpiresAt'', ''grantId'']"
  by code_simp

lemma other_keys_sorted:
  "join_keys (sort [''pair'', ''expiresAt'']) = ''expiresAt,pair''"
  "join_keys (sort [''count'', ''resetAt'']) = ''count,resetAt''"
  "join_keys (sort [''accessTokenId'', ''accessExpiresAt'', ''grantExpiresAt'']) =
     ''accessExpiresAt,accessTokenId,grantExpiresAt''"
  "join_keys (sort [''accessTokenId'', ''accessExpiresAt'', ''grantExpiresAt'', ''refreshSuccessor'']) =
     ''accessExpiresAt,accessTokenId,grantExpiresAt,refreshSuccessor''"
  by code_simp+

lemma parse_enc_pair: "assertLinkedPair (enc_pair p) = (if valid_pair p then Inr p else Inl InvalidPair)"
  using pair_keys_sorted by (simp add: assertLinkedPair_def enc_pair_def valid_pair_def)

lemma parse_enc_window:
  "wf_window least most w \<Longrightarrow> - max_safe_integer \<le> least \<Longrightarrow> most \<le> max_safe_integer \<Longrightarrow>
   parseWindow least most (enc_window w) = Inr w"
  using other_keys_sorted(2)
  by (simp add: parseWindow_def enc_window_def sorted_keys_def wf_window_def safe_integer_def)

lemma parse_enc_lease: "wf_lease l \<Longrightarrow> parseLease (enc_lease l) = Inr l"
  using other_keys_sorted(1)
  by (simp add: parseLease_def enc_lease_def sorted_keys_def wf_lease_def parse_enc_pair)

lemma enc_pair_not_undefined [simp]: "enc_pair p \<noteq> JUndefined"
  by (simp add: enc_pair_def)

lemma parse_enc_grant:
  "token22 k \<Longrightarrow> wf_tombstone k t \<Longrightarrow> parseGrantEntry (k, enc_tombstone t) = Inr (k, t)"
  using other_keys_sorted(3,4)
  by (cases t)
    (auto simp: parseGrantEntry_def assertLinkedGrantTombstone_def sorted_keys_def parse_enc_pair
      split: option.splits)

lemma parse_enc_access: "token22 k \<Longrightarrow> pos_safe e \<Longrightarrow> parseAccessEntry (k, JInt e) = Inr (k, e)"
  by simp

lemma parse_enc_state:
  assumes "wf_state s"
  shows "parseVnuRefreshControlState (enc_state s) = Inr (Some s)"
proof -
  have parts: "wf_parts s" "lease_consistent s" "active_consistent s"
    using assms by (auto simp: wf_state_def)
  have act: "optional assertLinkedPair (enc_option enc_pair (active s)) = Inr (active s)"
    using parts(1) by (cases "active s") (auto simp: optional_def enc_option_def wf_parts_def parse_enc_pair)
  have lea: "optional parseLease (enc_option enc_lease (lease s)) = Inr (lease s)"
    using parts(1) by (cases "lease s") (auto simp: optional_def enc_option_def wf_parts_def parse_enc_lease, simp add: enc_lease_def)
  have ra: "parseEntries parseAccessEntry (JObj (map (\<lambda>(k, e). (k, JInt e)) (revokedAccess s))) = Inr (revokedAccess s)"
    using parts(1) unfolding parseEntries_def jval.case
    by (intro traverse_map_Inr) (auto simp: wf_parts_def wf_access_def)
  have rg: "parseEntries parseGrantEntry (JObj (map (\<lambda>(k, t). (k, enc_tombstone t)) (revokedGrants s))) = Inr (revokedGrants s)"
    using parts(1) unfolding parseEntries_def jval.case
    by (intro traverse_map_Inr) (auto simp: wf_parts_def wf_grants_def parse_enc_grant)
  have w: "parseWindow 0 VNU_REFRESH_ATTEMPT_LIMIT (enc_window (window s)) = Inr (window s)"
    using parts(1) by (intro parse_enc_window) (auto simp: wf_parts_def refresh_constants max_safe_integer_def)
  have aw: "optional assertActivationWindow (case activationWindow s of None \<Rightarrow> JUndefined | Some w \<Rightarrow> enc_window w)
      = Inr (activationWindow s)"
  proof (cases "activationWindow s")
    case None
    then show ?thesis by (simp add: optional_def)
  next
    case (Some w)
    with parts(1) have "wf_window 1 VNU_MANUAL_ACTIVATION_LIMIT w" by (simp add: wf_parts_def)
    then have "assertActivationWindow (enc_window w) = Inr w"
      unfolding assertActivationWindow_def
      by (intro parse_enc_window) (auto simp: refresh_constants max_safe_integer_def)
    with Some show ?thesis by (simp add: optional_def) (simp add: enc_window_def)
  qed
  show ?thesis
    using act lea ra rg w aw parts(2,3)
    by (cases s; cases "activationWindow s")
      (simp_all add: parseVnuRefreshControlState_def enc_state_def state_keys_def Let_def)
qed

lemma enc_state_not_undefined [simp]: "enc_state s \<noteq> JUndefined"
  by (simp add: enc_state_def)

text \<open>Only the six fields matter.\<close>

lemma parse_fields:
  assumes "\<And>k. k \<in> set state_keys \<Longrightarrow> field k kvs = field k kvs'"
    "list_all (\<lambda>(k, _). k \<in> set state_keys) kvs" "list_all (\<lambda>(k, _). k \<in> set state_keys) kvs'"
  shows "parseVnuRefreshControlState (JObj kvs) = parseVnuRefreshControlState (JObj kvs')"
  using assms by (simp add: parseVnuRefreshControlState_def state_keys_def)

text \<open>Conversely, whatever the parser accepts is well-formed.\<close>

lemma assertLinkedPair_sound: "assertLinkedPair v = Inr p \<Longrightarrow> valid_pair p"
  by (auto simp: assertLinkedPair_def valid_pair_def split: jval.splits if_splits)

lemma parseLease_sound: "parseLease v = Inr l \<Longrightarrow> wf_lease l"
proof -
  assume r: "parseLease v = Inr l"
  then obtain kvs p where kvs: "v = JObj kvs" "sorted_keys kvs = ''expiresAt,pair''"
    and p: "assertLinkedPair (field ''pair'' kvs) = Inr p"
    by (cases v) (auto simp: parseLease_def sbind_Inr_iff split: if_splits)
  with r show ?thesis
    by (cases "field ''expiresAt'' kvs")
      (auto simp: parseLease_def wf_lease_def assertLinkedPair_sound split: if_splits)
qed

lemma parseWindow_sound: "parseWindow least most v = Inr w \<Longrightarrow> wf_window least most w"
  by (auto simp: parseWindow_def wf_window_def split: jval.splits if_splits)

lemma parseAccessEntry_sound:
  "parseAccessEntry (k, v) = Inr (k', e) \<Longrightarrow> k' = k \<and> token22 k \<and> pos_safe e"
  by (cases v) (auto split: if_splits)

lemma assertLinkedGrantTombstone_sound: "assertLinkedGrantTombstone v k = Inr t \<Longrightarrow> wf_tombstone k t"
  by (auto simp: assertLinkedGrantTombstone_def sbind_Inr_iff assertLinkedPair_sound
      split: jval.splits if_splits)

lemma parseGrantEntry_sound:
  "parseGrantEntry (k, v) = Inr (k', t) \<Longrightarrow> k' = k \<and> token22 k \<and> wf_tombstone k t"
  by (auto simp: parseGrantEntry_def sbind_Inr_iff dest: assertLinkedGrantTombstone_sound
      split: jval.splits if_splits)

lemma parseEntries_sound:
  assumes f: "\<And>k v k' e. f (k, v) = Inr (k', e) \<Longrightarrow> k' = k \<and> P k e"
    and r: "parseEntries f v = Inr al" and v: "js_value v"
  shows "distinct (map fst al) \<and> (\<forall>kv \<in> set al. P (fst kv) (snd kv))"
proof -
  obtain kvs where kvs: "v = JObj kvs" "traverse f kvs = Inr al"
    using r by (auto simp: parseEntries_def split: jval.splits)
  then have *: "list_all2 (\<lambda>x y. f x = Inr y) kvs al" by (simp add: traverse_Inr_iff)
  then have "map fst al = map fst kvs"
    by (induction rule: list_all2_induct) (auto dest: f)
  moreover have "\<forall>kv \<in> set al. P (fst kv) (snd kv)"
    using * by (induction rule: list_all2_induct) (auto dest: f)
  ultimately show ?thesis using kvs(1) v by simp
qed

lemma optional_sound: "(\<And>v x. p v = Inr x \<Longrightarrow> P x) \<Longrightarrow> optional p v = Inr y \<Longrightarrow> pred_option P y"
  by (auto simp: optional_def sbind_Inr_iff split: if_splits)

lemma parse_state_sound:
  assumes r: "parseVnuRefreshControlState v = Inr (Some s)" and v: "js_value v"
  shows "wf_state s"
proof -
  obtain kvs act lea ra rg w aw where kvs: "v = JObj kvs"
    and act: "optional assertLinkedPair (field ''active'' kvs) = Inr act"
    and lea: "optional parseLease (field ''lease'' kvs) = Inr lea"
    and ra: "parseEntries parseAccessEntry (field ''revokedAccess'' kvs) = Inr ra"
    and rg: "parseEntries parseGrantEntry (field ''revokedGrants'' kvs) = Inr rg"
    and w: "parseWindow 0 VNU_REFRESH_ATTEMPT_LIMIT (field ''window'' kvs) = Inr w"
    and aw: "optional assertActivationWindow (field ''activationWindow'' kvs) = Inr aw"
    and s: "s = \<lparr>active = act, lease = lea, revokedAccess = ra, revokedGrants = rg,
                 window = w, activationWindow = aw\<rparr>" "lease_consistent s" "active_consistent s"
    using r by (auto simp: parseVnuRefreshControlState_def sbind_Inr_iff Let_def split: jval.splits if_splits)
  have fields: "js_value (field k kvs)" for k using v kvs by (simp add: js_value_field del: js_value.simps)
  have "wf_access ra"
    using parseEntries_sound [OF _ ra fields, of "\<lambda>k e. token22 k \<and> pos_safe e"]
    by (auto simp: wf_access_def dest: parseAccessEntry_sound)
  moreover have "wf_grants rg"
    using parseEntries_sound [OF _ rg fields, of "\<lambda>k t. token22 k \<and> wf_tombstone k t"]
    by (auto simp: wf_grants_def dest: parseGrantEntry_sound)
  moreover have "pred_option valid_pair act" by (rule optional_sound [OF assertLinkedPair_sound act])
  moreover have "pred_option wf_lease lea" by (rule optional_sound [OF parseLease_sound lea])
  moreover have "wf_window 0 VNU_REFRESH_ATTEMPT_LIMIT w" by (rule parseWindow_sound [OF w])
  moreover have "pred_option (wf_window 1 VNU_MANUAL_ACTIVATION_LIMIT) aw"
    by (rule optional_sound [OF parseWindow_sound aw [unfolded assertActivationWindow_def]])
  ultimately show ?thesis using s by (simp add: wf_state_def wf_parts_def)
qed

section \<open>The durable object\<close>

record do_store =
  cell :: jval
  alarm_at :: "int option"

definition empty_store :: do_store where
  "empty_store = \<lparr>cell = JUndefined, alarm_at = None\<rparr>"

text \<open>The writes of a transaction whose transition reported a change.\<close>

definition commit :: "'a transition_output \<Rightarrow> do_store \<Rightarrow> do_store" where
  "commit out st = (if out_changed out
     then st\<lparr>cell := (if isQuiescentVnuRefreshState (out_state out) then JUndefined else enc_state (out_state out)),
             alarm_at := nextVnuRefreshAlarm (out_state out)\<rparr>
     else st)"

text \<open>An exception leaves the storage as it was: the transaction is rolled back.\<close>

definition mutate ::
  "(refresh_state option \<Rightarrow> int \<Rightarrow> refresh_error + 'a transition_output) \<Rightarrow> do_store \<Rightarrow> int \<Rightarrow>
   (refresh_error + 'a) \<times> do_store" where
  "mutate transition st now = (case parseVnuRefreshControlState (cell st) of
     Inl e \<Rightarrow> (Inl e, st)
   | Inr stored \<Rightarrow> (case transition stored now of
       Inl e \<Rightarrow> (Inl e, st)
     | Inr out \<Rightarrow> (Inr (out_result out), commit out st)))"

text \<open>
  The value \<open>raw\<close> read outside the transaction decides only whether a transaction is
  needed; the reply then comes from the state \<open>st\<close> the transaction finds.
\<close>

definition checkAccessAuthoritatively ::
  "jval \<Rightarrow> do_store \<Rightarrow> linked_pair \<Rightarrow> int \<Rightarrow> (refresh_error + access_result) \<times> do_store" where
  "checkAccessAuthoritatively raw st access now = (
     if \<not> valid_pair access then (Inl InvalidPair, st)
     else (case parseVnuRefreshControlState raw of
       Inl e \<Rightarrow> (Inl e, st)
     | Inr stored \<Rightarrow> (case applyCheckAccess stored access now of
         Inl e \<Rightarrow> (Inl e, st)
       | Inr checked \<Rightarrow>
           if \<not> out_changed checked then (Inr (out_result checked), st)
           else mutate (\<lambda>stored now. applyCheckAccess stored access now) st now)))"

definition alarm_transition :: "refresh_state option \<Rightarrow> int \<Rightarrow> refresh_error + unit transition_output" where
  "alarm_transition stored now = (let nxt = cleanVnuRefreshState stored now in
     Inr \<lparr>out_state = nxt, out_result = (),
          out_changed = (stored \<noteq> None \<and> \<not> sameVnuRefreshState stored nxt)\<rparr>)"

datatype refresh_call =
    CActivate linked_pair
  | CCheck linked_pair
  | CBegin linked_pair
  | CComplete linked_pair linked_pair
  | CAbort linked_pair bool
  | CRevokeByAccess linked_pair
  | CRevokePrincipal linked_pair
  | CRevokeExact linked_pair
  | CAlarm

datatype refresh_reply =
    RActivate activate_result
  | RCheck access_result
  | RBegin begin_result
  | RComplete complete_result
  | RAbort abort_result
  | RRevoke revoke_result
  | RAlarm

definition reply :: "('a \<Rightarrow> refresh_reply) \<Rightarrow> (refresh_error + 'a) \<times> do_store \<Rightarrow> (refresh_error + refresh_reply) \<times> do_store" where
  "reply f r = (map_sum id f (fst r), snd r)"

fun handle :: "do_store \<Rightarrow> int \<Rightarrow> refresh_call \<Rightarrow> (refresh_error + refresh_reply) \<times> do_store" where
  "handle st now (CActivate p) = reply RActivate (mutate (\<lambda>s t. applyActivatePair s p t) st now)"
| "handle st now (CCheck p) = reply RCheck (checkAccessAuthoritatively (cell st) st p now)"
| "handle st now (CBegin p) = reply RBegin (mutate (\<lambda>s t. applyBeginRefresh s p t) st now)"
| "handle st now (CComplete old nxt) = reply RComplete (mutate (\<lambda>s t. applyCompleteRefresh s old nxt t) st now)"
| "handle st now (CAbort p terminal) = reply RAbort (mutate (\<lambda>s t. applyAbortRefresh s p terminal t) st now)"
| "handle st now (CRevokeByAccess p) = reply RRevoke (mutate (\<lambda>s t. applyRevokeLinkedPairByAccess s p t) st now)"
| "handle st now (CRevokePrincipal p) = reply RRevoke (mutate (\<lambda>s t. applyRevokePrincipalByLinkedGrant s p t) st now)"
| "handle st now (CRevokeExact p) = reply RRevoke (mutate (\<lambda>s t. applyRevokeExactLinkedPair s p t) st now)"
| "handle st now CAlarm = reply (\<lambda>_. RAlarm) (mutate alarm_transition st now)"

text \<open>The state a request finds, and one step of the object.\<close>

definition view :: "do_store \<Rightarrow> refresh_state option" where
  "view st = (case parseVnuRefreshControlState (cell st) of Inl _ \<Rightarrow> None | Inr stored \<Rightarrow> stored)"

fun do_step :: "do_store \<Rightarrow> int \<times> refresh_call \<Rightarrow> do_store" where
  "do_step st (now, call) = snd (handle st now call)"

text \<open>Admissible requests: the clock is a date, and an activation brings fresh identifiers.\<close>

fun call_ok :: "do_store \<Rightarrow> int \<times> refresh_call \<Rightarrow> bool" where
  "call_ok st (now, CActivate p) = (valid_now now \<and> fresh_pair (cleanVnuRefreshState (view st) now) p)"
| "call_ok st (now, _) = valid_now now"

definition store_inv :: "do_store \<Rightarrow> bool" where
  "store_inv st \<longleftrightarrow> st = empty_store \<or>
     (\<exists>s. wf_state s \<and> \<not> isQuiescentVnuRefreshState s \<and>
          st = \<lparr>cell = enc_state s, alarm_at = nextVnuRefreshAlarm s\<rparr>)"

subsection \<open>What every request keeps\<close>

lemma store_inv_empty: "store_inv empty_store"
  by (simp add: store_inv_def)

lemma parse_undefined [simp]: "parseVnuRefreshControlState JUndefined = Inr None"
  by (simp add: parseVnuRefreshControlState_def)

lemma view_empty [simp]: "view empty_store = None"
  by (simp add: view_def empty_store_def)

lemma store_inv_parse:
  "store_inv st \<Longrightarrow> parseVnuRefreshControlState (cell st) = Inr (view st) \<and> wf_stored (view st)"
  by (auto simp: store_inv_def view_def empty_store_def wf_stored_def parse_enc_state)

lemma alarm_quiescent:
  "isQuiescentVnuRefreshState s \<Longrightarrow> nextVnuRefreshAlarm s = None"
  by (auto simp: isQuiescentVnuRefreshState_def nextVnuRefreshAlarm_def expiry_times_def)

lemma commit_inv:
  assumes "store_inv st" "out_changed out \<longrightarrow> wf_state (out_state out)"
  shows "store_inv (commit out st)"
  using assms alarm_quiescent [of "out_state out"]
  by (auto simp: commit_def store_inv_def empty_store_def)

lemma mutate_inv:
  assumes "store_inv st"
    and "\<And>out. f (view st) now = Inr out \<Longrightarrow> out_changed out \<Longrightarrow> wf_state (out_state out)"
  shows "store_inv (snd (mutate f st now))"
  using assms store_inv_parse [OF assms(1)]
  by (auto simp: mutate_def intro!: commit_inv split: sum.splits)

lemma alarm_transition_wf:
  "alarm_transition stored now = Inr out \<Longrightarrow> wf_stored stored \<Longrightarrow> valid_now now \<Longrightarrow> wf_state (out_state out)"
  by (auto simp: alarm_transition_def Let_def clean_wf)

lemma check_inv:
  "store_inv st \<Longrightarrow> valid_now now \<Longrightarrow> store_inv (snd (checkAccessAuthoritatively raw st p now))"
  using store_inv_parse [of st]
  by (auto simp: checkAccessAuthoritatively_def intro!: mutate_inv applyCheckAccess_wf split: sum.splits)

lemma snd_reply [simp]: "snd (reply f r) = snd r"
  by (simp add: reply_def)

lemma call_ok_valid: "call_ok st (now, call) \<Longrightarrow> valid_now now"
  by (cases call) auto

lemma handle_inv:
  assumes "store_inv st" "call_ok st (now, call)"
  shows "store_inv (snd (handle st now call))"
proof -
  note now = call_ok_valid [OF assms(2)]
  have wf: "wf_stored (view st)" using store_inv_parse [OF assms(1)] by simp
  show ?thesis
    using assms(2)
    by (cases call)
      (auto simp: applyRevokeExactLinkedPair_def
        intro!: mutate_inv [OF assms(1)] check_inv [OF assms(1) now]
        intro: transition_wf [OF _ wf now] alarm_transition_wf [OF _ wf now])
qed

text \<open>No request of an admissible run finds the cell unreadable.\<close>

lemma transition_no_state_error:
  "applyActivatePair s p t \<noteq> Inl InvalidState" "applyCheckAccess s p t \<noteq> Inl InvalidState"
  "applyBeginRefresh s p t \<noteq> Inl InvalidState" "applyCompleteRefresh s p q t \<noteq> Inl InvalidState"
  "applyAbortRefresh s p b t \<noteq> Inl InvalidState" "applyRevokeLinkedPairByAccess s p t \<noteq> Inl InvalidState"
  "applyRevokePrincipalByLinkedGrant s p t \<noteq> Inl InvalidState" "alarm_transition s t \<noteq> Inl InvalidState"
  by (auto simp: applyActivatePair_def applyCheckAccess_def applyBeginRefresh_def applyCompleteRefresh_def
      applyAbortRefresh_def applyRevokeLinkedPairByAccess_def applyRevokePrincipalByLinkedGrant_def
      alarm_transition_def Let_def split: option.splits)

lemma handle_readable:
  assumes "store_inv st"
  shows "fst (handle st now call) \<noteq> Inl InvalidState"
proof -
  have m: "fst (mutate f st now) \<noteq> Inl InvalidState" if "f (view st) now \<noteq> Inl InvalidState" for f :: "_ \<Rightarrow> _ \<Rightarrow> _ + 'a transition_output"
    using that store_inv_parse [OF assms] by (auto simp: mutate_def split: sum.splits)
  have c: "fst (checkAccessAuthoritatively (cell st) st p now) \<noteq> Inl InvalidState" for p
    using store_inv_parse [OF assms] transition_no_state_error(2)
    by (auto simp: checkAccessAuthoritatively_def mutate_def split: sum.splits)
  have r: "map_sum id g x \<noteq> Inl InvalidState" if "x \<noteq> Inl InvalidState" for g :: "'b \<Rightarrow> refresh_reply" and x
    using that by (cases x) auto
  show ?thesis
    using store_inv_parse [OF assms]
    by (cases call)
      (auto simp: reply_def mutate_def applyRevokeExactLinkedPair_def transition_no_state_error c
        split: sum.splits intro!: r dest: sym)
qed

interpretation refresh_machine: machine do_step call_ok store_inv
  by unfold_locales (auto intro: handle_inv)

section \<open>The coordinator\<close>

definition vnuRefreshUnavailable :: hyeboard_error where
  "vnuRefreshUnavailable = \<lparr>err_code = ''VNU_REFRESH_UNAVAILABLE'',
     err_message = ''VNU reconnect is temporarily unavailable. Try again.'',
     err_status = 503, err_details = [(''retryAfterSeconds'', JInt 5)]\<rparr>"

text \<open>The pairs a request carries; the coordinator asserts them before it sends the request.\<close>

fun call_pairs :: "refresh_call \<Rightarrow> linked_pair list" where
  "call_pairs (CActivate p) = [p]"
| "call_pairs (CCheck p) = [p]"
| "call_pairs (CBegin p) = [p]"
| "call_pairs (CComplete old nxt) = [old, nxt]"
| "call_pairs (CAbort p _) = [p]"
| "call_pairs (CRevokeByAccess p) = [p]"
| "call_pairs (CRevokePrincipal p) = [p]"
| "call_pairs (CRevokeExact p) = [p]"
| "call_pairs CAlarm = []"

text \<open>
  The namespace is the family of objects by name; an object that was never addressed is
  empty. Whatever fails, the caller sees one error.
\<close>

definition coordinator_call ::
  "(string \<Rightarrow> do_store) \<Rightarrow> string \<Rightarrow> int \<Rightarrow> refresh_call \<Rightarrow>
   (hyeboard_error + refresh_reply) \<times> (string \<Rightarrow> do_store)" where
  "coordinator_call ns principalKey now call = (
     if \<not> hex_n 64 principalKey then (Inl vnuRefreshUnavailable, ns)
     else if \<not> list_all valid_pair (call_pairs call) then (Inl vnuRefreshUnavailable, ns)
     else (case handle (ns principalKey) now call of
         (Inl _, st') \<Rightarrow> (Inl vnuRefreshUnavailable, ns(principalKey := st'))
       | (Inr r, st') \<Rightarrow> (Inr r, ns(principalKey := st'))))"

end
