(* ===== verification/RefreshSpec.thy ===== *)
theory RefreshSpec
  imports RefreshStore
begin

text \<open>
  The contract of the refresh authority without its tombstones and its storage: who holds
  access, which refresh is in flight, and the two open windows. The step relation says what
  each reply commits the authority to; the refinement theorem of this theory states that
  every request the durable object answers is such a step.
\<close>

record authority =
  au_active :: "linked_pair option"
  au_lease :: "refresh_lease option"
  au_window :: "refresh_window option"
  au_activation :: "refresh_window option"

definition no_authority :: authority where
  "no_authority = \<lparr>au_active = None, au_lease = None, au_window = None, au_activation = None\<rparr>"

definition abs_state :: "refresh_state \<Rightarrow> authority" where
  "abs_state s = \<lparr>au_active = active s, au_lease = lease s,
     au_window = (if win_count (window s) > 0 then Some (window s) else None),
     au_activation = activationWindow s\<rparr>"

definition abs_stored :: "refresh_state option \<Rightarrow> authority" where
  "abs_stored stored = (case stored of None \<Rightarrow> no_authority | Some s \<Rightarrow> abs_state s)"

text \<open>What the passing of time takes away.\<close>

definition keep_if :: "('a \<Rightarrow> bool) \<Rightarrow> 'a option \<Rightarrow> 'a option" where
  "keep_if P x = (case x of None \<Rightarrow> None | Some y \<Rightarrow> if P y then Some y else None)"

lemma keep_if_simps [simp]:
  "keep_if P None = None"
  "keep_if P (Some y) = (if P y then Some y else None)"
  by (simp_all add: keep_if_def)

lemma keep_if_eq_Some [simp]: "keep_if P x = Some y \<longleftrightarrow> x = Some y \<and> P y"
  by (cases x) auto

definition expire :: "int \<Rightarrow> authority \<Rightarrow> authority" where
  "expire now a = \<lparr>
     au_active = keep_if (\<lambda>p. now < grantExpiresAt p) (au_active a),
     au_lease = keep_if (\<lambda>l. now < lease_expiresAt l \<and> now < grantExpiresAt (lease_pair l)) (au_lease a),
     au_window = keep_if (\<lambda>w. now < win_resetAt w) (au_window a),
     au_activation = keep_if (\<lambda>w. 0 < win_count w \<and> now < win_resetAt w) (au_activation a)\<rparr>"

lemma expire_fields [simp]:
  "au_active (expire now a) = keep_if (\<lambda>p. now < grantExpiresAt p) (au_active a)"
  "au_lease (expire now a) =
     keep_if (\<lambda>l. now < lease_expiresAt l \<and> now < grantExpiresAt (lease_pair l)) (au_lease a)"
  "au_window (expire now a) = keep_if (\<lambda>w. now < win_resetAt w) (au_window a)"
  "au_activation (expire now a) = keep_if (\<lambda>w. 0 < win_count w \<and> now < win_resetAt w) (au_activation a)"
  by (simp_all add: expire_def)

text \<open>The window after one more unit; a window that was not open starts at some reset time.\<close>

definition bump :: "refresh_window option \<Rightarrow> int \<Rightarrow> refresh_window" where
  "bump w r = (case w of None \<Rightarrow> \<lparr>win_count = 1, win_resetAt = r\<rparr> | Some v \<Rightarrow> v\<lparr>win_count := win_count v + 1\<rparr>)"

lemma bump_simps:
  "bump None r = \<lparr>win_count = 1, win_resetAt = r\<rparr>"
  "bump (Some v) r = \<lparr>win_count = win_count v + 1, win_resetAt = win_resetAt v\<rparr>"
  by (simp_all add: bump_def)

lemma set_count: "w\<lparr>win_count := n\<rparr> = \<lparr>win_count = n, win_resetAt = win_resetAt w\<rparr>"
  by simp

definition below :: "int \<Rightarrow> refresh_window option \<Rightarrow> bool" where
  "below cap w = (case w of None \<Rightarrow> True | Some v \<Rightarrow> win_count v < cap)"

inductive spec_step :: "authority \<Rightarrow> int \<Rightarrow> refresh_call \<Rightarrow> refresh_reply \<Rightarrow> authority \<Rightarrow> bool" where
  activate:
    "below VNU_MANUAL_ACTIVATION_LIMIT (au_activation a) \<Longrightarrow>
     spec_step a now (CActivate p) (RActivate Activated)
       (a\<lparr>au_active := keep_if (\<lambda>p. now < grantExpiresAt p) (Some p), au_lease := None,
          au_activation := Some (bump (au_activation a) (now + VNU_MANUAL_ACTIVATION_WINDOW_MS))\<rparr>)"
| activate_again:
    "au_active a = Some p \<and> au_lease a = None \<or> grantExpiresAt p \<le> now \<Longrightarrow>
     spec_step a now (CActivate p) (RActivate Activated) a"
| activate_limited:
    "\<not> below VNU_MANUAL_ACTIVATION_LIMIT (au_activation a) \<Longrightarrow>
     spec_step a now (CActivate p) (RActivate (ActivateLimited k l w)) a"
| check_active:
    "au_active a = Some p \<Longrightarrow> now < accessExpiresAt p \<Longrightarrow> spec_step a now (CCheck p) (RCheck Active) a"
| check_revoked:
    "au_active a \<noteq> Some p \<or> accessExpiresAt p \<le> now \<Longrightarrow> spec_step a now (CCheck p) (RCheck AccessRevoked) a"
| begin_accepted:
    "au_active a = Some p \<Longrightarrow> au_lease a = None \<Longrightarrow> below VNU_REFRESH_ATTEMPT_LIMIT (au_window a) \<Longrightarrow>
     e = min (now + VNU_REFRESH_LEASE_MS) (grantExpiresAt p) \<Longrightarrow> now < r \<Longrightarrow>
     spec_step a now (CBegin p) (RBegin (Accepted e))
       (a\<lparr>au_lease := Some \<lparr>lease_pair = p, lease_expiresAt = e\<rparr>, au_window := Some (bump (au_window a) r)\<rparr>)"
| begin_in_progress:
    "au_active a = Some p \<Longrightarrow> au_lease a = Some l \<Longrightarrow> k = retry_after (lease_expiresAt l) now \<Longrightarrow>
     spec_step a now (CBegin p) (RBegin (InProgress k)) a"
| begin_limited:
    "au_active a = Some p \<Longrightarrow> \<not> below VNU_REFRESH_ATTEMPT_LIMIT (au_window a) \<Longrightarrow>
     spec_step a now (CBegin p) (RBegin (BeginLimited k l w)) a"
| begin_revoked:
    "au_active a \<noteq> Some p \<Longrightarrow> spec_step a now (CBegin p) (RBegin BeginRevoked) a"
| complete:
    "au_active a = Some old \<Longrightarrow> au_lease a \<noteq> None \<Longrightarrow> grantExpiresAt nxt = grantExpiresAt old \<Longrightarrow>
     accessTokenId nxt \<noteq> accessTokenId old \<Longrightarrow> grantId nxt \<noteq> grantId old \<Longrightarrow>
     spec_step a now (CComplete old nxt) (RComplete Completed) (a\<lparr>au_active := Some nxt, au_lease := None\<rparr>)"
| complete_revoked:
    "au_active a \<noteq> Some old \<or> au_lease a = None \<Longrightarrow>
     spec_step a now (CComplete old nxt) (RComplete CompleteRevoked) a"
| abort_release:
    "au_active a = Some p \<Longrightarrow> au_lease a \<noteq> None \<Longrightarrow>
     spec_step a now (CAbort p False) (RAbort Aborted) (a\<lparr>au_lease := None\<rparr>)"
| abort_terminal:
    "au_active a = Some p \<Longrightarrow> au_lease a \<noteq> None \<Longrightarrow>
     spec_step a now (CAbort p True) (RAbort AbortRevoked) (a\<lparr>au_active := None, au_lease := None\<rparr>)"
| abort_nothing:
    "au_active a \<noteq> Some p \<or> au_lease a = None \<Longrightarrow> spec_step a now (CAbort p b) (RAbort Aborted) a"
| abort_late:
    "au_active a \<noteq> Some p \<Longrightarrow> spec_step a now (CAbort p b) (RAbort AbortRevoked) a"
| revoke_active:
    "au_active a = Some p \<Longrightarrow> call = CRevokeByAccess p \<or> call = CRevokeExact p \<Longrightarrow>
     spec_step a now call (RRevoke Revoked) (a\<lparr>au_active := None, au_lease := None\<rparr>)"
| revoke_past:
    "au_active a \<noteq> Some p \<Longrightarrow> r \<in> {Revoked, Mismatch, Expired} \<Longrightarrow>
     call = CRevokeByAccess p \<or> call = CRevokeExact p \<Longrightarrow> spec_step a now call (RRevoke r) a"
| revoke_principal:
    "spec_step a now (CRevokePrincipal p) (RRevoke Revoked) (a\<lparr>au_active := None, au_lease := None\<rparr>)"
| revoke_principal_refused:
    "au_active a \<noteq> Some p \<Longrightarrow> r \<in> {Mismatch, Expired} \<Longrightarrow>
     spec_step a now (CRevokePrincipal p) (RRevoke r) a"
| alarm: "spec_step a now CAlarm RAlarm a"

inductive_cases spec_activateE: "spec_step a now (CActivate p) r b"
inductive_cases spec_beginE: "spec_step a now (CBegin p) r b"
inductive_cases spec_completeE: "spec_step a now (CComplete old nxt) r b"
inductive_simps spec_check_simps: "spec_step a now (CCheck p) r b"

section \<open>Abstraction commutes with cleaning\<close>

lemma abs_clean:
  assumes "wf_stored stored"
  shows "abs_state (cleanVnuRefreshState stored now) = expire now (abs_stored stored)"
  using assms
  by (cases stored)
    (auto simp: abs_state_def abs_stored_def expire_def no_authority_def cleanVnuRefreshState_def Let_def
      stored_or_empty_def emptyState_def keep_if_def split: option.splits)

lemma expire_idem [simp]: "expire now (expire now a) = expire now a"
  by (simp add: expire_def keep_if_def split: option.splits)

lemma abs_quiescent: "isQuiescentVnuRefreshState s \<Longrightarrow> abs_state s = no_authority"
  by (simp add: isQuiescentVnuRefreshState_def abs_state_def no_authority_def)

text \<open>The authority a request finds in the store at a time.\<close>

definition authority_at :: "do_store \<Rightarrow> int \<Rightarrow> authority" where
  "authority_at st now = expire now (abs_stored (view st))"

lemma authority_at_clean:
  "store_inv st \<Longrightarrow> authority_at st now = abs_state (cleanVnuRefreshState (view st) now)"
  using store_inv_parse [of st] by (simp add: authority_at_def abs_clean)

lemma view_commit:
  assumes "store_inv st" "out_changed out \<longrightarrow> wf_state (out_state out)"
  shows "abs_stored (view (commit out st)) = (if out_changed out then abs_state (out_state out) else abs_stored (view st))"
  using assms abs_quiescent [of "out_state out"]
  by (auto simp: commit_def view_def parse_enc_state abs_stored_def)

text \<open>An output that reports no change describes the state that is already stored.\<close>

definition coherent :: "refresh_state option \<Rightarrow> 'a transition_output \<Rightarrow> bool" where
  "coherent stored out \<longleftrightarrow> (\<not> out_changed out \<longrightarrow> abs_state (out_state out) = abs_stored stored)"

lemma abs_emptyState: "abs_state (emptyState now) = no_authority"
  by (simp add: abs_state_def emptyState_def no_authority_def)

lemma abs_stored_or_empty: "abs_state (stored_or_empty stored now) = abs_stored stored"
  by (cases stored) (simp_all add: stored_or_empty_def abs_stored_def abs_emptyState)

lemma coherent_unchanged: "coherent stored (unchanged stored now r)"
  by (simp add: coherent_def unchanged_def abs_stored_or_empty)

lemma coherent_changed: "coherent stored (changed stored s r)"
  by (simp add: coherent_def changed_def sameVnuRefreshState_def abs_stored_def)

lemmas coherent_intros = coherent_unchanged coherent_changed

lemma coherent_clean:
  "coherent stored \<lparr>out_state = cleanVnuRefreshState stored now, out_result = r,
     out_changed = (stored \<noteq> None \<and> \<not> sameVnuRefreshState stored (cleanVnuRefreshState stored now))\<rparr>"
  by (cases stored)
    (auto simp: coherent_def sameVnuRefreshState_def abs_stored_def cleanVnuRefreshState_def Let_def
      stored_or_empty_def emptyState_def abs_state_def no_authority_def refresh_constants)

text \<open>
  One lemma carries every request through the store: if the transition, seen from the
  cleaned state, makes an abstract step, so does the request.
\<close>

lemma mutate_refines:
  assumes inv: "store_inv st" and res: "mutate f st now = (Inr x, st')"
    and wf: "\<And>out. f (view st) now = Inr out \<Longrightarrow> wf_state (out_state out)"
    and co: "\<And>out. f (view st) now = Inr out \<Longrightarrow> coherent (view st) out"
    and step: "\<And>out. f (view st) now = Inr out \<Longrightarrow>
        spec_step (authority_at st now) now call (k (out_result out)) (expire now (abs_state (out_state out)))"
  shows "spec_step (authority_at st now) now call (k x) (authority_at st' now)"
proof -
  have parse: "parseVnuRefreshControlState (cell st) = Inr (view st)" using store_inv_parse [OF inv] by simp
  obtain out where out: "f (view st) now = Inr out" "x = out_result out" "st' = commit out st"
    using res parse by (auto simp: mutate_def split: sum.splits)
  have "abs_stored (view st') = abs_state (out_state out)"
    using view_commit [OF inv, of out] wf [OF out(1)] co [OF out(1)] out(3) by (auto simp: coherent_def)
  then show ?thesis using step [OF out(1)] out(2) by (simp add: authority_at_def)
qed

section \<open>Each transition is a step of the contract\<close>

lemma abs_state_fields [simp]:
  "au_active (abs_state s) = active s" "au_lease (abs_state s) = lease s"
  "au_window (abs_state s) = (if win_count (window s) > 0 then Some (window s) else None)"
  "au_activation (abs_state s) = activationWindow s"
  by (simp_all add: abs_state_def)

lemma authority_eqI:
  "au_active a = au_active b \<Longrightarrow> au_lease a = au_lease b \<Longrightarrow> au_window a = au_window b \<Longrightarrow>
   au_activation a = au_activation b \<Longrightarrow> a = (b :: authority)"
  by simp

text \<open>The cleaned state is expired already, so only what a transition adds can expire.\<close>

lemma clean_expired:
  assumes "wf_stored stored"
  shows "expire now (abs_state (cleanVnuRefreshState stored now)) = abs_state (cleanVnuRefreshState stored now)"
  using assms by (simp add: abs_clean)

lemma clean_window_future [simp]: "now < win_resetAt (window (cleanVnuRefreshState stored now))"
  by (simp add: cleanVnuRefreshState_def Let_def refresh_constants)

lemma clean_activation_future:
  "activationWindow (cleanVnuRefreshState stored now) = Some w \<Longrightarrow> 0 < win_count w \<and> now < win_resetAt w"
  by (auto simp: cleanVnuRefreshState_def Let_def split: option.splits if_splits)

lemma clean_lease_future2:
  "lease (cleanVnuRefreshState stored now) = Some l \<Longrightarrow> now < lease_expiresAt l \<and> now < grantExpiresAt (lease_pair l)"
  by (auto simp: cleanVnuRefreshState_def Let_def split: option.splits if_splits)

lemma keep_if_id: "(\<And>y. x = Some y \<Longrightarrow> P y) \<Longrightarrow> keep_if P x = x"
  by (cases x) auto

lemma clean_keeps:
  "keep_if (\<lambda>w. 0 < win_count w \<and> now < win_resetAt w) (activationWindow (cleanVnuRefreshState stored now))
     = activationWindow (cleanVnuRefreshState stored now)"
  "keep_if (\<lambda>p. now < grantExpiresAt p) (active (cleanVnuRefreshState stored now))
     = active (cleanVnuRefreshState stored now)"
  "keep_if (\<lambda>l. now < lease_expiresAt l \<and> now < grantExpiresAt (lease_pair l)) (lease (cleanVnuRefreshState stored now))
     = lease (cleanVnuRefreshState stored now)"
  using clean_activation_future [of stored now] clean_active_future [of stored now] clean_lease_future2 [of stored now]
  by (intro keep_if_id; simp)+

lemma revoked_abs:
  assumes c: "c = cleanVnuRefreshState stored now" "lease s = lease c" "window s = window c"
    "activationWindow s = activationWindow c"
    and l: "\<And>l. lease c = Some l \<Longrightarrow> lease_pair l = p"
  shows "expire now (abs_state (revokeExact s p t)) = (abs_state c)\<lparr>au_active := None, au_lease := None\<rparr>"
proof -
  have "lease (revokeExact s p t) = None"
    using l c(2) by (auto simp: revokeExact_def split: option.splits)
  moreover have "active (revokeExact s p t) = None" "window (revokeExact s p t) = window c"
    "activationWindow (revokeExact s p t) = activationWindow c"
    using c(3,4) by (simp_all add: revokeExact_def)
  ultimately show ?thesis
    using c(1) by (intro authority_eqI) (simp_all add: clean_keeps)
qed

lemma check_refines:
  assumes r: "applyCheckAccess (view st) p now = Inr out" and inv: "store_inv st" and now: "valid_now now"
  shows "spec_step (authority_at st now) now (CCheck p) (RCheck (out_result out)) (expire now (abs_state (out_state out)))"
proof -
  let ?c = "cleanVnuRefreshState (view st) now"
  have wf: "wf_stored (view st)" using store_inv_parse [OF inv] by simp
  have c: "wf_state ?c" by (rule clean_wf [OF wf now])
  have a: "authority_at st now = abs_state ?c" by (rule authority_at_clean [OF inv])
  have "out_state out = ?c"
    using r by (auto simp: applyCheckAccess_def Let_def split: if_splits)
  moreover have "out_result out = (if active ?c = Some p \<and> now < accessExpiresAt p then Active else AccessRevoked)"
    using r now wf_state_active [OF c, of p]
    by (auto simp: applyCheckAccess_def Let_def clean_truthy split: if_splits)
  ultimately show ?thesis
    using a by (auto simp: clean_expired [OF wf] intro: check_active check_revoked)
qed

lemma activate_refines:
  assumes r: "applyActivatePair (view st) p now = Inr out" and inv: "store_inv st"
  shows "spec_step (authority_at st now) now (CActivate p) (RActivate (out_result out)) (expire now (abs_state (out_state out)))"
proof -
  let ?c = "cleanVnuRefreshState (view st) now"
  let ?again = "case view st of Some s \<Rightarrow> samePair (active s) p \<and> lease s = None | None \<Rightarrow> False"
  let ?lim = "case activationWindow ?c of Some w \<Rightarrow> win_count w \<ge> VNU_MANUAL_ACTIVATION_LIMIT | None \<Rightarrow> False"
  have p: "valid_pair p" using r by (auto simp: applyActivatePair_def split: if_splits)
  have wf: "wf_stored (view st)" using store_inv_parse [OF inv] by simp
  have a: "authority_at st now = abs_state ?c" by (rule authority_at_clean [OF inv])
  have stay: "expire now (abs_state (out_state out)) = authority_at st now" if "out = unchanged (view st) now x" for x
    using that by (simp add: unchanged_def abs_stored_or_empty authority_at_def)
  show ?thesis
  proof (cases "?again \<or> ?lim")
    case True
    show ?thesis
    proof (cases ?again)
      case True
      then have out: "out = unchanged (view st) now Activated"
        using r p by (auto simp: applyActivatePair_def split: if_splits)
      have "au_active (authority_at st now) = Some p \<and> au_lease (authority_at st now) = None \<or> grantExpiresAt p \<le> now"
        using True by (auto simp: authority_at_def abs_stored_def split: option.splits)
      then show ?thesis using stay [OF out] out by (auto simp: unchanged_def intro: activate_again)
    next
      case False
      with True r p have out: "\<exists>k l w. out = unchanged (view st) now (ActivateLimited k l w)"
        by (auto simp: applyActivatePair_def Let_def split: if_splits)
      have "\<not> below VNU_MANUAL_ACTIVATION_LIMIT (au_activation (authority_at st now))"
        using True False a by (auto simp: below_def split: option.splits)
      then show ?thesis using stay out by (auto simp: unchanged_def intro!: activate_limited)
    qed
  next
    case False
    let ?aw = "bump (activationWindow ?c) (now + VNU_MANUAL_ACTIVATION_WINDOW_MS)"
    obtain s where out: "out = changed (view st) (s\<lparr>active := Some p, lease := None, activationWindow := Some ?aw\<rparr>) Activated"
      and s: "window s = window ?c"
    proof -
      define s where "s = (case active ?c of
          Some q \<Rightarrow> if \<not> samePair (active ?c) p then revokeExact ?c q (linkedGrantTombstone q) else ?c
        | None \<Rightarrow> ?c)"
      have "out = changed (view st) (s\<lparr>active := Some p, lease := None, activationWindow := Some ?aw\<rparr>) Activated"
        using False r p unfolding applyActivatePair_def Let_def bump_def s_def by auto
      moreover have "window s = window ?c" by (auto simp: s_def revokeExact_def split: option.splits)
      ultimately show ?thesis by (rule that)
    qed
    have "0 < win_count ?aw \<and> now < win_resetAt ?aw"
      using clean_activation_future [of "view st" now] by (auto simp: bump_def refresh_constants split: option.splits)
    then have "expire now (abs_state (out_state out)) =
      (abs_state ?c)\<lparr>au_active := keep_if (\<lambda>p. now < grantExpiresAt p) (Some p), au_lease := None, au_activation := Some ?aw\<rparr>"
      using s by (intro authority_eqI) (auto simp: out changed_def)
    moreover have "below VNU_MANUAL_ACTIVATION_LIMIT (activationWindow ?c)"
      using False by (auto simp: below_def split: option.splits)
    ultimately show ?thesis
      using activate [of "abs_state ?c" now p] a out by (simp add: changed_def)
  qed
qed

lemma unchanged_stays:
  "expire now (abs_state (out_state (unchanged (view st) now x))) = authority_at st now"
  "out_result (unchanged (view st) now x) = x"
  by (simp_all add: unchanged_def abs_stored_or_empty authority_at_def)

lemma changed_fields: "out_state (changed stored s x) = s" "out_result (changed stored s x) = x"
  by (simp_all add: changed_def)

lemma begin_refines:
  assumes r: "applyBeginRefresh (view st) p now = Inr out" and inv: "store_inv st" and now: "valid_now now"
  shows "spec_step (authority_at st now) now (CBegin p) (RBegin (out_result out)) (expire now (abs_state (out_state out)))"
proof -
  let ?c = "cleanVnuRefreshState (view st) now" and ?a = "authority_at st now"
  have wf: "wf_stored (view st)" using store_inv_parse [OF inv] by simp
  have c: "wf_state ?c" by (rule clean_wf [OF wf now])
  have a: "?a = abs_state ?c" by (rule authority_at_clean [OF inv])
  have p: "valid_pair p" using r by (auto simp: applyBeginRefresh_def split: if_splits)
  consider (revoked) "active ?c \<noteq> Some p" "out = unchanged (view st) now BeginRevoked"
    | (busy) l where "active ?c = Some p" "lease ?c = Some l"
        "out = unchanged (view st) now (InProgress (retry_after (lease_expiresAt l) now))"
    | (limited) k l w where "active ?c = Some p" "VNU_REFRESH_ATTEMPT_LIMIT \<le> win_count (window ?c)"
        "out = unchanged (view st) now (BeginLimited k l w)"
    | (accept) e where "active ?c = Some p" "lease ?c = None" "win_count (window ?c) < VNU_REFRESH_ATTEMPT_LIMIT"
        "e = min (now + VNU_REFRESH_LEASE_MS) (grantExpiresAt p)"
        "out = changed (view st) (?c\<lparr>lease := Some \<lparr>lease_pair = p, lease_expiresAt = e\<rparr>,
             window := (window ?c)\<lparr>win_count := win_count (window ?c) + 1\<rparr>\<rparr>) (Accepted e)"
    using r p now wf_state_active [OF c, of p] clean_active_future [of "view st" now p] wf_state_lease_active [OF c]
    by (cases "active ?c = Some p"; cases "lease ?c")
      (auto simp: applyBeginRefresh_def Let_def clean_truthy split: if_splits)
  then show ?thesis
  proof cases
    case revoked
    then show ?thesis using a by (auto simp: unchanged_stays intro: begin_revoked)
  next
    case busy
    then show ?thesis using a by (auto simp: unchanged_stays intro: begin_in_progress)
  next
    case limited
    then have "\<not> below VNU_REFRESH_ATTEMPT_LIMIT (au_window ?a)"
      using a by (simp add: below_def refresh_constants)
    then show ?thesis using limited a by (auto simp: unchanged_stays intro: begin_limited)
  next
    case accept
    have "0 \<le> win_count (window ?c)" using c by (simp add: wf_state_def wf_parts_def wf_window_def)
    have "now < e" "now < grantExpiresAt p"
      using accept(1,4) clean_active_future [of "view st" now p] by (auto simp: refresh_constants)
    then have "expire now (abs_state (out_state out)) = ?a\<lparr>au_lease := Some \<lparr>lease_pair = p, lease_expiresAt = e\<rparr>,
        au_window := Some (bump (au_window ?a) (win_resetAt (window ?c)))\<rparr>"
      using accept a \<open>0 \<le> win_count (window ?c)\<close>
      by (intro authority_eqI) (auto simp: changed_fields clean_keeps bump_simps set_count refresh_constants)
    moreover have "below VNU_REFRESH_ATTEMPT_LIMIT (au_window ?a)" using accept a by (simp add: below_def)
    ultimately show ?thesis
      using accept a begin_accepted [of ?a p e now "win_resetAt (window ?c)"] by (simp add: changed_fields)
  qed
qed

lemma complete_refines:
  assumes r: "applyCompleteRefresh (view st) old nxt now = Inr out" and inv: "store_inv st" and now: "valid_now now"
  shows "spec_step (authority_at st now) now (CComplete old nxt) (RComplete (out_result out)) (expire now (abs_state (out_state out)))"
proof -
  let ?c = "cleanVnuRefreshState (view st) now" and ?a = "authority_at st now"
  have wf: "wf_stored (view st)" using store_inv_parse [OF inv] by simp
  have c: "wf_state ?c" by (rule clean_wf [OF wf now])
  have a: "?a = abs_state ?c" by (rule authority_at_clean [OF inv])
  note facts = applyCompleteRefresh_cases [OF r]
  show ?thesis
  proof (cases "out = unchanged (view st) now CompleteRevoked")
    case True
    have "active ?c \<noteq> Some old \<or> lease ?c = None"
    proof (rule ccontr)
      assume "\<not> ?thesis"
      then obtain l where l: "active ?c = Some old" "lease ?c = Some l" by auto
      then have "lease_pair l = old" "now < grantExpiresAt old"
        using wf_state_lease_active [OF c] clean_active_future by auto
      then have "out_changed out \<or> out_result out = Completed"
        using r l by (auto simp: applyCompleteRefresh_def Let_def changed_def split: if_splits)
      with True show False by (auto simp: unchanged_def)
    qed
    then show ?thesis using True a by (auto simp: unchanged_stays intro: complete_revoked)
  next
    case False
    let ?r = "revokeExact ?c old (refreshSuccessorGrantTombstone old nxt)"
    have f: "active ?c = Some old" "map_option lease_pair (lease ?c) = Some old" "now < grantExpiresAt old"
      "out = changed (view st) (?r\<lparr>active := Some nxt\<rparr>) Completed"
      using facts False by auto
    have l: "lease_pair l = old" if "lease ?c = Some l" for l using f(2) that by simp
    have "lease ?r = None" "window ?r = window ?c" "activationWindow ?r = activationWindow ?c"
      using l by (auto simp: revokeExact_def split: option.splits)
    then have "expire now (abs_state (out_state out)) = ?a\<lparr>au_active := Some nxt, au_lease := None\<rparr>"
      using f(3) facts a by (intro authority_eqI) (simp_all add: f(4) changed_fields clean_keeps)
    then show ?thesis
      using complete [of ?a old nxt now] facts f a by (auto simp: changed_fields)
  qed
qed

lemma abort_refines:
  assumes r: "applyAbortRefresh (view st) p b now = Inr out" and inv: "store_inv st" and now: "valid_now now"
  shows "spec_step (authority_at st now) now (CAbort p b) (RAbort (out_result out)) (expire now (abs_state (out_state out)))"
proof -
  let ?c = "cleanVnuRefreshState (view st) now" and ?a = "authority_at st now"
  have wf: "wf_stored (view st)" using store_inv_parse [OF inv] by simp
  have c: "wf_state ?c" by (rule clean_wf [OF wf now])
  have a: "?a = abs_state ?c" by (rule authority_at_clean [OF inv])
  have p: "valid_pair p" using r by (auto simp: applyAbortRefresh_def split: if_splits)
  consider (late) "active ?c \<noteq> Some p" "out = unchanged (view st) now AbortRevoked"
    | (nothing) "active ?c \<noteq> Some p \<or> lease ?c = None" "out = unchanged (view st) now Aborted"
    | (release) "active ?c = Some p" "lease ?c \<noteq> None" "\<not> b" "out = changed (view st) (?c\<lparr>lease := None\<rparr>) Aborted"
    | (terminal) "active ?c = Some p" "lease ?c \<noteq> None" b
        "out = changed (view st) (revokeExact ?c p (linkedGrantTombstone p)) AbortRevoked"
    using r p now wf_state_active [OF c, of p] wf_state_lease_active [OF c]
    by (cases "active ?c = Some p"; cases "lease ?c")
      (auto simp: applyAbortRefresh_def Let_def clean_truthy split: if_splits option.splits)
  then show ?thesis
  proof cases
    case late
    then show ?thesis using a by (auto simp: unchanged_stays intro: abort_late)
  next
    case nothing
    then show ?thesis using a abort_nothing [of ?a p now b] by (auto simp: unchanged_stays)
  next
    case release
    then have "expire now (abs_state (out_state out)) = ?a\<lparr>au_lease := None\<rparr>"
      using a clean_active_future [of "view st" now p] by (intro authority_eqI) (simp_all add: changed_fields clean_keeps)
    then show ?thesis using release a abort_release [of ?a p now] by (simp add: changed_fields)
  next
    case terminal
    have "lease_pair l = p" if "lease ?c = Some l" for l
      using wf_state_lease_active [OF c that] terminal(1) by simp
    then have "expire now (abs_state (out_state out)) = ?a\<lparr>au_active := None, au_lease := None\<rparr>"
      using revoked_abs [of ?c "view st" now ?c p "linkedGrantTombstone p"] terminal a by (simp add: changed_fields)
    then show ?thesis using terminal a abort_terminal [of ?a p now] by (simp add: changed_fields)
  qed
qed

lemma revoke_refines:
  assumes r: "applyRevokeLinkedPairByAccess (view st) p now = Inr out" and inv: "store_inv st" and now: "valid_now now"
    and call: "call = CRevokeByAccess p \<or> call = CRevokeExact p"
  shows "spec_step (authority_at st now) now call (RRevoke (out_result out)) (expire now (abs_state (out_state out)))"
proof -
  let ?c = "cleanVnuRefreshState (view st) now" and ?a = "authority_at st now"
  have wf: "wf_stored (view st)" using store_inv_parse [OF inv] by simp
  have c: "wf_state ?c" by (rule clean_wf [OF wf now])
  have a: "?a = abs_state ?c" by (rule authority_at_clean [OF inv])
  have p: "valid_pair p" using r by (auto simp: applyRevokeLinkedPairByAccess_def split: if_splits)
  have grant: "\<not> exactlyLinksGrantTombstone (map_of (revokedGrants ?c) (grantId p)) p" if "active ?c = Some p"
    using wf_state_active [OF c that] by (simp add: exactlyLinksGrantTombstone_def)
  consider (past) x where "active ?c \<noteq> Some p" "x \<in> {Revoked, Mismatch, Expired}" "out = unchanged (view st) now x"
    | (revoke) "active ?c = Some p" "out = changed (view st) (revokeExact ?c p (linkedGrantTombstone p)) Revoked"
    using r p grant clean_active_future [of "view st" now p]
    by (cases "active ?c = Some p") (auto simp: applyRevokeLinkedPairByAccess_def Let_def split: if_splits)
  then show ?thesis
  proof cases
    case past
    then show ?thesis using a call by (auto simp: unchanged_stays intro: revoke_past)
  next
    case revoke
    have "lease_pair l = p" if "lease ?c = Some l" for l
      using wf_state_lease_active [OF c that] revoke(1) by simp
    then have "expire now (abs_state (out_state out)) = ?a\<lparr>au_active := None, au_lease := None\<rparr>"
      using revoked_abs [of ?c "view st" now ?c p "linkedGrantTombstone p"] revoke a by (simp add: changed_fields)
    then show ?thesis using revoke a call revoke_active [of ?a p call now] by (simp add: changed_fields)
  qed
qed

lemma principal_refines:
  assumes r: "applyRevokePrincipalByLinkedGrant (view st) p now = Inr out" and inv: "store_inv st" and now: "valid_now now"
  shows "spec_step (authority_at st now) now (CRevokePrincipal p) (RRevoke (out_result out)) (expire now (abs_state (out_state out)))"
proof -
  let ?c = "cleanVnuRefreshState (view st) now" and ?a = "authority_at st now"
  let ?m = "?c\<lparr>revokedAccess := AList.update (accessTokenId p) (accessExpiresAt p) (revokedAccess ?c),
               revokedGrants := AList.update (grantId p) (linkedGrantTombstone p) (revokedGrants ?c)\<rparr>"
  have wf: "wf_stored (view st)" using store_inv_parse [OF inv] by simp
  have c: "wf_state ?c" by (rule clean_wf [OF wf now])
  have a: "?a = abs_state ?c" by (rule authority_at_clean [OF inv])
  have p: "valid_pair p" using r by (auto simp: applyRevokePrincipalByLinkedGrant_def split: if_splits)
  have none: "lease ?c = None" if "active ?c = None"
    using wf_state_lease_active [OF c] that by (cases "lease ?c") auto
  consider (refused) x where "active ?c \<noteq> Some p" "x \<in> {Mismatch, Expired}" "out = unchanged (view st) now x"
    | (none) "active ?c = None" "out = unchanged (view st) now Revoked"
    | (revoke) q where "active ?c = Some q" "out = changed (view st) (revokeExact ?m q (linkedGrantTombstone q)) Revoked"
    using r p clean_active_future [of "view st" now p]
    by (cases "active ?c") (auto simp: applyRevokePrincipalByLinkedGrant_def Let_def split: if_splits)
  then show ?thesis
  proof cases
    case refused
    then show ?thesis using a by (auto simp: unchanged_stays intro: revoke_principal_refused)
  next
    case none
    then have "?a = ?a\<lparr>au_active := None, au_lease := None\<rparr>"
      using a \<open>active ?c = None \<Longrightarrow> lease ?c = None\<close> by (intro authority_eqI) simp_all
    then show ?thesis using none revoke_principal [of ?a now p] by (simp add: unchanged_stays)
  next
    case revoke
    have "lease_pair l = q" if "lease ?c = Some l" for l
      using wf_state_lease_active [OF c that] revoke(1) by simp
    then have "expire now (abs_state (out_state out)) = ?a\<lparr>au_active := None, au_lease := None\<rparr>"
      using revoked_abs [of ?c "view st" now ?m q "linkedGrantTombstone q"] revoke a by (simp add: changed_fields)
    then show ?thesis using revoke revoke_principal [of ?a now p] by (simp add: changed_fields)
  qed
qed

lemma alarm_refines:
  assumes "alarm_transition (view st) now = Inr out" and inv: "store_inv st"
  shows "spec_step (authority_at st now) now CAlarm RAlarm (expire now (abs_state (out_state out)))"
proof -
  have wf: "wf_stored (view st)" using store_inv_parse [OF inv] by simp
  have "out_state out = cleanVnuRefreshState (view st) now"
    using assms(1) by (auto simp: alarm_transition_def Let_def)
  then show ?thesis using authority_at_clean [OF inv, of now] by (simp add: clean_expired [OF wf] alarm)
qed

lemma transition_coherent:
  "applyActivatePair stored p now = Inr out1 \<Longrightarrow> coherent stored out1"
  "applyBeginRefresh stored p now = Inr out2 \<Longrightarrow> coherent stored out2"
  "applyCompleteRefresh stored p q now = Inr out3 \<Longrightarrow> coherent stored out3"
  "applyAbortRefresh stored p b now = Inr out4 \<Longrightarrow> coherent stored out4"
  "applyRevokeLinkedPairByAccess stored p now = Inr out5 \<Longrightarrow> coherent stored out5"
  "applyRevokePrincipalByLinkedGrant stored p now = Inr out5 \<Longrightarrow> coherent stored out5"
  "applyCheckAccess stored p now = Inr out6 \<Longrightarrow> coherent stored out6"
  "alarm_transition stored now = Inr out7 \<Longrightarrow> coherent stored out7"
  by (auto simp: applyActivatePair_def applyBeginRefresh_def applyCompleteRefresh_def applyAbortRefresh_def
      applyRevokeLinkedPairByAccess_def applyRevokePrincipalByLinkedGrant_def applyCheckAccess_def
      alarm_transition_def Let_def simp del: not_None_eq intro: coherent_intros coherent_clean split: if_splits option.splits)

section \<open>The durable object refines the contract\<close>

lemma check_handle_refines:
  assumes inv: "store_inv st" and now: "valid_now now"
    and res: "checkAccessAuthoritatively (cell st) st p now = (Inr x, st')"
  shows "spec_step (authority_at st now) now (CCheck p) (RCheck x) (authority_at st' now)"
proof -
  have parse: "parseVnuRefreshControlState (cell st) = Inr (view st)" using store_inv_parse [OF inv] by simp
  have wf: "wf_stored (view st)" using store_inv_parse [OF inv] by simp
  obtain out where out: "applyCheckAccess (view st) p now = Inr out"
    using res parse by (auto simp: checkAccessAuthoritatively_def split: if_splits sum.splits)
  show ?thesis
  proof (cases "out_changed out")
    case True
    then have "mutate (\<lambda>s t. applyCheckAccess s p t) st now = (Inr x, st')"
      using res parse out by (auto simp: checkAccessAuthoritatively_def split: if_splits)
    then show ?thesis
      by (rule mutate_refines [OF inv]) (auto intro: check_refines [OF _ inv now] transition_wf [OF _ wf now] transition_coherent)
  next
    case False
    then have st: "st' = st" "x = out_result out"
      using res parse out by (auto simp: checkAccessAuthoritatively_def split: if_splits)
    have "expire now (abs_state (out_state out)) = authority_at st now"
      using transition_coherent(7) [OF out] False by (simp add: coherent_def authority_at_def)
    then show ?thesis using check_refines [OF out inv now] st by simp
  qed
qed

lemma reply_Inr: "reply k r = (Inr x, st') \<longleftrightarrow> (\<exists>y. r = (Inr y, st') \<and> x = k y)"
  by (cases r; cases "fst r") (auto simp: reply_def)

lemma handle_refines:
  assumes inv: "store_inv st" and ok: "call_ok st (now, call)" and res: "handle st now call = (Inr r, st')"
  shows "spec_step (authority_at st now) now call r (authority_at st' now)"
proof -
  note now = call_ok_valid [OF ok]
  have wf: "wf_stored (view st)" using store_inv_parse [OF inv] by simp
  note M = mutate_refines [OF inv]
  note W = transition_wf [OF _ wf now] alarm_transition_wf [OF _ wf now]
  note C = transition_coherent
  show ?thesis
  proof (cases call)
    case (CActivate p)
    with res ok show ?thesis
      by (auto simp: reply_Inr intro!: M [where k = RActivate] intro: activate_refines [OF _ inv] W C)
  next
    case (CCheck p)
    with res show ?thesis by (auto simp: reply_Inr intro: check_handle_refines [OF inv now])
  next
    case (CBegin p)
    with res show ?thesis
      by (auto simp: reply_Inr intro!: M [where k = RBegin] intro: begin_refines [OF _ inv now] W C)
  next
    case (CComplete old nxt)
    with res show ?thesis
      by (auto simp: reply_Inr intro!: M [where k = RComplete] intro: complete_refines [OF _ inv now] W C)
  next
    case (CAbort p b)
    with res show ?thesis
      by (auto simp: reply_Inr intro!: M [where k = RAbort] intro: abort_refines [OF _ inv now] W C)
  next
    case (CRevokeByAccess p)
    with res show ?thesis
      by (auto simp: reply_Inr intro!: M [where k = RRevoke] intro: revoke_refines [OF _ inv now] W C)
  next
    case (CRevokePrincipal p)
    with res show ?thesis
      by (auto simp: reply_Inr intro!: M [where k = RRevoke] intro: principal_refines [OF _ inv now] W C)
  next
    case (CRevokeExact p)
    with res show ?thesis
      by (auto simp: reply_Inr applyRevokeExactLinkedPair_def intro!: M [where k = RRevoke]
          intro: revoke_refines [OF _ inv now] W C)
  next
    case CAlarm
    with res show ?thesis
      by (auto simp: reply_Inr intro!: M [where k = "\<lambda>_. RAlarm"] intro: alarm_refines [OF _ inv] W C)
  qed
qed

lemma mutate_error_frame: "mutate f st now = (Inl e, st') \<Longrightarrow> st' = st"
  by (auto simp: mutate_def split: sum.splits)

lemma reply_Inl: "reply k r = (Inl e, st') \<longleftrightarrow> r = (Inl e, st')"
  by (cases r; cases "fst r") (auto simp: reply_def)

lemma handle_error_frame: "handle st now call = (Inl e, st') \<Longrightarrow> st' = st"
  by (cases call)
    (auto simp: reply_Inl checkAccessAuthoritatively_def dest: mutate_error_frame split: if_splits sum.splits)

end
