(* ===== verification/RefreshLaws.thy ===== *)
theory RefreshLaws
  imports RefreshSpec
begin

text \<open>
  What the refresh authority guarantees over runs: the limiter and cleaning interfaces
  interpreted on the durable object, and the properties of single requests and of runs,
  proved on the contract of \<open>RefreshSpec\<close> and carried over by its refinement theorem.
\<close>

section \<open>One step, seen from the contract\<close>

lemma handle_step:
  assumes "store_inv st" "call_ok st (now, call)"
  obtains (error) e where "handle st now call = (Inl e, st)"
  | (answer) r st' where "handle st now call = (Inr r, st')"
      "spec_step (authority_at st now) now call r (authority_at st' now)"
proof (cases "fst (handle st now call)")
  case (Inl e)
  then have "handle st now call = (Inl e, snd (handle st now call))" by (metis prod.collapse)
  then show ?thesis using error handle_error_frame by metis
next
  case (Inr r)
  then have "handle st now call = (Inr r, snd (handle st now call))" by (metis prod.collapse)
  then show ?thesis using answer handle_refines [OF assms] by metis
qed

lemma spec_active:
  "spec_step a now call r b \<Longrightarrow> au_active b = Some p \<Longrightarrow>
   au_active a = Some p \<or> call = CActivate p \<or> (\<exists>old. call = CComplete old p)"
  by (induction rule: spec_step.induct) (auto split: if_splits)

lemma spec_window:
  "spec_step a now call r b \<Longrightarrow>
   (if \<exists>e. r = RBegin (Accepted e)
    then \<exists>t. below VNU_REFRESH_ATTEMPT_LIMIT (au_window a) \<and> au_window b = Some (bump (au_window a) t)
    else au_window b = au_window a)"
  by (induction rule: spec_step.induct) auto

lemma spec_activation:
  "spec_step a now call r b \<Longrightarrow>
   au_activation b = au_activation a \<or>
   r = RActivate Activated \<and> (\<exists>t. below VNU_MANUAL_ACTIVATION_LIMIT (au_activation a) \<and>
     au_activation b = Some (bump (au_activation a) t))"
  by (induction rule: spec_step.induct) auto

section \<open>Revocation\<close>

definition installs :: "linked_pair \<Rightarrow> refresh_call \<Rightarrow> bool" where
  "installs p call = (case call of CActivate q \<Rightarrow> q = p | CComplete old q \<Rightarrow> q = p | _ \<Rightarrow> False)"

lemma not_active_later:
  "au_active (authority_at st t) \<noteq> Some p \<Longrightarrow> t \<le> u \<Longrightarrow> au_active (authority_at st u) \<noteq> Some p"
  by (auto simp: authority_at_def)

lemma not_active_step:
  assumes "store_inv st" "call_ok st (now, call)" "\<not> installs p call"
    and "au_active (authority_at st now) \<noteq> Some p"
  shows "au_active (authority_at (do_step st (now, call)) now) \<noteq> Some p"
  using assms by (cases rule: handle_step [OF assms(1,2)]) (auto simp: installs_def dest: spec_active)

lemma not_active_run:
  "store_inv st \<Longrightarrow> run_ok do_step call_ok st xs \<Longrightarrow> clocked t xs \<Longrightarrow>
   \<forall>x \<in> set xs. \<not> installs p (snd x) \<Longrightarrow> au_active (authority_at st t) \<noteq> Some p \<Longrightarrow>
   au_active (authority_at (run do_step st xs) (last_time t xs)) \<noteq> Some p"
proof (induction xs arbitrary: st t)
  case Nil
  then show ?case by simp
next
  case (Cons x xs)
  obtain now call where x: "x = (now, call)" by (cases x)
  have "au_active (authority_at (do_step st x) now) \<noteq> Some p"
    using Cons.prems not_active_later [of st t p now] not_active_step [of st now call p] by (simp add: x del: do_step.simps)
  moreover have "store_inv (do_step st x)"
    using Cons.prems by (auto intro: refresh_machine.step_inv)
  ultimately show ?case using Cons.IH [of "do_step st x" now] Cons.prems by (simp add: x)
qed

lemma check_reply:
  assumes "store_inv st" "valid_now now" "valid_pair p"
  shows "fst (handle st now (CCheck p)) =
    Inr (RCheck (if au_active (authority_at st now) = Some p \<and> now < accessExpiresAt p then Active else AccessRevoked))"
proof -
  have ok: "call_ok st (now, CCheck p)" using assms(2) by simp
  have "fst (handle st now (CCheck p)) \<noteq> Inl e" for e
    using store_inv_parse [OF assms(1)] assms(3)
    by (auto simp: reply_def checkAccessAuthoritatively_def applyCheckAccess_def mutate_def Let_def)
  then obtain r st' where "handle st now (CCheck p) = (Inr r, st')"
    "spec_step (authority_at st now) now (CCheck p) r (authority_at st' now)"
    by (metis handle_step [OF assms(1) ok] fst_conv)
  then show ?thesis by (auto simp: spec_check_simps)
qed

text \<open>A reply that reports a revocation of \<open>p\<close>, or of the whole principal.\<close>

definition revoking :: "linked_pair \<Rightarrow> refresh_call \<Rightarrow> refresh_reply \<Rightarrow> bool" where
  "revoking p call r = (case call of
     CRevokeByAccess q \<Rightarrow> q = p \<and> r = RRevoke Revoked
   | CRevokeExact q \<Rightarrow> q = p \<and> r = RRevoke Revoked
   | CRevokePrincipal q \<Rightarrow> r = RRevoke Revoked
   | CAbort q terminal \<Rightarrow> q = p \<and> r = RAbort AbortRevoked
   | CComplete old q \<Rightarrow> old = p \<and> r = RComplete Completed
   | _ \<Rightarrow> False)"

lemma spec_revoking: "spec_step a now call r b \<Longrightarrow> revoking p call r \<Longrightarrow> au_active b \<noteq> Some p"
  by (induction rule: spec_step.induct) (auto simp: revoking_def)

section \<open>A refresh in flight\<close>

text \<open>Between acceptance and lease expiry: either nobody is authorised any more, or the lease stands.\<close>

definition held :: "authority \<Rightarrow> int \<Rightarrow> linked_pair \<Rightarrow> bool" where
  "held a e p \<longleftrightarrow> au_active a = None \<or>
     au_active a = Some p \<and> au_lease a = Some \<lparr>lease_pair = p, lease_expiresAt = e\<rparr> \<and> e \<le> grantExpiresAt p"

definition ends_flight :: "linked_pair \<Rightarrow> refresh_call \<Rightarrow> bool" where
  "ends_flight p call = (case call of CActivate q \<Rightarrow> True | CComplete old q \<Rightarrow> old = p | CAbort q b \<Rightarrow> q = p | _ \<Rightarrow> False)"

lemma held_step:
  "spec_step a now call r b \<Longrightarrow> held a e p \<Longrightarrow> \<not> ends_flight p call \<Longrightarrow>
   held b e p \<and> (\<forall>k. r \<noteq> RBegin (Accepted k))"
  by (induction rule: spec_step.induct) (auto simp: held_def ends_flight_def)

lemma held_later: "held (authority_at st t) e p \<Longrightarrow> t \<le> u \<Longrightarrow> u < e \<Longrightarrow> held (authority_at st u) e p"
  by (auto simp: held_def authority_at_def keep_if_def split: option.splits if_splits)

lemma held_do_step:
  assumes "store_inv st" "call_ok st (now, call)" "held (authority_at st now) e p" "\<not> ends_flight p call"
  shows "held (authority_at (do_step st (now, call)) now) e p"
    "fst (handle st now call) \<noteq> Inr (RBegin (Accepted k))"
  using assms by (cases rule: handle_step [OF assms(1,2)]; auto dest: held_step)+

lemma held_run:
  "store_inv st \<Longrightarrow> run_ok do_step call_ok st xs \<Longrightarrow> clocked t xs \<Longrightarrow> \<forall>x \<in> set xs. fst x < e \<Longrightarrow>
   \<forall>x \<in> set xs. \<not> ends_flight p (snd x) \<Longrightarrow> held (authority_at st t) e p \<Longrightarrow>
   held (authority_at (run do_step st xs) (last_time t xs)) e p"
proof (induction xs arbitrary: st t)
  case Nil
  then show ?case by simp
next
  case (Cons x xs)
  obtain now call where x: "x = (now, call)" by (cases x)
  have "held (authority_at (do_step st x) now) e p"
    using Cons.prems held_later [of st t e p now] held_do_step(1) [of st now call e p] by (simp add: x del: do_step.simps)
  moreover have "store_inv (do_step st x)"
    using Cons.prems by (auto intro: refresh_machine.step_inv)
  ultimately show ?case using Cons.IH [of "do_step st x" now] Cons.prems by (simp add: x)
qed

lemma accepted_held:
  assumes "store_inv st" "call_ok st (now, CBegin p)" "handle st now (CBegin p) = (Inr (RBegin (Accepted e)), st')"
  shows "held (authority_at st' now) e p \<and> now < e"
proof -
  have "spec_step (authority_at st now) now (CBegin p) (RBegin (Accepted e)) (authority_at st' now)"
    using handle_refines [OF assms] .
  then have acc: "au_active (authority_at st now) = Some p" "e = min (now + VNU_REFRESH_LEASE_MS) (grantExpiresAt p)"
    "au_active (authority_at st' now) = Some p"
    "au_lease (authority_at st' now) = Some \<lparr>lease_pair = p, lease_expiresAt = e\<rparr>"
    by (auto elim!: spec_beginE)
  then have "now < grantExpiresAt p" by (simp add: authority_at_def)
  with acc show ?thesis by (auto simp: held_def refresh_constants)
qed

section \<open>The two limiters\<close>

text \<open>A window of the authority as a limiter: absent windows count nothing and are never open.\<close>

definition count_of :: "refresh_window option \<Rightarrow> int" where
  "count_of w = (case w of None \<Rightarrow> 0 | Some v \<Rightarrow> win_count v)"

definition reset_of :: "refresh_window option \<Rightarrow> int" where
  "reset_of w = (case w of None \<Rightarrow> 0 | Some v \<Rightarrow> win_resetAt v)"

lemma window_of_simps [simp]:
  "count_of None = 0" "count_of (Some v) = win_count v" "reset_of (Some v) = win_resetAt v"
  by (simp_all add: count_of_def reset_of_def)

definition attempt_window :: "do_store \<Rightarrow> refresh_window option" where
  "attempt_window st = au_window (abs_stored (view st))"

definition activation_window :: "do_store \<Rightarrow> refresh_window option" where
  "activation_window st = au_activation (abs_stored (view st))"

text \<open>A request that starts a refresh, and one that installs a pair by hand.\<close>

fun refresh_cost :: "do_store \<Rightarrow> int \<times> refresh_call \<Rightarrow> int" where
  "refresh_cost st (now, call) = (case fst (handle st now call) of Inr (RBegin (Accepted e)) \<Rightarrow> 1 | _ \<Rightarrow> 0)"

fun activation_cost :: "do_store \<Rightarrow> int \<times> refresh_call \<Rightarrow> int" where
  "activation_cost st (now, call) =
     (if fst (handle st now call) = Inr (RActivate Activated) \<and> snd (handle st now call) \<noteq> st then 1 else 0)"

lemma windows_capped:
  assumes "store_inv st"
  shows "count_of (attempt_window st) \<le> VNU_REFRESH_ATTEMPT_LIMIT"
    "count_of (activation_window st) \<le> VNU_MANUAL_ACTIVATION_LIMIT"
    "activation_window st = Some w \<Longrightarrow> 0 < win_count w"
  using store_inv_parse [OF assms]
  by (auto simp: attempt_window_def activation_window_def abs_stored_def abs_state_def no_authority_def
      wf_stored_def wf_state_def wf_parts_def wf_window_def count_of_def refresh_constants split: option.splits)

lemma authority_windows:
  "now < reset_of (attempt_window st) \<Longrightarrow> au_window (authority_at st now) = attempt_window st"
  "store_inv st \<Longrightarrow> now < reset_of (activation_window st) \<Longrightarrow> au_activation (authority_at st now) = activation_window st"
  using windows_capped(3) [of st]
  by (auto simp: authority_at_def attempt_window_def activation_window_def keep_if_def reset_of_def split: option.splits)

lemma authority_windows_Some:
  "au_window (authority_at st now) = Some w \<Longrightarrow> attempt_window st = Some w"
  "au_activation (authority_at st now) = Some w \<Longrightarrow> activation_window st = Some w"
  by (auto simp: authority_at_def attempt_window_def activation_window_def)

lemma attempt_step:
  assumes "store_inv st" "call_ok st x" "attempt_window st \<noteq> None" "fst x < reset_of (attempt_window st)"
  shows "attempt_window (do_step st x) \<noteq> None \<and> reset_of (attempt_window (do_step st x)) = reset_of (attempt_window st) \<and>
    count_of (attempt_window (do_step st x)) = count_of (attempt_window st) + refresh_cost st x"
proof -
  obtain now call where x: "x = (now, call)" by (cases x)
  obtain w where w: "attempt_window st = Some w" using assms(3) by auto
  have a: "au_window (authority_at st now) = Some w"
    using authority_windows(1) [of now st] assms(4) w x by simp
  have ok: "call_ok st (now, call)" using assms(2) x by simp
  show ?thesis
  proof (rule handle_step [OF assms(1) ok])
    fix e
    assume "handle st now call = (Inl e, st)"
    then show ?thesis using w by (simp add: x)
  next
    fix r st'
    assume h: "handle st now call = (Inr r, st')"
      and "spec_step (authority_at st now) now call r (authority_at st' now)"
    from spec_window [OF this(2)] a show ?thesis
      using h w authority_windows_Some(1) [of st' now]
      by (cases r) (auto simp: x bump_def split: begin_result.splits if_splits)
  qed
qed

interpretation refresh_limiter: window_limiter do_step call_ok store_inv fst
  "\<lambda>st. attempt_window st \<noteq> None" "\<lambda>st. reset_of (attempt_window st)" "\<lambda>st. count_of (attempt_window st)"
  refresh_cost VNU_REFRESH_ATTEMPT_LIMIT
  using attempt_step windows_capped(1) by unfold_locales blast+

lemma activation_charged:
  assumes "store_inv st" "call_ok st (now, call)" "handle st now call = (Inr (RActivate Activated), st')"
  shows "if st' = st then True else \<exists>t. au_activation (authority_at st' now) = Some (bump (au_activation (authority_at st now)) t)"
proof (cases "st' = st")
  case False
  obtain p where call: "call = CActivate p"
    using assms(3) by (cases call) (auto simp: reply_Inr)
  then have m: "mutate (\<lambda>s t. applyActivatePair s p t) st now = (Inr Activated, st')"
    using assms(3) by (auto simp: reply_Inr)
  have parse: "parseVnuRefreshControlState (cell st) = Inr (view st)" using store_inv_parse [OF assms(1)] by simp
  obtain out where out: "applyActivatePair (view st) p now = Inr out" "st' = commit out st" "out_changed out"
    using m parse False by (auto simp: mutate_def commit_def split: sum.splits if_splits)
  let ?c = "cleanVnuRefreshState (view st) now"
  have b: "activationWindow (out_state out) = Some (bump (activationWindow ?c) (now + VNU_MANUAL_ACTIVATION_WINDOW_MS))"
    using out(1,3) by (auto simp: applyActivatePair_def Let_def unchanged_def changed_def bump_def split: if_splits)
  have wf: "wf_state (out_state out)"
    using out(1) assms(1,2) store_inv_parse [OF assms(1)] call by (auto intro: applyActivatePair_wf)
  have "abs_stored (view st') = abs_state (out_state out)"
    using view_commit [OF assms(1), of out] wf out(2,3) by simp
  moreover have "0 < win_count (bump (activationWindow ?c) u) \<and> now < win_resetAt (bump (activationWindow ?c) (now + VNU_MANUAL_ACTIVATION_WINDOW_MS))" for u
    using clean_activation_future [of "view st" now] by (auto simp: bump_def refresh_constants split: option.splits)
  ultimately show ?thesis
    using b authority_at_clean [OF assms(1), of now] by (auto simp: authority_at_def)
qed simp

lemma spec_activation_quiet:
  "spec_step a now call r b \<Longrightarrow> r \<noteq> RActivate Activated \<Longrightarrow> au_activation b = au_activation a"
  by (induction rule: spec_step.induct) auto

lemma activation_step:
  assumes inv: "store_inv st" and "call_ok st x" "activation_window st \<noteq> None" "fst x < reset_of (activation_window st)"
  shows "activation_window (do_step st x) \<noteq> None \<and>
    reset_of (activation_window (do_step st x)) = reset_of (activation_window st) \<and>
    count_of (activation_window (do_step st x)) = count_of (activation_window st) + activation_cost st x"
proof -
  obtain now call where x: "x = (now, call)" by (cases x)
  obtain w where w: "activation_window st = Some w" using assms(3) by auto
  have a: "au_activation (authority_at st now) = Some w"
    using authority_windows(2) [OF inv, of now] assms(4) w x by simp
  have ok: "call_ok st (now, call)" using assms(2) x by simp
  show ?thesis
  proof (rule handle_step [OF inv ok])
    fix e
    assume "handle st now call = (Inl e, st)"
    then show ?thesis using w by (simp add: x)
  next
    fix r st'
    assume h: "handle st now call = (Inr r, st')"
      and s: "spec_step (authority_at st now) now call r (authority_at st' now)"
    show ?thesis
    proof (cases "r = RActivate Activated \<and> st' \<noteq> st")
      case True
      then obtain t where "au_activation (authority_at st' now) = Some (bump (Some w) t)"
        using activation_charged [OF inv ok, of st'] h a by auto
      then show ?thesis
        using authority_windows_Some(2) [of st' now] h True w by (simp add: x bump_def)
    next
      case False
      then have "st' = st \<or> au_activation (authority_at st' now) = Some w"
        using spec_activation_quiet [OF s] a by auto
      then have "activation_window st' = Some w"
        using authority_windows_Some(2) [of st' now] w by auto
      then show ?thesis using h False w by (auto simp: x)
    qed
  qed
qed

interpretation activation_limiter: window_limiter do_step call_ok store_inv fst
  "\<lambda>st. activation_window st \<noteq> None" "\<lambda>st. reset_of (activation_window st)" "\<lambda>st. count_of (activation_window st)"
  activation_cost VNU_MANUAL_ACTIVATION_LIMIT
  using activation_step windows_capped(2) by unfold_locales blast+

section \<open>The store cleans itself\<close>

definition ring :: "do_store \<Rightarrow> int \<Rightarrow> do_store" where
  "ring st now = do_step st (now, CAlarm)"

definition expiring :: "do_store \<Rightarrow> int list" where
  "expiring st = (case view st of None \<Rightarrow> [] | Some s \<Rightarrow> expiry_times s)"

lemma expiry_times_clean:
  assumes "wf_state s"
  shows "expiry_times (cleanVnuRefreshState (Some s) now) = filter (\<lambda>t. now < t) (expiry_times s)"
proof -
  have l: "lease_expiresAt l \<le> grantExpiresAt (lease_pair l)" if "lease s = Some l" for l
    using assms that by (auto simp: wf_state_def lease_consistent_def)
  have a: "map snd (filter (\<lambda>(_, e). now < e) al) = filter (\<lambda>t. now < t) (map snd al)" for al :: "(string \<times> int) list"
    by (induction al) auto
  have g: "map (grantTombstoneExpiresAt \<circ> snd) (filter (\<lambda>(_, t). now < grantTombstoneExpiresAt t) al) =
      filter (\<lambda>t. now < t) (map (grantTombstoneExpiresAt \<circ> snd) al)" for al :: "(string \<times> tombstone) list"
    by (induction al) auto
  show ?thesis
    using l by (auto simp: expiry_times_def cleanVnuRefreshState_def Let_def stored_or_empty_def a g split: option.splits)
qed

lemma next_alarm_None: "nextVnuRefreshAlarm s = None \<longleftrightarrow> expiry_times s = []"
  by (simp add: nextVnuRefreshAlarm_def split: list.splits)

lemma next_alarm_Some:
  "nextVnuRefreshAlarm s = Some a \<Longrightarrow> a \<in> set (expiry_times s) \<and> (\<forall>t \<in> set (expiry_times s). a \<le> t)"
proof (cases "expiry_times s")
  case (Cons t ts)
  assume "nextVnuRefreshAlarm s = Some a"
  then have "a = Min (set (t # ts))" using Cons by (simp add: nextVnuRefreshAlarm_def Min.set_eq_fold del: set_simps)
  then show ?thesis using Cons by (metis List.finite_set Min_in Min_le list.distinct(1) set_empty)
qed (simp add: nextVnuRefreshAlarm_def)

lemma not_quiescent_expiring:
  assumes "wf_state s" shows "isQuiescentVnuRefreshState s \<longleftrightarrow> expiry_times s = []"
  using assms wf_state_lease_active [OF assms]
  by (auto simp: isQuiescentVnuRefreshState_def expiry_times_def wf_state_def wf_parts_def wf_window_def
      split: option.splits)

lemma store_alarm:
  assumes "store_inv st"
  shows "alarm_at st = (case view st of None \<Rightarrow> None | Some s \<Rightarrow> nextVnuRefreshAlarm s)"
    "expiring st = [] \<longleftrightarrow> st = empty_store"
  using assms by (auto simp: store_inv_def empty_store_def view_def parse_enc_state expiring_def not_quiescent_expiring)

lemma ring_expiring:
  assumes "store_inv st" "valid_now now"
  shows "expiring (ring st now) = filter (\<lambda>t. now < t) (expiring st)"
proof (cases "view st")
  case None
  then show ?thesis using store_inv_parse [OF assms(1)]
    by (simp add: ring_def reply_def mutate_def alarm_transition_def Let_def commit_def expiring_def)
next
  case (Some s)
  have s: "wf_state s" and parse: "parseVnuRefreshControlState (cell st) = Inr (Some s)"
    using store_inv_parse [OF assms(1)] Some by (auto simp: wf_stored_def)
  let ?c = "cleanVnuRefreshState (Some s) now"
  show ?thesis
  proof (cases "s = ?c")
    case True
    then have "ring st now = st"
      using parse by (simp add: ring_def reply_def mutate_def alarm_transition_def commit_def sameVnuRefreshState_def Let_def)
    then show ?thesis using expiry_times_clean [OF s, of now] True Some by (simp add: expiring_def)
  next
    case False
    then have r: "ring st now = \<lparr>cell = (if isQuiescentVnuRefreshState ?c then JUndefined else enc_state ?c), alarm_at = nextVnuRefreshAlarm ?c\<rparr>"
      using parse by (simp add: ring_def reply_def mutate_def alarm_transition_def commit_def sameVnuRefreshState_def Let_def)
    have times: "expiry_times ?c = filter (\<lambda>t. now < t) (expiring st)"
      using expiry_times_clean [OF s] Some by (simp add: expiring_def)
    show ?thesis
    proof (cases "isQuiescentVnuRefreshState ?c")
      case True
      then have "expiry_times ?c = []" using alarm_quiescent next_alarm_None by blast
      then show ?thesis using r True times by (simp add: expiring_def view_def)
    next
      case False
      have "wf_state ?c" using clean_wf [of "Some s" now] s assms(2) by (auto simp: wf_stored_def)
      then show ?thesis using r False times by (simp add: expiring_def view_def parse_enc_state)
    qed
  qed
qed

lemma ring_inv: "store_inv st \<Longrightarrow> valid_now now \<Longrightarrow> store_inv (ring st now)"
  unfolding ring_def by (rule refresh_machine.step_inv) auto

interpretation refresh_cleaning: self_cleaning ring alarm_at "\<lambda>st. length (expiring st)" store_inv
proof (unfold_locales, goal_cases)
  case (1 s t)
  then show ?case by (rule ring_inv)
next
  case (2 s t a)
  then obtain v where v: "view s = Some v" "nextVnuRefreshAlarm v = Some a"
    by (auto simp: store_alarm(1) split: option.splits)
  then have "a \<in> set (expiring s)" using next_alarm_Some [OF v(2)] by (simp add: expiring_def)
  with 2 show ?case by (auto simp: ring_expiring intro!: length_filter_less)
next
  case (3 s t a)
  have inv: "store_inv (ring s t)" using 3 by (auto intro: ring_inv)
  then obtain v where v: "view (ring s t) = Some v" "nextVnuRefreshAlarm v = Some a"
    using 3 by (auto simp: store_alarm(1) split: option.splits)
  then have "a \<in> set (expiring (ring s t))" using next_alarm_Some [OF v(2)] by (simp add: expiring_def)
  with 3 show ?case by (simp add: ring_expiring)
next
  case (4 s)
  then show ?case
    by (auto simp: store_alarm(1) expiring_def next_alarm_None split: option.splits)
qed

section \<open>The coordinator\<close>

text \<open>
  The coordinator isolates principals and hides the cause of a failure: a request for
  one key changes no other object, a refused request (a malformed key, a malformed pair, an
  exception inside the object) changes nothing at all, and the only error is the
  unavailability error.
\<close>

lemma coordinator_isolates:
  assumes "coordinator_call ns key now call = (r, ns')"
  shows "(\<forall>other. other \<noteq> key \<longrightarrow> ns' other = ns other) \<and>
    (case r of Inl e \<Rightarrow> e = vnuRefreshUnavailable \<and> ns' = ns
             | Inr x \<Rightarrow> hex_n 64 key \<and> handle (ns key) now call = (Inr x, ns' key))"
proof (cases "handle (ns key) now call")
  case (Pair x st')
  then show ?thesis
    using assms handle_error_frame [of "ns key" now call _ st']
    by (cases x) (auto simp: coordinator_call_def simp del: handle.simps split: if_splits)
qed

end
