(* ===== verification/RefreshProps.thy ===== *)
theory RefreshProps
  imports RefreshLaws
begin

text \<open>
  The properties of the refresh authority, each over the requests that lead from an empty
  store to the state in question, with the run that witnesses its hypotheses.
\<close>

text \<open>Sample pairs and histories for the witnesses.\<close>

definition sample_pair :: "char \<Rightarrow> linked_pair" where
  "sample_pair c = \<lparr>accessTokenId = replicate 22 c, accessExpiresAt = 2000000,
     grantId = replicate 22 c, grantExpiresAt = 9000000\<rparr>"

definition pair_a :: linked_pair where "pair_a = sample_pair CHR ''a''"
definition pair_b :: linked_pair where "pair_b = sample_pair CHR ''b''"

definition history_ab :: "(int \<times> refresh_call) list" where
  "history_ab = [(1000, CActivate pair_a), (2000, CBegin pair_a)]"

lemma history_ab_ok: "run_ok do_step call_ok empty_store history_ab"
  by code_simp

lemma store_of_history: "run_ok do_step call_ok empty_store h \<Longrightarrow> store_inv (run do_step empty_store h)"
  by (rule refresh_machine.run_inv [OF store_inv_empty])

lemma history_snoc:
  "run_ok do_step call_ok empty_store (h @ [x]) \<longleftrightarrow>
   run_ok do_step call_ok empty_store h \<and> call_ok (run do_step empty_store h) x"
  by (simp add: run_ok_append)

section \<open>Refinement and storage\<close>

text \<open>
  C1. Every request the durable object answers after any admissible history is a step of the
  authority contract between the authority it found and the authority it leaves, and a
  request that throws leaves the storage untouched.
\<close>

theorem refresh_refines_contract:
  assumes "run_ok do_step call_ok empty_store (h @ [(now, call)])"
  shows "case handle (run do_step empty_store h) now call of
      (Inl e, st') \<Rightarrow> st' = run do_step empty_store h
    | (Inr r, st') \<Rightarrow> spec_step (authority_at (run do_step empty_store h) now) now call r (authority_at st' now)"
  using assms handle_refines [OF store_of_history] handle_error_frame
  by (auto simp: history_snoc split: prod.splits sum.splits)

lemma history_ab_complete_ok:
  "run_ok do_step call_ok empty_store (history_ab @ [(3000, CComplete pair_a pair_b)])"
  by code_simp

theorem refresh_refines_contract_witness:
  "\<exists>st'. handle (run do_step empty_store history_ab) 3000 (CComplete pair_a pair_b) = (Inr (RComplete Completed), st') \<and>
     spec_step (authority_at (run do_step empty_store history_ab) 3000) 3000 (CComplete pair_a pair_b)
       (RComplete Completed) (authority_at st' 3000)"
proof -
  have "fst (handle (run do_step empty_store history_ab) 3000 (CComplete pair_a pair_b)) = Inr (RComplete Completed)"
    by code_simp
  then show ?thesis
    using refresh_refines_contract [OF history_ab_complete_ok] by (auto split: prod.splits)
qed

text \<open>
  The stored form round-trips: a well-formed state written to the cell is read back as
  it was, and whatever value the parser accepts is a well-formed state.
\<close>

theorem refresh_state_roundtrip:
  "(wf_state s \<longrightarrow> parseVnuRefreshControlState (enc_state s) = Inr (Some s)) \<and>
   (js_value v \<and> parseVnuRefreshControlState v = Inr (Some s) \<longrightarrow> wf_state s)"
  using parse_enc_state parse_state_sound by blast

theorem refresh_state_roundtrip_witness:
  "wf_state (emptyState 1000) \<and> parseVnuRefreshControlState (enc_state (emptyState 1000)) = Inr (Some (emptyState 1000)) \<and>
   js_value (enc_state (emptyState 1000))"
  using refresh_state_roundtrip [of "emptyState 1000" "enc_state (emptyState 1000)"] wf_emptyState [of 1000]
  by (simp add: valid_now_def) code_simp

text \<open>
  No admissible history makes the stored cell unreadable: no later request fails with
  the invalid-state error, and the alarm is always scheduled at the next expiry.
\<close>

theorem refresh_never_unreadable:
  assumes "run_ok do_step call_ok empty_store h"
  shows "fst (handle (run do_step empty_store h) now call) \<noteq> Inl InvalidState \<and>
    alarm_at (run do_step empty_store h) = Option.bind (view (run do_step empty_store h)) nextVnuRefreshAlarm"
  using handle_readable [OF store_of_history [OF assms]] store_alarm(1) [OF store_of_history [OF assms]]
  by (auto split: option.splits)

theorem refresh_never_unreadable_witness:
  "fst (handle (run do_step empty_store history_ab) 5000 (CCheck pair_a)) \<noteq> Inl InvalidState \<and>
   alarm_at (run do_step empty_store history_ab) = Some 122000"
proof -
  have "Option.bind (view (run do_step empty_store history_ab)) nextVnuRefreshAlarm = Some 122000" by code_simp
  then show ?thesis using refresh_never_unreadable [OF history_ab_ok, of 5000 "CCheck pair_a"] by simp
qed

section \<open>Revocation and rotation\<close>

text \<open>
  C2. Once a request has reported the pair revoked (directly, through its principal, by a
  terminal abort or by being rotated away), no access check accepts the pair again, at any
  later time, unless a later activation or rotation installs that very pair.
\<close>

theorem revoked_stays_revoked:
  assumes "run_ok do_step call_ok empty_store (h @ (t, call) # xs)"
    and "fst (handle (run do_step empty_store h) t call) = Inr r" "revoking p call r"
    and "clocked t xs" "last_time t xs \<le> now" "valid_now now" "valid_pair p"
    and "\<forall>x \<in> set xs. \<not> installs p (snd x)"
  shows "fst (handle (run do_step empty_store (h @ (t, call) # xs)) now (CCheck p)) = Inr (RCheck AccessRevoked)"
proof -
  let ?st = "run do_step empty_store h" and ?fin = "run do_step empty_store (h @ (t, call) # xs)"
  have ok: "run_ok do_step call_ok empty_store h" "call_ok ?st (t, call)"
    "run_ok do_step call_ok (do_step ?st (t, call)) xs"
    using assms(1) by (auto simp: run_ok_append)
  note inv = store_of_history [OF ok(1)]
  have "handle ?st t call = (Inr r, do_step ?st (t, call))"
    using assms(2) by (simp add: prod_eq_iff)
  from spec_revoking [OF handle_refines [OF inv ok(2) this] assms(3)]
  have "au_active (authority_at (do_step ?st (t, call)) t) \<noteq> Some p" .
  from not_active_run [OF refresh_machine.step_inv [OF inv ok(2)] ok(3) assms(4,8) this]
  have "au_active (authority_at ?fin (last_time t xs)) \<noteq> Some p" by (simp add: run_append)
  then have "au_active (authority_at ?fin now) \<noteq> Some p" using assms(5) by (rule not_active_later)
  then show ?thesis
    using check_reply [OF store_of_history [OF assms(1)] assms(6,7)] by simp
qed

lemma history_revoke_ok:
  "run_ok do_step call_ok empty_store (history_ab @ (3000, CRevokeByAccess pair_a) # [(4000, CActivate pair_b)])"
  "fst (handle (run do_step empty_store history_ab) 3000 (CRevokeByAccess pair_a)) = Inr (RRevoke Revoked)"
  by code_simp+

theorem revoked_stays_revoked_witness:
  "fst (handle (run do_step empty_store (history_ab @ (3000, CRevokeByAccess pair_a) # [(4000, CActivate pair_b)]))
     5000 (CCheck pair_a)) = Inr (RCheck AccessRevoked)"
proof (rule revoked_stays_revoked [OF history_revoke_ok])
  show "revoking pair_a (CRevokeByAccess pair_a) (RRevoke Revoked)" by (simp add: revoking_def)
  show "clocked 3000 [(4000, CActivate pair_b)]" "last_time 3000 [(4000, CActivate pair_b)] \<le> 5000" by simp_all
  show "valid_now 5000" "valid_pair pair_a" by code_simp+
  show "\<forall>x \<in> set [(4000, CActivate pair_b)]. \<not> installs pair_a (snd x)" by code_simp
qed

text \<open>
  C3. A completed refresh rotates authority exactly once: from then on the old pair is
  refused, the new pair is accepted for exactly as long as both its halves are unexpired,
  and replaying the completion of the old pair does not succeed.
\<close>

theorem complete_rotates_once:
  assumes "run_ok do_step call_ok empty_store (h @ [(t, CComplete old nxt)])"
    and "fst (handle (run do_step empty_store h) t (CComplete old nxt)) = Inr (RComplete Completed)"
    and "t \<le> now" "valid_now now" "st = run do_step empty_store (h @ [(t, CComplete old nxt)])"
  shows "fst (handle st now (CCheck old)) = Inr (RCheck AccessRevoked) \<and>
    fst (handle st now (CCheck nxt)) =
      Inr (RCheck (if now < accessExpiresAt nxt \<and> now < grantExpiresAt nxt then Active else AccessRevoked)) \<and>
    fst (handle st now (CComplete old other)) \<noteq> Inr (RComplete Completed)"
proof -
  let ?s0 = "run do_step empty_store h"
  have ok: "run_ok do_step call_ok empty_store h" "call_ok ?s0 (t, CComplete old nxt)"
    using assms(1) by (auto simp: history_snoc)
  note inv0 = store_of_history [OF ok(1)]
  have inv: "store_inv st" using store_of_history [OF assms(1)] assms(5) by simp
  have h: "handle ?s0 t (CComplete old nxt) = (Inr (RComplete Completed), st)"
    using assms(2,5) by (simp add: prod_eq_iff run_append)
  have "spec_step (authority_at ?s0 t) t (CComplete old nxt) (RComplete Completed) (authority_at st t)"
    by (rule handle_refines [OF inv0 ok(2) h])
  then have new: "au_active (authority_at st t) = Some nxt" "au_active (authority_at ?s0 t) = Some old"
    "accessTokenId nxt \<noteq> accessTokenId old"
    by (auto elim: spec_completeE)
  then have a: "au_active (authority_at st now) = (if now < grantExpiresAt nxt then Some nxt else None)"
    by (auto simp: authority_at_def)
  obtain out where "applyCompleteRefresh (view ?s0) old nxt t = Inr out"
    using h by (auto simp: reply_Inr mutate_def view_def split: sum.splits)
  then have valid: "valid_pair old" "valid_pair nxt" using applyCompleteRefresh_cases by blast+
  have "old \<noteq> nxt" using new(3) by auto
  moreover have "fst (handle st now (CComplete old other)) \<noteq> Inr (RComplete Completed)"
  proof
    assume *: "fst (handle st now (CComplete old other)) = Inr (RComplete Completed)"
    have "spec_step (authority_at st now) now (CComplete old other) (RComplete Completed)
        (authority_at (snd (handle st now (CComplete old other))) now)"
      using * assms(4) by (intro handle_refines [OF inv]) (auto simp: prod_eq_iff)
    then have "au_active (authority_at st now) = Some old" by (auto elim: spec_completeE)
    with a \<open>old \<noteq> nxt\<close> show False by (auto split: if_splits)
  qed
  ultimately show ?thesis
    using check_reply [OF inv assms(4) valid(1)] check_reply [OF inv assms(4) valid(2)] a
    by (cases "now < grantExpiresAt nxt") (simp_all del: handle.simps)
qed

theorem complete_rotates_once_witness:
  "fst (handle (run do_step empty_store (history_ab @ [(3000, CComplete pair_a pair_b)])) 4000 (CCheck pair_b)) =
     Inr (RCheck Active)"
proof -
  have f: "fst (handle (run do_step empty_store history_ab) 3000 (CComplete pair_a pair_b)) = Inr (RComplete Completed)"
    "valid_now 4000" "4000 < accessExpiresAt pair_b \<and> 4000 < grantExpiresAt pair_b"
    by code_simp+
  have t: "(3000::int) \<le> 4000" by simp
  show ?thesis
    using complete_rotates_once [OF history_ab_complete_ok f(1) t f(2) refl, of pair_b]
    unfolding if_P [OF f(3)] by (elim conjE)
qed

section \<open>Exclusion and limits\<close>

text \<open>
  A refresh in flight excludes every other: after one is accepted with a lease until
  \<open>e\<close>, no further refresh of any pair is accepted before \<open>e\<close>, unless the flight was completed,
  aborted or displaced by an activation in between.
\<close>

theorem single_refresh_in_flight:
  assumes "run_ok do_step call_ok empty_store (h @ (t, CBegin p) # xs @ [(now, CBegin q)])"
    and "fst (handle (run do_step empty_store h) t (CBegin p)) = Inr (RBegin (Accepted e))"
    and "clocked t (xs @ [(now, CBegin q)])" "now < e"
    and "\<forall>x \<in> set xs. \<not> ends_flight p (snd x)"
  shows "fst (handle (run do_step empty_store (h @ (t, CBegin p) # xs)) now (CBegin q)) \<noteq> Inr (RBegin (Accepted k))"
proof -
  let ?s0 = "run do_step empty_store h" and ?s1 = "do_step (run do_step empty_store h) (t, CBegin p)"
  let ?s2 = "run do_step ?s1 xs"
  have ok: "run_ok do_step call_ok empty_store h" "call_ok ?s0 (t, CBegin p)"
    "run_ok do_step call_ok ?s1 xs" "call_ok ?s2 (now, CBegin q)"
    using assms(1) by (simp_all add: run_ok_append del: call_ok.simps do_step.simps)
  note inv0 = store_of_history [OF ok(1)]
  have inv1: "store_inv ?s1" by (rule refresh_machine.step_inv [OF inv0 ok(2)])
  have times: "clocked t xs" "\<forall>x \<in> set xs. fst x < e" "last_time t xs \<le> now"
    using assms(3,4) unfolding clocked_def last_time_def
    by (auto simp: sorted_append last_map split: if_splits)
  have "handle ?s0 t (CBegin p) = (Inr (RBegin (Accepted e)), ?s1)"
    using assms(2) by (simp add: prod_eq_iff)
  from accepted_held [OF inv0 ok(2) this] have "held (authority_at ?s1 t) e p" by simp
  from held_run [OF inv1 ok(3) times(1,2) assms(5) this]
  have "held (authority_at ?s2 (last_time t xs)) e p" .
  then have "held (authority_at ?s2 now) e p" using times(3) assms(4) by (rule held_later)
  then have "fst (handle ?s2 now (CBegin q)) \<noteq> Inr (RBegin (Accepted k))"
    using held_do_step(2) [OF refresh_machine.run_inv [OF inv1 ok(3)] ok(4)] by (simp add: ends_flight_def)
  then show ?thesis by (simp add: run_append)
qed

theorem single_refresh_in_flight_witness:
  "fst (handle (run do_step empty_store ([(1000, CActivate pair_a)] @ (2000, CBegin pair_a) # [(3000, CCheck pair_a)]))
     4000 (CBegin pair_a)) \<noteq> Inr (RBegin (Accepted 5))"
proof (rule single_refresh_in_flight [where e = 122000])
  show "run_ok do_step call_ok empty_store
     ([(1000, CActivate pair_a)] @ (2000, CBegin pair_a) # [(3000, CCheck pair_a)] @ [(4000, CBegin pair_a)])"
    by code_simp
  show "fst (handle (run do_step empty_store [(1000, CActivate pair_a)]) 2000 (CBegin pair_a)) = Inr (RBegin (Accepted 122000))"
    by code_simp
  show "clocked 2000 ([(3000, CCheck pair_a)] @ [(4000, CBegin pair_a)])" by (simp add: clocked_def)
  show "\<forall>x \<in> set [(3000, CCheck pair_a)]. \<not> ends_flight pair_a (snd x)" by (simp add: ends_flight_def)
qed simp

text \<open>
  C4. Both limiters hold over every interleaving of requests: while a refresh window is open
  at most five refreshes are accepted in it, and while an activation window is open at most
  five activations are installed in it.
\<close>

theorem refresh_limits_hold:
  assumes "run_ok do_step call_ok empty_store (h @ xs)" "st = run do_step empty_store h"
  shows "(\<forall>w. attempt_window st = Some w \<longrightarrow> (\<forall>x \<in> set xs. fst x < win_resetAt w) \<longrightarrow>
      win_count w + granted do_step refresh_cost st xs \<le> 5) \<and>
    (\<forall>w. activation_window st = Some w \<longrightarrow> (\<forall>x \<in> set xs. fst x < win_resetAt w) \<longrightarrow>
      win_count w + granted do_step activation_cost st xs \<le> 5)"
proof -
  have ok: "run_ok do_step call_ok empty_store h" "run_ok do_step call_ok st xs"
    using assms by (simp_all add: run_ok_append)
  have inv: "store_inv st" using store_of_history [OF ok(1)] assms(2) by simp
  show ?thesis
    using refresh_limiter.granted_le [OF inv ok(2)] activation_limiter.granted_le [OF inv ok(2)]
    by (auto simp: refresh_constants)
qed

theorem refresh_limits_hold_witness:
  "attempt_window (run do_step empty_store history_ab) = Some \<lparr>win_count = 1, win_resetAt = 901000\<rparr> \<and>
   1 + granted do_step refresh_cost (run do_step empty_store history_ab) [(3000, CAbort pair_a False), (4000, CBegin pair_a)] \<le> 5"
proof -
  let ?xs = "[(3000, CAbort pair_a False), (4000, CBegin pair_a)]"
  have ok: "run_ok do_step call_ok empty_store (history_ab @ ?xs)" by code_simp
  have w: "attempt_window (run do_step empty_store history_ab) = Some \<lparr>win_count = 1, win_resetAt = 901000\<rparr>"
    by code_simp
  show ?thesis
    using refresh_limits_hold [OF ok refl] w by (simp del: refresh_cost.simps run.simps granted.simps)
qed

text \<open>
  C5. The store cleans itself: every alarm that fires at or after its due time removes at
  least one expired entry, so from any reachable store only as many alarms fire in a row as
  it has entries, and when none is scheduled any more the store is empty.
\<close>

theorem refresh_store_empties:
  assumes "run_ok do_step call_ok empty_store h" "fires ring alarm_at (run do_step empty_store h) ts"
  shows "length ts + length (expiring (run ring (run do_step empty_store h) ts)) \<le> length (expiring (run do_step empty_store h)) \<and>
    (alarm_at (run ring (run do_step empty_store h) ts) = None \<longrightarrow> run ring (run do_step empty_store h) ts = empty_store)"
proof -
  note inv = store_of_history [OF assms(1)]
  show ?thesis
    using refresh_cleaning.fires_bound [OF inv assms(2)] refresh_cleaning.fires_done [OF inv assms(2)]
      store_alarm(2) [OF refresh_cleaning.fires_inv [OF inv assms(2)]]
    by simp
qed

theorem refresh_store_empties_witness:
  "run ring (run do_step empty_store history_ab) [122000, 901000, 9000000] = empty_store"
proof -
  have f: "fires ring alarm_at (run do_step empty_store history_ab) [122000, 901000, 9000000]" by code_simp
  have "alarm_at (run ring (run do_step empty_store history_ab) [122000, 901000, 9000000]) = None" by code_simp
  then show ?thesis using refresh_store_empties [OF history_ab_ok f] by blast
qed

section \<open>A latent defect\<close>

text \<open>
  Freshness of an activated pair is relied on but not checked: activating a pair, then
  another, then the first again stores a state that the parser refuses, and from then on
  every request and every alarm of that principal fails and changes nothing.
\<close>

theorem reactivation_makes_cell_unreadable:
  "\<forall>now call. let st = run do_step empty_store [(1000, CActivate pair_a), (2000, CActivate pair_b), (3000, CActivate pair_a)] in
     fst (handle st now call) \<in> {Inl InvalidState, Inl InvalidPair} \<and> snd (handle st now call) = st"
proof -
  define st where "st = run do_step empty_store [(1000, CActivate pair_a), (2000, CActivate pair_b), (3000, CActivate pair_a)]"
  have "parseVnuRefreshControlState (cell st) = Inl InvalidState"
    unfolding st_def by code_simp
  then have "fst (handle st now call) \<in> {Inl InvalidState, Inl InvalidPair} \<and> snd (handle st now call) = st" for now call
    by (cases call) (auto simp: reply_def mutate_def checkAccessAuthoritatively_def)
  then show ?thesis unfolding st_def [symmetric] Let_def by blast
qed

end
