(* ===== verification/ProbeBudget.thy ===== *)
theory ProbeBudget
  imports Prelude
begin

text \<open>
  The VNU lookup budget: \<open>apps/worker/src/vnu/vnu-probe-budget.ts\<close> (limits, shapes and their
  assertions) and \<open>vnu-probe-budget-durable-object.ts\<close> (per session: the probe window, the
  concurrency leases of the Brc1 route, and the single-use permits, budget window and leases
  of cross-student grade details). Storage keys hold untyped values; the operations take the
  clock and the random lease identifier as arguments.
\<close>

section \<open>Constants and shapes\<close>

definition VNU_PROBE_BUDGET_LIMIT :: int where "VNU_PROBE_BUDGET_LIMIT = 300"
definition VNU_PROBE_BUDGET_WINDOW_SECONDS :: int where "VNU_PROBE_BUDGET_WINDOW_SECONDS = 600"
definition VNU_PROBE_BUDGET_UNAVAILABLE_RETRY_SECONDS :: int where
  "VNU_PROBE_BUDGET_UNAVAILABLE_RETRY_SECONDS = 5"
definition VNU_BRC1_PERMIT_LIMIT :: nat where "VNU_BRC1_PERMIT_LIMIT = 6"
definition VNU_BRC1_PERMIT_LEASE_MS :: int where "VNU_BRC1_PERMIT_LEASE_MS = 125000"
definition VNU_CROSS_DETAIL_POLICY_VERSION :: int where "VNU_CROSS_DETAIL_POLICY_VERSION = 1"
definition VNU_CROSS_DETAIL_LEASE_MS :: int where "VNU_CROSS_DETAIL_LEASE_MS = 125000"
definition VNU_CROSS_DETAIL_ENVELOPE_MAX_LENGTH :: nat where
  "VNU_CROSS_DETAIL_ENVELOPE_MAX_LENGTH = 1024"

lemmas budget_constants =
  VNU_PROBE_BUDGET_LIMIT_def VNU_PROBE_BUDGET_WINDOW_SECONDS_def VNU_BRC1_PERMIT_LIMIT_def
  VNU_BRC1_PERMIT_LEASE_MS_def VNU_CROSS_DETAIL_POLICY_VERSION_def VNU_CROSS_DETAIL_LEASE_MS_def
  VNU_CROSS_DETAIL_ENVELOPE_MAX_LENGTH_def

record cross_limits =
  maxTargets :: int
  maxRows :: int
  concurrency :: int
  cl_budget :: int
  cl_windowSeconds :: int

record permit_record =
  requesterHmac :: string
  targetHmac :: string
  revisionHmac :: string
  rowHmac :: string
  policyVersion :: int
  nonce :: string
  envelope :: string
  expiresAt :: int

record issued_permit =
  permitHash :: string
  ip_record :: permit_record

record consume_input =
  ci_permitHash :: string
  ci_nonce :: string
  ci_requesterHmac :: string
  ci_targetHmac :: string
  ci_revisionHmac :: string
  ci_rowHmac :: string
  ci_policyVersion :: int

datatype consume_result =
    ConsumeAllowed string int string
  | ConsumeInvalid
  | ConsumeBudget int
  | ConsumeBusy int

datatype budget_result = BudgetAllowed | BudgetDenied int

datatype lease_result = LeaseGranted string int | LeaseDenied int

datatype budget_error =
    BadAmount
  | BadLimits
  | BadRecord
  | BadIssuance
  | BadConsumeInput
  | StoredWindowInvalid
  | StoredPermitsInvalid

section \<open>Assertions\<close>

definition assertValidVnuCrossDetailLimits :: "cross_limits \<Rightarrow> budget_error + unit" where
  "assertValidVnuCrossDetailLimits l = (
     if \<not> safe_integer (maxTargets l) \<or> maxTargets l \<le> 0 then Inl BadLimits
     else if \<not> safe_integer (maxRows l) \<or> maxRows l \<le> 0 then Inl BadLimits
     else if \<not> safe_integer (concurrency l) \<or> concurrency l \<le> 0 \<or> concurrency l > 16 then Inl BadLimits
     else if \<not> safe_integer (cl_budget l) \<or> cl_budget l \<le> 0 then Inl BadLimits
     else if \<not> safe_integer (cl_windowSeconds l) \<or> cl_windowSeconds l \<le> 0 then Inl BadLimits
     else Inr ())"

definition assertValidCrossDetailRecord :: "permit_record \<Rightarrow> budget_error + unit" where
  "assertValidCrossDetailRecord r = (
     if \<not> hex_n 64 (requesterHmac r) then Inl BadRecord
     else if \<not> hex_n 64 (targetHmac r) then Inl BadRecord
     else if \<not> hex_n 64 (revisionHmac r) then Inl BadRecord
     else if \<not> hex_n 64 (rowHmac r) then Inl BadRecord
     else if policyVersion r \<noteq> VNU_CROSS_DETAIL_POLICY_VERSION then Inl BadRecord
     else if \<not> hex_n 32 (nonce r) then Inl BadRecord
     else if length (envelope r) = 0 \<or> length (envelope r) > VNU_CROSS_DETAIL_ENVELOPE_MAX_LENGTH
     then Inl BadRecord
     else if \<not> safe_integer (expiresAt r) \<or> expiresAt r \<le> 0 then Inl BadRecord
     else Inr ())"

fun check_permits :: "issued_permit list \<Rightarrow> string list \<Rightarrow> budget_error + string list" where
  "check_permits [] targets = Inr targets"
| "check_permits (p # ps) targets = (
     if \<not> hex_n 64 (permitHash p) then Inl BadIssuance
     else sbind (assertValidCrossDetailRecord (ip_record p)) (\<lambda>_.
       check_permits ps (List.insert (targetHmac (ip_record p)) targets)))"

definition assertValidVnuCrossDetailIssuedPermits :: "issued_permit list \<Rightarrow> cross_limits \<Rightarrow> budget_error + unit" where
  "assertValidVnuCrossDetailIssuedPermits permits l = (
     if permits = [] \<or> int (length permits) > maxRows l then Inl BadIssuance
     else sbind (check_permits permits []) (\<lambda>targets.
       if int (length targets) > maxTargets l then Inl BadIssuance else Inr ()))"

definition assertValidVnuCrossDetailConsumeInput :: "consume_input \<Rightarrow> budget_error + unit" where
  "assertValidVnuCrossDetailConsumeInput i = (
     if \<not> hex_n 64 (ci_permitHash i) then Inl BadConsumeInput
     else if \<not> hex_n 32 (ci_nonce i) then Inl BadConsumeInput
     else if \<not> hex_n 64 (ci_requesterHmac i) then Inl BadConsumeInput
     else if \<not> hex_n 64 (ci_targetHmac i) then Inl BadConsumeInput
     else if \<not> hex_n 64 (ci_revisionHmac i) then Inl BadConsumeInput
     else if \<not> hex_n 64 (ci_rowHmac i) then Inl BadConsumeInput
     else if ci_policyVersion i \<noteq> VNU_CROSS_DETAIL_POLICY_VERSION then Inl BadConsumeInput
     else Inr ())"

definition assertValidConsumeAmount :: "int \<Rightarrow> budget_error + unit" where
  "assertValidConsumeAmount amount = (
     if \<not> safe_integer amount \<or> amount \<le> 0 \<or> amount > VNU_PROBE_BUDGET_LIMIT then Inl BadAmount else Inr ())"

section \<open>Stored values\<close>

record budget_window =
  count :: int
  resetAt :: int

definition parseStoredWindow :: "jval \<Rightarrow> budget_error + budget_window option" where
  "parseStoredWindow v = (case v of
     JUndefined \<Rightarrow> Inr None
   | JObj kvs \<Rightarrow> (case (field ''count'' kvs, field ''resetAt'' kvs) of
       (JInt c, JInt r) \<Rightarrow>
         if safe_integer c \<and> 0 \<le> c \<and> pos_safe r then Inr (Some \<lparr>count = c, resetAt = r\<rparr>)
         else Inl StoredWindowInvalid
     | _ \<Rightarrow> Inl StoredWindowInvalid)
   | _ \<Rightarrow> Inl StoredWindowInvalid)"

definition consumeBudgetWindow ::
  "budget_window option \<Rightarrow> int \<Rightarrow> int \<Rightarrow> int \<Rightarrow> int \<Rightarrow> budget_window \<times> budget_result" where
  "consumeBudgetWindow stored amount now limit windowSeconds = (
     let window = (case stored of
           None \<Rightarrow> \<lparr>count = 0, resetAt = now + windowSeconds * 1000\<rparr>
         | Some w \<Rightarrow> if now \<ge> resetAt w then \<lparr>count = 0, resetAt = now + windowSeconds * 1000\<rparr> else w)
     in if count window + amount > limit
        then (window, BudgetDenied (retry_after (resetAt window) now))
        else (window\<lparr>count := count window + amount\<rparr>, BudgetAllowed))"

record stored_permit =
  sp_record :: permit_record
  consumedAt :: "int option"

definition parsePermit :: "string \<times> jval \<Rightarrow> budget_error + (string \<times> stored_permit)" where
  "parsePermit kv = (case kv of (k, v) \<Rightarrow>
     if \<not> hex_n 64 k then Inl StoredPermitsInvalid
     else (case v of
       JObj f \<Rightarrow>
         (case (field ''requesterHmac'' f, field ''targetHmac'' f, field ''revisionHmac'' f, field ''rowHmac'' f,
                field ''policyVersion'' f, field ''nonce'' f, field ''envelope'' f, field ''expiresAt'' f) of
            (JStr rq, JStr tg, JStr rv, JStr rw, JInt pv, JStr nn, JStr en, JInt ex) \<Rightarrow>
              if hex_n 64 rq \<and> hex_n 64 tg \<and> hex_n 64 rv \<and> hex_n 64 rw \<and>
                 pv = VNU_CROSS_DETAIL_POLICY_VERSION \<and> hex_n 32 nn \<and> length en \<noteq> 0 \<and> pos_safe ex
              then (let r = \<lparr>requesterHmac = rq, targetHmac = tg, revisionHmac = rv, rowHmac = rw,
                             policyVersion = pv, nonce = nn, envelope = en, expiresAt = ex\<rparr> in
                case field ''consumedAt'' f of
                  JUndefined \<Rightarrow> Inr (k, \<lparr>sp_record = r, consumedAt = None\<rparr>)
                | JInt c \<Rightarrow> if pos_safe c then Inr (k, \<lparr>sp_record = r, consumedAt = Some c\<rparr>)
                           else Inl StoredPermitsInvalid
                | _ \<Rightarrow> Inl StoredPermitsInvalid)
              else Inl StoredPermitsInvalid
          | _ \<Rightarrow> Inl StoredPermitsInvalid)
     | _ \<Rightarrow> Inl StoredPermitsInvalid))"

definition parseStoredCrossDetailPermits :: "jval \<Rightarrow> budget_error + (string \<times> stored_permit) list" where
  "parseStoredCrossDetailPermits v = (case v of
     JUndefined \<Rightarrow> Inr []
   | JObj kvs \<Rightarrow> traverse parsePermit kvs
   | _ \<Rightarrow> Inl StoredPermitsInvalid)"

text \<open>
  \<open>Object.entries(stored ?? {})\<close> for the lease tables: the entries of an object, the
  elements of an array (whose index keys are no lease identifiers), and nothing numeric
  from any other value.
\<close>

definition raw_entries :: "jval \<Rightarrow> (string \<times> jval) list" where
  "raw_entries v = (case v of JObj kvs \<Rightarrow> kvs | JArr vs \<Rightarrow> map (Pair []) vs | _ \<Rightarrow> [])"

fun live_lease :: "int \<Rightarrow> string \<times> jval \<Rightarrow> (string \<times> int) option" where
  "live_lease now (k, JInt e) = (if hex_n 32 k \<and> safe_integer e \<and> e > now then Some (k, e) else None)"
| "live_lease now (k, _) = None"

definition active_leases :: "jval \<Rightarrow> int \<Rightarrow> (string \<times> int) list" where
  "active_leases v now = List.map_filter (live_lease now) (raw_entries v)"

definition active_permits :: "jval \<Rightarrow> int \<Rightarrow> budget_error + (string \<times> stored_permit) list" where
  "active_permits v now = sbind (parseStoredCrossDetailPermits v) (\<lambda>ps.
     Inr (filter (\<lambda>(_, p). expiresAt (sp_record p) > now) ps))"

definition enc_budget_window :: "budget_window \<Rightarrow> jval" where
  "enc_budget_window w = JObj [(''count'', JInt (count w)), (''resetAt'', JInt (resetAt w))]"

definition enc_leases :: "(string \<times> int) list \<Rightarrow> jval" where
  "enc_leases ls = JObj (map (\<lambda>(k, e). (k, JInt e)) ls)"

definition enc_permit :: "stored_permit \<Rightarrow> jval" where
  "enc_permit p = (let r = sp_record p in JObj (
     [(''requesterHmac'', JStr (requesterHmac r)), (''targetHmac'', JStr (targetHmac r)),
      (''revisionHmac'', JStr (revisionHmac r)), (''rowHmac'', JStr (rowHmac r)),
      (''policyVersion'', JInt (policyVersion r)), (''nonce'', JStr (nonce r)),
      (''envelope'', JStr (envelope r)), (''expiresAt'', JInt (expiresAt r))] @
     (case consumedAt p of None \<Rightarrow> [] | Some c \<Rightarrow> [(''consumedAt'', JInt c)])))"

definition enc_permits :: "(string \<times> stored_permit) list \<Rightarrow> jval" where
  "enc_permits ps = JObj (map (\<lambda>(k, p). (k, enc_permit p)) ps)"

section \<open>The durable object\<close>

record budget_store =
  k_window :: jval
  k_permits :: jval
  k_detail_permits :: jval
  k_detail_window :: jval
  k_detail_leases :: jval
  k_alarm :: "int option"

definition empty_budget :: budget_store where
  "empty_budget = \<lparr>k_window = JUndefined, k_permits = JUndefined, k_detail_permits = JUndefined,
     k_detail_window = JUndefined, k_detail_leases = JUndefined, k_alarm = None\<rparr>"

text \<open>The alarm reads the values of the lease tables without looking at their keys.\<close>

fun live_value :: "int \<Rightarrow> string \<times> jval \<Rightarrow> int option" where
  "live_value now (k, JInt e) = (if safe_integer e \<and> e > now then Some e else None)"
| "live_value now (k, _) = None"

definition least :: "int list \<Rightarrow> int option" where
  "least ts = (case ts of [] \<Rightarrow> None | t # rest \<Rightarrow> Some (fold min rest t))"

definition rescheduleAlarm :: "budget_store \<Rightarrow> int \<Rightarrow> budget_error + budget_store" where
  "rescheduleAlarm st now = sbind (parseStoredCrossDetailPermits (k_detail_permits st)) (\<lambda>ps.
     Inr (st\<lparr>k_alarm := least (
       List.map_filter (live_value now) (raw_entries (k_permits st)) @
       filter (\<lambda>e. e > now) (map (\<lambda>(_, p). expiresAt (sp_record p)) ps) @
       List.map_filter (live_value now) (raw_entries (k_detail_leases st)))\<rparr>))"

definition table :: "('a list \<Rightarrow> jval) \<Rightarrow> 'a list \<Rightarrow> jval" where
  "table enc xs = (if xs = [] then JUndefined else enc xs)"

definition storePermits :: "budget_store \<Rightarrow> (string \<times> int) list \<Rightarrow> int \<Rightarrow> budget_error + budget_store" where
  "storePermits st ls now = rescheduleAlarm (st\<lparr>k_permits := table enc_leases ls\<rparr>) now"

definition storeCrossDetailPermits ::
  "budget_store \<Rightarrow> (string \<times> stored_permit) list \<Rightarrow> int \<Rightarrow> budget_error + budget_store" where
  "storeCrossDetailPermits st ps now = rescheduleAlarm (st\<lparr>k_detail_permits := table enc_permits ps\<rparr>) now"

definition storeCrossDetailLeases :: "budget_store \<Rightarrow> (string \<times> int) list \<Rightarrow> int \<Rightarrow> budget_error + budget_store" where
  "storeCrossDetailLeases st ls now = rescheduleAlarm (st\<lparr>k_detail_leases := table enc_leases ls\<rparr>) now"

definition acquireBrc1Permit :: "budget_store \<Rightarrow> int \<Rightarrow> string \<Rightarrow> budget_error + (lease_result \<times> budget_store)" where
  "acquireBrc1Permit st now leaseId = (let permits = active_leases (k_permits st) now in
     if length permits \<ge> VNU_BRC1_PERMIT_LIMIT then Inr (LeaseDenied 1, st)
     else let e = now + VNU_BRC1_PERMIT_LEASE_MS in
       sbind (rescheduleAlarm (st\<lparr>k_permits := enc_leases (AList.update leaseId e permits)\<rparr>) now)
         (\<lambda>st'. Inr (LeaseGranted leaseId e, st')))"

definition releaseBrc1Permit :: "budget_store \<Rightarrow> int \<Rightarrow> string \<Rightarrow> budget_error + budget_store" where
  "releaseBrc1Permit st now leaseId = (
     if \<not> hex_n 32 leaseId then Inr st
     else let permits = active_leases (k_permits st) now in
       if map_of permits leaseId = None then Inr st
       else storePermits st (AList.delete leaseId permits) now)"

definition bindings_match :: "stored_permit \<Rightarrow> consume_input \<Rightarrow> bool" where
  "bindings_match p i \<longleftrightarrow> (let r = sp_record p in
     consumedAt p = None \<and> nonce r = ci_nonce i \<and> requesterHmac r = ci_requesterHmac i \<and>
     targetHmac r = ci_targetHmac i \<and> revisionHmac r = ci_revisionHmac i \<and> rowHmac r = ci_rowHmac i \<and>
     policyVersion r = ci_policyVersion i)"

definition consumeCrossDetailPermit ::
  "budget_store \<Rightarrow> int \<Rightarrow> string \<Rightarrow> consume_input \<Rightarrow> cross_limits \<Rightarrow> budget_error + (consume_result \<times> budget_store)" where
  "consumeCrossDetailPermit st now leaseId i l =
     sbind (assertValidVnuCrossDetailLimits l) (\<lambda>_.
       case assertValidVnuCrossDetailConsumeInput i of
         Inl _ \<Rightarrow> Inr (ConsumeInvalid, st)
       | Inr _ \<Rightarrow>
         sbind (active_permits (k_detail_permits st) now) (\<lambda>permits.
         let leases = active_leases (k_detail_leases st) now in
         case map_of permits (ci_permitHash i) of
           None \<Rightarrow> Inr (ConsumeInvalid, st)
         | Some p \<Rightarrow>
           if \<not> bindings_match p i then Inr (ConsumeInvalid, st)
           else sbind (parseStoredWindow (k_detail_window st)) (\<lambda>storedWindow.
             case consumeBudgetWindow storedWindow 1 now (cl_budget l) (cl_windowSeconds l) of
               (_, BudgetDenied k) \<Rightarrow> Inr (ConsumeBudget k, st)
             | (w, BudgetAllowed) \<Rightarrow>
               if int (length leases) \<ge> concurrency l then Inr (ConsumeBusy 1, st)
               else let e = now + VNU_CROSS_DETAIL_LEASE_MS in
                 sbind (rescheduleAlarm (st\<lparr>
                     k_detail_permits := enc_permits (AList.update (ci_permitHash i) (p\<lparr>consumedAt := Some now\<rparr>) permits),
                     k_detail_window := enc_budget_window w,
                     k_detail_leases := enc_leases (AList.update leaseId e leases)\<rparr>) now)
                   (\<lambda>st'. Inr (ConsumeAllowed leaseId e (envelope (sp_record p)), st')))))"

fun add_permits :: "(string \<times> stored_permit) list \<Rightarrow> issued_permit list \<Rightarrow> (string \<times> stored_permit) list" where
  "add_permits stored [] = stored"
| "add_permits stored (p # ps) =
     add_permits (AList.update (permitHash p) \<lparr>sp_record = ip_record p, consumedAt = None\<rparr> stored) ps"

definition issueCrossDetailPermits ::
  "budget_store \<Rightarrow> int \<Rightarrow> issued_permit list \<Rightarrow> cross_limits \<Rightarrow> budget_error + budget_store" where
  "issueCrossDetailPermits st now permits l =
     sbind (assertValidVnuCrossDetailLimits l) (\<lambda>_.
     sbind (assertValidVnuCrossDetailIssuedPermits permits l) (\<lambda>_.
     sbind (active_permits (k_detail_permits st) now) (\<lambda>stored.
       rescheduleAlarm (st\<lparr>k_detail_permits := enc_permits (add_permits stored permits)\<rparr>) now)))"

definition releaseCrossDetailLease :: "budget_store \<Rightarrow> int \<Rightarrow> string \<Rightarrow> budget_error + budget_store" where
  "releaseCrossDetailLease st now leaseId = (
     if \<not> hex_n 32 leaseId then Inr st
     else let leases = active_leases (k_detail_leases st) now in
       if map_of leases leaseId = None then Inr st
       else storeCrossDetailLeases st (AList.delete leaseId leases) now)"

definition budget_alarm :: "budget_store \<Rightarrow> int \<Rightarrow> budget_error + budget_store" where
  "budget_alarm st now =
     sbind (storePermits st (active_leases (k_permits st) now) now) (\<lambda>st1.
     sbind (active_permits (k_detail_permits st1) now) (\<lambda>ps.
     sbind (storeCrossDetailPermits st1 ps now) (\<lambda>st2.
       storeCrossDetailLeases st2 (active_leases (k_detail_leases st2) now) now)))"

definition reserve :: "budget_store \<Rightarrow> int \<Rightarrow> int \<Rightarrow> budget_error + (budget_result \<times> budget_store)" where
  "reserve st now amount =
     sbind (assertValidConsumeAmount amount) (\<lambda>_.
     sbind (parseStoredWindow (k_window st)) (\<lambda>stored.
       case consumeBudgetWindow stored amount now VNU_PROBE_BUDGET_LIMIT VNU_PROBE_BUDGET_WINDOW_SECONDS of
         (_, BudgetDenied k) \<Rightarrow> Inr (BudgetDenied k, st)
       | (w, BudgetAllowed) \<Rightarrow> Inr (BudgetAllowed, st\<lparr>k_window := enc_budget_window w\<rparr>)))"

definition consume :: "budget_store \<Rightarrow> int \<Rightarrow> int \<Rightarrow> budget_error + (budget_result \<times> budget_store)" where
  "consume st now amount = reserve st now amount"

section \<open>Requests as steps\<close>

text \<open>
  The RPC surface of the object. A request that draws a lease identifier carries the value
  \<open>randomHex32()\<close> returns.
\<close>

datatype budget_call =
    BReserve int
  | BConsume int
  | BAcquire string
  | BRelease string
  | BIssue "issued_permit list" cross_limits
  | BConsumeDetail string consume_input cross_limits
  | BReleaseDetail string
  | BAlarm

datatype budget_reply =
    RBudget budget_result
  | RLease lease_result
  | RConsume consume_result
  | RDone

definition with_reply :: "('a \<Rightarrow> budget_reply) \<Rightarrow> budget_store \<Rightarrow> budget_error + ('a \<times> budget_store) \<Rightarrow>
    (budget_error + budget_reply) \<times> budget_store" where
  "with_reply f st r = (case r of Inl e \<Rightarrow> (Inl e, st) | Inr (x, st') \<Rightarrow> (Inr (f x), st'))"

definition with_done :: "budget_store \<Rightarrow> budget_error + budget_store \<Rightarrow> (budget_error + budget_reply) \<times> budget_store" where
  "with_done st r = (case r of Inl e \<Rightarrow> (Inl e, st) | Inr st' \<Rightarrow> (Inr RDone, st'))"

text \<open>A storage transaction that throws is rolled back.\<close>

fun budget_handle :: "budget_store \<Rightarrow> int \<Rightarrow> budget_call \<Rightarrow> (budget_error + budget_reply) \<times> budget_store" where
  "budget_handle st now (BReserve n) = with_reply RBudget st (reserve st now n)"
| "budget_handle st now (BConsume n) = with_reply RBudget st (consume st now n)"
| "budget_handle st now (BAcquire i) = with_reply RLease st (acquireBrc1Permit st now i)"
| "budget_handle st now (BRelease i) = with_done st (releaseBrc1Permit st now i)"
| "budget_handle st now (BIssue ps l) = with_done st (issueCrossDetailPermits st now ps l)"
| "budget_handle st now (BConsumeDetail i c l) = with_reply RConsume st (consumeCrossDetailPermit st now i c l)"
| "budget_handle st now (BReleaseDetail i) = with_done st (releaseCrossDetailLease st now i)"
| "budget_handle st now BAlarm = with_done st (budget_alarm st now)"

fun budget_step :: "budget_store \<Rightarrow> int \<times> budget_call \<Rightarrow> budget_store" where
  "budget_step st (now, call) = snd (budget_handle st now call)"

text \<open>
  Admissible requests: a possible clock, lease identifiers of the shape \<open>randomHex32\<close> gives,
  and a detail window of at most ten years, so that its reset time is a safe integer.
\<close>

fun budget_ok :: "budget_store \<Rightarrow> int \<times> budget_call \<Rightarrow> bool" where
  "budget_ok st (now, call) = (valid_now now \<and> (case call of
     BAcquire i \<Rightarrow> hex_n 32 i
   | BConsumeDetail i c l \<Rightarrow> hex_n 32 i \<and> cl_windowSeconds l \<le> 315360000
   | _ \<Rightarrow> True))"

section \<open>The coordinator\<close>

definition rateLimited :: "int \<Rightarrow> hyeboard_error" where
  "rateLimited k = \<lparr>err_code = ''VNU_RATE_LIMITED'',
     err_message = ''This session has reached the VNU lookup probe limit. Wait for the probe window to reset and try again.'',
     err_status = 429,
     err_details = [(''retryAfterSeconds'', JInt k), (''limit'', JInt VNU_PROBE_BUDGET_LIMIT),
       (''windowSeconds'', JInt VNU_PROBE_BUDGET_WINDOW_SECONDS)]\<rparr>"

definition busy :: "int \<Rightarrow> hyeboard_error" where
  "busy k = \<lparr>err_code = ''VNU_CROSS_LOOKUP_BUSY'',
     err_message = ''This VNU session is handling the maximum number of lookups. Try again shortly.'',
     err_status = 429, err_details = [(''retryAfterSeconds'', JInt k)]\<rparr>"

definition crossDetailPermitInvalid :: hyeboard_error where
  "crossDetailPermitInvalid = \<lparr>err_code = ''VNU_CROSS_DETAIL_PERMIT_INVALID'',
     err_message = ''The cross-detail permit is invalid or expired.'', err_status = 403, err_details = []\<rparr>"

definition crossDetailRateLimited :: "int \<Rightarrow> cross_limits \<Rightarrow> hyeboard_error" where
  "crossDetailRateLimited k l = \<lparr>err_code = ''VNU_RATE_LIMITED'',
     err_message = ''This session has reached the VNU grade-detail lookup limit. Wait for the detail window to reset and try again.'',
     err_status = 429,
     err_details = [(''retryAfterSeconds'', JInt k), (''limit'', JInt (cl_budget l)),
       (''windowSeconds'', JInt (cl_windowSeconds l))]\<rparr>"

definition probeBudgetUnavailable :: hyeboard_error where
  "probeBudgetUnavailable = \<lparr>err_code = ''VNU_PROBE_BUDGET_UNAVAILABLE'',
     err_message = ''The VNU lookup probe budget is temporarily unavailable. Try again shortly.'',
     err_status = 503, err_details = [(''retryAfterSeconds'', JInt VNU_PROBE_BUDGET_UNAVAILABLE_RETRY_SECONDS)]\<rparr>"

text \<open>What a call of the coordinator throws: a plain assertion, the caller's abort, or a core error.\<close>

datatype coordinator_error =
    BadIdentity
  | BadLease
  | Asserted budget_error
  | AbortedByCaller
  | Rejected hyeboard_error

text \<open>
  The abort signal of an acquisition: absent or never raised, raised before the call, or
  raised while the request is pending, in which case a lease that is granted anyway is
  released at the given time.
\<close>

datatype abort = NoAbort | AbortBefore | AbortPending int

datatype coordinator_op =
    OCharge bool int
  | OAcquire string abort
  | ORelease string
  | OIssue "issued_permit list" cross_limits
  | OConsumeDetail string consume_input cross_limits
  | OReleaseDetail string

type_synonym budget_ns = "string \<Rightarrow> budget_store"

definition rpc :: "budget_ns \<Rightarrow> string \<Rightarrow> int \<Rightarrow> budget_call \<Rightarrow>
    (coordinator_error + budget_reply) \<times> budget_ns" where
  "rpc ns key now call = (case budget_handle (ns key) now call of
     (Inl _, st) \<Rightarrow> (Inl (Rejected probeBudgetUnavailable), ns(key := st))
   | (Inr r, st) \<Rightarrow> (Inr r, ns(key := st)))"

definition verdict :: "(budget_reply \<Rightarrow> coordinator_error + budget_reply) \<Rightarrow>
    (coordinator_error + budget_reply) \<times> budget_ns \<Rightarrow> (coordinator_error + budget_reply) \<times> budget_ns" where
  "verdict f r = (sbind (fst r) f, snd r)"

fun charge_verdict :: "budget_reply \<Rightarrow> coordinator_error + budget_reply" where
  "charge_verdict (RBudget (BudgetDenied k)) = Inl (Rejected (rateLimited k))"
| "charge_verdict r = Inr r"

fun lease_verdict :: "budget_reply \<Rightarrow> coordinator_error + budget_reply" where
  "lease_verdict (RLease (LeaseDenied k)) = Inl (Rejected (busy k))"
| "lease_verdict r = Inr r"

fun consume_verdict :: "cross_limits \<Rightarrow> budget_reply \<Rightarrow> coordinator_error + budget_reply" where
  "consume_verdict l (RConsume (ConsumeBudget k)) = Inl (Rejected (crossDetailRateLimited k l))"
| "consume_verdict l (RConsume (ConsumeBusy k)) = Inl (Rejected (busy k))"
| "consume_verdict l (RConsume ConsumeInvalid) = Inl (Rejected crossDetailPermitInvalid)"
| "consume_verdict l r = Inr r"

definition asserted :: "budget_error + unit \<Rightarrow> coordinator_error option" where
  "asserted r = (case r of Inl e \<Rightarrow> Some (Asserted e) | Inr _ \<Rightarrow> None)"

fun acquire_pending :: "string \<Rightarrow> int \<Rightarrow> (coordinator_error + budget_reply) \<times> budget_ns \<Rightarrow>
    (coordinator_error + budget_reply) \<times> budget_ns" where
  "acquire_pending key later (Inr (RLease (LeaseGranted i e)), ns') =
     (Inl AbortedByCaller, snd (rpc ns' key later (BRelease i)))"
| "acquire_pending key later (_, ns') = (Inl AbortedByCaller, ns')"

fun budget_coordinator :: "budget_ns \<Rightarrow> string \<Rightarrow> int \<Rightarrow> coordinator_op \<Rightarrow>
    (coordinator_error + budget_reply) \<times> budget_ns" where
  "budget_coordinator ns key now (OCharge reserving n) = (
     if \<not> hex_n 64 key then (Inl BadIdentity, ns)
     else case asserted (assertValidConsumeAmount n) of Some e \<Rightarrow> (Inl e, ns)
     | None \<Rightarrow> verdict charge_verdict (rpc ns key now (if reserving then BReserve n else BConsume n)))"
| "budget_coordinator ns key now (OAcquire i ab) = (
     if \<not> hex_n 64 key then (Inl BadIdentity, ns)
     else case ab of
       AbortBefore \<Rightarrow> (Inl AbortedByCaller, ns)
     | NoAbort \<Rightarrow> verdict lease_verdict (rpc ns key now (BAcquire i))
     | AbortPending later \<Rightarrow> acquire_pending key later (rpc ns key now (BAcquire i)))"
| "budget_coordinator ns key now (ORelease i) = (
     if \<not> hex_n 64 key then (Inl BadIdentity, ns)
     else if \<not> hex_n 32 i then (Inl BadLease, ns)
     else rpc ns key now (BRelease i))"
| "budget_coordinator ns key now (OIssue ps l) = (
     if \<not> hex_n 64 key then (Inl BadIdentity, ns)
     else case asserted (assertValidVnuCrossDetailLimits l) of Some e \<Rightarrow> (Inl e, ns)
     | None \<Rightarrow> (case asserted (assertValidVnuCrossDetailIssuedPermits ps l) of Some e \<Rightarrow> (Inl e, ns)
       | None \<Rightarrow> rpc ns key now (BIssue ps l)))"
| "budget_coordinator ns key now (OConsumeDetail i c l) = (
     if \<not> hex_n 64 key then (Inl BadIdentity, ns)
     else case asserted (assertValidVnuCrossDetailLimits l) of Some e \<Rightarrow> (Inl e, ns)
     | None \<Rightarrow> (case asserted (assertValidVnuCrossDetailConsumeInput c) of Some e \<Rightarrow> (Inl e, ns)
       | None \<Rightarrow> verdict (consume_verdict l) (rpc ns key now (BConsumeDetail i c l))))"
| "budget_coordinator ns key now (OReleaseDetail i) = (
     if \<not> hex_n 64 key then (Inl BadIdentity, ns)
     else if \<not> hex_n 32 i then (Inl BadLease, ns)
     else rpc ns key now (BReleaseDetail i))"

end
