(* ===== verification/BudgetTables.thy ===== *)
theory BudgetTables
  imports ProbeBudget
begin

text \<open>
  The tables behind the budget object: what its storage keys hold, as typed tables, the
  storage form of the tables, and the requests as operations on tables. The refinement
  theorem of this theory says that a request on stored tables is the operation on the tables
  followed by storing them, so no validator of the object fails on what the object wrote.
\<close>

section \<open>Typed tables\<close>

record tables =
  t_window :: "budget_window option"
  t_leases :: "(string \<times> int) list"
  t_permits :: "(string \<times> stored_permit) list"
  t_dwindow :: "budget_window option"
  t_dleases :: "(string \<times> int) list"
  t_alarm :: "int option"

definition enc_window_option :: "budget_window option \<Rightarrow> jval" where
  "enc_window_option w = (case w of None \<Rightarrow> JUndefined | Some v \<Rightarrow> enc_budget_window v)"

definition store_tables :: "tables \<Rightarrow> budget_store" where
  "store_tables b = \<lparr>k_window = enc_window_option (t_window b), k_permits = table enc_leases (t_leases b),
     k_detail_permits = table enc_permits (t_permits b), k_detail_window = enc_window_option (t_dwindow b),
     k_detail_leases = table enc_leases (t_dleases b), k_alarm = t_alarm b\<rparr>"

definition wf_budget_window :: "budget_window \<Rightarrow> bool" where
  "wf_budget_window w \<longleftrightarrow> safe_integer (count w) \<and> 0 \<le> count w \<and> pos_safe (resetAt w)"

definition wf_leases :: "(string \<times> int) list \<Rightarrow> bool" where
  "wf_leases ls \<longleftrightarrow> distinct (map fst ls) \<and> (\<forall>(k, e) \<in> set ls. hex_n 32 k \<and> pos_safe e)"

definition wf_permit :: "stored_permit \<Rightarrow> bool" where
  "wf_permit p \<longleftrightarrow> (let r = sp_record p in
     hex_n 64 (requesterHmac r) \<and> hex_n 64 (targetHmac r) \<and> hex_n 64 (revisionHmac r) \<and> hex_n 64 (rowHmac r) \<and>
     policyVersion r = VNU_CROSS_DETAIL_POLICY_VERSION \<and> hex_n 32 (nonce r) \<and> envelope r \<noteq> [] \<and> pos_safe (expiresAt r)) \<and>
     (case consumedAt p of None \<Rightarrow> True | Some c \<Rightarrow> pos_safe c)"

definition wf_permits :: "(string \<times> stored_permit) list \<Rightarrow> bool" where
  "wf_permits ps \<longleftrightarrow> distinct (map fst ps) \<and> (\<forall>(k, p) \<in> set ps. hex_n 64 k \<and> wf_permit p)"

definition wf_tables :: "tables \<Rightarrow> bool" where
  "wf_tables b \<longleftrightarrow>
     (\<forall>w. t_window b = Some w \<longrightarrow> wf_budget_window w \<and> count w \<le> VNU_PROBE_BUDGET_LIMIT) \<and>
     wf_leases (t_leases b) \<and> length (t_leases b) \<le> VNU_BRC1_PERMIT_LIMIT \<and>
     wf_permits (t_permits b) \<and> (\<forall>w. t_dwindow b = Some w \<longrightarrow> wf_budget_window w) \<and> wf_leases (t_dleases b)"

definition empty_tables :: tables where
  "empty_tables = \<lparr>t_window = None, t_leases = [], t_permits = [], t_dwindow = None, t_dleases = [], t_alarm = None\<rparr>"

lemma store_empty_tables: "store_tables empty_tables = empty_budget"
  by (simp add: store_tables_def empty_tables_def empty_budget_def enc_window_option_def table_def)

lemma wf_empty_tables: "wf_tables empty_tables"
  by (simp add: wf_tables_def empty_tables_def wf_leases_def wf_permits_def)

section \<open>Reading the tables back\<close>

definition unexpired :: "int \<Rightarrow> (string \<times> int) list \<Rightarrow> (string \<times> int) list" where
  "unexpired now ls = filter (\<lambda>(_, e). e > now) ls"

definition unexpired_permits :: "int \<Rightarrow> (string \<times> stored_permit) list \<Rightarrow> (string \<times> stored_permit) list" where
  "unexpired_permits now ps = filter (\<lambda>(_, p). expiresAt (sp_record p) > now) ps"

lemma raw_leases [simp]: "raw_entries (table enc_leases ls) = map (\<lambda>(k, e). (k, JInt e)) ls"
  by (simp add: table_def raw_entries_def enc_leases_def)

lemma parse_window_option:
  "(\<And>v. w = Some v \<Longrightarrow> wf_budget_window v) \<Longrightarrow> parseStoredWindow (enc_window_option w) = Inr w"
  by (auto simp: enc_window_option_def enc_budget_window_def parseStoredWindow_def wf_budget_window_def
      split: option.splits)

lemma active_leases_table:
  assumes "wf_leases ls" shows "active_leases (table enc_leases ls) now = unexpired now ls"
proof -
  have "List.map_filter (live_lease now) (map (\<lambda>(k, e). (k, JInt e)) ls) = filter (\<lambda>(_, e). e > now) ls"
    if "\<forall>(k, e) \<in> set ls. hex_n 32 k \<and> pos_safe e"
    using that by (induction ls) (auto simp: List.map_filter_simps pos_safe_def)
  then show ?thesis using assms by (simp add: active_leases_def wf_leases_def unexpired_def)
qed

lemma live_values_table:
  assumes "wf_leases ls"
  shows "List.map_filter (live_value now) (map (\<lambda>(k, e). (k, JInt e)) ls) = map snd (unexpired now ls)"
proof -
  have "\<forall>(k, e) \<in> set ls. pos_safe e" using assms by (auto simp: wf_leases_def)
  then show ?thesis
    by (induction ls) (auto simp: unexpired_def List.map_filter_simps pos_safe_def)
qed

lemma parse_enc_permit: "hex_n 64 k \<Longrightarrow> wf_permit p \<Longrightarrow> parsePermit (k, enc_permit p) = Inr (k, p)"
  by (cases p; cases "sp_record p")
    (auto simp: parsePermit_def enc_permit_def wf_permit_def Let_def split: option.splits)

lemma parse_permits_table:
  assumes "wf_permits ps" shows "parseStoredCrossDetailPermits (table enc_permits ps) = Inr ps"
proof -
  have "traverse parsePermit (map (\<lambda>(k, p). (k, enc_permit p)) ps) = Inr ps"
    using assms by (intro traverse_map_Inr) (auto simp: wf_permits_def parse_enc_permit)
  then show ?thesis by (simp add: table_def parseStoredCrossDetailPermits_def enc_permits_def)
qed

lemma active_permits_table:
  "wf_permits ps \<Longrightarrow> active_permits (table enc_permits ps) now = Inr (unexpired_permits now ps)"
  by (simp add: active_permits_def parse_permits_table unexpired_permits_def)

lemmas read_tables = parse_window_option active_leases_table parse_permits_table active_permits_table

text \<open>The times the alarm is computed from.\<close>

definition expiries :: "int \<Rightarrow> tables \<Rightarrow> int list" where
  "expiries now b = map snd (unexpired now (t_leases b)) @
     map (\<lambda>(_, p). expiresAt (sp_record p)) (unexpired_permits now (t_permits b)) @
     map snd (unexpired now (t_dleases b))"

definition resched :: "tables \<Rightarrow> int \<Rightarrow> tables" where
  "resched b now = b\<lparr>t_alarm := least (expiries now b)\<rparr>"

lemma reschedule_tables:
  assumes "wf_leases (t_leases b)" "wf_permits (t_permits b)" "wf_leases (t_dleases b)"
  shows "rescheduleAlarm (store_tables b) now = Inr (store_tables (resched b now))"
proof -
  have f: "filter (\<lambda>e. e > now) (map (\<lambda>(_, p). expiresAt (sp_record p)) ps) =
      map (\<lambda>(_, p). expiresAt (sp_record p)) (unexpired_permits now ps)" for ps :: "(string \<times> stored_permit) list"
    by (induction ps) (auto simp: unexpired_permits_def)
  show ?thesis
    using assms by (simp add: rescheduleAlarm_def store_tables_def resched_def parse_permits_table
        live_values_table expiries_def f)
qed

section \<open>Requests on tables\<close>

definition charged :: "budget_window option \<Rightarrow> int \<Rightarrow> int \<Rightarrow> int \<Rightarrow> int \<Rightarrow> budget_result \<times> budget_window option" where
  "charged w n now lim secs = (case consumeBudgetWindow w n now lim secs of
     (_, BudgetDenied k) \<Rightarrow> (BudgetDenied k, w)
   | (v, BudgetAllowed) \<Rightarrow> (BudgetAllowed, Some v))"

definition presented :: "tables \<Rightarrow> int \<Rightarrow> consume_input \<Rightarrow> stored_permit option" where
  "presented b now i = (case map_of (unexpired_permits now (t_permits b)) (ci_permitHash i) of
     None \<Rightarrow> None | Some p \<Rightarrow> if bindings_match p i then Some p else None)"

definition consumed_tables :: "tables \<Rightarrow> int \<Rightarrow> string \<Rightarrow> consume_input \<Rightarrow> stored_permit \<Rightarrow> budget_window \<Rightarrow> tables" where
  "consumed_tables b now lid i p w = resched (b\<lparr>
     t_permits := AList.update (ci_permitHash i) (p\<lparr>consumedAt := Some now\<rparr>) (unexpired_permits now (t_permits b)),
     t_dwindow := Some w,
     t_dleases := AList.update lid (now + VNU_CROSS_DETAIL_LEASE_MS) (unexpired now (t_dleases b))\<rparr>) now"

definition tables_reserve :: "tables \<Rightarrow> int \<Rightarrow> int \<Rightarrow> (budget_error + budget_reply) \<times> tables" where
  "tables_reserve b now n = (case assertValidConsumeAmount n of Inl e \<Rightarrow> (Inl e, b)
     | Inr _ \<Rightarrow> (case charged (t_window b) n now VNU_PROBE_BUDGET_LIMIT VNU_PROBE_BUDGET_WINDOW_SECONDS of
         (r, w) \<Rightarrow> (Inr (RBudget r), b\<lparr>t_window := w\<rparr>)))"

fun tables_handle :: "tables \<Rightarrow> int \<Rightarrow> budget_call \<Rightarrow> (budget_error + budget_reply) \<times> tables" where
  "tables_handle b now (BReserve n) = tables_reserve b now n"
| "tables_handle b now (BConsume n) = tables_reserve b now n"
| "tables_handle b now (BAcquire i) = (
     if length (unexpired now (t_leases b)) \<ge> VNU_BRC1_PERMIT_LIMIT then (Inr (RLease (LeaseDenied 1)), b)
     else (Inr (RLease (LeaseGranted i (now + VNU_BRC1_PERMIT_LEASE_MS))),
       resched (b\<lparr>t_leases := AList.update i (now + VNU_BRC1_PERMIT_LEASE_MS) (unexpired now (t_leases b))\<rparr>) now))"
| "tables_handle b now (BRelease i) = (Inr RDone,
     if hex_n 32 i \<and> map_of (unexpired now (t_leases b)) i \<noteq> None
     then resched (b\<lparr>t_leases := AList.delete i (unexpired now (t_leases b))\<rparr>) now else b)"
| "tables_handle b now (BIssue ps l) =
     (case sbind (assertValidVnuCrossDetailLimits l) (\<lambda>_. assertValidVnuCrossDetailIssuedPermits ps l) of
       Inl e \<Rightarrow> (Inl e, b)
     | Inr _ \<Rightarrow> (Inr RDone,
         resched (b\<lparr>t_permits := add_permits (unexpired_permits now (t_permits b)) ps\<rparr>) now))"
| "tables_handle b now (BConsumeDetail lid i l) = (case assertValidVnuCrossDetailLimits l of
     Inl e \<Rightarrow> (Inl e, b)
   | Inr _ \<Rightarrow> (case (assertValidVnuCrossDetailConsumeInput i, presented b now i) of
       (Inr _, Some p) \<Rightarrow>
         (case consumeBudgetWindow (t_dwindow b) 1 now (cl_budget l) (cl_windowSeconds l) of
           (_, BudgetDenied k) \<Rightarrow> (Inr (RConsume (ConsumeBudget k)), b)
         | (w, BudgetAllowed) \<Rightarrow>
             if int (length (unexpired now (t_dleases b))) \<ge> concurrency l then (Inr (RConsume (ConsumeBusy 1)), b)
             else (Inr (RConsume (ConsumeAllowed lid (now + VNU_CROSS_DETAIL_LEASE_MS) (envelope (sp_record p)))),
               consumed_tables b now lid i p w))
     | _ \<Rightarrow> (Inr (RConsume ConsumeInvalid), b)))"
| "tables_handle b now (BReleaseDetail i) = (Inr RDone,
     if hex_n 32 i \<and> map_of (unexpired now (t_dleases b)) i \<noteq> None
     then resched (b\<lparr>t_dleases := AList.delete i (unexpired now (t_dleases b))\<rparr>) now else b)"
| "tables_handle b now BAlarm = (Inr RDone,
     resched (b\<lparr>t_leases := unexpired now (t_leases b), t_permits := unexpired_permits now (t_permits b),
       t_dleases := unexpired now (t_dleases b)\<rparr>) now)"

section \<open>Well-formedness\<close>

named_theorems tables_wf "well-formedness of the tables a request writes"

lemma wf_unexpired [tables_wf]: "wf_leases ls \<Longrightarrow> wf_leases (unexpired now ls)"
  by (auto simp: wf_leases_def unexpired_def)

lemma wf_unexpired_permits [tables_wf]: "wf_permits ps \<Longrightarrow> wf_permits (unexpired_permits now ps)"
  by (auto simp: wf_permits_def unexpired_permits_def)

lemma wf_leases_update [tables_wf]:
  "wf_leases ls \<Longrightarrow> hex_n 32 k \<Longrightarrow> pos_safe e \<Longrightarrow> wf_leases (AList.update k e ls)"
  using set_update_subset [of k e ls] by (fastforce simp: wf_leases_def intro: distinct_update_keys)

lemma wf_leases_delete [tables_wf]: "wf_leases ls \<Longrightarrow> wf_leases (AList.delete k ls)"
  by (auto simp: wf_leases_def AList.delete_eq)

lemma wf_permits_update [tables_wf]:
  "wf_permits ps \<Longrightarrow> hex_n 64 k \<Longrightarrow> wf_permit p \<Longrightarrow> wf_permits (AList.update k p ps)"
  using set_update_subset [of k p ps] by (fastforce simp: wf_permits_def intro: distinct_update_keys)

lemma wf_add_permits [tables_wf]:
  assumes "wf_permits ps" "check_permits qs ts = Inr ts'" shows "wf_permits (add_permits ps qs)"
  using assms
proof (induction qs arbitrary: ps ts)
  case (Cons q qs)
  then have "hex_n 64 (permitHash q)" "wf_permit \<lparr>sp_record = ip_record q, consumedAt = None\<rparr>"
    by (auto simp: sbind_Inr_iff assertValidCrossDetailRecord_def wf_permit_def pos_safe_def split: if_splits)
  with Cons show ?case by (auto simp: sbind_Inr_iff intro: tables_wf split: if_splits)
qed simp

lemma presented_wf: "wf_permits (t_permits b) \<Longrightarrow> presented b now i = Some p \<Longrightarrow>
    wf_permit p \<and> hex_n 64 (ci_permitHash i)"
  by (auto simp: presented_def wf_permits_def unexpired_permits_def dest!: map_of_SomeD
      split: option.splits if_splits)

lemma update_length: "length (AList.update k v al) \<le> Suc (length al)"
  by (induction al) auto

lemma unexpired_length: "length (unexpired now ls) \<le> length ls"
  by (simp add: unexpired_def)

lemma delete_length: "length (AList.delete k (unexpired now ls)) \<le> length ls"
  using order_trans [OF length_filter_le unexpired_length] by (simp add: AList.delete_eq)

lemma charge_wf:
  assumes "consumeBudgetWindow w n now lim secs = (v, BudgetAllowed)"
    and "\<And>u. w = Some u \<Longrightarrow> wf_budget_window u" "valid_now now" "0 \<le> n" "0 < secs" "secs \<le> 315360000" "safe_integer lim"
  shows "wf_budget_window v" "count v \<le> lim"
  using assms
  by (auto simp: consumeBudgetWindow_def wf_budget_window_def Let_def valid_now_def pos_safe_iff safe_integer_def
      max_safe_integer_def split: option.splits if_splits)

lemma resched_simps [simp]:
  "t_window (resched b now) = t_window b" "t_leases (resched b now) = t_leases b"
  "t_permits (resched b now) = t_permits b" "t_dwindow (resched b now) = t_dwindow b"
  "t_dleases (resched b now) = t_dleases b" "t_alarm (resched b now) = least (expiries now b)"
  by (simp_all add: resched_def)

lemma resched_wf [simp]: "wf_tables (resched b now) = wf_tables b"
  by (simp add: resched_def wf_tables_def)

section \<open>The object implements the operations on tables\<close>

lemma store_tables_simps [simp]:
  "k_window (store_tables b) = enc_window_option (t_window b)"
  "k_permits (store_tables b) = table enc_leases (t_leases b)"
  "k_detail_permits (store_tables b) = table enc_permits (t_permits b)"
  "k_detail_window (store_tables b) = enc_window_option (t_dwindow b)"
  "k_detail_leases (store_tables b) = table enc_leases (t_dleases b)"
  "k_alarm (store_tables b) = t_alarm b"
  by (simp_all add: store_tables_def)

lemma store_tables_update:
  "store_tables (b\<lparr>t_window := w\<rparr>) = (store_tables b)\<lparr>k_window := enc_window_option w\<rparr>"
  "store_tables (b\<lparr>t_leases := ls\<rparr>) = (store_tables b)\<lparr>k_permits := table enc_leases ls\<rparr>"
  "store_tables (b\<lparr>t_permits := ps\<rparr>) = (store_tables b)\<lparr>k_detail_permits := table enc_permits ps\<rparr>"
  "store_tables (b\<lparr>t_dwindow := w\<rparr>) = (store_tables b)\<lparr>k_detail_window := enc_window_option w\<rparr>"
  "store_tables (b\<lparr>t_dleases := ls\<rparr>) = (store_tables b)\<lparr>k_detail_leases := table enc_leases ls\<rparr>"
  by (simp_all add: store_tables_def)

lemma update_nonempty [simp]: "AList.update k v al \<noteq> []"
  by (cases al) auto

lemma add_permits_nonempty: "qs \<noteq> [] \<Longrightarrow> add_permits ps qs \<noteq> []"
proof (induction ps qs rule: add_permits.induct)
  case (2 ps q qs)
  then show ?case by (cases qs) auto
qed simp

lemma wf_tablesD:
  assumes "wf_tables b"
  shows "wf_leases (t_leases b)" "wf_leases (t_dleases b)" "wf_permits (t_permits b)"
    "t_window b = Some w \<Longrightarrow> wf_budget_window w" "t_dwindow b = Some w \<Longrightarrow> wf_budget_window w"
    "t_window b = Some w \<Longrightarrow> count w \<le> VNU_PROBE_BUDGET_LIMIT" "length (t_leases b) \<le> VNU_BRC1_PERMIT_LIMIT"
  using assms by (auto simp: wf_tables_def)

text \<open>Writing one table and rescheduling, the last two calls of every request.\<close>

lemma write_tables:
  assumes "wf_tables b"
  shows "wf_leases ls \<Longrightarrow> rescheduleAlarm ((store_tables b)\<lparr>k_permits := table enc_leases ls\<rparr>) now =
      Inr (store_tables (resched (b\<lparr>t_leases := ls\<rparr>) now))"
    "wf_leases ls \<Longrightarrow> rescheduleAlarm ((store_tables b)\<lparr>k_detail_leases := table enc_leases ls\<rparr>) now =
      Inr (store_tables (resched (b\<lparr>t_dleases := ls\<rparr>) now))"
    "wf_permits ps \<Longrightarrow> rescheduleAlarm ((store_tables b)\<lparr>k_detail_permits := table enc_permits ps\<rparr>) now =
      Inr (store_tables (resched (b\<lparr>t_permits := ps\<rparr>) now))"
  using assms by (simp_all add: wf_tablesD store_tables_update [symmetric] reschedule_tables)

lemma enc_updated:
  "enc_leases (AList.update k v al) = table enc_leases (AList.update k v al)"
  "enc_permits (AList.update k' v' al') = table enc_permits (AList.update k' v' al')"
  by (simp_all add: table_def)

lemma refine_reserve:
  assumes "wf_tables b"
  shows "with_reply RBudget (store_tables b) (reserve (store_tables b) now n) =
    (let (r, b') = tables_reserve b now n in (r, store_tables b'))"
  using assms
  by (auto simp: reserve_def tables_reserve_def with_reply_def parse_window_option wf_tablesD charged_def
      store_tables_update(1) enc_window_option_def [of "Some _"] split: sum.splits prod.splits budget_result.splits)

lemma lease_times:
  "valid_now now \<Longrightarrow> pos_safe (now + VNU_BRC1_PERMIT_LEASE_MS)"
  "valid_now now \<Longrightarrow> pos_safe (now + VNU_CROSS_DETAIL_LEASE_MS)"
  by (simp_all add: valid_now_def budget_constants pos_safe_iff max_safe_integer_def)

lemma refine_acquire:
  assumes "wf_tables b" "valid_now now" "hex_n 32 i"
  shows "with_reply RLease (store_tables b) (acquireBrc1Permit (store_tables b) now i) =
    (let (r, b') = tables_handle b now (BAcquire i) in (r, store_tables b'))"
  using assms
  by (simp add: acquireBrc1Permit_def with_reply_def active_leases_table wf_tablesD Let_def enc_updated
      write_tables tables_wf lease_times)

lemma refine_release:
  assumes "wf_tables b"
  shows "with_done (store_tables b) (releaseBrc1Permit (store_tables b) now i) =
      (let (r, b') = tables_handle b now (BRelease i) in (r, store_tables b'))"
    "with_done (store_tables b) (releaseCrossDetailLease (store_tables b) now i) =
      (let (r, b') = tables_handle b now (BReleaseDetail i) in (r, store_tables b'))"
  using assms
  by (simp_all add: releaseBrc1Permit_def releaseCrossDetailLease_def storePermits_def storeCrossDetailLeases_def
      with_done_def active_leases_table wf_tablesD Let_def write_tables tables_wf)

lemma refine_issue:
  assumes "wf_tables b"
  shows "with_done (store_tables b) (issueCrossDetailPermits (store_tables b) now ps l) =
    (let (r, b') = tables_handle b now (BIssue ps l) in (r, store_tables b'))"
proof (cases "assertValidVnuCrossDetailLimits l"; cases "assertValidVnuCrossDetailIssuedPermits ps l")
  fix u v
  assume a: "assertValidVnuCrossDetailLimits l = Inr u" "assertValidVnuCrossDetailIssuedPermits ps l = Inr v"
  let ?ps = "add_permits (unexpired_permits now (t_permits b)) ps"
  have "wf_permits ?ps" "?ps \<noteq> []"
    using a(2) wf_tablesD(3) [OF assms]
    by (auto simp: assertValidVnuCrossDetailIssuedPermits_def sbind_Inr_iff add_permits_nonempty
        intro: tables_wf split: if_splits)
  moreover from this(2) have "enc_permits ?ps = table enc_permits ?ps" by (simp add: table_def)
  ultimately show ?thesis
    using a assms
    by (simp add: issueCrossDetailPermits_def with_done_def active_permits_table wf_tablesD write_tables)
qed (simp_all add: issueCrossDetailPermits_def with_done_def)

lemma refine_alarm:
  assumes "wf_tables b"
  shows "with_done (store_tables b) (budget_alarm (store_tables b) now) =
    (let (r, b') = tables_handle b now BAlarm in (r, store_tables b'))"
proof -
  define b1 where "b1 = resched (b\<lparr>t_leases := unexpired now (t_leases b)\<rparr>) now"
  define b2 where "b2 = resched (b1\<lparr>t_permits := unexpired_permits now (t_permits b)\<rparr>) now"
  have w: "wf_tables b1" "wf_tables b2"
    using assms unfolding b1_def b2_def wf_tables_def resched_def unexpired_def
    by (auto intro: tables_wf [unfolded unexpired_def] order_trans [OF length_filter_le])
  have "storePermits (store_tables b) (unexpired now (t_leases b)) now = Inr (store_tables b1)"
    "storeCrossDetailPermits (store_tables b1) (unexpired_permits now (t_permits b)) now = Inr (store_tables b2)"
    "storeCrossDetailLeases (store_tables b2) (unexpired now (t_dleases b)) now =
      Inr (store_tables (resched (b2\<lparr>t_dleases := unexpired now (t_dleases b)\<rparr>) now))"
    using assms w by (simp_all add: storePermits_def storeCrossDetailPermits_def storeCrossDetailLeases_def
        write_tables tables_wf wf_tablesD b1_def [symmetric] b2_def [symmetric])
  moreover have "t_permits b1 = t_permits b" "t_dleases b2 = t_dleases b"
    by (simp_all add: b1_def b2_def resched_def)
  moreover have "resched (b2\<lparr>t_dleases := unexpired now (t_dleases b)\<rparr>) now = resched (b\<lparr>t_leases := unexpired now (t_leases b),
      t_permits := unexpired_permits now (t_permits b), t_dleases := unexpired now (t_dleases b)\<rparr>) now"
    by (simp add: b1_def b2_def resched_def expiries_def)
  ultimately show ?thesis
    using assms w by (simp add: budget_alarm_def with_done_def active_leases_table active_permits_table wf_tablesD)
qed

lemma refine_consume_detail:
  assumes "wf_tables b" "valid_now now" "hex_n 32 lid"
  shows "with_reply RConsume (store_tables b) (consumeCrossDetailPermit (store_tables b) now lid i l) =
    (let (r, b') = tables_handle b now (BConsumeDetail lid i l) in (r, store_tables b'))"
proof -
  have w3: "rescheduleAlarm ((store_tables b)\<lparr>k_detail_permits := table enc_permits ps,
      k_detail_window := enc_budget_window w, k_detail_leases := table enc_leases ls\<rparr>) now =
      Inr (store_tables (resched (b\<lparr>t_permits := ps, t_dwindow := Some w, t_dleases := ls\<rparr>) now))"
    if "wf_permits ps" "wf_leases ls" for ps w ls
    using that assms by (simp add: wf_tablesD store_tables_update [symmetric] reschedule_tables
        enc_window_option_def [of "Some _", simplified, symmetric])
  have p: "wf_permits (AList.update (ci_permitHash i) (p\<lparr>consumedAt := Some now\<rparr>) (unexpired_permits now (t_permits b)))"
    if "presented b now i = Some p" for p
    using presented_wf [OF wf_tablesD(3) [OF assms(1)] that] wf_tablesD(3) [OF assms(1)] assms(2)
    by (intro tables_wf) (auto simp: wf_permit_def valid_now_def pos_safe_iff max_safe_integer_def)
  show ?thesis
  proof (cases "presented b now i")
    case None
    then show ?thesis using assms
      by (auto simp: consumeCrossDetailPermit_def with_reply_def active_permits_table wf_tablesD presented_def
          split: sum.splits option.splits if_splits)
  next
    case (Some q)
    then have m: "map_of (unexpired_permits now (t_permits b)) (ci_permitHash i) = Some q" "bindings_match q i"
      by (auto simp: presented_def split: option.splits if_splits)
    show ?thesis using assms p [OF Some] m Some
      by (simp add: consumeCrossDetailPermit_def with_reply_def active_permits_table active_leases_table wf_tablesD
          parse_window_option w3 enc_updated lease_times tables_wf consumed_tables_def Let_def
          split: sum.splits prod.splits budget_result.splits)
  qed
qed

lemma handle_tables:
  assumes "wf_tables b" "budget_ok st (now, call)"
  shows "budget_handle (store_tables b) now call =
    (let (r, b') = tables_handle b now call in (r, store_tables b'))"
  using assms
  by (cases call) (simp_all add: consume_def refine_reserve refine_acquire refine_release refine_issue
      refine_consume_detail refine_alarm del: tables_handle.simps(3-))

section \<open>Requests keep the tables well-formed\<close>

lemma wf_consumed:
  assumes "wf_tables b" "valid_now now" "hex_n 32 lid" "presented b now i = Some p" "wf_budget_window w"
  shows "wf_tables (consumed_tables b now lid i p w)"
proof -
  have "wf_permits (AList.update (ci_permitHash i) (p\<lparr>consumedAt := Some now\<rparr>) (unexpired_permits now (t_permits b)))"
    using presented_wf [OF wf_tablesD(3) [OF assms(1)] assms(4)] wf_tablesD(3) [OF assms(1)] assms(2)
    by (intro tables_wf) (auto simp: wf_permit_def valid_now_def pos_safe_iff max_safe_integer_def)
  then show ?thesis
    using assms by (auto simp: wf_tables_def consumed_tables_def lease_times intro: tables_wf)
qed

lemma wf_reserved: "wf_tables b \<Longrightarrow> valid_now now \<Longrightarrow> wf_tables (snd (tables_reserve b now n))"
  using charge_wf [of "t_window b" n now VNU_PROBE_BUDGET_LIMIT VNU_PROBE_BUDGET_WINDOW_SECONDS]
  by (auto simp: tables_reserve_def charged_def wf_tables_def assertValidConsumeAmount_def budget_constants
      safe_integer_def max_safe_integer_def split: sum.splits prod.splits budget_result.splits if_splits)

lemma tables_wf_preserved:
  assumes "wf_tables b" "budget_ok st (now, call)"
  shows "wf_tables (snd (tables_handle b now call))"
proof (cases call)
  case (BAcquire i)
  then show ?thesis using assms update_length [of i "now + VNU_BRC1_PERMIT_LEASE_MS" "unexpired now (t_leases b)"]
    by (auto simp: wf_tables_def lease_times intro: tables_wf)
next
  case (BIssue ps l)
  then show ?thesis using assms
    by (auto simp: wf_tables_def assertValidVnuCrossDetailIssuedPermits_def sbind_Inr_iff
        intro: tables_wf split: sum.splits if_splits)
next
  case (BConsumeDetail lid i l)
  moreover have "wf_budget_window w"
    if "assertValidVnuCrossDetailLimits l = Inr u"
      "consumeBudgetWindow (t_dwindow b) 1 now (cl_budget l) (cl_windowSeconds l) = (w, BudgetAllowed)" for u w
    using that assms BConsumeDetail charge_wf(1) [OF that(2)]
    by (auto simp: assertValidVnuCrossDetailLimits_def wf_tablesD split: if_splits)
  ultimately show ?thesis using assms
    by (auto simp: wf_consumed split: sum.splits option.splits prod.splits budget_result.splits)
next
  case (BRelease i)
  then show ?thesis using assms
    by (auto simp: wf_tables_def intro: tables_wf order_trans [OF delete_length])
next
  case (BReleaseDetail i)
  then show ?thesis using assms by (auto simp: wf_tables_def intro: tables_wf)
next
  case BAlarm
  then show ?thesis using assms
    by (auto simp: wf_tables_def intro: tables_wf order_trans [OF unexpired_length])
qed (use assms in \<open>auto simp: wf_reserved\<close>)

section \<open>The object as a machine\<close>

definition budget_inv :: "budget_store \<Rightarrow> bool" where
  "budget_inv st \<longleftrightarrow> (\<exists>b. wf_tables b \<and> st = store_tables b)"

text \<open>The tables a reachable store holds, by reading it back.\<close>

definition stored_tables :: "budget_store \<Rightarrow> tables" where
  "stored_tables st = \<lparr>
     t_window = (case parseStoredWindow (k_window st) of Inr w \<Rightarrow> w | Inl _ \<Rightarrow> None),
     t_leases = active_leases (k_permits st) 0,
     t_permits = (case parseStoredCrossDetailPermits (k_detail_permits st) of Inr ps \<Rightarrow> ps | Inl _ \<Rightarrow> []),
     t_dwindow = (case parseStoredWindow (k_detail_window st) of Inr w \<Rightarrow> w | Inl _ \<Rightarrow> None),
     t_dleases = active_leases (k_detail_leases st) 0,
     t_alarm = k_alarm st\<rparr>"

lemma unexpired_all: "wf_leases ls \<Longrightarrow> unexpired 0 ls = ls"
  by (auto simp: unexpired_def wf_leases_def pos_safe_iff intro!: filter_True)

lemma stored_store_tables: "wf_tables b \<Longrightarrow> stored_tables (store_tables b) = b"
  by (simp add: stored_tables_def wf_tablesD parse_window_option active_leases_table parse_permits_table unexpired_all)

lemma budget_invD:
  assumes "budget_inv st"
  shows "wf_tables (stored_tables st)" "store_tables (stored_tables st) = st"
  using assms stored_store_tables by (auto simp: budget_inv_def)

lemma handle_stored:
  assumes "budget_inv st" "budget_ok st (now, call)"
  shows "fst (budget_handle st now call) = fst (tables_handle (stored_tables st) now call)"
    "stored_tables (snd (budget_handle st now call)) = snd (tables_handle (stored_tables st) now call)"
    "budget_inv (snd (budget_handle st now call))"
proof -
  note w = budget_invD [OF assms(1)]
  have h: "budget_handle st now call =
      (let (r, b') = tables_handle (stored_tables st) now call in (r, store_tables b'))"
    using handle_tables [OF w(1) assms(2)] w(2) by simp
  note p = tables_wf_preserved [OF w(1) assms(2)]
  show "fst (budget_handle st now call) = fst (tables_handle (stored_tables st) now call)"
    by (simp add: h split: prod.splits)
  show "stored_tables (snd (budget_handle st now call)) = snd (tables_handle (stored_tables st) now call)"
    "budget_inv (snd (budget_handle st now call))"
    using p by (auto simp: h stored_store_tables budget_inv_def split: prod.splits)
qed

lemma budget_inv_empty: "budget_inv empty_budget"
  unfolding budget_inv_def store_empty_tables [symmetric] using wf_empty_tables by blast

interpretation budget_machine: machine budget_step budget_ok budget_inv
proof
  fix s :: budget_store and x :: "int \<times> budget_call"
  show "budget_inv s \<Longrightarrow> budget_ok s x \<Longrightarrow> budget_inv (budget_step s x)"
    by (cases x) (simp add: handle_stored(3) del: budget_handle.simps budget_ok.simps)
qed

end
