(* ===== verification/BudgetLaws.thy ===== *)
theory BudgetLaws
  imports BudgetTables
begin

text \<open>
  What the budget object guarantees over runs: the leases a caller still holds are in the
  stored table, a spent permit stays spent, every stored permit was issued, and the probe and
  detail windows are fixed-window limiters.
\<close>

lemma map_of_unexpired:
  "wf_leases ls \<Longrightarrow> map_of (unexpired now ls) k = (case map_of ls k of None \<Rightarrow> None | Some e \<Rightarrow> if now < e then Some e else None)"
  by (auto simp: unexpired_def wf_leases_def map_of_filter_distinct split: option.splits)

lemma map_of_unexpired_permits:
  "wf_permits ps \<Longrightarrow> map_of (unexpired_permits now ps) k =
    (case map_of ps k of None \<Rightarrow> None | Some p \<Rightarrow> if now < expiresAt (sp_record p) then Some p else None)"
  by (auto simp: unexpired_permits_def wf_permits_def map_of_filter_distinct split: option.splits)

text \<open>The tables a run leads to, and the steps between them.\<close>

lemma stored_step:
  assumes "budget_inv st" "budget_ok st x"
  shows "stored_tables (budget_step st x) = snd (tables_handle (stored_tables st) (fst x) (snd x))"
    "fst (budget_handle st (fst x) (snd x)) = fst (tables_handle (stored_tables st) (fst x) (snd x))"
  using assms handle_stored [of st "fst x" "snd x"] by (cases x; simp)+

section \<open>Leases in hand\<close>

text \<open>
  What the callers hold: the leases granted to them, in the order of the grants, less those
  they gave back.
\<close>

definition hold :: "(budget_error + budget_reply) \<Rightarrow> budget_call \<Rightarrow> (string \<times> int) list \<Rightarrow> (string \<times> int) list" where
  "hold r call hs = (case (call, r) of
     (BAcquire _, Inr (RLease (LeaseGranted i e))) \<Rightarrow> (i, e) # hs
   | (BRelease i, Inr RDone) \<Rightarrow> filter (\<lambda>(k, _). k \<noteq> i) hs
   | _ \<Rightarrow> hs)"

fun held_leases :: "budget_store \<Rightarrow> (int \<times> budget_call) list \<Rightarrow> (string \<times> int) list \<Rightarrow> (string \<times> int) list" where
  "held_leases st [] hs = hs"
| "held_leases st ((now, call) # xs) hs =
     held_leases (budget_step st (now, call)) xs (hold (fst (budget_handle st now call)) call hs)"

definition covered :: "int \<Rightarrow> (string \<times> int) list \<Rightarrow> tables \<Rightarrow> bool" where
  "covered t hs b \<longleftrightarrow> (\<forall>(i, e) \<in> set hs. e \<le> t + VNU_BRC1_PERMIT_LEASE_MS \<and>
     (t < e \<longrightarrow> (\<exists>e'. map_of (t_leases b) i = Some e' \<and> e \<le> e')))"

lemma covered_later: "covered t hs b \<Longrightarrow> t \<le> now \<Longrightarrow> covered now hs b"
  by (fastforce simp: covered_def)

lemma covered_unexpired:
  "covered t hs b \<Longrightarrow> wf_leases (t_leases b) \<Longrightarrow> t_leases b' = unexpired t (t_leases b) \<Longrightarrow> covered t hs b'"
  by (fastforce simp: covered_def map_of_unexpired)

lemma covered_same: "covered t hs b \<Longrightarrow> t_leases b' = t_leases b \<Longrightarrow> covered t hs b'"
  by (simp add: covered_def)

lemma covered_acquire:
  assumes "covered now hs b" "wf_leases (t_leases b)" "e = now + VNU_BRC1_PERMIT_LEASE_MS"
    and "t_leases b' = AList.update i e (unexpired now (t_leases b))"
  shows "covered now ((i, e) # hs) b'"
  using assms by (fastforce simp: covered_def alist_simps map_of_unexpired)

lemma covered_release:
  assumes "covered now hs b" "wf_leases (t_leases b)" "t_leases b' = AList.delete i (unexpired now (t_leases b))"
  shows "covered now (filter (\<lambda>(k, _). k \<noteq> i) hs) b'"
  using assms by (fastforce simp: covered_def map_of_unexpired AList.delete_conv')

lemma covered_fewer: "covered t hs b \<Longrightarrow> covered t (filter P hs) b"
  by (auto simp: covered_def)

lemma covered_step:
  assumes "wf_tables b" "covered now hs b"
  shows "covered now (hold (fst (tables_handle b now call)) call hs) (snd (tables_handle b now call))"
proof (cases call)
  case (BAcquire i)
  then show ?thesis
    using covered_acquire [OF assms(2) wf_tablesD(1) [OF assms(1)] refl] assms(2) by (simp add: hold_def)
next
  case (BRelease i)
  then show ?thesis
    using covered_release [OF assms(2) wf_tablesD(1) [OF assms(1)]] covered_fewer [OF assms(2)]
    by (simp add: hold_def)
next
  case BAlarm
  then show ?thesis using covered_unexpired [OF assms(2) wf_tablesD(1) [OF assms(1)]] by (simp add: hold_def)
next
  case (BConsumeDetail lid i l)
  then show ?thesis
    by (auto simp: hold_def consumed_tables_def intro: covered_same [OF assms(2)]
        split: sum.splits prod.splits option.splits budget_result.splits)
qed (auto simp: hold_def tables_reserve_def intro: covered_same [OF assms(2)] split: sum.splits prod.splits)

lemma covered_run:
  "budget_inv st \<Longrightarrow> run_ok budget_step budget_ok st xs \<Longrightarrow> clocked t xs \<Longrightarrow> covered t hs (stored_tables st) \<Longrightarrow>
   covered (last_time t xs) (held_leases st xs hs) (stored_tables (run budget_step st xs))"
proof (induction xs arbitrary: st t hs)
  case Nil
  then show ?case by simp
next
  case (Cons x xs)
  obtain now call where x: "x = (now, call)" by (cases x)
  have ok: "budget_ok st (now, call)" "run_ok budget_step budget_ok (budget_step st (now, call)) xs" "t \<le> now"
    "clocked now xs"
    using Cons.prems by (simp_all add: x del: budget_ok.simps budget_step.simps)
  have "covered now (hold (fst (budget_handle st now call)) call hs) (stored_tables (budget_step st (now, call)))"
    using covered_step [OF budget_invD(1) [OF Cons.prems(1)] covered_later [OF Cons.prems(4) ok(3)]]
      stored_step [OF Cons.prems(1) ok(1)] by (simp del: budget_step.simps tables_handle.simps budget_handle.simps)
  from Cons.IH [OF budget_machine.step_inv [OF Cons.prems(1) ok(1)] ok(2) ok(4) this]
  show ?case by (simp add: x del: budget_step.simps budget_handle.simps)
qed

lemma covered_card:
  assumes "wf_tables b" "covered t hs b"
  shows "card {i. \<exists>e. (i, e) \<in> set hs \<and> t < e} \<le> VNU_BRC1_PERMIT_LIMIT"
proof -
  have "{i. \<exists>e. (i, e) \<in> set hs \<and> t < e} \<subseteq> fst ` set (t_leases b)"
    using assms(2) by (force simp: covered_def dest: map_of_SomeD)
  then have "card {i. \<exists>e. (i, e) \<in> set hs \<and> t < e} \<le> card (fst ` set (t_leases b))"
    by (intro card_mono) auto
  also have "\<dots> \<le> length (t_leases b)" by (metis card_length length_map list.set_map)
  finally show ?thesis using wf_tablesD(7) [OF assms(1)] by simp
qed

section \<open>Permits\<close>

text \<open>A permit that is absent or marked consumed; only an issuance makes it available again.\<close>

definition spent :: "string \<Rightarrow> tables \<Rightarrow> bool" where
  "spent h b \<longleftrightarrow> (\<forall>p. map_of (t_permits b) h = Some p \<longrightarrow> consumedAt p \<noteq> None)"

definition issues :: "string \<Rightarrow> budget_call \<Rightarrow> bool" where
  "issues h call \<longleftrightarrow> (case call of BIssue ps l \<Rightarrow> h \<in> permitHash ` set ps | _ \<Rightarrow> False)"

lemma map_of_add_permits: "h \<notin> permitHash ` set qs \<Longrightarrow> map_of (add_permits ps qs) h = map_of ps h"
  by (induction ps qs rule: add_permits.induct) (auto simp: alist_simps)

lemma spent_permits:
  "spent h b \<Longrightarrow> (\<And>p. map_of (t_permits b') h = Some p \<Longrightarrow> map_of (t_permits b) h = Some p \<or> consumedAt p \<noteq> None) \<Longrightarrow> spent h b'"
  by (auto simp: spent_def)

lemma spent_step:
  assumes "wf_tables b" "spent h b" "\<not> issues h call"
  shows "spent h (snd (tables_handle b now call))"
proof (rule spent_permits [OF assms(2)])
  fix p
  assume "map_of (t_permits (snd (tables_handle b now call))) h = Some p"
  then show "map_of (t_permits b) h = Some p \<or> consumedAt p \<noteq> None"
    using assms(3) wf_tablesD(3) [OF assms(1)]
    by (cases call) (auto simp: issues_def tables_reserve_def map_of_add_permits map_of_unexpired_permits
        consumed_tables_def alist_simps split: sum.splits prod.splits option.splits budget_result.splits if_splits)
qed

lemma spent_refused: "spent h b \<Longrightarrow> ci_permitHash i = h \<Longrightarrow> wf_tables b \<Longrightarrow> presented b now i = None"
  by (auto simp: presented_def spent_def bindings_match_def map_of_unexpired_permits wf_tablesD split: option.splits if_splits)

lemma spent_run:
  "budget_inv st \<Longrightarrow> run_ok budget_step budget_ok st xs \<Longrightarrow> spent h (stored_tables st) \<Longrightarrow>
   \<forall>x \<in> set xs. \<not> issues h (snd x) \<Longrightarrow> spent h (stored_tables (run budget_step st xs))"
proof (induction xs arbitrary: st)
  case (Cons x xs)
  then have "spent h (stored_tables (budget_step st x))"
    using spent_step [OF budget_invD(1)] by (simp add: stored_step)
  with Cons show ?case using budget_machine.step_inv by simp
qed simp

text \<open>Where a stored permit comes from.\<close>

lemma add_permits_source:
  "map_of (add_permits ps qs) k = Some p \<Longrightarrow>
   map_of ps k = Some p \<or> (\<exists>q \<in> set qs. permitHash q = k \<and> ip_record q = sp_record p)"
  by (induction ps qs rule: add_permits.induct) (auto simp: alist_simps split: if_splits)

lemma permit_source:
  assumes "wf_tables b" "map_of (t_permits (snd (tables_handle b now call))) k = Some p"
  shows "(\<exists>p'. map_of (t_permits b) k = Some p' \<and> sp_record p' = sp_record p) \<or>
    (\<exists>ps l. call = BIssue ps l \<and> fst (tables_handle b now call) = Inr RDone \<and>
      (\<exists>q \<in> set ps. permitHash q = k \<and> ip_record q = sp_record p))"
  using assms(2) wf_tablesD(3) [OF assms(1)]
  by (cases call) (auto simp: tables_reserve_def map_of_unexpired_permits
      consumed_tables_def alist_simps presented_def dest!: add_permits_source
      split: sum.splits prod.splits option.splits budget_result.splits if_splits)

definition issued_before :: "(int \<times> budget_call) list \<Rightarrow> string \<Rightarrow> permit_record \<Rightarrow> bool" where
  "issued_before h k r \<longleftrightarrow> (\<exists>xs t ps l ys. h = xs @ (t, BIssue ps l) # ys \<and>
     fst (budget_handle (run budget_step empty_budget xs) t (BIssue ps l)) = Inr RDone \<and>
     (\<exists>q \<in> set ps. permitHash q = k \<and> ip_record q = r))"

lemma issued_before_snoc: "issued_before h k r \<Longrightarrow> issued_before (h @ [x]) k r"
  unfolding issued_before_def by (metis append.assoc append_Cons)

lemma stored_empty: "stored_tables empty_budget = empty_tables"
  using stored_store_tables [OF wf_empty_tables] by (simp add: store_empty_tables)

lemma budget_reachable:
  "run_ok budget_step budget_ok empty_budget h \<Longrightarrow> budget_inv (run budget_step empty_budget h)"
  by (rule budget_machine.run_inv [OF budget_inv_empty])

lemma permits_issued:
  "run_ok budget_step budget_ok empty_budget h \<Longrightarrow>
   map_of (t_permits (stored_tables (run budget_step empty_budget h))) k = Some p \<Longrightarrow> issued_before h k (sp_record p)"
proof (induction h arbitrary: p rule: rev_induct)
  case Nil
  then show ?case by (simp add: stored_empty empty_tables_def)
next
  case (snoc x h)
  obtain now call where x: "x = (now, call)" by (cases x)
  let ?st = "run budget_step empty_budget h"
  have ok: "run_ok budget_step budget_ok empty_budget h" "budget_ok ?st (now, call)"
    using snoc.prems(1) by (simp_all add: run_ok_append x del: budget_ok.simps)
  note inv = budget_reachable [OF ok(1)]
  have "map_of (t_permits (snd (tables_handle (stored_tables ?st) now call))) k = Some p"
    using snoc.prems(2) stored_step(1) [OF inv ok(2)]
    by (simp add: run_append x del: budget_step.simps tables_handle.simps)
  from permit_source [OF budget_invD(1) [OF inv] this] show ?case
  proof (elim disjE exE conjE)
    fix p' assume "map_of (t_permits (stored_tables ?st)) k = Some p'" "sp_record p' = sp_record p"
    then show ?thesis using snoc.IH [OF ok(1)] issued_before_snoc by metis
  next
    fix ps l assume "call = BIssue ps l" "fst (tables_handle (stored_tables ?st) now call) = Inr RDone"
      "\<exists>q \<in> set ps. permitHash q = k \<and> ip_record q = sp_record p"
    then show ?thesis
      using stored_step(2) [OF inv ok(2)] x unfolding issued_before_def by (metis fst_conv snd_conv)
  qed
qed

section \<open>Consuming a permit\<close>

definition window_used :: "budget_window option \<Rightarrow> int \<Rightarrow> int" where
  "window_used w now = (case w of None \<Rightarrow> 0 | Some v \<Rightarrow> if now < resetAt v then count v else 0)"

definition allowed :: "(budget_error + budget_reply) \<Rightarrow> bool" where
  "allowed r \<longleftrightarrow> (\<exists>k e v. r = Inr (RConsume (ConsumeAllowed k e v)))"

lemma consume_window_iff:
  "snd (consumeBudgetWindow w n now lim secs) = BudgetAllowed \<longleftrightarrow> window_used w now + n \<le> lim"
  by (auto simp: consumeBudgetWindow_def window_used_def Let_def split: option.splits)

lemma tables_consume_cases:
  assumes "tables_handle b now (BConsumeDetail lid i l) = (r, b')"
  shows "allowed r \<longleftrightarrow> assertValidVnuCrossDetailLimits l = Inr () \<and> assertValidVnuCrossDetailConsumeInput i = Inr () \<and>
      presented b now i \<noteq> None \<and> window_used (t_dwindow b) now < cl_budget l \<and>
      int (length (unexpired now (t_dleases b))) < concurrency l"
    "\<not> allowed r \<Longrightarrow> b' = b"
    "r = Inr (RConsume (ConsumeAllowed k e v)) \<Longrightarrow>
      k = lid \<and> e = now + VNU_CROSS_DETAIL_LEASE_MS \<and> (\<exists>p. presented b now i = Some p \<and> v = envelope (sp_record p))"
  using assms consume_window_iff [of "t_dwindow b" 1 now "cl_budget l" "cl_windowSeconds l"]
  by (auto simp: allowed_def split: sum.splits option.splits prod.splits budget_result.splits if_splits)

lemma consume_spends:
  assumes "wf_tables b" "tables_handle b now (BConsumeDetail lid i l) = (r, b')" "allowed r"
  shows "spent (ci_permitHash i) b'"
  using assms
  by (auto simp: allowed_def spent_def consumed_tables_def alist_simps
      split: sum.splits option.splits prod.splits budget_result.splits if_splits)

lemma presented_iff:
  assumes "wf_tables b"
  shows "presented b now i = Some p \<longleftrightarrow> map_of (t_permits b) (ci_permitHash i) = Some p \<and>
    now < expiresAt (sp_record p) \<and> bindings_match p i"
  by (auto simp: presented_def map_of_unexpired_permits [OF wf_tablesD(3) [OF assms]] split: option.splits)

lemmas presented_bindings = presented_iff [THEN iffD1]

section \<open>The windows\<close>

text \<open>The probes a request is granted, and the detail permits it consumes.\<close>

fun probe_cost :: "budget_store \<Rightarrow> int \<times> budget_call \<Rightarrow> int" where
  "probe_cost st (now, call) = (case (call, fst (budget_handle st now call)) of
     (BReserve n, Inr (RBudget BudgetAllowed)) \<Rightarrow> n
   | (BConsume n, Inr (RBudget BudgetAllowed)) \<Rightarrow> n
   | _ \<Rightarrow> 0)"

fun detail_cost :: "budget_store \<Rightarrow> int \<times> budget_call \<Rightarrow> int" where
  "detail_cost st (now, call) = (if allowed (fst (budget_handle st now call)) then 1 else 0)"

definition probe_window :: "budget_store \<Rightarrow> budget_window option" where
  "probe_window st = t_window (stored_tables st)"

definition detail_window :: "budget_store \<Rightarrow> budget_window option" where
  "detail_window st = t_dwindow (stored_tables st)"

definition win_reset :: "budget_window option \<Rightarrow> int" where
  "win_reset w = (case w of None \<Rightarrow> 0 | Some v \<Rightarrow> resetAt v)"

definition win_count :: "budget_window option \<Rightarrow> int" where
  "win_count w = (case w of None \<Rightarrow> 0 | Some v \<Rightarrow> count v)"

lemma charge_open:
  assumes "consumeBudgetWindow (Some w) n now lim secs = (v, BudgetAllowed)" "now < resetAt w"
  shows "v = w\<lparr>count := count w + n\<rparr>"
  using assms by (auto simp: consumeBudgetWindow_def split: if_splits)

lemma probe_open_step:
  assumes "budget_inv st" "budget_ok st x" "probe_window st \<noteq> None" "fst x < win_reset (probe_window st)"
  shows "probe_window (budget_step st x) \<noteq> None \<and>
    win_reset (probe_window (budget_step st x)) = win_reset (probe_window st) \<and>
    win_count (probe_window (budget_step st x)) = win_count (probe_window st) + probe_cost st x"
proof -
  obtain now call where x: "x = (now, call)" by (cases x)
  obtain w where w: "t_window (stored_tables st) = Some w" "now < resetAt w"
    using assms(3,4) by (auto simp: probe_window_def win_reset_def x)
  let ?b = "stored_tables st"
  have r: "t_window (snd (tables_reserve ?b now n)) = Some (w\<lparr>count := count w + n\<rparr>) \<and>
        fst (tables_reserve ?b now n) = Inr (RBudget BudgetAllowed) \<or>
      t_window (snd (tables_reserve ?b now n)) = Some w \<and> fst (tables_reserve ?b now n) \<noteq> Inr (RBudget BudgetAllowed)" for n
    using w by (auto simp: tables_reserve_def charged_def dest: charge_open
        split: sum.splits prod.splits budget_result.splits)
  have o: "t_window (snd (tables_handle ?b now call)) = Some w \<and> probe_cost st x = 0"
    if "\<And>n. call \<noteq> BReserve n" "\<And>n. call \<noteq> BConsume n"
    using that w by (cases call) (auto simp: x consumed_tables_def simp del: budget_handle.simps
        split: sum.splits prod.splits option.splits budget_result.splits)
  have c: "probe_cost st (now, BReserve n) = (if fst (tables_reserve ?b now n) = Inr (RBudget BudgetAllowed) then n else 0)"
    "probe_cost st (now, BConsume n) = (if fst (tables_reserve ?b now n) = Inr (RBudget BudgetAllowed) then n else 0)"
    if "budget_ok st (now, call)" for n
    using that stored_step(2) [OF assms(1), of "(now, BReserve n)"] stored_step(2) [OF assms(1), of "(now, BConsume n)"]
    by (simp_all del: budget_handle.simps split: sum.splits budget_reply.splits budget_result.splits)
  show ?thesis
  proof (cases "\<exists>n. call = BReserve n \<or> call = BConsume n")
    case True
    then obtain n where n: "call = BReserve n \<or> call = BConsume n" by blast
    then show ?thesis
      using r [of n] c [of n] assms(2) stored_step(1) [OF assms(1,2)] w(1)
      by (auto simp: x probe_window_def win_reset_def win_count_def simp del: probe_cost.simps budget_step.simps)
  next
    case False
    then show ?thesis
      using o stored_step(1) [OF assms(1,2)] w(1)
      by (auto simp: x probe_window_def win_reset_def win_count_def simp del: probe_cost.simps budget_step.simps)
  qed
qed

lemma probe_capped: "budget_inv st \<Longrightarrow> win_count (probe_window st) \<le> VNU_PROBE_BUDGET_LIMIT"
  using wf_tablesD(6) [OF budget_invD(1)]
  by (auto simp: win_count_def probe_window_def budget_constants split: option.splits)

interpretation probe_limiter: window_limiter budget_step budget_ok budget_inv fst
  "\<lambda>st. probe_window st \<noteq> None" "\<lambda>st. win_reset (probe_window st)" "\<lambda>st. win_count (probe_window st)"
  probe_cost VNU_PROBE_BUDGET_LIMIT
  using probe_open_step probe_capped by unfold_locales blast+

text \<open>The detail window takes its limit from each request: here a budget of at most \<open>m\<close> units.\<close>

definition detail_ok :: "int \<Rightarrow> budget_store \<Rightarrow> int \<times> budget_call \<Rightarrow> bool" where
  "detail_ok m st x \<longleftrightarrow> budget_ok st x \<and> (case snd x of BConsumeDetail _ _ l \<Rightarrow> cl_budget l \<le> m | _ \<Rightarrow> True)"

definition detail_inv :: "int \<Rightarrow> budget_store \<Rightarrow> bool" where
  "detail_inv m st \<longleftrightarrow> budget_inv st \<and> win_count (detail_window st) \<le> m"

lemma detail_tables_step:
  "(\<exists>w lid i l. call = BConsumeDetail lid i l \<and> snd (consumeBudgetWindow (t_dwindow b) 1 now (cl_budget l) (cl_windowSeconds l)) = BudgetAllowed \<and>
      fst (consumeBudgetWindow (t_dwindow b) 1 now (cl_budget l) (cl_windowSeconds l)) = w \<and>
      t_dwindow (snd (tables_handle b now call)) = Some w \<and> allowed (fst (tables_handle b now call))) \<or>
   t_dwindow (snd (tables_handle b now call)) = t_dwindow b \<and> \<not> allowed (fst (tables_handle b now call))"
  by (cases call) (auto simp: allowed_def tables_reserve_def consumed_tables_def
      split: sum.splits prod.splits option.splits budget_result.splits)

lemma charge_count:
  "consumeBudgetWindow w n now lim secs = (v, BudgetAllowed) \<Longrightarrow> count v \<le> lim"
  by (auto simp: consumeBudgetWindow_def Let_def split: option.splits if_splits)

lemma detail_step:
  assumes "budget_inv st" "detail_ok m st x"
  shows "(detail_window (budget_step st x) = detail_window st \<and> detail_cost st x = 0) \<or>
    (\<exists>w secs l. l \<le> m \<and> consumeBudgetWindow (detail_window st) 1 (fst x) l secs = (w, BudgetAllowed) \<and>
      detail_window (budget_step st x) = Some w \<and> detail_cost st x = 1)"
proof -
  obtain now call where x: "x = (now, call)" by (cases x)
  have ok: "budget_ok st (now, call)" using assms(2) by (simp add: detail_ok_def x)
  show ?thesis
    using detail_tables_step [of call "stored_tables st" now] stored_step [OF assms(1) ok] assms(2)
    by (auto simp: x detail_window_def detail_ok_def prod_eq_iff simp del: budget_step.simps budget_handle.simps tables_handle.simps) blast
qed

lemma detail_step_inv: "detail_inv m st \<Longrightarrow> detail_ok m st x \<Longrightarrow> detail_inv m (budget_step st x)"
  using detail_step [of st m x] budget_machine.step_inv [of st x] charge_count
  by (fastforce simp: detail_inv_def detail_ok_def win_count_def)

lemma detail_open_step:
  assumes "detail_inv m st" "detail_ok m st x" "detail_window st \<noteq> None" "fst x < win_reset (detail_window st)"
  shows "detail_window (budget_step st x) \<noteq> None \<and>
    win_reset (detail_window (budget_step st x)) = win_reset (detail_window st) \<and>
    win_count (detail_window (budget_step st x)) = win_count (detail_window st) + detail_cost st x"
  using detail_step [of st m x] assms charge_open
  by (fastforce simp: detail_inv_def win_reset_def win_count_def simp del: detail_cost.simps budget_step.simps)

interpretation detail_limiter: window_limiter budget_step "detail_ok m" "detail_inv m" fst
  "\<lambda>st. detail_window st \<noteq> None" "\<lambda>st. win_reset (detail_window st)" "\<lambda>st. win_count (detail_window st)"
  detail_cost m
  for m
  using detail_step_inv detail_open_step by unfold_locales (blast | simp add: detail_inv_def)+

section \<open>The alarm\<close>

definition table_expiries :: "tables \<Rightarrow> int list" where
  "table_expiries b = map snd (t_leases b) @ map (\<lambda>(_, p). expiresAt (sp_record p)) (t_permits b) @ map snd (t_dleases b)"

definition budget_entries :: "budget_store \<Rightarrow> nat" where
  "budget_entries st = length (table_expiries (stored_tables st))"

text \<open>The alarm is scheduled at the expiry of an entry that is stored.\<close>

definition alarm_listed :: "budget_store \<Rightarrow> bool" where
  "alarm_listed st \<longleftrightarrow> budget_inv st \<and> (\<forall>a. k_alarm st = Some a \<longrightarrow> a \<in> set (table_expiries (stored_tables st)))"

definition budget_ring :: "budget_store \<Rightarrow> int \<Rightarrow> budget_store" where
  "budget_ring st now = budget_step st (now, BAlarm)"

lemma least_in: "least ts = Some a \<Longrightarrow> a \<in> set ts"
proof (cases ts)
  case (Cons t ts')
  assume "least ts = Some a"
  then have "a = Min (set (t # ts'))" using Cons by (simp add: least_def Min.set_eq_fold del: set_simps)
  then show ?thesis using Cons by (metis List.finite_set Min_in list.distinct(1) set_empty)
qed (simp add: least_def)

lemma expiries_filter: "expiries now b = filter (\<lambda>t. now < t) (table_expiries b)"
proof -
  have "map snd (unexpired now ls) = filter (\<lambda>t. now < t) (map snd ls)" for ls
    by (induction ls) (auto simp: unexpired_def)
  moreover have "map (\<lambda>(_, p). expiresAt (sp_record p)) (unexpired_permits now ps) =
      filter (\<lambda>t. now < t) (map (\<lambda>(_, p). expiresAt (sp_record p)) ps)" for ps :: "(string \<times> stored_permit) list"
    by (induction ps) (auto simp: unexpired_permits_def)
  ultimately show ?thesis by (simp add: expiries_def table_expiries_def)
qed

text \<open>A request leaves the tables of leases and permits alone or reschedules.\<close>

lemma handle_reschedules:
  "(t_alarm (snd (tables_handle b now call)) = t_alarm b \<and> table_expiries (snd (tables_handle b now call)) = table_expiries b) \<or>
   (\<exists>b'. snd (tables_handle b now call) = resched b' now)"
  by (cases call) (auto simp: tables_reserve_def table_expiries_def consumed_tables_def
      split: sum.splits prod.splits option.splits budget_result.splits)

lemma resched_listed: "t_alarm (resched b now) = Some a \<Longrightarrow> a \<in> set (table_expiries (resched b now)) \<and> now < a"
  using least_in [of "expiries now b" a] by (auto simp: expiries_filter table_expiries_def)

lemma alarm_listed_step:
  assumes "alarm_listed st" "budget_ok st x" shows "alarm_listed (budget_step st x)"
proof -
  have inv: "budget_inv st" using assms(1) by (simp add: alarm_listed_def)
  note i' = budget_machine.step_inv [OF inv assms(2)]
  have k: "k_alarm s = t_alarm (stored_tables s)" for s by (simp add: stored_tables_def)
  have "a \<in> set (table_expiries (stored_tables (budget_step st x)))"
    if "k_alarm (budget_step st x) = Some a" for a
    using handle_reschedules [of "stored_tables st" "fst x" "snd x"] that assms(1) resched_listed
      stored_step(1) [OF inv assms(2)]
    by (auto simp: alarm_listed_def k simp del: tables_handle.simps resched_simps)
  with i' show ?thesis by (simp add: alarm_listed_def)
qed

lemma ring_expiries:
  assumes "budget_inv st" "valid_now now"
  shows "table_expiries (stored_tables (budget_ring st now)) = filter (\<lambda>t. now < t) (table_expiries (stored_tables st))"
proof -
  have "stored_tables (budget_ring st now) = snd (tables_handle (stored_tables st) now BAlarm)"
    using stored_step(1) [OF assms(1), of "(now, BAlarm)"] assms(2) unfolding budget_ring_def by simp
  then show ?thesis
    by (simp add: expiries_filter [symmetric]) (simp add: table_expiries_def expiries_def)
qed

interpretation budget_alarm: alarmed_store budget_ring k_alarm budget_entries alarm_listed
proof (unfold_locales, goal_cases)
  case (1 s t)
  then show ?case unfolding budget_ring_def by (intro alarm_listed_step) auto
next
  case (2 s t a)
  then have "budget_inv s" "a \<in> set (table_expiries (stored_tables s))" by (auto simp: alarm_listed_def)
  with 2 show ?case by (auto simp: budget_entries_def ring_expiries intro!: length_filter_less)
next
  case (3 s t a)
  then have "alarm_listed (budget_ring s t)" unfolding budget_ring_def by (intro alarm_listed_step) auto
  with 3 have "a \<in> set (table_expiries (stored_tables (budget_ring s t)))" "budget_inv s" by (auto simp: alarm_listed_def)
  with 3 show ?case by (simp add: ring_expiries)
qed

section \<open>Errors and refusals\<close>

lemma asserts_not_storage:
  "assertValidConsumeAmount n = Inl e \<Longrightarrow> e = BadAmount"
  "assertValidVnuCrossDetailLimits l = Inl e \<Longrightarrow> e = BadLimits"
  "check_permits ps ts = Inl e \<Longrightarrow> e = BadIssuance \<or> e = BadRecord"
  by (auto simp: assertValidConsumeAmount_def assertValidVnuCrossDetailLimits_def split: if_splits)
    (induction ps ts rule: check_permits.induct,
      auto simp: assertValidCrossDetailRecord_def sbind_def split: sum.splits if_splits)

lemma tables_errors:
  "fst (tables_handle b now call) = Inl e \<Longrightarrow> e \<notin> {StoredWindowInvalid, StoredPermitsInvalid}"
  by (cases call) (auto simp: tables_reserve_def sbind_def assertValidVnuCrossDetailIssuedPermits_def
      dest: asserts_not_storage split: sum.splits prod.splits option.splits budget_result.splits if_splits)

text \<open>A request that throws, and one that is refused, leaves the storage alone: for any storage.\<close>

lemma budget_error_frame: "budget_handle st now call = (Inl e, st') \<Longrightarrow> st' = st"
  by (cases call) (auto simp: with_reply_def with_done_def split: sum.splits prod.splits)

lemma refused_frame:
  "budget_handle st now (BReserve n) = (Inr (RBudget (BudgetDenied k)), st') \<Longrightarrow> st' = st"
  "budget_handle st now (BConsume n) = (Inr (RBudget (BudgetDenied k)), st') \<Longrightarrow> st' = st"
  "budget_handle st now (BAcquire i) = (Inr (RLease (LeaseDenied k)), st') \<Longrightarrow> st' = st"
  "budget_handle st now (BConsumeDetail lid ci l) = (Inr (RConsume res), st') \<Longrightarrow>
     (\<And>a c v. res \<noteq> ConsumeAllowed a c v) \<Longrightarrow> st' = st"
  by (auto simp: with_reply_def reserve_def consume_def acquireBrc1Permit_def consumeCrossDetailPermit_def sbind_def Let_def
      split: sum.splits prod.splits option.splits if_splits budget_result.splits)

lemma rpc_throws: "rpc ns key now call = (Inl e, ns') \<Longrightarrow> ns' = ns \<and> e = Rejected probeBudgetUnavailable"
  by (auto simp: rpc_def simp del: budget_handle.simps split: prod.splits sum.splits dest: budget_error_frame)

lemma rpc_answers: "rpc ns key now call = (Inr r, ns') \<Longrightarrow> \<exists>st. budget_handle (ns key) now call = (Inr r, st) \<and> ns' = ns(key := st)"
  by (auto simp: rpc_def simp del: budget_handle.simps split: prod.splits sum.splits)

lemma rpc_others: "rpc ns key now call = (r, ns') \<Longrightarrow> other \<noteq> key \<Longrightarrow> ns' other = ns other"
  by (auto simp: rpc_def simp del: budget_handle.simps split: prod.splits sum.splits)

lemma verdict_Inl:
  assumes "verdict f (rpc ns key now call) = (Inl e, ns')"
  obtains "ns' = ns" "e = Rejected probeBudgetUnavailable"
  | r st where "budget_handle (ns key) now call = (Inr r, st)" "ns' = ns(key := st)" "f r = Inl e"
proof (cases "rpc ns key now call")
  case (Pair q m)
  then show ?thesis
    using assms that rpc_throws [of ns key now call _ m] rpc_answers [of ns key now call _ m]
    by (cases q) (auto simp: verdict_def simp del: budget_handle.simps)
qed

text \<open>The refusals the coordinator can report, each one of the core errors of the module.\<close>

definition budget_refusal :: "hyeboard_error \<Rightarrow> bool" where
  "budget_refusal e \<longleftrightarrow> e = probeBudgetUnavailable \<or> e = crossDetailPermitInvalid \<or>
     (\<exists>k. e = rateLimited k \<or> e = busy k) \<or> (\<exists>k l. e = crossDetailRateLimited k l)"

lemma charge_rejects:
  assumes "verdict charge_verdict (rpc ns key now call) = (Inl (Rejected e), ns')" "call = BReserve n \<or> call = BConsume n"
  shows "ns' = ns \<and> budget_refusal e"
  using assms(1)
proof (cases rule: verdict_Inl)
  case (2 r st)
  then obtain k where "r = RBudget (BudgetDenied k)" "e = rateLimited k" by (auto elim: charge_verdict.elims)
  then show ?thesis using 2 assms(2) refused_frame(1,2) [of "ns key" now n k st] by (auto simp: budget_refusal_def simp del: budget_handle.simps)
qed (simp add: budget_refusal_def)

lemma acquire_rejects:
  assumes "verdict lease_verdict (rpc ns key now (BAcquire i)) = (Inl (Rejected e), ns')"
  shows "ns' = ns \<and> budget_refusal e"
  using assms
proof (cases rule: verdict_Inl)
  case (2 r st)
  then obtain k where "r = RLease (LeaseDenied k)" "e = busy k" by (auto elim: lease_verdict.elims)
  then show ?thesis using 2 refused_frame(3) [of "ns key" now i k st] by (auto simp: budget_refusal_def simp del: budget_handle.simps)
qed (simp add: budget_refusal_def)

lemma consume_rejects:
  assumes "verdict (consume_verdict l) (rpc ns key now (BConsumeDetail lid i l)) = (Inl (Rejected e), ns')"
  shows "ns' = ns \<and> budget_refusal e"
  using assms
proof (cases rule: verdict_Inl)
  case (2 r st)
  then obtain res where "r = RConsume res" "\<And>a c v. res \<noteq> ConsumeAllowed a c v" "budget_refusal e"
    by (cases "(l, r)" rule: consume_verdict.cases) (auto simp: budget_refusal_def simp del: budget_handle.simps)
  then show ?thesis using 2 refused_frame(4) [of "ns key" now lid i l res st] by (auto simp del: budget_handle.simps)
qed (simp add: budget_refusal_def)

lemma acquire_pending_aborts: "fst (acquire_pending key later r) = Inl AbortedByCaller"
  by (cases "(key, later, r)" rule: acquire_pending.cases) simp_all

lemma coordinator_rejects:
  assumes "budget_coordinator ns key now op = (Inl (Rejected e), ns')"
  shows "ns' = ns \<and> budget_refusal e"
proof -
  have plain: "ns' = ns \<and> budget_refusal e" if "rpc ns key now call = (Inl (Rejected e), ns')" for call
    using rpc_throws [OF that] by (simp add: budget_refusal_def)
  have pending: "acquire_pending key later r \<noteq> (Inl (Rejected e), ns')" for later r
    using acquire_pending_aborts [of key later r] by auto
  show ?thesis using assms
    by (cases op) (auto simp: asserted_def pending dest: charge_rejects acquire_rejects consume_rejects plain
        split: if_splits option.splits sum.splits abort.splits)
qed

lemma coordinator_others:
  assumes "budget_coordinator ns key now op = (r, ns')" "other \<noteq> key"
  shows "ns' other = ns other"
proof -
  have v: "snd (verdict f q) = snd q" for f q by (simp add: verdict_def)
  have rpc: "snd (rpc m key t call) other = m other" for m t call
    using rpc_others [of m key t call] assms(2) by (metis prod.collapse)
  have pend: "snd (acquire_pending key later q) other = snd q other" for later q
    by (cases "(key, later, q)" rule: acquire_pending.cases) (auto simp: rpc)
  have "snd (budget_coordinator ns key now op) other = ns other"
    by (cases op) (auto simp: v rpc pend split: option.splits abort.splits)
  then show ?thesis using assms(1) by simp
qed

text \<open>An acquisition given up while pending leaves its caller no lease.\<close>

lemma acquire_release_tables:
  assumes "wf_tables b" "tables_handle b now (BAcquire i) = (Inr (RLease (LeaseGranted j e)), b1)" "hex_n 32 i"
    and "valid_now now" "map_of (unexpired later (t_leases (snd (tables_handle b1 later (BRelease j))))) k = Some u"
  shows "map_of (t_leases b) k = Some u"
proof -
  have b1: "t_leases b1 = AList.update i e (unexpired now (t_leases b))" "j = i" "wf_leases (t_leases b1)"
    using assms tables_wf_preserved [OF assms(1), of undefined now "BAcquire i"] wf_tablesD(1)
    by (auto split: if_splits)
  have w: "wf_leases (AList.delete i (unexpired later (t_leases b1)))" using b1(3) by (intro tables_wf)
  show ?thesis
    using assms(3,5) b1 w wf_tablesD(1) [OF assms(1)]
    by (auto simp: map_of_unexpired AList.delete_conv' alist_simps split: if_splits option.splits)
qed

lemma unexpired_subset: "wf_leases ls \<Longrightarrow> map_of (unexpired t ls) k = Some u \<Longrightarrow> map_of ls k = Some u"
  by (auto simp: map_of_unexpired split: option.splits if_splits)

lemma aborted_acquire:
  assumes "budget_coordinator ns key now (OAcquire i (AbortPending later)) = (r, ns')"
    and inv: "budget_inv (ns key)" and "hex_n 32 i" "valid_now now" "valid_now later"
    and u: "map_of (unexpired later (t_leases (stored_tables (ns' key)))) k = Some u"
  shows "map_of (t_leases (stored_tables (ns key))) k = Some u"
proof -
  let ?h = "budget_handle (ns key) now (BAcquire i)" and ?b = "stored_tables (ns key)"
  have ok: "budget_ok (ns key) (now, BAcquire i)" "budget_ok (snd ?h) (later, BRelease j)" for j
    using assms(3-5) by simp_all
  note h = handle_stored [OF inv ok(1)] and w = wf_tablesD(1) [OF budget_invD(1) [OF inv]]
  show ?thesis
  proof (cases "\<exists>j e. fst ?h = Inr (RLease (LeaseGranted j e))")
    case True
    then obtain j e where g: "fst ?h = Inr (RLease (LeaseGranted j e))" by blast
    note h2 = handle_stored [OF h(3) ok(2) [of j]]
    have "tables_handle ?b now (BAcquire i) = (Inr (RLease (LeaseGranted j e)), stored_tables (snd ?h))"
      using g h(1,2) by (metis prod.collapse)
    note drop = acquire_release_tables [OF budget_invD(1) [OF inv] this assms(3,4)]
    have "ns' key = ns key \<or> ns' key = snd (budget_handle (snd ?h) later (BRelease j))"
      using assms(1) g by (auto simp: rpc_def simp del: budget_handle.simps split: if_splits prod.splits sum.splits)
    then show ?thesis using u drop [of later k u] h2(2) unexpired_subset [OF w] by auto
  next
    case False
    then have "snd ?h = ns key"
      using h(1) by (cases "fst ?h") (auto simp: with_reply_def acquireBrc1Permit_def sbind_def Let_def split: sum.splits prod.splits if_splits)
    then have "ns' key = ns key"
      using assms(1) False by (cases ?h; cases "fst ?h"; cases "(key, later, rpc ns key now (BAcquire i))" rule: acquire_pending.cases)
        (auto simp: rpc_def simp del: budget_handle.simps split: if_splits)
    then show ?thesis using u unexpired_subset [OF w] by simp
  qed
qed

end
