(* ===== verification/BudgetProps.thy ===== *)
theory BudgetProps
  imports BudgetLaws
begin

text \<open>
  The properties of the lookup budget, over the requests that lead from an empty object to
  the state in question, with the runs that witness their hypotheses.
\<close>

definition hx :: "nat \<Rightarrow> char \<Rightarrow> string" where
  "hx n c = replicate n c"

definition sample_record :: permit_record where
  "sample_record = \<lparr>requesterHmac = hx 64 CHR ''1'', targetHmac = hx 64 CHR ''2'', revisionHmac = hx 64 CHR ''3'',
     rowHmac = hx 64 CHR ''4'', policyVersion = 1, nonce = hx 32 CHR ''5'', envelope = ''sealed'', expiresAt = 60000\<rparr>"

definition sample_issue :: "issued_permit list" where
  "sample_issue = [\<lparr>permitHash = hx 64 CHR ''a'', ip_record = sample_record\<rparr>]"

definition sample_input :: consume_input where
  "sample_input = \<lparr>ci_permitHash = hx 64 CHR ''a'', ci_nonce = hx 32 CHR ''5'', ci_requesterHmac = hx 64 CHR ''1'',
     ci_targetHmac = hx 64 CHR ''2'', ci_revisionHmac = hx 64 CHR ''3'', ci_rowHmac = hx 64 CHR ''4'', ci_policyVersion = 1\<rparr>"

definition sample_limits :: cross_limits where
  "sample_limits = \<lparr>maxTargets = 5, maxRows = 40, concurrency = 2, cl_budget = 3, cl_windowSeconds = 600\<rparr>"

definition lease_id :: "char \<Rightarrow> string" where
  "lease_id c = hx 32 c"

definition issue_history :: "(int \<times> budget_call) list" where
  "issue_history = [(1000, BReserve 40), (1500, BAcquire (lease_id CHR ''b'')), (2000, BIssue sample_issue sample_limits)]"

definition consume_call :: budget_call where
  "consume_call = BConsumeDetail (lease_id CHR ''c'') sample_input sample_limits"

lemma budget_snoc:
  "run_ok budget_step budget_ok empty_budget (h @ [x]) \<longleftrightarrow>
   run_ok budget_step budget_ok empty_budget h \<and> budget_ok (run budget_step empty_budget h) x"
  by (simp add: run_ok_append)

section \<open>Concurrency and windows\<close>

text \<open>
  C6. At most six lookups of a session run at once: after any admissible history with a
  monotone clock, the leases that were granted and neither released nor expired number at
  most \<open>VNU_BRC1_PERMIT_LIMIT\<close>.
\<close>

theorem brc1_concurrency:
  assumes "run_ok budget_step budget_ok empty_budget h" "clocked t h" "last_time t h \<le> now"
  shows "card {i. \<exists>e. (i, e) \<in> set (held_leases empty_budget h []) \<and> now < e} \<le> VNU_BRC1_PERMIT_LIMIT"
proof -
  have "covered t [] (stored_tables empty_budget)" by (simp add: covered_def)
  from covered_run [OF budget_inv_empty assms(1,2) this]
  have "covered now (held_leases empty_budget h []) (stored_tables (run budget_step empty_budget h))"
    using assms(3) by (rule covered_later)
  then show ?thesis using covered_card [OF budget_invD(1) [OF budget_reachable [OF assms(1)]]] by blast
qed

definition lease_history :: "(int \<times> budget_call) list" where
  "lease_history = map (\<lambda>(t, c). (t, BAcquire (lease_id c))) (zip [1000, 2000, 3000, 4000, 5000, 6000, 7000] ''0123456'')"

theorem brc1_concurrency_witness:
  "length (held_leases empty_budget lease_history []) = 6 \<and>
   card {i. \<exists>e. (i, e) \<in> set (held_leases empty_budget lease_history []) \<and> 8000 < e} \<le> 6"
proof -
  have "run_ok budget_step budget_ok empty_budget lease_history" "clocked 0 lease_history" "last_time 0 lease_history \<le> 8000"
    unfolding clocked_def last_time_def by code_simp+
  from brc1_concurrency [OF this]
  have "card {i. \<exists>e. (i, e) \<in> set (held_leases empty_budget lease_history []) \<and> 8000 < e} \<le> 6"
    unfolding VNU_BRC1_PERMIT_LIMIT_def .
  moreover have "length (held_leases empty_budget lease_history []) = 6" by code_simp
  ultimately show ?thesis by blast
qed

text \<open>
  The two charging windows hold over every interleaving of requests: while a probe
  window is open at most 300 probes are granted in it, and while a detail window is open at
  most \<open>m\<close> details are consumed in it, for any bound \<open>m\<close> of the budgets presented.
\<close>

theorem budget_windows_hold:
  assumes "run_ok budget_step (detail_ok m) empty_budget (h @ xs)" "st = run budget_step empty_budget h" "0 \<le> m"
  shows "(probe_window st = Some w \<longrightarrow> (\<forall>x \<in> set xs. fst x < resetAt w) \<longrightarrow>
      count w + granted budget_step probe_cost st xs \<le> 300) \<and>
    (detail_window st = Some w \<longrightarrow> (\<forall>x \<in> set xs. fst x < resetAt w) \<longrightarrow>
      count w + granted budget_step detail_cost st xs \<le> m)"
proof -
  have weaker: "run_ok budget_step budget_ok s ys" if "run_ok budget_step (detail_ok m) s ys" for s ys
    using that by (induction ys arbitrary: s) (auto simp: detail_ok_def)
  have "detail_inv m empty_budget"
    using assms(3) budget_inv_empty by (simp add: detail_inv_def detail_window_def stored_empty empty_tables_def win_count_def)
  then have inv: "detail_inv m st"
    using assms(1,2) detail_limiter.run_inv [of m empty_budget h] by (simp add: run_ok_append)
  then have b: "budget_inv st" by (simp add: detail_inv_def)
  have ok: "run_ok budget_step (detail_ok m) st xs" using assms(1,2) by (simp add: run_ok_append)
  show ?thesis
    using probe_limiter.granted_le [OF b weaker [OF ok]] detail_limiter.granted_le [OF inv ok]
    by (auto simp: win_reset_def win_count_def budget_constants)
qed

theorem budget_windows_hold_witness:
  "probe_window (run budget_step empty_budget issue_history) = Some \<lparr>count = 40, resetAt = 601000\<rparr> \<and>
   40 + granted budget_step probe_cost (run budget_step empty_budget issue_history) [(3000, BReserve 260), (4000, BConsume 1)] \<le> 300"
proof -
  let ?xs = "[(3000, BReserve 260), (4000, BConsume 1)]"
  have ok: "run_ok budget_step (detail_ok 3) empty_budget (issue_history @ ?xs)" by code_simp
  have w: "probe_window (run budget_step empty_budget issue_history) = Some \<lparr>count = 40, resetAt = 601000\<rparr>" by code_simp
  show ?thesis
    using budget_windows_hold [OF ok refl, of "\<lparr>count = 40, resetAt = 601000\<rparr>"] w
    by (simp del: probe_cost.simps run.simps granted.simps)
qed

section \<open>Grade-detail permits\<close>

text \<open>
  C7. A permit is consumed at most once: after a consumption that was allowed, no further
  consumption of the same permit is allowed, whatever happens in between, unless a permit of
  the same hash is issued again.
\<close>

theorem permit_single_use:
  assumes "run_ok budget_step budget_ok empty_budget (h @ (t, BConsumeDetail lid i l) # xs @ [(now, BConsumeDetail lid' i' l')])"
    and "allowed (fst (budget_handle (run budget_step empty_budget h) t (BConsumeDetail lid i l)))"
    and "\<forall>x \<in> set xs. \<not> issues (ci_permitHash i) (snd x)" "ci_permitHash i' = ci_permitHash i"
  shows "\<not> allowed (fst (budget_handle (run budget_step empty_budget (h @ (t, BConsumeDetail lid i l) # xs)) now (BConsumeDetail lid' i' l')))"
proof -
  let ?c = "BConsumeDetail lid i l" and ?st = "run budget_step empty_budget h"
  let ?s1 = "budget_step ?st (t, ?c)" and ?s2 = "run budget_step (budget_step ?st (t, ?c)) xs"
  have ok: "run_ok budget_step budget_ok empty_budget h" "budget_ok ?st (t, ?c)"
    "run_ok budget_step budget_ok ?s1 xs" "budget_ok ?s2 (now, BConsumeDetail lid' i' l')"
    using assms(1) by (simp_all add: run_ok_append del: budget_ok.simps budget_step.simps)
  note inv = budget_reachable [OF ok(1)]
  have inv1: "budget_inv ?s1" by (rule budget_machine.step_inv [OF inv ok(2)])
  have inv2: "budget_inv ?s2" by (rule budget_machine.run_inv [OF inv1 ok(3)])
  have "spent (ci_permitHash i) (stored_tables ?s1)"
    using consume_spends [OF budget_invD(1) [OF inv] prod.collapse [symmetric]] assms(2) stored_step [OF inv ok(2)]
    by (simp del: tables_handle.simps budget_handle.simps budget_step.simps)
  then have "spent (ci_permitHash i) (stored_tables ?s2)" using assms(3) by (rule spent_run [OF inv1 ok(3)])
  then have "presented (stored_tables ?s2) now i' = None"
    using spent_refused [OF _ assms(4)] budget_invD(1) [OF inv2] by blast
  then have "\<not> allowed (fst (budget_handle ?s2 now (BConsumeDetail lid' i' l')))"
    using tables_consume_cases(1) [OF prod.collapse [symmetric]] stored_step(2) [OF inv2 ok(4)]
    by (simp del: tables_handle.simps budget_handle.simps)
  then show ?thesis by (simp add: run_append del: budget_handle.simps budget_step.simps)
qed

theorem permit_single_use_witness:
  "\<not> allowed (fst (budget_handle (run budget_step empty_budget (issue_history @ (3000, consume_call) # [(4000, BReleaseDetail (lease_id CHR ''c''))])) 5000 consume_call))"
  unfolding consume_call_def
proof (rule permit_single_use)
  show "run_ok budget_step budget_ok empty_budget (issue_history @ (3000, BConsumeDetail (lease_id CHR ''c'') sample_input sample_limits) #
     [(4000, BReleaseDetail (lease_id CHR ''c''))] @ [(5000, BConsumeDetail (lease_id CHR ''c'') sample_input sample_limits)])"
    by code_simp
  have "case fst (budget_handle (run budget_step empty_budget issue_history) 3000
      (BConsumeDetail (lease_id CHR ''c'') sample_input sample_limits)) of
      Inr (RConsume (ConsumeAllowed _ _ _)) \<Rightarrow> True | _ \<Rightarrow> False"
    by code_simp
  then show "allowed (fst (budget_handle (run budget_step empty_budget issue_history) 3000
      (BConsumeDetail (lease_id CHR ''c'') sample_input sample_limits)))"
    by (simp add: allowed_def del: budget_handle.simps run.simps split: sum.splits budget_reply.splits consume_result.splits)
qed (simp_all add: issues_def)

text \<open>
  C8. The decision about a presented permit is exact: it is allowed if and only if the
  limits and the input are well-formed, an unexpired and unconsumed permit of that hash has
  exactly the presented bindings, the window has a unit left and a lease is free; then the
  caller gets the lease and the stored envelope; and any other answer leaves the whole
  storage as it was, so the permit can be presented again.
\<close>

theorem consume_detail_exact:
  assumes "run_ok budget_step budget_ok empty_budget (h @ [(now, BConsumeDetail lid i l)])"
    and "st = run budget_step empty_budget h" "budget_handle st now (BConsumeDetail lid i l) = (r, st')"
  shows "(allowed r \<longleftrightarrow> assertValidVnuCrossDetailLimits l = Inr () \<and> assertValidVnuCrossDetailConsumeInput i = Inr () \<and>
      (\<exists>p. map_of (t_permits (stored_tables st)) (ci_permitHash i) = Some p \<and> now < expiresAt (sp_record p) \<and> bindings_match p i) \<and>
      window_used (detail_window st) now < cl_budget l \<and>
      int (length (unexpired now (t_dleases (stored_tables st)))) < concurrency l) \<and>
    (\<forall>k e v. r = Inr (RConsume (ConsumeAllowed k e v)) \<longrightarrow> k = lid \<and> e = now + VNU_CROSS_DETAIL_LEASE_MS \<and>
      (\<exists>p. map_of (t_permits (stored_tables st)) (ci_permitHash i) = Some p \<and> v = envelope (sp_record p))) \<and>
    (\<not> allowed r \<longrightarrow> st' = st)"
proof -
  have ok: "run_ok budget_step budget_ok empty_budget h" "budget_ok st (now, BConsumeDetail lid i l)"
    using assms(1,2) by (simp_all only: budget_snoc)
  have inv: "budget_inv st" using budget_reachable [OF ok(1)] assms(2) by simp
  note w = budget_invD [OF inv]
  have h: "tables_handle (stored_tables st) now (BConsumeDetail lid i l) = (r, stored_tables st')" "budget_inv st'"
    using handle_stored [OF inv ok(2)] assms(3) by (simp_all add: prod_eq_iff del: tables_handle.simps budget_handle.simps)
  have p: "presented (stored_tables st) now i = Some p \<longleftrightarrow> map_of (t_permits (stored_tables st)) (ci_permitHash i) = Some p \<and>
      now < expiresAt (sp_record p) \<and> bindings_match p i" for p
    by (rule presented_iff [OF w(1)])
  have q: "presented (stored_tables st) now i \<noteq> None \<longleftrightarrow> (\<exists>p. map_of (t_permits (stored_tables st)) (ci_permitHash i) = Some p \<and>
      now < expiresAt (sp_record p) \<and> bindings_match p i)"
    by (simp only: not_None_eq p)
  have "\<not> allowed r \<longrightarrow> st' = st"
    using tables_consume_cases(2) [OF h(1)] budget_invD(2) [OF h(2)] w(2) by metis
  moreover have "k = lid \<and> e = now + VNU_CROSS_DETAIL_LEASE_MS \<and>
      (\<exists>p. map_of (t_permits (stored_tables st)) (ci_permitHash i) = Some p \<and> v = envelope (sp_record p))"
    if "r = Inr (RConsume (ConsumeAllowed k e v))" for k e v
    using tables_consume_cases(3) [OF h(1) that] p by blast
  ultimately show ?thesis
    using tables_consume_cases(1) [OF h(1)] unfolding q detail_window_def by simp
qed

lemma sample_consume_ok: "run_ok budget_step budget_ok empty_budget (issue_history @ [(3000, consume_call)])"
  by code_simp

theorem consume_detail_exact_witness:
  "allowed (fst (budget_handle (run budget_step empty_budget issue_history) 3000 consume_call)) \<and>
   snd (budget_handle (run budget_step empty_budget issue_history) 60000 consume_call) = run budget_step empty_budget issue_history"
proof -
  let ?st = "run budget_step empty_budget issue_history"
  have late: "run_ok budget_step budget_ok empty_budget (issue_history @ [(60000, consume_call)])" by code_simp
  have c: "assertValidVnuCrossDetailLimits sample_limits = Inr ()" "assertValidVnuCrossDetailConsumeInput sample_input = Inr ()"
    "map_of (t_permits (stored_tables ?st)) (ci_permitHash sample_input) = Some \<lparr>sp_record = sample_record, consumedAt = None\<rparr>"
    "bindings_match \<lparr>sp_record = sample_record, consumedAt = None\<rparr> sample_input"
    "window_used (detail_window ?st) 3000 < cl_budget sample_limits"
    "int (length (unexpired 3000 (t_dleases (stored_tables ?st)))) < concurrency sample_limits"
    "expiresAt sample_record = 60000"
    by code_simp+
  have "allowed (fst (budget_handle ?st 3000 consume_call))"
    using consume_detail_exact [OF sample_consume_ok [unfolded consume_call_def] refl prod.collapse [symmetric]] c
    unfolding consume_call_def by (simp del: budget_handle.simps run.simps)
  moreover have "\<not> allowed (fst (budget_handle ?st 60000 consume_call)) \<and> snd (budget_handle ?st 60000 consume_call) = ?st"
    using consume_detail_exact [OF late [unfolded consume_call_def] refl prod.collapse [symmetric]] c
    unfolding consume_call_def by (simp del: budget_handle.simps run.simps)
  ultimately show ?thesis by blast
qed

text \<open>
  No permit is honoured that was not issued: an allowed consumption goes back to an
  earlier answered issuance of a permit with the presented hash whose bindings, nonce and
  policy are the presented ones, that has not expired, and whose envelope is the one returned.
\<close>

theorem permit_authentic:
  assumes "run_ok budget_step budget_ok empty_budget (h @ [(now, BConsumeDetail lid i l)])"
    and "fst (budget_handle (run budget_step empty_budget h) now (BConsumeDetail lid i l)) = Inr (RConsume (ConsumeAllowed k e v))"
  shows "\<exists>r. issued_before h (ci_permitHash i) r \<and> now < expiresAt r \<and> v = envelope r \<and> nonce r = ci_nonce i \<and>
    requesterHmac r = ci_requesterHmac i \<and> targetHmac r = ci_targetHmac i \<and> revisionHmac r = ci_revisionHmac i \<and>
    rowHmac r = ci_rowHmac i \<and> policyVersion r = ci_policyVersion i"
proof -
  let ?st = "run budget_step empty_budget h"
  have ok: "run_ok budget_step budget_ok empty_budget h" "budget_ok ?st (now, BConsumeDetail lid i l)"
    using assms(1) by (simp_all only: budget_snoc)
  note inv = budget_reachable [OF ok(1)]
  have "tables_handle (stored_tables ?st) now (BConsumeDetail lid i l) =
      (Inr (RConsume (ConsumeAllowed k e v)), snd (tables_handle (stored_tables ?st) now (BConsumeDetail lid i l)))"
    using stored_step(2) [OF inv ok(2)] assms(2) by (simp add: prod_eq_iff del: tables_handle.simps budget_handle.simps)
  from tables_consume_cases(3) [OF this refl] obtain p where
    p: "presented (stored_tables ?st) now i = Some p" "v = envelope (sp_record p)" by blast
  note m = presented_bindings [OF budget_invD(1) [OF inv] p(1)]
  have "issued_before h (ci_permitHash i) (sp_record p)" using permits_issued [OF ok(1)] m by blast
  then show ?thesis using m p(2) by (auto simp: bindings_match_def Let_def)
qed

theorem permit_authentic_witness:
  "\<exists>r. issued_before issue_history (hx 64 CHR ''a'') r \<and> envelope r = ''sealed''"
proof -
  have "fst (budget_handle (run budget_step empty_budget issue_history) 3000 consume_call) =
      Inr (RConsume (ConsumeAllowed (lease_id CHR ''c'') 128000 ''sealed''))"
    by code_simp
  from permit_authentic [OF sample_consume_ok [unfolded consume_call_def] this [unfolded consume_call_def]]
  have "\<exists>r. issued_before issue_history (ci_permitHash sample_input) r \<and> envelope r = ''sealed''" by auto
  moreover have "ci_permitHash sample_input = hx 64 CHR ''a''" by (simp add: sample_input_def)
  ultimately show ?thesis by simp
qed

section \<open>Storage, alarm and coordinator\<close>

text \<open>
  C9. The object implements the operations on its typed tables: after any admissible
  history, a request reads its storage back, does the operation of the tables and stores
  well-formed tables; in particular it never fails on a value it stored itself.
\<close>

theorem budget_refines_tables:
  assumes "run_ok budget_step budget_ok empty_budget (h @ [(now, call)])" "st = run budget_step empty_budget h"
  shows "case tables_handle (stored_tables st) now call of (r, b') \<Rightarrow>
    budget_handle st now call = (r, store_tables b') \<and> wf_tables b' \<and> r \<noteq> Inl StoredWindowInvalid \<and> r \<noteq> Inl StoredPermitsInvalid"
proof -
  have ok: "run_ok budget_step budget_ok empty_budget h" "budget_ok st (now, call)"
    using assms by (simp_all only: budget_snoc)
  have "budget_inv st" using budget_reachable [OF ok(1)] assms(2) by simp
  note w = budget_invD [OF this]
  show ?thesis
    using handle_tables [OF w(1) ok(2)] w(2) tables_wf_preserved [OF w(1) ok(2)] tables_errors [of "stored_tables st" now call]
    by (auto simp del: tables_handle.simps budget_handle.simps split: prod.splits)
qed

theorem budget_refines_tables_witness:
  "fst (budget_handle (run budget_step empty_budget issue_history) 3000 consume_call) =
   fst (tables_handle (stored_tables (run budget_step empty_budget issue_history)) 3000 consume_call)"
  using budget_refines_tables [OF sample_consume_ok refl] by (auto split: prod.splits simp del: budget_handle.simps tables_handle.simps run.simps)

text \<open>
  The coordinator touches only the addressed session; it reports a refusal or a failure
  of the object as one of the core errors of the module and then nothing has changed; and an
  acquisition aborted while pending leaves the caller no lease it did not hold before.
\<close>

theorem budget_coordinator_contract:
  assumes "run_ok budget_step budget_ok empty_budget h" "ns key = run budget_step empty_budget h"
    and "budget_coordinator ns key now op = (r, ns')"
  shows "(other \<noteq> key \<longrightarrow> ns' other = ns other) \<and>
    (\<forall>e. r = Inl (Rejected e) \<longrightarrow> ns' = ns \<and> budget_refusal e) \<and>
    (\<forall>i later k u. op = OAcquire i (AbortPending later) \<longrightarrow> hex_n 32 i \<longrightarrow> valid_now now \<longrightarrow> valid_now later \<longrightarrow>
      map_of (unexpired later (t_leases (stored_tables (ns' key)))) k = Some u \<longrightarrow>
      map_of (t_leases (stored_tables (ns key))) k = Some u)"
proof -
  have inv: "budget_inv (ns key)" using budget_reachable [OF assms(1)] assms(2) by simp
  have "map_of (t_leases (stored_tables (ns key))) k = Some u"
    if "op = OAcquire i (AbortPending later)" "hex_n 32 i" "valid_now now" "valid_now later"
      "map_of (unexpired later (t_leases (stored_tables (ns' key)))) k = Some u" for i later k u
    by (rule aborted_acquire [of ns key now i later r ns']) (use assms(3) inv that in simp_all)
  moreover have "ns' = ns \<and> budget_refusal e" if "r = Inl (Rejected e)" for e
    using coordinator_rejects assms(3) that by simp
  moreover have "other \<noteq> key \<longrightarrow> ns' other = ns other"
    using coordinator_others [OF assms(3)] by blast
  ultimately show ?thesis by simp
qed

theorem budget_coordinator_contract_witness:
  "map_of (unexpired 9000 (t_leases (stored_tables (snd (budget_coordinator (\<lambda>_. run budget_step empty_budget issue_history)
     (hx 64 CHR ''7'') 3000 (OAcquire (lease_id CHR ''d'') (AbortPending 9000))) (hx 64 CHR ''7''))))) (lease_id CHR ''d'') = None"
proof (rule ccontr)
  let ?ns = "\<lambda>_. run budget_step empty_budget issue_history" and ?key = "hx 64 CHR ''7''"
  let ?op = "OAcquire (lease_id CHR ''d'') (AbortPending 9000)"
  let ?q = "budget_coordinator ?ns ?key 3000 ?op"
  have f: "run_ok budget_step budget_ok empty_budget issue_history" "hex_n 32 (lease_id CHR ''d'')" "valid_now 3000" "valid_now 9000"
    "map_of (t_leases (stored_tables (run budget_step empty_budget issue_history))) (lease_id CHR ''d'') = None"
    by code_simp+
  assume "\<not> ?thesis"
  then obtain u where u: "map_of (unexpired 9000 (t_leases (stored_tables (snd ?q ?key)))) (lease_id CHR ''d'') = Some u" by blast
  have "budget_coordinator ?ns ?key 3000 ?op = (fst ?q, snd ?q)" by (rule prod.collapse [symmetric])
  from budget_coordinator_contract [OF f(1), where ns = ?ns, OF refl this]
  have "map_of (t_leases (stored_tables (run budget_step empty_budget issue_history))) (lease_id CHR ''d'') = Some u"
    using f(2-4) u by blast
  with f(5) show False by simp
qed

text \<open>
  The alarm makes progress: whenever an alarm is scheduled it stands at the expiry of a
  stored lease or permit, so every alarm that fires removes an entry and at most as many
  fire in a row as there are entries.
\<close>

theorem budget_alarm_progress:
  assumes "run_ok budget_step budget_ok empty_budget h" "st = run budget_step empty_budget h"
    and "fires budget_ring k_alarm st ts"
  shows "length ts + budget_entries (run budget_ring st ts) \<le> budget_entries st \<and>
    (\<forall>a. k_alarm st = Some a \<longrightarrow> a \<in> set (table_expiries (stored_tables st)))"
proof -
  have "alarm_listed empty_budget" using budget_inv_empty by (simp add: alarm_listed_def empty_budget_def)
  with budget_inv_empty have l: "alarm_listed st"
    unfolding assms(2) using assms(1) by (rule budget_machine.run_preserves [where P = alarm_listed, rotated]) (rule alarm_listed_step)
  show ?thesis using budget_alarm.fires_bound [OF l assms(3)] l by (simp add: alarm_listed_def)
qed

theorem budget_alarm_progress_witness:
  "length [60000, 126500 :: int] + budget_entries (run budget_ring (run budget_step empty_budget issue_history) [60000, 126500])
     \<le> budget_entries (run budget_step empty_budget issue_history)"
proof -
  have "run_ok budget_step budget_ok empty_budget issue_history"
    "fires budget_ring k_alarm (run budget_step empty_budget issue_history) [60000, 126500]"
    by code_simp+
  from budget_alarm_progress [OF this(1) refl this(2)] show ?thesis by blast
qed

text \<open>
  Cleaning is not complete: when a release is served after an expiry and before the
  alarm of that expiry fires, rescheduling sees no future expiry and deletes the alarm,
  although an expired permit is still stored.
\<close>

theorem late_release_strands_permit:
  "let st = run budget_step empty_budget [(1500, BAcquire (lease_id CHR ''b'')), (2000, BIssue sample_issue sample_limits),
       (70000, BRelease (lease_id CHR ''b''))]
   in k_alarm st = None \<and> t_permits (stored_tables st) \<noteq> [] \<and>
      unexpired_permits 70000 (t_permits (stored_tables st)) = []"
  by code_simp

end
