(* ===== verification/FeaturePolicy.thy ===== *)
theory FeaturePolicy
  imports Prelude
begin

text \<open>
  Feature policy resolution: \<open>apps/worker/src/policy/feature-policy.ts\<close> with the schemas of
  \<open>packages/schemas/src/feature-policy.ts\<close> and \<open>capabilities.ts\<close>. A policy restricts, per
  deployment and per university, the capabilities and the numeric limits an adapter declares.
\<close>

section \<open>Keys\<close>

datatype capability =
    Profile | Terms | Timetable | Courses | Assignments | Grades | Exams | Attendance
  | Notifications | Documents | Tuition | News | TrainingPoints | Requests | ClassLookup | CrossLookup

fun capability_name :: "capability \<Rightarrow> string" where
  "capability_name Profile = ''profile''"
| "capability_name Terms = ''terms''"
| "capability_name Timetable = ''timetable''"
| "capability_name Courses = ''courses''"
| "capability_name Assignments = ''assignments''"
| "capability_name Grades = ''grades''"
| "capability_name Exams = ''exams''"
| "capability_name Attendance = ''attendance''"
| "capability_name Notifications = ''notifications''"
| "capability_name Documents = ''documents''"
| "capability_name Tuition = ''tuition''"
| "capability_name News = ''news''"
| "capability_name TrainingPoints = ''trainingPoints''"
| "capability_name Requests = ''requests''"
| "capability_name ClassLookup = ''classLookup''"
| "capability_name CrossLookup = ''crossLookup''"

definition capabilityKeys :: "capability list" where
  "capabilityKeys = [Profile, Terms, Timetable, Courses, Assignments, Grades, Exams, Attendance,
     Notifications, Documents, Tuition, News, TrainingPoints, Requests, ClassLookup, CrossLookup]"

datatype limit_key =
    BulkMaxTargets | BulkDirectChunk | ModeStdidToCode | ModeStdidToTranscript | ModeCodeToStdid
  | DetailMaxTargets | DetailMaxRows | DetailConcurrency

fun limit_name :: "limit_key \<Rightarrow> string" where
  "limit_name BulkMaxTargets = ''crossLookup.bulkMaxTargets''"
| "limit_name BulkDirectChunk = ''crossLookup.bulkDirectChunkMaxTargets''"
| "limit_name ModeStdidToCode = ''crossLookup.bulkModeMaxTargets.stdid-to-code''"
| "limit_name ModeStdidToTranscript = ''crossLookup.bulkModeMaxTargets.stdid-to-transcript''"
| "limit_name ModeCodeToStdid = ''crossLookup.bulkModeMaxTargets.code-to-stdid''"
| "limit_name DetailMaxTargets = ''crossLookup.crossDetail.maxTargets''"
| "limit_name DetailMaxRows = ''crossLookup.crossDetail.maxRows''"
| "limit_name DetailConcurrency = ''crossLookup.crossDetail.concurrency''"

definition operationalLimitKeys :: "limit_key list" where
  "operationalLimitKeys = [BulkMaxTargets, BulkDirectChunk, ModeStdidToCode, ModeStdidToTranscript,
     ModeCodeToStdid, DetailMaxTargets, DetailMaxRows, DetailConcurrency]"

lemma all_limit_keys [simp]: "k \<in> set operationalLimitKeys"
  by (cases k) (simp_all add: operationalLimitKeys_def)

lemma distinct_limit_keys [simp]: "distinct operationalLimitKeys"
  by (simp add: operationalLimitKeys_def)

definition capability_of :: "string \<Rightarrow> capability option" where
  "capability_of s = List.find (\<lambda>c. capability_name c = s) capabilityKeys"

definition limit_key_of :: "string \<Rightarrow> limit_key option" where
  "limit_key_of s = List.find (\<lambda>k. limit_name k = s) operationalLimitKeys"

section \<open>Policies\<close>

text \<open>A JavaScript number: a whole one, or one \<open>Number.isInteger\<close> rejects.\<close>

datatype js_number = Whole int | NotWhole

record policy_scope =
  g_capabilities :: "(capability \<times> bool) list"
  g_limits :: "(limit_key \<times> js_number option) list"

record university_scope =
  u_capabilities :: "(capability \<times> bool) list"
  u_limits :: "(limit_key \<times> js_number) list"

record policy_content =
  p_global :: policy_scope
  p_universities :: "(string \<times> university_scope) list"

definition emptyPolicy :: policy_content where
  "emptyPolicy = \<lparr>p_global = \<lparr>g_capabilities = [], g_limits = []\<rparr>, p_universities = []\<rparr>"

section \<open>The schema\<close>

text \<open>
  \<open>featurePolicyContentSchema\<close> read as a partial function on untyped values: strict objects have
  exactly the declared properties, a partial record only keys of its enumeration, a record of
  universities only non-empty keys.
\<close>

definition strict_object :: "string list \<Rightarrow> jval \<Rightarrow> (string \<times> jval) list option" where
  "strict_object ks v = (case v of
     JObj kvs \<Rightarrow> if (\<forall>k \<in> set (map fst kvs). k \<in> set ks) \<and> (\<forall>k \<in> set ks. k \<in> set (map fst kvs)) then Some kvs else None
   | _ \<Rightarrow> None)"

fun record_entries :: "(string \<Rightarrow> 'k option) \<Rightarrow> (jval \<Rightarrow> 'v option) \<Rightarrow> (string \<times> jval) list \<Rightarrow> ('k \<times> 'v) list option" where
  "record_entries key val [] = Some []"
| "record_entries key val ((k, v) # kvs) = (case (key k, val v, record_entries key val kvs) of
     (Some k', Some v', Some rest) \<Rightarrow> Some ((k', v') # rest)
   | _ \<Rightarrow> None)"

definition partial_record :: "(string \<Rightarrow> 'k option) \<Rightarrow> (jval \<Rightarrow> 'v option) \<Rightarrow> jval \<Rightarrow> ('k \<times> 'v) list option" where
  "partial_record key val v = (case v of JObj kvs \<Rightarrow> record_entries key val kvs | _ \<Rightarrow> None)"

definition globalCapabilitySchema :: "jval \<Rightarrow> bool option" where
  "globalCapabilitySchema v = (case strict_object [''enabled''] v of
     None \<Rightarrow> None | Some kvs \<Rightarrow> (case field ''enabled'' kvs of JBool b \<Rightarrow> Some b | _ \<Rightarrow> None))"

definition universityCapabilitySchema :: "jval \<Rightarrow> bool option" where
  "universityCapabilitySchema v = (case globalCapabilitySchema v of Some False \<Rightarrow> Some False | _ \<Rightarrow> None)"

definition positiveLimitSchema :: "jval \<Rightarrow> js_number option" where
  "positiveLimitSchema v = (case v of JInt n \<Rightarrow> if 0 < n \<and> n \<le> max_safe_integer then Some (Whole n) else None | _ \<Rightarrow> None)"

definition nullableLimitSchema :: "jval \<Rightarrow> js_number option option" where
  "nullableLimitSchema v = (case v of JNull \<Rightarrow> Some None | _ \<Rightarrow> map_option Some (positiveLimitSchema v))"

definition globalScopeSchema :: "jval \<Rightarrow> policy_scope option" where
  "globalScopeSchema v = (case strict_object [''capabilities'', ''limits''] v of
     None \<Rightarrow> None
   | Some kvs \<Rightarrow> (case (partial_record capability_of globalCapabilitySchema (field ''capabilities'' kvs),
                      partial_record limit_key_of nullableLimitSchema (field ''limits'' kvs)) of
       (Some c, Some l) \<Rightarrow> Some \<lparr>g_capabilities = c, g_limits = l\<rparr>
     | _ \<Rightarrow> None))"

definition universityScopeSchema :: "jval \<Rightarrow> university_scope option" where
  "universityScopeSchema v = (case strict_object [''capabilities'', ''limits''] v of
     None \<Rightarrow> None
   | Some kvs \<Rightarrow> (case (partial_record capability_of universityCapabilitySchema (field ''capabilities'' kvs),
                      partial_record limit_key_of positiveLimitSchema (field ''limits'' kvs)) of
       (Some c, Some l) \<Rightarrow> Some \<lparr>u_capabilities = c, u_limits = l\<rparr>
     | _ \<Rightarrow> None))"

definition featurePolicyContentSchema :: "jval \<Rightarrow> policy_content option" where
  "featurePolicyContentSchema v = (case strict_object [''global'', ''universities''] v of
     None \<Rightarrow> None
   | Some kvs \<Rightarrow> (case (globalScopeSchema (field ''global'' kvs),
                      partial_record (\<lambda>s. if s = [] then None else Some s) universityScopeSchema (field ''universities'' kvs)) of
       (Some g, Some us) \<Rightarrow> Some \<lparr>p_global = g, p_universities = us\<rparr>
     | _ \<Rightarrow> None))"

section \<open>Error paths\<close>

definition segment_chars :: string where
  "segment_chars = ''ABCDEFGHIJKLMNOPQRSTUVWXYZabcdefghijklmnopqrstuvwxyz0123456789_-''"

definition safeSegment :: "string \<Rightarrow> string" where
  "safeSegment s = (if limit_key_of s \<noteq> None then s
     else if s \<noteq> [] \<and> list_all (\<lambda>c. c \<in> set segment_chars) s then take 64 s else ''?'')"

fun join_dots :: "string list \<Rightarrow> string" where
  "join_dots [] = []"
| "join_dots [s] = s"
| "join_dots (s # ss) = s @ ''.'' @ join_dots ss"

definition formatPath :: "string list \<Rightarrow> string" where
  "formatPath path = (if path = [] then ''$'' else take 256 (join_dots (map safeSegment path)))"

definition invalidPolicy :: "string \<Rightarrow> hyeboard_error" where
  "invalidPolicy path = \<lparr>err_code = ''ADMIN_POLICY_INVALID'', err_message = ''Feature policy is invalid.'',
     err_status = 400, err_details = [(''path'', JStr path)]\<rparr>"

section \<open>Resolution\<close>

text \<open>Both tests take any value, \<open>undefined\<close> (here \<open>None\<close>) included.\<close>

definition isSafeCeiling :: "js_number option \<Rightarrow> bool" where
  "isSafeCeiling v = (case v of Some (Whole n) \<Rightarrow> safe_integer n \<and> 0 \<le> n | _ \<Rightarrow> False)"

definition isSafeLimit :: "js_number option \<Rightarrow> bool" where
  "isSafeLimit v = (isSafeCeiling v \<and> (case v of Some (Whole n) \<Rightarrow> 0 < n | _ \<Rightarrow> False))"

fun whole :: "js_number \<Rightarrow> int" where
  "whole (Whole n) = n"
| "whole NotWhole = 0"

datatype policy_source = FromAdapter | FromGlobal | FromUniversity | FromNative

record effective_capability =
  ec_enabled :: bool
  ec_locked :: bool
  ec_source :: policy_source

definition resolveCapability :: "bool \<Rightarrow> policy_content \<Rightarrow> string \<Rightarrow> capability \<Rightarrow> effective_capability" where
  "resolveCapability adapterSupported policy uid c = (
     if \<not> adapterSupported then \<lparr>ec_enabled = False, ec_locked = True, ec_source = FromAdapter\<rparr>
     else if map_of (g_capabilities (p_global policy)) c = Some False
     then \<lparr>ec_enabled = False, ec_locked = False, ec_source = FromGlobal\<rparr>
     else if (case map_of (p_universities policy) uid of None \<Rightarrow> False
              | Some u \<Rightarrow> map_of (u_capabilities u) c = Some False)
     then \<lparr>ec_enabled = False, ec_locked = False, ec_source = FromUniversity\<rparr>
     else \<lparr>ec_enabled = True, ec_locked = False, ec_source = FromAdapter\<rparr>)"

record effective_limit =
  el_value :: int
  el_configured :: "int option"
  el_source :: policy_source
  el_clamped :: bool

definition university_limit :: "policy_content \<Rightarrow> string \<Rightarrow> limit_key \<Rightarrow> js_number option" where
  "university_limit policy uid key = (case map_of (p_universities policy) uid of None \<Rightarrow> None | Some u \<Rightarrow> map_of (u_limits u) key)"

definition configured_limit :: "policy_content \<Rightarrow> string \<Rightarrow> limit_key \<Rightarrow> js_number option" where
  "configured_limit policy uid key = (case university_limit policy uid key of
     Some v \<Rightarrow> Some v
   | None \<Rightarrow> (case map_of (g_limits (p_global policy)) key of Some (Some v) \<Rightarrow> Some v | _ \<Rightarrow> None))"

definition resolveLimit :: "policy_content \<Rightarrow> string \<Rightarrow> limit_key \<Rightarrow> int \<Rightarrow> hyeboard_error + effective_limit" where
  "resolveLimit policy uid key hardCeiling = (
     let university = university_limit policy uid key;
         global = map_of (g_limits (p_global policy)) key;
         configured = map_option whole (configured_limit policy uid key)
     in if \<not> isSafeCeiling (Some (Whole hardCeiling)) then Inl (invalidPolicy (''hardLimits.'' @ limit_name key))
     else if university \<noteq> None \<and> \<not> isSafeLimit university
     then Inl (invalidPolicy (''universities.'' @ safeSegment uid @ ''.limits.'' @ limit_name key))
     else if (case global of Some (Some v) \<Rightarrow> \<not> isSafeLimit (Some v) | _ \<Rightarrow> False)
     then Inl (invalidPolicy (''global.limits.'' @ limit_name key))
     else Inr \<lparr>
       el_value = (case configured of None \<Rightarrow> hardCeiling | Some c \<Rightarrow> min c hardCeiling),
       el_configured = configured,
       el_source = (if university = None then (if global = None then FromNative else FromGlobal) else FromUniversity),
       el_clamped = (case configured of None \<Rightarrow> False | Some c \<Rightarrow> c > hardCeiling)\<rparr>)"

text \<open>Hard limits: an object with string keys; its entries are checked in order.\<close>

type_synonym hard_limits = "(string \<times> js_number) list"

fun validateHardLimits :: "hard_limits \<Rightarrow> hyeboard_error + unit" where
  "validateHardLimits [] = Inr ()"
| "validateHardLimits ((k, v) # kvs) = (
     if limit_key_of k = None then Inl (invalidPolicy (''hardLimits.'' @ safeSegment k))
     else if \<not> isSafeCeiling (Some v) then Inl (invalidPolicy (''hardLimits.'' @ k))
     else validateHardLimits kvs)"

text \<open>The path of the first issue the schema library reports is a parameter.\<close>

definition validatePolicy ::
  "(jval \<Rightarrow> string list) \<Rightarrow> jval \<Rightarrow> string list \<Rightarrow> hard_limits \<Rightarrow> hyeboard_error + policy_content" where
  "validatePolicy issue_path policy known hardLimits = (case featurePolicyContentSchema policy of
     None \<Rightarrow> Inl (invalidPolicy (formatPath (issue_path policy)))
   | Some parsed \<Rightarrow>
       (case List.find (\<lambda>(uid, _). uid \<notin> set known) (p_universities parsed) of
          Some (uid, _) \<Rightarrow> Inl (invalidPolicy (''universities.'' @ safeSegment uid))
        | None \<Rightarrow> sbind (validateHardLimits hardLimits) (\<lambda>_. Inr parsed)))"

section \<open>Universities\<close>

record cross_detail_limits =
  cd_maxTargets :: js_number
  cd_maxRows :: js_number
  cd_concurrency :: js_number

record cross_lookup_limits =
  bulkMaxTargets :: js_number
  bulkDirectChunkMaxTargets :: "js_number option"
  bulkModeMaxTargets :: "(string \<times> js_number) list option"
  crossDetail :: "cross_detail_limits option"

text \<open>
  A university: its capabilities are total on the keys; \<open>uni_limits\<close> is \<open>limits?.crossLookup\<close>
  wrapped once more, so that an absent and an empty \<open>limits\<close> object stay distinct.
\<close>

record university =
  uni_id :: string
  uni_name :: string
  uni_shortName :: string
  uni_theme :: jval
  uni_capabilities :: "capability \<Rightarrow> bool"
  uni_limits :: "cross_lookup_limits option option"

definition flattenLimits :: "university \<Rightarrow> limit_key \<Rightarrow> js_number option" where
  "flattenLimits u key = (case uni_limits u of
     Some (Some cl) \<Rightarrow>
       (let mode = (\<lambda>m. Option.bind (bulkModeMaxTargets cl) (\<lambda>ms. map_of ms m)) in
        case key of
          BulkMaxTargets \<Rightarrow> Some (bulkMaxTargets cl)
        | BulkDirectChunk \<Rightarrow> bulkDirectChunkMaxTargets cl
        | ModeStdidToCode \<Rightarrow> mode ''stdid-to-code''
        | ModeStdidToTranscript \<Rightarrow> mode ''stdid-to-transcript''
        | ModeCodeToStdid \<Rightarrow> mode ''code-to-stdid''
        | DetailMaxTargets \<Rightarrow> map_option cd_maxTargets (crossDetail cl)
        | DetailMaxRows \<Rightarrow> map_option cd_maxRows (crossDetail cl)
        | DetailConcurrency \<Rightarrow> map_option cd_concurrency (crossDetail cl))
   | _ \<Rightarrow> None)"

definition projectLimits :: "(limit_key \<times> int) list \<Rightarrow> cross_lookup_limits option" where
  "projectLimits ls = (case map_of ls BulkMaxTargets of
     None \<Rightarrow> None
   | Some b \<Rightarrow>
       (let modes = List.map_filter (\<lambda>(m, k). map_option (\<lambda>v. (m, Whole v)) (map_of ls k))
              [(''stdid-to-code'', ModeStdidToCode), (''stdid-to-transcript'', ModeStdidToTranscript),
               (''code-to-stdid'', ModeCodeToStdid)]
        in Some \<lparr>bulkMaxTargets = Whole b,
             bulkDirectChunkMaxTargets = map_option Whole (map_of ls BulkDirectChunk),
             bulkModeMaxTargets = (if modes = [] then None else Some modes),
             crossDetail = (case (map_of ls DetailMaxTargets, map_of ls DetailMaxRows, map_of ls DetailConcurrency) of
               (Some t, Some r, Some c) \<Rightarrow> Some \<lparr>cd_maxTargets = Whole t, cd_maxRows = Whole r, cd_concurrency = Whole c\<rparr>
             | _ \<Rightarrow> None)\<rparr>))"

definition hard_limit :: "hard_limits \<Rightarrow> limit_key \<Rightarrow> js_number option" where
  "hard_limit hl key = map_of hl (limit_name key)"

text \<open>The ceiling of one key: the least of the safe ones among the native and the hard limit.\<close>

definition ceiling_of :: "js_number option \<Rightarrow> js_number option \<Rightarrow> int option" where
  "ceiling_of native hard = (case filter isSafeCeiling [native, hard] of
     [] \<Rightarrow> None
   | [a] \<Rightarrow> Some (whole (the a))
   | a # b # _ \<Rightarrow> Some (min (whole (the a)) (whole (the b))))"

definition project_key ::
  "university \<Rightarrow> policy_content \<Rightarrow> hard_limits \<Rightarrow> limit_key \<Rightarrow> hyeboard_error + (limit_key \<times> int) option" where
  "project_key u policy hl key = (case ceiling_of (flattenLimits u key) (hard_limit hl key) of
     None \<Rightarrow> Inr None
   | Some c \<Rightarrow> if c = 0 then Inr None
       else sbind (resolveLimit policy (uni_id u) key c) (\<lambda>el. Inr (Some (key, el_value el))))"

definition projected_limits ::
  "university \<Rightarrow> policy_content \<Rightarrow> hard_limits \<Rightarrow> hyeboard_error + (limit_key \<times> int) list" where
  "projected_limits u policy hl =
     sbind (traverse (project_key u policy hl) operationalLimitKeys) (\<lambda>ls. Inr (List.map_filter id ls))"

definition effectiveUniversity ::
  "university \<Rightarrow> policy_content \<Rightarrow> hard_limits \<Rightarrow> hyeboard_error + university" where
  "effectiveUniversity u policy hl =
     sbind (validateHardLimits hl) (\<lambda>_.
     let capabilities = (\<lambda>c. ec_enabled (resolveCapability (uni_capabilities u c) policy (uni_id u) c)) in
     sbind (projected_limits u policy hl) (\<lambda>ls.
     let caps = (if map_of ls BulkMaxTargets = None then capabilities(CrossLookup := False) else capabilities) in
     Inr (u\<lparr>uni_capabilities := caps,
            uni_limits := (if caps CrossLookup \<and> map_of ls BulkMaxTargets \<noteq> None
                           then map_option Some (projectLimits ls) else None)\<rparr>)))"

section \<open>Dashboards\<close>

text \<open>The parts of a dashboard are values the filter does not look into.\<close>

record dashboard =
  d_student :: jval
  d_currentTerm :: jval
  d_courseCount :: jval
  d_nextClass :: jval
  d_todaySchedule :: "jval list"
  d_courses :: "jval list"
  d_assignments :: "jval list"
  d_grades :: "jval list"
  d_gpa :: jval
  d_exams :: "jval list"
  d_tuition :: jval
  d_notifications :: "jval list"

definition filterDashboardSummary :: "dashboard \<Rightarrow> (capability \<Rightarrow> bool) \<Rightarrow> dashboard" where
  "filterDashboardSummary d caps = \<lparr>
     d_student = (if caps Profile then d_student d else JUndefined),
     d_currentTerm = (if caps Terms then d_currentTerm d else JUndefined),
     d_courseCount = (if caps Courses then d_courseCount d else JUndefined),
     d_nextClass = (if caps Timetable then d_nextClass d else JUndefined),
     d_todaySchedule = (if caps Timetable then d_todaySchedule d else []),
     d_courses = (if caps Courses then d_courses d else []),
     d_assignments = (if caps Assignments then d_assignments d else []),
     d_grades = (if caps Grades then d_grades d else []),
     d_gpa = (if caps Grades then d_gpa d else JUndefined),
     d_exams = (if caps Exams then d_exams d else []),
     d_tuition = (if caps Tuition then d_tuition d else JUndefined),
     d_notifications = (if caps Notifications then d_notifications d else [])\<rparr>"

end
