(* ===== verification/FeaturePolicyProps.thy ===== *)
theory FeaturePolicyProps
  imports FeaturePolicy
begin

text \<open>
  Properties of feature policy resolution: capabilities and limits only shrink, a validated
  policy always resolves, a filtered dashboard depends only on what is enabled, and the path
  an error reports is short and harmless.
\<close>

section \<open>Limits\<close>

lemma traverse_keyed:
  "traverse f ks = Inr ys \<Longrightarrow> distinct ks \<Longrightarrow> (\<And>k y. f k = Inr (Some y) \<Longrightarrow> fst y = k) \<Longrightarrow>
   map_of (List.map_filter id ys) k =
     (if k \<in> set ks then case f k of Inr (Some y) \<Rightarrow> Some (snd y) | _ \<Rightarrow> None else None)"
proof (induction ks arbitrary: ys)
  case Nil
  then show ?case by (simp add: List.map_filter_simps)
next
  case (Cons a ks)
  then obtain y zs where *: "f a = Inr y" "traverse f ks = Inr zs" "ys = y # zs"
    by (auto simp: sbind_Inr_iff)
  show ?case
  proof (cases y)
    case None
    then show ?thesis using * Cons by (auto simp: List.map_filter_simps split: sum.splits option.splits)
  next
    case (Some q)
    then have "fst q = a" using *(1) Cons.prems(3) by simp
    then show ?thesis using * Cons Some
      by (cases q) (auto simp: List.map_filter_simps split: sum.splits option.splits)
  qed
qed

lemma project_key_fst: "project_key u p hl k = Inr (Some y) \<Longrightarrow> fst y = k"
  by (auto simp: project_key_def sbind_Inr_iff split: option.splits if_splits)

lemma projected_value:
  assumes "projected_limits u p hl = Inr ls"
  shows "map_of ls k = Some v \<longleftrightarrow> (\<exists>c el. ceiling_of (flattenLimits u k) (hard_limit hl k) = Some c \<and> c \<noteq> 0 \<and>
    resolveLimit p (uni_id u) k c = Inr el \<and> v = el_value el)"
proof -
  obtain ys where ys: "traverse (project_key u p hl) operationalLimitKeys = Inr ys" "ls = List.map_filter id ys"
    using assms by (auto simp: projected_limits_def sbind_Inr_iff)
  have "map_of ls k = (case project_key u p hl k of Inr (Some y) \<Rightarrow> Some (snd y) | _ \<Rightarrow> None)"
    using traverse_keyed [OF ys(1) distinct_limit_keys project_key_fst, where k = k] ys(2) by simp
  then show ?thesis
    by (auto simp: project_key_def sbind_def split: option.splits sum.splits)
qed

lemma mode_of_list: "Option.bind (if ms = [] then None else Some ms) (\<lambda>ms. map_of ms m) = map_of ms m"
  by simp

lemma flatten_projected:
  assumes "projectLimits ls = Some cl" "flattenLimits (u\<lparr>uni_limits := Some (Some cl)\<rparr>) k = Some v"
  shows "\<exists>n. v = Whole n \<and> map_of ls k = Some n"
proof -
  define modes where "modes = List.map_filter (\<lambda>(m, k). map_option (\<lambda>v. (m, Whole v)) (map_of ls k))
              [(''stdid-to-code'', ModeStdidToCode), (''stdid-to-transcript'', ModeStdidToTranscript),
               (''code-to-stdid'', ModeCodeToStdid)]"
  obtain b where b: "map_of ls BulkMaxTargets = Some b" "bulkMaxTargets cl = Whole b"
    "bulkDirectChunkMaxTargets cl = map_option Whole (map_of ls BulkDirectChunk)"
    "bulkModeMaxTargets cl = (if modes = [] then None else Some modes)"
    "crossDetail cl = (case (map_of ls DetailMaxTargets, map_of ls DetailMaxRows, map_of ls DetailConcurrency) of
               (Some t, Some r, Some c) \<Rightarrow> Some \<lparr>cd_maxTargets = Whole t, cd_maxRows = Whole r, cd_concurrency = Whole c\<rparr>
             | _ \<Rightarrow> None)"
    using assms(1) by (cases "map_of ls BulkMaxTargets") (auto simp: projectLimits_def Let_def modes_def)
  have modes: "map_of modes ''stdid-to-code'' = map_option Whole (map_of ls ModeStdidToCode)"
    "map_of modes ''stdid-to-transcript'' = map_option Whole (map_of ls ModeStdidToTranscript)"
    "map_of modes ''code-to-stdid'' = map_option Whole (map_of ls ModeCodeToStdid)"
    unfolding modes_def by (simp_all add: List.map_filter_simps split: option.split)
  show ?thesis
    using assms(2) unfolding flattenLimits_def
    by (cases k) (auto simp: b mode_of_list modes Let_def split: option.splits if_splits)
qed

lemma ceiling_le:
  assumes "ceiling_of a b = Some c"
  shows "0 \<le> c" "a = Some (Whole n) \<Longrightarrow> safe_integer n \<Longrightarrow> 0 \<le> n \<Longrightarrow> c \<le> n"
    "b = Some (Whole n) \<Longrightarrow> safe_integer n \<Longrightarrow> 0 \<le> n \<Longrightarrow> c \<le> n" "safe_integer c"
  using assms by (auto simp: ceiling_of_def isSafeCeiling_def min_def split: if_splits option.splits js_number.splits)

lemma resolveLimit_bounds:
  assumes "resolveLimit p uid k c = Inr el" "0 < c"
  shows "0 < el_value el" "el_value el \<le> c" "configured_limit p uid k = Some (Whole n) \<Longrightarrow> el_value el \<le> n"
    "el_value el = (case configured_limit p uid k of None \<Rightarrow> c | Some v \<Rightarrow> min (whole v) c)"
proof -
  have pos: "0 < whole v" if "configured_limit p uid k = Some v" for v
    using assms that by (auto simp: resolveLimit_def Let_def configured_limit_def isSafeLimit_def isSafeCeiling_def
        split: if_splits option.splits js_number.splits)
  show v: "el_value el = (case configured_limit p uid k of None \<Rightarrow> c | Some v \<Rightarrow> min (whole v) c)"
    using assms by (auto simp: resolveLimit_def Let_def split: if_splits option.splits)
  show "0 < el_value el" "el_value el \<le> c" "configured_limit p uid k = Some (Whole n) \<Longrightarrow> el_value el \<le> n"
    using pos assms(2) by (auto simp: v split: option.splits)
qed

section \<open>Validated policies\<close>

lemma record_entries_vals:
  "record_entries key val kvs = Some r \<Longrightarrow> (k, v) \<in> set r \<Longrightarrow> \<exists>x. val x = Some v"
  by (induction kvs arbitrary: r) (force split: option.splits prod.splits)+

lemma partial_record_vals: "partial_record key val x = Some r \<Longrightarrow> (k, v) \<in> set r \<Longrightarrow> \<exists>y. val y = Some v"
  by (auto simp: partial_record_def dest: record_entries_vals split: jval.splits)

definition resolvable :: "policy_content \<Rightarrow> bool" where
  "resolvable p \<longleftrightarrow>
     (\<forall>k v. (k, Some v) \<in> set (g_limits (p_global p)) \<longrightarrow> isSafeLimit (Some v)) \<and>
     (\<forall>uid u k v. (uid, u) \<in> set (p_universities p) \<longrightarrow> (k, v) \<in> set (u_limits u) \<longrightarrow> isSafeLimit (Some v))"

lemma positive_limit_safe: "positiveLimitSchema x = Some v \<Longrightarrow> isSafeLimit (Some v)"
  by (auto simp: positiveLimitSchema_def isSafeLimit_def isSafeCeiling_def safe_integer_def max_safe_integer_def
      split: jval.splits if_splits)

lemma nullable_limit_safe: "nullableLimitSchema x = Some (Some v) \<Longrightarrow> isSafeLimit (Some v)"
  by (auto simp: nullableLimitSchema_def split: jval.splits dest: positive_limit_safe)

lemma record_limits_safe:
  "partial_record key nullableLimitSchema x = Some r \<Longrightarrow> (k, Some v) \<in> set r \<Longrightarrow> isSafeLimit (Some v)"
  "partial_record key positiveLimitSchema x = Some r' \<Longrightarrow> (k, v) \<in> set r' \<Longrightarrow> isSafeLimit (Some v)"
  by (drule (1) partial_record_vals, auto dest: positive_limit_safe nullable_limit_safe)+

lemma scope_limits_safe:
  "globalScopeSchema x = Some g \<Longrightarrow> (k, Some v) \<in> set (g_limits g) \<Longrightarrow> isSafeLimit (Some v)"
  "universityScopeSchema x = Some u \<Longrightarrow> (k, v) \<in> set (u_limits u) \<Longrightarrow> isSafeLimit (Some v)"
  by (auto simp: globalScopeSchema_def universityScopeSchema_def split: option.splits dest: record_limits_safe)

lemma schema_resolvable:
  assumes "featurePolicyContentSchema x = Some p" shows "resolvable p"
proof -
  obtain kvs where "globalScopeSchema (field ''global'' kvs) = Some (p_global p)"
    "partial_record (\<lambda>s. if s = [] then None else Some s) universityScopeSchema (field ''universities'' kvs) = Some (p_universities p)"
    using assms by (auto simp: featurePolicyContentSchema_def split: option.splits)
  then show ?thesis
    unfolding resolvable_def using scope_limits_safe partial_record_vals by (metis (no_types, lifting))
qed

lemma resolvable_total:
  assumes "resolvable p" "isSafeCeiling (Some (Whole c))" shows "\<exists>el. resolveLimit p uid k c = Inr el"
proof -
  have u: "isSafeLimit (Some v)" if "university_limit p uid k = Some v" for v
    using assms(1) that by (fastforce simp: university_limit_def resolvable_def split: option.splits dest: map_of_SomeD)
  have g: "isSafeLimit (Some v)" if "map_of (g_limits (p_global p)) k = Some (Some v)" for v
    using assms(1) that by (auto simp: resolvable_def dest!: map_of_SomeD)
  show ?thesis
    using assms(2) u g by (cases "university_limit p uid k") (auto simp: resolveLimit_def Let_def split: option.splits)
qed

lemma traverse_total: "(\<And>x. x \<in> set xs \<Longrightarrow> \<exists>y. f x = Inr y) \<Longrightarrow> \<exists>ys. traverse f xs = Inr ys"
  by (induction xs) force+

lemma validated_resolves:
  assumes "resolvable p" "validateHardLimits hl = Inr ()"
  shows "\<exists>u'. effectiveUniversity u p hl = Inr u'"
proof -
  have "\<exists>y. project_key u p hl k = Inr y" for k
  proof (cases "ceiling_of (flattenLimits u k) (hard_limit hl k)")
    case (Some c)
    then obtain el where "resolveLimit p (uni_id u) k c = Inr el"
      using resolvable_total [OF assms(1), of c] ceiling_le(1,4) by (fastforce simp: isSafeCeiling_def)
    then show ?thesis using Some by (simp add: project_key_def)
  qed (simp add: project_key_def)
  then obtain ys where "traverse (project_key u p hl) operationalLimitKeys = Inr ys"
    using traverse_total [of operationalLimitKeys "project_key u p hl"] by auto
  then show ?thesis using assms(2) by (simp add: effectiveUniversity_def projected_limits_def Let_def)
qed

section \<open>Error paths\<close>

definition path_chars :: "char set" where
  "path_chars = set segment_chars \<union> set ''.?$''"

definition harmless_path :: "string \<Rightarrow> bool" where
  "harmless_path path \<longleftrightarrow> length path \<le> 256 \<and> set path \<subseteq> path_chars"

definition harmless_error :: "hyeboard_error \<Rightarrow> bool" where
  "harmless_error e \<longleftrightarrow> (\<exists>path. e = invalidPolicy path \<and> harmless_path path)"

lemma limit_name_chars: "set (limit_name k) \<subseteq> path_chars" "length (limit_name k) \<le> 64"
  by (cases k; simp add: path_chars_def segment_chars_def)+

lemma limit_key_of_name: "limit_key_of s = Some k \<Longrightarrow> s = limit_name k"
  by (auto simp: limit_key_of_def find_Some_iff)

lemma safeSegment_chars: "set (safeSegment s) \<subseteq> path_chars" "length (safeSegment s) \<le> 64"
proof -
  have "set (take 64 s) \<subseteq> set segment_chars" if "list_all (\<lambda>c. c \<in> set segment_chars) s"
    using that by (auto simp: list_all_iff dest: in_set_takeD)
  then show "set (safeSegment s) \<subseteq> path_chars"
    using limit_name_chars(1) by (auto simp: safeSegment_def path_chars_def dest!: limit_key_of_name)
  show "length (safeSegment s) \<le> 64"
    using limit_name_chars(2) by (auto simp: safeSegment_def dest!: limit_key_of_name)
qed

lemma join_dots_chars: "\<forall>s \<in> set ss. set s \<subseteq> path_chars \<Longrightarrow> set (join_dots ss) \<subseteq> path_chars"
  by (induction ss rule: join_dots.induct) (auto simp: path_chars_def)

lemma harmless_formatPath: "harmless_path (formatPath path)"
proof -
  have "set (join_dots (map safeSegment path)) \<subseteq> path_chars"
    using safeSegment_chars(1) by (intro join_dots_chars) auto
  then show ?thesis
    by (auto simp: harmless_path_def formatPath_def path_chars_def dest!: in_set_takeD)
qed

lemma harmless_prefixed:
  "harmless_path (''hardLimits.'' @ limit_name k)" "harmless_path (''hardLimits.'' @ safeSegment s)"
  "harmless_path (''universities.'' @ safeSegment s)"
  "harmless_path (''universities.'' @ safeSegment s @ ''.limits.'' @ limit_name k)"
  "harmless_path (''global.limits.'' @ limit_name k)"
  using limit_name_chars [of k] safeSegment_chars [of s]
  by (auto simp: harmless_path_def path_chars_def segment_chars_def)

lemma harmless_invalid: "harmless_path path \<Longrightarrow> harmless_error (invalidPolicy path)"
  by (auto simp: harmless_error_def)

lemmas harmless_errors = harmless_prefixed [THEN harmless_invalid, simplified]

lemma hard_limit_errors: "validateHardLimits hl = Inl e \<Longrightarrow> harmless_error e"
  by (induction hl rule: validateHardLimits.induct)
    (auto intro: harmless_errors dest!: limit_key_of_name split: if_splits)

lemma resolve_errors: "resolveLimit p uid k c = Inl e \<Longrightarrow> harmless_error e"
  by (auto simp: resolveLimit_def Let_def intro: harmless_errors split: if_splits)

lemma traverse_error: "traverse f xs = Inl e \<Longrightarrow> \<exists>x \<in> set xs. f x = Inl e"
  by (induction xs) (auto simp: sbind_def split: sum.splits)

section \<open>Properties\<close>

text \<open>
  The effective capabilities are exactly the adapter's, less what the deployment or the
  university policy disables, less the cross lookup when no positive ceiling is known for
  its number of targets; nothing else about the university's identity changes.
\<close>

theorem effective_capabilities_exact:
  assumes "effectiveUniversity u p hl = Inr u'"
  shows "uni_id u' = uni_id u \<and> uni_name u' = uni_name u \<and>
    (\<forall>c. uni_capabilities u' c \<longleftrightarrow> uni_capabilities u c \<and>
      map_of (g_capabilities (p_global p)) c \<noteq> Some False \<and>
      (\<forall>s. map_of (p_universities p) (uni_id u) = Some s \<longrightarrow> map_of (u_capabilities s) c \<noteq> Some False) \<and>
      (c = CrossLookup \<longrightarrow> (\<exists>n. ceiling_of (flattenLimits u BulkMaxTargets) (hard_limit hl BulkMaxTargets) = Some n \<and> n \<noteq> 0)))"
proof -
  obtain ls where ls: "projected_limits u p hl = Inr ls"
    and u': "uni_id u' = uni_id u" "uni_name u' = uni_name u"
      "uni_capabilities u' = (let f = (\<lambda>c. ec_enabled (resolveCapability (uni_capabilities u c) p (uni_id u) c)) in
         if map_of ls BulkMaxTargets = None then f(CrossLookup := False) else f)"
    using assms by (auto simp: effectiveUniversity_def sbind_Inr_iff Let_def)
  have "\<exists>y. project_key u p hl BulkMaxTargets = Inr y"
    using ls by (auto simp: projected_limits_def sbind_Inr_iff operationalLimitKeys_def)
  then have "\<exists>el. resolveLimit p (uni_id u) BulkMaxTargets n = Inr el"
    if "ceiling_of (flattenLimits u BulkMaxTargets) (hard_limit hl BulkMaxTargets) = Some n" "n \<noteq> 0" for n
    using that by (auto simp: project_key_def sbind_Inr_iff)
  then have "map_of ls BulkMaxTargets \<noteq> None \<longleftrightarrow>
      (\<exists>n. ceiling_of (flattenLimits u BulkMaxTargets) (hard_limit hl BulkMaxTargets) = Some n \<and> n \<noteq> 0)"
    using projected_value [OF ls, of BulkMaxTargets] unfolding not_None_eq by blast
  then have caps: "uni_capabilities u' c \<longleftrightarrow> ec_enabled (resolveCapability (uni_capabilities u c) p (uni_id u) c) \<and>
      (c = CrossLookup \<longrightarrow> (\<exists>n. ceiling_of (flattenLimits u BulkMaxTargets) (hard_limit hl BulkMaxTargets) = Some n \<and> n \<noteq> 0))" for c
    unfolding u' Let_def by auto
  have "ec_enabled (resolveCapability (uni_capabilities u c) p (uni_id u) c) \<longleftrightarrow> uni_capabilities u c \<and>
      map_of (g_capabilities (p_global p)) c \<noteq> Some False \<and>
      (\<forall>s. map_of (p_universities p) (uni_id u) = Some s \<longrightarrow> map_of (u_capabilities s) c \<noteq> Some False)" for c
    by (auto simp: resolveCapability_def split: option.splits)
  then show ?thesis by (simp add: caps u'(1,2))
qed

definition sample_university :: university where
  "sample_university = \<lparr>uni_id = ''vnu'', uni_name = ''VNU'', uni_shortName = ''VNU'', uni_theme = JUndefined,
     uni_capabilities = (\<lambda>_. True),
     uni_limits = Some (Some \<lparr>bulkMaxTargets = Whole 50, bulkDirectChunkMaxTargets = Some (Whole 10),
       bulkModeMaxTargets = Some [(''stdid-to-code'', Whole 40)],
       crossDetail = Some \<lparr>cd_maxTargets = Whole 5, cd_maxRows = Whole 40, cd_concurrency = Whole 2\<rparr>\<rparr>)\<rparr>"

definition sample_raw_policy :: jval where
  "sample_raw_policy = JObj [
     (''global'', JObj [(''capabilities'', JObj [(''grades'', JObj [(''enabled'', JBool False)])]),
                        (''limits'', JObj [(''crossLookup.bulkMaxTargets'', JInt 30)])]),
     (''universities'', JObj [(''vnu'', JObj [(''capabilities'', JObj []),
                        (''limits'', JObj [(''crossLookup.crossDetail.maxRows'', JInt 10)])])])]"

definition sample_hard :: hard_limits where
  "sample_hard = [(''crossLookup.bulkMaxTargets'', Whole 20), (''crossLookup.bulkDirectChunkMaxTargets'', Whole 300)]"

definition sample_policy :: policy_content where
  "sample_policy = the (featurePolicyContentSchema sample_raw_policy)"

definition sample_effective :: university where
  "sample_effective = (case effectiveUniversity sample_university sample_policy sample_hard of Inr u \<Rightarrow> u | Inl _ \<Rightarrow> sample_university)"

lemma sample_effective: "effectiveUniversity sample_university sample_policy sample_hard = Inr sample_effective"
proof -
  have "case effectiveUniversity sample_university sample_policy sample_hard of Inr u \<Rightarrow> True | Inl _ \<Rightarrow> False" by code_simp
  then show ?thesis by (simp add: sample_effective_def split: sum.splits)
qed

theorem effective_capabilities_exact_witness:
  "uni_capabilities sample_effective Courses \<and> \<not> uni_capabilities sample_effective Grades"
proof -
  have "uni_capabilities sample_university Courses" "uni_id sample_university = ''vnu''"
    "map_of (g_capabilities (p_global sample_policy)) Courses \<noteq> Some False"
    "map_of (g_capabilities (p_global sample_policy)) Grades = Some False"
    "case map_of (p_universities sample_policy) ''vnu'' of None \<Rightarrow> True | Some s \<Rightarrow> map_of (u_capabilities s) Courses \<noteq> Some False"
    by code_simp+
  then show ?thesis using effective_capabilities_exact [OF sample_effective] by (auto split: option.splits)
qed

text \<open>
  No effective limit exceeds any of its ceilings: each one is a positive whole number, at
  most the adapter's own limit, at most the hard limit of the deployment, and at most the
  configured limit (the university's, else the global one).
\<close>

theorem effective_limits_bounded:
  assumes "effectiveUniversity u p hl = Inr u'" "flattenLimits u' k = Some v"
  shows "\<exists>n. v = Whole n \<and> 0 < n \<and>
    (\<forall>m. flattenLimits u k = Some (Whole m) \<longrightarrow> safe_integer m \<longrightarrow> 0 \<le> m \<longrightarrow> n \<le> m) \<and>
    (\<forall>m. hard_limit hl k = Some (Whole m) \<longrightarrow> safe_integer m \<longrightarrow> 0 \<le> m \<longrightarrow> n \<le> m) \<and>
    (\<forall>m. configured_limit p (uni_id u) k = Some (Whole m) \<longrightarrow> n \<le> m)"
proof -
  obtain ls cl where ls: "projected_limits u p hl = Inr ls" "projectLimits ls = Some cl" "uni_limits u' = Some (Some cl)"
    using assms by (auto simp: effectiveUniversity_def sbind_Inr_iff Let_def flattenLimits_def split: if_splits option.splits)
  then obtain n where n: "v = Whole n" "map_of ls k = Some n"
    using flatten_projected [OF ls(2), of u' k v] assms(2) by (metis university.surjective university.update_convs(6))
  then obtain c el where c: "ceiling_of (flattenLimits u k) (hard_limit hl k) = Some c" "c \<noteq> 0"
      "resolveLimit p (uni_id u) k c = Inr el" "n = el_value el"
    using projected_value [OF ls(1)] by blast
  note ceil = ceiling_le [OF c(1)]
  have "0 < c" using ceil(1) c(2) by linarith
  note b = resolveLimit_bounds [OF c(3) this]
  show ?thesis
    using n(1) b(1-3) ceil(2,3) c(4) order_trans by blast
qed

theorem effective_limits_bounded_witness:
  "flattenLimits sample_effective BulkMaxTargets = Some (Whole 20) \<and> (20::int) \<le> 50 \<and> (20::int) \<le> 30"
proof -
  have f: "flattenLimits sample_effective BulkMaxTargets = Some (Whole 20)"
    "flattenLimits sample_university BulkMaxTargets = Some (Whole 50)" "safe_integer 50"
    "configured_limit sample_policy (uni_id sample_university) BulkMaxTargets = Some (Whole 30)"
    by code_simp+
  from effective_limits_bounded [OF sample_effective f(1)]
  have "(20::int) \<le> 50" "(20::int) \<le> 30" using f(2-4) by auto
  with f(1) show ?thesis by blast
qed

text \<open>
  A policy that passed validation always resolves, for every university: publication is
  the only place where a policy can be refused.
\<close>

theorem validated_policy_resolves:
  assumes "validatePolicy issue_path raw known hl = Inr p"
  shows "\<exists>u'. effectiveUniversity u p hl = Inr u'"
proof -
  have "resolvable p" "validateHardLimits hl = Inr ()"
    using assms by (auto simp: validatePolicy_def sbind_Inr_iff schema_resolvable split: option.splits)
  then show ?thesis by (rule validated_resolves)
qed

theorem validated_policy_resolves_witness:
  "\<exists>u'. effectiveUniversity sample_university sample_policy sample_hard = Inr u'"
proof -
  have "validatePolicy (\<lambda>_. []) sample_raw_policy [''vnu''] sample_hard = Inr sample_policy" by code_simp
  then show ?thesis by (rule validated_policy_resolves)
qed

text \<open>
  An error of policy validation or resolution never carries more than a short path of
  harmless characters, whatever names the rejected policy or the hard limits contain and
  whatever path the schema library reports.
\<close>

theorem policy_errors_harmless:
  "(validatePolicy issue_path raw known hl = Inl e \<longrightarrow> harmless_error e) \<and>
   (effectiveUniversity u p hl = Inl e \<longrightarrow> harmless_error e)"
proof
  show "validatePolicy issue_path raw known hl = Inl e \<longrightarrow> harmless_error e"
    by (auto simp: validatePolicy_def sbind_def intro: harmless_errors harmless_invalid harmless_formatPath hard_limit_errors
        split: option.splits sum.splits)
  show "effectiveUniversity u p hl = Inl e \<longrightarrow> harmless_error e"
    by (auto simp: effectiveUniversity_def sbind_def Let_def projected_limits_def project_key_def
        intro: hard_limit_errors resolve_errors dest!: traverse_error split: option.splits sum.splits if_splits)
qed

theorem policy_errors_harmless_witness:
  "harmless_error (invalidPolicy ''universities.?'')"
proof -
  have "validatePolicy (\<lambda>_. []) (JObj [(''global'', JObj [(''capabilities'', JObj []), (''limits'', JObj [])]),
     (''universities'', JObj [(''<script>'', JObj [(''capabilities'', JObj []), (''limits'', JObj [])])])]) [] [] =
     Inl (invalidPolicy ''universities.?'')"
    by code_simp
  then show ?thesis using policy_errors_harmless by blast
qed

text \<open>
  The filtered dashboard reveals exactly what is enabled: two dashboards are filtered to
  the same dashboard if and only if they agree on every part whose capability is enabled.
\<close>

definition agree_on :: "(capability \<Rightarrow> bool) \<Rightarrow> dashboard \<Rightarrow> dashboard \<Rightarrow> bool" where
  "agree_on caps d d' \<longleftrightarrow>
     (caps Profile \<longrightarrow> d_student d = d_student d') \<and> (caps Terms \<longrightarrow> d_currentTerm d = d_currentTerm d') \<and>
     (caps Courses \<longrightarrow> d_courseCount d = d_courseCount d' \<and> d_courses d = d_courses d') \<and>
     (caps Timetable \<longrightarrow> d_nextClass d = d_nextClass d' \<and> d_todaySchedule d = d_todaySchedule d') \<and>
     (caps Assignments \<longrightarrow> d_assignments d = d_assignments d') \<and>
     (caps Grades \<longrightarrow> d_grades d = d_grades d' \<and> d_gpa d = d_gpa d') \<and> (caps Exams \<longrightarrow> d_exams d = d_exams d') \<and>
     (caps Tuition \<longrightarrow> d_tuition d = d_tuition d') \<and> (caps Notifications \<longrightarrow> d_notifications d = d_notifications d')"

theorem dashboard_noninterference:
  "filterDashboardSummary d caps = filterDashboardSummary d' caps \<longleftrightarrow> agree_on caps d d'"
  by (auto simp: filterDashboardSummary_def agree_on_def)

end
