(* ===== verification/PolicyStore.thy ===== *)
theory PolicyStore
  imports FeaturePolicy
begin

text \<open>
  The versioned policy stores: the in-memory store of \<open>policy/feature-policy-store.ts\<close>, the
  tables of \<open>policy/feature-policy-durable-object.ts\<close> and of \<open>node/sqlite/feature-policy-store.ts\<close>.
  A publication names the revision it was edited from; a store accepts it only when that is
  still the current one. The publication time is the clock in milliseconds (the code renders it
  as an ISO date), and a JSON column is modelled by the value it serialises.
\<close>

section \<open>Inputs\<close>

record admin_actor =
  a_method :: string
  a_subject :: string
  a_label :: "string option"

definition adminActorSchema :: "admin_actor \<Rightarrow> bool" where
  "adminActorSchema a \<longleftrightarrow> a_method a \<in> {''password'', ''github'', ''discord''} \<and>
     1 \<le> length (a_subject a) \<and> length (a_subject a) \<le> 128 \<and>
     (case a_label a of None \<Rightarrow> True | Some l \<Rightarrow> 1 \<le> length l \<and> length l \<le> 128)"

text \<open>The content schema on a typed policy: what \<open>featurePolicyContentSchema\<close> returns satisfies it.\<close>

definition content_valid :: "policy_content \<Rightarrow> bool" where
  "content_valid p \<longleftrightarrow>
     list_all (\<lambda>(k, v). case v of None \<Rightarrow> True | Some n \<Rightarrow> isSafeLimit (Some n)) (g_limits (p_global p)) \<and>
     list_all (\<lambda>(uid, u). uid \<noteq> [] \<and> list_all (\<lambda>(c, b). \<not> b) (u_capabilities u) \<and>
       list_all (\<lambda>(k, n). isSafeLimit (Some n)) (u_limits u)) (p_universities p)"

record publication =
  pb_base :: js_number
  pb_policy :: policy_content
  pb_reason :: string
  pb_actor :: admin_actor

datatype store_error =
    SchemaError
  | Corrupt
  | RevisionExists
  | Core hyeboard_error

text \<open>\<open>publicationSchema.parse\<close>: the reason comes out trimmed.\<close>

definition parsePublication :: "publication \<Rightarrow> store_error + publication" where
  "parsePublication i = (
     if isSafeCeiling (Some (pb_base i)) \<and> content_valid (pb_policy i) \<and>
        1 \<le> length (js_trim (pb_reason i)) \<and> length (js_trim (pb_reason i)) \<le> 500 \<and> adminActorSchema (pb_actor i)
     then Inr (i\<lparr>pb_reason := js_trim (pb_reason i)\<rparr>) else Inl SchemaError)"

record snapshot =
  s_policy :: policy_content
  s_revision :: int

record audit_entry =
  e_revision :: int
  e_base :: int
  e_actor :: admin_actor
  e_reason :: string
  e_publishedAt :: int
  e_snapshot :: snapshot

definition snapshotSchema :: "snapshot \<Rightarrow> bool" where
  "snapshotSchema s \<longleftrightarrow> content_valid (s_policy s) \<and> safe_integer (s_revision s) \<and> 0 \<le> s_revision s"

definition auditEntrySchema :: "audit_entry \<Rightarrow> bool" where
  "auditEntrySchema e \<longleftrightarrow> pos_safe (e_revision e) \<and> safe_integer (e_base e) \<and> 0 \<le> e_base e \<and> adminActorSchema (e_actor e) \<and>
     js_trim (e_reason e) = e_reason e \<and> 1 \<le> length (e_reason e) \<and> length (e_reason e) \<le> 500 \<and> snapshotSchema (e_snapshot e)"

definition policy_conflict :: "int \<Rightarrow> hyeboard_error" where
  "policy_conflict current = \<lparr>err_code = ''ADMIN_POLICY_CONFLICT'', err_message = ''Feature policy changed before publication.'',
     err_status = 409, err_details = [(''currentRevision'', JInt current)]\<rparr>"

definition invalidHistory :: hyeboard_error where
  "invalidHistory = \<lparr>err_code = ''ADMIN_POLICY_INVALID'', err_message = ''Feature policy history request is invalid.'',
     err_status = 400, err_details = []\<rparr>"

definition entry_of :: "publication \<Rightarrow> int \<Rightarrow> int \<Rightarrow> store_error + audit_entry" where
  "entry_of p revision now = (
     let e = \<lparr>e_revision = revision, e_base = whole (pb_base p), e_actor = pb_actor p, e_reason = pb_reason p,
              e_publishedAt = now, e_snapshot = \<lparr>s_policy = pb_policy p, s_revision = revision\<rparr>\<rparr>
     in if auditEntrySchema e then Inr e else Inl SchemaError)"

record history_input =
  h_before :: "js_number option"
  h_limit :: js_number

record history_page =
  hp_items :: "audit_entry list"
  hp_next :: "int option"

definition MAX_HISTORY_LIMIT :: int where "MAX_HISTORY_LIMIT = 100"

definition positive_safe :: "js_number \<Rightarrow> bool" where
  "positive_safe v \<longleftrightarrow> (case v of Whole n \<Rightarrow> safe_integer n \<and> 0 < n | NotWhole \<Rightarrow> False)"

definition parseHistoryInput :: "history_input \<Rightarrow> store_error + (int option \<times> nat)" where
  "parseHistoryInput i = (
     if \<not> positive_safe (h_limit i) then Inl (Core invalidHistory)
     else if (case h_before i of None \<Rightarrow> False | Some b \<Rightarrow> \<not> positive_safe b) then Inl (Core invalidHistory)
     else Inr (map_option whole (h_before i), nat (min (whole (h_limit i)) MAX_HISTORY_LIMIT)))"

section \<open>The in-memory store\<close>

record memory_store =
  m_snapshot :: snapshot
  m_entries :: "audit_entry list"

definition empty_snapshot :: snapshot where
  "empty_snapshot = \<lparr>s_policy = emptyPolicy, s_revision = 0\<rparr>"

definition empty_memory :: memory_store where
  "empty_memory = \<lparr>m_snapshot = empty_snapshot, m_entries = []\<rparr>"

definition memory_publish :: "memory_store \<Rightarrow> int \<Rightarrow> publication \<Rightarrow> store_error + (audit_entry \<times> memory_store)" where
  "memory_publish st now input = sbind (parsePublication input) (\<lambda>parsed.
     let current = s_revision (m_snapshot st) in
     if pb_base parsed \<noteq> Whole current then Inl (Core (policy_conflict current))
     else sbind (entry_of parsed (current + 1) now) (\<lambda>e.
       Inr (e, \<lparr>m_snapshot = e_snapshot e, m_entries = e # m_entries st\<rparr>)))"

definition memory_history :: "memory_store \<Rightarrow> history_input \<Rightarrow> store_error + history_page" where
  "memory_history st input = sbind (parseHistoryInput input) (\<lambda>(before, limit).
     let eligible = (case before of None \<Rightarrow> m_entries st | Some b \<Rightarrow> filter (\<lambda>e. e_revision e < b) (m_entries st));
         items = take limit eligible
     in Inr \<lparr>hp_items = items,
          hp_next = (if length eligible > length items \<and> items \<noteq> [] then Some (e_revision (last items)) else None)\<rparr>)"

definition memory_revision :: "memory_store \<Rightarrow> js_number \<Rightarrow> audit_entry option" where
  "memory_revision st r = (if \<not> positive_safe r then None else List.find (\<lambda>e. e_revision e = whole r) (m_entries st))"

section \<open>The tables of the SQL stores\<close>

record history_row =
  r_revision :: int
  r_base_revision :: int
  r_actor :: admin_actor
  r_reason :: string
  r_published_at :: int
  r_snapshot :: snapshot

record policy_tables =
  c_revision :: int
  c_snapshot :: snapshot
  history_rows :: "history_row list"

definition empty_policy_tables :: policy_tables where
  "empty_policy_tables = \<lparr>c_revision = 0, c_snapshot = empty_snapshot, history_rows = []\<rparr>"

definition row_of :: "audit_entry \<Rightarrow> history_row" where
  "row_of e = \<lparr>r_revision = e_revision e, r_base_revision = e_base e, r_actor = e_actor e, r_reason = e_reason e,
     r_published_at = e_publishedAt e, r_snapshot = e_snapshot e\<rparr>"

text \<open>\<open>INSERT\<close> fails on an existing primary key; \<open>UPDATE ... WHERE revision = ?\<close> does nothing on a mismatch.\<close>

definition insert_history :: "policy_tables \<Rightarrow> history_row \<Rightarrow> store_error + policy_tables" where
  "insert_history db row = (if r_revision row \<in> r_revision ` set (history_rows db) then Inl RevisionExists
     else Inr (db\<lparr>history_rows := history_rows db @ [row]\<rparr>))"

definition update_current :: "policy_tables \<Rightarrow> audit_entry \<Rightarrow> policy_tables" where
  "update_current db e = (if c_revision db = e_base e
     then db\<lparr>c_revision := e_revision e, c_snapshot := e_snapshot e\<rparr> else db)"

text \<open>\<open>SELECT ... WHERE revision < ? ORDER BY revision DESC LIMIT ?\<close>\<close>

definition select_before :: "policy_tables \<Rightarrow> int \<Rightarrow> nat \<Rightarrow> history_row list" where
  "select_before db b n = take n (rev (sort_key r_revision (filter (\<lambda>r. r_revision r < b) (history_rows db))))"

definition parseEntry :: "history_row \<Rightarrow> store_error + audit_entry" where
  "parseEntry r = (
     let e = \<lparr>e_revision = r_revision r, e_base = r_base_revision r, e_actor = r_actor r, e_reason = r_reason r,
              e_publishedAt = r_published_at r, e_snapshot = r_snapshot r\<rparr>
     in if \<not> auditEntrySchema e then Inl SchemaError
        else if s_revision (e_snapshot e) \<noteq> e_revision e \<or> e_base e \<noteq> e_revision e - 1 then Inl Corrupt
        else Inr e)"

definition page_of_rows :: "history_row list \<Rightarrow> nat \<Rightarrow> store_error + history_page" where
  "page_of_rows rows limit = sbind (traverse parseEntry (take limit rows)) (\<lambda>items.
     Inr \<lparr>hp_items = items,
       hp_next = (if length rows > limit \<and> items \<noteq> [] then Some (e_revision (last items)) else None)\<rparr>)"

section \<open>The durable object\<close>

definition do_current :: "policy_tables \<Rightarrow> store_error + snapshot" where
  "do_current db = (if \<not> snapshotSchema (c_snapshot db) then Inl SchemaError
     else if s_revision (c_snapshot db) \<noteq> c_revision db then Inl Corrupt else Inr (c_snapshot db))"

definition do_publish :: "policy_tables \<Rightarrow> int \<Rightarrow> publication \<Rightarrow> store_error + (audit_entry \<times> policy_tables)" where
  "do_publish db now input = sbind (parsePublication input) (\<lambda>parsed.
     sbind (do_current db) (\<lambda>current.
     if Whole (s_revision current) \<noteq> pb_base parsed then Inl (Core (policy_conflict (s_revision current)))
     else sbind (entry_of parsed (s_revision current + 1) now) (\<lambda>e.
       sbind (insert_history db (row_of e)) (\<lambda>db'. Inr (e, update_current db' e)))))"

definition do_history :: "policy_tables \<Rightarrow> history_input \<Rightarrow> store_error + history_page" where
  "do_history db input = sbind (parseHistoryInput input) (\<lambda>(before, limit).
     page_of_rows (select_before db (case before of None \<Rightarrow> max_safe_integer | Some b \<Rightarrow> b) (limit + 1)) limit)"

definition do_revision :: "policy_tables \<Rightarrow> js_number \<Rightarrow> store_error + audit_entry option" where
  "do_revision db r = (if \<not> positive_safe r then Inr None
     else case filter (\<lambda>row. r_revision row = whole r) (history_rows db) of
       [] \<Rightarrow> Inr None
     | row # _ \<Rightarrow> sbind (parseEntry row) (\<lambda>e. Inr (Some e)))"

section \<open>The SQLite store\<close>

text \<open>
  The SQLite store runs the same statements between \<open>BEGIN IMMEDIATE\<close> and \<open>COMMIT\<close>; an
  exception rolls back to the tables the transaction began with.
\<close>

definition sqlite_readCurrent :: "policy_tables \<Rightarrow> store_error + snapshot" where
  "sqlite_readCurrent db = (if \<not> snapshotSchema (c_snapshot db) then Inl SchemaError
     else if s_revision (c_snapshot db) \<noteq> c_revision db then Inl Corrupt else Inr (c_snapshot db))"

definition sqlite_transaction ::
  "policy_tables \<Rightarrow> (policy_tables \<Rightarrow> (store_error + 'a) \<times> policy_tables) \<Rightarrow> (store_error + 'a) \<times> policy_tables" where
  "sqlite_transaction db body = (case body db of (Inl e, _) \<Rightarrow> (Inl e, db) | (Inr x, db') \<Rightarrow> (Inr x, db'))"

definition sqlite_publish_body :: "publication \<Rightarrow> int \<Rightarrow> policy_tables \<Rightarrow> (store_error + audit_entry) \<times> policy_tables" where
  "sqlite_publish_body parsed now db = (case sqlite_readCurrent db of Inl e \<Rightarrow> (Inl e, db)
   | Inr current \<Rightarrow>
     if Whole (s_revision current) \<noteq> pb_base parsed then (Inl (Core (policy_conflict (s_revision current))), db)
     else case entry_of parsed (s_revision current + 1) now of Inl e \<Rightarrow> (Inl e, db)
     | Inr e \<Rightarrow> (case insert_history db (row_of e) of Inl x \<Rightarrow> (Inl x, db)
       | Inr db' \<Rightarrow> (Inr e, update_current db' e)))"

definition sqlite_publish :: "policy_tables \<Rightarrow> int \<Rightarrow> publication \<Rightarrow> (store_error + audit_entry) \<times> policy_tables" where
  "sqlite_publish db now input = (case parsePublication input of Inl e \<Rightarrow> (Inl e, db)
     | Inr parsed \<Rightarrow> sqlite_transaction db (sqlite_publish_body parsed now))"

definition sqlite_history :: "policy_tables \<Rightarrow> history_input \<Rightarrow> store_error + history_page" where
  "sqlite_history db input = sbind (parseHistoryInput input) (\<lambda>(before, limit).
     page_of_rows (select_before db (case before of None \<Rightarrow> max_safe_integer | Some b \<Rightarrow> b) (limit + 1)) limit)"

definition sqlite_revision :: "policy_tables \<Rightarrow> js_number \<Rightarrow> store_error + audit_entry option" where
  "sqlite_revision db r = (if \<not> positive_safe r then Inr None
     else case filter (\<lambda>row. r_revision row = whole r) (history_rows db) of
       [] \<Rightarrow> Inr None
     | row # _ \<Rightarrow> sbind (parseEntry row) (\<lambda>e. Inr (Some e)))"

section \<open>Requests of a store\<close>

datatype store_op =
    SCurrent
  | SPublish int publication
  | SHistory history_input
  | SRevision js_number

datatype store_reply =
    RSnapshot snapshot
  | REntry audit_entry
  | RPage history_page
  | RFound "audit_entry option"

definition reply_with :: "('a \<Rightarrow> store_reply) \<Rightarrow> store_error + 'a \<Rightarrow> store_error + store_reply" where
  "reply_with f r = sbind r (\<lambda>x. Inr (f x))"

definition published :: "'s \<Rightarrow> store_error + (audit_entry \<times> 's) \<Rightarrow> (store_error + store_reply) \<times> 's" where
  "published st r = (case r of Inl e \<Rightarrow> (Inl e, st) | Inr (e, st') \<Rightarrow> (Inr (REntry e), st'))"

fun memory_step :: "memory_store \<Rightarrow> store_op \<Rightarrow> (store_error + store_reply) \<times> memory_store" where
  "memory_step st SCurrent = (Inr (RSnapshot (m_snapshot st)), st)"
| "memory_step st (SPublish now p) = published st (memory_publish st now p)"
| "memory_step st (SHistory i) = (reply_with RPage (memory_history st i), st)"
| "memory_step st (SRevision r) = (Inr (RFound (memory_revision st r)), st)"

fun policy_do_step :: "policy_tables \<Rightarrow> store_op \<Rightarrow> (store_error + store_reply) \<times> policy_tables" where
  "policy_do_step db SCurrent = (reply_with RSnapshot (do_current db), db)"
| "policy_do_step db (SPublish now p) = published db (do_publish db now p)"
| "policy_do_step db (SHistory i) = (reply_with RPage (do_history db i), db)"
| "policy_do_step db (SRevision r) = (reply_with RFound (do_revision db r), db)"

fun sqlite_step :: "policy_tables \<Rightarrow> store_op \<Rightarrow> (store_error + store_reply) \<times> policy_tables" where
  "sqlite_step db SCurrent = (reply_with RSnapshot (sqlite_readCurrent db), db)"
| "sqlite_step db (SPublish now p) = (case sqlite_publish db now p of (r, db') \<Rightarrow> (reply_with REntry r, db'))"
| "sqlite_step db (SHistory i) = (reply_with RPage (sqlite_history db i), db)"
| "sqlite_step db (SRevision r) = (reply_with RFound (sqlite_revision db r), db)"

end
