(* ===== verification/PolicyRuntime.thy ===== *)
theory PolicyRuntime
  imports PolicyStore
begin

text \<open>
  What surrounds the policy stores: the login limiter of the policy durable object, the
  revision streams (in process and in the durable object), and the cache of
  \<open>FeaturePolicyRuntime\<close>, whose asynchronous reads and publications appear as the steps that
  complete them, with whatever the store answered.
\<close>

section \<open>Admin login attempts\<close>

definition MAX_LOGIN_WINDOW_BUCKETS :: nat where "MAX_LOGIN_WINDOW_BUCKETS = 10000"

record login_window =
  lw_count :: int
  lw_resetAt :: int

type_synonym login_table = "(string \<times> login_window) list"

datatype login_result = LoginAllowed | LoginDenied int

datatype login_error = BadBucket | BadLoginLimit | BadLoginWindow

definition earliest_reset :: "login_table \<Rightarrow> int" where
  "earliest_reset rows = Min (lw_resetAt ` snd ` set rows)"

definition consumeAdminLoginAttempt ::
  "login_table \<Rightarrow> int \<Rightarrow> string \<Rightarrow> int \<Rightarrow> int \<Rightarrow> (login_error + login_result) \<times> login_table" where
  "consumeAdminLoginAttempt rows now bucket limit windowMs = (
     if \<not> hex_n 64 bucket then (Inl BadBucket, rows)
     else if \<not> safe_integer limit \<or> limit \<le> 0 then (Inl BadLoginLimit, rows)
     else if \<not> safe_integer windowMs \<or> windowMs \<le> 0 then (Inl BadLoginWindow, rows)
     else if \<not> safe_integer (now + windowMs) then (Inl BadLoginWindow, rows)
     else let live = filter (\<lambda>(_, w). lw_resetAt w > now) rows in
       case map_of live bucket of
         Some w \<Rightarrow>
           if lw_count w \<ge> limit then (Inr (LoginDenied (retry_after (lw_resetAt w) now)), live)
           else (Inr LoginAllowed, AList.update bucket (w\<lparr>lw_count := lw_count w + 1\<rparr>) live)
       | None \<Rightarrow>
           if length live \<ge> MAX_LOGIN_WINDOW_BUCKETS then (Inr (LoginDenied (retry_after (earliest_reset live) now)), live)
           else (Inr LoginAllowed, live @ [(bucket, \<lparr>lw_count = 1, lw_resetAt = now + windowMs\<rparr>)]))"

section \<open>Revision streams\<close>

definition MAX_FEATURE_POLICY_SSE_SUBSCRIBERS :: nat where
  "MAX_FEATURE_POLICY_SSE_SUBSCRIBERS = 256"

definition featurePolicyStreamLimited :: hyeboard_error where
  "featurePolicyStreamLimited = \<lparr>err_code = ''FEATURE_POLICY_STREAM_LIMITED'',
     err_message = ''Too many feature policy event streams.'', err_status = 503, err_details = []\<rparr>"

text \<open>
  An open stream: a handle of its own, the identifier it was opened under, the revision it
  has seen last and the revisions written to it so far.
\<close>

record subscriber =
  sub_handle :: nat
  sub_id :: "string option"
  sub_seen :: int
  sub_sent :: "int list"

definition isRevision :: "js_number option \<Rightarrow> bool" where
  "isRevision v = isSafeCeiling v"

definition deliver :: "int \<Rightarrow> subscriber \<Rightarrow> subscriber" where
  "deliver r s = (if r \<le> sub_seen s then s else s\<lparr>sub_seen := r, sub_sent := sub_sent s @ [r]\<rparr>)"

definition new_subscriber :: "nat \<Rightarrow> string option \<Rightarrow> js_number option \<Rightarrow> int \<Rightarrow> subscriber" where
  "new_subscriber handle i lastRev current = (
     let seen = (if isRevision lastRev then whole (the lastRev) else -1) in
     deliver current \<lparr>sub_handle = handle, sub_id = i, sub_seen = seen, sub_sent = []\<rparr>)"

text \<open>The in-process events: the highest revision published and the open streams.\<close>

record policy_events =
  ev_highest :: int
  ev_streams :: "subscriber list"

definition no_events :: policy_events where
  "no_events = \<lparr>ev_highest = -1, ev_streams = []\<rparr>"

definition events_publish :: "policy_events \<Rightarrow> js_number \<Rightarrow> policy_events" where
  "events_publish ev r = (if \<not> isRevision (Some r) then ev
     else ev\<lparr>ev_highest := max (ev_highest ev) (whole r), ev_streams := map (deliver (whole r)) (ev_streams ev)\<rparr>)"

definition events_stream ::
  "policy_events \<Rightarrow> nat \<Rightarrow> js_number option \<Rightarrow> int option \<Rightarrow> bool \<Rightarrow> hyeboard_error + policy_events" where
  "events_stream ev handle lastRev current aborted = (
     if length (ev_streams ev) \<ge> MAX_FEATURE_POLICY_SSE_SUBSCRIBERS then Inl featurePolicyStreamLimited
     else if aborted then Inr ev
     else let cur = max (case current of None \<Rightarrow> ev_highest ev | Some c \<Rightarrow> c) (ev_highest ev) in
       Inr (ev\<lparr>ev_streams := ev_streams ev @ [new_subscriber handle None lastRev cur]\<rparr>))"

definition events_cancel :: "policy_events \<Rightarrow> nat \<Rightarrow> policy_events" where
  "events_cancel ev handle = ev\<lparr>ev_streams := filter (\<lambda>s. sub_handle s \<noteq> handle) (ev_streams ev)\<rparr>"

definition events_close :: "policy_events \<Rightarrow> policy_events" where
  "events_close ev = ev\<lparr>ev_streams := []\<rparr>"

text \<open>The durable object: the same with the stored revision (non-negative by its schema) in place of the highest one.\<close>

definition do_publishRevision :: "subscriber list \<Rightarrow> js_number \<Rightarrow> subscriber list" where
  "do_publishRevision subs r = (if \<not> isRevision (Some r) then subs else map (deliver (whole r)) subs)"

definition do_subscribe ::
  "subscriber list \<Rightarrow> nat \<Rightarrow> nat \<Rightarrow> js_number option \<Rightarrow> string option \<Rightarrow> js_number option \<Rightarrow> hyeboard_error + subscriber list" where
  "do_subscribe subs stored handle lastRev i current = (
     if length subs \<ge> MAX_FEATURE_POLICY_SSE_SUBSCRIBERS then Inl featurePolicyStreamLimited
     else let cur = max (if isRevision current then whole (the current) else -1) (int stored) in
       Inr (subs @ [new_subscriber handle i lastRev cur]))"

definition do_unsubscribe :: "subscriber list \<Rightarrow> string \<Rightarrow> subscriber list" where
  "do_unsubscribe subs i = filter (\<lambda>s. sub_id s \<noteq> Some i) subs"

definition do_cancel :: "subscriber list \<Rightarrow> nat \<Rightarrow> subscriber list" where
  "do_cancel subs handle = filter (\<lambda>s. sub_handle s \<noteq> handle) subs"

datatype stream_op =
    EPublish js_number
  | EStream nat "js_number option" "int option" bool
  | ECancel nat
  | EClose

fun events_step :: "policy_events \<Rightarrow> stream_op \<Rightarrow> policy_events" where
  "events_step ev (EPublish r) = events_publish ev r"
| "events_step ev (EStream h l c a) = (case events_stream ev h l c a of Inl _ \<Rightarrow> ev | Inr ev' \<Rightarrow> ev')"
| "events_step ev (ECancel h) = events_cancel ev h"
| "events_step ev EClose = events_close ev"

datatype do_stream_op =
    DPublish js_number
  | DSubscribe nat nat "js_number option" "string option" "js_number option"
  | DUnsubscribe string
  | DCancel nat

fun do_stream_step :: "subscriber list \<Rightarrow> do_stream_op \<Rightarrow> subscriber list" where
  "do_stream_step subs (DPublish r) = do_publishRevision subs r"
| "do_stream_step subs (DSubscribe st h l i c) = (case do_subscribe subs st h l i c of Inl _ \<Rightarrow> subs | Inr s \<Rightarrow> s)"
| "do_stream_step subs (DUnsubscribe i) = do_unsubscribe subs i"
| "do_stream_step subs (DCancel h) = do_cancel subs h"

section \<open>The runtime\<close>

definition featurePolicyUnavailable :: hyeboard_error where
  "featurePolicyUnavailable = \<lparr>err_code = ''FEATURE_POLICY_UNAVAILABLE'', err_message = ''Feature policy is unavailable.'',
     err_status = 503, err_details = []\<rparr>"

definition revision_not_found :: hyeboard_error where
  "revision_not_found = \<lparr>err_code = ''ADMIN_POLICY_REVISION_NOT_FOUND'', err_message = ''Feature policy revision was not found.'',
     err_status = 404, err_details = []\<rparr>"

text \<open>\<open>validatePolicy(policy, listUniversities(), {})\<close> on a policy that is typed already.\<close>

definition validate_typed :: "string list \<Rightarrow> policy_content \<Rightarrow> hyeboard_error + policy_content" where
  "validate_typed known p = (
     if \<not> content_valid p then Inl (invalidPolicy ''$'')
     else case List.find (\<lambda>(uid, _). uid \<notin> set known) (p_universities p) of
       Some (uid, _) \<Rightarrow> Inl (invalidPolicy (''universities.'' @ safeSegment uid))
     | None \<Rightarrow> Inr p)"

definition validateSnapshot :: "string list \<Rightarrow> snapshot \<Rightarrow> hyeboard_error + snapshot" where
  "validateSnapshot known s = (if \<not> snapshotSchema s then Inl (invalidPolicy ''$'')
     else sbind (validate_typed known (s_policy s)) (\<lambda>_. Inr s))"

record policy_runtime =
  rt_cached :: "snapshot option"
  rt_highest :: int

definition fresh_runtime :: policy_runtime where
  "fresh_runtime = \<lparr>rt_cached = None, rt_highest = 0\<rparr>"

definition invalidate :: "policy_runtime \<Rightarrow> js_number \<Rightarrow> policy_runtime" where
  "invalidate rt r = (if \<not> isRevision (Some r) then rt
     else rt\<lparr>rt_highest := max (rt_highest rt) (whole r),
             rt_cached := (case rt_cached rt of Some c \<Rightarrow> if whole r > s_revision c then None else Some c | None \<Rightarrow> None)\<rparr>)"

definition readCurrent ::
  "string list \<Rightarrow> policy_runtime \<Rightarrow> store_error + snapshot \<Rightarrow> snapshot option \<times> policy_runtime" where
  "readCurrent known rt answer = (case answer of Inl _ \<Rightarrow> (None, rt)
   | Inr s \<Rightarrow> (case validateSnapshot known s of Inl _ \<Rightarrow> (None, rt)
     | Inr v \<Rightarrow> (Some v, if s_revision v \<ge> rt_highest rt then rt\<lparr>rt_cached := Some v\<rparr> else rt)))"

definition runtime_current ::
  "string list \<Rightarrow> policy_runtime \<Rightarrow> store_error + snapshot \<Rightarrow> (hyeboard_error + snapshot) \<times> policy_runtime" where
  "runtime_current known rt answer = (case readCurrent known rt answer of
     (Some s, rt') \<Rightarrow> (Inr s, rt')
   | (None, rt') \<Rightarrow> ((case rt_cached rt' of Some c \<Rightarrow> Inr c | None \<Rightarrow> Inl featurePolicyUnavailable), rt'))"

definition currentAuthoritative ::
  "string list \<Rightarrow> policy_runtime \<Rightarrow> store_error + snapshot \<Rightarrow> (hyeboard_error + snapshot) \<times> policy_runtime" where
  "currentAuthoritative known rt answer = (case readCurrent known rt answer of
     (Some s, rt') \<Rightarrow> (Inr s, rt') | (None, rt') \<Rightarrow> (Inl featurePolicyUnavailable, rt'))"

definition store_failure :: "store_error \<Rightarrow> hyeboard_error" where
  "store_failure e = (case e of Core c \<Rightarrow> c | _ \<Rightarrow> featurePolicyUnavailable)"

text \<open>
  The completion of a publication: what the store answered, and whether the notification
  reached this runtime's own listener.
\<close>

definition runtime_published ::
  "policy_runtime \<Rightarrow> store_error + audit_entry \<Rightarrow> bool \<Rightarrow> (hyeboard_error + audit_entry) \<times> policy_runtime" where
  "runtime_published rt answer notified = (case answer of
     Inl e \<Rightarrow> (Inl (store_failure e), rt)
   | Inr e \<Rightarrow>
       (let rt1 = (if e_revision e \<ge> rt_highest rt then rt\<lparr>rt_cached := Some (e_snapshot e)\<rparr> else rt)
        in (Inr e, if notified then invalidate rt1 (Whole (e_revision e)) else rt1)))"

datatype runtime_op =
    OInvalidate js_number
  | OCurrent "store_error + snapshot"
  | OAuthoritative "store_error + snapshot"
  | OPublished "store_error + audit_entry" bool

fun runtime_step :: "string list \<Rightarrow> policy_runtime \<Rightarrow> runtime_op \<Rightarrow> policy_runtime" where
  "runtime_step known rt (OInvalidate r) = invalidate rt r"
| "runtime_step known rt (OCurrent a) = snd (runtime_current known rt a)"
| "runtime_step known rt (OAuthoritative a) = snd (currentAuthoritative known rt a)"
| "runtime_step known rt (OPublished a n) = snd (runtime_published rt a n)"

text \<open>
  Publication and rollback on the tables of the durable object. A schema failure of the input
  leaves as the exception of the schema library (\<open>None\<close>).
\<close>

definition runtime_publish ::
  "string list \<Rightarrow> policy_tables \<Rightarrow> int \<Rightarrow> publication \<Rightarrow> (hyeboard_error option + audit_entry) \<times> policy_tables" where
  "runtime_publish known db now p = (case validate_typed known (pb_policy p) of
     Inl e \<Rightarrow> (Inl (Some e), db)
   | Inr policy \<Rightarrow> (case parsePublication (p\<lparr>pb_policy := policy\<rparr>) of
       Inl _ \<Rightarrow> (Inl None, db)
     | Inr parsed \<Rightarrow> (case do_publish db now parsed of
         Inl e \<Rightarrow> (Inl (Some (store_failure e)), db)
       | Inr (e, db') \<Rightarrow> (Inr e, db'))))"

record rollback_input =
  rb_base :: js_number
  rb_target :: js_number
  rb_reason :: string
  rb_actor :: admin_actor

definition rollbackSchema :: "rollback_input \<Rightarrow> bool" where
  "rollbackSchema i \<longleftrightarrow> isSafeCeiling (Some (rb_base i)) \<and> positive_safe (rb_target i) \<and>
     1 \<le> length (js_trim (rb_reason i)) \<and> length (js_trim (rb_reason i)) \<le> 500 \<and> adminActorSchema (rb_actor i)"

definition rollback ::
  "string list \<Rightarrow> policy_tables \<Rightarrow> int \<Rightarrow> rollback_input \<Rightarrow> (hyeboard_error option + audit_entry) \<times> policy_tables" where
  "rollback known db now i = (
     if \<not> rollbackSchema i then (Inl None, db)
     else case do_revision db (rb_target i) of
       Inl e \<Rightarrow> (Inl (Some (store_failure e)), db)
     | Inr None \<Rightarrow> (Inl (Some revision_not_found), db)
     | Inr (Some target) \<Rightarrow> (case validateSnapshot known (e_snapshot target) of
         Inl e \<Rightarrow> (Inl (Some e), db)
       | Inr s \<Rightarrow> runtime_publish known db now \<lparr>pb_base = rb_base i, pb_policy = s_policy s,
             pb_reason = js_trim (rb_reason i), pb_actor = rb_actor i\<rparr>))"

end
