(* ===== verification/PolicyStoreLaws.thy ===== *)
theory PolicyStoreLaws
  imports PolicyStore
begin

text \<open>
  The contract of a versioned store: the log of its publications, oldest first. Every store
  of the program is interpreted as an implementation of it, so all of them answer every
  sequence of requests alike.
\<close>

section \<open>The log\<close>

definition current_of :: "audit_entry list \<Rightarrow> snapshot" where
  "current_of log = (if log = [] then empty_snapshot else e_snapshot (last log))"

definition log_publish :: "audit_entry list \<Rightarrow> int \<Rightarrow> publication \<Rightarrow> store_error + audit_entry" where
  "log_publish log now p = sbind (parsePublication p) (\<lambda>parsed.
     if pb_base parsed \<noteq> Whole (int (length log)) then Inl (Core (policy_conflict (int (length log))))
     else entry_of parsed (int (length log) + 1) now)"

definition older :: "int option \<Rightarrow> audit_entry list \<Rightarrow> audit_entry list" where
  "older before log = (case before of None \<Rightarrow> rev log | Some b \<Rightarrow> rev (take (nat (b - 1)) log))"

definition page_of :: "audit_entry list \<Rightarrow> nat \<Rightarrow> history_page" where
  "page_of eligible limit = (let items = take limit eligible in \<lparr>hp_items = items,
     hp_next = (if length items < length eligible \<and> items \<noteq> [] then Some (e_revision (last items)) else None)\<rparr>)"

definition log_revision :: "audit_entry list \<Rightarrow> js_number \<Rightarrow> audit_entry option" where
  "log_revision log r = (if positive_safe r \<and> nat (whole r) \<le> length log then Some (log ! (nat (whole r) - 1)) else None)"

fun log_reply :: "audit_entry list \<Rightarrow> store_op \<Rightarrow> store_error + store_reply" where
  "log_reply log SCurrent = Inr (RSnapshot (current_of log))"
| "log_reply log (SPublish now p) = reply_with REntry (log_publish log now p)"
| "log_reply log (SHistory i) = reply_with RPage (sbind (parseHistoryInput i) (\<lambda>(before, limit). Inr (page_of (older before log) limit)))"
| "log_reply log (SRevision r) = Inr (RFound (log_revision log r))"

fun log_step :: "audit_entry list \<Rightarrow> store_op \<Rightarrow> audit_entry list" where
  "log_step log (SPublish now p) = (case log_publish log now p of Inr e \<Rightarrow> log @ [e] | Inl _ \<Rightarrow> log)"
| "log_step log _ = log"

definition wf_log :: "audit_entry list \<Rightarrow> bool" where
  "wf_log log \<longleftrightarrow> (\<forall>i < length log. e_revision (log ! i) = int i + 1 \<and> e_base (log ! i) = int i \<and>
     s_revision (e_snapshot (log ! i)) = int i + 1 \<and> auditEntrySchema (log ! i))"

lemma wf_log_Nil [simp]: "wf_log []"
  by (simp add: wf_log_def)

lemma log_publish_entry:
  assumes "log_publish log now p = Inr e"
  shows "e_revision e = int (length log) + 1" "e_base e = int (length log)" "s_revision (e_snapshot e) = int (length log) + 1"
    "auditEntrySchema e" "e_publishedAt e = now" "s_policy (e_snapshot e) = pb_policy p" "e_actor e = pb_actor p"
  using assms
  by (auto simp: log_publish_def sbind_Inr_iff entry_of_def parsePublication_def Let_def split: if_splits)

lemma wf_log_snoc: "wf_log log \<Longrightarrow> log_publish log now p = Inr e \<Longrightarrow> wf_log (log @ [e])"
  using log_publish_entry by (auto simp: wf_log_def nth_append less_Suc_eq)

lemma wf_log_step: "wf_log log \<Longrightarrow> wf_log (log_step log op)"
  by (cases op) (auto simp: wf_log_snoc split: sum.splits)

lemma empty_snapshot_ok: "snapshotSchema empty_snapshot" "s_revision empty_snapshot = 0"
  by (simp_all add: empty_snapshot_def emptyPolicy_def snapshotSchema_def content_valid_def safe_integer_def max_safe_integer_def)

lemma wf_log_last: "wf_log (log @ [e]) \<longleftrightarrow> wf_log log \<and> e_revision e = int (length log) + 1 \<and>
    e_base e = int (length log) \<and> s_revision (e_snapshot e) = int (length log) + 1 \<and> auditEntrySchema e"
  by (auto simp: wf_log_def nth_append less_Suc_eq)

lemma wf_log_current:
  "wf_log log \<Longrightarrow> s_revision (current_of log) = int (length log) \<and> snapshotSchema (current_of log)"
  by (cases log rule: rev_cases) (auto simp: wf_log_last current_of_def empty_snapshot_ok auditEntrySchema_def)

lemma wf_log_revisions: "wf_log log \<Longrightarrow> map e_revision log = map (\<lambda>i. int i + 1) [0..<length log]"
  by (auto simp: wf_log_def intro: nth_equalityI)

text \<open>The entries older than a revision are a prefix of the log.\<close>

lemma filter_older: "wf_log log \<Longrightarrow> filter (\<lambda>e. e_revision e < b) log = take (nat (b - 1)) log"
  by (induction log rule: rev_induct) (auto simp: wf_log_last)

lemma filter_revision:
  "wf_log log \<Longrightarrow> 0 < r \<Longrightarrow> filter (\<lambda>e. e_revision e = r) log = (if nat r \<le> length log then [log ! (nat r - 1)] else [])"
  by (induction log rule: rev_induct) (auto simp: wf_log_last nth_append)

lemma older_filter: "wf_log log \<Longrightarrow> older (Some b) log = rev (filter (\<lambda>e. e_revision e < b) log)"
  by (simp add: older_def filter_older)

section \<open>The interface\<close>

text \<open>
  A store that behaves as its log while fewer than \<open>2 ^ 53\<close> revisions are published: it
  answers as the log does, and its log grows as the log does.
\<close>

locale versioned_store =
  fixes step :: "'s \<Rightarrow> store_op \<Rightarrow> (store_error + store_reply) \<times> 's"
    and inv :: "'s \<Rightarrow> bool"
    and log :: "'s \<Rightarrow> audit_entry list"
  assumes inv_log: "inv s \<Longrightarrow> wf_log (log s)"
    and reply_law: "inv s \<Longrightarrow> int (length (log s)) < max_safe_integer \<Longrightarrow> fst (step s op) = log_reply (log s) op"
    and log_law: "inv s \<Longrightarrow> int (length (log s)) < max_safe_integer \<Longrightarrow>
      inv (snd (step s op)) \<and> log (snd (step s op)) = log_step (log s) op"

fun store_replies :: "('s \<Rightarrow> store_op \<Rightarrow> (store_error + store_reply) \<times> 's) \<Rightarrow> 's \<Rightarrow> store_op list \<Rightarrow> (store_error + store_reply) list" where
  "store_replies step s [] = []"
| "store_replies step s (op # ops) = fst (step s op) # store_replies step (snd (step s op)) ops"

fun log_replies :: "audit_entry list \<Rightarrow> store_op list \<Rightarrow> (store_error + store_reply) list" where
  "log_replies log [] = []"
| "log_replies log (op # ops) = log_reply log op # log_replies (log_step log op) ops"

lemma log_step_length: "length (log_step log op) \<le> Suc (length log)"
  by (cases op) (auto split: sum.splits)

context versioned_store
begin

lemma replies_law:
  "inv s \<Longrightarrow> int (length (log s) + length ops) \<le> max_safe_integer \<Longrightarrow>
   store_replies step s ops = log_replies (log s) ops"
proof (induction ops arbitrary: s)
  case (Cons op ops)
  then have "int (length (log s)) < max_safe_integer" by simp
  with Cons.prems(1) have "fst (step s op) = log_reply (log s) op" "inv (snd (step s op))"
    "log (snd (step s op)) = log_step (log s) op"
    using reply_law log_law by auto
  then show ?case using Cons.IH [of "snd (step s op)"] Cons.prems(2) log_step_length [of "log s" op] by simp
qed simp

end

section \<open>The memory store\<close>

definition memory_inv :: "memory_store \<Rightarrow> bool" where
  "memory_inv st \<longleftrightarrow> wf_log (rev (m_entries st)) \<and> m_snapshot st = current_of (rev (m_entries st))"

lemma find_filter: "List.find P xs = (case filter P xs of [] \<Rightarrow> None | x # _ \<Rightarrow> Some x)"
  by (induction xs) auto

interpretation memory_log: versioned_store memory_step memory_inv "\<lambda>st. rev (m_entries st)"
proof (unfold_locales, goal_cases)
  case (1 s)
  then show ?case by (simp add: memory_inv_def)
next
  case (2 s op)
  then have wf: "wf_log (rev (m_entries s))" and cur: "m_snapshot s = current_of (rev (m_entries s))"
    by (simp_all add: memory_inv_def)
  show ?case
  proof (cases op)
    case (SPublish now p)
    then show ?thesis using wf_log_current [OF wf]
      by (simp add: memory_publish_def log_publish_def cur published_def reply_with_def sbind_def Let_def split: sum.splits)
  next
    case (SHistory i)
    have "filter (\<lambda>e. e_revision e < b) (m_entries s) = older (Some b) (rev (m_entries s))" for b
      by (simp add: older_filter [OF wf] rev_filter)
    then have "memory_history s i = sbind (parseHistoryInput i) (\<lambda>(before, limit). Inr (page_of (older before (rev (m_entries s))) limit))"
      unfolding memory_history_def page_of_def Let_def
      by (intro arg_cong [of _ _ "sbind (parseHistoryInput i)"] ext) (auto simp: older_def [of None] split: option.splits)
    then show ?thesis using SHistory by simp
  next
    case (SRevision r)
    have "filter (\<lambda>e. e_revision e = n) (m_entries s) = (if nat n \<le> length (m_entries s) then [rev (m_entries s) ! (nat n - 1)] else [])"
      if "0 < n" for n
      using filter_revision [OF wf that] by (simp add: rev_filter [symmetric] split: if_splits)
    then show ?thesis using SRevision
      by (auto simp: memory_revision_def log_revision_def positive_safe_def find_filter split: js_number.splits)
  qed (simp add: cur)
next
  case (3 s op)
  then have wf: "wf_log (rev (m_entries s))" and cur: "m_snapshot s = current_of (rev (m_entries s))"
    by (simp_all add: memory_inv_def)
  show ?case
  proof (cases op)
    case (SPublish now p)
    have m: "memory_publish s now p = sbind (log_publish (rev (m_entries s)) now p)
        (\<lambda>e. Inr (e, \<lparr>m_snapshot = e_snapshot e, m_entries = e # m_entries s\<rparr>))"
      using wf_log_current [OF wf] by (simp add: memory_publish_def log_publish_def cur sbind_def Let_def split: sum.splits)
    show ?thesis
      using 3 wf_log_snoc [OF wf] SPublish
      by (cases "log_publish (rev (m_entries s)) now p") (auto simp: m published_def memory_inv_def current_of_def)
  qed (use 3 in simp_all)
qed

section \<open>The SQL stores\<close>

definition row_entry :: "history_row \<Rightarrow> audit_entry" where
  "row_entry r = \<lparr>e_revision = r_revision r, e_base = r_base_revision r, e_actor = r_actor r, e_reason = r_reason r,
     e_publishedAt = r_published_at r, e_snapshot = r_snapshot r\<rparr>"

definition tables_log :: "policy_tables \<Rightarrow> audit_entry list" where
  "tables_log db = map row_entry (history_rows db)"

definition tables_inv :: "policy_tables \<Rightarrow> bool" where
  "tables_inv db \<longleftrightarrow> wf_log (tables_log db) \<and> c_snapshot db = current_of (tables_log db) \<and>
     c_revision db = int (length (tables_log db))"

lemma row_entry_inverse [simp]: "row_entry (row_of e) = e"
  by (simp add: row_entry_def row_of_def)

lemma r_revision_entry: "r_revision r = e_revision (row_entry r)"
  by (simp add: row_entry_def)

lemma parse_rows:
  assumes "wf_log (tables_log db)" "set rows \<subseteq> set (history_rows db)"
  shows "traverse parseEntry rows = Inr (map row_entry rows)"
proof -
  have "parseEntry r = Inr (row_entry r)" if r: "r \<in> set rows" for r
  proof -
    have "row_entry r \<in> set (tables_log db)" using assms(2) r by (auto simp: tables_log_def)
    then obtain i where "i < length (tables_log db)" "tables_log db ! i = row_entry r" by (auto simp: in_set_conv_nth)
    then show ?thesis using assms(1) by (fastforce simp: wf_log_def parseEntry_def row_entry_def Let_def)
  qed
  then show ?thesis using assms(2) by (induction rows) auto
qed

lemma sort_key_sorted: "sorted (map f xs) \<Longrightarrow> sort_key f xs = xs"
  by (induction xs) (auto simp: insort_is_Cons)

lemma tables_sorted:
  assumes "wf_log (tables_log db)" shows "sorted (map r_revision (history_rows db))"
proof -
  have "map r_revision (history_rows db) = map e_revision (tables_log db)"
    by (simp add: tables_log_def r_revision_entry)
  then show ?thesis
    using assms by (auto simp: wf_log_def sorted_iff_nth_mono)
qed

lemma select_before_log:
  assumes "wf_log (tables_log db)"
  shows "map row_entry (select_before db b n) = take n (older (Some b) (tables_log db))"
    "set (select_before db b n) \<subseteq> set (history_rows db)"
proof -
  have "sorted (map r_revision (filter (\<lambda>r. r_revision r < b) (history_rows db)))"
    using tables_sorted [OF assms] by (rule sorted_filter)
  note s = sort_key_sorted [OF this]
  show "map row_entry (select_before db b n) = take n (older (Some b) (tables_log db))"
    unfolding select_before_def s older_filter [OF assms]
    by (simp add: tables_log_def) (simp add: take_map [symmetric] rev_map filter_map comp_def r_revision_entry)
  show "set (select_before db b n) \<subseteq> set (history_rows db)"
    by (auto simp: select_before_def s dest!: in_set_takeD)
qed

lemma sql_page:
  assumes "wf_log (tables_log db)"
  shows "page_of_rows (select_before db b (Suc limit)) limit = Inr (page_of (older (Some b) (tables_log db)) limit)"
proof -
  let ?rows = "select_before db b (Suc limit)" and ?el = "older (Some b) (tables_log db)"
  have m: "map row_entry ?rows = take (Suc limit) ?el" and s: "set (take limit ?rows) \<subseteq> set (history_rows db)"
    using select_before_log [OF assms, of b "Suc limit"] by (auto dest: in_set_takeD)
  have "length ?rows = min (length ?el) (Suc limit)" using m by (metis length_map length_take)
  moreover have "map row_entry (take limit ?rows) = take limit ?el"
    using m by (metis min.absorb1 le_SucI order_refl take_map take_take)
  ultimately show ?thesis
    by (auto simp: page_of_rows_def parse_rows [OF assms s] page_of_def Let_def)
qed

lemma older_all:
  assumes "wf_log log" "int (length log) < max_safe_integer"
  shows "older (Some max_safe_integer) log = older None log"
  using assms(2) by (simp add: older_def)

lemma sql_history:
  assumes "tables_inv db" "int (length (tables_log db)) < max_safe_integer"
  shows "do_history db i = sbind (parseHistoryInput i) (\<lambda>(before, limit). Inr (page_of (older before (tables_log db)) limit))"
  using assms unfolding do_history_def tables_inv_def
  by (intro arg_cong [of _ _ "sbind (parseHistoryInput i)"] ext)
    (auto simp: sql_page older_all split: option.splits)

lemma sql_current: "tables_inv db \<Longrightarrow> do_current db = Inr (current_of (tables_log db))"
  using wf_log_current by (auto simp: do_current_def tables_inv_def)

lemma sql_publish:
  assumes "tables_inv db"
  shows "do_publish db now p = sbind (log_publish (tables_log db) now p)
    (\<lambda>e. Inr (e, update_current (db\<lparr>history_rows := history_rows db @ [row_of e]\<rparr>) e))"
proof -
  have wf: "wf_log (tables_log db)" using assms by (simp add: tables_inv_def)
  have "r_revision ` set (history_rows db) = e_revision ` set (tables_log db)"
    by (auto simp: tables_log_def r_revision_entry)
  also have "\<dots> \<subseteq> {..int (length (tables_log db))}"
    using wf by (auto simp: wf_log_def in_set_conv_nth)
  finally have ins: "insert_history db (row_of e) = Inr (db\<lparr>history_rows := history_rows db @ [row_of e]\<rparr>)"
    if "e_revision e = int (length (tables_log db)) + 1" for e
    using that by (auto simp: insert_history_def row_of_def)
  have rev: "e_revision e = r" if "entry_of q r now = Inr e" for q r e
    using that by (auto simp: entry_of_def Let_def split: if_splits)
  show ?thesis
    using sql_current [OF assms] wf_log_current [OF wf] ins rev
    by (auto simp: do_publish_def log_publish_def sbind_def split: sum.splits)
qed

lemma sql_published_inv:
  assumes "tables_inv db" "log_publish (tables_log db) now p = Inr e"
  shows "tables_inv (update_current (db\<lparr>history_rows := history_rows db @ [row_of e]\<rparr>) e)"
    "tables_log (update_current (db\<lparr>history_rows := history_rows db @ [row_of e]\<rparr>) e) = tables_log db @ [e]"
  using assms log_publish_entry [OF assms(2)] wf_log_snoc [OF _ assms(2)]
  by (auto simp: tables_inv_def update_current_def tables_log_def current_of_def)

lemma sql_revision:
  assumes "tables_inv db"
  shows "do_revision db r = Inr (log_revision (tables_log db) r)"
proof -
  have wf: "wf_log (tables_log db)" using assms by (simp add: tables_inv_def)
  have f: "map row_entry (filter (\<lambda>row. r_revision row = n) (history_rows db)) = filter (\<lambda>e. e_revision e = n) (tables_log db)" for n
    by (simp add: tables_log_def filter_map comp_def r_revision_entry)
  have p: "parseEntry row = Inr (row_entry row)" if "row \<in> set (history_rows db)" for row
    using parse_rows [OF wf, of "[row]"] that by (auto simp: sbind_Inr_iff)
  show ?thesis
  proof (cases "positive_safe r")
    case True
    then have pos: "0 < whole r" by (auto simp: positive_safe_def split: js_number.splits)
    show ?thesis
    proof (cases "filter (\<lambda>row. r_revision row = whole r) (history_rows db)")
      case Nil
      then show ?thesis using f [of "whole r"] filter_revision [OF wf pos] True
        by (simp add: do_revision_def log_revision_def split: if_splits)
    next
      case (Cons row rows)
      then have "row \<in> set (history_rows db)" by (metis (no_types, lifting) Cons_eq_filterD in_set_conv_decomp)
      then show ?thesis using f [of "whole r"] filter_revision [OF wf pos] True Cons p
        by (simp add: do_revision_def log_revision_def split: if_splits)
    qed
  qed (simp add: do_revision_def log_revision_def)
qed

interpretation do_log: versioned_store policy_do_step tables_inv tables_log
proof (unfold_locales, goal_cases)
  case (1 s)
  then show ?case by (simp add: tables_inv_def)
next
  case (2 s op)
  then show ?case
    by (cases op) (auto simp: sql_current sql_history sql_revision sql_publish reply_with_def published_def sbind_def
        split: sum.splits)
next
  case (3 s op)
  then show ?case
    by (cases op) (auto simp: sql_publish published_def sbind_def sql_published_inv split: sum.splits)
qed

lemma sqlite_as_do: "sqlite_step = policy_do_step"
proof (intro ext)
  fix db op
  show "sqlite_step db op = policy_do_step db op"
  proof (cases op)
    case (SPublish now p)
    have "sqlite_readCurrent = do_current" by (simp add: fun_eq_iff sqlite_readCurrent_def do_current_def)
    then show ?thesis using SPublish
      by (auto simp: sqlite_publish_def sqlite_transaction_def sqlite_publish_body_def do_publish_def published_def
          reply_with_def sbind_def split: sum.splits)
  qed (simp_all add: sqlite_readCurrent_def do_current_def sqlite_history_def do_history_def sqlite_revision_def do_revision_def)
qed

interpretation sqlite_log: versioned_store sqlite_step tables_inv tables_log
  unfolding sqlite_as_do by (rule do_log.versioned_store_axioms)

end
