(* ===== verification/PolicyStoreProps.thy ===== *)
theory PolicyStoreProps
  imports PolicyStoreLaws
begin

text \<open>
  Properties of the versioned policy stores: they answer every sequence of requests alike,
  publication is a compare-and-swap on an immutable history, and paging through the history
  meets every entry once.
\<close>

text \<open>The state a sequence of requests leads to.\<close>

definition do_after :: "store_op list \<Rightarrow> policy_tables" where
  "do_after ops = run (\<lambda>db op. snd (policy_do_step db op)) empty_policy_tables ops"

lemma empty_stores:
  "memory_inv empty_memory" "tables_inv empty_policy_tables" "tables_log empty_policy_tables = []"
  by (simp_all add: memory_inv_def empty_memory_def tables_inv_def empty_policy_tables_def tables_log_def current_of_def)

lemma log_run_length: "length (run log_step log ops) \<le> length log + length ops"
proof (induction ops arbitrary: log)
  case (Cons op ops)
  have "length (run log_step (log_step log op) ops) \<le> length (log_step log op) + length ops" by (rule Cons)
  then show ?case using log_step_length [of log op] by simp
qed simp

lemma log_run_prefix: "\<exists>es. run log_step log ops = log @ es"
proof (induction ops arbitrary: log)
  case (Cons op ops)
  have "\<exists>es. log_step log op = log @ es" by (cases op) (auto split: sum.splits)
  then show ?case using Cons [of "log_step log op"] by auto
qed simp

lemma do_run:
  assumes "int (length ops) \<le> max_safe_integer"
  shows "tables_inv (do_after ops) \<and> tables_log (do_after ops) = run log_step [] ops"
proof -
  have "tables_inv db \<Longrightarrow> int (length (tables_log db) + length ops) \<le> max_safe_integer \<Longrightarrow>
     tables_inv (run (\<lambda>db op. snd (policy_do_step db op)) db ops) \<and>
     tables_log (run (\<lambda>db op. snd (policy_do_step db op)) db ops) = run log_step (tables_log db) ops" for db
  proof (induction ops arbitrary: db)
    case (Cons op ops)
    then have "tables_inv (snd (policy_do_step db op))" "tables_log (snd (policy_do_step db op)) = log_step (tables_log db) op"
      using do_log.log_law [of db op] by auto
    with Cons.IH [of "snd (policy_do_step db op)"] Cons.prems(2) log_step_length [of "tables_log db" op]
    show ?case by simp
  qed simp
  from this [OF empty_stores(2)] show ?thesis using assms by (simp add: do_after_def empty_stores(3))
qed

lemma after_append:
  assumes "int (length (ops @ rest)) \<le> max_safe_integer"
  shows "\<exists>es. tables_log (do_after (ops @ rest)) = tables_log (do_after ops) @ es"
  using do_run [of ops] do_run [OF assms] log_run_prefix [of "run log_step [] ops" rest] assms by (simp add: run_append)

text \<open>
  C10. The in-memory store, the durable object and the SQLite store cannot be told apart: they
  give the same replies, errors included, to every sequence of requests.
\<close>

theorem stores_agree:
  assumes "int (length ops) \<le> max_safe_integer"
  shows "store_replies memory_step empty_memory ops = store_replies policy_do_step empty_policy_tables ops \<and>
    store_replies sqlite_step empty_policy_tables ops = store_replies policy_do_step empty_policy_tables ops"
  using memory_log.replies_law [OF empty_stores(1), of ops] do_log.replies_law [OF empty_stores(2), of ops]
    sqlite_log.replies_law [OF empty_stores(2), of ops] assms empty_stores(3)
  by (simp add: empty_memory_def)

definition sample_actor :: admin_actor where
  "sample_actor = \<lparr>a_method = ''password'', a_subject = ''root'', a_label = None\<rparr>"

definition sample_publication :: "int \<Rightarrow> publication" where
  "sample_publication base = \<lparr>pb_base = Whole base, pb_policy = emptyPolicy, pb_reason = '' tidy '', pb_actor = sample_actor\<rparr>"

definition sample_ops :: "store_op list" where
  "sample_ops = [SPublish 1000 (sample_publication 0), SPublish 2000 (sample_publication 0), SPublish 3000 (sample_publication 1),
     SHistory \<lparr>h_before = None, h_limit = Whole 1\<rparr>, SRevision (Whole 1), SCurrent]"

theorem stores_agree_witness:
  "store_replies memory_step empty_memory sample_ops = store_replies sqlite_step empty_policy_tables sample_ops \<and>
   store_replies memory_step empty_memory sample_ops ! 1 = Inl (Core (policy_conflict 1))"
proof -
  have "int (length sample_ops) \<le> max_safe_integer" by code_simp
  from stores_agree [OF this] have "store_replies memory_step empty_memory sample_ops = store_replies sqlite_step empty_policy_tables sample_ops"
    by simp
  moreover have "store_replies memory_step empty_memory sample_ops ! 1 = Inl (Core (policy_conflict 1))" by code_simp
  ultimately show ?thesis by blast
qed

text \<open>
  C11. Publication is a compare-and-swap on an immutable, gap-free history: an accepted
  publication becomes the next revision, made from the one before it, and the current
  snapshot; every revision found once is found unchanged for ever after; and no second
  publication from the same base is ever accepted, but refused with the revision that is then
  current, the one a reader of the same store gets, which is at least the first one's.
\<close>

theorem publication_compare_and_swap:
  assumes "int (length (ops @ SPublish now p # rest)) < max_safe_integer"
    and "fst (policy_do_step (do_after ops) (SPublish now p)) = Inr (REntry e)"
    and "later = do_after (ops @ SPublish now p # rest)"
  shows "pb_base p = Whole (e_base e) \<and> e_revision e = e_base e + 1 \<and> s_policy (e_snapshot e) = pb_policy p \<and>
    fst (policy_do_step (do_after (ops @ [SPublish now p])) SCurrent) = Inr (RSnapshot (e_snapshot e)) \<and>
    fst (policy_do_step later (SRevision (Whole (e_revision e)))) = Inr (RFound (Some e)) \<and>
    (\<forall>t q. pb_base q = pb_base p \<longrightarrow> parsePublication q \<noteq> Inl SchemaError \<longrightarrow>
      (\<exists>cur. fst (policy_do_step later SCurrent) = Inr (RSnapshot cur) \<and> e_revision e \<le> s_revision cur \<and>
        fst (policy_do_step later (SPublish t q)) = Inl (Core (policy_conflict (s_revision cur)))))"
proof -
  let ?l0 = "tables_log (do_after ops)" and ?l1 = "tables_log (do_after (ops @ [SPublish now p]))" and ?l2 = "tables_log later"
  have ops: "tables_inv (do_after ops)" "int (length ?l0) < max_safe_integer"
    using do_run [of ops] log_run_length [of "[]" ops] assms(1) by auto
  have one: "tables_inv (do_after (ops @ [SPublish now p]))" "int (length ?l1) < max_safe_integer"
    using do_run [of "ops @ [SPublish now p]"] log_run_length [of "[]" "ops @ [SPublish now p]"] assms(1) by auto
  have lat: "tables_inv later" "int (length ?l2) < max_safe_integer"
    using do_run [of "ops @ SPublish now p # rest"] log_run_length [of "[]" "ops @ SPublish now p # rest"] assms(1,3) by auto
  have e: "log_publish ?l0 now p = Inr e"
    using do_log.reply_law [OF ops, of "SPublish now p"] assms(2) by (auto simp: reply_with_def sbind_Inr_iff)
  have l1: "?l1 = ?l0 @ [e]"
    using do_log.log_law [OF ops, of "SPublish now p"] e by (simp add: do_after_def run_append)
  obtain es where l2: "?l2 = ?l0 @ e # es"
    using after_append [of "ops @ [SPublish now p]" rest] assms(1,3) l1 by auto
  note f = log_publish_entry [OF e]
  have base: "pb_base p = Whole (e_base e)"
    using e f(2) by (auto simp: log_publish_def sbind_Inr_iff parsePublication_def split: if_splits)
  have "fst (policy_do_step (do_after (ops @ [SPublish now p])) SCurrent) = Inr (RSnapshot (e_snapshot e))"
    using do_log.reply_law [OF one, of SCurrent] by (simp add: l1 current_of_def del: policy_do_step.simps)
  moreover have "fst (policy_do_step later (SRevision (Whole (e_revision e)))) = Inr (RFound (Some e))"
    using do_log.reply_law [OF lat, of "SRevision (Whole (e_revision e))"] f(1) ops(2)
    by (simp add: log_revision_def l2 positive_safe_def safe_integer_def max_safe_integer_def nat_add_distrib del: policy_do_step.simps)
  moreover have "\<exists>cur. fst (policy_do_step later SCurrent) = Inr (RSnapshot cur) \<and> e_revision e \<le> s_revision cur \<and>
      fst (policy_do_step later (SPublish t q)) = Inl (Core (policy_conflict (s_revision cur)))"
    if "pb_base q = pb_base p" "parsePublication q \<noteq> Inl SchemaError" for t q
  proof -
    have "parsePublication q = Inr (q\<lparr>pb_reason := js_trim (pb_reason q)\<rparr>)"
      using that(2) unfolding parsePublication_def by metis
    moreover have "pb_base (q\<lparr>pb_reason := js_trim (pb_reason q)\<rparr>) = Whole (int (length ?l0))"
      using that(1) base f(2) by simp
    ultimately obtain q' where "parsePublication q = Inr q'" "pb_base q' = Whole (int (length ?l0))" by blast
    then have "fst (policy_do_step later (SPublish t q)) = Inl (Core (policy_conflict (int (length ?l2))))"
      using do_log.reply_law [OF lat, of "SPublish t q"] f(2) by (simp add: l2 log_publish_def reply_with_def del: policy_do_step.simps)
    moreover have "fst (policy_do_step later SCurrent) = Inr (RSnapshot (current_of ?l2))"
      using do_log.reply_law [OF lat, of SCurrent] by (simp del: policy_do_step.simps)
    moreover have "s_revision (current_of ?l2) = int (length ?l2)" "e_revision e \<le> int (length ?l2)"
      using wf_log_current [of ?l2] lat(1) f(1) by (simp_all add: tables_inv_def l2)
    ultimately show ?thesis by simp
  qed
  ultimately show ?thesis using base f(1,2,6) by simp
qed

theorem publication_compare_and_swap_witness:
  "\<exists>cur. fst (policy_do_step (do_after ([] @ SPublish 1000 (sample_publication 0) # [SCurrent])) SCurrent) = Inr (RSnapshot cur)
     \<and> 1 \<le> s_revision cur
     \<and> fst (policy_do_step (do_after ([] @ SPublish 1000 (sample_publication 0) # [SCurrent])) (SPublish 2000 (sample_publication 0))) =
       Inl (Core (policy_conflict (s_revision cur)))"
proof -
  let ?e = "\<lparr>e_revision = 1, e_base = 0, e_actor = sample_actor, e_reason = ''tidy'', e_publishedAt = 1000,
    e_snapshot = \<lparr>s_policy = emptyPolicy, s_revision = 1\<rparr>\<rparr>"
  have len: "int (length ([] @ SPublish 1000 (sample_publication 0) # [SCurrent])) < max_safe_integer" by code_simp
  have e: "fst (policy_do_step (do_after []) (SPublish 1000 (sample_publication 0))) = Inr (REntry ?e)" by code_simp
  have ok: "parsePublication (sample_publication 0) \<noteq> Inl SchemaError" by code_simp
  show ?thesis
    using publication_compare_and_swap [OF len e refl] ok by auto
qed

section \<open>Paging\<close>

text \<open>Following \<open>nextBeforeRevision\<close> from the newest page; \<open>fuel\<close> bounds the number of requests.\<close>

fun follow_pages :: "policy_tables \<Rightarrow> js_number \<Rightarrow> js_number option \<Rightarrow> nat \<Rightarrow> (audit_entry list \<times> nat) option" where
  "follow_pages db limit before 0 = None"
| "follow_pages db limit before (Suc fuel) = (case do_history db \<lparr>h_before = before, h_limit = limit\<rparr> of
     Inl _ \<Rightarrow> None
   | Inr page \<Rightarrow> (case hp_next page of
       None \<Rightarrow> Some (hp_items page, 1)
     | Some b \<Rightarrow> map_option (\<lambda>(items, n). (hp_items page @ items, Suc n)) (follow_pages db limit (Some (Whole b)) fuel)))"

lemma page_next:
  assumes "wf_log log" "m \<le> length log" "0 < n" "n < m"
  shows "hp_next (page_of (rev (take m log)) n) = Some (int (m - n) + 1)"
    "hp_items (page_of (rev (take m log)) n) @ rev (take (m - n) log) = rev (take m log)"
proof -
  let ?el = "rev (take m log)"
  have "last (take n ?el) = ?el ! (n - 1)" using assms by (subst last_conv_nth) auto
  also have "\<dots> = log ! (m - n)" using assms by (simp add: rev_nth)
  finally have "e_revision (last (take n ?el)) = int (m - n) + 1" using assms by (simp add: wf_log_def)
  then show "hp_next (page_of ?el n) = Some (int (m - n) + 1)" using assms by (auto simp: page_of_def Let_def)
  have "drop n ?el = rev (take (m - n) log)" using assms by (simp add: drop_rev take_take)
  then show "hp_items (page_of ?el n) @ rev (take (m - n) log) = ?el"
    by (metis append_take_drop_id history_page.select_convs(1) page_of_def)
qed

lemma limit_parsed:
  assumes "positive_safe limit" "case before of None \<Rightarrow> True | Some b \<Rightarrow> positive_safe b"
  shows "parseHistoryInput \<lparr>h_before = before, h_limit = limit\<rparr> =
    Inr (map_option whole before, nat (min (whole limit) MAX_HISTORY_LIMIT))"
  using assms by (auto simp: parseHistoryInput_def split: option.splits)

lemma follow_from:
  assumes "tables_inv db" "int (length (tables_log db)) < max_safe_integer" "positive_safe limit" "0 < n"
    and "n = nat (min (whole limit) MAX_HISTORY_LIMIT)"
  shows "m \<le> length (tables_log db) \<Longrightarrow>
    case before of None \<Rightarrow> m = length (tables_log db) | Some b \<Rightarrow> b = Whole (int m + 1) \<Longrightarrow> m < fuel \<Longrightarrow>
    \<exists>k. follow_pages db limit before fuel = Some (rev (take m (tables_log db)), k) \<and> k \<le> m div n + 1"
proof (induction fuel arbitrary: m before)
  case (Suc fuel)
  let ?log = "tables_log db"
  have wf: "wf_log ?log" using assms(1) by (simp add: tables_inv_def)
  have pos: "case before of None \<Rightarrow> True | Some b \<Rightarrow> positive_safe b"
    using Suc.prems(1,2) assms(2) by (auto simp: positive_safe_def safe_integer_def max_safe_integer_def split: option.splits)
  have el: "older (map_option whole before) ?log = rev (take m ?log)"
    using Suc.prems(2) by (auto simp: older_def split: option.splits)
  have page: "do_history db \<lparr>h_before = before, h_limit = limit\<rparr> = Inr (page_of (rev (take m ?log)) n)"
    by (simp add: sql_history [OF assms(1,2)] limit_parsed [OF assms(3) pos] el assms(5))
  show ?case
  proof (cases "n < m")
    case False
    then have "page_of (rev (take m ?log)) n = \<lparr>hp_items = rev (take m ?log), hp_next = None\<rparr>"
      using Suc.prems(1) by (simp add: page_of_def)
    then show ?thesis using page by simp
  next
    case True
    note nxt = page_next [OF wf Suc.prems(1) assms(4) True]
    have fits: "m - n \<le> length ?log" "m - n < fuel" using True assms(4) Suc.prems(1,3) by auto
    obtain k where k: "follow_pages db limit (Some (Whole (int (m - n) + 1))) fuel = Some (rev (take (m - n) ?log), k)" "k \<le> (m - n) div n + 1"
      using Suc.IH [OF fits(1), of "Some (Whole (int (m - n) + 1))"] fits(2) by auto
    have "m div n = (m - n) div n + 1" using True assms(4) by (simp add: le_div_geq)
    then show ?thesis using page k nxt by simp
  qed
qed simp

text \<open>
  C12. Paging is complete and finite: following \<open>nextBeforeRevision\<close> with any valid limit
  returns every published entry exactly once, newest first, in at most one request more than
  the number of full pages.
\<close>

theorem history_paging_complete:
  assumes "int (length ops) < max_safe_integer" "positive_safe limit"
  shows "\<exists>k. follow_pages (do_after ops) limit None (length (tables_log (do_after ops)) + 1) =
      Some (rev (tables_log (do_after ops)), k) \<and>
    k \<le> length (tables_log (do_after ops)) div nat (min (whole limit) 100) + 1 \<and>
    map e_revision (tables_log (do_after ops)) = map (\<lambda>i. int i + 1) [0..<length (tables_log (do_after ops))]"
proof -
  have inv: "tables_inv (do_after ops)" "int (length (tables_log (do_after ops))) < max_safe_integer"
    using do_run [of ops] log_run_length [of "[]" ops] assms(1) by auto
  have "0 < nat (min (whole limit) MAX_HISTORY_LIMIT)"
    using assms(2) by (auto simp: positive_safe_def MAX_HISTORY_LIMIT_def split: js_number.splits)
  from follow_from [OF inv assms(2) this refl, of "length (tables_log (do_after ops))" None "length (tables_log (do_after ops)) + 1"]
  obtain k where "follow_pages (do_after ops) limit None (length (tables_log (do_after ops)) + 1) = Some (rev (tables_log (do_after ops)), k)"
    "k \<le> length (tables_log (do_after ops)) div nat (min (whole limit) 100) + 1"
    by (fastforce simp: MAX_HISTORY_LIMIT_def simp del: follow_pages.simps)
  then show ?thesis using inv(1) wf_log_revisions unfolding tables_inv_def by blast
qed

theorem history_paging_complete_witness:
  "\<exists>k \<le> 3. follow_pages (do_after sample_ops) (Whole 1) None 3 = Some (rev (tables_log (do_after sample_ops)), k)"
proof -
  have f: "int (length sample_ops) < max_safe_integer" "positive_safe (Whole 1)" "length (tables_log (do_after sample_ops)) = 2"
    "nat (min (whole (Whole 1)) 100) = 1"
    by code_simp+
  show ?thesis
    using history_paging_complete [OF f(1,2)] unfolding f(3,4) by (auto simp: numeral_3_eq_3 numeral_2_eq_2)
qed

end
