(* ===== verification/PolicyRuntimeProps.thy ===== *)
theory PolicyRuntimeProps
  imports PolicyRuntime PolicyStoreProps
begin

text \<open>
  Properties of the login limiter, the revision streams, the runtime cache and rollback.
\<close>

section \<open>Login attempts\<close>

type_synonym login_call = "int \<times> string \<times> int \<times> int"

fun login_step :: "login_table \<Rightarrow> login_call \<Rightarrow> login_table" where
  "login_step rows (now, b, l, w) = snd (consumeAdminLoginAttempt rows now b l w)"

text \<open>Admissible calls: a possible clock, and for the bucket watched a limit of at most \<open>m\<close>.\<close>

fun login_ok :: "string \<Rightarrow> int \<Rightarrow> login_table \<Rightarrow> login_call \<Rightarrow> bool" where
  "login_ok k m rows (now, b, l, w) = (valid_now now \<and> (b = k \<longrightarrow> l \<le> m))"

fun login_cost :: "string \<Rightarrow> login_table \<Rightarrow> login_call \<Rightarrow> int" where
  "login_cost k rows (now, b, l, w) = (if b = k \<and> fst (consumeAdminLoginAttempt rows now b l w) = Inr LoginAllowed then 1 else 0)"

definition attempts :: "string \<Rightarrow> login_table \<Rightarrow> int" where
  "attempts k rows = (case map_of rows k of None \<Rightarrow> 0 | Some w \<Rightarrow> lw_count w)"

definition login_reset :: "string \<Rightarrow> login_table \<Rightarrow> int" where
  "login_reset k rows = (case map_of rows k of None \<Rightarrow> 0 | Some w \<Rightarrow> lw_resetAt w)"

definition login_inv :: "string \<Rightarrow> int \<Rightarrow> login_table \<Rightarrow> bool" where
  "login_inv k m rows \<longleftrightarrow> distinct (map fst rows) \<and> length rows \<le> MAX_LOGIN_WINDOW_BUCKETS \<and> attempts k rows \<le> m"

lemma live_rows:
  assumes "distinct (map fst rows)"
  shows "distinct (map fst (filter (\<lambda>(_, w). lw_resetAt w > now) rows))"
    "map_of (filter (\<lambda>(_, w). lw_resetAt w > now) rows) k =
      (case map_of rows k of None \<Rightarrow> None | Some w \<Rightarrow> if now < lw_resetAt w then Some w else None)"
  using assms by (auto simp: map_of_filter_distinct split: option.splits)

lemma update_present_length: "map_of al k \<noteq> None \<Longrightarrow> length (AList.update k v al) = length al"
  by (induction al) auto

lemma login_inv_live:
  assumes "login_inv k m rows" "0 \<le> m" shows "login_inv k m (filter (\<lambda>(_, w). lw_resetAt w > now) rows)"
proof -
  have "distinct (map fst rows)" "length rows \<le> MAX_LOGIN_WINDOW_BUCKETS" using assms(1) by (simp_all add: login_inv_def)
  note live_rows [OF this(1), of now] and order_trans [OF length_filter_le this(2)]
  then show ?thesis using assms by (cases "map_of rows k") (simp_all add: login_inv_def attempts_def)
qed

lemma login_inv_update:
  assumes "login_inv k m al" "map_of al b = Some v" "b = k \<longrightarrow> lw_count v < m"
  shows "login_inv k m (AList.update b (v\<lparr>lw_count := lw_count v + 1\<rparr>) al)"
  using assms update_present_length [of al b] distinct_update_keys [of al]
  by (cases "b = k") (simp_all add: login_inv_def attempts_def alist_simps)

lemma login_inv_insert:
  assumes "login_inv k m al" "map_of al b = None" "length al < MAX_LOGIN_WINDOW_BUCKETS" "b = k \<longrightarrow> 1 \<le> m"
  shows "login_inv k m (al @ [(b, \<lparr>lw_count = 1, lw_resetAt = r\<rparr>)])"
proof -
  have "distinct (map fst (al @ [(b, \<lparr>lw_count = 1, lw_resetAt = r\<rparr>)]))"
    using assms(1,2) by (auto simp: login_inv_def map_of_eq_None_iff)
  then show ?thesis using assms
    by (cases "b = k"; cases "map_of al k") (simp_all add: login_inv_def attempts_def map_add_def)
qed

lemma login_step_inv:
  assumes "login_inv k m rows" "login_ok k m rows x" "0 \<le> m" shows "login_inv k m (login_step rows x)"
proof -
  obtain now b l w where x: "x = (now, b, l, w)" by (cases x)
  define live where "live = filter (\<lambda>(_, w). lw_resetAt w > now) rows"
  have inv: "login_inv k m live" unfolding live_def by (rule login_inv_live [OF assms(1,3)])
  show ?thesis
    using inv assms(1,2) login_inv_update [OF inv, of b] login_inv_insert [OF inv, of b]
    by (cases "map_of live b") (auto simp: x consumeAdminLoginAttempt_def Let_def live_def [symmetric])
qed

lemma login_open_step:
  assumes "login_inv k m rows" "login_ok k m rows x" "map_of rows k \<noteq> None" "fst x < login_reset k rows"
  shows "map_of (login_step rows x) k \<noteq> None \<and> login_reset k (login_step rows x) = login_reset k rows \<and>
    attempts k (login_step rows x) = attempts k rows + login_cost k rows x"
proof -
  obtain now b l w where x: "x = (now, b, l, w)" by (cases x)
  obtain v where v: "map_of rows k = Some v" "now < lw_resetAt v"
    using assms(3,4) by (auto simp: login_reset_def x)
  have d: "distinct (map fst rows)" using assms(1) by (simp add: login_inv_def)
  show ?thesis
    using v live_rows(2) [OF d, of now]
    by (cases "b = k") (auto simp: x consumeAdminLoginAttempt_def Let_def login_reset_def attempts_def alist_simps
        map_add_def split: option.splits)
qed

interpretation login_limiter: window_limiter login_step "\<lambda>rows x. login_ok k m rows x \<and> 0 \<le> m" "login_inv k m" fst
  "\<lambda>rows. map_of rows k \<noteq> None" "login_reset k" "attempts k" "login_cost k" m
  for k m
  using login_step_inv login_open_step by unfold_locales (blast | simp add: login_inv_def)+

text \<open>
  The login limiter holds over every interleaving: while a bucket's window is open at
  most \<open>m\<close> attempts are let through for it, \<open>m\<close> bounding the limits presented for it, however
  many other buckets are used; and there are never more than ten thousand windows.
\<close>

theorem login_attempts_bounded:
  assumes "run_ok login_step (login_ok k m) [] (h @ xs)" "rows = run login_step [] h" "0 \<le> m"
    and "map_of rows k = Some w" "\<forall>x \<in> set xs. fst x < lw_resetAt w"
  shows "lw_count w + granted login_step (login_cost k) rows xs \<le> m \<and> length (run login_step rows xs) \<le> 10000"
proof -
  have weaker: "run_ok login_step (\<lambda>rows x. login_ok k m rows x \<and> 0 \<le> m) s ys" if "run_ok login_step (login_ok k m) s ys" for s ys
    using that assms(3) by (induction ys arbitrary: s) auto
  have ok: "run_ok login_step (login_ok k m) [] h" "run_ok login_step (login_ok k m) rows xs"
    using assms(1,2) by (simp_all add: run_ok_append)
  have "login_inv k m []" using assms(3) by (simp add: login_inv_def attempts_def)
  then have inv: "login_inv k m rows" using login_limiter.run_inv [OF _ weaker [OF ok(1)]] assms(2) by simp
  have "login_inv k m (run login_step rows xs)" by (rule login_limiter.run_inv [OF inv weaker [OF ok(2)]])
  then show ?thesis
    using login_limiter.granted_le [OF inv weaker [OF ok(2)]] assms(4,5)
    by (simp add: login_reset_def attempts_def login_inv_def MAX_LOGIN_WINDOW_BUCKETS_def)
qed

definition sample_bucket :: string where "sample_bucket = replicate 64 CHR ''f''"

theorem login_attempts_bounded_witness:
  "1 + granted login_step (login_cost sample_bucket) (run login_step [] [(1000, sample_bucket, 2, 60000)])
     [(2000, sample_bucket, 2, 60000), (3000, sample_bucket, 2, 60000)] \<le> 2"
proof -
  let ?h = "[(1000, sample_bucket, 2, 60000)] :: login_call list"
  let ?xs = "[(2000, sample_bucket, 2, 60000), (3000, sample_bucket, 2, 60000)] :: login_call list"
  have f: "run_ok login_step (login_ok sample_bucket 2) [] (?h @ ?xs)" "(0::int) \<le> 2"
    "map_of (run login_step [] ?h) sample_bucket = Some \<lparr>lw_count = 1, lw_resetAt = 61000\<rparr>"
    "\<forall>x \<in> set ?xs. fst x < lw_resetAt \<lparr>lw_count = 1, lw_resetAt = 61000\<rparr>"
    by code_simp+
  from login_attempts_bounded [OF f(1) refl f(2,3,4)] show ?thesis by (simp del: run.simps granted.simps login_cost.simps)
qed

section \<open>Revision streams\<close>

text \<open>A stream in order: its revisions strictly increase and end with the one seen last.\<close>

definition in_order :: "subscriber \<Rightarrow> bool" where
  "in_order s \<longleftrightarrow> sorted_wrt (<) (sub_sent s) \<and> (\<forall>r \<in> set (sub_sent s). r \<le> sub_seen s \<and> 0 \<le> r) \<and>
     (sub_sent s \<noteq> [] \<longrightarrow> last (sub_sent s) = sub_seen s) \<and> -1 \<le> sub_seen s"

lemma in_order_deliver: "in_order s \<Longrightarrow> -1 \<le> r \<Longrightarrow> in_order (deliver r s)"
  by (fastforce simp: in_order_def deliver_def sorted_wrt_append)

lemma deliver_seen: "r \<le> sub_seen (deliver r s)" "sub_seen s \<le> sub_seen (deliver r s)"
  by (simp_all add: deliver_def)

lemma in_order_new: "-1 \<le> cur \<Longrightarrow> in_order (new_subscriber h i l cur)"
  unfolding new_subscriber_def Let_def
  by (rule in_order_deliver)
    (auto simp: in_order_def isRevision_def isSafeCeiling_def split: option.splits js_number.splits)

lemma new_seen: "cur \<le> sub_seen (new_subscriber h i l cur)"
  by (simp add: new_subscriber_def Let_def deliver_seen)

definition streams_ok :: "int \<Rightarrow> subscriber list \<Rightarrow> bool" where
  "streams_ok r subs \<longleftrightarrow> length subs \<le> MAX_FEATURE_POLICY_SSE_SUBSCRIBERS \<and> (\<forall>s \<in> set subs. in_order s \<and> r \<le> sub_seen s)"

lemma streams_ok_filter: "streams_ok r subs \<Longrightarrow> streams_ok r (filter P subs)"
  by (auto simp: streams_ok_def intro: order_trans [OF length_filter_le])

lemma streams_ok_deliver: "streams_ok r subs \<Longrightarrow> -1 \<le> q \<Longrightarrow> streams_ok (max r q) (map (deliver q) subs)"
  using deliver_seen order_trans by (fastforce simp: streams_ok_def in_order_deliver)

lemma streams_ok_less: "streams_ok r subs \<Longrightarrow> q \<le> r \<Longrightarrow> streams_ok q subs"
  by (auto simp: streams_ok_def)

lemma streams_ok_snoc:
  "streams_ok r subs \<Longrightarrow> length subs < MAX_FEATURE_POLICY_SSE_SUBSCRIBERS \<Longrightarrow> -1 \<le> cur \<Longrightarrow> r \<le> cur \<Longrightarrow>
   streams_ok r (subs @ [new_subscriber h i l cur])"
  using new_seen [of cur h i l] by (auto simp: streams_ok_def in_order_new)

definition events_inv :: "policy_events \<Rightarrow> bool" where
  "events_inv ev \<longleftrightarrow> -1 \<le> ev_highest ev \<and> streams_ok (ev_highest ev) (ev_streams ev)"

lemma safe_whole: "isRevision (Some r) \<Longrightarrow> 0 \<le> whole r"
  by (auto simp: isRevision_def isSafeCeiling_def split: js_number.splits)

interpretation events_machine: machine events_step "\<lambda>_ _. True" events_inv
proof
  fix ev :: policy_events and x
  assume inv: "events_inv ev"
  show "events_inv (events_step ev x)"
  proof (cases x)
    case (EPublish r)
    then show ?thesis using inv streams_ok_deliver [of "ev_highest ev" "ev_streams ev" "whole r"] safe_whole [of r]
      by (auto simp: events_inv_def events_publish_def)
  next
    case (EStream h l c a)
    then show ?thesis using inv
      by (auto simp: events_inv_def events_stream_def Let_def intro!: streams_ok_snoc)
  qed (use inv in \<open>auto simp: events_inv_def events_cancel_def events_close_def streams_ok_filter streams_ok_def [of _ "[]"]\<close>)
qed

interpretation do_streams_machine: machine do_stream_step "\<lambda>_ _. True" "streams_ok (-1)"
proof
  fix subs x
  assume inv: "streams_ok (-1) subs"
  show "streams_ok (-1) (do_stream_step subs x)"
  proof (cases x)
    case (DPublish r)
    then show ?thesis using streams_ok_less [OF streams_ok_deliver [OF inv, of "whole r"]] safe_whole [of r] inv
      by (auto simp: do_publishRevision_def)
  next
    case (DSubscribe st h l i c)
    then show ?thesis using inv by (auto simp: do_subscribe_def Let_def intro!: streams_ok_snoc)
  qed (use inv in \<open>auto simp: do_unsubscribe_def do_cancel_def streams_ok_filter\<close>)
qed

lemma run_ok_True: "run_ok step (\<lambda>_ _. True) s xs"
  by (induction xs arbitrary: s) auto

lemma highest_grows: "ev_highest ev \<le> ev_highest (events_step ev x)"
  by (cases x) (auto simp: events_publish_def events_stream_def events_cancel_def events_close_def Let_def)

lemma highest_run: "ev_highest ev \<le> ev_highest (run events_step ev ops)"
proof (induction ops arbitrary: ev)
  case (Cons x ops)
  show ?case using order_trans [OF highest_grows [of ev x] Cons [of "events_step ev x"]] by simp
qed simp

lemma highest_published: "EPublish (Whole r) \<in> set ops \<Longrightarrow> isRevision (Some (Whole r)) \<Longrightarrow> r \<le> ev_highest (run events_step ev ops)"
proof (induction ops arbitrary: ev)
  case (Cons x ops)
  then show ?case
    using highest_run [of "events_publish ev (Whole r)" ops] by (auto simp: events_publish_def)
qed simp

text \<open>
  Every open revision stream writes strictly increasing revisions and misses none that
  is newest: in process, each stream has seen the highest revision published so far, and in
  the durable object each stream has seen a revision at least as high as the one just
  published; and there are never more than 256 streams.
\<close>

theorem streams_in_order:
  "(\<forall>s \<in> set (ev_streams (run events_step no_events ops)). in_order s \<and>
      (EPublish (Whole r) \<in> set ops \<and> isRevision (Some (Whole r)) \<longrightarrow> r \<le> sub_seen s)) \<and>
   length (ev_streams (run events_step no_events ops)) \<le> 256 \<and>
   (\<forall>s \<in> set (run do_stream_step [] (dops @ [DPublish q])). in_order s \<and>
      (isRevision (Some q) \<longrightarrow> whole q \<le> sub_seen s)) \<and>
   length (run do_stream_step [] (dops @ [DPublish q])) \<le> 256"
proof -
  have "events_inv no_events" by (simp add: events_inv_def no_events_def streams_ok_def)
  then have e: "events_inv (run events_step no_events ops)" by (rule events_machine.run_inv [OF _ run_ok_True])
  have "streams_ok (-1) []" by (simp add: streams_ok_def)
  then have d: "streams_ok (-1) (run do_stream_step [] ys)" for ys by (rule do_streams_machine.run_inv [OF _ run_ok_True])
  have "whole q \<le> sub_seen s" if "s \<in> set (run do_stream_step [] (dops @ [DPublish q]))" "isRevision (Some q)" for s
    using that by (auto simp: run_append do_publishRevision_def deliver_seen)
  then show ?thesis
    using e d [of "dops @ [DPublish q]"] highest_published [of r ops no_events]
    by (auto simp: events_inv_def streams_ok_def MAX_FEATURE_POLICY_SSE_SUBSCRIBERS_def)
qed

definition sample_stream :: subscriber where
  "sample_stream = new_subscriber 1 None (Some (Whole 2)) 3"

theorem streams_in_order_witness:
  "ev_streams (run events_step no_events [EPublish (Whole 3), EStream 1 (Some (Whole 2)) None False]) = [sample_stream] \<and>
   3 \<le> sub_seen sample_stream"
proof -
  let ?ops = "[EPublish (Whole 3), EStream 1 (Some (Whole 2)) None False]"
  have f: "EPublish (Whole 3) \<in> set ?ops" "isRevision (Some (Whole 3))"
    "ev_streams (run events_step no_events ?ops) = [sample_stream]"
    by code_simp+
  then have "sample_stream \<in> set (ev_streams (run events_step no_events ?ops))" by (metis list.set_intros(1))
  then show ?thesis using streams_in_order [of ?ops 3] f by blast
qed

section \<open>The runtime cache\<close>

definition cache_inv :: "policy_runtime \<Rightarrow> bool" where
  "cache_inv rt \<longleftrightarrow> (\<forall>c. rt_cached rt = Some c \<longrightarrow> rt_highest rt \<le> s_revision c)"

text \<open>Completions deliver entries whose snapshot carries their revision, as the stores' do.\<close>

definition op_ok :: "policy_runtime \<Rightarrow> runtime_op \<Rightarrow> bool" where
  "op_ok rt op \<longleftrightarrow> (case op of OPublished (Inr e) _ \<Rightarrow> s_revision (e_snapshot e) = e_revision e | _ \<Rightarrow> True)"

lemma invalidate_inv: "cache_inv rt \<Longrightarrow> cache_inv (invalidate rt r)"
  by (auto simp: cache_inv_def invalidate_def split: option.splits)

lemma read_inv: "cache_inv rt \<Longrightarrow> cache_inv (snd (readCurrent known rt a))"
  by (auto simp: cache_inv_def readCurrent_def split: sum.splits)

lemma current_reads: "snd (runtime_current known rt a) = snd (readCurrent known rt a)"
  "snd (currentAuthoritative known rt a) = snd (readCurrent known rt a)"
  by (auto simp: runtime_current_def currentAuthoritative_def split: prod.splits option.splits)

lemma published_inv:
  "cache_inv rt \<Longrightarrow> s_revision (e_snapshot e) = e_revision e \<Longrightarrow> cache_inv (snd (runtime_published rt (Inr e) n))"
  using invalidate_inv [of "rt\<lparr>rt_cached := Some (e_snapshot e)\<rparr>"] invalidate_inv [of rt]
  by (auto simp: runtime_published_def Let_def cache_inv_def)

interpretation runtime_machine: machine "runtime_step known" op_ok cache_inv for known
proof
  fix rt op
  assume "cache_inv rt" "op_ok rt op"
  then show "cache_inv (runtime_step known rt op)"
  proof (cases op)
    case (OPublished a n)
    with \<open>cache_inv rt\<close> \<open>op_ok rt op\<close> show ?thesis
      by (cases a) (simp_all add: op_ok_def published_inv, simp add: runtime_published_def)
  qed (simp_all add: current_reads read_inv invalidate_inv)
qed

text \<open>The revisions a run has told the runtime about.\<close>

definition notified :: "runtime_op \<Rightarrow> int \<Rightarrow> bool" where
  "notified op r \<longleftrightarrow> (case op of OInvalidate v \<Rightarrow> v = Whole r \<and> isRevision (Some v)
     | OPublished (Inr e) True \<Rightarrow> e_revision e = r \<and> isRevision (Some (Whole r)) | _ \<Rightarrow> False)"

lemma invalidate_highest: "rt_highest rt \<le> rt_highest (invalidate rt r)" "isRevision (Some (Whole n)) \<Longrightarrow> n \<le> rt_highest (invalidate rt (Whole n))"
  by (auto simp: invalidate_def)

lemma read_highest [simp]: "rt_highest (snd (readCurrent known rt a)) = rt_highest rt"
  by (auto simp: readCurrent_def split: sum.splits)

lemma published_highest:
  "rt_highest rt \<le> rt_highest (snd (runtime_published rt a n))"
  "isRevision (Some (Whole (e_revision e))) \<Longrightarrow> e_revision e \<le> rt_highest (snd (runtime_published rt (Inr e) True))"
  by (auto simp: runtime_published_def invalidate_def Let_def split: sum.splits)

lemma runtime_highest: "rt_highest rt \<le> rt_highest (runtime_step known rt op)" "notified op r \<Longrightarrow> r \<le> rt_highest (runtime_step known rt op)"
proof -
  show "rt_highest rt \<le> rt_highest (runtime_step known rt op)"
    by (cases op) (simp_all add: current_reads invalidate_highest published_highest)
  show "notified op r \<Longrightarrow> r \<le> rt_highest (runtime_step known rt op)"
    by (cases op) (auto simp: notified_def invalidate_highest published_highest split: sum.splits bool.splits)
qed

lemma runtime_highest_run: "rt_highest rt \<le> rt_highest (run (runtime_step known) rt ops)"
proof (induction ops arbitrary: rt)
  case (Cons x ops)
  show ?case using order_trans [OF runtime_highest(1) [of rt known x] Cons [of "runtime_step known rt x"]] by simp
qed simp

lemma notified_highest: "op \<in> set ops \<Longrightarrow> notified op r \<Longrightarrow> r \<le> rt_highest (run (runtime_step known) rt ops)"
proof (induction ops arbitrary: rt)
  case (Cons x ops)
  then show ?case using order_trans [OF runtime_highest(2) runtime_highest_run] by auto
qed simp

text \<open>
  C13. The cache never answers with a superseded policy: when the store cannot be read, what
  the runtime serves is at least as new as every revision it was notified of, otherwise the
  request fails as unavailable; and an authoritative read only ever serves a valid snapshot
  the store just answered with.
\<close>

theorem cache_never_superseded:
  assumes "run_ok (runtime_step known) op_ok fresh_runtime ops" "rt = run (runtime_step known) fresh_runtime ops"
  shows "(case fst (runtime_current known rt (Inl e)) of
      Inr s \<Rightarrow> (\<forall>op \<in> set ops. \<forall>r. notified op r \<longrightarrow> r \<le> s_revision s)
    | Inl err \<Rightarrow> err = featurePolicyUnavailable) \<and>
    (case fst (currentAuthoritative known rt a) of
      Inr s \<Rightarrow> a = Inr s \<and> validateSnapshot known s = Inr s
    | Inl err \<Rightarrow> err = featurePolicyUnavailable)"
proof -
  have "cache_inv fresh_runtime" by (simp add: cache_inv_def fresh_runtime_def)
  from runtime_machine.run_inv [OF this assms(1)] have inv: "cache_inv rt" by (simp add: assms(2))
  have "r \<le> s_revision s" if "rt_cached rt = Some s" "op \<in> set ops" "notified op r" for s op r
    using inv notified_highest [OF that(2,3), of known fresh_runtime] that(1) assms(2) by (fastforce simp: cache_inv_def)
  then show ?thesis
    by (auto simp: runtime_current_def currentAuthoritative_def readCurrent_def validateSnapshot_def sbind_Inr_iff
        split: option.splits sum.splits prod.splits)
qed

definition snap :: "int \<Rightarrow> snapshot" where
  "snap r = \<lparr>s_policy = emptyPolicy, s_revision = r\<rparr>"

theorem cache_never_superseded_witness:
  "fst (runtime_current [] (run (runtime_step []) fresh_runtime [OCurrent (Inr (snap 3)), OInvalidate (Whole 4)]) (Inl Corrupt)) =
   Inl featurePolicyUnavailable"
proof -
  let ?ops = "[OCurrent (Inr (snap 3)), OInvalidate (Whole 4)]"
  have ok: "run_ok (runtime_step []) op_ok fresh_runtime ?ops" by (simp add: op_ok_def)
  have "\<not> isl (fst (runtime_current [] (run (runtime_step []) fresh_runtime ?ops) (Inl Corrupt))) \<longrightarrow> False"
    by code_simp
  then show ?thesis
    using cache_never_superseded [OF ok refl, of Corrupt "Inl Corrupt"]
    by (cases "fst (runtime_current [] (run (runtime_step []) fresh_runtime ?ops) (Inl Corrupt))") auto
qed

section \<open>Rollback\<close>

text \<open>
  A rollback never rewrites history: accepted, it appends the next revision with exactly
  the policy of the target revision and keeps every earlier entry; refused, it leaves the
  tables as they were; and a target that was never published is reported as not found.
\<close>

theorem rollback_appends_target:
  assumes "int (length ops) < max_safe_integer" "rollback known (do_after ops) now i = (r, db')"
  shows "case r of
      Inr e \<Rightarrow> (\<exists>t. log_revision (tables_log (do_after ops)) (rb_target i) = Some t \<and>
        s_policy (e_snapshot e) = s_policy (e_snapshot t)) \<and>
        rb_base i = Whole (int (length (tables_log (do_after ops)))) \<and>
        tables_log db' = tables_log (do_after ops) @ [e] \<and> e_revision e = int (length (tables_log (do_after ops))) + 1
    | Inl err \<Rightarrow> db' = do_after ops \<and> (rollbackSchema i \<longrightarrow>
        log_revision (tables_log (do_after ops)) (rb_target i) = None \<longrightarrow> err = Some revision_not_found)"
proof -
  let ?db = "do_after ops"
  have inv: "tables_inv ?db" using do_run [of ops] assms(1) by simp
  note rev = sql_revision [OF inv, of "rb_target i"]
  have pub: "(case q of
      Inr e \<Rightarrow> s_policy (e_snapshot e) = pb_policy p \<and> pb_base p = Whole (int (length (tables_log ?db))) \<and>
        tables_log m = tables_log ?db @ [e] \<and> e_revision e = int (length (tables_log ?db)) + 1
    | Inl _ \<Rightarrow> m = ?db)" if pq: "runtime_publish known ?db now p = (q, m)" for p q m
  proof (cases q)
    case (Inl e)
    then show ?thesis using pq by (auto simp: runtime_publish_def split: sum.splits)
  next
    case (Inr e)
    obtain policy where "validate_typed known (pb_policy p) = Inr policy"
      using pq Inr by (cases "validate_typed known (pb_policy p)") (auto simp: runtime_publish_def)
    moreover from this have "policy = pb_policy p" by (auto simp: validate_typed_def split: if_splits option.splits)
    ultimately obtain p' where p': "parsePublication p = Inr p'" "do_publish ?db now p' = Inr (e, m)"
      using pq Inr by (auto simp: runtime_publish_def split: sum.splits)
    then have l: "log_publish (tables_log ?db) now p' = Inr e"
      "m = update_current (?db\<lparr>history_rows := history_rows ?db @ [row_of e]\<rparr>) e"
      using sql_publish [OF inv, of now p'] by (auto simp: sbind_Inr_iff)
    have "pb_base p' = pb_base p" "pb_policy p' = pb_policy p"
      using p'(1) by (auto simp: parsePublication_def split: if_splits)
    moreover have "pb_base p' = Whole (int (length (tables_log ?db)))"
      using l(1) by (auto simp: log_publish_def sbind_Inr_iff parsePublication_def split: if_splits)
    ultimately show ?thesis
      using log_publish_entry [OF l(1)] sql_published_inv(2) [OF inv l(1)] l(2) Inr by simp
  qed
  show ?thesis
  proof (cases "rollbackSchema i \<and> log_revision (tables_log ?db) (rb_target i) \<noteq> None")
    case False
    then show ?thesis using assms(2) by (auto simp: rollback_def rev split: if_splits)
  next
    case True
    then obtain t where t: "log_revision (tables_log ?db) (rb_target i) = Some t" by blast
    show ?thesis
    proof (cases "validateSnapshot known (e_snapshot t)")
      case (Inl e)
      then show ?thesis using assms(2) True t by (auto simp: rollback_def rev)
    next
      case (Inr s)
      then have "s = e_snapshot t" by (auto simp: validateSnapshot_def sbind_Inr_iff split: if_splits)
      then show ?thesis using assms(2) True t Inr pub by (fastforce simp: rollback_def rev split: sum.splits)
    qed
  qed
qed

theorem rollback_appends_target_witness:
  "\<exists>e db'. rollback [] (do_after sample_ops) 9000 \<lparr>rb_base = Whole 2, rb_target = Whole 1, rb_reason = ''undo'', rb_actor = sample_actor\<rparr> =
     (Inr e, db') \<and> e_revision e = 3"
proof -
  let ?i = "\<lparr>rb_base = Whole 2, rb_target = Whole 1, rb_reason = ''undo'', rb_actor = sample_actor\<rparr>"
  let ?q = "rollback [] (do_after sample_ops) 9000 ?i"
  have f: "int (length sample_ops) < max_safe_integer" "\<not> isl (fst ?q)" "length (tables_log (do_after sample_ops)) = 2"
    by code_simp+
  then obtain e where e: "?q = (Inr e, snd ?q)" by (metis isl_def prod.collapse sumE)
  from rollback_appends_target [OF f(1) e] have "e_revision e = 3" using f(3) by simp
  with e show ?thesis by blast
qed

end
