(* ===== verification/CaptchaRelay.thy ===== *)
theory CaptchaRelay
  imports Prelude "HOL-Library.Multiset"
begin

text \<open>
  The captcha relay: \<open>captcha/captcha-relay.ts\<close> (in-process coordinator),
  \<open>captcha/captcha-relay-durable-object.ts\<close> (one object per challenge) and
  \<open>captcha/captcha-relay-cloudflare.ts\<close> (its coordinator). A sign-in waits for the answer a
  person types elsewhere. Waiters are numbered; a step returns the results it delivers, each
  with its challenge and its waiter. A continuation that runs in the microtasks of the step
  that resolved it (the cleanup after a wait) belongs to that step.
\<close>

section \<open>Results and errors\<close>

datatype wait_result = Answer string | Cancelled | NotFound | TimedOut

definition CAPTCHA_RELAY_TIMEOUT_MS :: int where "CAPTCHA_RELAY_TIMEOUT_MS = 2 * 60000"

definition captchaRelayNotFound :: hyeboard_error where
  "captchaRelayNotFound = \<lparr>err_code = ''STUDENTHUB_CAPTCHA_CHALLENGE_NOT_FOUND'',
     err_message = ''This verification code request has expired or already been answered.'', err_status = 404, err_details = []\<rparr>"

definition captchaRelayTimeout :: hyeboard_error where
  "captchaRelayTimeout = \<lparr>err_code = ''STUDENTHUB_CAPTCHA_TIMEOUT'',
     err_message = ''No verification code was entered in time. Try signing in again.'', err_status = 408, err_details = []\<rparr>"

definition captchaRelayCancelled :: hyeboard_error where
  "captchaRelayCancelled = \<lparr>err_code = ''STUDENTHUB_CAPTCHA_CANCELLED'',
     err_message = ''Verification code request cancelled.'', err_status = 499, err_details = []\<rparr>"

fun unwrap :: "wait_result \<Rightarrow> hyeboard_error + string" where
  "unwrap (Answer a) = Inr a"
| "unwrap TimedOut = Inl captchaRelayTimeout"
| "unwrap Cancelled = Inl captchaRelayCancelled"
| "unwrap NotFound = Inl captchaRelayNotFound"

type_synonym 'c delivery = "'c \<times> nat \<times> wait_result"

definition deliver_all :: "'c \<Rightarrow> nat list \<Rightarrow> wait_result \<Rightarrow> 'c delivery list" where
  "deliver_all c ws r = map (\<lambda>w. (c, w, r)) ws"

section \<open>The in-process coordinator\<close>

record local_relay =
  lr_answer :: "string option"
  lr_waiters :: "nat list"

text \<open>The answered status is an answer that is present.\<close>

type_synonym local_relays = "(string \<times> local_relay) list"

text \<open>
  \<open>prepare\<close> draws identifiers until one is unused: here from a list, \<open>None\<close> when all of them
  are in use and the loop would go on drawing.
\<close>

definition local_prepare :: "local_relays \<Rightarrow> string list \<Rightarrow> string option \<times> local_relays" where
  "local_prepare rs ids = (case List.find (\<lambda>i. map_of rs i = None) ids of
     None \<Rightarrow> (None, rs)
   | Some i \<Rightarrow> (Some i, rs @ [(i, \<lparr>lr_answer = None, lr_waiters = []\<rparr>)]))"

definition local_clear :: "local_relays \<Rightarrow> string \<Rightarrow> local_relays" where
  "local_clear rs i = AList.delete i rs"

definition local_resolve :: "local_relays \<Rightarrow> string \<Rightarrow> string \<Rightarrow> local_relays \<times> string delivery list" where
  "local_resolve rs i a = (case map_of rs i of None \<Rightarrow> (rs, [])
     | Some r \<Rightarrow> (local_clear rs i, deliver_all i (lr_waiters r) (Answer a)))"

definition local_reject :: "local_relays \<Rightarrow> string \<Rightarrow> wait_result \<Rightarrow> local_relays \<times> string delivery list" where
  "local_reject rs i res = (case map_of rs i of None \<Rightarrow> (rs, [])
     | Some r \<Rightarrow> (local_clear rs i, deliver_all i (lr_waiters r) res))"

definition local_cancel :: "local_relays \<Rightarrow> string \<Rightarrow> local_relays \<times> string delivery list" where
  "local_cancel rs i = local_reject rs i Cancelled"

text \<open>The Boolean says whether the answer was accepted; otherwise \<open>captchaRelayNotFound\<close> is thrown.\<close>

definition local_answer :: "local_relays \<Rightarrow> string \<Rightarrow> string \<Rightarrow> bool \<times> local_relays \<times> string delivery list" where
  "local_answer rs i a = (case map_of rs i of
     None \<Rightarrow> (False, rs, [])
   | Some r \<Rightarrow>
       if lr_answer r \<noteq> None then (False, rs, [])
       else if lr_waiters r = [] then (True, AList.update i (r\<lparr>lr_answer := Some a\<rparr>) rs, [])
       else (True, local_resolve rs i a))"

definition local_wait :: "local_relays \<Rightarrow> string \<Rightarrow> nat \<Rightarrow> bool \<Rightarrow> local_relays \<times> string delivery list" where
  "local_wait rs i w aborted = (case map_of rs i of
     None \<Rightarrow> (rs, [(i, w, NotFound)])
   | Some r \<Rightarrow> (case lr_answer r of
       Some a \<Rightarrow> (local_clear rs i, [(i, w, Answer a)])
     | None \<Rightarrow>
         if aborted then (case local_cancel rs i of (rs', ds) \<Rightarrow> (rs', ds @ [(i, w, Cancelled)]))
         else (AList.update i (r\<lparr>lr_waiters := lr_waiters r @ [w]\<rparr>) rs, [])))"

text \<open>Requests and events: an abort of a waiter's signal cancels its challenge; the timer rejects it.\<close>

datatype local_op =
    LPrepare "string list"
  | LAnswer string string
  | LWait string nat bool
  | LCancel string
  | LAbort string
  | LTimeout string

fun local_step :: "local_relays \<Rightarrow> local_op \<Rightarrow> local_relays \<times> string delivery list" where
  "local_step rs (LPrepare ids) = (snd (local_prepare rs ids), [])"
| "local_step rs (LAnswer i a) = snd (local_answer rs i a)"
| "local_step rs (LWait i w aborted) = local_wait rs i w aborted"
| "local_step rs (LCancel i) = local_cancel rs i"
| "local_step rs (LAbort i) = local_cancel rs i"
| "local_step rs (LTimeout i) = local_reject rs i TimedOut"

section \<open>The durable object\<close>

datatype relay_status = Pending | Answered | StatusCancelled | OtherStatus

record relay_row =
  rr_status :: relay_status
  rr_answer :: "string option"
  rr_expires :: int

record relay_object =
  ro_row :: "relay_row option"
  ro_waiters :: "nat list"
  ro_alarm :: "int option"

definition empty_relay :: relay_object where
  "empty_relay = \<lparr>ro_row = None, ro_waiters = [], ro_alarm = None\<rparr>"

definition relay_cleanup :: "relay_object \<Rightarrow> relay_object" where
  "relay_cleanup o' = o'\<lparr>ro_row := None, ro_alarm := None\<rparr>"

definition relay_prepare :: "relay_object \<Rightarrow> int \<Rightarrow> bool \<times> relay_object" where
  "relay_prepare o' expiresAt = (if ro_row o' \<noteq> None then (False, o')
     else (True, o'\<lparr>ro_row := Some \<lparr>rr_status = Pending, rr_answer = None, rr_expires = expiresAt\<rparr>, ro_alarm := Some expiresAt\<rparr>))"

text \<open>Each waiter that is resolved resumes with the cleanup; without waiters nothing is cleaned.\<close>

definition resolveWaiters :: "relay_object \<Rightarrow> wait_result \<Rightarrow> relay_object \<times> unit delivery list" where
  "resolveWaiters o' res = (
     let o1 = o'\<lparr>ro_waiters := []\<rparr>
     in (if ro_waiters o' = [] then o1 else relay_cleanup o1, deliver_all () (ro_waiters o') res))"

definition relay_wait :: "relay_object \<Rightarrow> int \<Rightarrow> nat \<Rightarrow> relay_object \<times> unit delivery list" where
  "relay_wait o' now w = (case ro_row o' of
     None \<Rightarrow> (o', [((), w, NotFound)])
   | Some row \<Rightarrow>
       if rr_expires row \<le> now then (relay_cleanup o', [((), w, TimedOut)])
       else case (rr_status row, rr_answer row) of
         (Answered, Some a) \<Rightarrow> (relay_cleanup o', [((), w, Answer a)])
       | (StatusCancelled, _) \<Rightarrow> (relay_cleanup o', [((), w, Cancelled)])
       | (Pending, _) \<Rightarrow> (o'\<lparr>ro_waiters := ro_waiters o' @ [w]\<rparr>, [])
       | _ \<Rightarrow> (relay_cleanup o', [((), w, NotFound)]))"

definition relay_answer :: "relay_object \<Rightarrow> int \<Rightarrow> string \<Rightarrow> bool \<times> relay_object \<times> unit delivery list" where
  "relay_answer o' now a = (case ro_row o' of
     None \<Rightarrow> (False, o', [])
   | Some row \<Rightarrow>
       if rr_status row \<noteq> Pending \<or> rr_expires row \<le> now then (False, o', [])
       else (True, resolveWaiters (o'\<lparr>ro_row := Some (row\<lparr>rr_status := Answered, rr_answer := Some a\<rparr>)\<rparr>) (Answer a)))"

definition relay_cancel :: "relay_object \<Rightarrow> bool \<times> relay_object \<times> unit delivery list" where
  "relay_cancel o' = (case ro_row o' of
     None \<Rightarrow> (False, o', [])
   | Some row \<Rightarrow>
       if rr_status row \<noteq> Pending then (False, o', [])
       else (case resolveWaiters (o'\<lparr>ro_row := Some (row\<lparr>rr_status := StatusCancelled, rr_answer := None\<rparr>)\<rparr>) Cancelled of
         (o1, ds) \<Rightarrow> (True, relay_cleanup o1, ds)))"

definition relay_alarm :: "relay_object \<Rightarrow> relay_object \<times> unit delivery list" where
  "relay_alarm o' = (case (if ro_row o' \<noteq> None then resolveWaiters o' TimedOut else (o', [])) of
     (o1, ds) \<Rightarrow> (relay_cleanup o1, ds))"

datatype relay_op =
    DPrepare int
  | DAnswer int string
  | DWait int nat
  | DCancelRelay
  | DAlarm

fun relay_step :: "relay_object \<Rightarrow> relay_op \<Rightarrow> relay_object \<times> unit delivery list" where
  "relay_step o' (DPrepare e) = (snd (relay_prepare o' e), [])"
| "relay_step o' (DAnswer now a) = snd (relay_answer o' now a)"
| "relay_step o' (DWait now w) = relay_wait o' now w"
| "relay_step o' DCancelRelay = snd (relay_cancel o')"
| "relay_step o' DAlarm = relay_alarm o'"

section \<open>The coordinator of the durable objects\<close>

type_synonym relay_ns = "string \<Rightarrow> relay_object"

definition relay_failed :: hyeboard_error where
  "relay_failed = \<lparr>err_code = ''STUDENTHUB_CAPTCHA_RELAY_FAILED'',
     err_message = ''Could not create a verification code request.'', err_status = 500, err_details = []\<rparr>"

text \<open>Three attempts, each with an identifier and the clock of its own.\<close>

fun try_prepare :: "relay_ns \<Rightarrow> (string \<times> int) list \<Rightarrow> int \<Rightarrow> (hyeboard_error + string) \<times> relay_ns" where
  "try_prepare ns [] timeout = (Inl relay_failed, ns)"
| "try_prepare ns ((i, now) # ids) timeout = (case relay_prepare (ns i) (now + timeout) of
     (True, o') \<Rightarrow> (Inr i, ns(i := o'))
   | (False, o') \<Rightarrow> try_prepare (ns(i := o')) ids timeout)"

definition coordinator_prepare :: "relay_ns \<Rightarrow> (nat \<Rightarrow> string \<times> int) \<Rightarrow> int \<Rightarrow> (hyeboard_error + string) \<times> relay_ns" where
  "coordinator_prepare ns draw timeout = try_prepare ns (map draw [0..<3]) timeout"

definition coordinator_answer ::
  "relay_ns \<Rightarrow> string \<Rightarrow> int \<Rightarrow> string \<Rightarrow> (hyeboard_error + unit) \<times> relay_ns \<times> unit delivery list" where
  "coordinator_answer ns i now a = (case relay_answer (ns i) now a of
     (accepted, o', ds) \<Rightarrow> (if accepted then Inr () else Inl captchaRelayNotFound, ns(i := o'), ds))"

end
