(* ===== verification/CaptchaRelayProps.thy ===== *)
theory CaptchaRelayProps
  imports CaptchaRelay
begin

text \<open>
  Properties of the captcha relay, from an interface both implementations provide: who waits
  is answered exactly once, with an answer that was accepted for the challenge.
\<close>

definition served :: "'c delivery list \<Rightarrow> nat multiset" where
  "served ds = mset (map (\<lambda>(_, w, _). w) ds)"

lemma served_simps [simp]:
  "served [] = {#}" "served (ds @ es) = served ds + served es" "served ((c, w, r) # ds) = add_mset w (served ds)"
  "served (deliver_all c ws r) = mset ws"
  by (simp_all add: served_def deliver_all_def comp_def)

section \<open>The interface\<close>

text \<open>
  \<open>waiting\<close> are the waiters not yet answered, \<open>arrives\<close> the one a step adds; \<open>held\<close> says that a
  challenge holds an accepted answer, \<open>open\<close> that it can still accept one.
\<close>

locale relay =
  fixes step :: "'s \<Rightarrow> 'op \<Rightarrow> 's \<times> 'c delivery list"
    and waiting :: "'s \<Rightarrow> nat multiset"
    and arrives :: "'op \<Rightarrow> nat multiset"
    and held :: "'s \<Rightarrow> 'c \<Rightarrow> string \<Rightarrow> bool"
    and accepts :: "'s \<Rightarrow> 'op \<Rightarrow> 'c \<Rightarrow> string \<Rightarrow> bool"
    and open_for :: "'s \<Rightarrow> 'c \<Rightarrow> bool"
    and prepares :: "'s \<Rightarrow> 'op \<Rightarrow> 'c \<Rightarrow> bool"
    and inv :: "'s \<Rightarrow> bool"
  assumes step_inv: "inv s \<Longrightarrow> inv (fst (step s x))"
    and conserve: "inv s \<Longrightarrow> waiting (fst (step s x)) + served (snd (step s x)) = waiting s + arrives x"
    and answer_source: "inv s \<Longrightarrow> (c, w, Answer a) \<in> set (snd (step s x)) \<Longrightarrow> held s c a \<or> accepts s x c a"
    and held_source: "inv s \<Longrightarrow> held (fst (step s x)) c a \<Longrightarrow> held s c a \<or> accepts s x c a"
    and accept_open: "inv s \<Longrightarrow> accepts s x c a \<Longrightarrow> open_for s c \<and> \<not> open_for (fst (step s x)) c"
    and open_source: "inv s \<Longrightarrow> open_for (fst (step s x)) c \<Longrightarrow> open_for s c \<or> prepares s x c"

fun relay_run :: "('s \<Rightarrow> 'op \<Rightarrow> 's \<times> 'c delivery list) \<Rightarrow> 's \<Rightarrow> 'op list \<Rightarrow> 's \<times> 'c delivery list" where
  "relay_run step s [] = (s, [])"
| "relay_run step s (x # xs) = 
     (fst (relay_run step (fst (step s x)) xs), snd (step s x) @ snd (relay_run step (fst (step s x)) xs))"

text \<open>The acceptances of a run: the challenges and answers, in order, with the preparations between.\<close>

fun accepted_in :: "('s \<Rightarrow> 'op \<Rightarrow> 's \<times> 'c delivery list) \<Rightarrow> ('s \<Rightarrow> 'op \<Rightarrow> 'c \<Rightarrow> string \<Rightarrow> bool) \<Rightarrow> 's \<Rightarrow> 'op list \<Rightarrow> 'c \<Rightarrow> string \<Rightarrow> bool" where
  "accepted_in step accepts s [] c a = False"
| "accepted_in step accepts s (x # xs) c a = (accepts s x c a \<or> accepted_in step accepts (fst (step s x)) xs c a)"

fun prepared_in :: "('s \<Rightarrow> 'op \<Rightarrow> 's \<times> 'c delivery list) \<Rightarrow> ('s \<Rightarrow> 'op \<Rightarrow> 'c \<Rightarrow> bool) \<Rightarrow> 's \<Rightarrow> 'op list \<Rightarrow> 'c \<Rightarrow> bool" where
  "prepared_in step prepares s [] c = False"
| "prepared_in step prepares s (x # xs) c = (prepares s x c \<or> prepared_in step prepares (fst (step s x)) xs c)"

context relay
begin

lemma run_inv: "inv s \<Longrightarrow> inv (fst (relay_run step s xs))"
  by (induction xs arbitrary: s) (auto simp: step_inv)

lemma run_conserve:
  "inv s \<Longrightarrow> waiting (fst (relay_run step s xs)) + served (snd (relay_run step s xs)) =
   waiting s + (\<Sum>x\<leftarrow>xs. arrives x)"
proof (induction xs arbitrary: s)
  case (Cons x xs)
  let ?s1 = "fst (step s x)"
  let ?q = "relay_run step ?s1 xs"
  have "waiting (fst ?q) + (served (snd (step s x)) + served (snd ?q)) = (waiting (fst ?q) + served (snd ?q)) + served (snd (step s x))"
    by (simp only: ac_simps)
  also have "\<dots> = (waiting ?s1 + (\<Sum>x\<leftarrow>xs. arrives x)) + served (snd (step s x))"
    using Cons.IH [OF step_inv [OF Cons.prems]] by simp
  also have "\<dots> = (waiting ?s1 + served (snd (step s x))) + (\<Sum>x\<leftarrow>xs. arrives x)" by (simp only: ac_simps)
  also have "\<dots> = waiting s + arrives x + (\<Sum>x\<leftarrow>xs. arrives x)" using conserve [OF Cons.prems] by simp
  finally show ?case by (simp add: ac_simps)
qed simp

lemma run_answer:
  "inv s \<Longrightarrow> (c, w, Answer a) \<in> set (snd (relay_run step s xs)) \<Longrightarrow> held s c a \<or> accepted_in step accepts s xs c a"
proof (induction xs arbitrary: s)
  case (Cons x xs)
  then show ?case
    using answer_source [of s c w a x] held_source [of s x c a] step_inv [of s x] by auto
qed simp

lemma run_reopened:
  "inv s \<Longrightarrow> \<not> open_for s c \<Longrightarrow> accepted_in step accepts s xs c a \<Longrightarrow> prepared_in step prepares s xs c"
proof (induction xs arbitrary: s)
  case (Cons x xs)
  then show ?case using accept_open [of s x c a] open_source [of s x c] step_inv [of s x] by auto
qed simp

lemma accept_once:
  assumes "inv s" "accepts s x c a" "accepted_in step accepts (fst (step s x)) xs c b"
  shows "prepared_in step prepares (fst (step s x)) xs c"
  using run_reopened [OF step_inv [OF assms(1)]] accept_open [OF assms(1,2)] assms(3) by blast

end

section \<open>The in-process coordinator\<close>

definition local_waiting :: "local_relays \<Rightarrow> nat multiset" where
  "local_waiting rs = (\<Sum>(_, r)\<leftarrow>rs. mset (lr_waiters r))"

fun local_arrives :: "local_op \<Rightarrow> nat multiset" where
  "local_arrives (LWait i w ab) = {#w#}"
| "local_arrives _ = {#}"

definition local_held :: "local_relays \<Rightarrow> string \<Rightarrow> string \<Rightarrow> bool" where
  "local_held rs i a \<longleftrightarrow> (\<exists>r. map_of rs i = Some r \<and> lr_answer r = Some a)"

fun local_accepts :: "local_relays \<Rightarrow> local_op \<Rightarrow> string \<Rightarrow> string \<Rightarrow> bool" where
  "local_accepts rs (LAnswer i a) c b = (c = i \<and> b = a \<and> fst (local_answer rs i a))"
| "local_accepts rs _ c b = False"

definition local_open :: "local_relays \<Rightarrow> string \<Rightarrow> bool" where
  "local_open rs i \<longleftrightarrow> (\<exists>r. map_of rs i = Some r \<and> lr_answer r = None)"

fun local_prepares :: "local_relays \<Rightarrow> local_op \<Rightarrow> string \<Rightarrow> bool" where
  "local_prepares rs (LPrepare ids) c = (fst (local_prepare rs ids) = Some c)"
| "local_prepares rs _ c = False"

text \<open>An answered relay has no waiters.\<close>

definition local_inv :: "local_relays \<Rightarrow> bool" where
  "local_inv rs \<longleftrightarrow> distinct (map fst rs) \<and> (\<forall>(i, r) \<in> set rs. lr_answer r \<noteq> None \<longrightarrow> lr_waiters r = [])"

lemma local_waiting_simps [simp]:
  "local_waiting [] = {#}" "local_waiting ((i, r) # rs) = mset (lr_waiters r) + local_waiting rs"
  "local_waiting (rs @ rs') = local_waiting rs + local_waiting rs'"
  by (simp_all add: local_waiting_def)

lemma waiting_delete:
  "distinct (map fst rs) \<Longrightarrow> map_of rs i = Some r \<Longrightarrow>
   local_waiting rs = mset (lr_waiters r) + local_waiting (AList.delete i rs)"
proof (induction rs)
  case (Cons x rs)
  then show ?case by (cases x) (auto simp: delete_idem ac_simps)
qed simp

lemma waiting_update:
  "distinct (map fst rs) \<Longrightarrow> map_of rs i = Some r \<Longrightarrow>
   local_waiting (AList.update i r' rs) = mset (lr_waiters r') + local_waiting (AList.delete i rs)"
proof (induction rs)
  case (Cons x rs)
  then show ?case by (cases x) (auto simp: delete_idem ac_simps)
qed simp

lemma local_invD: "local_inv rs \<Longrightarrow> distinct (map fst rs)"
  "local_inv rs \<Longrightarrow> map_of rs i = Some r \<Longrightarrow> lr_answer r \<noteq> None \<Longrightarrow> lr_waiters r = []"
  by (auto simp: local_inv_def dest!: map_of_SomeD)

lemma local_inv_delete: "local_inv rs \<Longrightarrow> local_inv (AList.delete i rs)"
  by (auto simp: local_inv_def AList.delete_eq)

lemma local_inv_update: "local_inv rs \<Longrightarrow> (lr_answer r \<noteq> None \<longrightarrow> lr_waiters r = []) \<Longrightarrow> local_inv (AList.update i r rs)"
  using set_update_subset [of i r rs] distinct_update_keys [of rs i r] by (fastforce simp: local_inv_def)

lemma local_inv_prepare: "local_inv rs \<Longrightarrow> local_inv (snd (local_prepare rs ids))"
  by (auto simp: local_inv_def local_prepare_def find_Some_iff map_of_eq_None_iff split: option.splits)

lemma local_reject_facts:
  assumes "local_inv rs"
  shows "local_inv (fst (local_reject rs i r))"
    "local_waiting (fst (local_reject rs i r)) + served (snd (local_reject rs i r)) = local_waiting rs"
  using assms waiting_delete [OF local_invD(1) [OF assms], of i]
  by (auto simp: local_reject_def local_clear_def local_inv_delete ac_simps split: option.splits)

lemmas local_op_defs = local_answer_def local_resolve_def local_clear_def local_wait_def local_cancel_def split_beta

lemma local_step_inv: "local_inv rs \<Longrightarrow> local_inv (fst (local_step rs x))"
  by (cases x) (auto simp: local_inv_prepare local_op_defs local_reject_facts local_inv_update local_inv_delete
      local_invD split: option.splits)

lemma local_conserve:
  assumes "local_inv rs"
  shows "local_waiting (fst (local_step rs x)) + served (snd (local_step rs x)) = local_waiting rs + local_arrives x"
proof (cases x)
  case (LPrepare ids)
  then show ?thesis by (auto simp: local_prepare_def split: option.splits)
next
  case (LAnswer i a)
  then show ?thesis
    using waiting_delete [OF local_invD(1) [OF assms], of i] waiting_update [OF local_invD(1) [OF assms], of i]
    by (auto simp: local_op_defs ac_simps split: option.splits)
next
  case (LWait i w ab)
  then show ?thesis
    using waiting_delete [OF local_invD(1) [OF assms], of i] waiting_update [OF local_invD(1) [OF assms], of i]
      local_invD(2) [OF assms, of i] local_reject_facts(2) [OF assms, of i Cancelled]
    by (auto simp: local_op_defs ac_simps split: option.splits)
qed (auto simp: local_op_defs local_reject_facts(2) [OF assms])

lemma local_reject_answers: "(c, w, Answer a) \<notin> set (snd (local_reject rs i Cancelled))" "(c, w, Answer a) \<notin> set (snd (local_reject rs i TimedOut))"
  by (auto simp: local_reject_def deliver_all_def split: option.splits)

lemma local_answer_source:
  "local_inv rs \<Longrightarrow> (c, w, Answer a) \<in> set (snd (local_step rs x)) \<Longrightarrow> local_held rs c a \<or> local_accepts rs x c a"
  by (cases x) (auto simp: local_op_defs local_reject_answers local_held_def deliver_all_def split: option.splits if_splits)

lemma map_of_delete_absent: "map_of (AList.delete i rs) c = (if c = i then None else map_of rs c)"
  by (simp add: AList.delete_conv')

lemma map_of_reject: "map_of (fst (local_reject rs i r)) c = (if c = i then None else map_of rs c)"
  by (auto simp: local_reject_def local_clear_def map_of_delete_absent split: option.splits)

lemma map_of_prepare:
  "map_of (snd (local_prepare rs ids)) c = (if fst (local_prepare rs ids) = Some c then Some \<lparr>lr_answer = None, lr_waiters = []\<rparr> else map_of rs c)"
  by (auto simp: local_prepare_def find_Some_iff map_add_def split: option.splits)

lemma local_held_source:
  "local_inv rs \<Longrightarrow> local_held (fst (local_step rs x)) c a \<Longrightarrow> local_held rs c a \<or> local_accepts rs x c a"
  by (cases x) (auto simp: local_held_def local_op_defs map_of_reject map_of_prepare map_of_delete_absent alist_simps
      split: option.splits if_splits)

lemma local_accept_open:
  "local_inv rs \<Longrightarrow> local_accepts rs x c a \<Longrightarrow> local_open rs c \<and> \<not> local_open (fst (local_step rs x)) c"
  by (cases x) (auto simp: local_open_def local_op_defs map_of_delete_absent alist_simps split: option.splits if_splits)

lemma local_open_source:
  "local_inv rs \<Longrightarrow> local_open (fst (local_step rs x)) c \<Longrightarrow> local_open rs c \<or> local_prepares rs x c"
  by (cases x) (auto simp: local_open_def local_op_defs map_of_reject map_of_prepare map_of_delete_absent alist_simps
      split: option.splits if_splits)

interpretation local_relay: relay local_step local_waiting local_arrives local_held local_accepts local_open local_prepares local_inv
  using local_step_inv local_conserve local_answer_source local_held_source local_accept_open local_open_source
  by unfold_locales blast+

section \<open>The durable object\<close>

fun relay_arrives :: "relay_op \<Rightarrow> nat multiset" where
  "relay_arrives (DWait now w) = {#w#}"
| "relay_arrives _ = {#}"

definition relay_held :: "relay_object \<Rightarrow> unit \<Rightarrow> string \<Rightarrow> bool" where
  "relay_held o' u a \<longleftrightarrow> (\<exists>row. ro_row o' = Some row \<and> rr_status row = Answered \<and> rr_answer row = Some a)"

fun relay_accepts :: "relay_object \<Rightarrow> relay_op \<Rightarrow> unit \<Rightarrow> string \<Rightarrow> bool" where
  "relay_accepts o' (DAnswer now a) u b = (b = a \<and> fst (relay_answer o' now a))"
| "relay_accepts o' _ u b = False"

definition relay_open :: "relay_object \<Rightarrow> unit \<Rightarrow> bool" where
  "relay_open o' u \<longleftrightarrow> (\<exists>row. ro_row o' = Some row \<and> rr_status row = Pending)"

fun relay_prepares :: "relay_object \<Rightarrow> relay_op \<Rightarrow> unit \<Rightarrow> bool" where
  "relay_prepares o' (DPrepare e) u = fst (relay_prepare o' e)"
| "relay_prepares o' _ u = False"

lemmas relay_op_defs = relay_prepare_def relay_wait_def relay_answer_def relay_cancel_def relay_alarm_def resolveWaiters_def
  relay_cleanup_def Let_def split_beta

lemma relay_conserve:
  "mset (ro_waiters (fst (relay_step o' x))) + served (snd (relay_step o' x)) = mset (ro_waiters o') + relay_arrives x"
  by (cases x) (auto simp: relay_op_defs split: option.splits relay_status.splits)

lemma relay_answer_source:
  "(c, w, Answer a) \<in> set (snd (relay_step o' x)) \<Longrightarrow> relay_held o' c a \<or> relay_accepts o' x c a"
  by (cases x) (auto simp: relay_op_defs relay_held_def deliver_all_def split: option.splits relay_status.splits if_splits)

lemma relay_held_source:
  "relay_held (fst (relay_step o' x)) c a \<Longrightarrow> relay_held o' c a \<or> relay_accepts o' x c a"
  by (cases x) (auto simp: relay_op_defs relay_held_def split: option.splits relay_status.splits if_splits)

lemma relay_accept_open: "relay_accepts o' x c a \<Longrightarrow> relay_open o' c \<and> \<not> relay_open (fst (relay_step o' x)) c"
  by (cases x) (auto simp: relay_op_defs relay_open_def split: option.splits relay_status.splits if_splits)

lemma relay_open_source: "relay_open (fst (relay_step o' x)) c \<Longrightarrow> relay_open o' c \<or> relay_prepares o' x c"
  by (cases x) (auto simp: relay_op_defs relay_open_def split: option.splits relay_status.splits if_splits)

interpretation object_relay: relay relay_step "\<lambda>o'. mset (ro_waiters o')" relay_arrives relay_held relay_accepts relay_open relay_prepares "\<lambda>_. True"
  using relay_conserve relay_answer_source relay_held_source relay_accept_open relay_open_source
  by unfold_locales blast+

section \<open>Properties\<close>

lemma local_inv_empty: "local_inv []"
  by (simp add: local_inv_def)

text \<open>
  C14. Nobody who waits is forgotten or answered twice: over every sequence of requests,
  aborts and timeouts, in both implementations, the waits asked for are exactly those
  answered and those still pending, waiter by waiter.
\<close>

theorem relay_conserves_waiters:
  "local_waiting (fst (relay_run local_step [] xs)) + served (snd (relay_run local_step [] xs)) = (\<Sum>x\<leftarrow>xs. local_arrives x) \<and>
   mset (ro_waiters (fst (relay_run relay_step empty_relay ys))) + served (snd (relay_run relay_step empty_relay ys)) =
     (\<Sum>y\<leftarrow>ys. relay_arrives y)"
  using local_relay.run_conserve [OF local_inv_empty, of xs] object_relay.run_conserve [of empty_relay ys]
  by (simp add: empty_relay_def)

text \<open>
  A waiter is only ever given an answer that was accepted for its own challenge in the
  run, and a challenge accepts one answer: a second one is accepted only after the same
  identifier was prepared afresh in between.
\<close>

theorem relay_answers_authentic:
  "((c, w, Answer a) \<in> set (snd (relay_run local_step [] xs)) \<longrightarrow> accepted_in local_step local_accepts [] xs c a) \<and>
   (((), v, Answer b) \<in> set (snd (relay_run relay_step empty_relay ys)) \<longrightarrow> accepted_in relay_step relay_accepts empty_relay ys () b) \<and>
   (local_accepts (fst (relay_run local_step [] xs)) x c a \<longrightarrow>
      accepted_in local_step local_accepts (fst (local_step (fst (relay_run local_step [] xs)) x)) xs' c a' \<longrightarrow>
      prepared_in local_step local_prepares (fst (local_step (fst (relay_run local_step [] xs)) x)) xs' c) \<and>
   (relay_accepts s y () b \<longrightarrow> accepted_in relay_step relay_accepts (fst (relay_step s y)) ys' () b' \<longrightarrow>
      prepared_in relay_step relay_prepares (fst (relay_step s y)) ys' ())"
proof -
  have "\<not> local_held [] c a" "\<not> relay_held empty_relay () b" by (simp_all add: local_held_def relay_held_def empty_relay_def)
  then show ?thesis
    using local_relay.run_answer [OF local_inv_empty, where c = c and w = w and a = a and xs = xs] object_relay.run_answer [where s = empty_relay and c = "()" and w = v and a = b and xs = ys]
      local_relay.accept_once [OF local_relay.run_inv [OF local_inv_empty]] object_relay.accept_once [where s = s and x = y and c = "()" and a = b]
    by blast
qed

theorem relay_answers_authentic_witness:
  "accepted_in relay_step relay_accepts empty_relay [DPrepare 120000, DWait 1000 7, DAnswer 2000 ''x1''] () ''x1''"
proof -
  let ?ys = "[DPrepare 120000, DWait 1000 7, DAnswer 2000 ''x1'']"
  have "((), 7, Answer ''x1'') \<in> set (snd (relay_run relay_step empty_relay ?ys))" by code_simp
  then show ?thesis using relay_answers_authentic by blast
qed

text \<open>
  A wait that comes after the expiry and before the alarm strands the waiters before it:
  it deletes the row and the alarm without resolving them, and from then on no answer, no
  cancellation and no alarm reaches them.
\<close>

theorem late_wait_strands_waiter:
  "let s = fst (relay_run relay_step empty_relay [DPrepare 120000, DWait 1000 7, DWait 120001 8])
   in ro_waiters s = [7] \<and> ro_row s = None \<and> ro_alarm s = None \<and>
      (\<forall>now a. relay_step s (DAnswer now a) = (s, [])) \<and> relay_step s DCancelRelay = (s, []) \<and> relay_step s DAlarm = (s, [])"
proof -
  have "fst (relay_run relay_step empty_relay [DPrepare 120000, DWait 1000 7, DWait 120001 8]) =
      \<lparr>ro_row = None, ro_waiters = [7], ro_alarm = None\<rparr>"
    by code_simp
  then show ?thesis
    by (simp add: relay_answer_def relay_cancel_def relay_alarm_def relay_cleanup_def)
qed

end
