(* ===== verification/JsText.thy ===== *)
theory JsText
  imports Prelude
begin

text \<open>
  Strings and lists as the JavaScript library treats them: decimal digits, the canonical
  integers the settings accept, zero padding, and \<open>Array.prototype.sort\<close> with a comparison
  the engine provides (\<open>localeCompare\<close> depends on its locale data, so that the comparison is a
  parameter and the lemmas hold for each).
\<close>

section \<open>Decimal digits and canonical integers\<close>

text \<open>\<open>/^(?:0|[1-9]\d*)$/\<close>\<close>

definition digit_chars :: string where "digit_chars = ''0123456789''"

definition all_digits :: "string \<Rightarrow> bool" where
  "all_digits s \<longleftrightarrow> list_all (\<lambda>c. c \<in> set digit_chars) s"

definition canonical_integer :: "string \<Rightarrow> bool" where
  "canonical_integer s \<longleftrightarrow> s = ''0'' \<or> (s \<noteq> [] \<and> hd s \<noteq> CHR ''0'' \<and> all_digits s)"

text \<open>
  \<open>Number(s)\<close> on a string of decimal digits, exactly. A double rounds above
  \<open>Number.MAX_SAFE_INTEGER\<close>, but never back into the safe range, so that
  \<open>Number.isSafeInteger(Number(s))\<close> is decided by the exact value.
\<close>

definition digit_of :: "char \<Rightarrow> int" where
  "digit_of c = int (of_char c) - 48"

definition number_of :: "string \<Rightarrow> int" where
  "number_of s = foldl (\<lambda>n c. 10 * n + digit_of c) 0 s"

definition safe_decimal :: "string \<Rightarrow> int option" where
  "safe_decimal s = (if canonical_integer s \<and> safe_integer (number_of s) then Some (number_of s) else None)"

lemma digit_of_bounds: "c \<in> set digit_chars \<Longrightarrow> 0 \<le> digit_of c \<and> digit_of c \<le> 9"
  unfolding digit_chars_def digit_of_def by auto

lemma foldl_number_nonneg:
  "0 \<le> n \<Longrightarrow> all_digits s \<Longrightarrow> 0 \<le> foldl (\<lambda>n c. 10 * n + digit_of c) n s"
proof (induction s arbitrary: n)
  case Nil
  then show ?case by simp
next
  case (Cons c s)
  then have "0 \<le> 10 * n + digit_of c" "all_digits s"
    using digit_of_bounds [of c] by (auto simp: all_digits_def)
  with Cons.IH show ?case by simp
qed

lemma number_of_nonneg: "all_digits s \<Longrightarrow> 0 \<le> number_of s"
  unfolding number_of_def by (rule foldl_number_nonneg) simp

lemma canonical_all_digits: "canonical_integer s \<Longrightarrow> all_digits s"
  by (auto simp: canonical_integer_def all_digits_def digit_chars_def)

lemma safe_decimal_bounds:
  "safe_decimal s = Some n \<Longrightarrow> 0 \<le> n \<and> n \<le> max_safe_integer"
  unfolding safe_decimal_def
  by (auto simp: safe_integer_def split: if_splits intro: number_of_nonneg dest: canonical_all_digits)

section \<open>Padding\<close>

text \<open>The decimal digits of a number, padded with zeros to a width.\<close>

definition digit_char :: "int \<Rightarrow> char" where
  "digit_char d = char_of (nat (48 + d))"

fun padded :: "nat \<Rightarrow> int \<Rightarrow> string" where
  "padded 0 n = []"
| "padded (Suc k) n = padded k (n div 10) @ [digit_char (n mod 10)]"

lemma digit_of_digit_char: "0 \<le> d \<Longrightarrow> d < 10 \<Longrightarrow> digit_of (digit_char d) = d"
  by (simp add: digit_of_def digit_char_def of_char_of)

lemma number_of_snoc: "number_of (s @ [c]) = 10 * number_of s + digit_of c"
  by (simp add: number_of_def)

lemma length_padded [simp]: "length (padded k n) = k"
  by (induction k arbitrary: n) auto

lemma number_of_padded: "0 \<le> n \<Longrightarrow> n < 10 ^ k \<Longrightarrow> number_of (padded k n) = n"
proof (induction k arbitrary: n)
  case 0
  then show ?case by (simp add: number_of_def)
next
  case (Suc k)
  then have "n div 10 < 10 ^ k" by (simp add: div_less_iff_less_mult mult.commute)
  with Suc show ?case
    by (simp add: number_of_snoc digit_of_digit_char)
qed


text \<open>\<open>String(n)\<close> of a non-negative integer and \<open>padStart\<close>.\<close>

function nat_string :: "int \<Rightarrow> string" where
  "nat_string n = (if n < 10 then [digit_char n] else nat_string (n div 10) @ [digit_char (n mod 10)])"
  by auto
termination by (relation "measure nat") auto

declare nat_string.simps [simp del]

definition padStart :: "nat \<Rightarrow> char \<Rightarrow> string \<Rightarrow> string" where
  "padStart w c s = replicate (w - length s) c @ s"

lemma number_of_nat_string: "0 \<le> n \<Longrightarrow> number_of (nat_string n) = n"
proof (induction n rule: nat_string.induct)
  case (1 n)
  show ?case
  proof (cases "n < 10")
    case True
    then have "nat_string n = [] @ [digit_char n]" by (simp add: nat_string.simps)
    then have "number_of (nat_string n) = 10 * number_of [] + digit_of (digit_char n)"
      by (simp only: number_of_snoc)
    with True 1 show ?thesis by (simp add: digit_of_digit_char number_of_def)
  next
    case False
    then have "nat_string n = nat_string (n div 10) @ [digit_char (n mod 10)]"
      by (subst nat_string.simps) simp
    with 1 False show ?thesis by (simp add: number_of_snoc digit_of_digit_char)
  qed
qed

lemma digit_char_in: "0 \<le> d \<Longrightarrow> d < 10 \<Longrightarrow> digit_char d \<in> set digit_chars"
proof -
  assume "0 \<le> d" "d < 10"
  then have "d \<in> set [0, 1, 2, 3, 4, 5, 6, 7, 8, 9]" by (simp, arith)
  moreover have "list_all (\<lambda>d. digit_char d \<in> set digit_chars) [0, 1, 2, 3, 4, 5, 6, 7, 8, 9]" by code_simp
  ultimately show ?thesis by (simp only: list_all_iff)
qed

lemma all_digits_nat_string: "0 \<le> n \<Longrightarrow> all_digits (nat_string n) \<and> nat_string n \<noteq> []"
proof (induction n rule: nat_string.induct)
  case (1 n)
  show ?case
  proof (cases "n < 10")
    case True
    then have "nat_string n = [digit_char n]" by (subst nat_string.simps) simp
    with 1(2) True show ?thesis by (simp add: all_digits_def digit_char_in)
  next
    case False
    then have "nat_string n = nat_string (n div 10) @ [digit_char (n mod 10)]" by (subst nat_string.simps) simp
    with 1 False show ?thesis by (simp add: all_digits_def digit_char_in)
  qed
qed

lemma hd_nat_string: "0 < n \<Longrightarrow> hd (nat_string n) \<noteq> CHR ''0''"
proof (induction n rule: nat_string.induct)
  case (1 n)
  show ?case
  proof (cases "n < 10")
    case True
    then have "n \<in> {1, 2, 3, 4, 5, 6, 7, 8, 9}" using 1(2) by auto
    moreover have "nat_string n = [digit_char n]" using True by (subst nat_string.simps) simp
    moreover have "list_all (\<lambda>d. hd [digit_char d] \<noteq> CHR ''0'') [1, 2, 3, 4, 5, 6, 7, 8, 9]" by code_simp
    ultimately show ?thesis by auto
  next
    case False
    with 1 have "hd (nat_string (n div 10)) \<noteq> CHR ''0''" by simp
    moreover have "nat_string (n div 10) \<noteq> []"
      using False all_digits_nat_string [of "n div 10"] by simp
    moreover have "nat_string n = nat_string (n div 10) @ [digit_char (n mod 10)]"
      using False by (subst nat_string.simps) simp
    ultimately show ?thesis by simp
  qed
qed

lemma canonical_nat_string: "0 \<le> n \<Longrightarrow> canonical_integer (nat_string n)"
proof (cases "n = 0")
  case True
  have "canonical_integer (nat_string 0)" by code_simp
  with True show ?thesis by simp
next
  case False
  moreover assume "0 \<le> n"
  ultimately show ?thesis
    using hd_nat_string [of n] all_digits_nat_string [of n] by (simp add: canonical_integer_def)
qed

lemma safe_decimal_nat_string: "safe_integer n \<Longrightarrow> 0 \<le> n \<Longrightarrow> safe_decimal (nat_string n) = Some n"
  by (simp add: safe_decimal_def canonical_nat_string number_of_nat_string)

section \<open>Splitting, searching, letter case\<close>

text \<open>\<open>s.split(c)\<close> for a one-character separator, \<open>startsWith\<close>, \<open>includes\<close>.\<close>

fun split_on :: "char \<Rightarrow> string \<Rightarrow> string list" where
  "split_on c [] = [[]]"
| "split_on c (x # xs) = (if x = c then [] # split_on c xs
     else (case split_on c xs of [] \<Rightarrow> [[x]] | p # ps \<Rightarrow> (x # p) # ps))"

definition starts_with :: "string \<Rightarrow> string \<Rightarrow> bool" where
  "starts_with p s \<longleftrightarrow> take (length p) s = p"

definition has_char :: "char \<Rightarrow> string \<Rightarrow> bool" where
  "has_char c s \<longleftrightarrow> c \<in> set s"

text \<open>\<open>toLowerCase\<close> on the characters of a header, which are Latin-1.\<close>

definition lower_char :: "char \<Rightarrow> char" where
  "lower_char c = (let n = (of_char c :: nat) in
     if 65 \<le> n \<and> n \<le> 90 \<or> 192 \<le> n \<and> n \<le> 222 \<and> n \<noteq> 215 then char_of (n + 32) else c)"

definition js_lower :: "string \<Rightarrow> string" where
  "js_lower s = map lower_char s"

lemma js_space_code: "js_space c \<longleftrightarrow> (of_char c :: nat) \<in> {32, 9, 10, 11, 12, 13, 160}"
  unfolding js_space_def insert_iff of_char_eq_iff [symmetric, where ?'a = nat] by simp

lemma of_char_lower:
  "(of_char (lower_char c) :: nat) =
     (let n = of_char c in if 65 \<le> n \<and> n \<le> 90 \<or> 192 \<le> n \<and> n \<le> 222 \<and> n \<noteq> 215 then n + 32 else n)"
  by (auto simp: lower_char_def Let_def of_char_of)

lemma lower_char_space: "js_space (lower_char c) = js_space c"
  by (auto simp: js_space_code of_char_lower Let_def)

lemma lower_char_lower: "lower_char (lower_char c) = lower_char c"
proof -
  have "(of_char (lower_char (lower_char c)) :: nat) = of_char (lower_char c)"
    by (simp add: of_char_lower Let_def)
  then show ?thesis by (simp only: of_char_eq_iff)
qed

lemma js_lower_trim: "js_trim (js_lower s) = js_lower (js_trim s)"
  by (simp add: js_lower_def js_trim_map lower_char_space)

lemma js_lower_lower [simp]: "js_lower (js_lower s) = js_lower s"
  by (simp add: js_lower_def lower_char_lower comp_def)

fun join :: "string \<Rightarrow> string list \<Rightarrow> string" where
  "join sep [] = []"
| "join sep [s] = s"
| "join sep (s # t # ss) = s @ sep @ join sep (t # ss)"

lemma split_on_not_Nil [simp]: "split_on c s \<noteq> []"
  by (induction s) (auto split: list.splits)

lemma split_on_free: "c \<notin> set s \<Longrightarrow> split_on c s = [s]"
  by (induction s) auto

lemma split_on_append: "c \<notin> set s \<Longrightarrow> split_on c (s @ c # t) = s # split_on c t"
  by (induction s) auto

lemma join_split_on: "join [c] (split_on c s) = s"
proof (induction s)
  case (Cons x s)
  then show ?case by (cases "split_on c s") (auto, (cases "tl (split_on c s)"; auto)+)
qed simp

section \<open>Sorting by a comparison\<close>

text \<open>A stable sort: \<open>le x y\<close> says that \<open>x\<close> may stay before \<open>y\<close>.\<close>

fun insert_with :: "('a \<Rightarrow> 'a \<Rightarrow> bool) \<Rightarrow> 'a \<Rightarrow> 'a list \<Rightarrow> 'a list" where
  "insert_with le x [] = [x]"
| "insert_with le x (y # ys) = (if le x y then x # y # ys else y # insert_with le x ys)"

fun sort_with :: "('a \<Rightarrow> 'a \<Rightarrow> bool) \<Rightarrow> 'a list \<Rightarrow> 'a list" where
  "sort_with le [] = []"
| "sort_with le (x # xs) = insert_with le x (sort_with le xs)"

lemma set_insert_with [simp]: "set (insert_with le x ys) = insert x (set ys)"
  by (induction ys) auto

lemma set_sort_with [simp]: "set (sort_with le xs) = set xs"
  by (induction xs) auto

lemma length_insert_with [simp]: "length (insert_with le x ys) = Suc (length ys)"
  by (induction ys) auto

lemma length_sort_with [simp]: "length (sort_with le xs) = length xs"
  by (induction xs) auto

lemma distinct_insert_with: "x \<notin> f ` set ys \<Longrightarrow> distinct (map f ys) \<Longrightarrow> f z = x \<Longrightarrow> distinct (map f (insert_with le z ys))"
  by (induction ys) auto

lemma distinct_sort_with: "distinct (map f xs) \<Longrightarrow> distinct (map f (sort_with le xs))"
  by (induction xs) (auto intro!: distinct_insert_with)

lemma map_of_sort_with:
  assumes "distinct (map fst xs)"
  shows "map_of (sort_with le xs) = map_of xs"
  using assms distinct_sort_with [OF assms, of le]
  by (intro map_of_eqI) (auto simp: set_map)

end
