(* ===== verification/HaContracts.thy ===== *)
theory HaContracts
  imports JsText
begin

text \<open>
  The high-availability settings, \<open>apps/worker/src/ha/ha-contracts.ts\<close>: the configuration is
  read from the environment first and from the configuration file otherwise, every malformed
  setting is replaced by its default with a warning, and a session payload is checked against
  the configured epoch. The warning callback is the list of its calls, in order.
\<close>

section \<open>Modes and configuration\<close>

datatype ha_mode = Cloudflare | Distributed | MemoryMode

definition HA_MODES :: "(string \<times> ha_mode) list" where
  "HA_MODES = [(''cloudflare'', Cloudflare), (''distributed'', Distributed), (''memory'', MemoryMode)]"

record ha_config =
  ha_mode :: ha_mode
  node_id :: "string option"
  session_epoch :: int
  enforce_epoch :: bool

definition DEFAULT_HA_CONFIG :: ha_config where
  "DEFAULT_HA_CONFIG = \<lparr>ha_mode = MemoryMode, node_id = None, session_epoch = 0, enforce_epoch = False\<rparr>"

definition MAX_NODE_ID_LENGTH :: nat where "MAX_NODE_ID_LENGTH = 128"

text \<open>The environment, the \<open>ha\<close> section of the file, and a warning with its fallback.\<close>

datatype ha_setting = SetMode | SetNodeId | SetEpoch | SetEnforce

type_synonym ha_environment = "ha_setting \<Rightarrow> string option"
type_synonym ha_file = "ha_setting \<Rightarrow> jval"

datatype ha_fallback = FallMode ha_mode | FallNumber int | FallBool bool | FallUndefined

definition envOrFile :: "ha_environment \<Rightarrow> ha_setting \<Rightarrow> jval \<Rightarrow> jval" where
  "envOrFile env k file = (case env k of Some s \<Rightarrow> JStr s | None \<Rightarrow> file)"

fun parseMode :: "jval \<Rightarrow> ha_mode option" where
  "parseMode (JStr s) = map_of HA_MODES s"
| "parseMode _ = None"

fun parseNodeId :: "jval \<Rightarrow> string option" where
  "parseNodeId (JStr s) = (if 0 < length s \<and> length s \<le> MAX_NODE_ID_LENGTH then Some s else None)"
| "parseNodeId _ = None"

fun parseSessionEpoch :: "jval \<Rightarrow> int option" where
  "parseSessionEpoch (JInt n) = (if safe_integer n \<and> 0 \<le> n then Some n else None)"
| "parseSessionEpoch (JStr s) = safe_decimal s"
| "parseSessionEpoch _ = None"

fun parseBoolean :: "jval \<Rightarrow> bool option" where
  "parseBoolean (JBool b) = Some b"
| "parseBoolean (JStr s) =
     (if s = ''true'' \<or> s = ''1'' then Some True
      else if s = ''false'' \<or> s = ''0'' then Some False else None)"
| "parseBoolean _ = None"

text \<open>\<open>input === undefined ? fallback : parse(input)\<close>\<close>

definition or_default :: "'a option \<Rightarrow> (jval \<Rightarrow> 'a option) \<Rightarrow> jval \<Rightarrow> 'a option" where
  "or_default d parse v = (if v = JUndefined then d else parse v)"

definition the_default :: "'a \<Rightarrow> 'a option \<Rightarrow> 'a" where
  "the_default d p = (case p of None \<Rightarrow> d | Some x \<Rightarrow> x)"

definition parseHaConfig :: "ha_environment \<Rightarrow> ha_file \<Rightarrow> ha_config \<times> (ha_setting \<times> ha_fallback) list" where
  "parseHaConfig env file =
    (let modeInput = envOrFile env SetMode (file SetMode);
         nodeIdInput = envOrFile env SetNodeId (file SetNodeId);
         epochInput = envOrFile env SetEpoch (file SetEpoch);
         enforceInput = envOrFile env SetEnforce (file SetEnforce);
         mode = or_default (Some (ha_mode DEFAULT_HA_CONFIG)) parseMode modeInput;
         nodeId = or_default None parseNodeId nodeIdInput;
         sessionEpoch = or_default (Some (session_epoch DEFAULT_HA_CONFIG)) parseSessionEpoch epochInput;
         requested = or_default (Some (enforce_epoch DEFAULT_HA_CONFIG)) parseBoolean enforceInput;
         effectiveMode = the_default (ha_mode DEFAULT_HA_CONFIG) mode;
         effectiveEpoch = the_default (session_epoch DEFAULT_HA_CONFIG) sessionEpoch;
         enforce = (effectiveMode = Distributed \<and> requested = Some True
           \<and> epochInput \<noteq> JUndefined \<and> sessionEpoch \<noteq> None);
         warnings =
           (if modeInput \<noteq> JUndefined \<and> mode = None then [(SetMode, FallMode (ha_mode DEFAULT_HA_CONFIG))] else [])
           @ (if nodeIdInput \<noteq> JUndefined \<and> nodeIdInput \<noteq> JStr [] \<and> nodeId = None
              then [(SetNodeId, FallUndefined)] else [])
           @ (if epochInput \<noteq> JUndefined \<and> sessionEpoch = None
              then [(SetEpoch, FallNumber (session_epoch DEFAULT_HA_CONFIG))] else [])
           @ (if enforceInput \<noteq> JUndefined \<and> requested = None
              then [(SetEnforce, FallBool (enforce_epoch DEFAULT_HA_CONFIG))] else [])
           @ (if requested = Some True \<and> \<not> enforce then [(SetEnforce, FallBool False)] else [])
     in (\<lparr>ha_mode = effectiveMode, node_id = nodeId, session_epoch = effectiveEpoch, enforce_epoch = enforce\<rparr>,
         warnings))"

section \<open>Session epochs\<close>

datatype epoch_check =
    EnforcementDisabled | LegacyToken | MatchingEpoch
  | MissingSessionMetadata | SessionEpochMismatch

fun accepted :: "epoch_check \<Rightarrow> bool" where
  "accepted EnforcementDisabled = True"
| "accepted LegacyToken = True"
| "accepted MatchingEpoch = True"
| "accepted MissingSessionMetadata = False"
| "accepted SessionEpochMismatch = False"

text \<open>The two fields of the session payload the check reads; an empty session id is falsy.\<close>

record session_meta =
  meta_session_id :: "string option"
  meta_epoch :: "int option"

definition checkSessionEpoch :: "session_meta \<Rightarrow> ha_config \<Rightarrow> epoch_check" where
  "checkSessionEpoch p cfg =
    (if ha_mode cfg \<noteq> Distributed \<or> \<not> enforce_epoch cfg then EnforcementDisabled
     else if meta_session_id p = None \<or> meta_session_id p = Some [] \<or> meta_epoch p = None
     then MissingSessionMetadata
     else if meta_epoch p \<noteq> Some (session_epoch cfg) then SessionEpochMismatch
     else MatchingEpoch)"

section \<open>Well-typed configurations\<close>

definition well_typed_config :: "ha_config \<Rightarrow> bool" where
  "well_typed_config cfg \<longleftrightarrow>
     0 \<le> session_epoch cfg \<and> session_epoch cfg \<le> max_safe_integer
     \<and> (case node_id cfg of None \<Rightarrow> True | Some s \<Rightarrow> 0 < length s \<and> length s \<le> MAX_NODE_ID_LENGTH)
     \<and> (enforce_epoch cfg \<longrightarrow> ha_mode cfg = Distributed)"

lemma parseSessionEpoch_bounds:
  "parseSessionEpoch v = Some n \<Longrightarrow> 0 \<le> n \<and> n \<le> max_safe_integer"
  by (cases v) (auto simp: safe_integer_def dest: safe_decimal_bounds split: if_splits)

lemma parseNodeId_bounds:
  "parseNodeId v = Some s \<Longrightarrow> s \<noteq> [] \<and> length s \<le> MAX_NODE_ID_LENGTH"
  by (cases v) (auto split: if_splits)

lemmas config_defaults = or_default_def the_default_def DEFAULT_HA_CONFIG_def

lemma parseHaConfig_typed: "well_typed_config (fst (parseHaConfig env file))"
  unfolding well_typed_config_def parseHaConfig_def Let_def
  by (auto simp: config_defaults max_safe_integer_def [symmetric] split: option.splits
      dest!: parseSessionEpoch_bounds parseNodeId_bounds) (simp_all add: max_safe_integer_def)

lemma checkSessionEpoch_enforced:
  assumes "ha_mode cfg = Distributed" "enforce_epoch cfg"
  shows "accepted (checkSessionEpoch p cfg) \<longleftrightarrow>
    (\<exists>sid. meta_session_id p = Some sid \<and> sid \<noteq> []) \<and> meta_epoch p = Some (session_epoch cfg)"
  using assms unfolding checkSessionEpoch_def by (cases "meta_session_id p") auto

end
