(* ===== verification/JsTime.thy ===== *)
theory JsTime
  imports JsText
begin

text \<open>
  Time values of JavaScript as the code prints and reads them: \<open>Date.prototype.toISOString\<close>
  and the check \<open>new Date(Date.parse(s)).toISOString() === s\<close> by which the validators accept
  only canonical timestamps. A time value is a number of milliseconds since the epoch. The
  calendar is the proleptic Gregorian one of ECMAScript.
\<close>

section \<open>Calendar\<close>

text \<open>Days from 0000-01-01 to the first day of a year, and the length of its months.\<close>

definition days_before_year :: "int \<Rightarrow> int" where
  "days_before_year y = 365 * y + (y + 3) div 4 - (y + 99) div 100 + (y + 399) div 400"

definition leap_year :: "int \<Rightarrow> bool" where
  "leap_year y \<longleftrightarrow> y mod 4 = 0 \<and> (y mod 100 \<noteq> 0 \<or> y mod 400 = 0)"

definition days_before_month :: "bool \<Rightarrow> int \<Rightarrow> int" where
  "days_before_month leap m = (let d = [0, 31, 59, 90, 120, 151, 181, 212, 243, 273, 304, 334] ! nat (m - 1)
     in if leap \<and> 2 < m then d + 1 else d)"

text \<open>1970-01-01 is day 719528.\<close>

definition epoch_day :: int where "epoch_day = 719528"

text \<open>The year that holds a day, found upwards from an estimate that is never too late.\<close>

lemma days_before_year_mono: "days_before_year y < days_before_year (y + 1)"
proof -
  have "(y + 3) div 4 \<le> (y + 4) div 4" "(y + 399) div 400 \<le> (y + 400) div 400"
    by (auto intro: zdiv_mono1)
  moreover have "(y + 100) div 100 \<le> (y + 99) div 100 + 1" by linarith
  ultimately show ?thesis unfolding days_before_year_def by (simp add: algebra_simps)
qed

function year_from :: "int \<Rightarrow> int \<Rightarrow> int" where
  "year_from y d = (if days_before_year (y + 1) \<le> d then year_from (y + 1) d else y)"
  by auto
termination
  by (relation "measure (\<lambda>(y, d). nat (d - days_before_year y))")
    (use days_before_year_mono in \<open>auto dest: order_less_le_trans\<close>)

declare year_from.simps [simp del]

definition year_of_day :: "int \<Rightarrow> int" where
  "year_of_day d = year_from (d div 366 - (if d < 0 then 1000 else 0)) d"

fun month_from :: "nat \<Rightarrow> bool \<Rightarrow> int \<Rightarrow> int" where
  "month_from 0 leap r = 1"
| "month_from (Suc k) leap r =
     (if days_before_month leap (int k + 2) \<le> r then int k + 2 else month_from k leap r)"

definition month_of :: "bool \<Rightarrow> int \<Rightarrow> int" where
  "month_of leap r = month_from 11 leap r"

section \<open>Printing\<close>

definition iso_year :: "int \<Rightarrow> string" where
  "iso_year y = (if 0 \<le> y \<and> y \<le> 9999 then padded 4 y
     else (if y < 0 then CHR ''-'' else CHR ''+'') # padded 6 (abs y))"

definition ms_per_day :: int where "ms_per_day = 86400000"

definition toISOString :: "int \<Rightarrow> string" where
  "toISOString t =
    (let day = t div ms_per_day + epoch_day; ms = t mod ms_per_day;
         y = year_of_day day; r = day - days_before_year y; leap = leap_year y;
         m = month_of leap r; d = r - days_before_month leap m + 1
     in iso_year y @ ''-'' @ padded 2 m @ ''-'' @ padded 2 d @ ''T''
        @ padded 2 (ms div 3600000) @ '':'' @ padded 2 (ms div 60000 mod 60) @ '':''
        @ padded 2 (ms div 1000 mod 60) @ ''.'' @ padded 3 (ms mod 1000) @ ''Z'')"

section \<open>Reading\<close>

text \<open>The time a string denotes when it has the shape of a printed time (any digits).\<close>

definition iso_fields :: "string \<Rightarrow> int \<times> string" where
  "iso_fields s =
    (case s of [] \<Rightarrow> (0, [])
     | c # cs \<Rightarrow> if c = CHR ''-'' then (- number_of (take 6 cs), drop 6 cs)
        else if c = CHR ''+'' then (number_of (take 6 cs), drop 6 cs)
        else (number_of (take 4 s), drop 4 s))"

definition iso_time :: "string \<Rightarrow> int" where
  "iso_time s =
    (let (y, r) = iso_fields s; at = (\<lambda>i n. number_of (take n (drop i r)))
     in (days_before_year y + days_before_month (leap_year y) (max 1 (min 12 (at 1 2))) + at 4 2 - 1 - epoch_day) * ms_per_day
        + at 7 2 * 3600000 + at 10 2 * 60000 + at 13 2 * 1000 + at 16 3)"

text \<open>The largest absolute time value.\<close>

definition max_time :: int where "max_time = 8640000000000000"

text \<open>
  \<open>Number.isFinite(Date.parse(s)) && new Date(Date.parse(s)).toISOString() === s\<close>: a string
  that prints back to itself is the printed form of its time value.
\<close>

definition canonicalTime :: "string \<Rightarrow> int option" where
  "canonicalTime s = (let t = iso_time s in
     if - max_time \<le> t \<and> t \<le> max_time \<and> toISOString t = s then Some t else None)"

section \<open>Reading back what was printed\<close>

lemma year_from_bounds:
  "days_before_year y \<le> d \<Longrightarrow>
   days_before_year (year_from y d) \<le> d \<and> d < days_before_year (year_from y d + 1)"
  by (induction y d rule: year_from.induct) (subst (1 2) year_from.simps, auto)

lemma year_of_day_bounds:
  assumes "- 100000000 \<le> d" "d \<le> 101000000"
  shows "days_before_year (year_of_day d) \<le> d \<and> d < days_before_year (year_of_day d + 1)"
proof -
  have "days_before_year (d div 366 - (if d < 0 then 1000 else 0)) \<le> d"
  proof (cases "d < 0")
    case True
    then show ?thesis using assms unfolding days_before_year_def by auto
  next
    case False
    define e where "e = d div 366"
    have e: "0 \<le> e" "366 * e \<le> d" using False by (simp_all add: e_def)
    have "(e + 3) div 4 \<le> e" using e(1) by (cases "e = 0") auto
    moreover have "(e + 399) div 400 \<le> (e + 99) div 100" using e(1) by linarith
    ultimately show ?thesis using e False unfolding days_before_year_def e_def [symmetric] by simp
  qed
  then show ?thesis unfolding year_of_day_def by (rule year_from_bounds)
qed


lemma div_up:
  assumes "0 < k" and j: "j = k - 1"
  shows "(y + k) div k = (y + j) div k + (if y mod k = 0 then 1 else (0::int))"
proof -
  define q m where "q = y div k" and "m = y mod k"
  have y: "y = q * k + m" by (simp add: q_def m_def)
  have m: "0 \<le> m" "m < k" using assms by (simp_all add: m_def)
  have "(y + k) div k = q + 1" using assms by (simp add: q_def div_add_self2)
  moreover have "(m + (k - 1)) div k = (if m = 0 then 0 else 1)"
  proof (cases "m = 0")
    case False
    then have "(m + (k - 1)) div k = 1 + (m - 1) div k"
      using assms by (metis add.commute add_diff_eq div_add_self2 less_irrefl add_diff_cancel_left' diff_add_eq)
    then show ?thesis using False m by (simp add: div_pos_pos_trivial)
  qed (use assms in simp)
  moreover have "(y + (k - 1)) div k = q + (m + (k - 1)) div k"
    using assms by (simp add: y add.assoc)
  ultimately show ?thesis by (simp add: m_def j)
qed

lemma year_length: "days_before_year (y + 1) - days_before_year y = (if leap_year y then 366 else 365)"
proof -
  define a b c where "a = (y + 3) div 4" and "b = (y + 99) div 100" and "c = (y + 399) div 400"
  have up: "(y + 4) div 4 = a + (if y mod 4 = 0 then 1 else 0)"
    "(y + 100) div 100 = b + (if y mod 100 = 0 then 1 else 0)"
    "(y + 400) div 400 = c + (if y mod 400 = 0 then 1 else 0)"
    unfolding a_def b_def c_def by (rule div_up; simp)+
  have "days_before_year (y + 1) = 365 * (y + 1) + (y + 4) div 4 - (y + 100) div 100 + (y + 400) div 400"
    unfolding days_before_year_def by (simp only: add.assoc one_plus_numeral semiring_norm)
  moreover have "days_before_year y = 365 * y + a - b + c"
    by (simp only: days_before_year_def a_def b_def c_def)
  ultimately have "days_before_year (y + 1) - days_before_year y =
      365 + (if y mod 4 = 0 then 1 else 0) - (if y mod 100 = 0 then 1 else 0) + (if y mod 400 = 0 then 1 else 0)"
    unfolding up by simp
  moreover have "y mod 400 = 0 \<Longrightarrow> y mod 100 = 0" "y mod 100 = 0 \<Longrightarrow> y mod 4 = 0"
    using dvd_trans [of 100 400 y] dvd_trans [of 4 100 y] by (simp_all add: mod_eq_0_iff_dvd)
  ultimately show ?thesis unfolding leap_year_def by presburger
qed

lemma days_before_month_1 [simp]: "days_before_month leap 1 = 0"
  by (simp add: days_before_month_def)

lemma month_from_bounds:
  "0 \<le> r \<Longrightarrow> 1 \<le> month_from k leap r \<and> month_from k leap r \<le> int k + 1
    \<and> days_before_month leap (month_from k leap r) \<le> r
    \<and> (month_from k leap r = int k + 1 \<or> r < days_before_month leap (month_from k leap r + 1))"
proof (induction k)
  case 0
  then show ?case by simp
next
  case (Suc k)
  then show ?case by (auto simp: algebra_simps)
qed

lemma month_length:
  assumes "1 \<le> m" "m \<le> 11"
  shows "days_before_month leap (m + 1) \<le> days_before_month leap m + 31"
proof -
  have "m = 1 \<or> m = 2 \<or> m = 3 \<or> m = 4 \<or> m = 5 \<or> m = 6 \<or> m = 7 \<or> m = 8 \<or> m = 9 \<or> m = 10 \<or> m = 11"
    using assms by presburger
  then show ?thesis by (elim disjE; cases leap; simp add: days_before_month_def)
qed

lemma month_of_bounds:
  assumes "0 \<le> r" "r < (if leap then 366 else 365)"
  shows "1 \<le> month_of leap r" "month_of leap r \<le> 12"
    "days_before_month leap (month_of leap r) \<le> r" "r < days_before_month leap (month_of leap r) + 31"
proof -
  define m where "m = month_of leap r"
  have m: "1 \<le> m" "m \<le> 12" "days_before_month leap m \<le> r"
    "m = 12 \<or> r < days_before_month leap (m + 1)"
    using month_from_bounds [OF assms(1), of 11 leap] by (simp_all add: m_def month_of_def)
  have "days_before_month leap 12 + 31 = (if leap then 366 else 365)"
    by (simp add: days_before_month_def)
  then have "r < days_before_month leap m + 31"
    using m assms(2) month_length [of m leap] by (cases "m = 12") simp_all
  with m show "1 \<le> month_of leap r" "month_of leap r \<le> 12"
    "days_before_month leap (month_of leap r) \<le> r" "r < days_before_month leap (month_of leap r) + 31"
    by (simp_all add: m_def)
qed

lemma year_size:
  assumes "days_before_year y \<le> d" "d < days_before_year (y + 1)" "- 100000000 \<le> d" "d \<le> 101000000"
  shows "- 1000000 < y \<and> y < 1000000"
proof
  have "4 * ((y + 4) div 4) \<le> y + 4" "y \<le> 100 * ((y + 100) div 100)" "400 * ((y + 400) div 400) \<le> y + 400"
    by linarith+
  then show "- 1000000 < y" using assms(2,3) unfolding days_before_year_def by (simp add: algebra_simps)
  show "y < 1000000" using assms(1,4) unfolding days_before_year_def by linarith
qed

lemma iso_fields_four:
  "c \<noteq> CHR ''-'' \<Longrightarrow> c \<noteq> CHR ''+'' \<Longrightarrow> s = c # cs \<Longrightarrow> iso_fields s = (number_of (take 4 s), drop 4 s)"
  by (simp add: iso_fields_def)

lemma iso_fields_iso_year:
  assumes "- 1000000 < y" "y < 1000000"
  shows "iso_fields (iso_year y @ r) = (y, r)"
proof (cases "0 \<le> y \<and> y \<le> 9999")
  case True
  have hd: "padded 4 y = digit_char (y div 1000 mod 10) # drop 1 (padded 4 y)"
    by (simp add: eval_nat_numeral zdiv_zmult2_eq [symmetric])
  have "digit_char (y div 1000 mod 10) \<noteq> CHR ''-''" "digit_char (y div 1000 mod 10) \<noteq> CHR ''+''"
  proof -
    have "digit_of (digit_char (y div 1000 mod 10)) = y div 1000 mod 10" by (rule digit_of_digit_char) auto
    moreover have "0 \<le> y div 1000 mod 10" by simp
    ultimately show "digit_char (y div 1000 mod 10) \<noteq> CHR ''-''" "digit_char (y div 1000 mod 10) \<noteq> CHR ''+''"
      by (auto simp: digit_of_def)
  qed
  then have "iso_fields (padded 4 y @ r) = (number_of (take 4 (padded 4 y @ r)), drop 4 (padded 4 y @ r))"
    by (rule iso_fields_four) (subst hd, simp)
  moreover have "number_of (padded 4 y) = y" using True by (intro number_of_padded) auto
  ultimately show ?thesis using True by (simp add: iso_year_def del: padded.simps)
next
  case False
  then have "number_of (padded 6 \<bar>y\<bar>) = \<bar>y\<bar>" using assms by (intro number_of_padded) auto
  with False show ?thesis unfolding iso_fields_def iso_year_def
    by (cases "y < 0") (simp_all del: padded.simps)
qed


theorem iso_time_toISOString:
  assumes "- max_time \<le> t" "t \<le> max_time"
  shows "iso_time (toISOString t) = t"
proof -
  define day ms where "day = t div ms_per_day + epoch_day" and "ms = t mod ms_per_day"
  define y where "y = year_of_day day"
  define r leap where "r = day - days_before_year y" and "leap = leap_year y"
  define m where "m = month_of leap r"
  define d where "d = r - days_before_month leap m + 1"
  note defs = day_def ms_def y_def r_def leap_def m_def d_def
  have ms: "0 \<le> ms" "ms < 86400000" by (simp_all add: ms_def ms_per_day_def)
  have day: "- 100000000 \<le> day" "day \<le> 101000000"
    using assms unfolding day_def max_time_def ms_per_day_def epoch_day_def by linarith+
  have yb: "days_before_year y \<le> day" "day < days_before_year (y + 1)"
    using year_of_day_bounds [OF day] by (simp_all add: y_def)
  then have r: "0 \<le> r" "r < (if leap then 366 else 365)"
    using year_length [of y] by (simp_all add: r_def leap_def split: if_splits)
  have m: "1 \<le> m" "m \<le> 12" "1 \<le> d" "d \<le> 31"
    using month_of_bounds [OF r] by (simp_all add: m_def d_def)
  have ys: "- 1000000 < y" "y < 1000000" using year_size [OF yb day] by simp_all
  have print: "toISOString t = iso_year y @ ''-'' @ padded 2 m @ ''-'' @ padded 2 d @ ''T''
        @ padded 2 (ms div 3600000) @ '':'' @ padded 2 (ms div 60000 mod 60) @ '':''
        @ padded 2 (ms div 1000 mod 60) @ ''.'' @ padded 3 (ms mod 1000) @ ''Z''"
    unfolding toISOString_def Let_def defs by (rule refl)
  have nums: "number_of (padded 2 m) = m" "number_of (padded 2 d) = d"
    "number_of (padded 2 (ms div 3600000)) = ms div 3600000"
    "number_of (padded 2 (ms div 60000 mod 60)) = ms div 60000 mod 60"
    "number_of (padded 2 (ms div 1000 mod 60)) = ms div 1000 mod 60"
    "number_of (padded 3 (ms mod 1000)) = ms mod 1000"
    using m ms by (intro number_of_padded; simp; linarith)+
  have "iso_time (toISOString t) =
      (days_before_year y + days_before_month leap m + d - 1 - epoch_day) * ms_per_day
        + ms div 3600000 * 3600000 + ms div 60000 mod 60 * 60000 + ms div 1000 mod 60 * 1000 + ms mod 1000"
    unfolding print iso_time_def iso_fields_iso_year [OF ys] Let_def using nums m
    by (simp add: leap_def del: padded.simps)
  also have "\<dots> = (day - epoch_day) * ms_per_day + ms"
  proof -
    have "ms div 3600000 * 3600000 + ms div 60000 mod 60 * 60000 + ms div 1000 mod 60 * 1000 + ms mod 1000 = ms"
    proof -
      have "ms div 60000 = ms div 1000 div 60" "ms div 3600000 = ms div 60000 div 60"
        by (simp_all add: zdiv_zmult2_eq [symmetric])
      then show ?thesis
        using div_mult_mod_eq [of "ms div 60000" 60] div_mult_mod_eq [of "ms div 1000" 60]
          div_mult_mod_eq [of ms 1000] by linarith
    qed
    then show ?thesis by (simp add: d_def r_def)
  qed
  also have "\<dots> = t" by (simp add: day_def ms_def)
  finally show ?thesis .
qed

corollary canonicalTime_toISOString:
  "- max_time \<le> t \<Longrightarrow> t \<le> max_time \<Longrightarrow> canonicalTime (toISOString t) = Some t"
  by (simp add: canonicalTime_def iso_time_toISOString)

lemma canonicalTime_Some_iff:
  "canonicalTime s = Some t \<longleftrightarrow> - max_time \<le> t \<and> t \<le> max_time \<and> s = toISOString t"
  by (auto simp: canonicalTime_def Let_def iso_time_toISOString split: if_splits)

text \<open>The calendar on known dates.\<close>

lemma toISOString_epoch: "toISOString 0 = ''1970-01-01T00:00:00.000Z''"
  by code_simp

lemma toISOString_leap_day: "toISOString 1709210096789 = ''2024-02-29T12:34:56.789Z''"
  by code_simp

end
