(* ===== verification/HaLifecycle.thy ===== *)
theory HaLifecycle
  imports HaContracts JsTime Complex_Main
begin

text \<open>
  The node lifecycle, \<open>apps/worker/src/ha/ha-lifecycle.ts\<close>. A lifecycle starts, probes its
  dependencies, becomes ready or degraded, drains and stops. Every \<open>await\<close> of the source is a
  boundary between two steps of the machine: a refresh of the dependencies is a task whose
  probes settle one by one, in any order and interleaved with other calls, and a stop goes
  through a phase per awaited cleanup. The times of a shutdown are the subject of the relation
  \<open>timed_stop\<close>.
\<close>

section \<open>States, dependencies, timeouts\<close>

datatype ha_state = Starting | Ready | Degraded | Draining | Stopped

datatype dep_status = DepReady | DepDegraded | DepUnavailable

definition DEPENDENCY_STATUSES :: "(string \<times> dep_status) list" where
  "DEPENDENCY_STATUSES = [(''ready'', DepReady), (''degraded'', DepDegraded), (''unavailable'', DepUnavailable)]"

definition READINESS_STATES :: "(string \<times> ha_state) list" where
  "READINESS_STATES = [(''starting'', Starting), (''ready'', Ready), (''degraded'', Degraded),
     (''draining'', Draining), (''stopped'', Stopped)]"

text \<open>The value a probe answers with is checked; \<open>None\<close> when it is no status.\<close>

fun isDependencyReadiness :: "jval \<Rightarrow> dep_status option" where
  "isDependencyReadiness (JStr s) = map_of DEPENDENCY_STATUSES s"
| "isDependencyReadiness _ = None"

fun isReadinessState :: "jval \<Rightarrow> ha_state option" where
  "isReadinessState (JStr s) = map_of READINESS_STATES s"
| "isReadinessState _ = None"

definition checked_status :: "jval \<Rightarrow> dep_status" where
  "checked_status v = the_default DepUnavailable (isDependencyReadiness v)"

definition DEFAULT_HA_SHUTDOWN_TIMEOUT_MS :: int where
  "DEFAULT_HA_SHUTDOWN_TIMEOUT_MS = 10000"

text \<open>A number of JavaScript: \<open>None\<close> when it is not finite. \<open>None\<close> as a result is a \<open>RangeError\<close>.\<close>

definition normalizeTimeout :: "rat option option \<Rightarrow> int option" where
  "normalizeTimeout v = (case v of
     None \<Rightarrow> Some DEFAULT_HA_SHUTDOWN_TIMEOUT_MS
   | Some None \<Rightarrow> None
   | Some (Some r) \<Rightarrow> if r < 0 then None else Some \<lfloor>r\<rfloor>)"

section \<open>The state of a lifecycle\<close>

datatype dep_definition = DepStatus dep_status | DepProbe | DepProbeInitial "dep_status option"

text \<open>A refresh in flight: waiting for the aggregate probe, or for the named probes.\<close>

datatype refresh_stage = AwaitAggregate | AwaitProbes "string list"

text \<open>How a bounded cleanup ends: its value, its error, or the deadline.\<close>

datatype 'e cleanup = Completes | Throws 'e | TimesOut

datatype 'e stop_phase =
    NotStopping
  | StopRequested
  | StopDraining
  | StopStopping "'e cleanup"
  | StopDone "'e option"

record shutdown_report =
  rep_drain_timed_out :: bool
  rep_stop_timed_out :: bool

record 'e ha_lifecycle =
  hl_state :: ha_state
  hl_deps :: "(string \<times> dep_status) list"
  hl_aggregate :: "ha_state option"
  hl_probes :: "string list"
  hl_has_probe :: bool
  hl_started :: bool
  hl_drained :: bool
  hl_tasks :: "(nat \<times> refresh_stage) list"
  hl_next_task :: nat
  hl_stop :: "'e stop_phase"
  hl_report :: "shutdown_report option"

fun initial_status :: "dep_definition \<Rightarrow> dep_status" where
  "initial_status (DepStatus d) = d"
| "initial_status DepProbe = DepUnavailable"
| "initial_status (DepProbeInitial d) = the_default DepUnavailable d"

fun has_own_probe :: "dep_definition \<Rightarrow> bool" where
  "has_own_probe (DepStatus d) = False"
| "has_own_probe _ = True"

text \<open>\<open>createHaLifecycle\<close>: the definitions have distinct names, being the keys of an object.\<close>

definition createHaLifecycle :: "(string \<times> dep_definition) list \<Rightarrow> bool \<Rightarrow> 'e ha_lifecycle" where
  "createHaLifecycle defs aggregate =
     \<lparr>hl_state = Starting, hl_deps = map (\<lambda>(n, d). (n, initial_status d)) defs, hl_aggregate = None,
      hl_probes = map fst (filter (has_own_probe \<circ> snd) defs), hl_has_probe = aggregate,
      hl_started = False, hl_drained = False, hl_tasks = [], hl_next_task = 0,
      hl_stop = NotStopping, hl_report = None\<rparr>"

section \<open>Readiness\<close>

definition nextOperationalState :: "'e ha_lifecycle \<Rightarrow> ha_state" where
  "nextOperationalState s =
    (if hl_aggregate s \<noteq> None \<and> hl_aggregate s \<noteq> Some Ready then Degraded
     else if list_all (\<lambda>(n, d). d = DepReady) (hl_deps s) then Ready else Degraded)"

definition operational :: "ha_state \<Rightarrow> bool" where
  "operational st \<longleftrightarrow> st = Starting \<or> st = Ready \<or> st = Degraded"

definition applyDependencyState :: "'e ha_lifecycle \<Rightarrow> 'e ha_lifecycle" where
  "applyDependencyState s =
    (if operational (hl_state s) then s\<lparr>hl_state := nextOperationalState s\<rparr> else s)"

definition set_dep :: "string \<Rightarrow> dep_status \<Rightarrow> 'e ha_lifecycle \<Rightarrow> 'e ha_lifecycle" where
  "set_dep n d s = s\<lparr>hl_deps := AList.update n d (hl_deps s)\<rparr>"

text \<open>What the aggregate probe answers.\<close>

record aggregate_readiness =
  ag_state :: ha_state
  ag_dependencies :: "(string \<times> jval) list"

text \<open>The first part of \<open>refreshDependencies\<close>, after the aggregate probe has settled.\<close>

definition apply_aggregate :: "aggregate_readiness option \<Rightarrow> 'e ha_lifecycle \<Rightarrow> 'e ha_lifecycle" where
  "apply_aggregate r s = (case r of
     None \<Rightarrow> s\<lparr>hl_aggregate := Some Degraded\<rparr>
   | Some a \<Rightarrow> fold (\<lambda>(n, v). set_dep n (checked_status v)) (ag_dependencies a) (s\<lparr>hl_aggregate := Some (ag_state a)\<rparr>))"

text \<open>A probe has settled: \<open>None\<close> when it threw.\<close>

definition apply_probe :: "string \<Rightarrow> jval option \<Rightarrow> 'e ha_lifecycle \<Rightarrow> 'e ha_lifecycle" where
  "apply_probe n r s = set_dep n (case r of None \<Rightarrow> DepUnavailable | Some v \<Rightarrow> checked_status v) s"

definition set_stage :: "nat \<Rightarrow> refresh_stage \<Rightarrow> 'e ha_lifecycle \<Rightarrow> 'e ha_lifecycle" where
  "set_stage i g s = s\<lparr>hl_tasks := AList.update i g (hl_tasks s)\<rparr>"

definition begin_refresh :: "'e ha_lifecycle \<Rightarrow> 'e ha_lifecycle" where
  "begin_refresh s = s\<lparr>hl_tasks := hl_tasks s @
       [(hl_next_task s, if hl_has_probe s then AwaitAggregate else AwaitProbes (hl_probes s))],
     hl_next_task := hl_next_task s + 1\<rparr>"

definition aggregate_settles :: "nat \<Rightarrow> aggregate_readiness option \<Rightarrow> 'e ha_lifecycle \<Rightarrow> 'e ha_lifecycle" where
  "aggregate_settles i r s = (case map_of (hl_tasks s) i of
     Some AwaitAggregate \<Rightarrow> set_stage i (AwaitProbes (hl_probes s)) (apply_aggregate r s)
   | _ \<Rightarrow> s)"

definition probe_settles :: "nat \<Rightarrow> string \<Rightarrow> jval option \<Rightarrow> 'e ha_lifecycle \<Rightarrow> 'e ha_lifecycle" where
  "probe_settles i n r s = (case map_of (hl_tasks s) i of
     Some (AwaitProbes ns) \<Rightarrow> if n \<in> set ns then set_stage i (AwaitProbes (remove1 n ns)) (apply_probe n r s) else s
   | _ \<Rightarrow> s)"

text \<open>The continuation of \<open>Promise.all\<close>, when every probe has settled.\<close>

definition refresh_ends :: "nat \<Rightarrow> 'e ha_lifecycle \<Rightarrow> 'e ha_lifecycle" where
  "refresh_ends i s = (case map_of (hl_tasks s) i of
     Some (AwaitProbes []) \<Rightarrow> applyDependencyState (s\<lparr>hl_tasks := AList.delete i (hl_tasks s)\<rparr>)
   | _ \<Rightarrow> s)"

text \<open>\<open>start\<close> and the beginning of \<open>readiness\<close>.\<close>

definition lifecycle_start :: "'e ha_lifecycle \<Rightarrow> 'e ha_lifecycle" where
  "lifecycle_start s =
    (if hl_state s \<noteq> Starting \<or> hl_started s then s else (begin_refresh s)\<lparr>hl_started := True\<rparr>)"

definition lifecycle_readiness :: "'e ha_lifecycle \<Rightarrow> 'e ha_lifecycle" where
  "lifecycle_readiness s =
    (if hl_state s = Ready \<or> hl_state s = Degraded then begin_refresh s else s)"

text \<open>\<open>setDependencyStatus\<close> and \<open>setDependencyStatuses\<close>; an invalid status is a \<open>TypeError\<close>.\<close>

definition setDependencyStatus :: "string \<Rightarrow> jval \<Rightarrow> 'e ha_lifecycle \<Rightarrow> unit option \<times> 'e ha_lifecycle" where
  "setDependencyStatus n v s = (case isDependencyReadiness v of
     None \<Rightarrow> (None, s)
   | Some d \<Rightarrow> (Some (), applyDependencyState (set_dep n d s)))"

fun setDependencyStatuses :: "(string \<times> jval) list \<Rightarrow> 'e ha_lifecycle \<Rightarrow> unit option \<times> 'e ha_lifecycle" where
  "setDependencyStatuses [] s = (Some (), s)"
| "setDependencyStatuses ((n, v) # vs) s =
    (case setDependencyStatus n v s of
       (None, s') \<Rightarrow> (None, s')
     | (Some _, s') \<Rightarrow> setDependencyStatuses vs s')"

section \<open>Drain and stop\<close>

definition lifecycle_drain :: "'e ha_lifecycle \<Rightarrow> 'e ha_lifecycle" where
  "lifecycle_drain s =
    (if hl_state s = Stopped \<or> hl_drained s then s else s\<lparr>hl_state := Draining, hl_drained := True\<rparr>)"

text \<open>\<open>stopOnce\<close>; the drain it asks for runs in a later microtask.\<close>

definition lifecycle_stop :: "'e ha_lifecycle \<Rightarrow> 'e ha_lifecycle" where
  "lifecycle_stop s = (if hl_stop s = NotStopping then s\<lparr>hl_stop := StopRequested\<rparr> else s)"

definition stop_runs_drain :: "'e ha_lifecycle \<Rightarrow> 'e ha_lifecycle" where
  "stop_runs_drain s =
    (if hl_stop s = StopRequested then (lifecycle_drain s)\<lparr>hl_stop := StopDraining\<rparr> else s)"

definition stop_drain_settles :: "'e cleanup \<Rightarrow> 'e ha_lifecycle \<Rightarrow> 'e ha_lifecycle" where
  "stop_drain_settles c s = (if hl_stop s = StopDraining then s\<lparr>hl_stop := StopStopping c\<rparr> else s)"

fun cleanup_error :: "'e cleanup \<Rightarrow> 'e option" where
  "cleanup_error (Throws e) = Some e"
| "cleanup_error _ = None"

text \<open>The first error of the two cleanups, thrown after the report and the state are set.\<close>

definition first_error :: "'e cleanup \<Rightarrow> 'e cleanup \<Rightarrow> 'e option" where
  "first_error d c = (case cleanup_error d of Some e \<Rightarrow> Some e | None \<Rightarrow> cleanup_error c)"

definition stop_settles :: "'e cleanup \<Rightarrow> 'e ha_lifecycle \<Rightarrow> 'e ha_lifecycle" where
  "stop_settles c s = (case hl_stop s of
     StopStopping d \<Rightarrow> s\<lparr>hl_state := Stopped,
        hl_report := Some \<lparr>rep_drain_timed_out = (d = TimesOut), rep_stop_timed_out = (c = TimesOut)\<rparr>,
        hl_stop := StopDone (first_error d c)\<rparr>
   | _ \<Rightarrow> s)"

section \<open>The machine\<close>

datatype 'e ha_event =
    Start
  | Readiness
  | AggregateSettles nat "aggregate_readiness option"
  | ProbeSettles nat string "jval option"
  | RefreshEnds nat
  | SetDependency string jval
  | SetDependencies "(string \<times> jval) list"
  | Drain
  | Stop
  | StopRunsDrain
  | StopDrainSettles "'e cleanup"
  | StopSettles "'e cleanup"

fun ha_step :: "'e ha_lifecycle \<Rightarrow> 'e ha_event \<Rightarrow> 'e ha_lifecycle" where
  "ha_step s Start = lifecycle_start s"
| "ha_step s Readiness = lifecycle_readiness s"
| "ha_step s (AggregateSettles i r) = aggregate_settles i r s"
| "ha_step s (ProbeSettles i n r) = probe_settles i n r s"
| "ha_step s (RefreshEnds i) = refresh_ends i s"
| "ha_step s (SetDependency n v) = snd (setDependencyStatus n v s)"
| "ha_step s (SetDependencies vs) = snd (setDependencyStatuses vs s)"
| "ha_step s Drain = lifecycle_drain s"
| "ha_step s Stop = lifecycle_stop s"
| "ha_step s StopRunsDrain = stop_runs_drain s"
| "ha_step s (StopDrainSettles c) = stop_drain_settles c s"
| "ha_step s (StopSettles c) = stop_settles c s"

section \<open>Snapshots and diagnostics\<close>

record readiness_snapshot =
  rs_state :: ha_state
  rs_mode :: ha_mode
  rs_checked_at :: string
  rs_node_id :: "string option"
  rs_reason :: "string option"
  rs_dependencies :: "(string \<times> dep_status) list option"

record liveness_snapshot =
  ls_alive :: bool
  ls_state :: ha_state
  ls_mode :: ha_mode
  ls_checked_at :: string
  ls_node_id :: "string option"

text \<open>The clock: \<open>None\<close> is an invalid date.\<close>

definition timestamp :: "int option \<Rightarrow> string" where
  "timestamp now = toISOString (the_default 0 now)"

definition dependencySnapshot :: "(string \<Rightarrow> string \<Rightarrow> bool) \<Rightarrow> 'e ha_lifecycle \<Rightarrow> (string \<times> dep_status) list" where
  "dependencySnapshot le s = sort_with (\<lambda>x y. le (fst x) (fst y)) (hl_deps s)"

fun state_reason :: "ha_state option \<Rightarrow> ha_state \<Rightarrow> string option" where
  "state_reason ag Starting = Some ''not-started''"
| "state_reason ag Ready = None"
| "state_reason ag Degraded =
     Some (if ag = Some Degraded then ''readiness-check-failed'' else ''dependency-not-ready'')"
| "state_reason ag Draining = Some ''draining''"
| "state_reason ag Stopped = Some ''stopped''"

definition readinessSnapshot ::
  "(string \<Rightarrow> string \<Rightarrow> bool) \<Rightarrow> ha_config \<Rightarrow> int option \<Rightarrow> 'e ha_lifecycle \<Rightarrow> readiness_snapshot" where
  "readinessSnapshot le cfg now s = \<lparr>rs_state = hl_state s, rs_mode = ha_mode cfg, rs_checked_at = timestamp now,
     rs_node_id = node_id cfg, rs_reason = state_reason (hl_aggregate s) (hl_state s),
     rs_dependencies = (if hl_deps s = [] then None else Some (dependencySnapshot le s))\<rparr>"

definition livenessSnapshot :: "ha_config \<Rightarrow> int option \<Rightarrow> 'e ha_lifecycle \<Rightarrow> liveness_snapshot" where
  "livenessSnapshot cfg now s = \<lparr>ls_alive = (hl_state s \<noteq> Stopped), ls_state = hl_state s,
     ls_mode = ha_mode cfg, ls_checked_at = timestamp now, ls_node_id = node_id cfg\<rparr>"

text \<open>\<open>/^[A-Za-z][A-Za-z0-9_.-]{0,63}$/\<close>\<close>

definition letters :: string where
  "letters = ''ABCDEFGHIJKLMNOPQRSTUVWXYZabcdefghijklmnopqrstuvwxyz''"

definition SAFE_DIAGNOSTIC_NAME :: "string \<Rightarrow> bool" where
  "SAFE_DIAGNOSTIC_NAME s \<longleftrightarrow> s \<noteq> [] \<and> length s \<le> 64 \<and> hd s \<in> set letters
     \<and> list_all (\<lambda>c. c \<in> set (letters @ digit_chars @ ''_.-'')) (tl s)"

text \<open>
  The snapshot the diagnostics are taken from: its fields are checked again, so that each is a
  value of any shape here. Node ids, reasons and further fields are not read.
\<close>

record raw_snapshot =
  raw_alive :: jval
  raw_state :: jval
  raw_mode :: jval
  raw_checked_at :: string
  raw_dependencies :: "(string \<times> jval) list option"

record safe_diagnostics =
  sd_alive :: bool
  sd_state :: ha_state
  sd_mode :: ha_mode
  sd_checked_at :: string
  sd_dependencies :: "(string \<times> dep_status) list"

definition safeTimestamp :: "string \<Rightarrow> string" where
  "safeTimestamp v = (if canonicalTime v \<noteq> None then v else toISOString 0)"

definition safeDependencyStatuses ::
  "(string \<Rightarrow> string \<Rightarrow> bool) \<Rightarrow> (string \<times> jval) list option \<Rightarrow> (string \<times> dep_status) list" where
  "safeDependencyStatuses le deps = sort_with (\<lambda>x y. le (fst x) (fst y))
     (List.map_filter (\<lambda>(n, v). if SAFE_DIAGNOSTIC_NAME n then map_option (Pair n) (isDependencyReadiness v) else None)
       (the_default [] deps))"

definition safeHaDiagnostics :: "(string \<Rightarrow> string \<Rightarrow> bool) \<Rightarrow> raw_snapshot \<Rightarrow> safe_diagnostics" where
  "safeHaDiagnostics le r = \<lparr>sd_alive = (raw_alive r = JBool True),
     sd_state = the_default Starting (isReadinessState (raw_state r)),
     sd_mode = the_default MemoryMode (parseMode (raw_mode r)),
     sd_checked_at = safeTimestamp (raw_checked_at r),
     sd_dependencies = safeDependencyStatuses le (raw_dependencies r)\<rparr>"

section \<open>The time a shutdown takes\<close>

text \<open>
  A cleanup: settled within the microtasks it starts in, after some milliseconds, or never.
  \<open>setTimeout\<close> of the Node runtime waits one millisecond for a delay below one or above
  2147483647, and the delay otherwise; its timers fire on time. At a tie either may come first.
\<close>

datatype 'e work = AtOnce "'e option" | After int "'e option" | Never

definition timer_delay :: "int \<Rightarrow> int" where
  "timer_delay T = (if T < 1 \<or> 2147483647 < T then 1 else T)"

definition ended :: "'e option \<Rightarrow> 'e cleanup" where
  "ended e = (case e of None \<Rightarrow> Completes | Some x \<Rightarrow> Throws x)"

inductive boundedShutdown :: "int \<Rightarrow> 'e work \<Rightarrow> 'e cleanup \<Rightarrow> int \<Rightarrow> bool" where
  at_once: "boundedShutdown T (AtOnce e) (ended e) 0"
| in_time: "0 \<le> d \<Longrightarrow> d \<le> timer_delay T \<Longrightarrow> boundedShutdown T (After d e) (ended e) d"
| too_late: "timer_delay T \<le> d \<Longrightarrow> boundedShutdown T (After d e) TimesOut (timer_delay T)"
| never: "boundedShutdown T Never TimesOut (timer_delay T)"

text \<open>The budget left for the second cleanup.\<close>

definition remaining_budget :: "int \<Rightarrow> 'e cleanup \<Rightarrow> int \<Rightarrow> int" where
  "remaining_budget T c elapsed = (if c = TimesOut then 0 else max 0 (T - max 0 elapsed))"

text \<open>\<open>stop\<close>: outcome of the drain, outcome of the stop handler, and the time it all took.\<close>

inductive timed_stop :: "int \<Rightarrow> 'e work \<Rightarrow> 'e work \<Rightarrow> 'e cleanup \<Rightarrow> 'e cleanup \<Rightarrow> int \<Rightarrow> bool" where
  stops: "boundedShutdown T wd cd d \<Longrightarrow> boundedShutdown (remaining_budget T cd d) ws cs e \<Longrightarrow>
     timed_stop T wd ws cd cs (d + e)"

inductive_cases boundedShutdownE: "boundedShutdown T w c d"
inductive_simps timed_stop_iff: "timed_stop T wd ws cd cs e"

end
