(* ===== verification/HaProps.thy ===== *)
theory HaProps
  imports HaLifecycle
begin

text \<open>
  The lifecycle over all its interleavings, the time a shutdown takes, and the configuration it
  is created with. The invariant is kept by each step (\<open>ha_inv_step\<close>) and carried to runs by the
  interface \<open>machine\<close>.
\<close>

section \<open>The invariant of a lifecycle\<close>

definition stop_begun :: "'e stop_phase \<Rightarrow> bool" where
  "stop_begun p \<longleftrightarrow> p \<noteq> NotStopping \<and> p \<noteq> StopRequested"

definition stop_done :: "'e stop_phase \<Rightarrow> bool" where
  "stop_done p \<longleftrightarrow> (case p of StopDone _ \<Rightarrow> True | _ \<Rightarrow> False)"

definition leaving :: "ha_state \<Rightarrow> bool" where
  "leaving st \<longleftrightarrow> st = Draining \<or> st = Stopped"

definition ha_core :: "'e ha_lifecycle \<Rightarrow> bool" where
  "ha_core s \<longleftrightarrow>
     (hl_drained s \<longleftrightarrow> leaving (hl_state s))
   \<and> (stop_begun (hl_stop s) \<longrightarrow> hl_drained s)
   \<and> (hl_state s = Stopped \<longleftrightarrow> stop_done (hl_stop s))
   \<and> (hl_report s \<noteq> None \<longleftrightarrow> hl_state s = Stopped)"

definition ha_settled :: "'e ha_lifecycle \<Rightarrow> bool" where
  "ha_settled s \<longleftrightarrow> hl_tasks s \<noteq> [] \<or> leaving (hl_state s)
     \<or> hl_state s = Starting \<and> \<not> hl_started s \<or> hl_state s = nextOperationalState s"

definition ha_inv :: "'e ha_lifecycle \<Rightarrow> bool" where
  "ha_inv s \<longleftrightarrow> ha_core s \<and> ha_settled s"

lemma operational_iff: "operational st \<longleftrightarrow> \<not> leaving st"
  by (cases st) (simp_all add: operational_def leaving_def)

lemma nextOperational_cases: "nextOperationalState s = Ready \<or> nextOperationalState s = Degraded"
  by (simp add: nextOperationalState_def)

lemma nextOperational_not [simp]:
  "nextOperationalState s \<noteq> Starting" "nextOperationalState s \<noteq> Stopped" "nextOperationalState s \<noteq> Draining"
  using nextOperational_cases [of s] by auto

lemma nextOperational_update [simp]:
  "nextOperationalState (s\<lparr>hl_state := st\<rparr>) = nextOperationalState s"
  "nextOperationalState (s\<lparr>hl_tasks := ts\<rparr>) = nextOperationalState s"
  "nextOperationalState (s\<lparr>hl_stop := p\<rparr>) = nextOperationalState s"
  by (simp_all add: nextOperationalState_def)

text \<open>What setting dependencies and the aggregate leaves alone.\<close>

lemma set_dep_sel [simp]:
  "hl_state (set_dep n d s) = hl_state s" "hl_tasks (set_dep n d s) = hl_tasks s"
  "hl_stop (set_dep n d s) = hl_stop s" "hl_report (set_dep n d s) = hl_report s"
  "hl_started (set_dep n d s) = hl_started s" "hl_drained (set_dep n d s) = hl_drained s"
  by (simp_all add: set_dep_def)

lemma fold_set_dep_sel [simp]:
  "hl_state (fold (\<lambda>(n, v). set_dep n (checked_status v)) vs s) = hl_state s"
  "hl_tasks (fold (\<lambda>(n, v). set_dep n (checked_status v)) vs s) = hl_tasks s"
  "hl_stop (fold (\<lambda>(n, v). set_dep n (checked_status v)) vs s) = hl_stop s"
  "hl_report (fold (\<lambda>(n, v). set_dep n (checked_status v)) vs s) = hl_report s"
  "hl_started (fold (\<lambda>(n, v). set_dep n (checked_status v)) vs s) = hl_started s"
  "hl_drained (fold (\<lambda>(n, v). set_dep n (checked_status v)) vs s) = hl_drained s"
  by (induction vs arbitrary: s) (auto split: prod.splits)

lemma apply_aggregate_sel [simp]:
  "hl_state (apply_aggregate r s) = hl_state s" "hl_tasks (apply_aggregate r s) = hl_tasks s"
  "hl_stop (apply_aggregate r s) = hl_stop s" "hl_report (apply_aggregate r s) = hl_report s"
  "hl_started (apply_aggregate r s) = hl_started s" "hl_drained (apply_aggregate r s) = hl_drained s"
  by (simp_all add: apply_aggregate_def split: option.splits)

lemma apply_probe_sel [simp]:
  "hl_state (apply_probe n r s) = hl_state s" "hl_tasks (apply_probe n r s) = hl_tasks s"
  "hl_stop (apply_probe n r s) = hl_stop s" "hl_report (apply_probe n r s) = hl_report s"
  "hl_started (apply_probe n r s) = hl_started s" "hl_drained (apply_probe n r s) = hl_drained s"
  by (simp_all add: apply_probe_def)

lemma update_not_Nil [simp]: "AList.update k v al \<noteq> []"
  by (induction al) auto

text \<open>Recomputing the operational state keeps the invariant and settles it.\<close>

lemma ha_core_cong:
  "ha_core s \<Longrightarrow> hl_state t = hl_state s \<Longrightarrow> hl_stop t = hl_stop s \<Longrightarrow> hl_report t = hl_report s \<Longrightarrow>
   hl_drained t = hl_drained s \<Longrightarrow> ha_core t"
  unfolding ha_core_def by (elim conjE) simp

lemma ha_core_state:
  "ha_core s \<Longrightarrow> operational (hl_state s) \<Longrightarrow> operational st \<Longrightarrow> ha_core (s\<lparr>hl_state := st\<rparr>)"
  by (auto simp: ha_core_def operational_iff leaving_def)

lemma ha_inv_apply: "ha_core s \<Longrightarrow> ha_inv (applyDependencyState s)"
  using nextOperational_cases [of s]
  by (auto simp: ha_inv_def applyDependencyState_def ha_settled_def operational_iff [symmetric]
      intro!: ha_core_state) (auto simp: operational_def)

lemma ha_inv_core: "ha_inv s \<Longrightarrow> ha_core s"
  by (simp add: ha_inv_def)

text \<open>A step that only touches a task in flight keeps it.\<close>

lemma ha_inv_task:
  "ha_inv s \<Longrightarrow> hl_tasks t \<noteq> [] \<Longrightarrow> hl_state t = hl_state s \<Longrightarrow> hl_stop t = hl_stop s \<Longrightarrow>
   hl_report t = hl_report s \<Longrightarrow> hl_drained t = hl_drained s \<Longrightarrow> ha_inv t"
  unfolding ha_inv_def ha_settled_def by (blast intro: ha_core_cong)

lemma ha_inv_setDependencyStatus: "ha_inv s \<Longrightarrow> ha_inv (snd (setDependencyStatus n v s))"
  unfolding setDependencyStatus_def
  by (cases "isDependencyReadiness v") (auto intro!: ha_inv_apply dest: ha_inv_core intro: ha_core_cong)

lemma ha_inv_setDependencyStatuses: "ha_inv s \<Longrightarrow> ha_inv (snd (setDependencyStatuses vs s))"
proof (induction vs s rule: setDependencyStatuses.induct)
  case (1 s)
  then show ?case by simp
next
  case (2 n v vs s)
  then show ?case using ha_inv_setDependencyStatus [of s n v]
    by (auto split: prod.splits option.splits)
qed

lemmas ha_inv_defs = ha_inv_def ha_core_def ha_settled_def leaving_def stop_begun_def stop_done_def

lemma ha_inv_drain: "ha_inv s \<Longrightarrow> ha_inv (lifecycle_drain s)"
  unfolding lifecycle_drain_def by (auto simp: ha_inv_defs split: stop_phase.splits)

lemma lifecycle_drain_sel [simp]: "hl_stop (lifecycle_drain s) = hl_stop s"
  by (simp add: lifecycle_drain_def)

lemma drain_drained: "ha_inv s \<Longrightarrow> hl_drained (lifecycle_drain s)"
  unfolding lifecycle_drain_def by (auto simp: ha_inv_def ha_core_def leaving_def)

lemma ha_inv_stop_runs_drain: "ha_inv s \<Longrightarrow> ha_inv (stop_runs_drain s)"
  using ha_inv_drain [of s] drain_drained [of s]
  by (auto simp: stop_runs_drain_def ha_inv_def ha_core_def ha_settled_def stop_done_def stop_begun_def
      leaving_def split: stop_phase.splits)

lemma ha_inv_step: "ha_inv s \<Longrightarrow> ha_inv (ha_step s x)"
proof (cases x)
  case Start
  assume "ha_inv s"
  with Start show ?thesis
    by (auto simp: lifecycle_start_def begin_refresh_def intro: ha_inv_task)
next
  case Readiness
  assume "ha_inv s"
  with Readiness show ?thesis
    by (auto simp: lifecycle_readiness_def begin_refresh_def intro: ha_inv_task)
next
  case (AggregateSettles i r)
  assume "ha_inv s"
  with AggregateSettles show ?thesis
    by (auto simp: aggregate_settles_def set_stage_def intro: ha_inv_task
        split: option.splits refresh_stage.splits)
next
  case (ProbeSettles i n r)
  assume "ha_inv s"
  with ProbeSettles show ?thesis
    by (auto simp: probe_settles_def set_stage_def intro: ha_inv_task
        split: option.splits refresh_stage.splits)
next
  case (RefreshEnds i)
  assume "ha_inv s"
  with RefreshEnds show ?thesis
    by (auto simp: refresh_ends_def intro!: ha_inv_apply intro: ha_core_cong dest: ha_inv_core
        split: option.splits refresh_stage.splits list.splits)
next
  case (StopSettles c)
  assume "ha_inv s"
  with StopSettles show ?thesis
    by (auto simp: stop_settles_def ha_inv_defs split: stop_phase.splits)
next
  case (StopDrainSettles c)
  assume "ha_inv s"
  with StopDrainSettles show ?thesis
    by (auto simp: stop_drain_settles_def ha_inv_def ha_core_def ha_settled_def stop_begun_def stop_done_def)
next
  case Stop
  assume "ha_inv s"
  with Stop show ?thesis
    by (auto simp: lifecycle_stop_def ha_inv_def ha_core_def ha_settled_def stop_begun_def stop_done_def)
qed (auto intro: ha_inv_setDependencyStatus ha_inv_setDependencyStatuses ha_inv_drain ha_inv_stop_runs_drain)

interpretation ha: machine ha_step "\<lambda>_ _. True" ha_inv
  by unfold_locales (rule ha_inv_step)

lemma ha_run_ok [simp]: "run_ok ha_step (\<lambda>_ _. True) s xs"
  by (induction xs arbitrary: s) auto

lemma ha_inv_create: "ha_inv (createHaLifecycle defs agg)"
  by (simp add: ha_inv_defs createHaLifecycle_def)

text \<open>Draining and stopped are left in one direction only.\<close>

lemma apply_leaving: "leaving (hl_state s) \<Longrightarrow> applyDependencyState s = s"
  by (simp add: applyDependencyState_def operational_iff)

definition state_rank :: "ha_state \<Rightarrow> nat" where
  "state_rank st = (case st of Draining \<Rightarrow> 1 | Stopped \<Rightarrow> 2 | _ \<Rightarrow> 0)"

lemma apply_rank: "state_rank (hl_state s) \<le> state_rank (hl_state (applyDependencyState s))"
  by (cases "hl_state s") (simp_all add: applyDependencyState_def operational_def state_rank_def)

lemma setDependencyStatus_rank: "state_rank (hl_state s) \<le> state_rank (hl_state (snd (setDependencyStatus n v s)))"
  using apply_rank [of "set_dep n d s" for d]
  by (auto simp: setDependencyStatus_def split: option.splits)

lemma setDependencyStatuses_rank: "state_rank (hl_state s) \<le> state_rank (hl_state (snd (setDependencyStatuses vs s)))"
proof (induction vs s rule: setDependencyStatuses.induct)
  case (2 n v vs s)
  then show ?case using setDependencyStatus_rank [of s n v]
    by (fastforce split: prod.splits option.splits)
qed simp

lemma drain_rank: "state_rank (hl_state s) \<le> state_rank (hl_state (lifecycle_drain s))"
  by (cases "hl_state s") (simp_all add: lifecycle_drain_def state_rank_def)

lemma ha_step_rank: "state_rank (hl_state s) \<le> state_rank (hl_state (ha_step s x))"
proof (cases x)
  case (RefreshEnds i)
  then show ?thesis using apply_rank [of "s\<lparr>hl_tasks := AList.delete i (hl_tasks s)\<rparr>"]
    by (auto simp: refresh_ends_def split: option.splits refresh_stage.splits list.splits)
next
  case (StopSettles c)
  then show ?thesis
    by (cases "hl_state s") (auto simp: stop_settles_def state_rank_def split: stop_phase.splits)
qed (auto simp: lifecycle_start_def lifecycle_readiness_def begin_refresh_def aggregate_settles_def
    probe_settles_def set_stage_def lifecycle_stop_def stop_drain_settles_def stop_runs_drain_def
    intro: setDependencyStatus_rank setDependencyStatuses_rank drain_rank
    split: option.splits refresh_stage.splits)

lemma ha_run_rank: "state_rank (hl_state s) \<le> state_rank (hl_state (run ha_step s xs))"
  by (induction xs arbitrary: s) (auto intro: order_trans ha_step_rank)

section \<open>The lifecycle\<close>

text \<open>In every interleaving of calls, settling probes and cleanups, from the creation of a
  lifecycle on: a lifecycle drains when, and only when, draining has been asked for, it is
  stopped when, and only when, the stop has run to its end, and that is when a report exists;
  once draining it never becomes ready again, once stopped it stays stopped; and when no
  refresh is in flight and it is past its start, a lifecycle that is not leaving is ready
  exactly if the aggregate probe and every dependency last reported ready.\<close>

theorem ha_lifecycle_invariant:
  fixes xs ys :: "'e ha_event list" and defs :: "(string \<times> dep_definition) list" and agg :: bool
  defines "s \<equiv> run ha_step (createHaLifecycle defs agg) xs"
    and "t \<equiv> run ha_step (createHaLifecycle defs agg) (xs @ ys)"
  shows "((hl_state s = Draining \<or> hl_state s = Stopped) = hl_drained s)
    \<and> (hl_state s = Stopped) = stop_done (hl_stop s)
    \<and> (hl_report s \<noteq> None) = (hl_state s = Stopped)
    \<and> (hl_state s = Draining \<longrightarrow> hl_state t = Draining \<or> hl_state t = Stopped)
    \<and> (hl_state s = Stopped \<longrightarrow> hl_state t = Stopped)
    \<and> (hl_tasks s = [] \<and> (hl_started s \<or> hl_state s \<noteq> Starting) \<and> \<not> hl_drained s \<longrightarrow>
        hl_state s = (if (hl_aggregate s = None \<or> hl_aggregate s = Some Ready)
          \<and> list_all (\<lambda>(n, d). d = DepReady) (hl_deps s) then Ready else Degraded))"
proof (intro conjI impI)
  have inv: "ha_inv s" unfolding s_def by (rule ha.run_inv [OF ha_inv_create ha_run_ok])
  have t: "t = run ha_step s ys" by (simp add: s_def t_def run_append)
  show "(hl_state s = Draining \<or> hl_state s = Stopped) = hl_drained s"
    "(hl_state s = Stopped) = stop_done (hl_stop s)" "(hl_report s \<noteq> None) = (hl_state s = Stopped)"
    using inv by (auto simp: ha_inv_def ha_core_def leaving_def)
  show "hl_state t = Draining \<or> hl_state t = Stopped" if "hl_state s = Draining"
    using ha_run_rank [of s ys] that by (cases "hl_state t") (simp_all add: t state_rank_def)
  show "hl_state t = Stopped" if "hl_state s = Stopped"
    using ha_run_rank [of s ys] that by (cases "hl_state t") (simp_all add: t state_rank_def)
  assume "hl_tasks s = [] \<and> (hl_started s \<or> hl_state s \<noteq> Starting) \<and> \<not> hl_drained s"
  with inv have "hl_state s = nextOperationalState s"
    by (auto simp: ha_inv_def ha_core_def ha_settled_def)
  then show "hl_state s = (if (hl_aggregate s = None \<or> hl_aggregate s = Some Ready)
      \<and> list_all (\<lambda>(n, d). d = DepReady) (hl_deps s) then Ready else Degraded)"
    unfolding nextOperationalState_def by (metis (full_types))
qed

text \<open>One dependency with a probe and an aggregate: started, probed, drained, stopped.\<close>

definition sample_defs :: "(string \<times> dep_definition) list" where
  "sample_defs = [(''redis'', DepProbe), (''postgres'', DepStatus DepReady)]"

definition sample_start :: "nat ha_event list" where
  "sample_start = [Start, AggregateSettles 0 (Some \<lparr>ag_state = Ready, ag_dependencies = []\<rparr>),
     ProbeSettles 0 ''redis'' (Some (JStr ''ready'')), RefreshEnds 0]"

definition sample_stop :: "nat ha_event list" where
  "sample_stop = [Stop, StopRunsDrain, StopDrainSettles (Throws 7), StopSettles Completes]"

lemma ha_lifecycle_invariant_witness:
  "hl_state (run ha_step (createHaLifecycle sample_defs True) sample_start) = Ready
   \<and> hl_state (run ha_step (createHaLifecycle sample_defs True) (sample_start @ [Drain])) = Draining
   \<and> (let t = run ha_step (createHaLifecycle sample_defs True) ((sample_start @ [Drain]) @ sample_stop)
      in hl_state t = Draining \<or> hl_state t = Stopped)
   \<and> hl_state (run ha_step (createHaLifecycle sample_defs True) ((sample_start @ sample_stop) @ [Start, Readiness])) = Stopped"
proof -
  let ?c = "createHaLifecycle sample_defs True :: nat ha_lifecycle"
  have r: "hl_tasks (run ha_step ?c sample_start) = []" "hl_started (run ha_step ?c sample_start)"
    "\<not> hl_drained (run ha_step ?c sample_start)"
    "hl_aggregate (run ha_step ?c sample_start) = Some Ready"
    "list_all (\<lambda>(n, d). d = DepReady) (hl_deps (run ha_step ?c sample_start))"
    by code_simp+
  have d: "hl_state (run ha_step ?c (sample_start @ [Drain])) = Draining" by code_simp
  have e: "hl_state (run ha_step ?c (sample_start @ sample_stop)) = Stopped" by code_simp
  note inv = ha_lifecycle_invariant [where defs = sample_defs and agg = True]
  show ?thesis
    using r d e inv [of sample_start] inv [of "sample_start @ [Drain]" sample_stop]
      inv [of "sample_start @ sample_stop" "[Start, Readiness]"]
    by (simp add: Let_def del: run.simps)
qed

section \<open>Bounded shutdown\<close>

text \<open>The time a cleanup settles at, when it does.\<close>

fun settles_by :: "'e work \<Rightarrow> int \<Rightarrow> bool" where
  "settles_by (AtOnce e) T = (0 \<le> T)"
| "settles_by (After d e) T = (0 \<le> d \<and> d \<le> T)"
| "settles_by Never T = False"

fun work_time :: "'e work \<Rightarrow> int" where
  "work_time (After d e) = d"
| "work_time _ = 0"

fun sensible :: "'e work \<Rightarrow> bool" where
  "sensible (After d e) = (0 \<le> d)"
| "sensible _ = True"

lemma timer_delay_pos: "1 \<le> timer_delay T"
  by (simp add: timer_delay_def)

lemma timer_delay_le: "timer_delay T \<le> max 1 T"
  by (simp add: timer_delay_def)

lemma bounded_time: "boundedShutdown T w c d \<Longrightarrow> 0 \<le> d \<and> d \<le> timer_delay T"
  using timer_delay_pos [of T] by (auto elim!: boundedShutdownE)

lemma bounded_exists: "sensible w \<Longrightarrow> \<exists>c d. boundedShutdown T w c d"
proof (cases w)
  case (After d e)
  moreover assume "sensible w"
  ultimately show ?thesis
    using in_time [of d T e] too_late [of T d e] by (cases "d \<le> timer_delay T") force+
qed (blast intro: boundedShutdown.intros)+

lemma bounded_settled:
  "boundedShutdown T w c d \<Longrightarrow> settles_by w (timer_delay T - 1) \<Longrightarrow> c \<noteq> TimesOut \<and> d = work_time w"
  by (auto elim!: boundedShutdownE simp: ended_def split: option.splits)

lemma bounded_late:
  "boundedShutdown T w c d \<Longrightarrow> sensible w \<Longrightarrow> \<not> settles_by w (timer_delay T) \<Longrightarrow> c = TimesOut \<and> d = timer_delay T"
  using timer_delay_pos [of T] by (cases w) (auto elim!: boundedShutdownE)

definition stop_events :: "'e cleanup \<Rightarrow> 'e cleanup \<Rightarrow> 'e ha_event list" where
  "stop_events cd cs = [Stop, StopRunsDrain, StopDrainSettles cd, StopSettles cs]"

lemma stop_events_end:
  "hl_stop s = NotStopping \<Longrightarrow>
   hl_state (run ha_step s (stop_events cd cs)) = Stopped \<and>
   hl_report (run ha_step s (stop_events cd cs)) =
     Some \<lparr>rep_drain_timed_out = (cd = TimesOut), rep_stop_timed_out = (cs = TimesOut)\<rparr> \<and>
   hl_stop (run ha_step s (stop_events cd cs)) = StopDone (first_error cd cs)"
  by (simp add: stop_events_def lifecycle_stop_def stop_runs_drain_def stop_drain_settles_def stop_settles_def)

lemma timed_stop_total:
  assumes "sensible wd" "sensible ws"
  shows "\<exists>cd cs e. timed_stop T wd ws cd cs e"
proof -
  obtain cd d where d: "boundedShutdown T wd cd d" using bounded_exists [OF assms(1)] by blast
  obtain cs e where "boundedShutdown (remaining_budget T cd d) ws cs e" using bounded_exists [OF assms(2)] by blast
  with d show ?thesis by (blast intro: stops)
qed

lemma timed_stop_bound:
  assumes "0 \<le> T" "timed_stop T wd ws cd cs e"
  shows "0 \<le> e \<and> e \<le> T + 2"
proof -
  obtain d e' where d: "boundedShutdown T wd cd d" and e': "boundedShutdown (remaining_budget T cd d) ws cs e'"
    and e: "e = d + e'" using assms(2) unfolding timed_stop_iff by blast
  have "0 \<le> d" "d \<le> max 1 T" "0 \<le> e'" "e' \<le> max 1 (remaining_budget T cd d)"
    using bounded_time [OF d] bounded_time [OF e'] timer_delay_le [of T] timer_delay_le [of "remaining_budget T cd d"]
    by linarith+
  with assms(1) show ?thesis by (auto simp: e remaining_budget_def max_def split: if_splits)
qed

lemma timed_stop_in_time:
  assumes "timed_stop T wd ws cd cs e" "T \<le> 2147483647"
    "settles_by wd (T - 1)" "settles_by ws (T - 1 - work_time wd)"
  shows "cd \<noteq> TimesOut \<and> cs \<noteq> TimesOut \<and> e = work_time wd + work_time ws"
proof -
  obtain d e' where d: "boundedShutdown T wd cd d" and e': "boundedShutdown (remaining_budget T cd d) ws cs e'"
    and e: "e = d + e'" using assms(1) unfolding timed_stop_iff by blast
  have w: "0 \<le> work_time wd \<and> work_time wd \<le> T - 1" using assms(3) by (cases wd) auto
  then have "timer_delay T = T" using assms(2) by (simp add: timer_delay_def)
  with d assms(3) have cd: "cd \<noteq> TimesOut" "d = work_time wd" using bounded_settled [OF d] by simp_all
  then have "remaining_budget T cd d = T - work_time wd" using w by (simp add: remaining_budget_def)
  with e' have e'': "boundedShutdown (T - work_time wd) ws cs e'" by simp
  moreover have "timer_delay (T - work_time wd) = T - work_time wd" using w assms(2) by (simp add: timer_delay_def)
  moreover have "T - 1 - work_time wd = T - work_time wd - 1" by simp
  ultimately have "cs \<noteq> TimesOut \<and> e' = work_time ws"
    using assms(4) bounded_settled [OF e''] by metis
  with cd e show ?thesis by simp
qed

text \<open>C15. However the cleanups behave, a stop with a normalized timeout \<open>T\<close> comes to an end,
  within \<open>T + 2\<close> milliseconds for drain and stop handler together; the lifecycle is then stopped,
  its report names exactly the cleanups that hit a deadline and the first error is the one
  thrown. With a timeout the timers can hold (at most 2147483647), cleanups that
  together settle before it are never reported as timed out; above that bound the first deadline
  passes after one millisecond instead.\<close>

theorem shutdown_bounded:
  assumes "normalizeTimeout v = Some T" "sensible wd" "sensible ws" "hl_stop s = NotStopping"
  shows "(\<exists>cd cs e. timed_stop T wd ws cd cs e) \<and>
    (\<forall>cd cs e. timed_stop T wd ws cd cs e \<longrightarrow>
       0 \<le> e \<and> e \<le> T + 2 \<and>
       hl_state (run ha_step s (stop_events cd cs)) = Stopped \<and>
       hl_report (run ha_step s (stop_events cd cs)) =
         Some \<lparr>rep_drain_timed_out = (cd = TimesOut), rep_stop_timed_out = (cs = TimesOut)\<rparr> \<and>
       hl_stop (run ha_step s (stop_events cd cs)) = StopDone (first_error cd cs) \<and>
       (T \<le> 2147483647 \<and> settles_by wd (T - 1) \<and> settles_by ws (T - 1 - work_time wd) \<longrightarrow>
          cd \<noteq> TimesOut \<and> cs \<noteq> TimesOut \<and> e = work_time wd + work_time ws) \<and>
       (2147483647 < T \<and> \<not> settles_by wd 1 \<longrightarrow> cd = TimesOut \<and> e \<le> 2))"
proof -
  have T: "0 \<le> T"
    using assms(1) by (auto simp: normalizeTimeout_def DEFAULT_HA_SHUTDOWN_TIMEOUT_MS_def split: option.splits if_splits)
  have big: "cd = TimesOut \<and> e \<le> 2"
    if ts: "timed_stop T wd ws cd cs e" and large: "2147483647 < T" and late: "\<not> settles_by wd 1" for cd cs e
  proof -
    obtain d e' where d: "boundedShutdown T wd cd d" and e': "boundedShutdown (remaining_budget T cd d) ws cs e'"
      and e: "e = d + e'" using ts unfolding timed_stop_iff by blast
    have "timer_delay T = 1" using large by (simp add: timer_delay_def)
    with bounded_late [OF d assms(2)] late have "cd = TimesOut" "d = 1" by simp_all
    with bounded_time [OF e'] show ?thesis by (simp add: e remaining_budget_def timer_delay_def)
  qed
  show ?thesis
    using timed_stop_total [OF assms(2,3)] timed_stop_bound [OF T] timed_stop_in_time
      stop_events_end [OF assms(4)] big by blast
qed

lemma shutdown_bounded_witness:
  "timed_stop 100 (After 30 None) (Never :: nat work) Completes TimesOut 100
   \<and> hl_state (run ha_step (createHaLifecycle sample_defs True) (stop_events Completes (TimesOut :: nat cleanup))) = Stopped
   \<and> (\<exists>e. timed_stop 3000000000 (After 5000 None) (AtOnce None :: nat work) TimesOut Completes e \<and> e \<le> 2)"
proof (intro conjI)
  have n: "normalizeTimeout (Some (Some 100)) = Some 100" "normalizeTimeout (Some (Some 3000000000)) = Some 3000000000"
    by (simp_all add: normalizeTimeout_def)
  have c: "hl_stop (createHaLifecycle sample_defs True :: nat ha_lifecycle) = NotStopping"
    by (simp add: createHaLifecycle_def)
  have "boundedShutdown 100 (After 30 None) (Completes :: nat cleanup) 30"
    using in_time [of 30 100 "None :: nat option"] by (simp add: ended_def timer_delay_def)
  moreover have "boundedShutdown 70 (Never :: nat work) TimesOut 70"
    using never [of 70] by (simp add: timer_delay_def)
  ultimately show a: "timed_stop 100 (After 30 None) (Never :: nat work) Completes TimesOut 100"
    using stops [of 100 "After 30 None" Completes 30 "Never :: nat work" TimesOut 70]
    by (simp add: remaining_budget_def)
  show "hl_state (run ha_step (createHaLifecycle sample_defs True) (stop_events Completes (TimesOut :: nat cleanup))) = Stopped"
    using shutdown_bounded [OF n(1) _ _ c, of "After 30 None" Never] a by simp
  have "boundedShutdown 3000000000 (After 5000 None) (TimesOut :: nat cleanup) 1"
    using too_late [of 3000000000 5000 "None :: nat option"] by (simp add: timer_delay_def)
  moreover have "boundedShutdown 0 (AtOnce None) (Completes :: nat cleanup) 0"
    using at_once [of 0 "None :: nat option"] by (simp add: ended_def)
  ultimately have b: "timed_stop 3000000000 (After 5000 None) (AtOnce None :: nat work) TimesOut Completes 1"
    using stops [of 3000000000 "After 5000 None" TimesOut 1 "AtOnce None :: nat work" Completes 0]
    by (simp add: remaining_budget_def)
  then show "\<exists>e. timed_stop 3000000000 (After 5000 None) (AtOnce None :: nat work) TimesOut Completes e \<and> e \<le> 2"
    using shutdown_bounded [OF n(2) _ _ c, of "After 5000 None" "AtOnce None"] by fastforce
qed

section \<open>Configuration and diagnostics\<close>

text \<open>Whatever the environment and the configuration file hold, the parsed configuration is
  well typed: a safe non-negative epoch, a node id of 1 to 128 characters if any, enforcement in
  the distributed mode only and then with an epoch that was given and valid; an operator who
  asked for enforcement and does not get it is warned. Under enforcement a session passes the
  epoch check exactly if it has a session id and carries the configured epoch, and without
  it every session passes.\<close>

theorem ha_config_typed:
  "well_typed_config (fst (parseHaConfig env file)) \<and>
   (enforce_epoch (fst (parseHaConfig env file)) =
      (ha_mode (fst (parseHaConfig env file)) = Distributed \<and>
       parseBoolean (envOrFile env SetEnforce (file SetEnforce)) = Some True \<and>
       parseSessionEpoch (envOrFile env SetEpoch (file SetEpoch)) =
         Some (session_epoch (fst (parseHaConfig env file))))) \<and>
   ((SetEnforce, FallBool False) \<in> set (snd (parseHaConfig env file))) =
      (if parseBoolean (envOrFile env SetEnforce (file SetEnforce)) = Some True
       then \<not> enforce_epoch (fst (parseHaConfig env file))
       else envOrFile env SetEnforce (file SetEnforce) \<noteq> JUndefined
         \<and> parseBoolean (envOrFile env SetEnforce (file SetEnforce)) = None) \<and>
   accepted (checkSessionEpoch p (fst (parseHaConfig env file))) =
      (if enforce_epoch (fst (parseHaConfig env file))
       then meta_session_id p \<noteq> None \<and> meta_session_id p \<noteq> Some [] \<and>
         meta_epoch p = Some (session_epoch (fst (parseHaConfig env file)))
       else True)"
proof -
  let ?c = "fst (parseHaConfig env file)"
  have enf: "enforce_epoch ?c = (ha_mode ?c = Distributed \<and>
      parseBoolean (envOrFile env SetEnforce (file SetEnforce)) = Some True \<and>
      parseSessionEpoch (envOrFile env SetEpoch (file SetEpoch)) = Some (session_epoch ?c))"
    by (auto simp: parseHaConfig_def Let_def config_defaults split: option.splits)
  moreover have "(SetEnforce, FallBool False) \<in> set (snd (parseHaConfig env file)) \<longleftrightarrow>
      (if parseBoolean (envOrFile env SetEnforce (file SetEnforce)) = Some True then \<not> enforce_epoch ?c
       else envOrFile env SetEnforce (file SetEnforce) \<noteq> JUndefined
         \<and> parseBoolean (envOrFile env SetEnforce (file SetEnforce)) = None)"
    by (auto simp: parseHaConfig_def Let_def config_defaults)
  moreover have "accepted (checkSessionEpoch p ?c)" if "\<not> enforce_epoch ?c"
    using that by (simp add: checkSessionEpoch_def)
  moreover have "well_typed_config ?c" by (rule parseHaConfig_typed)
  ultimately show ?thesis using checkSessionEpoch_enforced [of ?c p] by auto
qed

text \<open>
  Diagnostics: every dependency shown has a harmless name and is one the snapshot reports with
  that status, and the timestamp is canonical whatever the snapshot holds.
\<close>

lemma safe_dependencies:
  "(n, d) \<in> set (sd_dependencies (safeHaDiagnostics le r)) \<longleftrightarrow>
   SAFE_DIAGNOSTIC_NAME n \<and> (\<exists>v. (n, v) \<in> set (the_default [] (raw_dependencies r)) \<and> isDependencyReadiness v = Some d)"
  by (auto simp: safeHaDiagnostics_def safeDependencyStatuses_def List.map_filter_def split: if_splits option.splits)
    (force split: if_splits)

lemma safe_timestamp: "canonicalTime (sd_checked_at (safeHaDiagnostics le r)) \<noteq> None"
  by (simp add: safeHaDiagnostics_def safeTimestamp_def canonicalTime_toISOString max_time_def)

end
