(* ===== verification/StudentResolver.thy ===== *)
theory StudentResolver
  imports JsText FeaturePolicy
begin

text \<open>
  The resolver of internal student ids, \<open>vnu/vnu-student-id-resolver.ts\<close>: it projects the id of
  a target student from the caller's own id, probes the projection, then a window of nearby ids
  with a pool of concurrent probes, and answers with the first candidate, in candidate order,
  whose student code is the target's. A step of the machine is the settling of one probe, the
  abort of the caller, or the continuation of \<open>settleStarted\<close> once every probe it waits for has
  settled. Which active probe settles next is free.
\<close>

section \<open>Constants, options, candidates\<close>

definition LOCAL_RADIUS :: int where "LOCAL_RADIUS = 16"

definition STUDENT_CODE_PATTERN :: "string \<Rightarrow> bool" where
  "STUDENT_CODE_PATTERN s \<longleftrightarrow> length s = 8 \<and> all_digits s"

definition VNU_STUDENT_ID_RESOLVER_MAX_PROBES :: int where
  "VNU_STUDENT_ID_RESOLVER_MAX_PROBES = 1 + LOCAL_RADIUS * 2"

definition VNU_STUDENT_ID_RESOLVER_PLATFORM_CONCURRENCY :: int where
  "VNU_STUDENT_ID_RESOLVER_PLATFORM_CONCURRENCY = 6"

record resolution =
  res_std_id :: string
  res_std_code :: string
  res_probes :: nat

datatype 'e failure = NotConverged | BadOption string | Raised 'e

record resolver_options =
  ro_own_std_id :: js_number
  ro_own_code :: js_number
  ro_target_code :: string
  ro_concurrency :: js_number
  ro_platform_limit :: "js_number option"

definition isValidStudentId :: "js_number \<Rightarrow> bool" where
  "isValidStudentId v = (case v of Whole n \<Rightarrow> safe_integer n \<and> 0 < n | NotWhole \<Rightarrow> False)"

definition valid_id :: "int \<Rightarrow> bool" where
  "valid_id n = isValidStudentId (Whole n)"

fun parsePositiveSafeInteger :: "js_number \<Rightarrow> string \<Rightarrow> 'e failure + int" where
  "parsePositiveSafeInteger (Whole n) nm = (if safe_integer n \<and> 0 < n then Inr n else Inl (BadOption nm))"
| "parsePositiveSafeInteger NotWhole nm = Inl (BadOption nm)"

definition configuredPoolWidth :: "int \<Rightarrow> int \<Rightarrow> nat \<Rightarrow> nat" where
  "configuredPoolWidth concurrency platform n = nat (min concurrency (min platform (int n)))"

definition resolved :: "int \<Rightarrow> string \<Rightarrow> nat \<Rightarrow> resolution" where
  "resolved i code n = \<lparr>res_std_id = padStart 11 CHR ''0'' (nat_string i), res_std_code = code, res_probes = n\<rparr>"

text \<open>The loop pushes \<open>p - offset\<close> and \<open>p + offset\<close> for every offset of the window.\<close>

definition window :: "int \<Rightarrow> int list" where
  "window p = concat (map (\<lambda>k. [p - k, p + k]) [1..LOCAL_RADIUS])"

text \<open>\<open>indexOf(candidate) === index\<close>: no equal entry before it.\<close>

definition localCandidates :: "int \<Rightarrow> int option \<Rightarrow> int list" where
  "localCandidates p correction =
    (let cs = (case correction of None \<Rightarrow> [] | Some c \<Rightarrow> [c]) @ window p
     in map snd (filter (\<lambda>(i, c). valid_id c \<and> c \<noteq> p \<and> c \<notin> set (take i cs)) (enumerate 0 cs)))"

text \<open>The correction read off the code the projected id answers with.\<close>

definition correction_of :: "int \<Rightarrow> int \<Rightarrow> string option \<Rightarrow> int option" where
  "correction_of target p code = (case code of
     None \<Rightarrow> None
   | Some s \<Rightarrow> if STUDENT_CODE_PATTERN s then
       (let off = target - number_of s; c = p + off
        in if \<bar>off\<bar> \<le> LOCAL_RADIUS \<and> valid_id c \<and> c \<noteq> p then Some c else None)
     else None)"

section \<open>The machine\<close>

text \<open>How a probe that is being cancelled settles: its error, and whether the cancellation came first.\<close>

datatype 'e sibling = SiblingCode "string option" | SiblingError 'e bool

datatype 'e phase =
    First
  | Pool
  | Winning int
  | Failing 'e
  | Finished "'e failure + resolution"

record 'e resolver =
  rv_phase :: "'e phase"
  rv_target :: string
  rv_projected :: int
  rv_concurrency :: int
  rv_platform :: int
  rv_candidates :: "int list"
  rv_width :: nat
  rv_active :: "nat list"
  rv_settled :: "(nat \<times> string option) list"
  rv_next :: nat
  rv_earliest :: "nat option"
  rv_probes :: nat
  rv_siblings :: "(nat \<times> 'e sibling) list"
  rv_cancel :: "'e option"

text \<open>The part of \<open>resolveVnuStudentId\<close> before its first \<open>await\<close>; the signal may be aborted already.\<close>

definition begin_resolution :: "resolver_options \<Rightarrow> 'e option \<Rightarrow> 'e failure + 'e resolver" where
  "begin_resolution o1 aborted =
    sbind (parsePositiveSafeInteger (ro_concurrency o1) ''concurrency'') (\<lambda>conc.
    sbind (parsePositiveSafeInteger
        (case ro_platform_limit o1 of None \<Rightarrow> Whole VNU_STUDENT_ID_RESOLVER_PLATFORM_CONCURRENCY | Some v \<Rightarrow> v)
        ''platformConcurrencyLimit'') (\<lambda>plat.
    case (ro_own_std_id o1, ro_own_code o1) of
      (Whole own, Whole code) \<Rightarrow>
        if \<not> valid_id own \<or> \<not> valid_id code \<or> \<not> STUDENT_CODE_PATTERN (ro_target_code o1) then Inl NotConverged
        else (let p = own + (number_of (ro_target_code o1) - code) in
          if \<not> valid_id p then Inl NotConverged
          else (case aborted of Some e \<Rightarrow> Inl (Raised e) | None \<Rightarrow>
            Inr \<lparr>rv_phase = First, rv_target = ro_target_code o1, rv_projected = p,
                 rv_concurrency = conc, rv_platform = plat, rv_candidates = [], rv_width = 0,
                 rv_active = [], rv_settled = [], rv_next = 0, rv_earliest = None, rv_probes = 1,
                 rv_siblings = [], rv_cancel = None\<rparr>))
    | _ \<Rightarrow> Inl NotConverged))"

text \<open>\<open>fillPool\<close>: it terminates as every iteration starts a candidate.\<close>

definition may_start :: "'e resolver \<Rightarrow> bool" where
  "may_start s \<longleftrightarrow> length (rv_active s) < rv_width s \<and> rv_next s < length (rv_candidates s)
     \<and> (case rv_earliest s of None \<Rightarrow> True | Some e \<Rightarrow> rv_next s < e)"

definition startProbe :: "'e resolver \<Rightarrow> 'e resolver" where
  "startProbe s = s\<lparr>rv_active := rv_active s @ [rv_next s], rv_next := rv_next s + 1, rv_probes := rv_probes s + 1\<rparr>"

function fillPool :: "'e resolver \<Rightarrow> 'e resolver" where
  "fillPool s = (if may_start s then fillPool (startProbe s) else s)"
  by auto
termination
  by (relation "measure (\<lambda>s. length (rv_candidates s) - rv_next s)")
    (auto simp: may_start_def startProbe_def)

declare fillPool.simps [simp del]

definition finish :: "'e failure + resolution \<Rightarrow> 'e resolver \<Rightarrow> 'e resolver" where
  "finish r s = s\<lparr>rv_phase := Finished r\<rparr>"

text \<open>The head of the loop: without an active probe it ends and nothing was found.\<close>

definition loop_or_stop :: "'e resolver \<Rightarrow> 'e resolver" where
  "loop_or_stop s = (let t = fillPool s in if rv_active t = [] then finish (Inl NotConverged) t else t)"

text \<open>The first probe has settled.\<close>

definition first_settles :: "string option + 'e \<Rightarrow> 'e resolver \<Rightarrow> 'e resolver" where
  "first_settles r s = (case rv_cancel s of
     Some e \<Rightarrow> finish (Inl (Raised e)) s
   | None \<Rightarrow> (case r of
       Inr e \<Rightarrow> finish (Inl (Raised e)) s
     | Inl code \<Rightarrow>
         if code = Some (rv_target s) then finish (Inr (resolved (rv_projected s) (rv_target s) (rv_probes s))) s
         else (let cs = localCandidates (rv_projected s) (correction_of (number_of (rv_target s)) (rv_projected s) code)
           in loop_or_stop (s\<lparr>rv_phase := Pool, rv_candidates := cs,
                rv_width := configuredPoolWidth (rv_concurrency s) (rv_platform s) (length cs)\<rparr>))))"

text \<open>
  The scan over the settled prefix: the first exact candidate all of whose predecessors have
  settled. The list is that of the candidate indices.
\<close>

fun prefix_winner :: "(nat \<times> string option) list \<Rightarrow> string \<Rightarrow> nat list \<Rightarrow> nat option" where
  "prefix_winner settled target [] = None"
| "prefix_winner settled target (i # js) = (case map_of settled i of
     None \<Rightarrow> None
   | Some code \<Rightarrow> if code = Some target then Some i else prefix_winner settled target js)"

definition min_option :: "nat option \<Rightarrow> nat \<Rightarrow> nat" where
  "min_option e i = (case e of None \<Rightarrow> i | Some j \<Rightarrow> min j i)"

text \<open>A probe of the pool has returned a code, or failed.\<close>

definition probe_returns :: "nat \<Rightarrow> string option \<Rightarrow> 'e resolver \<Rightarrow> 'e resolver" where
  "probe_returns i code s =
    (let t = s\<lparr>rv_active := remove1 i (rv_active s), rv_settled := AList.update i code (rv_settled s),
           rv_earliest := (if code = Some (rv_target s) then Some (min_option (rv_earliest s) i) else rv_earliest s)\<rparr>
     in case prefix_winner (rv_settled t) (rv_target t) [0..<length (rv_candidates t)] of
          Some k \<Rightarrow> t\<lparr>rv_phase := Winning (rv_candidates t ! k)\<rparr>
        | None \<Rightarrow> loop_or_stop t)"

definition probe_fails :: "nat \<Rightarrow> 'e \<Rightarrow> 'e resolver \<Rightarrow> 'e resolver" where
  "probe_fails i e s = s\<lparr>rv_active := remove1 i (rv_active s), rv_phase := Failing e\<rparr>"

text \<open>\<open>onCallerAbort\<close>; the listener is registered once.\<close>

definition caller_aborts :: "'e \<Rightarrow> 'e resolver \<Rightarrow> 'e resolver" where
  "caller_aborts e s =
    (if rv_cancel s \<noteq> None then s
     else (case rv_phase s of
        Finished r \<Rightarrow> s
      | Pool \<Rightarrow> s\<lparr>rv_cancel := Some e, rv_phase := Failing e\<rparr>
      | _ \<Rightarrow> s\<lparr>rv_cancel := Some e\<rparr>))"

text \<open>A cancelled probe has settled; all of them have.\<close>

definition sibling_settles :: "nat \<Rightarrow> 'e sibling \<Rightarrow> 'e resolver \<Rightarrow> 'e resolver" where
  "sibling_settles i x s = s\<lparr>rv_siblings := AList.update i x (rv_siblings s)\<rparr>"

definition all_settled :: "'e resolver \<Rightarrow> bool" where
  "all_settled s \<longleftrightarrow> list_all (\<lambda>i. map_of (rv_siblings s) i \<noteq> None) (rv_active s)"

text \<open>\<open>isWinnerCleanupRejection\<close> for an error, given what counts as an abort error and the reason.\<close>

definition winner_cleanup :: "('e \<Rightarrow> bool) \<Rightarrow> 'e \<Rightarrow> 'e \<Rightarrow> bool \<Rightarrow> bool" where
  "winner_cleanup is_abort reason e cancelled \<longleftrightarrow> cancelled \<and> (e = reason \<or> is_abort e)"

fun independent_failure :: "('e \<Rightarrow> bool) \<Rightarrow> 'e \<Rightarrow> 'e sibling option \<Rightarrow> 'e option" where
  "independent_failure is_abort reason (Some (SiblingError e cancelled)) =
     (if winner_cleanup is_abort reason e cancelled then None else Some e)"
| "independent_failure is_abort reason _ = None"

definition first_failure :: "('e \<Rightarrow> bool) \<Rightarrow> 'e \<Rightarrow> 'e resolver \<Rightarrow> 'e option" where
  "first_failure is_abort reason s =
    (case List.map_filter (\<lambda>i. independent_failure is_abort reason (map_of (rv_siblings s) i)) (rv_active s) of
       [] \<Rightarrow> None | e # es \<Rightarrow> Some e)"

text \<open>The continuation of \<open>settleStarted\<close>.\<close>

definition conclude :: "('e \<Rightarrow> bool) \<Rightarrow> 'e \<Rightarrow> 'e resolver \<Rightarrow> 'e resolver" where
  "conclude is_abort reason s = (case rv_phase s of
     Winning w \<Rightarrow> (case rv_cancel s of
         Some e \<Rightarrow> finish (Inl (Raised e)) (s\<lparr>rv_active := []\<rparr>)
       | None \<Rightarrow> (case first_failure is_abort reason s of
           Some e \<Rightarrow> finish (Inl (Raised e)) (s\<lparr>rv_active := []\<rparr>)
         | None \<Rightarrow> finish (Inr (resolved w (rv_target s) (rv_probes s))) (s\<lparr>rv_active := []\<rparr>)))
   | Failing e \<Rightarrow> finish (Inl (Raised (case rv_cancel s of None \<Rightarrow> e | Some c \<Rightarrow> c))) (s\<lparr>rv_active := []\<rparr>)
   | _ \<Rightarrow> s)"

datatype 'e resolver_event =
    FirstSettles "string option + 'e"
  | Returns nat "string option"
  | Fails nat 'e
  | CallerAborts 'e
  | SiblingSettles nat "'e sibling"
  | Conclude

fun settling :: "'e phase \<Rightarrow> bool" where
  "settling (Winning w) = True"
| "settling (Failing e) = True"
| "settling _ = False"

text \<open>The events that can happen in a state.\<close>

fun rv_enabled :: "'e resolver \<Rightarrow> 'e resolver_event \<Rightarrow> bool" where
  "rv_enabled s (FirstSettles r) = (rv_phase s = First)"
| "rv_enabled s (Returns i code) = (rv_phase s = Pool \<and> i \<in> set (rv_active s))"
| "rv_enabled s (Fails i e) = (rv_phase s = Pool \<and> i \<in> set (rv_active s))"
| "rv_enabled s (CallerAborts e) = (rv_cancel s = None \<and> (case rv_phase s of Finished r \<Rightarrow> False | _ \<Rightarrow> True))"
| "rv_enabled s (SiblingSettles i x) = (settling (rv_phase s) \<and> i \<in> set (rv_active s) \<and> map_of (rv_siblings s) i = None)"
| "rv_enabled s Conclude = (settling (rv_phase s) \<and> all_settled s)"

fun rv_step :: "('e \<Rightarrow> bool) \<Rightarrow> 'e \<Rightarrow> 'e resolver \<Rightarrow> 'e resolver_event \<Rightarrow> 'e resolver" where
  "rv_step is_abort reason s (FirstSettles r) = first_settles r s"
| "rv_step is_abort reason s (Returns i code) = probe_returns i code s"
| "rv_step is_abort reason s (Fails i e) = probe_fails i e s"
| "rv_step is_abort reason s (CallerAborts e) = caller_aborts e s"
| "rv_step is_abort reason s (SiblingSettles i x) = sibling_settles i x s"
| "rv_step is_abort reason s Conclude = conclude is_abort reason s"

end
