(* ===== verification/ResolverLaws.thy ===== *)
theory ResolverLaws
  imports StudentResolver
begin

text \<open>
  Lemmas on the resolver of student ids: the candidates are the window around the projection,
  without repetition; filling the pool; the invariant \<open>rv_inv\<close> every step keeps, and the weight
  every step lowers.
\<close>

section \<open>Candidates\<close>

lemma firsts_snoc:
  "map snd (filter (\<lambda>(i, c). P c \<and> c \<notin> set (take i (cs @ [x]))) (enumerate 0 (cs @ [x]))) =
   map snd (filter (\<lambda>(i, c). P c \<and> c \<notin> set (take i cs)) (enumerate 0 cs)) @ (if P x \<and> x \<notin> set cs then [x] else [])"
proof -
  have "filter (\<lambda>(i, c). P c \<and> c \<notin> set (take i (cs @ [x]))) (enumerate 0 cs) =
      filter (\<lambda>(i, c). P c \<and> c \<notin> set (take i cs)) (enumerate 0 cs)"
    by (intro filter_cong refl) (auto simp: in_set_enumerate_eq)
  then show ?thesis by (simp add: enumerate_append_eq)
qed

lemma firsts_set_distinct:
  "set (map snd (filter (\<lambda>(i, c). P c \<and> c \<notin> set (take i cs)) (enumerate 0 cs))) = {c \<in> set cs. P c}
   \<and> distinct (map snd (filter (\<lambda>(i, c). P c \<and> c \<notin> set (take i cs)) (enumerate 0 cs)))"
proof (induction cs rule: rev_induct)
  case Nil
  then show ?case by simp
next
  case (snoc x cs)
  then show ?case unfolding firsts_snoc by auto
qed

lemma set_window: "set (window p) = {c. c \<noteq> p \<and> \<bar>c - p\<bar> \<le> LOCAL_RADIUS}"
proof -
  have "c \<in> set (window p) \<longleftrightarrow> (\<exists>k. 1 \<le> k \<and> k \<le> LOCAL_RADIUS \<and> (c = p - k \<or> c = p + k))" for c
    by (auto simp: window_def)
  moreover have "(\<exists>k. 1 \<le> k \<and> k \<le> LOCAL_RADIUS \<and> (c = p - k \<or> c = p + k)) \<longleftrightarrow>
      c \<noteq> p \<and> \<bar>c - p\<bar> \<le> LOCAL_RADIUS" for c
    by (auto intro: exI [of _ "\<bar>c - p\<bar>"])
  ultimately show ?thesis by auto
qed

lemma correction_near: "correction_of t p code = Some c \<Longrightarrow> c \<noteq> p \<and> \<bar>c - p\<bar> \<le> LOCAL_RADIUS"
  by (auto simp: correction_of_def Let_def split: option.splits if_splits)

lemma set_localCandidates:
  "set (localCandidates p (correction_of t p code)) = {c. valid_id c \<and> c \<noteq> p \<and> \<bar>c - p\<bar> \<le> LOCAL_RADIUS}"
proof -
  let ?cs = "(case correction_of t p code of None \<Rightarrow> [] | Some c \<Rightarrow> [c]) @ window p"
  have "set ?cs = {c. c \<noteq> p \<and> \<bar>c - p\<bar> \<le> LOCAL_RADIUS}"
    by (cases "correction_of t p code") (auto simp: set_window dest: correction_near)
  with firsts_set_distinct [of "\<lambda>c. valid_id c \<and> c \<noteq> p" ?cs] show ?thesis
    by (auto simp: localCandidates_def Let_def case_prod_unfold conj_assoc)
qed

lemma distinct_localCandidates: "distinct (localCandidates p correction)"
  using firsts_set_distinct [of "\<lambda>c. valid_id c \<and> c \<noteq> p" "(case correction of None \<Rightarrow> [] | Some c \<Rightarrow> [c]) @ window p"]
  by (simp add: localCandidates_def Let_def case_prod_unfold conj_assoc)

lemma length_localCandidates: "length (localCandidates p (correction_of t p code)) \<le> 32"
proof -
  let ?cs = "localCandidates p (correction_of t p code)"
  have "length ?cs = card (set ?cs)" by (simp add: distinct_card distinct_localCandidates)
  also have "\<dots> \<le> card ({p - 16..p + 16} - {p})"
    by (rule card_mono) (auto simp: set_localCandidates LOCAL_RADIUS_def)
  also have "\<dots> = 32" by simp
  finally show ?thesis .
qed

section \<open>Filling the pool\<close>

lemma fillPool_sel [simp]:
  "rv_phase (fillPool s) = rv_phase s" "rv_target (fillPool s) = rv_target s"
  "rv_projected (fillPool s) = rv_projected s" "rv_concurrency (fillPool s) = rv_concurrency s"
  "rv_platform (fillPool s) = rv_platform s" "rv_candidates (fillPool s) = rv_candidates s"
  "rv_width (fillPool s) = rv_width s" "rv_settled (fillPool s) = rv_settled s"
  "rv_earliest (fillPool s) = rv_earliest s" "rv_siblings (fillPool s) = rv_siblings s"
  "rv_cancel (fillPool s) = rv_cancel s"
  by (induction s rule: fillPool.induct; subst fillPool.simps; simp add: startProbe_def)+

text \<open>The indices of the pool: started ones are active or have left, each at most once.\<close>

definition pool_ok :: "'e resolver \<Rightarrow> bool" where
  "pool_ok s \<longleftrightarrow> distinct (rv_active s @ map fst (rv_settled s))
     \<and> set (rv_active s) \<union> fst ` set (rv_settled s) \<subseteq> {..<rv_next s}
     \<and> rv_next s \<le> length (rv_candidates s) \<and> length (rv_active s) \<le> rv_width s
     \<and> rv_probes s = Suc (rv_next s)"

lemma pool_ok_startProbe: "pool_ok s \<Longrightarrow> may_start s \<Longrightarrow> pool_ok (startProbe s)"
  by (auto simp: pool_ok_def may_start_def startProbe_def lessThan_Suc)

lemma pool_ok_fillPool: "pool_ok s \<Longrightarrow> pool_ok (fillPool s)"
proof (induction s rule: fillPool.induct)
  case (1 s)
  then show ?case by (subst fillPool.simps) (simp add: pool_ok_startProbe)
qed

lemma not_may_start_fillPool: "\<not> may_start (fillPool s)"
proof (induction s rule: fillPool.induct)
  case (1 s)
  then show ?case by (subst fillPool.simps) simp
qed

lemma active_fillPool: "set (rv_active s) \<subseteq> set (rv_active (fillPool s))"
proof (induction s rule: fillPool.induct)
  case (1 s)
  then show ?case by (subst fillPool.simps) (auto simp: startProbe_def)
qed

lemma pool_ok_room: "pool_ok s \<Longrightarrow> length (rv_active s) + length (rv_settled s) \<le> length (rv_candidates s)"
proof -
  assume p: "pool_ok s"
  then have "length (rv_active s @ map fst (rv_settled s)) = card (set (rv_active s @ map fst (rv_settled s)))"
    by (metis distinct_card pool_ok_def)
  also have "\<dots> \<le> card {..<rv_next s}" using p by (intro card_mono) (auto simp: pool_ok_def)
  finally show ?thesis using p by (simp add: pool_ok_def)
qed

section \<open>Invariant and weight\<close>

definition sib_ok :: "'e resolver \<Rightarrow> bool" where
  "sib_ok s \<longleftrightarrow> distinct (map fst (rv_siblings s)) \<and> fst ` set (rv_siblings s) \<subseteq> set (rv_active s)"

definition rv_inv :: "'e resolver \<Rightarrow> bool" where
  "rv_inv s \<longleftrightarrow> length (rv_candidates s) \<le> 32 \<and> 0 < rv_concurrency s \<and> 0 < rv_platform s
     \<and> int (rv_width s) \<le> min (rv_concurrency s) (rv_platform s) \<and> pool_ok s
     \<and> (rv_phase s = First \<longrightarrow> rv_candidates s = [] \<and> rv_active s = [] \<and> rv_settled s = [] \<and> rv_siblings s = []
          \<and> rv_next s = 0 \<and> rv_earliest s = None)
     \<and> (rv_phase s = Pool \<longrightarrow> rv_active s \<noteq> [] \<and> rv_siblings s = [])
     \<and> (settling (rv_phase s) \<longrightarrow> sib_ok s)"

fun phase_weight :: "'e resolver \<Rightarrow> nat" where
  "phase_weight s = (case rv_phase s of
     First \<Rightarrow> 40
   | Pool \<Rightarrow> length (rv_candidates s) - length (rv_settled s) + 2
   | Finished r \<Rightarrow> 0
   | _ \<Rightarrow> length (rv_active s) - length (rv_siblings s) + 1)"

definition weight :: "'e resolver \<Rightarrow> nat" where
  "weight s = (if rv_cancel s = None then 1 else 0) + phase_weight s"

lemma configuredPoolWidth_le:
  "0 < c \<Longrightarrow> 0 < p \<Longrightarrow> int (configuredPoolWidth c p n) \<le> min c p"
  by (simp add: configuredPoolWidth_def)

lemma finish_sel [simp]:
  "rv_phase (finish r s) = Finished r" "rv_candidates (finish r s) = rv_candidates s"
  "rv_concurrency (finish r s) = rv_concurrency s" "rv_platform (finish r s) = rv_platform s"
  "rv_width (finish r s) = rv_width s" "rv_cancel (finish r s) = rv_cancel s"
  "rv_active (finish r s) = rv_active s" "rv_settled (finish r s) = rv_settled s"
  "rv_next (finish r s) = rv_next s" "rv_probes (finish r s) = rv_probes s"
  "rv_siblings (finish r s) = rv_siblings s"
  by (simp_all add: finish_def)

lemma pool_ok_finish [simp]: "pool_ok (finish r s) = pool_ok s"
  by (simp add: pool_ok_def)

lemma pool_ok_cong:
  "pool_ok s \<Longrightarrow> distinct (rv_active t) \<Longrightarrow> set (rv_active t) \<subseteq> set (rv_active s) \<Longrightarrow> rv_settled t = rv_settled s \<Longrightarrow>
   rv_next t = rv_next s \<Longrightarrow> rv_candidates t = rv_candidates s \<Longrightarrow> rv_width t = rv_width s \<Longrightarrow>
   rv_probes t = rv_probes s \<Longrightarrow> pool_ok t"
proof -
  assume t: "pool_ok s" "distinct (rv_active t)" "set (rv_active t) \<subseteq> set (rv_active s)"
    "rv_settled t = rv_settled s" "rv_next t = rv_next s" "rv_candidates t = rv_candidates s"
    "rv_width t = rv_width s" "rv_probes t = rv_probes s"
  have "length (rv_active t) \<le> length (rv_active s)"
    using t(1-3) by (metis List.finite_set card_mono distinct_append distinct_card pool_ok_def)
  with t show "pool_ok t" unfolding pool_ok_def by auto
qed

lemma rv_inv_finish:
  "length (rv_candidates s) \<le> 32 \<Longrightarrow> 0 < rv_concurrency s \<Longrightarrow> 0 < rv_platform s \<Longrightarrow>
   int (rv_width s) \<le> min (rv_concurrency s) (rv_platform s) \<Longrightarrow> pool_ok s \<Longrightarrow> rv_inv (finish r s)"
  by (simp add: rv_inv_def)

lemma loop_or_stop_inv:
  assumes "length (rv_candidates s) \<le> 32" "0 < rv_concurrency s" "0 < rv_platform s"
    "int (rv_width s) \<le> min (rv_concurrency s) (rv_platform s)" "pool_ok s" "rv_phase s = Pool" "rv_siblings s = []"
  shows "rv_inv (loop_or_stop s)" "weight (loop_or_stop s) \<le> weight s"
  using assms pool_ok_fillPool [OF assms(5)]
  by (auto simp: loop_or_stop_def Let_def rv_inv_def weight_def)

text \<open>Every step that can happen keeps the invariant and lowers the weight.\<close>

definition good_step :: "'e resolver \<Rightarrow> 'e resolver \<Rightarrow> bool" where
  "good_step s t \<longleftrightarrow> rv_inv t \<and> weight t < weight s"

lemma rv_invD:
  "rv_inv s \<Longrightarrow> length (rv_candidates s) \<le> 32" "rv_inv s \<Longrightarrow> 0 < rv_concurrency s"
  "rv_inv s \<Longrightarrow> 0 < rv_platform s" "rv_inv s \<Longrightarrow> int (rv_width s) \<le> min (rv_concurrency s) (rv_platform s)"
  "rv_inv s \<Longrightarrow> pool_ok s"
  by (simp_all add: rv_inv_def)

lemma good_finish:
  assumes "rv_inv s" "\<forall>r. rv_phase s \<noteq> Finished r"
  shows "good_step s (finish r s)"
proof -
  have "0 < phase_weight s" using assms(2) by (auto split: phase.splits)
  with rv_inv_finish [OF rv_invD [OF assms(1)], of r] show ?thesis by (simp add: good_step_def weight_def)
qed

lemma good_first: "rv_inv s \<Longrightarrow> rv_phase s = First \<Longrightarrow> good_step s (first_settles r s)"
proof -
  assume i: "rv_inv s" and f: "rv_phase s = First"
  note fin = good_finish [OF i]
  show ?thesis
  proof (cases "rv_cancel s = None \<and> (\<exists>code. r = Inl code \<and> code \<noteq> Some (rv_target s))")
    case False
    then show ?thesis using f by (cases r) (auto simp: first_settles_def intro: fin split: option.splits)
  next
    case True
    then obtain code where c: "r = Inl code" "code \<noteq> Some (rv_target s)" and nc: "rv_cancel s = None" by blast
    define cs where "cs = localCandidates (rv_projected s) (correction_of (number_of (rv_target s)) (rv_projected s) code)"
    define t where "t = s\<lparr>rv_phase := Pool, rv_candidates := cs,
        rv_width := configuredPoolWidth (rv_concurrency s) (rv_platform s) (length cs)\<rparr>"
    have r: "first_settles r s = loop_or_stop t"
      by (simp add: first_settles_def c nc t_def cs_def Let_def)
    have "length cs \<le> 32" unfolding cs_def by (rule length_localCandidates)
    moreover have "int (configuredPoolWidth (rv_concurrency s) (rv_platform s) (length cs)) \<le> min (rv_concurrency s) (rv_platform s)"
      using i by (intro configuredPoolWidth_le) (simp_all add: rv_inv_def)
    moreover have "pool_ok t" using i f by (simp add: t_def rv_inv_def pool_ok_def)
    moreover have "rv_phase t = Pool" "rv_siblings t = []" "rv_candidates t = cs"
      "rv_concurrency t = rv_concurrency s" "rv_platform t = rv_platform s"
      "rv_width t = configuredPoolWidth (rv_concurrency s) (rv_platform s) (length cs)"
      using i f by (simp_all add: t_def rv_inv_def)
    ultimately have "rv_inv (loop_or_stop t)" "weight (loop_or_stop t) \<le> weight t"
      using rv_invD(2,3) [OF i] loop_or_stop_inv [of t] by simp_all
    moreover have "weight t < weight s" using \<open>length cs \<le> 32\<close> f by (simp add: weight_def t_def)
    ultimately show ?thesis by (simp add: good_step_def r)
  qed
qed

lemma update_nonmem: "k \<notin> fst ` set al \<Longrightarrow> AList.update k v al = al @ [(k, v)]"
  by (induction al) auto

lemma pool_ok_return:
  assumes "pool_ok s" "i \<in> set (rv_active s)"
  shows "pool_ok (s\<lparr>rv_active := remove1 i (rv_active s), rv_settled := AList.update i code (rv_settled s), rv_earliest := e\<rparr>)"
    "length (AList.update i code (rv_settled s)) = Suc (length (rv_settled s))"
proof -
  have new: "i \<notin> fst ` set (rv_settled s)" using assms by (auto simp: pool_ok_def)
  then have u: "AList.update i code (rv_settled s) = rv_settled s @ [(i, code)]" by (rule update_nonmem)
  show "length (AList.update i code (rv_settled s)) = Suc (length (rv_settled s))" by (simp add: u)
  show "pool_ok (s\<lparr>rv_active := remove1 i (rv_active s), rv_settled := AList.update i code (rv_settled s), rv_earliest := e\<rparr>)"
    using assms new set_remove1_subset [of i "rv_active s"]
    by (auto simp: pool_ok_def u set_remove1_eq length_remove1)
qed

lemma good_returns:
  assumes i: "rv_inv s" and ph: "rv_phase s = Pool" and a: "i \<in> set (rv_active s)"
  shows "good_step s (probe_returns i code s)"
proof -
  define t where "t = s\<lparr>rv_active := remove1 i (rv_active s), rv_settled := AList.update i code (rv_settled s),
      rv_earliest := (if code = Some (rv_target s) then Some (min_option (rv_earliest s) i) else rv_earliest s)\<rparr>"
  have pt: "pool_ok t" unfolding t_def by (rule pool_ok_return(1) [OF rv_invD(5) [OF i] a])
  have len: "length (rv_settled t) = Suc (length (rv_settled s))"
    using pool_ok_return(2) [OF rv_invD(5) [OF i] a] by (simp add: t_def)
  have bnd: "length (rv_candidates t) \<le> 32" "0 < rv_concurrency t" "0 < rv_platform t"
    "int (rv_width t) \<le> min (rv_concurrency t) (rv_platform t)" "rv_phase t = Pool" "rv_siblings t = []"
    using i ph by (simp_all add: t_def rv_inv_def)
  have "weight t < weight s"
    using pool_ok_room [OF pt] len ph by (simp add: weight_def t_def)
  moreover have "good_step s (t\<lparr>rv_phase := Winning w\<rparr>)" for w
  proof -
    have "pool_ok (t\<lparr>rv_phase := Winning w\<rparr>)" using pt by (simp add: pool_ok_def)
    moreover have "weight (t\<lparr>rv_phase := Winning w\<rparr>) < weight s"
      using pool_ok_room [OF pt] len ph bnd(6) by (simp add: weight_def t_def)
    ultimately show ?thesis using bnd by (auto simp: good_step_def rv_inv_def sib_ok_def)
  qed
  moreover have "rv_inv (loop_or_stop t)" "weight (loop_or_stop t) \<le> weight t"
    using loop_or_stop_inv [OF bnd(1-4) pt bnd(5,6)] by simp_all
  ultimately show ?thesis
    unfolding probe_returns_def t_def [symmetric] Let_def
    by (auto simp: good_step_def split: option.splits)
qed

lemma good_fails:
  assumes i: "rv_inv s" and ph: "rv_phase s = Pool" and a: "i \<in> set (rv_active s)"
  shows "good_step s (probe_fails i e s)"
proof -
  have "distinct (rv_active s)" using rv_invD(5) [OF i] by (simp add: pool_ok_def)
  then have "pool_ok (probe_fails i e s)" 
    using pool_ok_cong [OF rv_invD(5) [OF i], of "probe_fails i e s"] set_remove1_subset [of i "rv_active s"]
    by (simp add: probe_fails_def)
  moreover have "length (remove1 i (rv_active s)) = length (rv_active s) - 1" "0 < length (rv_active s)"
    using a by (auto simp: length_remove1)
  ultimately show ?thesis using i ph pool_ok_room [OF rv_invD(5) [OF i]]
    by (simp add: good_step_def rv_inv_def weight_def probe_fails_def sib_ok_def)
qed

lemma good_aborts:
  assumes i: "rv_inv s" and c: "rv_cancel s = None"
  shows "rv_enabled s (CallerAborts e) \<Longrightarrow> good_step s (caller_aborts e s)"
proof -
  assume en: "rv_enabled s (CallerAborts e)"
  have p: "pool_ok (caller_aborts e s)"
    using rv_invD(5) [OF i] c by (simp add: caller_aborts_def pool_ok_def split: phase.splits)
  show ?thesis
  proof (cases "rv_phase s")
    case First
    with p i c show ?thesis by (simp add: good_step_def rv_inv_def weight_def caller_aborts_def)
  next
    case Pool
    with p i c pool_ok_room [OF rv_invD(5) [OF i]] show ?thesis
      by (simp add: good_step_def rv_inv_def weight_def caller_aborts_def sib_ok_def)
  next
    case (Winning w)
    with p i c show ?thesis by (simp add: good_step_def rv_inv_def weight_def caller_aborts_def sib_ok_def)
  next
    case (Failing f)
    with p i c show ?thesis by (simp add: good_step_def rv_inv_def weight_def caller_aborts_def sib_ok_def)
  qed (use en in simp)
qed

lemma good_sibling:
  assumes i: "rv_inv s" and en: "rv_enabled s (SiblingSettles k x)"
  shows "good_step s (sibling_settles k x s)"
proof -
  have k: "settling (rv_phase s)" "k \<in> set (rv_active s)" "k \<notin> fst ` set (rv_siblings s)"
    using en by (auto simp: map_of_eq_None_iff)
  then have u: "AList.update k x (rv_siblings s) = rv_siblings s @ [(k, x)]" by (intro update_nonmem)
  have so: "sib_ok s" using i k(1) by (simp add: rv_inv_def)
  have "length (map fst (rv_siblings s)) = card (set (map fst (rv_siblings s)))"
    using so by (metis distinct_card sib_ok_def)
  also have "\<dots> < card (set (rv_active s))"
    using so k by (intro psubset_card_mono) (auto simp: sib_ok_def)
  also have "\<dots> \<le> length (rv_active s)" by (rule card_length)
  finally have "length (rv_siblings s) < length (rv_active s)" by simp
  moreover have "pool_ok (sibling_settles k x s)" using rv_invD(5) [OF i] by (simp add: pool_ok_def sibling_settles_def)
  ultimately show ?thesis using i k so
    by (cases "rv_phase s") (auto simp: good_step_def rv_inv_def weight_def sibling_settles_def u sib_ok_def)
qed

lemma good_conclude:
  assumes i: "rv_inv s" and ph: "settling (rv_phase s)"
  shows "good_step s (conclude is_abort reason s)"
proof -
  let ?t = "s\<lparr>rv_active := []\<rparr>"
  have "pool_ok ?t" by (rule pool_ok_cong [OF rv_invD(5) [OF i]]) simp_all
  then have "rv_inv (finish r ?t)" for r
    using i by (intro rv_inv_finish) (simp_all add: rv_inv_def)
  moreover have "weight (finish r ?t) < weight s" for r using ph by (cases "rv_phase s") (simp_all add: weight_def)
  ultimately show ?thesis using ph
    by (cases "rv_phase s") (auto simp: conclude_def good_step_def split: option.splits)
qed

lemma good_rv_step:
  "rv_inv s \<Longrightarrow> rv_enabled s x \<Longrightarrow> good_step s (rv_step is_abort reason s x)"
  by (cases x) (auto intro: good_first good_returns good_fails good_aborts good_sibling good_conclude)

text \<open>Nobody has to wait for ever: an unfinished resolution has a probe in flight or concludes.\<close>

lemma rv_progress:
  assumes "rv_inv s"
  shows "(\<exists>r. rv_phase s = Finished r) \<or> rv_phase s = First \<or> rv_enabled s Conclude
    \<or> (\<exists>i \<in> set (rv_active s). \<forall>code x. rv_enabled s (Returns i code) \<or> rv_enabled s (SiblingSettles i x))"
proof (cases "settling (rv_phase s)")
  case True
  then show ?thesis by (cases "all_settled s") (auto simp: all_settled_def list_all_iff)
next
  case False
  then show ?thesis using assms
    by (cases "rv_phase s") (auto simp: rv_inv_def neq_Nil_conv)
qed

lemma parsePositive_Inr: "parsePositiveSafeInteger v nm = Inr n \<Longrightarrow> 0 < n"
  by (cases v) (auto split: if_splits)

lemma begin_inv:
  fixes s :: "'a resolver"
  assumes "begin_resolution o1 a = Inr s"
  shows "rv_inv s \<and> weight s = 41 \<and> rv_phase s = First"
proof -
  obtain conc plat where cp: "parsePositiveSafeInteger (ro_concurrency o1) ''concurrency'' = (Inr conc :: 'a failure + int)"
    "parsePositiveSafeInteger (case ro_platform_limit o1 of None \<Rightarrow> Whole VNU_STUDENT_ID_RESOLVER_PLATFORM_CONCURRENCY | Some v \<Rightarrow> v)
        ''platformConcurrencyLimit'' = (Inr plat :: 'a failure + int)"
    using assms unfolding begin_resolution_def sbind_Inr_iff by blast
  obtain own code where oc: "ro_own_std_id o1 = Whole own" "ro_own_code o1 = Whole code"
    using assms by (cases "ro_own_std_id o1"; cases "ro_own_code o1") (simp_all add: begin_resolution_def cp)
  have "0 < conc" "0 < plat" using cp by (auto dest: parsePositive_Inr)
  moreover have "rv_concurrency s = conc" "rv_platform s = plat"
    "rv_phase s = First" "rv_candidates s = []" "rv_width s = 0" "rv_active s = []" "rv_settled s = []"
    "rv_next s = 0" "rv_earliest s = None" "rv_probes s = 1" "rv_siblings s = []" "rv_cancel s = None"
    using assms by (cases a; auto simp: begin_resolution_def cp oc Let_def split: if_splits)+
  ultimately show ?thesis by (simp add: rv_inv_def pool_ok_def weight_def)
qed

end
