(* ===== verification/ResolverProps.thy ===== *)
theory ResolverProps
  imports ResolverLaws
begin

text \<open>
  What the resolver of student ids guarantees: bounds and termination under every event, and
  the answer of a sequential search over the candidates whatever the order in which the
  concurrent probes settle.
\<close>

section \<open>The sequential reference\<close>

text \<open>\<open>f\<close> is what the service answers for an id. The projection first, then the candidates in order.\<close>

definition candidates_of :: "(int \<Rightarrow> string option) \<Rightarrow> string \<Rightarrow> int \<Rightarrow> int list" where
  "candidates_of f target p = localCandidates p (correction_of (number_of target) p (f p))"

definition sequential :: "(int \<Rightarrow> string option) \<Rightarrow> string \<Rightarrow> int \<Rightarrow> int option" where
  "sequential f target p =
    (if f p = Some target then Some p else List.find (\<lambda>c. f c = Some target) (candidates_of f target p))"

definition outcome :: "string \<Rightarrow> nat \<Rightarrow> int option \<Rightarrow> 'e failure + resolution" where
  "outcome target n r = (case r of None \<Rightarrow> Inl NotConverged | Some c \<Rightarrow> Inr (resolved c target n))"

text \<open>The service answers by \<open>f\<close>; a probe cancelled by the winner may answer or fail by its cancellation.\<close>

fun harmless :: "('e \<Rightarrow> bool) \<Rightarrow> 'e \<Rightarrow> 'e sibling \<Rightarrow> bool" where
  "harmless is_abort reason (SiblingCode c) = True"
| "harmless is_abort reason (SiblingError e cancelled) = winner_cleanup is_abort reason e cancelled"

fun answered_by :: "(int \<Rightarrow> string option) \<Rightarrow> ('e \<Rightarrow> bool) \<Rightarrow> 'e \<Rightarrow> 'e resolver \<Rightarrow> 'e resolver_event \<Rightarrow> bool" where
  "answered_by f is_abort reason s (FirstSettles r) = (r = Inl (f (rv_projected s)))"
| "answered_by f is_abort reason s (Returns i code) = (code = f (rv_candidates s ! i))"
| "answered_by f is_abort reason s (SiblingSettles i x) = harmless is_abort reason x"
| "answered_by f is_abort reason s Conclude = True"
| "answered_by f is_abort reason s _ = False"

definition quiet where
  "quiet f is_abort reason s x \<longleftrightarrow> rv_enabled s x \<and> answered_by f is_abort reason s x"

section \<open>The scan over the settled prefix\<close>

definition exact_at :: "(nat \<times> string option) list \<Rightarrow> string \<Rightarrow> nat \<Rightarrow> bool" where
  "exact_at st target k \<longleftrightarrow> map_of st k = Some (Some target)"

definition other_at :: "(nat \<times> string option) list \<Rightarrow> string \<Rightarrow> nat \<Rightarrow> bool" where
  "other_at st target k \<longleftrightarrow> (\<exists>c. map_of st k = Some c \<and> c \<noteq> Some target)"

lemma prefix_winner_Cons:
  "prefix_winner st target (i # js) = Some k \<longleftrightarrow>
   (exact_at st target i \<and> k = i) \<or> (other_at st target i \<and> prefix_winner st target js = Some k)"
  by (auto simp: exact_at_def other_at_def split: option.splits)

lemma prefix_winner_from:
  "prefix_winner st target [m..<m + d] = Some k \<longleftrightarrow>
   m \<le> k \<and> k < m + d \<and> exact_at st target k \<and> (\<forall>j. m \<le> j \<and> j < k \<longrightarrow> other_at st target j)"
proof (induction d arbitrary: m)
  case 0
  then show ?case by simp
next
  case (Suc d)
  have u: "[m..<m + Suc d] = m # [Suc m..<Suc m + d]" by (simp add: upt_conv_Cons)
  have ex: "exact_at st target j \<Longrightarrow> \<not> other_at st target j" for j
    by (auto simp: exact_at_def other_at_def)
  show ?case
  proof (cases "k = m")
    case True
    then show ?thesis unfolding u prefix_winner_Cons Suc.IH using ex [of m] by auto
  next
    case False
    have split: "(\<forall>j. m \<le> j \<and> j < k \<longrightarrow> other_at st target j) \<longleftrightarrow>
        other_at st target m \<and> (\<forall>j. Suc m \<le> j \<and> j < k \<longrightarrow> other_at st target j)" if "m < k"
      using that by (metis Suc_leD Suc_leI le_neq_implies_less order_refl)
    show ?thesis
    proof (cases "m < k")
      case True
      then show ?thesis unfolding u prefix_winner_Cons Suc.IH using False split [OF True] by auto
    next
      case less: False
      with False show ?thesis unfolding u prefix_winner_Cons Suc.IH by auto
    qed
  qed
qed

lemma prefix_winner_upt:
  "prefix_winner st target [0..<n] = Some k \<longleftrightarrow>
   k < n \<and> map_of st k = Some (Some target) \<and> (\<forall>j < k. \<exists>c. map_of st j = Some c \<and> c \<noteq> Some target)"
  using prefix_winner_from [of st target 0 n k] by (simp add: exact_at_def other_at_def)

section \<open>The invariant of a quiet run\<close>

text \<open>The settled answers are those of the service, and the earliest exact index has settled.\<close>

definition answers_ok :: "(int \<Rightarrow> string option) \<Rightarrow> 'e resolver \<Rightarrow> bool" where
  "answers_ok f s \<longleftrightarrow> set (rv_active s) \<union> fst ` set (rv_settled s) = {..<rv_next s}
     \<and> (\<forall>i c. map_of (rv_settled s) i = Some c \<longrightarrow> c = f (rv_candidates s ! i))
     \<and> (\<forall>e. rv_earliest s = Some e \<longrightarrow> map_of (rv_settled s) e = Some (Some (rv_target s)))"

definition searching :: "(int \<Rightarrow> string option) \<Rightarrow> 'e resolver \<Rightarrow> bool" where
  "searching f s \<longleftrightarrow> f (rv_projected s) \<noteq> Some (rv_target s)
     \<and> rv_candidates s = candidates_of f (rv_target s) (rv_projected s)
     \<and> (0 < rv_width s \<or> rv_candidates s = [])"

definition no_winner :: "'e resolver \<Rightarrow> bool" where
  "no_winner s \<longleftrightarrow> prefix_winner (rv_settled s) (rv_target s) [0..<length (rv_candidates s)] = None"

definition quiet_inv :: "(int \<Rightarrow> string option) \<Rightarrow> ('e \<Rightarrow> bool) \<Rightarrow> 'e \<Rightarrow> string \<Rightarrow> int \<Rightarrow> 'e resolver \<Rightarrow> bool" where
  "quiet_inv f is_abort reason target p s \<longleftrightarrow> rv_inv s \<and> rv_target s = target \<and> rv_projected s = p \<and> rv_cancel s = None
     \<and> (case rv_phase s of
          First \<Rightarrow> True
        | Pool \<Rightarrow> searching f s \<and> answers_ok f s \<and> no_winner s \<and> \<not> may_start s
        | Winning w \<Rightarrow> sequential f target p = Some w
            \<and> (\<forall>i x. map_of (rv_siblings s) i = Some x \<longrightarrow> harmless is_abort reason x)
        | Failing e \<Rightarrow> False
        | Finished r \<Rightarrow> r = outcome target (rv_probes s) (sequential f target p))"

lemma answers_ok_startProbe: "answers_ok f s \<Longrightarrow> answers_ok f (startProbe s)"
  by (auto simp: answers_ok_def startProbe_def)

lemma answers_ok_fillPool: "answers_ok f s \<Longrightarrow> answers_ok f (fillPool s)"
proof (induction s rule: fillPool.induct)
  case (1 s)
  then show ?case by (subst fillPool.simps) (simp add: answers_ok_startProbe)
qed

text \<open>A winner of the scan is the answer of the sequential search.\<close>

lemma winner_sequential:
  assumes "searching f s" "answers_ok f s"
    "prefix_winner (rv_settled s) (rv_target s) [0..<length (rv_candidates s)] = Some k"
  shows "sequential f (rv_target s) (rv_projected s) = Some (rv_candidates s ! k)"
proof -
  let ?cs = "rv_candidates s"
  have k: "k < length ?cs" "f (?cs ! k) = Some (rv_target s)"
    using assms(2,3) by (auto simp: prefix_winner_upt answers_ok_def)
  have "f (?cs ! j) \<noteq> Some (rv_target s)" if "j < k" for j
    using assms(2,3) that by (fastforce simp: prefix_winner_upt answers_ok_def)
  with k have "List.find (\<lambda>c. f c = Some (rv_target s)) ?cs = Some (?cs ! k)"
    by (auto simp: find_Some_iff)
  with assms(1) show ?thesis by (simp add: sequential_def searching_def)
qed

text \<open>When the pool has run empty without a winner, no candidate matches.\<close>

lemma empty_sequential:
  assumes s: "searching f s" "answers_ok f s" "no_winner s" "\<not> may_start s" "rv_active s = []"
    and n: "rv_next s \<le> length (rv_candidates s)"
  shows "sequential f (rv_target s) (rv_projected s) = None"
proof -
  let ?cs = "rv_candidates s" and ?hit = "\<lambda>k. f (rv_candidates s ! k) = Some (rv_target s)"
  have dom: "\<exists>c. map_of (rv_settled s) i = Some c" if "i < rv_next s" for i
  proof -
    have "i \<in> fst ` set (rv_settled s)" using s(2,5) that by (auto simp: answers_ok_def)
    then show ?thesis by (simp add: map_of_eq_None_iff flip: not_None_eq)
  qed
  have none: "\<not> ?hit k" if kn: "k < rv_next s" for k
  proof
    assume "?hit k"
    define m where "m = (LEAST k. ?hit k)"
    have m: "?hit m" "m \<le> k" using \<open>?hit k\<close> unfolding m_def by (rule LeastI, rule Least_le)
    have less: "\<not> ?hit j" if "j < m" for j using that unfolding m_def by (rule not_less_Least)
    have "prefix_winner (rv_settled s) (rv_target s) [0..<length ?cs] = Some m"
      unfolding prefix_winner_upt
    proof (intro conjI allI impI)
      show "m < length ?cs" using m(2) kn n by linarith
      obtain c where "map_of (rv_settled s) m = Some c" using dom [of m] m(2) kn by auto
      with s(2) m(1) show "map_of (rv_settled s) m = Some (Some (rv_target s))"
        by (auto simp: answers_ok_def)
      fix j assume "j < m"
      moreover obtain c where c: "map_of (rv_settled s) j = Some c" using dom [of j] \<open>j < m\<close> m(2) kn by auto
      moreover have "c = f (?cs ! j)" using s(2) c by (simp add: answers_ok_def)
      ultimately show "\<exists>c. map_of (rv_settled s) j = Some c \<and> c \<noteq> Some (rv_target s)"
        using less by auto
    qed
    with s(3) show False by (simp add: no_winner_def)
  qed
  have "rv_earliest s = None"
  proof (rule ccontr)
    assume "rv_earliest s \<noteq> None"
    then obtain e where e: "map_of (rv_settled s) e = Some (Some (rv_target s))"
      using s(2) by (auto simp: answers_ok_def)
    then have "e \<in> fst ` set (rv_settled s)" by (metis map_of_eq_None_iff option.distinct(1))
    then have "e < rv_next s" using s(2,5) by (auto simp: answers_ok_def)
    with none [of e] e s(2) show False by (auto simp: answers_ok_def)
  qed
  then have "rv_next s = length ?cs" using s(1,4,5) n by (auto simp: may_start_def searching_def)
  then have "List.find (\<lambda>c. f c = Some (rv_target s)) ?cs = None"
    using none by (auto simp: find_None_iff in_set_conv_nth)
  with s(1) show ?thesis by (simp add: sequential_def searching_def)
qed

text \<open>Going round the loop keeps the invariant, or ends it with the right answer.\<close>

lemma loop_quiet:
  assumes s: "searching f s" "answers_ok f s" "no_winner s" "rv_phase s = Pool" "rv_cancel s = None"
    and n: "pool_ok s" and inv: "rv_inv (loop_or_stop s)"
  shows "quiet_inv f is_abort reason (rv_target s) (rv_projected s) (loop_or_stop s)"
proof -
  let ?t = "fillPool s"
  have t: "searching f ?t" "answers_ok f ?t" "no_winner ?t" "\<not> may_start ?t"
    using s answers_ok_fillPool [OF s(2)] not_may_start_fillPool [of s]
    by (auto simp: searching_def no_winner_def)
  have "rv_next ?t \<le> length (rv_candidates ?t)" using pool_ok_fillPool [OF n] unfolding pool_ok_def by blast
  with empty_sequential [OF t] have "rv_active ?t = [] \<Longrightarrow> sequential f (rv_target s) (rv_projected s) = None"
    by simp
  with t inv s(4,5) show ?thesis
    by (auto simp: loop_or_stop_def Let_def quiet_inv_def outcome_def finish_def)
qed

lemma first_quiet:
  assumes q: "quiet_inv f is_abort reason target p s" and ph: "rv_phase s = First"
  shows "quiet_inv f is_abort reason target p (first_settles (Inl (f p)) s)"
proof -
  have i: "rv_inv s" and tp: "rv_target s = target" "rv_projected s = p" and c: "rv_cancel s = None"
    using q by (simp_all add: quiet_inv_def)
  have good: "rv_inv (first_settles (Inl (f p)) s)"
    using good_first [OF i ph, of "Inl (f p)"] by (simp add: good_step_def)
  show ?thesis
  proof (cases "f p = Some target")
    case True
    then have "first_settles (Inl (f p)) s = finish (Inr (resolved p target (rv_probes s))) s"
      by (simp add: first_settles_def c tp)
    with True good tp c show ?thesis by (simp add: quiet_inv_def sequential_def outcome_def finish_def)
  next
    case False
    define cs where "cs = candidates_of f target p"
    define t where "t = s\<lparr>rv_phase := Pool, rv_candidates := cs,
        rv_width := configuredPoolWidth (rv_concurrency s) (rv_platform s) (length cs)\<rparr>"
    have e: "first_settles (Inl (f p)) s = loop_or_stop t"
      using False by (simp add: first_settles_def c tp t_def cs_def candidates_of_def Let_def)
    have idle: "rv_active s = []" "rv_settled s = []" "rv_next s = 0" "rv_earliest s = None" "rv_probes s = 1"
      "0 < rv_concurrency s" "0 < rv_platform s"
      using i ph by (simp_all add: rv_inv_def pool_ok_def)
    have "searching f t" "answers_ok f t" "rv_phase t = Pool" "rv_cancel t = None" "pool_ok t"
      using False idle tp c by (auto simp: t_def searching_def cs_def answers_ok_def pool_ok_def
          configuredPoolWidth_def)
    moreover have "no_winner t"
      by (cases "[0..<length (rv_candidates t)]") (simp_all add: no_winner_def t_def idle)
    moreover have "rv_inv (loop_or_stop t)" using good by (simp add: e)
    ultimately have "quiet_inv f is_abort reason (rv_target t) (rv_projected t) (loop_or_stop t)" by (intro loop_quiet)
    then show ?thesis by (simp add: e t_def tp)
  qed
qed

lemma returns_quiet:
  assumes q: "quiet_inv f is_abort reason target p s" and ph: "rv_phase s = Pool" and a: "i \<in> set (rv_active s)"
  shows "quiet_inv f is_abort reason target p (probe_returns i (f (rv_candidates s ! i)) s)"
proof -
  let ?code = "f (rv_candidates s ! i)"
  have i: "rv_inv s" and tp: "rv_target s = target" "rv_projected s = p" and c: "rv_cancel s = None"
    and se: "searching f s" and ao: "answers_ok f s" using q ph by (simp_all add: quiet_inv_def)
  define t where "t = s\<lparr>rv_active := remove1 i (rv_active s), rv_settled := AList.update i ?code (rv_settled s),
      rv_earliest := (if ?code = Some (rv_target s) then Some (min_option (rv_earliest s) i) else rv_earliest s)\<rparr>"
  have good: "rv_inv (probe_returns i ?code s)" using good_returns [OF i ph a] by (simp add: good_step_def)
  have pok: "pool_ok t" unfolding t_def by (rule pool_ok_return(1) [OF rv_invD(5) [OF i] a])
  have da: "distinct (rv_active s)" using rv_invD(5) [OF i] by (simp add: pool_ok_def)
  have st: "searching f t" using se by (auto simp: searching_def t_def)
  have at: "answers_ok f t"
    unfolding answers_ok_def
  proof (intro conjI allI impI)
    have "fst ` set (rv_settled t) = insert i (fst ` set (rv_settled s))"
      by (simp add: t_def dom_map_of_conv_image_fst [symmetric] map_of_update)
    then show "set (rv_active t) \<union> fst ` set (rv_settled t) = {..<rv_next t}"
      using ao a da by (auto simp: answers_ok_def t_def set_remove1_eq)
    show "code = f (rv_candidates t ! j)" if "map_of (rv_settled t) j = Some code" for j code
      using ao that by (auto simp: answers_ok_def t_def map_of_update split: if_splits)
    show "map_of (rv_settled t) e = Some (Some (rv_target t))" if "rv_earliest t = Some e" for e
      using ao that by (auto simp: answers_ok_def t_def map_of_update min_option_def min_def
          split: if_splits option.splits)
  qed
  show ?thesis
  proof (cases "prefix_winner (rv_settled t) (rv_target t) [0..<length (rv_candidates t)]")
    case (Some k)
    then have e: "probe_returns i ?code s = t\<lparr>rv_phase := Winning (rv_candidates t ! k)\<rparr>"
      by (simp add: probe_returns_def t_def [symmetric] Let_def)
    have "rv_siblings t = []" using i ph by (simp add: t_def rv_inv_def)
    with winner_sequential [OF st at Some] good tp c show ?thesis unfolding e
      by (simp add: quiet_inv_def t_def)
  next
    case None
    then have e: "probe_returns i ?code s = loop_or_stop t"
      by (simp add: probe_returns_def t_def [symmetric] Let_def)
    have "quiet_inv f is_abort reason (rv_target t) (rv_projected t) (loop_or_stop t)"
      using st at None ph c pok good by (intro loop_quiet) (simp_all add: no_winner_def e [symmetric], simp_all add: t_def)
    then show ?thesis by (simp add: e t_def tp)
  qed
qed

lemma conclude_quiet:
  assumes q: "quiet_inv f is_abort reason target p s" and ph: "settling (rv_phase s)"
  shows "quiet_inv f is_abort reason target p (conclude is_abort reason s)"
proof -
  obtain w where w: "rv_phase s = Winning w" "sequential f target p = Some w"
    "\<And>i x. map_of (rv_siblings s) i = Some x \<Longrightarrow> harmless is_abort reason x"
    using q ph by (cases "rv_phase s") (simp_all add: quiet_inv_def)
  have "independent_failure is_abort reason (map_of (rv_siblings s) i) = None" for i
    using w(3) [of i] by (cases "map_of (rv_siblings s) i"; cases "the (map_of (rv_siblings s) i)") auto
  then have ff: "first_failure is_abort reason s = None" by (simp add: first_failure_def List.map_filter_def)
  have "rv_inv (conclude is_abort reason s)"
    using good_conclude [of s is_abort reason] q ph by (simp add: good_step_def quiet_inv_def)
  with w ff q show ?thesis
    by (auto simp: quiet_inv_def conclude_def outcome_def finish_def)
qed

lemma quiet_step:
  assumes q: "quiet_inv f is_abort reason target p s" and x: "quiet f is_abort reason s x"
  shows "quiet_inv f is_abort reason target p (rv_step is_abort reason s x)"
proof (cases x)
  case (FirstSettles r)
  with q x first_quiet [OF q] show ?thesis by (simp add: quiet_def quiet_inv_def)
next
  case (Returns i code)
  with x returns_quiet [OF q] show ?thesis by (simp add: quiet_def)
next
  case (SiblingSettles i y)
  have "rv_inv (sibling_settles i y s)"
    using good_sibling [of s i y] q x SiblingSettles by (simp add: good_step_def quiet_def quiet_inv_def)
  with SiblingSettles x q show ?thesis
    by (cases "rv_phase s") (auto simp: quiet_def quiet_inv_def sibling_settles_def map_of_update split: if_splits)
next
  case Conclude
  with x conclude_quiet [OF q] show ?thesis by (simp add: quiet_def)
qed (use x in \<open>simp_all add: quiet_def\<close>)

interpretation rv: machine "rv_step is_abort reason" rv_enabled rv_inv
  for is_abort :: "'e \<Rightarrow> bool" and reason :: 'e
  by unfold_locales (metis good_rv_step good_step_def)

interpretation quiet_rv: machine "rv_step is_abort reason" "quiet f is_abort reason" "quiet_inv f is_abort reason target p"
  for f and is_abort :: "'e \<Rightarrow> bool" and reason :: 'e and target p
  by unfold_locales (rule quiet_step)

lemma weight_run:
  "rv_inv s \<Longrightarrow> run_ok (rv_step is_abort reason) rv_enabled s xs \<Longrightarrow>
   weight (run (rv_step is_abort reason) s xs) + length xs \<le> weight s"
proof (induction xs arbitrary: s)
  case Nil
  then show ?case by simp
next
  case (Cons x xs)
  then have "good_step s (rv_step is_abort reason s x)" by (auto intro: good_rv_step)
  with Cons.IH [of "rv_step is_abort reason s x"] Cons.prems show ?case by (simp add: good_step_def)
qed

text \<open>The configured widths never change.\<close>

lemma loop_or_stop_widths [simp]:
  "rv_concurrency (loop_or_stop s) = rv_concurrency s" "rv_platform (loop_or_stop s) = rv_platform s"
  by (simp_all add: loop_or_stop_def Let_def)

lemma step_widths:
  "rv_concurrency (rv_step is_abort reason s x) = rv_concurrency s \<and>
   rv_platform (rv_step is_abort reason s x) = rv_platform s"
  by (cases x) (auto simp: first_settles_def probe_returns_def probe_fails_def caller_aborts_def
      sibling_settles_def conclude_def Let_def split: option.splits sum.splits phase.splits)

lemma run_widths:
  "rv_concurrency (run (rv_step is_abort reason) s xs) = rv_concurrency s \<and>
   rv_platform (run (rv_step is_abort reason) s xs) = rv_platform s"
  by (induction xs arbitrary: s) (simp_all add: step_widths)

lemma begin_fields:
  assumes "begin_resolution o1 a = Inr (s :: 'e resolver)"
  shows "ro_concurrency o1 = Whole (rv_concurrency s)" "rv_target s = ro_target_code o1" "rv_cancel s = None"
    "\<exists>own code. ro_own_std_id o1 = Whole own \<and> ro_own_code o1 = Whole code \<and>
       rv_projected s = own + (number_of (ro_target_code o1) - code)"
proof -
  have pp: "parsePositiveSafeInteger v nm = (Inr n :: 'e failure + int) \<Longrightarrow> v = Whole n" for v nm n
    by (cases v) (auto split: if_splits)
  show "ro_concurrency o1 = Whole (rv_concurrency s)" "rv_target s = ro_target_code o1" "rv_cancel s = None"
    "\<exists>own code. ro_own_std_id o1 = Whole own \<and> ro_own_code o1 = Whole code \<and>
       rv_projected s = own + (number_of (ro_target_code o1) - code)"
    using assms unfolding begin_resolution_def sbind_Inr_iff
    by (cases "ro_own_std_id o1"; cases "ro_own_code o1"; cases a;
        auto simp: Let_def split: if_splits dest!: pp)+
qed

section \<open>The properties\<close>

text \<open>Whatever the service answers, in whatever order, and whenever probes fail or the caller
  aborts: a resolution never sends more than 33 requests and never has more probes in flight
  than the configured concurrency, it is over after at most 41 events, and until it is over a
  probe is in flight or its result is due.\<close>

theorem resolver_bounded:
  assumes "begin_resolution o1 a = Inr s0" "run_ok (rv_step is_abort reason) rv_enabled s0 xs"
    and "s = run (rv_step is_abort reason) s0 xs"
  shows "int (rv_probes s) \<le> VNU_STUDENT_ID_RESOLVER_MAX_PROBES \<and>
    ro_concurrency o1 = Whole (rv_concurrency s) \<and>
    int (length (rv_active s)) \<le> min (rv_concurrency s) (rv_platform s) \<and>
    length xs \<le> 41 \<and>
    ((\<exists>r. rv_phase s = Finished r) \<or> rv_phase s = First \<or> rv_enabled s Conclude
      \<or> (\<exists>i \<in> set (rv_active s). \<forall>code x. rv_enabled s (Returns i code) \<or> rv_enabled s (SiblingSettles i x)))"
proof -
  have i0: "rv_inv s0" and w0: "weight s0 = 41" using begin_inv [OF assms(1)] by simp_all
  have i: "rv_inv s" unfolding assms(3) by (rule rv.run_inv [OF i0 assms(2)])
  have "int (rv_probes s) \<le> VNU_STUDENT_ID_RESOLVER_MAX_PROBES"
    "int (length (rv_active s)) \<le> min (rv_concurrency s) (rv_platform s)"
    using i by (auto simp: rv_inv_def pool_ok_def VNU_STUDENT_ID_RESOLVER_MAX_PROBES_def LOCAL_RADIUS_def)
  moreover have "length xs \<le> 41" using weight_run [OF i0 assms(2)] w0 by simp
  moreover have "ro_concurrency o1 = Whole (rv_concurrency s)"
    using begin_fields(1) [OF assms(1)] run_widths assms(3) by metis
  ultimately show ?thesis using rv_progress [OF i] by blast
qed

text \<open>Six probes at once around the projection 100, the target one above it.\<close>

definition sample_options :: resolver_options where
  "sample_options = \<lparr>ro_own_std_id = Whole 90, ro_own_code = Whole 20000000, ro_target_code = ''20000010'',
     ro_concurrency = Whole 8, ro_platform_limit = None\<rparr>"

definition sample_service :: "int \<Rightarrow> string option" where
  "sample_service i = (if i = 101 then Some ''20000010'' else None)"

definition sample_resolver :: "nat resolver" where
  "sample_resolver = (case begin_resolution sample_options None of Inr s \<Rightarrow> s | Inl e \<Rightarrow> undefined)"

definition sample_events :: "nat resolver_event list" where
  "sample_events = [FirstSettles (Inl None), Returns 1 (Some ''20000010''), Returns 0 None,
     SiblingSettles 4 (SiblingError 0 True), SiblingSettles 2 (SiblingError 0 True),
     SiblingSettles 3 (SiblingCode None), SiblingSettles 5 (SiblingError 0 True), Conclude]"

lemma sample_begins: "begin_resolution sample_options None = Inr sample_resolver"
  by code_simp

lemma resolver_bounded_witness:
  "rv_probes (run (rv_step (\<lambda>e. e = 0) 9) sample_resolver sample_events) = 7
   \<and> int 7 \<le> VNU_STUDENT_ID_RESOLVER_MAX_PROBES"
proof -
  have "run_ok (rv_step (\<lambda>e. e = 0) 9) rv_enabled sample_resolver sample_events" by code_simp
  note resolver_bounded [OF sample_begins this refl]
  moreover have "rv_probes (run (rv_step (\<lambda>e. e = 0) 9) sample_resolver sample_events) = 7" by code_simp
  ultimately show ?thesis by (metis of_nat_numeral)
qed

text \<open>C16. When the service answers each id by a function and the only errors are those of
  cancelled probes, the concurrent resolution answers what a sequential search answers that
  probes the projection and then the candidates one after the other and stops at the first
  exact match, for every order in which the probes settle; and when no candidate
  matches it reports that it did not converge.\<close>

theorem resolver_matches_sequential:
  assumes "begin_resolution o1 a = Inr s0" "run_ok (rv_step is_abort reason) (quiet f is_abort reason) s0 xs"
    and "rv_phase (run (rv_step is_abort reason) s0 xs) = Finished r"
  shows "r = outcome (ro_target_code o1) (rv_probes (run (rv_step is_abort reason) s0 xs))
    (sequential f (ro_target_code o1) (rv_projected s0))"
proof -
  have "rv_inv s0" "rv_phase s0 = First" using begin_inv [OF assms(1)] by simp_all
  then have "quiet_inv f is_abort reason (ro_target_code o1) (rv_projected s0) s0"
    using begin_fields(2,3) [OF assms(1)] by (simp add: quiet_inv_def)
  then have "quiet_inv f is_abort reason (ro_target_code o1) (rv_projected s0) (run (rv_step is_abort reason) s0 xs)"
    using assms(2) by (rule quiet_rv.run_inv)
  with assms(3) show ?thesis by (simp add: quiet_inv_def)
qed

lemma resolver_matches_sequential_witness:
  "rv_phase (run (rv_step (\<lambda>e. e = 0) 9) sample_resolver sample_events) =
     Finished (Inr \<lparr>res_std_id = ''00000000101'', res_std_code = ''20000010'', res_probes = 7\<rparr>)
   \<and> outcome ''20000010'' 7 (sequential sample_service ''20000010'' 100) =
      (Inr \<lparr>res_std_id = ''00000000101'', res_std_code = ''20000010'', res_probes = 7\<rparr> :: nat failure + resolution)"
proof -
  have q: "run_ok (rv_step (\<lambda>e. e = 0) 9) (quiet sample_service (\<lambda>e. e = 0) 9) sample_resolver sample_events"
    by (code_simp)
  have f: "rv_phase (run (rv_step (\<lambda>e. e = 0) 9) sample_resolver sample_events) =
     Finished (Inr \<lparr>res_std_id = ''00000000101'', res_std_code = ''20000010'', res_probes = 7\<rparr>)" by code_simp
  have n: "rv_probes (run (rv_step (\<lambda>e. e = 0) 9) sample_resolver sample_events) = 7"
    "ro_target_code sample_options = ''20000010''" "rv_projected sample_resolver = 100" by code_simp+
  from resolver_matches_sequential [OF sample_begins q f] f show ?thesis unfolding n by simp
qed

end
