(* ===== verification/JsBase64.thy ===== *)
theory JsBase64
  imports JsText "HOL-Library.Word"
begin

text \<open>
  Bytes and base64url as the code writes them: \<open>btoa\<close> and \<open>atob\<close> of the platform, and the
  functions \<open>toBase64Url\<close> and \<open>fromBase64Url\<close> that \<open>admin/admin-auth.ts\<close> and
  \<open>packages/core/src/index.ts\<close> build on them. A binary string is the list of its bytes.
\<close>

type_synonym bytes = "8 word list"

section \<open>The alphabet\<close>

definition b64_alphabet :: string where
  "b64_alphabet = ''ABCDEFGHIJKLMNOPQRSTUVWXYZabcdefghijklmnopqrstuvwxyz0123456789+/''"

definition b64_char :: "nat \<Rightarrow> char" where
  "b64_char n = b64_alphabet ! n"

text \<open>The sextet of a character; \<open>None\<close> outside the alphabet.\<close>

definition b64_value :: "char \<Rightarrow> nat option" where
  "b64_value c = map_of (zip b64_alphabet [0..<64]) c"

lemma length_b64_alphabet [simp]: "length b64_alphabet = 64"
  by (simp add: b64_alphabet_def)

lemma distinct_b64_alphabet: "distinct b64_alphabet"
  by code_simp

lemma b64_value_char [simp]: "n < 64 \<Longrightarrow> b64_value (b64_char n) = Some n"
  unfolding b64_value_def b64_char_def
  by (subst map_of_zip_nth) (simp_all add: distinct_b64_alphabet)

lemma b64_value_lt: "b64_value c = Some n \<Longrightarrow> n < 64"
  unfolding b64_value_def by (auto dest!: map_of_SomeD set_zip_rightD)

lemma b64_char_value: "b64_value c = Some n \<Longrightarrow> b64_char n = c"
  unfolding b64_value_def b64_char_def by (auto dest!: map_of_SomeD simp: set_zip)

lemma b64_char_in: "n < 64 \<Longrightarrow> b64_char n \<in> set b64_alphabet"
  by (simp add: b64_char_def)

section \<open>Encoding\<close>

fun btoa :: "bytes \<Rightarrow> string" where
  "btoa [] = []"
| "btoa [a] = [b64_char (unat a div 4), b64_char (unat a mod 4 * 16), CHR ''='', CHR ''='']"
| "btoa [a, b] = [b64_char (unat a div 4), b64_char (unat a mod 4 * 16 + unat b div 16),
     b64_char (unat b mod 16 * 4), CHR ''='']"
| "btoa (a # b # c # bs) = b64_char (unat a div 4) # b64_char (unat a mod 4 * 16 + unat b div 16)
     # b64_char (unat b mod 16 * 4 + unat c div 64) # b64_char (unat c mod 64) # btoa bs"

section \<open>Decoding\<close>

text \<open>
  The data characters of \<open>atob\<close>: groups of four sextets, and a last group of two or three whose
  surplus bits are dropped.
\<close>

fun b64_bytes :: "nat list \<Rightarrow> bytes option" where
  "b64_bytes [] = Some []"
| "b64_bytes [a] = None"
| "b64_bytes [a, b] = Some [of_nat (a * 4 + b div 16)]"
| "b64_bytes [a, b, c] = Some [of_nat (a * 4 + b div 16), of_nat (b mod 16 * 16 + c div 4)]"
| "b64_bytes (a # b # c # d # ns) = map_option (\<lambda>bs. of_nat (a * 4 + b div 16)
      # of_nat (b mod 16 * 16 + c div 4) # of_nat (c mod 4 * 64 + d) # bs) (b64_bytes ns)"

text \<open>
  Up to two padding characters go when the length is a multiple of four; white space, which
  \<open>atob\<close> also skips, is refused by the pattern tested before.
\<close>

definition strip_padding :: "string \<Rightarrow> string" where
  "strip_padding s =
    (if length s mod 4 \<noteq> 0 then s
     else if 2 \<le> length s \<and> drop (length s - 2) s = ''=='' then take (length s - 2) s
     else if 1 \<le> length s \<and> last s = CHR ''='' then butlast s else s)"

definition atob :: "string \<Rightarrow> bytes option" where
  "atob s = (let t = strip_padding s in
     if list_all (\<lambda>c. b64_value c \<noteq> None) t then b64_bytes (map (the \<circ> b64_value) t) else None)"

section \<open>base64url\<close>

definition to_url :: "char \<Rightarrow> char" where
  "to_url c = (if c = CHR ''+'' then CHR ''-'' else if c = CHR ''/'' then CHR ''_'' else c)"

definition of_url :: "char \<Rightarrow> char" where
  "of_url c = (if c = CHR ''-'' then CHR ''+'' else if c = CHR ''_'' then CHR ''/'' else c)"

text \<open>\<open>replace(/=+$/, "")\<close>\<close>

definition drop_equals :: "string \<Rightarrow> string" where
  "drop_equals s = rev (dropWhile (\<lambda>c. c = CHR ''='') (rev s))"

definition toBase64Url :: "bytes \<Rightarrow> string" where
  "toBase64Url bs = drop_equals (map to_url (btoa bs))"

text \<open>\<open>/^[A-Za-z0-9_-]+$/\<close>\<close>

definition BASE64URL :: "string \<Rightarrow> bool" where
  "BASE64URL s \<longleftrightarrow> s \<noteq> [] \<and> list_all (\<lambda>c. c \<in> set b64url_chars) s"

definition fromBase64Url :: "string \<Rightarrow> bytes option" where
  "fromBase64Url s = (if BASE64URL s
     then atob (map of_url s @ replicate ((4 - length s mod 4) mod 4) CHR ''='') else None)"

section \<open>Reading back\<close>

lemma unat_byte: "unat (a :: 8 word) < 256"
  by (rule order_less_le_trans [OF unsigned_less]) simp

text \<open>The sextets of some bytes, and how much padding follows them.\<close>

fun sextets :: "bytes \<Rightarrow> nat list" where
  "sextets [] = []"
| "sextets [a] = [unat a div 4, unat a mod 4 * 16]"
| "sextets [a, b] = [unat a div 4, unat a mod 4 * 16 + unat b div 16, unat b mod 16 * 4]"
| "sextets (a # b # c # bs) = unat a div 4 # (unat a mod 4 * 16 + unat b div 16)
     # (unat b mod 16 * 4 + unat c div 64) # (unat c mod 64) # sextets bs"

fun padding :: "bytes \<Rightarrow> nat" where
  "padding [] = 0"
| "padding [a] = 2"
| "padding [a, b] = 1"
| "padding (a # b # c # bs) = padding bs"

lemma btoa_sextets: "btoa bs = map b64_char (sextets bs) @ replicate (padding bs) CHR ''=''"
  by (induction bs rule: btoa.induct) (simp_all add: numeral_2_eq_2)

lemma sextet_bound1: "unat (a :: 8 word) mod 4 * 16 + unat (b :: 8 word) div 16 < 64"
  using unat_byte [of b] by linarith

lemma sextet_bound2: "unat (b :: 8 word) mod 16 * 4 + unat (c :: 8 word) div 64 < 64"
  using unat_byte [of c] by linarith

lemma join1: "y < 256 \<Longrightarrow> x div 4 * 4 + (x mod 4 * 16 + y div 16) div 16 = (x::nat)"
proof -
  assume "y < 256"
  then have "y div 16 < 16" by simp
  then have "(x mod 4 * 16 + y div 16) div 16 = x mod 4" by simp
  then show ?thesis by simp
qed

lemma join2: "y < 256 \<Longrightarrow> z < 256 \<Longrightarrow> (x * 16 + y div 16) mod 16 * 16 + (y mod 16 * 4 + z div 64) div 4 = (y::nat)"
proof -
  assume "y < 256" "z < 256"
  then have "y div 16 < 16" "z div 64 < 4" by simp_all
  then have "(x * 16 + y div 16) mod 16 = y div 16" "(y mod 16 * 4 + z div 64) div 4 = y mod 16" by simp_all
  then show ?thesis by simp
qed

lemma join3: "z < 256 \<Longrightarrow> (y * 4 + z div 64) mod 4 * 64 + z mod 64 = (z::nat)"
proof -
  assume "z < 256"
  then have "z div 64 < 4" by simp
  then have "(y * 4 + z div 64) mod 4 = z div 64" by simp
  then show ?thesis by simp
qed

lemma sextets_bound: "n \<in> set (sextets bs) \<Longrightarrow> n < 64"
proof (induction bs rule: sextets.induct)
  case (2 a)
  then show ?case using unat_byte [of a] by auto
next
  case (3 a b)
  then show ?case using unat_byte [of a] unat_byte [of b] sextet_bound1 [of a b] by auto
next
  case (4 a b c bs)
  then show ?case using unat_byte [of a] sextet_bound1 [of a b] sextet_bound2 [of b c] by auto
qed simp

lemma sextets_padding: "(length (sextets bs) + padding bs) mod 4 = 0 \<and> padding bs \<le> 2"
  by (induction bs rule: sextets.induct) (simp_all add: mod_Suc)

lemma b64_bytes_sextets: "b64_bytes (sextets bs) = Some bs"
proof (induction bs rule: sextets.induct)
  case (2 a)
  have "unat a div 4 * 4 + unat a mod 4 * 16 div 16 = unat a" by simp
  then show ?case by (simp only: sextets.simps b64_bytes.simps) simp
next
  case (3 a b)
  have "unat a div 4 * 4 + (unat a mod 4 * 16 + unat b div 16) div 16 = unat a"
    "(unat a mod 4 * 16 + unat b div 16) mod 16 * 16 + unat b mod 16 * 4 div 4 = unat b"
    using join1 [OF unat_byte, of "unat a" b] join2 [OF unat_byte [of b], of 0 "unat a mod 4"] by simp_all
  then show ?case by (simp only: sextets.simps b64_bytes.simps) simp
next
  case (4 a b c bs)
  have "unat a div 4 * 4 + (unat a mod 4 * 16 + unat b div 16) div 16 = unat a"
    "(unat a mod 4 * 16 + unat b div 16) mod 16 * 16 + (unat b mod 16 * 4 + unat c div 64) div 4 = unat b"
    "(unat b mod 16 * 4 + unat c div 64) mod 4 * 64 + unat c mod 64 = unat c"
    using join1 [OF unat_byte] join2 [OF unat_byte unat_byte] join3 [OF unat_byte] by blast+
  with 4 show ?case by (simp only: sextets.simps b64_bytes.simps) simp
qed simp

lemma b64_char_not_equals: "n < 64 \<Longrightarrow> b64_char n \<noteq> CHR ''=''"
  using b64_char_in [of n] by (auto simp: b64_alphabet_def)

lemma of_to_url: "n < 64 \<Longrightarrow> of_url (to_url (b64_char n)) = b64_char n"
  using b64_char_in [of n] by (auto simp: of_url_def to_url_def b64_alphabet_def)

lemma to_url_char: "n < 64 \<Longrightarrow> to_url (b64_char n) \<in> set b64url_chars \<and> to_url (b64_char n) \<noteq> CHR ''=''"
  using b64_char_in [of n] unfolding to_url_def b64_alphabet_def b64url_chars_def by auto

lemma drop_equals_append: "(\<And>c. c \<in> set s \<Longrightarrow> c \<noteq> CHR ''='') \<Longrightarrow> drop_equals (s @ replicate n CHR ''='') = s"
  by (cases s rule: rev_cases) (auto simp: drop_equals_def dropWhile_append)

lemma toBase64Url_sextets: "toBase64Url bs = map (to_url \<circ> b64_char) (sextets bs)"
proof -
  have e: "map to_url (btoa bs) = map (to_url \<circ> b64_char) (sextets bs) @ replicate (padding bs) CHR ''=''"
    by (simp add: btoa_sextets to_url_def)
  have "c \<noteq> CHR ''=''" if "c \<in> set (map (to_url \<circ> b64_char) (sextets bs))" for c
    using that to_url_char sextets_bound by fastforce
  then have "drop_equals (map (to_url \<circ> b64_char) (sextets bs) @ replicate (padding bs) CHR ''='') =
      map (to_url \<circ> b64_char) (sextets bs)" by (rule drop_equals_append)
  with e show ?thesis unfolding toBase64Url_def by simp
qed

lemma atob_btoa: "atob (btoa bs) = Some bs"
proof -
  let ?s = "map b64_char (sextets bs)"
  have ne: "c \<noteq> CHR ''=''" if "c \<in> set ?s" for c using that b64_char_not_equals sextets_bound by fastforce
  have p: "padding bs = 0 \<or> padding bs = 1 \<or> padding bs = 2" using sextets_padding [of bs] by linarith
  have m: "length (?s @ replicate (padding bs) CHR ''='') mod 4 = 0" using sextets_padding [of bs] by simp
  have "strip_padding (?s @ replicate (padding bs) CHR ''='') = ?s"
  proof (cases "?s = []")
    case True
    then have "padding bs = 0" using m p by auto
    with True show ?thesis by (simp add: strip_padding_def)
  next
    case False
    then obtain t c where t: "?s = t @ [c]" by (metis append_butlast_last_id)
    have c: "c \<noteq> CHR ''=''" using ne t by force
    show ?thesis using p m c unfolding t strip_padding_def
      by (elim disjE) (auto simp: numeral_2_eq_2 drop_Suc butlast_append)
  qed
  moreover have "map (the \<circ> b64_value) ?s = sextets bs"
    unfolding map_map by (rule map_idI) (simp add: sextets_bound)
  moreover have "list_all (\<lambda>c. b64_value c \<noteq> None) ?s"
    using sextets_bound by (fastforce simp: list_all_iff)
  ultimately show ?thesis by (simp add: atob_def btoa_sextets Let_def b64_bytes_sextets)
qed

lemma four_minus:
  assumes "(n + p) mod 4 = 0" "p \<le> 2"
  shows "(4 - n mod 4) mod 4 = (p::nat)"
proof -
  have "n mod 4 < 4" by simp
  moreover have "(n mod 4 + p) mod 4 = 0" using assms(1) by (simp add: mod_add_left_eq)
  moreover have "p = 0 \<or> p = 1 \<or> p = 2" using assms(2) by linarith
  ultimately consider "n mod 4 = 0" | "n mod 4 = 1" | "n mod 4 = 2" | "n mod 4 = 3" by linarith
  then show ?thesis using \<open>(n mod 4 + p) mod 4 = 0\<close> \<open>p = 0 \<or> p = 1 \<or> p = 2\<close>
    by cases (elim disjE; simp)+
qed

theorem fromBase64Url_toBase64Url:
  assumes "bs \<noteq> []"
  shows "fromBase64Url (toBase64Url bs) = Some bs"
proof -
  have "sextets bs \<noteq> []" using assms by (cases bs rule: sextets.cases) auto
  then have "BASE64URL (toBase64Url bs)"
    using to_url_char sextets_bound by (fastforce simp: BASE64URL_def toBase64Url_sextets list_all_iff)
  moreover have "map of_url (toBase64Url bs) = map b64_char (sextets bs)"
    using of_to_url sextets_bound by (simp add: toBase64Url_sextets)
  moreover have "(4 - length (toBase64Url bs) mod 4) mod 4 = padding bs"
    using sextets_padding [of bs] by (simp add: toBase64Url_sextets four_minus)
  ultimately show ?thesis by (simp add: fromBase64Url_def atob_btoa btoa_sextets [symmetric])
qed

lemma length_sextets: "length (sextets bs) = (4 * length bs + 2) div 3"
  by (induction bs rule: sextets.induct) auto

lemma length_toBase64Url: "length (toBase64Url bs) = (4 * length bs + 2) div 3"
  by (simp add: toBase64Url_sextets length_sextets)

section \<open>Characters of a token\<close>

lemma toBase64Url_chars: "c \<in> set (toBase64Url bs) \<Longrightarrow> c \<in> set b64url_chars"
  using to_url_char sextets_bound by (fastforce simp: toBase64Url_sextets)

lemma toBase64Url_free:
  "CHR ''.'' \<notin> set (toBase64Url bs)" "CHR ''$'' \<notin> set (toBase64Url bs)" "CHR '';'' \<notin> set (toBase64Url bs)"
  using toBase64Url_chars [of _ bs] by (auto simp: b64url_chars_def)

lemma toBase64Url_no_space: "c \<in> set (toBase64Url bs) \<Longrightarrow> \<not> js_space c"
  using toBase64Url_chars [of c bs] by (auto simp: b64url_chars_def js_space_def)

lemma toBase64Url_not_Nil: "bs \<noteq> [] \<Longrightarrow> toBase64Url bs \<noteq> []"
  by (cases bs rule: sextets.cases) (simp_all add: toBase64Url_sextets)

end
