(* ===== verification/AdminAuth.thy ===== *)
theory AdminAuth
  imports PolicyStore JsBase64 JsTime
begin

text \<open>
  Authentication of administrators, \<open>apps/worker/src/admin/admin-auth.ts\<close>: password hashes,
  encrypted session and OAuth-state envelopes, cookies, the guard of mutating requests, and the
  OAuth exchange. The platform's cryptography is a parameter: PBKDF2, and the authenticated
  encryption of a JSON value under the key derived from a secret and a purpose (HKDF, AES-GCM,
  the JSON text and its UTF-8 bytes in one). Random bytes are arguments.
\<close>

section \<open>Errors, constants and the platform\<close>

datatype auth_error = InvalidHash | InvalidSession | InvalidState | AuthUnauthorized | WeakSecret | RangeError

definition PASSWORD_ITERATIONS :: int where "PASSWORD_ITERATIONS = 31 * 10000"

definition OAUTH_STATE_TTL_MS :: int where "OAUTH_STATE_TTL_MS = 10 * 60 * 1000"

definition ADMIN_COOKIE :: string where "ADMIN_COOKIE = ''hyeboard_admin''"

definition OAUTH_COOKIE :: string where "OAUTH_COOKIE = ''hyeboard_admin_oauth''"

definition NUMERIC_ID :: "string \<Rightarrow> bool" where "NUMERIC_ID s = canonical_integer s"

definition SESSION_KEYS :: "string list" where
  "SESSION_KEYS = [''version'', ''purpose'', ''actor'', ''csrfToken'', ''issuedAt'', ''expiresAt'']"

definition STATE_KEYS :: "string list" where
  "STATE_KEYS = [''version'', ''purpose'', ''provider'', ''state'', ''verifier'', ''returnPath'', ''issuedAt'', ''expiresAt'']"

text \<open>The salt, info and additional data of an envelope extend one of these labels.\<close>

definition SESSION_LABEL :: string where "SESSION_LABEL = ''hyeboard:admin-session:v1''"

definition STATE_LABEL :: string where "STATE_LABEL = ''hyeboard:admin-oauth-state:v1''"

record platform =
  pl_pbkdf2 :: "string \<Rightarrow> bytes \<Rightarrow> bytes"
  pl_seal :: "string \<Rightarrow> string \<Rightarrow> bytes \<Rightarrow> jval \<Rightarrow> bytes"
  pl_open :: "string \<Rightarrow> string \<Rightarrow> bytes \<Rightarrow> bytes \<Rightarrow> jval option"

section \<open>Checks on values\<close>

definition isBase64UrlBytes :: "jval \<Rightarrow> nat \<Rightarrow> bool" where
  "isBase64UrlBytes v n = (case v of
     JStr s \<Rightarrow> BASE64URL s \<and> (case fromBase64Url s of None \<Rightarrow> False
        | Some bs \<Rightarrow> length bs = n \<and> toBase64Url bs = s)
   | _ \<Rightarrow> False)"

fun exactObject :: "jval \<Rightarrow> string list \<Rightarrow> bool" where
  "exactObject (JObj kvs) keys = (length kvs = length keys \<and> list_all (\<lambda>(k, v). k \<in> set keys) kvs)"
| "exactObject _ keys = False"

fun canonical_time_value :: "jval \<Rightarrow> int option" where
  "canonical_time_value (JStr s) = canonicalTime s"
| "canonical_time_value _ = None"

text \<open>\<open>String(value)\<close>; the text of a fraction is no method name and is left as NaN.\<close>

definition int_string :: "int \<Rightarrow> string" where
  "int_string n = (if n < 0 then CHR ''-'' # nat_string (- n) else nat_string n)"

fun js_string :: "jval \<Rightarrow> string" where
  "js_string JUndefined = ''undefined''"
| "js_string JNull = ''null''"
| "js_string (JBool b) = (if b then ''true'' else ''false'')"
| "js_string (JInt n) = int_string n"
| "js_string JNonInt = ''NaN''"
| "js_string (JStr s) = s"
| "js_string (JArr vs) = join '','' (map (\<lambda>v. if v = JNull \<or> v = JUndefined then [] else js_string v) vs)"
| "js_string (JObj kvs) = ''[object Object]''"

fun bounded_text :: "jval \<Rightarrow> bool" where
  "bounded_text (JStr s) = (0 < length s \<and> length s \<le> 128)"
| "bounded_text _ = False"

definition validActor :: "jval \<Rightarrow> bool" where
  "validActor v \<longleftrightarrow>
     exactObject v (if has_own ''label'' v then [''method'', ''subject'', ''label''] else [''method'', ''subject''])
   \<and> js_string (prop_of ''method'' v) \<in> {''password'', ''github'', ''discord''}
   \<and> bounded_text (prop_of ''subject'' v)
   \<and> (prop_of ''label'' v = JUndefined \<or> bounded_text (prop_of ''label'' v))"

fun validReturnPath :: "jval \<Rightarrow> bool" where
  "validReturnPath (JStr s) = ((s = ''/admin'' \<or> starts_with ''/admin/'' s)
     \<and> \<not> has_char CHR 0x5C s \<and> \<not> starts_with ''//'' s)"
| "validReturnPath _ = False"

definition assertSecret :: "string \<Rightarrow> auth_error + unit" where
  "assertSecret secret = (if length secret < 32 then Inl WeakSecret else Inr ())"

section \<open>Password hashes\<close>

text \<open>The loop collects the differing bits of all 32 bytes before it compares.\<close>

fun difference :: "bytes \<Rightarrow> bytes \<Rightarrow> 8 word" where
  "difference (l # ls) (r # rs) = or (xor l r) (difference ls rs)"
| "difference _ _ = 0"

definition timingSafeEqual :: "bytes \<Rightarrow> bytes \<Rightarrow> auth_error + bool" where
  "timingSafeEqual l r = (if length l \<noteq> 32 \<or> length r \<noteq> 32 then Inl InvalidHash else Inr (difference l r = 0))"

definition parseAdminPasswordHash :: "string \<Rightarrow> auth_error + (bytes \<times> bytes)" where
  "parseAdminPasswordHash encoded =
    (case split_on CHR ''$'' encoded of
       [scheme, iterations, s, d] \<Rightarrow>
         if scheme \<noteq> ''pbkdf2-sha256'' \<or> iterations \<noteq> nat_string PASSWORD_ITERATIONS then Inl InvalidHash
         else (case (fromBase64Url s, fromBase64Url d) of
             (Some salt, Some digest) \<Rightarrow>
               if length salt \<noteq> 16 \<or> length digest \<noteq> 32 \<or> toBase64Url salt \<noteq> s \<or> toBase64Url digest \<noteq> d
               then Inl InvalidHash else Inr (salt, digest)
           | _ \<Rightarrow> Inl InvalidHash)
     | _ \<Rightarrow> Inl InvalidHash)"

definition createAdminPasswordHash :: "platform \<Rightarrow> string \<Rightarrow> bytes \<Rightarrow> auth_error + string" where
  "createAdminPasswordHash pl password salt =
    (if password = [] \<or> length salt \<noteq> 16 then Inl InvalidHash
     else Inr (''pbkdf2-sha256$'' @ nat_string PASSWORD_ITERATIONS @ ''$'' @ toBase64Url salt @ ''$''
       @ toBase64Url (pl_pbkdf2 pl password salt)))"

definition verifyAdminPassword :: "platform \<Rightarrow> string \<Rightarrow> string \<Rightarrow> auth_error + bool" where
  "verifyAdminPassword pl password encoded =
    sbind (parseAdminPasswordHash encoded) (\<lambda>(salt, digest). timingSafeEqual (pl_pbkdf2 pl password salt) digest)"

section \<open>Envelopes\<close>

definition encryptEnvelope :: "platform \<Rightarrow> jval \<Rightarrow> string \<Rightarrow> string \<Rightarrow> bytes \<Rightarrow> auth_error + string" where
  "encryptEnvelope pl v secret label iv =
    sbind (assertSecret secret) (\<lambda>_. Inr (toBase64Url iv @ ''.'' @ toBase64Url (pl_seal pl secret label iv v)))"

text \<open>Every failure but the weak secret is an exception without a name of its own: \<open>None\<close>.\<close>

definition decryptEnvelope :: "platform \<Rightarrow> string \<Rightarrow> string \<Rightarrow> string \<Rightarrow> auth_error option + jval" where
  "decryptEnvelope pl token secret label =
    (case split_on CHR ''.'' token of
       [p0, p1] \<Rightarrow> (case (fromBase64Url p0, fromBase64Url p1) of
           (Some iv, Some enc) \<Rightarrow>
             if length iv \<noteq> 12 \<or> length enc < 17 \<or> toBase64Url iv \<noteq> p0 \<or> toBase64Url enc \<noteq> p1 then Inl None
             else if length secret < 32 then Inl (Some WeakSecret)
             else (case pl_open pl secret label iv enc of None \<Rightarrow> Inl None | Some v \<Rightarrow> Inr v)
         | _ \<Rightarrow> Inl None)
     | _ \<Rightarrow> Inl None)"

section \<open>Administrator sessions\<close>

record admin_session =
  se_actor :: admin_actor
  se_csrf :: string
  se_issued :: string
  se_expires :: string

definition actor_value :: "admin_actor \<Rightarrow> jval" where
  "actor_value a = JObj ([(''method'', JStr (a_method a)), (''subject'', JStr (a_subject a))]
     @ (case a_label a of None \<Rightarrow> [] | Some l \<Rightarrow> [(''label'', JStr l)]))"

definition session_value :: "admin_session \<Rightarrow> jval" where
  "session_value s = JObj [(''version'', JInt 1), (''purpose'', JStr ''hyeboard-admin''),
     (''actor'', actor_value (se_actor s)), (''csrfToken'', JStr (se_csrf s)),
     (''issuedAt'', JStr (se_issued s)), (''expiresAt'', JStr (se_expires s))]"

text \<open>\<open>toISOString\<close> throws a \<open>RangeError\<close> outside the range of time values.\<close>

definition iso :: "int \<Rightarrow> auth_error + string" where
  "iso t = (if - max_time \<le> t \<and> t \<le> max_time then Inr (toISOString t) else Inl RangeError)"

definition createAdminSession :: "admin_actor \<Rightarrow> js_number \<Rightarrow> int \<Rightarrow> bytes \<Rightarrow> auth_error + admin_session" where
  "createAdminSession actor ttl now random =
    (case ttl of NotWhole \<Rightarrow> Inl InvalidSession
     | Whole n \<Rightarrow>
        if \<not> validActor (actor_value actor) \<or> \<not> safe_integer n \<or> n \<le> 0 then Inl InvalidSession
        else sbind (iso now) (\<lambda>issued. sbind (iso (now + n * 1000)) (\<lambda>expires.
          Inr \<lparr>se_actor = actor, se_csrf = toBase64Url random, se_issued = issued, se_expires = expires\<rparr>)))"

definition assertAdminSession :: "jval \<Rightarrow> int option \<Rightarrow> bool" where
  "assertAdminSession v now \<longleftrightarrow>
     exactObject v SESSION_KEYS \<and> prop_of ''version'' v = JInt 1 \<and> prop_of ''purpose'' v = JStr ''hyeboard-admin''
   \<and> validActor (prop_of ''actor'' v) \<and> isBase64UrlBytes (prop_of ''csrfToken'' v) 32
   \<and> (case (canonical_time_value (prop_of ''issuedAt'' v), canonical_time_value (prop_of ''expiresAt'' v)) of
        (Some i, Some e) \<Rightarrow> i < e \<and> (case now of None \<Rightarrow> True | Some t \<Rightarrow> i \<le> t \<and> t < e)
      | _ \<Rightarrow> False)"

text \<open>
  A comparison with an invalid date is false, so that an invalid \<open>now\<close> passes the time checks;
  here it is \<open>None\<close>. \<open>encryptAdminSession\<close> checks the session at its own issue time.
\<close>

definition encryptAdminSession :: "platform \<Rightarrow> admin_session \<Rightarrow> string \<Rightarrow> bytes \<Rightarrow> auth_error + string" where
  "encryptAdminSession pl s secret iv =
    (if assertAdminSession (session_value s) (canonicalTime (se_issued s))
     then encryptEnvelope pl (session_value s) secret SESSION_LABEL iv else Inl InvalidSession)"

definition decryptAdminSession :: "platform \<Rightarrow> string \<Rightarrow> string \<Rightarrow> int \<Rightarrow> auth_error + jval" where
  "decryptAdminSession pl token secret now =
    (case decryptEnvelope pl token secret SESSION_LABEL of
       Inl (Some e) \<Rightarrow> Inl e
     | Inl None \<Rightarrow> Inl InvalidSession
     | Inr v \<Rightarrow> if assertAdminSession v (Some now) then Inr v else Inl InvalidSession)"

section \<open>Requests and cookies\<close>

text \<open>The headers by lower-case name, and what the platform reads off the URL.\<close>

record admin_request =
  rq_header :: "string \<Rightarrow> string option"
  rq_origin :: string
  rq_https :: bool

definition cookie :: "string \<Rightarrow> string \<Rightarrow> int \<Rightarrow> bool \<Rightarrow> string" where
  "cookie name v maxAge secure = name @ ''='' @ v @ ''; Max-Age='' @ int_string maxAge
     @ ''; Path=/api/admin; HttpOnly; SameSite=Lax'' @ (if secure then ''; Secure'' else [])"

definition buildAdminSessionCookie :: "string \<Rightarrow> int \<Rightarrow> bool \<Rightarrow> string" where
  "buildAdminSessionCookie token ttl secure = cookie ADMIN_COOKIE token ttl secure"

definition buildClearAdminSessionCookie :: "bool \<Rightarrow> string" where
  "buildClearAdminSessionCookie secure = cookie ADMIN_COOKIE [] 0 secure"

definition buildOAuthStateCookie :: "string \<Rightarrow> bool \<Rightarrow> string" where
  "buildOAuthStateCookie token secure = cookie OAUTH_COOKIE token (OAUTH_STATE_TTL_MS div 1000) secure"

definition buildClearOAuthStateCookie :: "bool \<Rightarrow> string" where
  "buildClearOAuthStateCookie secure = cookie OAUTH_COOKIE [] 0 secure"

definition readCookie :: "admin_request \<Rightarrow> string \<Rightarrow> string option" where
  "readCookie rq name = (case rq_header rq ''cookie'' of
     None \<Rightarrow> None
   | Some h \<Rightarrow> (case List.find (starts_with (name @ ''='')) (map js_trim (split_on CHR '';'' h)) of
       None \<Rightarrow> None
     | Some part \<Rightarrow> (let v = drop (length name + 1) part in if v = [] then None else Some v)))"

definition authenticateAdminRequest :: "platform \<Rightarrow> admin_request \<Rightarrow> string \<Rightarrow> int \<Rightarrow> auth_error + jval" where
  "authenticateAdminRequest pl rq secret now =
    (if rq_header rq ''authorization'' \<noteq> None then Inl AuthUnauthorized
     else case readCookie rq ADMIN_COOKIE of
       None \<Rightarrow> Inl AuthUnauthorized
     | Some token \<Rightarrow> decryptAdminSession pl token secret now)"

definition assertAdminMutation :: "admin_request \<Rightarrow> jval \<Rightarrow> string option \<Rightarrow> auth_error + unit" where
  "assertAdminMutation rq session allowed =
    (if rq_header rq ''authorization'' \<noteq> None then Inl AuthUnauthorized
     else case rq_header rq ''origin'' of
       None \<Rightarrow> Inl AuthUnauthorized
     | Some origin \<Rightarrow>
        if origin \<noteq> rq_origin rq \<and> Some origin \<noteq> allowed then Inl AuthUnauthorized
        else if (case rq_header rq ''x-hyeboard-csrf'' of None \<Rightarrow> True
            | Some t \<Rightarrow> JStr t \<noteq> prop_of ''csrfToken'' session) then Inl AuthUnauthorized
        else if (case rq_header rq ''content-type'' of None \<Rightarrow> True
            | Some t \<Rightarrow> js_lower (js_trim (hd (split_on CHR '';'' t))) \<noteq> ''application/json'') then Inl AuthUnauthorized
        else Inr ())"

section \<open>OAuth\<close>

datatype oauth_provider = Github | Discord

fun provider_name :: "oauth_provider \<Rightarrow> string" where
  "provider_name Github = ''github''"
| "provider_name Discord = ''discord''"

record oauth_config =
  oc_client_id :: string
  oc_client_secret :: string
  oc_allowed_ids :: "string list"

definition state_value :: "oauth_provider \<Rightarrow> string \<Rightarrow> string \<Rightarrow> string \<Rightarrow> string \<Rightarrow> string \<Rightarrow> jval" where
  "state_value p st verifier path issued expires = JObj [(''version'', JInt 1), (''purpose'', JStr ''hyeboard-admin-oauth''),
     (''provider'', JStr (provider_name p)), (''state'', JStr st), (''verifier'', JStr verifier),
     (''returnPath'', JStr path), (''issuedAt'', JStr issued), (''expiresAt'', JStr expires)]"

definition assertOAuthState :: "jval \<Rightarrow> oauth_provider \<Rightarrow> string \<Rightarrow> int \<Rightarrow> bool" where
  "assertOAuthState v p expected now \<longleftrightarrow>
     exactObject v STATE_KEYS \<and> prop_of ''version'' v = JInt 1 \<and> prop_of ''purpose'' v = JStr ''hyeboard-admin-oauth''
   \<and> prop_of ''provider'' v = JStr (provider_name p) \<and> prop_of ''state'' v = JStr expected
   \<and> isBase64UrlBytes (prop_of ''state'' v) 24 \<and> isBase64UrlBytes (prop_of ''verifier'' v) 32
   \<and> validReturnPath (prop_of ''returnPath'' v)
   \<and> (case (canonical_time_value (prop_of ''issuedAt'' v), canonical_time_value (prop_of ''expiresAt'' v)) of
        (Some i, Some e) \<Rightarrow> e - i = OAUTH_STATE_TTL_MS \<and> i \<le> now \<and> now < e
      | _ \<Rightarrow> False)"

text \<open>The origin of a URL is read by the platform; \<open>None\<close> when it is no URL.\<close>

definition adminOAuthCallbackUrl :: "(string \<Rightarrow> string option) \<Rightarrow> string \<Rightarrow> oauth_provider \<Rightarrow> auth_error + string" where
  "adminOAuthCallbackUrl origin_of publicOrigin p =
    (if origin_of publicOrigin \<noteq> Some publicOrigin then Inl InvalidState
     else Inr (publicOrigin @ ''/api/admin/oauth/'' @ provider_name p @ ''/callback''))"

text \<open>\<open>sha256\<close> is the digest of the platform. The query is the list of its parameters.\<close>

definition derivePkceS256Challenge :: "(string \<Rightarrow> bytes) \<Rightarrow> string \<Rightarrow> string" where
  "derivePkceS256Challenge sha256 verifier = toBase64Url (sha256 verifier)"

definition authorize_url :: "oauth_provider \<Rightarrow> string" where
  "authorize_url p = (case p of Github \<Rightarrow> ''https://github.com/login/oauth/authorize''
     | Discord \<Rightarrow> ''https://discord.com/oauth2/authorize'')"

definition createOAuthAuthorization ::
  "platform \<Rightarrow> (string \<Rightarrow> bytes) \<Rightarrow> oauth_provider \<Rightarrow> string \<Rightarrow> string \<Rightarrow> string \<Rightarrow> int \<Rightarrow> string option \<Rightarrow>
   bytes \<Rightarrow> bytes \<Rightarrow> bytes \<Rightarrow> auth_error + ((string \<times> (string \<times> string) list) \<times> string)" where
  "createOAuthAuthorization pl sha256 p secret clientId path now redirect state_rnd verifier_rnd iv =
    (if clientId = [] \<or> \<not> validReturnPath (JStr path) then Inl InvalidState
     else let st = toBase64Url state_rnd; verifier = toBase64Url verifier_rnd in
       sbind (iso now) (\<lambda>issued. sbind (iso (now + OAUTH_STATE_TTL_MS)) (\<lambda>expires.
       sbind (encryptEnvelope pl (state_value p st verifier path issued expires) secret STATE_LABEL iv) (\<lambda>envelope.
         Inr ((authorize_url p,
           [(''client_id'', clientId), (''response_type'', ''code''),
            (''scope'', (case p of Github \<Rightarrow> ''read:user'' | Discord \<Rightarrow> ''identify'')), (''state'', st),
            (''code_challenge'', derivePkceS256Challenge sha256 verifier), (''code_challenge_method'', ''S256'')]
           @ (case redirect of None \<Rightarrow> [] | Some [] \<Rightarrow> [] | Some r \<Rightarrow> [(''redirect_uri'', r)])), envelope)))))"

definition decryptOAuthState ::
  "platform \<Rightarrow> string \<Rightarrow> string \<Rightarrow> oauth_provider \<Rightarrow> string \<Rightarrow> int \<Rightarrow> auth_error + jval" where
  "decryptOAuthState pl token secret p expected now =
    (case decryptEnvelope pl token secret STATE_LABEL of
       Inl (Some e) \<Rightarrow> Inl e
     | Inl None \<Rightarrow> Inl InvalidState
     | Inr v \<Rightarrow> if assertOAuthState v p expected now then Inr v else Inl InvalidState)"

text \<open>
  \<open>exchangeOAuthCode\<close>: the answers of the two requests are arguments, \<open>None\<close> when a request
  failed, its status was not in the 200s or its body was no JSON. Reading a property of null
  throws, which ends in the same error as a missing property.
\<close>

definition oauth_id :: "jval \<Rightarrow> jval" where
  "oauth_id user = (case prop_of ''id'' user of JInt n \<Rightarrow> if safe_integer n then JStr (int_string n) else JInt n | v \<Rightarrow> v)"

definition oauth_label :: "oauth_provider \<Rightarrow> jval \<Rightarrow> string option" where
  "oauth_label p user =
    (let v = (case p of Github \<Rightarrow> prop_of ''login'' user
        | Discord \<Rightarrow> (case prop_of ''global_name'' user of JUndefined \<Rightarrow> prop_of ''username'' user
            | JNull \<Rightarrow> prop_of ''username'' user | g \<Rightarrow> g))
     in case v of JStr s \<Rightarrow> if s = [] then None else Some (take 128 s) | _ \<Rightarrow> None)"

definition exchangeOAuthCode ::
  "oauth_provider \<Rightarrow> oauth_config \<Rightarrow> string \<Rightarrow> string \<Rightarrow> jval option \<Rightarrow> (string \<Rightarrow> jval option) \<Rightarrow> auth_error + admin_actor" where
  "exchangeOAuthCode p cfg code verifier token_answer user_answer =
    (if code = [] \<or> verifier = [] then Inl AuthUnauthorized
     else case token_answer of None \<Rightarrow> Inl AuthUnauthorized
     | Some body \<Rightarrow> (case prop_of ''access_token'' body of
         JStr token \<Rightarrow>
           if token = [] then Inl AuthUnauthorized
           else (case user_answer token of None \<Rightarrow> Inl AuthUnauthorized
             | Some user \<Rightarrow> (case oauth_id user of
                 JStr i \<Rightarrow> if \<not> NUMERIC_ID i \<or> i \<notin> set (oc_allowed_ids cfg) then Inl AuthUnauthorized
                   else Inr \<lparr>a_method = provider_name p, a_subject = i, a_label = oauth_label p user\<rparr>
               | _ \<Rightarrow> Inl AuthUnauthorized))
       | _ \<Rightarrow> Inl AuthUnauthorized))"

end
