(* ===== verification/AdminRoutes.thy ===== *)
theory AdminRoutes
  imports AdminAuth PolicyRuntime
begin

text \<open>
  The administrator settings, \<open>admin/admin-config.ts\<close>, and the administrator routes,
  \<open>admin/admin-routes.ts\<close>: sign-in with its rate limits, sessions, and the policy routes on the
  durable object's tables (theory PolicyStore) and login windows (theory PolicyRuntime). A
  handler is a step on that state; what the platform does (cryptography, parsing URLs, the
  answers of the OAuth providers, random bytes, the clock) is the record \<open>admin_env\<close>.
\<close>

section \<open>Settings\<close>

datatype auth_method = PasswordMethod | GithubMethod | DiscordMethod

record admin_config =
  ac_secret :: string
  ac_ttl :: int
  ac_public_origin :: "string option"
  ac_database :: "string option"
  ac_password_hash :: "string option"
  ac_github :: "oauth_config option"
  ac_discord :: "oauth_config option"
  ac_methods :: "auth_method list"

text \<open>The settings of \<open>RuntimeConfig\<close> that are read here.\<close>

record admin_settings =
  as_secret :: "string option"
  as_ttl :: "string option"
  as_origin :: "string option"
  as_database :: "string option"
  as_password_hash :: "string option"
  as_github :: "string option \<times> string option \<times> string option"
  as_discord :: "string option \<times> string option \<times> string option"

text \<open>The error names the setting.\<close>

datatype invalid_setting = InvalidSetting string

definition DEFAULT_SESSION_TTL_SECONDS :: int where "DEFAULT_SESSION_TTL_SECONDS = 3600"

definition MAX_SESSION_TTL_SECONDS :: int where "MAX_SESSION_TTL_SECONDS = 86400"

definition MAX_OAUTH_CLIENT_ID_LENGTH :: nat where "MAX_OAUTH_CLIENT_ID_LENGTH = 256"

definition CANONICAL_POSITIVE_INTEGER :: "string \<Rightarrow> bool" where
  "CANONICAL_POSITIVE_INTEGER s \<longleftrightarrow> canonical_integer s \<and> s \<noteq> ''0''"

definition parseTtl :: "string option \<Rightarrow> invalid_setting + int" where
  "parseTtl v = (case v of
     None \<Rightarrow> Inr DEFAULT_SESSION_TTL_SECONDS
   | Some s \<Rightarrow>
      if \<not> CANONICAL_POSITIVE_INTEGER s then Inl (InvalidSetting ''HYEB_ADMIN_SESSION_TTL_SECONDS'')
      else if \<not> safe_integer (number_of s) \<or> MAX_SESSION_TTL_SECONDS < number_of s
      then Inl (InvalidSetting ''HYEB_ADMIN_SESSION_TTL_SECONDS'') else Inr (number_of s))"

text \<open>The parts of a URL the platform reads; \<open>None\<close> when the text is no URL.\<close>

record url_parts =
  url_hostname :: string
  url_origin :: string
  url_protocol :: string
  url_username :: string
  url_password :: string

definition parseOrigin :: "(string \<Rightarrow> url_parts option) \<Rightarrow> string option \<Rightarrow> invalid_setting + string option" where
  "parseOrigin url v = (case v of
     None \<Rightarrow> Inr None
   | Some s \<Rightarrow> (case url s of
       None \<Rightarrow> Inl (InvalidSetting ''HYEB_ADMIN_PUBLIC_ORIGIN'')
     | Some u \<Rightarrow>
        if url_origin u \<noteq> s \<or> url_protocol u \<notin> {''http:'', ''https:''}
          \<or> url_protocol u = ''http:'' \<and> url_hostname u \<notin> {''localhost'', ''127.0.0.1'', ''[::1]''}
          \<or> url_username u \<noteq> [] \<or> url_password u \<noteq> []
        then Inl (InvalidSetting ''HYEB_ADMIN_PUBLIC_ORIGIN'') else Inr (Some s)))"

definition ascii_letter :: "char \<Rightarrow> bool" where
  "ascii_letter c \<longleftrightarrow> c \<in> set ''ABCDEFGHIJKLMNOPQRSTUVWXYZabcdefghijklmnopqrstuvwxyz''"

text \<open>\<open>/^[A-Za-z]:[\\/]/\<close>\<close>

definition windows_file_path :: "string \<Rightarrow> bool" where
  "windows_file_path s \<longleftrightarrow> 3 \<le> length s \<and> ascii_letter (s ! 0) \<and> s ! 1 = CHR '':'' \<and> s ! 2 \<in> {CHR 0x5C, CHR ''/''}"

text \<open>\<open>/^[A-Za-z][A-Za-z\d+.-]*:/\<close>\<close>

definition url_scheme :: "string \<Rightarrow> bool" where
  "url_scheme s \<longleftrightarrow> s \<noteq> [] \<and> ascii_letter (hd s)
     \<and> (case dropWhile (\<lambda>c. ascii_letter c \<or> c \<in> set (digit_chars @ ''+.-'')) (tl s) of [] \<Rightarrow> False | c # r \<Rightarrow> c = CHR '':'')"

definition parseDatabasePath :: "string option \<Rightarrow> invalid_setting + string option" where
  "parseDatabasePath v = (case v of
     None \<Rightarrow> Inr None
   | Some s \<Rightarrow>
      if s = [] \<or> has_char CHR 0x00 s \<or> starts_with '':'' s \<or> starts_with ''//'' s
        \<or> starts_with [CHR 0x5C, CHR 0x5C] s \<or> \<not> windows_file_path s \<and> url_scheme s
      then Inl (InvalidSetting ''HYEB_ADMIN_DB_PATH'') else Inr (Some s))"

definition parseNumericIdAllowlist :: "string option \<Rightarrow> string \<Rightarrow> invalid_setting + string list" where
  "parseNumericIdAllowlist v nm = (case v of
     None \<Rightarrow> Inr []
   | Some s \<Rightarrow> (let ids = map js_trim (split_on CHR '','' s) in
      if list_ex (\<lambda>i. \<not> CANONICAL_POSITIVE_INTEGER i) ids \<or> \<not> distinct ids then Inl (InvalidSetting nm) else Inr ids))"

definition parseOAuth :: "string option \<times> string option \<times> string option \<Rightarrow> string \<Rightarrow> invalid_setting + oauth_config option" where
  "parseOAuth v prefix = (case v of
     (None, None, None) \<Rightarrow> Inr None
   | (Some i, Some s, Some ids) \<Rightarrow>
       if i = [] \<or> MAX_OAUTH_CLIENT_ID_LENGTH < length i \<or> s = [] then Inl (InvalidSetting prefix)
       else sbind (parseNumericIdAllowlist (Some ids) prefix) (\<lambda>allowed.
         if allowed = [] then Inl (InvalidSetting prefix)
         else Inr (Some \<lparr>oc_client_id = i, oc_client_secret = s, oc_allowed_ids = allowed\<rparr>))
   | _ \<Rightarrow> Inl (InvalidSetting prefix))"

definition parseAdminConfig :: "(string \<Rightarrow> url_parts option) \<Rightarrow> admin_settings \<Rightarrow> invalid_setting + admin_config" where
  "parseAdminConfig url st =
    (case as_secret st of
       None \<Rightarrow> Inl (InvalidSetting ''HYEB_ADMIN_SESSION_SECRET'')
     | Some secret \<Rightarrow>
       if length secret < 32 then Inl (InvalidSetting ''HYEB_ADMIN_SESSION_SECRET'')
       else sbind (parseOrigin url (as_origin st)) (\<lambda>origin.
         sbind (parseDatabasePath (as_database st)) (\<lambda>db.
         sbind (parseOAuth (as_github st) ''HYEB_ADMIN_GITHUB'') (\<lambda>github.
         sbind (parseOAuth (as_discord st) ''HYEB_ADMIN_DISCORD'') (\<lambda>discord.
         if (github \<noteq> None \<or> discord \<noteq> None) \<and> (origin = None \<or> origin = Some [])
         then Inl (InvalidSetting ''HYEB_ADMIN_PUBLIC_ORIGIN'')
         else sbind (case as_password_hash st of None \<Rightarrow> Inr []
             | Some h \<Rightarrow> (case parseAdminPasswordHash h of
                 Inl _ \<Rightarrow> Inl (InvalidSetting ''HYEB_ADMIN_PASSWORD_HASH'') | Inr _ \<Rightarrow> Inr [PasswordMethod])) (\<lambda>methods.
         sbind (parseTtl (as_ttl st)) (\<lambda>ttl.
         Inr \<lparr>ac_secret = secret, ac_ttl = ttl, ac_public_origin = origin, ac_database = db,
              ac_password_hash = as_password_hash st, ac_github = github, ac_discord = discord,
              ac_methods = methods @ (if github \<noteq> None then [GithubMethod] else [])
                @ (if discord \<noteq> None then [DiscordMethod] else [])\<rparr>)))))))"

section \<open>Errors of the routes\<close>

definition loginFailed :: hyeboard_error where
  "loginFailed = core_error ''ADMIN_LOGIN_FAILED'' ''Sign-in failed.'' 401"

definition loginRateLimited :: "int \<Rightarrow> hyeboard_error" where
  "loginRateLimited seconds = (core_error ''ADMIN_LOGIN_RATE_LIMITED'' ''Sign-in failed.'' 429)
     \<lparr>err_details := [(''retryAfterSeconds'', JInt (max seconds 1))]\<rparr>"

definition unauthorized :: hyeboard_error where
  "unauthorized = core_error ''ADMIN_UNAUTHORIZED'' ''Admin authentication required.'' 401"

definition notFound :: hyeboard_error where
  "notFound = core_error ''NOT_FOUND'' ''Not found.'' 404"

definition request_invalid :: hyeboard_error where
  "request_invalid = core_error ''ADMIN_REQUEST_INVALID'' ''The request was invalid.'' 400"

definition mutation_invalid :: hyeboard_error where
  "mutation_invalid = core_error ''ADMIN_POLICY_INVALID'' ''Feature policy request is invalid.'' 400"

definition revision_missing :: "int \<Rightarrow> hyeboard_error" where
  "revision_missing r = (core_error ''ADMIN_POLICY_REVISION_NOT_FOUND'' ''Feature policy revision was not found.'' 404)
     \<lparr>err_details := [(''targetRevision'', JInt r)]\<rparr>"

section \<open>Environment, state, requests, responses\<close>

record admin_env =
  ae_config :: admin_config
  ae_platform :: platform
  ae_sha256 :: "string \<Rightarrow> bytes"
  ae_hmac_hex :: "string \<Rightarrow> string \<Rightarrow> string"
  ae_origin_of :: "string \<Rightarrow> string option"
  ae_https_of :: "string \<Rightarrow> bool"
  ae_ipv6_host :: "string \<Rightarrow> string option"
  ae_native :: "university list"
  ae_known :: "string list"
  ae_hard_limits :: hard_limits
  ae_issue_path :: "jval \<Rightarrow> string list"

record admin_world =
  aw_tables :: policy_tables
  aw_logins :: login_table
  aw_runtime :: policy_runtime

text \<open>
  A request: what is known of it, the clock, random bytes, the client address, the body as JSON
  (\<open>None\<close> when it is none) and the parameters. The answers of the OAuth provider come with it,
  and the error with which the runtime refuses to open a revision stream (PolicyRuntime models
  when it does).
\<close>

record admin_call =
  cl_request :: admin_request
  cl_now :: int
  cl_random :: "nat \<Rightarrow> bytes"
  cl_client_ip :: "string option"
  cl_body :: "jval option"
  cl_student :: bool
  cl_stream :: "hyeboard_error option"

datatype admin_route =
    SessionStatus
  | PasswordLogin
  | OAuthStart string "string option"
  | OAuthCallback string string string "jval option" "string \<Rightarrow> jval option"
  | Logout
  | PolicyView
  | PolicyValidate
  | PolicyPublish bool
  | PolicyHistory "string option" "string option"
  | PolicyRevision string
  | PolicyRollback bool
  | AdminEvents
  | StudentEvents

datatype admin_reply =
    SignedOut "string option"
  | SignedIn jval jval "string option"
  | RedirectTo string "(string \<times> string) list" "string list"
  | CallbackFailed string
  | ViewReply snapshot "university list"
  | ValidReply policy_content
  | EntryReply audit_entry
  | HistoryReply history_page
  | StreamReply "int option"

text \<open>\<open>None\<close> as an error is an exception that is no error of the core package.\<close>

type_synonym admin_result = "hyeboard_error option + admin_reply"

section \<open>Helpers of the routes\<close>

definition requireAdmin :: "admin_env \<Rightarrow> admin_call \<Rightarrow> hyeboard_error option + jval" where
  "requireAdmin env call = (case authenticateAdminRequest (ae_platform env) (cl_request call)
       (ac_secret (ae_config env)) (cl_now call) of
     Inl _ \<Rightarrow> Inl (Some unauthorized) | Inr s \<Rightarrow> Inr s)"

definition requireAdminMutation :: "admin_env \<Rightarrow> admin_call \<Rightarrow> jval \<Rightarrow> hyeboard_error option + unit" where
  "requireAdminMutation env call session =
    (case assertAdminMutation (cl_request call) session (ac_public_origin (ae_config env)) of
       Inl _ \<Rightarrow> Inl (Some unauthorized) | Inr _ \<Rightarrow> Inr ())"

fun readJsonObject :: "jval option \<Rightarrow> hyeboard_error option + jval" where
  "readJsonObject (Some (JObj kvs)) = Inr (JObj kvs)"
| "readJsonObject _ = Inl (Some request_invalid)"

definition oauth_settings :: "admin_config \<Rightarrow> oauth_provider \<Rightarrow> oauth_config option" where
  "oauth_settings cfg p = (case p of Github \<Rightarrow> ac_github cfg | Discord \<Rightarrow> ac_discord cfg)"

definition configuredProvider :: "admin_config \<Rightarrow> string \<Rightarrow> hyeboard_error option + oauth_provider" where
  "configuredProvider cfg v =
    (if ac_public_origin cfg = None \<or> ac_public_origin cfg = Some [] then Inl (Some notFound)
     else if v = ''github'' \<and> ac_github cfg \<noteq> None then Inr Github
     else if v = ''discord'' \<and> ac_discord cfg \<noteq> None then Inr Discord
     else Inl (Some notFound))"

text \<open>\<open>/^(?:\d{1,3}\.){3}\d{1,3}$/\<close>\<close>

definition ipv4_shape :: "string \<Rightarrow> bool" where
  "ipv4_shape s \<longleftrightarrow> (let ps = split_on CHR ''.'' s in length ps = 4
     \<and> list_all (\<lambda>p. 1 \<le> length p \<and> length p \<le> 3 \<and> all_digits p) ps)"

definition canonicalClientIp :: "(string \<Rightarrow> string option) \<Rightarrow> string option \<Rightarrow> string" where
  "canonicalClientIp ipv6_host v =
    (case map_option (js_lower \<circ> js_trim) v of
       None \<Rightarrow> ''unknown''
     | Some address \<Rightarrow>
        if address = [] \<or> has_char CHR ''%'' address then ''unknown''
        else if ipv4_shape address then
          (let octets = map number_of (split_on CHR ''.'' address)
           in if list_all (\<lambda>n. n \<le> 255) octets then join ''.'' (map int_string octets) else ''unknown'')
        else (case ipv6_host address of None \<Rightarrow> ''unknown'' | Some h \<Rightarrow> butlast (tl h)))"

definition LOGIN_LIMIT :: int where "LOGIN_LIMIT = 5"

definition GLOBAL_LOGIN_LIMIT :: int where "GLOBAL_LOGIN_LIMIT = 100"

definition LOGIN_WINDOW_MS :: int where "LOGIN_WINDOW_MS = 15 * 60 * 1000"

text \<open>One consumption: an error of the limiter is no error of the core package.\<close>

definition consume_login :: "login_table \<Rightarrow> int \<Rightarrow> string \<Rightarrow> int \<Rightarrow> (hyeboard_error option + unit) \<times> login_table" where
  "consume_login rows now bucket limit = (case consumeAdminLoginAttempt rows now bucket limit LOGIN_WINDOW_MS of
     (Inl e, rows') \<Rightarrow> (Inl None, rows')
   | (Inr (LoginDenied s), rows') \<Rightarrow> (Inl (Some (loginRateLimited s)), rows')
   | (Inr LoginAllowed, rows') \<Rightarrow> (Inr (), rows'))"

definition checkLoginLimit :: "admin_env \<Rightarrow> admin_call \<Rightarrow> login_table \<Rightarrow> (hyeboard_error option + unit) \<times> login_table" where
  "checkLoginLimit env call rows =
    (let secret = ac_secret (ae_config env) in
     case consume_login rows (cl_now call) (ae_hmac_hex env secret ''global'') GLOBAL_LOGIN_LIMIT of
       (Inl e, rows') \<Rightarrow> (Inl e, rows')
     | (Inr _, rows') \<Rightarrow> consume_login rows' (cl_now call)
         (ae_hmac_hex env secret (canonicalClientIp (ae_ipv6_host env) (cl_client_ip call))) LOGIN_LIMIT)"

definition canonicalPositiveInteger :: "string option \<Rightarrow> int option \<Rightarrow> hyeboard_error option + int" where
  "canonicalPositiveInteger v fallback = (case v of
     None \<Rightarrow> (case fallback of None \<Rightarrow> Inl (Some invalidHistory) | Some n \<Rightarrow> Inr n)
   | Some s \<Rightarrow> if CANONICAL_POSITIVE_INTEGER s \<and> safe_integer (number_of s) then Inr (number_of s)
       else Inl (Some invalidHistory))"

definition lastRevision :: "admin_request \<Rightarrow> int option" where
  "lastRevision rq = (case rq_header rq ''last-event-id'' of None \<Rightarrow> None | Some s \<Rightarrow> safe_decimal s)"

definition isSecure :: "admin_env \<Rightarrow> admin_call \<Rightarrow> bool" where
  "isSecure env call = (case ac_public_origin (ae_config env) of
     Some origin \<Rightarrow> ae_https_of env origin | None \<Rightarrow> rq_https (cl_request call))"

text \<open>\<open>publishFeaturePolicySchema\<close> and \<open>rollbackFeaturePolicySchema\<close> on the body of a request.\<close>

definition reason_of :: "jval \<Rightarrow> string option" where
  "reason_of v = (case v of JStr s \<Rightarrow>
     (let t = js_trim s in if 1 \<le> length t \<and> length t \<le> 500 then Some t else None) | _ \<Rightarrow> None)"

definition revision_of :: "bool \<Rightarrow> jval \<Rightarrow> js_number option" where
  "revision_of positive v = (case v of JInt n \<Rightarrow>
     if safe_integer n \<and> (if positive then 0 < n else 0 \<le> n) then Some (Whole n) else None | _ \<Rightarrow> None)"

definition publishFeaturePolicySchema :: "jval \<Rightarrow> (js_number \<times> policy_content \<times> string) option" where
  "publishFeaturePolicySchema v = (case strict_object [''baseRevision'', ''policy'', ''reason''] v of
     None \<Rightarrow> None
   | Some kvs \<Rightarrow> (case (revision_of False (field ''baseRevision'' kvs), featurePolicyContentSchema (field ''policy'' kvs),
        reason_of (field ''reason'' kvs)) of
       (Some b, Some p, Some r) \<Rightarrow> Some (b, p, r)
     | _ \<Rightarrow> None))"

definition rollbackFeaturePolicySchema :: "jval \<Rightarrow> (js_number \<times> js_number \<times> string) option" where
  "rollbackFeaturePolicySchema v = (case strict_object [''baseRevision'', ''targetRevision'', ''reason''] v of
     None \<Rightarrow> None
   | Some kvs \<Rightarrow> (case (revision_of False (field ''baseRevision'' kvs), revision_of True (field ''targetRevision'' kvs),
        reason_of (field ''reason'' kvs)) of
       (Some b, Some t, Some r) \<Rightarrow> Some (b, t, r)
     | _ \<Rightarrow> None))"

definition parseMutation :: "(jval \<Rightarrow> 'a option) \<Rightarrow> jval \<Rightarrow> hyeboard_error option + 'a" where
  "parseMutation schema v = (case schema v of None \<Rightarrow> Inl (Some mutation_invalid) | Some x \<Rightarrow> Inr x)"

text \<open>The actor of a session, as the actor schema of the store reads it.\<close>

fun text_of :: "jval \<Rightarrow> string option" where
  "text_of (JStr s) = Some s"
| "text_of _ = None"

definition actor_of :: "jval \<Rightarrow> admin_actor option" where
  "actor_of v = (case (text_of (prop_of ''method'' v), text_of (prop_of ''subject'' v), prop_of ''label'' v) of
     (Some m, Some s, JUndefined) \<Rightarrow> Some \<lparr>a_method = m, a_subject = s, a_label = None\<rparr>
   | (Some m, Some s, JStr l) \<Rightarrow> Some \<lparr>a_method = m, a_subject = s, a_label = Some l\<rparr>
   | _ \<Rightarrow> None)"

end
