(* ===== verification/AdminHandlers.thy ===== *)
theory AdminHandlers
  imports AdminRoutes
begin

text \<open>
  The handlers of \<open>admin/admin-routes.ts\<close>, one definition per route, and \<open>admin_handle\<close>, which
  dispatches to them. Every response carries \<open>Cache-Control: no-store\<close>, which is not repeated in
  the replies; the listed cookies are the \<open>Set-Cookie\<close> headers.
\<close>

section \<open>Sessions and sign-in\<close>

definition session_status :: "admin_env \<Rightarrow> admin_call \<Rightarrow> admin_result" where
  "session_status env call =
    (if rq_header (cl_request call) ''authorization'' \<noteq> None \<or> readCookie (cl_request call) ADMIN_COOKIE = None
     then Inr (SignedOut None)
     else case authenticateAdminRequest (ae_platform env) (cl_request call) (ac_secret (ae_config env)) (cl_now call) of
       Inl _ \<Rightarrow> Inr (SignedOut (Some (buildClearAdminSessionCookie (isSecure env call))))
     | Inr s \<Rightarrow> Inr (SignedIn (prop_of ''actor'' s) (prop_of ''csrfToken'' s) None))"

text \<open>A session for an actor, encrypted: the session and its cookie.\<close>

definition open_session :: "admin_env \<Rightarrow> admin_call \<Rightarrow> admin_actor \<Rightarrow> auth_error + (admin_session \<times> string)" where
  "open_session env call actor =
    sbind (createAdminSession actor (Whole (ac_ttl (ae_config env))) (cl_now call) (cl_random call 32)) (\<lambda>s.
    sbind (encryptAdminSession (ae_platform env) s (ac_secret (ae_config env)) (cl_random call 12)) (\<lambda>token.
    Inr (s, buildAdminSessionCookie token (ac_ttl (ae_config env)) (isSecure env call))))"

definition password_actor :: admin_actor where
  "password_actor = \<lparr>a_method = ''password'', a_subject = ''password-admin'', a_label = None\<rparr>"

definition password_of :: "jval option \<Rightarrow> string option" where
  "password_of body = (case readJsonObject body of Inl _ \<Rightarrow> None | Inr v \<Rightarrow>
     (case prop_of ''password'' v of JStr s \<Rightarrow> if s = [] then None else Some s | _ \<Rightarrow> None))"

definition password_login :: "admin_env \<Rightarrow> admin_call \<Rightarrow> admin_world \<Rightarrow> admin_result \<times> admin_world" where
  "password_login env call w =
    (case ac_password_hash (ae_config env) of
       None \<Rightarrow> (Inl (Some notFound), w)
     | Some hash \<Rightarrow>
       if hash = [] then (Inl (Some notFound), w)
       else case password_of (cl_body call) of
         None \<Rightarrow> (Inl (Some loginFailed), w)
       | Some password \<Rightarrow> (case checkLoginLimit env call (aw_logins w) of
           (Inl e, rows) \<Rightarrow> (Inl e, w\<lparr>aw_logins := rows\<rparr>)
         | (Inr _, rows) \<Rightarrow>
           ((case verifyAdminPassword (ae_platform env) password hash of
               Inl _ \<Rightarrow> Inl None
             | Inr False \<Rightarrow> Inl (Some loginFailed)
             | Inr True \<Rightarrow> (case open_session env call password_actor of
                 Inl _ \<Rightarrow> Inl None
               | Inr (s, c) \<Rightarrow> Inr (SignedIn (actor_value (se_actor s)) (JStr (se_csrf s)) (Some c)))),
            w\<lparr>aw_logins := rows\<rparr>)))"

definition return_path :: "string option \<Rightarrow> string" where
  "return_path q = (case q of None \<Rightarrow> ''/admin'' | Some p \<Rightarrow> p)"

definition oauth_start :: "admin_env \<Rightarrow> admin_call \<Rightarrow> string \<Rightarrow> string option \<Rightarrow> admin_result" where
  "oauth_start env call provider path =
    (let cfg = ae_config env in
     sbind (configuredProvider cfg provider) (\<lambda>p.
     case (ac_public_origin cfg, oauth_settings cfg p) of
       (Some origin, Some oc) \<Rightarrow>
         (case adminOAuthCallbackUrl (ae_origin_of env) origin p of Inl _ \<Rightarrow> Inl None
          | Inr redirect \<Rightarrow>
            (case createOAuthAuthorization (ae_platform env) (ae_sha256 env) p (ac_secret cfg) (oc_client_id oc)
                (return_path path) (cl_now call) (Some redirect) (cl_random call 24) (cl_random call 32) (cl_random call 12) of
               Inl _ \<Rightarrow> Inl None
             | Inr ((base, query), envelope) \<Rightarrow>
                Inr (RedirectTo base query [buildOAuthStateCookie envelope (isSecure env call)])))
     | _ \<Rightarrow> Inl None))"

text \<open>The body of the callback's \<open>try\<close>; every failure in it is the same answer.\<close>

definition callback_session ::
  "admin_env \<Rightarrow> admin_call \<Rightarrow> oauth_provider \<Rightarrow> oauth_config \<Rightarrow> string \<Rightarrow> string \<Rightarrow> string \<Rightarrow> string \<Rightarrow>
   jval option \<Rightarrow> (string \<Rightarrow> jval option) \<Rightarrow> auth_error + admin_reply" where
  "callback_session env call p oc origin cookie_value code st token_answer user_answer =
    sbind (decryptOAuthState (ae_platform env) cookie_value (ac_secret (ae_config env)) p st (cl_now call)) (\<lambda>v.
    sbind (adminOAuthCallbackUrl (ae_origin_of env) origin p) (\<lambda>_.
    sbind (exchangeOAuthCode p oc code (case prop_of ''verifier'' v of JStr s \<Rightarrow> s | _ \<Rightarrow> []) token_answer user_answer) (\<lambda>actor.
    sbind (open_session env call actor) (\<lambda>(s, c).
    Inr (RedirectTo (origin @ (case prop_of ''returnPath'' v of JStr r \<Rightarrow> r | _ \<Rightarrow> [])) []
      [c, buildClearOAuthStateCookie (isSecure env call)])))))"

definition oauth_callback ::
  "admin_env \<Rightarrow> admin_call \<Rightarrow> string \<Rightarrow> string \<Rightarrow> string \<Rightarrow> jval option \<Rightarrow> (string \<Rightarrow> jval option) \<Rightarrow> admin_result" where
  "oauth_callback env call provider code st token_answer user_answer =
    (let cfg = ae_config env in
     sbind (configuredProvider cfg provider) (\<lambda>p.
     case readCookie (cl_request call) OAUTH_COOKIE of
       None \<Rightarrow> Inl (Some loginFailed)
     | Some cookie_value \<Rightarrow> (case (ac_public_origin cfg, oauth_settings cfg p) of
         (Some origin, Some oc) \<Rightarrow>
           (case callback_session env call p oc origin cookie_value code st token_answer user_answer of
              Inl _ \<Rightarrow> Inr (CallbackFailed (buildClearOAuthStateCookie (isSecure env call)))
            | Inr r \<Rightarrow> Inr r)
       | _ \<Rightarrow> Inl None)))"

section \<open>The guard of a mutation\<close>

text \<open>Authenticate, check the request, read a JSON object: in this order.\<close>

definition guarded :: "admin_env \<Rightarrow> admin_call \<Rightarrow> hyeboard_error option + (jval \<times> jval)" where
  "guarded env call =
    sbind (requireAdmin env call) (\<lambda>s.
    sbind (requireAdminMutation env call s) (\<lambda>_.
    sbind (readJsonObject (cl_body call)) (\<lambda>body. Inr (s, body))))"

definition logout :: "admin_env \<Rightarrow> admin_call \<Rightarrow> admin_result" where
  "logout env call = sbind (guarded env call) (\<lambda>_.
     Inr (SignedOut (Some (buildClearAdminSessionCookie (isSecure env call)))))"

section \<open>Policy routes\<close>

definition policy_view :: "admin_env \<Rightarrow> admin_call \<Rightarrow> admin_world \<Rightarrow> admin_result \<times> admin_world" where
  "policy_view env call w =
    (case requireAdmin env call of
       Inl e \<Rightarrow> (Inl e, w)
     | Inr _ \<Rightarrow> (case currentAuthoritative (ae_known env) (aw_runtime w) (do_current (aw_tables w)) of
         (answer, rt) \<Rightarrow>
           (sbind (lift_core answer) (\<lambda>snap.
              sbind (lift_core (traverse (\<lambda>u. effectiveUniversity u (s_policy snap) (ae_hard_limits env)) (ae_native env))) (\<lambda>us.
                Inr (ViewReply snap us))), w\<lparr>aw_runtime := rt\<rparr>)))"

definition policy_validate :: "admin_env \<Rightarrow> admin_call \<Rightarrow> admin_result" where
  "policy_validate env call = sbind (guarded env call) (\<lambda>(s, body).
     sbind (lift_core (validatePolicy (ae_issue_path env) body (map uni_id (ae_native env)) (ae_hard_limits env))) (\<lambda>p.
       Inr (ValidReply p)))"

text \<open>What a publication leaves in the tables and in the runtime's cache.\<close>

definition after_publication ::
  "admin_world \<Rightarrow> bool \<Rightarrow> (hyeboard_error option + audit_entry) \<times> policy_tables \<Rightarrow> admin_result \<times> admin_world" where
  "after_publication w notified r = (case r of
     (Inl e, db) \<Rightarrow> (Inl e, w\<lparr>aw_tables := db\<rparr>)
   | (Inr e, db) \<Rightarrow> (Inr (EntryReply e),
       w\<lparr>aw_tables := db, aw_runtime := snd (runtime_published (aw_runtime w) (Inr e) notified)\<rparr>))"

definition policy_publish :: "admin_env \<Rightarrow> admin_call \<Rightarrow> bool \<Rightarrow> admin_world \<Rightarrow> admin_result \<times> admin_world" where
  "policy_publish env call notified w =
    (case sbind (guarded env call) (\<lambda>(s, body). sbind (parseMutation publishFeaturePolicySchema body) (\<lambda>i. Inr (s, i))) of
       Inl e \<Rightarrow> (Inl e, w)
     | Inr (s, (base, policy, reason)) \<Rightarrow> (case actor_of (prop_of ''actor'' s) of
         None \<Rightarrow> (case validate_typed (ae_known env) policy of Inl e \<Rightarrow> (Inl (Some e), w) | Inr _ \<Rightarrow> (Inl None, w))
       | Some actor \<Rightarrow> after_publication w notified (runtime_publish (ae_known env) (aw_tables w) (cl_now call)
           \<lparr>pb_base = base, pb_policy = policy, pb_reason = reason, pb_actor = actor\<rparr>)))"

definition policy_rollback :: "admin_env \<Rightarrow> admin_call \<Rightarrow> bool \<Rightarrow> admin_world \<Rightarrow> admin_result \<times> admin_world" where
  "policy_rollback env call notified w =
    (case sbind (guarded env call) (\<lambda>(s, body). sbind (parseMutation rollbackFeaturePolicySchema body) (\<lambda>i. Inr (s, i))) of
       Inl e \<Rightarrow> (Inl e, w)
     | Inr (s, (base, target, reason)) \<Rightarrow> (case actor_of (prop_of ''actor'' s) of
         None \<Rightarrow> (Inl None, w)
       | Some actor \<Rightarrow> after_publication w notified (rollback (ae_known env) (aw_tables w) (cl_now call)
           \<lparr>rb_base = base, rb_target = target, rb_reason = reason, rb_actor = actor\<rparr>)))"

definition policy_history :: "admin_env \<Rightarrow> admin_call \<Rightarrow> admin_world \<Rightarrow> string option \<Rightarrow> string option \<Rightarrow> admin_result" where
  "policy_history env call w limit before =
    sbind (requireAdmin env call) (\<lambda>_.
    sbind (canonicalPositiveInteger limit (Some 25)) (\<lambda>n.
    sbind (case before of None \<Rightarrow> Inr None
        | Some b \<Rightarrow> sbind (canonicalPositiveInteger (Some b) None) (\<lambda>r. Inr (Some (Whole r)))) (\<lambda>b.
    case do_history (aw_tables w) \<lparr>h_before = b, h_limit = Whole n\<rparr> of
      Inl e \<Rightarrow> Inl (Some (store_failure e)) | Inr page \<Rightarrow> Inr (HistoryReply page))))"

definition policy_revision :: "admin_env \<Rightarrow> admin_call \<Rightarrow> admin_world \<Rightarrow> string \<Rightarrow> admin_result" where
  "policy_revision env call w r =
    sbind (requireAdmin env call) (\<lambda>_.
    sbind (canonicalPositiveInteger (Some r) None) (\<lambda>n.
    case do_revision (aw_tables w) (Whole n) of
      Inl e \<Rightarrow> Inl (Some (store_failure e))
    | Inr None \<Rightarrow> Inl (Some (revision_missing n))
    | Inr (Some e) \<Rightarrow> Inr (EntryReply e)))"

text \<open>
  \<open>runtime().stream\<close>: it is refused when the authoritative revision cannot be read or 256
  streams are open; what it does otherwise is in PolicyRuntime.
\<close>

definition open_stream :: "admin_call \<Rightarrow> admin_result" where
  "open_stream call = (case cl_stream call of
     Some e \<Rightarrow> Inl (Some e) | None \<Rightarrow> Inr (StreamReply (lastRevision (cl_request call))))"

definition admin_events :: "admin_env \<Rightarrow> admin_call \<Rightarrow> admin_result" where
  "admin_events env call = sbind (requireAdmin env call) (\<lambda>_. open_stream call)"

text \<open>The students' stream: their authentication is a dependency of the routes.\<close>

definition student_events :: "admin_call \<Rightarrow> admin_result" where
  "student_events call = (if cl_student call then open_stream call else Inl None)"

fun admin_handle :: "admin_env \<Rightarrow> admin_world \<Rightarrow> admin_call \<Rightarrow> admin_route \<Rightarrow> admin_result \<times> admin_world" where
  "admin_handle env w call SessionStatus = (session_status env call, w)"
| "admin_handle env w call PasswordLogin = password_login env call w"
| "admin_handle env w call (OAuthStart p path) = (oauth_start env call p path, w)"
| "admin_handle env w call (OAuthCallback p code st ta ua) = (oauth_callback env call p code st ta ua, w)"
| "admin_handle env w call Logout = (logout env call, w)"
| "admin_handle env w call PolicyView = policy_view env call w"
| "admin_handle env w call PolicyValidate = (policy_validate env call, w)"
| "admin_handle env w call (PolicyPublish n) = policy_publish env call n w"
| "admin_handle env w call (PolicyHistory l b) = (policy_history env call w l b, w)"
| "admin_handle env w call (PolicyRevision r) = (policy_revision env call w r, w)"
| "admin_handle env w call (PolicyRollback n) = policy_rollback env call n w"
| "admin_handle env w call AdminEvents = (admin_events env call, w)"
| "admin_handle env w call StudentEvents = (student_events call, w)"

section \<open>Who may change the policy\<close>

lemma guarded_Inr:
  assumes "guarded env call = Inr (s, body)"
  shows "authenticateAdminRequest (ae_platform env) (cl_request call) (ac_secret (ae_config env)) (cl_now call) = Inr s"
    "assertAdminMutation (cl_request call) s (ac_public_origin (ae_config env)) = Inr ()"
  using assms by (auto simp: guarded_def requireAdmin_def requireAdminMutation_def sbind_Inr_iff split: sum.splits)

text \<open>A publication that changes the tables returns the entry it wrote, by its own actor.\<close>

lemma runtime_publish_effect:
  assumes "runtime_publish known db now p = (r, db')" "db' \<noteq> db"
  shows "\<exists>e. r = Inr e \<and> e_actor e = pb_actor p \<and> e_publishedAt e = now \<and> history_rows db' = history_rows db @ [row_of e]"
  using assms
  by (auto simp: runtime_publish_def do_publish_def sbind_Inr_iff entry_of_def insert_history_def update_current_def
      parsePublication_def Let_def split: sum.splits if_splits)

lemma rollback_effect:
  assumes "rollback known db now i = (r, db')" "db' \<noteq> db"
  shows "\<exists>e. r = Inr e \<and> e_actor e = rb_actor i \<and> e_publishedAt e = now \<and> history_rows db' = history_rows db @ [row_of e]"
proof -
  obtain p where "runtime_publish known db now p = (r, db')" "pb_actor p = rb_actor i"
    using assms by (auto simp: rollback_def split: if_splits sum.splits option.splits)
  with runtime_publish_effect [OF this(1) assms(2)] show ?thesis by simp
qed

end
