(* ===== verification/AdminProps.thy ===== *)
theory AdminProps
  imports AdminAuth
begin

text \<open>
  What administrator authentication guarantees: a session token reads back as the session it
  was made from exactly while the session lasts, the password check compares the whole digest,
  and a created password hash verifies exactly the passwords with the same digest.
\<close>

lemma isBase64UrlBytes_made: "length bs = n \<Longrightarrow> 0 < n \<Longrightarrow> isBase64UrlBytes (JStr (toBase64Url bs)) n"
  using fromBase64Url_toBase64Url [of bs] toBase64Url_not_Nil [of bs] toBase64Url_chars [of _ bs]
  by (auto simp: isBase64UrlBytes_def BASE64URL_def list_all_iff)

section \<open>Password hashes\<close>

lemma xor_zero_iff: "xor x y = 0 \<longleftrightarrow> x = (y :: 8 word)"
  by (auto simp: bit_eq_iff bit_xor_iff)

lemma difference_0: "length l = length r \<Longrightarrow> difference l r = 0 \<longleftrightarrow> l = r"
  by (induction l r rule: list_induct2) (simp_all add: or_eq_0_iff xor_zero_iff)

text \<open>The accumulated comparison is equality of the digests.\<close>

lemma timingSafeEqual_eq:
  "length l = 32 \<Longrightarrow> length r = 32 \<Longrightarrow> timingSafeEqual l r = Inr (l = r)"
  by (simp add: timingSafeEqual_def difference_0)

lemma nat_string_iterations: "nat_string PASSWORD_ITERATIONS = ''310000''"
  by (simp add: PASSWORD_ITERATIONS_def nat_string.simps digit_char_def) code_simp

lemma parse_created_hash:
  assumes "createAdminPasswordHash pl password salt = Inr h" "length (pl_pbkdf2 pl password salt) = 32"
  shows "parseAdminPasswordHash h = Inr (salt, pl_pbkdf2 pl password salt)"
proof -
  let ?d = "pl_pbkdf2 pl password salt"
  have s: "length salt = 16" "h = ''pbkdf2-sha256$'' @ ''310000'' @ ''$'' @ toBase64Url salt @ ''$'' @ toBase64Url ?d"
    using assms(1) by (auto simp: createAdminPasswordHash_def nat_string_iterations split: if_splits)
  have "split_on CHR ''$'' h = [''pbkdf2-sha256'', ''310000'', toBase64Url salt, toBase64Url ?d]"
    using toBase64Url_free(2) [of salt] toBase64Url_free(2) [of ?d]
    by (simp add: s split_on_append split_on_free)
  moreover have "fromBase64Url (toBase64Url salt) = Some salt" "fromBase64Url (toBase64Url ?d) = Some ?d"
    using s(1) assms(2) by (auto intro!: fromBase64Url_toBase64Url)
  ultimately show ?thesis using s(1) assms(2) by (simp add: parseAdminPasswordHash_def nat_string_iterations)
qed

section \<open>Sessions\<close>

lemma exactObject_session: "exactObject (session_value s) SESSION_KEYS"
  by (simp add: session_value_def SESSION_KEYS_def)

lemma session_fields [simp]:
  "prop_of ''version'' (session_value s) = JInt 1" "prop_of ''purpose'' (session_value s) = JStr ''hyeboard-admin''"
  "prop_of ''actor'' (session_value s) = actor_value (se_actor s)"
  "prop_of ''csrfToken'' (session_value s) = JStr (se_csrf s)"
  "prop_of ''issuedAt'' (session_value s) = JStr (se_issued s)"
  "prop_of ''expiresAt'' (session_value s) = JStr (se_expires s)"
  by (simp_all add: session_value_def)

lemma createAdminSession_Inr:
  assumes "createAdminSession actor ttl now random = Inr s"
  shows "\<exists>n. ttl = Whole n \<and> 0 < n \<and> validActor (actor_value actor) \<and> - max_time \<le> now \<and> now \<le> max_time
    \<and> - max_time \<le> now + n * 1000 \<and> now + n * 1000 \<le> max_time
    \<and> s = \<lparr>se_actor = actor, se_csrf = toBase64Url random, se_issued = toISOString now,
            se_expires = toISOString (now + n * 1000)\<rparr>"
  using assms by (auto simp: createAdminSession_def sbind_Inr_iff iso_def split: js_number.splits if_splits)

text \<open>A created session passes its check exactly while it lasts.\<close>

lemma assert_created:
  assumes "createAdminSession actor (Whole n) now random = Inr s" "length random = 32"
  shows "assertAdminSession (session_value s) (Some t) \<longleftrightarrow> now \<le> t \<and> t < now + n * 1000"
    "canonicalTime (se_issued s) = Some now" "0 < n"
  using createAdminSession_Inr [OF assms(1)] isBase64UrlBytes_made [OF assms(2)]
  by (auto simp: assertAdminSession_def exactObject_session canonicalTime_toISOString)

definition envelope_parts :: "platform \<Rightarrow> string \<Rightarrow> string \<Rightarrow> bytes \<Rightarrow> jval \<Rightarrow> string" where
  "envelope_parts pl secret label iv v = toBase64Url iv @ ''.'' @ toBase64Url (pl_seal pl secret label iv v)"

text \<open>
  The documented behaviour of authenticated encryption this relies on: it opens what was sealed
  under the same secret, purpose and initialisation vector, and a ciphertext carries a tag of 16
  bytes beside the text.
\<close>

definition opens :: "platform \<Rightarrow> string \<Rightarrow> string \<Rightarrow> bytes \<Rightarrow> jval \<Rightarrow> bool" where
  "opens pl secret label iv v \<longleftrightarrow>
     pl_open pl secret label iv (pl_seal pl secret label iv v) = Some v \<and> 17 \<le> length (pl_seal pl secret label iv v)"

lemma decrypt_parts:
  assumes "opens pl secret label iv v" "length iv = 12" "32 \<le> length secret"
  shows "decryptEnvelope pl (envelope_parts pl secret label iv v) secret label = Inr v"
proof -
  let ?e = "pl_seal pl secret label iv v"
  have "split_on CHR ''.'' (envelope_parts pl secret label iv v) = [toBase64Url iv, toBase64Url ?e]"
    using toBase64Url_free(1) [of iv] toBase64Url_free(1) [of ?e]
    by (simp add: envelope_parts_def split_on_append split_on_free)
  moreover have "fromBase64Url (toBase64Url iv) = Some iv" "fromBase64Url (toBase64Url ?e) = Some ?e"
    using assms by (auto simp: opens_def intro!: fromBase64Url_toBase64Url)
  ultimately show ?thesis using assms by (simp add: decryptEnvelope_def opens_def)
qed

lemma readCookie_single:
  assumes "rq_header rq ''cookie'' = Some (ADMIN_COOKIE @ ''='' @ token)" "token \<noteq> []"
    "CHR '';'' \<notin> set token" "\<not> js_space (last token)"
  shows "readCookie rq ADMIN_COOKIE = Some token"
proof -
  let ?h = "ADMIN_COOKIE @ ''='' @ token"
  have "CHR '';'' \<notin> set ?h" using assms(3) by (simp add: ADMIN_COOKIE_def)
  then have "split_on CHR '';'' ?h = [?h]" by (rule split_on_free)
  moreover have "js_trim ?h = ?h"
    using assms(2,4) by (intro js_trim_id) (simp_all add: ADMIN_COOKIE_def js_space_def)
  moreover have "starts_with (ADMIN_COOKIE @ ''='') ?h" by (simp add: starts_with_def)
  ultimately show ?thesis using assms(1,2) by (simp add: readCookie_def Let_def)
qed

lemma parts_token:
  assumes "17 \<le> length (pl_seal pl secret label iv v)"
  shows "envelope_parts pl secret label iv v \<noteq> []" "CHR '';'' \<notin> set (envelope_parts pl secret label iv v)"
    "\<not> js_space (last (envelope_parts pl secret label iv v))"
proof -
  let ?e = "pl_seal pl secret label iv v"
  have "toBase64Url ?e \<noteq> []" using assms by (intro toBase64Url_not_Nil) auto
  then have "last (envelope_parts pl secret label iv v) \<in> set (toBase64Url ?e)"
    by (simp add: envelope_parts_def)
  then show "\<not> js_space (last (envelope_parts pl secret label iv v))" by (rule toBase64Url_no_space)
qed (use toBase64Url_free(3) in \<open>auto simp: envelope_parts_def\<close>)

text \<open>A session created at \<open>now\<close> for \<open>n\<close> seconds encrypts to a token; a request that presents it
  in the administrator cookie, without an \<open>Authorization\<close> header, is authenticated as exactly that
  session from \<open>now\<close> on and before \<open>now + 1000 n\<close>, and at no other time; and with the session's CSRF
  token, the request's own origin and a JSON body it may change state.\<close>

theorem admin_session_roundtrip:
  assumes "createAdminSession actor (Whole n) now random = Inr s" "length random = 32" "length iv = 12"
    and "32 \<le> length secret" "opens pl secret SESSION_LABEL iv (session_value s)"
  shows "\<exists>token. encryptAdminSession pl s secret iv = Inr token \<and>
    (\<forall>rq t. rq_header rq ''authorization'' = None \<and> rq_header rq ''cookie'' = Some (ADMIN_COOKIE @ ''='' @ token) \<longrightarrow>
       authenticateAdminRequest pl rq secret t =
         (if now \<le> t \<and> t < now + n * 1000 then Inr (session_value s) else Inl InvalidSession) \<and>
       (rq_header rq ''origin'' = Some (rq_origin rq) \<and> rq_header rq ''x-hyeboard-csrf'' = Some (se_csrf s) \<and>
        rq_header rq ''content-type'' = Some ''application/json'' \<longrightarrow>
          assertAdminMutation rq (session_value s) None = Inr ()))"
proof -
  let ?token = "envelope_parts pl secret SESSION_LABEL iv (session_value s)"
  note made = assert_created [OF assms(1,2)]
  have "assertAdminSession (session_value s) (canonicalTime (se_issued s))" using made by simp
  then have "encryptAdminSession pl s secret iv = Inr ?token"
    using assms(4) by (simp add: encryptAdminSession_def encryptEnvelope_def assertSecret_def envelope_parts_def)
  moreover have "authenticateAdminRequest pl rq secret t =
      (if now \<le> t \<and> t < now + n * 1000 then Inr (session_value s) else Inl InvalidSession)"
    if "rq_header rq ''authorization'' = None" "rq_header rq ''cookie'' = Some (ADMIN_COOKIE @ ''='' @ ?token)" for rq t
    using readCookie_single [OF that(2) parts_token] decrypt_parts [OF assms(5,3,4)] that(1) assms(5) made(1) [of t]
    by (simp add: authenticateAdminRequest_def decryptAdminSession_def opens_def)
  moreover have "assertAdminMutation rq (session_value s) None = Inr ()"
    if "rq_header rq ''authorization'' = None" "rq_header rq ''origin'' = Some (rq_origin rq)"
      "rq_header rq ''x-hyeboard-csrf'' = Some (se_csrf s)" "rq_header rq ''content-type'' = Some ''application/json''" for rq
  proof -
    have "js_lower (js_trim (hd (split_on CHR '';'' ''application/json''))) = ''application/json''" by code_simp
    with that show ?thesis by (simp add: assertAdminMutation_def)
  qed
  ultimately show ?thesis by blast
qed

definition sample_secret :: string where "sample_secret = replicate 32 CHR ''k''"

definition sample_actor :: admin_actor where
  "sample_actor = \<lparr>a_method = ''github'', a_subject = ''42'', a_label = Some ''octo''\<rparr>"

definition sample_session :: admin_session where
  "sample_session = (case createAdminSession sample_actor (Whole 3600) 1709210096789 (replicate 32 7) of
     Inr s \<Rightarrow> s | Inl e \<Rightarrow> undefined)"

definition sample_platform :: platform where
  "sample_platform = \<lparr>pl_pbkdf2 = (\<lambda>p s. replicate 32 1), pl_seal = (\<lambda>k l iv v. replicate 20 5),
     pl_open = (\<lambda>k l iv c. Some (session_value sample_session))\<rparr>"

definition sample_request :: "string \<Rightarrow> admin_request" where
  "sample_request token = \<lparr>rq_header = [''cookie'' \<mapsto> ADMIN_COOKIE @ ''='' @ token], rq_origin = ''https://h'', rq_https = True\<rparr>"

lemma admin_session_roundtrip_witness:
  "\<exists>token. encryptAdminSession sample_platform sample_session sample_secret (replicate 12 3) = Inr token
    \<and> authenticateAdminRequest sample_platform (sample_request token) sample_secret 1709210096790 = Inr (session_value sample_session)
    \<and> authenticateAdminRequest sample_platform (sample_request token) sample_secret 1709213696789 = Inl InvalidSession"
proof -
  have c: "createAdminSession sample_actor (Whole 3600) 1709210096789 (replicate 32 7) = Inr sample_session"
    by code_simp
  have o: "opens sample_platform sample_secret SESSION_LABEL (replicate 12 3) (session_value sample_session)"
    by (simp add: opens_def sample_platform_def)
  have "32 \<le> length sample_secret" by (simp add: sample_secret_def)
  from admin_session_roundtrip [OF c _ _ this o] obtain token where
    t: "encryptAdminSession sample_platform sample_session sample_secret (replicate 12 3) = Inr token"
    "\<And>rq t. rq_header rq ''authorization'' = None \<Longrightarrow> rq_header rq ''cookie'' = Some (ADMIN_COOKIE @ ''='' @ token) \<Longrightarrow>
       authenticateAdminRequest sample_platform rq sample_secret t =
         (if 1709210096789 \<le> t \<and> t < 1709210096789 + 3600 * 1000 then Inr (session_value sample_session) else Inl InvalidSession)"
    by fastforce
  show ?thesis using t(1) t(2) [of "sample_request token"] by (simp add: sample_request_def)
qed

end
