(* ===== verification/AdminRoutesProps.thy ===== *)
theory AdminRoutesProps
  imports AdminHandlers AdminProps
begin

text \<open>
  Who may change the policy and who gets a session, over every administrator route.
\<close>

section \<open>Changes\<close>

text \<open>What a request must carry to change state: the facts behind \<open>assertAdminMutation\<close>.\<close>

lemma assertAdminMutation_iff:
  "assertAdminMutation rq s allowed = Inr () \<longleftrightarrow>
     rq_header rq ''authorization'' = None
   \<and> (\<exists>origin. rq_header rq ''origin'' = Some origin \<and> (origin = rq_origin rq \<or> allowed = Some origin))
   \<and> (\<exists>t. rq_header rq ''x-hyeboard-csrf'' = Some t \<and> prop_of ''csrfToken'' s = JStr t)
   \<and> (\<exists>c. rq_header rq ''content-type'' = Some c \<and> js_lower (js_trim (hd (split_on CHR '';'' c))) = ''application/json'')"
  unfolding assertAdminMutation_def by (auto split: option.splits if_splits)

definition authorised_entry :: "admin_env \<Rightarrow> admin_call \<Rightarrow> admin_world \<Rightarrow> admin_world \<Rightarrow> audit_entry \<Rightarrow> bool" where
  "authorised_entry env call w w' e \<longleftrightarrow>
     (\<exists>s. authenticateAdminRequest (ae_platform env) (cl_request call) (ac_secret (ae_config env)) (cl_now call) = Inr s
        \<and> assertAdminMutation (cl_request call) s (ac_public_origin (ae_config env)) = Inr ()
        \<and> actor_of (prop_of ''actor'' s) = Some (e_actor e))
   \<and> e_publishedAt e = cl_now call
   \<and> history_rows (aw_tables w') = history_rows (aw_tables w) @ [row_of e]"

lemma after_publication_tables:
  "after_publication w n (x, db) = (r, w') \<Longrightarrow> aw_tables w' = db \<and> (\<forall>e. x = Inr e \<longrightarrow> r = Inr (EntryReply e))"
  by (auto simp: after_publication_def split: sum.splits)

lemma publish_authorised:
  assumes "policy_publish env call n w = (r, w')" "aw_tables w' \<noteq> aw_tables w"
  shows "\<exists>e. r = Inr (EntryReply e) \<and> authorised_entry env call w w' e"
proof -
  obtain s body i where g: "guarded env call = Inr (s, body)" "parseMutation publishFeaturePolicySchema body = Inr i"
    using assms by (auto simp: policy_publish_def sbind_Inr_iff split: sum.splits prod.splits option.splits)
  obtain base policy reason where i: "i = (base, policy, reason)" by (cases i)
  obtain actor where a: "actor_of (prop_of ''actor'' s) = Some actor"
    using assms g by (auto simp: policy_publish_def i split: option.splits sum.splits)
  obtain x db where p: "runtime_publish (ae_known env) (aw_tables w) (cl_now call)
      \<lparr>pb_base = base, pb_policy = policy, pb_reason = reason, pb_actor = actor\<rparr> = (x, db)" by fastforce
  have ap: "after_publication w n (x, db) = (r, w')" using assms(1) g a p by (simp add: policy_publish_def i)
  from after_publication_tables [OF ap] assms(2) have "db \<noteq> aw_tables w" by simp
  from runtime_publish_effect [OF p this] obtain e where
    "x = Inr e" "e_actor e = actor" "e_publishedAt e = cl_now call" "history_rows db = history_rows (aw_tables w) @ [row_of e]"
    by auto
  with after_publication_tables [OF ap] guarded_Inr [OF g(1)] a show ?thesis
    by (auto simp: authorised_entry_def)
qed

lemma rollback_authorised:
  assumes "policy_rollback env call n w = (r, w')" "aw_tables w' \<noteq> aw_tables w"
  shows "\<exists>e. r = Inr (EntryReply e) \<and> authorised_entry env call w w' e"
proof -
  obtain s body i where g: "guarded env call = Inr (s, body)" "parseMutation rollbackFeaturePolicySchema body = Inr i"
    using assms by (auto simp: policy_rollback_def sbind_Inr_iff split: sum.splits prod.splits option.splits)
  obtain base target reason where i: "i = (base, target, reason)" by (cases i)
  obtain actor where a: "actor_of (prop_of ''actor'' s) = Some actor"
    using assms g by (auto simp: policy_rollback_def i split: option.splits)
  obtain x db where p: "rollback (ae_known env) (aw_tables w) (cl_now call)
      \<lparr>rb_base = base, rb_target = target, rb_reason = reason, rb_actor = actor\<rparr> = (x, db)" by fastforce
  have ap: "after_publication w n (x, db) = (r, w')" using assms(1) g a p by (simp add: policy_rollback_def i)
  from after_publication_tables [OF ap] assms(2) have "db \<noteq> aw_tables w" by simp
  from rollback_effect [OF p this] obtain e where
    "x = Inr e" "e_actor e = actor" "e_publishedAt e = cl_now call" "history_rows db = history_rows (aw_tables w) @ [row_of e]"
    by auto
  with after_publication_tables [OF ap] guarded_Inr [OF g(1)] a show ?thesis
    by (auto simp: authorised_entry_def)
qed

lemma other_routes_tables:
  assumes "admin_handle env w call route = (r, w')"
  shows "aw_tables w' = aw_tables w \<or> (\<exists>n. route = PolicyPublish n \<or> route = PolicyRollback n)"
  using assms by (cases route) (auto simp: password_login_def policy_view_def Let_def
      split: option.splits sum.splits prod.splits if_splits)

text \<open>C17. Whatever the route and the request, the policy tables change only by appending one audit
  entry, and only for a request that is authenticated by an unexpired administrator cookie,
  carries no \<open>Authorization\<close> header, comes from the deployment's own origin, repeats the
  session's CSRF token and declares a JSON body; the entry names the actor of that session and
  the time of the request, and is the reply. Login windows change only on password sign-in.\<close>

theorem admin_changes_authorised:
  assumes "admin_handle env w call route = (r, w')"
  shows "(aw_tables w' \<noteq> aw_tables w \<longrightarrow>
      (\<exists>e s origin t. r = Inr (EntryReply e)
        \<and> authenticateAdminRequest (ae_platform env) (cl_request call) (ac_secret (ae_config env)) (cl_now call) = Inr s
        \<and> rq_header (cl_request call) ''authorization'' = None
        \<and> rq_header (cl_request call) ''origin'' = Some origin
        \<and> (origin = rq_origin (cl_request call) \<or> ac_public_origin (ae_config env) = Some origin)
        \<and> rq_header (cl_request call) ''x-hyeboard-csrf'' = Some t \<and> prop_of ''csrfToken'' s = JStr t
        \<and> actor_of (prop_of ''actor'' s) = Some (e_actor e) \<and> e_publishedAt e = cl_now call
        \<and> history_rows (aw_tables w') = history_rows (aw_tables w) @ [row_of e]))
    \<and> (aw_logins w' \<noteq> aw_logins w \<longrightarrow> route = PasswordLogin)"
proof (intro conjI impI)
  assume "aw_tables w' \<noteq> aw_tables w"
  with other_routes_tables [OF assms] obtain n where "route = PolicyPublish n \<or> route = PolicyRollback n" by blast
  with assms \<open>aw_tables w' \<noteq> aw_tables w\<close> obtain e where "r = Inr (EntryReply e)" "authorised_entry env call w w' e"
    using publish_authorised [of env call n w r w'] rollback_authorised [of env call n w r w'] by auto
  then show "\<exists>e s origin t. r = Inr (EntryReply e)
        \<and> authenticateAdminRequest (ae_platform env) (cl_request call) (ac_secret (ae_config env)) (cl_now call) = Inr s
        \<and> rq_header (cl_request call) ''authorization'' = None
        \<and> rq_header (cl_request call) ''origin'' = Some origin
        \<and> (origin = rq_origin (cl_request call) \<or> ac_public_origin (ae_config env) = Some origin)
        \<and> rq_header (cl_request call) ''x-hyeboard-csrf'' = Some t \<and> prop_of ''csrfToken'' s = JStr t
        \<and> actor_of (prop_of ''actor'' s) = Some (e_actor e) \<and> e_publishedAt e = cl_now call
        \<and> history_rows (aw_tables w') = history_rows (aw_tables w) @ [row_of e]"
    unfolding authorised_entry_def assertAdminMutation_iff by blast
next
  assume "aw_logins w' \<noteq> aw_logins w"
  then show "route = PasswordLogin" using assms
    by (cases route) (auto simp: policy_view_def policy_publish_def policy_rollback_def after_publication_def Let_def
        split: option.splits sum.splits prod.splits)
qed

definition sample_config :: admin_config where
  "sample_config = \<lparr>ac_secret = sample_secret, ac_ttl = 3600, ac_public_origin = Some ''https://h'', ac_database = None,
     ac_password_hash = Some ''pbkdf2-sha256$310000$AAAAAAAAAAAAAAAAAAAAAA$AQEBAQEBAQEBAQEBAQEBAQEBAQEBAQEBAQEBAQEBAQE'',
     ac_github = Some \<lparr>oc_client_id = ''id'', oc_client_secret = ''cs'', oc_allowed_ids = [''42'']\<rparr>,
     ac_discord = None, ac_methods = [PasswordMethod, GithubMethod]\<rparr>"

definition sample_env :: "platform \<Rightarrow> admin_env" where
  "sample_env pl = \<lparr>ae_config = sample_config, ae_platform = pl, ae_sha256 = (\<lambda>s. replicate 32 9),
     ae_hmac_hex = (\<lambda>k s. if s = ''global'' then replicate 64 CHR ''a'' else replicate 64 CHR ''b''),
     ae_origin_of = Some, ae_https_of = (\<lambda>s. True), ae_ipv6_host = (\<lambda>s. None), ae_native = [], ae_known = [],
     ae_hard_limits = [], ae_issue_path = (\<lambda>v. [])\<rparr>"

definition sample_world :: admin_world where
  "sample_world = \<lparr>aw_tables = empty_policy_tables, aw_logins = [], aw_runtime = fresh_runtime\<rparr>"

definition sample_scope :: jval where
  "sample_scope = JObj [(''capabilities'', JObj []), (''limits'', JObj [])]"

definition sample_publish :: admin_call where
  "sample_publish = \<lparr>cl_request = \<lparr>rq_header = [''cookie'' \<mapsto> ADMIN_COOKIE @ ''=AwMDAwMDAwMDAwMD.BQUFBQUFBQUFBQUFBQUFBQUFBQU'',
       ''origin'' \<mapsto> ''https://h'', ''x-hyeboard-csrf'' \<mapsto> se_csrf sample_session, ''content-type'' \<mapsto> ''application/json''],
       rq_origin = ''https://h'', rq_https = True\<rparr>,
     cl_now = 1709210096790, cl_random = (\<lambda>n. replicate n 7), cl_client_ip = None,
     cl_body = Some (JObj [(''baseRevision'', JInt 0), (''policy'', JObj [(''global'', sample_scope), (''universities'', JObj [])]),
       (''reason'', JStr ''first'')]), cl_student = False, cl_stream = None\<rparr>"

lemma admin_changes_authorised_witness:
  "\<exists>e s. fst (admin_handle (sample_env sample_platform) sample_world sample_publish (PolicyPublish True)) = Inr (EntryReply e)
     \<and> authenticateAdminRequest sample_platform (cl_request sample_publish) sample_secret 1709210096790 = Inr s
     \<and> actor_of (prop_of ''actor'' s) = Some (e_actor e) \<and> e_publishedAt e = 1709210096790"
proof -
  obtain r w' where h: "admin_handle (sample_env sample_platform) sample_world sample_publish (PolicyPublish True) = (r, w')"
    by fastforce
  have "length (history_rows (aw_tables (snd (admin_handle (sample_env sample_platform) sample_world sample_publish (PolicyPublish True))))) = 1"
    by code_simp
  then have "length (history_rows (aw_tables w')) = 1" unfolding h by simp
  moreover have "length (history_rows (aw_tables sample_world)) = 0" by code_simp
  ultimately have "aw_tables w' \<noteq> aw_tables sample_world" by auto
  moreover have e: "ae_platform (sample_env sample_platform) = sample_platform"
    "ac_secret (ae_config (sample_env sample_platform)) = sample_secret" "cl_now sample_publish = 1709210096790"
    by (simp_all add: sample_env_def sample_config_def sample_publish_def)
  ultimately show ?thesis
    using admin_changes_authorised [OF h] unfolding h fst_conv e by blast
qed

section \<open>Sign-in\<close>

lemma decryptOAuthState_Inr:
  assumes "decryptOAuthState pl token secret p expected now = Inr v"
  shows "prop_of ''state'' v = JStr expected" "validReturnPath (prop_of ''returnPath'' v)"
  using assms by (auto simp: decryptOAuthState_def assertOAuthState_def split: sum.splits option.splits if_splits)

lemma oauth_callback_redirect:
  assumes "oauth_callback env call provider code st ta ua = Inr (RedirectTo loc q cs)"
  shows "\<exists>p cookie_value origin oc. configuredProvider (ae_config env) provider = Inr p
    \<and> readCookie (cl_request call) OAUTH_COOKIE = Some cookie_value \<and> ac_public_origin (ae_config env) = Some origin
    \<and> oauth_settings (ae_config env) p = Some oc
    \<and> callback_session env call p oc origin cookie_value code st ta ua = Inr (RedirectTo loc q cs)"
proof -
  obtain p where p: "configuredProvider (ae_config env) provider = Inr p"
    using assms by (auto simp: oauth_callback_def Let_def sbind_Inr_iff)
  obtain cv where c: "readCookie (cl_request call) OAUTH_COOKIE = Some cv"
    using assms p by (cases "readCookie (cl_request call) OAUTH_COOKIE") (simp_all add: oauth_callback_def Let_def)
  obtain origin oc where o: "ac_public_origin (ae_config env) = Some origin" "oauth_settings (ae_config env) p = Some oc"
    using assms p c by (cases "ac_public_origin (ae_config env)"; cases "oauth_settings (ae_config env) p")
      (simp_all add: oauth_callback_def Let_def)
  have "callback_session env call p oc origin cv code st ta ua = Inr (RedirectTo loc q cs)"
    using assms p c o by (cases "callback_session env call p oc origin cv code st ta ua")
      (simp_all add: oauth_callback_def Let_def)
  with p c o show ?thesis by blast
qed

lemma exchange_Inr:
  assumes "exchangeOAuthCode p oc code verifier ta ua = Inr actor"
  shows "\<exists>token user i. ua token = Some user \<and> oauth_id user = JStr i \<and> i \<in> set (oc_allowed_ids oc) \<and> a_subject actor = i
    \<and> a_method actor = provider_name p"
  using assms by (auto simp: exchangeOAuthCode_def split: if_splits option.splits jval.splits) blast

text \<open>A password sign-in succeeds only when the password's digest is the configured one and both
  limiters, at most 100 attempts for everybody and then at most 5 for the client's address in 15
  minutes, have granted the attempt. An OAuth callback opens a session only for a configured
  provider, with a state cookie that decrypts, is unexpired and carries the state of the request,
  and for an account on the allow list; and it then redirects to \<open>/admin\<close> or below it on the
  deployment's own origin, never elsewhere.\<close>

theorem sign_in_authorised:
  assumes "admin_handle env w call route = (r, w')"
  shows "(\<forall>a c k. route = PasswordLogin \<and> r = Inr (SignedIn a c k) \<longrightarrow>
      (\<exists>hash password rows. ac_password_hash (ae_config env) = Some hash \<and> password_of (cl_body call) = Some password
        \<and> verifyAdminPassword (ae_platform env) password hash = Inr True
        \<and> consume_login (aw_logins w) (cl_now call) (ae_hmac_hex env (ac_secret (ae_config env)) ''global'') GLOBAL_LOGIN_LIMIT
            = (Inr (), rows)
        \<and> consume_login rows (cl_now call) (ae_hmac_hex env (ac_secret (ae_config env))
            (canonicalClientIp (ae_ipv6_host env) (cl_client_ip call))) LOGIN_LIMIT = (Inr (), aw_logins w')))
    \<and> (\<forall>provider code st ta ua loc q cs. route = OAuthCallback provider code st ta ua \<and> r = Inr (RedirectTo loc q cs) \<longrightarrow>
      (\<exists>p oc v token user i origin path cookie_value.
          configuredProvider (ae_config env) provider = Inr p \<and> oauth_settings (ae_config env) p = Some oc
        \<and> readCookie (cl_request call) OAUTH_COOKIE = Some cookie_value
        \<and> decryptOAuthState (ae_platform env) cookie_value (ac_secret (ae_config env)) p st (cl_now call) = Inr v
        \<and> prop_of ''state'' v = JStr st
        \<and> ua token = Some user \<and> oauth_id user = JStr i \<and> i \<in> set (oc_allowed_ids oc)
        \<and> ac_public_origin (ae_config env) = Some origin \<and> loc = origin @ path
        \<and> (path = ''/admin'' \<or> starts_with ''/admin/'' path) \<and> \<not> has_char CHR 0x5C path))"
proof (intro conjI allI impI)
  fix a c k assume "route = PasswordLogin \<and> r = Inr (SignedIn a c k)"
  then have "password_login env call w = (Inr (SignedIn a c k), w')" using assms by simp
  then show "\<exists>hash password rows. ac_password_hash (ae_config env) = Some hash \<and> password_of (cl_body call) = Some password
        \<and> verifyAdminPassword (ae_platform env) password hash = Inr True
        \<and> consume_login (aw_logins w) (cl_now call) (ae_hmac_hex env (ac_secret (ae_config env)) ''global'') GLOBAL_LOGIN_LIMIT
            = (Inr (), rows)
        \<and> consume_login rows (cl_now call) (ae_hmac_hex env (ac_secret (ae_config env))
            (canonicalClientIp (ae_ipv6_host env) (cl_client_ip call))) LOGIN_LIMIT = (Inr (), aw_logins w')"
    unfolding password_login_def checkLoginLimit_def Let_def
    by (auto split: option.splits sum.splits prod.splits if_splits bool.splits)
next
  fix provider code st ta ua loc q cs
  assume "route = OAuthCallback provider code st ta ua \<and> r = Inr (RedirectTo loc q cs)"
  then have o: "oauth_callback env call provider code st ta ua = Inr (RedirectTo loc q cs)" using assms by simp
  then obtain p cookie_value origin oc where p: "configuredProvider (ae_config env) provider = Inr p"
    "readCookie (cl_request call) OAUTH_COOKIE = Some cookie_value" "ac_public_origin (ae_config env) = Some origin"
    "oauth_settings (ae_config env) p = Some oc"
    "callback_session env call p oc origin cookie_value code st ta ua = Inr (RedirectTo loc q cs)"
    by (blast dest: oauth_callback_redirect)
  then obtain v actor where v: "decryptOAuthState (ae_platform env) cookie_value (ac_secret (ae_config env)) p st (cl_now call) = Inr v"
    "exchangeOAuthCode p oc code (case prop_of ''verifier'' v of JStr s \<Rightarrow> s | _ \<Rightarrow> []) ta ua = Inr actor"
    "loc = origin @ (case prop_of ''returnPath'' v of JStr r \<Rightarrow> r | _ \<Rightarrow> [])"
    by (auto simp: callback_session_def sbind_Inr_iff)
  obtain path where path: "prop_of ''returnPath'' v = JStr path" "path = ''/admin'' \<or> starts_with ''/admin/'' path"
    "\<not> has_char CHR 0x5C path"
    using decryptOAuthState_Inr(2) [OF v(1)] by (cases "prop_of ''returnPath'' v") auto
  from exchange_Inr [OF v(2)] decryptOAuthState_Inr(1) [OF v(1)] p v path
  show "\<exists>p oc v token user i origin path cookie_value.
          configuredProvider (ae_config env) provider = Inr p \<and> oauth_settings (ae_config env) p = Some oc
        \<and> readCookie (cl_request call) OAUTH_COOKIE = Some cookie_value
        \<and> decryptOAuthState (ae_platform env) cookie_value (ac_secret (ae_config env)) p st (cl_now call) = Inr v
        \<and> prop_of ''state'' v = JStr st
        \<and> ua token = Some user \<and> oauth_id user = JStr i \<and> i \<in> set (oc_allowed_ids oc)
        \<and> ac_public_origin (ae_config env) = Some origin \<and> loc = origin @ path
        \<and> (path = ''/admin'' \<or> starts_with ''/admin/'' path) \<and> \<not> has_char CHR 0x5C path"
    by (simp only: jval.case) blast
qed

definition sample_login :: admin_call where
  "sample_login = sample_publish\<lparr>cl_body := Some (JObj [(''password'', JStr ''secret'')]), cl_now := 1709210096789\<rparr>"

lemma sign_in_authorised_witness:
  "\<exists>a c k. fst (admin_handle (sample_env sample_platform) sample_world sample_login PasswordLogin) = Inr (SignedIn a c k)
     \<and> verifyAdminPassword sample_platform ''secret'' (the (ac_password_hash sample_config)) = Inr True"
proof -
  obtain r w' where h: "admin_handle (sample_env sample_platform) sample_world sample_login PasswordLogin = (r, w')"
    by fastforce
  have "(case fst (admin_handle (sample_env sample_platform) sample_world sample_login PasswordLogin) of
      Inr (SignedIn a c k) \<Rightarrow> True | _ \<Rightarrow> False)" by code_simp
  then obtain a c k where r: "r = Inr (SignedIn a c k)" unfolding h by (auto split: sum.splits admin_reply.splits)
  have b: "password_of (cl_body sample_login) = Some ''secret''" by code_simp
  have e: "ae_platform (sample_env sample_platform) = sample_platform" "ae_config (sample_env sample_platform) = sample_config"
    by (simp_all add: sample_env_def)
  from sign_in_authorised [OF h] r b show ?thesis unfolding h fst_conv e by fastforce
qed

end
