(* ===== verification/VnuConfig.thy ===== *)
theory VnuConfig
  imports JsText ProbeBudget
begin

text \<open>
  The runtime settings of the VNU lookups, \<open>apps/worker/src/vnu/vnu-runtime-config.ts\<close>: every
  setting is an optional text; what cannot be used is replaced by a fallback, and the
  cross-student grade details are switched off as a whole by any of their settings. The
  warning callback is the list of its calls.
\<close>

section \<open>Settings\<close>

datatype vnu_setting =
    CodeLookupConcurrency | BulkMaxTargets | DirectChunkMaxTargets | BulkTargetConcurrency
  | RequestTimeoutMs | DetailMaxTargets | DetailMaxRows | DetailConcurrency | DetailBudget
  | DetailWindowSeconds | DetailPermitTtlSeconds | DetailExportMode

type_synonym vnu_input = "vnu_setting \<Rightarrow> string option"

record vnu_config =
  vc_codeLookupConcurrency :: int
  vc_bulkMaxTargets :: int
  vc_directChunkMaxTargets :: int
  vc_bulkTargetConcurrency :: int
  vc_requestTimeoutMs :: int
  vc_detailMaxTargets :: int
  vc_detailMaxRows :: int
  vc_detailConcurrency :: int
  vc_detailBudget :: int
  vc_detailWindowSeconds :: int
  vc_detailPermitTtlSeconds :: int
  vc_detailExportSelected :: bool
  vc_detailEnabled :: bool

record detail_defaults =
  dd_maxTargets :: int
  dd_maxRows :: int
  dd_concurrency :: int
  dd_budget :: int
  dd_windowSeconds :: int
  dd_permitTtlSeconds :: int

definition CROSS_DETAIL_DEFAULTS :: detail_defaults where
  "CROSS_DETAIL_DEFAULTS = \<lparr>dd_maxTargets = 50, dd_maxRows = 200, dd_concurrency = 6,
     dd_budget = 300, dd_windowSeconds = 600, dd_permitTtlSeconds = 1200\<rparr>"

section \<open>Parsing\<close>

definition parseSafeInteger :: "string option \<Rightarrow> int option" where
  "parseSafeInteger v = (case v of None \<Rightarrow> None | Some s \<Rightarrow> safe_decimal s)"

text \<open>\<open>value === undefined ? fallback : parseSafeInteger(value)\<close>\<close>

definition setting_or :: "int \<Rightarrow> string option \<Rightarrow> int option" where
  "setting_or d v = (if v = None then Some d else parseSafeInteger v)"

definition parseCrossDetailBound :: "string option \<Rightarrow> int \<Rightarrow> int" where
  "parseCrossDetailBound v fallback =
    (if v = None then fallback else case parseSafeInteger v of None \<Rightarrow> 0 | Some n \<Rightarrow> n)"

definition parseCrossDetailRanged :: "string option \<Rightarrow> int \<Rightarrow> int \<Rightarrow> int \<Rightarrow> int" where
  "parseCrossDetailRanged v fallback lo hi =
    (if v = None then fallback else case parseSafeInteger v of
       None \<Rightarrow> 0 | Some n \<Rightarrow> if lo \<le> n \<and> n \<le> hi then n else 0)"

text \<open>A parsed number in a range, or the fallback.\<close>

definition in_range_or :: "int \<Rightarrow> int \<Rightarrow> int \<Rightarrow> int option \<Rightarrow> int" where
  "in_range_or d lo hi p = (case p of None \<Rightarrow> d | Some n \<Rightarrow> if lo \<le> n \<and> n \<le> hi then n else d)"

definition effective_config :: "vnu_input \<Rightarrow> vnu_config" where
  "effective_config input =
    (let maxT = parseCrossDetailBound (input DetailMaxTargets) (dd_maxTargets CROSS_DETAIL_DEFAULTS);
         maxR = parseCrossDetailBound (input DetailMaxRows) (dd_maxRows CROSS_DETAIL_DEFAULTS);
         conc = parseCrossDetailRanged (input DetailConcurrency) (dd_concurrency CROSS_DETAIL_DEFAULTS) 1 16;
         budget = parseCrossDetailBound (input DetailBudget) (dd_budget CROSS_DETAIL_DEFAULTS);
         win = parseCrossDetailRanged (input DetailWindowSeconds) (dd_windowSeconds CROSS_DETAIL_DEFAULTS) 1 86400;
         ttl = parseCrossDetailRanged (input DetailPermitTtlSeconds) (dd_permitTtlSeconds CROSS_DETAIL_DEFAULTS) 1 1200;
         export = (input DetailExportMode = None \<or> input DetailExportMode = Some ''selected'')
     in \<lparr>vc_codeLookupConcurrency = (case setting_or 16 (input CodeLookupConcurrency) of
            None \<Rightarrow> 1 | Some n \<Rightarrow> if n > 0 then n else 1),
         vc_bulkMaxTargets = (case setting_or 500 (input BulkMaxTargets) of None \<Rightarrow> 0 | Some n \<Rightarrow> n),
         vc_directChunkMaxTargets = in_range_or 32 1 300 (setting_or 32 (input DirectChunkMaxTargets)),
         vc_bulkTargetConcurrency = in_range_or 3 1 3 (setting_or 3 (input BulkTargetConcurrency)),
         vc_requestTimeoutMs = in_range_or 60000 1 120000 (setting_or 60000 (input RequestTimeoutMs)),
         vc_detailMaxTargets = maxT,
         vc_detailMaxRows = maxR,
         vc_detailConcurrency = conc,
         vc_detailBudget = budget,
         vc_detailWindowSeconds = win,
         vc_detailPermitTtlSeconds = ttl,
         vc_detailExportSelected = export,
         vc_detailEnabled = (maxT > 0 \<and> maxR > 0 \<and> conc > 0 \<and> budget > 0 \<and> win > 0 \<and> ttl > 0 \<and> export)\<rparr>)"

text \<open>
  A warning is due when a given setting took the value of the fallback but does not spell it;
  for the cross-detail settings only when its text is no canonical integer.
\<close>

definition fallback_taken :: "string option \<Rightarrow> int \<Rightarrow> int \<Rightarrow> string \<Rightarrow> bool" where
  "fallback_taken v effective fallback spelled \<longleftrightarrow> v \<noteq> None \<and> effective = fallback \<and> v \<noteq> Some spelled"

definition malformed :: "string option \<Rightarrow> bool" where
  "malformed v \<longleftrightarrow> v \<noteq> None \<and> parseSafeInteger v = None"

definition config_warnings :: "vnu_input \<Rightarrow> (vnu_setting \<times> int) list" where
  "config_warnings input =
    (let cfg = effective_config input;
         warn = (\<lambda>(due, k, n). if due then [(k, n)] else [])
     in concat (map warn
       [(fallback_taken (input CodeLookupConcurrency) (vc_codeLookupConcurrency cfg) 1 ''1'', CodeLookupConcurrency, 1),
        (malformed (input BulkMaxTargets), BulkMaxTargets, 0),
        (fallback_taken (input DirectChunkMaxTargets) (vc_directChunkMaxTargets cfg) 32 ''32'', DirectChunkMaxTargets, 32),
        (fallback_taken (input BulkTargetConcurrency) (vc_bulkTargetConcurrency cfg) 3 ''3'', BulkTargetConcurrency, 3),
        (fallback_taken (input RequestTimeoutMs) (vc_requestTimeoutMs cfg) 60000 ''60000'', RequestTimeoutMs, 60000),
        (malformed (input DetailMaxTargets), DetailMaxTargets, 0),
        (malformed (input DetailMaxRows), DetailMaxRows, 0),
        (malformed (input DetailConcurrency), DetailConcurrency, 0),
        (malformed (input DetailBudget), DetailBudget, 0),
        (malformed (input DetailWindowSeconds), DetailWindowSeconds, 0),
        (malformed (input DetailPermitTtlSeconds), DetailPermitTtlSeconds, 0),
        (input DetailExportMode \<noteq> None \<and> \<not> vc_detailExportSelected cfg, DetailExportMode, 0)]))"

definition parseVnuRuntimeConfig :: "vnu_input \<Rightarrow> vnu_config \<times> (vnu_setting \<times> int) list" where
  "parseVnuRuntimeConfig input = (effective_config input, config_warnings input)"

text \<open>A setting of the configuration file becomes a text; \<open>String(n)\<close> of a safe number.\<close>

fun normalizeSelfHostedInteger :: "jval \<Rightarrow> string option" where
  "normalizeSelfHostedInteger JUndefined = None"
| "normalizeSelfHostedInteger (JStr s) = Some s"
| "normalizeSelfHostedInteger (JInt n) = Some (if safe_integer n \<and> 0 \<le> n then nat_string n else [])"
| "normalizeSelfHostedInteger _ = Some []"

section \<open>Well-formed settings\<close>

definition config_ok :: "vnu_config \<Rightarrow> bool" where
  "config_ok c \<longleftrightarrow>
     1 \<le> vc_codeLookupConcurrency c \<and> vc_codeLookupConcurrency c \<le> max_safe_integer
   \<and> 0 \<le> vc_bulkMaxTargets c \<and> vc_bulkMaxTargets c \<le> max_safe_integer
   \<and> 1 \<le> vc_directChunkMaxTargets c \<and> vc_directChunkMaxTargets c \<le> 300
   \<and> 1 \<le> vc_bulkTargetConcurrency c \<and> vc_bulkTargetConcurrency c \<le> 3
   \<and> 1 \<le> vc_requestTimeoutMs c \<and> vc_requestTimeoutMs c \<le> 120000"

definition detail_limits :: "vnu_config \<Rightarrow> cross_limits" where
  "detail_limits c = \<lparr>maxTargets = vc_detailMaxTargets c, maxRows = vc_detailMaxRows c,
     concurrency = vc_detailConcurrency c, cl_budget = vc_detailBudget c,
     cl_windowSeconds = vc_detailWindowSeconds c\<rparr>"

lemma parseSafeInteger_bounds: "parseSafeInteger v = Some n \<Longrightarrow> 0 \<le> n \<and> n \<le> max_safe_integer"
  unfolding parseSafeInteger_def by (auto split: option.splits dest: safe_decimal_bounds)

lemma setting_or_bounds:
  "setting_or d v = Some n \<Longrightarrow> 0 \<le> d \<Longrightarrow> d \<le> max_safe_integer \<Longrightarrow> 0 \<le> n \<and> n \<le> max_safe_integer"
  unfolding setting_or_def by (auto split: if_splits dest: parseSafeInteger_bounds)

lemma in_range_or_bounds: "lo \<le> d \<Longrightarrow> d \<le> hi \<Longrightarrow> lo \<le> in_range_or d lo hi p \<and> in_range_or d lo hi p \<le> hi"
  unfolding in_range_or_def by (auto split: option.splits)

lemma parseCrossDetailBound_bounds:
  "0 \<le> d \<Longrightarrow> d \<le> max_safe_integer \<Longrightarrow>
     0 \<le> parseCrossDetailBound v d \<and> parseCrossDetailBound v d \<le> max_safe_integer"
  unfolding parseCrossDetailBound_def by (auto split: option.splits dest: parseSafeInteger_bounds simp: max_safe_integer_def)

lemma parseCrossDetailRanged_bounds:
  "0 < lo \<Longrightarrow> lo \<le> d \<Longrightarrow> d \<le> hi \<Longrightarrow>
     parseCrossDetailRanged v d lo hi = 0 \<or> lo \<le> parseCrossDetailRanged v d lo hi \<and> parseCrossDetailRanged v d lo hi \<le> hi"
  unfolding parseCrossDetailRanged_def by (auto split: option.splits)

lemma config_ok: "config_ok (effective_config input)"
proof -
  note b = setting_or_bounds [of 16 "input CodeLookupConcurrency"] setting_or_bounds [of 500 "input BulkMaxTargets"]
    in_range_or_bounds [of 1 32 300] in_range_or_bounds [of 1 3 3] in_range_or_bounds [of 1 60000 120000]
  show ?thesis
    unfolding config_ok_def effective_config_def Let_def
    using b by (auto simp: max_safe_integer_def split: option.splits)
qed

lemma normalize_parses:
  "safe_integer n \<Longrightarrow> 0 \<le> n \<Longrightarrow> parseSafeInteger (normalizeSelfHostedInteger (JInt n)) = Some n"
  by (simp add: parseSafeInteger_def safe_decimal_nat_string)

text \<open>Positive results of the cross-detail parsers come from the default or a usable text.\<close>

lemma parseCrossDetailBound_pos:
  "0 < parseCrossDetailBound v d \<Longrightarrow> v = None \<or> parseSafeInteger v = Some (parseCrossDetailBound v d)"
  unfolding parseCrossDetailBound_def by (auto split: option.splits if_splits)

lemma parseCrossDetailRanged_pos:
  "0 < parseCrossDetailRanged v d lo hi \<Longrightarrow>
     v = None \<or> parseSafeInteger v = Some (parseCrossDetailRanged v d lo hi)"
  unfolding parseCrossDetailRanged_def by (auto split: option.splits if_splits)

text \<open>What each cross-detail setting must be for the details to be served.\<close>

definition usable :: "string option \<Rightarrow> int \<Rightarrow> bool" where
  "usable v hi \<longleftrightarrow> (case v of None \<Rightarrow> True | Some s \<Rightarrow>
     (case safe_decimal s of None \<Rightarrow> False | Some n \<Rightarrow> 1 \<le> n \<and> n \<le> hi))"

lemma bound_usable:
  "0 < d \<Longrightarrow> 0 < parseCrossDetailBound v d \<longleftrightarrow> usable v max_safe_integer"
  unfolding parseCrossDetailBound_def usable_def parseSafeInteger_def
  by (auto split: option.splits dest: safe_decimal_bounds)

lemma ranged_usable:
  "0 < d \<Longrightarrow> 0 < parseCrossDetailRanged v d 1 hi \<longleftrightarrow> usable v hi"
  unfolding parseCrossDetailRanged_def usable_def parseSafeInteger_def
  by (auto split: option.splits)

lemma detailEnabled_iff:
  "vc_detailEnabled (effective_config input) \<longleftrightarrow>
     usable (input DetailMaxTargets) max_safe_integer \<and> usable (input DetailMaxRows) max_safe_integer
   \<and> usable (input DetailConcurrency) 16 \<and> usable (input DetailBudget) max_safe_integer
   \<and> usable (input DetailWindowSeconds) 86400 \<and> usable (input DetailPermitTtlSeconds) 1200
   \<and> (input DetailExportMode = None \<or> input DetailExportMode = Some ''selected'')"
  unfolding effective_config_def Let_def
  by (simp add: bound_usable ranged_usable CROSS_DETAIL_DEFAULTS_def)

lemma enabled_limits_valid:
  assumes "vc_detailEnabled (effective_config input)"
  shows "assertValidVnuCrossDetailLimits (detail_limits (effective_config input)) = Inr ()"
    and "1 \<le> vc_detailPermitTtlSeconds (effective_config input) \<and> vc_detailPermitTtlSeconds (effective_config input) \<le> 1200"
proof -
  let ?c = "effective_config input"
  have pos: "0 < vc_detailMaxTargets ?c" "0 < vc_detailMaxRows ?c" "0 < vc_detailConcurrency ?c" "0 < vc_detailBudget ?c"
    "0 < vc_detailWindowSeconds ?c" "0 < vc_detailPermitTtlSeconds ?c"
    using assms unfolding effective_config_def Let_def by simp_all
  note b = parseCrossDetailBound_bounds [of 50 "input DetailMaxTargets"] parseCrossDetailBound_bounds [of 200 "input DetailMaxRows"]
    parseCrossDetailBound_bounds [of 300 "input DetailBudget"]
  have hi: "vc_detailMaxTargets ?c \<le> max_safe_integer" "vc_detailMaxRows ?c \<le> max_safe_integer"
    "vc_detailBudget ?c \<le> max_safe_integer"
    using b unfolding effective_config_def Let_def CROSS_DETAIL_DEFAULTS_def
    by (simp_all add: max_safe_integer_def)
  have r: "vc_detailConcurrency ?c \<le> 16" "vc_detailWindowSeconds ?c \<le> 86400" "vc_detailPermitTtlSeconds ?c \<le> 1200"
    using parseCrossDetailRanged_bounds [of 1 6 16 "input DetailConcurrency"]
      parseCrossDetailRanged_bounds [of 1 600 86400 "input DetailWindowSeconds"]
      parseCrossDetailRanged_bounds [of 1 1200 1200 "input DetailPermitTtlSeconds"]
    unfolding effective_config_def Let_def CROSS_DETAIL_DEFAULTS_def by auto
  from pos hi r show "assertValidVnuCrossDetailLimits (detail_limits ?c) = Inr ()"
    unfolding assertValidVnuCrossDetailLimits_def detail_limits_def by (simp add: safe_integer_def max_safe_integer_def)
  from pos r show "1 \<le> vc_detailPermitTtlSeconds ?c \<and> vc_detailPermitTtlSeconds ?c \<le> 1200" by simp
qed

text \<open>The settings that have an upper bound, which zero stands outside of.\<close>

definition details_ok :: "vnu_config \<Rightarrow> bool" where
  "details_ok c \<longleftrightarrow>
     (vc_detailConcurrency c = 0 \<or> 1 \<le> vc_detailConcurrency c \<and> vc_detailConcurrency c \<le> 16)
   \<and> (vc_detailWindowSeconds c = 0 \<or> 1 \<le> vc_detailWindowSeconds c \<and> vc_detailWindowSeconds c \<le> 86400)
   \<and> (vc_detailPermitTtlSeconds c = 0 \<or> 1 \<le> vc_detailPermitTtlSeconds c \<and> vc_detailPermitTtlSeconds c \<le> 1200)
   \<and> (\<forall>n \<in> {vc_detailMaxTargets c, vc_detailMaxRows c, vc_detailBudget c}. 0 \<le> n \<and> n \<le> max_safe_integer)"

lemma details_ok: "details_ok (effective_config input)"
proof -
  note b = parseCrossDetailBound_bounds [of 50 "input DetailMaxTargets"] parseCrossDetailBound_bounds [of 200 "input DetailMaxRows"]
    parseCrossDetailBound_bounds [of 300 "input DetailBudget"] parseCrossDetailRanged_bounds [of 1 6 16 "input DetailConcurrency"]
    parseCrossDetailRanged_bounds [of 1 600 86400 "input DetailWindowSeconds"]
    parseCrossDetailRanged_bounds [of 1 1200 1200 "input DetailPermitTtlSeconds"]
  show ?thesis
    unfolding details_ok_def effective_config_def Let_def CROSS_DETAIL_DEFAULTS_def
    using b by (simp add: max_safe_integer_def)
qed

definition ranged_settings :: "(vnu_setting \<times> int \<times> (vnu_config \<Rightarrow> int)) list" where
  "ranged_settings = [(DetailConcurrency, 16, vc_detailConcurrency), (DetailWindowSeconds, 86400, vc_detailWindowSeconds),
     (DetailPermitTtlSeconds, 1200, vc_detailPermitTtlSeconds)]"

definition out_of_range :: "string option \<Rightarrow> int \<Rightarrow> bool" where
  "out_of_range v hi \<longleftrightarrow> (case Option.bind v safe_decimal of None \<Rightarrow> False | Some n \<Rightarrow> n < 1 \<or> hi < n)"

lemma out_of_range_parsed:
  assumes "out_of_range v hi"
  shows "parseCrossDetailRanged v d 1 hi = 0" "\<not> usable v hi" "\<not> malformed v"
  using assms
  by (auto simp: out_of_range_def parseCrossDetailRanged_def usable_def malformed_def parseSafeInteger_def bind_eq_Some_conv
      split: option.splits)

lemma warnings_named:
  "(k, w) \<in> set (config_warnings input) \<Longrightarrow> k \<in> fst ` set ranged_settings \<Longrightarrow> malformed (input k)"
  unfolding config_warnings_def Let_def ranged_settings_def by (auto split: if_splits)

lemma out_of_range_disables:
  "\<forall>(k, hi, value) \<in> set ranged_settings. out_of_range (input k) hi \<longrightarrow>
     value (effective_config input) = 0 \<and> \<not> vc_detailEnabled (effective_config input) \<and> k \<notin> fst ` set (config_warnings input)"
proof (intro ballI, clarify)
  fix k hi v
  assume k: "(k, hi, v) \<in> set ranged_settings" and o': "out_of_range (input k) hi"
  note p = out_of_range_parsed [OF o']
  have "v (effective_config input) = 0" using k p(1)
    unfolding ranged_settings_def effective_config_def Let_def by auto
  moreover have "\<not> vc_detailEnabled (effective_config input)"
    using k p(2) unfolding detailEnabled_iff ranged_settings_def by auto
  moreover have "k \<notin> fst ` set (config_warnings input)"
    using warnings_named p(3) k by (metis (no_types, lifting) fst_conv image_iff prod.collapse)
  ultimately show "v (effective_config input) = 0 \<and> \<not> vc_detailEnabled (effective_config input) \<and> k \<notin> fst ` set (config_warnings input)"
    by blast
qed

section \<open>The property\<close>

text \<open>
  C20. Whatever the environment holds, the settings of the ordinary lookups are inside their
  ranges, and every setting of the cross-student details is inside its range or zero. The
  cross-student details are enabled exactly when every one of their settings is absent or a
  canonical integer inside its range (and the export mode is the selected one), and then their
  limits pass the assertions of the budget object and permits live between one second and
  twenty minutes. A concurrency, window or permit lifetime that is a number outside its range is
  not replaced by the default, as a comment of the source has it: it is read as zero, which
  disables the details, and no warning names it. A safe non-negative number of the configuration
  file is read as itself.
\<close>

theorem vnu_config_safe:
  "config_ok (fst (parseVnuRuntimeConfig input))
   \<and> details_ok (fst (parseVnuRuntimeConfig input))
   \<and> (vc_detailEnabled (fst (parseVnuRuntimeConfig input)) \<longleftrightarrow>
        usable (input DetailMaxTargets) max_safe_integer \<and> usable (input DetailMaxRows) max_safe_integer
      \<and> usable (input DetailConcurrency) 16 \<and> usable (input DetailBudget) max_safe_integer
      \<and> usable (input DetailWindowSeconds) 86400 \<and> usable (input DetailPermitTtlSeconds) 1200
      \<and> (input DetailExportMode = None \<or> input DetailExportMode = Some ''selected''))
   \<and> (vc_detailEnabled (fst (parseVnuRuntimeConfig input)) \<longrightarrow>
        assertValidVnuCrossDetailLimits (detail_limits (fst (parseVnuRuntimeConfig input))) = Inr ()
      \<and> 1 \<le> vc_detailPermitTtlSeconds (fst (parseVnuRuntimeConfig input))
      \<and> vc_detailPermitTtlSeconds (fst (parseVnuRuntimeConfig input)) \<le> 1200)
   \<and> (\<forall>(k, hi, value) \<in> set ranged_settings. out_of_range (input k) hi \<longrightarrow>
        value (fst (parseVnuRuntimeConfig input)) = 0 \<and> \<not> vc_detailEnabled (fst (parseVnuRuntimeConfig input))
      \<and> k \<notin> fst ` set (snd (parseVnuRuntimeConfig input)))
   \<and> (safe_integer n \<and> 0 \<le> n \<longrightarrow> parseSafeInteger (normalizeSelfHostedInteger (JInt n)) = Some n)"
  using config_ok [of input] details_ok [of input] detailEnabled_iff [of input] enabled_limits_valid [of input]
    out_of_range_disables [of input] normalize_parses [of n]
  by (simp add: parseVnuRuntimeConfig_def)

theorem vnu_config_safe_witness:
  "vc_detailEnabled (fst (parseVnuRuntimeConfig (\<lambda>_. None)))
   \<and> assertValidVnuCrossDetailLimits (detail_limits (fst (parseVnuRuntimeConfig (\<lambda>_. None)))) = Inr ()
   \<and> vc_detailConcurrency (fst (parseVnuRuntimeConfig ((\<lambda>_. None)(DetailConcurrency := Some ''17'')))) = 0
   \<and> parseSafeInteger (normalizeSelfHostedInteger (JInt 42)) = Some 42"
proof -
  have f: "vc_detailEnabled (fst (parseVnuRuntimeConfig (\<lambda>_. None)))" "safe_integer 42" "safe_decimal ''17'' = Some 17" by code_simp+
  then have "out_of_range (((\<lambda>_. None)(DetailConcurrency := Some ''17'')) DetailConcurrency) 16" by (simp add: out_of_range_def)
  with vnu_config_safe [of "(\<lambda>_. None)(DetailConcurrency := Some ''17'')" 42]
  have "vc_detailConcurrency (fst (parseVnuRuntimeConfig ((\<lambda>_. None)(DetailConcurrency := Some ''17'')))) = 0"
    by (auto simp: ranged_settings_def)
  with f vnu_config_safe [of "\<lambda>_. None" 42] show ?thesis by simp
qed

end
