(* ===== verification/SessionTokens.thy ===== *)
theory SessionTokens
  imports JsBase64 JsTime
begin

text \<open>
  The tokens of \<open>packages/core/src/index.ts\<close>: encrypted sessions, VNU reconnect grants with
  the access descriptors that link them to a session, and the envelopes of cross-detail
  permits. A payload is the JavaScript value the code reads and writes. The platform is a
  parameter: the JSON text of a value as UTF-8 bytes and its parser, AES-GCM under a derived
  key with its additional data, HMAC, and \<open>Date.parse\<close>. Random bytes and the clock are
  arguments.
\<close>

section \<open>The platform and the errors\<close>

datatype crypto_key = RawKey string | DigestKey string | HkdfKey string string

record core_platform =
  cp_json :: "jval \<Rightarrow> bytes"
  cp_parse :: "bytes \<Rightarrow> jval option"
  cp_encrypt :: "crypto_key \<Rightarrow> string \<Rightarrow> bytes \<Rightarrow> bytes \<Rightarrow> bytes"
  cp_decrypt :: "crypto_key \<Rightarrow> string \<Rightarrow> bytes \<Rightarrow> bytes \<Rightarrow> bytes option"
  cp_hmac :: "crypto_key \<Rightarrow> string \<Rightarrow> bytes"
  cp_date :: "string \<Rightarrow> int option"

definition VNU_REFRESH_GRANT_MAX_LENGTH :: nat where "VNU_REFRESH_GRANT_MAX_LENGTH = 8192"

definition VNU_CROSS_DETAIL_PERMIT_ENVELOPE_MAX_LENGTH :: nat where
  "VNU_CROSS_DETAIL_PERMIT_ENVELOPE_MAX_LENGTH = 1024"

definition VNU_REFRESH_LIFETIME_MS :: int where "VNU_REFRESH_LIFETIME_MS = 8 * 60 * 60 * 1000"

text \<open>Salt, info and additional data of a purpose extend its label.\<close>

definition VNU_REFRESH_LABEL :: string where "VNU_REFRESH_LABEL = ''hyeboard:vnu-refresh:v1''"

definition VNU_CROSS_DETAIL_LABEL :: string where "VNU_CROSS_DETAIL_LABEL = ''hyeboard:vnu-cross-detail:v1''"

definition VNU_PRINCIPAL_LABEL :: string where "VNU_PRINCIPAL_LABEL = ''hyeboard:vnu-refresh-principal:v1''"

definition weakSecret :: hyeboard_error where
  "weakSecret = core_error ''WEAK_SESSION_SECRET'' ''HYEB_SESSION_SECRET must be at least 32 characters'' 500"

definition invalidSession :: hyeboard_error where
  "invalidSession = core_error ''INVALID_SESSION'' ''Invalid session token'' 401"

definition sessionExpired :: hyeboard_error where
  "sessionExpired = core_error ''SESSION_EXPIRED'' ''Session expired'' 401"

definition invalidVnuRefreshGrant :: hyeboard_error where
  "invalidVnuRefreshGrant =
     core_error ''VNU_REFRESH_GRANT_INVALID'' ''The VNU reconnect grant is invalid or expired.'' 401"

definition invalidVnuCrossDetailPermit :: hyeboard_error where
  "invalidVnuCrossDetailPermit =
     core_error ''VNU_CROSS_DETAIL_PERMIT_INVALID'' ''The cross-detail permit is invalid or expired.'' 403"

definition oversizedVnuRefreshGrant :: hyeboard_error where
  "oversizedVnuRefreshGrant =
     core_error ''VNU_REFRESH_GRANT_TOO_LARGE'' ''The VNU reconnect credentials are too large to store safely.'' 400"

definition assertStrongSecret :: "string \<Rightarrow> hyeboard_error + unit" where
  "assertStrongSecret secret = (if length secret < 32 then Inl weakSecret else Inr ())"

definition assertSupported :: "bool \<Rightarrow> string \<Rightarrow> hyeboard_error + unit" where
  "assertSupported v feature = (if \<not> v
     then Inl (core_error ''UNSUPPORTED_FEATURE'' (feature @ '' is not supported by this university'') 501) else Inr ())"

section \<open>Headers and dates\<close>

definition parseBearerToken :: "string option \<Rightarrow> string option" where
  "parseBearerToken header = (case header of
     None \<Rightarrow> None
   | Some h \<Rightarrow> if h = [] then None else (case split_on CHR '' '' h of
         scheme # token # _ \<Rightarrow> if js_lower scheme \<noteq> ''bearer'' \<or> token = [] then None else Some token
       | _ \<Rightarrow> None))"

text \<open>An invalid date is \<open>NaN\<close>, which is at most no number: it is not expired.\<close>

definition isExpired :: "core_platform \<Rightarrow> string \<Rightarrow> int \<Rightarrow> bool" where
  "isExpired cp s now = (case cp_date cp s of None \<Rightarrow> False | Some t \<Rightarrow> t \<le> now)"

fun parseCanonicalIso :: "jval \<Rightarrow> int option" where
  "parseCanonicalIso (JStr s) = canonicalTime s"
| "parseCanonicalIso _ = None"

definition normalizeVnuUsername :: "string \<Rightarrow> string" where
  "normalizeVnuUsername u = js_lower (js_trim u)"

section \<open>Shapes\<close>

definition CREDENTIAL_KEYS :: "string list" where
  "CREDENTIAL_KEYS = [''csrfToken'', ''expiresAt'', ''kind'', ''value'']"

definition GOOGLE_CREDENTIAL_KEYS :: "string list" where
  "GOOGLE_CREDENTIAL_KEYS = [''email'', ''googleCookies'', ''password'']"

definition GOOGLE_COOKIE_KEYS :: "string list" where
  "GOOGLE_COOKIE_KEYS = [''domain'', ''expires'', ''httpOnly'', ''name'', ''path'', ''sameSite'', ''secure'', ''value'']"

definition PARENT_CREDENTIAL_KEYS :: "string list" where
  "PARENT_CREDENTIAL_KEYS = [''password'', ''username'']"

definition CORE_SESSION_KEYS :: "string list" where
  "CORE_SESSION_KEYS = [''canvas'', ''expiresAt'', ''sessionEpoch'', ''sessionId'', ''studentCode'', ''studenthub'',
     ''uetGoogleCredential'', ''uetParentCredential'', ''universityId'', ''version'', ''vnu'', ''vnuRefresh'']"

definition GRANT_KEYS :: "string list" where
  "GRANT_KEYS = [''expectedStudentCode'', ''expiresAt'', ''grantId'', ''issuedAt'', ''password'', ''purpose'',
     ''universityId'', ''username'', ''version'']"

definition DESCRIPTOR_KEYS :: "string list" where
  "DESCRIPTOR_KEYS = [''accessExpiresAt'', ''accessTokenId'', ''grantExpiresAt'', ''grantId'', ''principalKey'',
     ''purpose'', ''version'']"

definition CROSS_DETAIL_ENVELOPE_KEYS :: "string list" where
  "CROSS_DETAIL_ENVELOPE_KEYS = [''nonce'', ''purpose'', ''revisionHmac'', ''rowHmac'', ''selector'', ''targetHmac'', ''version'']"

definition CROSS_DETAIL_SELECTOR_KEYS :: "string list" where
  "CROSS_DETAIL_SELECTOR_KEYS = [''classId'', ''stdId'', ''termOrdinal'']"

fun hasExactKeys :: "jval \<Rightarrow> string list \<Rightarrow> string list \<Rightarrow> bool" where
  "hasExactKeys (JObj kvs) allowed required =
     (list_all (\<lambda>(k, v). k \<in> set allowed) kvs \<and> list_all (\<lambda>k. k \<in> fst ` set kvs) required)"
| "hasExactKeys _ allowed required = False"

fun isNonemptyString :: "jval \<Rightarrow> bool" where
  "isNonemptyString (JStr s) = (s \<noteq> [])"
| "isNonemptyString _ = False"

fun matches :: "(string \<Rightarrow> bool) \<Rightarrow> jval \<Rightarrow> bool" where
  "matches pat (JStr s) = pat s"
| "matches pat _ = False"

text \<open>\<open>fromBase64Url\<close> succeeds and prints back: the canonical spelling of some bytes.\<close>

definition canonical_bytes :: "string \<Rightarrow> bytes option" where
  "canonical_bytes s = (case fromBase64Url s of None \<Rightarrow> None
     | Some bs \<Rightarrow> if toBase64Url bs = s then Some bs else None)"

definition isBase64Url128 :: "jval \<Rightarrow> bool" where
  "isBase64Url128 v \<longleftrightarrow> matches (\<lambda>s. token22 s \<and>
     (case canonical_bytes s of None \<Rightarrow> False | Some bs \<Rightarrow> length bs = 16)) v"

fun text_of_value :: "jval \<Rightarrow> string" where
  "text_of_value (JStr s) = s"
| "text_of_value _ = []"

section \<open>Sealing\<close>

text \<open>
  \<open>iv.ciphertext\<close>, both in base64url. The parts of a token are canonical, the initialisation
  vector has twelve bytes and the ciphertext more than its tag.
\<close>

definition seal_token :: "core_platform \<Rightarrow> crypto_key \<Rightarrow> string \<Rightarrow> bytes \<Rightarrow> jval \<Rightarrow> string" where
  "seal_token cp key aad iv v = toBase64Url iv @ ''.'' @ toBase64Url (cp_encrypt cp key aad iv (cp_json cp v))"

definition token_parts :: "string \<Rightarrow> (bytes \<times> bytes) option" where
  "token_parts token = (case split_on CHR ''.'' token of
     [p0, p1] \<Rightarrow> if p0 = [] \<or> p1 = [] then None else (case (canonical_bytes p0, canonical_bytes p1) of
         (Some iv, Some enc) \<Rightarrow> if length iv \<noteq> 12 \<or> length enc < 17 then None else Some (iv, enc)
       | _ \<Rightarrow> None)
   | _ \<Rightarrow> None)"

definition open_parts :: "core_platform \<Rightarrow> crypto_key \<Rightarrow> string \<Rightarrow> bytes \<times> bytes \<Rightarrow> jval option" where
  "open_parts cp key aad = (\<lambda>(iv, enc). Option.bind (cp_decrypt cp key aad iv enc) (cp_parse cp))"

section \<open>Reconnect grants\<close>

text \<open>Seventeen characters for the vector and the dot, four for three bytes of the rest.\<close>

definition encodedVnuRefreshGrantLength :: "core_platform \<Rightarrow> jval \<Rightarrow> nat" where
  "encodedVnuRefreshGrantLength cp v = 17 + ((length (cp_json cp v) + 16) * 4 + 2) div 3"

definition assertVnuRefreshGrantPayload :: "core_platform \<Rightarrow> jval \<Rightarrow> hyeboard_error + unit" where
  "assertVnuRefreshGrantPayload cp v =
    (let p = (\<lambda>k. prop_of k v) in
     if \<not> hasExactKeys v GRANT_KEYS GRANT_KEYS then Inl invalidVnuRefreshGrant
     else if p ''version'' \<noteq> JInt 1 \<or> p ''purpose'' \<noteq> JStr ''vnu-refresh'' \<or> p ''universityId'' \<noteq> JStr ''vnu''
     then Inl invalidVnuRefreshGrant
     else if \<not> isBase64Url128 (p ''grantId'') then Inl invalidVnuRefreshGrant
     else if \<not> isNonemptyString (p ''username'') \<or>
        text_of_value (p ''username'') \<noteq> normalizeVnuUsername (text_of_value (p ''username''))
     then Inl invalidVnuRefreshGrant
     else if \<not> isNonemptyString (p ''password'') \<or> \<not> isNonemptyString (p ''expectedStudentCode'')
     then Inl invalidVnuRefreshGrant
     else (case (parseCanonicalIso (p ''issuedAt''), parseCanonicalIso (p ''expiresAt'')) of
         (Some i, Some e) \<Rightarrow>
           if e - i \<noteq> VNU_REFRESH_LIFETIME_MS then Inl invalidVnuRefreshGrant
           else if encodedVnuRefreshGrantLength cp v > VNU_REFRESH_GRANT_MAX_LENGTH
           then Inl oversizedVnuRefreshGrant else Inr ()
       | _ \<Rightarrow> Inl invalidVnuRefreshGrant))"

text \<open>\<open>toISOString\<close> throws a \<open>RangeError\<close> outside the range of time values: \<open>Inl None\<close>.\<close>

definition time_text :: "int \<Rightarrow> hyeboard_error option + string" where
  "time_text t = (if - max_time \<le> t \<and> t \<le> max_time then Inr (toISOString t) else Inl None)"

definition grant_value :: "bytes \<Rightarrow> string \<Rightarrow> string \<Rightarrow> string \<Rightarrow> string \<Rightarrow> string \<Rightarrow> jval" where
  "grant_value random username password code issued expires = JObj
     [(''version'', JInt 1), (''purpose'', JStr ''vnu-refresh''), (''grantId'', JStr (toBase64Url random)),
      (''universityId'', JStr ''vnu''), (''username'', JStr username), (''password'', JStr password),
      (''expectedStudentCode'', JStr code), (''issuedAt'', JStr issued), (''expiresAt'', JStr expires)]"

definition createVnuRefreshGrant ::
  "core_platform \<Rightarrow> string \<Rightarrow> string \<Rightarrow> string \<Rightarrow> int \<Rightarrow> bytes \<Rightarrow> hyeboard_error option + jval" where
  "createVnuRefreshGrant cp username password code now random =
     sbind (time_text now) (\<lambda>issued. sbind (time_text (now + VNU_REFRESH_LIFETIME_MS)) (\<lambda>expires.
       let v = grant_value random (normalizeVnuUsername username) password code issued expires in
       sbind (lift_core (assertVnuRefreshGrantPayload cp v)) (\<lambda>_. Inr v)))"

fun with_prop :: "string \<Rightarrow> jval \<Rightarrow> jval \<Rightarrow> jval" where
  "with_prop k v (JObj kvs) = JObj (AList.update k v kvs)"
| "with_prop k v w = w"

definition rotateVnuRefreshGrant :: "core_platform \<Rightarrow> jval \<Rightarrow> bytes \<Rightarrow> hyeboard_error + jval" where
  "rotateVnuRefreshGrant cp g random = sbind (assertVnuRefreshGrantPayload cp g) (\<lambda>_.
     let r = with_prop ''grantId'' (JStr (toBase64Url random)) g in
     sbind (assertVnuRefreshGrantPayload cp r) (\<lambda>_. Inr r))"

definition encryptVnuRefreshGrant :: "core_platform \<Rightarrow> jval \<Rightarrow> string \<Rightarrow> bytes \<Rightarrow> hyeboard_error + string" where
  "encryptVnuRefreshGrant cp g secret iv = sbind (assertVnuRefreshGrantPayload cp g) (\<lambda>_.
     sbind (assertStrongSecret secret) (\<lambda>_.
     let token = seal_token cp (HkdfKey VNU_REFRESH_LABEL secret) VNU_REFRESH_LABEL iv g in
     if length token > VNU_REFRESH_GRANT_MAX_LENGTH then Inl oversizedVnuRefreshGrant else Inr token))"

definition decryptAuthenticatedVnuRefreshGrant :: "core_platform \<Rightarrow> string \<Rightarrow> string \<Rightarrow> hyeboard_error + jval" where
  "decryptAuthenticatedVnuRefreshGrant cp token secret = (case token_parts token of
     None \<Rightarrow> Inl invalidVnuRefreshGrant
   | Some parts \<Rightarrow> sbind (assertStrongSecret secret) (\<lambda>_.
       (case open_parts cp (HkdfKey VNU_REFRESH_LABEL secret) VNU_REFRESH_LABEL parts of
          None \<Rightarrow> Inl invalidVnuRefreshGrant
        | Some g \<Rightarrow> (case assertVnuRefreshGrantPayload cp g of
            Inl _ \<Rightarrow> Inl invalidVnuRefreshGrant | Inr _ \<Rightarrow> Inr g))))"

definition decryptVnuRefreshGrant :: "core_platform \<Rightarrow> string \<Rightarrow> string \<Rightarrow> int \<Rightarrow> hyeboard_error + jval" where
  "decryptVnuRefreshGrant cp token secret now = sbind (decryptAuthenticatedVnuRefreshGrant cp token secret) (\<lambda>g.
     if isExpired cp (text_of_value (prop_of ''expiresAt'' g)) now then Inl invalidVnuRefreshGrant else Inr g)"

definition decryptVnuRefreshGrantForLogout :: "core_platform \<Rightarrow> string \<Rightarrow> string \<Rightarrow> hyeboard_error + jval" where
  "decryptVnuRefreshGrantForLogout = decryptAuthenticatedVnuRefreshGrant"

section \<open>Access descriptors\<close>

definition descriptor_ok :: "jval \<Rightarrow> bool" where
  "descriptor_ok v \<longleftrightarrow> (let p = (\<lambda>k. prop_of k v) in
     hasExactKeys v DESCRIPTOR_KEYS DESCRIPTOR_KEYS
   \<and> p ''version'' = JInt 1 \<and> p ''purpose'' = JStr ''vnu-refresh-access''
   \<and> matches (hex_n 64) (p ''principalKey'')
   \<and> isBase64Url128 (p ''accessTokenId'') \<and> isBase64Url128 (p ''grantId'')
   \<and> parseCanonicalIso (p ''accessExpiresAt'') \<noteq> None \<and> parseCanonicalIso (p ''grantExpiresAt'') \<noteq> None)"

definition assertVnuRefreshAccessDescriptor :: "jval \<Rightarrow> hyeboard_error + unit" where
  "assertVnuRefreshAccessDescriptor v = (if descriptor_ok v then Inr () else Inl invalidSession)"

definition hex_digit :: "nat \<Rightarrow> char" where
  "hex_digit n = hex_chars ! n"

definition encodeHex :: "bytes \<Rightarrow> string" where
  "encodeHex bs = concat (map (\<lambda>b. [hex_digit (unat b div 16), hex_digit (unat b mod 16)]) bs)"

definition deriveVnuRefreshPrincipal :: "core_platform \<Rightarrow> string \<Rightarrow> string \<Rightarrow> hyeboard_error + string" where
  "deriveVnuRefreshPrincipal cp username secret =
    (let u = normalizeVnuUsername username in
     if u = [] then Inl invalidSession
     else sbind (assertStrongSecret secret) (\<lambda>_.
       Inr (encodeHex (cp_hmac cp (HkdfKey VNU_PRINCIPAL_LABEL secret) (VNU_PRINCIPAL_LABEL @ '':'' @ u)))))"

definition descriptor_value :: "string \<Rightarrow> bytes \<Rightarrow> string \<Rightarrow> string \<Rightarrow> string \<Rightarrow> jval" where
  "descriptor_value pkey random grant accessExpires grantExpires = JObj
     [(''version'', JInt 1), (''purpose'', JStr ''vnu-refresh-access''), (''principalKey'', JStr pkey),
      (''accessTokenId'', JStr (toBase64Url random)), (''grantId'', JStr grant),
      (''accessExpiresAt'', JStr accessExpires), (''grantExpiresAt'', JStr grantExpires)]"

definition createVnuRefreshAccessDescriptor ::
  "core_platform \<Rightarrow> string \<Rightarrow> string \<Rightarrow> string \<Rightarrow> string \<Rightarrow> string \<Rightarrow> bytes \<Rightarrow> hyeboard_error + jval" where
  "createVnuRefreshAccessDescriptor cp username grant accessExpires grantExpires secret random =
     sbind (deriveVnuRefreshPrincipal cp username secret) (\<lambda>pkey.
       let d = descriptor_value pkey random grant accessExpires grantExpires in
       sbind (assertVnuRefreshAccessDescriptor d) (\<lambda>_. Inr d))"

text \<open>The loop collects the differing bits of all characters before it compares.\<close>

fun char_difference :: "string \<Rightarrow> string \<Rightarrow> nat" where
  "char_difference (l # ls) (r # rs) = or (xor (of_char l) (of_char r)) (char_difference ls rs)"
| "char_difference _ _ = 0"

definition constantTimeEqual :: "string \<Rightarrow> string \<Rightarrow> bool" where
  "constantTimeEqual l r \<longleftrightarrow> length l = length r \<and> char_difference l r = 0"

definition assertVnuRefreshGrantMatchesDescriptor ::
  "core_platform \<Rightarrow> jval \<Rightarrow> jval \<Rightarrow> string \<Rightarrow> hyeboard_error + unit" where
  "assertVnuRefreshGrantMatchesDescriptor cp g d secret =
    (if assertVnuRefreshGrantPayload cp g \<noteq> Inr () \<or> assertVnuRefreshAccessDescriptor d \<noteq> Inr () then Inl invalidSession
     else if prop_of ''grantId'' g \<noteq> prop_of ''grantId'' d \<or> prop_of ''expiresAt'' g \<noteq> prop_of ''grantExpiresAt'' d
     then Inl invalidSession
     else sbind (deriveVnuRefreshPrincipal cp (text_of_value (prop_of ''username'' g)) secret) (\<lambda>expected.
       if constantTimeEqual expected (text_of_value (prop_of ''principalKey'' d)) then Inr () else Inl invalidSession))"

section \<open>Envelopes of cross-detail permits\<close>

definition token_text :: "nat \<Rightarrow> string \<Rightarrow> bool" where
  "token_text n s \<longleftrightarrow> 1 \<le> length s \<and> length s \<le> n \<and> list_all (\<lambda>c. \<not> js_space c) s"

definition VNU_CROSS_DETAIL_STD_ID_PATTERN :: "string \<Rightarrow> bool" where
  "VNU_CROSS_DETAIL_STD_ID_PATTERN s \<longleftrightarrow> 1 \<le> length s \<and> length s \<le> 11 \<and> all_digits s"

definition assertVnuCrossDetailPermitEnvelope :: "jval \<Rightarrow> hyeboard_error + unit" where
  "assertVnuCrossDetailPermitEnvelope v =
    (let p = (\<lambda>k. prop_of k v); s = prop_of ''selector'' v in
     if \<not> hasExactKeys v CROSS_DETAIL_ENVELOPE_KEYS CROSS_DETAIL_ENVELOPE_KEYS
        \<or> p ''version'' \<noteq> JInt 1 \<or> p ''purpose'' \<noteq> JStr ''vnu-cross-detail''
        \<or> \<not> matches (hex_n 32) (p ''nonce'')
        \<or> \<not> list_all (\<lambda>k. matches (hex_n 64) (p k)) [''targetHmac'', ''revisionHmac'', ''rowHmac'']
        \<or> \<not> hasExactKeys s CROSS_DETAIL_SELECTOR_KEYS CROSS_DETAIL_SELECTOR_KEYS
        \<or> \<not> matches VNU_CROSS_DETAIL_STD_ID_PATTERN (prop_of ''stdId'' s)
        \<or> \<not> matches (token_text 32) (prop_of ''classId'' s)
        \<or> \<not> matches (token_text 16) (prop_of ''termOrdinal'' s)
     then Inl invalidVnuCrossDetailPermit else Inr ())"

definition encryptVnuCrossDetailPermitEnvelope :: "core_platform \<Rightarrow> jval \<Rightarrow> string \<Rightarrow> bytes \<Rightarrow> hyeboard_error + string" where
  "encryptVnuCrossDetailPermitEnvelope cp v secret iv = sbind (assertStrongSecret secret) (\<lambda>_.
     sbind (assertVnuCrossDetailPermitEnvelope v) (\<lambda>_.
     let token = seal_token cp (HkdfKey VNU_CROSS_DETAIL_LABEL secret) VNU_CROSS_DETAIL_LABEL iv v in
     if length token > VNU_CROSS_DETAIL_PERMIT_ENVELOPE_MAX_LENGTH then Inl invalidVnuCrossDetailPermit else Inr token))"

definition decryptVnuCrossDetailPermitEnvelope :: "core_platform \<Rightarrow> string \<Rightarrow> string \<Rightarrow> hyeboard_error + jval" where
  "decryptVnuCrossDetailPermitEnvelope cp token secret =
    (if length token > VNU_CROSS_DETAIL_PERMIT_ENVELOPE_MAX_LENGTH then Inl invalidVnuCrossDetailPermit
     else case token_parts token of
       None \<Rightarrow> Inl invalidVnuCrossDetailPermit
     | Some parts \<Rightarrow> sbind (assertStrongSecret secret) (\<lambda>_.
         (case open_parts cp (HkdfKey VNU_CROSS_DETAIL_LABEL secret) VNU_CROSS_DETAIL_LABEL parts of
            None \<Rightarrow> Inl invalidVnuCrossDetailPermit
          | Some v \<Rightarrow> sbind (assertVnuCrossDetailPermitEnvelope v) (\<lambda>_. Inr v))))"

section \<open>Sessions\<close>

definition absent_or :: "(jval \<Rightarrow> bool) \<Rightarrow> jval \<Rightarrow> bool" where
  "absent_or ok v \<longleftrightarrow> v = JUndefined \<or> ok v"

definition assertUpstreamCredential :: "jval \<Rightarrow> bool" where
  "assertUpstreamCredential v \<longleftrightarrow>
     hasExactKeys v CREDENTIAL_KEYS [''kind'', ''value'']
   \<and> prop_of ''kind'' v \<in> {JStr ''bearer'', JStr ''cookie'', JStr ''manual''}
   \<and> isNonemptyString (prop_of ''value'' v)
   \<and> absent_or isNonemptyString (prop_of ''csrfToken'' v)
   \<and> absent_or (\<lambda>e. parseCanonicalIso e \<noteq> None) (prop_of ''expiresAt'' v)"

fun is_bool :: "jval \<Rightarrow> bool" where
  "is_bool (JBool b) = True"
| "is_bool _ = False"

text \<open>A number of a payload is finite: its text is JSON, which has no \<open>NaN\<close> and no infinities.\<close>

fun is_number :: "jval \<Rightarrow> bool" where
  "is_number (JInt n) = True"
| "is_number JNonInt = True"
| "is_number _ = False"

definition assertGoogleCookie :: "jval \<Rightarrow> bool" where
  "assertGoogleCookie v \<longleftrightarrow>
     hasExactKeys v GOOGLE_COOKIE_KEYS [''name'', ''value'', ''domain'', ''path'']
   \<and> list_all (\<lambda>k. isNonemptyString (prop_of k v)) [''name'', ''value'', ''domain'', ''path'']
   \<and> absent_or is_number (prop_of ''expires'' v)
   \<and> absent_or is_bool (prop_of ''httpOnly'' v) \<and> absent_or is_bool (prop_of ''secure'' v)
   \<and> absent_or (\<lambda>s. s \<in> {JStr ''Strict'', JStr ''Lax'', JStr ''None''}) (prop_of ''sameSite'' v)"

definition parent_ok :: "jval \<Rightarrow> bool" where
  "parent_ok v \<longleftrightarrow> hasExactKeys v PARENT_CREDENTIAL_KEYS PARENT_CREDENTIAL_KEYS
     \<and> isNonemptyString (prop_of ''username'' v) \<and> isNonemptyString (prop_of ''password'' v)"

definition google_ok :: "jval \<Rightarrow> bool" where
  "google_ok v \<longleftrightarrow> hasExactKeys v GOOGLE_CREDENTIAL_KEYS [''email'', ''password'']
     \<and> isNonemptyString (prop_of ''email'' v) \<and> isNonemptyString (prop_of ''password'' v)
     \<and> (case prop_of ''googleCookies'' v of
          JUndefined \<Rightarrow> True | JArr cs \<Rightarrow> list_all assertGoogleCookie cs | _ \<Rightarrow> False)"

fun is_object :: "jval \<Rightarrow> bool" where
  "is_object (JObj kvs) = True"
| "is_object _ = False"

fun epoch_ok :: "jval \<Rightarrow> bool" where
  "epoch_ok (JInt n) = (safe_integer n \<and> 0 \<le> n)"
| "epoch_ok _ = False"

definition parseEncryptedSessionPayload :: "jval \<Rightarrow> hyeboard_error + jval" where
  "parseEncryptedSessionPayload v =
    (let p = (\<lambda>k. prop_of k v) in
     if \<not> is_object v \<or> p ''version'' \<noteq> JInt 1 then Inl invalidSession
     else if \<not> absent_or isNonemptyString (p ''sessionId'') then Inl invalidSession
     else if \<not> absent_or epoch_ok (p ''sessionEpoch'') then Inl invalidSession
     else if p ''vnuRefresh'' = JUndefined then Inr v
     else if \<not> hasExactKeys v CORE_SESSION_KEYS [''version'', ''universityId'', ''expiresAt''] then Inl invalidSession
     else if \<not> isNonemptyString (p ''universityId'') \<or> parseCanonicalIso (p ''expiresAt'') = None then Inl invalidSession
     else if \<not> absent_or isNonemptyString (p ''studentCode'') then Inl invalidSession
     else if \<not> list_all (\<lambda>k. absent_or assertUpstreamCredential (p k)) [''studenthub'', ''canvas'', ''vnu'']
     then Inl invalidSession
     else if \<not> absent_or parent_ok (p ''uetParentCredential'') then Inl invalidSession
     else if \<not> absent_or google_ok (p ''uetGoogleCredential'') then Inl invalidSession
     else sbind (assertVnuRefreshAccessDescriptor (p ''vnuRefresh'')) (\<lambda>_.
       if p ''universityId'' \<noteq> JStr ''vnu'' \<or> \<not> is_object (p ''vnu'')
          \<or> \<not> isNonemptyString (prop_of ''value'' (p ''vnu'')) then Inl invalidSession
       else if prop_of ''accessExpiresAt'' (p ''vnuRefresh'') \<noteq> p ''expiresAt'' then Inl invalidSession
       else Inr v))"

definition encryptSession :: "core_platform \<Rightarrow> jval \<Rightarrow> string \<Rightarrow> bytes \<Rightarrow> hyeboard_error + string" where
  "encryptSession cp v secret iv = sbind (assertStrongSecret secret) (\<lambda>_.
     sbind (parseEncryptedSessionPayload v) (\<lambda>v. Inr (seal_token cp (DigestKey secret) [] iv v)))"

definition decryptAccessToken :: "core_platform \<Rightarrow> string \<Rightarrow> string \<Rightarrow> hyeboard_error + jval" where
  "decryptAccessToken cp token secret = (case token_parts token of
     None \<Rightarrow> Inl invalidSession
   | Some parts \<Rightarrow> (case open_parts cp (DigestKey secret) [] parts of
       None \<Rightarrow> Inl invalidSession
     | Some v \<Rightarrow> parseEncryptedSessionPayload v))"

text \<open>
  The date constructor on an untyped value: \<open>undefined\<close> gives no date, a number its own time,
  \<open>null\<close> and the booleans theirs. A fraction, a list or an object, which no caller writes as an
  expiry, is read as no date.
\<close>

definition date_value :: "core_platform \<Rightarrow> jval \<Rightarrow> int option" where
  "date_value cp v = (case v of JStr s \<Rightarrow> cp_date cp s
     | JInt n \<Rightarrow> if - max_time \<le> n \<and> n \<le> max_time then Some n else None
     | JNull \<Rightarrow> Some 0 | JBool b \<Rightarrow> Some (if b then 1 else 0) | _ \<Rightarrow> None)"

definition expired_value :: "core_platform \<Rightarrow> jval \<Rightarrow> int \<Rightarrow> bool" where
  "expired_value cp v now = (case date_value cp v of None \<Rightarrow> False | Some t \<Rightarrow> t \<le> now)"

definition decryptSession :: "core_platform \<Rightarrow> string \<Rightarrow> string \<Rightarrow> int \<Rightarrow> hyeboard_error + jval" where
  "decryptSession cp token secret now = sbind (decryptAccessToken cp token secret) (\<lambda>v.
     if expired_value cp (prop_of ''expiresAt'' v) now then Inl sessionExpired else Inr v)"

definition decryptVnuRefreshPurposeToken :: "core_platform \<Rightarrow> string \<Rightarrow> string \<Rightarrow> hyeboard_error + jval" where
  "decryptVnuRefreshPurposeToken cp token secret = sbind (decryptAccessToken cp token secret) (\<lambda>v.
     if prop_of ''vnuRefresh'' v = JUndefined then Inl invalidSession else Inr v)"

end
