(* ===== verification/SessionProps.thy ===== *)
theory SessionProps
  imports SessionTokens
begin

text \<open>
  What the tokens guarantee. A sealed token opens to the value it was made from; the length of
  a grant's token is the one its payload is checked against; a grant is honoured for eight
  hours exactly, matches exactly the descriptors of its user, identifier and expiry, and keeps
  its expiry when it is rotated; an encrypted session is returned exactly while it lasts.
\<close>

section \<open>Sealed tokens\<close>

text \<open>
  What is assumed of the platform for one value: its JSON text parses back, AES-GCM opens what
  it sealed and adds a tag of sixteen bytes. And the date parser reads canonical dates.
\<close>

definition seals :: "core_platform \<Rightarrow> crypto_key \<Rightarrow> string \<Rightarrow> bytes \<Rightarrow> jval \<Rightarrow> bool" where
  "seals cp key aad iv v \<longleftrightarrow>
     length iv = 12 \<and> cp_json cp v \<noteq> [] \<and> cp_parse cp (cp_json cp v) = Some v
   \<and> cp_decrypt cp key aad iv (cp_encrypt cp key aad iv (cp_json cp v)) = Some (cp_json cp v)
   \<and> length (cp_encrypt cp key aad iv (cp_json cp v)) = length (cp_json cp v) + 16"

definition reads_dates :: "core_platform \<Rightarrow> bool" where
  "reads_dates cp \<longleftrightarrow> (\<forall>t. - max_time \<le> t \<and> t \<le> max_time \<longrightarrow> cp_date cp (toISOString t) = Some t)"

lemma canonical_bytes_made: "bs \<noteq> [] \<Longrightarrow> canonical_bytes (toBase64Url bs) = Some bs"
  by (simp add: canonical_bytes_def fromBase64Url_toBase64Url)

lemma token22_made: "length bs = 16 \<Longrightarrow> isBase64Url128 (JStr (toBase64Url bs))"
  using canonical_bytes_made [of bs] toBase64Url_chars [of _ bs]
  by (cases bs) (auto simp: isBase64Url128_def token22_def length_toBase64Url list_all_iff)

lemma token_parts_made:
  assumes "length iv = 12" "17 \<le> length enc"
  shows "token_parts (toBase64Url iv @ ''.'' @ toBase64Url enc) = Some (iv, enc)"
proof -
  have ne: "iv \<noteq> []" "enc \<noteq> []" using assms by auto
  have "split_on CHR ''.'' (toBase64Url iv @ ''.'' @ toBase64Url enc) = [toBase64Url iv, toBase64Url enc]"
    using split_on_append [OF toBase64Url_free(1), of iv] split_on_free [OF toBase64Url_free(1), of enc] by simp
  with ne assms show ?thesis
    by (simp add: token_parts_def canonical_bytes_made toBase64Url_not_Nil)
qed

lemma seal_opens:
  assumes "seals cp key aad iv v"
  shows "\<exists>parts. token_parts (seal_token cp key aad iv v) = Some parts \<and> open_parts cp key aad parts = Some v"
proof -
  let ?enc = "cp_encrypt cp key aad iv (cp_json cp v)"
  have "17 \<le> length ?enc"
    using assms by (cases "cp_json cp v") (simp_all add: seals_def)
  then have "token_parts (seal_token cp key aad iv v) = Some (iv, ?enc)"
    using assms token_parts_made [of iv ?enc] by (simp add: seals_def seal_token_def)
  with assms show ?thesis by (simp add: seals_def open_parts_def)
qed

lemma seal_length:
  "seals cp key aad iv v \<Longrightarrow> length (seal_token cp key aad iv v) = encodedVnuRefreshGrantLength cp v"
  by (simp add: seals_def seal_token_def encodedVnuRefreshGrantLength_def length_toBase64Url)

section \<open>Comparisons and names\<close>

lemma or_nat_0: "or (a :: nat) b = 0 \<longleftrightarrow> a = 0 \<and> b = 0"
  by (auto simp: bit_eq_iff bit_or_iff)

lemma xor_nat_0: "xor (a :: nat) b = 0 \<longleftrightarrow> a = b"
  by (auto simp: bit_eq_iff bit_xor_iff)

lemma char_difference_0: "length l = length r \<Longrightarrow> char_difference l r = 0 \<longleftrightarrow> l = r"
  by (induction l r rule: char_difference.induct) (auto simp: or_nat_0 xor_nat_0)

lemma constantTimeEqual_iff: "constantTimeEqual l r \<longleftrightarrow> l = r"
  by (auto simp: constantTimeEqual_def char_difference_0)

lemma normalize_normalize [simp]: "normalizeVnuUsername (normalizeVnuUsername u) = normalizeVnuUsername u"
  by (simp add: normalizeVnuUsername_def js_lower_trim)

lemma hex_digit_in: "n < 16 \<Longrightarrow> hex_digit n \<in> set hex_chars"
  unfolding hex_digit_def by (rule nth_mem) (simp add: hex_chars_def)

lemma encodeHex_hex: "hex_n (2 * length bs) (encodeHex bs)"
proof -
  have "list_all (\<lambda>c. c \<in> set hex_chars) (encodeHex bs)"
  proof (induction bs)
    case (Cons b bs)
    have "unat b div 16 < 16" "unat b mod 16 < 16" using unat_byte [of b] by auto
    with Cons show ?case by (simp add: encodeHex_def hex_digit_in)
  qed (simp add: encodeHex_def)
  moreover have "length (encodeHex bs) = 2 * length bs" by (induction bs) (simp_all add: encodeHex_def)
  ultimately show ?thesis by (simp add: hex_n_def)
qed

section \<open>Reconnect grants\<close>

lemma assert_grant_cases:
  "assertVnuRefreshGrantPayload cp v = Inr () \<Longrightarrow>
     (\<exists>i e. parseCanonicalIso (prop_of ''issuedAt'' v) = Some i \<and> parseCanonicalIso (prop_of ''expiresAt'' v) = Some e
        \<and> e - i = VNU_REFRESH_LIFETIME_MS)
   \<and> encodedVnuRefreshGrantLength cp v \<le> VNU_REFRESH_GRANT_MAX_LENGTH"
  unfolding assertVnuRefreshGrantPayload_def Let_def
  by (auto split: if_splits option.splits)

lemma create_grant:
  assumes "createVnuRefreshGrant cp u pw code now random = Inr g"
  shows "g = grant_value random (normalizeVnuUsername u) pw code (toISOString now) (toISOString (now + VNU_REFRESH_LIFETIME_MS))
     \<and> assertVnuRefreshGrantPayload cp g = Inr ()
     \<and> - max_time \<le> now \<and> now + VNU_REFRESH_LIFETIME_MS \<le> max_time"
  using assms unfolding createVnuRefreshGrant_def time_text_def Let_def
  by (auto simp: sbind_Inr_iff lift_core_def split: if_splits sum.splits)

lemma create_grant_expiry:
  assumes "createVnuRefreshGrant cp u pw code now random = Inr g"
  shows "prop_of ''expiresAt'' g = JStr (toISOString (now + VNU_REFRESH_LIFETIME_MS))"
    and "- max_time \<le> now + VNU_REFRESH_LIFETIME_MS" and "now + VNU_REFRESH_LIFETIME_MS \<le> max_time"
  using create_grant [OF assms] by (simp_all add: grant_value_def VNU_REFRESH_LIFETIME_MS_def)

lemma encrypt_grant:
  assumes "assertVnuRefreshGrantPayload cp g = Inr ()" "32 \<le> length secret"
    and "seals cp (HkdfKey VNU_REFRESH_LABEL secret) VNU_REFRESH_LABEL iv g"
  shows "\<exists>tok. encryptVnuRefreshGrant cp g secret iv = Inr tok
     \<and> length tok = encodedVnuRefreshGrantLength cp g
     \<and> decryptAuthenticatedVnuRefreshGrant cp tok secret = Inr g"
proof -
  let ?tok = "seal_token cp (HkdfKey VNU_REFRESH_LABEL secret) VNU_REFRESH_LABEL iv g"
  have "length ?tok \<le> VNU_REFRESH_GRANT_MAX_LENGTH"
    using seal_length [OF assms(3)] assert_grant_cases [OF assms(1)] by simp
  then have "encryptVnuRefreshGrant cp g secret iv = Inr ?tok"
    using assms(1,2) by (simp add: encryptVnuRefreshGrant_def assertStrongSecret_def Let_def)
  moreover obtain parts where "token_parts ?tok = Some parts"
    "open_parts cp (HkdfKey VNU_REFRESH_LABEL secret) VNU_REFRESH_LABEL parts = Some g"
    using seal_opens [OF assms(3)] by blast
  ultimately show ?thesis
    using assms(1,2) seal_length [OF assms(3)]
    by (simp add: decryptAuthenticatedVnuRefreshGrant_def assertStrongSecret_def)
qed

lemma prop_with_prop: "is_object g \<Longrightarrow> prop_of k (with_prop j v g) = (if k = j then v else prop_of k g)"
  by (cases g) (simp_all add: field_def map_of_update)

lemma assert_grant_object: "assertVnuRefreshGrantPayload cp g = Inr () \<Longrightarrow> is_object g"
  by (cases g) (simp_all add: assertVnuRefreshGrantPayload_def Let_def)

lemma rotate_grant:
  assumes "rotateVnuRefreshGrant cp g random = Inr r"
  shows "assertVnuRefreshGrantPayload cp r = Inr ()"
    and "prop_of ''grantId'' r = JStr (toBase64Url random)"
    and "k \<noteq> ''grantId'' \<Longrightarrow> prop_of k r = prop_of k g"
proof -
  have a: "assertVnuRefreshGrantPayload cp g = Inr ()" "r = with_prop ''grantId'' (JStr (toBase64Url random)) g"
    "assertVnuRefreshGrantPayload cp r = Inr ()"
    using assms by (auto simp: rotateVnuRefreshGrant_def Let_def sbind_Inr_iff)
  note p = prop_with_prop [OF assert_grant_object [OF a(1)]]
  show "assertVnuRefreshGrantPayload cp r = Inr ()" by (rule a(3))
  show "prop_of ''grantId'' r = JStr (toBase64Url random)" by (simp add: a(2) p)
  show "prop_of k r = prop_of k g" if "k \<noteq> ''grantId''" using that by (simp add: a(2) p)
qed

lemma descriptor_created:
  assumes "createVnuRefreshAccessDescriptor cp u gid ae ge secret random = Inr d"
  shows "deriveVnuRefreshPrincipal cp u secret = Inr (text_of_value (prop_of ''principalKey'' d))"
    and "assertVnuRefreshAccessDescriptor d = Inr ()"
    and "prop_of ''grantId'' d = JStr gid" and "prop_of ''grantExpiresAt'' d = JStr ge"
    and "prop_of ''accessExpiresAt'' d = JStr ae"
  using assms by (auto simp: createVnuRefreshAccessDescriptor_def Let_def sbind_Inr_iff descriptor_value_def)

lemma derive_normalized: "deriveVnuRefreshPrincipal cp (normalizeVnuUsername u) secret = deriveVnuRefreshPrincipal cp u secret"
  by (simp add: deriveVnuRefreshPrincipal_def)

lemma matches_descriptor_iff:
  assumes "assertVnuRefreshGrantPayload cp g = Inr ()" "assertVnuRefreshAccessDescriptor d = Inr ()"
  shows "assertVnuRefreshGrantMatchesDescriptor cp g d secret = Inr () \<longleftrightarrow>
     prop_of ''grantId'' g = prop_of ''grantId'' d \<and> prop_of ''expiresAt'' g = prop_of ''grantExpiresAt'' d
   \<and> deriveVnuRefreshPrincipal cp (text_of_value (prop_of ''username'' g)) secret = Inr (text_of_value (prop_of ''principalKey'' d))"
  using assms
  by (cases "deriveVnuRefreshPrincipal cp (text_of_value (prop_of ''username'' g)) secret")
    (auto simp: assertVnuRefreshGrantMatchesDescriptor_def constantTimeEqual_iff)

text \<open>
  C19. A reconnect grant that was created encrypts, to a token of exactly the length its payload
  was checked against, and never to an oversized one; the token opens to the grant for eight
  hours from its creation and to the grant's error from then on, and at a logout always.
  Rotating it replaces the identifier and keeps everything else, the expiry included. A
  descriptor made for the same user name (in any letter case and surrounded by any white
  space), identifier and expiry matches it, and no descriptor matches that has another
  identifier.
\<close>

theorem grant_lifecycle:
  assumes "createVnuRefreshGrant cp u pw code now random = Inr g" "32 \<le> length secret" "reads_dates cp"
    and "seals cp (HkdfKey VNU_REFRESH_LABEL secret) VNU_REFRESH_LABEL iv g"
  shows "(\<exists>tok. encryptVnuRefreshGrant cp g secret iv = Inr tok
       \<and> length tok = encodedVnuRefreshGrantLength cp g \<and> length tok \<le> VNU_REFRESH_GRANT_MAX_LENGTH
       \<and> (\<forall>t. decryptVnuRefreshGrant cp tok secret t
            = (if t < now + VNU_REFRESH_LIFETIME_MS then Inr g else Inl invalidVnuRefreshGrant))
       \<and> decryptVnuRefreshGrantForLogout cp tok secret = Inr g)
   \<and> (\<forall>random' r. rotateVnuRefreshGrant cp g random' = Inr r \<longrightarrow>
        assertVnuRefreshGrantPayload cp r = Inr () \<and> prop_of ''grantId'' r = JStr (toBase64Url random')
      \<and> prop_of ''expiresAt'' r = prop_of ''expiresAt'' g \<and> prop_of ''username'' r = prop_of ''username'' g
      \<and> prop_of ''password'' r = prop_of ''password'' g)
   \<and> (\<forall>name gid ae random' d. normalizeVnuUsername name = normalizeVnuUsername u \<longrightarrow>
        createVnuRefreshAccessDescriptor cp name gid ae (toISOString (now + VNU_REFRESH_LIFETIME_MS)) secret random' = Inr d \<longrightarrow>
        (assertVnuRefreshGrantMatchesDescriptor cp g d secret = Inr () \<longleftrightarrow> gid = toBase64Url random))"
proof (intro conjI allI impI)
  note c = create_grant [OF assms(1)] and e = create_grant_expiry [OF assms(1)]
  have "isExpired cp (text_of_value (prop_of ''expiresAt'' g)) t = (now + VNU_REFRESH_LIFETIME_MS \<le> t)" for t
    using assms(3) e by (simp add: isExpired_def reads_dates_def)
  moreover obtain tok where "encryptVnuRefreshGrant cp g secret iv = Inr tok"
    "length tok = encodedVnuRefreshGrantLength cp g" "decryptAuthenticatedVnuRefreshGrant cp tok secret = Inr g"
    using encrypt_grant [OF _ assms(2,4)] c by blast
  ultimately show "\<exists>tok. encryptVnuRefreshGrant cp g secret iv = Inr tok
       \<and> length tok = encodedVnuRefreshGrantLength cp g \<and> length tok \<le> VNU_REFRESH_GRANT_MAX_LENGTH
       \<and> (\<forall>t. decryptVnuRefreshGrant cp tok secret t
            = (if t < now + VNU_REFRESH_LIFETIME_MS then Inr g else Inl invalidVnuRefreshGrant))
       \<and> decryptVnuRefreshGrantForLogout cp tok secret = Inr g"
    using assert_grant_cases [of cp g] c
    by (auto simp: decryptVnuRefreshGrant_def decryptVnuRefreshGrantForLogout_def)
  fix random' r
  assume r: "rotateVnuRefreshGrant cp g random' = Inr r"
  show "assertVnuRefreshGrantPayload cp r = Inr ()" "prop_of ''grantId'' r = JStr (toBase64Url random')"
    by (rule rotate_grant [OF r])+
  show "prop_of ''expiresAt'' r = prop_of ''expiresAt'' g" "prop_of ''username'' r = prop_of ''username'' g"
    "prop_of ''password'' r = prop_of ''password'' g"
    by (rule rotate_grant(3) [OF r], simp)+
next
  fix name gid ae random' d
  assume n: "normalizeVnuUsername name = normalizeVnuUsername u"
    and d: "createVnuRefreshAccessDescriptor cp name gid ae (toISOString (now + VNU_REFRESH_LIFETIME_MS)) secret random' = Inr d"
  note c = create_grant [OF assms(1)]
  have "deriveVnuRefreshPrincipal cp (normalizeVnuUsername u) secret = deriveVnuRefreshPrincipal cp name secret"
    using n derive_normalized by metis
  then show "assertVnuRefreshGrantMatchesDescriptor cp g d secret = Inr () \<longleftrightarrow> gid = toBase64Url random"
    using c descriptor_created [OF d] matches_descriptor_iff [of cp g d secret]
    by (auto simp: grant_value_def)
qed

definition sample_platform :: "jval \<Rightarrow> core_platform" where
  "sample_platform v = \<lparr>cp_json = (\<lambda>_. [1]), cp_parse = (\<lambda>_. Some v),
     cp_encrypt = (\<lambda>_ _ _ p. p @ replicate 16 0), cp_decrypt = (\<lambda>_ _ _ b. Some (take (length b - 16) b)),
     cp_hmac = (\<lambda>_ _. replicate 32 0), cp_date = canonicalTime\<rparr>"

definition sample_secret :: string where "sample_secret = replicate 32 CHR ''k''"

lemma sample_seals: "seals (sample_platform v) key aad (replicate 12 0) v"
  by (simp add: seals_def sample_platform_def)

lemma sample_dates: "reads_dates (sample_platform v)"
  by (simp add: reads_dates_def sample_platform_def canonicalTime_toISOString)

definition sample_grant :: jval where
  "sample_grant = grant_value (replicate 16 0) ''20020001'' ''pw'' ''20020001''
     (toISOString 0) (toISOString VNU_REFRESH_LIFETIME_MS)"

lemma sample_grant_created:
  "createVnuRefreshGrant (sample_platform sample_grant) '' 20020001 '' ''pw'' ''20020001'' 0 (replicate 16 0) = Inr sample_grant"
proof -
  have n: "normalizeVnuUsername '' 20020001 '' = ''20020001''" "normalizeVnuUsername ''20020001'' = ''20020001''" by code_simp+
  have t: "- max_time \<le> 0 \<and> 0 \<le> max_time" "- max_time \<le> VNU_REFRESH_LIFETIME_MS \<and> VNU_REFRESH_LIFETIME_MS \<le> max_time"
    by (simp_all add: max_time_def VNU_REFRESH_LIFETIME_MS_def)
  have c: "canonicalTime (toISOString 0) = Some 0"
    "canonicalTime (toISOString VNU_REFRESH_LIFETIME_MS) = Some VNU_REFRESH_LIFETIME_MS"
    using t canonicalTime_toISOString by blast+
  have "assertVnuRefreshGrantPayload (sample_platform sample_grant) sample_grant = Inr ()"
    unfolding assertVnuRefreshGrantPayload_def Let_def sample_grant_def grant_value_def
    using c n token22_made [of "replicate 16 0"]
    by (simp add: GRANT_KEYS_def encodedVnuRefreshGrantLength_def sample_platform_def VNU_REFRESH_GRANT_MAX_LENGTH_def)
  then show ?thesis
    unfolding createVnuRefreshGrant_def time_text_def Let_def
    using n t by (simp add: lift_core_def sample_grant_def)
qed

theorem grant_lifecycle_witness:
  "\<exists>tok. encryptVnuRefreshGrant (sample_platform sample_grant) sample_grant sample_secret (replicate 12 0) = Inr tok
     \<and> decryptVnuRefreshGrant (sample_platform sample_grant) tok sample_secret 28799999 = Inr sample_grant
     \<and> decryptVnuRefreshGrant (sample_platform sample_grant) tok sample_secret 28800000 = Inl invalidVnuRefreshGrant"
proof -
  have "32 \<le> length sample_secret" by (simp add: sample_secret_def)
  from grant_lifecycle [OF sample_grant_created this sample_dates sample_seals]
  obtain tok where "encryptVnuRefreshGrant (sample_platform sample_grant) sample_grant sample_secret (replicate 12 0) = Inr tok"
    "\<And>t. decryptVnuRefreshGrant (sample_platform sample_grant) tok sample_secret t
       = (if t < 0 + VNU_REFRESH_LIFETIME_MS then Inr sample_grant else Inl invalidVnuRefreshGrant)"
    by blast
  then show ?thesis by (simp add: VNU_REFRESH_LIFETIME_MS_def)
qed

section \<open>Sessions\<close>

lemma parse_session_value: "parseEncryptedSessionPayload v = Inr w \<Longrightarrow> w = v"
  unfolding parseEncryptedSessionPayload_def Let_def by (auto simp: sbind_Inr_iff split: if_splits)

lemma parse_session_error: "parseEncryptedSessionPayload v = Inl e \<Longrightarrow> e = invalidSession"
  unfolding parseEncryptedSessionPayload_def Let_def assertVnuRefreshAccessDescriptor_def
  by (auto split: if_splits)

text \<open>What a payload with an access descriptor is known to be.\<close>

definition linked_session :: "jval \<Rightarrow> bool" where
  "linked_session v \<longleftrightarrow> descriptor_ok (prop_of ''vnuRefresh'' v)
   \<and> prop_of ''universityId'' v = JStr ''vnu'' \<and> isNonemptyString (prop_of ''value'' (prop_of ''vnu'' v))
   \<and> prop_of ''accessExpiresAt'' (prop_of ''vnuRefresh'' v) = prop_of ''expiresAt'' v
   \<and> (\<exists>e. - max_time \<le> e \<and> e \<le> max_time \<and> prop_of ''expiresAt'' v = JStr (toISOString e))"

lemma parse_session_linked:
  assumes "parseEncryptedSessionPayload v = Inr w"
  shows "is_object v \<and> prop_of ''version'' v = JInt 1 \<and> (prop_of ''vnuRefresh'' v = JUndefined \<or> linked_session v)"
proof -
  have iso: "\<exists>e. - max_time \<le> e \<and> e \<le> max_time \<and> x = JStr (toISOString e)" if "parseCanonicalIso x = Some e" for x e
    using that by (cases x) (auto simp: canonicalTime_Some_iff)
  show ?thesis
    using assms unfolding parseEncryptedSessionPayload_def Let_def assertVnuRefreshAccessDescriptor_def linked_session_def
    by (auto split: if_splits dest: iso)
qed

lemma decryptAccessToken_result:
  "case decryptAccessToken cp token secret of Inl e \<Rightarrow> e = invalidSession
   | Inr w \<Rightarrow> is_object w \<and> prop_of ''version'' w = JInt 1 \<and> (prop_of ''vnuRefresh'' w = JUndefined \<or> linked_session w)"
proof (cases "decryptAccessToken cp token secret")
  case (Inl e)
  then show ?thesis
    by (auto simp: decryptAccessToken_def split: option.splits dest: parse_session_error)
next
  case (Inr w)
  then obtain v where "parseEncryptedSessionPayload v = Inr w"
    by (auto simp: decryptAccessToken_def split: option.splits)
  with Inr show ?thesis using parse_session_linked parse_session_value by fastforce
qed

lemma encrypt_session_opens:
  assumes "encryptSession cp v secret iv = Inr tok" "seals cp (DigestKey secret) [] iv v"
  shows "32 \<le> length secret" and "parseEncryptedSessionPayload v = Inr v" and "decryptAccessToken cp tok secret = Inr v"
proof -
  have p: "32 \<le> length secret" "parseEncryptedSessionPayload v = Inr v" "tok = seal_token cp (DigestKey secret) [] iv v"
    using assms(1) parse_session_value [of v]
    by (auto simp: encryptSession_def assertStrongSecret_def sbind_Inr_iff split: if_splits)
  then show "32 \<le> length secret" "parseEncryptedSessionPayload v = Inr v" by simp_all
  show "decryptAccessToken cp tok secret = Inr v"
    using seal_opens [OF assms(2)] p by (auto simp: decryptAccessToken_def)
qed

text \<open>
  An encrypted session is returned by every decryption until it expires and refused as
  expired from then on; a session with an access descriptor is a VNU session with a credential,
  lives exactly until the canonical time its descriptor names, and only such a session opens for
  a refresh or a logout. Whatever token is presented, a decryption fails as invalid or expired or
  returns an object of the supported version. A session without a descriptor whose expiry is
  missing never expires.
\<close>

theorem session_token_roundtrip:
  assumes "encryptSession cp v secret iv = Inr tok" "seals cp (DigestKey secret) [] iv v" "reads_dates cp"
  shows "32 \<le> length secret
   \<and> (\<forall>t. decryptSession cp tok secret t
        = (if expired_value cp (prop_of ''expiresAt'' v) t then Inl sessionExpired else Inr v))
   \<and> (if prop_of ''vnuRefresh'' v = JUndefined
      then decryptVnuRefreshPurposeToken cp tok secret = Inl invalidSession
      else linked_session v \<and> decryptVnuRefreshPurposeToken cp tok secret = Inr v
        \<and> (\<exists>e. prop_of ''accessExpiresAt'' (prop_of ''vnuRefresh'' v) = JStr (toISOString e)
            \<and> (\<forall>t. decryptSession cp tok secret t = (if e \<le> t then Inl sessionExpired else Inr v))))
   \<and> (prop_of ''expiresAt'' v = JUndefined \<longrightarrow> (\<forall>t. decryptSession cp tok secret t = Inr v))
   \<and> (\<forall>token t. case decryptSession cp token secret t of
        Inl e \<Rightarrow> e = invalidSession \<or> e = sessionExpired
      | Inr w \<Rightarrow> is_object w \<and> prop_of ''version'' w = JInt 1 \<and> (prop_of ''vnuRefresh'' w = JUndefined \<or> linked_session w))"
proof -
  note o = encrypt_session_opens [OF assms(1,2)]
  have d: "decryptSession cp tok secret t
      = (if expired_value cp (prop_of ''expiresAt'' v) t then Inl sessionExpired else Inr v)" for t
    by (simp add: decryptSession_def o(3))
  have l: "\<exists>e. prop_of ''accessExpiresAt'' (prop_of ''vnuRefresh'' v) = JStr (toISOString e)
            \<and> (\<forall>t. decryptSession cp tok secret t = (if e \<le> t then Inl sessionExpired else Inr v))"
    if "linked_session v"
    using that assms(3) d by (auto simp: linked_session_def reads_dates_def expired_value_def date_value_def)
  have u: "decryptSession cp tok secret t = Inr v" if "prop_of ''expiresAt'' v = JUndefined" for t
    using that d by (simp add: expired_value_def date_value_def)
  have r: "case decryptSession cp token secret t of
        Inl e \<Rightarrow> e = invalidSession \<or> e = sessionExpired
      | Inr w \<Rightarrow> is_object w \<and> prop_of ''version'' w = JInt 1 \<and> (prop_of ''vnuRefresh'' w = JUndefined \<or> linked_session w)"
    for token t
    using decryptAccessToken_result [of cp token secret]
    by (cases "decryptAccessToken cp token secret") (auto simp: decryptSession_def)
  have p: "decryptVnuRefreshPurposeToken cp tok secret = (if prop_of ''vnuRefresh'' v = JUndefined then Inl invalidSession else Inr v)"
    by (simp add: decryptVnuRefreshPurposeToken_def o(3))
  have k: "if prop_of ''vnuRefresh'' v = JUndefined
      then decryptVnuRefreshPurposeToken cp tok secret = Inl invalidSession
      else linked_session v \<and> decryptVnuRefreshPurposeToken cp tok secret = Inr v
        \<and> (\<exists>e. prop_of ''accessExpiresAt'' (prop_of ''vnuRefresh'' v) = JStr (toISOString e)
            \<and> (\<forall>t. decryptSession cp tok secret t = (if e \<le> t then Inl sessionExpired else Inr v)))"
    using parse_session_linked [OF o(2)] p l by (auto split: if_splits)
  show ?thesis by (intro conjI allI impI o(1) d u r k) simp_all
qed

definition sample_session :: jval where
  "sample_session = JObj [(''version'', JInt 1), (''universityId'', JStr ''vnu''), (''studentCode'', JStr ''20020001''),
     (''vnu'', JObj [(''kind'', JStr ''cookie''), (''value'', JStr ''c'')]), (''expiresAt'', JStr (toISOString 3600000)),
     (''vnuRefresh'', descriptor_value (replicate 64 CHR ''0'') (replicate 16 1) (toBase64Url (replicate 16 0))
        (toISOString 3600000) (toISOString VNU_REFRESH_LIFETIME_MS))]"

theorem session_token_roundtrip_witness:
  "\<exists>tok. encryptSession (sample_platform sample_session) sample_session sample_secret (replicate 12 0) = Inr tok
     \<and> decryptSession (sample_platform sample_session) tok sample_secret 3599999 = Inr sample_session
     \<and> decryptSession (sample_platform sample_session) tok sample_secret 3600000 = Inl sessionExpired"
proof -
  let ?cp = "sample_platform sample_session" and ?tok = "seal_token (sample_platform sample_session) (DigestKey sample_secret) [] (replicate 12 0) sample_session"
  have c: "canonicalTime (toISOString 3600000) = Some 3600000"
    "canonicalTime (toISOString VNU_REFRESH_LIFETIME_MS) = Some VNU_REFRESH_LIFETIME_MS"
    using canonicalTime_toISOString [of 3600000] canonicalTime_toISOString [of VNU_REFRESH_LIFETIME_MS]
    by (simp_all add: max_time_def VNU_REFRESH_LIFETIME_MS_def)
  have h: "hex_n 64 (replicate 64 CHR ''0'')" by code_simp
  have "parseEncryptedSessionPayload sample_session = Inr sample_session"
    unfolding parseEncryptedSessionPayload_def Let_def sample_session_def assertVnuRefreshAccessDescriptor_def
      descriptor_ok_def descriptor_value_def
    using c h token22_made [of "replicate 16 0"] token22_made [of "replicate 16 1"]
    by (simp add: CORE_SESSION_KEYS_def DESCRIPTOR_KEYS_def CREDENTIAL_KEYS_def absent_or_def assertUpstreamCredential_def)
  then have e: "encryptSession ?cp sample_session sample_secret (replicate 12 0) = Inr ?tok"
    by (simp add: encryptSession_def assertStrongSecret_def sample_secret_def)
  have "prop_of ''expiresAt'' sample_session = JStr (toISOString 3600000)" by (simp add: sample_session_def)
  then have "expired_value ?cp (prop_of ''expiresAt'' sample_session) t = (3600000 \<le> t)" for t
    using c by (simp add: expired_value_def date_value_def sample_platform_def)
  with session_token_roundtrip [OF e sample_seals sample_dates] e show ?thesis by simp
qed

end
