(* ===== verification/AppShared.thy ===== *)
theory AppShared
  imports SessionTokens
begin

text \<open>
  What the parts of \<open>apps/worker/src/app.ts\<close> share: the errors of sessions and of missing
  dependencies, the keyed digest of names, and the bounded reading of a JSON body, which the
  sign-in routes and the cross-detail routes spell out alike.
\<close>

section \<open>Errors\<close>

definition missingSession :: hyeboard_error where
  "missingSession = core_error ''MISSING_SESSION'' ''Missing Authorization bearer token'' 401"

definition missingVnuCredential :: hyeboard_error where
  "missingVnuCredential = (core_error ''VNU_LOGIN_REQUIRED'' ''VNU data needs an active university portal credential.'' 401)
     \<lparr>err_details := [(''reason'', JStr ''MISSING_VNU_CREDENTIAL'')]\<rparr>"

definition incompleteVnuProfile :: hyeboard_error where
  "incompleteVnuProfile = core_error ''VNU_PROFILE_INCOMPLETE'' ''The university portal profile is incomplete.'' 500"

definition distributedDependencyUnavailable :: "string \<Rightarrow> hyeboard_error" where
  "distributedDependencyUnavailable dependency =
     (core_error ''HA_DEPENDENCY_UNAVAILABLE'' (''The distributed '' @ dependency @ '' dependency is unavailable.'') 503)
     \<lparr>err_details := [(''dependency'', JStr dependency)]\<rparr>"

definition payloadTooLarge :: hyeboard_error where
  "payloadTooLarge = core_error ''PAYLOAD_TOO_LARGE'' ''The request body is too large.'' 413"

definition getSessionSecret :: "string option \<Rightarrow> hyeboard_error + string" where
  "getSessionSecret configured = (case configured of
     None \<Rightarrow> Inl (core_error ''SERVER_CONFIG_ERROR'' ''HYEB_SESSION_SECRET not configured'' 500)
   | Some s \<Rightarrow>
       if s = [] then Inl (core_error ''SERVER_CONFIG_ERROR'' ''HYEB_SESSION_SECRET not configured'' 500)
       else if length s < 32
       then Inl (core_error ''WEAK_SESSION_SECRET'' ''HYEB_SESSION_SECRET must be >= 32 characters'' 500)
       else Inr s)"

section \<open>Keyed names\<close>

definition newline :: string where "newline = [CHR 0x0A]"

definition hmacHex :: "core_platform \<Rightarrow> string \<Rightarrow> string \<Rightarrow> string" where
  "hmacHex cp secret v = encodeHex (cp_hmac cp (RawKey secret) v)"

text \<open>JavaScript truthiness; a number that is no integer is a fraction, which is true.\<close>

fun truthy :: "jval \<Rightarrow> bool" where
  "truthy JUndefined = False"
| "truthy JNull = False"
| "truthy (JBool b) = b"
| "truthy (JInt n) = (n \<noteq> 0)"
| "truthy (JStr s) = (s \<noteq> [])"
| "truthy _ = True"

section \<open>Bodies\<close>

text \<open>
  A request: its \<open>Content-Length\<close>, which a server admits as digits only, and the chunks of its
  body when it has one. The JSON parser reads strict UTF-8.
\<close>

record body_request =
  br_declared :: "int option"
  br_chunks :: "bytes list option"

fun read_chunks :: "int \<Rightarrow> bytes \<Rightarrow> bytes list \<Rightarrow> bytes option" where
  "read_chunks limit acc [] = Some acc"
| "read_chunks limit acc (c # cs) =
     (if int (length acc) + int (length c) > limit then None else read_chunks limit (acc @ c) cs)"

definition read_bounded ::
  "(bytes \<Rightarrow> jval option) \<Rightarrow> hyeboard_error \<Rightarrow> body_request \<Rightarrow> int \<Rightarrow> hyeboard_error + jval" where
  "read_bounded parse invalid rq limit =
    (if (case br_declared rq of None \<Rightarrow> False | Some n \<Rightarrow> n > limit) then Inl payloadTooLarge
     else case br_chunks rq of
       None \<Rightarrow> Inl invalid
     | Some cs \<Rightarrow> (case read_chunks limit [] cs of
         None \<Rightarrow> Inl payloadTooLarge
       | Some bs \<Rightarrow> (case parse bs of None \<Rightarrow> Inl invalid | Some v \<Rightarrow> Inr v)))"

fun own_keys :: "jval \<Rightarrow> string list" where
  "own_keys (JObj kvs) = map fst kvs"
| "own_keys _ = []"

lemma read_chunks_total:
  "int (length acc) \<le> limit \<Longrightarrow> read_chunks limit acc cs =
     (if int (length acc + length (concat cs)) \<le> limit then Some (acc @ concat cs) else None)"
proof (induction cs arbitrary: acc)
  case (Cons c cs)
  then show ?case
    by (cases "int (length acc) + int (length c) \<le> limit") auto
qed simp

text \<open>The bytes that are read: all of them or none.\<close>

definition body_bytes :: "body_request \<Rightarrow> int \<Rightarrow> bytes option" where
  "body_bytes rq limit = (case (br_declared rq, br_chunks rq) of
     (_, None) \<Rightarrow> None
   | (d, Some cs) \<Rightarrow> if (case d of None \<Rightarrow> True | Some n \<Rightarrow> n \<le> limit) \<and> int (length (concat cs)) \<le> limit
       then Some (concat cs) else None)"

lemma read_bounded_iff:
  assumes "0 \<le> limit"
  shows "read_bounded parse e rq limit = Inr v \<longleftrightarrow> (\<exists>bs. body_bytes rq limit = Some bs \<and> parse bs = Some v)"
  using assms
  by (auto simp: read_bounded_def body_bytes_def read_chunks_total split: option.splits)

end
