(* ===== verification/CrossDetail.thy ===== *)
theory CrossDetail
  imports AppShared VnuConfig
begin

text \<open>
  Cross-student grade details, \<open>apps/worker/src/vnu/vnu-cross-detail.ts\<close> and the functions of
  \<open>apps/worker/src/app.ts\<close> that use it: permits are minted for the rows of a transcript, issued
  to the budget object of the session, presented in a bounded request body, consumed once, and
  then the portal is asked for the row the sealed envelope names. The portal is a parameter.
\<close>

section \<open>Errors\<close>

definition crossDetailUnavailable :: hyeboard_error where
  "crossDetailUnavailable = core_error ''VNU_CROSS_DETAIL_UNAVAILABLE''
     ''Cross-student grade detail is unavailable on this deployment.'' 503"

definition crossDetailBodyInvalid :: hyeboard_error where
  "crossDetailBodyInvalid = core_error ''VNU_CROSS_DETAIL_BODY_INVALID'' ''The cross-detail request body is invalid.'' 400"

definition crossDetailNotExplicitlyAllowed :: hyeboard_error where
  "crossDetailNotExplicitlyAllowed = core_error ''VNU_CROSS_LOOKUP_NOT_EXPLICITLY_ALLOWED''
     ''Cross-student lookup requires the literal allowCrossLookup: true opt-in.'' 400"

definition crossDetailExportNotSelected :: hyeboard_error where
  "crossDetailExportNotSelected = core_error ''VNU_CROSS_DETAIL_EXPORT_NOT_SELECTED''
     ''Cross-detail export requires an explicit selected set of row permits.'' 400"

definition VNU_CROSS_DETAIL_PERMIT_MAX_LENGTH :: nat where "VNU_CROSS_DETAIL_PERMIT_MAX_LENGTH = 1100"

definition VNU_CROSS_DETAIL_BODY_OVERHEAD_BYTES :: int where "VNU_CROSS_DETAIL_BODY_OVERHEAD_BYTES = 1024"

section \<open>Keyed digests\<close>

datatype detail_domain = DRequester | DTarget | DRevision | DRow | DPermit

fun domain_name :: "detail_domain \<Rightarrow> string" where
  "domain_name DRequester = ''requester''"
| "domain_name DTarget = ''target''"
| "domain_name DRevision = ''revision''"
| "domain_name DRow = ''row''"
| "domain_name DPermit = ''permit''"

definition hmacVnuCrossDetail :: "core_platform \<Rightarrow> string \<Rightarrow> detail_domain \<Rightarrow> string \<Rightarrow> string" where
  "hmacVnuCrossDetail cp secret d v =
     encodeHex (cp_hmac cp (RawKey secret) (''hyeboard:vnu-cross-detail:v1:'' @ domain_name d @ newline @ v))"

section \<open>Minting\<close>

record detail_row =
  row_courseCode :: string
  row_classId :: string
  row_termOrdinal :: string

record minter_options =
  mo_secret :: string
  mo_requesterToken :: string
  mo_maxTargets :: int
  mo_maxRows :: int
  mo_permitTtlSeconds :: int

text \<open>The permits issued so far and the set of their targets; the mints of a minter run one by one.\<close>

record minter =
  mn_issued :: "issued_permit list"
  mn_targets :: "string list"

definition createVnuCrossDetailMinter :: minter where
  "createVnuCrossDetailMinter = \<lparr>mn_issued = [], mn_targets = []\<rparr>"

record mint_random =
  mr_permitId :: bytes
  mr_nonce :: bytes
  mr_iv :: bytes

definition row_text :: "string \<Rightarrow> detail_row \<Rightarrow> string" where
  "row_text target row = target @ newline @ row_termOrdinal row @ newline @ row_classId row @ newline @ row_courseCode row"

definition envelope_value :: "string \<Rightarrow> string \<Rightarrow> string \<Rightarrow> string \<Rightarrow> string \<Rightarrow> string \<Rightarrow> string \<Rightarrow> jval" where
  "envelope_value nn target revision row stdId classId term = JObj
     [(''version'', JInt 1), (''purpose'', JStr ''vnu-cross-detail''), (''nonce'', JStr nn),
      (''targetHmac'', JStr target), (''revisionHmac'', JStr revision), (''rowHmac'', JStr row),
      (''selector'', JObj [(''stdId'', JStr stdId), (''classId'', JStr classId), (''termOrdinal'', JStr term)])]"

definition mint :: "core_platform \<Rightarrow> minter_options \<Rightarrow> minter \<Rightarrow> string \<Rightarrow> string \<Rightarrow> detail_row \<Rightarrow> mint_random \<Rightarrow> int \<Rightarrow>
    (hyeboard_error + string option) \<times> minter" where
  "mint cp o' m target html row rnd now =
    (if int (length (mn_issued m)) \<ge> mo_maxRows o' then (Inr None, m)
     else if target \<notin> set (mn_targets m) \<and> int (length (mn_targets m)) \<ge> mo_maxTargets o' then (Inr None, m)
     else
       (let h = hmacVnuCrossDetail cp (mo_secret o');
            requester = h DRequester (mo_requesterToken o'); tgt = h DTarget target;
            revision = h DRevision html; rw = h DRow (row_text target row);
            permitId = encodeHex (mr_permitId rnd); nn = encodeHex (mr_nonce rnd);
            v = envelope_value nn tgt revision rw target (row_classId row) (row_termOrdinal row) in
        case encryptVnuCrossDetailPermitEnvelope cp v (mo_secret o') (mr_iv rnd) of
          Inl e \<Rightarrow> (Inl e, m)
        | Inr env \<Rightarrow> (Inr (Some (permitId @ ''.'' @ env)),
            \<lparr>mn_issued = mn_issued m @ [\<lparr>permitHash = h DPermit permitId,
               ip_record = \<lparr>requesterHmac = requester, targetHmac = tgt, revisionHmac = revision, rowHmac = rw,
                 policyVersion = VNU_CROSS_DETAIL_POLICY_VERSION, nonce = nn, envelope = env,
                 expiresAt = now + mo_permitTtlSeconds o' * 1000\<rparr>\<rparr>],
             mn_targets = (if target \<in> set (mn_targets m) then mn_targets m else mn_targets m @ [target])\<rparr>)))"

section \<open>Presenting a permit\<close>

text \<open>The permit identifier, a dot, and the two parts of the envelope.\<close>

definition permit_parts :: "string \<Rightarrow> (string \<times> string) option" where
  "permit_parts s = (case split_on CHR ''.'' s of
     [i, a, b] \<Rightarrow> if hex_n 32 i \<and> BASE64URL a \<and> BASE64URL b then Some (i, a @ ''.'' @ b) else None
   | _ \<Rightarrow> None)"

fun parseVnuCrossDetailPermitString :: "jval \<Rightarrow> hyeboard_error + (string \<times> string)" where
  "parseVnuCrossDetailPermitString (JStr s) =
     (if length s > VNU_CROSS_DETAIL_PERMIT_MAX_LENGTH then Inl crossDetailPermitInvalid
      else case permit_parts s of None \<Rightarrow> Inl crossDetailPermitInvalid | Some p \<Rightarrow> Inr p)"
| "parseVnuCrossDetailPermitString _ = Inl crossDetailPermitInvalid"

definition buildVnuCrossDetailConsumeInput :: "core_platform \<Rightarrow> string \<Rightarrow> string \<Rightarrow> string \<Rightarrow> jval \<Rightarrow> consume_input" where
  "buildVnuCrossDetailConsumeInput cp secret requesterToken permitId presented =
    (let p = (\<lambda>k. text_of_value (prop_of k presented)) in
     \<lparr>ci_permitHash = hmacVnuCrossDetail cp secret DPermit permitId, ci_nonce = p ''nonce'',
      ci_requesterHmac = hmacVnuCrossDetail cp secret DRequester requesterToken,
      ci_targetHmac = p ''targetHmac'', ci_revisionHmac = p ''revisionHmac'', ci_rowHmac = p ''rowHmac'',
      ci_policyVersion = VNU_CROSS_DETAIL_POLICY_VERSION\<rparr>)"

section \<open>Request bodies\<close>

definition crossDetailBodyMaxBytes :: "int \<Rightarrow> int" where
  "crossDetailBodyMaxBytes rows =
     min (max 1 rows) 512 * (int VNU_CROSS_DETAIL_PERMIT_MAX_LENGTH + 16) + VNU_CROSS_DETAIL_BODY_OVERHEAD_BYTES"

definition readBoundedJsonBody :: "(bytes \<Rightarrow> jval option) \<Rightarrow> body_request \<Rightarrow> int \<Rightarrow> hyeboard_error + jval" where
  "readBoundedJsonBody parse = read_bounded parse crossDetailBodyInvalid"

datatype body_kind = SingleBody | BulkBody | ExportBody

fun CROSS_DETAIL_BODY_KEYS :: "body_kind \<Rightarrow> string list" where
  "CROSS_DETAIL_BODY_KEYS SingleBody = [''allowCrossLookup'', ''permit'']"
| "CROSS_DETAIL_BODY_KEYS BulkBody = [''allowCrossLookup'', ''permits'']"
| "CROSS_DETAIL_BODY_KEYS ExportBody = [''allowCrossLookup'', ''permits'']"

fun permit_text :: "jval \<Rightarrow> string option" where
  "permit_text (JStr s) =
     (if length s > VNU_CROSS_DETAIL_PERMIT_MAX_LENGTH \<or> permit_parts s = None then None else Some s)"
| "permit_text _ = None"

fun permit_loop :: "jval list \<Rightarrow> string list \<Rightarrow> hyeboard_error + unit" where
  "permit_loop [] seen = Inr ()"
| "permit_loop (v # vs) seen = (case permit_text v of
     None \<Rightarrow> Inl crossDetailBodyInvalid
   | Some s \<Rightarrow> if s \<in> set seen then Inl crossDetailBodyInvalid else permit_loop vs (s # seen))"

fun bounded_array :: "jval \<Rightarrow> int \<Rightarrow> jval list option" where
  "bounded_array (JArr vs) rows = (if vs = [] \<or> int (length vs) > rows then None else Some vs)"
| "bounded_array _ rows = None"

definition parsePermitArray :: "jval \<Rightarrow> int \<Rightarrow> hyeboard_error \<Rightarrow> hyeboard_error + string list" where
  "parsePermitArray v rows shapeInvalid = (case bounded_array v rows of
     None \<Rightarrow> Inl shapeInvalid
   | Some vs \<Rightarrow> sbind (permit_loop vs []) (\<lambda>_. Inr (map text_of_value vs)))"

text \<open>The permits an opted-in body names: one for a single request.\<close>

definition selected_permits :: "body_kind \<Rightarrow> int \<Rightarrow> jval \<Rightarrow> hyeboard_error + string list" where
  "selected_permits kind rows v =
    (let unknown = \<not> list_all (\<lambda>k. k \<in> set (CROSS_DETAIL_BODY_KEYS kind)) (own_keys v) in
     (case kind of
        SingleBody \<Rightarrow>
          if unknown then Inl crossDetailBodyInvalid
          else (case permit_text (prop_of ''permit'' v) of
              None \<Rightarrow> Inl crossDetailBodyInvalid | Some s \<Rightarrow> Inr [s])
      | _ \<Rightarrow>
          if kind = ExportBody \<and> bounded_array (prop_of ''permits'' v) rows = None then Inl crossDetailExportNotSelected
          else if unknown then Inl crossDetailBodyInvalid
          else parsePermitArray (prop_of ''permits'' v) rows
            (if kind = ExportBody then crossDetailExportNotSelected else crossDetailBodyInvalid)))"

definition readVnuCrossDetailBody ::
  "(bytes \<Rightarrow> jval option) \<Rightarrow> body_request \<Rightarrow> body_kind \<Rightarrow> int \<Rightarrow> hyeboard_error + string list" where
  "readVnuCrossDetailBody parse rq kind rows =
     sbind (readBoundedJsonBody parse rq (crossDetailBodyMaxBytes rows)) (\<lambda>v.
     if \<not> is_object v then Inl crossDetailBodyInvalid
     else if prop_of ''allowCrossLookup'' v \<noteq> JBool True then Inl crossDetailNotExplicitlyAllowed
     else selected_permits kind rows v)"

section \<open>Consuming and fetching\<close>

text \<open>The limits of the university in effect, when the deployment serves the details at all.\<close>

definition crossDetailLimits :: "vnu_config \<Rightarrow> bool \<Rightarrow> (int \<times> int \<times> int) option \<Rightarrow> hyeboard_error + cross_limits" where
  "crossDetailLimits cfg installed effective = (case effective of
     None \<Rightarrow> Inl crossDetailUnavailable
   | Some (targets, rows, conc) \<Rightarrow>
       if \<not> vc_detailEnabled cfg \<or> \<not> installed then Inl crossDetailUnavailable
       else Inr \<lparr>maxTargets = targets, maxRows = rows, concurrency = conc,
         cl_budget = vc_detailBudget cfg, cl_windowSeconds = vc_detailWindowSeconds cfg\<rparr>)"

definition vnuProbeBudgetKey :: "core_platform \<Rightarrow> string \<Rightarrow> jval \<Rightarrow> hyeboard_error + string" where
  "vnuProbeBudgetKey cp secret session =
    (let credential = prop_of ''value'' (prop_of ''vnu'' session) in
     if prop_of ''universityId'' session \<noteq> JStr ''vnu'' \<or> \<not> truthy credential then Inl missingVnuCredential
     else Inr (hmacHex cp secret (text_of_value credential @ newline @ text_of_value (prop_of ''expiresAt'' session))))"

text \<open>What a call of the coordinator throws, as the request sees it; a failed assertion has no code.\<close>

definition thrown :: "coordinator_error \<Rightarrow> hyeboard_error option" where
  "thrown e = (case e of Rejected h \<Rightarrow> Some h | _ \<Rightarrow> None)"

definition consumeVnuCrossDetailPermit ::
  "core_platform \<Rightarrow> string \<Rightarrow> budget_ns \<Rightarrow> jval \<Rightarrow> string \<Rightarrow> string \<Rightarrow> cross_limits \<Rightarrow> string \<Rightarrow> int \<Rightarrow>
   (hyeboard_error option + (string \<times> jval)) \<times> budget_ns" where
  "consumeVnuCrossDetailPermit cp secret ns session requesterToken permit limits leaseId now =
    (case sbind (parseVnuCrossDetailPermitString (JStr permit)) (\<lambda>(permitId, env).
          sbind (decryptVnuCrossDetailPermitEnvelope cp env secret) (\<lambda>v.
          sbind (vnuProbeBudgetKey cp secret session) (\<lambda>key. Inr (permitId, v, key)))) of
       Inl e \<Rightarrow> (Inl (Some e), ns)
     | Inr (permitId, v, key) \<Rightarrow>
         (case budget_coordinator ns key now
             (OConsumeDetail leaseId (buildVnuCrossDetailConsumeInput cp secret requesterToken permitId v) limits) of
            (Inl e, ns') \<Rightarrow> (Inl (thrown e), ns')
          | (Inr (RConsume (ConsumeAllowed lid until env)), ns') \<Rightarrow> (Inr (lid, v), ns')
          | (Inr _, ns') \<Rightarrow> (Inl None, ns')))"

text \<open>
  The portal answers a selector (class, student, term): the first attempt with the caller's
  client or a new one, and after an expired portal session one more with a fresh client. The
  lease is released in every case, and a failing release is ignored.
\<close>

type_synonym portal = "string \<times> string \<times> string \<Rightarrow> nat \<Rightarrow> hyeboard_error option + string"

definition selector_of :: "jval \<Rightarrow> string \<times> string \<times> string" where
  "selector_of v = (let s = prop_of ''selector'' v; t = (\<lambda>k. text_of_value (prop_of k s)) in
     (t ''classId'', t ''stdId'', t ''termOrdinal''))"

definition ask_portal :: "portal \<Rightarrow> string \<times> string \<times> string \<Rightarrow> hyeboard_error option + string" where
  "ask_portal portal sel = (case portal sel 0 of
     Inl (Some e) \<Rightarrow> if err_code e = ''VNU_SESSION_EXPIRED'' then portal sel 1 else Inl (Some e)
   | r \<Rightarrow> r)"

definition fetchVnuCrossDetail ::
  "core_platform \<Rightarrow> string \<Rightarrow> portal \<Rightarrow> budget_ns \<Rightarrow> jval \<Rightarrow> string \<Rightarrow> string \<Rightarrow> cross_limits \<Rightarrow> string \<Rightarrow> int \<Rightarrow> int \<Rightarrow>
   (hyeboard_error option + string) \<times> budget_ns" where
  "fetchVnuCrossDetail cp secret portal ns session requesterToken permit limits leaseId now later =
    (case consumeVnuCrossDetailPermit cp secret ns session requesterToken permit limits leaseId now of
       (Inl e, ns') \<Rightarrow> (Inl e, ns')
     | (Inr (lid, v), ns') \<Rightarrow> (ask_portal portal (selector_of v),
         (case vnuProbeBudgetKey cp secret session of
            Inl _ \<Rightarrow> ns' | Inr key \<Rightarrow> snd (budget_coordinator ns' key later (OReleaseDetail lid)))))"

section \<open>Batches\<close>

datatype batch_item = ItemOk string string | ItemError string string

fun item_permit :: "batch_item \<Rightarrow> string" where
  "item_permit (ItemOk p h) = p"
| "item_permit (ItemError p c) = p"

definition isCrossDetailItemError :: "hyeboard_error \<Rightarrow> bool" where
  "isCrossDetailItemError e \<longleftrightarrow> err_code e \<in> {''VNU_CROSS_LOOKUP_NOT_FOUND'', ''VNU_CROSS_LOOKUP_NOT_CONVERGED'',
     ''VNU_CROSS_DETAIL_PERMIT_INVALID'', ''VNU_UPSTREAM_RESPONSE_INVALID'', ''VNU_REQUEST_FAILED''}"

definition peekCrossDetailPermitStdId :: "core_platform \<Rightarrow> string \<Rightarrow> string \<Rightarrow> hyeboard_error + string" where
  "peekCrossDetailPermitStdId cp secret permit =
     sbind (parseVnuCrossDetailPermitString (JStr permit)) (\<lambda>(permitId, env).
     sbind (decryptVnuCrossDetailPermitEnvelope cp env secret) (\<lambda>v.
       Inr (text_of_value (prop_of ''stdId'' (prop_of ''selector'' v)))))"

definition INVALID_GROUP :: string where "INVALID_GROUP = ''__invalid__''"

definition group_name :: "core_platform \<Rightarrow> string \<Rightarrow> string \<Rightarrow> string" where
  "group_name cp secret permit = (case peekCrossDetailPermitStdId cp secret permit of
     Inl _ \<Rightarrow> INVALID_GROUP @ take 8 permit | Inr s \<Rightarrow> s)"

fun add_to_group :: "string \<Rightarrow> string \<Rightarrow> (string \<times> string list) list \<Rightarrow> (string \<times> string list) list" where
  "add_to_group k p [] = [(k, [p])]"
| "add_to_group k p ((j, ps) # gs) = (if j = k then (j, ps @ [p]) # gs else (j, ps) # add_to_group k p gs)"

definition permit_groups :: "(string \<Rightarrow> string) \<Rightarrow> string list \<Rightarrow> (string \<times> string list) list" where
  "permit_groups name permits = foldl (\<lambda>gs p. add_to_group (name p) p gs) [] permits"

text \<open>
  The outcomes of the requests a batch makes, in whatever order its groups interleave: warming
  up a student's client, and fetching a permit. An error that is not one of the items' own ends
  the batch.
\<close>

definition item_of_fetch :: "string \<Rightarrow> hyeboard_error option + string \<Rightarrow> hyeboard_error option + batch_item" where
  "item_of_fetch p r = (case r of
     Inr html \<Rightarrow> Inr (ItemOk p html)
   | Inl (Some e) \<Rightarrow> if isCrossDetailItemError e then Inr (ItemError p (err_code e)) else Inl (Some e)
   | Inl None \<Rightarrow> Inl None)"

definition item_of_invalid :: "string \<Rightarrow> hyeboard_error option + string \<Rightarrow> batch_item" where
  "item_of_invalid p r = (case r of
     Inr html \<Rightarrow> ItemOk p html
   | Inl e \<Rightarrow> ItemError p (case e of Some h \<Rightarrow> err_code h | None \<Rightarrow> ''VNU_REQUEST_FAILED''))"

definition processGroup ::
  "(string \<Rightarrow> hyeboard_error option + unit) \<Rightarrow> (string \<Rightarrow> hyeboard_error option + string) \<Rightarrow>
   string \<times> string list \<Rightarrow> hyeboard_error option + batch_item list" where
  "processGroup warm fetch g = (case g of (stdId, permits) \<Rightarrow>
     if starts_with INVALID_GROUP stdId then Inr (map (\<lambda>p. item_of_invalid p (fetch p)) permits)
     else (case warm stdId of
         Inr _ \<Rightarrow> traverse (\<lambda>p. item_of_fetch p (fetch p)) permits
       | Inl (Some e) \<Rightarrow> if isCrossDetailItemError e then Inr (map (\<lambda>p. ItemError p (err_code e)) permits)
           else Inl (Some e)
       | Inl None \<Rightarrow> Inl None))"

definition fetchVnuCrossDetailBatch ::
  "core_platform \<Rightarrow> string \<Rightarrow> (string \<Rightarrow> hyeboard_error option + unit) \<Rightarrow> (string \<Rightarrow> hyeboard_error option + string) \<Rightarrow>
   string list \<Rightarrow> hyeboard_error option + batch_item list" where
  "fetchVnuCrossDetailBatch cp secret warm fetch permits =
     sbind (traverse (processGroup warm fetch) (permit_groups (group_name cp secret) permits)) (\<lambda>results.
       let items = map (\<lambda>i. (item_permit i, i)) (concat results) in
       Inr (map (\<lambda>p. the (map_of (rev items) p)) permits))"

end
