(* ===== verification/CrossDetailBodies.thy ===== *)
theory CrossDetailBodies
  imports CrossDetail SessionProps
begin

text \<open>
  The requests for cross-student details. A body is accepted exactly when it is small, opts in
  literally and selects distinct well-formed permits within the limit; and a batch, which groups
  its permits by student to share a warmed-up client, answers every permit what it would be
  answered alone, in the order of the request.
\<close>

section \<open>Bounded bodies\<close>

lemma body_limit_pos: "0 < crossDetailBodyMaxBytes rows"
  by (simp add: crossDetailBodyMaxBytes_def VNU_CROSS_DETAIL_PERMIT_MAX_LENGTH_def VNU_CROSS_DETAIL_BODY_OVERHEAD_BYTES_def)

text \<open>A permit of a request, and the list a batch request names.\<close>

definition permit_shape :: "string \<Rightarrow> bool" where
  "permit_shape s \<longleftrightarrow> length s \<le> VNU_CROSS_DETAIL_PERMIT_MAX_LENGTH \<and> permit_parts s \<noteq> None"

lemma permit_text_iff: "permit_text v = Some s \<longleftrightarrow> v = JStr s \<and> permit_shape s"
  by (cases v) (auto simp: permit_shape_def)

lemma permit_loop_iff:
  "permit_loop vs seen = Inr () \<longleftrightarrow>
     (\<exists>ps. vs = map JStr ps \<and> distinct ps \<and> list_all permit_shape ps \<and> set ps \<inter> set seen = {})"
proof (induction vs arbitrary: seen)
  case (Cons v vs)
  show ?case
  proof (cases "permit_text v")
    case None
    then have "\<not> (\<exists>s. v = JStr s \<and> permit_shape s)" by (metis permit_text_iff option.distinct(1))
    with None show ?thesis by (auto simp: map_eq_Cons_conv Cons_eq_map_conv)
  next
    case (Some s)
    then have v: "v = JStr s" "permit_shape s" by (simp_all add: permit_text_iff)
    have "permit_loop (v # vs) seen = Inr () \<longleftrightarrow> s \<notin> set seen \<and> permit_loop vs (s # seen) = Inr ()"
      using Some by simp
    moreover have "(\<exists>ps. v # vs = map JStr ps \<and> P ps) \<longleftrightarrow> (\<exists>ps. vs = map JStr ps \<and> P (s # ps))" for P
      using v(1) by (auto simp: Cons_eq_map_conv)
    ultimately show ?thesis using Cons.IH [of "s # seen"] v(2) by auto
  qed
qed simp

lemma permit_loop_error: "permit_loop vs seen = Inl e \<Longrightarrow> e = crossDetailBodyInvalid"
  by (induction vs seen rule: permit_loop.induct) (auto split: option.splits if_splits)

lemma texts_of_strings: "map text_of_value (map JStr ps) = ps"
  by (induction ps) auto

lemma bounded_array_iff: "bounded_array v rows = Some vs \<longleftrightarrow> v = JArr vs \<and> vs \<noteq> [] \<and> int (length vs) \<le> rows"
  by (cases v) auto

lemma parsePermitArray_iff:
  "parsePermitArray v rows e = Inr ps \<longleftrightarrow>
     v = JArr (map JStr ps) \<and> ps \<noteq> [] \<and> int (length ps) \<le> rows \<and> distinct ps \<and> list_all permit_shape ps"
proof (cases "bounded_array v rows")
  case None
  then have "\<not> (v = JArr (map JStr ps) \<and> map JStr ps \<noteq> [] \<and> int (length (map JStr ps)) \<le> rows)"
    by (metis bounded_array_iff option.distinct(1))
  with None show ?thesis by (auto simp: parsePermitArray_def)
next
  case (Some vs)
  then have v: "v = JArr vs" "vs \<noteq> []" "int (length vs) \<le> rows" by (simp_all add: bounded_array_iff)
  have "parsePermitArray v rows e = Inr ps \<longleftrightarrow> permit_loop vs [] = Inr () \<and> ps = map text_of_value vs"
    using Some by (auto simp: parsePermitArray_def sbind_Inr_iff)
  also have "\<dots> \<longleftrightarrow> vs = map JStr ps \<and> distinct ps \<and> list_all permit_shape ps"
    using texts_of_strings by (auto simp: permit_loop_iff)
  finally show ?thesis using v by auto
qed

text \<open>What the opted-in object of a body selects.\<close>

definition selects :: "body_kind \<Rightarrow> int \<Rightarrow> jval \<Rightarrow> string list \<Rightarrow> bool" where
  "selects kind rows v ps \<longleftrightarrow> is_object v \<and> prop_of ''allowCrossLookup'' v = JBool True
   \<and> set (own_keys v) \<subseteq> set (CROSS_DETAIL_BODY_KEYS kind)
   \<and> (if kind = SingleBody then (\<exists>s. prop_of ''permit'' v = JStr s \<and> permit_shape s \<and> ps = [s])
      else prop_of ''permits'' v = JArr (map JStr ps) \<and> ps \<noteq> [] \<and> int (length ps) \<le> rows
        \<and> distinct ps \<and> list_all permit_shape ps)"

lemma selected_permits_iff:
  assumes "is_object v" "prop_of ''allowCrossLookup'' v = JBool True"
  shows "selected_permits kind rows v = Inr ps \<longleftrightarrow> selects kind rows v ps"
proof -
  have k: "list_all (\<lambda>k. k \<in> A) ks \<longleftrightarrow> set ks \<subseteq> A" for ks :: "string list" and A
    by (auto simp: list_all_iff)
  have t: "permit_shape s \<Longrightarrow> permit_text (JStr s) = Some s" for s by (simp add: permit_shape_def)
  have b: "bounded_array (prop_of ''permits'' v) rows \<noteq> None"
    if "prop_of ''permits'' v = JArr (map JStr ps)" "ps \<noteq> []" "int (length ps) \<le> rows"
    using that by simp
  show ?thesis
    using assms b unfolding k selects_def selected_permits_def Let_def
    by (cases kind) (auto simp del: CROSS_DETAIL_BODY_KEYS.simps permit_text.simps bounded_array.simps
        simp: t permit_text_iff parsePermitArray_iff split: option.splits)
qed

lemma read_detail_body_iff:
  "readVnuCrossDetailBody parse rq kind rows = Inr ps \<longleftrightarrow>
     (\<exists>bs v. body_bytes rq (crossDetailBodyMaxBytes rows) = Some bs \<and> parse bs = Some v \<and> selects kind rows v ps)"
proof -
  have r: "readBoundedJsonBody parse rq (crossDetailBodyMaxBytes rows) = Inr v \<longleftrightarrow>
      (\<exists>bs. body_bytes rq (crossDetailBodyMaxBytes rows) = Some bs \<and> parse bs = Some v)" for v
    using body_limit_pos [of rows] unfolding readBoundedJsonBody_def by (intro read_bounded_iff) simp
  have s: "(if \<not> is_object v then Inl crossDetailBodyInvalid
     else if prop_of ''allowCrossLookup'' v \<noteq> JBool True then Inl crossDetailNotExplicitlyAllowed
     else selected_permits kind rows v) = Inr ps \<longleftrightarrow> selects kind rows v ps" for v
    using selected_permits_iff [of v kind rows ps] by (auto simp: selects_def)
  show ?thesis unfolding readVnuCrossDetailBody_def sbind_Inr_iff r s by blast
qed

lemma read_detail_body_errors:
  "readVnuCrossDetailBody parse rq kind rows = Inl e \<Longrightarrow>
     e \<in> {payloadTooLarge, crossDetailBodyInvalid, crossDetailNotExplicitlyAllowed, crossDetailExportNotSelected}"
  unfolding readVnuCrossDetailBody_def selected_permits_def readBoundedJsonBody_def read_bounded_def parsePermitArray_def Let_def sbind_def
  by (auto split: sum.splits option.splits if_splits body_kind.splits dest: permit_loop_error)

text \<open>
  A body of a detail request is accepted exactly when its declared and its actual size stay
  within the limit of the kind, it is an object that opts in with the literal \<open>true\<close>, has no
  other property, and names one well-formed permit, or for the batches a list of distinct
  well-formed permits that is not empty and no longer than the row limit; the permits come out
  in the order of the request. Never more bytes are buffered than the limit, which is at most
  572,416; and a refused body is refused with one of four errors, an export without a bounded
  selection with its own.
\<close>

theorem detail_body_exact:
  "(readVnuCrossDetailBody parse rq kind rows = Inr ps \<longleftrightarrow>
     (\<exists>bs v. body_bytes rq (crossDetailBodyMaxBytes rows) = Some bs \<and> parse bs = Some v \<and> selects kind rows v ps))
   \<and> crossDetailBodyMaxBytes rows \<le> 572416
   \<and> (\<forall>cs bs. read_chunks (crossDetailBodyMaxBytes rows) [] cs = Some bs \<longrightarrow>
        int (length bs) \<le> crossDetailBodyMaxBytes rows \<and> bs = concat cs)
   \<and> (\<forall>e. readVnuCrossDetailBody parse rq kind rows = Inl e \<longrightarrow>
        e \<in> {payloadTooLarge, crossDetailBodyInvalid, crossDetailNotExplicitlyAllowed, crossDetailExportNotSelected})
   \<and> (\<forall>bs v. body_bytes rq (crossDetailBodyMaxBytes rows) = Some bs \<and> parse bs = Some v \<and> is_object v
        \<and> prop_of ''allowCrossLookup'' v = JBool True \<and> bounded_array (prop_of ''permits'' v) rows = None \<longrightarrow>
        readVnuCrossDetailBody parse rq ExportBody rows = Inl crossDetailExportNotSelected)"
proof (intro conjI allI impI)
  show "readVnuCrossDetailBody parse rq kind rows = Inr ps \<longleftrightarrow>
     (\<exists>bs v. body_bytes rq (crossDetailBodyMaxBytes rows) = Some bs \<and> parse bs = Some v \<and> selects kind rows v ps)"
    by (rule read_detail_body_iff)
  show "crossDetailBodyMaxBytes rows \<le> 572416"
    by (simp add: crossDetailBodyMaxBytes_def VNU_CROSS_DETAIL_PERMIT_MAX_LENGTH_def VNU_CROSS_DETAIL_BODY_OVERHEAD_BYTES_def)
  fix cs bs
  assume "read_chunks (crossDetailBodyMaxBytes rows) [] cs = Some bs"
  then show "int (length bs) \<le> crossDetailBodyMaxBytes rows" "bs = concat cs"
    using body_limit_pos [of rows] by (auto simp: read_chunks_total split: if_splits)
next
  fix e
  assume "readVnuCrossDetailBody parse rq kind rows = Inl e"
  then show "e \<in> {payloadTooLarge, crossDetailBodyInvalid, crossDetailNotExplicitlyAllowed, crossDetailExportNotSelected}"
    by (rule read_detail_body_errors)
next
  fix bs v
  assume a: "body_bytes rq (crossDetailBodyMaxBytes rows) = Some bs \<and> parse bs = Some v \<and> is_object v
        \<and> prop_of ''allowCrossLookup'' v = JBool True \<and> bounded_array (prop_of ''permits'' v) rows = None"
  then have "readBoundedJsonBody parse rq (crossDetailBodyMaxBytes rows) = Inr v"
    using body_limit_pos [of rows] unfolding readBoundedJsonBody_def by (subst read_bounded_iff) auto
  with a show "readVnuCrossDetailBody parse rq ExportBody rows = Inl crossDetailExportNotSelected"
    by (simp add: readVnuCrossDetailBody_def selected_permits_def)
qed

definition sample_permit :: string where
  "sample_permit = replicate 32 CHR ''a'' @ ''.AA.AA''"

definition sample_body :: jval where
  "sample_body = JObj [(''permits'', JArr [JStr sample_permit]), (''allowCrossLookup'', JBool True)]"

definition sample_request :: body_request where
  "sample_request = \<lparr>br_declared = Some 3, br_chunks = Some [[1, 2], [3]]\<rparr>"

theorem detail_body_exact_witness:
  "readVnuCrossDetailBody (\<lambda>bs. if bs = [1, 2, 3] then Some sample_body else None) sample_request ExportBody 1 = Inr [sample_permit]
   \<and> readVnuCrossDetailBody (\<lambda>_. Some (JObj [(''allowCrossLookup'', JBool True)])) sample_request ExportBody 1 = Inl crossDetailExportNotSelected"
proof -
  let ?p = "\<lambda>bs. if bs = [1, 2, 3] then Some sample_body else None"
  let ?q = "\<lambda>_::bytes. Some (JObj [(''allowCrossLookup'', JBool True)])"
  have b: "body_bytes sample_request (crossDetailBodyMaxBytes 1) = Some [1, 2, 3]"
    by (simp add: body_bytes_def sample_request_def crossDetailBodyMaxBytes_def VNU_CROSS_DETAIL_PERMIT_MAX_LENGTH_def
        VNU_CROSS_DETAIL_BODY_OVERHEAD_BYTES_def)
  have "permit_shape sample_permit" unfolding permit_shape_def by code_simp
  then have "selects ExportBody 1 sample_body [sample_permit]"
    by (simp add: selects_def sample_body_def)
  with b have "readVnuCrossDetailBody ?p sample_request ExportBody 1 = Inr [sample_permit]"
    using detail_body_exact [of ?p sample_request ExportBody 1 "[sample_permit]"] by auto
  moreover have "readVnuCrossDetailBody ?q sample_request ExportBody 1 = Inl crossDetailExportNotSelected"
    using detail_body_exact [of ?q sample_request ExportBody 1 "[]"] b by auto
  ultimately show ?thesis by blast
qed

section \<open>Batches\<close>

text \<open>The answer to one permit on its own.\<close>

definition item_alone ::
  "(string \<Rightarrow> string) \<Rightarrow> (string \<Rightarrow> hyeboard_error option + unit) \<Rightarrow> (string \<Rightarrow> hyeboard_error option + string) \<Rightarrow>
   string \<Rightarrow> hyeboard_error option + batch_item" where
  "item_alone name warm fetch p =
    (if starts_with INVALID_GROUP (name p) then Inr (item_of_invalid p (fetch p))
     else case warm (name p) of
       Inr _ \<Rightarrow> item_of_fetch p (fetch p)
     | Inl (Some e) \<Rightarrow> if isCrossDetailItemError e then Inr (ItemError p (err_code e)) else Inl (Some e)
     | Inl None \<Rightarrow> Inl None)"

definition well_grouped :: "(string \<Rightarrow> string) \<Rightarrow> (string \<times> string list) list \<Rightarrow> bool" where
  "well_grouped name gs \<longleftrightarrow> list_all (\<lambda>(k, ps). ps \<noteq> [] \<and> list_all (\<lambda>p. name p = k) ps) gs"

lemma add_to_group_grouped: "well_grouped name gs \<Longrightarrow> well_grouped name (add_to_group (name p) p gs)"
  by (induction "name p" p gs rule: add_to_group.induct) (auto simp: well_grouped_def)

lemma add_to_group_set: "set (concat (map snd (add_to_group k p gs))) = insert p (set (concat (map snd gs)))"
  by (induction k p gs rule: add_to_group.induct) auto

lemma permit_groups:
  "well_grouped name (permit_groups name ps) \<and> set (concat (map snd (permit_groups name ps))) = set ps"
proof (induction ps rule: rev_induct)
  case Nil
  then show ?case by (simp add: permit_groups_def well_grouped_def)
next
  case (snoc p ps)
  have "permit_groups name (ps @ [p]) = add_to_group (name p) p (permit_groups name ps)"
    by (simp add: permit_groups_def)
  with snoc show ?case by (simp add: add_to_group_grouped add_to_group_set del: set_concat)
qed

lemma traverse_const:
  "ps \<noteq> [] \<Longrightarrow> (\<And>p. p \<in> set ps \<Longrightarrow> f p = Inl e) \<Longrightarrow> traverse f ps = Inl e"
  by (cases ps) auto

lemma traverse_cong: "(\<And>x. x \<in> set xs \<Longrightarrow> f x = g x) \<Longrightarrow> traverse f xs = traverse g xs"
  by (induction xs) auto

lemma traverse_map: "(\<And>x. x \<in> set xs \<Longrightarrow> f x = Inr (g x)) \<Longrightarrow> traverse f xs = Inr (map g xs)"
  by (induction xs) auto

lemma processGroup_alone:
  assumes "ps \<noteq> []" "\<And>p. p \<in> set ps \<Longrightarrow> name p = k"
  shows "processGroup warm fetch (k, ps) = traverse (item_alone name warm fetch) ps"
proof (cases "starts_with INVALID_GROUP k")
  case True
  then have "traverse (item_alone name warm fetch) ps = Inr (map (\<lambda>p. item_of_invalid p (fetch p)) ps)"
    using assms(2) by (intro traverse_map) (simp add: item_alone_def)
  with True show ?thesis by (simp add: processGroup_def)
next
  case False
  then have a: "item_alone name warm fetch p = (case warm k of
       Inr _ \<Rightarrow> item_of_fetch p (fetch p)
     | Inl (Some e) \<Rightarrow> if isCrossDetailItemError e then Inr (ItemError p (err_code e)) else Inl (Some e)
     | Inl None \<Rightarrow> Inl None)" if "p \<in> set ps" for p
    using that assms(2) by (simp add: item_alone_def)
  show ?thesis
  proof (cases "warm k")
    case (Inr u)
    with a False show ?thesis by (simp add: processGroup_def cong: traverse_cong)
  next
    case (Inl e)
    show ?thesis
    proof (cases "\<exists>h. e = Some h \<and> isCrossDetailItemError h")
      case True
      then obtain h where "e = Some h" "isCrossDetailItemError h" by blast
      with Inl a False show ?thesis
        by (auto simp: processGroup_def intro!: traverse_map [symmetric])
    next
      case no: False
      then have "item_alone name warm fetch p = Inl e" if "p \<in> set ps" for p
        using Inl a [OF that] by (cases e) auto
      then have "traverse (item_alone name warm fetch) ps = Inl e" by (intro traverse_const assms(1))
      with Inl False no show ?thesis by (cases e) (auto simp: processGroup_def)
    qed
  qed
qed

lemma item_alone_permit: "item_alone name warm fetch p = Inr i \<Longrightarrow> item_permit i = p"
  by (auto simp: item_alone_def item_of_fetch_def item_of_invalid_def split: if_splits sum.splits option.splits)

lemma traverse_groups:
  assumes "well_grouped name gs"
  shows "traverse (processGroup warm fetch) gs = traverse (\<lambda>g. traverse (item_alone name warm fetch) (snd g)) gs"
proof (rule traverse_cong)
  fix g
  assume "g \<in> set gs"
  with assms have "snd g \<noteq> []" "\<And>p. p \<in> set (snd g) \<Longrightarrow> name p = fst g"
    by (auto simp: well_grouped_def list_all_iff)
  then show "processGroup warm fetch g = traverse (item_alone name warm fetch) (snd g)"
    using processGroup_alone [of "snd g" name "fst g"] by simp
qed

lemma traverse_concat:
  "map_sum id concat (traverse (traverse f) xss) = traverse f (concat xss)"
proof -
  have app: "traverse f (xs @ ys) = sbind (traverse f xs) (\<lambda>us. sbind (traverse f ys) (\<lambda>vs. Inr (us @ vs)))" for xs ys
    by (induction xs) (auto simp: sbind_def split: sum.splits)
  show ?thesis by (induction xss) (auto simp: app sbind_def split: sum.splits)
qed

lemma traverse_snd: "traverse (\<lambda>g. traverse f (snd g)) gs = traverse (traverse f) (map snd gs)"
  by (induction gs) auto

lemma traverse_Inl: "traverse f xs = Inl e \<Longrightarrow> \<exists>x \<in> set xs. f x = Inl e"
  by (induction xs) (auto simp: sbind_def split: sum.splits)

lemma traverse_Inr_all: "traverse f xs = Inr ys \<Longrightarrow> x \<in> set xs \<Longrightarrow> \<exists>y \<in> set ys. f x = Inr y"
  by (induction xs arbitrary: ys) (auto simp: sbind_Inr_iff)

lemma traverse_Inr_source: "traverse f xs = Inr ys \<Longrightarrow> y \<in> set ys \<Longrightarrow> \<exists>x \<in> set xs. f x = Inr y"
  by (induction xs arbitrary: ys) (auto simp: sbind_Inr_iff)

lemma batch_lookup:
  assumes "traverse (item_alone name warm fetch) qs = Inr is" "set qs = set ps" "p \<in> set ps"
  shows "item_alone name warm fetch p = Inr (the (map_of (rev (map (\<lambda>i. (item_permit i, i)) is)) p))"
proof -
  let ?m = "map_of (rev (map (\<lambda>i. (item_permit i, i)) is))"
  obtain i where "i \<in> set is" "item_alone name warm fetch p = Inr i"
    using traverse_Inr_all [OF assms(1)] assms(2,3) by blast
  then have "p \<in> fst ` set (rev (map (\<lambda>i. (item_permit i, i)) is))"
    using item_alone_permit by force
  then obtain j where j: "?m p = Some j" by (metis map_of_eq_None_iff not_Some_eq)
  then have "j \<in> set is" "item_permit j = p" by (auto dest!: map_of_SomeD)
  moreover obtain q where "item_alone name warm fetch q = Inr j"
    using traverse_Inr_source [OF assms(1)] calculation(1) by blast
  ultimately have "item_alone name warm fetch p = Inr j" using item_alone_permit by blast
  with j show ?thesis by simp
qed

text \<open>
  A batch of detail requests answers each permit what a request for it alone is answered,
  in the order of the request, although it groups the permits by student and shares one
  warmed-up client in each group; it fails as a whole exactly when the answer to some permit is
  an error of its own kind, and then with the error of such a permit. A permit whose envelope
  names no student is never grouped with one that does.
\<close>

theorem detail_batch_pointwise:
  "(fetchVnuCrossDetailBatch cp secret warm fetch permits = Inr is \<longleftrightarrow>
      traverse (item_alone (group_name cp secret) warm fetch) permits = Inr is)
   \<and> (fetchVnuCrossDetailBatch cp secret warm fetch permits = Inl e \<longrightarrow>
      (\<exists>p \<in> set permits. item_alone (group_name cp secret) warm fetch p = Inl e))
   \<and> (\<forall>p s. peekCrossDetailPermitStdId cp secret p = Inr s \<longrightarrow> \<not> starts_with INVALID_GROUP (group_name cp secret p))"
proof -
  let ?name = "group_name cp secret" and ?gs = "permit_groups (group_name cp secret) permits"
  let ?f = "item_alone ?name warm fetch" and ?qs = "concat (map snd (permit_groups (group_name cp secret) permits))"
  have g: "well_grouped ?name ?gs" "set ?qs = set permits" using permit_groups by blast+
  have t: "map_sum id concat (traverse (processGroup warm fetch) ?gs) = traverse ?f ?qs"
    unfolding traverse_groups [OF g(1)] traverse_snd by (rule traverse_concat)
  have digits: "\<not> starts_with INVALID_GROUP (?name p)" if peek: "peekCrossDetailPermitStdId cp secret p = Inr s" for p s
  proof -
    have "matches VNU_CROSS_DETAIL_STD_ID_PATTERN (prop_of ''stdId'' (prop_of ''selector'' v))"
      if "decryptVnuCrossDetailPermitEnvelope cp env secret = Inr v" for env v
      using that by (auto simp: decryptVnuCrossDetailPermitEnvelope_def assertVnuCrossDetailPermitEnvelope_def Let_def
          sbind_Inr_iff split: if_splits option.splits)
    then obtain v where "matches VNU_CROSS_DETAIL_STD_ID_PATTERN v" "s = text_of_value v"
      using peek by (auto simp: peekCrossDetailPermitStdId_def sbind_Inr_iff)
    then have "all_digits s" by (cases v) (auto simp: VNU_CROSS_DETAIL_STD_ID_PATTERN_def)
    then show ?thesis
      using peek by (cases s) (auto simp: group_name_def starts_with_def INVALID_GROUP_def all_digits_def digit_chars_def)
  qed
  show ?thesis
  proof (cases "traverse (processGroup warm fetch) ?gs")
    case (Inl e')
    with t have "traverse ?f ?qs = Inl e'" by simp
    then obtain p where p: "p \<in> set permits" "?f p = Inl e'" using traverse_Inl g(2) by metis
    then have "traverse ?f permits \<noteq> Inr is" using traverse_Inr_all by fastforce
    with Inl p digits show ?thesis by (auto simp: fetchVnuCrossDetailBatch_def)
  next
    case (Inr rs)
    with t have q: "traverse ?f ?qs = Inr (concat rs)" by simp
    let ?item = "\<lambda>p. the (map_of (rev (map (\<lambda>i. (item_permit i, i)) (concat rs))) p)"
    have "traverse ?f permits = Inr (map ?item permits)"
      using batch_lookup [OF q g(2)] by (intro traverse_map)
    with Inr digits show ?thesis by (auto simp: fetchVnuCrossDetailBatch_def)
  qed
qed

definition sample_fetch :: "string \<Rightarrow> hyeboard_error option + string" where
  "sample_fetch p = (if p = ''b'' then Inl (Some crossDetailPermitInvalid) else if p = ''c'' then Inl (Some crossDetailUnavailable)
     else Inr ''html'')"

theorem detail_batch_pointwise_witness:
  "let batch = fetchVnuCrossDetailBatch (sample_platform JNull) sample_secret (\<lambda>_. Inr ()) sample_fetch in
     batch [''a'', ''b'', ''a''] = Inr [ItemOk ''a'' ''html'', ItemError ''b'' ''VNU_CROSS_DETAIL_PERMIT_INVALID'', ItemOk ''a'' ''html'']"
proof -
  have "traverse (item_alone (group_name (sample_platform JNull) sample_secret) (\<lambda>_. Inr ()) sample_fetch) [''a'', ''b'', ''a''] =
      Inr [ItemOk ''a'' ''html'', ItemError ''b'' ''VNU_CROSS_DETAIL_PERMIT_INVALID'', ItemOk ''a'' ''html'']"
    by code_simp
  then show ?thesis
    using detail_batch_pointwise [where cp = "sample_platform JNull" and secret = sample_secret and warm = "\<lambda>_. Inr ()"
        and fetch = sample_fetch and permits = "[''a'', ''b'', ''a'']"] by simp
qed

end
