(* ===== verification/CrossDetailProps.thy ===== *)
theory CrossDetailProps
  imports CrossDetail BudgetLaws SessionProps
begin

text \<open>
  The life of a cross-detail permit, from the minter through the sealed envelope and the budget
  object of the session to its single consumption: the composition of the token functions, the
  minter, the coordinator and the tables of the object.
\<close>

section \<open>Minted permits\<close>

definition minted_value :: "core_platform \<Rightarrow> minter_options \<Rightarrow> string \<Rightarrow> string \<Rightarrow> detail_row \<Rightarrow> mint_random \<Rightarrow> jval" where
  "minted_value cp o' target html row rnd =
    (let h = hmacVnuCrossDetail cp (mo_secret o') in
     envelope_value (encodeHex (mr_nonce rnd)) (h DTarget target) (h DRevision html) (h DRow (row_text target row))
       target (row_classId row) (row_termOrdinal row))"

definition minted_record :: "core_platform \<Rightarrow> minter_options \<Rightarrow> string \<Rightarrow> string \<Rightarrow> detail_row \<Rightarrow> mint_random \<Rightarrow> int \<Rightarrow> string \<Rightarrow> permit_record" where
  "minted_record cp o' target html row rnd now env =
    (let h = hmacVnuCrossDetail cp (mo_secret o') in
     \<lparr>requesterHmac = h DRequester (mo_requesterToken o'), targetHmac = h DTarget target, revisionHmac = h DRevision html,
      rowHmac = h DRow (row_text target row), policyVersion = VNU_CROSS_DETAIL_POLICY_VERSION,
      nonce = encodeHex (mr_nonce rnd), envelope = env, expiresAt = now + mo_permitTtlSeconds o' * 1000\<rparr>)"

definition minted_hash :: "core_platform \<Rightarrow> minter_options \<Rightarrow> mint_random \<Rightarrow> string" where
  "minted_hash cp o' rnd = hmacVnuCrossDetail cp (mo_secret o') DPermit (encodeHex (mr_permitId rnd))"

lemma mint_result:
  assumes "mint cp o' m target html row rnd now = (Inr (Some permit), m')"
  obtains env where "encryptVnuCrossDetailPermitEnvelope cp (minted_value cp o' target html row rnd) (mo_secret o') (mr_iv rnd) = Inr env"
    "permit = encodeHex (mr_permitId rnd) @ ''.'' @ env"
    "mn_issued m' = mn_issued m @ [\<lparr>permitHash = minted_hash cp o' rnd, ip_record = minted_record cp o' target html row rnd now env\<rparr>]"
  using assms that
  by (auto simp: mint_def minted_value_def minted_record_def minted_hash_def Let_def split: if_splits sum.splits)

lemma selector_minted: "selector_of (minted_value cp o' target html row rnd) = (row_classId row, target, row_termOrdinal row)"
  by (simp add: selector_of_def minted_value_def envelope_value_def Let_def)

lemma seal_token_shape:
  assumes "seals cp key aad iv v"
  shows "\<exists>a b. seal_token cp key aad iv v = a @ ''.'' @ b \<and> BASE64URL a \<and> BASE64URL b
    \<and> CHR ''.'' \<notin> set a \<and> CHR ''.'' \<notin> set b"
proof -
  have "BASE64URL (toBase64Url bs)" if "bs \<noteq> []" for bs
    using that toBase64Url_not_Nil toBase64Url_chars [of _ bs] by (auto simp: BASE64URL_def list_all_iff)
  moreover have "iv \<noteq> []" "cp_encrypt cp key aad iv (cp_json cp v) \<noteq> []" using assms by (auto simp: seals_def)
  ultimately show ?thesis using toBase64Url_free(1) unfolding seal_token_def by blast
qed

lemma envelope_opens:
  assumes "encryptVnuCrossDetailPermitEnvelope cp v secret iv = Inr env"
    and "seals cp (HkdfKey VNU_CROSS_DETAIL_LABEL secret) VNU_CROSS_DETAIL_LABEL iv v"
  shows "decryptVnuCrossDetailPermitEnvelope cp env secret = Inr v"
    and "\<exists>a b. env = a @ ''.'' @ b \<and> BASE64URL a \<and> BASE64URL b \<and> CHR ''.'' \<notin> set a \<and> CHR ''.'' \<notin> set b"
    and "length env \<le> 1024"
proof -
  let ?t = "seal_token cp (HkdfKey VNU_CROSS_DETAIL_LABEL secret) VNU_CROSS_DETAIL_LABEL iv v"
  have e: "env = ?t" "length ?t \<le> VNU_CROSS_DETAIL_PERMIT_ENVELOPE_MAX_LENGTH" "assertStrongSecret secret = Inr ()"
    "assertVnuCrossDetailPermitEnvelope v = Inr ()"
    using assms(1) by (auto simp: encryptVnuCrossDetailPermitEnvelope_def Let_def sbind_Inr_iff split: if_splits)
  show "decryptVnuCrossDetailPermitEnvelope cp env secret = Inr v"
    using e seal_opens [OF assms(2)] by (auto simp: decryptVnuCrossDetailPermitEnvelope_def)
  show "\<exists>a b. env = a @ ''.'' @ b \<and> BASE64URL a \<and> BASE64URL b \<and> CHR ''.'' \<notin> set a \<and> CHR ''.'' \<notin> set b"
    using seal_token_shape [OF assms(2)] e(1) by simp
  show "length env \<le> 1024" using e by (simp add: VNU_CROSS_DETAIL_PERMIT_ENVELOPE_MAX_LENGTH_def)
qed

lemma permit_accepted:
  "permit_parts s = Some p \<Longrightarrow> length s \<le> VNU_CROSS_DETAIL_PERMIT_MAX_LENGTH \<Longrightarrow>
     parseVnuCrossDetailPermitString (JStr s) = Inr p"
  by simp

lemma permit_parses:
  assumes "hex_n 32 i" "env = a @ ''.'' @ b" "BASE64URL a" "BASE64URL b" "CHR ''.'' \<notin> set a" "CHR ''.'' \<notin> set b" "length env \<le> 1024"
  shows "parseVnuCrossDetailPermitString (JStr (i @ ''.'' @ env)) = Inr (i, env)"
proof -
  have "CHR ''.'' \<notin> set hex_chars" by (simp add: hex_chars_def)
  then have "CHR ''.'' \<notin> set i" using assms(1) unfolding hex_n_def list_all_iff by blast
  then have "split_on CHR ''.'' (i @ ''.'' @ a @ ''.'' @ b) = [i, a, b]"
    using assms(5,6) by (simp add: split_on_append split_on_free)
  then have "permit_parts (i @ ''.'' @ env) = Some (i, env)"
    using assms by (simp add: permit_parts_def)
  moreover have "length (i @ ''.'' @ env) \<le> VNU_CROSS_DETAIL_PERMIT_MAX_LENGTH"
    using assms(1,7) by (simp add: hex_n_def VNU_CROSS_DETAIL_PERMIT_MAX_LENGTH_def)
  ultimately show ?thesis by (intro permit_accepted)
qed

section \<open>Permits in the tables\<close>

definition consumes :: "string \<Rightarrow> budget_call \<Rightarrow> bool" where
  "consumes h call \<longleftrightarrow> (case call of BConsumeDetail lid i l \<Rightarrow> ci_permitHash i = h | _ \<Rightarrow> False)"

lemma permit_held_step:
  assumes "wf_tables b" "map_of (t_permits b) h = Some p" "now < expiresAt (sp_record p)" "\<not> issues h call" "\<not> consumes h call"
  shows "map_of (t_permits (snd (tables_handle b now call))) h = Some p"
  using assms(2-) wf_tablesD(3) [OF assms(1)]
  by (cases call) (auto simp: issues_def consumes_def tables_reserve_def map_of_add_permits map_of_unexpired_permits
      consumed_tables_def alist_simps split: sum.splits prod.splits option.splits budget_result.splits)

lemma permit_held_run:
  "budget_inv st \<Longrightarrow> run_ok budget_step budget_ok st xs \<Longrightarrow> map_of (t_permits (stored_tables st)) h = Some p \<Longrightarrow>
   \<forall>x \<in> set xs. \<not> issues h (snd x) \<and> \<not> consumes h (snd x) \<and> fst x < expiresAt (sp_record p) \<Longrightarrow>
   map_of (t_permits (stored_tables (run budget_step st xs))) h = Some p \<and> budget_inv (run budget_step st xs)"
proof (induction xs arbitrary: st)
  case (Cons x xs)
  then have "map_of (t_permits (stored_tables (budget_step st x))) h = Some p"
    using permit_held_step [OF budget_invD(1), of st h p "fst x" "snd x"] by (simp add: stored_step)
  with Cons show ?case using budget_machine.step_inv by simp
qed simp

lemma add_permits_append: "add_permits ps (xs @ ys) = add_permits (add_permits ps xs) ys"
  by (induction ps xs rule: add_permits.induct) auto

lemma add_permits_last: "map_of (add_permits ps (xs @ [p])) (permitHash p) = Some \<lparr>sp_record = ip_record p, consumedAt = None\<rparr>"
  by (simp add: add_permits_append map_of_update)

lemma check_permits_valid:
  "check_permits ps ts = Inr us \<Longrightarrow> p \<in> set ps \<Longrightarrow> hex_n 64 (permitHash p) \<and> assertValidCrossDetailRecord (ip_record p) = Inr ()"
  by (induction ps ts rule: check_permits.induct) (auto simp: sbind_Inr_iff split: if_splits)

lemma issued_permits_valid:
  "assertValidVnuCrossDetailIssuedPermits ps l = Inr () \<Longrightarrow> p \<in> set ps \<Longrightarrow>
     hex_n 64 (permitHash p) \<and> assertValidCrossDetailRecord (ip_record p) = Inr ()"
  by (auto simp: assertValidVnuCrossDetailIssuedPermits_def sbind_Inr_iff split: if_splits dest: check_permits_valid)

lemma coordinator_issue:
  assumes "budget_coordinator ns key now (OIssue ps l) = (Inr r, ns')" "budget_inv (ns key)" "valid_now now"
  shows "hex_n 64 key" "assertValidVnuCrossDetailIssuedPermits ps l = Inr ()" "budget_inv (ns' key)"
    "t_permits (stored_tables (ns' key)) = add_permits (unexpired_permits now (t_permits (stored_tables (ns key)))) ps"
proof -
  have a: "hex_n 64 key" "assertValidVnuCrossDetailLimits l = Inr ()" "assertValidVnuCrossDetailIssuedPermits ps l = Inr ()"
    "rpc ns key now (BIssue ps l) = (Inr r, ns')"
    using assms(1) by (auto simp: asserted_def split: if_splits sum.splits)
  then show "hex_n 64 key" "assertValidVnuCrossDetailIssuedPermits ps l = Inr ()" by simp_all
  obtain st where st: "budget_handle (ns key) now (BIssue ps l) = (Inr r, st)" "ns' = ns(key := st)"
    using rpc_answers [OF a(4)] by blast
  have ok: "budget_ok (ns key) (now, BIssue ps l)" using assms(3) by simp
  note h = handle_stored [OF assms(2) ok, unfolded st(1) snd_conv]
  show "budget_inv (ns' key)" using h(3) st(2) by simp
  show "t_permits (stored_tables (ns' key)) = add_permits (unexpired_permits now (t_permits (stored_tables (ns key)))) ps"
    using h(2) st(2) a(2,3) by simp
qed

lemma coordinator_consume:
  assumes "budget_coordinator ns key now (OConsumeDetail lid c l) = (r, ns')" "budget_inv (ns key)" "hex_n 64 key"
    and "valid_now now" "hex_n 32 lid" "cl_windowSeconds l \<le> 315360000"
  shows "(\<exists>q. r = Inr q) \<longleftrightarrow> assertValidVnuCrossDetailLimits l = Inr () \<and> assertValidVnuCrossDetailConsumeInput c = Inr () \<and>
      presented (stored_tables (ns key)) now c \<noteq> None \<and> window_used (detail_window (ns key)) now < cl_budget l \<and>
      int (length (unexpired now (t_dleases (stored_tables (ns key))))) < concurrency l"
    and "r = Inr q \<Longrightarrow> \<exists>e v. q = RConsume (ConsumeAllowed lid e v)"
    and "r = Inl e \<Longrightarrow> ns' = ns"
    and "r = Inr q \<Longrightarrow> spent (ci_permitHash c) (stored_tables (ns' key)) \<and> budget_inv (ns' key)"
proof -
  let ?call = "BConsumeDetail lid c l" and ?b = "stored_tables (ns key)"
  obtain x st where h: "budget_handle (ns key) now ?call = (x, st)" by (cases "budget_handle (ns key) now ?call")
  have ok: "budget_ok (ns key) (now, ?call)" using assms(4-6) by simp
  note s = handle_stored [OF assms(2) ok, unfolded h fst_conv snd_conv]
  then have t: "tables_handle ?b now ?call = (x, stored_tables st)" by (simp add: prod_eq_iff del: tables_handle.simps)
  note cases = tables_consume_cases [OF t]
  have rpc: "rpc ns key now ?call = (case x of Inl _ \<Rightarrow> Inl (Rejected probeBudgetUnavailable) | Inr q \<Rightarrow> Inr q, ns(key := st))"
    using h by (auto simp: rpc_def simp del: budget_handle.simps split: sum.splits)
  have form: "(\<exists>e. x = Inl e) \<or> (\<exists>res. x = Inr (RConsume res))"
    using t by (auto split: sum.splits option.splits prod.splits budget_result.splits if_splits)
  define A where "A \<longleftrightarrow> assertValidVnuCrossDetailLimits l = Inr () \<and> assertValidVnuCrossDetailConsumeInput c = Inr ()"
  have r: "if A
    then (if allowed x then (\<exists>e v. r = Inr (RConsume (ConsumeAllowed lid e v))) \<and> ns' = ns(key := st)
      else (\<exists>e. r = Inl e) \<and> ns' = ns(key := st)) else (\<exists>e. r = Inl e) \<and> ns' = ns"
  proof (cases A)
    case True
    then have v: "(r, ns') = verdict (consume_verdict l) (rpc ns key now ?call)"
      using assms(1,3) by (simp add: asserted_def A_def)
    show ?thesis
    proof (cases "allowed x")
      case al: True
      then obtain k e w where x: "x = Inr (RConsume (ConsumeAllowed k e w))" by (auto simp: allowed_def)
      with cases(3) have "k = lid" by blast
      with x v rpc True al show ?thesis by (simp add: verdict_def)
    next
      case False
      then have "\<exists>e. sbind (case x of Inl _ \<Rightarrow> Inl (Rejected probeBudgetUnavailable) | Inr q \<Rightarrow> Inr q) (consume_verdict l) = Inl e"
      proof (cases x)
        case (Inr q)
        with form obtain res where "x = Inr (RConsume res)" by auto
        with False show ?thesis by (cases res) (auto simp: allowed_def)
      qed simp
      with v rpc True False show ?thesis by (simp add: verdict_def)
    qed
  next
    case False
    then show ?thesis using assms(1,3) by (auto simp: A_def asserted_def split: sum.splits)
  qed
  have iff: "(\<exists>q. r = Inr q) \<longleftrightarrow> A \<and> allowed x"
    using r by (cases A; cases "allowed x") auto
  show "(\<exists>q. r = Inr q) \<longleftrightarrow> assertValidVnuCrossDetailLimits l = Inr () \<and> assertValidVnuCrossDetailConsumeInput c = Inr () \<and>
      presented ?b now c \<noteq> None \<and> window_used (detail_window (ns key)) now < cl_budget l \<and>
      int (length (unexpired now (t_dleases ?b))) < concurrency l"
    unfolding iff cases(1) A_def detail_window_def by blast
  show "\<exists>e v. q = RConsume (ConsumeAllowed lid e v)" if "r = Inr q" using r that by (auto split: if_splits)
  show "ns' = ns" if "r = Inl e"
  proof -
    have "st = ns key" if "\<not> allowed x"
      using cases(2) [OF that] budget_invD(2) [OF s(3)] budget_invD(2) [OF assms(2)] by metis
    then show ?thesis using r that by (auto split: if_splits)
  qed
  show "spent (ci_permitHash c) (stored_tables (ns' key)) \<and> budget_inv (ns' key)" if "r = Inr q"
  proof -
    have "allowed x" "ns' = ns(key := st)" using r that by (auto split: if_splits)
    then show ?thesis using consume_spends [OF budget_invD(1) [OF assms(2)] t] s(3) by simp
  qed
qed

section \<open>The life of a permit\<close>

definition after_consume :: "jval \<Rightarrow> (coordinator_error + budget_reply) \<times> budget_ns \<Rightarrow>
    (hyeboard_error option + (string \<times> jval)) \<times> budget_ns" where
  "after_consume v q = (case q of
     (Inl e, ns') \<Rightarrow> (Inl (thrown e), ns')
   | (Inr (RConsume (ConsumeAllowed lid until env)), ns') \<Rightarrow> (Inr (lid, v), ns')
   | (Inr _, ns') \<Rightarrow> (Inl None, ns'))"

lemma consume_unfolds:
  assumes "parseVnuCrossDetailPermitString (JStr permit) = Inr (i, env)" "decryptVnuCrossDetailPermitEnvelope cp env secret = Inr v"
    and "vnuProbeBudgetKey cp secret session = Inr key"
  shows "consumeVnuCrossDetailPermit cp secret ns session token permit l lid now =
    after_consume v (budget_coordinator ns key now (OConsumeDetail lid (buildVnuCrossDetailConsumeInput cp secret token i v) l))"
  using assms by (simp add: consumeVnuCrossDetailPermit_def after_consume_def del: parseVnuCrossDetailPermitString.simps budget_coordinator.simps)

lemma valid_record_input:
  assumes "assertValidCrossDetailRecord r = Inr ()" "hex_n 64 h"
  shows "assertValidVnuCrossDetailConsumeInput \<lparr>ci_permitHash = h, ci_nonce = nonce r, ci_requesterHmac = requesterHmac r,
    ci_targetHmac = targetHmac r, ci_revisionHmac = revisionHmac r, ci_rowHmac = rowHmac r, ci_policyVersion = VNU_CROSS_DETAIL_POLICY_VERSION\<rparr> = Inr ()"
  using assms by (auto simp: assertValidCrossDetailRecord_def assertValidVnuCrossDetailConsumeInput_def split: if_splits)

lemma minted_input:
  fixes cp o' target html row rnd now env token
  defines "r \<equiv> minted_record cp o' target html row rnd now env"
  shows "buildVnuCrossDetailConsumeInput cp (mo_secret o') token (encodeHex (mr_permitId rnd)) (minted_value cp o' target html row rnd) =
    \<lparr>ci_permitHash = minted_hash cp o' rnd, ci_nonce = nonce r, ci_requesterHmac = hmacVnuCrossDetail cp (mo_secret o') DRequester token,
     ci_targetHmac = targetHmac r, ci_revisionHmac = revisionHmac r, ci_rowHmac = rowHmac r,
     ci_policyVersion = VNU_CROSS_DETAIL_POLICY_VERSION\<rparr>"
  unfolding r_def minted_record_def minted_value_def minted_hash_def envelope_value_def buildVnuCrossDetailConsumeInput_def Let_def
  by simp

text \<open>
  C18. A permit minted for a row of a transcript and issued to the session's object stays usable,
  whatever else the object serves, until it is consumed, issued again or expires: presented by
  the session it is consumed exactly if the bearer token has the requester's digest, the time to
  live has not passed, and the budget window and the concurrency leave room; the selector that
  is then asked of the portal is the minted row, and every later presentation of the permit, by
  whatever token and under whatever limits, is refused and changes nothing.
\<close>

theorem minted_permit_lifecycle:
  assumes "run_ok budget_step budget_ok empty_budget h" "ns key = run budget_step empty_budget h"
    and "mint cp o' m target html row rnd t0 = (Inr (Some permit), m')" "length (mr_permitId rnd) = 16"
    and "seals cp (HkdfKey VNU_CROSS_DETAIL_LABEL (mo_secret o')) VNU_CROSS_DETAIL_LABEL (mr_iv rnd) (minted_value cp o' target html row rnd)"
    and "vnuProbeBudgetKey cp (mo_secret o') session = Inr key"
    and "valid_now t1" "budget_coordinator ns key t1 (OIssue (mn_issued m') l) = (Inr RDone, ns1)"
    and "run_ok budget_step budget_ok (ns1 key) xs" "ns2 = ns1(key := run budget_step (ns1 key) xs)"
    and "\<forall>x \<in> set xs. \<not> issues (minted_hash cp o' rnd) (snd x) \<and> \<not> consumes (minted_hash cp o' rnd) (snd x)
        \<and> fst x < t0 + mo_permitTtlSeconds o' * 1000"
    and "valid_now t2" "hex_n 32 lid" "cl_windowSeconds l' \<le> 315360000"
    and "consumeVnuCrossDetailPermit cp (mo_secret o') ns2 session token permit l' lid t2 = (r, ns3)"
  shows "((\<exists>q. r = Inr q) \<longleftrightarrow>
        hmacVnuCrossDetail cp (mo_secret o') DRequester token = hmacVnuCrossDetail cp (mo_secret o') DRequester (mo_requesterToken o')
      \<and> t2 < t0 + mo_permitTtlSeconds o' * 1000 \<and> assertValidVnuCrossDetailLimits l' = Inr ()
      \<and> window_used (detail_window (ns2 key)) t2 < cl_budget l'
      \<and> int (length (unexpired t2 (t_dleases (stored_tables (ns2 key))))) < concurrency l')
    \<and> (\<forall>i v. r = Inr (i, v) \<longrightarrow> i = lid \<and> selector_of v = (row_classId row, target, row_termOrdinal row)
        \<and> (\<forall>token' l'' lid' t3. valid_now t3 \<and> hex_n 32 lid' \<and> cl_windowSeconds l'' \<le> 315360000 \<longrightarrow>
            (\<exists>e. consumeVnuCrossDetailPermit cp (mo_secret o') ns3 session token' permit l'' lid' t3 = (Inl e, ns3))))
    \<and> (\<forall>e. r = Inl e \<longrightarrow> ns3 = ns2)"
proof -
  let ?v = "minted_value cp o' target html row rnd" and ?hash = "minted_hash cp o' rnd"
  obtain env where m: "encryptVnuCrossDetailPermitEnvelope cp ?v (mo_secret o') (mr_iv rnd) = Inr env"
    "permit = encodeHex (mr_permitId rnd) @ ''.'' @ env"
    "mn_issued m' = mn_issued m @ [\<lparr>permitHash = ?hash, ip_record = minted_record cp o' target html row rnd t0 env\<rparr>]"
    by (rule mint_result [OF assms(3)])
  let ?rec = "minted_record cp o' target html row rnd t0 env"
  let ?input = "\<lambda>t. buildVnuCrossDetailConsumeInput cp (mo_secret o') t (encodeHex (mr_permitId rnd)) ?v"
  note opens = envelope_opens [OF m(1) assms(5)]
  have parse: "parseVnuCrossDetailPermitString (JStr permit) = Inr (encodeHex (mr_permitId rnd), env)"
  proof -
    have i: "hex_n 32 (encodeHex (mr_permitId rnd))" using encodeHex_hex [of "mr_permitId rnd"] assms(4) by simp
    obtain a b where "env = a @ ''.'' @ b" "BASE64URL a" "BASE64URL b" "CHR ''.'' \<notin> set a" "CHR ''.'' \<notin> set b"
      using opens(2) by blast
    from permit_parses [OF i this opens(3)] show ?thesis unfolding m(2) .
  qed
  note unfold = consume_unfolds [OF parse opens(1) assms(6)]
  have inv0: "budget_inv (ns key)" using budget_reachable [OF assms(1)] assms(2) by simp
  note issue = coordinator_issue [OF assms(8) inv0 assms(7)]
  have valid: "hex_n 64 ?hash" "assertValidCrossDetailRecord ?rec = Inr ()"
    using issued_permits_valid [OF issue(2), of "\<lparr>permitHash = ?hash, ip_record = ?rec\<rparr>"] m(3) by simp_all
  have "map_of (t_permits (stored_tables (ns1 key))) ?hash = Some \<lparr>sp_record = ?rec, consumedAt = None\<rparr>"
    unfolding issue(4) m(3) using add_permits_last [of _ "mn_issued m" "\<lparr>permitHash = ?hash, ip_record = ?rec\<rparr>"] by simp
  moreover have exp: "expiresAt ?rec = t0 + mo_permitTtlSeconds o' * 1000" by (simp add: minted_record_def Let_def)
  ultimately have held: "map_of (t_permits (stored_tables (ns2 key))) ?hash = Some \<lparr>sp_record = ?rec, consumedAt = None\<rparr>"
    and inv: "budget_inv (ns2 key)"
    using permit_held_run [OF issue(3) assms(9), of ?hash "\<lparr>sp_record = ?rec, consumedAt = None\<rparr>"] assms(11) by (simp_all add: assms(10))
  obtain q ns' where c: "budget_coordinator ns2 key t2 (OConsumeDetail lid (?input token) l') = (q, ns')"
    by (cases "budget_coordinator ns2 key t2 (OConsumeDetail lid (?input token) l')")
  have r: "(r, ns3) = after_consume ?v (q, ns')" using assms(15) unfold c by simp
  note con = coordinator_consume [OF c inv issue(1) assms(12-14)]
  have hash: "ci_permitHash (?input t) = ?hash" for t by (simp add: minted_input [where now = t0 and env = env])
  have bound: "bindings_match \<lparr>sp_record = ?rec, consumedAt = None\<rparr> (?input token) \<longleftrightarrow>
      hmacVnuCrossDetail cp (mo_secret o') DRequester token = hmacVnuCrossDetail cp (mo_secret o') DRequester (mo_requesterToken o')"
    unfolding bindings_match_def minted_input [where now = t0 and env = env] minted_record_def Let_def by auto
  have pres: "presented (stored_tables (ns2 key)) t2 (?input token) \<noteq> None \<longleftrightarrow>
      t2 < t0 + mo_permitTtlSeconds o' * 1000 \<and>
      hmacVnuCrossDetail cp (mo_secret o') DRequester token = hmacVnuCrossDetail cp (mo_secret o') DRequester (mo_requesterToken o')"
    unfolding not_None_eq presented_iff [OF budget_invD(1) [OF inv]] hash held
    by (auto simp: exp bound)
  have input: "assertValidVnuCrossDetailConsumeInput (?input token) = Inr ()"
    if "hmacVnuCrossDetail cp (mo_secret o') DRequester token = hmacVnuCrossDetail cp (mo_secret o') DRequester (mo_requesterToken o')"
    using valid_record_input [OF valid(2,1)] that
    by (simp add: minted_input [where now = t0 and env = env] minted_record_def Let_def)
  have "(\<exists>x. r = Inr x) \<longleftrightarrow> (\<exists>x. q = Inr x)"
    using r con(2) by (cases q) (fastforce simp: after_consume_def)+
  moreover have "(\<exists>x. q = Inr x) \<longleftrightarrow>
        hmacVnuCrossDetail cp (mo_secret o') DRequester token = hmacVnuCrossDetail cp (mo_secret o') DRequester (mo_requesterToken o')
      \<and> t2 < t0 + mo_permitTtlSeconds o' * 1000 \<and> assertValidVnuCrossDetailLimits l' = Inr ()
      \<and> window_used (detail_window (ns2 key)) t2 < cl_budget l'
      \<and> int (length (unexpired t2 (t_dleases (stored_tables (ns2 key))))) < concurrency l'"
    unfolding con(1) pres using input by blast
  moreover have "ns3 = ns2" if "r = Inl e" for e
    using r con(2,3) that by (cases q) (fastforce simp: after_consume_def)+
  moreover have "i = lid \<and> selector_of v = (row_classId row, target, row_termOrdinal row)
        \<and> (\<exists>e. consumeVnuCrossDetailPermit cp (mo_secret o') ns3 session token' permit l'' lid' t3 = (Inl e, ns3))"
    if ok: "r = Inr (i, v)" "valid_now t3" "hex_n 32 lid'" "cl_windowSeconds l'' \<le> 315360000" for i v token' l'' lid' t3
  proof -
    obtain x where x: "q = Inr x" using r ok(1) by (cases q) (auto simp: after_consume_def)
    then obtain e w where "x = RConsume (ConsumeAllowed lid e w)" using con(2) by blast
    with r x ok(1) have f: "i = lid" "v = ?v" "ns3 = ns'" by (simp_all add: after_consume_def)
    have s: "spent ?hash (stored_tables (ns3 key))" "budget_inv (ns3 key)" using con(4) [OF x] hash f(3) by simp_all
    obtain q' ns'' where c': "budget_coordinator ns3 key t3 (OConsumeDetail lid' (?input token') l'') = (q', ns'')"
      by (cases "budget_coordinator ns3 key t3 (OConsumeDetail lid' (?input token') l'')")
    note con' = coordinator_consume [OF c' s(2) issue(1) ok(2-4)]
    have "presented (stored_tables (ns3 key)) t3 (?input token') = None"
      by (rule spent_refused [OF s(1) hash budget_invD(1) [OF s(2)]])
    with con'(1) obtain e' where "q' = Inl e'" by (cases q') auto
    with con'(3) c' unfold [of ns3 token' l'' lid' t3] f selector_minted show ?thesis by (simp add: after_consume_def)
  qed
  moreover note assms(12-14)
  ultimately show ?thesis by blast
qed

definition sample_options :: minter_options where
  "sample_options = \<lparr>mo_secret = sample_secret, mo_requesterToken = ''token'', mo_maxTargets = 1, mo_maxRows = 2, mo_permitTtlSeconds = 60\<rparr>"

definition sample_row :: detail_row where
  "sample_row = \<lparr>row_courseCode = ''INT1001'', row_classId = ''INT1001-1'', row_termOrdinal = ''3''\<rparr>"

definition sample_random :: mint_random where
  "sample_random = \<lparr>mr_permitId = replicate 16 0, mr_nonce = replicate 16 0, mr_iv = replicate 12 0\<rparr>"

definition sample_minted :: jval where
  "sample_minted = minted_value (sample_platform JNull) sample_options ''20020001'' ''html'' sample_row sample_random"

definition sample_detail_limits :: cross_limits where
  "sample_detail_limits = \<lparr>maxTargets = 1, maxRows = 2, concurrency = 1, cl_budget = 1, cl_windowSeconds = 600\<rparr>"

definition sample_caller :: jval where
  "sample_caller = JObj [(''universityId'', JStr ''vnu''), (''vnu'', JObj [(''value'', JStr ''c'')]), (''expiresAt'', JStr ''later'')]"

lemma sample_minted_value:
  "minted_value (sample_platform sample_minted) sample_options ''20020001'' ''html'' sample_row sample_random = sample_minted"
  by (simp add: sample_minted_def minted_value_def hmacVnuCrossDetail_def sample_platform_def)

theorem minted_permit_lifecycle_witness:
  "\<exists>permit ns lid v. fst (consumeVnuCrossDetailPermit (sample_platform sample_minted) sample_secret ns sample_caller ''token'' permit
       sample_detail_limits lid 3000) = Inr (lid, v) \<and> selector_of v = (''INT1001-1'', ''20020001'', ''3'')"
proof -
  let ?cp = "sample_platform sample_minted" and ?ns = "\<lambda>_. empty_budget" and ?lid = "replicate 32 CHR ''a''"
  let ?mint = "mint ?cp sample_options createVnuCrossDetailMinter ''20020001'' ''html'' sample_row sample_random 1000"
  let ?key = "replicate 64 CHR ''0''"
  let ?issue = "budget_coordinator ?ns ?key 2000 (OIssue (mn_issued (snd ?mint)) sample_detail_limits)"
  have "case fst ?mint of Inr (Some p) \<Rightarrow> True | _ \<Rightarrow> False" by code_simp
  then have "\<exists>p. fst ?mint = Inr (Some p)" by (auto split: sum.splits option.splits)
  then obtain p where m: "?mint = (Inr (Some p), snd ?mint)" by (metis prod.collapse)
  have k: "vnuProbeBudgetKey ?cp (mo_secret sample_options) sample_caller = Inr ?key" by code_simp
  have "fst ?issue = Inr RDone" by code_simp
  then have i: "?issue = (Inr RDone, snd ?issue)" by (metis prod.collapse)
  have o': "mo_secret sample_options = sample_secret" "mo_requesterToken sample_options = ''token''"
    "mo_permitTtlSeconds sample_options = 60" "mr_iv sample_random = replicate 12 0" "row_classId sample_row = ''INT1001-1''"
    "row_termOrdinal sample_row = ''3''"
    by (simp_all add: sample_options_def sample_random_def sample_row_def)
  let ?use = "consumeVnuCrossDetailPermit ?cp sample_secret (snd ?issue) sample_caller ''token'' p sample_detail_limits ?lid 3000"
  have ok: "run_ok budget_step budget_ok empty_budget []" "run_ok budget_step budget_ok (snd ?issue ?key) []" by simp_all
  have now: "valid_now 2000" "valid_now 3000" "hex_n 32 ?lid" "length (mr_permitId sample_random) = 16"
    "cl_windowSeconds sample_detail_limits \<le> 315360000" by code_simp+
  have free: "window_used (detail_window (snd ?issue ?key)) 3000 < cl_budget sample_detail_limits"
    "int (length (unexpired 3000 (t_dleases (stored_tables (snd ?issue ?key))))) < concurrency sample_detail_limits"
    "assertValidVnuCrossDetailLimits sample_detail_limits = Inr ()" by code_simp+
  have seals: "seals ?cp (HkdfKey VNU_CROSS_DETAIL_LABEL (mo_secret sample_options)) VNU_CROSS_DETAIL_LABEL (mr_iv sample_random)
      (minted_value ?cp sample_options ''20020001'' ''html'' sample_row sample_random)"
    unfolding sample_minted_value o' by (rule sample_seals)
  note life = minted_permit_lifecycle [where h = "[]" and xs = "[]" and ns = ?ns and ?ns1.0 = "snd ?issue" and ?ns2.0 = "snd ?issue"
      and key = ?key and session = sample_caller and token = "''token''" and l' = sample_detail_limits and lid = ?lid and ?t2.0 = 3000
      and r = "fst ?use" and ?ns3.0 = "snd ?use", OF ok(1) _ m now(4) seals k now(1) i ok(2) _ _ now(2,3,5), unfolded o']
  have "(\<exists>q. fst ?use = Inr q) \<and> (\<forall>i v. fst ?use = Inr (i, v) \<longrightarrow> i = ?lid \<and> selector_of v = (''INT1001-1'', ''20020001'', ''3''))"
    using life free by simp
  then show ?thesis by (metis surj_pair)
qed

end
