(* ===== verification/SessionRevocation.thy ===== *)
theory SessionRevocation
  imports AppShared HaContracts
begin

text \<open>
  Where ended sessions are remembered. The table of a distributed deployment,
  \<open>apps/worker/src/node/postgres/session-revocation.ts\<close> with \<open>crypto.ts\<close>: one row per kind and
  keyed digest, whose expiry only grows. And the cache of \<open>apps/worker/src/app.ts\<close> (the
  in-memory one and the helpers around it), which keeps markers of revoked tokens otherwise.
\<close>

section \<open>The revocation table\<close>

datatype subject_kind = SubjectToken | SubjectSession

fun kind_name :: "subject_kind \<Rightarrow> string" where
  "kind_name SubjectToken = ''token''"
| "kind_name SubjectSession = ''session''"

text \<open>\<open>None\<close> is a thrown error; the bytes of a secret are its characters.\<close>

definition derivePostgresOpaqueHash :: "core_platform \<Rightarrow> string \<Rightarrow> subject_kind \<Rightarrow> string \<Rightarrow> string option" where
  "derivePostgresOpaqueHash cp secret kind v =
    (if length secret < 32 then None
     else if v = [] then None
     else Some (encodeHex (cp_hmac cp (RawKey secret) (''hyeboard:session-revocation:v1:'' @ kind_name kind @ '':'' @ v))))"

definition toPostgresEpochMilliseconds :: "int option \<Rightarrow> int option" where
  "toPostgresEpochMilliseconds parsed = (case parsed of
     None \<Rightarrow> None | Some t \<Rightarrow> if \<not> safe_integer t \<or> t \<le> 0 then None else Some t)"

type_synonym revocation_table = "subject_kind \<times> string \<Rightarrow> int option"

definition upsert_greatest :: "subject_kind \<times> string \<Rightarrow> int \<Rightarrow> revocation_table \<Rightarrow> revocation_table" where
  "upsert_greatest k e tbl = tbl(k := Some (case tbl k of None \<Rightarrow> e | Some old \<Rightarrow> max old e))"

definition pg_revoke ::
  "core_platform \<Rightarrow> string \<Rightarrow> subject_kind \<Rightarrow> string \<Rightarrow> int option \<Rightarrow> revocation_table \<Rightarrow> revocation_table option" where
  "pg_revoke cp secret kind v parsed tbl =
    (case derivePostgresOpaqueHash cp secret kind v of None \<Rightarrow> None
     | Some h \<Rightarrow> (case toPostgresEpochMilliseconds parsed of None \<Rightarrow> None
       | Some e \<Rightarrow> Some (upsert_greatest (kind, h) e tbl)))"

definition pg_isRevoked ::
  "core_platform \<Rightarrow> string \<Rightarrow> subject_kind \<Rightarrow> string \<Rightarrow> int \<Rightarrow> revocation_table \<Rightarrow> (bool \<times> revocation_table) option" where
  "pg_isRevoked cp secret kind v now tbl =
    (case derivePostgresOpaqueHash cp secret kind v of None \<Rightarrow> None
     | Some h \<Rightarrow>
         (let k = (kind, h);
              kept = (case tbl k of None \<Rightarrow> tbl | Some e \<Rightarrow> if e \<le> now then tbl(k := None) else tbl) in
          Some (case kept k of None \<Rightarrow> False | Some e \<Rightarrow> e > now, kept)))"

section \<open>The cache\<close>

type_synonym app_cache = "string \<Rightarrow> (jval \<times> int) option"

definition cache_match :: "int \<Rightarrow> string \<Rightarrow> app_cache \<Rightarrow> jval option \<times> app_cache" where
  "cache_match now key c = (case c key of
     None \<Rightarrow> (None, c)
   | Some (v, e) \<Rightarrow> if e \<le> now then (None, c(key := None)) else (Some v, c))"

text \<open>The \<open>max-age\<close> of a response; one that is no number is read as zero.\<close>

definition cache_store :: "int \<Rightarrow> string \<Rightarrow> jval \<Rightarrow> int option \<Rightarrow> app_cache \<Rightarrow> app_cache" where
  "cache_store now key v maxAge c =
     c(key := Some (v, now + (case maxAge of None \<Rightarrow> 0 | Some s \<Rightarrow> s) * 1000))"

text \<open>
  How a call to a dependency ends: it is answered, it does not reach the dependency, or it takes
  effect and the answer is lost. The caller sees an exception in the last two cases.
\<close>

datatype fate = Answered | NotReached | ReplyLost

definition with_fate :: "fate \<Rightarrow> 'e \<Rightarrow> ('s \<Rightarrow> ('e + 'a) \<times> 's) \<Rightarrow> 's \<Rightarrow> ('e + 'a) \<times> 's" where
  "with_fate fate e m s = (case fate of
     Answered \<Rightarrow> m s | NotReached \<Rightarrow> (Inl e, s) | ReplyLost \<Rightarrow> (Inl e, snd (m s)))"

definition cacheGet ::
  "ha_mode \<Rightarrow> fate \<Rightarrow> int \<Rightarrow> string \<Rightarrow> app_cache \<Rightarrow> (hyeboard_error + jval option) \<times> app_cache" where
  "cacheGet mode fate now key c =
    (case with_fate fate () (\<lambda>c. (Inr (fst (cache_match now key c)), snd (cache_match now key c))) c of
       (Inr v, c') \<Rightarrow> (Inr v, c')
     | (Inl _, c') \<Rightarrow>
         (if mode = Distributed then Inl (distributedDependencyUnavailable ''Redis cache'') else Inr None, c'))"

definition cachePut ::
  "ha_mode \<Rightarrow> fate \<Rightarrow> int \<Rightarrow> string \<Rightarrow> jval \<Rightarrow> int option \<Rightarrow> app_cache \<Rightarrow> (hyeboard_error + unit) \<times> app_cache" where
  "cachePut mode fate now key v maxAge c =
    (if (case maxAge of None \<Rightarrow> False | Some s \<Rightarrow> s \<le> 0) then (Inr (), c)
     else case with_fate fate () (\<lambda>c. (Inr (), cache_store now key v maxAge c)) c of
       (Inr _, c') \<Rightarrow> (Inr (), c')
     | (Inl _, c') \<Rightarrow>
         (if mode = Distributed then Inl (distributedDependencyUnavailable ''Redis cache'') else Inr (), c'))"

section \<open>Laws\<close>

lemma upsert_monotone: "tbl k = Some e \<Longrightarrow> \<exists>e'. upsert_greatest k' d tbl k = Some e' \<and> e \<le> e'"
  by (auto simp: upsert_greatest_def)

lemma pg_revoke_then_revoked:
  assumes "pg_revoke cp secret kind v (Some e) tbl = Some tbl'" "now < e"
  shows "map_option fst (pg_isRevoked cp secret kind v now tbl') = Some True"
  using assms
  by (auto simp: pg_revoke_def pg_isRevoked_def toPostgresEpochMilliseconds_def upsert_greatest_def Let_def
      split: option.splits if_splits)

lemma cache_match_store:
  "fst (cache_match later key (cache_store now key v (Some s) c)) = (if later < now + s * 1000 then Some v else None)"
  by (auto simp: cache_match_def cache_store_def)

lemma cache_match_other: "key' \<noteq> key \<Longrightarrow> cache_store now key v s c key' = c key'"
  by (simp add: cache_store_def)

end
