(* ===== verification/VnuAuth.thy ===== *)
theory VnuAuth
  imports SessionRevocation RefreshLaws SessionProps FeaturePolicy
begin

text \<open>
  VNU sign-in, reconnect and logout, the routes of \<open>apps/worker/src/app.ts\<close> that compose the
  session tokens, the refresh authority and the revocation stores: a sign-in activates a pair
  and seals it into a session and a grant, every request resolves its session against the
  authority, a reconnect rotates the pair after it signed in to the portal again, and a logout
  revokes it. Handlers are functions of the world; the portal and the fate of every call to a
  dependency are arguments.
\<close>

section \<open>The world of the handlers\<close>

record auth_config =
  ac_cp :: core_platform
  ac_secret :: "string option"
  ac_ha :: ha_config
  ac_coordinator :: bool
  ac_store :: bool

record auth_world =
  aw_refresh :: "string \<Rightarrow> do_store"
  aw_revoked :: revocation_table
  aw_cache :: app_cache

definition empty_world :: auth_world where
  "empty_world = \<lparr>aw_refresh = (\<lambda>_. empty_store), aw_revoked = (\<lambda>_. None), aw_cache = (\<lambda>_. None)\<rparr>"

datatype dependency =
    TokenRevocation | TokenLookup | SessionRevocation | SessionLookup
  | CacheRead | CacheWrite | ObjectCall | AbortCall

type_synonym faults = "dependency \<Rightarrow> fate"

text \<open>\<open>Inl None\<close> is an exception that is no error of the core package.\<close>

type_synonym 'a auth = "auth_world \<Rightarrow> (hyeboard_error option + 'a) \<times> auth_world"

definition ret :: "'a \<Rightarrow> 'a auth" where
  "ret x w = (Inr x, w)"

definition throw :: "hyeboard_error \<Rightarrow> 'a auth" where
  "throw e w = (Inl (Some e), w)"

definition of_core :: "hyeboard_error + 'a \<Rightarrow> 'a auth" where
  "of_core r w = (lift_core r, w)"

definition abind :: "'a auth \<Rightarrow> ('a \<Rightarrow> 'b auth) \<Rightarrow> 'b auth" where
  "abind m f w = (case m w of (Inl e, w') \<Rightarrow> (Inl e, w') | (Inr x, w') \<Rightarrow> f x w')"

definition distributed :: "auth_config \<Rightarrow> bool" where
  "distributed cfg \<longleftrightarrow> ha_mode (ac_ha cfg) = Distributed"

section \<open>Revocation of tokens and sessions\<close>

definition revocationUnavailable :: hyeboard_error where
  "revocationUnavailable = distributedDependencyUnavailable ''PostgreSQL session revocation''"

text \<open>A call to the revocation store; it throws when the store fails or refuses its arguments.\<close>

definition store_revoke :: "auth_config \<Rightarrow> fate \<Rightarrow> string \<Rightarrow> subject_kind \<Rightarrow> string \<Rightarrow> int option \<Rightarrow> auth_world \<Rightarrow> (unit + unit) \<times> auth_world" where
  "store_revoke cfg fate secret kind v parsed = with_fate fate () (\<lambda>w.
     case pg_revoke (ac_cp cfg) secret kind v parsed (aw_revoked w) of
       None \<Rightarrow> (Inl (), w) | Some tbl \<Rightarrow> (Inr (), w\<lparr>aw_revoked := tbl\<rparr>))"

definition store_isRevoked :: "auth_config \<Rightarrow> fate \<Rightarrow> string \<Rightarrow> subject_kind \<Rightarrow> string \<Rightarrow> int \<Rightarrow> auth_world \<Rightarrow> (unit + bool) \<times> auth_world" where
  "store_isRevoked cfg fate secret kind v now = with_fate fate () (\<lambda>w.
     case pg_isRevoked (ac_cp cfg) secret kind v now (aw_revoked w) of
       None \<Rightarrow> (Inl (), w) | Some (b, tbl) \<Rightarrow> (Inr b, w\<lparr>aw_revoked := tbl\<rparr>))"

definition get_cache :: "auth_config \<Rightarrow> fate \<Rightarrow> int \<Rightarrow> string \<Rightarrow> jval option auth" where
  "get_cache cfg fate now key w = (case cacheGet (ha_mode (ac_ha cfg)) fate now key (aw_cache w) of
     (r, c) \<Rightarrow> (lift_core r, w\<lparr>aw_cache := c\<rparr>))"

definition put_cache :: "auth_config \<Rightarrow> fate \<Rightarrow> int \<Rightarrow> string \<Rightarrow> jval \<Rightarrow> int option \<Rightarrow> unit auth" where
  "put_cache cfg fate now key v maxAge w = (case cachePut (ha_mode (ac_ha cfg)) fate now key v maxAge (aw_cache w) of
     (r, c) \<Rightarrow> (lift_core r, w\<lparr>aw_cache := c\<rparr>))"

definition revokedTokenKey :: "auth_config \<Rightarrow> string \<Rightarrow> string \<Rightarrow> string" where
  "revokedTokenKey cfg secret token = ''revoked-token/'' @ hmacHex (ac_cp cfg) secret token"

text \<open>\<open>Date.parse\<close> of an expiry; one that is no text, which no session the worker issues has, is no date.\<close>

definition parsed_date :: "auth_config \<Rightarrow> jval \<Rightarrow> int option" where
  "parsed_date cfg v = (case v of JStr s \<Rightarrow> cp_date (ac_cp cfg) s | _ \<Rightarrow> None)"

text \<open>\<open>Math.max(0, Math.floor((expiry - now) / 1000))\<close>, which is no number for an invalid date.\<close>

definition ttl_seconds :: "int option \<Rightarrow> int \<Rightarrow> int option" where
  "ttl_seconds expiry now = map_option (\<lambda>e. max 0 ((e - now) div 1000)) expiry"

definition revoked_marker :: jval where
  "revoked_marker = JObj [(''revoked'', JBool True)]"

definition revokeToken :: "auth_config \<Rightarrow> faults \<Rightarrow> string \<Rightarrow> int \<Rightarrow> string \<Rightarrow> jval \<Rightarrow> unit auth" where
  "revokeToken cfg down secret now token expiresAt w =
    (let expiry = parsed_date cfg expiresAt;
         cached = put_cache cfg (down CacheWrite) now (revokedTokenKey cfg secret token) revoked_marker (ttl_seconds expiry now) in
     if ac_store cfg then
       (case store_revoke cfg (down TokenRevocation) secret SubjectToken token expiry w of
          (Inr _, w') \<Rightarrow> ret () w'
        | (Inl _, w') \<Rightarrow> if distributed cfg then throw revocationUnavailable w' else cached w')
     else if distributed cfg then throw revocationUnavailable w
     else cached w)"

definition isTokenRevoked :: "auth_config \<Rightarrow> faults \<Rightarrow> string \<Rightarrow> int \<Rightarrow> string \<Rightarrow> bool auth" where
  "isTokenRevoked cfg down secret now token w =
    (let cached = abind (get_cache cfg (down CacheRead) now (revokedTokenKey cfg secret token)) (\<lambda>v. ret (v \<noteq> None)) in
     if ac_store cfg then
       (case store_isRevoked cfg (down TokenLookup) secret SubjectToken token now w of
          (Inr b, w') \<Rightarrow> ret b w'
        | (Inl _, w') \<Rightarrow> if distributed cfg then throw revocationUnavailable w' else cached w')
     else if distributed cfg then throw revocationUnavailable w
     else cached w)"

definition session_id :: "jval \<Rightarrow> string" where
  "session_id session = text_of_value (prop_of ''sessionId'' session)"

definition revokeSession :: "auth_config \<Rightarrow> faults \<Rightarrow> string \<Rightarrow> jval \<Rightarrow> unit auth" where
  "revokeSession cfg down secret session w =
    (if session_id session = [] then ret () w
     else if \<not> ac_store cfg then (if distributed cfg then throw revocationUnavailable w else ret () w)
     else case store_revoke cfg (down SessionRevocation) secret SubjectSession (session_id session)
         (parsed_date cfg (prop_of ''expiresAt'' session)) w of
       (Inr _, w') \<Rightarrow> ret () w'
     | (Inl _, w') \<Rightarrow> if distributed cfg then throw revocationUnavailable w' else ret () w')"

definition isSessionRevoked :: "auth_config \<Rightarrow> faults \<Rightarrow> string \<Rightarrow> int \<Rightarrow> string \<Rightarrow> bool auth" where
  "isSessionRevoked cfg down secret now sid w =
    (if \<not> ac_store cfg then (if distributed cfg then throw revocationUnavailable w else ret False w)
     else case store_isRevoked cfg (down SessionLookup) secret SubjectSession sid now w of
       (Inr b, w') \<Rightarrow> ret b w'
     | (Inl _, w') \<Rightarrow> if distributed cfg then throw revocationUnavailable w' else ret False w')"

section \<open>The refresh authority of a principal\<close>

text \<open>
  A call through the installed coordinator. A pair whose dates cannot be read fails its
  assertion before anything is sent; every failure is an exception of the caller.
\<close>

definition authority_call ::
  "auth_config \<Rightarrow> fate \<Rightarrow> int \<Rightarrow> string \<Rightarrow> refresh_call option \<Rightarrow> auth_world \<Rightarrow> (unit + refresh_reply) \<times> auth_world" where
  "authority_call cfg fate now pkey request w =
    (case request of
       None \<Rightarrow> (Inl (), w)
     | Some call \<Rightarrow>
         if \<not> ac_coordinator cfg then (Inl (), w)
         else with_fate fate () (\<lambda>w. case coordinator_call (aw_refresh w) pkey now call of
             (Inl _, ns) \<Rightarrow> (Inl (), w\<lparr>aw_refresh := ns\<rparr>)
           | (Inr r, ns) \<Rightarrow> (Inr r, w\<lparr>aw_refresh := ns\<rparr>)) w)"

text \<open>The pair a descriptor names; \<open>None\<close> when an expiry cannot be read.\<close>

definition descriptorPair :: "auth_config \<Rightarrow> jval \<Rightarrow> linked_pair option" where
  "descriptorPair cfg d =
    (case (parsed_date cfg (prop_of ''accessExpiresAt'' d), parsed_date cfg (prop_of ''grantExpiresAt'' d)) of
       (Some a, Some g) \<Rightarrow> Some \<lparr>accessTokenId = text_of_value (prop_of ''accessTokenId'' d), accessExpiresAt = a,
         grantId = text_of_value (prop_of ''grantId'' d), grantExpiresAt = g\<rparr>
     | _ \<Rightarrow> None)"

definition principal_of :: "jval \<Rightarrow> string" where
  "principal_of d = text_of_value (prop_of ''principalKey'' d)"

section \<open>Resolving a session\<close>

definition session_meta_of :: "jval \<Rightarrow> session_meta" where
  "session_meta_of session =
    \<lparr>meta_session_id = (case prop_of ''sessionId'' session of JStr s \<Rightarrow> Some s | _ \<Rightarrow> None),
     meta_epoch = (case prop_of ''sessionEpoch'' session of JInt n \<Rightarrow> Some n | _ \<Rightarrow> None)\<rparr>"

definition check_authority :: "auth_config \<Rightarrow> faults \<Rightarrow> int \<Rightarrow> jval \<Rightarrow> jval auth" where
  "check_authority cfg down now session w =
    (let d = prop_of ''vnuRefresh'' session in
     case authority_call cfg (down ObjectCall) now (principal_of d) (map_option CCheck (descriptorPair cfg d)) w of
       (Inr (RCheck AccessRevoked), w') \<Rightarrow> throw sessionExpired w'
     | (Inr _, w') \<Rightarrow> ret session w'
     | (Inl _, w') \<Rightarrow> throw vnuRefreshUnavailable w')"

definition resolveOrdinaryAccessToken :: "auth_config \<Rightarrow> faults \<Rightarrow> int \<Rightarrow> string \<Rightarrow> jval auth" where
  "resolveOrdinaryAccessToken cfg down now token =
     abind (of_core (getSessionSecret (ac_secret cfg))) (\<lambda>secret.
     abind (of_core (decryptSession (ac_cp cfg) token secret now)) (\<lambda>session.
     if \<not> accepted (checkSessionEpoch (session_meta_of session) (ac_ha cfg)) then throw sessionExpired
     else if distributed cfg \<and> \<not> ac_store cfg then throw revocationUnavailable
     else abind (if session_id session = [] then ret False else isSessionRevoked cfg down secret now (session_id session)) (\<lambda>ended.
       if ended then throw sessionExpired
       else if prop_of ''universityId'' session = JStr ''vnu'' \<and> \<not> truthy (prop_of ''value'' (prop_of ''vnu'' session))
       then throw missingVnuCredential
       else if prop_of ''vnuRefresh'' session = JUndefined
       then abind (isTokenRevoked cfg down secret now token) (\<lambda>revoked. if revoked then throw sessionExpired else ret session)
       else check_authority cfg down now session)))"

definition getSession :: "auth_config \<Rightarrow> faults \<Rightarrow> int \<Rightarrow> string option \<Rightarrow> jval auth" where
  "getSession cfg down now authorization = (case parseBearerToken authorization of
     None \<Rightarrow> throw missingSession | Some token \<Rightarrow> resolveOrdinaryAccessToken cfg down now token)"

section \<open>Errors of the reconnect routes\<close>

definition vnuRefreshIdentityMismatch :: hyeboard_error where
  "vnuRefreshIdentityMismatch = core_error ''VNU_REFRESH_IDENTITY_MISMATCH''
     ''The VNU reconnect identity did not match the signed-in account.'' 409"

definition grantRevoked :: hyeboard_error where
  "grantRevoked = core_error ''VNU_REFRESH_GRANT_REVOKED'' ''The VNU reconnect grant has been revoked.'' 401"

definition invalidBody :: hyeboard_error where
  "invalidBody = core_error ''VALIDATION'' ''The request body is invalid.'' 400"

definition invalidLegacySession :: hyeboard_error where
  "invalidLegacySession = core_error ''INVALID_SESSION'' ''Invalid or malformed session token'' 401"

definition beginResultError :: "begin_result \<Rightarrow> hyeboard_error option" where
  "beginResultError r = (case r of
     BeginRevoked \<Rightarrow> Some grantRevoked
   | InProgress k \<Rightarrow> Some ((core_error ''VNU_REFRESH_UNAVAILABLE'' ''VNU reconnect is already in progress. Try again shortly.'' 503)
       \<lparr>err_details := [(''retryAfterSeconds'', JInt k)]\<rparr>)
   | BeginLimited k l s \<Rightarrow> Some ((core_error ''VNU_REFRESH_RATE_LIMITED'' ''Too many VNU reconnect attempts. Wait and try again.'' 429)
       \<lparr>err_details := [(''retryAfterSeconds'', JInt k), (''limit'', JInt l), (''windowSeconds'', JInt s)]\<rparr>)
   | Accepted _ \<Rightarrow> None)"

definition isTerminalVnuRefreshFailure :: "hyeboard_error option \<Rightarrow> bool" where
  "isTerminalVnuRefreshFailure e = (case e of None \<Rightarrow> False
     | Some h \<Rightarrow> err_code h = ''INVALID_VNU_CREDENTIAL'' \<or> err_code h = ''VNU_REFRESH_IDENTITY_MISMATCH'')"

text \<open>The details the schema of a response admits; an error without details has none either way.\<close>

fun positive_int :: "jval \<Rightarrow> bool" where
  "positive_int (JInt n) = (0 < n \<and> safe_integer n)"
| "positive_int _ = False"

definition detail_admitted :: "string \<times> jval \<Rightarrow> bool" where
  "detail_admitted kv = (case kv of (k, v) \<Rightarrow>
     if k = ''reason'' then v = JStr ''MISSING_VNU_CREDENTIAL''
     else if k \<in> {''retryAfterSeconds'', ''limit'', ''windowSeconds'', ''targetRevision''} then positive_int v
     else if k = ''capability'' then (case v of JStr s \<Rightarrow> capability_of s \<noteq> None | _ \<Rightarrow> False)
     else if k = ''currentRevision'' then v = JInt 0 \<or> positive_int v
     else k = ''path'' \<and> (case v of JStr s \<Rightarrow> length s \<le> 256 | _ \<Rightarrow> False))"

definition approvedVnuRefreshDetails :: "hyeboard_error \<Rightarrow> (string \<times> jval) list" where
  "approvedVnuRefreshDetails e = (if list_all detail_admitted (err_details e) then err_details e else [])"

definition public_error :: "hyeboard_error \<Rightarrow> string \<Rightarrow> int \<Rightarrow> hyeboard_error" where
  "public_error e message status = (core_error (err_code e) message status)\<lparr>err_details := approvedVnuRefreshDetails e\<rparr>"

definition requestFailed :: hyeboard_error where
  "requestFailed = core_error ''VNU_REQUEST_FAILED'' ''The VNU reconnect request failed. Try again.'' 502"

definition publicVnuRefreshError :: "hyeboard_error option \<Rightarrow> hyeboard_error" where
  "publicVnuRefreshError err = (case err of None \<Rightarrow> requestFailed | Some e \<Rightarrow>
     if err_code e = ''INVALID_VNU_CREDENTIAL''
     then core_error (err_code e) ''The VNU username or password is no longer valid.'' 401
     else if err_code e = ''VNU_REFRESH_IDENTITY_MISMATCH'' then vnuRefreshIdentityMismatch
     else if err_code e = ''VNU_RATE_LIMITED'' then public_error e ''VNU is rate limiting requests. Wait and try again.'' 429
     else if err_code e = ''VNU_UPSTREAM_UNAVAILABLE''
     then public_error e ''The VNU portal is temporarily unavailable. Try again.'' 502
     else if err_code e = ''VNU_REQUEST_FAILED'' then public_error e ''The VNU reconnect request failed. Try again.'' 502
     else if err_code e = ''VNU_REFRESH_UNAVAILABLE'' then vnuRefreshUnavailable
     else if err_code e = ''VNU_REFRESH_GRANT_REVOKED'' then grantRevoked
     else if err_code e = ''VNU_REFRESH_RATE_LIMITED''
     then public_error e ''Too many VNU reconnect attempts. Wait and try again.'' 429
     else requestFailed)"

section \<open>Bodies and older tokens\<close>

definition VNU_AUTH_BODY_MAX_BYTES :: int where
  "VNU_AUTH_BODY_MAX_BYTES = int VNU_REFRESH_GRANT_MAX_LENGTH + 19 + 32"

datatype auth_body = RefreshBody | LogoutBody

definition grant_shape :: "jval \<Rightarrow> bool" where
  "grant_shape v \<longleftrightarrow> matches (\<lambda>s. 1 \<le> length s \<and> length s \<le> VNU_REFRESH_GRANT_MAX_LENGTH) v"

definition parseStrictVnuAuthBody ::
  "(bytes \<Rightarrow> jval option) \<Rightarrow> body_request \<Rightarrow> auth_body \<Rightarrow> hyeboard_error + string option" where
  "parseStrictVnuAuthBody parse rq kind =
     sbind (read_bounded parse invalidBody rq VNU_AUTH_BODY_MAX_BYTES) (\<lambda>v.
     let g = prop_of ''refreshGrant'' v in
     if \<not> is_object v then Inl invalidBody
     else if list_ex (\<lambda>k. k \<noteq> ''refreshGrant'') (own_keys v) then Inl invalidBody
     else if g \<noteq> JUndefined \<and> \<not> grant_shape g then Inl invalidBody
     else if kind = RefreshBody \<and> g = JUndefined then Inl invalidBody
     else Inr (if g = JUndefined then None else Some (text_of_value g)))"

text \<open>A session from before the descriptors: its token still opens, and its expiry is not looked at.\<close>

definition legacy_ok :: "jval \<Rightarrow> bool" where
  "legacy_ok v \<longleftrightarrow> is_object v \<and> \<not> has_own ''vnuRefresh'' v
     \<and> prop_of ''version'' v = JInt 1 \<and> prop_of ''universityId'' v = JStr ''vnu''
     \<and> parseCanonicalIso (prop_of ''expiresAt'' v) \<noteq> None
     \<and> is_object (prop_of ''vnu'' v) \<and> prop_of ''kind'' (prop_of ''vnu'' v) = JStr ''cookie''
     \<and> isNonemptyString (prop_of ''value'' (prop_of ''vnu'' v))"

definition decryptAuthenticatedLegacyVnuSession :: "core_platform \<Rightarrow> string \<Rightarrow> string \<Rightarrow> hyeboard_error + jval" where
  "decryptAuthenticatedLegacyVnuSession cp token secret =
    (case Option.bind (token_parts token) (open_parts cp (DigestKey secret) []) of
       None \<Rightarrow> Inl invalidLegacySession
     | Some v \<Rightarrow> if legacy_ok v then Inr v else Inl invalidLegacySession)"

section \<open>Sign-in\<close>

text \<open>The session identifier and epoch of a distributed deployment; the new identifier is an argument.\<close>

definition nullish :: "jval \<Rightarrow> jval \<Rightarrow> jval" where
  "nullish v d = (if v = JUndefined \<or> v = JNull then d else v)"

definition sessionTokenPayload :: "auth_config \<Rightarrow> string \<Rightarrow> jval \<Rightarrow> jval \<Rightarrow> jval" where
  "sessionTokenPayload cfg uuid previous payload =
    (if \<not> distributed cfg then payload
     else with_prop ''sessionEpoch'' (JInt (session_epoch (ac_ha cfg)))
       (with_prop ''sessionId''
          (nullish (prop_of ''sessionId'' payload) (nullish (prop_of ''sessionId'' previous) (JStr uuid))) payload))"

record auth_random =
  ar_uuid :: string
  ar_grantId :: bytes
  ar_accessId :: bytes
  ar_sessionIv :: bytes
  ar_grantIv :: bytes

record auth_result =
  res_token :: string
  res_grant :: "string option"
  res_session :: jval

definition session_metadata :: "jval \<Rightarrow> jval" where
  "session_metadata payload = JObj [(''universityId'', prop_of ''universityId'' payload),
     (''studentCode'', prop_of ''studentCode'' payload), (''expiresAt'', prop_of ''expiresAt'' payload),
     (''authenticated'', JBool True)]"

definition activationLimited :: "int \<Rightarrow> hyeboard_error" where
  "activationLimited k = (core_error ''VNU_MANUAL_ACTIVATION_RATE_LIMITED''
     ''Too many VNU sign-ins. Wait before trying again.'' 429)\<lparr>err_details := [(''retryAfterSeconds'', JInt k)]\<rparr>"

text \<open>A cancelled request throws the reason of its signal.\<close>

definition throwIfRequestCancelled :: "bool \<Rightarrow> unit auth" where
  "throwIfRequestCancelled cancelled w = (if cancelled then Inl None else Inr (), w)"

definition issueVnuAuthResult ::
  "auth_config \<Rightarrow> faults \<Rightarrow> string \<Rightarrow> int \<Rightarrow> bool \<times> bool \<Rightarrow> auth_random \<Rightarrow> string \<Rightarrow> string \<Rightarrow> jval \<Rightarrow> jval \<Rightarrow> auth_result auth" where
  "issueVnuAuthResult cfg down secret now cancelled rnd username password payload session =
     abind (throwIfRequestCancelled (fst cancelled)) (\<lambda>_.
     let cp = ac_cp cfg; seal = (\<lambda>p. encryptSession cp (sessionTokenPayload cfg (ar_uuid rnd) JUndefined p) secret (ar_sessionIv rnd)) in
     if \<not> ac_coordinator cfg then
       abind (of_core (seal payload)) (\<lambda>token. ret \<lparr>res_token = token, res_grant = None, res_session = session\<rparr>)
     else if \<not> truthy (prop_of ''studentCode'' payload) then throw incompleteVnuProfile
     else abind (\<lambda>w. (createVnuRefreshGrant cp username password (text_of_value (prop_of ''studentCode'' payload)) now (ar_grantId rnd), w)) (\<lambda>grant.
       abind (of_core (createVnuRefreshAccessDescriptor cp username (text_of_value (prop_of ''grantId'' grant))
           (text_of_value (prop_of ''expiresAt'' payload)) (text_of_value (prop_of ''expiresAt'' grant)) secret (ar_accessId rnd))) (\<lambda>d.
       abind (throwIfRequestCancelled (snd cancelled)) (\<lambda>_ w.
         case authority_call cfg (down ObjectCall) now (principal_of d) (map_option CActivate (descriptorPair cfg d)) w of
           (Inr (RActivate (ActivateLimited k _ _)), w') \<Rightarrow> throw (activationLimited k) w'
         | (Inr _, w') \<Rightarrow>
             abind (of_core (seal (with_prop ''vnuRefresh'' d payload))) (\<lambda>token.
             abind (of_core (encryptVnuRefreshGrant cp grant secret (ar_grantIv rnd))) (\<lambda>g.
             ret \<lparr>res_token = token, res_grant = Some g, res_session = session\<rparr>)) w'
         | (Inl _, w') \<Rightarrow> throw vnuRefreshUnavailable w'))))"

section \<open>Reconnect\<close>

definition linkedRefreshInputs :: "auth_config \<Rightarrow> string \<Rightarrow> jval \<Rightarrow> jval \<Rightarrow> hyeboard_error + (jval \<times> linked_pair option)" where
  "linkedRefreshInputs cfg secret session grant =
    (let d = prop_of ''vnuRefresh'' session in
     sbind (deriveVnuRefreshPrincipal (ac_cp cfg) (text_of_value (prop_of ''username'' grant)) secret) (\<lambda>pkey.
     if JStr pkey \<noteq> prop_of ''principalKey'' d \<or> prop_of ''grantId'' grant \<noteq> prop_of ''grantId'' d
        \<or> prop_of ''expiresAt'' grant \<noteq> prop_of ''grantExpiresAt'' d
     then Inl vnuRefreshIdentityMismatch
     else Inr (d, descriptorPair cfg d)))"

definition identity_matches :: "jval \<Rightarrow> jval \<Rightarrow> bool" where
  "identity_matches session grant \<longleftrightarrow> prop_of ''universityId'' session = JStr ''vnu''
     \<and> truthy (prop_of ''studentCode'' session) \<and> prop_of ''studentCode'' session = prop_of ''expectedStudentCode'' grant"

definition ensureVnuIdentityMatch :: "jval \<Rightarrow> jval \<Rightarrow> hyeboard_error + unit" where
  "ensureVnuIdentityMatch session grant =
    (if identity_matches session grant then Inr () else Inl vnuRefreshIdentityMismatch)"

text \<open>The session and the grant a reconnect starts from.\<close>

definition refresh_inputs ::
  "auth_config \<Rightarrow> (bytes \<Rightarrow> jval option) \<Rightarrow> int \<Rightarrow> string option \<Rightarrow> body_request \<Rightarrow> hyeboard_error + (string \<times> jval \<times> jval)" where
  "refresh_inputs cfg parse now authorization rq = (case parseBearerToken authorization of
     None \<Rightarrow> Inl missingSession
   | Some token \<Rightarrow>
       sbind (getSessionSecret (ac_secret cfg)) (\<lambda>secret.
       sbind (case decryptVnuRefreshPurposeToken (ac_cp cfg) token secret of
           Inr session \<Rightarrow> Inr session
         | Inl e \<Rightarrow> (case decryptAuthenticatedLegacyVnuSession (ac_cp cfg) token secret of
             Inl _ \<Rightarrow> Inl e | Inr _ \<Rightarrow> Inl invalidVnuRefreshGrant)) (\<lambda>session.
       sbind (parseStrictVnuAuthBody parse rq RefreshBody) (\<lambda>g.
       sbind (decryptVnuRefreshGrant (ac_cp cfg) (the g) secret now) (\<lambda>grant.
       Inr (secret, session, grant))))))"

record pending_refresh =
  pr_secret :: string
  pr_session :: jval
  pr_grant :: jval
  pr_principal :: string
  pr_old :: "linked_pair option"

definition refresh_begin ::
  "auth_config \<Rightarrow> faults \<Rightarrow> (bytes \<Rightarrow> jval option) \<Rightarrow> int \<Rightarrow> string option \<Rightarrow> body_request \<Rightarrow> pending_refresh auth" where
  "refresh_begin cfg down parse now authorization rq =
     abind (of_core (refresh_inputs cfg parse now authorization rq)) (\<lambda>(secret, session, grant).
     abind (of_core (linkedRefreshInputs cfg secret session grant)) (\<lambda>(d, old) w.
       let call = (\<lambda>c. authority_call cfg (down ObjectCall) now (principal_of d) (map_option c old) w) in
       if \<not> ac_coordinator cfg then throw vnuRefreshUnavailable w
       else if \<not> identity_matches session grant then
         (case call CRevokeExact of
            (Inl _, w') \<Rightarrow> throw vnuRefreshUnavailable w'
          | (Inr _, w') \<Rightarrow> throw vnuRefreshIdentityMismatch w')
       else (case call CBegin of
            (Inr (RBegin r), w') \<Rightarrow> (case beginResultError r of
                Some e \<Rightarrow> throw e w'
              | None \<Rightarrow> ret \<lparr>pr_secret = secret, pr_session = session, pr_grant = grant,
                  pr_principal = principal_of d, pr_old = old\<rparr> w')
          | (_, w') \<Rightarrow> throw vnuRefreshUnavailable w')))"

text \<open>What the portal answered to the sign-in of a reconnect.\<close>

record imported_session =
  im_universityId :: string
  im_studentCode :: jval
  im_session :: jval

text \<open>The rotated session and grant, and their tokens, before the authority is asked.\<close>

record rotation =
  ro_pair :: "linked_pair option"
  ro_payload :: jval
  ro_token :: string
  ro_grant :: string
  ro_session :: jval

definition prepare_rotation ::
  "auth_config \<Rightarrow> pending_refresh \<Rightarrow> bool \<Rightarrow> auth_random \<Rightarrow> hyeboard_error option + imported_session \<Rightarrow>
   hyeboard_error option + rotation" where
  "prepare_rotation cfg p aborted rnd imported =
    (let cp = ac_cp cfg; grant = pr_grant p in
     sbind imported (\<lambda>im.
     if aborted then Inl (Some vnuRefreshUnavailable)
     else if im_universityId im \<noteq> ''vnu'' \<or> im_studentCode im \<noteq> prop_of ''expectedStudentCode'' grant
     then Inl (Some vnuRefreshIdentityMismatch)
     else let session = with_prop ''studentCode'' (im_studentCode im) (im_session im) in
       sbind (lift_core (ensureVnuIdentityMatch session grant)) (\<lambda>_.
       sbind (lift_core (rotateVnuRefreshGrant cp grant (ar_grantId rnd))) (\<lambda>rotated.
       sbind (lift_core (createVnuRefreshAccessDescriptor cp (text_of_value (prop_of ''username'' grant))
           (text_of_value (prop_of ''grantId'' rotated)) (text_of_value (prop_of ''expiresAt'' session))
           (text_of_value (prop_of ''expiresAt'' rotated)) (pr_secret p) (ar_accessId rnd))) (\<lambda>d.
       let payload = sessionTokenPayload cfg (ar_uuid rnd) (pr_session p) (with_prop ''vnuRefresh'' d session) in
       sbind (lift_core (encryptSession cp payload (pr_secret p) (ar_sessionIv rnd))) (\<lambda>token.
       sbind (lift_core (encryptVnuRefreshGrant cp rotated (pr_secret p) (ar_grantIv rnd))) (\<lambda>g.
       Inr \<lparr>ro_pair = descriptorPair cfg d, ro_payload = payload, ro_token = token, ro_grant = g, ro_session = session\<rparr>)))))))"

definition completion_call :: "pending_refresh \<Rightarrow> linked_pair option \<Rightarrow> refresh_call option" where
  "completion_call p nxt = Option.bind (pr_old p) (\<lambda>old. map_option (CComplete old) nxt)"

text \<open>
  The rest of a reconnect: the aborts seen before and after the tokens were made, and the call
  that completes the refresh. Unless the authority settled it, the refresh is aborted, maybe
  after other requests.
\<close>

datatype completion = Rotated auth_result | Refused hyeboard_error | Unsettled "hyeboard_error option"

definition refresh_complete ::
  "auth_config \<Rightarrow> faults \<Rightarrow> pending_refresh \<Rightarrow> bool \<times> bool \<Rightarrow> auth_random \<Rightarrow> hyeboard_error option + imported_session \<Rightarrow>
   int \<Rightarrow> auth_world \<Rightarrow> completion \<times> auth_world" where
  "refresh_complete cfg down p aborted rnd imported now w =
    (case prepare_rotation cfg p (fst aborted) rnd imported of
       Inl e \<Rightarrow> (Unsettled e, w)
     | Inr ro \<Rightarrow>
         if snd aborted then (Unsettled (Some vnuRefreshUnavailable), w)
         else (case authority_call cfg (down ObjectCall) now (pr_principal p) (completion_call p (ro_pair ro)) w of
             (Inr (RComplete Completed), w') \<Rightarrow>
               (Rotated \<lparr>res_token = ro_token ro, res_grant = Some (ro_grant ro), res_session = session_metadata (ro_session ro)\<rparr>, w')
           | (Inr _, w') \<Rightarrow> (Refused (publicVnuRefreshError (Some grantRevoked)), w')
           | (Inl _, w') \<Rightarrow> (Unsettled (Some vnuRefreshUnavailable), w')))"

definition settle_abort :: "auth_config \<Rightarrow> faults \<Rightarrow> pending_refresh \<Rightarrow> int \<Rightarrow> hyeboard_error option \<Rightarrow> auth_result auth" where
  "settle_abort cfg down p now e w =
    (case authority_call cfg (down AbortCall) now (pr_principal p)
        (map_option (\<lambda>old. CAbort old (isTerminalVnuRefreshFailure e)) (pr_old p)) w of
       (Inl _, w') \<Rightarrow> throw vnuRefreshUnavailable w'
     | (Inr _, w') \<Rightarrow> throw (publicVnuRefreshError e) w')"

definition refresh_finish ::
  "auth_config \<Rightarrow> faults \<Rightarrow> pending_refresh \<Rightarrow> bool \<times> bool \<Rightarrow> auth_random \<Rightarrow> hyeboard_error option + imported_session \<Rightarrow>
   int \<Rightarrow> int \<Rightarrow> auth_result auth" where
  "refresh_finish cfg down p aborted rnd imported now later w =
    (case refresh_complete cfg down p aborted rnd imported now w of
       (Rotated r, w') \<Rightarrow> ret r w'
     | (Refused e, w') \<Rightarrow> throw e w'
     | (Unsettled e, w') \<Rightarrow> settle_abort cfg down p later e w')"

section \<open>Logout\<close>

definition revoke_call :: "bool \<Rightarrow> linked_pair \<Rightarrow> refresh_call" where
  "revoke_call with_grant p = (if with_grant then CRevokePrincipal p else CRevokeByAccess p)"

text \<open>The proof a grant in the body gives: it must be linked to the session and name its student.\<close>

definition logout_grant_ok :: "auth_config \<Rightarrow> string \<Rightarrow> jval \<Rightarrow> string option \<Rightarrow> hyeboard_error + unit" where
  "logout_grant_ok cfg secret session g = (case g of
     None \<Rightarrow> Inr ()
   | Some text \<Rightarrow>
       sbind (decryptVnuRefreshGrantForLogout (ac_cp cfg) text secret) (\<lambda>grant.
       sbind (linkedRefreshInputs cfg secret session grant) (\<lambda>_.
       ensureVnuIdentityMatch session grant)))"

definition vnu_logout_session ::
  "auth_config \<Rightarrow> faults \<Rightarrow> string \<Rightarrow> int \<Rightarrow> int \<Rightarrow> jval \<Rightarrow> string option \<Rightarrow> unit auth" where
  "vnu_logout_session cfg down secret now later session g =
    (let d = prop_of ''vnuRefresh'' session; pair = descriptorPair cfg d in
     abind (of_core (logout_grant_ok cfg secret session g)) (\<lambda>_ w.
       case authority_call cfg (down ObjectCall) now (principal_of d) (map_option (revoke_call (g \<noteq> None)) pair) w of
         (Inr (RRevoke r), w') \<Rightarrow>
           if r = Mismatch then throw grantRevoked w'
           else if r = Expired \<and> (grantExpiresAt (the pair) > later \<or> g = None \<and> accessExpiresAt (the pair) > later)
           then throw grantRevoked w'
           else revokeSession cfg down secret session w'
       | (_, w') \<Rightarrow> throw vnuRefreshUnavailable w'))"

definition vnu_logout ::
  "auth_config \<Rightarrow> faults \<Rightarrow> (bytes \<Rightarrow> jval option) \<Rightarrow> int \<Rightarrow> int \<Rightarrow> string option \<Rightarrow> body_request \<Rightarrow> unit auth" where
  "vnu_logout cfg down parse now later authorization rq = (case parseBearerToken authorization of
     None \<Rightarrow> ret ()
   | Some token \<Rightarrow>
       abind (of_core (getSessionSecret (ac_secret cfg))) (\<lambda>secret.
       abind (of_core (case decryptVnuRefreshPurposeToken (ac_cp cfg) token secret of
           Inr session \<Rightarrow> Inr (True, session)
         | Inl e \<Rightarrow> (case decryptAuthenticatedLegacyVnuSession (ac_cp cfg) token secret of
             Inl _ \<Rightarrow> Inl e | Inr legacy \<Rightarrow> Inr (False, legacy)))) (\<lambda>(linked, session).
       abind (of_core (parseStrictVnuAuthBody parse rq LogoutBody)) (\<lambda>g.
       if linked then vnu_logout_session cfg down secret now later session g
       else revokeToken cfg down secret now token (prop_of ''expiresAt'' session)))))"

definition ordinary_logout :: "auth_config \<Rightarrow> faults \<Rightarrow> int \<Rightarrow> string option \<Rightarrow> unit auth" where
  "ordinary_logout cfg down now authorization = (case parseBearerToken authorization of
     None \<Rightarrow> ret ()
   | Some token \<Rightarrow> (case sbind (getSessionSecret (ac_secret cfg)) (\<lambda>secret.
         map_sum id (Pair secret) (decryptSession (ac_cp cfg) token secret now)) of
       Inl _ \<Rightarrow> ret ()
     | Inr (secret, session) \<Rightarrow> abind (revokeSession cfg down secret session) (\<lambda>_.
         revokeToken cfg down secret now token (prop_of ''expiresAt'' session))))"

section \<open>Requests\<close>

text \<open>The requests of all callers, interleaved; a reconnect is several requests.\<close>

datatype auth_request =
    SignIn faults string "bool \<times> bool" auth_random string string jval jval
  | Resolve faults "string option"
  | BeginRefresh faults "bytes \<Rightarrow> jval option" "string option" body_request
  | CompleteRefresh faults pending_refresh "bool \<times> bool" auth_random "hyeboard_error option + imported_session"
  | AbortRefresh faults pending_refresh "hyeboard_error option"
  | VnuLogout faults "bytes \<Rightarrow> jval option" int "string option" body_request
  | OrdinaryLogout faults "string option"
  | RingAlarm string

fun auth_step :: "auth_config \<Rightarrow> auth_world \<Rightarrow> int \<times> auth_request \<Rightarrow> auth_world" where
  "auth_step cfg w (now, SignIn down secret c rnd u pw payload session) =
     snd (issueVnuAuthResult cfg down secret now c rnd u pw payload session w)"
| "auth_step cfg w (now, Resolve down a) = snd (getSession cfg down now a w)"
| "auth_step cfg w (now, BeginRefresh down parse a rq) = snd (refresh_begin cfg down parse now a rq w)"
| "auth_step cfg w (now, CompleteRefresh down p ab rnd im) = snd (refresh_complete cfg down p ab rnd im now w)"
| "auth_step cfg w (now, AbortRefresh down p e) = snd (settle_abort cfg down p now e w)"
| "auth_step cfg w (now, VnuLogout down parse later a rq) = snd (vnu_logout cfg down parse now later a rq w)"
| "auth_step cfg w (now, OrdinaryLogout down a) = snd (ordinary_logout cfg down now a w)"
| "auth_step cfg w (now, RingAlarm key) =
     w\<lparr>aw_refresh := (aw_refresh w)(key := snd (handle (aw_refresh w key) now CAlarm))\<rparr>"

end
