(* ===== verification/VnuAuthLaws.thy ===== *)
theory VnuAuthLaws
  imports VnuAuth
begin

text \<open>
  What the requests of the sign-in routes do to the refresh authorities: each reaches them only
  through calls of the coordinator, so whatever those calls keep, every request keeps. The
  contract of the authority is carried to the handlers by two such invariants, and the token
  and session stores are shown to be independent of it.
\<close>

section \<open>Frames\<close>

named_theorems auth_defs "the combinators of the handlers"

lemmas [auth_defs] = ret_def throw_def of_core_def abind_def

lemma snd_abind: "snd (abind m f w) = (case m w of (Inl e, w') \<Rightarrow> w' | (Inr x, w') \<Rightarrow> snd (f x w'))"
  by (simp add: abind_def split: prod.splits sum.splits)

named_theorems refresh_frame "requests that leave the authorities alone"

lemma with_fate_frame:
  "(\<And>s. g (snd (m s)) = g s) \<Longrightarrow> g (snd (with_fate fate e m s)) = g s"
  by (simp add: with_fate_def split: fate.splits)

lemma store_frame [refresh_frame]:
  "aw_refresh (snd (store_revoke cfg fate secret kind v e w)) = aw_refresh w"
  "aw_refresh (snd (store_isRevoked cfg fate secret kind v now w)) = aw_refresh w"
  unfolding store_revoke_def store_isRevoked_def by (rule with_fate_frame, auto split: option.splits)+

lemma cache_frame [refresh_frame]:
  "aw_refresh (snd (get_cache cfg fate now key w)) = aw_refresh w"
  "aw_refresh (snd (put_cache cfg fate now key v age w)) = aw_refresh w"
  by (simp_all add: get_cache_def put_cache_def split: prod.splits)

lemma combinator_frame [refresh_frame]:
  "aw_refresh (snd (ret x w)) = aw_refresh w" "aw_refresh (snd (throw e w)) = aw_refresh w"
  "aw_refresh (snd (of_core r w)) = aw_refresh w" "aw_refresh (snd (throwIfRequestCancelled c w)) = aw_refresh w"
  by (simp_all add: auth_defs throwIfRequestCancelled_def)

lemma abind_frame:
  "(\<And>w. aw_refresh (snd (m w)) = aw_refresh w) \<Longrightarrow> (\<And>x w. aw_refresh (snd (f x w)) = aw_refresh w) \<Longrightarrow>
   aw_refresh (snd (abind m f w)) = aw_refresh w"
  by (auto simp: snd_abind split: prod.splits sum.splits) (metis snd_conv)+

lemma case_frame:
  assumes "\<And>w. aw_refresh (snd (m w)) = aw_refresh w" "\<And>x w. aw_refresh (snd (f x w)) = aw_refresh w"
  shows "aw_refresh (snd (case m w of (r, w') \<Rightarrow> f r w')) = aw_refresh w"
  using assms by (metis (no_types, lifting) case_prod_beta)

lemma frame_snd: "m w = (r, w') \<Longrightarrow> aw_refresh (snd (m w)) = aw_refresh w \<Longrightarrow> aw_refresh w' = aw_refresh w"
  by simp

lemma store_results:
  "store_revoke cfg fate secret kind v e w = (r, w') \<Longrightarrow> aw_refresh w' = aw_refresh w"
  "store_isRevoked cfg fate secret kind v now w = (r', w') \<Longrightarrow> aw_refresh w' = aw_refresh w"
  using store_frame by (metis snd_conv)+

lemma revokeToken_frame [refresh_frame]: "aw_refresh (snd (revokeToken cfg down secret now token e w)) = aw_refresh w"
  by (auto simp: revokeToken_def Let_def refresh_frame store_results split: prod.splits sum.splits)

lemma revokeSession_frame [refresh_frame]: "aw_refresh (snd (revokeSession cfg down secret session w)) = aw_refresh w"
  by (auto simp: revokeSession_def refresh_frame store_results split: prod.splits sum.splits)

lemma isSessionRevoked_frame [refresh_frame]: "aw_refresh (snd (isSessionRevoked cfg down secret now sid w)) = aw_refresh w"
  by (auto simp: isSessionRevoked_def refresh_frame store_results split: prod.splits sum.splits)

lemma isTokenRevoked_frame [refresh_frame]: "aw_refresh (snd (isTokenRevoked cfg down secret now token w)) = aw_refresh w"
proof -
  have "aw_refresh (snd (abind (get_cache cfg (down CacheRead) now k) (\<lambda>v. ret (v \<noteq> None)) w)) = aw_refresh w" for k w
    by (rule abind_frame) (simp_all add: refresh_frame)
  then show ?thesis
    by (auto simp: isTokenRevoked_def Let_def refresh_frame store_results split: prod.splits sum.splits)
qed

lemma ordinary_logout_frame [refresh_frame]: "aw_refresh (snd (ordinary_logout cfg down now a w)) = aw_refresh w"
  by (auto simp: ordinary_logout_def refresh_frame intro!: abind_frame split: option.splits sum.splits prod.splits)

section \<open>What the coordinator keeps, every request keeps\<close>

fun installing :: "refresh_call \<Rightarrow> bool" where
  "installing (CActivate _) = True"
| "installing (CComplete _ _) = True"
| "installing _ = False"

locale authority_guard =
  fixes guarded :: "int \<Rightarrow> (string \<Rightarrow> do_store) \<Rightarrow> bool"
    and allowed :: "(string \<Rightarrow> do_store) \<Rightarrow> int \<Rightarrow> refresh_call \<Rightarrow> bool"
  assumes call_keeps: "guarded now ns \<Longrightarrow> allowed ns now call \<Longrightarrow> guarded now (snd (coordinator_call ns key now call))"
    and alarm_keeps: "guarded now ns \<Longrightarrow> valid_now now \<Longrightarrow> guarded now (ns(key := snd (handle (ns key) now CAlarm)))"
    and free: "valid_now now \<Longrightarrow> \<not> installing call \<Longrightarrow> allowed ns now call"
begin

definition keeps :: "int \<Rightarrow> 'a auth \<Rightarrow> bool" where
  "keeps now m \<longleftrightarrow> (\<forall>w. guarded now (aw_refresh w) \<longrightarrow> guarded now (aw_refresh (snd (m w))))"

lemma keeps_frame: "(\<And>w. aw_refresh (snd (m w)) = aw_refresh w) \<Longrightarrow> keeps now m"
  by (simp add: keeps_def)

lemma keeps_abind: "keeps now m \<Longrightarrow> (\<And>x. keeps now (f x)) \<Longrightarrow> keeps now (abind m f)"
  unfolding keeps_def snd_abind by (fastforce split: prod.splits sum.splits)

lemma authority_keeps:
  assumes "guarded now (aw_refresh w)" "\<And>c. request = Some c \<Longrightarrow> allowed (aw_refresh w) now c"
  shows "guarded now (aw_refresh (snd (authority_call cfg fate now key request w)))"
  using assms call_keeps
  by (auto simp: authority_call_def with_fate_def split: option.splits fate.splits sum.splits prod.splits)
    (metis snd_conv)+

lemma authority_result_keeps:
  "authority_call cfg fate now key request w = (r, w') \<Longrightarrow> guarded now (aw_refresh w) \<Longrightarrow>
   (\<And>c. request = Some c \<Longrightarrow> allowed (aw_refresh w) now c) \<Longrightarrow> guarded now (aw_refresh w')"
  using authority_keeps by (metis snd_conv)

lemma free_call:
  "authority_call cfg fate now key request w = (r, w') \<Longrightarrow> valid_now now \<Longrightarrow> guarded now (aw_refresh w) \<Longrightarrow>
   pred_option (\<lambda>c. \<not> installing c) request \<Longrightarrow> guarded now (aw_refresh w')"
  using free by (auto elim: authority_result_keeps)

lemma keeps_if: "keeps now m \<Longrightarrow> keeps now m' \<Longrightarrow> keeps now (if b then m else m')"
  by simp

lemma keeps_basic:
  "keeps now (ret x)" "keeps now (throw e)" "keeps now (of_core c)" "keeps now (throwIfRequestCancelled b)"
  "keeps now (isSessionRevoked cfg down secret now' sid)" "keeps now (isTokenRevoked cfg down secret now' token)"
  "keeps now (revokeToken cfg down secret now' token v)" "keeps now (revokeSession cfg down secret session)"
  "keeps now (ordinary_logout cfg down now' a)"
  by (rule keeps_frame, simp add: refresh_frame)+

lemmas keeps_rules = keeps_abind keeps_if keeps_basic

lemma check_authority_keeps:
  assumes "valid_now now"
  shows "keeps now (check_authority cfg down now session)"
proof -
  have "guarded now (aw_refresh w')" if "guarded now (aw_refresh w)"
    "authority_call cfg f now k (map_option CCheck p) w = (r, w')" for f k p w r w'
    using free_call [OF that(2) assms that(1)] by (cases p) simp_all
  then show ?thesis
    unfolding keeps_def check_authority_def Let_def
    by (auto simp: refresh_frame split: prod.split sum.split refresh_reply.split access_result.split)
qed

lemma resolve_keeps:
  assumes "valid_now now"
  shows "keeps now (resolveOrdinaryAccessToken cfg down now token)"
  unfolding resolveOrdinaryAccessToken_def
  by (intro keeps_rules check_authority_keeps [OF assms])

lemma getSession_keeps:
  assumes "valid_now now"
  shows "keeps now (getSession cfg down now a)"
  using resolve_keeps [OF assms]
  by (auto simp: getSession_def intro: keeps_basic split: option.split)

lemma settle_abort_keeps:
  assumes "valid_now now"
  shows "keeps now (settle_abort cfg down p now e)"
proof -
  have "guarded now (aw_refresh w')" if "guarded now (aw_refresh w)"
    "authority_call cfg f now k (map_option (\<lambda>o'. CAbort o' b) q) w = (r, w')" for f k b q w r w'
    using free_call [OF that(2) assms that(1)] by (cases q) simp_all
  then show ?thesis
    unfolding keeps_def settle_abort_def
    by (auto simp: refresh_frame split: prod.split sum.split)
qed

lemma refresh_complete_keeps:
  assumes "guarded now (aw_refresh w)"
    and "\<And>ro old q. prepare_rotation cfg p (fst aborted) rnd imported = Inr ro \<Longrightarrow>
      pr_old p = Some old \<Longrightarrow> ro_pair ro = Some q \<Longrightarrow> allowed (aw_refresh w) now (CComplete old q)"
  shows "guarded now (aw_refresh (snd (refresh_complete cfg down p aborted rnd imported now w)))"
proof (cases "prepare_rotation cfg p (fst aborted) rnd imported")
  case (Inl e)
  with assms(1) show ?thesis by (simp add: refresh_complete_def)
next
  case (Inr ro)
  have "guarded now (aw_refresh w')" if "authority_call cfg f now k (completion_call p (ro_pair ro)) w = (x, w')" for f k x w'
    using authority_result_keeps [OF that assms(1)] assms(2) [OF Inr]
    by (auto simp: completion_call_def bind_eq_Some_conv)
  then show ?thesis
    using assms(1) Inr
    by (auto simp: refresh_complete_def split: prod.split sum.split refresh_reply.split complete_result.split)
qed

lemma issue_keeps:
  assumes "guarded now (aw_refresh w)"
    and "\<And>grant d p. createVnuRefreshGrant (ac_cp cfg) u pw (text_of_value (prop_of ''studentCode'' payload)) now (ar_grantId rnd) = Inr grant \<Longrightarrow>
      createVnuRefreshAccessDescriptor (ac_cp cfg) u (text_of_value (prop_of ''grantId'' grant))
           (text_of_value (prop_of ''expiresAt'' payload)) (text_of_value (prop_of ''expiresAt'' grant)) secret (ar_accessId rnd) = Inr d \<Longrightarrow>
      descriptorPair cfg d = Some p \<Longrightarrow> allowed (aw_refresh w) now (CActivate p)"
  shows "guarded now (aw_refresh (snd (issueVnuAuthResult cfg down secret now c rnd u pw payload session w)))"
proof -
  have call: "guarded now (aw_refresh (snd (case authority_call cfg fate now k (map_option CActivate q) w of
           (Inr (RActivate (ActivateLimited x y z)), w') \<Rightarrow> throw (activationLimited x) w'
         | (Inr _, w') \<Rightarrow> abind (of_core a) (\<lambda>token. abind (of_core b) (\<lambda>g. ret (f token g))) w'
         | (Inl _, w') \<Rightarrow> throw vnuRefreshUnavailable w')))"
    if "\<And>p. q = Some p \<Longrightarrow> allowed (aw_refresh w) now (CActivate p)" for fate k q a b and f :: "string \<Rightarrow> string \<Rightarrow> auth_result"
  proof -
    have fr: "aw_refresh (snd (abind (of_core a) (\<lambda>token. abind (of_core b) (\<lambda>g. ret (f token g))) w)) = aw_refresh w" for w
      by (intro abind_frame) (simp_all add: refresh_frame)
    have "guarded now (aw_refresh w')" if "authority_call cfg fate now k (map_option CActivate q) w = (r, w')" for r w'
      using authority_result_keeps [OF that assms(1)] \<open>\<And>p. q = Some p \<Longrightarrow> allowed (aw_refresh w) now (CActivate p)\<close> by auto
    then show ?thesis
      by (auto simp: refresh_frame fr split: prod.split sum.split refresh_reply.split activate_result.split)
  qed
  have seal: "aw_refresh (snd (abind (of_core a) (\<lambda>token. ret (f token)) w)) = aw_refresh w" for a and f :: "string \<Rightarrow> auth_result"
    by (intro abind_frame) (simp_all add: refresh_frame)
  note g = assms(1) seal call [OF assms(2)]
  have bindr: "snd (abind m f w) = (case m w of (Inl e, w') \<Rightarrow> w' | (Inr x, w') \<Rightarrow> snd (f x w'))" for m :: "'b auth" and f :: "'b \<Rightarrow> 'c auth"
    by (rule snd_abind)
  have core: "snd (abind (of_core r) f w) = (case r of Inl e \<Rightarrow> w | Inr x \<Rightarrow> snd (f x w))" for r and f :: "'b \<Rightarrow> auth_result auth"
    by (simp add: snd_abind of_core_def lift_core_def split: sum.split)
  have plain: "snd (abind (\<lambda>w. (r, w)) f w) = (case r of Inl e \<Rightarrow> w | Inr x \<Rightarrow> snd (f x w))" for r and f :: "'b \<Rightarrow> auth_result auth"
    by (simp add: snd_abind split: sum.split)
  have cancel: "snd (abind (throwIfRequestCancelled b) f w) = (if b then w else snd (f () w))" for b and f :: "unit \<Rightarrow> auth_result auth"
    by (simp add: snd_abind throwIfRequestCancelled_def)
  show ?thesis
  proof (cases "fst c \<or> \<not> ac_coordinator cfg \<or> \<not> truthy (prop_of ''studentCode'' payload)")
    case True
    then show ?thesis
      using assms(1) seal unfolding issueVnuAuthResult_def cancel Let_def by (simp add: refresh_frame) blast
  next
    case False
    let ?g = "createVnuRefreshGrant (ac_cp cfg) u pw (text_of_value (prop_of ''studentCode'' payload)) now (ar_grantId rnd)"
    let ?d = "\<lambda>grant. createVnuRefreshAccessDescriptor (ac_cp cfg) u (text_of_value (prop_of ''grantId'' grant))
           (text_of_value (prop_of ''expiresAt'' payload)) (text_of_value (prop_of ''expiresAt'' grant)) secret (ar_accessId rnd)"
    have issue: "snd (issueVnuAuthResult cfg down secret now c rnd u pw payload session w) =
        snd (abind (\<lambda>w. (?g, w)) (\<lambda>grant. abind (of_core (?d grant)) (\<lambda>d. abind (throwIfRequestCancelled (snd c)) (\<lambda>_ w.
         case authority_call cfg (down ObjectCall) now (principal_of d) (map_option CActivate (descriptorPair cfg d)) w of
           (Inr (RActivate (ActivateLimited k _ _)), w') \<Rightarrow> throw (activationLimited k) w'
         | (Inr _, w') \<Rightarrow>
             abind (of_core (encryptSession (ac_cp cfg) (sessionTokenPayload cfg (ar_uuid rnd) JUndefined
                (with_prop ''vnuRefresh'' d payload)) secret (ar_sessionIv rnd))) (\<lambda>token.
             abind (of_core (encryptVnuRefreshGrant (ac_cp cfg) grant secret (ar_grantIv rnd))) (\<lambda>g.
             ret \<lparr>res_token = token, res_grant = Some g, res_session = session\<rparr>)) w'
         | (Inl _, w') \<Rightarrow> throw vnuRefreshUnavailable w'))) w)"
      using False unfolding issueVnuAuthResult_def cancel Let_def by simp
    show ?thesis
      unfolding issue plain core cancel
      using assms(1) call [OF assms(2)] by (cases ?g) (auto split: sum.split)
  qed
qed

lemma refresh_begin_keeps:
  assumes "valid_now now"
  shows "keeps now (refresh_begin cfg down parse now a rq)"
proof -
  have call: "guarded now (aw_refresh w')" if "guarded now (aw_refresh w)"
    "authority_call cfg f now k (map_option c q) w = (r, w')" "c = CBegin \<or> c = CRevokeExact" for f k c q w r w'
    using free_call [OF that(2) assms that(1)] that(3) by (cases q) auto
  have "keeps now (\<lambda>w. let call = (\<lambda>c. authority_call cfg (down ObjectCall) now (principal_of d) (map_option c old) w) in
       if \<not> ac_coordinator cfg then throw vnuRefreshUnavailable w
       else if \<not> identity_matches session grant then
         (case call CRevokeExact of
            (Inl _, w') \<Rightarrow> throw vnuRefreshUnavailable w'
          | (Inr _, w') \<Rightarrow> throw vnuRefreshIdentityMismatch w')
       else (case call CBegin of
            (Inr (RBegin r), w') \<Rightarrow> (case beginResultError r of
                Some e \<Rightarrow> throw e w'
              | None \<Rightarrow> ret x w')
          | (_, w') \<Rightarrow> throw vnuRefreshUnavailable w'))" for d old session grant and x :: pending_refresh
    unfolding keeps_def Let_def
    by (auto simp: refresh_frame dest: call split: prod.split sum.split refresh_reply.split option.split)
  then show ?thesis
    unfolding refresh_begin_def by (auto intro!: keeps_rules split: prod.split)
qed

lemma vnu_logout_session_keeps:
  assumes "valid_now now"
  shows "keeps now (vnu_logout_session cfg down secret now later session g)"
proof -
  have call: "guarded now (aw_refresh w')" if "guarded now (aw_refresh w)"
    "authority_call cfg f now k (map_option (revoke_call b) q) w = (r, w')" for f k b q w r w'
    using free_call [OF that(2) assms that(1)] by (cases q) (auto simp: revoke_call_def)
  have "keeps now (\<lambda>w.
       case authority_call cfg (down ObjectCall) now k (map_option (revoke_call b) pair) w of
         (Inr (RRevoke r), w') \<Rightarrow>
           if r = Mismatch then throw grantRevoked w'
           else if r = Expired \<and> (grantExpiresAt (the pair) > later \<or> g = None \<and> accessExpiresAt (the pair) > later)
           then throw grantRevoked w'
           else revokeSession cfg down secret session w'
       | (_, w') \<Rightarrow> throw vnuRefreshUnavailable w')" for k b pair
    unfolding keeps_def
    by (auto simp: refresh_frame dest: call split: prod.split sum.split refresh_reply.split)
  then show ?thesis
    unfolding vnu_logout_session_def Let_def by (intro keeps_rules)
qed

lemma vnu_logout_keeps:
  assumes "valid_now now"
  shows "keeps now (vnu_logout cfg down parse now later a rq)"
  unfolding vnu_logout_def
  by (auto intro!: keeps_rules vnu_logout_session_keeps [OF assms] split: option.split prod.split)

end

section \<open>Admissible requests\<close>

text \<open>
  The clock shows a date, and the identifiers a sign-in draws are in no live state: they have
  128 random bits. The identifiers of a request are those it draws.
\<close>

definition unused :: "auth_random \<Rightarrow> int \<Rightarrow> (string \<Rightarrow> do_store) \<Rightarrow> bool" where
  "unused rnd now ns \<longleftrightarrow> (\<forall>key p. accessTokenId p = toBase64Url (ar_accessId rnd) \<longrightarrow> grantId p = toBase64Url (ar_grantId rnd) \<longrightarrow>
     fresh_pair (cleanVnuRefreshState (view (ns key)) now) p)"

fun auth_ok :: "auth_world \<Rightarrow> int \<times> auth_request \<Rightarrow> bool" where
  "auth_ok w (now, SignIn down secret c rnd u pw payload session) = (valid_now now \<and> unused rnd now (aw_refresh w))"
| "auth_ok w (now, _) = valid_now now"

fun draws :: "auth_request \<Rightarrow> string \<Rightarrow> bool" where
  "draws (SignIn down secret c rnd u pw payload session) i = (i = toBase64Url (ar_accessId rnd))"
| "draws (CompleteRefresh down p ab rnd im) i = (i = toBase64Url (ar_accessId rnd))"
| "draws _ i = False"

lemma auth_ok_valid: "auth_ok w (now, rq) \<Longrightarrow> valid_now now"
  by (cases rq) auto

lemma descriptor_pair_ids:
  assumes "createVnuRefreshAccessDescriptor cp u gid ae ge secret random = Inr d" "descriptorPair cfg d = Some p"
  shows "accessTokenId p = toBase64Url random" "grantId p = gid"
  using assms
  by (auto simp: createVnuRefreshAccessDescriptor_def descriptor_value_def descriptorPair_def Let_def sbind_Inr_iff
      split: option.splits)

lemma prepare_pair_id:
  assumes "prepare_rotation cfg p ab rnd im = Inr ro" "ro_pair ro = Some q"
  shows "accessTokenId q = toBase64Url (ar_accessId rnd)"
  using assms descriptor_pair_ids(1)
  by (auto simp: prepare_rotation_def Let_def sbind_Inr_iff lift_core_def split: sum.splits if_splits)

context authority_guard begin

lemma step_keeps:
  assumes "guarded now (aw_refresh w)" "auth_ok w (now, rq)"
    and "\<And>call. installing call \<Longrightarrow> (\<forall>k. case call of CActivate p \<Rightarrow> fresh_pair (cleanVnuRefreshState (view (aw_refresh w k)) now) p | _ \<Rightarrow> True) \<Longrightarrow>
      draws rq (case call of CActivate p \<Rightarrow> accessTokenId p | CComplete old p \<Rightarrow> accessTokenId p | _ \<Rightarrow> []) \<Longrightarrow>
      allowed (aw_refresh w) now call"
  shows "guarded now (aw_refresh (auth_step cfg w (now, rq)))"
proof (cases rq)
  case (SignIn down secret c rnd u pw payload session)
  show ?thesis
    unfolding SignIn auth_step.simps
  proof (rule issue_keeps [OF assms(1)])
    fix grant d p
    assume g: "createVnuRefreshGrant (ac_cp cfg) u pw (text_of_value (prop_of ''studentCode'' payload)) now (ar_grantId rnd) = Inr grant"
      and d: "createVnuRefreshAccessDescriptor (ac_cp cfg) u (text_of_value (prop_of ''grantId'' grant))
           (text_of_value (prop_of ''expiresAt'' payload)) (text_of_value (prop_of ''expiresAt'' grant)) secret (ar_accessId rnd) = Inr d"
      and p: "descriptorPair cfg d = Some p"
    have "prop_of ''grantId'' grant = JStr (toBase64Url (ar_grantId rnd))"
      using create_grant [OF g] by (simp add: grant_value_def)
    then have "accessTokenId p = toBase64Url (ar_accessId rnd)" "grantId p = toBase64Url (ar_grantId rnd)"
      using descriptor_pair_ids [OF d p] by simp_all
    then show "allowed (aw_refresh w) now (CActivate p)"
      using assms(2) unfolding SignIn by (intro assms(3)) (auto simp: unused_def SignIn)
  qed
next
  case (CompleteRefresh down p ab rnd im)
  show ?thesis
    unfolding CompleteRefresh auth_step.simps
    using prepare_pair_id by (intro refresh_complete_keeps [OF assms(1)] assms(3)) (auto simp: CompleteRefresh)
next
  case (RingAlarm key)
  then show ?thesis using alarm_keeps [OF assms(1)] assms(2) by simp
qed (use assms(1) auth_ok_valid [OF assms(2)] getSession_keeps refresh_begin_keeps settle_abort_keeps vnu_logout_keeps keeps_basic(9)
    in \<open>simp_all add: keeps_def del: handle.simps\<close>)


end

section \<open>Invariants of every run\<close>

abbreviation authorities_ok :: "(string \<Rightarrow> do_store) \<Rightarrow> bool" where
  "authorities_ok ns \<equiv> \<forall>k. store_inv (ns k)"

abbreviation refused_from :: "string \<Rightarrow> linked_pair \<Rightarrow> int \<Rightarrow> (string \<Rightarrow> do_store) \<Rightarrow> bool" where
  "refused_from key p t ns \<equiv> authorities_ok ns \<and> au_active (authority_at (ns key) t) \<noteq> Some p"

lemma coordinator_cases:
  obtains "snd (coordinator_call ns k now call) = ns"
  | "snd (coordinator_call ns k now call) = ns(k := do_step (ns k) (now, call))"
  using coordinator_isolates [of ns k now call, OF prod.collapse [symmetric]]
  by (cases "fst (coordinator_call ns k now call)") (auto simp: fun_eq_iff simp del: handle.simps)

lemma free_call_ok: "valid_now now \<Longrightarrow> \<not> installing call \<Longrightarrow> call_ok st (now, call)"
  by (cases call) simp_all

interpretation guard_inv: authority_guard "\<lambda>_. authorities_ok" "\<lambda>ns now call. \<forall>k. call_ok (ns k) (now, call)"
proof unfold_locales
  fix now ns call key
  assume a: "authorities_ok ns" "\<forall>k. call_ok (ns k) (now, call)"
  show "authorities_ok (snd (coordinator_call ns key now call))"
  proof (rule coordinator_cases [of ns key now call])
    assume "snd (coordinator_call ns key now call) = ns(key := do_step (ns key) (now, call))"
    moreover have "store_inv (do_step (ns key) (now, call))" using a by (intro refresh_machine.step_inv) auto
    ultimately show ?thesis using a by (simp del: do_step.simps)
  qed (use a in simp)
next
  fix now ns key
  assume a: "authorities_ok ns" "valid_now now"
  then have "store_inv (do_step (ns key) (now, CAlarm))" by (intro refresh_machine.step_inv) auto
  with a show "authorities_ok (ns(key := snd (handle (ns key) now CAlarm)))" by (simp del: handle.simps)
qed (simp add: free_call_ok)

interpretation guard_refused: authority_guard "refused_from key p"
    "\<lambda>ns now call. (\<forall>k. call_ok (ns k) (now, call)) \<and> \<not> installs p call" for key p
proof unfold_locales
  fix now ns call k
  assume a: "refused_from key p now ns" "(\<forall>k. call_ok (ns k) (now, call)) \<and> \<not> installs p call"
  show "refused_from key p now (snd (coordinator_call ns k now call))"
  proof (rule conjI)
    show "authorities_ok (snd (coordinator_call ns k now call))" using a by (intro guard_inv.call_keeps) auto
    show "au_active (authority_at (snd (coordinator_call ns k now call) key) now) \<noteq> Some p"
    proof (rule coordinator_cases [of ns k now call])
      assume s: "snd (coordinator_call ns k now call) = ns(k := do_step (ns k) (now, call))"
      have "au_active (authority_at (do_step (ns key) (now, call)) now) \<noteq> Some p"
        using a by (intro not_active_step) auto
      with s a show ?thesis by (cases "k = key") (simp_all del: do_step.simps)
    qed (use a in simp)
  qed
next
  fix now ns k
  assume a: "refused_from key p now ns" "valid_now now"
  have "au_active (authority_at (do_step (ns key) (now, CAlarm)) now) \<noteq> Some p"
    using a by (intro not_active_step) (auto simp: installs_def)
  with a guard_inv.alarm_keeps [of ns now k] show "refused_from key p now (ns(k := snd (handle (ns k) now CAlarm)))"
    by (cases "k = key") (simp_all del: handle.simps)
next
  fix now call and ns :: "string \<Rightarrow> do_store"
  assume "valid_now now" "\<not> installing call"
  then show "(\<forall>k. call_ok (ns k) (now, call)) \<and> \<not> installs p call"
    by (cases call) (simp_all add: installs_def)
qed

interpretation auth_machine: machine "auth_step cfg" auth_ok "\<lambda>w. authorities_ok (aw_refresh w)" for cfg
proof unfold_locales
  fix w and x :: "int \<times> auth_request"
  assume a: "authorities_ok (aw_refresh w)" "auth_ok w x"
  obtain now rq where x: "x = (now, rq)" by (cases x)
  show "authorities_ok (aw_refresh (auth_step cfg w x))"
    unfolding x
  proof (rule guard_inv.step_keeps [OF a(1)])
    fix call
    assume "installing call" "\<forall>k. case call of CActivate p \<Rightarrow> fresh_pair (cleanVnuRefreshState (view (aw_refresh w k)) now) p | _ \<Rightarrow> True"
    then show "\<forall>k. call_ok (aw_refresh w k) (now, call)"
      using auth_ok_valid [of w now rq] a(2) x by (cases call) auto
  qed (use a x in auto)
qed

lemma refused_step:
  assumes "refused_from key p now (aw_refresh w)" "auth_ok w (now, rq)" "\<not> draws rq (accessTokenId p)"
  shows "refused_from key p now (aw_refresh (auth_step cfg w (now, rq)))"
proof (rule guard_refused.step_keeps [OF assms(1,2)])
  fix call
  assume c: "installing call" "\<forall>k. case call of CActivate p \<Rightarrow> fresh_pair (cleanVnuRefreshState (view (aw_refresh w k)) now) p | _ \<Rightarrow> True"
    "draws rq (case call of CActivate p \<Rightarrow> accessTokenId p | CComplete old p \<Rightarrow> accessTokenId p | _ \<Rightarrow> [])"
  then show "(\<forall>k. call_ok (aw_refresh w k) (now, call)) \<and> \<not> installs p call"
    using auth_ok_valid [OF assms(2)] assms(3) by (cases call) (auto simp: installs_def)
qed

lemma refused_run:
  "refused_from key p t (aw_refresh w) \<Longrightarrow> run_ok (auth_step cfg) auth_ok w xs \<Longrightarrow> clocked t xs \<Longrightarrow>
   \<forall>x \<in> set xs. \<not> draws (snd x) (accessTokenId p) \<Longrightarrow>
   refused_from key p (last_time t xs) (aw_refresh (run (auth_step cfg) w xs))"
proof (induction xs arbitrary: w t)
  case Nil
  then show ?case by simp
next
  case (Cons x xs)
  obtain now rq where x: "x = (now, rq)" by (cases x)
  have "refused_from key p now (aw_refresh w)"
    using Cons.prems not_active_later [of "aw_refresh w key" t p now] by (simp add: x)
  then have "refused_from key p now (aw_refresh (auth_step cfg w x))"
    using Cons.prems refused_step by (simp add: x)
  then show ?case using Cons.IH [of "auth_step cfg w x" now] Cons.prems by (simp add: x)
qed

end
