(* ===== verification/VnuAuthProps.thy ===== *)
theory VnuAuthProps
  imports VnuAuthLaws
begin

text \<open>
  What the sign-in routes promise: a session issued by a sign-in or a reconnect is accepted for
  exactly as long as its pair lives and its identifier has not ended, a reconnect ends the
  session it started from, and a VNU logout ends a session with a descriptor for good, whatever
  requests follow and however the dependencies fail.
  And what they do not promise: a logout of an ordinary session forgets it a moment before the
  session expires, and the ordinary logout does not end a session that carries a descriptor.
\<close>

text \<open>Every dependency answers.\<close>

definition answering :: faults where
  "answering = (\<lambda>_. Answered)"

lemma answering_call [simp]: "answering dep = Answered"
  by (simp add: answering_def)

section \<open>Reading a session back\<close>

lemma abind_Inr:
  "abind m f w = (Inr y, w') \<longleftrightarrow> (\<exists>x w1. m w = (Inr x, w1) \<and> f x w1 = (Inr y, w'))"
  by (auto simp: abind_def split: prod.splits sum.splits)

lemma of_core_Inr [simp]: "of_core r w = (Inr x, w') \<longleftrightarrow> r = Inr x \<and> w' = w"
  by (auto simp: of_core_def lift_core_def split: sum.splits)

lemma ret_Inr [simp]: "ret x w = (Inr y, w') \<longleftrightarrow> y = x \<and> w' = w"
  by (auto simp: ret_def)

lemma throw_Inr [simp]: "throw e w \<noteq> (Inr y, w')"
  by (simp add: throw_def)

lemma purpose_session:
  "decryptVnuRefreshPurposeToken cp token secret = Inr session \<Longrightarrow> decryptSession cp token secret now = Inr s \<Longrightarrow>
   s = session \<and> prop_of ''vnuRefresh'' session \<noteq> JUndefined"
  by (auto simp: decryptVnuRefreshPurposeToken_def decryptSession_def sbind_Inr_iff split: if_splits)

lemma authority_reply:
  assumes "authority_call cfg fate now key request w = (Inr r, w')"
  shows "\<exists>call. request = Some call \<and> ac_coordinator cfg
    \<and> (Inr r, aw_refresh w') = coordinator_call (aw_refresh w) key now call \<and> w' = w\<lparr>aw_refresh := aw_refresh w'\<rparr>"
  using assms
  by (auto simp: authority_call_def with_fate_def split: option.splits if_splits fate.splits prod.splits sum.splits)

lemma coordinator_reply:
  assumes "coordinator_call ns key now call = (Inr r, ns')" "authorities_ok ns" "call_ok (ns key) (now, call)"
  shows "hex_n 64 key \<and> list_all valid_pair (call_pairs call) \<and> handle (ns key) now call = (Inr r, ns' key)
    \<and> (\<forall>k. k \<noteq> key \<longrightarrow> ns' k = ns k)
    \<and> spec_step (authority_at (ns key) now) now call r (authority_at (ns' key) now)"
proof -
  have h: "hex_n 64 key" "handle (ns key) now call = (Inr r, ns' key)" "\<forall>k. k \<noteq> key \<longrightarrow> ns' k = ns k"
    using coordinator_isolates [OF assms(1)] by auto
  have "list_all valid_pair (call_pairs call)" using assms(1) by (auto simp: coordinator_call_def split: if_splits)
  moreover have "spec_step (authority_at (ns key) now) now call r (authority_at (ns' key) now)"
    using assms(2) by (intro handle_refines [OF _ assms(3) h(2)]) auto
  ultimately show ?thesis using h by blast
qed

lemma check_authority_value: "check_authority cfg down now session w = (Inr s, w') \<Longrightarrow> s = session"
  by (auto simp: check_authority_def Let_def split: prod.splits sum.splits refresh_reply.splits access_result.splits)

lemma resolve_steps:
  assumes "resolveOrdinaryAccessToken cfg down now token w = (Inr s, w')"
  shows "\<exists>secret w1. getSessionSecret (ac_secret cfg) = Inr secret \<and> decryptSession (ac_cp cfg) token secret now = Inr s
    \<and> aw_refresh w1 = aw_refresh w
    \<and> (prop_of ''vnuRefresh'' s \<noteq> JUndefined \<longrightarrow> check_authority cfg down now s w1 = (Inr s, w'))"
proof -
  let ?rest = "\<lambda>secret s' ended. if ended then throw sessionExpired
       else if prop_of ''universityId'' s' = JStr ''vnu'' \<and> \<not> truthy (prop_of ''value'' (prop_of ''vnu'' s'))
       then throw missingVnuCredential
       else if prop_of ''vnuRefresh'' s' = JUndefined
       then abind (isTokenRevoked cfg down secret now token) (\<lambda>revoked. if revoked then throw sessionExpired else ret s')
       else check_authority cfg down now s'"
  let ?ended = "\<lambda>secret s'. if session_id s' = [] then ret False else isSessionRevoked cfg down secret now (session_id s')"
  have core: "abind (of_core r) f w = (Inr y, w') \<longleftrightarrow> (\<exists>x. r = Inr x \<and> f x w = (Inr y, w'))" for r and f :: "'b \<Rightarrow> jval auth" and y
    by (auto simp: abind_Inr)
  obtain secret s' where s': "getSessionSecret (ac_secret cfg) = Inr secret" "decryptSession (ac_cp cfg) token secret now = Inr s'"
    and a: "abind (?ended secret s') (?rest secret s') w = (Inr s, w')"
    using assms unfolding resolveOrdinaryAccessToken_def core by (elim exE conjE) (simp only: throw_Inr split: if_split_asm)
  obtain ended w1 where e: "?ended secret s' w = (Inr ended, w1)" and f: "?rest secret s' ended w1 = (Inr s, w')"
    using a unfolding abind_Inr by blast
  have "aw_refresh w1 = aw_refresh w"
    using e isSessionRevoked_frame [of cfg down secret now "session_id s'" w] by (cases "session_id s' = []") simp_all
  moreover have "s = s'" using f by (auto simp: abind_Inr split: if_splits dest: check_authority_value)
  ultimately show ?thesis using s' f by (auto split: if_splits)
qed

text \<open>A session with a descriptor is only accepted while its pair is the active one.\<close>

lemma resolve_active:
  assumes "resolveOrdinaryAccessToken cfg down now token w = (Inr s, w')"
    and "authorities_ok (aw_refresh w)" "valid_now now" "prop_of ''vnuRefresh'' s \<noteq> JUndefined"
  shows "\<exists>secret p. ac_secret cfg = Some secret \<and> decryptSession (ac_cp cfg) token secret now = Inr s
    \<and> descriptorPair cfg (prop_of ''vnuRefresh'' s) = Some p
    \<and> au_active (authority_at (aw_refresh w (principal_of (prop_of ''vnuRefresh'' s))) now) = Some p"
proof -
  let ?d = "prop_of ''vnuRefresh'' s"
  obtain secret w1 where s: "getSessionSecret (ac_secret cfg) = Inr secret" "decryptSession (ac_cp cfg) token secret now = Inr s"
    "aw_refresh w1 = aw_refresh w" "check_authority cfg down now s w1 = (Inr s, w')"
    using resolve_steps [OF assms(1)] assms(4) by blast
  obtain r w2 where r: "authority_call cfg (down ObjectCall) now (principal_of ?d) (map_option CCheck (descriptorPair cfg ?d)) w1 = (Inr r, w2)"
    "r \<noteq> RCheck AccessRevoked"
    using s(4) by (auto simp: check_authority_def Let_def split: prod.splits sum.splits refresh_reply.splits access_result.splits)
  then obtain p where p: "descriptorPair cfg ?d = Some p" "coordinator_call (aw_refresh w) (principal_of ?d) now (CCheck p) = (Inr r, aw_refresh w2)"
    using authority_reply [OF r(1)] s(3) by auto
  have c: "valid_pair p" "handle (aw_refresh w (principal_of ?d)) now (CCheck p) = (Inr r, aw_refresh w2 (principal_of ?d))"
    using coordinator_reply [OF p(2) assms(2)] assms(3) by simp_all
  have "fst (handle (aw_refresh w (principal_of ?d)) now (CCheck p)) =
      Inr (RCheck (if au_active (authority_at (aw_refresh w (principal_of ?d)) now) = Some p \<and> now < accessExpiresAt p then Active else AccessRevoked))"
    using assms(2) by (intro check_reply [OF _ assms(3) c(1)]) blast
  then have "au_active (authority_at (aw_refresh w (principal_of ?d)) now) = Some p"
    using c(2) r(2) by (auto split: if_splits)
  moreover have "ac_secret cfg = Some secret" using s(1) by (auto simp: getSessionSecret_def split: option.splits if_splits)
  ultimately show ?thesis using s(2) p(1) by blast
qed

section \<open>Logout\<close>

lemma logout_inputs:
  assumes "vnu_logout cfg down parse now later auth rq w = (Inr (), w')" "parseBearerToken auth = Some token"
    and "ac_secret cfg = Some secret" "decryptVnuRefreshPurposeToken (ac_cp cfg) token secret = Inr session"
  shows "\<exists>g. parseStrictVnuAuthBody parse rq LogoutBody = Inr g
    \<and> vnu_logout_session cfg down secret now later session g w = (Inr (), w')"
  using assms
  by (auto simp: vnu_logout_def abind_Inr getSessionSecret_def split: if_splits)

lemma spec_revoke_call:
  "spec_step a now (revoke_call b p) (RRevoke r) a' \<Longrightarrow>
   au_active a' \<noteq> Some p \<and> (b \<longrightarrow> r = Revoked \<longrightarrow> au_active a' = None)"
  by (cases b) (auto simp: revoke_call_def elim: spec_step.cases)

lemma logout_revokes:
  assumes "vnu_logout_session cfg down secret now later session g w = (Inr (), w')"
    and "authorities_ok (aw_refresh w)" "valid_now now"
  shows "\<exists>p. descriptorPair cfg (prop_of ''vnuRefresh'' session) = Some p
    \<and> authorities_ok (aw_refresh w')
    \<and> au_active (authority_at (aw_refresh w' (principal_of (prop_of ''vnuRefresh'' session))) now) \<noteq> Some p
    \<and> (g \<noteq> None \<longrightarrow> later < grantExpiresAt p \<longrightarrow>
        au_active (authority_at (aw_refresh w' (principal_of (prop_of ''vnuRefresh'' session))) now) = None)"
proof -
  let ?d = "prop_of ''vnuRefresh'' session"
  let ?key = "principal_of ?d"
  obtain r w1 where r: "authority_call cfg (down ObjectCall) now ?key (map_option (revoke_call (g \<noteq> None)) (descriptorPair cfg ?d)) w = (Inr (RRevoke r), w1)"
    and k: "\<not> (r = Expired \<and> (grantExpiresAt (the (descriptorPair cfg ?d)) > later \<or>
      g = None \<and> accessExpiresAt (the (descriptorPair cfg ?d)) > later))" "r \<noteq> Mismatch"
    and w': "revokeSession cfg down secret session w1 = (Inr (), w')"
    using assms(1) unfolding vnu_logout_session_def Let_def
    by (auto simp: abind_Inr split: prod.splits sum.splits refresh_reply.splits if_splits)
  obtain p where p: "descriptorPair cfg ?d = Some p"
    and c: "coordinator_call (aw_refresh w) ?key now (revoke_call (g \<noteq> None) p) = (Inr (RRevoke r), aw_refresh w1)"
    using authority_reply [OF r] by auto
  have "spec_step (authority_at (aw_refresh w ?key) now) now (revoke_call (g \<noteq> None) p) (RRevoke r) (authority_at (aw_refresh w1 ?key) now)"
    using coordinator_reply [OF c assms(2)] assms(3) by (auto simp: revoke_call_def)
  note a = spec_revoke_call [OF this]
  have f: "aw_refresh w' = aw_refresh w1" using revokeSession_frame [of cfg down secret session w1] w' by simp
  have "authorities_ok (aw_refresh w1)"
    using guard_inv.call_keeps [OF assms(2), of now "revoke_call (g \<noteq> None) p" ?key] c free_call_ok [OF assms(3)]
    by (auto simp: revoke_call_def)
  moreover have "r = Revoked" if "later < grantExpiresAt p"
    using k that p by (cases r) auto
  ultimately show ?thesis using a p f by auto
qed

text \<open>
  C21. A VNU logout that reports success on a token with a descriptor (the sessions that a
  sign-in through a coordinator and a reconnect issue) ends the session: whatever requests of
  whatever callers follow, as long as none draws the identifier of its pair again, no later
  request resolves the token to a session, however the dependencies fail meanwhile. When the
  logout presented the live grant, the same holds for every session of the same principal that
  has a descriptor. A token without a descriptor takes another branch of the route, which
  promises no more than the ordinary logout (lemma \<open>legacy_logout\<close> below).
\<close>

theorem vnu_logout_final:
  assumes "run_ok (auth_step cfg) auth_ok empty_world h" "w = run (auth_step cfg) empty_world h"
    and "vnu_logout cfg down parse t later auth rq w = (Inr (), w1)" "valid_now t"
    and "parseBearerToken auth = Some token" "ac_secret cfg = Some secret"
    and "decryptVnuRefreshPurposeToken (ac_cp cfg) token secret = Inr session"
    and "descriptorPair cfg (prop_of ''vnuRefresh'' session) = Some p"
    and "run_ok (auth_step cfg) auth_ok w1 xs" "clocked t xs" "last_time t xs \<le> now" "valid_now now"
  shows "((\<forall>x \<in> set xs. \<not> draws (snd x) (accessTokenId p)) \<longrightarrow>
      (\<forall>down' s. fst (resolveOrdinaryAccessToken cfg down' now token (run (auth_step cfg) w1 xs)) \<noteq> Inr s))
    \<and> (parseStrictVnuAuthBody parse rq LogoutBody \<noteq> Inr None \<and> later < grantExpiresAt p \<longrightarrow>
      (\<forall>token' session' q. decryptVnuRefreshPurposeToken (ac_cp cfg) token' secret = Inr session' \<longrightarrow>
        principal_of (prop_of ''vnuRefresh'' session') = principal_of (prop_of ''vnuRefresh'' session) \<longrightarrow>
        descriptorPair cfg (prop_of ''vnuRefresh'' session') = Some q \<longrightarrow>
        (\<forall>x \<in> set xs. \<not> draws (snd x) (accessTokenId q)) \<longrightarrow>
        (\<forall>down' s. fst (resolveOrdinaryAccessToken cfg down' now token' (run (auth_step cfg) w1 xs)) \<noteq> Inr s)))"
proof -
  let ?key = "principal_of (prop_of ''vnuRefresh'' session)" and ?fin = "run (auth_step cfg) w1 xs"
  have "authorities_ok (aw_refresh w)"
    using auth_machine.run_inv [of empty_world cfg h] assms(1,2) by (simp add: empty_world_def store_inv_empty)
  moreover obtain g where g: "parseStrictVnuAuthBody parse rq LogoutBody = Inr g"
    "vnu_logout_session cfg down secret t later session g w = (Inr (), w1)"
    using logout_inputs [OF assms(3,5,6,7)] by blast
  ultimately have a: "authorities_ok (aw_refresh w1)" "au_active (authority_at (aw_refresh w1 ?key) t) \<noteq> Some p"
    "g \<noteq> None \<longrightarrow> later < grantExpiresAt p \<longrightarrow> au_active (authority_at (aw_refresh w1 ?key) t) = None"
    using logout_revokes [OF g(2) _ assms(4)] assms(8) by auto
  have refused: "fst (resolveOrdinaryAccessToken cfg down' now token' ?fin) \<noteq> Inr s"
    if q: "au_active (authority_at (aw_refresh w1 ?key) t) \<noteq> Some q" "\<forall>x \<in> set xs. \<not> draws (snd x) (accessTokenId q)"
      and s': "decryptVnuRefreshPurposeToken (ac_cp cfg) token' secret = Inr session'"
      "principal_of (prop_of ''vnuRefresh'' session') = ?key" "descriptorPair cfg (prop_of ''vnuRefresh'' session') = Some q"
    for token' session' q down' s
  proof
    assume "fst (resolveOrdinaryAccessToken cfg down' now token' ?fin) = Inr s"
    then have r: "resolveOrdinaryAccessToken cfg down' now token' ?fin = (Inr s, snd (resolveOrdinaryAccessToken cfg down' now token' ?fin))"
      by (metis prod.collapse)
    have f: "refused_from ?key q (last_time t xs) (aw_refresh ?fin)"
      using a(1) q by (intro refused_run [OF _ assms(9,10)]) auto
    then have n: "au_active (authority_at (aw_refresh ?fin ?key) now) \<noteq> Some q" using assms(11) not_active_later by blast
    have "\<exists>e. ac_secret cfg = Some e \<and> decryptSession (ac_cp cfg) token' e now = Inr s"
      using resolve_steps [OF r] by (auto simp: getSessionSecret_def split: option.splits if_splits)
    then have d: "decryptSession (ac_cp cfg) token' secret now = Inr s" using assms(6) by simp
    note e = purpose_session [OF s'(1) d]
    show False using resolve_active [OF r _ assms(12)] f n e s'(2,3) by auto
  qed
  have "fst (resolveOrdinaryAccessToken cfg down' now token ?fin) \<noteq> Inr s"
    if "\<forall>x \<in> set xs. \<not> draws (snd x) (accessTokenId p)" for down' s
    by (rule refused [OF a(2) that assms(7) refl assms(8)])
  moreover have "fst (resolveOrdinaryAccessToken cfg down' now token' ?fin) \<noteq> Inr s"
    if "parseStrictVnuAuthBody parse rq LogoutBody \<noteq> Inr None \<and> later < grantExpiresAt p"
      "decryptVnuRefreshPurposeToken (ac_cp cfg) token' secret = Inr session'"
      "principal_of (prop_of ''vnuRefresh'' session') = ?key" "descriptorPair cfg (prop_of ''vnuRefresh'' session') = Some q"
      "\<forall>x \<in> set xs. \<not> draws (snd x) (accessTokenId q)" for token' session' q down' s
  proof -
    have "au_active (authority_at (aw_refresh w1 ?key) t) \<noteq> Some q" using a(3) g(1) that(1) by auto
    then show ?thesis by (rule refused [OF _ that(5,2,3,4)])
  qed
  ultimately show ?thesis by blast
qed

section \<open>Sessions in force\<close>

text \<open>
  What the deployment remembers of sessions that ended: the shared store, of the identifier of a
  session or of a token, and without one the cache, of a token.
\<close>

definition recorded :: "auth_config \<Rightarrow> string \<Rightarrow> subject_kind \<Rightarrow> string \<Rightarrow> int \<Rightarrow> auth_world \<Rightarrow> bool" where
  "recorded cfg secret kind v now w \<longleftrightarrow> (\<exists>h e. derivePostgresOpaqueHash (ac_cp cfg) secret kind v = Some h
     \<and> aw_revoked w (kind, h) = Some e \<and> now < e)"

definition session_ended :: "auth_config \<Rightarrow> string \<Rightarrow> int \<Rightarrow> jval \<Rightarrow> auth_world \<Rightarrow> bool" where
  "session_ended cfg secret now s w \<longleftrightarrow> ac_store cfg \<and> recorded cfg secret SubjectSession (session_id s) now w"

definition token_ended :: "auth_config \<Rightarrow> string \<Rightarrow> int \<Rightarrow> string \<Rightarrow> auth_world \<Rightarrow> bool" where
  "token_ended cfg secret now token w \<longleftrightarrow> (if ac_store cfg then recorded cfg secret SubjectToken token now w
     else \<exists>v e. aw_cache w (revokedTokenKey cfg secret token) = Some (v, e) \<and> now < e)"

text \<open>
  The answer to a session that is presented while every dependency answers: nothing resolves
  after its expiry or in a distributed deployment without its store, and before that what has
  not ended and is still live.
\<close>

definition admission :: "auth_config \<Rightarrow> string \<Rightarrow> int \<Rightarrow> jval \<Rightarrow> bool \<Rightarrow> bool \<Rightarrow> auth_world \<Rightarrow> hyeboard_error option + jval" where
  "admission cfg secret now s expired live w =
    (if expired then Inl (Some sessionExpired)
     else if distributed cfg \<and> \<not> ac_store cfg then Inl (Some revocationUnavailable)
     else if session_ended cfg secret now s w \<or> \<not> live then Inl (Some sessionExpired)
     else Inr s)"

lemma derive_some: "32 \<le> length secret \<Longrightarrow> v \<noteq> [] \<Longrightarrow> \<exists>h. derivePostgresOpaqueHash cp secret kind v = Some h"
  by (simp add: derivePostgresOpaqueHash_def)

text \<open>A lookup drops at most what has expired.\<close>

definition same_memory :: "auth_config \<Rightarrow> string \<Rightarrow> int \<Rightarrow> auth_world \<Rightarrow> auth_world \<Rightarrow> bool" where
  "same_memory cfg secret now w w' \<longleftrightarrow> aw_refresh w' = aw_refresh w \<and> aw_cache w' = aw_cache w
     \<and> (\<forall>kind v. recorded cfg secret kind v now w' = recorded cfg secret kind v now w)"

lemma recorded_drop:
  "aw_revoked w (kind, h) = Some e \<Longrightarrow> e \<le> now \<Longrightarrow>
   recorded cfg secret kind' v now (w\<lparr>aw_revoked := (aw_revoked w)((kind, h) := None)\<rparr>) = recorded cfg secret kind' v now w"
  unfolding recorded_def by (cases "derivePostgresOpaqueHash (ac_cp cfg) secret kind' v") auto

lemma store_lookup:
  assumes "32 \<le> length secret" "v \<noteq> []"
  shows "\<exists>w'. store_isRevoked cfg Answered secret kind v now w = (Inr (recorded cfg secret kind v now w), w') \<and> same_memory cfg secret now w w'"
proof -
  obtain h where h: "derivePostgresOpaqueHash (ac_cp cfg) secret kind v = Some h" using derive_some [OF assms] by blast
  show ?thesis
  proof (cases "\<exists>e. aw_revoked w (kind, h) = Some e \<and> e \<le> now")
    case True
    then obtain e where e: "aw_revoked w (kind, h) = Some e" "e \<le> now" by blast
    have "store_isRevoked cfg Answered secret kind v now w = (Inr (recorded cfg secret kind v now w), w\<lparr>aw_revoked := (aw_revoked w)((kind, h) := None)\<rparr>)"
      using e by (simp add: store_isRevoked_def with_fate_def pg_isRevoked_def recorded_def h Let_def)
    then show ?thesis using recorded_drop [OF e] by (simp add: same_memory_def)
  next
    case False
    then have "store_isRevoked cfg Answered secret kind v now w = (Inr (recorded cfg secret kind v now w), w)"
      by (auto simp: store_isRevoked_def with_fate_def pg_isRevoked_def recorded_def h Let_def split: option.split)
    then show ?thesis by (simp add: same_memory_def)
  qed
qed

lemma session_lookup:
  assumes "32 \<le> length secret" "\<not> (distributed cfg \<and> \<not> ac_store cfg)"
  shows "\<exists>w'. (if session_id s = [] then ret False else isSessionRevoked cfg answering secret now (session_id s)) w =
      (Inr (session_ended cfg secret now s w), w') \<and> same_memory cfg secret now w w'"
proof (cases "session_id s = []")
  case True
  then show ?thesis by (simp add: ret_def session_ended_def recorded_def derivePostgresOpaqueHash_def same_memory_def)
next
  case False
  then show ?thesis
    using store_lookup [OF assms(1) False, of cfg SubjectSession now w] assms(2)
    by (auto simp: isSessionRevoked_def session_ended_def ret_def same_memory_def)
qed

lemma token_lookup:
  assumes "32 \<le> length secret" "token \<noteq> []" "\<not> (distributed cfg \<and> \<not> ac_store cfg)" "same_memory cfg secret now w w'"
  shows "fst (isTokenRevoked cfg answering secret now token w') = Inr (token_ended cfg secret now token w)"
proof (cases "ac_store cfg")
  case True
  then show ?thesis
    using store_lookup [OF assms(1,2), of cfg SubjectToken now w'] assms(4)
    by (auto simp: isTokenRevoked_def token_ended_def ret_def same_memory_def)
next
  case False
  have "fst (abind (get_cache cfg Answered now k) (\<lambda>v. ret (v \<noteq> None)) w') = Inr (\<exists>v e. aw_cache w' k = Some (v, e) \<and> now < e)" for k
    by (cases "aw_cache w' k")
      (auto simp: abind_def ret_def get_cache_def cacheGet_def with_fate_def cache_match_def lift_core_def split: if_splits)
  then show ?thesis
    using False assms(3,4) by (simp add: isTokenRevoked_def Let_def token_ended_def same_memory_def)
qed

lemma authority_call_frame:
  "aw_refresh v = aw_refresh w \<Longrightarrow> fst (authority_call cfg Answered now key request v) = fst (authority_call cfg Answered now key request w)"
  by (auto simp: authority_call_def with_fate_def split: option.splits prod.splits sum.splits)

lemma check_authority_reply:
  "fst (check_authority cfg answering now s u) =
    (case fst (authority_call cfg Answered now (principal_of (prop_of ''vnuRefresh'' s))
        (map_option CCheck (descriptorPair cfg (prop_of ''vnuRefresh'' s))) u) of
       Inr (RCheck AccessRevoked) \<Rightarrow> Inl (Some sessionExpired) | Inr _ \<Rightarrow> Inr s | Inl _ \<Rightarrow> Inl (Some vnuRefreshUnavailable))"
  by (simp add: check_authority_def Let_def answering_def throw_def ret_def
      split: prod.split sum.split refresh_reply.split access_result.split)

lemma check_authority_frame:
  "aw_refresh v = aw_refresh w \<Longrightarrow> fst (check_authority cfg answering now s v) = fst (check_authority cfg answering now s w)"
  unfolding check_authority_reply by (simp only: authority_call_frame [of v w])

text \<open>What a session that decrypts resolves to, in terms of its own checks.\<close>

lemma resolve_decrypted:
  assumes "ac_secret cfg = Some secret" "32 \<le> length secret" "decryptAccessToken (ac_cp cfg) token secret = Inr s"
    and "accepted (checkSessionEpoch (session_meta_of s) (ac_ha cfg))"
    and "prop_of ''universityId'' s = JStr ''vnu'' \<longrightarrow> truthy (prop_of ''value'' (prop_of ''vnu'' s))"
  shows "fst (resolveOrdinaryAccessToken cfg answering now token w) =
    (let expired = expired_value (ac_cp cfg) (prop_of ''expiresAt'' s) now in
     if prop_of ''vnuRefresh'' s = JUndefined
     then admission cfg secret now s expired (\<not> token_ended cfg secret now token w) w
     else if expired \<or> distributed cfg \<and> \<not> ac_store cfg \<or> session_ended cfg secret now s w
     then admission cfg secret now s expired True w
     else fst (check_authority cfg answering now s w))"
proof -
  let ?ended = "if session_id s = [] then ret False else isSessionRevoked cfg answering secret now (session_id s)"
  have secret: "getSessionSecret (ac_secret cfg) = Inr secret" using assms(1,2) by (auto simp: getSessionSecret_def)
  have token: "token \<noteq> []" using assms(3) by (auto simp: decryptAccessToken_def token_parts_def)
  show ?thesis
  proof (cases "expired_value (ac_cp cfg) (prop_of ''expiresAt'' s) now \<or> distributed cfg \<and> \<not> ac_store cfg")
    case True
    then show ?thesis
      using secret assms(3,4)
      by (auto simp: resolveOrdinaryAccessToken_def decryptSession_def abind_def of_core_def lift_core_def throw_def admission_def Let_def)
  next
    case False
    then have d: "decryptSession (ac_cp cfg) token secret now = Inr s" using assms(3) by (simp add: decryptSession_def)
    have memory: "\<not> (distributed cfg \<and> \<not> ac_store cfg)" using False by blast
    obtain w' where e: "?ended w = (Inr (session_ended cfg secret now s w), w')" "same_memory cfg secret now w w'"
      using session_lookup [OF assms(2) memory, of s now w] by (elim exE conjE)
    have refresh: "aw_refresh w' = aw_refresh w" using e(2) by (simp add: same_memory_def)
    have core: "abind (of_core (Inr x)) f = f x" for x :: 'b and f :: "'b \<Rightarrow> jval auth"
      by (simp add: abind_def of_core_def lift_core_def fun_eq_iff)
    have after: "abind m f w = f x w'" if "m w = (Inr x, w')" for m :: "bool auth" and f :: "bool \<Rightarrow> jval auth" and x
      using that by (simp add: abind_def)
    have "resolveOrdinaryAccessToken cfg answering now token w =
      (if session_ended cfg secret now s w then throw sessionExpired
       else if prop_of ''vnuRefresh'' s = JUndefined
       then abind (isTokenRevoked cfg answering secret now token) (\<lambda>revoked. if revoked then throw sessionExpired else ret s)
       else check_authority cfg answering now s) w'"
      using memory assms(4,5) unfolding resolveOrdinaryAccessToken_def secret core d
      by (auto simp: after [of ?ended, OF e(1)])
    moreover have "fst (isTokenRevoked cfg answering secret now token w') = Inr (token_ended cfg secret now token w)"
      by (rule token_lookup [OF assms(2) token memory e(2)])
    ultimately show ?thesis
      using False check_authority_frame [OF refresh, of cfg now s]
      by (auto simp: abind_def throw_def ret_def admission_def Let_def split: prod.split)
  qed
qed

lemma linked_session_shape:
  assumes "decryptAccessToken cp token secret = Inr v" "prop_of ''vnuRefresh'' v \<noteq> JUndefined"
  shows "linked_session v"
  using decryptAccessToken_result [of cp token secret] assms by simp

lemma linked_expiry:
  assumes "linked_session v" "descriptorPair cfg (prop_of ''vnuRefresh'' v) = Some p" "reads_dates (ac_cp cfg)"
  shows "expired_value (ac_cp cfg) (prop_of ''expiresAt'' v) now \<longleftrightarrow> accessExpiresAt p \<le> now"
  using assms
  by (auto simp: linked_session_def descriptorPair_def parsed_date_def expired_value_def date_value_def reads_dates_def
      split: option.splits)

lemma linked_credential: "linked_session v \<Longrightarrow> truthy (prop_of ''value'' (prop_of ''vnu'' v))"
  by (cases "prop_of ''value'' (prop_of ''vnu'' v)") (auto simp: linked_session_def)

text \<open>A session with a descriptor is in force exactly while its pair is and its identifier has not ended.\<close>

lemma resolve_in_force:
  assumes "ac_coordinator cfg" "ac_secret cfg = Some secret" "32 \<le> length secret"
    and "decryptAccessToken (ac_cp cfg) token secret = Inr v" "prop_of ''vnuRefresh'' v \<noteq> JUndefined"
    and "descriptorPair cfg (prop_of ''vnuRefresh'' v) = Some p" "valid_pair p" "reads_dates (ac_cp cfg)"
    and "authorities_ok (aw_refresh w)" "valid_now now" "accepted (checkSessionEpoch (session_meta_of v) (ac_ha cfg))"
  shows "fst (resolveOrdinaryAccessToken cfg answering now token w) =
    admission cfg secret now v (accessExpiresAt p \<le> now)
      (au_active (authority_at (aw_refresh w (principal_of (prop_of ''vnuRefresh'' v))) now) = Some p) w"
proof -
  let ?key = "principal_of (prop_of ''vnuRefresh'' v)"
  have l: "linked_session v" by (rule linked_session_shape [OF assms(4,5)])
  have hex: "hex_n 64 ?key"
    using l by (auto simp: linked_session_def descriptor_ok_def principal_of_def Let_def elim!: matches.elims)
  have check: "fst (handle (aw_refresh w ?key) now (CCheck p)) =
      Inr (RCheck (if au_active (authority_at (aw_refresh w ?key) now) = Some p \<and> now < accessExpiresAt p then Active else AccessRevoked))"
    using assms(9) by (intro check_reply [OF _ assms(10,7)]) blast
  have "fst (authority_call cfg Answered now ?key (Some (CCheck p)) w) = Inr r"
    if "fst (handle (aw_refresh w ?key) now (CCheck p)) = Inr r" for r
  proof (cases "handle (aw_refresh w ?key) now (CCheck p)")
    case (Pair x st')
    with that have "handle (aw_refresh w ?key) now (CCheck p) = (Inr r, st')" by (simp del: handle.simps)
    then show ?thesis using hex assms(1,7) by (simp add: authority_call_def with_fate_def coordinator_call_def del: handle.simps)
  qed
  from this [OF check] have "fst (check_authority cfg answering now v w) =
    (if now < accessExpiresAt p \<and> au_active (authority_at (aw_refresh w ?key) now) = Some p then Inr v else Inl (Some sessionExpired))"
    by (simp add: check_authority_reply assms(6))
  then show ?thesis
    using resolve_decrypted [OF assms(2-4,11), of now w] linked_credential [OF l] linked_expiry [OF l assms(6,8)] assms(5)
    by (auto simp: Let_def admission_def)
qed

text \<open>What the deployment adds to the payload of a token: an identifier and its epoch, if it is distributed.\<close>

lemma with_prop_object: "is_object (with_prop k v w) = is_object w"
  by (cases w) simp_all

lemma token_payload_object: "is_object (sessionTokenPayload cfg uuid previous v) = is_object v"
  by (simp add: sessionTokenPayload_def with_prop_object)

lemma token_payload_prop:
  assumes "is_object v"
  shows "prop_of k (sessionTokenPayload cfg uuid previous v) =
    (if \<not> distributed cfg then prop_of k v
     else if k = ''sessionEpoch'' then JInt (session_epoch (ac_ha cfg))
     else if k = ''sessionId'' then nullish (prop_of ''sessionId'' v) (nullish (prop_of ''sessionId'' previous) (JStr uuid))
     else prop_of k v)"
  using assms by (simp add: sessionTokenPayload_def prop_with_prop with_prop_object)

lemma sealed_payload:
  assumes "encryptSession cp (sessionTokenPayload cfg uuid previous v) secret iv = Inr token"
  shows "is_object v" "32 \<le> length secret"
    and "accepted (checkSessionEpoch (session_meta_of (sessionTokenPayload cfg uuid previous v)) (ac_ha cfg))"
proof -
  let ?p = "sessionTokenPayload cfg uuid previous v"
  have parsed: "\<exists>r. parseEncryptedSessionPayload ?p = Inr r" and "32 \<le> length secret"
    using assms by (auto simp: encryptSession_def assertStrongSecret_def sbind_Inr_iff split: if_splits)
  then show "is_object v" "32 \<le> length secret" using parse_session_linked token_payload_object by blast+
  then have props: "prop_of k ?p = (if \<not> distributed cfg then prop_of k v
     else if k = ''sessionEpoch'' then JInt (session_epoch (ac_ha cfg))
     else if k = ''sessionId'' then nullish (prop_of ''sessionId'' v) (nullish (prop_of ''sessionId'' previous) (JStr uuid))
     else prop_of k v)" for k
    by (intro token_payload_prop)
  show "accepted (checkSessionEpoch (session_meta_of ?p) (ac_ha cfg))"
  proof (cases "distributed cfg")
    case True
    have "absent_or isNonemptyString (prop_of ''sessionId'' ?p)"
      using parsed by (auto simp: parseEncryptedSessionPayload_def Let_def split: if_splits)
    moreover have "prop_of ''sessionId'' ?p \<noteq> JUndefined" using True by (simp add: props nullish_def)
    ultimately obtain sid where "prop_of ''sessionId'' ?p = JStr sid" "sid \<noteq> []"
      by (cases "prop_of ''sessionId'' ?p") (auto simp: absent_or_def)
    then show ?thesis using True by (simp add: checkSessionEpoch_def session_meta_of_def props)
  next
    case False
    then show ?thesis by (simp add: checkSessionEpoch_def distributed_def)
  qed
qed

section \<open>Reconnecting\<close>

lemma prepared_rotation:
  assumes "prepare_rotation cfg p ab rnd im = Inr ro"
  shows "\<exists>i d v. im = Inr i
    \<and> deriveVnuRefreshPrincipal (ac_cp cfg) (text_of_value (prop_of ''username'' (pr_grant p))) (pr_secret p) = Inr (principal_of d)
    \<and> ro_payload ro = sessionTokenPayload cfg (ar_uuid rnd) (pr_session p) v \<and> is_object v
    \<and> prop_of ''sessionId'' v = prop_of ''sessionId'' (im_session i)
    \<and> prop_of ''vnuRefresh'' (ro_payload ro) = d \<and> d \<noteq> JUndefined \<and> ro_pair ro = descriptorPair cfg d
    \<and> encryptSession (ac_cp cfg) (ro_payload ro) (pr_secret p) (ar_sessionIv rnd) = Inr (ro_token ro)"
proof -
  obtain i r d where r: "im = Inr i" "rotateVnuRefreshGrant (ac_cp cfg) (pr_grant p) (ar_grantId rnd) = Inr r"
    and d: "createVnuRefreshAccessDescriptor (ac_cp cfg) (text_of_value (prop_of ''username'' (pr_grant p)))
           (text_of_value (prop_of ''grantId'' r)) (text_of_value (prop_of ''expiresAt'' (with_prop ''studentCode'' (im_studentCode i) (im_session i))))
           (text_of_value (prop_of ''expiresAt'' r)) (pr_secret p) (ar_accessId rnd) = Inr d"
    and o': "ro_payload ro = sessionTokenPayload cfg (ar_uuid rnd) (pr_session p)
        (with_prop ''vnuRefresh'' d (with_prop ''studentCode'' (im_studentCode i) (im_session i)))"
      "ro_pair ro = descriptorPair cfg d"
      "encryptSession (ac_cp cfg) (ro_payload ro) (pr_secret p) (ar_sessionIv rnd) = Inr (ro_token ro)"
    using assms
    by (auto simp: prepare_rotation_def Let_def sbind_Inr_iff lift_core_def split: sum.splits if_splits)
  let ?v = "with_prop ''vnuRefresh'' d (with_prop ''studentCode'' (im_studentCode i) (im_session i))"
  have v: "is_object ?v" by (rule sealed_payload(1) [OF o'(3) [unfolded o'(1)]])
  then have i: "is_object (im_session i)" by (simp add: with_prop_object)
  have "prop_of ''vnuRefresh'' (ro_payload ro) = d" "prop_of ''sessionId'' ?v = prop_of ''sessionId'' (im_session i)"
    using i by (simp_all add: o'(1) token_payload_prop v prop_with_prop with_prop_object)
  moreover have "d \<noteq> JUndefined"
    using d by (auto simp: createVnuRefreshAccessDescriptor_def Let_def sbind_Inr_iff descriptor_value_def)
  ultimately show ?thesis using descriptor_created(1) [OF d] o' r(1) v
    by (intro exI [of _ i] exI [of _ d] exI [of _ ?v]) (simp add: principal_of_def)
qed

lemma legacy_refused:
  "(case r of Inr x \<Rightarrow> Inr x | Inl e \<Rightarrow> (case legacy of Inl _ \<Rightarrow> Inl e | Inr _ \<Rightarrow> Inl e')) = Inr y \<Longrightarrow> r = Inr y"
  by (cases r; cases legacy) simp_all

lemma last_time_least: "clocked t xs \<Longrightarrow> t \<le> last_time t xs"
proof (induction xs arbitrary: t)
  case (Cons x xs)
  then have "t \<le> fst x" "fst x \<le> last_time (fst x) xs" by (cases x, auto)+
  then show ?case by simp
qed simp

lemma pending_inputs:
  assumes "refresh_begin cfg down parse now auth rq w = (Inr pend, w')" "parseBearerToken auth = Some token"
  shows "getSessionSecret (ac_secret cfg) = Inr (pr_secret pend)
    \<and> decryptVnuRefreshPurposeToken (ac_cp cfg) token (pr_secret pend) = Inr (pr_session pend)
    \<and> deriveVnuRefreshPrincipal (ac_cp cfg) (text_of_value (prop_of ''username'' (pr_grant pend))) (pr_secret pend) = Inr (pr_principal pend)
    \<and> principal_of (prop_of ''vnuRefresh'' (pr_session pend)) = pr_principal pend
    \<and> pr_old pend = descriptorPair cfg (prop_of ''vnuRefresh'' (pr_session pend)) \<and> ac_coordinator cfg"
proof -
  obtain secret session grant d old where i: "refresh_inputs cfg parse now auth rq = Inr (secret, session, grant)"
    and l: "linkedRefreshInputs cfg secret session grant = Inr (d, old)"
    and k: "ac_coordinator cfg" "pend = \<lparr>pr_secret = secret, pr_session = session, pr_grant = grant, pr_principal = principal_of d, pr_old = old\<rparr>"
    using assms(1) unfolding refresh_begin_def Let_def
    by (auto simp: abind_Inr split: if_splits prod.splits sum.splits refresh_reply.splits option.splits)
  have "getSessionSecret (ac_secret cfg) = Inr secret" "decryptVnuRefreshPurposeToken (ac_cp cfg) token secret = Inr session"
    using i assms(2) unfolding refresh_inputs_def by (auto simp: sbind_Inr_iff dest: legacy_refused)
  moreover have "deriveVnuRefreshPrincipal (ac_cp cfg) (text_of_value (prop_of ''username'' grant)) secret = Inr (principal_of d)"
    "d = prop_of ''vnuRefresh'' session" "old = descriptorPair cfg d"
    using l by (auto simp: linkedRefreshInputs_def Let_def sbind_Inr_iff principal_of_def split: if_splits)
      (metis text_of_value.simps(1))
  ultimately show ?thesis using k by simp
qed

lemma completed_rotation:
  assumes "refresh_complete cfg down pend aborted rnd imported now w = (Rotated res, w')"
    and "authorities_ok (aw_refresh w)" "valid_now now"
  shows "\<exists>ro old q. prepare_rotation cfg pend (fst aborted) rnd imported = Inr ro \<and> pr_old pend = Some old \<and> ro_pair ro = Some q
    \<and> res_token res = ro_token ro \<and> res_grant res = Some (ro_grant ro) \<and> valid_pair old \<and> valid_pair q
    \<and> authorities_ok (aw_refresh w') \<and> accessTokenId q \<noteq> accessTokenId old
    \<and> au_active (authority_at (aw_refresh w' (pr_principal pend)) now) = Some q"
proof -
  obtain ro w1 where ro: "prepare_rotation cfg pend (fst aborted) rnd imported = Inr ro"
    and c: "authority_call cfg (down ObjectCall) now (pr_principal pend) (completion_call pend (ro_pair ro)) w = (Inr (RComplete Completed), w')"
    and res: "res_token res = ro_token ro" "res_grant res = Some (ro_grant ro)"
    using assms(1)
    by (auto simp: refresh_complete_def split: sum.splits if_splits prod.splits refresh_reply.splits complete_result.splits)
  then obtain old q where o': "pr_old pend = Some old" "ro_pair ro = Some q"
    and cc: "coordinator_call (aw_refresh w) (pr_principal pend) now (CComplete old q) = (Inr (RComplete Completed), aw_refresh w')"
    using authority_reply [OF c] by (auto simp: completion_call_def bind_eq_Some_conv)
  have "call_ok (aw_refresh w (pr_principal pend)) (now, CComplete old q)" using assms(3) by simp
  note s = coordinator_reply [OF cc assms(2) this]
  have "authorities_ok (aw_refresh w')"
    using guard_inv.call_keeps [OF assms(2), of now "CComplete old q" "pr_principal pend"] cc assms(3) by simp
  moreover have "au_active (authority_at (aw_refresh w' (pr_principal pend)) now) = Some q" "accessTokenId q \<noteq> accessTokenId old"
    using s by (auto elim: spec_completeE)
  ultimately show ?thesis using ro res o' s by auto
qed

lemma active_later:
  "au_active (authority_at st t) = Some q \<Longrightarrow> t \<le> now \<Longrightarrow>
   au_active (authority_at st now) = Some q \<longleftrightarrow> now < grantExpiresAt q"
  by (auto simp: authority_at_def)

text \<open>
  C22. A reconnect that begins with a session, is interleaved with any other requests, and ends
  with a new session leaves exactly that one, in every deployment: the token it was begun with
  never resolves again, whatever follows and however the dependencies fail, unless its own
  identifier is drawn again; and right after it, while every dependency answers, the new token
  resolves to the session the portal imported with its new descriptor until the access or the
  grant expires and not from then on, unless the shared store has recorded its session
  identifier as ended. A distributed deployment hands the identifier of the old session on to
  the new one (when the portal's session brings none), so that an ordinary logout of the old
  session ends the new one, even before it is issued; and without its store it refuses every
  session that has not expired as unavailable.
\<close>

theorem refresh_rotates_session:
  assumes "run_ok (auth_step cfg) auth_ok empty_world h" "w = run (auth_step cfg) empty_world h"
    and "refresh_begin cfg down0 parse t0 auth rq w = (Inr pend, w1)" "valid_now t0" "parseBearerToken auth = Some token"
    and "run_ok (auth_step cfg) auth_ok w1 xs" "w2 = run (auth_step cfg) w1 xs"
    and "refresh_complete cfg down pend aborted rnd imported t w2 = (Rotated res, w3)" "valid_now t"
    and "prepare_rotation cfg pend (fst aborted) rnd imported = Inr ro"
    and "seals (ac_cp cfg) (DigestKey (pr_secret pend)) [] (ar_sessionIv rnd) (ro_payload ro)" "reads_dates (ac_cp cfg)"
    and "run_ok (auth_step cfg) auth_ok w3 ys" "clocked t ys" "last_time t ys \<le> now" "valid_now now"
  shows "\<exists>old q im. pr_old pend = Some old \<and> ro_pair ro = Some q \<and> imported = Inr im
    \<and> ((\<forall>y \<in> set ys. \<not> draws (snd y) (accessTokenId old)) \<longrightarrow>
        (\<forall>down' s. fst (resolveOrdinaryAccessToken cfg down' now token (run (auth_step cfg) w3 ys)) \<noteq> Inr s))
    \<and> fst (resolveOrdinaryAccessToken cfg answering now (res_token res) w3) =
        admission cfg (pr_secret pend) now (ro_payload ro) (accessExpiresAt q \<le> now) (now < grantExpiresAt q) w3
    \<and> (distributed cfg \<and> session_id (pr_session pend) \<noteq> [] \<and> prop_of ''sessionId'' (im_session im) = JUndefined \<longrightarrow>
        session_id (ro_payload ro) = session_id (pr_session pend))"
proof -
  let ?key = "pr_principal pend" and ?fin = "run (auth_step cfg) w3 ys"
  note pend = pending_inputs [OF assms(3,5)]
  have "authorities_ok (aw_refresh w)"
    using auth_machine.run_inv [of empty_world cfg h] assms(1,2) by (simp add: empty_world_def store_inv_empty)
  then have "authorities_ok (aw_refresh w1)"
    using guard_inv.refresh_begin_keeps [OF assms(4), of cfg down0 parse auth rq] assms(3) unfolding guard_inv.keeps_def by (metis snd_conv)
  then have "authorities_ok (aw_refresh w2)" using auth_machine.run_inv [of w1 cfg xs] assms(6,7) by simp
  then obtain old q where c: "pr_old pend = Some old" "ro_pair ro = Some q" "res_token res = ro_token ro" "valid_pair old" "valid_pair q"
    "authorities_ok (aw_refresh w3)" "accessTokenId q \<noteq> accessTokenId old" "au_active (authority_at (aw_refresh w3 ?key) t) = Some q"
    using completed_rotation [OF assms(8) _ assms(9)] assms(10) by auto
  have t: "t \<le> now" using assms(14,15) last_time_least by (metis order_trans)
  obtain im d v where d: "principal_of d = ?key" "prop_of ''vnuRefresh'' (ro_payload ro) = d" "d \<noteq> JUndefined" "descriptorPair cfg d = Some q"
    "encryptSession (ac_cp cfg) (ro_payload ro) (pr_secret pend) (ar_sessionIv rnd) = Inr (ro_token ro)"
    and im: "imported = Inr im" "prop_of ''sessionId'' v = prop_of ''sessionId'' (im_session im)" "is_object v"
      "ro_payload ro = sessionTokenPayload cfg (ar_uuid rnd) (pr_session pend) v"
    using prepared_rotation [OF assms(10)] pend c(2) by auto
  have inherits: "session_id (ro_payload ro) = session_id (pr_session pend)"
    if "distributed cfg" "session_id (pr_session pend) \<noteq> []" "prop_of ''sessionId'' (im_session im) = JUndefined"
    using that im by (auto simp: session_id_def token_payload_prop nullish_def)
  note opens = encrypt_session_opens [OF d(5) assms(11)]
  have secret: "ac_secret cfg = Some (pr_secret pend)" using pend by (auto simp: getSessionSecret_def split: option.splits if_splits)
  have new: "fst (resolveOrdinaryAccessToken cfg answering now (res_token res) w3) =
        admission cfg (pr_secret pend) now (ro_payload ro) (accessExpiresAt q \<le> now) (now < grantExpiresAt q) w3"
    using resolve_in_force [OF _ secret opens(1,3) _ _ c(5) assms(12) c(6) assms(16) sealed_payload(3) [OF d(5) [unfolded im(4)], folded im(4)]]
      active_later [OF c(8) t] pend d c(3) by simp
  have old: "fst (resolveOrdinaryAccessToken cfg down' now token ?fin) \<noteq> Inr s"
    if f: "\<forall>y \<in> set ys. \<not> draws (snd y) (accessTokenId old)" for down' s
  proof
    assume "fst (resolveOrdinaryAccessToken cfg down' now token ?fin) = Inr s"
    then have r: "resolveOrdinaryAccessToken cfg down' now token ?fin = (Inr s, snd (resolveOrdinaryAccessToken cfg down' now token ?fin))"
      by (metis prod.collapse)
    have "refused_from ?key old t (aw_refresh w3)" using c(6-8) by auto
    then have g: "refused_from ?key old (last_time t ys) (aw_refresh ?fin)" by (rule refused_run [OF _ assms(13,14) f])
    then have n: "au_active (authority_at (aw_refresh ?fin ?key) now) \<noteq> Some old" using assms(15) not_active_later by blast
    have "decryptSession (ac_cp cfg) token (pr_secret pend) now = Inr s"
      using resolve_steps [OF r] pend by auto
    note e = purpose_session [OF _ this, of "pr_session pend"]
    show False using resolve_active [OF r _ assms(16)] g n e pend c(1) by auto
  qed
  show ?thesis using c(1,2) new old inherits im(1) by blast
qed

section \<open>Signing in\<close>

lemma issued_session:
  assumes "issueVnuAuthResult cfg down secret now c rnd u pw payload session w = (Inr res, w')" "ac_coordinator cfg"
  shows "\<exists>grant d q limited. createVnuRefreshGrant (ac_cp cfg) u pw (text_of_value (prop_of ''studentCode'' payload)) now (ar_grantId rnd) = Inr grant
    \<and> createVnuRefreshAccessDescriptor (ac_cp cfg) u (text_of_value (prop_of ''grantId'' grant))
        (text_of_value (prop_of ''expiresAt'' payload)) (text_of_value (prop_of ''expiresAt'' grant)) secret (ar_accessId rnd) = Inr d
    \<and> descriptorPair cfg d = Some q
    \<and> coordinator_call (aw_refresh w) (principal_of d) now (CActivate q) = (Inr limited, aw_refresh w')
    \<and> (\<forall>k l x. limited \<noteq> RActivate (ActivateLimited k l x))
    \<and> encryptSession (ac_cp cfg) (sessionTokenPayload cfg (ar_uuid rnd) JUndefined (with_prop ''vnuRefresh'' d payload)) secret (ar_sessionIv rnd) = Inr (res_token res)
    \<and> (\<exists>g. res_grant res = Some g \<and> encryptVnuRefreshGrant (ac_cp cfg) grant secret (ar_grantIv rnd) = Inr g)"
proof -
  obtain grant d where gd: "createVnuRefreshGrant (ac_cp cfg) u pw (text_of_value (prop_of ''studentCode'' payload)) now (ar_grantId rnd) = Inr grant"
    "createVnuRefreshAccessDescriptor (ac_cp cfg) u (text_of_value (prop_of ''grantId'' grant))
        (text_of_value (prop_of ''expiresAt'' payload)) (text_of_value (prop_of ''expiresAt'' grant)) secret (ar_accessId rnd) = Inr d"
    and call: "(case authority_call cfg (down ObjectCall) now (principal_of d) (map_option CActivate (descriptorPair cfg d)) w of
           (Inr (RActivate (ActivateLimited k _ _)), w') \<Rightarrow> throw (activationLimited k) w'
         | (Inr _, w') \<Rightarrow>
             abind (of_core (encryptSession (ac_cp cfg) (sessionTokenPayload cfg (ar_uuid rnd) JUndefined (with_prop ''vnuRefresh'' d payload)) secret (ar_sessionIv rnd))) (\<lambda>token.
             abind (of_core (encryptVnuRefreshGrant (ac_cp cfg) grant secret (ar_grantIv rnd))) (\<lambda>g.
             ret \<lparr>res_token = token, res_grant = Some g, res_session = session\<rparr>)) w'
         | (Inl _, w') \<Rightarrow> throw vnuRefreshUnavailable w') = (Inr res, w')"
    using assms unfolding issueVnuAuthResult_def Let_def
    by (auto simp: abind_Inr throwIfRequestCancelled_def split: if_splits)
  obtain r w1 where r: "authority_call cfg (down ObjectCall) now (principal_of d) (map_option CActivate (descriptorPair cfg d)) w = (Inr r, w1)"
    "\<forall>k l x. r \<noteq> RActivate (ActivateLimited k l x)"
    and e: "abind (of_core (encryptSession (ac_cp cfg) (sessionTokenPayload cfg (ar_uuid rnd) JUndefined (with_prop ''vnuRefresh'' d payload)) secret (ar_sessionIv rnd))) (\<lambda>token.
             abind (of_core (encryptVnuRefreshGrant (ac_cp cfg) grant secret (ar_grantIv rnd))) (\<lambda>g.
             ret \<lparr>res_token = token, res_grant = Some g, res_session = session\<rparr>)) w1 = (Inr res, w')"
    using call by (auto split: prod.splits sum.splits refresh_reply.splits activate_result.splits)
  have "w' = w1" using e by (auto simp: abind_Inr)
  moreover obtain q where "descriptorPair cfg d = Some q" "coordinator_call (aw_refresh w) (principal_of d) now (CActivate q) = (Inr r, aw_refresh w1)"
    using authority_reply [OF r(1)] by auto
  ultimately show ?thesis using gd r(2) e by (auto simp: abind_Inr)
qed

lemma spec_activated:
  "spec_step a now (CActivate q) r b \<Longrightarrow> (\<forall>k l x. r \<noteq> RActivate (ActivateLimited k l x)) \<Longrightarrow>
   now < grantExpiresAt q \<Longrightarrow> au_active b = Some q"
  by (auto elim!: spec_activateE)

lemma issued_plain:
  assumes "issueVnuAuthResult cfg down secret now c rnd u pw payload session w = (Inr res, w')" "\<not> ac_coordinator cfg"
  shows "w' = w \<and> res_grant res = None
    \<and> encryptSession (ac_cp cfg) (sessionTokenPayload cfg (ar_uuid rnd) JUndefined payload) secret (ar_sessionIv rnd) = Inr (res_token res)"
  using assms unfolding issueVnuAuthResult_def Let_def
  by (auto simp: abind_Inr throwIfRequestCancelled_def split: if_splits)

text \<open>
  C23. A VNU sign-in that succeeds where a coordinator is installed returns a session and a grant
  that belong together: the session is the portal's with a descriptor (and, in a distributed
  deployment, an identifier and the epoch), the grant is linked to it and lives eight hours, and
  right after it, while every dependency answers, the session resolves until the access or the
  grant expires and not from then on. Without a coordinator it activates nothing and returns no
  grant and the portal's session as it is; that session, if it has a credential and brought no
  descriptor of its own, resolves until it expires or its token is recorded as ended. In both cases a shared store that has recorded the identifier of the
  session as ended refuses it, and a distributed deployment without its store refuses every
  session that has not expired as unavailable.
\<close>

theorem sign_in_session:
  assumes "run_ok (auth_step cfg) auth_ok empty_world h" "w = run (auth_step cfg) empty_world h"
    and "auth_ok w (t, SignIn down secret c rnd u pw payload session)"
    and "issueVnuAuthResult cfg down secret t c rnd u pw payload session w = (Inr res, w')"
    and "ac_secret cfg = Some secret" "reads_dates (ac_cp cfg)" "t \<le> now" "valid_now now"
  shows "(ac_coordinator cfg \<longrightarrow> (\<exists>d grant q v.
        createVnuRefreshAccessDescriptor (ac_cp cfg) u (toBase64Url (ar_grantId rnd)) (text_of_value (prop_of ''expiresAt'' payload))
          (toISOString (t + VNU_REFRESH_LIFETIME_MS)) secret (ar_accessId rnd) = Inr d
      \<and> v = sessionTokenPayload cfg (ar_uuid rnd) JUndefined (with_prop ''vnuRefresh'' d payload)
      \<and> encryptSession (ac_cp cfg) v secret (ar_sessionIv rnd) = Inr (res_token res)
      \<and> map_option Inr (res_grant res) = Some (encryptVnuRefreshGrant (ac_cp cfg) grant secret (ar_grantIv rnd))
      \<and> linkedRefreshInputs cfg secret v grant = Inr (d, Some q)
      \<and> grantExpiresAt q = t + VNU_REFRESH_LIFETIME_MS
      \<and> (seals (ac_cp cfg) (DigestKey secret) [] (ar_sessionIv rnd) v \<longrightarrow>
          fst (resolveOrdinaryAccessToken cfg answering now (res_token res) w') =
            admission cfg secret now v (accessExpiresAt q \<le> now) (now < grantExpiresAt q) w')))
    \<and> (\<not> ac_coordinator cfg \<longrightarrow> w' = w \<and> res_grant res = None \<and> (\<exists>v.
        v = sessionTokenPayload cfg (ar_uuid rnd) JUndefined payload
      \<and> encryptSession (ac_cp cfg) v secret (ar_sessionIv rnd) = Inr (res_token res)
      \<and> (seals (ac_cp cfg) (DigestKey secret) [] (ar_sessionIv rnd) v \<and> prop_of ''vnuRefresh'' payload = JUndefined
            \<and> truthy (prop_of ''value'' (prop_of ''vnu'' payload)) \<longrightarrow>
          fst (resolveOrdinaryAccessToken cfg answering now (res_token res) w') =
            admission cfg secret now v (expired_value (ac_cp cfg) (prop_of ''expiresAt'' payload) now)
              (\<not> token_ended cfg secret now (res_token res) w') w')))"
proof (intro conjI impI)
  assume coordinator: "ac_coordinator cfg"
  obtain grant d q r where g: "createVnuRefreshGrant (ac_cp cfg) u pw (text_of_value (prop_of ''studentCode'' payload)) t (ar_grantId rnd) = Inr grant"
    and d: "createVnuRefreshAccessDescriptor (ac_cp cfg) u (text_of_value (prop_of ''grantId'' grant))
        (text_of_value (prop_of ''expiresAt'' payload)) (text_of_value (prop_of ''expiresAt'' grant)) secret (ar_accessId rnd) = Inr d"
    and q: "descriptorPair cfg d = Some q" "coordinator_call (aw_refresh w) (principal_of d) t (CActivate q) = (Inr r, aw_refresh w')"
      "\<forall>k l x. r \<noteq> RActivate (ActivateLimited k l x)"
    and e: "encryptSession (ac_cp cfg) (sessionTokenPayload cfg (ar_uuid rnd) JUndefined (with_prop ''vnuRefresh'' d payload)) secret
        (ar_sessionIv rnd) = Inr (res_token res)"
      "map_option Inr (res_grant res) = Some (encryptVnuRefreshGrant (ac_cp cfg) grant secret (ar_grantIv rnd))"
    using issued_session [OF assms(4) coordinator] by fastforce
  let ?v = "sessionTokenPayload cfg (ar_uuid rnd) JUndefined (with_prop ''vnuRefresh'' d payload)"
  note sealed = sealed_payload [OF e(1)]
  have v: "prop_of ''vnuRefresh'' ?v = d"
    using sealed(1) by (simp add: token_payload_prop) (simp add: prop_with_prop with_prop_object)
  note cg = create_grant [OF g] and cd = descriptor_created [OF d] and ids = descriptor_pair_ids [OF d q(1)]
  have gp: "prop_of ''username'' grant = JStr (normalizeVnuUsername u)" "prop_of ''grantId'' grant = JStr (toBase64Url (ar_grantId rnd))"
    "prop_of ''expiresAt'' grant = JStr (toISOString (t + VNU_REFRESH_LIFETIME_MS))"
    using cg by (simp_all add: grant_value_def)
  have p: "prop_of ''principalKey'' d = JStr (principal_of d)"
    using d by (auto simp: createVnuRefreshAccessDescriptor_def Let_def sbind_Inr_iff descriptor_value_def principal_of_def)
  have linked: "linkedRefreshInputs cfg secret ?v grant = Inr (d, Some q)"
    using cd gp q(1) v p
    by (simp add: linkedRefreshInputs_def Let_def derive_normalized principal_of_def [symmetric])
  have range: "- max_time \<le> t + VNU_REFRESH_LIFETIME_MS \<and> t + VNU_REFRESH_LIFETIME_MS \<le> max_time"
    using cg by (auto simp: VNU_REFRESH_LIFETIME_MS_def)
  then have ge: "grantExpiresAt q = t + VNU_REFRESH_LIFETIME_MS"
    using q(1) cd(4) gp(3) assms(6)
    by (auto simp: descriptorPair_def parsed_date_def reads_dates_def split: option.splits)
  have inv: "authorities_ok (aw_refresh w)"
    using auth_machine.run_inv [of empty_world cfg h] assms(1,2) by (simp add: empty_world_def store_inv_empty)
  have now: "valid_now t" "unused rnd t (aw_refresh w)" using assms(3) by simp_all
  have "call_ok (aw_refresh w (principal_of d)) (t, CActivate q)"
    using now ids gp(2) by (auto simp: unused_def)
  note s = coordinator_reply [OF q(2) inv this]
  then have inv': "authorities_ok (aw_refresh w')"
    using guard_inv.call_keeps [OF inv, of t "CActivate q" "principal_of d"] q(2) now ids gp(2) by (auto simp: unused_def)
  have "au_active (authority_at (aw_refresh w' (principal_of d)) t) = Some q"
    using s ge by (intro spec_activated [OF _ q(3)]) (auto simp: VNU_REFRESH_LIFETIME_MS_def)
  from active_later [OF this assms(7)]
  have act: "au_active (authority_at (aw_refresh w' (principal_of d)) now) = Some q \<longleftrightarrow> now < grantExpiresAt q" .
  have "fst (resolveOrdinaryAccessToken cfg answering now (res_token res) w') =
          admission cfg secret now ?v (accessExpiresAt q \<le> now) (now < grantExpiresAt q) w'"
    if sl: "seals (ac_cp cfg) (DigestKey secret) [] (ar_sessionIv rnd) ?v"
  proof -
    note opens = encrypt_session_opens [OF e(1) sl]
    have "prop_of ''vnuRefresh'' ?v \<noteq> JUndefined" using v p by auto
    then show ?thesis
      using resolve_in_force [OF coordinator assms(5) opens(1,3) _ _ _ assms(6) inv' assms(8) sealed(3), of q] s q(1) act v by simp
  qed
  then show "\<exists>d grant q v.
        createVnuRefreshAccessDescriptor (ac_cp cfg) u (toBase64Url (ar_grantId rnd)) (text_of_value (prop_of ''expiresAt'' payload))
          (toISOString (t + VNU_REFRESH_LIFETIME_MS)) secret (ar_accessId rnd) = Inr d
      \<and> v = sessionTokenPayload cfg (ar_uuid rnd) JUndefined (with_prop ''vnuRefresh'' d payload)
      \<and> encryptSession (ac_cp cfg) v secret (ar_sessionIv rnd) = Inr (res_token res)
      \<and> map_option Inr (res_grant res) = Some (encryptVnuRefreshGrant (ac_cp cfg) grant secret (ar_grantIv rnd))
      \<and> linkedRefreshInputs cfg secret v grant = Inr (d, Some q)
      \<and> grantExpiresAt q = t + VNU_REFRESH_LIFETIME_MS
      \<and> (seals (ac_cp cfg) (DigestKey secret) [] (ar_sessionIv rnd) v \<longrightarrow>
          fst (resolveOrdinaryAccessToken cfg answering now (res_token res) w') =
            admission cfg secret now v (accessExpiresAt q \<le> now) (now < grantExpiresAt q) w')"
    using d gp e linked ge by (intro exI [of _ d] exI [of _ grant] exI [of _ q] exI [of _ ?v]) auto
next
  assume "\<not> ac_coordinator cfg"
  note i = issued_plain [OF assms(4) this]
  then show "w' = w" "res_grant res = None" by blast+
  let ?v = "sessionTokenPayload cfg (ar_uuid rnd) JUndefined payload"
  have e: "encryptSession (ac_cp cfg) ?v secret (ar_sessionIv rnd) = Inr (res_token res)" using i by blast
  note sealed = sealed_payload [OF e]
  have v: "prop_of k ?v = prop_of k payload" if "k \<noteq> ''sessionId''" "k \<noteq> ''sessionEpoch''" for k
    using that by (simp add: token_payload_prop sealed(1))
  have "fst (resolveOrdinaryAccessToken cfg answering now (res_token res) w') =
      admission cfg secret now ?v (expired_value (ac_cp cfg) (prop_of ''expiresAt'' payload) now)
        (\<not> token_ended cfg secret now (res_token res) w') w'"
    if "seals (ac_cp cfg) (DigestKey secret) [] (ar_sessionIv rnd) ?v" "prop_of ''vnuRefresh'' payload = JUndefined"
      "truthy (prop_of ''value'' (prop_of ''vnu'' payload))"
  proof -
    note opens = encrypt_session_opens [OF e that(1)]
    show ?thesis
      using resolve_decrypted [OF assms(5) opens(1,3) sealed(3), of now w'] that(2,3) v
      by (simp add: Let_def)
  qed
  then show "\<exists>v. v = ?v
      \<and> encryptSession (ac_cp cfg) v secret (ar_sessionIv rnd) = Inr (res_token res)
      \<and> (seals (ac_cp cfg) (DigestKey secret) [] (ar_sessionIv rnd) v \<and> prop_of ''vnuRefresh'' payload = JUndefined
            \<and> truthy (prop_of ''value'' (prop_of ''vnu'' payload)) \<longrightarrow>
          fst (resolveOrdinaryAccessToken cfg answering now (res_token res) w') =
            admission cfg secret now v (expired_value (ac_cp cfg) (prop_of ''expiresAt'' payload) now)
              (\<not> token_ended cfg secret now (res_token res) w') w')"
    using e by blast
qed

section \<open>The ordinary logout\<close>

lemma memory_session:
  assumes "\<not> distributed cfg" "\<not> ac_store cfg"
  shows "(if session_id s = [] then ret False else isSessionRevoked cfg down secret now (session_id s)) = ret False"
    and "revokeSession cfg down secret s = ret ()"
    and "accepted (checkSessionEpoch (session_meta_of s) (ac_ha cfg))"
  using assms
  by (auto simp: isSessionRevoked_def revokeSession_def fun_eq_iff checkSessionEpoch_def distributed_def)

text \<open>What a session without a store resolves to, in terms of its own checks.\<close>

lemma resolve_memory:
  assumes "\<not> distributed cfg" "\<not> ac_store cfg" "getSessionSecret (ac_secret cfg) = Inr secret"
    and "decryptSession (ac_cp cfg) token secret now = Inr s"
    and "prop_of ''universityId'' s = JStr ''vnu'' \<longrightarrow> truthy (prop_of ''value'' (prop_of ''vnu'' s))"
  shows "resolveOrdinaryAccessToken cfg down now token =
    (if prop_of ''vnuRefresh'' s = JUndefined
     then abind (isTokenRevoked cfg down secret now token) (\<lambda>revoked. if revoked then throw sessionExpired else ret s)
     else check_authority cfg down now s)"
proof -
  have core: "abind (of_core (Inr x)) f = f x" for x :: 'b and f :: "'b \<Rightarrow> jval auth"
    by (simp add: abind_def of_core_def lift_core_def fun_eq_iff)
  have ret: "abind (ret x) f = f x" for x :: bool and f :: "bool \<Rightarrow> jval auth"
    by (simp add: abind_def ret_def fun_eq_iff)
  show ?thesis
    unfolding resolveOrdinaryAccessToken_def assms(3) core assms(4) memory_session(1) [OF assms(1,2)] ret
    using assms(1,5) memory_session(3) [OF assms(1,2)] by auto
qed

lemma resolve_memory_inputs:
  assumes "resolveOrdinaryAccessToken cfg down now token w = (Inr s, w')" "\<not> distributed cfg" "\<not> ac_store cfg"
  shows "\<exists>secret. getSessionSecret (ac_secret cfg) = Inr secret \<and> decryptSession (ac_cp cfg) token secret now = Inr s
    \<and> (prop_of ''universityId'' s = JStr ''vnu'' \<longrightarrow> truthy (prop_of ''value'' (prop_of ''vnu'' s)))"
proof -
  obtain secret where i: "getSessionSecret (ac_secret cfg) = Inr secret" "decryptSession (ac_cp cfg) token secret now = Inr s"
    using resolve_steps [OF assms(1)] by blast
  have core: "abind (of_core (Inr x)) f = f x" for x :: 'b and f :: "'b \<Rightarrow> jval auth"
    by (simp add: abind_def of_core_def lift_core_def fun_eq_iff)
  have ret: "abind (ret x) f = f x" for x :: bool and f :: "bool \<Rightarrow> jval auth"
    by (simp add: abind_def ret_def fun_eq_iff)
  have "prop_of ''universityId'' s = JStr ''vnu'' \<longrightarrow> truthy (prop_of ''value'' (prop_of ''vnu'' s))"
    using assms(1) unfolding resolveOrdinaryAccessToken_def i core memory_session(1) [OF assms(2,3)] ret
    by (auto split: if_splits)
  with i show ?thesis by blast
qed

lemma resolve_refused:
  assumes "\<not> distributed cfg" "\<not> ac_store cfg" "getSessionSecret (ac_secret cfg) = Inr secret"
    and "decryptSession (ac_cp cfg) token secret now = Inl e"
  shows "resolveOrdinaryAccessToken cfg down now token w = (Inl (Some e), w)"
  using assms by (simp add: resolveOrdinaryAccessToken_def abind_def of_core_def lift_core_def)

lemma memory_cache:
  assumes "\<not> distributed cfg" "\<not> ac_store cfg"
  shows "isTokenRevoked cfg answering secret now token w =
      (Inr (fst (cache_match now (revokedTokenKey cfg secret token) (aw_cache w)) \<noteq> None),
       w\<lparr>aw_cache := snd (cache_match now (revokedTokenKey cfg secret token) (aw_cache w))\<rparr>)"
    and "fst (revokeToken cfg down secret now token v w) = Inr ()"
    and "revokeToken cfg answering secret now token (JStr x) w = (Inr (), w\<lparr>aw_cache :=
       (case ttl_seconds (cp_date (ac_cp cfg) x) now of
          None \<Rightarrow> cache_store now (revokedTokenKey cfg secret token) revoked_marker None (aw_cache w)
        | Some n \<Rightarrow> if n \<le> 0 then aw_cache w
            else cache_store now (revokedTokenKey cfg secret token) revoked_marker (Some n) (aw_cache w))\<rparr>)"
  using assms
  by (auto simp: isTokenRevoked_def revokeToken_def Let_def abind_def ret_def get_cache_def put_cache_def cacheGet_def cachePut_def
      with_fate_def answering_def lift_core_def parsed_date_def distributed_def split: option.splits prod.splits fate.splits)

text \<open>
  A VNU logout of a token without a descriptor revokes that token, which without a shared store
  is what the ordinary logout does: the session is refused while the marker stays in the cache,
  and a failure to write the marker goes unnoticed.
\<close>

lemma legacy_opens:
  assumes "decryptSession cp token secret now = Inr s" "decryptAuthenticatedLegacyVnuSession cp token secret = Inr legacy"
  shows "legacy = s" "decryptVnuRefreshPurposeToken cp token secret \<noteq> Inr x"
proof -
  have a: "decryptAccessToken cp token secret = Inr s" using assms(1) by (auto simp: decryptSession_def sbind_Inr_iff split: if_splits)
  then show same: "legacy = s"
    using assms(2)
    by (auto simp: decryptAccessToken_def decryptAuthenticatedLegacyVnuSession_def dest: parse_session_value split: option.splits if_splits)
  have "\<not> has_own ''vnuRefresh'' s"
    using assms(2) same by (auto simp: decryptAuthenticatedLegacyVnuSession_def legacy_ok_def split: option.splits if_splits)
  moreover have "is_object s" using decryptAccessToken_result [of cp token secret] a by simp
  ultimately have "prop_of ''vnuRefresh'' s = JUndefined"
    by (cases s) (force simp: field_def dest: map_of_SomeD split: option.splits)+
  then show "decryptVnuRefreshPurposeToken cp token secret \<noteq> Inr x"
    using a by (simp add: decryptVnuRefreshPurposeToken_def)
qed

lemma legacy_logout:
  assumes "\<not> distributed cfg" "\<not> ac_store cfg" "ac_secret cfg = Some secret" "32 \<le> length secret"
    and "parseBearerToken auth = Some token" "decryptSession (ac_cp cfg) token secret t = Inr s"
    and "decryptAuthenticatedLegacyVnuSession (ac_cp cfg) token secret = Inr legacy" "parseStrictVnuAuthBody parse rq LogoutBody = Inr g"
  shows "vnu_logout cfg down parse t later auth rq = ordinary_logout cfg down t auth"
    and "fst (vnu_logout cfg down parse t later auth rq w) = Inr ()"
    and "down CacheWrite = NotReached \<Longrightarrow> snd (vnu_logout cfg down parse t later auth rq w) = w"
proof -
  have secret: "getSessionSecret (ac_secret cfg) = Inr secret" using assms(3,4) by (auto simp: getSessionSecret_def)
  obtain e where e: "decryptVnuRefreshPurposeToken (ac_cp cfg) token secret = Inl e"
    using legacy_opens(2) [OF assms(6,7)] by (cases "decryptVnuRefreshPurposeToken (ac_cp cfg) token secret") auto
  have core: "abind (of_core (Inr x)) f = f x" for x :: 'b and f :: "'b \<Rightarrow> unit auth"
    by (simp add: abind_def of_core_def lift_core_def fun_eq_iff)
  have ret: "abind (ret x) f = f x" for x :: unit and f :: "unit \<Rightarrow> unit auth"
    by (simp add: abind_def ret_def fun_eq_iff)
  have v: "vnu_logout cfg down parse t later auth rq = revokeToken cfg down secret t token (prop_of ''expiresAt'' s)"
    unfolding vnu_logout_def assms(5) option.case secret core e sum.case assms(7,8) prod.case
    by (simp add: legacy_opens(1) [OF assms(6,7)])
  then show "vnu_logout cfg down parse t later auth rq = ordinary_logout cfg down t auth"
    by (simp add: ordinary_logout_def assms(5,6) secret memory_session(2) [OF assms(1,2)] ret)
  show "fst (vnu_logout cfg down parse t later auth rq w) = Inr ()" unfolding v by (rule memory_cache(2) [OF assms(1,2)])
  show "snd (vnu_logout cfg down parse t later auth rq w) = w" if "down CacheWrite = NotReached"
    using assms(1,2) that unfolding v
    by (auto simp: revokeToken_def Let_def put_cache_def cachePut_def with_fate_def distributed_def lift_core_def split: option.splits prod.splits)
qed

text \<open>
  C24. Without a shared store, an ordinary logout of a session that resolved reports success;
  afterwards a session without a descriptor is refused for the whole seconds that were left of
  it, and accepted again in the fraction of a second between them and its expiry; and a session
  with a descriptor resolves as if nothing had happened.
\<close>

theorem ordinary_logout_exact:
  assumes "resolveOrdinaryAccessToken cfg answering t token w = (Inr s, w0)" "\<not> distributed cfg" "\<not> ac_store cfg"
    and "parseBearerToken auth = Some token" "parsed_date cfg (prop_of ''expiresAt'' s) = Some e" "t \<le> now"
  shows "fst (ordinary_logout cfg answering t auth w0) = Inr ()
    \<and> fst (resolveOrdinaryAccessToken cfg answering now token (snd (ordinary_logout cfg answering t auth w0))) =
      (if prop_of ''vnuRefresh'' s \<noteq> JUndefined then fst (resolveOrdinaryAccessToken cfg answering now token w0)
       else if e \<le> now \<or> now < t + (e - t) div 1000 * 1000 then Inl (Some sessionExpired)
       else Inr s)"
proof -
  obtain secret x where i: "getSessionSecret (ac_secret cfg) = Inr secret" "decryptSession (ac_cp cfg) token secret t = Inr s"
    "prop_of ''universityId'' s = JStr ''vnu'' \<longrightarrow> truthy (prop_of ''value'' (prop_of ''vnu'' s))"
    and x: "prop_of ''expiresAt'' s = JStr x" "cp_date (ac_cp cfg) x = Some e"
    using resolve_memory_inputs [OF assms(1-3)] assms(5) by (auto simp: parsed_date_def split: jval.splits)
  let ?key = "revokedTokenKey cfg secret token"
  have logout: "ordinary_logout cfg answering t auth w0 = revokeToken cfg answering secret t token (JStr x) w0"
    using assms(4) i(1,2) x(1) memory_session(2) [OF assms(2,3)]
    by (simp add: ordinary_logout_def abind_def ret_def)
  have live: "t < e" using i(2) x by (auto simp: decryptSession_def sbind_Inr_iff expired_value_def date_value_def split: if_splits)
  have d: "decryptSession (ac_cp cfg) token secret now = (if e \<le> now then Inl sessionExpired else Inr s)"
  proof -
    have "decryptAccessToken (ac_cp cfg) token secret = Inr s"
      using i(2) by (auto simp: decryptSession_def sbind_Inr_iff split: if_splits)
    then show ?thesis using x by (simp add: decryptSession_def expired_value_def date_value_def)
  qed
  have r: "resolveOrdinaryAccessToken cfg answering now token = (if e \<le> now then (\<lambda>w. (Inl (Some sessionExpired), w))
     else if prop_of ''vnuRefresh'' s = JUndefined
     then abind (isTokenRevoked cfg answering secret now token) (\<lambda>revoked. if revoked then throw sessionExpired else ret s)
     else check_authority cfg answering now s)"
    using resolve_memory [OF assms(2,3) i(1) _ i(3), of token now answering] resolve_refused [OF assms(2,3) i(1), of token now _ answering] d
    by (auto simp: fun_eq_iff)
  have ok: "fst (ordinary_logout cfg answering t auth w0) = Inr ()" unfolding logout by (rule memory_cache(2) [OF assms(2,3)])
  have refresh: "aw_refresh (snd (ordinary_logout cfg answering t auth w0)) = aw_refresh w0" by (rule ordinary_logout_frame)
  show ?thesis
  proof (cases "prop_of ''vnuRefresh'' s = JUndefined")
    case False
    then show ?thesis unfolding r using ok check_authority_frame [OF refresh, of cfg now s] by simp
  next
    case True
    have "abind (isTokenRevoked cfg answering secret t token) (\<lambda>revoked. if revoked then throw sessionExpired else ret s) w = (Inr s, w0)"
      using assms(1) True unfolding resolve_memory [OF assms(2,3) i] by simp
    then have none: "aw_cache w0 ?key = None"
      unfolding memory_cache(1) [OF assms(2,3)] abind_def
      by (auto simp: ret_def throw_def cache_match_def split: option.splits if_splits)
    let ?n = "(e - t) div 1000"
    have n: "0 \<le> ?n" using live by simp
    have c: "aw_cache (snd (ordinary_logout cfg answering t auth w0)) =
        (if ?n \<le> 0 then aw_cache w0 else cache_store t ?key revoked_marker (Some ?n) (aw_cache w0))"
      unfolding logout memory_cache(3) [OF assms(2,3)] using x(2) n by (simp add: ttl_seconds_def)
    have "fst (cache_match now ?key (aw_cache (snd (ordinary_logout cfg answering t auth w0)))) \<noteq> None \<longleftrightarrow> now < t + ?n * 1000"
      unfolding c using none assms(6) n by (auto simp: cache_match_store) (auto simp: cache_match_def)
    then show ?thesis
      using True ok unfolding r memory_cache(1) [OF assms(2,3)] abind_def
      by (auto simp: ret_def throw_def)
  qed
qed

end
