(* ===== verification/VnuAuthScenario.thy ===== *)
theory VnuAuthScenario
  imports VnuAuthProps
begin

text \<open>
  One life of a VNU session on a concrete platform: a sign-in, a reconnect, a logout, and beside
  it an ordinary session that logs out. The platform marks the values of the scenario and
  pads them with a tag.
\<close>

section \<open>The platform\<close>

definition mark :: "jval \<Rightarrow> nat" where
  "mark v = length (own_keys v) + length (text_of_value (prop_of ''value'' (prop_of ''vnu'' v)))"

definition marking_platform :: "(nat \<times> jval) list \<Rightarrow> core_platform" where
  "marking_platform vs = \<lparr>cp_json = (\<lambda>v. [word_of_nat (mark v)]),
     cp_parse = (\<lambda>bs. case bs of [b] \<Rightarrow> map_of vs (unat b) | _ \<Rightarrow> None),
     cp_encrypt = (\<lambda>_ _ _ p. p @ replicate 16 0), cp_decrypt = (\<lambda>_ _ _ b. Some (take (length b - 16) b)),
     cp_hmac = (\<lambda>_ _. replicate 32 0), cp_date = canonicalTime\<rparr>"

definition life_secret :: string where "life_secret = replicate 32 CHR ''k''"

definition life_random :: "8 word \<Rightarrow> auth_random" where
  "life_random b = \<lparr>ar_uuid = ''u'', ar_grantId = replicate 16 b, ar_accessId = replicate 16 b,
     ar_sessionIv = replicate 12 0, ar_grantIv = replicate 12 0\<rparr>"

definition life_payload :: "string \<Rightarrow> string \<Rightarrow> jval" where
  "life_payload cookie e = JObj [(''version'', JInt 1), (''universityId'', JStr ''vnu''), (''studentCode'', JStr ''7''),
     (''vnu'', JObj [(''kind'', JStr ''cookie''), (''value'', JStr cookie)]), (''expiresAt'', JStr e)]"

definition life_end :: string where "life_end = ''1970-01-01T08:00:01.000Z''"

definition life_descriptor :: "string \<Rightarrow> string \<Rightarrow> jval" where
  "life_descriptor i e = JObj [(''version'', JInt 1), (''purpose'', JStr ''vnu-refresh-access''), (''principalKey'', JStr (replicate 64 CHR ''0'')),
     (''accessTokenId'', JStr i), (''grantId'', JStr i), (''accessExpiresAt'', JStr e), (''grantExpiresAt'', JStr life_end)]"

definition id1 :: string where "id1 = ''AQEBAQEBAQEBAQEBAQEBAQ''"

definition id2 :: string where "id2 = ''AgICAgICAgICAgICAgICAg''"

definition end1 :: string where "end1 = ''1970-01-01T01:00:00.000Z''"

definition end2 :: string where "end2 = ''1970-01-01T02:00:00.000Z''"

definition life_grant :: "string \<Rightarrow> jval" where
  "life_grant i = JObj [(''version'', JInt 1), (''purpose'', JStr ''vnu-refresh''), (''grantId'', JStr i),
      (''universityId'', JStr ''vnu''), (''username'', JStr ''u''), (''password'', JStr ''p''),
      (''expectedStudentCode'', JStr ''7''), (''issuedAt'', JStr ''1970-01-01T00:00:01.000Z''), (''expiresAt'', JStr life_end)]"

definition life_session :: "string \<Rightarrow> string \<Rightarrow> string \<Rightarrow> jval" where
  "life_session i cookie e = JObj [(''version'', JInt 1), (''universityId'', JStr ''vnu''), (''studentCode'', JStr ''7''),
     (''vnu'', JObj [(''kind'', JStr ''cookie''), (''value'', JStr cookie)]), (''expiresAt'', JStr e),
     (''vnuRefresh'', life_descriptor i e)]"

definition plain_session :: jval where
  "plain_session = JObj [(''version'', JInt 1), (''universityId'', JStr ''uet''), (''expiresAt'', JStr ''1970-01-01T00:00:04.500Z'')]"

definition life_values :: "(nat \<times> jval) list" where
  "life_values = [(7, life_session id1 ''a'' end1), (9, life_grant id1), (8, life_session id2 ''ab'' end2), (3, plain_session)]"

definition life_config :: auth_config where
  "life_config = \<lparr>ac_cp = marking_platform life_values, ac_secret = Some life_secret, ac_ha = DEFAULT_HA_CONFIG,
     ac_coordinator = True, ac_store = False\<rparr>"

definition token1 :: string where "token1 = ''AAAAAAAAAAAAAAAA.BwAAAAAAAAAAAAAAAAAAAAA''"

definition grant1 :: string where "grant1 = ''AAAAAAAAAAAAAAAA.CQAAAAAAAAAAAAAAAAAAAAA''"

definition token2 :: string where "token2 = ''AAAAAAAAAAAAAAAA.CAAAAAAAAAAAAAAAAAAAAAA''"

definition plain_token :: string where "plain_token = ''AAAAAAAAAAAAAAAA.AwAAAAAAAAAAAAAAAAAAAAA''"

definition life_header :: "string \<Rightarrow> string option" where
  "life_header token = Some (''Bearer '' @ token)"

definition life_sign_in :: auth_request where
  "life_sign_in = SignIn answering life_secret (False, False) (life_random 1) ''u'' ''p'' (life_payload ''a'' end1) JNull"

definition grant_body :: "string \<Rightarrow> bytes \<Rightarrow> jval option" where
  "grant_body g = (\<lambda>_. Some (JObj [(''refreshGrant'', JStr g)]))"

definition some_body :: body_request where
  "some_body = \<lparr>br_declared = None, br_chunks = Some [[]]\<rparr>"

lemmas life_defs = life_random_def life_secret_def life_config_def life_header_def life_sign_in_def

definition life_key :: string where "life_key = replicate 64 CHR ''0''"

definition pair1 :: linked_pair where
  "pair1 = \<lparr>accessTokenId = id1, accessExpiresAt = 3600000, grantId = id1, grantExpiresAt = 28801000\<rparr>"

definition pair2 :: linked_pair where
  "pair2 = \<lparr>accessTokenId = id2, accessExpiresAt = 7200000, grantId = id2, grantExpiresAt = 28801000\<rparr>"

definition store1 :: do_store where "store1 = snd (handle empty_store 1000 (CActivate pair1))"

definition store2 :: do_store where "store2 = snd (handle store1 2000 (CBegin pair1))"

definition life_world :: "do_store \<Rightarrow> auth_world" where
  "life_world st = empty_world\<lparr>aw_refresh := (\<lambda>_. empty_store)(life_key := st)\<rparr>"

lemma life_handled:
  "fst (handle empty_store 1000 (CActivate pair1)) = Inr (RActivate Activated)"
  "fst (handle store1 2000 (CBegin pair1)) = Inr (RBegin (Accepted 122000))"
  "fst (handle store2 3000 (CComplete pair1 pair2)) = Inr (RComplete Completed)"
  "fst (handle store1 2000 (CRevokeByAccess pair1)) = Inr (RRevoke Revoked)"
  by code_simp+

lemma life_pairs: "hex_n 64 life_key" "valid_pair pair1" "valid_pair pair2"
  by code_simp+

lemma life_call:
  assumes "fst (handle st now call) = Inr r" "list_all valid_pair (call_pairs call)"
  shows "authority_call life_config Answered now life_key (Some call) (life_world st) = (Inr r, life_world (snd (handle st now call)))"
proof (cases "handle st now call")
  case (Pair x st')
  then show ?thesis
    using assms life_pairs(1)
    by (simp add: authority_call_def coordinator_call_def with_fate_def life_world_def life_config_def del: handle.simps)
qed

section \<open>Signing in\<close>

lemma life_config_simps [simp]:
  "ac_coordinator life_config" "ac_secret life_config = Some life_secret" "\<not> distributed life_config" "\<not> ac_store life_config"
  by (simp_all add: life_config_def distributed_def DEFAULT_HA_CONFIG_def)

lemma life_random_simps [simp]:
  "ar_grantId (life_random b) = replicate 16 b" "ar_accessId (life_random b) = replicate 16 b"
  "ar_sessionIv (life_random b) = replicate 12 0" "ar_grantIv (life_random b) = replicate 12 0"
  by (simp_all add: life_random_def)

lemma life_same [simp]: "sessionTokenPayload life_config uuid previous v = v"
  by (simp add: sessionTokenPayload_def)

lemma life_parts:
  "createVnuRefreshGrant (ac_cp life_config) ''u'' ''p'' ''7'' 1000 (replicate 16 1) = Inr (life_grant id1)"
  "createVnuRefreshAccessDescriptor (ac_cp life_config) ''u'' id1 end1 life_end life_secret (replicate 16 1) = Inr (life_descriptor id1 end1)"
  "descriptorPair life_config (life_descriptor id1 end1) = Some pair1"
  "encryptSession (ac_cp life_config) (life_session id1 ''a'' end1) life_secret (replicate 12 0) = Inr token1"
  "encryptVnuRefreshGrant (ac_cp life_config) (life_grant id1) life_secret (replicate 12 0) = Inr grant1"
  by code_simp+

lemma life_fields [simp]:
  "principal_of (life_descriptor i e) = life_key" "with_prop ''vnuRefresh'' (life_descriptor i e) (life_payload c e) = life_session i c e"
  "prop_of ''studentCode'' (life_payload c e) = JStr ''7''" "prop_of ''expiresAt'' (life_payload c e) = JStr e"
  "prop_of ''grantId'' (life_grant i) = JStr i" "prop_of ''expiresAt'' (life_grant i) = JStr life_end"
  "prop_of ''vnuRefresh'' (life_session i c e) = life_descriptor i e"
  by (simp_all add: principal_of_def life_descriptor_def life_key_def life_payload_def life_grant_def life_session_def)

definition life_result :: auth_result where
  "life_result = \<lparr>res_token = token1, res_grant = Some grant1, res_session = JNull\<rparr>"

lemma empty_life: "life_world empty_store = empty_world"
  by (simp add: life_world_def empty_world_def fun_eq_iff)

lemma life_issued:
  "issueVnuAuthResult life_config answering life_secret 1000 (False, False) (life_random 1) ''u'' ''p'' (life_payload ''a'' end1) JNull empty_world
   = (Inr life_result, life_world store1)"
proof -
  have c: "authority_call life_config Answered 1000 life_key (Some (CActivate pair1)) empty_world = (Inr (RActivate Activated), life_world store1)"
    using life_call [OF life_handled(1)] life_pairs by (simp add: empty_life store1_def del: handle.simps)
  show ?thesis
    unfolding issueVnuAuthResult_def Let_def life_same
    by (simp add: throwIfRequestCancelled_def abind_def of_core_def lift_core_def ret_def life_parts c life_result_def)
qed

definition life_history :: "(int \<times> auth_request) list" where
  "life_history = [(1000, life_sign_in)]"

lemma life_history_run:
  "run_ok (auth_step life_config) auth_ok empty_world life_history" "run (auth_step life_config) empty_world life_history = life_world store1"
  using life_issued
  by (simp_all add: life_history_def life_sign_in_def unused_def empty_world_def cleanVnuRefreshState_def stored_or_empty_def
      emptyState_def fresh_pair_def valid_now_def)

lemma life_dates: "reads_dates (ac_cp life_config)"
  by (simp add: reads_dates_def life_config_def marking_platform_def canonicalTime_toISOString)

lemma life_seals:
  "seals (ac_cp life_config) key aad (replicate 12 0) (life_session id1 ''a'' end1)"
  "seals (ac_cp life_config) key aad (replicate 12 0) (life_session id2 ''ab'' end2)"
  by (simp_all add: seals_def life_config_def marking_platform_def mark_def life_session_def life_values_def)

text \<open>The same sign-in where no coordinator is installed.\<close>

definition bare_config :: auth_config where
  "bare_config = life_config\<lparr>ac_coordinator := False, ac_cp := marking_platform [(6, life_payload ''a'' end1)]\<rparr>"

definition bare_token :: string where "bare_token = ''AAAAAAAAAAAAAAAA.BgAAAAAAAAAAAAAAAAAAAAA''"

lemma bare_config_simps [simp]:
  "\<not> ac_coordinator bare_config" "ac_secret bare_config = Some life_secret" "\<not> distributed bare_config" "\<not> ac_store bare_config"
  by (simp_all add: bare_config_def life_config_def distributed_def DEFAULT_HA_CONFIG_def)

lemma bare_parts:
  "encryptSession (ac_cp bare_config) (life_payload ''a'' end1) life_secret (replicate 12 0) = Inr bare_token"
  "expired_value (ac_cp bare_config) (JStr end1) 2000 = False" "expired_value (ac_cp bare_config) (JStr end1) 3600000 = True"
  by code_simp+

lemma bare_issued:
  "issueVnuAuthResult bare_config answering life_secret 1000 (False, False) (life_random 1) ''u'' ''p'' (life_payload ''a'' end1) JNull empty_world
   = (Inr \<lparr>res_token = bare_token, res_grant = None, res_session = JNull\<rparr>, empty_world)"
  unfolding issueVnuAuthResult_def Let_def
  by (simp add: throwIfRequestCancelled_def abind_def of_core_def lift_core_def ret_def sessionTokenPayload_def bare_parts)

lemma bare_laws:
  "reads_dates (ac_cp bare_config)" "seals (ac_cp bare_config) key aad (replicate 12 0) (life_payload ''a'' end1)"
  "run_ok (auth_step bare_config) auth_ok empty_world []" "empty_world = run (auth_step bare_config) empty_world []"
  by (simp_all add: reads_dates_def bare_config_def marking_platform_def canonicalTime_toISOString seals_def mark_def life_payload_def)

lemma memory_admission:
  assumes "\<not> distributed cfg" "\<not> ac_store cfg"
  shows "admission cfg secret now s expired live w = (if \<not> expired \<and> live then Inr s else Inl (Some sessionExpired))"
  using assms by (simp add: admission_def session_ended_def)

theorem sign_in_session_witness:
  "fst (resolveOrdinaryAccessToken life_config answering 2000 token1 (life_world store1)) = Inr (life_session id1 ''a'' end1)
   \<and> fst (resolveOrdinaryAccessToken life_config answering 3600000 token1 (life_world store1)) = Inl (Some sessionExpired)
   \<and> fst (resolveOrdinaryAccessToken bare_config answering 2000 bare_token empty_world) = Inr (life_payload ''a'' end1)
   \<and> fst (resolveOrdinaryAccessToken bare_config answering 3600000 bare_token empty_world) = Inl (Some sessionExpired)"
proof -
  have ok: "run_ok (auth_step life_config) auth_ok empty_world []" "empty_world = run (auth_step life_config) empty_world []"
    "auth_ok empty_world (1000, SignIn answering life_secret (False, False) (life_random 1) ''u'' ''p'' (life_payload ''a'' end1) JNull)"
    using life_history_run(1) by (simp_all add: life_history_def life_sign_in_def)
  have e: "(1000::int) + VNU_REFRESH_LIFETIME_MS = 28801000" "toISOString 28801000 = life_end" "toBase64Url (replicate 16 1) = id1" by code_simp+
  have r: "fst (resolveOrdinaryAccessToken life_config answering now token1 (life_world store1)) =
      (if now < 3600000 then Inr (life_session id1 ''a'' end1) else Inl (Some sessionExpired))"
    if "1000 \<le> now" "valid_now now" for now
  proof -
    note clock = that
    obtain d grant q where d: "createVnuRefreshAccessDescriptor (ac_cp life_config) ''u'' id1 end1 life_end life_secret (replicate 16 1) = Inr d"
      and l: "linkedRefreshInputs life_config life_secret (with_prop ''vnuRefresh'' d (life_payload ''a'' end1)) grant = Inr (d, Some q)"
      and f: "seals (ac_cp life_config) (DigestKey life_secret) [] (replicate 12 0) (with_prop ''vnuRefresh'' d (life_payload ''a'' end1)) \<longrightarrow>
        fst (resolveOrdinaryAccessToken life_config answering now token1 (life_world store1)) =
          (if now < accessExpiresAt q \<and> now < grantExpiresAt q then Inr (with_prop ''vnuRefresh'' d (life_payload ''a'' end1)) else Inl (Some sessionExpired))"
      using sign_in_session [OF ok life_issued _ life_dates clock] by (auto simp: e life_result_def memory_admission not_less)
    have "d = life_descriptor id1 end1" using d life_parts(2) by simp
    moreover from this have "q = pair1"
      using l life_parts(3) by (auto simp: linkedRefreshInputs_def Let_def sbind_Inr_iff split: if_splits)
    ultimately show ?thesis using f life_seals(1) by (auto simp: pair1_def)
  qed
  have b: "fst (resolveOrdinaryAccessToken bare_config answering now bare_token empty_world) =
      (if expired_value (ac_cp bare_config) (JStr end1) now then Inl (Some sessionExpired) else Inr (life_payload ''a'' end1))"
    if "1000 \<le> now" "valid_now now" for now
    using sign_in_session [OF bare_laws(3,4) ok(3) bare_issued _ bare_laws(1) that]
    by (simp add: sessionTokenPayload_def bare_laws(2) memory_admission token_ended_def)
      (simp add: empty_world_def life_payload_def)
  have "1000 \<le> (2000::int)" "valid_now 2000" "1000 \<le> (3600000::int)" "valid_now 3600000" by (simp_all add: valid_now_def)
  with r [of 2000] r [of 3600000] b [of 2000] b [of 3600000] show ?thesis by (simp add: bare_parts(2,3))
qed

section \<open>Logging out\<close>

lemma life_purpose:
  "decryptVnuRefreshPurposeToken (ac_cp life_config) token1 life_secret = Inr (life_session id1 ''a'' end1)"
proof -
  have "decryptAccessToken (ac_cp life_config) token1 life_secret = Inr (life_session id1 ''a'' end1)"
    by (rule encrypt_session_opens(3) [OF life_parts(4) life_seals(1)])
  then show ?thesis by (simp add: decryptVnuRefreshPurposeToken_def life_descriptor_def)
qed

lemma life_header_token: "parseBearerToken (life_header token1) = Some token1"
  by code_simp

definition empty_object :: "bytes \<Rightarrow> jval option" where
  "empty_object = (\<lambda>_. Some (JObj []))"

lemma life_logged_out:
  "vnu_logout life_config answering empty_object 2000 2001 (life_header token1) some_body (life_world store1)
   = (Inr (), life_world (snd (handle store1 2000 (CRevokeByAccess pair1))))"
proof -
  have c: "authority_call life_config Answered 2000 life_key (Some (CRevokeByAccess pair1)) (life_world store1)
      = (Inr (RRevoke Revoked), life_world (snd (handle store1 2000 (CRevokeByAccess pair1))))"
    using life_call [OF life_handled(4)] life_pairs by (simp del: handle.simps)
  have b: "parseStrictVnuAuthBody empty_object some_body LogoutBody = Inr None" by code_simp
  have k: "getSessionSecret (Some life_secret) = Inr life_secret"
    by (simp add: getSessionSecret_def life_secret_def)
  show ?thesis
    unfolding vnu_logout_def life_header_token
    by (simp add: abind_def of_core_def lift_core_def k life_purpose b vnu_logout_session_def Let_def logout_grant_ok_def
        life_parts(3) revoke_call_def c memory_session(2) ret_def del: handle.simps)
qed

theorem vnu_logout_final_witness:
  "\<forall>s. fst (resolveOrdinaryAccessToken life_config answering 3000 token1
     (snd (vnu_logout life_config answering empty_object 2000 2001 (life_header token1) some_body (life_world store1)))) \<noteq> Inr s"
proof -
  have c: "valid_now 2000" "valid_now 3000" "clocked 2000 ([] :: (int \<times> auth_request) list)" "last_time 2000 ([] :: (int \<times> auth_request) list) \<le> 3000"
    by (simp_all add: valid_now_def)
  have "fst (resolveOrdinaryAccessToken life_config answering 3000 token1
      (run (auth_step life_config) (snd (vnu_logout life_config answering empty_object 2000 2001 (life_header token1) some_body (life_world store1))) [])) \<noteq> Inr s" for s
    using vnu_logout_final [OF life_history_run(1) life_history_run(2) [symmetric] life_logged_out c(1) life_header_token _ life_purpose _ _ c(3,4,2)]
      life_logged_out life_parts(3) by simp
  then show ?thesis by simp
qed

section \<open>Reconnecting\<close>

definition life_pending :: pending_refresh where
  "life_pending = \<lparr>pr_secret = life_secret, pr_session = life_session id1 ''a'' end1, pr_grant = life_grant id1,
     pr_principal = life_key, pr_old = Some pair1\<rparr>"

lemma life_begun:
  "refresh_begin life_config answering (grant_body grant1) 2000 (life_header token1) some_body (life_world store1)
   = (Inr life_pending, life_world store2)"
proof -
  have c: "authority_call life_config Answered 2000 life_key (Some (CBegin pair1)) (life_world store1)
      = (Inr (RBegin (Accepted 122000)), life_world store2)"
    using life_call [OF life_handled(2)] life_pairs by (simp add: store2_def del: handle.simps)
  have i: "refresh_inputs life_config (grant_body grant1) 2000 (life_header token1) some_body
      = Inr (life_secret, life_session id1 ''a'' end1, life_grant id1)" by code_simp
  have l: "linkedRefreshInputs life_config life_secret (life_session id1 ''a'' end1) (life_grant id1)
      = Inr (life_descriptor id1 end1, Some pair1)" by code_simp
  have m: "identity_matches (life_session id1 ''a'' end1) (life_grant id1)" by code_simp
  show ?thesis
    by (simp add: refresh_begin_def abind_def of_core_def lift_core_def i l m c beginResultError_def ret_def life_pending_def)
qed

definition life_imported :: imported_session where
  "life_imported = \<lparr>im_universityId = ''vnu'', im_studentCode = JStr ''7'', im_session = life_payload ''ab'' end2\<rparr>"

definition life_rotation :: rotation where
  "life_rotation = \<lparr>ro_pair = Some pair2, ro_payload = life_session id2 ''ab'' end2, ro_token = token2, ro_grant = grant1,
     ro_session = life_payload ''ab'' end2\<rparr>"

lemma life_prepared:
  "prepare_rotation life_config life_pending (fst (False, False)) (life_random 2) (Inr life_imported) = Inr life_rotation"
  by code_simp

definition life_renewed :: auth_result where
  "life_renewed = \<lparr>res_token = token2, res_grant = Some grant1, res_session = session_metadata (life_payload ''ab'' end2)\<rparr>"

lemma life_completed:
  "refresh_complete life_config answering life_pending (False, False) (life_random 2) (Inr life_imported) 3000 (life_world store2)
   = (Rotated life_renewed, life_world (snd (handle store2 3000 (CComplete pair1 pair2))))"
proof -
  have c: "authority_call life_config Answered 3000 life_key (Some (CComplete pair1 pair2)) (life_world store2)
      = (Inr (RComplete Completed), life_world (snd (handle store2 3000 (CComplete pair1 pair2))))"
    using life_call [OF life_handled(3)] life_pairs by (simp del: handle.simps)
  have f: "completion_call life_pending (ro_pair life_rotation) = Some (CComplete pair1 pair2)" "pr_principal life_pending = life_key"
    "ro_token life_rotation = token2" "ro_grant life_rotation = grant1" "ro_session life_rotation = life_payload ''ab'' end2"
    by (simp_all add: completion_call_def life_pending_def life_rotation_def)
  show ?thesis
    unfolding refresh_complete_def life_prepared
    by (simp add: f c life_renewed_def del: handle.simps)
qed

theorem refresh_rotates_session_witness:
  "\<exists>w3. refresh_complete life_config answering life_pending (False, False) (life_random 2) (Inr life_imported) 3000 (life_world store2)
     = (Rotated life_renewed, w3)
   \<and> fst (resolveOrdinaryAccessToken life_config answering 4000 token2 w3) = Inr (life_session id2 ''ab'' end2)
   \<and> (\<forall>s. fst (resolveOrdinaryAccessToken life_config answering 4000 token1 w3) \<noteq> Inr s)"
proof -
  have c: "valid_now 2000" "valid_now 3000" "valid_now 4000" by (simp_all add: valid_now_def)
  have r: "run_ok (auth_step life_config) auth_ok w []" "w = run (auth_step life_config) w []" "clocked 3000 ([] :: (int \<times> auth_request) list)"
    "last_time 3000 ([] :: (int \<times> auth_request) list) \<le> 4000" for w by simp_all
  have sl: "seals (ac_cp life_config) (DigestKey (pr_secret life_pending)) [] (ar_sessionIv (life_random 2)) (ro_payload life_rotation)"
    using life_seals(2) by (simp add: life_rotation_def)
  from refresh_rotates_session [OF life_history_run(1) life_history_run(2) [symmetric] life_begun c(1) life_header_token r(1,2)
      life_completed c(2) life_prepared sl life_dates r(1,3,4) c(3)]
  have "fst (resolveOrdinaryAccessToken life_config answering 4000 token2 (life_world (snd (handle store2 3000 (CComplete pair1 pair2)))))
      = Inr (life_session id2 ''ab'' end2)
    \<and> fst (resolveOrdinaryAccessToken life_config answering 4000 token1 (life_world (snd (handle store2 3000 (CComplete pair1 pair2))))) \<noteq> Inr s" for s
    by (auto simp: life_pending_def life_rotation_def life_renewed_def pair2_def memory_admission simp del: handle.simps)
  then show ?thesis using life_completed by blast
qed

section \<open>An ordinary session\<close>

definition plain_header :: "string option" where "plain_header = Some (''Bearer '' @ plain_token)"

theorem ordinary_logout_exact_witness:
  "fst (resolveOrdinaryAccessToken life_config answering 1000 plain_token empty_world) = Inr plain_session
   \<and> fst (resolveOrdinaryAccessToken life_config answering 2000 plain_token
       (snd (ordinary_logout life_config answering 1000 plain_header empty_world))) = Inl (Some sessionExpired)
   \<and> fst (resolveOrdinaryAccessToken life_config answering 4200 plain_token
       (snd (ordinary_logout life_config answering 1000 plain_header empty_world))) = Inr plain_session"
proof -
  have k: "getSessionSecret (ac_secret life_config) = Inr life_secret" by (simp add: getSessionSecret_def life_secret_def)
  have d: "decryptSession (ac_cp life_config) plain_token life_secret 1000 = Inr plain_session" by code_simp
  have p: "parsed_date life_config (prop_of ''expiresAt'' plain_session) = Some 4500" by code_simp
  have v: "prop_of ''vnuRefresh'' plain_session = JUndefined" "prop_of ''universityId'' plain_session = JStr ''uet''"
    by (simp_all add: plain_session_def)
  have h: "parseBearerToken plain_header = Some plain_token" by code_simp
  have e: "empty_world\<lparr>aw_cache := Map.empty\<rparr> = empty_world" by (simp add: empty_world_def)
  have r: "resolveOrdinaryAccessToken life_config answering 1000 plain_token empty_world = (Inr plain_session, empty_world)"
    using resolve_memory [OF _ _ k d, of answering] v
    by (simp add: memory_cache(1) abind_def ret_def cache_match_def) (simp add: empty_world_def)
  have "1000 \<le> (2000::int)" "1000 \<le> (4200::int)" by simp_all
  then show ?thesis
    using r ordinary_logout_exact [OF r _ _ h p, of 2000] ordinary_logout_exact [OF r _ _ h p, of 4200] by (simp add: v)
qed

end
