(* ===== verification/AutomationProtocol.thy ===== *)
theory AutomationProtocol
  imports SessionTokens
begin

text \<open>
  \<open>packages/automation-protocol/src/index.ts\<close>: the wire protocol between the worker that
  serves requests and the automation worker that drives a browser. Opaque identifiers, sealed
  envelopes with a key ring of a current and a previous key, the import job, its events, and
  the cursor that accepts a job's events in order. The platform is a parameter: the JSON text
  of a value in UTF-8 with its parser, and AES-GCM.
\<close>

section \<open>Constants and errors\<close>

definition AUTOMATION_PROTOCOL_VERSION :: int where "AUTOMATION_PROTOCOL_VERSION = 1"

definition AUTOMATION_ENVELOPE_ALGORITHM :: string where "AUTOMATION_ENVELOPE_ALGORITHM = ''AES-256-GCM''"

definition OPAQUE_ID_BYTES :: nat where "OPAQUE_ID_BYTES = 16"

definition MAX_AAD_BYTES :: nat where "MAX_AAD_BYTES = 4096"

definition MAX_ENVELOPE_BYTES :: nat where "MAX_ENVELOPE_BYTES = 1048576"

datatype protocol_code =
    INVALID_INPUT | INVALID_KEY | INVALID_KEYRING | UNKNOWN_KEY_ID | INVALID_ENVELOPE | ENVELOPE_EXPIRED
  | INVALID_JOB | JOB_EXPIRED | INVALID_EVENT | EVENT_EXPIRED | EVENT_JOB_MISMATCH | EVENT_ACCOUNT_MISMATCH
  | EVENT_FENCE_MISMATCH | EVENT_SEQUENCE_MISMATCH | EVENT_AFTER_TERMINAL | INVALID_ID | INVALID_AAD
  | SERIALIZATION_ERROR

record protocol_error =
  pe_code :: protocol_code
  pe_message :: string

definition protocolError :: "protocol_code \<Rightarrow> string \<Rightarrow> protocol_error" where
  "protocolError code message = \<lparr>pe_code = code, pe_message = message\<rparr>"

definition invalidEnvelope :: protocol_error where
  "invalidEnvelope = protocolError INVALID_ENVELOPE ''Invalid encrypted automation envelope.''"

definition invalidId :: protocol_error where
  "invalidId = protocolError INVALID_ID ''Invalid opaque identifier.''"

section \<open>Patterns\<close>

text \<open>\<open>/^\d{4}-\d{2}-\d{2}T\d{2}:\d{2}:\d{2}\.\d{3}Z$/\<close>: a digit stands where the picture has a zero.\<close>

definition ISO_DATE_PICTURE :: string where "ISO_DATE_PICTURE = ''0000-00-00T00:00:00.000Z''"

definition ISO_DATE_PATTERN :: "string \<Rightarrow> bool" where
  "ISO_DATE_PATTERN s \<longleftrightarrow>
     list_all2 (\<lambda>p c. if p = CHR ''0'' then c \<in> set digit_chars else c = p) ISO_DATE_PICTURE s"

definition upper_chars :: string where "upper_chars = ''ABCDEFGHIJKLMNOPQRSTUVWXYZ''"

definition alnum_chars :: string where
  "alnum_chars = upper_chars @ ''abcdefghijklmnopqrstuvwxyz'' @ digit_chars"

text \<open>\<open>/^[A-Za-z0-9][A-Za-z0-9._-]{0,63}$/\<close>\<close>

definition KEY_ID_PATTERN :: "string \<Rightarrow> bool" where
  "KEY_ID_PATTERN s \<longleftrightarrow> s \<noteq> [] \<and> length s \<le> 64 \<and> hd s \<in> set alnum_chars \<and>
     list_all (\<lambda>c. c \<in> set (alnum_chars @ ''._-'')) (tl s)"

text \<open>\<open>/^aep1\.[A-Za-z0-9_-]+\.[A-Za-z0-9_-]+$/\<close>\<close>

definition ENVELOPE_PATTERN :: "string \<Rightarrow> bool" where
  "ENVELOPE_PATTERN s \<longleftrightarrow> (case split_on CHR ''.'' s of
     [p0, p1, p2] \<Rightarrow> p0 = ''aep1'' \<and> BASE64URL p1 \<and> BASE64URL p2
   | _ \<Rightarrow> False)"

text \<open>\<open>/^[A-Z][A-Z0-9_.-]{1,63}$/\<close>\<close>

definition FAILURE_CODE_PATTERN :: "string \<Rightarrow> bool" where
  "FAILURE_CODE_PATTERN s \<longleftrightarrow> 2 \<le> length s \<and> length s \<le> 64 \<and> hd s \<in> set upper_chars \<and>
     list_all (\<lambda>c. c \<in> set (upper_chars @ digit_chars @ ''_.-'')) (tl s)"

section \<open>Bytes, dates and identifiers\<close>

text \<open>\<open>TextEncoder.encode\<close> on the characters of the model, which are Latin-1.\<close>

definition utf8_char :: "char \<Rightarrow> bytes" where
  "utf8_char c = (let n = (of_char c :: nat) in
     if n < 128 then [of_nat n] else [of_nat (192 + n div 64), of_nat (128 + n mod 64)])"

definition utf8 :: "string \<Rightarrow> bytes" where
  "utf8 s = concat (map utf8_char s)"

definition bytesFromRandomSource :: "bytes \<Rightarrow> nat \<Rightarrow> protocol_error + bytes" where
  "bytesFromRandomSource source n = (if length source \<noteq> n
     then Inl (protocolError INVALID_INPUT (''Random source must provide exactly '' @ nat_string (int n) @ '' bytes.''))
     else Inr source)"

text \<open>The decoder of this package accepts the canonical spelling only.\<close>

definition decodeBase64Url :: "string \<Rightarrow> protocol_error + bytes" where
  "decodeBase64Url s = (case canonical_bytes s of
     None \<Rightarrow> Inl (protocolError INVALID_ENVELOPE ''Invalid base64url data.'')
   | Some bs \<Rightarrow> Inr bs)"

text \<open>The time of a canonical date: the pattern and \<open>new Date(Date.parse(s)).toISOString() === s\<close>.\<close>

fun canonicalIsoDate :: "jval \<Rightarrow> int option" where
  "canonicalIsoDate (JStr s) = (if ISO_DATE_PATTERN s then canonicalTime s else None)"
| "canonicalIsoDate _ = None"

definition assertCanonicalIsoDate :: "string \<Rightarrow> string \<Rightarrow> protocol_error + int" where
  "assertCanonicalIsoDate s name = (case canonicalIsoDate (JStr s) of
     None \<Rightarrow> Inl (protocolError INVALID_INPUT (name @ '' must be a canonical ISO-8601 timestamp.''))
   | Some t \<Rightarrow> Inr t)"

definition assertTimeWindow :: "string \<Rightarrow> string \<Rightarrow> protocol_error + unit" where
  "assertTimeWindow issuedAt expiresAt =
     sbind (assertCanonicalIsoDate issuedAt ''issuedAt'') (\<lambda>i.
     sbind (assertCanonicalIsoDate expiresAt ''expiresAt'') (\<lambda>e.
     if e \<le> i then Inl (protocolError INVALID_INPUT ''expiresAt must be later than issuedAt.'') else Inr ()))"

definition assertNotExpired :: "string \<Rightarrow> int \<Rightarrow> protocol_code \<Rightarrow> protocol_error + unit" where
  "assertNotExpired expiresAt now code =
     sbind (assertCanonicalIsoDate expiresAt ''expiresAt'') (\<lambda>e.
     if e \<le> now then Inl (protocolError code ''The automation protocol value has expired.'') else Inr ())"

definition opaqueIdSchema :: "jval \<Rightarrow> bool" where
  "opaqueIdSchema v \<longleftrightarrow> matches (\<lambda>s. token22 s \<and>
     (case decodeBase64Url s of Inl e \<Rightarrow> False | Inr bs \<Rightarrow> length bs = OPAQUE_ID_BYTES)) v"

definition assertOpaqueId :: "jval \<Rightarrow> protocol_error + unit" where
  "assertOpaqueId v = (if \<not> matches token22 v then Inl invalidId
     else sbind (decodeBase64Url (text_of_value v)) (\<lambda>bs.
       if length bs \<noteq> OPAQUE_ID_BYTES then Inl invalidId else Inr ()))"

definition isOpaqueId :: "jval \<Rightarrow> bool" where
  "isOpaqueId v \<longleftrightarrow> (case assertOpaqueId v of Inl e \<Rightarrow> False | Inr u \<Rightarrow> True)"

definition createOpaqueId :: "bytes \<Rightarrow> protocol_error + string" where
  "createOpaqueId source = sbind (bytesFromRandomSource source OPAQUE_ID_BYTES) (\<lambda>bs. Inr (toBase64Url bs))"

section \<open>Keys\<close>

text \<open>
  Key material is 32 raw bytes or a \<open>CryptoKey\<close>: its algorithm, its length when the algorithm
  tells one, its usages, and the key the platform holds for it.
\<close>

datatype key_material =
    RawMaterial bytes
  | CryptoMaterial string "int option" "string list" bytes

record automation_key =
  ak_id :: string
  ak_material :: key_material

record keyring =
  kr_current :: "automation_key option"
  kr_previous :: "automation_key option"

definition assertKeyId :: "string \<Rightarrow> protocol_error + unit" where
  "assertKeyId s = (if KEY_ID_PATTERN s then Inr () else Inl (protocolError INVALID_KEYRING ''Invalid automation key ID.''))"

fun assertKeyMaterial :: "key_material \<Rightarrow> protocol_error + unit" where
  "assertKeyMaterial (RawMaterial bs) = (if length bs \<noteq> 32
     then Inl (protocolError INVALID_KEY ''Automation AES-GCM keys must contain exactly 32 bytes.'') else Inr ())"
| "assertKeyMaterial (CryptoMaterial name bits usages k) = (if name \<noteq> ''AES-GCM'' \<or> (bits \<noteq> None \<and> bits \<noteq> Some 256)
     then Inl (protocolError INVALID_KEY ''Automation keys must be AES-256-GCM keys.'') else Inr ())"

definition assertKey :: "automation_key \<Rightarrow> protocol_error + unit" where
  "assertKey k = sbind (assertKeyId (ak_id k)) (\<lambda>u. assertKeyMaterial (ak_material k))"

definition assertKeyring :: "keyring \<Rightarrow> protocol_error + automation_key" where
  "assertKeyring kr = (case kr_current kr of
     None \<Rightarrow> Inl (protocolError INVALID_KEYRING ''A current automation key is required.'')
   | Some current \<Rightarrow> sbind (assertKey current) (\<lambda>u. case kr_previous kr of
       None \<Rightarrow> Inr current
     | Some previous \<Rightarrow> sbind (assertKey previous) (\<lambda>u.
         if ak_id previous = ak_id current
         then Inl (protocolError INVALID_KEYRING ''Current and previous automation key IDs must differ.'')
         else Inr current)))"

fun importAesKey :: "key_material \<Rightarrow> string \<Rightarrow> protocol_error + bytes" where
  "importAesKey (RawMaterial bs) usage = sbind (assertKeyMaterial (RawMaterial bs)) (\<lambda>u. Inr bs)"
| "importAesKey (CryptoMaterial name bits usages k) usage =
     sbind (assertKeyMaterial (CryptoMaterial name bits usages k)) (\<lambda>u.
     if usage \<in> set usages then Inr k
     else Inl (protocolError INVALID_KEY ''Automation key does not permit the requested operation.''))"

section \<open>Envelopes\<close>

record automation_platform =
  ap_json :: "jval \<Rightarrow> bytes"
  ap_parse :: "bytes \<Rightarrow> jval option"
  ap_encrypt :: "bytes \<Rightarrow> bytes \<Rightarrow> bytes \<Rightarrow> bytes \<Rightarrow> bytes"
  ap_decrypt :: "bytes \<Rightarrow> bytes \<Rightarrow> bytes \<Rightarrow> bytes \<Rightarrow> bytes option"

datatype envelope_aad = TextAad string | BytesAad bytes

record envelope_header =
  eh_keyId :: string
  eh_nonce :: string
  eh_issuedAt :: string
  eh_expiresAt :: string

definition header_value :: "envelope_header \<Rightarrow> jval" where
  "header_value h = JObj [(''version'', JInt AUTOMATION_PROTOCOL_VERSION),
     (''algorithm'', JStr AUTOMATION_ENVELOPE_ALGORITHM), (''keyId'', JStr (eh_keyId h)),
     (''nonce'', JStr (eh_nonce h)), (''issuedAt'', JStr (eh_issuedAt h)), (''expiresAt'', JStr (eh_expiresAt h))]"

definition HEADER_KEYS :: "string list" where
  "HEADER_KEYS = [''version'', ''algorithm'', ''keyId'', ''nonce'', ''issuedAt'', ''expiresAt'']"

definition aadBytes :: "envelope_aad \<Rightarrow> protocol_error + bytes" where
  "aadBytes aad = (let bs = (case aad of TextAad s \<Rightarrow> utf8 s | BytesAad b \<Rightarrow> b) in
     if bs = [] \<or> MAX_AAD_BYTES < length bs
     then Inl (protocolError INVALID_AAD ''AAD must be non-empty and at most 4096 bytes.'') else Inr bs)"

definition authenticatedData :: "automation_platform \<Rightarrow> envelope_header \<Rightarrow> envelope_aad \<Rightarrow> protocol_error + bytes" where
  "authenticatedData ap h aad = sbind (aadBytes aad) (\<lambda>context.
     Inr (utf8 ''hyeboard:automation-envelope:v1'' @ [10] @ ap_json ap (header_value h) @ [0] @ context))"

definition serializeJson :: "automation_platform \<Rightarrow> jval \<Rightarrow> protocol_error + bytes" where
  "serializeJson ap v =
    (if v = JUndefined then Inl (protocolError SERIALIZATION_ERROR ''Envelope payload must be JSON serializable.'')
     else if MAX_ENVELOPE_BYTES < length (ap_json ap v)
     then Inl (protocolError SERIALIZATION_ERROR ''Envelope payload is too large.'')
     else Inr (ap_json ap v))"

text \<open>\<open>envelopeHeaderSchema\<close>: the strict object with its patterns, \<open>/^[A-Za-z0-9_-]{16}$/\<close> for the nonce.\<close>

definition NONCE_PATTERN :: "string \<Rightarrow> bool" where
  "NONCE_PATTERN s \<longleftrightarrow> length s = 16 \<and> BASE64URL s"

definition header_schema :: "jval \<Rightarrow> bool" where
  "header_schema v \<longleftrightarrow> hasExactKeys v HEADER_KEYS HEADER_KEYS \<and>
     prop_of ''version'' v = JInt 1 \<and> prop_of ''algorithm'' v = JStr AUTOMATION_ENVELOPE_ALGORITHM \<and>
     matches KEY_ID_PATTERN (prop_of ''keyId'' v) \<and> matches NONCE_PATTERN (prop_of ''nonce'' v) \<and>
     matches ISO_DATE_PATTERN (prop_of ''issuedAt'' v) \<and> matches ISO_DATE_PATTERN (prop_of ''expiresAt'' v)"

definition parsed_header :: "jval \<Rightarrow> envelope_header" where
  "parsed_header v = \<lparr>eh_keyId = text_of_value (prop_of ''keyId'' v), eh_nonce = text_of_value (prop_of ''nonce'' v),
     eh_issuedAt = text_of_value (prop_of ''issuedAt'' v), eh_expiresAt = text_of_value (prop_of ''expiresAt'' v)\<rparr>"

definition parseHeader :: "jval \<Rightarrow> protocol_error + envelope_header" where
  "parseHeader v =
    (if \<not> header_schema v then Inl invalidEnvelope
     else (case (canonicalIsoDate (prop_of ''issuedAt'' v), canonicalIsoDate (prop_of ''expiresAt'' v)) of
         (Some i, Some e) \<Rightarrow> if e \<le> i then Inl invalidEnvelope
           else sbind (decodeBase64Url (text_of_value (prop_of ''nonce'' v))) (\<lambda>nonce.
             if length nonce \<noteq> 12 then Inl invalidEnvelope else Inr (parsed_header v))
       | _ \<Rightarrow> Inl invalidEnvelope))"

definition encodeEnvelope :: "automation_platform \<Rightarrow> envelope_header \<Rightarrow> bytes \<Rightarrow> string" where
  "encodeEnvelope ap h ciphertext =
     ''aep1.'' @ toBase64Url (ap_json ap (header_value h)) @ ''.'' @ toBase64Url ciphertext"

definition decodeEnvelope :: "automation_platform \<Rightarrow> string \<Rightarrow> protocol_error + envelope_header \<times> bytes" where
  "decodeEnvelope ap token =
    (if MAX_ENVELOPE_BYTES * 2 < length token then Inl invalidEnvelope
     else (case split_on CHR ''.'' token of
       [p0, p1, p2] \<Rightarrow>
         if p0 \<noteq> ''aep1'' then Inl invalidEnvelope
         else (case Option.bind (canonical_bytes p1) (ap_parse ap) of
           None \<Rightarrow> Inl invalidEnvelope
         | Some value \<Rightarrow> sbind (parseHeader value) (\<lambda>h. sbind (decodeBase64Url p2) (\<lambda>ciphertext.
             if length ciphertext < 17 then Inl invalidEnvelope else Inr (h, ciphertext))))
     | _ \<Rightarrow> Inl invalidEnvelope))"

definition findKey :: "keyring \<Rightarrow> string \<Rightarrow> protocol_error + automation_key \<times> bool" where
  "findKey kr key_id = (case (kr_current kr, kr_previous kr) of
     (Some current, previous) \<Rightarrow> if ak_id current = key_id then Inr (current, False)
       else (case previous of
           Some k \<Rightarrow> if ak_id k = key_id then Inr (k, True)
             else Inl (protocolError UNKNOWN_KEY_ID ''The automation envelope key ID is not available.'')
         | None \<Rightarrow> Inl (protocolError UNKNOWN_KEY_ID ''The automation envelope key ID is not available.''))
   | (None, previous) \<Rightarrow> Inl (protocolError UNKNOWN_KEY_ID ''The automation envelope key ID is not available.''))"

text \<open>The issue time is the caller's, or the clock's when the caller gives none.\<close>

definition encryptEnvelope ::
  "automation_platform \<Rightarrow> jval \<Rightarrow> keyring \<Rightarrow> envelope_aad \<Rightarrow> string \<Rightarrow> string \<Rightarrow> bytes \<Rightarrow> protocol_error + string" where
  "encryptEnvelope ap payload kr aad issuedAt expiresAt random =
     sbind (assertKeyring kr) (\<lambda>current.
     sbind (assertTimeWindow issuedAt expiresAt) (\<lambda>u.
     sbind (bytesFromRandomSource random 12) (\<lambda>nonce.
     let h = \<lparr>eh_keyId = ak_id current, eh_nonce = toBase64Url nonce, eh_issuedAt = issuedAt, eh_expiresAt = expiresAt\<rparr> in
     sbind (importAesKey (ak_material current) ''encrypt'') (\<lambda>key.
     sbind (authenticatedData ap h aad) (\<lambda>data.
     sbind (serializeJson ap payload) (\<lambda>plain.
     Inr (encodeEnvelope ap h (ap_encrypt ap key nonce data plain))))))))"

record opened_envelope =
  oe_payload :: jval
  oe_header :: envelope_header
  oe_ciphertext :: string
  oe_keyId :: string
  oe_rotated :: bool

definition openEnvelope ::
  "automation_platform \<Rightarrow> string \<Rightarrow> keyring \<Rightarrow> envelope_aad \<Rightarrow> int \<Rightarrow> protocol_error + opened_envelope" where
  "openEnvelope ap token kr aad now =
     sbind (assertKeyring kr) (\<lambda>current.
     sbind (decodeEnvelope ap token) (\<lambda>(h, ciphertext).
     sbind (assertNotExpired (eh_expiresAt h) now ENVELOPE_EXPIRED) (\<lambda>u.
     sbind (findKey kr (eh_keyId h)) (\<lambda>(selected, rotated).
     sbind (importAesKey (ak_material selected) ''decrypt'') (\<lambda>key.
     sbind (decodeBase64Url (eh_nonce h)) (\<lambda>nonce.
     sbind (authenticatedData ap h aad) (\<lambda>data.
     case Option.bind (ap_decrypt ap key nonce data ciphertext) (ap_parse ap) of
       None \<Rightarrow> Inl invalidEnvelope
     | Some payload \<Rightarrow> Inr \<lparr>oe_payload = payload, oe_header = h, oe_ciphertext = toBase64Url ciphertext,
         oe_keyId = eh_keyId h, oe_rotated = rotated\<rparr>)))))))"

definition decryptEnvelope ::
  "automation_platform \<Rightarrow> string \<Rightarrow> keyring \<Rightarrow> envelope_aad \<Rightarrow> int \<Rightarrow> protocol_error + jval" where
  "decryptEnvelope ap token kr aad now = sbind (openEnvelope ap token kr aad now) (\<lambda>opened. Inr (oe_payload opened))"

section \<open>Import jobs\<close>

fun safe_number :: "int \<Rightarrow> jval \<Rightarrow> bool" where
  "safe_number least (JInt n) = (least \<le> n \<and> safe_integer n)"
| "safe_number least _ = False"

fun int_of_value :: "jval \<Rightarrow> int" where
  "int_of_value (JInt n) = n"
| "int_of_value _ = 0"

definition canonicalDateSchema :: "jval \<Rightarrow> bool" where
  "canonicalDateSchema v \<longleftrightarrow> canonicalIsoDate v \<noteq> None"

definition envelopeReferenceSchema :: "jval \<Rightarrow> bool" where
  "envelopeReferenceSchema v \<longleftrightarrow> matches (\<lambda>s. ENVELOPE_PATTERN s \<and> length s \<le> MAX_ENVELOPE_BYTES * 2) v"

definition sized_text :: "nat \<Rightarrow> jval \<Rightarrow> bool" where
  "sized_text n v \<longleftrightarrow> matches (\<lambda>s. s \<noteq> [] \<and> length s \<le> n) v"

definition JOB_KEYS :: "string list" where
  "JOB_KEYS = [''version'', ''type'', ''jobId'', ''accountId'', ''fence'', ''issuedAt'', ''expiresAt'', ''credentialEnvelope'']"

record uet_job =
  uj_jobId :: string
  uj_accountId :: string
  uj_fence :: int
  uj_issuedAt :: string
  uj_expiresAt :: string
  uj_credentialEnvelope :: string
  uj_expectedStudentCode :: "string option"

definition uetImportJobSchema :: "jval \<Rightarrow> bool" where
  "uetImportJobSchema v \<longleftrightarrow> (let p = (\<lambda>k. prop_of k v) in
     hasExactKeys v (''expectedStudentCode'' # JOB_KEYS) JOB_KEYS \<and>
     p ''version'' = JInt 1 \<and> p ''type'' = JStr ''uet-import'' \<and>
     opaqueIdSchema (p ''jobId'') \<and> opaqueIdSchema (p ''accountId'') \<and> safe_number 1 (p ''fence'') \<and>
     canonicalDateSchema (p ''issuedAt'') \<and> canonicalDateSchema (p ''expiresAt'') \<and>
     envelopeReferenceSchema (p ''credentialEnvelope'') \<and>
     absent_or (sized_text 128) (p ''expectedStudentCode''))"

fun text_option :: "jval \<Rightarrow> string option" where
  "text_option (JStr s) = Some s"
| "text_option _ = None"

definition job_of :: "jval \<Rightarrow> uet_job" where
  "job_of v = \<lparr>uj_jobId = text_of_value (prop_of ''jobId'' v), uj_accountId = text_of_value (prop_of ''accountId'' v),
     uj_fence = int_of_value (prop_of ''fence'' v), uj_issuedAt = text_of_value (prop_of ''issuedAt'' v),
     uj_expiresAt = text_of_value (prop_of ''expiresAt'' v),
     uj_credentialEnvelope = text_of_value (prop_of ''credentialEnvelope'' v),
     uj_expectedStudentCode = text_option (prop_of ''expectedStudentCode'' v)\<rparr>"

definition assertUetImportJob :: "jval \<Rightarrow> protocol_error + uet_job" where
  "assertUetImportJob v =
    (if \<not> uetImportJobSchema v then Inl (protocolError INVALID_JOB ''Invalid UET import job.'')
     else sbind (assertOpaqueId (prop_of ''jobId'' v)) (\<lambda>u.
       sbind (assertOpaqueId (prop_of ''accountId'' v)) (\<lambda>u.
       sbind (assertTimeWindow (uj_issuedAt (job_of v)) (uj_expiresAt (job_of v))) (\<lambda>u. Inr (job_of v)))))"

definition parseUetImportJob :: "jval \<Rightarrow> int \<Rightarrow> protocol_error + uet_job" where
  "parseUetImportJob v now = sbind (assertUetImportJob v) (\<lambda>job.
     sbind (assertNotExpired (uj_expiresAt job) now JOB_EXPIRED) (\<lambda>u. Inr job))"

definition job_value :: "uet_job \<Rightarrow> jval" where
  "job_value job = JObj ([(''version'', JInt 1), (''type'', JStr ''uet-import''), (''jobId'', JStr (uj_jobId job)),
     (''accountId'', JStr (uj_accountId job)), (''fence'', JInt (uj_fence job)), (''issuedAt'', JStr (uj_issuedAt job)),
     (''expiresAt'', JStr (uj_expiresAt job)), (''credentialEnvelope'', JStr (uj_credentialEnvelope job))] @
     (case uj_expectedStudentCode job of None \<Rightarrow> [] | Some s \<Rightarrow> [(''expectedStudentCode'', JStr s)]))"

definition createUetImportJob :: "uet_job \<Rightarrow> protocol_error + jval" where
  "createUetImportJob input = sbind (assertUetImportJob (job_value input)) (\<lambda>job. Inr (job_value input))"

section \<open>Events\<close>

datatype event_body =
    Started
  | Progress string int
  | ChallengeRequired string string
  | Heartbeat
  | Succeeded "string option"
  | Failed string bool
  | Cancelled string

record automation_event =
  ev_jobId :: string
  ev_accountId :: string
  ev_fence :: int
  ev_sequence :: int
  ev_emittedAt :: string
  ev_expiresAt :: string
  ev_body :: event_body

definition PHASES :: "string list" where
  "PHASES = [''queue'', ''login'', ''captcha'', ''import'', ''finalize'']"

definition CANCEL_REASONS :: "string list" where
  "CANCEL_REASONS = [''requested'', ''expired'', ''superseded'', ''shutdown'']"

definition EVENT_BASE_KEYS :: "string list" where
  "EVENT_BASE_KEYS = [''version'', ''jobId'', ''accountId'', ''fence'', ''sequence'', ''emittedAt'', ''expiresAt'', ''type'']"

definition eventBase :: "jval \<Rightarrow> bool" where
  "eventBase v \<longleftrightarrow> (let p = (\<lambda>k. prop_of k v) in
     p ''version'' = JInt 1 \<and> opaqueIdSchema (p ''jobId'') \<and> opaqueIdSchema (p ''accountId'') \<and>
     safe_number 1 (p ''fence'') \<and> safe_number 0 (p ''sequence'') \<and>
     canonicalDateSchema (p ''emittedAt'') \<and> canonicalDateSchema (p ''expiresAt''))"

text \<open>The keys of a variant besides the base, those it requires, and its fields.\<close>

definition exact_event :: "jval \<Rightarrow> string list \<Rightarrow> string list \<Rightarrow> bool" where
  "exact_event v allowed required = hasExactKeys v (EVENT_BASE_KEYS @ allowed) (EVENT_BASE_KEYS @ required)"

fun bool_of_value :: "jval \<Rightarrow> bool" where
  "bool_of_value (JBool b) = b"
| "bool_of_value _ = False"

definition event_body_of :: "jval \<Rightarrow> event_body option" where
  "event_body_of v = (let p = (\<lambda>k. prop_of k v); kind = text_option (p ''type'') in
     if kind = Some ''started'' then (if exact_event v [] [] then Some Started else None)
     else if kind = Some ''progress'' then
       (if exact_event v [''phase'', ''percent''] [''phase'', ''percent''] \<and>
           matches (\<lambda>s. s \<in> set PHASES) (p ''phase'') \<and>
           safe_number 0 (p ''percent'') \<and> int_of_value (p ''percent'') \<le> 100
        then Some (Progress (text_of_value (p ''phase'')) (int_of_value (p ''percent''))) else None)
     else if kind = Some ''challenge-required'' then
       (if exact_event v [''challengeId'', ''image''] [''challengeId'', ''image''] \<and>
           opaqueIdSchema (p ''challengeId'') \<and> sized_text 350000 (p ''image'')
        then Some (ChallengeRequired (text_of_value (p ''challengeId'')) (text_of_value (p ''image''))) else None)
     else if kind = Some ''heartbeat'' then (if exact_event v [] [] then Some Heartbeat else None)
     else if kind = Some ''succeeded'' then
       (if exact_event v [''resultEnvelope''] [] \<and> absent_or envelopeReferenceSchema (p ''resultEnvelope'')
        then Some (Succeeded (text_option (p ''resultEnvelope''))) else None)
     else if kind = Some ''failed'' then
       (if exact_event v [''code'', ''retryable''] [''code'', ''retryable''] \<and>
           matches FAILURE_CODE_PATTERN (p ''code'') \<and> is_bool (p ''retryable'')
        then Some (Failed (text_of_value (p ''code'')) (bool_of_value (p ''retryable''))) else None)
     else if kind = Some ''cancelled'' then
       (if exact_event v [''reason''] [''reason''] \<and> matches (\<lambda>s. s \<in> set CANCEL_REASONS) (p ''reason'')
        then Some (Cancelled (text_of_value (p ''reason''))) else None)
     else None)"

definition event_of :: "jval \<Rightarrow> event_body \<Rightarrow> automation_event" where
  "event_of v body = \<lparr>ev_jobId = text_of_value (prop_of ''jobId'' v), ev_accountId = text_of_value (prop_of ''accountId'' v),
     ev_fence = int_of_value (prop_of ''fence'' v), ev_sequence = int_of_value (prop_of ''sequence'' v),
     ev_emittedAt = text_of_value (prop_of ''emittedAt'' v), ev_expiresAt = text_of_value (prop_of ''expiresAt'' v),
     ev_body = body\<rparr>"

text \<open>The schema holds a second check of each identifier, which cannot fail after the first.\<close>

definition assertAutomationEvent :: "jval \<Rightarrow> protocol_error + automation_event" where
  "assertAutomationEvent v = (case (eventBase v, event_body_of v) of
     (True, Some body) \<Rightarrow>
       sbind (assertOpaqueId (prop_of ''jobId'' v)) (\<lambda>u.
       sbind (assertOpaqueId (prop_of ''accountId'' v)) (\<lambda>u.
       sbind (case body of ChallengeRequired c i \<Rightarrow> assertOpaqueId (prop_of ''challengeId'' v) | _ \<Rightarrow> Inr ()) (\<lambda>u.
       sbind (assertTimeWindow (ev_emittedAt (event_of v body)) (ev_expiresAt (event_of v body))) (\<lambda>u.
       Inr (event_of v body)))))
   | _ \<Rightarrow> Inl (protocolError INVALID_EVENT ''Invalid automation event.''))"

definition parseAutomationEvent :: "jval \<Rightarrow> int \<Rightarrow> protocol_error + automation_event" where
  "parseAutomationEvent v now = sbind (assertAutomationEvent v) (\<lambda>e.
     sbind (assertNotExpired (ev_expiresAt e) now EVENT_EXPIRED) (\<lambda>u. Inr e))"

fun event_kind :: "event_body \<Rightarrow> string" where
  "event_kind Started = ''started''"
| "event_kind (Progress ph n) = ''progress''"
| "event_kind (ChallengeRequired c i) = ''challenge-required''"
| "event_kind Heartbeat = ''heartbeat''"
| "event_kind (Succeeded r) = ''succeeded''"
| "event_kind (Failed c r) = ''failed''"
| "event_kind (Cancelled r) = ''cancelled''"

fun event_fields :: "event_body \<Rightarrow> (string \<times> jval) list" where
  "event_fields Started = []"
| "event_fields (Progress ph n) = [(''phase'', JStr ph), (''percent'', JInt n)]"
| "event_fields (ChallengeRequired c i) = [(''challengeId'', JStr c), (''image'', JStr i)]"
| "event_fields Heartbeat = []"
| "event_fields (Succeeded r) = (case r of None \<Rightarrow> [] | Some s \<Rightarrow> [(''resultEnvelope'', JStr s)])"
| "event_fields (Failed c r) = [(''code'', JStr c), (''retryable'', JBool r)]"
| "event_fields (Cancelled r) = [(''reason'', JStr r)]"

text \<open>The object of an event as its writer builds it.\<close>

definition event_value :: "automation_event \<Rightarrow> jval" where
  "event_value e = JObj ([(''version'', JInt 1), (''type'', JStr (event_kind (ev_body e))), (''jobId'', JStr (ev_jobId e)),
     (''accountId'', JStr (ev_accountId e)), (''fence'', JInt (ev_fence e)), (''sequence'', JInt (ev_sequence e)),
     (''emittedAt'', JStr (ev_emittedAt e)), (''expiresAt'', JStr (ev_expiresAt e))] @ event_fields (ev_body e))"

section \<open>The cursor of a job's events\<close>

record event_cursor =
  ec_jobId :: string
  ec_accountId :: string
  ec_fence :: int
  ec_lastSequence :: int
  ec_terminal :: bool

definition createEventCursor :: "uet_job \<Rightarrow> int \<Rightarrow> protocol_error + event_cursor" where
  "createEventCursor job initialSequence =
     sbind (assertOpaqueId (JStr (uj_jobId job))) (\<lambda>u.
     sbind (assertOpaqueId (JStr (uj_accountId job))) (\<lambda>u.
     if \<not> safe_integer initialSequence \<or> initialSequence < - 1
     then Inl (protocolError INVALID_INPUT ''Initial event sequence must be -1 or a safe integer.'')
     else if \<not> safe_integer (uj_fence job) \<or> uj_fence job < 1
     then Inl (protocolError INVALID_INPUT ''Event fence must be a positive safe integer.'')
     else Inr \<lparr>ec_jobId = uj_jobId job, ec_accountId = uj_accountId job, ec_fence = uj_fence job,
       ec_lastSequence = initialSequence, ec_terminal = False\<rparr>))"

fun isTerminalEvent :: "event_body \<Rightarrow> bool" where
  "isTerminalEvent (Succeeded r) = True"
| "isTerminalEvent (Failed c r) = True"
| "isTerminalEvent (Cancelled r) = True"
| "isTerminalEvent _ = False"

definition validateNextAutomationEvent :: "jval \<Rightarrow> event_cursor \<Rightarrow> int \<Rightarrow> protocol_error + event_cursor" where
  "validateNextAutomationEvent v cursor now = sbind (parseAutomationEvent v now) (\<lambda>e.
     if ev_jobId e \<noteq> ec_jobId cursor
     then Inl (protocolError EVENT_JOB_MISMATCH ''Automation event belongs to a different job.'')
     else if ev_accountId e \<noteq> ec_accountId cursor
     then Inl (protocolError EVENT_ACCOUNT_MISMATCH ''Automation event belongs to a different account.'')
     else if ev_fence e \<noteq> ec_fence cursor
     then Inl (protocolError EVENT_FENCE_MISMATCH ''Automation event has a stale fence.'')
     else if ec_terminal cursor
     then Inl (protocolError EVENT_AFTER_TERMINAL ''Automation events cannot follow a terminal event.'')
     else if ev_sequence e \<noteq> ec_lastSequence cursor + 1
     then Inl (protocolError EVENT_SEQUENCE_MISMATCH ''Automation event sequence is not contiguous.'')
     else Inr (cursor\<lparr>ec_lastSequence := ev_sequence e, ec_terminal := isTerminalEvent (ev_body e)\<rparr>))"

fun validateAutomationEventSequence :: "jval list \<Rightarrow> event_cursor \<Rightarrow> int \<Rightarrow> protocol_error + event_cursor" where
  "validateAutomationEventSequence [] cursor now = Inr cursor"
| "validateAutomationEventSequence (v # vs) cursor now =
     sbind (validateNextAutomationEvent v cursor now) (\<lambda>cursor'. validateAutomationEventSequence vs cursor' now)"

end
