(* ===== verification/AutomationRedact.thy ===== *)
theory AutomationRedact
  imports AutomationProtocol
begin

text \<open>
  Redaction of values for the log, \<open>redactSecrets\<close> and \<open>redactError\<close> of
  \<open>packages/automation-protocol/src/index.ts\<close>. The function keeps a set of the objects it is
  inside, by identity, so that values live in an explicit store here: a value is a primitive or
  an address, and an address holds an array or an object. References may be shared and cyclic.
\<close>

section \<open>Values with identity\<close>

datatype hval = HUndefined | HNull | HBool bool | HInt int | HNonInt | HStr string | HRef nat

datatype hobj = HArr "hval list" | HObj "(string \<times> hval) list"

type_synonym heap = "(nat \<times> hobj) list"

section \<open>Which keys are sensitive\<close>

fun contains :: "string \<Rightarrow> string \<Rightarrow> bool" where
  "contains p [] = (p = [])"
| "contains p (c # s) = (starts_with p (c # s) \<or> contains p s)"

text \<open>The alternative \<open>captcha.?answer\<close> of the pattern contains \<open>answer\<close>, which is one too.\<close>

definition SENSITIVE_WORDS :: "string list" where
  "SENSITIVE_WORDS = [''password'', ''passphrase'', ''secret'', ''token'', ''cookie'', ''authorization'', ''bearer'',
     ''credential'', ''csrf'', ''answer'', ''ciphertext'', ''image'']"

definition SENSITIVE_KEY_PATTERN :: "string \<Rightarrow> bool" where
  "SENSITIVE_KEY_PATTERN k \<longleftrightarrow> list_ex (\<lambda>w. contains w (js_lower k)) SENSITIVE_WORDS"

definition SECRET_KINDS :: "string list" where
  "SECRET_KINDS = [''bearer'', ''cookie'', ''manual'']"

definition shouldRedactKey :: "string \<Rightarrow> string option \<Rightarrow> bool" where
  "shouldRedactKey key kind \<longleftrightarrow> SENSITIVE_KEY_PATTERN key \<or>
     (key = ''value'' \<and> (case kind of None \<Rightarrow> False | Some s \<Rightarrow> s \<in> set SECRET_KINDS))"

fun prim_text :: "hval option \<Rightarrow> string option" where
  "prim_text (Some (HStr s)) = Some s"
| "prim_text _ = None"

fun prim_value :: "hval \<Rightarrow> jval" where
  "prim_value HUndefined = JUndefined"
| "prim_value HNull = JNull"
| "prim_value (HBool b) = JBool b"
| "prim_value (HInt n) = JInt n"
| "prim_value HNonInt = JNonInt"
| "prim_value (HStr s) = JStr s"
| "prim_value (HRef a) = JUndefined"

section \<open>Visiting\<close>

definition REDACTED :: jval where "REDACTED = JStr ''[REDACTED]''"

definition CIRCULAR :: jval where "CIRCULAR = JStr ''[Circular]''"

text \<open>
  Each step into an array or object costs one unit of fuel. An object leaves the set of seen
  objects when it has been visited; an array, whose branch returns early, stays in it.
\<close>

fun thread :: "('a \<Rightarrow> 's \<Rightarrow> 'b \<times> 's) \<Rightarrow> 'a list \<Rightarrow> 's \<Rightarrow> 'b list \<times> 's" where
  "thread f [] s = ([], s)"
| "thread f (x # xs) s = (let (y, s') = f x s; (ys, s'') = thread f xs s' in (y # ys, s''))"

definition visit_entry ::
  "(hval \<Rightarrow> nat list \<Rightarrow> jval \<times> nat list) \<Rightarrow> string option \<Rightarrow> string \<times> hval \<Rightarrow> nat list \<Rightarrow> (string \<times> jval) \<times> nat list" where
  "visit_entry child kind kv seen =
    (if shouldRedactKey (fst kv) kind then ((fst kv, REDACTED), seen)
     else ((fst kv, fst (child (snd kv) seen)), snd (child (snd kv) seen)))"

primrec visit :: "nat \<Rightarrow> heap \<Rightarrow> hval \<Rightarrow> nat list \<Rightarrow> jval \<times> nat list" where
  "visit 0 heap v seen = (JUndefined, seen)"
| "visit (Suc n) heap v seen = (case v of
     HRef a \<Rightarrow>
      (if a \<in> set seen then (CIRCULAR, seen)
       else (case map_of heap a of
         None \<Rightarrow> (JUndefined, seen)
       | Some (HArr items) \<Rightarrow> (let (out, seen') = thread (visit n heap) items (a # seen) in (JArr out, seen'))
       | Some (HObj kvs) \<Rightarrow>
          (let (out, seen') = thread (visit_entry (visit n heap) (prim_text (map_of kvs ''kind''))) kvs (a # seen)
           in (JObj out, removeAll a seen'))))
   | p \<Rightarrow> (prim_value p, seen))"

text \<open>A path through the store meets each of its addresses at most once, and may end in a primitive.\<close>

definition redactSecrets :: "heap \<Rightarrow> hval \<Rightarrow> jval" where
  "redactSecrets heap v = fst (visit (length heap + 2) heap v [])"

section \<open>Errors\<close>

datatype thrown = ProtocolThrown protocol_error | ErrorThrown string | OtherThrown

record redacted_error =
  re_name :: string
  re_code :: "protocol_code option"
  re_message :: string

fun redactError :: "thrown \<Rightarrow> redacted_error" where
  "redactError (ProtocolThrown e) = \<lparr>re_name = ''AutomationProtocolError'', re_code = Some (pe_code e), re_message = pe_message e\<rparr>"
| "redactError (ErrorThrown name) = \<lparr>re_name = name, re_code = None, re_message = ''Unexpected automation protocol error.''\<rparr>"
| "redactError OtherThrown = \<lparr>re_name = ''Error'', re_code = None, re_message = ''Unknown automation protocol error.''\<rparr>"

section \<open>Enough fuel\<close>

definition room :: "heap \<Rightarrow> nat list \<Rightarrow> nat" where
  "room heap seen = card (fst ` set heap - set seen)"

lemma thread_Cons [simp]:
  "thread f (x # xs) s = (fst (f x s) # fst (thread f xs (snd (f x s))), snd (thread f xs (snd (f x s))))"
  by (simp add: case_prod_beta Let_def)

declare thread.simps(2) [simp del]

lemma thread_keeps:
  assumes "\<And>x s. P s \<Longrightarrow> P (snd (f x s))"
  shows "P s \<Longrightarrow> P (snd (thread f xs s))"
  by (induction xs arbitrary: s) (simp_all add: assms)

lemma thread_cong_keeps:
  assumes "\<And>x s. P s \<Longrightarrow> P (snd (f x s))" and "\<And>x s. P s \<Longrightarrow> g x s = f x s"
  shows "P s \<Longrightarrow> thread g xs s = thread f xs s"
  by (induction xs arbitrary: s) (simp_all add: assms)

lemma list_all2_right: "list_all2 (\<lambda>x y. P y) xs ys \<Longrightarrow> list_all P ys"
  by (induction rule: list_all2_induct) auto

lemma thread_all2:
  assumes "\<And>x s. Q x (fst (f x s))"
  shows "list_all2 Q xs (fst (thread f xs s))"
  by (induction xs arbitrary: s) (simp_all add: assms)

lemma visit_HRef:
  "visit (Suc n) heap (HRef a) seen =
     (if a \<in> set seen then (CIRCULAR, seen)
      else (case map_of heap a of
        None \<Rightarrow> (JUndefined, seen)
      | Some (HArr items) \<Rightarrow> (JArr (fst (thread (visit n heap) items (a # seen))), snd (thread (visit n heap) items (a # seen)))
      | Some (HObj kvs) \<Rightarrow>
          (JObj (fst (thread (visit_entry (visit n heap) (prim_text (map_of kvs ''kind''))) kvs (a # seen))),
           removeAll a (snd (thread (visit_entry (visit n heap) (prim_text (map_of kvs ''kind''))) kvs (a # seen))))))"
  by (simp add: case_prod_beta Let_def split: option.split hobj.split)

lemma visit_prim: "(\<forall>a. v \<noteq> HRef a) \<Longrightarrow> visit (Suc n) heap v seen = (prim_value v, seen)"
  by (cases v) auto

declare visit.simps(2) [simp del]

lemma visit_entry_keeps:
  "(\<And>v s. P s \<Longrightarrow> P (snd (child v s))) \<Longrightarrow> P s \<Longrightarrow> P (snd (visit_entry child kind kv s))"
  by (simp add: visit_entry_def)

lemma visit_seen: "A \<subseteq> set seen \<Longrightarrow> A \<subseteq> set (snd (visit n heap v seen))"
proof (induction n arbitrary: A v seen)
  case 0
  then show ?case by simp
next
  case (Suc n)
  show ?case
  proof (cases "\<exists>a. v = HRef a")
    case True
    then obtain a where v: "v = HRef a" ..
    have items: "insert a (set seen) \<subseteq> set (snd (thread (visit n heap) vs (a # seen)))" for vs
      by (rule thread_keeps) (use Suc.IH in auto)
    have props: "insert a (set seen) \<subseteq> set (snd (thread (visit_entry (visit n heap) kind) kvs (a # seen)))" for kind kvs
      by (rule thread_keeps) (rule visit_entry_keeps, use Suc.IH in auto)
    show ?thesis
      using Suc.prems items props unfolding v visit_HRef
      by (auto split: option.splits hobj.splits) blast+
  next
    case False
    with Suc.prems show ?thesis by (simp add: visit_prim)
  qed
qed

lemma room_Cons: "a \<in> fst ` set heap \<Longrightarrow> a \<notin> set seen \<Longrightarrow> room heap (a # seen) < room heap seen"
  unfolding room_def by (rule psubset_card_mono) auto

lemma room_mono: "set seen \<subseteq> set seen' \<Longrightarrow> room heap seen' \<le> room heap seen"
  unfolding room_def by (rule card_mono) auto

lemma visit_fuel: "room heap seen + 2 \<le> n \<Longrightarrow> visit (Suc n) heap v seen = visit n heap v seen"
proof (induction n arbitrary: v seen)
  case 0
  then show ?case by simp
next
  case (Suc n)
  show ?case
  proof (cases "\<exists>a. v = HRef a \<and> a \<notin> set seen \<and> a \<in> fst ` set heap")
    case True
    then obtain a where v: "v = HRef a" and fresh: "a \<notin> set seen" and a: "a \<in> fst ` set heap" by blast
    define P where "P = (\<lambda>s. insert a (set seen) \<subseteq> set s)"
    have fuel: "visit (Suc n) heap x s = visit n heap x s" if "P s" for x s
    proof (rule Suc.IH)
      have "room heap s \<le> room heap (a # seen)" using that by (intro room_mono) (simp add: P_def)
      then show "room heap s + 2 \<le> n" using room_Cons [OF a fresh] Suc.prems by simp
    qed
    have keep: "P (snd (visit n heap x s))" if "P s" for x s
      using that visit_seen unfolding P_def by blast
    have P0: "P (a # seen)" by (auto simp: P_def)
    have items: "thread (visit (Suc n) heap) vs (a # seen) = thread (visit n heap) vs (a # seen)" for vs
      by (rule thread_cong_keeps [where P = P]) (use keep fuel P0 in simp_all)
    have props: "thread (visit_entry (visit (Suc n) heap) kind) kvs (a # seen) =
        thread (visit_entry (visit n heap) kind) kvs (a # seen)" for kind kvs
      by (rule thread_cong_keeps [where P = P])
        (use keep fuel P0 in \<open>simp_all add: visit_entry_def\<close>)
    show ?thesis unfolding v visit_HRef [of "Suc n"] visit_HRef [of n] items props by (rule refl)
  next
    case False
    then show ?thesis
      by (cases v) (auto simp: visit_prim visit_HRef split: option.splits dest!: map_of_SomeD intro: rev_image_eqI)
  qed
qed

lemma visit_enough: "fst (visit (k + (length heap + 2)) heap v []) = redactSecrets heap v"
proof (induction k)
  case 0
  then show ?case by (simp add: redactSecrets_def)
next
  case (Suc k)
  have "room heap [] \<le> length heap"
    unfolding room_def by (simp add: card_length order_trans [OF card_image_le])
  then have "visit (Suc (k + (length heap + 2))) heap v [] = visit (k + (length heap + 2)) heap v []"
    by (intro visit_fuel) simp
  with Suc show ?case by simp
qed

section \<open>Nothing sensitive is left\<close>

fun redacted :: "jval \<Rightarrow> bool" where
  "redacted (JArr vs) = list_all redacted vs"
| "redacted (JObj kvs) = list_all (\<lambda>(k, v). redacted v \<and>
     (shouldRedactKey k (text_option (field ''kind'' kvs)) \<longrightarrow> v = REDACTED)) kvs"
| "redacted _ = True"

lemma kind_not_sensitive: "\<not> shouldRedactKey ''kind'' kind"
  by (simp add: shouldRedactKey_def) code_simp

lemma visit_text: "text_option (fst (visit n heap v seen)) \<in> {None, Some ''[Circular]'', prim_text (Some v)}"
proof (cases n)
  case 0
  then show ?thesis by simp
next
  case (Suc m)
  then show ?thesis
    by (cases v) (auto simp: visit_prim visit_HRef CIRCULAR_def split: option.splits hobj.splits)
qed

lemma field_all2:
  assumes "list_all2 (\<lambda>kv out. fst out = fst kv \<and> (fst kv = k \<longrightarrow> R (snd kv) (snd out))) kvs outs"
  shows "case map_of kvs k of None \<Rightarrow> map_of outs k = None | Some v \<Rightarrow> \<exists>w. map_of outs k = Some w \<and> R v w"
  using assms by (induction rule: list_all2_induct) (auto split: option.splits)

lemma redacted_object:
  fixes visitor :: "hval \<Rightarrow> nat list \<Rightarrow> jval \<times> nat list"
  assumes red: "\<And>v s. redacted (fst (visitor v s))"
    and label: "\<And>v s. text_option (fst (visitor v s)) \<in> {None, Some ''[Circular]'', prim_text (Some v)}"
  shows "redacted (JObj (fst (thread (visit_entry visitor (prim_text (map_of kvs ''kind''))) kvs seen)))"
proof -
  let ?kind = "prim_text (map_of kvs ''kind'')"
  define outs where "outs = fst (thread (visit_entry visitor ?kind) kvs seen)"
  have "list_all2 (\<lambda>kv out. fst out = fst kv \<and> (fst kv = ''kind'' \<longrightarrow>
      text_option (snd out) \<in> {None, Some ''[Circular]'', prim_text (Some (snd kv))})) kvs outs"
    unfolding outs_def by (rule thread_all2) (use label in \<open>simp add: visit_entry_def kind_not_sensitive\<close>)
  from field_all2 [OF this] have "text_option (field ''kind'' outs) \<in> {None, Some ''[Circular]'', ?kind}"
    by (auto simp: field_def split: option.splits)
  then have weaker: "shouldRedactKey k (text_option (field ''kind'' outs)) \<Longrightarrow> shouldRedactKey k ?kind" for k
    by (auto simp: shouldRedactKey_def SECRET_KINDS_def split: option.splits)
  have "list_all2 (\<lambda>kv out. redacted (snd out) \<and> (shouldRedactKey (fst out) ?kind \<longrightarrow> snd out = REDACTED)) kvs outs"
    unfolding outs_def by (rule thread_all2) (simp add: visit_entry_def red REDACTED_def)
  then have "list_all (\<lambda>out. redacted (snd out) \<and> (shouldRedactKey (fst out) ?kind \<longrightarrow> snd out = REDACTED)) outs"
    by (rule list_all2_right)
  then show ?thesis
    using weaker unfolding outs_def [symmetric] by (auto simp: list_all_iff)
qed

lemma visit_redacted: "redacted (fst (visit n heap v seen))"
proof (induction n arbitrary: v seen)
  case 0
  then show ?case by simp
next
  case (Suc n)
  have items: "list_all redacted (fst (thread (visit n heap) vs s))" for vs s
  proof -
    have "list_all2 (\<lambda>v out. redacted out) vs (fst (thread (visit n heap) vs s))"
      by (rule thread_all2) (rule Suc.IH)
    then show ?thesis by (rule list_all2_right)
  qed
  show ?case
  proof (cases v)
    case (HRef a)
    show ?thesis
      unfolding HRef visit_HRef
      using items redacted_object [OF Suc.IH visit_text] by (auto simp: CIRCULAR_def split: option.splits hobj.splits simp del: redacted.simps(2))
  qed (simp_all add: visit_prim)
qed

text \<open>
  C29. No secret reaches the log. Whatever the value, with references shared or cyclic, in what
  \<open>redactSecrets\<close> returns every property whose name is sensitive, and every \<open>value\<close> of a bearer,
  cookie or manual credential, holds the marker; and the traversal has ended by itself: a larger
  bound on its depth gives the same result.
\<close>

theorem redaction_complete:
  "redacted (redactSecrets heap v) \<and> fst (visit (k + (length heap + 2)) heap v []) = redactSecrets heap v"
proof
  show "redacted (redactSecrets heap v)" unfolding redactSecrets_def by (rule visit_redacted)
qed (rule visit_enough)

text \<open>
  An array that two properties share is no cycle, yet its second occurrence is printed as one:
  the branch for arrays returns before the array leaves the set of seen objects.
\<close>

lemma shared_array_marked_circular:
  "redactSecrets [(0, HObj [(''a'', HRef 1), (''b'', HRef 1)]), (1, HArr [HInt 7])] (HRef 0) =
     JObj [(''a'', JArr [JInt 7]), (''b'', CIRCULAR)]"
  by code_simp

lemma shared_object_printed_twice:
  "redactSecrets [(0, HObj [(''a'', HRef 1), (''b'', HRef 1)]), (1, HObj [(''n'', HInt 7)])] (HRef 0) =
     JObj [(''a'', JObj [(''n'', JInt 7)]), (''b'', JObj [(''n'', JInt 7)])]"
  by code_simp

end
