(* ===== verification/AutomationConfig.thy ===== *)
theory AutomationConfig
  imports AutomationProtocol
begin

text \<open>
  The configuration of the automation subsystem, read from the environment: the worker's in
  \<open>apps/automation-worker/src/runtime/config.ts\<close>, and the one of the request side in
  \<open>apps/worker/src/node/automation/config.ts\<close>. The platform's number and URL parsers, its
  lenient base64 decoder and the process number are parameters.
\<close>

type_synonym environment = "string \<Rightarrow> string option"

record parsed_url =
  pu_protocol :: string
  pu_text :: string
  pu_origin :: string
  pu_hasToken :: bool

text \<open>\<open>Number(s)\<close>: an integer, or any other number.\<close>

record config_platform =
  cfp_number :: "string \<Rightarrow> int option"
  cfp_url :: "string \<Rightarrow> parsed_url option"
  cfp_base64 :: "string \<Rightarrow> bytes"
  cfp_pid :: string

section \<open>Readers\<close>

text \<open>\<open>env[name]?.trim()\<close>, absent when it is empty.\<close>

definition trimmed :: "environment \<Rightarrow> string \<Rightarrow> string option" where
  "trimmed env name = (case env name of None \<Rightarrow> None
     | Some s \<Rightarrow> if js_trim s = [] then None else Some (js_trim s))"

definition trimmed_or :: "environment \<Rightarrow> string \<Rightarrow> string \<Rightarrow> string" where
  "trimmed_or env name fallback = (case trimmed env name of None \<Rightarrow> fallback | Some s \<Rightarrow> s)"

text \<open>A refusal is a \<open>ConfigurationError\<close>: its message.\<close>

definition required :: "environment \<Rightarrow> string \<Rightarrow> string + string" where
  "required env name = (case trimmed env name of
     None \<Rightarrow> Inl (''Missing required configuration: '' @ name @ ''.'') | Some s \<Rightarrow> Inr s)"

definition positiveInteger :: "config_platform \<Rightarrow> environment \<Rightarrow> string \<Rightarrow> int \<Rightarrow> string + int" where
  "positiveInteger pf env name fallback =
    (case (case env name of None \<Rightarrow> Some fallback | Some raw \<Rightarrow> cfp_number pf raw) of
       Some n \<Rightarrow> if safe_integer n \<and> 0 < n then Inr n else Inl (name @ '' must be a positive integer.'')
     | None \<Rightarrow> Inl (name @ '' must be a positive integer.''))"

definition oneOf :: "environment \<Rightarrow> string \<Rightarrow> string \<Rightarrow> string list \<Rightarrow> string + string" where
  "oneOf env name fallback values = (let v = (case env name of None \<Rightarrow> fallback | Some s \<Rightarrow> s) in
     if v \<in> set values then Inr v else Inl (name @ '' has an unsupported value.''))"

definition url_setting :: "config_platform \<Rightarrow> environment \<Rightarrow> string \<Rightarrow> string list \<Rightarrow> string + parsed_url" where
  "url_setting pf env name protocols = sbind (required env name) (\<lambda>v.
     case cfp_url pf v of
       None \<Rightarrow> Inl (name @ '' must be a valid URL.'')
     | Some u \<Rightarrow> if pu_protocol u \<in> set protocols then Inr u else Inl (name @ '' has an unsupported URL protocol.''))"

definition decodeKey :: "config_platform \<Rightarrow> string \<Rightarrow> string \<Rightarrow> string + bytes" where
  "decodeKey pf v name = (let bs = cfp_base64 pf (map of_url v) in
     if length bs \<noteq> 32 then Inl (name @ '' must decode to 32 bytes.'') else Inr bs)"

definition raw_key :: "string \<Rightarrow> bytes \<Rightarrow> automation_key" where
  "raw_key key_id bs = \<lparr>ak_id = key_id, ak_material = RawMaterial bs\<rparr>"

definition worker_keyring :: "config_platform \<Rightarrow> environment \<Rightarrow> string + keyring" where
  "worker_keyring pf env =
     sbind (required env ''AUTOMATION_KEY_CURRENT_ID'') (\<lambda>current_id.
     sbind (required env ''AUTOMATION_KEY_CURRENT_B64'') (\<lambda>text.
     sbind (decodeKey pf text ''AUTOMATION_KEY_CURRENT_B64'') (\<lambda>bs.
     let previous_id = trimmed env ''AUTOMATION_KEY_PREVIOUS_ID''; previous_value = trimmed env ''AUTOMATION_KEY_PREVIOUS_B64'' in
     sbind (case (previous_id, previous_value) of
         (None, None) \<Rightarrow> Inr None
       | (Some p, Some v) \<Rightarrow> sbind (decodeKey pf v ''AUTOMATION_KEY_PREVIOUS_B64'') (\<lambda>b. Inr (Some (raw_key p b)))
       | _ \<Rightarrow> Inl ''AUTOMATION_KEY_PREVIOUS_ID and AUTOMATION_KEY_PREVIOUS_B64 must be provided together.'') (\<lambda>previous.
     let ring = \<lparr>kr_current = Some (raw_key current_id bs), kr_previous = previous\<rparr> in
     (case assertKeyring ring of Inl e \<Rightarrow> Inl ''Automation keyring is invalid.'' | Inr k \<Rightarrow> Inr ring)))))"

section \<open>The worker's configuration\<close>

record worker_config =
  wc_redisUrl :: parsed_url
  wc_jobStream :: string
  wc_eventStream :: string
  wc_controlStream :: string
  wc_consumerGroup :: string
  wc_consumerName :: string
  wc_controlConsumerGroup :: string
  wc_controlConsumerName :: string
  wc_executionMode :: string
  wc_browserProvider :: string
  wc_browserlessEndpoint :: "parsed_url option"
  wc_browserlessToken :: "string option"
  wc_jobEnvelopeAad :: string
  wc_credentialEnvelopeAadPrefix :: string
  wc_resultEnvelopeAadPrefix :: string
  wc_eventEnvelopeAadPrefix :: string
  wc_leaseTtlMs :: int
  wc_heartbeatIntervalMs :: int
  wc_reclaimIdleMs :: int
  wc_readBlockMs :: int
  wc_redisConnectTimeoutMs :: int
  wc_shutdownTimeoutMs :: int
  wc_maxDeliveryCount :: int
  wc_resultTtlMs :: int
  wc_keyring :: keyring

definition assertBrowserProviderSupported :: "string \<Rightarrow> string \<Rightarrow> string + unit" where
  "assertBrowserProviderSupported mode provider = (if mode = ''distributed'' \<and> provider = ''patchright''
     then Inl ''Patchright is not supported in distributed automation mode; use Browserless.'' else Inr ())"

definition ENDPOINT_PROTOCOLS :: "string list" where "ENDPOINT_PROTOCOLS = [''wss:'', ''ws:'', ''https:'']"

text \<open>The endpoint is read as the only entry of an environment of its own.\<close>

definition browserless_endpoint :: "config_platform \<Rightarrow> string option \<Rightarrow> string + parsed_url option" where
  "browserless_endpoint pf endpoint = (case endpoint of
     None \<Rightarrow> Inr None
   | Some s \<Rightarrow> sbind (url_setting pf [''BROWSERLESS_ENDPOINT'' \<mapsto> s] ''BROWSERLESS_ENDPOINT'' ENDPOINT_PROTOCOLS) (\<lambda>u.
       if pu_hasToken u then Inl ''BROWSERLESS_ENDPOINT must not contain a token.'' else Inr (Some u)))"

definition parseAutomationWorkerConfig :: "config_platform \<Rightarrow> environment \<Rightarrow> string + worker_config" where
  "parseAutomationWorkerConfig pf env =
     sbind (oneOf env ''AUTOMATION_EXECUTION_MODE'' ''distributed'' [''distributed'', ''local'']) (\<lambda>mode.
     sbind (oneOf env ''AUTOMATION_BROWSER_PROVIDER'' ''browserless'' [''browserless'', ''patchright'']) (\<lambda>provider.
     sbind (assertBrowserProviderSupported mode provider) (\<lambda>_.
     let endpoint = trimmed env ''BROWSERLESS_ENDPOINT''; token = trimmed env ''BROWSERLESS_TOKEN'' in
     if provider = ''browserless'' \<and> (endpoint = None \<or> token = None)
     then Inl ''BROWSERLESS_ENDPOINT and BROWSERLESS_TOKEN are required for Browserless mode.''
     else sbind (browserless_endpoint pf endpoint) (\<lambda>endpoint_url.
     sbind (positiveInteger pf env ''AUTOMATION_HEARTBEAT_INTERVAL_MS'' 10000) (\<lambda>heartbeat.
     sbind (positiveInteger pf env ''AUTOMATION_LEASE_TTL_MS'' 30000) (\<lambda>lease.
     if lease \<le> heartbeat
     then Inl ''AUTOMATION_HEARTBEAT_INTERVAL_MS must be less than AUTOMATION_LEASE_TTL_MS.''
     else sbind (url_setting pf env ''REDIS_URL'' [''redis:'', ''rediss:'']) (\<lambda>redis.
     sbind (positiveInteger pf env ''AUTOMATION_RECLAIM_IDLE_MS'' lease) (\<lambda>reclaim.
     sbind (positiveInteger pf env ''AUTOMATION_READ_BLOCK_MS'' 1000) (\<lambda>block.
     sbind (positiveInteger pf env ''AUTOMATION_REDIS_CONNECT_TIMEOUT_MS'' 30000) (\<lambda>connect.
     sbind (positiveInteger pf env ''AUTOMATION_SHUTDOWN_TIMEOUT_MS'' 30000) (\<lambda>shutdown.
     sbind (positiveInteger pf env ''AUTOMATION_MAX_DELIVERY_COUNT'' 3) (\<lambda>deliveries.
     sbind (positiveInteger pf env ''AUTOMATION_RESULT_TTL_MS'' 300000) (\<lambda>ttl.
     sbind (worker_keyring pf env) (\<lambda>ring.
     Inr \<lparr>wc_redisUrl = redis,
       wc_jobStream = trimmed_or env ''AUTOMATION_JOB_STREAM'' ''hyeboard:automation:jobs'',
       wc_eventStream = trimmed_or env ''AUTOMATION_EVENT_STREAM'' ''hyeboard:automation:events'',
       wc_controlStream = trimmed_or env ''AUTOMATION_CONTROL_STREAM'' ''hyeboard:automation:control'',
       wc_consumerGroup = trimmed_or env ''AUTOMATION_CONSUMER_GROUP'' ''automation-workers'',
       wc_consumerName = trimmed_or env ''AUTOMATION_CONSUMER_NAME'' (''worker-'' @ cfp_pid pf),
       wc_controlConsumerGroup = trimmed_or env ''AUTOMATION_CONTROL_CONSUMER_GROUP'' ''automation-control-workers'',
       wc_controlConsumerName = trimmed_or env ''AUTOMATION_CONTROL_CONSUMER_NAME'' (''control-'' @ cfp_pid pf),
       wc_executionMode = mode, wc_browserProvider = provider,
       wc_browserlessEndpoint = endpoint_url, wc_browserlessToken = token,
       wc_jobEnvelopeAad = trimmed_or env ''AUTOMATION_JOB_ENVELOPE_AAD'' ''hyeboard:automation:job:v1'',
       wc_credentialEnvelopeAadPrefix = trimmed_or env ''AUTOMATION_CREDENTIAL_AAD_PREFIX'' ''hyeboard:automation:credential:'',
       wc_resultEnvelopeAadPrefix = trimmed_or env ''AUTOMATION_RESULT_AAD_PREFIX'' ''hyeboard:automation:result:'',
       wc_eventEnvelopeAadPrefix = trimmed_or env ''AUTOMATION_EVENT_AAD_PREFIX'' ''hyeboard:automation:event:'',
       wc_leaseTtlMs = lease, wc_heartbeatIntervalMs = heartbeat, wc_reclaimIdleMs = reclaim,
       wc_readBlockMs = block, wc_redisConnectTimeoutMs = connect, wc_shutdownTimeoutMs = shutdown,
       wc_maxDeliveryCount = deliveries, wc_resultTtlMs = ttl, wc_keyring = ring\<rparr>))))))))))))))"

definition key_ids :: "keyring \<Rightarrow> string list" where
  "key_ids ring = filter (\<lambda>s. s \<noteq> []) (map ak_id
     ((case kr_current ring of None \<Rightarrow> [] | Some k \<Rightarrow> [k]) @ (case kr_previous ring of None \<Rightarrow> [] | Some k \<Rightarrow> [k])))"

definition safeConfigSummary :: "worker_config \<Rightarrow> (string \<times> jval) list" where
  "safeConfigSummary c =
    [(''redisUrl'', JStr (pu_origin (wc_redisUrl c))),
     (''jobStream'', JStr (wc_jobStream c)), (''eventStream'', JStr (wc_eventStream c)),
     (''controlStream'', JStr (wc_controlStream c)), (''consumerGroup'', JStr (wc_consumerGroup c)),
     (''consumerName'', JStr (wc_consumerName c)), (''controlConsumerGroup'', JStr (wc_controlConsumerGroup c)),
     (''controlConsumerName'', JStr (wc_controlConsumerName c)), (''executionMode'', JStr (wc_executionMode c)),
     (''browserProvider'', JStr (wc_browserProvider c)),
     (''browserlessEndpoint'', (case wc_browserlessEndpoint c of None \<Rightarrow> JUndefined | Some u \<Rightarrow> JStr (pu_origin u))),
     (''redisConnectTimeoutMs'', JInt (wc_redisConnectTimeoutMs c)),
     (''keyIds'', JArr (map JStr (key_ids (wc_keyring c))))]"

section \<open>The configuration of the request side\<close>

record backend_config =
  bc_jobStream :: string
  bc_eventStream :: string
  bc_controlStream :: string
  bc_jobEnvelopeAad :: string
  bc_credentialEnvelopeAadPrefix :: string
  bc_resultEnvelopeAadPrefix :: string
  bc_eventEnvelopeAadPrefix :: string
  bc_idempotencyTtlMs :: int
  bc_deadlineMs :: int
  bc_eventBlockMs :: int
  bc_eventBatchSize :: int
  bc_keyring :: keyring
  bc_executorReady :: bool

definition backend_required :: "environment \<Rightarrow> string \<Rightarrow> string + string" where
  "backend_required env name = (case trimmed env name of
     None \<Rightarrow> Inl (name @ '' is required for distributed automation.'') | Some s \<Rightarrow> Inr s)"

definition backend_key :: "config_platform \<Rightarrow> environment \<Rightarrow> string \<Rightarrow> string + bytes" where
  "backend_key pf env name = sbind (backend_required env name) (\<lambda>v. let bs = cfp_base64 pf (map of_url v) in
     if length bs \<noteq> 32 then Inl (name @ '' must decode to exactly 32 bytes.'') else Inr bs)"

definition backend_keyring :: "config_platform \<Rightarrow> environment \<Rightarrow> string + keyring" where
  "backend_keyring pf env =
     sbind (backend_required env ''AUTOMATION_KEY_CURRENT_ID'') (\<lambda>current_id.
     let previous_id = trimmed env ''AUTOMATION_KEY_PREVIOUS_ID''; previous_value = trimmed env ''AUTOMATION_KEY_PREVIOUS_B64'' in
     if (previous_id = None) \<noteq> (previous_value = None)
     then Inl ''AUTOMATION_KEY_PREVIOUS_ID and AUTOMATION_KEY_PREVIOUS_B64 must be provided together.''
     else sbind (backend_key pf env ''AUTOMATION_KEY_CURRENT_B64'') (\<lambda>bs.
     sbind (case previous_id of None \<Rightarrow> Inr None
       | Some p \<Rightarrow> sbind (backend_key pf env ''AUTOMATION_KEY_PREVIOUS_B64'') (\<lambda>b. Inr (Some (raw_key p b)))) (\<lambda>previous.
     Inr \<lparr>kr_current = Some (raw_key current_id bs), kr_previous = previous\<rparr>)))"

definition parseDistributedAutomationConfig :: "config_platform \<Rightarrow> environment \<Rightarrow> string + backend_config" where
  "parseDistributedAutomationConfig pf env =
     sbind (positiveInteger pf env ''AUTOMATION_IDEMPOTENCY_TTL_MS'' 300000) (\<lambda>idempotency.
     sbind (positiveInteger pf env ''AUTOMATION_DEADLINE_MS'' 90000) (\<lambda>deadline.
     sbind (positiveInteger pf env ''AUTOMATION_EVENT_BLOCK_MS'' 1000) (\<lambda>block.
     sbind (positiveInteger pf env ''AUTOMATION_EVENT_BATCH_SIZE'' 100) (\<lambda>batch.
     sbind (backend_keyring pf env) (\<lambda>ring.
     case assertKeyring ring of
       Inl e \<Rightarrow> Inl ''The distributed automation keyring is invalid.''
     | Inr k \<Rightarrow> Inr \<lparr>
       bc_jobStream = trimmed_or env ''AUTOMATION_JOB_STREAM'' ''hyeboard:automation:jobs'',
       bc_eventStream = trimmed_or env ''AUTOMATION_EVENT_STREAM'' ''hyeboard:automation:events'',
       bc_controlStream = trimmed_or env ''AUTOMATION_CONTROL_STREAM'' ''hyeboard:automation:control'',
       bc_jobEnvelopeAad = trimmed_or env ''AUTOMATION_JOB_ENVELOPE_AAD'' ''hyeboard:automation:job:v1'',
       bc_credentialEnvelopeAadPrefix = trimmed_or env ''AUTOMATION_CREDENTIAL_AAD_PREFIX'' ''hyeboard:automation:credential:'',
       bc_resultEnvelopeAadPrefix = trimmed_or env ''AUTOMATION_RESULT_AAD_PREFIX'' ''hyeboard:automation:result:'',
       bc_eventEnvelopeAadPrefix = trimmed_or env ''AUTOMATION_EVENT_AAD_PREFIX'' ''hyeboard:automation:event:'',
       bc_idempotencyTtlMs = idempotency, bc_deadlineMs = deadline, bc_eventBlockMs = block, bc_eventBatchSize = batch,
       bc_keyring = ring,
       bc_executorReady = (env ''HYEB_AUTOMATION_EXECUTOR_READY'' = Some ''true'' \<or> env ''AUTOMATION_EXECUTOR_READY'' = Some ''true'')\<rparr>)))))"

end
