(* ===== verification/AutomationTransport.thy ===== *)
theory AutomationTransport
  imports JsText
begin

text \<open>
  The in-process transport of the automation worker: the lease store of
  \<open>transport/lease.ts\<close>, in which a job's lease is held by the token of its last acquisition
  until it expires, and the stream broker of \<open>transport/broker.ts\<close> with its consumer groups and
  their pending messages; with the reader of what a Redis client returns. The clock and the
  random token are arguments. A JavaScript map keeps insertion order and is an association list.
\<close>

section \<open>Leases\<close>

record lease_record =
  lr_token :: string
  lr_fence :: int
  lr_expiresAt :: int

type_synonym lease_store = "string \<Rightarrow> lease_record option"

text \<open>What a holder keeps: the closure over the job, the fence, the token and the flag.\<close>

record job_lease =
  jl_jobId :: string
  jl_fence :: int
  jl_token :: string
  jl_ttl :: int
  jl_released :: bool

definition owns :: "lease_store \<Rightarrow> job_lease \<Rightarrow> int \<Rightarrow> bool" where
  "owns st l now \<longleftrightarrow> (case st (jl_jobId l) of
     None \<Rightarrow> False
   | Some r \<Rightarrow> lr_token r = jl_token l \<and> lr_fence r = jl_fence l \<and> now < lr_expiresAt r)"

definition lease_acquire :: "lease_store \<Rightarrow> string \<Rightarrow> int \<Rightarrow> int \<Rightarrow> int \<Rightarrow> string \<Rightarrow> job_lease option \<times> lease_store" where
  "lease_acquire st job fence ttl now token =
    (case st job of
       Some r \<Rightarrow> if now < lr_expiresAt r then (None, st)
         else (Some \<lparr>jl_jobId = job, jl_fence = fence, jl_token = token, jl_ttl = ttl, jl_released = False\<rparr>,
           st(job \<mapsto> \<lparr>lr_token = token, lr_fence = fence, lr_expiresAt = now + ttl\<rparr>))
     | None \<Rightarrow> (Some \<lparr>jl_jobId = job, jl_fence = fence, jl_token = token, jl_ttl = ttl, jl_released = False\<rparr>,
         st(job \<mapsto> \<lparr>lr_token = token, lr_fence = fence, lr_expiresAt = now + ttl\<rparr>)))"

definition lease_renew :: "lease_store \<Rightarrow> job_lease \<Rightarrow> int \<Rightarrow> bool \<times> lease_store" where
  "lease_renew st l now =
    (if jl_released l \<or> \<not> owns st l now then (False, st)
     else (True, st(jl_jobId l \<mapsto> \<lparr>lr_token = jl_token l, lr_fence = jl_fence l, lr_expiresAt = now + jl_ttl l\<rparr>)))"

definition lease_held :: "lease_store \<Rightarrow> job_lease \<Rightarrow> int \<Rightarrow> bool" where
  "lease_held st l now \<longleftrightarrow> \<not> jl_released l \<and> owns st l now"

definition lease_release :: "lease_store \<Rightarrow> job_lease \<Rightarrow> int \<Rightarrow> job_lease \<times> lease_store" where
  "lease_release st l now = (l\<lparr>jl_released := True\<rparr>,
     if owns st l now then st(jl_jobId l := None) else st)"

section \<open>Streams\<close>

type_synonym stream_fields = "(string \<times> string) list"

record stream_message =
  sm_id :: string
  sm_fields :: stream_fields
  sm_deliveryCount :: int
  sm_idleMs :: "int option"

record pending_message = stream_message +
  pm_consumer :: string
  pm_claimedAt :: int

record group_state =
  gs_lastIndex :: int
  gs_pending :: "pending_message list"

record broker =
  br_streams :: "(string \<times> (string \<times> stream_fields) list) list"
  br_groups :: "(string \<times> group_state) list"
  br_sequence :: nat

definition group_key :: "string \<Rightarrow> string \<Rightarrow> string" where
  "group_key s g = s @ '':'' @ g"

definition empty_broker :: broker where
  "empty_broker = \<lparr>br_streams = [], br_groups = [], br_sequence = 0\<rparr>"

definition entries_of :: "broker \<Rightarrow> string \<Rightarrow> (string \<times> stream_fields) list" where
  "entries_of b s = (case map_of (br_streams b) s of None \<Rightarrow> [] | Some es \<Rightarrow> es)"

definition delivered :: "pending_message \<Rightarrow> stream_message" where
  "delivered p = \<lparr>sm_id = sm_id p, sm_fields = sm_fields p, sm_deliveryCount = sm_deliveryCount p,
     sm_idleMs = sm_idleMs p\<rparr>"

definition broker_ensureGroup :: "broker \<Rightarrow> string \<Rightarrow> string \<Rightarrow> broker" where
  "broker_ensureGroup b s g = b\<lparr>
     br_streams := AList.update s (entries_of b s) (br_streams b),
     br_groups := (case map_of (br_groups b) (group_key s g) of
         Some gs \<Rightarrow> AList.update (group_key s g) gs (br_groups b)
       | None \<Rightarrow> AList.update (group_key s g) \<lparr>gs_lastIndex = - 1, gs_pending = []\<rparr> (br_groups b))\<rparr>"

definition pending_of :: "string \<Rightarrow> int \<Rightarrow> string \<times> stream_fields \<Rightarrow> pending_message" where
  "pending_of consumer now e = \<lparr>sm_id = fst e, sm_fields = snd e, sm_deliveryCount = 1, sm_idleMs = None,
     pm_consumer = consumer, pm_claimedAt = now\<rparr>"

text \<open>\<open>pending.set(id, message)\<close>: the identifiers are fresh, so that the entry is appended.\<close>

definition put_pending :: "pending_message \<Rightarrow> pending_message list \<Rightarrow> pending_message list" where
  "put_pending m ps = (if sm_id m \<in> sm_id ` set ps then map (\<lambda>p. if sm_id p = sm_id m then m else p) ps else ps @ [m])"

definition broker_readGroup :: "broker \<Rightarrow> string \<Rightarrow> string \<Rightarrow> string \<Rightarrow> nat \<Rightarrow> int \<Rightarrow> bool \<Rightarrow> (string + stream_message list) \<times> broker" where
  "broker_readGroup b s g consumer n now aborted =
    (case map_of (br_groups b) (group_key s g) of
       None \<Rightarrow> (Inl ''Consumer group has not been created.'', b)
     | Some gs \<Rightarrow>
        (let taken = map (pending_of consumer now) (take n (drop (nat (gs_lastIndex gs + 1)) (entries_of b s)));
             gs' = \<lparr>gs_lastIndex = gs_lastIndex gs + int (length taken), gs_pending = fold put_pending taken (gs_pending gs)\<rparr>
         in (Inr (if aborted then [] else map delivered taken), b\<lparr>br_groups := AList.update (group_key s g) gs' (br_groups b)\<rparr>)))"

text \<open>
  The loop over the pending messages in their order, which stops once the output is full: a
  message that has been idle long enough is claimed, with its delivery counted.
\<close>

fun claim :: "nat \<Rightarrow> string \<Rightarrow> int \<Rightarrow> int \<Rightarrow> pending_message list \<Rightarrow> stream_message list \<times> pending_message list" where
  "claim room consumer min_idle now [] = ([], [])"
| "claim room consumer min_idle now (p # ps) =
    (if room = 0 then ([], p # ps)
     else if now - pm_claimedAt p < min_idle
     then (let (out, ps') = claim room consumer min_idle now ps in (out, p # ps'))
     else (let p' = p\<lparr>pm_consumer := consumer, pm_claimedAt := now, sm_deliveryCount := sm_deliveryCount p + 1,
                 sm_idleMs := Some 0\<rparr>;
               (out, ps') = claim (room - 1) consumer min_idle now ps
           in (delivered p' # out, p' # ps')))"

definition broker_reclaimPending ::
  "broker \<Rightarrow> string \<Rightarrow> string \<Rightarrow> string \<Rightarrow> nat \<Rightarrow> int \<Rightarrow> int \<Rightarrow> bool \<Rightarrow> (string + stream_message list) \<times> broker" where
  "broker_reclaimPending b s g consumer n min_idle now aborted =
    (case map_of (br_groups b) (group_key s g) of
       None \<Rightarrow> (Inl ''Consumer group has not been created.'', b)
     | Some gs \<Rightarrow>
        (let (out, ps) = claim n consumer min_idle now (gs_pending gs)
         in (Inr (if aborted then [] else out), b\<lparr>br_groups := AList.update (group_key s g) (gs\<lparr>gs_pending := ps\<rparr>) (br_groups b)\<rparr>)))"

definition broker_ack :: "broker \<Rightarrow> string \<Rightarrow> string \<Rightarrow> string \<Rightarrow> broker" where
  "broker_ack b s g msg = (case map_of (br_groups b) (group_key s g) of
     None \<Rightarrow> b
   | Some gs \<Rightarrow> b\<lparr>br_groups := AList.update (group_key s g) (gs\<lparr>gs_pending := filter (\<lambda>p. sm_id p \<noteq> msg) (gs_pending gs)\<rparr>) (br_groups b)\<rparr>)"

text \<open>The identifiers count the additions to all streams of the broker.\<close>

definition message_id :: "nat \<Rightarrow> string" where
  "message_id n = nat_string (int n) @ ''-0''"

definition broker_add :: "broker \<Rightarrow> string \<Rightarrow> stream_fields \<Rightarrow> string \<times> broker" where
  "broker_add b s kvs = (let n = br_sequence b + 1; msg = message_id n in
     (msg, b\<lparr>br_sequence := n, br_streams := AList.update s (entries_of b s @ [(msg, kvs)]) (br_streams b)\<rparr>))"

definition broker_pending :: "broker \<Rightarrow> string \<Rightarrow> string \<Rightarrow> stream_message list" where
  "broker_pending b s g = (case map_of (br_groups b) (group_key s g) of
     None \<Rightarrow> [] | Some gs \<Rightarrow> map delivered (gs_pending gs))"

section \<open>Histories\<close>

datatype broker_op =
    EnsureGroup string string
  | Add string stream_fields
  | ReadGroup string string string nat int bool
  | Reclaim string string string nat int int bool
  | Ack string string string

fun broker_step :: "broker \<Rightarrow> broker_op \<Rightarrow> broker" where
  "broker_step b (EnsureGroup s g) = broker_ensureGroup b s g"
| "broker_step b (Add s kvs) = snd (broker_add b s kvs)"
| "broker_step b (ReadGroup s g c n now aborted) = snd (broker_readGroup b s g c n now aborted)"
| "broker_step b (Reclaim s g c n min_idle now aborted) = snd (broker_reclaimPending b s g c n min_idle now aborted)"
| "broker_step b (Ack s g msg) = broker_ack b s g msg"

datatype lease_op = Acquire string int int string | Renew nat | Release nat

text \<open>The store with the handles it has given out, in the order of their acquisition.\<close>

type_synonym lease_world = "lease_store \<times> job_lease list"

fun lease_step :: "lease_world \<Rightarrow> int \<times> lease_op \<Rightarrow> lease_world" where
  "lease_step (st, hs) (now, Acquire job fence ttl token) =
     (case lease_acquire st job fence ttl now token of (None, st') \<Rightarrow> (st', hs) | (Some l, st') \<Rightarrow> (st', hs @ [l]))"
| "lease_step (st, hs) (now, Renew i) = (if i < length hs then (snd (lease_renew st (hs ! i) now), hs) else (st, hs))"
| "lease_step (st, hs) (now, Release i) =
     (if i < length hs then (let (l, st') = lease_release st (hs ! i) now in (st', hs[i := l])) else (st, hs))"

text \<open>A token is random, so that an acquisition brings one that no handle has.\<close>

fun lease_ok :: "lease_world \<Rightarrow> int \<times> lease_op \<Rightarrow> bool" where
  "lease_ok (st, hs) (now, Acquire job fence ttl token) = (token \<notin> jl_token ` set hs)"
| "lease_ok w x = True"

end
