(* ===== verification/AutomationWorker.thy ===== *)
theory AutomationWorker
  imports AutomationConfig AutomationTransport
begin

text \<open>
  The automation worker of \<open>apps/automation-worker/src/runtime/worker.ts\<close> with the errors, the
  cancellation token, the heartbeat, the envelope codec and the event writer it uses. One run
  of \<open>process\<close> is a sequence of awaited calls; while each of them is under way the other tasks
  of the process may act, and what they do, with the answers of the calls, is the script of the
  run: cancellations (requested, by the deadline's timer, by a shutdown), beats of the heartbeat
  timer, and the progress reports and challenges of the executor. A script fixes the clock's
  readings; two readings of one statement are the same.
\<close>

section \<open>Errors\<close>

datatype cancel_reason = Requested | Deadline | Shutdown | LeaseLost

text \<open>An \<open>AutomationWorkerError\<close> with its code and whether it may be retried, or any other error.\<close>

datatype worker_error = WorkerError string bool | OtherError

definition cancellationError :: worker_error where
  "cancellationError = WorkerError ''AUTOMATION_CANCELLED'' False"

definition leaseLostError :: worker_error where
  "leaseLostError = WorkerError ''LEASE_LOST'' True"

fun errorCode :: "worker_error \<Rightarrow> string" where
  "errorCode (WorkerError code retryable) = code"
| "errorCode OtherError = ''AUTOMATION_EXECUTION_FAILED''"

fun isRetryable :: "worker_error \<Rightarrow> bool" where
  "isRetryable (WorkerError code retryable) = retryable"
| "isRetryable OtherError = False"

section \<open>Cancellation\<close>

type_synonym cancellation = "cancel_reason option"

definition token_create :: "int \<Rightarrow> int \<Rightarrow> cancellation" where
  "token_create deadline now = (if deadline - now \<le> 0 then Some Deadline else None)"

text \<open>The first reason stays.\<close>

definition token_cancel :: "cancel_reason \<Rightarrow> cancellation \<Rightarrow> cancellation" where
  "token_cancel reason c = (case c of None \<Rightarrow> Some reason | Some r \<Rightarrow> Some r)"

section \<open>The codec of envelopes\<close>

definition codec_open :: "automation_platform \<Rightarrow> keyring \<Rightarrow> string \<Rightarrow> string \<Rightarrow> int \<Rightarrow> protocol_error + jval" where
  "codec_open ap kr token aad now = decryptEnvelope ap token kr (TextAad aad) now"

definition codec_close ::
  "automation_platform \<Rightarrow> keyring \<Rightarrow> jval \<Rightarrow> string \<Rightarrow> string \<Rightarrow> int \<Rightarrow> bytes \<Rightarrow> protocol_error + string" where
  "codec_close ap kr payload aad expiresAt now random =
     encryptEnvelope ap payload kr (TextAad aad) (toISOString now) expiresAt random"

definition of_protocol :: "protocol_error + 'a \<Rightarrow> worker_error + 'a" where
  "of_protocol r = (case r of Inl e \<Rightarrow> Inl OtherError | Inr x \<Rightarrow> Inr x)"

text \<open>What the sink of the worker adds to the event stream.\<close>

definition publish_event :: "automation_platform \<Rightarrow> worker_config \<Rightarrow> automation_event \<Rightarrow> int \<Rightarrow> bytes \<Rightarrow> protocol_error + stream_fields" where
  "publish_event ap cfg e now random =
     sbind (codec_close ap (wc_keyring cfg) (event_value e) (wc_eventEnvelopeAadPrefix cfg @ ev_jobId e) (ev_expiresAt e) now random)
       (\<lambda>envelope. Inr [(''jobId'', ev_jobId e), (''eventEnvelope'', envelope)])"

section \<open>A run\<close>

text \<open>
  The state of one run: its cancellation token, the sequence number of its event writer, the
  events it has published, the acknowledgements it has sent, and what the run has taken and
  given back: the browser connection, the lease and the entry in the table of active runs.
\<close>

record job_run =
  rn_token :: cancellation
  rn_sequence :: int
  rn_events :: "automation_event list"
  rn_acks :: nat
  rn_connected :: bool
  rn_leased :: bool
  rn_listed :: bool

type_synonym 'a step = "job_run \<Rightarrow> (worker_error + 'a) \<times> job_run"

definition and_then :: "'a step \<Rightarrow> ('a \<Rightarrow> 'b step) \<Rightarrow> 'b step" where
  "and_then m f r = (case m r of (Inl e, r') \<Rightarrow> (Inl e, r') | (Inr x, r') \<Rightarrow> f x r')"

definition given :: "worker_error + 'a \<Rightarrow> 'a step" where
  "given x r = (x, r)"

definition throwIfCancelled :: "unit step" where
  "throwIfCancelled r = (if rn_token r = None then Inr () else Inl cancellationError, r)"

text \<open>\<open>Date.parse(job.expiresAt)\<close>, of a job that has been parsed.\<close>

definition job_deadline :: "uet_job \<Rightarrow> int" where
  "job_deadline job = (case canonicalIsoDate (JStr (uj_expiresAt job)) of None \<Rightarrow> 0 | Some t \<Rightarrow> t)"

definition event_at :: "uet_job \<Rightarrow> int \<Rightarrow> int \<Rightarrow> int \<Rightarrow> event_body \<Rightarrow> automation_event" where
  "event_at job ttl now n body = \<lparr>ev_jobId = uj_jobId job, ev_accountId = uj_accountId job, ev_fence = uj_fence job,
     ev_sequence = n, ev_emittedAt = toISOString now, ev_expiresAt = toISOString (min (job_deadline job) (now + ttl)),
     ev_body = body\<rparr>"

text \<open>The number of an event is used up only when the sink has taken it.\<close>

definition emit :: "uet_job \<Rightarrow> int \<Rightarrow> event_body \<Rightarrow> int \<times> bool \<Rightarrow> unit step" where
  "emit job ttl body = (\<lambda>(now, published) r.
    (let e = event_at job ttl now (rn_sequence r) body in
     case assertAutomationEvent (event_value e) of
       Inl x \<Rightarrow> (Inl OtherError, r)
     | Inr e' \<Rightarrow> if published then (Inr (), r\<lparr>rn_sequence := rn_sequence r + 1, rn_events := rn_events r @ [e]\<rparr>)
         else (Inl OtherError, r)))"

datatype stimulus =
    Cancels cancel_reason
  | Beats int bool bool
  | Reports int string int bool bool
  | Challenges int string string bool

text \<open>
  A beat renews the lease first, and cancels the run when that fails. A report asks whether the
  lease is held. An error goes to the timer or to the executor, not to the run.
\<close>

definition heartbeat_tick :: "uet_job \<Rightarrow> int \<Rightarrow> int \<Rightarrow> bool \<Rightarrow> bool \<Rightarrow> job_run \<Rightarrow> job_run" where
  "heartbeat_tick job ttl now renewed published r =
     (if renewed then snd (emit job ttl Heartbeat (now, published) r)
      else r\<lparr>rn_token := token_cancel LeaseLost (rn_token r)\<rparr>)"

definition report_progress :: "uet_job \<Rightarrow> int \<Rightarrow> int \<Rightarrow> string \<Rightarrow> int \<Rightarrow> bool \<Rightarrow> bool \<Rightarrow> job_run \<Rightarrow> job_run" where
  "report_progress job ttl now phase percent held published r =
     (if held then snd (emit job ttl (Progress phase percent) (now, published) r) else r)"

definition publish_challenge :: "uet_job \<Rightarrow> int \<Rightarrow> int \<Rightarrow> string \<Rightarrow> string \<Rightarrow> bool \<Rightarrow> job_run \<Rightarrow> job_run" where
  "publish_challenge job ttl now challenge picture published r =
     snd (emit job ttl (ChallengeRequired challenge picture) (now, published) r)"

fun stir :: "uet_job \<Rightarrow> int \<Rightarrow> stimulus \<Rightarrow> job_run \<Rightarrow> job_run" where
  "stir job ttl (Cancels reason) r = r\<lparr>rn_token := token_cancel reason (rn_token r)\<rparr>"
| "stir job ttl (Beats now renewed published) r = heartbeat_tick job ttl now renewed published r"
| "stir job ttl (Reports now phase percent held published) r = report_progress job ttl now phase percent held published r"
| "stir job ttl (Challenges now challenge picture published) r = publish_challenge job ttl now challenge picture published r"

lemmas stir_defs = heartbeat_tick_def report_progress_def publish_challenge_def

text \<open>
  The awaited calls of a run, in their order. A write that fails has not taken effect: a reply
  that is lost after its effect is not in the model.
\<close>

datatype await = AtStarted | AtCredential | AtBrowser | AtExecution | AtHeld | AtClose | AtSucceeded | AtAck | AtReport | AtLastAck

record script =
  sc_opened :: int
  sc_lease :: "worker_error + bool"
  sc_created :: int
  sc_stir :: "await \<Rightarrow> stimulus list"
  sc_started :: "int \<times> bool"
  sc_credential :: int
  sc_browser :: "worker_error + unit"
  sc_execution :: "jval \<Rightarrow> worker_error + jval"
  sc_held :: "worker_error + unit"
  sc_closed :: "int \<times> bytes"
  sc_succeeded :: "int \<times> bool"
  sc_report :: "int \<times> bool"
  sc_acked :: "await \<Rightarrow> bool"
  sc_disconnect :: "worker_error + unit"
  sc_release :: "worker_error + unit"

text \<open>While a call is awaited, the other tasks act.\<close>

definition awaited :: "worker_config \<Rightarrow> uet_job \<Rightarrow> script \<Rightarrow> await \<Rightarrow> 'a step \<Rightarrow> 'a step" where
  "awaited cfg job sc at m r = m (fold (stir job (wc_resultTtlMs cfg)) (sc_stir sc at) r)"

definition ack_message :: "script \<Rightarrow> await \<Rightarrow> unit step" where
  "ack_message sc at r = (if sc_acked sc at then (Inr (), r\<lparr>rn_acks := rn_acks r + 1\<rparr>) else (Inl OtherError, r))"

definition open_browser :: "script \<Rightarrow> unit step" where
  "open_browser sc r = (case sc_browser sc of Inl e \<Rightarrow> (Inl e, r) | Inr _ \<Rightarrow> (Inr (), r\<lparr>rn_connected := True\<rparr>))"

text \<open>The block that is tried.\<close>

definition run_job :: "automation_platform \<Rightarrow> worker_config \<Rightarrow> script \<Rightarrow> uet_job \<Rightarrow> unit step" where
  "run_job ap cfg sc job =
    (let kr = wc_keyring cfg; ttl = wc_resultTtlMs cfg in
     and_then (awaited cfg job sc AtStarted (emit job ttl Started (sc_started sc))) (\<lambda>_.
     and_then (awaited cfg job sc AtCredential (given (of_protocol (codec_open ap kr (uj_credentialEnvelope job)
        (wc_credentialEnvelopeAadPrefix cfg @ uj_jobId job) (sc_credential sc))))) (\<lambda>credential.
     and_then throwIfCancelled (\<lambda>_.
     and_then (awaited cfg job sc AtBrowser (open_browser sc)) (\<lambda>_.
     and_then (awaited cfg job sc AtExecution (given (sc_execution sc credential))) (\<lambda>result.
     and_then throwIfCancelled (\<lambda>_.
     and_then (awaited cfg job sc AtHeld (given (sc_held sc))) (\<lambda>_.
     and_then (awaited cfg job sc AtClose (given (of_protocol (codec_close ap kr result
        (wc_resultEnvelopeAadPrefix cfg @ uj_jobId job)
        (toISOString (min (job_deadline job) (fst (sc_closed sc) + ttl))) (fst (sc_closed sc)) (snd (sc_closed sc)))))) (\<lambda>envelope.
     and_then (awaited cfg job sc AtSucceeded (emit job ttl (Succeeded (Some envelope)) (sc_succeeded sc))) (\<lambda>_.
     awaited cfg job sc AtAck (ack_message sc AtAck)))))))))))"

text \<open>The block that catches an error.\<close>

definition report_and_ack :: "worker_config \<Rightarrow> script \<Rightarrow> uet_job \<Rightarrow> event_body \<Rightarrow> unit step" where
  "report_and_ack cfg sc job body =
     and_then (awaited cfg job sc AtReport (emit job (wc_resultTtlMs cfg) body (sc_report sc))) (\<lambda>_.
     awaited cfg job sc AtLastAck (ack_message sc AtLastAck))"

definition handle_error :: "worker_config \<Rightarrow> script \<Rightarrow> uet_job \<Rightarrow> int \<Rightarrow> worker_error \<Rightarrow> unit step" where
  "handle_error cfg sc job deliveries e r =
    (if rn_token r = Some Shutdown \<or> rn_token r = Some LeaseLost \<or> errorCode e = ''LEASE_LOST'' then (Inr (), r)
     else if rn_token r = Some Requested \<or> rn_token r = Some Deadline
     then report_and_ack cfg sc job (Cancelled (if rn_token r = Some Deadline then ''expired'' else ''requested'')) r
     else if isRetryable e \<and> deliveries < wc_maxDeliveryCount cfg then (Inr (), r)
     else report_and_ack cfg sc job (Failed (errorCode e) False) r)"

text \<open>The block that is run at last: an error in it replaces the outcome and skips the rest.\<close>

definition clean_up :: "script \<Rightarrow> (worker_error + unit) \<times> job_run \<Rightarrow> (worker_error + unit) \<times> job_run" where
  "clean_up sc = (\<lambda>(outcome, r).
     case (if rn_connected r then sc_disconnect sc else Inr ()) of
       Inl e \<Rightarrow> (Inl e, r)
     | Inr _ \<Rightarrow> (case sc_release sc of
         Inl e \<Rightarrow> (Inl e, r\<lparr>rn_connected := False\<rparr>)
       | Inr _ \<Rightarrow> (outcome, r\<lparr>rn_connected := False, rn_leased := False, rn_listed := False\<rparr>)))"

definition fresh_run :: "cancellation \<Rightarrow> job_run" where
  "fresh_run c = \<lparr>rn_token = c, rn_sequence = 0, rn_events = [], rn_acks = 0, rn_connected = False,
     rn_leased = True, rn_listed = True\<rparr>"

definition idle_run :: job_run where
  "idle_run = \<lparr>rn_token = None, rn_sequence = 0, rn_events = [], rn_acks = 0, rn_connected = False,
     rn_leased = False, rn_listed = False\<rparr>"

definition leased_run :: "automation_platform \<Rightarrow> worker_config \<Rightarrow> script \<Rightarrow> uet_job \<Rightarrow> int \<Rightarrow> (worker_error + unit) \<times> job_run" where
  "leased_run ap cfg sc job deliveries =
     clean_up sc (case run_job ap cfg sc job (fresh_run (token_create (job_deadline job) (sc_created sc))) of
       (Inl e, r) \<Rightarrow> handle_error cfg sc job deliveries e r
     | (Inr u, r) \<Rightarrow> (Inr u, r))"

definition message_envelope :: "stream_fields \<Rightarrow> string option" where
  "message_envelope kvs = (case (case map_of kvs ''jobEnvelope'' of Some s \<Rightarrow> Some s | None \<Rightarrow> map_of kvs ''job'') of
     None \<Rightarrow> None | Some s \<Rightarrow> if s = [] then None else Some s)"

definition message_job :: "automation_platform \<Rightarrow> worker_config \<Rightarrow> script \<Rightarrow> stream_message \<Rightarrow> uet_job option" where
  "message_job ap cfg sc msg = (case message_envelope (sm_fields msg) of
     None \<Rightarrow> None
   | Some envelope \<Rightarrow>
       (case sbind (codec_open ap (wc_keyring cfg) envelope (wc_jobEnvelopeAad cfg) (sc_opened sc))
          (\<lambda>v. parseUetImportJob v (sc_opened sc)) of Inl e \<Rightarrow> None | Inr job \<Rightarrow> Some job))"

definition process :: "automation_platform \<Rightarrow> worker_config \<Rightarrow> script \<Rightarrow> stream_message \<Rightarrow> (worker_error + unit) \<times> job_run" where
  "process ap cfg sc msg = (case message_job ap cfg sc msg of
     None \<Rightarrow> ack_message sc AtLastAck idle_run
   | Some job \<Rightarrow> (case sc_lease sc of
       Inl e \<Rightarrow> (Inl e, idle_run)
     | Inr False \<Rightarrow> (Inr (), idle_run)
     | Inr True \<Rightarrow> leased_run ap cfg sc job (sm_deliveryCount msg)))"

section \<open>Rounds of the consumer\<close>

text \<open>
  One round takes messages that have been idle too long, or new ones when there are none, and
  processes them in their order until the worker drains or a run throws.
\<close>

record round_script =
  rs_reclaimed :: int
  rs_read :: int
  rs_aborted :: bool
  rs_draining :: "nat \<Rightarrow> bool"
  rs_script :: "nat \<Rightarrow> script"

definition settle :: "worker_config \<Rightarrow> stream_message \<Rightarrow> job_run \<Rightarrow> broker \<Rightarrow> broker" where
  "settle cfg msg r b = (if rn_acks r = 0 then b
     else broker_ack b (wc_jobStream cfg) (wc_consumerGroup cfg) (sm_id msg))"

fun process_all ::
  "automation_platform \<Rightarrow> worker_config \<Rightarrow> round_script \<Rightarrow> nat \<Rightarrow> stream_message list \<Rightarrow> broker \<Rightarrow>
   (worker_error + nat) \<times> broker \<times> (stream_message \<times> job_run) list" where
  "process_all ap cfg rs i [] b = (Inr i, b, [])"
| "process_all ap cfg rs i (msg # msgs) b =
    (if rs_draining rs i then (Inr i, b, [])
     else (let (outcome, r) = process ap cfg (rs_script rs i) msg; b' = settle cfg msg r b in
       case outcome of
         Inl e \<Rightarrow> (Inl e, b', [(msg, r)])
       | Inr _ \<Rightarrow> (let (res, b'', done) = process_all ap cfg rs (i + 1) msgs b' in (res, b'', (msg, r) # done))))"

text \<open>
  The messages of a round. The group exists once it was ensured, so that the broker in memory
  answers both requests: the branches of its error are never taken.
\<close>

definition taken_messages :: "worker_config \<Rightarrow> round_script \<Rightarrow> broker \<Rightarrow> stream_message list \<times> broker" where
  "taken_messages cfg rs b =
    (let b1 = broker_ensureGroup b (wc_jobStream cfg) (wc_consumerGroup cfg) in
     case broker_reclaimPending b1 (wc_jobStream cfg) (wc_consumerGroup cfg) (wc_consumerName cfg) 10
        (wc_reclaimIdleMs cfg) (rs_reclaimed rs) (rs_aborted rs) of
       (Inr (m # ms), b2) \<Rightarrow> (m # ms, b2)
     | (_, b2) \<Rightarrow> (case broker_readGroup b2 (wc_jobStream cfg) (wc_consumerGroup cfg) (wc_consumerName cfg) 10
          (rs_read rs) (rs_aborted rs) of
         (Inr ms, b3) \<Rightarrow> (ms, b3) | (Inl e, b3) \<Rightarrow> ([], b3)))"

definition runOnce ::
  "automation_platform \<Rightarrow> worker_config \<Rightarrow> round_script \<Rightarrow> bool \<Rightarrow> broker \<Rightarrow>
   (worker_error + nat) \<times> broker \<times> (stream_message \<times> job_run) list" where
  "runOnce ap cfg rs draining b = (if draining then (Inr 0, b, [])
     else (let (msgs, b') = taken_messages cfg rs b in process_all ap cfg rs 0 msgs b'))"

end
