(* ===== verification/AutomationProtocolProps.thy ===== *)
theory AutomationProtocolProps
  imports AutomationProtocol SessionProps
begin

text \<open>
  What the wire protocol guarantees: an envelope opens under its key, which may have become the
  previous one, until it expires and never after; a job and an event that were made by the
  writers read back as they were; and a cursor accepts exactly the contiguous, unexpired events
  of its own job up to the first terminal one.
\<close>

section \<open>Dates of four-digit years\<close>

definition last_iso_time :: int where "last_iso_time = 253402300799999"

definition plain_time :: "int \<Rightarrow> bool" where
  "plain_time t \<longleftrightarrow> 0 \<le> t \<and> t \<le> last_iso_time"

lemma digit_char_digit: "digit_char (n mod 10) \<in> set digit_chars"
  by (rule digit_char_in) simp_all

lemma padded_picture: "list_all2 (\<lambda>p c. if p = CHR ''0'' then c \<in> set digit_chars else c = p) (replicate k CHR ''0'') (padded k n)"
proof (induction k arbitrary: n)
  case 0
  then show ?case by simp
next
  case (Suc k)
  have "replicate (Suc k) CHR ''0'' = replicate k CHR ''0'' @ [CHR ''0'']" by (simp add: replicate_append_same)
  with Suc [of "n div 10"] show ?case by (simp add: list_all2_appendI digit_char_digit del: replicate_Suc)
qed

lemma plain_year:
  assumes "plain_time t"
  shows "0 \<le> year_of_day (t div ms_per_day + epoch_day) \<and> year_of_day (t div ms_per_day + epoch_day) \<le> 9999"
proof -
  define day where "day = t div ms_per_day + epoch_day"
  have day: "0 \<le> day" "day < 3652425"
    using assms unfolding day_def plain_time_def last_iso_time_def ms_per_day_def epoch_day_def by linarith+
  have grow: "days_before_year a + int k \<le> days_before_year (a + int k)" for a k
  proof (induction k)
    case 0
    then show ?case by simp
  next
    case (Suc k)
    with days_before_year_mono [of "a + int k"] show ?case by (simp add: algebra_simps)
  qed
  have mono: "days_before_year a \<le> days_before_year b" if "a \<le> b" for a b
    using grow [of a "nat (b - a)"] that by simp
  have bounds: "days_before_year (year_of_day day) \<le> day" "day < days_before_year (year_of_day day + 1)"
    using year_of_day_bounds [of day] day by simp_all
  have "\<not> 10000 \<le> year_of_day day"
  proof
    assume "10000 \<le> year_of_day day"
    from mono [OF this] bounds(1) day(2) show False by (simp add: days_before_year_def)
  qed
  moreover have "\<not> year_of_day day + 1 \<le> 0"
  proof
    assume "year_of_day day + 1 \<le> 0"
    from mono [OF this] bounds(2) day(1) show False by (simp add: days_before_year_def)
  qed
  ultimately show ?thesis unfolding day_def by linarith
qed

lemma plain_time_pattern:
  assumes "plain_time t"
  shows "ISO_DATE_PATTERN (toISOString t)"
proof -
  have picture: "ISO_DATE_PICTURE = replicate 4 CHR ''0'' @ ''-'' @ replicate 2 CHR ''0'' @ ''-'' @ replicate 2 CHR ''0''
      @ ''T'' @ replicate 2 CHR ''0'' @ '':'' @ replicate 2 CHR ''0'' @ '':'' @ replicate 2 CHR ''0'' @ ''.'' @ replicate 3 CHR ''0'' @ ''Z''"
    by code_simp
  show ?thesis
    unfolding ISO_DATE_PATTERN_def picture toISOString_def Let_def iso_year_def
    using plain_year [OF assms]
    by (simp add: list_all2_appendI padded_picture del: padded.simps replicate.simps)
qed

lemma plain_time_range: "plain_time t \<Longrightarrow> - max_time \<le> t \<and> t \<le> max_time"
  by (simp add: plain_time_def last_iso_time_def max_time_def)

lemma canonicalIsoDate_printed: "plain_time t \<Longrightarrow> canonicalIsoDate (JStr (toISOString t)) = Some t"
  using plain_time_pattern plain_time_range [of t] canonicalTime_toISOString [of t] by simp

lemma canonicalIsoDate_text: "canonicalIsoDate (JStr s) = Some t \<Longrightarrow> ISO_DATE_PATTERN s \<and> s = toISOString t"
  by (auto simp: canonicalTime_Some_iff split: if_splits)

lemma assert_date_Inr: "assertCanonicalIsoDate s name = Inr t \<longleftrightarrow> canonicalIsoDate (JStr s) = Some t"
  by (auto simp: assertCanonicalIsoDate_def split: option.splits)

lemma if_Inl_Inr: "(if b then Inl e else Inr x) = Inr y \<longleftrightarrow> \<not> b \<and> x = y"
  by simp

lemma assert_window_Inr:
  "assertTimeWindow i e = Inr u \<longleftrightarrow>
     (\<exists>ti te. canonicalIsoDate (JStr i) = Some ti \<and> canonicalIsoDate (JStr e) = Some te \<and> ti < te)"
  by (auto simp: assertTimeWindow_def sbind_Inr_iff assert_date_Inr if_Inl_Inr simp del: canonicalIsoDate.simps)

lemma assert_not_expired:
  "canonicalIsoDate (JStr s) = Some t \<Longrightarrow>
   assertNotExpired s now code = (if t \<le> now then Inl (protocolError code ''The automation protocol value has expired.'') else Inr ())"
  by (simp add: assertNotExpired_def assertCanonicalIsoDate_def)

section \<open>Identifiers\<close>

lemma opaque_asserts: "opaqueIdSchema v \<longleftrightarrow> assertOpaqueId v = Inr ()"
  by (cases v) (auto simp: opaqueIdSchema_def assertOpaqueId_def decodeBase64Url_def split: option.splits)

lemma opaque_text: "opaqueIdSchema v \<Longrightarrow> v = JStr (text_of_value v)"
  by (cases v) (auto simp: opaqueIdSchema_def)

lemma created_id: "createOpaqueId bs = Inr s \<Longrightarrow> opaqueIdSchema (JStr s)"
  using token22_made [of bs]
  by (auto simp: createOpaqueId_def bytesFromRandomSource_def OPAQUE_ID_BYTES_def isBase64Url128_def opaqueIdSchema_def
      decodeBase64Url_def canonical_bytes_made sbind_Inr_iff split: if_splits option.splits)

section \<open>Envelopes\<close>

text \<open>
  What is assumed of the platform: AES-GCM opens what it sealed and adds a tag of sixteen bytes,
  and the JSON text of a value parses back.
\<close>

definition aes_opens :: "automation_platform \<Rightarrow> bool" where
  "aes_opens ap \<longleftrightarrow> (\<forall>key iv data p. ap_decrypt ap key iv data (ap_encrypt ap key iv data p) = Some p
     \<and> length (ap_encrypt ap key iv data p) = length p + 16)"

definition json_reads :: "automation_platform \<Rightarrow> jval \<Rightarrow> bool" where
  "json_reads ap v \<longleftrightarrow> ap_json ap v \<noteq> [] \<and> ap_parse ap (ap_json ap v) = Some v"

text \<open>The header of an envelope sealed under the current key. Its text has some two hundred bytes.\<close>

definition sealed_header :: "keyring \<Rightarrow> string \<Rightarrow> string \<Rightarrow> bytes \<Rightarrow> envelope_header" where
  "sealed_header kr i e random = \<lparr>eh_keyId = (case kr_current kr of None \<Rightarrow> [] | Some k \<Rightarrow> ak_id k),
     eh_nonce = toBase64Url random, eh_issuedAt = i, eh_expiresAt = e\<rparr>"

definition header_reads :: "automation_platform \<Rightarrow> envelope_header \<Rightarrow> bool" where
  "header_reads ap h \<longleftrightarrow> json_reads ap (header_value h) \<and> length (ap_json ap (header_value h)) \<le> 500000"

lemma assert_keyring_Inr:
  "assertKeyring kr = Inr k \<Longrightarrow> kr_current kr = Some k \<and> KEY_ID_PATTERN (ak_id k) \<and> assertKeyMaterial (ak_material k) = Inr ()"
  by (auto simp: assertKeyring_def assertKey_def assertKeyId_def sbind_Inr_iff split: option.splits if_splits)

lemma parse_header_value:
  assumes "KEY_ID_PATTERN (eh_keyId h)" "eh_nonce h = toBase64Url nonce" "length nonce = 12"
    and dates: "canonicalIsoDate (JStr (eh_issuedAt h)) = Some ti" "canonicalIsoDate (JStr (eh_expiresAt h)) = Some te" "ti < te"
  shows "parseHeader (header_value h) = Inr h"
proof -
  have nonce: "NONCE_PATTERN (eh_nonce h)" "decodeBase64Url (eh_nonce h) = Inr nonce"
    using assms(2,3) toBase64Url_chars [of _ nonce] toBase64Url_not_Nil [of nonce] canonical_bytes_made [of nonce]
    by (cases nonce; auto simp: NONCE_PATTERN_def BASE64URL_def length_toBase64Url list_all_iff decodeBase64Url_def)+
  have schema: "header_schema (header_value h)"
    using assms(1) nonce dates canonicalIsoDate_text
    by (simp add: header_schema_def header_value_def HEADER_KEYS_def AUTOMATION_PROTOCOL_VERSION_def del: canonicalIsoDate.simps)
  have "parsed_header (header_value h) = h" by (simp add: parsed_header_def header_value_def)
  with schema nonce dates assms(3) show ?thesis
    by (simp add: parseHeader_def del: canonicalIsoDate.simps) (simp add: header_value_def del: canonicalIsoDate.simps)
qed

lemma decode_encoded:
  assumes parsed: "parseHeader (header_value h) = Inr h" and reads: "header_reads ap h"
    and cipher: "17 \<le> length c" "length c \<le> MAX_ENVELOPE_BYTES + 16"
  shows "decodeEnvelope ap (encodeEnvelope ap h c) = Inr (h, c)"
proof -
  let ?hb = "ap_json ap (header_value h)"
  have ne: "?hb \<noteq> []" "c \<noteq> []" using reads cipher by (auto simp: header_reads_def json_reads_def)
  have "length ?hb \<le> 500000" using reads by (simp add: header_reads_def)
  then have "(4 * length ?hb + 2) div 3 \<le> 666667" "(4 * length c + 2) div 3 \<le> 1398124"
    using cipher(2) unfolding MAX_ENVELOPE_BYTES_def by linarith+
  then have len: "length (encodeEnvelope ap h c) \<le> MAX_ENVELOPE_BYTES * 2"
    by (simp add: encodeEnvelope_def length_toBase64Url MAX_ENVELOPE_BYTES_def)
  have "split_on CHR ''.'' (''aep1'' @ CHR ''.'' # toBase64Url ?hb @ CHR ''.'' # toBase64Url c) = [''aep1'', toBase64Url ?hb, toBase64Url c]"
    using split_on_append [of "CHR ''.''" "''aep1''"] split_on_append [OF toBase64Url_free(1), of ?hb]
      split_on_free [OF toBase64Url_free(1), of c] by simp
  then have parts: "split_on CHR ''.'' (encodeEnvelope ap h c) = [''aep1'', toBase64Url ?hb, toBase64Url c]"
    by (simp add: encodeEnvelope_def)
  show ?thesis
    unfolding decodeEnvelope_def parts
    using len ne parsed reads cipher(1)
    by (simp add: canonical_bytes_made header_reads_def json_reads_def decodeBase64Url_def)
qed

lemma encrypt_steps:
  assumes "encryptEnvelope ap payload kr aad i e random = Inr tok"
  obtains current ti te key data where
    "kr_current kr = Some current" "KEY_ID_PATTERN (ak_id current)"
    "canonicalIsoDate (JStr i) = Some ti" "canonicalIsoDate (JStr e) = Some te" "ti < te" "length random = 12"
    "importAesKey (ak_material current) ''encrypt'' = Inr key"
    "authenticatedData ap (sealed_header kr i e random) aad = Inr data"
    "length (ap_json ap payload) \<le> MAX_ENVELOPE_BYTES" "payload \<noteq> JUndefined"
    "tok = encodeEnvelope ap (sealed_header kr i e random) (ap_encrypt ap key random data (ap_json ap payload))"
proof -
  from assms obtain current key data where s: "assertKeyring kr = Inr current" "assertTimeWindow i e = Inr ()" "length random = 12"
    "importAesKey (ak_material current) ''encrypt'' = Inr key"
    "authenticatedData ap \<lparr>eh_keyId = ak_id current, eh_nonce = toBase64Url random, eh_issuedAt = i, eh_expiresAt = e\<rparr> aad = Inr data"
    "length (ap_json ap payload) \<le> MAX_ENVELOPE_BYTES" "payload \<noteq> JUndefined"
    "tok = encodeEnvelope ap \<lparr>eh_keyId = ak_id current, eh_nonce = toBase64Url random, eh_issuedAt = i, eh_expiresAt = e\<rparr>
       (ap_encrypt ap key random data (ap_json ap payload))"
    by (auto simp: encryptEnvelope_def sbind_Inr_iff bytesFromRandomSource_def serializeJson_def Let_def split: if_splits)
  have "sealed_header kr i e random = \<lparr>eh_keyId = ak_id current, eh_nonce = toBase64Url random, eh_issuedAt = i, eh_expiresAt = e\<rparr>"
    using assert_keyring_Inr [OF s(1)] by (simp add: sealed_header_def)
  with s assert_keyring_Inr [OF s(1)] show thesis
    using that unfolding assert_window_Inr by metis
qed

lemma decode_nonce: "length random = 12 \<Longrightarrow> decodeBase64Url (toBase64Url random) = Inr random"
  by (cases random) (simp_all add: decodeBase64Url_def canonical_bytes_made)

lemma sealed_opens:
  assumes enc: "encryptEnvelope ap payload kr aad i e random = Inr tok"
    and aes: "aes_opens ap" and reads: "json_reads ap payload" "header_reads ap (sealed_header kr i e random)"
  obtains current key te where
    "kr_current kr = Some current" "importAesKey (ak_material current) ''encrypt'' = Inr key"
    "canonicalIsoDate (JStr e) = Some te"
    "\<And>ring now any. assertKeyring ring = Inr any \<Longrightarrow> te \<le> now \<Longrightarrow>
       openEnvelope ap tok ring aad now = Inl (protocolError ENVELOPE_EXPIRED ''The automation protocol value has expired.'')"
    "\<And>ring now any x. assertKeyring ring = Inr any \<Longrightarrow> now < te \<Longrightarrow> findKey ring (ak_id current) = Inl x \<Longrightarrow>
       openEnvelope ap tok ring aad now = Inl x"
    "\<And>ring now any k rotated. assertKeyring ring = Inr any \<Longrightarrow> now < te \<Longrightarrow> findKey ring (ak_id current) = Inr (k, rotated) \<Longrightarrow>
       importAesKey (ak_material k) ''decrypt'' = Inr key \<Longrightarrow>
       \<exists>opened. openEnvelope ap tok ring aad now = Inr opened \<and> oe_payload opened = payload
         \<and> oe_keyId opened = ak_id current \<and> oe_rotated opened = rotated"
proof -
  from encrypt_steps [OF enc] obtain current ti te key data where s:
    "kr_current kr = Some current" "KEY_ID_PATTERN (ak_id current)"
    "canonicalIsoDate (JStr i) = Some ti" "canonicalIsoDate (JStr e) = Some te" "ti < te" "length random = 12"
    "importAesKey (ak_material current) ''encrypt'' = Inr key"
    "authenticatedData ap (sealed_header kr i e random) aad = Inr data"
    "length (ap_json ap payload) \<le> MAX_ENVELOPE_BYTES" "payload \<noteq> JUndefined"
    "tok = encodeEnvelope ap (sealed_header kr i e random) (ap_encrypt ap key random data (ap_json ap payload))"
    by blast
  let ?h = "sealed_header kr i e random" and ?c = "ap_encrypt ap key random data (ap_json ap payload)"
  have h: "eh_keyId ?h = ak_id current" "eh_nonce ?h = toBase64Url random" "eh_issuedAt ?h = i" "eh_expiresAt ?h = e"
    using s(1) by (simp_all add: sealed_header_def)
  have parsed: "parseHeader (header_value ?h) = Inr ?h"
    by (rule parse_header_value [of _ random ti te]) (use s h in simp_all)
  have "17 \<le> length ?c" "length ?c \<le> MAX_ENVELOPE_BYTES + 16"
    using aes reads(1) s(9) by (cases "ap_json ap payload"; auto simp: aes_opens_def json_reads_def)+
  note decoded = decode_encoded [OF parsed reads(2) this, folded s(11)]
  have opened: "Option.bind (ap_decrypt ap key random data ?c) (ap_parse ap) = Some payload"
    using aes reads(1) by (simp add: aes_opens_def json_reads_def)
  have expired: "openEnvelope ap tok ring aad now = Inl (protocolError ENVELOPE_EXPIRED ''The automation protocol value has expired.'')"
    if "assertKeyring ring = Inr any" "te \<le> now" for ring now any
    unfolding openEnvelope_def that(1) decoded using assert_not_expired [OF s(4)] h that(2) by simp
  have unknown: "openEnvelope ap tok ring aad now = Inl x"
    if "assertKeyring ring = Inr any" "now < te" "findKey ring (ak_id current) = Inl x" for ring now any x
    unfolding openEnvelope_def that(1) decoded using assert_not_expired [OF s(4)] h that(2,3) by simp
  have known: "\<exists>opened. openEnvelope ap tok ring aad now = Inr opened \<and> oe_payload opened = payload
      \<and> oe_keyId opened = ak_id current \<and> oe_rotated opened = rotated"
    if "assertKeyring ring = Inr any" "now < te" "findKey ring (ak_id current) = Inr (k, rotated)"
      "importAesKey (ak_material k) ''decrypt'' = Inr key" for ring now any k rotated
    unfolding openEnvelope_def that(1) decoded
    using assert_not_expired [OF s(4)] h that(2-4) opened decode_nonce [OF s(6)] s(8) by simp
  show thesis by (rule that [OF s(1,7,4) expired unknown known])
qed

lemma sealed_decrypts:
  assumes enc: "encryptEnvelope ap payload kr aad i e random = Inr tok"
    and laws: "aes_opens ap" "json_reads ap payload" "header_reads ap (sealed_header kr i e random)"
    and time: "canonicalIsoDate (JStr e) = Some t" "now < t"
    and raw: "kr_current kr = Some k" "ak_material k = RawMaterial bs"
  shows "decryptEnvelope ap tok kr aad now = Inr payload"
proof (rule sealed_opens [OF enc laws])
  fix current key te
  assume s: "kr_current kr = Some current" "importAesKey (ak_material current) ''encrypt'' = Inr key"
      "canonicalIsoDate (JStr e) = Some te"
    and known: "\<And>ring now any k rotated. assertKeyring ring = Inr any \<Longrightarrow> now < te \<Longrightarrow> findKey ring (ak_id current) = Inr (k, rotated) \<Longrightarrow>
       importAesKey (ak_material k) ''decrypt'' = Inr key \<Longrightarrow>
       \<exists>opened. openEnvelope ap tok ring aad now = Inr opened \<and> oe_payload opened = payload
         \<and> oe_keyId opened = ak_id current \<and> oe_rotated opened = rotated"
  have c: "current = k" "te = t" using s(1,3) raw(1) time(1) by (simp_all del: canonicalIsoDate.simps)
  have "\<exists>any. assertKeyring kr = Inr any" using enc by (auto simp: encryptEnvelope_def sbind_Inr_iff)
  then obtain any where ring: "assertKeyring kr = Inr any" ..
  have find: "findKey kr (ak_id current) = Inr (k, False)" using raw(1) by (simp add: findKey_def c)
  have key: "importAesKey (ak_material k) ''decrypt'' = Inr key" using s(2) raw(2) by (simp add: c)
  from known [OF ring _ find key] time(2) show ?thesis unfolding decryptEnvelope_def c by fastforce
qed

lemma encrypt_made:
  assumes "assertKeyring kr = Inr current" "canonicalIsoDate (JStr i) = Some ti" "canonicalIsoDate (JStr e) = Some te" "ti < te"
    "length random = 12" "importAesKey (ak_material current) ''encrypt'' = Inr key"
    "authenticatedData ap (sealed_header kr i e random) aad = Inr data"
    "payload \<noteq> JUndefined" "length (ap_json ap payload) \<le> MAX_ENVELOPE_BYTES"
  shows "encryptEnvelope ap payload kr aad i e random
    = Inr (encodeEnvelope ap (sealed_header kr i e random) (ap_encrypt ap key random data (ap_json ap payload)))"
proof -
  have "assertTimeWindow i e = Inr ()" using assms(2-4) by (simp add: assert_window_Inr del: canonicalIsoDate.simps)
  moreover have "sealed_header kr i e random = \<lparr>eh_keyId = ak_id current, eh_nonce = toBase64Url random, eh_issuedAt = i, eh_expiresAt = e\<rparr>"
    using assert_keyring_Inr [OF assms(1)] by (simp add: sealed_header_def)
  ultimately show ?thesis
    using assms by (simp add: encryptEnvelope_def bytesFromRandomSource_def serializeJson_def Let_def)
qed

text \<open>
  C28. An envelope opens under its key until it expires. Whatever key ring it is presented to,
  the envelope is refused as expired from its expiry on; before it, a ring that does not know
  the key's identifier refuses it, and a ring that holds the key, as its current or its
  previous one, returns the payload and tells whether the key has been rotated out.
\<close>

theorem envelope_lifecycle:
  assumes enc: "encryptEnvelope ap payload kr aad i e random = Inr tok"
    and aes: "aes_opens ap" and reads: "json_reads ap payload" "header_reads ap (sealed_header kr i e random)"
  shows "\<exists>current key te. kr_current kr = Some current \<and> importAesKey (ak_material current) ''encrypt'' = Inr key
   \<and> canonicalIsoDate (JStr e) = Some te
   \<and> (\<forall>ring now any. assertKeyring ring = Inr any \<longrightarrow>
       (te \<le> now \<longrightarrow> openEnvelope ap tok ring aad now
          = Inl (protocolError ENVELOPE_EXPIRED ''The automation protocol value has expired.''))
     \<and> (now < te \<longrightarrow> (case findKey ring (ak_id current) of
          Inl x \<Rightarrow> openEnvelope ap tok ring aad now = Inl x
        | Inr (k, rotated) \<Rightarrow> importAesKey (ak_material k) ''decrypt'' = Inr key \<longrightarrow>
            (\<exists>opened. openEnvelope ap tok ring aad now = Inr opened \<and> oe_payload opened = payload
               \<and> oe_keyId opened = ak_id current \<and> oe_rotated opened = rotated))))"
proof -
  from sealed_opens [OF assms] obtain current key te where
    s: "kr_current kr = Some current" "importAesKey (ak_material current) ''encrypt'' = Inr key"
      "canonicalIsoDate (JStr e) = Some te"
    and opens: "\<And>ring now any. assertKeyring ring = Inr any \<Longrightarrow> te \<le> now \<Longrightarrow>
       openEnvelope ap tok ring aad now = Inl (protocolError ENVELOPE_EXPIRED ''The automation protocol value has expired.'')"
    "\<And>ring now any x. assertKeyring ring = Inr any \<Longrightarrow> now < te \<Longrightarrow> findKey ring (ak_id current) = Inl x \<Longrightarrow>
       openEnvelope ap tok ring aad now = Inl x"
    "\<And>ring now any k rotated. assertKeyring ring = Inr any \<Longrightarrow> now < te \<Longrightarrow> findKey ring (ak_id current) = Inr (k, rotated) \<Longrightarrow>
       importAesKey (ak_material k) ''decrypt'' = Inr key \<Longrightarrow>
       \<exists>opened. openEnvelope ap tok ring aad now = Inr opened \<and> oe_payload opened = payload
         \<and> oe_keyId opened = ak_id current \<and> oe_rotated opened = rotated"
    by blast
  show ?thesis
    by (intro exI [of _ current] exI [of _ key] exI [of _ te] conjI allI impI s)
      (use opens in \<open>simp_all split: sum.split prod.split\<close>)
qed

definition sample_protocol :: "jval \<Rightarrow> envelope_header \<Rightarrow> automation_platform" where
  "sample_protocol payload h = \<lparr>ap_json = (\<lambda>v. if v = payload then [1] else [2]),
     ap_parse = (\<lambda>bs. if bs = [1] then Some payload else if bs = [2] then Some (header_value h) else None),
     ap_encrypt = (\<lambda>key iv data p. p @ replicate 16 0), ap_decrypt = (\<lambda>key iv data c. Some (take (length c - 16) c))\<rparr>"

definition sample_ring :: keyring where
  "sample_ring = \<lparr>kr_current = Some \<lparr>ak_id = ''k1'', ak_material = RawMaterial (replicate 32 7)\<rparr>, kr_previous = None\<rparr>"

definition rotated_ring :: keyring where
  "rotated_ring = \<lparr>kr_current = Some \<lparr>ak_id = ''k2'', ak_material = RawMaterial (replicate 32 8)\<rparr>, kr_previous = kr_current sample_ring\<rparr>"

theorem envelope_lifecycle_witness:
  "\<exists>tok opened. let h = sealed_header sample_ring (toISOString 0) (toISOString 60000) (replicate 12 0);
       ap = sample_protocol (JStr ''x'') h; aad = TextAad ''job'' in
     encryptEnvelope ap (JStr ''x'') sample_ring aad (toISOString 0) (toISOString 60000) (replicate 12 0) = Inr tok
   \<and> openEnvelope ap tok rotated_ring aad 59999 = Inr opened \<and> oe_payload opened = JStr ''x'' \<and> oe_rotated opened
   \<and> openEnvelope ap tok rotated_ring aad 60000
       = Inl (protocolError ENVELOPE_EXPIRED ''The automation protocol value has expired.'')"
proof -
  let ?h = "sealed_header sample_ring (toISOString 0) (toISOString 60000) (replicate 12 0)"
  let ?ap = "sample_protocol (JStr ''x'') ?h" and ?aad = "TextAad ''job''"
  have dates: "canonicalIsoDate (JStr (toISOString 0)) = Some 0" "canonicalIsoDate (JStr (toISOString 60000)) = Some 60000"
    by (rule canonicalIsoDate_printed; simp add: plain_time_def last_iso_time_def)+
  then have window: "assertTimeWindow (toISOString 0) (toISOString 60000) = Inr ()" by (simp add: assert_window_Inr del: canonicalIsoDate.simps)
  have k: "KEY_ID_PATTERN ''k1''" "KEY_ID_PATTERN ''k2''" by code_simp+
  have ring: "assertKeyring sample_ring = Inr \<lparr>ak_id = ''k1'', ak_material = RawMaterial (replicate 32 7)\<rparr>"
    using k by (simp add: sample_ring_def assertKeyring_def assertKey_def assertKeyId_def)
  have ring2: "assertKeyring rotated_ring = Inr \<lparr>ak_id = ''k2'', ak_material = RawMaterial (replicate 32 8)\<rparr>"
    using k by (simp add: rotated_ring_def sample_ring_def assertKeyring_def assertKey_def assertKeyId_def)
  have aad: "aadBytes ?aad = Inr (utf8 ''job'')" by code_simp
  obtain tok where enc: "encryptEnvelope ?ap (JStr ''x'') sample_ring ?aad (toISOString 0) (toISOString 60000) (replicate 12 0) = Inr tok"
    using aad by (simp add: encryptEnvelope_def ring window bytesFromRandomSource_def authenticatedData_def serializeJson_def
        sample_protocol_def MAX_ENVELOPE_BYTES_def)
  have laws: "aes_opens ?ap" "json_reads ?ap (JStr ''x'')" "header_reads ?ap ?h"
    by (simp_all add: aes_opens_def json_reads_def header_reads_def sample_protocol_def header_value_def)
  have find: "findKey rotated_ring ''k1'' = Inr (\<lparr>ak_id = ''k1'', ak_material = RawMaterial (replicate 32 7)\<rparr>, True)"
    by (simp add: findKey_def rotated_ring_def sample_ring_def)
  from envelope_lifecycle [OF enc laws] obtain current key te where
      l: "kr_current sample_ring = Some current" "importAesKey (ak_material current) ''encrypt'' = Inr key"
         "canonicalIsoDate (JStr (toISOString 60000)) = Some te"
    and life: "\<forall>ring now any. assertKeyring ring = Inr any \<longrightarrow>
       (te \<le> now \<longrightarrow> openEnvelope ?ap tok ring ?aad now
          = Inl (protocolError ENVELOPE_EXPIRED ''The automation protocol value has expired.''))
     \<and> (now < te \<longrightarrow> (case findKey ring (ak_id current) of
          Inl x \<Rightarrow> openEnvelope ?ap tok ring ?aad now = Inl x
        | Inr (k, rotated) \<Rightarrow> importAesKey (ak_material k) ''decrypt'' = Inr key \<longrightarrow>
            (\<exists>opened. openEnvelope ?ap tok ring ?aad now = Inr opened \<and> oe_payload opened = JStr ''x''
               \<and> oe_keyId opened = ak_id current \<and> oe_rotated opened = rotated)))"
    by (elim exE conjE) (rule that, assumption+)
  have te: "te = 60000" using l(3) dates(2) by (simp del: canonicalIsoDate.simps)
  have c: "current = \<lparr>ak_id = ''k1'', ak_material = RawMaterial (replicate 32 7)\<rparr>" "key = replicate 32 7"
    using l(1,2) by (simp_all add: sample_ring_def) auto
  note life2 = life [THEN spec, THEN spec, THEN spec, THEN mp, OF ring2]
  from life2 [of 59999] life2 [of 60000] enc show ?thesis
    unfolding te by (auto simp: Let_def c find)
qed

section \<open>Events in order\<close>

definition of_cursor :: "event_cursor \<Rightarrow> automation_event \<Rightarrow> bool" where
  "of_cursor cursor e \<longleftrightarrow> ev_jobId e = ec_jobId cursor \<and> ev_accountId e = ec_accountId cursor \<and> ev_fence e = ec_fence cursor"

text \<open>The events of a job in their order: contiguous numbers, nothing after a terminal one.\<close>

fun in_sequence :: "int \<Rightarrow> bool \<Rightarrow> automation_event list \<Rightarrow> bool" where
  "in_sequence lastSequence terminal [] = True"
| "in_sequence lastSequence terminal (e # es) =
     (\<not> terminal \<and> ev_sequence e = lastSequence + 1 \<and> in_sequence (ev_sequence e) (isTerminalEvent (ev_body e)) es)"

definition advance :: "event_cursor \<Rightarrow> automation_event list \<Rightarrow> event_cursor" where
  "advance cursor es = (if es = [] then cursor
     else cursor\<lparr>ec_lastSequence := ec_lastSequence cursor + int (length es), ec_terminal := isTerminalEvent (ev_body (last es))\<rparr>)"

lemma validate_next_Inr:
  "validateNextAutomationEvent v cursor now = Inr cursor' \<longleftrightarrow>
     (\<exists>e. parseAutomationEvent v now = Inr e \<and> of_cursor cursor e \<and> \<not> ec_terminal cursor
        \<and> ev_sequence e = ec_lastSequence cursor + 1
        \<and> cursor' = cursor\<lparr>ec_lastSequence := ev_sequence e, ec_terminal := isTerminalEvent (ev_body e)\<rparr>)"
  by (auto simp: validateNextAutomationEvent_def sbind_Inr_iff of_cursor_def split: if_splits)

lemma numbered_Cons:
  "map ev_sequence (e # es) = map (\<lambda>k. n + 1 + int k) [0..<length (e # es)] \<longleftrightarrow>
     ev_sequence e = n + 1 \<and> map ev_sequence es = map (\<lambda>k. n + 1 + 1 + int k) [0..<length es]"
proof -
  have "[0..<length (e # es)] = 0 # map Suc [0..<length es]" by (simp add: upt_conv_Cons map_Suc_upt del: upt_Suc)
  moreover have "(\<lambda>k. n + 1 + int k) \<circ> Suc = (\<lambda>k. n + 1 + 1 + int k)" by (simp add: fun_eq_iff)
  ultimately show ?thesis by (simp del: upt_Suc)
qed

lemma in_sequence_iff:
  "in_sequence n b es \<longleftrightarrow> map ev_sequence es = map (\<lambda>k. n + 1 + int k) [0..<length es]
     \<and> list_all (\<lambda>e. \<not> isTerminalEvent (ev_body e)) (butlast es) \<and> (es = [] \<or> \<not> b)"
proof (induction es arbitrary: n b)
  case Nil
  then show ?case by simp
next
  case (Cons e es)
  show ?case
    unfolding in_sequence.simps numbered_Cons Cons.IH by (cases es) auto
qed

lemma validate_sequence_Inr:
  "validateAutomationEventSequence vs cursor now = Inr cursor' \<longleftrightarrow>
     (\<exists>es. traverse (\<lambda>v. parseAutomationEvent v now) vs = Inr es \<and> list_all (of_cursor cursor) es
        \<and> in_sequence (ec_lastSequence cursor) (ec_terminal cursor) es \<and> cursor' = advance cursor es)"
proof (induction vs arbitrary: cursor)
  case Nil
  then show ?case by (auto simp: advance_def)
next
  case (Cons v vs)
  let ?up = "\<lambda>e. cursor\<lparr>ec_lastSequence := ev_sequence e, ec_terminal := isTerminalEvent (ev_body e)\<rparr>"
  have adv: "advance (?up e) es = advance cursor (e # es)" if "ev_sequence e = ec_lastSequence cursor + 1" for e es
    using that by (simp add: advance_def)
  have same: "of_cursor (cursor\<lparr>ec_lastSequence := n, ec_terminal := b\<rparr>) = of_cursor cursor" for n b by (simp add: of_cursor_def fun_eq_iff)
  show ?case (is "?l \<longleftrightarrow> ?r")
  proof
    assume ?l
    then obtain e es where "parseAutomationEvent v now = Inr e" "of_cursor cursor e" "\<not> ec_terminal cursor"
      "ev_sequence e = ec_lastSequence cursor + 1" "traverse (\<lambda>v. parseAutomationEvent v now) vs = Inr es"
      "list_all (of_cursor cursor) es" "in_sequence (ev_sequence e) (isTerminalEvent (ev_body e)) es" "cursor' = advance (?up e) es"
      by (auto simp: sbind_Inr_iff validate_next_Inr Cons.IH same)
    with adv [of e es] show ?r by (intro exI [of _ "e # es"]) simp
  next
    assume ?r
    then obtain e es where "parseAutomationEvent v now = Inr e" "traverse (\<lambda>v. parseAutomationEvent v now) vs = Inr es"
      "list_all (of_cursor cursor) (e # es)" "in_sequence (ec_lastSequence cursor) (ec_terminal cursor) (e # es)"
      "cursor' = advance cursor (e # es)"
      by (auto simp: sbind_Inr_iff)
    moreover from this adv [of e es] have "validateAutomationEventSequence vs (?up e) now = Inr cursor'"
      unfolding Cons.IH same by (intro exI [of _ es]) auto
    ultimately show ?l by (simp add: sbind_Inr_iff validate_next_Inr)
  qed
qed

text \<open>
  The cursor of a job accepts exactly the job's events in order. A sequence of messages is
  accepted if and only if each of them is a valid, unexpired event of the cursor's job, account
  and fence, their numbers continue the cursor's without a gap, and none comes after a terminal
  event; the cursor then stands at the last of them and is closed exactly when that one is
  terminal.
\<close>

theorem event_sequence_exact:
  "validateAutomationEventSequence vs cursor now = Inr cursor' \<longleftrightarrow>
     (\<exists>es. list_all2 (\<lambda>v e. parseAutomationEvent v now = Inr e) vs es \<and> list_all (of_cursor cursor) es
        \<and> map ev_sequence es = map (\<lambda>k. ec_lastSequence cursor + 1 + int k) [0..<length es]
        \<and> list_all (\<lambda>e. \<not> isTerminalEvent (ev_body e)) (butlast es)
        \<and> (if es = [] then cursor' = cursor
           else \<not> ec_terminal cursor \<and> cursor' = cursor\<lparr>ec_lastSequence := ec_lastSequence cursor + int (length es),
             ec_terminal := isTerminalEvent (ev_body (last es))\<rparr>))"
  unfolding validate_sequence_Inr traverse_Inr_iff in_sequence_iff by (auto simp: advance_def)

section \<open>What the writers make reads back\<close>

definition event_ok :: "automation_event \<Rightarrow> bool" where
  "event_ok e \<longleftrightarrow> opaqueIdSchema (JStr (ev_jobId e)) \<and> opaqueIdSchema (JStr (ev_accountId e)) \<and>
     safe_number 1 (JInt (ev_fence e)) \<and> safe_number 0 (JInt (ev_sequence e)) \<and>
     (\<exists>ti te. canonicalIsoDate (JStr (ev_emittedAt e)) = Some ti \<and> canonicalIsoDate (JStr (ev_expiresAt e)) = Some te \<and> ti < te)"

fun body_ok :: "event_body \<Rightarrow> bool" where
  "body_ok (Progress ph n) = (ph \<in> set PHASES \<and> 0 \<le> n \<and> n \<le> 100)"
| "body_ok (ChallengeRequired c i) = (opaqueIdSchema (JStr c) \<and> sized_text 350000 (JStr i))"
| "body_ok (Succeeded r) = (case r of None \<Rightarrow> True | Some s \<Rightarrow> envelopeReferenceSchema (JStr s))"
| "body_ok (Failed c r) = FAILURE_CODE_PATTERN c"
| "body_ok (Cancelled r) = (r \<in> set CANCEL_REASONS)"
| "body_ok _ = True"

lemma event_value_props:
  "prop_of ''version'' (event_value e) = JInt 1" "prop_of ''type'' (event_value e) = JStr (event_kind (ev_body e))"
  "prop_of ''jobId'' (event_value e) = JStr (ev_jobId e)" "prop_of ''accountId'' (event_value e) = JStr (ev_accountId e)"
  "prop_of ''fence'' (event_value e) = JInt (ev_fence e)" "prop_of ''sequence'' (event_value e) = JInt (ev_sequence e)"
  "prop_of ''emittedAt'' (event_value e) = JStr (ev_emittedAt e)" "prop_of ''expiresAt'' (event_value e) = JStr (ev_expiresAt e)"
  by (simp_all add: event_value_def)

lemma event_value_body: "event_body_of (event_value e) = (if body_ok (ev_body e) then Some (ev_body e) else None)"
proof (cases "ev_body e")
  case (Progress ph n)
  then show ?thesis
    by (auto simp: event_body_of_def event_value_def exact_event_def EVENT_BASE_KEYS_def Let_def safe_integer_def max_safe_integer_def)
next
  case (Succeeded r)
  then show ?thesis
    by (cases r) (auto simp: event_body_of_def event_value_def exact_event_def EVENT_BASE_KEYS_def Let_def absent_or_def)
qed (auto simp: event_body_of_def event_value_def exact_event_def EVENT_BASE_KEYS_def Let_def)

lemma event_of_value: "event_of (event_value e) (ev_body e) = e"
  by (simp add: event_of_def event_value_props)

lemma assert_event_value:
  "assertAutomationEvent (event_value e) = Inr e' \<longleftrightarrow> event_ok e \<and> body_ok (ev_body e) \<and> e' = e"
proof -
  have challenge: "prop_of ''challengeId'' (event_value e) = JStr c" if "ev_body e = ChallengeRequired c i" for c i
    using that by (simp add: event_value_def)
  have base: "event_ok e \<longleftrightarrow> eventBase (event_value e) \<and> assertTimeWindow (ev_emittedAt e) (ev_expiresAt e) = Inr ()"
    by (auto simp: eventBase_def event_value_props event_ok_def Let_def assert_window_Inr canonicalDateSchema_def simp del: canonicalIsoDate.simps)
  have ids: "eventBase (event_value e) \<Longrightarrow> assertOpaqueId (JStr (ev_jobId e)) = Inr () \<and> assertOpaqueId (JStr (ev_accountId e)) = Inr ()"
    by (simp add: eventBase_def event_value_props Let_def opaque_asserts)
  have body: "body_ok (ev_body e) \<Longrightarrow> (case ev_body e of ChallengeRequired c i \<Rightarrow> assertOpaqueId (prop_of ''challengeId'' (event_value e)) | _ \<Rightarrow> Inr ()) = Inr ()"
    by (auto simp: challenge opaque_asserts split: event_body.split)
  show ?thesis
  proof (cases "eventBase (event_value e) \<and> body_ok (ev_body e)")
    case True
    then show ?thesis
      using ids body
      by (auto simp: base assertAutomationEvent_def event_value_body event_of_value event_value_props sbind_Inr_iff)
  next
    case False
    then show ?thesis by (auto simp: base assertAutomationEvent_def event_value_body split: bool.split)
  qed
qed

lemma parse_event_value:
  assumes "event_ok e" "body_ok (ev_body e)"
  shows "parseAutomationEvent (event_value e) now =
    (if (\<exists>t. canonicalIsoDate (JStr (ev_expiresAt e)) = Some t \<and> t \<le> now)
     then Inl (protocolError EVENT_EXPIRED ''The automation protocol value has expired.'') else Inr e)"
proof -
  from assms(1) obtain te where te: "canonicalIsoDate (JStr (ev_expiresAt e)) = Some te" by (auto simp: event_ok_def)
  have "assertAutomationEvent (event_value e) = Inr e" using assms by (simp add: assert_event_value)
  with te show ?thesis by (simp add: parseAutomationEvent_def assert_not_expired [OF te] del: canonicalIsoDate.simps)
qed

definition job_ok :: "uet_job \<Rightarrow> bool" where
  "job_ok job \<longleftrightarrow> opaqueIdSchema (JStr (uj_jobId job)) \<and> opaqueIdSchema (JStr (uj_accountId job)) \<and>
     safe_number 1 (JInt (uj_fence job)) \<and> envelopeReferenceSchema (JStr (uj_credentialEnvelope job)) \<and>
     (case uj_expectedStudentCode job of None \<Rightarrow> True | Some s \<Rightarrow> sized_text 128 (JStr s)) \<and>
     (\<exists>ti te. canonicalIsoDate (JStr (uj_issuedAt job)) = Some ti \<and> canonicalIsoDate (JStr (uj_expiresAt job)) = Some te \<and> ti < te)"

lemma job_value_of: "job_of (job_value job) = job"
  by (cases "uj_expectedStudentCode job") (simp_all add: job_of_def job_value_def)

lemma assert_job_value: "assertUetImportJob (job_value job) = Inr job' \<longleftrightarrow> job_ok job \<and> job' = job"
proof -
  have schema: "uetImportJobSchema (job_value job) \<and> assertTimeWindow (uj_issuedAt job) (uj_expiresAt job) = Inr () \<longleftrightarrow> job_ok job"
    by (cases "uj_expectedStudentCode job")
      (auto simp: uetImportJobSchema_def job_value_def JOB_KEYS_def Let_def absent_or_def job_ok_def assert_window_Inr
        canonicalDateSchema_def simp del: canonicalIsoDate.simps)
  have ids: "uetImportJobSchema (job_value job) \<Longrightarrow>
      assertOpaqueId (prop_of ''jobId'' (job_value job)) = Inr () \<and> assertOpaqueId (prop_of ''accountId'' (job_value job)) = Inr ()"
    by (simp add: uetImportJobSchema_def Let_def opaque_asserts)
  show ?thesis
    unfolding schema [symmetric] assertUetImportJob_def job_value_of using ids by (auto simp: sbind_Inr_iff)
qed

lemma matches_text: "matches P v \<Longrightarrow> v = JStr (text_of_value v) \<and> P (text_of_value v)"
  by (cases v) auto

lemma safe_number_int: "safe_number k v \<Longrightarrow> v = JInt (int_of_value v)"
  by (cases v) auto

lemma text_option_absent: "absent_or (sized_text n) v \<Longrightarrow> case text_option v of None \<Rightarrow> True | Some s \<Rightarrow> sized_text n (JStr s)"
  by (cases v) (auto simp: absent_or_def)

lemma parsed_job: "assertUetImportJob v = Inr job \<Longrightarrow> job_ok job"
proof -
  assume a: "assertUetImportJob v = Inr job"
  then have j: "job = job_of v" "uetImportJobSchema v" "assertTimeWindow (uj_issuedAt job) (uj_expiresAt job) = Inr ()"
    by (auto simp: assertUetImportJob_def sbind_Inr_iff split: if_splits)
  from j(2) have t: "prop_of ''jobId'' v = JStr (uj_jobId job)" "prop_of ''accountId'' v = JStr (uj_accountId job)"
    unfolding uetImportJobSchema_def Let_def j(1) job_of_def by (auto dest!: opaque_text)
  have f: "prop_of ''fence'' v = JInt (uj_fence job)" "prop_of ''credentialEnvelope'' v = JStr (uj_credentialEnvelope job)"
    using j(2) unfolding uetImportJobSchema_def envelopeReferenceSchema_def Let_def j(1) job_of_def
    by (auto dest: safe_number_int matches_text)
  have "case uj_expectedStudentCode job of None \<Rightarrow> True | Some s \<Rightarrow> sized_text 128 (JStr s)"
    using j(2) text_option_absent [of 128] by (simp add: uetImportJobSchema_def Let_def j(1) job_of_def)
  moreover have "opaqueIdSchema (JStr (uj_jobId job))" "opaqueIdSchema (JStr (uj_accountId job))"
    "safe_number 1 (JInt (uj_fence job))" "envelopeReferenceSchema (JStr (uj_credentialEnvelope job))"
    unfolding t [symmetric] f [symmetric] using j(2) by (simp_all add: uetImportJobSchema_def Let_def)
  ultimately show ?thesis using j(3) by (simp add: job_ok_def assert_window_Inr del: canonicalIsoDate.simps)
qed

end
