(* ===== verification/AutomationTransportProps.thy ===== *)
theory AutomationTransportProps
  imports AutomationTransport
begin

text \<open>
  What the transport guarantees: an acquisition is refused exactly while a lease of the job is
  held, and at most one is; a message that a group has taken is pending exactly until it is
  acknowledged, so that none is lost, and its deliveries are counted.
\<close>

section \<open>Leases\<close>

definition lease_inv :: "int \<Rightarrow> lease_world \<Rightarrow> bool" where
  "lease_inv t w \<longleftrightarrow> (case w of (st, hs) \<Rightarrow>
     distinct (map jl_token hs)
   \<and> (\<forall>job r. st job = Some r \<and> t < lr_expiresAt r \<longrightarrow>
        (\<exists>l \<in> set hs. jl_jobId l = job \<and> jl_token l = lr_token r \<and> jl_fence l = lr_fence r \<and> \<not> jl_released l)))"

lemma lease_inv_later: "lease_inv t w \<Longrightarrow> t \<le> now \<Longrightarrow> lease_inv now w"
  unfolding lease_inv_def by (cases w) fastforce

lemma unique_token: "distinct (map jl_token hs) \<Longrightarrow> l \<in> set hs \<Longrightarrow> l' \<in> set hs \<Longrightarrow> jl_token l = jl_token l' \<Longrightarrow> l = l'"
  by (metis distinct_map inj_onD)

lemma lease_step_inv:
  assumes "lease_inv now w" "lease_ok w (now, c)"
  shows "lease_inv now (lease_step w (now, c))"
proof -
  obtain st hs where w: "w = (st, hs)" by (cases w)
  have d: "distinct (map jl_token hs)"
    and kept: "\<And>job r. st job = Some r \<Longrightarrow> now < lr_expiresAt r \<Longrightarrow>
        \<exists>l \<in> set hs. jl_jobId l = job \<and> jl_token l = lr_token r \<and> jl_fence l = lr_fence r \<and> \<not> jl_released l"
    using assms(1) by (auto simp: lease_inv_def w)
  show ?thesis
  proof (cases c)
    case (Acquire job fence ttl token)
    then show ?thesis
      using assms(2) d kept unfolding w lease_inv_def
      by (auto simp: lease_acquire_def split: option.splits if_splits)
  next
    case (Renew i)
    show ?thesis
    proof (cases "i < length hs \<and> lease_held st (hs ! i) now")
      case True
      then have "\<not> jl_released (hs ! i)" "hs ! i \<in> set hs" by (simp_all add: lease_held_def)
      with True d kept show ?thesis
        unfolding w lease_inv_def Renew by (auto simp: lease_renew_def lease_held_def)
    next
      case False
      with d kept show ?thesis
        unfolding w lease_inv_def Renew by (auto simp: lease_renew_def lease_held_def)
    qed
  next
    case (Release i)
    show ?thesis
    proof (cases "i < length hs")
      case True
      let ?l = "hs ! i" and ?hs = "hs[i := (hs ! i)\<lparr>jl_released := True\<rparr>]"
      let ?st = "if owns st ?l now then st(jl_jobId ?l := None) else st"
      have tokens: "map jl_token ?hs = map jl_token hs"
        by (rule nth_equalityI) (auto simp: nth_list_update True)
      have "\<exists>l \<in> set ?hs. jl_jobId l = job \<and> jl_token l = lr_token r \<and> jl_fence l = lr_fence r \<and> \<not> jl_released l"
        if r: "?st job = Some r" "now < lr_expiresAt r" for job r
      proof -
        have "st job = Some r" using r(1) by (auto split: if_splits)
        from kept [OF this r(2)] obtain l where l: "l \<in> set hs" "jl_jobId l = job" "jl_token l = lr_token r"
          "jl_fence l = lr_fence r" "\<not> jl_released l" by blast
        have "l \<noteq> ?l"
        proof
          assume "l = ?l"
          with l r \<open>st job = Some r\<close> have "owns st ?l now" by (simp add: owns_def)
          with r(1) l(2) \<open>l = ?l\<close> show False by simp
        qed
        then have "l \<in> set ?hs"
          using l(1) True by (metis in_set_conv_nth length_list_update nth_list_update_neq)
        with l show ?thesis by blast
      qed
      with d tokens True show ?thesis
        unfolding w lease_inv_def Release by (simp add: lease_release_def)
    next
      case False
      with d kept show ?thesis unfolding w lease_inv_def Release by simp
    qed
  qed
qed

lemma lease_run_inv:
  "lease_inv t0 w \<Longrightarrow> clocked t0 xs \<Longrightarrow> run_ok lease_step lease_ok w xs \<Longrightarrow> lease_inv (last_time t0 xs) (run lease_step w xs)"
proof (induction xs arbitrary: t0 w)
  case Nil
  then show ?case by simp
next
  case (Cons x xs)
  then show ?case
    using lease_step_inv [of "fst x" w "snd x"] lease_inv_later [of t0 w "fst x"] by simp
qed

text \<open>
  A job's lease is a lock. After any history of acquisitions, renewals and releases, in
  which the clock does not go kept and every acquisition brings a token of its own: at most one
  of the handles given out for a job is held at a time, and the next acquisition is refused
  exactly when one of them is; otherwise it gives a handle that is held from then on, until its
  time is over.
\<close>

theorem lease_exclusive:
  assumes "clocked t0 xs" "run_ok lease_step lease_ok (Map.empty, []) xs" "last_time t0 xs \<le> now"
    and run: "run lease_step (Map.empty, []) xs = (st, hs)"
  shows "(\<forall>l \<in> set hs. \<forall>l' \<in> set hs. jl_jobId l = jl_jobId l' \<and> lease_held st l now \<and> lease_held st l' now \<longrightarrow> l = l')
   \<and> (fst (lease_acquire st job fence ttl now token) = None \<longleftrightarrow> (\<exists>l \<in> set hs. jl_jobId l = job \<and> lease_held st l now))
   \<and> (\<forall>l st'. lease_acquire st job fence ttl now token = (Some l, st') \<longrightarrow>
        (\<forall>u. lease_held st' l u \<longleftrightarrow> u < now + ttl))"
proof (intro conjI)
  have "lease_inv (last_time t0 xs) (st, hs)"
    using lease_run_inv [OF _ assms(1,2)] run by (simp add: lease_inv_def)
  then have "lease_inv now (st, hs)" using assms(3) by (rule lease_inv_later)
  then have d: "distinct (map jl_token hs)"
    and kept: "\<And>r. st job = Some r \<Longrightarrow> now < lr_expiresAt r \<Longrightarrow>
        \<exists>l \<in> set hs. jl_jobId l = job \<and> jl_token l = lr_token r \<and> jl_fence l = lr_fence r \<and> \<not> jl_released l"
    by (auto simp: lease_inv_def)
  show "\<forall>l \<in> set hs. \<forall>l' \<in> set hs. jl_jobId l = jl_jobId l' \<and> lease_held st l now \<and> lease_held st l' now \<longrightarrow> l = l'"
    using unique_token [OF d] by (auto simp: lease_held_def owns_def split: option.splits)
  show "fst (lease_acquire st job fence ttl now token) = None \<longleftrightarrow> (\<exists>l \<in> set hs. jl_jobId l = job \<and> lease_held st l now)"
  proof (cases "\<exists>r. st job = Some r \<and> now < lr_expiresAt r")
    case True
    then obtain r where r: "st job = Some r" "now < lr_expiresAt r" by blast
    from kept [OF this] r show ?thesis by (auto simp: lease_acquire_def lease_held_def owns_def)
  next
    case False
    then show ?thesis by (auto simp: lease_acquire_def lease_held_def owns_def split: option.splits)
  qed
  show "\<forall>l st'. lease_acquire st job fence ttl now token = (Some l, st') \<longrightarrow> (\<forall>u. lease_held st' l u \<longleftrightarrow> u < now + ttl)"
    by (auto simp: lease_acquire_def lease_held_def owns_def split: option.splits if_splits)
qed

theorem lease_exclusive_witness:
  "case run lease_step (Map.empty, []) [(0, Acquire ''j'' 1 30 ''a''), (10, Renew 0), (41, Acquire ''j'' 1 30 ''b'')] of
     (st, hs) \<Rightarrow> fst (lease_acquire st ''j'' 1 30 50 ''c'') = None \<and> \<not> lease_held st (hs ! 0) 50 \<and> lease_held st (hs ! 1) 50"
proof -
  let ?xs = "[(0, Acquire ''j'' 1 30 ''a''), (10, Renew 0), (41, Acquire ''j'' 1 30 ''b'')]"
  obtain st hs where r: "run lease_step (Map.empty, []) ?xs = (st, hs)" by fastforce
  then have hs: "hs = [\<lparr>jl_jobId = ''j'', jl_fence = 1, jl_token = ''a'', jl_ttl = 30, jl_released = False\<rparr>,
      \<lparr>jl_jobId = ''j'', jl_fence = 1, jl_token = ''b'', jl_ttl = 30, jl_released = False\<rparr>]"
    and st: "lease_held st (hs ! 1) 50" "\<not> lease_held st (hs ! 0) 50"
    by (auto simp: lease_acquire_def lease_renew_def lease_held_def owns_def)
  have ok: "clocked 0 ?xs" "run_ok lease_step lease_ok (Map.empty, []) ?xs" "last_time 0 ?xs \<le> 50"
    by (simp_all add: lease_acquire_def lease_renew_def owns_def)
  have "fst (lease_acquire st ''j'' 1 30 50 ''c'') = None"
    using lease_exclusive [OF ok r, of "''j''" 1 30 "''c''"] st(1) by (auto simp: hs)
  with st show ?thesis unfolding r by simp
qed

section \<open>Streams\<close>

lemma message_id_inj: "message_id m = message_id n \<Longrightarrow> m = n"
proof -
  assume "message_id m = message_id n"
  then have "number_of (nat_string (int m)) = number_of (nat_string (int n))" by (simp add: message_id_def)
  then show "m = n" by (simp add: number_of_nat_string)
qed

lemma entries_of_update: "entries_of (b\<lparr>br_streams := AList.update s es (br_streams b)\<rparr>) s' = (if s' = s then es else entries_of b s')"
  by (simp add: entries_of_def map_of_update)

lemma entries_of_groups [simp]: "entries_of (b\<lparr>br_groups := x\<rparr>) s = entries_of b s"
  "entries_of (b\<lparr>br_sequence := n\<rparr>) s = entries_of b s"
  by (simp_all add: entries_of_def)

lemma group_steps [simp]:
  "entries_of (broker_ensureGroup b s g) s' = entries_of b s'"
  "entries_of (snd (broker_readGroup b s g c n now ab)) s' = entries_of b s'"
  "entries_of (snd (broker_reclaimPending b s g c n mi now ab)) s' = entries_of b s'"
  "entries_of (broker_ack b s g m) s' = entries_of b s'"
  by (simp_all add: broker_ensureGroup_def broker_readGroup_def broker_reclaimPending_def broker_ack_def entries_of_update Let_def
      entries_of_def map_of_update split: option.split prod.split)

lemma sequence_steps [simp]:
  "br_sequence (broker_ensureGroup b s g) = br_sequence b"
  "br_sequence (snd (broker_readGroup b s g c n now ab)) = br_sequence b"
  "br_sequence (snd (broker_reclaimPending b s g c n mi now ab)) = br_sequence b"
  "br_sequence (broker_ack b s g m) = br_sequence b"
  by (simp_all add: broker_ensureGroup_def broker_readGroup_def broker_reclaimPending_def broker_ack_def Let_def
      split: option.split prod.split)

definition numbered :: "nat \<Rightarrow> (string \<times> stream_fields) list \<Rightarrow> bool" where
  "numbered n es \<longleftrightarrow> (\<exists>ns. map fst es = map message_id ns \<and> sorted_wrt (<) ns \<and> (\<forall>k \<in> set ns. k \<le> n))"

lemma numbered_distinct: "numbered n es \<Longrightarrow> distinct (map fst es)"
  unfolding numbered_def
  by (metis distinct_map inj_onI message_id_inj strict_sorted_iff)

lemma numbered_mono: "numbered m es \<Longrightarrow> m \<le> n \<Longrightarrow> numbered n es"
  unfolding numbered_def by (meson order_trans)

lemma numbered_snoc: "numbered n es \<Longrightarrow> numbered (n + 1) (es @ [(message_id (n + 1), kvs)])"
  unfolding numbered_def
proof (elim exE conjE)
  fix ns assume "map fst es = map message_id ns" "sorted_wrt (<) ns" "\<forall>k \<in> set ns. k \<le> n"
  then show "\<exists>ns. map fst (es @ [(message_id (n + 1), kvs)]) = map message_id ns \<and> sorted_wrt (<) ns \<and> (\<forall>k \<in> set ns. k \<le> n + 1)"
    by (intro exI [of _ "ns @ [n + 1]"]) (auto simp: sorted_wrt_append)
qed

lemma numbered_step: "\<forall>s. numbered (br_sequence b) (entries_of b s) \<Longrightarrow> \<forall>s. numbered (br_sequence (broker_step b x)) (entries_of (broker_step b x) s)"
proof (cases x)
  case (Add s kvs)
  assume "\<forall>s. numbered (br_sequence b) (entries_of b s)"
  then show ?thesis
    unfolding Add
    using numbered_snoc [of "br_sequence b" "entries_of b s" kvs]
    by (auto simp: broker_add_def Let_def entries_of_def map_of_update intro: numbered_mono)
qed simp_all

lemma numbered_run: "numbered (br_sequence (run broker_step empty_broker ops)) (entries_of (run broker_step empty_broker ops) s)"
proof -
  have "\<forall>s. numbered (br_sequence (run broker_step empty_broker ops)) (entries_of (run broker_step empty_broker ops) s)"
  proof (induction ops rule: rev_induct)
    case Nil
    then show ?case by (simp add: numbered_def entries_of_def empty_broker_def)
  next
    case (snoc x ops)
    then show ?case by (simp add: run_append numbered_step)
  qed
  then show ?thesis by blast
qed

lemma fold_put_fresh:
  "distinct (map sm_id ms) \<Longrightarrow> sm_id ` set ms \<inter> sm_id ` set ps = {} \<Longrightarrow> fold put_pending ms ps = ps @ ms"
proof (induction ms arbitrary: ps)
  case Nil
  then show ?case by simp
next
  case (Cons m ms)
  then have "put_pending m ps = ps @ [m]" by (simp add: put_pending_def)
  moreover have "fold put_pending ms (ps @ [m]) = (ps @ [m]) @ ms" by (rule Cons.IH) (use Cons.prems in auto)
  ultimately show ?case by simp
qed

definition message_of :: "pending_message \<Rightarrow> string \<times> stream_fields" where
  "message_of p = (sm_id p, sm_fields p)"

lemma claim_messages: "map message_of (snd (claim room c mi now ps)) = map message_of ps"
  by (induction room c mi now ps rule: claim.induct) (auto simp: Let_def message_of_def split: prod.splits)

text \<open>
  The stream of an operation on a group. What a group has taken of its stream is the prefix its
  index names; a message is settled when an acknowledgement came after it was taken (an earlier
  one finds nothing to drop).
\<close>

fun group_use :: "broker_op \<Rightarrow> (string \<times> string) option" where
  "group_use (EnsureGroup s g) = Some (s, g)"
| "group_use (ReadGroup s g c n now ab) = Some (s, g)"
| "group_use (Reclaim s g c n mi now ab) = Some (s, g)"
| "group_use (Ack s g m) = Some (s, g)"
| "group_use _ = None"

definition taken_prefix :: "(string \<times> stream_fields) list \<Rightarrow> group_state \<Rightarrow> (string \<times> stream_fields) list" where
  "taken_prefix es gs = take (nat (gs_lastIndex gs + 1)) es"

definition taken_ids :: "string \<Rightarrow> string \<Rightarrow> broker \<Rightarrow> string set" where
  "taken_ids s k b = (case map_of (br_groups b) k of None \<Rightarrow> {} | Some gs \<Rightarrow> fst ` set (taken_prefix (entries_of b s) gs))"

definition settled :: "string \<Rightarrow> string \<Rightarrow> broker_op list \<Rightarrow> string set" where
  "settled s k ops = {m. \<exists>before s' g after. ops = before @ Ack s' g m # after \<and> group_key s' g = k
     \<and> m \<in> taken_ids s k (run broker_step empty_broker before)}"

definition tracks :: "(string \<times> stream_fields) list \<Rightarrow> string set \<Rightarrow> group_state \<Rightarrow> bool" where
  "tracks es done gs \<longleftrightarrow> 0 \<le> gs_lastIndex gs + 1 \<and> gs_lastIndex gs + 1 \<le> int (length es)
     \<and> done \<subseteq> fst ` set (taken_prefix es gs)
     \<and> map message_of (gs_pending gs) = filter (\<lambda>e. fst e \<notin> done) (taken_prefix es gs)"

lemma tracks_longer: "tracks es done gs \<Longrightarrow> tracks (es @ fs) done gs"
  unfolding tracks_def taken_prefix_def by auto

lemma tracks_fresh: "tracks es {} \<lparr>gs_lastIndex = - 1, gs_pending = []\<rparr>"
  by (simp add: tracks_def taken_prefix_def)

lemma tracks_same: "tracks es done gs \<Longrightarrow> map message_of ps = map message_of (gs_pending gs) \<Longrightarrow> tracks es done (gs\<lparr>gs_pending := ps\<rparr>)"
  by (simp add: tracks_def taken_prefix_def)

lemma tracks_ack:
  assumes "tracks es done gs"
  shows "tracks es (done \<union> ({m} \<inter> fst ` set (taken_prefix es gs))) (gs\<lparr>gs_pending := filter (\<lambda>p. sm_id p \<noteq> m) (gs_pending gs)\<rparr>)"
proof -
  let ?t = "taken_prefix es gs"
  have "map message_of (filter (\<lambda>p. sm_id p \<noteq> m) ps) = filter (\<lambda>e. fst e \<noteq> m) (map message_of ps)" for ps
    by (induction ps) (auto simp: message_of_def)
  then have "map message_of (filter (\<lambda>p. sm_id p \<noteq> m) (gs_pending gs)) = filter (\<lambda>e. fst e \<notin> done \<and> fst e \<noteq> m) ?t"
    using assms by (simp add: tracks_def conj_commute)
  also have "\<dots> = filter (\<lambda>e. fst e \<notin> done \<union> ({m} \<inter> fst ` set ?t)) ?t" by (rule filter_cong) auto
  finally show ?thesis using assms unfolding tracks_def taken_prefix_def by auto
qed

lemma tracks_read:
  assumes tr: "tracks es done gs" and d: "distinct (map fst es)"
    and ms: "ms = map (pending_of c now) (take n (drop (nat (gs_lastIndex gs + 1)) es))"
  shows "tracks es done \<lparr>gs_lastIndex = gs_lastIndex gs + int (length ms), gs_pending = fold put_pending ms (gs_pending gs)\<rparr>"
proof -
  define k where "k = nat (gs_lastIndex gs + 1)"
  let ?new = "take n (drop k es)"
  from tr have len: "0 \<le> gs_lastIndex gs + 1" "gs_lastIndex gs + 1 \<le> int (length es)"
    and D: "done \<subseteq> fst ` set (take k es)" "map message_of (gs_pending gs) = filter (\<lambda>e. fst e \<notin> done) (take k es)"
    by (auto simp: tracks_def taken_prefix_def k_def)
  have new: "map message_of ms = ?new" unfolding ms k_def by (simp add: comp_def message_of_def pending_of_def)
  have split: "es = take k es @ ?new @ drop n (drop k es)" by (simp only: append_take_drop_id)
  have da: "distinct (map fst (take k es @ ?new))"
    using d by (subst (asm) split) (auto simp del: take_drop drop_drop append_take_drop_id)
  have ids: "sm_id ` set ps = fst ` set (map message_of ps)" for ps by (force simp: message_of_def)
  have "fold put_pending ms (gs_pending gs) = gs_pending gs @ ms"
  proof (rule fold_put_fresh)
    have "map sm_id ms = map fst (map message_of ms)" by (simp add: message_of_def)
    then show "distinct (map sm_id ms)" using da new by simp
    have "fst ` set (map message_of (gs_pending gs)) \<subseteq> fst ` set (take k es)" unfolding D(2) by auto
    then show "sm_id ` set ms \<inter> sm_id ` set (gs_pending gs) = {}"
      using da unfolding ids new by auto
  qed
  moreover have "filter (\<lambda>e. fst e \<notin> done) ?new = ?new"
    using da D(1) by (auto simp: filter_id_conv)
  ultimately have pend: "map message_of (fold put_pending ms (gs_pending gs)) = filter (\<lambda>e. fst e \<notin> done) (take k es @ ?new)"
    using D(2) new by simp
  have "take (k + length ?new) es = take k es @ ?new"
    by (simp add: take_add min_def take_all)
  moreover have "nat (gs_lastIndex gs + int (length ms) + 1) = k + length ?new"
    using len by (simp add: ms k_def nat_add_distrib)
  moreover have "gs_lastIndex gs + int (length ms) + 1 \<le> int (length es)" using len by (simp add: ms)
  ultimately show ?thesis
    using D(1) len pend unfolding tracks_def taken_prefix_def by auto
qed

lemma settled_snoc: "settled s k (ops @ [x]) = settled s k ops \<union>
    (case x of Ack s' g m \<Rightarrow> if group_key s' g = k then {m} \<inter> taken_ids s k (run broker_step empty_broker ops) else {} | _ \<Rightarrow> {})"
proof -
  have "m \<in> settled s k (ops @ [x]) \<longleftrightarrow> m \<in> settled s k ops \<or>
      (\<exists>s' g. x = Ack s' g m \<and> group_key s' g = k \<and> m \<in> taken_ids s k (run broker_step empty_broker ops))" for m
  proof
    assume "m \<in> settled s k (ops @ [x])"
    then obtain before s' g after where a: "ops @ [x] = before @ Ack s' g m # after" "group_key s' g = k"
      "m \<in> taken_ids s k (run broker_step empty_broker before)" by (auto simp: settled_def)
    show "m \<in> settled s k ops \<or>
      (\<exists>s' g. x = Ack s' g m \<and> group_key s' g = k \<and> m \<in> taken_ids s k (run broker_step empty_broker ops))"
    proof (cases after rule: rev_cases)
      case Nil
      then show ?thesis using a by auto
    next
      case (snoc ys y)
      then have "ops = before @ Ack s' g m # ys" using a(1) by simp
      then show ?thesis using a(2,3) by (auto simp: settled_def)
    qed
  next
    have "m \<in> settled s k (ops @ [x])" if earlier: "m \<in> settled s k ops"
    proof -
      obtain before s' g after where a: "ops = before @ Ack s' g m # after" "group_key s' g = k"
        "m \<in> taken_ids s k (run broker_step empty_broker before)" using earlier unfolding settled_def by blast
      then have "ops @ [x] = before @ Ack s' g m # (after @ [x])" by simp
      with a(2,3) show ?thesis unfolding settled_def by blast
    qed
    moreover assume "m \<in> settled s k ops \<or>
      (\<exists>s' g. x = Ack s' g m \<and> group_key s' g = k \<and> m \<in> taken_ids s k (run broker_step empty_broker ops))"
    ultimately show "m \<in> settled s k (ops @ [x])" unfolding settled_def by blast
  qed
  then show ?thesis by (cases x) auto
qed

lemma group_after:
  "map_of (br_groups (broker_step b x)) k =
    (case x of
       EnsureGroup s g \<Rightarrow> if group_key s g = k \<and> map_of (br_groups b) k = None
         then Some \<lparr>gs_lastIndex = - 1, gs_pending = []\<rparr> else map_of (br_groups b) k
     | Add s kvs \<Rightarrow> map_of (br_groups b) k
     | ReadGroup s g c n now ab \<Rightarrow> if group_key s g \<noteq> k then map_of (br_groups b) k else map_option (\<lambda>gs.
         let ms = map (pending_of c now) (take n (drop (nat (gs_lastIndex gs + 1)) (entries_of b s))) in
         \<lparr>gs_lastIndex = gs_lastIndex gs + int (length ms), gs_pending = fold put_pending ms (gs_pending gs)\<rparr>) (map_of (br_groups b) k)
     | Reclaim s g c n mi now ab \<Rightarrow> if group_key s g \<noteq> k then map_of (br_groups b) k
         else map_option (\<lambda>gs. gs\<lparr>gs_pending := snd (claim n c mi now (gs_pending gs))\<rparr>) (map_of (br_groups b) k)
     | Ack s g m \<Rightarrow> if group_key s g \<noteq> k then map_of (br_groups b) k
         else map_option (\<lambda>gs. gs\<lparr>gs_pending := filter (\<lambda>p. sm_id p \<noteq> m) (gs_pending gs)\<rparr>) (map_of (br_groups b) k))"
  by (cases x)
    (auto simp: broker_ensureGroup_def broker_add_def broker_readGroup_def broker_reclaimPending_def broker_ack_def map_of_update Let_def
      split: option.splits prod.splits)

lemma entries_after:
  "entries_of (broker_step b x) s = entries_of b s @ (case x of Add s' kvs \<Rightarrow> if s' = s then [(message_id (br_sequence b + 1), kvs)] else [] | _ \<Rightarrow> [])"
proof (cases x)
  case (Add s' kvs)
  then show ?thesis by (simp add: broker_add_def Let_def entries_of_def map_of_update)
qed simp_all

definition uses_stream :: "string \<Rightarrow> string \<Rightarrow> broker_op list \<Rightarrow> bool" where
  "uses_stream s k ops \<longleftrightarrow> (\<forall>x \<in> set ops. \<forall>s' g. group_use x = Some (s', g) \<and> group_key s' g = k \<longrightarrow> s' = s)"

definition tracked :: "(string \<times> stream_fields) list \<Rightarrow> string set \<Rightarrow> group_state option \<Rightarrow> bool" where
  "tracked es done entry \<longleftrightarrow> (case entry of None \<Rightarrow> done = {} | Some gs \<Rightarrow> tracks es done gs)"

lemma tracked_step:
  assumes "tracked (entries_of b s) done (map_of (br_groups b) k)" "distinct (map fst (entries_of b s))"
    and use: "\<And>s' g. group_use x = Some (s', g) \<Longrightarrow> group_key s' g = k \<Longrightarrow> s' = s"
  shows "tracked (entries_of b s)
    (done \<union> (case x of Ack s' g m \<Rightarrow> if group_key s' g = k then {m} \<inter> taken_ids s k b else {} | _ \<Rightarrow> {}))
    (map_of (br_groups (broker_step b x)) k)"
proof (cases "map_of (br_groups b) k")
  case None
  then show ?thesis
    unfolding group_after using assms(1) tracks_fresh [of "entries_of b s"] by (cases x) (simp_all add: tracked_def taken_ids_def)
next
  case (Some gs)
  then have t: "tracks (entries_of b s) done gs" using assms(1) by (simp add: tracked_def)
  show ?thesis
  proof (cases x)
    case (ReadGroup s' g c n now ab)
    then have "group_key s' g = k \<Longrightarrow> s' = s" using use by simp
    then show ?thesis
      unfolding group_after using tracks_read [OF t assms(2) refl, of c now n] t Some ReadGroup by (auto simp: tracked_def Let_def)
  next
    case (Reclaim s' g c n mi now ab)
    then show ?thesis
      unfolding group_after using t Some tracks_same [OF t] claim_messages by (auto simp: tracked_def)
  next
    case (Ack s' g m)
    then show ?thesis unfolding group_after using t Some tracks_ack [OF t, of m] by (auto simp: tracked_def taken_ids_def)
  qed (use t Some in \<open>unfold group_after, auto simp: tracked_def\<close>)
qed

lemma tracked_run:
  "uses_stream s k ops \<Longrightarrow> tracked (entries_of (run broker_step empty_broker ops) s) (settled s k ops)
     (map_of (br_groups (run broker_step empty_broker ops)) k)"
proof (induction ops rule: rev_induct)
  case Nil
  then show ?case by (simp add: empty_broker_def tracked_def settled_def)
next
  case (snoc x ops)
  let ?b = "run broker_step empty_broker ops"
  have use: "uses_stream s k ops" "group_use x = Some (s', g) \<Longrightarrow> group_key s' g = k \<Longrightarrow> s' = s" for s' g
    using snoc.prems by (auto simp: uses_stream_def)
  have "tracked (entries_of ?b s) (settled s k (ops @ [x])) (map_of (br_groups (broker_step ?b x)) k)"
    unfolding settled_snoc by (rule tracked_step [OF snoc.IH [OF use(1)] numbered_distinct [OF numbered_run] use(2)])
  then show ?case
    using tracks_longer by (auto simp: tracked_def run_append entries_after split: option.splits)
qed

text \<open>
  C27. The in-memory broker loses no message and settles it once. After any history of additions,
  reads, claims and acknowledgements, in which the group's key names one stream: the entries of
  the stream are what the group has taken, in order and each once, followed by what it has not;
  of those taken, exactly the ones are pending that no acknowledgement named after they were
  taken, and those of the rest are settled by one. So every entry is undelivered, pending or
  acknowledged, and exactly one of them.
\<close>

theorem broker_no_loss:
  fixes ops :: "broker_op list"
  defines "b \<equiv> run broker_step empty_broker ops"
  assumes "uses_stream s (group_key s g) ops" "map_of (br_groups b) (group_key s g) = Some gs"
  shows "0 \<le> gs_lastIndex gs + 1 \<and> gs_lastIndex gs + 1 \<le> int (length (entries_of b s))
   \<and> distinct (map fst (entries_of b s))
   \<and> map message_of (gs_pending gs) =
      filter (\<lambda>e. fst e \<notin> settled s (group_key s g) ops) (take (nat (gs_lastIndex gs + 1)) (entries_of b s))
   \<and> (\<forall>e \<in> set (drop (nat (gs_lastIndex gs + 1)) (entries_of b s)).
        fst e \<notin> settled s (group_key s g) ops \<and> fst e \<notin> sm_id ` set (gs_pending gs))"
proof -
  let ?n = "nat (gs_lastIndex gs + 1)" and ?D = "settled s (group_key s g) ops"
  have t: "tracks (entries_of b s) ?D gs"
    using tracked_run [OF assms(2)] assms(3) by (simp add: b_def tracked_def)
  have d: "distinct (map fst (entries_of b s))" unfolding b_def by (rule numbered_distinct [OF numbered_run])
  have p: "map message_of (gs_pending gs) = filter (\<lambda>e. fst e \<notin> ?D) (take ?n (entries_of b s))"
    and D: "?D \<subseteq> fst ` set (take ?n (entries_of b s))" using t by (simp_all add: tracks_def taken_prefix_def)
  have "sm_id ` set (gs_pending gs) = fst ` set (map message_of (gs_pending gs))" by (force simp: message_of_def)
  also have "\<dots> \<subseteq> fst ` set (take ?n (entries_of b s))" unfolding p by auto
  finally have P: "sm_id ` set (gs_pending gs) \<subseteq> fst ` set (take ?n (entries_of b s))" .
  have new: "fst e \<notin> fst ` set (take ?n (entries_of b s))" if "e \<in> set (drop ?n (entries_of b s))" for e
  proof -
    have "distinct (map fst (take ?n (entries_of b s)) @ map fst (drop ?n (entries_of b s)))"
      using d by (simp only: map_append [symmetric] append_take_drop_id)
    then show ?thesis using that by auto
  qed
  have "\<forall>e \<in> set (drop ?n (entries_of b s)). fst e \<notin> ?D \<and> fst e \<notin> sm_id ` set (gs_pending gs)"
    using new subsetD [OF D] subsetD [OF P] by (intro ballI conjI notI) metis+
  then show ?thesis using t d p by (simp add: tracks_def)
qed

definition sample_traffic :: "broker_op list" where
  "sample_traffic = [EnsureGroup ''s'' ''g'', Add ''s'' [(''job'', ''a'')], Add ''s'' [(''job'', ''b'')],
     ReadGroup ''s'' ''g'' ''c1'' 10 5 False, Ack ''s'' ''g'' ''1-0'', Reclaim ''s'' ''g'' ''c2'' 10 30 40 False]"

theorem broker_no_loss_witness:
  "(case map_of (br_groups (run broker_step empty_broker sample_traffic)) ''s:g'' of
      None \<Rightarrow> False
    | Some gs \<Rightarrow> gs_lastIndex gs = 1 \<and> map sm_id (gs_pending gs) = [''2-0''] \<and> map sm_deliveryCount (gs_pending gs) = [2])
   \<and> length (entries_of (run broker_step empty_broker sample_traffic) ''s'') = 2
   \<and> ''1-0'' \<in> settled ''s'' (group_key ''s'' ''g'') sample_traffic \<and> ''2-0'' \<notin> settled ''s'' (group_key ''s'' ''g'') sample_traffic"
proof -
  have u: "uses_stream ''s'' (group_key ''s'' ''g'') sample_traffic"
    by (simp add: uses_stream_def sample_traffic_def)
  have g: "case map_of (br_groups (run broker_step empty_broker sample_traffic)) ''s:g'' of
      None \<Rightarrow> False
    | Some gs \<Rightarrow> gs_lastIndex gs = 1 \<and> map sm_id (gs_pending gs) = [''2-0''] \<and> map sm_deliveryCount (gs_pending gs) = [2]"
    by code_simp
  then obtain gs where gs: "map_of (br_groups (run broker_step empty_broker sample_traffic)) (group_key ''s'' ''g'') = Some gs"
    by (auto simp: group_key_def split: option.splits)
  have es: "entries_of (run broker_step empty_broker sample_traffic) ''s'' = [(''1-0'', [(''job'', ''a'')]), (''2-0'', [(''job'', ''b'')])]"
    by code_simp
  have p: "gs_lastIndex gs = 1" "map sm_id (gs_pending gs) = [''2-0'']" using g gs by (auto simp: group_key_def)
  note n = broker_no_loss [OF u gs]
  have "map fst (map message_of (gs_pending gs)) = [''2-0'']" using p(2) by (simp add: message_of_def comp_def)
  then have "map fst (filter (\<lambda>e. fst e \<notin> settled ''s'' (group_key ''s'' ''g'') sample_traffic)
      [(''1-0'', [(''job'', ''a'')]), (''2-0'', [(''job'', ''b'')])]) = [''2-0'']"
    using n p(1) by (simp add: es)
  then have "''1-0'' \<in> settled ''s'' (group_key ''s'' ''g'') sample_traffic" "''2-0'' \<notin> settled ''s'' (group_key ''s'' ''g'') sample_traffic"
    by (simp_all split: if_splits)
  with es g show ?thesis by simp
qed

end
