(* ===== verification/AutomationWorkerProps.thy ===== *)
theory AutomationWorkerProps
  imports AutomationWorker AutomationProtocolProps AutomationTransportProps
begin

text \<open>
  What a run of the automation worker guarantees: the events it publishes are valid, numbered
  from zero and accepted by the cursor of the other side; a message is acknowledged only after a
  terminal event, or when it carries no valid job; and what makes a run leave its message for
  another delivery.
\<close>

section \<open>Laws of a run\<close>

definition settled :: "job_run \<Rightarrow> bool" where
  "settled r \<longleftrightarrow> list_ex (\<lambda>e. isTerminalEvent (ev_body e)) (rn_events r)"

lemma emit_cases:
  obtains (taken) "fst (emit job ttl body x r) = Inr ()" "assertAutomationEvent (event_value (event_at job ttl (fst x) (rn_sequence r) body)) = Inr (event_at job ttl (fst x) (rn_sequence r) body)"
      "snd (emit job ttl body x r) = r\<lparr>rn_sequence := rn_sequence r + 1, rn_events := rn_events r @ [event_at job ttl (fst x) (rn_sequence r) body]\<rparr>"
  | (refused) "fst (emit job ttl body x r) = Inl OtherError" "snd (emit job ttl body x r) = r"
proof (cases "assertAutomationEvent (event_value (event_at job ttl (fst x) (rn_sequence r) body))")
  case (Inl e)
  then show thesis using refused by (simp add: emit_def case_prod_beta Let_def)
next
  case (Inr e')
  then have "e' = event_at job ttl (fst x) (rn_sequence r) body" by (simp add: assert_event_value)
  with Inr show thesis using taken refused by (cases "snd x") (simp_all add: emit_def case_prod_beta Let_def)
qed

lemma emit_sel [simp]:
  "rn_token (snd (emit job ttl body x r)) = rn_token r" "rn_acks (snd (emit job ttl body x r)) = rn_acks r"
  by (cases rule: emit_cases [of job ttl body x r]; simp)+

lemma emit_settled:
  "settled r \<Longrightarrow> settled (snd (emit job ttl body x r))"
  "fst (emit job ttl body x r) = Inr u \<Longrightarrow> isTerminalEvent body \<Longrightarrow> settled (snd (emit job ttl body x r))"
  by (cases rule: emit_cases [of job ttl body x r]; simp add: settled_def event_at_def)+

lemma settled_sel [simp]:
  "settled (r\<lparr>rn_token := c\<rparr>) = settled r" "settled (r\<lparr>rn_connected := b\<rparr>) = settled r"
  "settled (r\<lparr>rn_leased := b1, rn_listed := b2\<rparr>) = settled r" "settled (r\<lparr>rn_acks := n\<rparr>) = settled r"
  by (simp_all add: settled_def)

lemma settled_fold: "settled r \<Longrightarrow> settled (fold (stir job ttl) xs r)"
proof (induction xs arbitrary: r)
  case (Cons x xs)
  then show ?case by (cases x) (auto simp: stir_defs intro: emit_settled)
qed simp

text \<open>
  A law of runs: what every change of a run keeps, where an acknowledgement is only sent once a
  terminal event has been published.
\<close>

locale run_law =
  fixes job :: uet_job and ttl :: int and P :: "job_run \<Rightarrow> bool"
  assumes emits: "P r \<Longrightarrow> P (snd (emit job ttl body x r))"
    and tokens: "P r \<Longrightarrow> P (r\<lparr>rn_token := c\<rparr>)"
    and connects: "P r \<Longrightarrow> P (r\<lparr>rn_connected := b\<rparr>)"
    and ends: "P r \<Longrightarrow> P (r\<lparr>rn_leased := b1, rn_listed := b2\<rparr>)"
    and acks: "P r \<Longrightarrow> settled r \<Longrightarrow> P (r\<lparr>rn_acks := rn_acks r + 1\<rparr>)"
begin

definition keeps :: "'a step \<Rightarrow> bool" where
  "keeps m \<longleftrightarrow> (\<forall>r. P r \<longrightarrow> P (snd (m r)))"

lemma stirs: "P r \<Longrightarrow> P (stir job ttl x r)"
  by (cases x) (auto simp: stir_defs intro: emits tokens)

lemma folds: "P r \<Longrightarrow> P (fold (stir job ttl) xs r)"
  by (induction xs arbitrary: r) (auto intro: stirs)

lemma keeps_basic:
  "keeps (emit job ttl body x)" "keeps (given y)" "keeps throwIfCancelled" "keeps (open_browser sc)"
  by (auto simp: keeps_def given_def throwIfCancelled_def open_browser_def intro: emits connects split: sum.split)

lemma keeps_awaited: "wc_resultTtlMs cfg = ttl \<Longrightarrow> keeps m \<Longrightarrow> keeps (awaited cfg job sc at m)"
  by (auto simp: keeps_def awaited_def intro: folds)

lemma keeps_and_then: "keeps m \<Longrightarrow> (\<And>x. keeps (f x)) \<Longrightarrow> keeps (and_then m f)"
  unfolding keeps_def and_then_def by (metis (no_types, lifting) case_prod_beta snd_conv sum.case_eq_if)

lemma emit_then_ack:
  assumes "wc_resultTtlMs cfg = ttl" "isTerminalEvent body"
  shows "keeps (and_then (awaited cfg job sc at1 (emit job ttl body x)) (\<lambda>_. awaited cfg job sc at2 (ack_message sc at3)))"
  unfolding keeps_def
proof (intro allI impI)
  fix r assume "P r"
  define r1 where "r1 = fold (stir job ttl) (sc_stir sc at1) r"
  have r1: "P r1" unfolding r1_def by (rule folds) fact
  show "P (snd (and_then (awaited cfg job sc at1 (emit job ttl body x)) (\<lambda>_. awaited cfg job sc at2 (ack_message sc at3)) r))"
  proof (cases "emit job ttl body x r1")
    case (Pair out r2)
    have P2: "P r2" using emits [OF r1, of body x] Pair by simp
    show ?thesis
    proof (cases out)
      case (Inl e)
      with Pair P2 assms(1) show ?thesis by (simp add: and_then_def awaited_def r1_def [symmetric])
    next
      case (Inr u)
      with Pair have "settled r2" using emit_settled(2) [of job ttl body x r1 u] assms(2) by simp
      then have "settled (fold (stir job ttl) (sc_stir sc at2) r2)" "P (fold (stir job ttl) (sc_stir sc at2) r2)"
        using settled_fold folds [OF P2] by auto
      then show ?thesis
        using Pair Inr assms(1) acks
        by (simp add: and_then_def awaited_def r1_def [symmetric] ack_message_def)
    qed
  qed
qed

lemma keeps_run_job: "wc_resultTtlMs cfg = ttl \<Longrightarrow> keeps (run_job ap cfg sc job)"
proof -
  assume t: "wc_resultTtlMs cfg = ttl"
  show ?thesis
    unfolding run_job_def Let_def t
    by (intro emit_then_ack keeps_and_then keeps_awaited keeps_basic t) simp_all
qed

lemma keeps_handle_error: "wc_resultTtlMs cfg = ttl \<Longrightarrow> keeps (handle_error cfg sc job n e)"
proof -
  assume t: "wc_resultTtlMs cfg = ttl"
  have r: "keeps (report_and_ack cfg sc job body)" if "isTerminalEvent body" for body
    unfolding report_and_ack_def t by (rule emit_then_ack [OF t that])
  show ?thesis
    using r [of "Cancelled reason" for reason] r [of "Failed code b" for code b]
    unfolding keeps_def handle_error_def by simp
qed

lemma clean_up_keeps: "P (snd x) \<Longrightarrow> P (snd (clean_up sc x))"
  using ends [of "(snd x)\<lparr>rn_connected := False\<rparr>" False False]
  by (auto simp: clean_up_def case_prod_beta intro: connects split: sum.split)

lemma leased_keeps:
  assumes "wc_resultTtlMs cfg = ttl" "P (fresh_run (token_create (job_deadline job) (sc_created sc)))"
  shows "P (snd (leased_run ap cfg sc job n))"
proof -
  obtain out r where run: "run_job ap cfg sc job (fresh_run (token_create (job_deadline job) (sc_created sc))) = (out, r)" by fastforce
  with keeps_run_job [OF assms(1)] assms(2) have "P r" unfolding keeps_def by (metis snd_conv)
  then have "P (snd (case out of Inl e \<Rightarrow> handle_error cfg sc job n e r | Inr u \<Rightarrow> (Inr u, r)))"
    using keeps_handle_error [OF assms(1)] unfolding keeps_def by (simp split: sum.split)
  then show ?thesis
    unfolding leased_run_def run by (auto intro!: clean_up_keeps split: sum.split_asm)
qed

end

section \<open>The events of a run\<close>

definition of_job :: "uet_job \<Rightarrow> automation_event \<Rightarrow> bool" where
  "of_job job e \<longleftrightarrow> ev_jobId e = uj_jobId job \<and> ev_accountId e = uj_accountId job \<and> ev_fence e = uj_fence job
     \<and> event_ok e \<and> body_ok (ev_body e)"

definition writer_ok :: "uet_job \<Rightarrow> job_run \<Rightarrow> bool" where
  "writer_ok job r \<longleftrightarrow> rn_sequence r = int (length (rn_events r)) \<and> list_all (of_job job) (rn_events r)
     \<and> map ev_sequence (rn_events r) = map int [0..<length (rn_events r)]"

lemma writer_emit: "writer_ok job r \<Longrightarrow> writer_ok job (snd (emit job ttl body x r))"
proof (cases rule: emit_cases [of job ttl body x r])
  case taken
  assume w: "writer_ok job r"
  let ?e = "event_at job ttl (fst x) (rn_sequence r) body"
  have "of_job job ?e" using taken(2) by (simp add: assert_event_value of_job_def) (simp add: event_at_def)
  moreover have "ev_sequence ?e = rn_sequence r" by (simp add: event_at_def)
  ultimately show ?thesis using w unfolding writer_ok_def taken(3) by simp
qed simp

interpretation writer_law: run_law job ttl "writer_ok job" for job ttl
  by unfold_locales (auto simp: writer_emit, auto simp: writer_ok_def)

lemma writer_fresh: "writer_ok job (fresh_run c)"
  by (simp add: writer_ok_def fresh_run_def)

lemma writer_idle: "writer_ok job (snd (ack_message sc at idle_run))" "writer_ok job idle_run"
  by (simp_all add: writer_ok_def ack_message_def idle_run_def)

lemma process_writer: "message_job ap cfg sc msg = Some job \<Longrightarrow> writer_ok job (snd (process ap cfg sc msg))"
  using writer_law.leased_keeps [OF refl writer_fresh]
  by (auto simp: process_def writer_idle split: sum.split bool.split)

fun through_terminal :: "automation_event list \<Rightarrow> automation_event list" where
  "through_terminal [] = []"
| "through_terminal (e # es) = (if isTerminalEvent (ev_body e) then [e] else e # through_terminal es)"

definition alive :: "int \<Rightarrow> automation_event \<Rightarrow> bool" where
  "alive now e \<longleftrightarrow> (case canonicalIsoDate (JStr (ev_expiresAt e)) of None \<Rightarrow> False | Some t \<Rightarrow> now < t)"

lemma through_prefix: "\<exists>fs. es = through_terminal es @ fs"
  by (induction es) auto

lemma through_in_sequence:
  "map ev_sequence es = map (\<lambda>k. n + 1 + int k) [0..<length es] \<Longrightarrow> in_sequence n False (through_terminal es)"
proof (induction es arbitrary: n)
  case Nil
  then show ?case by simp
next
  case (Cons e es)
  then have "ev_sequence e = n + 1" "map ev_sequence es = map (\<lambda>k. n + 1 + 1 + int k) [0..<length es]"
    unfolding numbered_Cons by simp_all
  with Cons.IH show ?case by simp
qed

lemma job_cursor: "job_ok job \<Longrightarrow> createEventCursor job (- 1) = Inr \<lparr>ec_jobId = uj_jobId job, ec_accountId = uj_accountId job,
    ec_fence = uj_fence job, ec_lastSequence = - 1, ec_terminal = False\<rparr>"
  by (simp add: createEventCursor_def job_ok_def opaque_asserts safe_integer_def max_safe_integer_def)

lemma message_job_ok: "message_job ap cfg sc msg = Some job \<Longrightarrow> job_ok job"
  by (auto simp: message_job_def parseUetImportJob_def sbind_Inr_iff dest: parsed_job split: option.splits sum.splits)

text \<open>
  What a run publishes is what the other side accepts. Whatever happens during a run, the
  events it has published up to its first terminal one are accepted, while they have not
  expired, by a fresh cursor of the job, which then stands at the last of them.
\<close>

theorem worker_events_accepted:
  assumes job: "message_job ap cfg sc msg = Some job"
    and alive: "list_all (alive now) (through_terminal (rn_events (snd (process ap cfg sc msg))))"
  shows "\<exists>cursor. createEventCursor job (- 1) = Inr cursor
   \<and> validateAutomationEventSequence (map event_value (through_terminal (rn_events (snd (process ap cfg sc msg))))) cursor now
      = Inr (advance cursor (through_terminal (rn_events (snd (process ap cfg sc msg)))))"
proof -
  define es where "es = rn_events (snd (process ap cfg sc msg))"
  define c where "c = \<lparr>ec_jobId = uj_jobId job, ec_accountId = uj_accountId job, ec_fence = uj_fence job,
    ec_lastSequence = - 1, ec_terminal = False\<rparr>"
  have w: "list_all (of_job job) es" "map ev_sequence es = map int [0..<length es]"
    using process_writer [OF job] by (simp_all add: writer_ok_def es_def)
  obtain fs where fs: "es = through_terminal es @ fs" using through_prefix by blast
  then have all: "list_all (of_job job) (through_terminal es)" using w(1) by (metis list_all_append)
  have "parseAutomationEvent (event_value e) now = Inr e" if "e \<in> set (through_terminal es)" for e
  proof -
    have "of_job job e" "alive now e" using all alive that by (simp_all add: list_all_iff es_def)
    then show ?thesis
      by (subst parse_event_value) (auto simp: of_job_def alive_def simp del: canonicalIsoDate.simps split: option.splits)
  qed
  then have "traverse (\<lambda>v. parseAutomationEvent v now) (map event_value (through_terminal es)) = Inr (through_terminal es)"
    by (rule traverse_map_Inr)
  moreover have "list_all (of_cursor c) (through_terminal es)"
    using all by (simp add: list_all_iff of_job_def of_cursor_def c_def)
  moreover have "in_sequence (ec_lastSequence c) (ec_terminal c) (through_terminal es)"
    using through_in_sequence [of es "- 1"] w(2) by (simp add: c_def)
  ultimately show ?thesis
    using job_cursor [OF message_job_ok [OF job]]
    unfolding es_def [symmetric] c_def [symmetric] validate_sequence_Inr by blast
qed

section \<open>Acknowledgements\<close>

definition ack_ok :: "job_run \<Rightarrow> bool" where
  "ack_ok r \<longleftrightarrow> rn_acks r = 0 \<or> settled r"

interpretation ack_law: run_law job ttl ack_ok for job ttl
  by unfold_locales (auto simp: ack_ok_def intro: emit_settled)

definition errs :: "'a step \<Rightarrow> (worker_error \<Rightarrow> bool) \<Rightarrow> bool" where
  "errs m Q \<longleftrightarrow> (\<forall>r e r'. m r = (Inl e, r') \<longrightarrow> Q e)"

lemma errs_and_then: "errs m Q \<Longrightarrow> (\<And>x. errs (f x) Q) \<Longrightarrow> errs (and_then m f) Q"
  unfolding errs_def and_then_def by (auto split: prod.splits sum.splits)

lemma errs_awaited: "errs m Q \<Longrightarrow> errs (awaited cfg job sc at m) Q"
  by (auto simp: errs_def awaited_def)

text \<open>An error of a call the run relies on, as opposed to one of its own.\<close>

definition outside_error :: "script \<Rightarrow> worker_error \<Rightarrow> bool" where
  "outside_error sc e \<longleftrightarrow> sc_browser sc = Inl e \<or> sc_held sc = Inl e \<or> (\<exists>c. sc_execution sc c = Inl e)"

lemma run_job_errs: "errs (run_job ap cfg sc job) (\<lambda>e. e = OtherError \<or> e = cancellationError \<or> outside_error sc e)" (is "errs _ ?Q")
proof -
  have emits: "errs (emit job ttl body x) ?Q" for ttl body x
    unfolding errs_def by (metis emit_cases fst_conv sum.inject(1) sum.distinct(1))
  have basic: "errs throwIfCancelled ?Q" "errs (open_browser sc) ?Q" "errs (ack_message sc at) ?Q"
    "errs (given (of_protocol y)) ?Q" "errs (given (sc_held sc)) ?Q" "errs (given (sc_execution sc c)) ?Q"
    for at y c
    by (auto simp: errs_def throwIfCancelled_def open_browser_def ack_message_def given_def of_protocol_def outside_error_def
        split: sum.splits if_splits)
  show ?thesis
    unfolding run_job_def Let_def by (intro errs_and_then errs_awaited emits basic)
qed

text \<open>Steps that send no acknowledgement, and steps that send one exactly when they succeed.\<close>

definition quiet :: "'a step \<Rightarrow> bool" where
  "quiet m \<longleftrightarrow> (\<forall>r. rn_acks (snd (m r)) = rn_acks r)"

definition acking :: "'a step \<Rightarrow> bool" where
  "acking m \<longleftrightarrow> (\<forall>r. rn_acks (snd (m r)) = rn_acks r + (case fst (m r) of Inl e \<Rightarrow> 0 | Inr x \<Rightarrow> 1))"

lemma stir_acks: "rn_acks (fold (stir job ttl) xs r) = rn_acks r"
proof (induction xs arbitrary: r)
  case (Cons x xs)
  then show ?case by (cases x) (simp_all add: stir_defs)
qed simp

lemma quiet_basic:
  "quiet (emit job ttl body x)" "quiet (given y)" "quiet throwIfCancelled" "quiet (open_browser sc)"
  by (auto simp: quiet_def given_def throwIfCancelled_def open_browser_def split: sum.split)

lemma quiet_awaited: "quiet m \<Longrightarrow> quiet (awaited cfg job sc at m)"
  by (simp add: quiet_def awaited_def stir_acks)

lemma acking_awaited: "acking m \<Longrightarrow> acking (awaited cfg job sc at m)"
  by (simp add: acking_def awaited_def stir_acks)

lemma acking_ack: "acking (ack_message sc at)"
  by (simp add: acking_def ack_message_def)

lemma acking_and_then:
  assumes "quiet m" "\<And>x. acking (f x)"
  shows "acking (and_then m f)"
  unfolding acking_def
proof
  fix r
  have "rn_acks (snd (m r)) = rn_acks r" using assms(1) by (simp add: quiet_def)
  then show "rn_acks (snd (and_then m f r)) = rn_acks r + (case fst (and_then m f r) of Inl e \<Rightarrow> 0 | Inr x \<Rightarrow> 1)"
    using assms(2) by (cases "m r"; cases "fst (m r)") (auto simp: and_then_def acking_def)
qed

lemma acking_run_job: "acking (run_job ap cfg sc job)"
  unfolding run_job_def Let_def
  by (intro acking_awaited acking_ack acking_and_then quiet_awaited quiet_basic)

lemma acking_report: "acking (report_and_ack cfg sc job body)"
  unfolding report_and_ack_def by (intro acking_and_then acking_awaited acking_ack quiet_awaited quiet_basic)

text \<open>Why an error leaves the message to another delivery.\<close>

definition leaves_pending :: "worker_config \<Rightarrow> int \<Rightarrow> job_run \<Rightarrow> worker_error \<Rightarrow> bool" where
  "leaves_pending cfg n r e \<longleftrightarrow> rn_token r = Some Shutdown \<or> rn_token r = Some LeaseLost \<or> errorCode e = ''LEASE_LOST''
     \<or> isRetryable e \<and> n < wc_maxDeliveryCount cfg"

lemma handle_error_acks:
  "rn_acks (snd (handle_error cfg sc job n e r)) \<le> rn_acks r + 1"
  "fst (handle_error cfg sc job n e r) = Inr u \<Longrightarrow> rn_acks (snd (handle_error cfg sc job n e r)) = rn_acks r
     \<Longrightarrow> leaves_pending cfg n r e \<and> snd (handle_error cfg sc job n e r) = r"
  using acking_report [of cfg sc job] unfolding acking_def handle_error_def leaves_pending_def
  by (auto split: sum.splits if_splits)

lemma clean_up_sel:
  "rn_acks (snd (clean_up sc x)) = rn_acks (snd x)" "rn_token (snd (clean_up sc x)) = rn_token (snd x)"
  "fst (clean_up sc x) = Inr u \<Longrightarrow> fst x = Inr u"
  "sc_disconnect sc = Inr () \<Longrightarrow> sc_release sc = Inr () \<Longrightarrow>
     \<not> rn_connected (snd (clean_up sc x)) \<and> \<not> rn_leased (snd (clean_up sc x)) \<and> \<not> rn_listed (snd (clean_up sc x))"
  by (auto simp: clean_up_def case_prod_beta split: sum.splits if_splits)

lemma leased_run_acks:
  "rn_acks (snd (leased_run ap cfg sc job n)) \<le> 1"
  "fst (leased_run ap cfg sc job n) = Inr u \<Longrightarrow> rn_acks (snd (leased_run ap cfg sc job n)) = 0 \<Longrightarrow>
     \<exists>e. (e = OtherError \<or> e = cancellationError \<or> outside_error sc e) \<and> leaves_pending cfg n (snd (leased_run ap cfg sc job n)) e"
proof -
  obtain out r where run: "run_job ap cfg sc job (fresh_run (token_create (job_deadline job) (sc_created sc))) = (out, r)" by fastforce
  have acks: "rn_acks r = (case out of Inl e \<Rightarrow> 0 | Inr x \<Rightarrow> 1)"
    using acking_run_job [of ap cfg sc job] run unfolding acking_def by (metis add_0 fresh_run_def fst_conv job_run.select_convs(4) snd_conv)
  show "rn_acks (snd (leased_run ap cfg sc job n)) \<le> 1"
  proof (cases out)
    case (Inl e)
    with acks handle_error_acks(1) [of cfg sc job n e r] show ?thesis by (simp add: leased_run_def run clean_up_sel(1,2))
  next
    case (Inr v)
    with acks show ?thesis by (simp add: leased_run_def run clean_up_sel(1,2))
  qed
  assume ok: "fst (leased_run ap cfg sc job n) = Inr u" "rn_acks (snd (leased_run ap cfg sc job n)) = 0"
  then obtain e where e: "out = Inl e"
  proof (cases out)
    case (Inr v)
    with acks ok(2) show ?thesis by (simp add: leased_run_def run clean_up_sel(1,2))
  qed
  let ?h = "handle_error cfg sc job n e r"
  have "leased_run ap cfg sc job n = clean_up sc ?h" by (simp add: leased_run_def run e)
  then have "fst ?h = Inr u" "rn_acks (snd ?h) = rn_acks r" "rn_token (snd (leased_run ap cfg sc job n)) = rn_token (snd ?h)"
    using ok clean_up_sel(3) [of sc ?h u] acks e by (simp_all add: clean_up_sel(1,2))
  from handle_error_acks(2) [OF this(1,2)] this(3)
  have "leaves_pending cfg n (snd (leased_run ap cfg sc job n)) e" by (simp add: leaves_pending_def)
  moreover have "e = OtherError \<or> e = cancellationError \<or> outside_error sc e"
    using run_job_errs [of ap cfg sc job] run e unfolding errs_def by blast
  ultimately show "\<exists>e. (e = OtherError \<or> e = cancellationError \<or> outside_error sc e)
      \<and> leaves_pending cfg n (snd (leased_run ap cfg sc job n)) e" by blast
qed

lemma acknowledged_when_settled_law:
  "rn_acks (snd (process ap cfg sc msg)) \<le> 1
   \<and> (rn_acks (snd (process ap cfg sc msg)) = 1 \<longrightarrow> message_job ap cfg sc msg = None \<or> settled (snd (process ap cfg sc msg)))"
proof (cases "\<exists>job. message_job ap cfg sc msg = Some job \<and> sc_lease sc = Inr True")
  case True
  then obtain job where job: "message_job ap cfg sc msg = Some job" "sc_lease sc = Inr True" by blast
  then have p: "process ap cfg sc msg = leased_run ap cfg sc job (sm_deliveryCount msg)" by (simp add: process_def)
  have "ack_ok (snd (leased_run ap cfg sc job (sm_deliveryCount msg)))"
    by (rule ack_law.leased_keeps [OF refl]) (simp add: ack_ok_def fresh_run_def)
  then show ?thesis using leased_run_acks(1) [of ap cfg sc job "sm_deliveryCount msg"] unfolding p by (auto simp: ack_ok_def)
next
  case False
  then show ?thesis
    by (cases "sc_lease sc") (auto simp: process_def ack_message_def idle_run_def split: option.splits bool.splits)
qed

text \<open>
  C26. A job is acknowledged once, and only after its fate is known. A run acknowledges its
  message at most once, and only when the message carries no valid job or the run has published
  a terminal event. A run that ends without an error leaves its message unacknowledged only when
  another worker holds the job's lease, when it was shut down or lost the lease, or when the
  browser or the executor failed with an error that may be retried and deliveries are left. And
  unless giving back fails, the run has given back the connection, the lease and its entry.
\<close>

theorem acknowledged_when_settled:
  fixes ap cfg sc msg
  defines "r \<equiv> snd (process ap cfg sc msg)"
  shows "rn_acks r \<le> 1
   \<and> (rn_acks r = 1 \<longrightarrow> message_job ap cfg sc msg = None \<or> settled r)
   \<and> (fst (process ap cfg sc msg) = Inr () \<and> rn_acks r = 0 \<longrightarrow> message_job ap cfg sc msg \<noteq> None
        \<and> (sc_lease sc = Inr False \<or> rn_token r = Some Shutdown \<or> rn_token r = Some LeaseLost
         \<or> (\<exists>e. outside_error sc e \<and> (errorCode e = ''LEASE_LOST'' \<or> isRetryable e \<and> sm_deliveryCount msg < wc_maxDeliveryCount cfg))))
   \<and> (sc_disconnect sc = Inr () \<and> sc_release sc = Inr () \<longrightarrow> \<not> rn_connected r \<and> \<not> rn_leased r \<and> \<not> rn_listed r)"
proof (cases "\<exists>job. message_job ap cfg sc msg = Some job \<and> sc_lease sc = Inr True")
  case True
  then obtain job where job: "message_job ap cfg sc msg = Some job" "sc_lease sc = Inr True" by blast
  then have p: "process ap cfg sc msg = leased_run ap cfg sc job (sm_deliveryCount msg)" by (simp add: process_def)
  have "ack_ok r" unfolding r_def p by (rule ack_law.leased_keeps [OF refl]) (simp add: ack_ok_def fresh_run_def)
  moreover have "\<not> rn_connected r \<and> \<not> rn_leased r \<and> \<not> rn_listed r" if "sc_disconnect sc = Inr ()" "sc_release sc = Inr ()"
    unfolding r_def p leased_run_def by (rule clean_up_sel(4) [OF that])
  ultimately show ?thesis
    using leased_run_acks [of ap cfg sc job "sm_deliveryCount msg"] job(1) unfolding r_def p
    by (auto simp: ack_ok_def leaves_pending_def cancellationError_def)
next
  case False
  then show ?thesis
    unfolding r_def
    by (cases "sc_lease sc") (auto simp: process_def ack_message_def idle_run_def split: option.splits bool.splits)
qed

section \<open>At the deadline\<close>

lemma job_deadline_date: "job_ok job \<Longrightarrow> canonicalIsoDate (JStr (uj_expiresAt job)) = Some (job_deadline job)"
  by (auto simp: job_ok_def job_deadline_def simp del: canonicalIsoDate.simps)

lemma job_deadline_printed: "job_ok job \<Longrightarrow> canonicalIsoDate (JStr (toISOString (job_deadline job))) = Some (job_deadline job)"
  using job_deadline_date canonicalIsoDate_text by (metis)

text \<open>From its deadline on, no event of a job can be written: it would have to expire before it is emitted.\<close>

lemma late_emit:
  assumes "job_ok job" "0 < ttl" "job_deadline job \<le> fst x" "plain_time (fst x)"
  shows "emit job ttl body x r = (Inl OtherError, r)"
proof -
  let ?e = "event_at job ttl (fst x) (rn_sequence r) body"
  have "min (job_deadline job) (fst x + ttl) = job_deadline job" using assms(2,3) by simp
  then have "canonicalIsoDate (JStr (ev_expiresAt ?e)) = Some (job_deadline job)" "canonicalIsoDate (JStr (ev_emittedAt ?e)) = Some (fst x)"
    using job_deadline_printed [OF assms(1)] canonicalIsoDate_printed [OF assms(4)] by (simp_all add: event_at_def del: canonicalIsoDate.simps)
  then have "\<not> event_ok ?e" using assms(3) by (simp add: event_ok_def del: canonicalIsoDate.simps)
  then show ?thesis
    by (cases rule: emit_cases [of job ttl body x r]) (auto simp: assert_event_value prod_eq_iff)
qed

text \<open>
  C32. A job that reaches its deadline stops the worker. When a run is cancelled by the timer of
  its deadline, the error that ends it cannot be reported: the event would expire no later than
  it is emitted and is refused by the protocol. The refusal is thrown out of the run, with the
  message not acknowledged, and out of the round, which leaves the messages after it
  unprocessed.
\<close>

theorem deadline_stops_worker:
  assumes job: "message_job ap cfg sc msg = Some job" "sc_lease sc = Inr True" "0 < wc_resultTtlMs cfg"
    and cancelled: "run_job ap cfg sc job (fresh_run (token_create (job_deadline job) (sc_created sc))) = (Inl e, r)"
      "rn_token r = Some Deadline" "errorCode e \<noteq> ''LEASE_LOST''"
    and late: "job_deadline job \<le> fst (sc_report sc)" "plain_time (fst (sc_report sc))"
  shows "(\<exists>x. fst (process ap cfg sc msg) = Inl x) \<and> rn_acks (snd (process ap cfg sc msg)) = 0
   \<and> (\<forall>rs i msgs b. rs_script rs i = sc \<and> \<not> rs_draining rs i \<longrightarrow>
        (\<exists>x. process_all ap cfg rs i (msg # msgs) b = (Inl x, b, [(msg, snd (process ap cfg sc msg))])))"
proof -
  let ?h = "handle_error cfg sc job (sm_deliveryCount msg) e r"
  have p: "process ap cfg sc msg = clean_up sc ?h" using job cancelled(1) by (simp add: process_def leased_run_def)
  have refused: "emit job (wc_resultTtlMs cfg) body (sc_report sc) r' = (Inl OtherError, r')" for body r'
    by (rule late_emit [OF message_job_ok [OF job(1)] job(3) late])
  have h: "fst ?h = Inl OtherError"
    using cancelled(2,3) refused by (simp add: handle_error_def report_and_ack_def and_then_def awaited_def)
  then obtain x where x: "fst (process ap cfg sc msg) = Inl x"
    using clean_up_sel(3) [of sc ?h "()"] unfolding p by (cases "fst (clean_up sc ?h)") auto
  have "rn_acks r = 0"
    using acking_run_job [of ap cfg sc job] cancelled(1) unfolding acking_def
    by (metis add_0_right fresh_run_def fst_conv job_run.select_convs(4) old.sum.simps(5) snd_conv)
  then have acks: "rn_acks (snd (process ap cfg sc msg)) = 0"
    using acking_report [of cfg sc job] h cancelled(2,3) unfolding p clean_up_sel(1) acking_def handle_error_def
    by auto
  have "process_all ap cfg rs i (msg # msgs) b = (Inl x, b, [(msg, snd (process ap cfg sc msg))])"
    if "rs_script rs i = sc" "\<not> rs_draining rs i" for rs i msgs b
    using that x acks by (simp add: case_prod_beta Let_def settle_def)
  with x acks show ?thesis by blast
qed

section \<open>Rounds\<close>

definition waiting :: "worker_config \<Rightarrow> broker \<Rightarrow> stream_message list" where
  "waiting cfg b = broker_pending b (wc_jobStream cfg) (wc_consumerGroup cfg)"

lemma waiting_ack:
  "waiting cfg (broker_ack b (wc_jobStream cfg) (wc_consumerGroup cfg) m) = filter (\<lambda>p. sm_id p \<noteq> m) (waiting cfg b)"
  by (auto simp: waiting_def broker_pending_def broker_ack_def map_of_update filter_map delivered_def comp_def split: option.split)

definition untouched :: "(stream_message \<times> job_run) list \<Rightarrow> stream_message \<Rightarrow> bool" where
  "untouched dones m \<longleftrightarrow> (\<forall>(m', r) \<in> set dones. sm_id m' = sm_id m \<longrightarrow> rn_acks r = 0)"

lemma waiting_settle: "waiting cfg (settle cfg msg r b) = filter (untouched [(msg, r)]) (waiting cfg b)"
  by (auto simp: settle_def waiting_ack untouched_def intro!: filter_cong)

lemma process_all_done:
  assumes "process_all ap cfg rs i msgs b = (res, b', dones)"
  shows "waiting cfg b' = filter (untouched dones) (waiting cfg b)
   \<and> (\<exists>k. map fst dones = take k msgs \<and> k \<le> length msgs)
   \<and> (\<forall>(m, r) \<in> set dones. \<exists>j. r = snd (process ap cfg (rs_script rs j) m))
   \<and> (\<forall>n. res = Inr n \<longrightarrow> n = i + length dones \<and> (dones = [] \<or> \<not> rs_draining rs i))
   \<and> (\<forall>n. res = Inr n \<and> (\<forall>j. \<not> rs_draining rs j) \<longrightarrow> map fst dones = msgs)"
  using assms
proof (induction msgs arbitrary: i b res b' dones)
  case Nil
  then show ?case by (auto simp: untouched_def)
next
  case (Cons msg msgs)
  show ?case
  proof (cases "rs_draining rs i")
    case True
    with Cons.prems show ?thesis by (auto simp: untouched_def intro: exI [of _ 0])
  next
    case False
    obtain out r where p: "process ap cfg (rs_script rs i) msg = (out, r)" by fastforce
    show ?thesis
    proof (cases out)
      case (Inl x)
      with Cons.prems False p have "res = Inl x" "b' = settle cfg msg r b" "dones = [(msg, r)]" by simp_all
      with p show ?thesis
        by (auto simp: waiting_settle intro: exI [of _ 1] exI [of _ i])
    next
      case (Inr u)
      obtain res2 b2 done2 where rest: "process_all ap cfg rs (i + 1) msgs (settle cfg msg r b) = (res2, b2, done2)"
        by (metis prod_cases3)
      with Cons.prems False p Inr have eqs: "res = res2" "b' = b2" "dones = (msg, r) # done2" by simp_all
      from Cons.IH [OF rest]
      obtain k where k: "map fst done2 = take k msgs" "k \<le> length msgs" and ih:
        "waiting cfg b2 = filter (untouched done2) (waiting cfg (settle cfg msg r b))"
        "\<forall>(m, r) \<in> set done2. \<exists>j. r = snd (process ap cfg (rs_script rs j) m)"
        "\<forall>n. res2 = Inr n \<longrightarrow> n = i + 1 + length done2"
        "\<forall>n. res2 = Inr n \<and> (\<forall>j. \<not> rs_draining rs j) \<longrightarrow> map fst done2 = msgs"
        by blast
      have "filter (untouched done2) (filter (untouched [(msg, r)]) ms) = filter (untouched ((msg, r) # done2)) ms" for ms
        by (auto simp: untouched_def intro!: filter_cong)
      with ih(1) have "waiting cfg b2 = filter (untouched ((msg, r) # done2)) (waiting cfg b)" by (simp add: waiting_settle)
      moreover have "\<exists>k. map fst ((msg, r) # done2) = take k (msg # msgs) \<and> k \<le> length (msg # msgs)"
        using k by (intro exI [of _ "Suc k"]) simp
      moreover have "\<exists>j. r = snd (process ap cfg (rs_script rs j) msg)" using p by (metis snd_conv)
      ultimately show ?thesis
        using ih(2-4) False unfolding eqs by auto
    qed
  qed
qed

text \<open>
  A round accounts for every job. Of the messages that wait when the round has taken its
  own, each is still waiting when the round ends, or the round has acknowledged it: then it held
  no valid job, or its run has published a terminal event. And a round that neither drains nor
  throws has run every message it took.
\<close>

theorem round_accounts:
  assumes "taken_messages cfg rs b = (msgs, b1)" "runOnce ap cfg rs False b = (res, b2, dones)"
  shows "(\<forall>m \<in> set (waiting cfg b1). m \<in> set (waiting cfg b2)
        \<or> (\<exists>m' r j. (m', r) \<in> set dones \<and> sm_id m' = sm_id m \<and> rn_acks r = 1
             \<and> (message_job ap cfg (rs_script rs j) m' = None \<or> settled r)))
   \<and> set (waiting cfg b2) \<subseteq> set (waiting cfg b1)
   \<and> (\<forall>n. res = Inr n \<and> (\<forall>j. \<not> rs_draining rs j) \<longrightarrow> map fst dones = msgs \<and> n = length msgs)"
proof -
  have all: "process_all ap cfg rs 0 msgs b1 = (res, b2, dones)" using assms by (simp add: runOnce_def)
  note d = process_all_done [OF all]
  have known: "rn_acks r = 1 \<and> (\<exists>j. message_job ap cfg (rs_script rs j) m' = None \<or> settled r)"
    if "(m', r) \<in> set dones" "rn_acks r \<noteq> 0" for m' r
  proof -
    from d that(1) obtain j where r: "r = snd (process ap cfg (rs_script rs j) m')" by blast
    have "rn_acks r \<le> 1" "rn_acks r = 1 \<longrightarrow> message_job ap cfg (rs_script rs j) m' = None \<or> settled r"
      using acknowledged_when_settled_law [of ap cfg "rs_script rs j" m'] unfolding r by blast+
    with that(2) have "rn_acks r = 1" "message_job ap cfg (rs_script rs j) m' = None \<or> settled r" by simp_all
    then show ?thesis by blast
  qed
  have w: "waiting cfg b2 = filter (untouched dones) (waiting cfg b1)" using d by blast
  have "m \<in> set (waiting cfg b2) \<or> (\<exists>m' r j. (m', r) \<in> set dones \<and> sm_id m' = sm_id m \<and> rn_acks r = 1
             \<and> (message_job ap cfg (rs_script rs j) m' = None \<or> settled r))" if "m \<in> set (waiting cfg b1)" for m
  proof (cases "untouched dones m")
    case True
    with that show ?thesis unfolding w by simp
  next
    case False
    then obtain m' r where mr: "(m', r) \<in> set dones" "sm_id m' = sm_id m" "rn_acks r \<noteq> 0" by (auto simp: untouched_def)
    with known [OF mr(1,3)] show ?thesis by blast
  qed
  moreover have "set (waiting cfg b2) \<subseteq> set (waiting cfg b1)" unfolding w by auto
  moreover have "map fst dones = msgs \<and> n = length msgs" if "res = Inr n" "\<forall>j. \<not> rs_draining rs j" for n
  proof -
    have "map fst dones = msgs" using d that by blast
    moreover have "n = length dones" using d that(1) by auto
    ultimately show ?thesis by (metis length_map)
  qed
  ultimately show ?thesis by blast
qed

end
