(* ===== verification/AutomationScenario.thy ===== *)
theory AutomationScenario
  imports AutomationWorkerProps
begin

text \<open>
  A concrete run: a platform whose JSON text of a value is its place in a table, a job with its
  sealed credential, and the scripts of a run that succeeds and of one that meets its deadline.
\<close>

definition table_platform :: "jval list \<Rightarrow> automation_platform" where
  "table_platform vs = \<lparr>ap_json = (\<lambda>v. [of_nat (length (takeWhile (\<lambda>x. x \<noteq> v) vs))]),
     ap_parse = (\<lambda>bs. case bs of [b] \<Rightarrow> if unat b < length vs then Some (vs ! unat b) else None | _ \<Rightarrow> None),
     ap_encrypt = (\<lambda>key iv data p. p @ replicate 16 0), ap_decrypt = (\<lambda>key iv data c. Some (take (length c - 16) c))\<rparr>"

lemma table_aes: "aes_opens (table_platform vs)"
  by (simp add: aes_opens_def table_platform_def)

lemma table_reads:
  assumes "v \<in> set vs" "length vs < 256"
  shows "json_reads (table_platform vs) v"
proof -
  let ?n = "length (takeWhile (\<lambda>x. x \<noteq> v) vs)"
  have "?n < length vs" using assms(1) by (induction vs) auto
  moreover from this have "vs ! ?n = v" using nth_length_takeWhile by fastforce
  moreover have "unat (of_nat ?n :: 8 word) = ?n"
    using \<open>?n < length vs\<close> assms(2) by (simp add: unat_of_nat take_bit_nat_eq_self)
  ultimately show ?thesis by (simp add: json_reads_def table_platform_def)
qed

lemma table_length: "length (ap_json (table_platform vs) v) = 1"
  by (simp add: table_platform_def)

definition demo_key :: automation_key where
  "demo_key = \<lparr>ak_id = ''k1'', ak_material = RawMaterial (replicate 32 7)\<rparr>"

definition demo_ring :: keyring where
  "demo_ring = \<lparr>kr_current = Some demo_key, kr_previous = None\<rparr>"

definition demo_config :: worker_config where
  "demo_config = \<lparr>wc_redisUrl = \<lparr>pu_protocol = ''redis:'', pu_text = ''redis://r'', pu_origin = ''redis://r'', pu_hasToken = False\<rparr>,
     wc_jobStream = ''jobs'', wc_eventStream = ''events'', wc_controlStream = ''control'', wc_consumerGroup = ''workers'',
     wc_consumerName = ''w'', wc_controlConsumerGroup = ''controls'', wc_controlConsumerName = ''c'',
     wc_executionMode = ''distributed'', wc_browserProvider = ''browserless'', wc_browserlessEndpoint = None,
     wc_browserlessToken = None, wc_jobEnvelopeAad = ''job'', wc_credentialEnvelopeAadPrefix = ''credential:'',
     wc_resultEnvelopeAadPrefix = ''result:'', wc_eventEnvelopeAadPrefix = ''event:'', wc_leaseTtlMs = 30000,
     wc_heartbeatIntervalMs = 10000, wc_reclaimIdleMs = 30000, wc_readBlockMs = 1000, wc_redisConnectTimeoutMs = 30000,
     wc_shutdownTimeoutMs = 30000, wc_maxDeliveryCount = 3, wc_resultTtlMs = 300000, wc_keyring = demo_ring\<rparr>"

definition demo_id :: string where "demo_id = replicate 22 CHR ''A''"

definition demo_header :: envelope_header where
  "demo_header = sealed_header demo_ring (toISOString 0) (toISOString 60000) (replicate 12 0)"

definition demo_job :: uet_job where
  "demo_job = \<lparr>uj_jobId = demo_id, uj_accountId = demo_id, uj_fence = 1, uj_issuedAt = toISOString 0,
     uj_expiresAt = toISOString 60000, uj_credentialEnvelope = ''aep1.AA.AQAAAAAAAAAAAAAAAAAAAAA'',
     uj_expectedStudentCode = None\<rparr>"

definition demo_credential :: jval where
  "demo_credential = JObj [(''uetGoogleEmail'', JStr ''a@b''), (''uetGooglePassword'', JStr ''pw'')]"

text \<open>The session that the executor imports, and the header of its envelope.\<close>

definition demo_session :: jval where
  "demo_session = JObj [(''universityId'', JStr ''uet''), (''expiresAt'', JStr (toISOString 90000)),
     (''session'', JObj [(''version'', JInt 1), (''universityId'', JStr ''uet''), (''expiresAt'', JStr (toISOString 90000)),
        (''uetGoogleCredential'', JObj [(''email'', JStr ''a@b''), (''password'', JStr ''pw'')])])]"

definition result_header :: envelope_header where
  "result_header = sealed_header demo_ring (toISOString 4000) (toISOString 60000) (replicate 12 0)"

definition demo_result :: string where
  "demo_result = ''aep1.Aw.BAAAAAAAAAAAAAAAAAAAAAA''"

definition demo_events :: "automation_event list" where
  "demo_events = [event_at demo_job 300000 1000 0 Started, event_at demo_job 300000 2000 1 (Progress ''login'' 10),
     event_at demo_job 300000 3000 2 Heartbeat, event_at demo_job 300000 5000 3 (Succeeded (Some demo_result))]"

text \<open>The event of a run that fails at once.\<close>

definition quick_event :: automation_event where
  "quick_event = event_at demo_job 300000 6000 1 (Failed ''GOOGLE_AUTOMATION_BLOCKED'' False)"

lemma demo_dates: "plain_time t \<Longrightarrow> canonicalIsoDate (JStr (toISOString t)) = Some t"
  by (rule canonicalIsoDate_printed)

lemma demo_plain [simp]: "0 \<le> t \<Longrightarrow> t \<le> 400000 \<Longrightarrow> plain_time t"
  by (simp add: plain_time_def last_iso_time_def)

lemma demo_headers: "header_value demo_header \<noteq> header_value result_header"
proof
  assume "header_value demo_header = header_value result_header"
  then have "canonicalIsoDate (JStr (toISOString 0)) = canonicalIsoDate (JStr (toISOString 4000))"
    by (simp add: sealed_header_def demo_header_def result_header_def header_value_def del: canonicalIsoDate.simps)
  then show False by (simp add: demo_dates del: canonicalIsoDate.simps)
qed

text \<open>A control that cancels the job.\<close>

definition demo_control :: jval where
  "demo_control = JObj [(''type'', JStr ''cancel''), (''jobId'', JStr demo_id), (''accountId'', JStr demo_id), (''fence'', JInt 1),
     (''reason'', JStr ''requested'')]"

definition demo_values :: "jval list" where
  "demo_values = [header_value demo_header, demo_credential, job_value demo_job, header_value result_header, demo_session,
     event_value quick_event, demo_control] @ map event_value demo_events"

definition demo_platform :: automation_platform where
  "demo_platform = table_platform demo_values"

definition demo_message :: stream_message where
  "demo_message = \<lparr>sm_id = ''1-0'', sm_fields = [(''jobEnvelope'', ''aep1.AA.AgAAAAAAAAAAAAAAAAAAAAA'')],
     sm_deliveryCount = 1, sm_idleMs = None\<rparr>"

definition demo_script :: script where
  "demo_script = \<lparr>sc_opened = 500, sc_lease = Inr True, sc_created = 600,
     sc_stir = (\<lambda>at. if at = AtExecution then [Reports 2000 ''login'' 10 True True, Beats 3000 True True] else []),
     sc_started = (1000, True), sc_credential = 1000, sc_browser = Inr (), sc_execution = (\<lambda>c. Inr demo_session),
     sc_held = Inr (), sc_closed = (4000, replicate 12 0), sc_succeeded = (5000, True), sc_report = (60000, True),
     sc_acked = (\<lambda>at. True), sc_disconnect = Inr (), sc_release = Inr ()\<rparr>"

text \<open>The run whose timer fires while the executor works.\<close>

definition late_script :: script where
  "late_script = demo_script\<lparr>sc_stir := (\<lambda>at. if at = AtExecution then [Cancels Deadline] else []),
     sc_execution := (\<lambda>c. Inl cancellationError)\<rparr>"

lemma demo_ring_ok: "assertKeyring demo_ring = Inr demo_key"
proof -
  have "KEY_ID_PATTERN ''k1''" by code_simp
  then show ?thesis by (simp add: demo_ring_def demo_key_def assertKeyring_def assertKey_def assertKeyId_def)
qed

lemma demo_id_ok: "opaqueIdSchema (JStr demo_id)"
  by code_simp

lemma demo_reads: "v \<in> set demo_values \<Longrightarrow> json_reads demo_platform v"
  using table_reads [of v demo_values] by (simp add: demo_platform_def demo_values_def demo_events_def)

lemma demo_header_reads: "header_reads demo_platform demo_header" "header_reads demo_platform result_header"
  using demo_reads by (simp_all add: header_reads_def demo_platform_def table_length demo_values_def)

lemma demo_kinds:
  "header_value h \<noteq> demo_credential" "header_value h \<noteq> job_value demo_job" "header_value h \<noteq> demo_session"
  "demo_credential \<noteq> job_value demo_job" "demo_credential \<noteq> demo_session" "job_value demo_job \<noteq> demo_session"
  by (simp_all add: header_value_def demo_credential_def job_value_def demo_session_def)

lemma demo_defined: "demo_session \<noteq> JUndefined"
  by (simp add: demo_session_def)

lemma demo_json:
  "ap_json demo_platform (header_value demo_header) = [0]" "ap_json demo_platform demo_credential = [1]"
  "ap_json demo_platform (job_value demo_job) = [2]" "ap_json demo_platform (header_value result_header) = [3]"
  "ap_json demo_platform demo_session = [4]"
  using demo_headers demo_kinds demo_kinds [symmetric] by (simp_all add: demo_platform_def table_platform_def demo_values_def)

lemma demo_sealed:
  assumes "v \<noteq> JUndefined" "aadBytes (TextAad aad) = Inr x"
  shows "encryptEnvelope demo_platform v demo_ring (TextAad aad) (toISOString 0) (toISOString 60000) (replicate 12 0)
    = Inr (encodeEnvelope demo_platform demo_header (ap_json demo_platform v @ replicate 16 0))"
proof -
  have "encryptEnvelope demo_platform v demo_ring (TextAad aad) (toISOString 0) (toISOString 60000) (replicate 12 0)
    = Inr (encodeEnvelope demo_platform (sealed_header demo_ring (toISOString 0) (toISOString 60000) (replicate 12 0))
        (ap_encrypt demo_platform (replicate 32 7) (replicate 12 0)
          (utf8 ''hyeboard:automation-envelope:v1'' @ [10] @ ap_json demo_platform (header_value demo_header) @ [0] @ x) (ap_json demo_platform v)))"
    by (rule encrypt_made [of _ demo_key _ 0 _ 60000])
      (use assms in \<open>simp_all add: demo_ring_ok demo_dates authenticatedData_def demo_header_def [symmetric] demo_key_def
        demo_platform_def table_length MAX_ENVELOPE_BYTES_def del: canonicalIsoDate.simps\<close>)
  then show ?thesis
    by (simp add: demo_header_def [symmetric] demo_platform_def table_platform_def)
qed

lemma demo_opens:
  assumes "json_reads demo_platform v" "v \<noteq> JUndefined" "aadBytes (TextAad aad) = Inr x" "now < 60000"
  shows "codec_open demo_platform demo_ring (encodeEnvelope demo_platform demo_header (ap_json demo_platform v @ replicate 16 0)) aad now = Inr v"
proof -
  have aes: "aes_opens demo_platform" by (simp add: demo_platform_def table_aes)
  have hr: "header_reads demo_platform (sealed_header demo_ring (toISOString 0) (toISOString 60000) (replicate 12 0))"
    using demo_header_reads by (simp add: demo_header_def)
  have "decryptEnvelope demo_platform (encodeEnvelope demo_platform demo_header (ap_json demo_platform v @ replicate 16 0)) demo_ring (TextAad aad) now = Inr v"
    by (rule sealed_decrypts [OF demo_sealed [OF assms(2,3)] aes assms(1) hr, of 60000 _ demo_key "replicate 32 7"])
      (use assms(4) in \<open>simp_all add: demo_dates demo_ring_def demo_key_def del: canonicalIsoDate.simps\<close>)
  then show ?thesis by (simp add: codec_open_def)
qed

lemma demo_credential_reads: "json_reads demo_platform demo_credential"
  by (rule demo_reads) (simp add: demo_values_def)

lemma demo_job_reads: "json_reads demo_platform (job_value demo_job)"
  by (rule demo_reads) (simp add: demo_values_def)

lemma demo_tokens:
  "encodeEnvelope demo_platform demo_header (ap_json demo_platform demo_credential @ replicate 16 0) = uj_credentialEnvelope demo_job"
  "encodeEnvelope demo_platform demo_header (ap_json demo_platform (job_value demo_job) @ replicate 16 0) = ''aep1.AA.AgAAAAAAAAAAAAAAAAAAAAA''"
proof -
  have "toBase64Url [0] = ''AA''" "toBase64Url ([1] @ replicate 16 0) = ''AQAAAAAAAAAAAAAAAAAAAAA''"
    "toBase64Url ([2] @ replicate 16 0) = ''AgAAAAAAAAAAAAAAAAAAAAA''" by code_simp+
  then show "encodeEnvelope demo_platform demo_header (ap_json demo_platform demo_credential @ replicate 16 0) = uj_credentialEnvelope demo_job"
    "encodeEnvelope demo_platform demo_header (ap_json demo_platform (job_value demo_job) @ replicate 16 0) = ''aep1.AA.AgAAAAAAAAAAAAAAAAAAAAA''"
    using demo_json by (simp_all add: encodeEnvelope_def) (simp add: demo_job_def)
qed

lemma demo_job_ok: "job_ok demo_job"
proof -
  have "envelopeReferenceSchema (JStr (uj_credentialEnvelope demo_job))" 
  proof -
    have "ENVELOPE_PATTERN ''aep1.AA.AQAAAAAAAAAAAAAAAAAAAAA''" by code_simp
    then show ?thesis by (simp add: envelopeReferenceSchema_def demo_job_def MAX_ENVELOPE_BYTES_def)
  qed
  moreover have "canonicalIsoDate (JStr (toISOString 0)) = Some 0" "canonicalIsoDate (JStr (toISOString 60000)) = Some 60000"
    by (simp_all add: demo_dates del: canonicalIsoDate.simps)
  ultimately show ?thesis
    using demo_id_ok by (simp add: job_ok_def demo_job_def safe_integer_def max_safe_integer_def del: canonicalIsoDate.simps)
qed

lemma demo_deadline: "job_deadline demo_job = 60000"
  using demo_dates [of 60000] by (simp add: job_deadline_def demo_job_def del: canonicalIsoDate.simps)

lemma demo_parsed: "sc_opened sc = 500 \<Longrightarrow> message_job demo_platform demo_config sc demo_message = Some demo_job"
proof -
  assume t: "sc_opened sc = 500"
  have aad: "aadBytes (TextAad ''job'') = Inr (utf8 ''job'')" by code_simp
  have "codec_open demo_platform demo_ring ''aep1.AA.AgAAAAAAAAAAAAAAAAAAAAA'' ''job'' 500 = Inr (job_value demo_job)"
    using demo_opens [OF demo_job_reads _ aad, of 500] unfolding demo_tokens by (simp add: job_value_def)
  moreover have "parseUetImportJob (job_value demo_job) 500 = Inr demo_job"
  proof -
    have "assertUetImportJob (job_value demo_job) = Inr demo_job" using demo_job_ok by (simp add: assert_job_value)
    moreover have "canonicalIsoDate (JStr (uj_expiresAt demo_job)) = Some 60000"
      using job_deadline_date [OF demo_job_ok] by (simp add: demo_deadline)
    ultimately show ?thesis by (simp add: parseUetImportJob_def assert_not_expired del: canonicalIsoDate.simps)
  qed
  ultimately show ?thesis
    by (simp add: message_job_def message_envelope_def demo_message_def demo_config_def t)
qed

lemma demo_credential_opens:
  "codec_open demo_platform demo_ring (uj_credentialEnvelope demo_job) (''credential:'' @ demo_id) 1000 = Inr demo_credential"
proof -
  have aad: "aadBytes (TextAad (''credential:'' @ demo_id)) = Inr (utf8 (''credential:'' @ demo_id))" by code_simp
  show ?thesis
    using demo_opens [OF demo_credential_reads _ aad, of 1000] unfolding demo_tokens by (simp add: demo_credential_def)
qed

section \<open>The run that succeeds\<close>

lemma demo_config_sel [simp]:
  "wc_keyring demo_config = demo_ring" "wc_resultTtlMs demo_config = 300000" "wc_jobEnvelopeAad demo_config = ''job''"
  "wc_credentialEnvelopeAadPrefix demo_config = ''credential:''" "wc_resultEnvelopeAadPrefix demo_config = ''result:''"
  "wc_maxDeliveryCount demo_config = 3"
  by (simp_all add: demo_config_def)

lemma demo_script_sel [simp]:
  "sc_opened demo_script = 500" "sc_lease demo_script = Inr True" "sc_created demo_script = 600"
  "sc_stir demo_script at = (if at = AtExecution then [Reports 2000 ''login'' 10 True True, Beats 3000 True True] else [])"
  "sc_started demo_script = (1000, True)" "sc_credential demo_script = 1000" "sc_browser demo_script = Inr ()"
  "sc_execution demo_script c = Inr demo_session" "sc_held demo_script = Inr ()" "sc_closed demo_script = (4000, replicate 12 0)"
  "sc_succeeded demo_script = (5000, True)" "sc_acked demo_script at = True" "sc_disconnect demo_script = Inr ()"
  "sc_release demo_script = Inr ()" "sc_report demo_script = (60000, True)"
  by (simp_all add: demo_script_def)

lemma emit_live:
  assumes "job_ok job" "body_ok body" "plain_time now" "now < job_deadline job" "0 < ttl" "plain_time (min (job_deadline job) (now + ttl))"
    "safe_number 0 (JInt (rn_sequence r))"
  shows "emit job ttl body (now, True) r = (Inr (), r\<lparr>rn_sequence := rn_sequence r + 1,
    rn_events := rn_events r @ [event_at job ttl now (rn_sequence r) body]\<rparr>)"
proof -
  let ?e = "event_at job ttl now (rn_sequence r) body"
  have "canonicalIsoDate (JStr (ev_emittedAt ?e)) = Some now"
    "canonicalIsoDate (JStr (ev_expiresAt ?e)) = Some (min (job_deadline job) (now + ttl))"
    using canonicalIsoDate_printed assms(3,6) by (simp_all add: event_at_def del: canonicalIsoDate.simps)
  then have "event_ok ?e"
    using assms(1,4,5,7) by (simp add: event_ok_def job_ok_def del: canonicalIsoDate.simps) (simp add: event_at_def)
  moreover have "ev_body ?e = body" by (simp add: event_at_def)
  ultimately have "assertAutomationEvent (event_value ?e) = Inr ?e" using assms(2) by (simp add: assert_event_value)
  then show ?thesis by (simp add: emit_def Let_def)
qed

lemma demo_emit:
  assumes "body_ok body" "0 \<le> now" "now < 60000" "0 \<le> rn_sequence r" "rn_sequence r \<le> 100"
  shows "emit demo_job 300000 body (now, True) r = (Inr (), r\<lparr>rn_sequence := rn_sequence r + 1,
    rn_events := rn_events r @ [event_at demo_job 300000 now (rn_sequence r) body]\<rparr>)"
  using assms by (intro emit_live) (simp_all add: demo_job_ok demo_deadline safe_integer_def max_safe_integer_def)

lemma demo_closes:
  "codec_close demo_platform demo_ring demo_session (''result:'' @ demo_id) (toISOString 60000) 4000 (replicate 12 0) = Inr demo_result"
proof -
  define aad_text where "aad_text = ''result:'' @ demo_id"
  have aad: "aadBytes (TextAad aad_text) = Inr (utf8 aad_text)" unfolding aad_text_def by code_simp
  have "encryptEnvelope demo_platform demo_session demo_ring (TextAad aad_text) (toISOString 4000) (toISOString 60000) (replicate 12 0)
    = Inr (encodeEnvelope demo_platform result_header (ap_encrypt demo_platform (replicate 32 7) (replicate 12 0)
          (utf8 ''hyeboard:automation-envelope:v1'' @ [10] @ ap_json demo_platform (header_value result_header) @ [0] @ utf8 aad_text)
          (ap_json demo_platform demo_session)))"
    unfolding result_header_def
    by (rule encrypt_made [of _ demo_key _ 4000 _ 60000])
      (simp_all add: demo_ring_ok demo_dates authenticatedData_def demo_key_def demo_json aad MAX_ENVELOPE_BYTES_def
        demo_defined del: canonicalIsoDate.simps)
  moreover have "toBase64Url [3] = ''Aw''" "toBase64Url ([4] @ replicate 16 0) = ''BAAAAAAAAAAAAAAAAAAAAAA''" by code_simp+
  ultimately show ?thesis
    unfolding aad_text_def [symmetric] by (simp add: codec_close_def encodeEnvelope_def demo_result_def demo_json)
      (simp add: demo_platform_def table_platform_def)
qed

lemma demo_result_ok: "body_ok (Succeeded (Some demo_result))"
proof -
  have "ENVELOPE_PATTERN demo_result" by code_simp
  then show ?thesis by (simp add: envelopeReferenceSchema_def demo_result_def MAX_ENVELOPE_BYTES_def)
qed

lemma demo_job_id: "uj_jobId demo_job = demo_id"
  by (simp add: demo_job_def)

definition credential_aad :: string where "credential_aad = ''credential:'' @ demo_id"

definition result_aad :: string where "result_aad = ''result:'' @ demo_id"

lemma demo_runs:
  "run_job demo_platform demo_config demo_script demo_job (fresh_run None) =
    (Inr (), \<lparr>rn_token = None, rn_sequence = 4, rn_events = demo_events, rn_acks = 1, rn_connected = True, rn_leased = True, rn_listed = True\<rparr>)"
proof -
  have min: "min (60000::int) (4000 + 300000) = 60000" by simp
  show ?thesis
    unfolding run_job_def Let_def demo_config_sel demo_script_sel demo_job_id demo_deadline fst_conv snd_conv min
      credential_aad_def [symmetric] result_aad_def [symmetric]
    by (simp add: and_then_def awaited_def fresh_run_def demo_emit given_def throwIfCancelled_def open_browser_def stir_defs PHASES_def
        demo_credential_opens [folded credential_aad_def] demo_closes [folded result_aad_def] of_protocol_def
        demo_result_ok ack_message_def demo_events_def del: body_ok.simps(3))
qed

lemma demo_process:
  "process demo_platform demo_config demo_script demo_message =
    (Inr (), \<lparr>rn_token = None, rn_sequence = 4, rn_events = demo_events, rn_acks = 1, rn_connected = False, rn_leased = False, rn_listed = False\<rparr>)"
proof -
  have "token_create (job_deadline demo_job) (sc_created demo_script) = None" by (simp add: demo_deadline token_create_def)
  then show ?thesis
    by (simp add: process_def demo_parsed leased_run_def demo_runs clean_up_def)
qed

lemma demo_through: "through_terminal demo_events = demo_events"
  by (simp add: demo_events_def event_at_def)

lemma demo_alive: "list_all (alive 5500) demo_events"
  by (simp add: demo_events_def event_at_def alive_def demo_deadline demo_dates del: canonicalIsoDate.simps)

lemma worker_events_accepted_witness:
  "\<exists>cursor. createEventCursor demo_job (- 1) = Inr cursor
   \<and> validateAutomationEventSequence (map event_value demo_events) cursor 5500 = Inr (advance cursor demo_events)"
  using worker_events_accepted [of demo_platform demo_config demo_script demo_message demo_job 5500]
  by (simp add: demo_parsed demo_process demo_through demo_alive del: validateAutomationEventSequence.simps)

lemma acknowledged_when_settled_witness:
  "rn_acks (snd (process demo_platform demo_config demo_script demo_message)) = 1
   \<and> settled (snd (process demo_platform demo_config demo_script demo_message))
   \<and> \<not> rn_leased (snd (process demo_platform demo_config demo_script demo_message))"
  using acknowledged_when_settled [of demo_platform demo_config demo_script demo_message]
  by (simp add: demo_process demo_parsed)

section \<open>The run that meets its deadline\<close>

lemma late_script_sel [simp]:
  "sc_opened late_script = 500" "sc_lease late_script = Inr True" "sc_created late_script = 600"
  "sc_stir late_script at = (if at = AtExecution then [Cancels Deadline] else [])"
  "sc_started late_script = (1000, True)" "sc_credential late_script = 1000" "sc_browser late_script = Inr ()"
  "sc_execution late_script c = Inl cancellationError" "sc_report late_script = (60000, True)"
  by (simp_all add: late_script_def)

lemma late_runs:
  "run_job demo_platform demo_config late_script demo_job (fresh_run None) =
    (Inl cancellationError, \<lparr>rn_token = Some Deadline, rn_sequence = 1, rn_events = [event_at demo_job 300000 1000 0 Started], rn_acks = 0,
       rn_connected = True, rn_leased = True, rn_listed = True\<rparr>)"
  unfolding run_job_def Let_def demo_config_sel late_script_sel demo_job_id credential_aad_def [symmetric]
  by (simp add: and_then_def awaited_def fresh_run_def demo_emit given_def throwIfCancelled_def open_browser_def
      demo_credential_opens [folded credential_aad_def] of_protocol_def token_cancel_def)

lemma deadline_stops_worker_witness:
  "\<exists>x. fst (process demo_platform demo_config late_script demo_message) = Inl x"
proof -
  have fresh: "token_create (job_deadline demo_job) (sc_created late_script) = None" by (simp add: demo_deadline token_create_def)
  show ?thesis
    using deadline_stops_worker [of demo_platform demo_config late_script demo_message demo_job, unfolded fresh, OF _ _ _ late_runs]
    by (simp add: demo_parsed demo_deadline cancellationError_def)
qed

section \<open>A round\<close>

definition demo_round :: round_script where
  "demo_round = \<lparr>rs_reclaimed = 100, rs_read = 200, rs_aborted = False, rs_draining = (\<lambda>i. False), rs_script = (\<lambda>i. demo_script)\<rparr>"

lemma demo_round_sel [simp]: "\<not> rs_draining demo_round i" "rs_script demo_round i = demo_script"
  by (simp_all add: demo_round_def)

definition demo_broker :: broker where
  "demo_broker = snd (broker_add (broker_ensureGroup empty_broker ''jobs'' ''workers'') ''jobs'' (sm_fields demo_message))"

lemma demo_taken: "fst (taken_messages demo_config demo_round demo_broker) = [demo_message]"
  "map sm_id (waiting demo_config (snd (taken_messages demo_config demo_round demo_broker))) = [''1-0'']"
  by code_simp+

lemma round_accounts_witness:
  "waiting demo_config (fst (snd (runOnce demo_platform demo_config demo_round False demo_broker))) = []
   \<and> fst (runOnce demo_platform demo_config demo_round False demo_broker) = Inr 1"
proof -
  obtain b1 where t: "taken_messages demo_config demo_round demo_broker = ([demo_message], b1)"
    using demo_taken(1) by (metis prod.collapse)
  obtain res b2 dones where r: "runOnce demo_platform demo_config demo_round False demo_broker = (res, b2, dones)"
    using prod_cases3 by blast
  have d: "res = Inr 1" "b2 = settle demo_config demo_message (snd (process demo_platform demo_config demo_script demo_message)) b1"
    using r by (simp_all add: runOnce_def t demo_process)
  have "sm_id demo_message = ''1-0''" by (simp add: demo_message_def)
  then have "waiting demo_config b2 = []"
    using round_accounts [OF t r] demo_taken(2) d(2) by (auto simp: t waiting_settle demo_process untouched_def filter_empty_conv)
  then show ?thesis using d(1) r by simp
qed

end
