(* ===== verification/AutomationCapability.thy ===== *)
theory AutomationCapability
  imports SessionProps AppShared AutomationConfig CaptchaRelay
begin

text \<open>
  The signed tokens of a sign-in that runs elsewhere: the capabilities of
  \<open>apps/worker/src/node/automation/backend.ts\<close>, by which a browser owns its job and its
  challenge, the tokens of the captcha relay in \<open>apps/worker/src/app.ts\<close>, and the routes that
  take one from a request that carries no session. HMAC is the platform's.
\<close>

section \<open>Signatures\<close>

definition hmac_hex :: "core_platform \<Rightarrow> string \<Rightarrow> string \<Rightarrow> string" where
  "hmac_hex cp secret s = encodeHex (cp_hmac cp (RawKey secret) s)"

definition hex_value :: "char \<Rightarrow> nat option" where
  "hex_value c = (let n = of_char c in
     if 48 \<le> n \<and> n \<le> 57 then Some (n - 48) else if 97 \<le> n \<and> n \<le> 102 then Some (n - 87)
     else if 65 \<le> n \<and> n \<le> 70 then Some (n - 55) else None)"

text \<open>\<open>Buffer.from(s, "hex")\<close> stops at the first pair that is no byte.\<close>

fun buffer_hex :: "string \<Rightarrow> bytes" where
  "buffer_hex (a # b # s) = (case (hex_value a, hex_value b) of
     (Some x, Some y) \<Rightarrow> word_of_nat (16 * x + y) # buffer_hex s | _ \<Rightarrow> [])"
| "buffer_hex _ = []"

definition sameSignature :: "string \<Rightarrow> string \<Rightarrow> bool" where
  "sameSignature l r \<longleftrightarrow> buffer_hex l = buffer_hex r"

section \<open>Capabilities\<close>

definition automationNotFound :: hyeboard_error where
  "automationNotFound = \<lparr>err_code = ''STUDENTHUB_CAPTCHA_CHALLENGE_NOT_FOUND'',
     err_message = ''This verification code request has expired or already been answered.'', err_status = 404, err_details = []\<rparr>"

definition CAPABILITY_PREFIX :: string where "CAPABILITY_PREFIX = ''hyeboard-automation-v1''"

definition OWNERSHIP_DOMAIN :: string where "OWNERSHIP_DOMAIN = ''hyeboard:automation-ownership:v1'' @ [CHR 0x00]"

datatype capability_kind = JobCapability | ChallengeCapability

fun kind_text :: "capability_kind \<Rightarrow> string" where
  "kind_text JobCapability = ''job''"
| "kind_text ChallengeCapability = ''challenge''"

record job_record =
  jr_jobId :: string
  jr_accountId :: string
  jr_fence :: int
  jr_ownershipToken :: string

definition capability_body :: "string list \<Rightarrow> string" where
  "capability_body = join ''.''"

definition capability :: "core_platform \<Rightarrow> string \<Rightarrow> capability_kind \<Rightarrow> job_record \<Rightarrow> string option \<Rightarrow> string" where
  "capability cp secret kind job challenge =
    (let body = capability_body [CAPABILITY_PREFIX, kind_text kind, jr_jobId job, jr_accountId job, nat_string (jr_fence job),
       case challenge of None \<Rightarrow> [] | Some c \<Rightarrow> c]
     in body @ ''.'' @ hmac_hex cp secret (OWNERSHIP_DOMAIN @ body))"

text \<open>
  \<open>Number\<close> of a text of digits is exact up to the largest safe integer, and unsafe above it. The
  challenge is only kept for a challenge capability.
\<close>

definition parseCapability ::
  "core_platform \<Rightarrow> string \<Rightarrow> string \<Rightarrow> capability_kind \<Rightarrow> hyeboard_error + job_record \<times> string option" where
  "parseCapability cp secret token kind = (case split_on CHR ''.'' token of
     [prefix, token_kind, jobId, accountId, fence_value, challenge, signature] \<Rightarrow>
       (if prefix \<noteq> CAPABILITY_PREFIX \<or> token_kind \<noteq> kind_text kind then Inl automationNotFound
        else (let body = capability_body [prefix, token_kind, jobId, accountId, fence_value, challenge] in
          if \<not> token22 jobId \<or> \<not> token22 accountId \<or> fence_value = [] \<or> \<not> all_digits fence_value \<or> \<not> hex_n 64 signature
          then Inl automationNotFound
          else if \<not> sameSignature (hmac_hex cp secret (OWNERSHIP_DOMAIN @ body)) signature then Inl automationNotFound
          else (let fence = number_of fence_value in
            if \<not> safe_integer fence \<or> fence < 1 then Inl automationNotFound
            else Inr (\<lparr>jr_jobId = jobId, jr_accountId = accountId, jr_fence = fence, jr_ownershipToken = token\<rparr>,
                 if kind = ChallengeCapability then Some challenge else None))))
   | _ \<Rightarrow> Inl automationNotFound)"

definition isAutomationChallengeToken :: "string \<Rightarrow> bool" where
  "isAutomationChallengeToken token \<longleftrightarrow> starts_with (CAPABILITY_PREFIX @ ''.challenge.'') token"

text \<open>Only the events of a challenge become a capability; any other event is an error of the caller.\<close>

definition createChallengeToken ::
  "core_platform \<Rightarrow> string \<Rightarrow> automation_event \<Rightarrow> string \<Rightarrow> (hyeboard_error + string) option" where
  "createChallengeToken cp secret e token = (case ev_body e of
     ChallengeRequired challenge picture \<Rightarrow> Some (case parseCapability cp secret token JobCapability of
       Inl err \<Rightarrow> Inl err
     | Inr (owner, _) \<Rightarrow>
         if ev_jobId e \<noteq> jr_jobId owner \<or> ev_accountId e \<noteq> jr_accountId owner \<or> ev_fence e \<noteq> jr_fence owner
         then Inl automationNotFound
         else Inr (capability cp secret ChallengeCapability owner (Some challenge)))
   | _ \<Rightarrow> None)"

section \<open>Tokens of the captcha relay\<close>

definition CAPTCHA_RELAY_TOKEN_DOMAIN :: string where
  "CAPTCHA_RELAY_TOKEN_DOMAIN = ''hyeboard:captcha-relay:v1'' @ [CHR 0x00]"

definition CAPTCHA_RELAY_ID_PATTERN :: "string \<Rightarrow> bool" where
  "CAPTCHA_RELAY_ID_PATTERN s \<longleftrightarrow> 16 \<le> length s \<and> length s \<le> 80 \<and> list_all (\<lambda>c. c \<in> set b64url_chars) s"

definition CAPTCHA_RELAY_SIGNATURE_PATTERN :: "string \<Rightarrow> bool" where
  "CAPTCHA_RELAY_SIGNATURE_PATTERN s \<longleftrightarrow> hex_n 64 s"

text \<open>\<open>None\<close> stands for the error of a caller that passes no relay identifier.\<close>

definition createCaptchaRelayToken :: "core_platform \<Rightarrow> string option \<Rightarrow> string \<Rightarrow> (hyeboard_error + string) option" where
  "createCaptchaRelayToken cp configured relay_id =
    (if \<not> CAPTCHA_RELAY_ID_PATTERN relay_id then None
     else Some (sbind (getSessionSecret configured) (\<lambda>secret.
       Inr (relay_id @ ''.'' @ hmac_hex cp secret (CAPTCHA_RELAY_TOKEN_DOMAIN @ relay_id)))))"

text \<open>A token with exactly one dot; every error is a token that is not accepted.\<close>

definition verifyCaptchaRelayToken :: "core_platform \<Rightarrow> string option \<Rightarrow> string \<Rightarrow> string option" where
  "verifyCaptchaRelayToken cp configured token = (case split_on CHR ''.'' token of
     [relay_id, signature] \<Rightarrow>
       (if \<not> CAPTCHA_RELAY_ID_PATTERN relay_id \<or> \<not> CAPTCHA_RELAY_SIGNATURE_PATTERN signature then None
        else (case getSessionSecret configured of
          Inl e \<Rightarrow> None
        | Inr secret \<Rightarrow> if cp_hmac cp (RawKey secret) (CAPTCHA_RELAY_TOKEN_DOMAIN @ relay_id) = buffer_hex signature
            then Some relay_id else None))
   | _ \<Rightarrow> None)"

section \<open>The routes\<close>

text \<open>
  What a route does with a valid body: it hands the token to the backend, or an identifier with
  the answer to the relay, or throws.
\<close>

datatype captcha_action =
    Unvalidated
  | Throws hyeboard_error
  | AnswersBackend string string
  | CancelsBackend string
  | CancelsJob string
  | AnswersRelay string string

definition sized :: "nat \<Rightarrow> string \<Rightarrow> bool" where
  "sized n s \<longleftrightarrow> 1 \<le> length s \<and> length s \<le> n"

definition backend_missing :: hyeboard_error where
  "backend_missing = \<lparr>err_code = ''AUTOMATION_BACKEND_UNCONFIGURED'',
     err_message = ''Distributed browser automation is not configured; configure a worker executor before using Google sign-in.'',
     err_status = 503, err_details = []\<rparr>"

text \<open>The backend of the runtime: absent, or present with \<open>isAvailable\<close>.\<close>

definition requireDistributedAutomationBackend :: "bool option \<Rightarrow> captcha_action \<Rightarrow> captcha_action" where
  "requireDistributedAutomationBackend backend act = (if backend = Some True then act else Throws backend_missing)"

definition solve_captcha ::
  "core_platform \<Rightarrow> string option \<Rightarrow> bool \<Rightarrow> bool option \<Rightarrow> string \<Rightarrow> string \<Rightarrow> captcha_action" where
  "solve_captcha cp configured distributed_mode backend challenge answer =
    (if \<not> sized 160 challenge \<or> \<not> sized 64 answer then Unvalidated
     else if distributed_mode \<and> backend \<noteq> None \<and> isAutomationChallengeToken challenge
     then requireDistributedAutomationBackend backend (AnswersBackend challenge answer)
     else (case verifyCaptchaRelayToken cp configured challenge of
       None \<Rightarrow> Throws captchaRelayNotFound
     | Some relay_id \<Rightarrow> AnswersRelay relay_id answer))"

definition cancel_captcha :: "bool \<Rightarrow> bool option \<Rightarrow> string \<Rightarrow> captcha_action" where
  "cancel_captcha distributed_mode backend challenge =
    (if \<not> sized 512 challenge then Unvalidated
     else if distributed_mode \<and> backend \<noteq> None \<and> isAutomationChallengeToken challenge
     then requireDistributedAutomationBackend backend (CancelsBackend challenge)
     else Throws captchaRelayNotFound)"

definition cancel_automation :: "bool option \<Rightarrow> string \<Rightarrow> captcha_action" where
  "cancel_automation backend token =
    (if \<not> sized 512 token then Unvalidated else requireDistributedAutomationBackend backend (CancelsJob token))"

section \<open>Laws of the tokens\<close>

lemma hex_value_digit: "n < 16 \<Longrightarrow> hex_value (hex_digit n) = Some n"
proof -
  assume "n < 16"
  then have "n \<in> set [0..<16]" by simp
  moreover have "\<forall>n \<in> set [0..<16]. hex_value (hex_digit n) = Some n" by code_simp
  ultimately show ?thesis by blast
qed

lemma buffer_encodeHex: "buffer_hex (encodeHex bs) = bs"
proof (induction bs)
  case (Cons b bs)
  have "unat b < 256" using unsigned_less [of b] by simp
  then have "hex_value (hex_digit (unat b div 16)) = Some (unat b div 16)" "hex_value (hex_digit (unat b mod 16)) = Some (unat b mod 16)"
    by (simp_all add: hex_value_digit)
  then show ?case using Cons by (simp add: encodeHex_def)
qed (simp add: encodeHex_def)

lemma hex_char_digit: "c \<in> set hex_chars \<Longrightarrow> \<exists>n < 16. c = hex_digit n"
proof -
  assume "c \<in> set hex_chars"
  then obtain n where "n < length hex_chars" "c = hex_chars ! n" by (metis in_set_conv_nth)
  moreover have "length hex_chars = 16" by (simp add: hex_chars_def)
  ultimately show ?thesis by (auto simp: hex_digit_def)
qed

lemma word_small: "n < 256 \<Longrightarrow> unat (word_of_nat n :: 8 word) = n"
  by (simp add: unat_of_nat take_bit_nat_eq_self)

lemma encode_buffer: "even (length s) \<Longrightarrow> list_all (\<lambda>c. c \<in> set hex_chars) s \<Longrightarrow> encodeHex (buffer_hex s) = s"
proof (induction s rule: buffer_hex.induct)
  case (1 a b s)
  obtain x y where xy: "x < 16" "a = hex_digit x" "y < 16" "b = hex_digit y"
    using 1(3) hex_char_digit [of a] hex_char_digit [of b] by auto
  have u: "unat (word_of_nat (16 * x + y) :: 8 word) = 16 * x + y"
    by (rule word_small) (use xy(1,3) in simp)
  have "encodeHex (buffer_hex s) = s" using 1 xy by (simp add: hex_value_digit)
  then show ?case using xy by (simp add: hex_value_digit encodeHex_def u [simplified])
qed (simp_all add: encodeHex_def)

lemma signed_iff: "hex_n 64 s \<Longrightarrow> buffer_hex s = bs \<longleftrightarrow> s = encodeHex bs"
  using encode_buffer [of s] buffer_encodeHex [of bs] by (auto simp: hex_n_def)

lemma sameSignature_iff: "hex_n 64 s \<Longrightarrow> sameSignature (hmac_hex cp k t) s \<longleftrightarrow> s = hmac_hex cp k t"
  using signed_iff [of s "cp_hmac cp (RawKey k) t"] by (auto simp: sameSignature_def hmac_hex_def buffer_encodeHex)

lemma hmac_hex_64: "length (cp_hmac cp (RawKey k) t) = 32 \<Longrightarrow> hex_n 64 (hmac_hex cp k t)"
  unfolding hmac_hex_def by (metis encodeHex_hex mult_2 numeral_Bit0)

end
