(* ===== verification/AutomationBackend.thy ===== *)
theory AutomationBackend
  imports AutomationCapability AutomationTransport JsTime
begin

text \<open>
  The backend of a distributed sign-in, \<open>apps/worker/src/node/automation/backend.ts\<close>: how a
  request follows the events of its job to the imported session, and how a challenge is prepared
  and answered or cancelled once. Redis is a parameter: for the events, the replies of its reads
  are the polls of a request; for a challenge, a client whose laws are its documented behaviour.
\<close>

section \<open>Errors\<close>

definition hye :: "string \<Rightarrow> string \<Rightarrow> int \<Rightarrow> hyeboard_error" where
  "hye code message status = \<lparr>err_code = code, err_message = message, err_status = status, err_details = []\<rparr>"

definition automationUnavailable :: hyeboard_error where
  "automationUnavailable = hye ''AUTOMATION_BACKEND_UNCONFIGURED''
     ''Distributed browser automation is not configured; configure a worker executor before using Google sign-in.'' 503"

definition automationTimeout :: hyeboard_error where
  "automationTimeout = hye ''GOOGLE_AUTOMATION_TIMEOUT'' ''The automated sign-in took too long and was cancelled.'' 504"

definition automationCancelled :: hyeboard_error where
  "automationCancelled = hye ''GOOGLE_AUTOMATION_TIMEOUT'' ''The automated sign-in was cancelled.'' 504"

definition invalidResult :: hyeboard_error where
  "invalidResult = hye ''GOOGLE_SIGNIN_FAILURE'' ''The automation worker returned an invalid sign-in result.'' 502"

definition missingResult :: hyeboard_error where
  "missingResult = hye ''GOOGLE_SIGNIN_FAILURE'' ''The automation worker returned no sign-in result.'' 502"

definition WORKER_CODES :: "string list" where
  "WORKER_CODES = [''GOOGLE_2FA_REQUIRED'', ''GOOGLE_AUTOMATION_BLOCKED'', ''GOOGLE_CHALLENGE_REQUIRED'', ''GOOGLE_AUTOMATION_TIMEOUT'',
     ''GOOGLE_KEYCLOAK_REDIRECT_MISSING'', ''GOOGLE_SIGNIN_FAILURE'', ''STUDENTHUB_MAINTENANCE'']"

definition errorForWorkerCode :: "string \<Rightarrow> hyeboard_error" where
  "errorForWorkerCode code =
    (if code \<in> set WORKER_CODES
     then hye code ''Google sign-in did not complete. Try again or use the manual token option.''
       (if code = ''GOOGLE_AUTOMATION_TIMEOUT'' then 504 else 502)
     else hye ''GOOGLE_SIGNIN_FAILURE'' ''Google sign-in did not complete. Try again or use the manual token option.'' 502)"

text \<open>An error of the application, of the protocol, the \<open>AbortError\<close> of a signal, or any other.\<close>

datatype consume_error = AppError hyeboard_error | ProtocolFailure protocol_error | AbortError | OtherFailure

section \<open>The imported session\<close>

record imported =
  ds_studentCode :: "string option"
  ds_expiresAt :: string
  ds_session :: jval

fun asRecord :: "jval \<Rightarrow> bool" where
  "asRecord (JObj kvs) = True"
| "asRecord _ = False"

definition full_text :: "jval \<Rightarrow> bool" where
  "full_text v \<longleftrightarrow> matches (\<lambda>s. s \<noteq> []) v"

definition cookie_ok :: "jval \<Rightarrow> bool" where
  "cookie_ok c \<longleftrightarrow> asRecord c \<and> full_text (prop_of ''name'' c) \<and> full_text (prop_of ''value'' c)
     \<and> full_text (prop_of ''domain'' c) \<and> full_text (prop_of ''path'' c)"

text \<open>
  \<open>names.includes(String(v))\<close> for names without a comma: the text of an array of one element is
  that of the element.
\<close>

fun string_among :: "string list \<Rightarrow> jval \<Rightarrow> bool" where
  "string_among names (JStr s) = (s \<in> set names)"
| "string_among names (JArr [v]) = string_among names v"
| "string_among names _ = False"

definition credential_ok :: "jval \<Rightarrow> bool" where
  "credential_ok c \<longleftrightarrow> c = JUndefined \<or> asRecord c \<and> string_among [''bearer'', ''cookie'', ''manual''] (prop_of ''kind'' c) \<and> full_text (prop_of ''value'' c)"

fun cookies_ok :: "jval \<Rightarrow> bool" where
  "cookies_ok JUndefined = True"
| "cookies_ok (JArr cs) = list_all cookie_ok cs"
| "cookies_ok _ = False"

definition google_credential_ok :: "jval \<Rightarrow> bool" where
  "google_credential_ok g \<longleftrightarrow> asRecord g \<and> full_text (prop_of ''email'' g) \<and> full_text (prop_of ''password'' g)
     \<and> cookies_ok (prop_of ''googleCookies'' g)"

text \<open>
  A student code that is no text is refused in any case, so that the comparison of two codes is
  one of texts.
\<close>

definition session_ok :: "jval \<Rightarrow> int \<Rightarrow> bool" where
  "session_ok v now \<longleftrightarrow> (let session = prop_of ''session'' v; code = prop_of ''studentCode'' session in
     asRecord v \<and> prop_of ''universityId'' v = JStr ''uet'' \<and> matches (\<lambda>s. True) (prop_of ''expiresAt'' v) \<and> asRecord session
     \<and> prop_of ''version'' session = JInt 1 \<and> prop_of ''universityId'' session = JStr ''uet''
     \<and> prop_of ''expiresAt'' session = prop_of ''expiresAt'' v
     \<and> (case canonicalTime (text_of_value (prop_of ''expiresAt'' v)) of None \<Rightarrow> False | Some t \<Rightarrow> now < t)
     \<and> (prop_of ''studentCode'' v = JUndefined \<or> prop_of ''studentCode'' v = code)
     \<and> google_credential_ok (prop_of ''uetGoogleCredential'' session)
     \<and> credential_ok (prop_of ''studenthub'' session) \<and> credential_ok (prop_of ''canvas'' session)
     \<and> (code = JUndefined \<or> matches (\<lambda>s. True) code))"

definition validateImportedSession :: "jval \<Rightarrow> int \<Rightarrow> hyeboard_error + imported" where
  "validateImportedSession v now =
    (if session_ok v now
     then Inr \<lparr>ds_studentCode = text_option (prop_of ''studentCode'' (prop_of ''session'' v)),
       ds_expiresAt = text_of_value (prop_of ''expiresAt'' v), ds_session = prop_of ''session'' v\<rparr>
     else Inl invalidResult)"

section \<open>Replies of the stream\<close>

text \<open>
  What a read returns: no list, or streams with their messages; the fields of a message are a
  map or an object of texts, or malformed.
\<close>

datatype raw_message = MalformedMessage | RawMessage string "stream_fields option"

datatype raw_stream = MalformedStream | RawStream "raw_message list"

type_synonym raw_reply = "raw_stream list option"

fun readMessage :: "raw_message \<Rightarrow> consume_error + string \<times> stream_fields" where
  "readMessage (RawMessage i (Some kvs)) = Inr (i, kvs)"
| "readMessage _ = Inl OtherFailure"

fun stream_messages :: "raw_stream \<Rightarrow> consume_error + (string \<times> stream_fields) list" where
  "stream_messages MalformedStream = Inr []"
| "stream_messages (RawStream ms) = traverse readMessage ms"

definition readMessages :: "raw_reply \<Rightarrow> consume_error + (string \<times> stream_fields) list" where
  "readMessages reply = (case reply of None \<Rightarrow> Inr []
     | Some streams \<Rightarrow> sbind (traverse stream_messages streams) (\<lambda>mss. Inr (concat mss)))"

section \<open>Following the events of a job\<close>

text \<open>
  The state of the loop: the cursor, the place in the stream, the events handed to the caller's
  callback and the challenges prepared. The preparation of a challenge and the callback may throw.
\<close>

record consumer =
  cn_cursor :: event_cursor
  cn_stream :: string
  cn_seen :: "automation_event list"
  cn_prepared :: "string list"

record hooks =
  hk_prepare :: "automation_event \<Rightarrow> consume_error option"
  hk_onEvent :: "automation_event \<Rightarrow> consume_error option"

definition job_fate ::
  "automation_platform \<Rightarrow> backend_config \<Rightarrow> uet_job \<Rightarrow> int \<Rightarrow> event_body \<Rightarrow> consume_error + imported option" where
  "job_fate ap cfg job now body = (case body of
     Failed code retryable \<Rightarrow> Inl (AppError (errorForWorkerCode code))
   | event_body.Cancelled reason \<Rightarrow> Inl (AppError (if reason = ''expired'' then automationTimeout else automationCancelled))
   | Succeeded None \<Rightarrow> Inl (AppError missingResult)
   | Succeeded (Some envelope) \<Rightarrow>
       (if envelope = [] then Inl (AppError missingResult)
        else (case decryptEnvelope ap envelope (bc_keyring cfg) (TextAad (bc_resultEnvelopeAadPrefix cfg @ uj_jobId job)) now of
          Inl e \<Rightarrow> Inl (ProtocolFailure e)
        | Inr v \<Rightarrow> (case validateImportedSession v now of Inl e \<Rightarrow> Inl (AppError e) | Inr s \<Rightarrow> Inr (Some s))))
   | _ \<Rightarrow> Inr None)"

definition prepares :: "hooks \<Rightarrow> automation_event \<Rightarrow> consumer \<Rightarrow> consume_error option \<times> consumer" where
  "prepares hk e c = (case ev_body e of
     ChallengeRequired challenge picture \<Rightarrow> (case hk_prepare hk e of
       Some x \<Rightarrow> (Some x, c) | None \<Rightarrow> (None, c\<lparr>cn_prepared := cn_prepared c @ [challenge]\<rparr>))
   | _ \<Rightarrow> (None, c))"

definition consume_event ::
  "automation_platform \<Rightarrow> backend_config \<Rightarrow> uet_job \<Rightarrow> hooks \<Rightarrow> int \<Rightarrow> jval \<Rightarrow> automation_event \<Rightarrow> consumer \<Rightarrow>
   (consume_error + imported option) \<times> consumer" where
  "consume_event ap cfg job hk now v e c =
    (if ev_sequence e \<le> ec_lastSequence (cn_cursor c) then (Inr None, c)
     else (case validateNextAutomationEvent v (cn_cursor c) now of
       Inl x \<Rightarrow> (Inl (ProtocolFailure x), c)
     | Inr cursor \<Rightarrow> (case prepares hk e (c\<lparr>cn_cursor := cursor\<rparr>) of
         (Some x, c1) \<Rightarrow> (Inl x, c1)
       | (None, c1) \<Rightarrow> (let c2 = c1\<lparr>cn_seen := cn_seen c1 @ [e]\<rparr> in
           case hk_onEvent hk e of
             Some x \<Rightarrow> (Inl x, c2)
           | None \<Rightarrow> (job_fate ap cfg job now (ev_body e), c2)))))"

text \<open>A message that belongs to another job or has no envelope is passed over.\<close>

definition consume_message ::
  "automation_platform \<Rightarrow> backend_config \<Rightarrow> uet_job \<Rightarrow> hooks \<Rightarrow> int \<Rightarrow> string \<times> stream_fields \<Rightarrow> consumer \<Rightarrow>
   (consume_error + imported option) \<times> consumer" where
  "consume_message ap cfg job hk now = (\<lambda>(place, kvs) c.
    (let c' = c\<lparr>cn_stream := place\<rparr> in
     if map_of kvs ''jobId'' \<noteq> Some (uj_jobId job) then (Inr None, c')
     else (case map_of kvs ''eventEnvelope'' of
       None \<Rightarrow> (Inr None, c')
     | Some envelope \<Rightarrow>
         (if envelope = [] then (Inr None, c')
          else (case sbind (decryptEnvelope ap envelope (bc_keyring cfg) (TextAad (bc_eventEnvelopeAadPrefix cfg @ uj_jobId job)) now)
              (\<lambda>v. sbind (parseAutomationEvent v now) (\<lambda>e. Inr (v, e))) of
            Inl x \<Rightarrow> (Inl (ProtocolFailure x), c')
          | Inr (v, e) \<Rightarrow> consume_event ap cfg job hk now v e c')))))"

fun consume_messages ::
  "automation_platform \<Rightarrow> backend_config \<Rightarrow> uet_job \<Rightarrow> hooks \<Rightarrow> (int \<times> string \<times> stream_fields) list \<Rightarrow> consumer \<Rightarrow>
   (consume_error + imported option) \<times> consumer" where
  "consume_messages ap cfg job hk [] c = (Inr None, c)"
| "consume_messages ap cfg job hk ((now, m) # ms) c = (case consume_message ap cfg job hk now m c of
     (Inr None, c') \<Rightarrow> consume_messages ap cfg job hk ms c'
   | (r, c') \<Rightarrow> (r, c'))"

text \<open>
  One turn of the loop: whether the signal has been aborted by then, the read of the mark that
  cancels, the read of the stream and the clock at each of its messages.
\<close>

datatype abort_reason = PlainAbort | AbortsWith hyeboard_error | OtherAbort

datatype abort_cause = CallerAborts abort_reason | DeadlinePasses

record poll =
  pl_aborted :: "abort_cause option"
  pl_cancelled :: "consume_error + bool"
  pl_reply :: "consume_error + raw_reply"
  pl_clock :: "nat \<Rightarrow> int"

fun abort_error :: "abort_cause \<Rightarrow> consume_error" where
  "abort_error (CallerAborts PlainAbort) = AbortError"
| "abort_error (CallerAborts (AbortsWith e)) = AppError e"
| "abort_error (CallerAborts OtherAbort) = OtherFailure"
| "abort_error DeadlinePasses = AppError automationTimeout"

definition timed :: "(nat \<Rightarrow> int) \<Rightarrow> 'a list \<Rightarrow> (int \<times> 'a) list" where
  "timed clock ms = map (\<lambda>(i, m). (clock i, m)) (enumerate 0 ms)"

definition poll_messages :: "poll \<Rightarrow> consume_error + (int \<times> string \<times> stream_fields) list" where
  "poll_messages p = sbind (pl_reply p) (\<lambda>reply. sbind (readMessages reply) (\<lambda>ms. Inr (timed (pl_clock p) ms)))"

text \<open>\<open>None\<close> when the polls are used up and the request still reads.\<close>

fun consume_loop ::
  "automation_platform \<Rightarrow> backend_config \<Rightarrow> uet_job \<Rightarrow> hooks \<Rightarrow> poll list \<Rightarrow> consumer \<Rightarrow>
   (consume_error + imported) option \<times> consumer" where
  "consume_loop ap cfg job hk [] c = (None, c)"
| "consume_loop ap cfg job hk (p # ps) c = (case pl_aborted p of
     Some a \<Rightarrow> (Some (Inl (abort_error a)), c)
   | None \<Rightarrow> (case pl_cancelled p of
       Inl x \<Rightarrow> (Some (Inl x), c)
     | Inr True \<Rightarrow> (Some (Inl (AppError automationCancelled)), c)
     | Inr False \<Rightarrow> (case poll_messages p of
         Inl x \<Rightarrow> (Some (Inl x), c)
       | Inr ms \<Rightarrow> (case consume_messages ap cfg job hk ms c of
           (Inl x, c') \<Rightarrow> (Some (Inl x), c')
         | (Inr (Some s), c') \<Rightarrow> (Some (Inr s), c')
         | (Inr None, c') \<Rightarrow> consume_loop ap cfg job hk ps c'))))"

text \<open>
  What is thrown for an error, given what has aborted by then; the Boolean says that the job is
  cancelled first.
\<close>

definition thrown_error :: "abort_cause option \<Rightarrow> consume_error \<Rightarrow> consume_error \<times> bool" where
  "thrown_error a e = (case a of
     None \<Rightarrow> (e, False)
   | Some (CallerAborts reason) \<Rightarrow>
       (if e = AbortError then (abort_error (CallerAborts reason), True)
        else (case reason of AbortsWith x \<Rightarrow> (AppError x, False) | _ \<Rightarrow> (AppError automationTimeout, False)))
   | Some DeadlinePasses \<Rightarrow> (AppError automationTimeout, False))"

datatype follow_result = Returns imported | Rejects consume_error bool | Follows

definition consumeEvents ::
  "automation_platform \<Rightarrow> backend_config \<Rightarrow> uet_job \<Rightarrow> hooks \<Rightarrow> int option \<Rightarrow> poll list \<Rightarrow> abort_cause option \<Rightarrow>
   follow_result \<times> automation_event list" where
  "consumeEvents ap cfg job hk start polls aborted =
    (case createEventCursor job (case start of None \<Rightarrow> - 1 | Some n \<Rightarrow> n) of
       Inl x \<Rightarrow> (Rejects (ProtocolFailure x) False, [])
     | Inr cursor \<Rightarrow>
        (case consume_loop ap cfg job hk polls \<lparr>cn_cursor = cursor, cn_stream = ''0-0'', cn_seen = [], cn_prepared = []\<rparr> of
           (None, c) \<Rightarrow> (Follows, cn_seen c)
         | (Some (Inr s), c) \<Rightarrow> (Returns s, cn_seen c)
         | (Some (Inl e), c) \<Rightarrow> (case thrown_error aborted e of (e', cancels) \<Rightarrow> (Rejects e' cancels, cn_seen c))))"

end
