(* ===== verification/AutomationCapabilityProps.thy ===== *)
theory AutomationCapabilityProps
  imports AutomationCapability AutomationProtocolProps
begin

text \<open>
  What the signed tokens show: a capability is accepted exactly when it carries the platform's
  signature of its own text, one kind never passes for the other, and an answer reaches the
  relay exactly for the signed identifier.
\<close>

lemma split_join:
  assumes "\<And>p. p \<in> set ps \<Longrightarrow> c \<notin> set p" "ps \<noteq> []"
  shows "split_on c (join [c] ps) = ps"
  using assms
proof (induction ps)
  case (Cons p ps)
  then show ?case by (cases ps) (simp_all add: split_on_append split_on_free)
qed simp

lemma split_free: "p \<in> set (split_on c s) \<Longrightarrow> c \<notin> set p"
proof (induction s arbitrary: p)
  case (Cons x s)
  then show ?case by (cases "split_on c s") (auto split: if_splits)
qed simp

lemma body_join: "capability_body ps = join [CHR ''.''] ps"
  by (simp add: capability_body_def)

lemma join_snoc: "ps \<noteq> [] \<Longrightarrow> join [c] (ps @ [p]) = join [c] ps @ c # p"
proof (induction ps)
  case (Cons q ps)
  then show ?case by (cases ps) simp_all
qed simp

lemma dot_free:
  "list_all (\<lambda>c. c \<in> set b64url_chars) s \<Longrightarrow> CHR ''.'' \<notin> set s"
  "all_digits s \<Longrightarrow> CHR ''.'' \<notin> set s" "hex_n n s \<Longrightarrow> CHR ''.'' \<notin> set s"
proof -
  have "CHR ''.'' \<notin> set b64url_chars" "CHR ''.'' \<notin> set digit_chars" "CHR ''.'' \<notin> set hex_chars" by code_simp+
  then show "list_all (\<lambda>c. c \<in> set b64url_chars) s \<Longrightarrow> CHR ''.'' \<notin> set s"
    "all_digits s \<Longrightarrow> CHR ''.'' \<notin> set s" "hex_n n s \<Longrightarrow> CHR ''.'' \<notin> set s"
    unfolding all_digits_def hex_n_def list_all_iff by blast+
qed

lemma token22_free: "token22 s \<Longrightarrow> CHR ''.'' \<notin> set s"
  by (simp add: token22_def dot_free(1))

lemma names_free: "CHR ''.'' \<notin> set CAPABILITY_PREFIX" "CHR ''.'' \<notin> set (kind_text kind)"
  by (simp add: CAPABILITY_PREFIX_def) (cases kind; simp)

lemma token_split:
  assumes "CHR ''.'' \<notin> set challenge" "token22 i" "token22 a" "all_digits f" "hex_n 64 s"
  shows "split_on CHR ''.'' (capability_body [CAPABILITY_PREFIX, kind_text kind, i, a, f, challenge] @ ''.'' @ s)
    = [CAPABILITY_PREFIX, kind_text kind, i, a, f, challenge, s]"
proof -
  have "capability_body [CAPABILITY_PREFIX, kind_text kind, i, a, f, challenge] @ ''.'' @ s
      = join [CHR ''.''] ([CAPABILITY_PREFIX, kind_text kind, i, a, f, challenge] @ [s])"
    by (subst join_snoc) (simp_all add: body_join)
  moreover have "split_on CHR ''.'' (join [CHR ''.''] ([CAPABILITY_PREFIX, kind_text kind, i, a, f, challenge] @ [s]))
      = [CAPABILITY_PREFIX, kind_text kind, i, a, f, challenge] @ [s]"
    by (rule split_join) (use assms names_free token22_free dot_free in auto)
  ultimately show ?thesis by simp
qed

definition signed_body :: "core_platform \<Rightarrow> string \<Rightarrow> string \<Rightarrow> string" where
  "signed_body cp secret body = body @ ''.'' @ hmac_hex cp secret (OWNERSHIP_DOMAIN @ body)"

definition fence_text :: "string \<Rightarrow> int \<Rightarrow> bool" where
  "fence_text s n \<longleftrightarrow> s \<noteq> [] \<and> all_digits s \<and> number_of s = n \<and> 1 \<le> n \<and> safe_integer n"

lemma fence_text_printed: "1 \<le> n \<Longrightarrow> safe_integer n \<Longrightarrow> fence_text (nat_string n) n"
  using all_digits_nat_string [of n] number_of_nat_string [of n] by (simp add: fence_text_def)

lemma accepted_capability:
  assumes "token22 i" "token22 a" "fence_text f n" "CHR ''.'' \<notin> set challenge"
    "body = capability_body [CAPABILITY_PREFIX, kind_text kind, i, a, f, challenge]" "hex_n 64 (hmac_hex cp secret (OWNERSHIP_DOMAIN @ body))"
  shows "parseCapability cp secret (signed_body cp secret body) kind =
    Inr (\<lparr>jr_jobId = i, jr_accountId = a, jr_fence = n, jr_ownershipToken = signed_body cp secret body\<rparr>,
         if kind = ChallengeCapability then Some challenge else None)"
proof -
  have "split_on CHR ''.'' (signed_body cp secret body)
      = [CAPABILITY_PREFIX, kind_text kind, i, a, f, challenge, hmac_hex cp secret (OWNERSHIP_DOMAIN @ body)]"
    unfolding signed_body_def assms(5)
    by (rule token_split) (use assms in \<open>simp_all add: fence_text_def\<close>)
  moreover have "sameSignature (hmac_hex cp secret (OWNERSHIP_DOMAIN @ body)) (hmac_hex cp secret (OWNERSHIP_DOMAIN @ body))"
    by (simp add: sameSignature_def)
  ultimately show ?thesis
    using assms by (simp add: parseCapability_def fence_text_def)
qed

lemma refused_kind:
  assumes "token22 i" "token22 a" "all_digits f" "CHR ''.'' \<notin> set challenge" "kind' \<noteq> kind"
    "body = capability_body [CAPABILITY_PREFIX, kind_text kind, i, a, f, challenge]" "hex_n 64 (hmac_hex cp secret (OWNERSHIP_DOMAIN @ body))"
  shows "parseCapability cp secret (signed_body cp secret body) kind' = Inl automationNotFound"
proof -
  have "split_on CHR ''.'' (signed_body cp secret body)
      = [CAPABILITY_PREFIX, kind_text kind, i, a, f, challenge, hmac_hex cp secret (OWNERSHIP_DOMAIN @ body)]"
    unfolding signed_body_def assms(6)
    by (rule token_split) (use assms in simp_all)
  moreover have "kind_text kind \<noteq> kind_text kind'" using assms(5) by (cases kind; cases kind') simp_all
  ultimately show ?thesis by (simp add: parseCapability_def)
qed

lemma seven_parts:
  "parseCapability cp secret token kind \<noteq> Inl automationNotFound \<Longrightarrow>
     \<exists>p k i a f c s. split_on CHR ''.'' token = [p, k, i, a, f, c, s]"
  unfolding parseCapability_def by (auto split: list.split_asm)

lemma one_error: "parseCapability cp secret token kind \<in> insert (Inl automationNotFound) (range Inr)"
proof (cases "parseCapability cp secret token kind = Inl automationNotFound")
  case False
  then obtain p k i a f c s where sp: "split_on CHR ''.'' token = [p, k, i, a, f, c, s]" using seven_parts by blast
  show ?thesis unfolding parseCapability_def sp Let_def by simp
qed simp

text \<open>
  C30. A capability is accepted exactly when it is the signed text of its own parts: the token is
  the prefix, the kind, the job, the account, the fence and the challenge, followed by the
  signature of exactly these, and what is read from it are these parts. No other token is
  accepted, and the error is always the same.
\<close>

theorem capability_exact:
  "(parseCapability cp secret token kind = Inr (owner, challenge) \<longleftrightarrow>
     (\<exists>f c body. body = capability_body [CAPABILITY_PREFIX, kind_text kind, jr_jobId owner, jr_accountId owner, f, c]
        \<and> token = body @ ''.'' @ hmac_hex cp secret (OWNERSHIP_DOMAIN @ body)
        \<and> hex_n 64 (hmac_hex cp secret (OWNERSHIP_DOMAIN @ body))
        \<and> token22 (jr_jobId owner) \<and> token22 (jr_accountId owner) \<and> fence_text f (jr_fence owner)
        \<and> CHR ''.'' \<notin> set c \<and> jr_ownershipToken owner = token
        \<and> challenge = (if kind = ChallengeCapability then Some c else None)))
   \<and> parseCapability cp secret token kind \<in> insert (Inl automationNotFound) (range Inr)"
  (is "(?parsed \<longleftrightarrow> ?signed) \<and> ?errors")
proof (intro conjI iffI)
  assume parsed: ?parsed
  then obtain p k i a f c s where sp': "split_on CHR ''.'' token = [p, k, i, a, f, c, s]"
    using seven_parts by (metis Inl_Inr_False)
  have pk: "p = CAPABILITY_PREFIX" "k = kind_text kind"
    using parsed unfolding parseCapability_def sp' by (simp_all split: if_split_asm)
  note sp = sp' [unfolded pk]
  have ok: "token22 i" "token22 a" "f \<noteq> []" "all_digits f" "hex_n 64 s" "safe_integer (number_of f)" "1 \<le> number_of f"
    "sameSignature (hmac_hex cp secret (OWNERSHIP_DOMAIN @ capability_body [CAPABILITY_PREFIX, kind_text kind, i, a, f, c])) s"
    and eqs: "owner = \<lparr>jr_jobId = i, jr_accountId = a, jr_fence = number_of f, jr_ownershipToken = token\<rparr>"
    "challenge = (if kind = ChallengeCapability then Some c else None)"
    using parsed unfolding parseCapability_def sp Let_def by (simp_all split: if_split_asm)
  let ?body = "capability_body [CAPABILITY_PREFIX, kind_text kind, i, a, f, c]"
  have s: "s = hmac_hex cp secret (OWNERSHIP_DOMAIN @ ?body)" using ok(5,8) sameSignature_iff by blast
  have "token = join [CHR ''.''] ([CAPABILITY_PREFIX, kind_text kind, i, a, f, c] @ [s])"
    using join_split_on [of "CHR ''.''" token] unfolding sp by simp
  then have "token = ?body @ ''.'' @ s" by (subst (asm) join_snoc) (simp_all add: body_join)
  moreover have "CHR ''.'' \<notin> set c" using split_free [of c "CHR ''.''" token] unfolding sp by simp
  ultimately show ?signed
    using ok eqs s by (intro exI [of _ f] exI [of _ c] exI [of _ ?body]) (simp add: fence_text_def)
next
  assume ?signed
  then obtain f c body where b: "body = capability_body [CAPABILITY_PREFIX, kind_text kind, jr_jobId owner, jr_accountId owner, f, c]"
    "token = signed_body cp secret body" "hex_n 64 (hmac_hex cp secret (OWNERSHIP_DOMAIN @ body))"
    "token22 (jr_jobId owner)" "token22 (jr_accountId owner)" "fence_text f (jr_fence owner)" "CHR ''.'' \<notin> set c"
    "jr_ownershipToken owner = token" "challenge = (if kind = ChallengeCapability then Some c else None)"
    unfolding signed_body_def by blast
  have "owner = \<lparr>jr_jobId = jr_jobId owner, jr_accountId = jr_accountId owner, jr_fence = jr_fence owner, jr_ownershipToken = token\<rparr>"
    using b(8) by simp
  then show ?parsed
    using accepted_capability [OF b(4,5,6,7,1,3)] b(2,9) by simp
next
  show ?errors by (rule one_error)
qed

section \<open>Challenges\<close>

lemma length_join: "length (capability_body [p, k, i, a, f, c]) = length p + length k + length i + length a + length f + length c + 5"
  by (simp add: capability_body_def)

definition owned_event :: "job_record \<Rightarrow> string \<Rightarrow> automation_event \<Rightarrow> bool" where
  "owned_event job challenge e \<longleftrightarrow> (\<exists>picture. ev_body e = ChallengeRequired challenge picture)
     \<and> ev_jobId e = jr_jobId job \<and> ev_accountId e = jr_accountId job \<and> ev_fence e = jr_fence job"

definition valid_job :: "job_record \<Rightarrow> bool" where
  "valid_job job \<longleftrightarrow> token22 (jr_jobId job) \<and> token22 (jr_accountId job) \<and> 1 \<le> jr_fence job \<and> safe_integer (jr_fence job)"

lemma capability_signed:
  "capability cp secret kind job c = signed_body cp secret (capability_body
     [CAPABILITY_PREFIX, kind_text kind, jr_jobId job, jr_accountId job, nat_string (jr_fence job), case c of None \<Rightarrow> [] | Some x \<Rightarrow> x])"
  by (simp add: capability_def signed_body_def Let_def)

lemma capability_opens:
  assumes "valid_job job" "\<forall>s. length (cp_hmac cp (RawKey secret) s) = 32" "c = None \<or> c = Some x \<and> CHR ''.'' \<notin> set x"
  shows "parseCapability cp secret (capability cp secret kind job c) kind =
      Inr (job\<lparr>jr_ownershipToken := capability cp secret kind job c\<rparr>, if kind = ChallengeCapability then Some (case c of None \<Rightarrow> [] | Some x \<Rightarrow> x) else None)"
    "kind' \<noteq> kind \<Longrightarrow> parseCapability cp secret (capability cp secret kind job c) kind' = Inl automationNotFound"
proof -
  have f: "fence_text (nat_string (jr_fence job)) (jr_fence job)" using assms(1) fence_text_printed by (simp add: valid_job_def)
  have free: "CHR ''.'' \<notin> set (case c of None \<Rightarrow> [] | Some x \<Rightarrow> x)" using assms(3) by auto
  have ids: "token22 (jr_jobId job)" "token22 (jr_accountId job)" using assms(1) by (simp_all add: valid_job_def)
  show "parseCapability cp secret (capability cp secret kind job c) kind =
      Inr (job\<lparr>jr_ownershipToken := capability cp secret kind job c\<rparr>, if kind = ChallengeCapability then Some (case c of None \<Rightarrow> [] | Some x \<Rightarrow> x) else None)"
    unfolding capability_signed accepted_capability [OF ids f free refl hmac_hex_64 [OF spec [OF assms(2)]]] by simp
  show "parseCapability cp secret (capability cp secret kind job c) kind' = Inl automationNotFound" if "kind' \<noteq> kind"
    unfolding capability_signed
    by (rule refused_kind [OF ids _ free that refl hmac_hex_64 [OF spec [OF assms(2)]]]) (use f in \<open>simp add: fence_text_def\<close>)
qed

lemma long_tokens:
  "168 \<le> length t \<Longrightarrow> solve_captcha cp configured True (Some True) t answer = Unvalidated"
  "isAutomationChallengeToken t \<Longrightarrow> 168 \<le> length t \<Longrightarrow>
     cancel_captcha True (Some True) t = (if length t \<le> 512 then CancelsBackend t else Unvalidated)"
  by (auto simp: solve_captcha_def cancel_captcha_def sized_def requireDistributedAutomationBackend_def)

text \<open>
  A challenge of a distributed sign-in can be cancelled but not answered. The owner of a job
  gets a capability for each challenge of the job; the capability opens to the job and the
  challenge, and does not pass for the job itself. The route that cancels hands it to the
  backend. The route that answers refuses it, because its body allows 160 characters and the
  capability has at least 168, so that no answer of a person ever reaches the backend.
\<close>

theorem challenge_unanswerable:
  assumes "valid_job job" "token22 challenge" "owned_event job challenge e"
    and hmac: "\<forall>s. length (cp_hmac cp (RawKey secret) s) = 32"
    and token: "token = capability cp secret JobCapability job None"
  shows "\<exists>t. createChallengeToken cp secret e token = Some (Inr t)
   \<and> parseCapability cp secret t ChallengeCapability = Inr (job\<lparr>jr_ownershipToken := t\<rparr>, Some challenge)
   \<and> parseCapability cp secret t JobCapability = Inl automationNotFound
   \<and> 168 \<le> length t \<and> solve_captcha cp configured True (Some True) t answer = Unvalidated
   \<and> cancel_captcha True (Some True) t = (if length t \<le> 512 then CancelsBackend t else Unvalidated)"
proof -
  let ?owner = "job\<lparr>jr_ownershipToken := token\<rparr>"
  let ?t = "capability cp secret ChallengeCapability ?owner (Some challenge)"
  have owner: "parseCapability cp secret token JobCapability = Inr (?owner, None)"
    unfolding token using capability_opens(1) [OF assms(1) hmac, of None] by simp
  have valid: "valid_job ?owner" using assms(1) by (simp add: valid_job_def)
  have free: "Some challenge = None \<or> Some challenge = Some challenge \<and> CHR ''.'' \<notin> set challenge" using assms(2) by (simp add: token22_free)
  from assms(3) obtain picture where body: "ev_body e = ChallengeRequired challenge picture" by (auto simp: owned_event_def)
  with assms(3) have "createChallengeToken cp secret e token = Some (Inr ?t)"
    by (simp add: createChallengeToken_def owner owned_event_def)
  moreover have "parseCapability cp secret ?t ChallengeCapability = Inr (job\<lparr>jr_ownershipToken := ?t\<rparr>, Some challenge)"
    using capability_opens(1) [OF valid hmac free, of ChallengeCapability] by simp
  moreover have "parseCapability cp secret ?t JobCapability = Inl automationNotFound"
    by (rule capability_opens(2) [OF valid hmac free]) simp
  moreover have "fence_text (nat_string (jr_fence job)) (jr_fence job)" using assms(1) fence_text_printed by (simp add: valid_job_def)
  then have f: "1 \<le> length (nat_string (jr_fence job))" by (cases "nat_string (jr_fence job)") (auto simp: fence_text_def)
  have "length ?t = length (capability_body [CAPABILITY_PREFIX, ''challenge'', jr_jobId job, jr_accountId job, nat_string (jr_fence job), challenge]) + 65"
    using hmac_hex_64 [OF spec [OF hmac]] by (simp add: capability_signed signed_body_def hex_n_def)
  then have len: "length ?t = 167 + length (nat_string (jr_fence job))"
    using assms(1,2) by (simp add: length_join CAPABILITY_PREFIX_def valid_job_def token22_def)
  with f have len': "168 \<le> length ?t" by simp
  moreover from len' have "solve_captcha cp configured True (Some True) ?t answer = Unvalidated" by (rule long_tokens(1))
  moreover have "isAutomationChallengeToken ?t"
    unfolding isAutomationChallengeToken_def capability_signed signed_body_def capability_body_def by (simp add: starts_with_def)
  moreover from this have "cancel_captcha True (Some True) ?t = (if length ?t \<le> 512 then CancelsBackend ?t else Unvalidated)"
    by (rule long_tokens(2)) (rule len')
  ultimately show ?thesis by blast
qed

section \<open>The relay\<close>

lemma relay_verified:
  "verifyCaptchaRelayToken cp configured token = Some relay_id \<longleftrightarrow>
     CAPTCHA_RELAY_ID_PATTERN relay_id \<and>
     (\<exists>secret signature. getSessionSecret configured = Inr secret \<and> signature = hmac_hex cp secret (CAPTCHA_RELAY_TOKEN_DOMAIN @ relay_id)
        \<and> hex_n 64 signature \<and> token = relay_id @ ''.'' @ signature)" (is "?verified \<longleftrightarrow> ?signed")
proof
  assume v: ?verified
  have "\<exists>i s. split_on CHR ''.'' token = [i, s]"
    using v unfolding verifyCaptchaRelayToken_def by (auto split: list.split_asm)
  then obtain i s where sp: "split_on CHR ''.'' token = [i, s]" by blast
  have "token = i @ ''.'' @ s" using join_split_on [of "CHR ''.''" token] unfolding sp by simp
  moreover have sg: "hex_n 64 s" "CAPTCHA_RELAY_ID_PATTERN i" "i = relay_id"
    using v unfolding verifyCaptchaRelayToken_def sp by (simp_all add: CAPTCHA_RELAY_SIGNATURE_PATTERN_def split: if_split_asm sum.split_asm)
  moreover obtain secret where "getSessionSecret configured = Inr secret"
    "buffer_hex s = cp_hmac cp (RawKey secret) (CAPTCHA_RELAY_TOKEN_DOMAIN @ relay_id)"
    using v sg unfolding verifyCaptchaRelayToken_def sp by (simp split: if_split_asm sum.split_asm)
  ultimately show ?signed using signed_iff [of s] unfolding hmac_hex_def by blast
next
  assume ?signed
  then obtain secret signature where s: "CAPTCHA_RELAY_ID_PATTERN relay_id" "getSessionSecret configured = Inr secret"
    "signature = hmac_hex cp secret (CAPTCHA_RELAY_TOKEN_DOMAIN @ relay_id)" "hex_n 64 signature" "token = relay_id @ ''.'' @ signature" by blast
  have "CHR ''.'' \<notin> set relay_id" "CHR ''.'' \<notin> set signature"
    using s(1,4) dot_free by (auto simp: CAPTCHA_RELAY_ID_PATTERN_def)
  then have "split_on CHR ''.'' token = [relay_id, signature]"
    unfolding s(5) by (simp add: split_on_append split_on_free)
  with s show ?verified
    by (simp add: verifyCaptchaRelayToken_def CAPTCHA_RELAY_SIGNATURE_PATTERN_def hmac_hex_def buffer_encodeHex)
qed

text \<open>
  Only a signed relay token lets an answer through. The route that answers, which asks for no
  session, passes an answer to the relay of an identifier exactly when the challenge of the body
  is that identifier with its signature under the worker's secret, and the answer has one to 64
  characters. In particular an identifier that was never signed reaches no relay object.
\<close>

theorem relay_answer_authorised:
  "solve_captcha cp configured distributed_mode backend challenge answer = AnswersRelay relay_id a \<longleftrightarrow>
     a = answer \<and> sized 64 answer \<and> CAPTCHA_RELAY_ID_PATTERN relay_id \<and>
     (\<exists>secret signature. getSessionSecret configured = Inr secret \<and> signature = hmac_hex cp secret (CAPTCHA_RELAY_TOKEN_DOMAIN @ relay_id)
        \<and> hex_n 64 signature \<and> challenge = relay_id @ ''.'' @ signature)"
proof -
  have not_capability: "\<not> isAutomationChallengeToken challenge" if "verifyCaptchaRelayToken cp configured challenge = Some relay_id"
  proof
    assume "isAutomationChallengeToken challenge"
    then obtain rest where "challenge = CAPABILITY_PREFIX @ CHR ''.'' # ''challenge'' @ CHR ''.'' # rest"
      unfolding isAutomationChallengeToken_def starts_with_def by (metis append.assoc append_Cons append_Nil append_take_drop_id)
    moreover have "split_on CHR ''.'' (CAPABILITY_PREFIX @ CHR ''.'' # ''challenge'' @ CHR ''.'' # rest)
        = CAPABILITY_PREFIX # ''challenge'' # split_on CHR ''.'' rest"
      unfolding split_on_append [OF names_free(1)] by (subst split_on_append) simp_all
    ultimately have "split_on CHR ''.'' challenge = CAPABILITY_PREFIX # ''challenge'' # split_on CHR ''.'' rest" by simp
    with that show False by (cases "split_on CHR ''.'' rest") (simp_all add: verifyCaptchaRelayToken_def)
  qed
  have size: "sized 160 challenge" if "verifyCaptchaRelayToken cp configured challenge = Some relay_id"
    using that unfolding relay_verified by (auto simp: sized_def CAPTCHA_RELAY_ID_PATTERN_def hex_n_def)
  have "solve_captcha cp configured distributed_mode backend challenge answer = AnswersRelay relay_id a \<longleftrightarrow>
     a = answer \<and> sized 64 answer \<and> verifyCaptchaRelayToken cp configured challenge = Some relay_id"
    using not_capability size
    by (auto simp: solve_captcha_def requireDistributedAutomationBackend_def split: if_splits option.splits)
  then show ?thesis unfolding relay_verified by blast
qed

section \<open>A concrete capability\<close>

definition cap_platform :: core_platform where
  "cap_platform = \<lparr>cp_json = (\<lambda>v. []), cp_parse = (\<lambda>b. None), cp_encrypt = (\<lambda>k l i p. p), cp_decrypt = (\<lambda>k l i c. Some c),
     cp_hmac = (\<lambda>k s. replicate 32 (of_nat (length s))), cp_date = (\<lambda>s. None)\<rparr>"

definition cap_job :: job_record where
  "cap_job = \<lparr>jr_jobId = replicate 22 CHR ''A'', jr_accountId = replicate 22 CHR ''B'', jr_fence = 1, jr_ownershipToken = []\<rparr>"

definition cap_event :: automation_event where
  "cap_event = \<lparr>ev_jobId = replicate 22 CHR ''A'', ev_accountId = replicate 22 CHR ''B'', ev_fence = 1, ev_sequence = 3,
     ev_emittedAt = [], ev_expiresAt = [], ev_body = ChallengeRequired (replicate 22 CHR ''C'') ''picture''\<rparr>"

lemma challenge_unanswerable_witness:
  "\<exists>t. createChallengeToken cap_platform ''s'' cap_event (capability cap_platform ''s'' JobCapability cap_job None) = Some (Inr t)
     \<and> solve_captcha cap_platform None True (Some True) t ''abcd'' = Unvalidated"
proof -
  have "valid_job cap_job" "token22 (replicate 22 CHR ''C'')"
    by code_simp+
  moreover have "owned_event cap_job (replicate 22 CHR ''C'') cap_event"
    by (simp add: owned_event_def cap_job_def cap_event_def)
  moreover have "\<forall>s. length (cp_hmac cap_platform (RawKey ''s'') s) = 32" by (simp add: cap_platform_def)
  ultimately show ?thesis
    using challenge_unanswerable [OF _ _ _ _ refl, of cap_job "replicate 22 CHR ''C''" cap_event cap_platform "''s''" None "''abcd''"] by blast
qed

end
