(* ===== verification/AutomationBackendProps.thy ===== *)
theory AutomationBackendProps
  imports AutomationBackend AutomationWorkerProps AutomationCapabilityProps
begin

text \<open>
  The worker and the backend together: what a run publishes reaches the request that follows the
  job, which ends with the fate of the job; and how a second run of the same job escapes it.
\<close>

section \<open>What is on the stream\<close>

definition sealed_as :: "automation_platform \<Rightarrow> backend_config \<Rightarrow> uet_job \<Rightarrow> int \<Rightarrow> stream_fields \<Rightarrow> automation_event \<Rightarrow> bool" where
  "sealed_as ap cfg job now kvs e \<longleftrightarrow> map_of kvs ''jobId'' = Some (uj_jobId job)
     \<and> (\<exists>env. map_of kvs ''eventEnvelope'' = Some env \<and> env \<noteq> []
        \<and> decryptEnvelope ap env (bc_keyring cfg) (TextAad (bc_eventEnvelopeAadPrefix cfg @ uj_jobId job)) now = Inr (event_value e))"

text \<open>
  The messages of a stream in their order, each with the clock at its reading: those of the job
  are the given events, sealed and not expired; the others belong to other jobs.
\<close>

fun delivers ::
  "automation_platform \<Rightarrow> backend_config \<Rightarrow> uet_job \<Rightarrow> (int \<times> string \<times> stream_fields) list \<Rightarrow> automation_event list \<Rightarrow> bool" where
  "delivers ap cfg job [] es = (es = [])"
| "delivers ap cfg job ((now, place, kvs) # ms) es =
    (if map_of kvs ''jobId'' \<noteq> Some (uj_jobId job) then delivers ap cfg job ms es
     else (case es of [] \<Rightarrow> False | e # es' \<Rightarrow> sealed_as ap cfg job now kvs e \<and> alive now e \<and> delivers ap cfg job ms es'))"

text \<open>The worker and the backend share the keys and the context of the events.\<close>

definition shared_settings :: "worker_config \<Rightarrow> backend_config \<Rightarrow> bool" where
  "shared_settings wc bc \<longleftrightarrow> bc_keyring bc = wc_keyring wc \<and> bc_eventEnvelopeAadPrefix bc = wc_eventEnvelopeAadPrefix wc
     \<and> (\<exists>k bs. kr_current (wc_keyring wc) = Some k \<and> ak_material k = RawMaterial bs)"

lemma published_sealed:
  assumes "publish_event ap wc e t random = Inr kvs" "shared_settings wc bc" "aes_opens ap"
    "json_reads ap (event_value e)" "header_reads ap (sealed_header (wc_keyring wc) (toISOString t) (ev_expiresAt e) random)" "of_job job e" "alive now e"
  shows "sealed_as ap bc job now kvs e"
proof -
  from assms(1) obtain env where env: "encryptEnvelope ap (event_value e) (wc_keyring wc) (TextAad (wc_eventEnvelopeAadPrefix wc @ ev_jobId e))
      (toISOString t) (ev_expiresAt e) random = Inr env" "kvs = [(''jobId'', ev_jobId e), (''eventEnvelope'', env)]"
    by (auto simp: publish_event_def codec_close_def sbind_Inr_iff)
  from assms(2) obtain k bs where k: "kr_current (wc_keyring wc) = Some k" "ak_material k = RawMaterial bs" by (auto simp: shared_settings_def)
  from assms(7) obtain te where te: "canonicalIsoDate (JStr (ev_expiresAt e)) = Some te" "now < te"
    by (auto simp: alive_def simp del: canonicalIsoDate.simps split: option.splits)
  have "decryptEnvelope ap env (wc_keyring wc) (TextAad (wc_eventEnvelopeAadPrefix wc @ ev_jobId e)) now = Inr (event_value e)"
    by (rule sealed_decrypts [OF env(1) assms(3,4,5) te k])
  moreover have "env \<noteq> []" using env(1) by (rule encrypt_steps) (simp add: encodeEnvelope_def)
  moreover have "ev_jobId e = uj_jobId job" using assms(6) by (simp add: of_job_def)
  ultimately show ?thesis using env(2) assms(2) by (simp add: sealed_as_def shared_settings_def)
qed

section \<open>Reading the events\<close>

definition quiet_hooks :: hooks where
  "quiet_hooks = \<lparr>hk_prepare = (\<lambda>e. None), hk_onEvent = (\<lambda>e. None)\<rparr>"

definition cursor_of :: "uet_job \<Rightarrow> int \<Rightarrow> bool \<Rightarrow> event_cursor" where
  "cursor_of job n terminal = \<lparr>ec_jobId = uj_jobId job, ec_accountId = uj_accountId job, ec_fence = uj_fence job,
     ec_lastSequence = n, ec_terminal = terminal\<rparr>"

lemma parsed_event: "of_job job e \<Longrightarrow> alive now e \<Longrightarrow> parseAutomationEvent (event_value e) now = Inr e"
  by (subst parse_event_value) (auto simp: of_job_def alive_def simp del: canonicalIsoDate.simps split: option.splits)

lemma consume_sealed:
  assumes "sealed_as ap cfg job now kvs e" "of_job job e" "alive now e"
  shows "consume_message ap cfg job hk now (place, kvs) c = consume_event ap cfg job hk now (event_value e) e (c\<lparr>cn_stream := place\<rparr>)"
  using assms parsed_event [OF assms(2,3)] by (auto simp: consume_message_def sealed_as_def Let_def)

lemma consume_foreign:
  "map_of kvs ''jobId'' \<noteq> Some (uj_jobId job) \<Longrightarrow> consume_message ap cfg job hk now (place, kvs) c = (Inr None, c\<lparr>cn_stream := place\<rparr>)"
  by (simp add: consume_message_def)

lemma consume_stale:
  "ev_sequence e \<le> ec_lastSequence (cn_cursor c) \<Longrightarrow> consume_event ap cfg job hk now v e c = (Inr None, c)"
  by (simp add: consume_event_def)

lemma consume_next:
  assumes "of_job job e" "alive now e" "cn_cursor c = cursor_of job n False" "ev_sequence e = n + 1"
  shows "\<exists>ps. consume_event ap cfg job quiet_hooks now (event_value e) e c = (job_fate ap cfg job now (ev_body e),
    c\<lparr>cn_cursor := cursor_of job (n + 1) (isTerminalEvent (ev_body e)), cn_seen := cn_seen c @ [e], cn_prepared := ps\<rparr>)"
proof -
  have "validateNextAutomationEvent (event_value e) (cn_cursor c) now = Inr (cursor_of job (n + 1) (isTerminalEvent (ev_body e)))"
    unfolding validate_next_Inr
    using parsed_event [OF assms(1,2)] assms by (auto simp: of_cursor_def cursor_of_def of_job_def)
  moreover have "\<not> ev_sequence e \<le> ec_lastSequence (cn_cursor c)" using assms(3,4) by (simp add: cursor_of_def)
  ultimately show ?thesis
    by (intro exI [of _ "cn_prepared c @ (case ev_body e of ChallengeRequired x p \<Rightarrow> [x] | _ \<Rightarrow> [])"])
      (cases c; cases "ev_body e"; simp add: consume_event_def prepares_def quiet_hooks_def)
qed

lemma running_fate: "\<not> isTerminalEvent body \<Longrightarrow> job_fate ap cfg job now body = Inr None"
  by (cases body) (simp_all add: job_fate_def)

lemma terminal_fate: "isTerminalEvent body \<Longrightarrow> job_fate ap cfg job now body \<noteq> Inr None"
  by (cases body) (auto simp: job_fate_def split: option.split sum.split)

text \<open>Events that the cursor has passed change nothing but the place in the stream.\<close>

lemma consume_passed:
  assumes "delivers ap cfg job ms es" "list_all (of_job job) es" "\<forall>e \<in> set es. ev_sequence e \<le> ec_lastSequence (cn_cursor c)"
  shows "\<exists>place. consume_messages ap cfg job hk ms c = (Inr None, c\<lparr>cn_stream := place\<rparr>)"
  using assms
proof (induction ap cfg job ms es arbitrary: c rule: delivers.induct)
  case (1 ap cfg job es)
  then show ?case by (auto intro: exI [of _ "cn_stream c"])
next
  case (2 ap cfg job now place kvs ms es)
  show ?case
  proof (cases "map_of kvs ''jobId'' = Some (uj_jobId job)")
    case False
    then show ?thesis using 2(1) [OF False, of "c\<lparr>cn_stream := place\<rparr>"] 2(3-5) by (simp add: consume_foreign)
  next
    case True
    with 2(3) obtain e es' where es: "es = e # es'" "sealed_as ap cfg job now kvs e" "alive now e" "delivers ap cfg job ms es'"
      by (cases es) auto
    have "consume_message ap cfg job hk now (place, kvs) c = (Inr None, c\<lparr>cn_stream := place\<rparr>)"
      using consume_sealed [OF es(2) _ es(3), of hk place c] consume_stale [of e "c\<lparr>cn_stream := place\<rparr>"] 2(4,5) es(1) by simp
    then show ?thesis using 2(2) [of e es' "c\<lparr>cn_stream := place\<rparr>"] True es 2(4,5) by simp
  qed
qed

text \<open>
  Events that continue the cursor are all handed on, up to the first terminal one, whose fate is
  the outcome.
\<close>

lemma consume_run:
  assumes "delivers ap cfg job ms es" "list_all (of_job job) es" "map ev_sequence es = map (\<lambda>k. n + 1 + int k) [0..<length es]"
    "cn_cursor c = cursor_of job n False"
  shows "\<exists>out c'. consume_messages ap cfg job quiet_hooks ms c = (out, c') \<and> cn_seen c' = cn_seen c @ through_terminal es
    \<and> (if list_ex (\<lambda>e. isTerminalEvent (ev_body e)) es
       then \<exists>now \<in> fst ` set ms. out = job_fate ap cfg job now (ev_body (last (through_terminal es)))
       else out = Inr None \<and> cn_cursor c' = cursor_of job (n + int (length es)) False)"
  using assms
proof (induction ap cfg job ms es arbitrary: c n rule: delivers.induct)
  case (1 ap cfg job es)
  then show ?case by simp
next
  case (2 ap cfg job now place kvs ms es)
  show ?case
  proof (cases "map_of kvs ''jobId'' = Some (uj_jobId job)")
    case False
    then show ?thesis
      using 2(1) [OF False, of n "c\<lparr>cn_stream := place\<rparr>"] 2(3-6) by (auto simp: consume_foreign split: if_splits)
  next
    case True
    with 2(3) obtain e es' where es: "es = e # es'" "sealed_as ap cfg job now kvs e" "alive now e" "delivers ap cfg job ms es'"
      by (cases es) auto
    have e: "of_job job e" "ev_sequence e = n + 1" "map ev_sequence es' = map (\<lambda>k. n + 1 + 1 + int k) [0..<length es']"
      using 2(4,5) unfolding es(1) numbered_Cons by simp_all
    obtain ps where step: "consume_message ap cfg job quiet_hooks now (place, kvs) c = (job_fate ap cfg job now (ev_body e),
        c\<lparr>cn_stream := place, cn_cursor := cursor_of job (n + 1) (isTerminalEvent (ev_body e)), cn_seen := cn_seen c @ [e], cn_prepared := ps\<rparr>)"
      using consume_next [of job e now "c\<lparr>cn_stream := place\<rparr>" n ap cfg] e(1,2) es(3) 2(6)
        consume_sealed [OF es(2) e(1) es(3), of quiet_hooks place c] by auto
    show ?thesis
    proof (cases "isTerminalEvent (ev_body e)")
      case True
      then show ?thesis
        using step terminal_fate [OF True, of ap cfg job now] es(1)
        by (cases "job_fate ap cfg job now (ev_body e)") (auto split: option.splits)
    next
      case False
      define c1 where "c1 = c\<lparr>cn_stream := place, cn_cursor := cursor_of job (n + 1) False, cn_seen := cn_seen c @ [e], cn_prepared := ps\<rparr>"
      have step1: "consume_message ap cfg job quiet_hooks now (place, kvs) c = (Inr None, c1)"
        using step running_fate [OF False] False by (simp add: c1_def)
      have "cn_cursor c1 = cursor_of job (n + 1) False" "cn_seen c1 = cn_seen c @ [e]" by (simp_all add: c1_def)
      with 2(2) [of e es' "n + 1" c1] True es e(3) 2(4)
      obtain out c' where "consume_messages ap cfg job quiet_hooks ms c1 = (out, c')" "cn_seen c' = cn_seen c @ e # through_terminal es'"
        "if list_ex (\<lambda>e. isTerminalEvent (ev_body e)) es'
         then \<exists>now \<in> fst ` set ms. out = job_fate ap cfg job now (ev_body (last (through_terminal es')))
         else out = Inr None \<and> cn_cursor c' = cursor_of job (n + 1 + int (length es')) False"
        by auto
      moreover have "list_ex (\<lambda>e. isTerminalEvent (ev_body e)) es' \<Longrightarrow> through_terminal es' \<noteq> []" by (cases es') auto
      ultimately show ?thesis
        using step1 False es(1) by (auto simp: algebra_simps split: if_splits)
    qed
  qed
qed

section \<open>The polls of a request\<close>

definition quiet_poll :: "poll \<Rightarrow> bool" where
  "quiet_poll p \<longleftrightarrow> pl_aborted p = None \<and> pl_cancelled p = Inr False \<and> (\<exists>ms. poll_messages p = Inr ms)"

definition polled :: "poll list \<Rightarrow> (int \<times> string \<times> stream_fields) list" where
  "polled ps = concat (map (\<lambda>p. case poll_messages p of Inl x \<Rightarrow> [] | Inr ms \<Rightarrow> ms) ps)"

lemma consume_append:
  "consume_messages ap cfg job hk (ms @ ns) c = (case consume_messages ap cfg job hk ms c of
     (Inr None, c') \<Rightarrow> consume_messages ap cfg job hk ns c' | (r, c') \<Rightarrow> (r, c'))"
proof (induction ms arbitrary: c)
  case (Cons m ms)
  obtain now x where m: "m = (now, x)" by (cases m)
  show ?case
  proof (cases "consume_message ap cfg job hk now x c")
    case (Pair out c')
    show ?thesis unfolding m by (cases out) (auto simp: Pair Cons.IH split: option.split)
  qed
qed simp

lemma loop_polled:
  "list_all quiet_poll ps \<Longrightarrow> consume_loop ap cfg job hk ps c = (case consume_messages ap cfg job hk (polled ps) c of
     (Inl x, c') \<Rightarrow> (Some (Inl x), c') | (Inr (Some s), c') \<Rightarrow> (Some (Inr s), c') | (Inr None, c') \<Rightarrow> (None, c'))"
proof (induction ps arbitrary: c)
  case (Cons p ps)
  then have "quiet_poll p" "list_all quiet_poll ps" by simp_all
  then obtain ms where p: "pl_aborted p = None" "pl_cancelled p = Inr False" "poll_messages p = Inr ms" "list_all quiet_poll ps"
    unfolding quiet_poll_def by blast
  show ?case
  proof (cases "consume_messages ap cfg job hk ms c")
    case (Pair out c')
    show ?thesis
      by (cases out) (auto simp: p polled_def consume_append Pair Cons.IH [OF p(4)] split: option.split)
  qed
qed (simp add: polled_def)

text \<open>What the worker's sink has put on the stream, and reads back when it is opened.\<close>

definition sealed_by :: "automation_platform \<Rightarrow> worker_config \<Rightarrow> stream_fields \<Rightarrow> automation_event \<Rightarrow> bool" where
  "sealed_by ap wc kvs e \<longleftrightarrow> json_reads ap (event_value e) \<and> (\<exists>t random. publish_event ap wc e t random = Inr kvs
     \<and> header_reads ap (sealed_header (wc_keyring wc) (toISOString t) (ev_expiresAt e) random))"

fun published ::
  "automation_platform \<Rightarrow> worker_config \<Rightarrow> uet_job \<Rightarrow> (int \<times> string \<times> stream_fields) list \<Rightarrow> automation_event list \<Rightarrow> bool" where
  "published ap wc job [] es = (es = [])"
| "published ap wc job ((now, place, kvs) # ms) es =
    (if map_of kvs ''jobId'' \<noteq> Some (uj_jobId job) then published ap wc job ms es
     else (case es of [] \<Rightarrow> False | e # es' \<Rightarrow> sealed_by ap wc kvs e \<and> alive now e \<and> published ap wc job ms es'))"

lemma published_delivers:
  "published ap wc job ms es \<Longrightarrow> shared_settings wc bc \<Longrightarrow> aes_opens ap \<Longrightarrow> list_all (of_job job) es \<Longrightarrow> delivers ap bc job ms es"
proof (induction ap wc job ms es rule: published.induct)
  case (2 ap wc job now place kvs ms es)
  then show ?case by (auto simp: sealed_by_def intro: published_sealed split: list.splits if_splits)
qed simp

lemma run_events:
  assumes "message_job ap wc sc msg = Some job" "es = rn_events (snd (process ap wc sc msg))"
  shows "list_all (of_job job) es" "map ev_sequence es = map (\<lambda>k. - 1 + 1 + int k) [0..<length es]"
    "settled (snd (process ap wc sc msg)) \<longleftrightarrow> list_ex (\<lambda>e. isTerminalEvent (ev_body e)) es"
  using process_writer [OF assms(1)] assms(2) by (simp_all add: writer_ok_def settled_def)

lemma last_terminal: "list_ex (\<lambda>e. isTerminalEvent (ev_body e)) es \<Longrightarrow>
    last (through_terminal es) \<in> set es \<and> isTerminalEvent (ev_body (last (through_terminal es)))"
proof (induction es)
  case (Cons e es)
  moreover have "list_ex (\<lambda>e. isTerminalEvent (ev_body e)) es \<Longrightarrow> through_terminal es \<noteq> []" by (cases es) auto
  ultimately show ?case by auto
qed simp

lemma no_terminal: "\<not> list_ex (\<lambda>e. isTerminalEvent (ev_body e)) es \<Longrightarrow> through_terminal es = es"
  by (induction es) auto

text \<open>
  C25. The fate of a job reaches the request that waits for it. When the worker's run has published
  a terminal event and the request reads the stream, with the events of any other jobs in
  between, it is handed the events of the run up to the first terminal one and ends with what
  that event says: the imported session, the error of the failure, or the cancellation. It does
  not go on waiting.
\<close>

theorem fate_reaches_caller:
  assumes job: "message_job ap wc sc msg = Some job" and settled: "settled (snd (process ap wc sc msg))"
    and platform: "shared_settings wc bc" "aes_opens ap"
    and polls: "list_all quiet_poll polls" "published ap wc job (polled polls) (rn_events (snd (process ap wc sc msg)))"
  shows "\<exists>now e. e \<in> set (rn_events (snd (process ap wc sc msg))) \<and> isTerminalEvent (ev_body e) \<and> now \<in> fst ` set (polled polls)
   \<and> job_fate ap bc job now (ev_body e) \<noteq> Inr None
   \<and> consumeEvents ap bc job quiet_hooks None polls None =
       (case job_fate ap bc job now (ev_body e) of Inl x \<Rightarrow> Rejects x False | Inr None \<Rightarrow> Follows | Inr (Some s) \<Rightarrow> Returns s,
        through_terminal (rn_events (snd (process ap wc sc msg))))"
proof -
  define es where "es = rn_events (snd (process ap wc sc msg))"
  define c where "c = \<lparr>cn_cursor = cursor_of job (- 1) False, cn_stream = ''0-0'', cn_seen = [], cn_prepared = []\<rparr>"
  note run = run_events [OF job es_def]
  have ends: "list_ex (\<lambda>e. isTerminalEvent (ev_body e)) es" using settled run(3) by blast
  have "delivers ap bc job (polled polls) es"
    by (rule published_delivers [OF _ platform run(1)]) (use polls(2) in \<open>simp add: es_def\<close>)
  from consume_run [OF this run(1,2), of c]
  obtain out c' where out: "consume_messages ap bc job quiet_hooks (polled polls) c = (out, c')" "cn_seen c' = through_terminal es"
    "\<exists>now \<in> fst ` set (polled polls). out = job_fate ap bc job now (ev_body (last (through_terminal es)))"
    using ends by (auto simp: c_def)
  then obtain now where now: "now \<in> fst ` set (polled polls)" "out = job_fate ap bc job now (ev_body (last (through_terminal es)))" by blast
  note l = last_terminal [OF ends]
  have "createEventCursor job (- 1) = Inr (cursor_of job (- 1) False)"
    using job_cursor [OF message_job_ok [OF job]] by (simp add: cursor_of_def)
  then have "consumeEvents ap bc job quiet_hooks None polls None =
       (case out of Inl x \<Rightarrow> Rejects x False | Inr None \<Rightarrow> Follows | Inr (Some s) \<Rightarrow> Returns s, through_terminal es)"
    using out(1,2) by (cases out) (auto simp: consumeEvents_def loop_polled [OF polls(1)] c_def [symmetric] thrown_error_def split: option.split)
  then show ?thesis
    using now l terminal_fate [of "ev_body (last (through_terminal es))" ap bc job now] unfolding es_def [symmetric] by blast
qed

text \<open>
  C33. A second run of a job can end unheard. When a worker shuts down during a run, the job is
  delivered again with the same fence, and the second run numbers its events from zero. The
  request has read the events of the first run and passes over every event whose number it has
  seen, terminal ones included: if the second run publishes no more events than the first, its
  fate is lost and the request waits until its deadline.
\<close>

theorem second_run_unheard:
  assumes first: "message_job ap wc sc1 msg1 = Some job" "\<not> settled (snd (process ap wc sc1 msg1))"
    and second: "message_job ap wc sc2 msg2 = Some job"
    and fewer: "length (rn_events (snd (process ap wc sc2 msg2))) \<le> length (rn_events (snd (process ap wc sc1 msg1)))"
    and platform: "shared_settings wc bc" "aes_opens ap"
    and polls: "list_all quiet_poll polls" "polled polls = ms1 @ ms2"
      "published ap wc job ms1 (rn_events (snd (process ap wc sc1 msg1)))"
      "published ap wc job ms2 (rn_events (snd (process ap wc sc2 msg2)))"
  shows "consumeEvents ap bc job quiet_hooks None polls None = (Follows, rn_events (snd (process ap wc sc1 msg1)))"
proof -
  define es1 where "es1 = rn_events (snd (process ap wc sc1 msg1))"
  define es2 where "es2 = rn_events (snd (process ap wc sc2 msg2))"
  define c where "c = \<lparr>cn_cursor = cursor_of job (- 1) False, cn_stream = ''0-0'', cn_seen = [], cn_prepared = []\<rparr>"
  note run1 = run_events [OF first(1) es1_def] and run2 = run_events [OF second es2_def]
  have none: "\<not> list_ex (\<lambda>e. isTerminalEvent (ev_body e)) es1" using first(2) run1(3) by blast
  have d: "delivers ap bc job ms1 es1" "delivers ap bc job ms2 es2"
    by (rule published_delivers [OF _ platform run1(1)], use polls(3) in \<open>simp add: es1_def\<close>)
      (rule published_delivers [OF _ platform run2(1)], use polls(4) in \<open>simp add: es2_def\<close>)
  from consume_run [OF d(1) run1(1,2), of c] none obtain c1 where c1: "consume_messages ap bc job quiet_hooks ms1 c = (Inr None, c1)"
    "cn_seen c1 = es1" "cn_cursor c1 = cursor_of job (- 1 + int (length es1)) False"
    by (auto simp: c_def no_terminal)
  have "ev_sequence e \<le> ec_lastSequence (cn_cursor c1)" if "e \<in> set es2" for e
  proof -
    from that obtain i where i: "i < length es2" "e = es2 ! i" by (metis in_set_conv_nth)
    have "map ev_sequence es2 ! i = map (\<lambda>k. - 1 + 1 + int k) [0..<length es2] ! i" unfolding run2(2) ..
    then have "ev_sequence e = int i" using i by simp
    then show ?thesis using i(1) fewer c1(3) by (simp add: cursor_of_def es1_def es2_def)
  qed
  then obtain place where c2: "consume_messages ap bc job quiet_hooks ms2 c1 = (Inr None, c1\<lparr>cn_stream := place\<rparr>)"
    using consume_passed [OF d(2) run2(1), of c1 quiet_hooks] by blast
  have "createEventCursor job (- 1) = Inr (cursor_of job (- 1) False)"
    using job_cursor [OF message_job_ok [OF first(1)]] by (simp add: cursor_of_def)
  then show ?thesis
    using c1 c2 by (simp add: consumeEvents_def loop_polled [OF polls(1)] polls(2) consume_append c_def [symmetric] es1_def [symmetric])
qed

end
