(* ===== verification/AutomationBackendScenario.thy ===== *)
theory AutomationBackendScenario
  imports AutomationScenario AutomationBackendProps
begin

text \<open>
  The runs of the concrete scenario as the backend sees them: a run that succeeds, and a run that
  is shut down followed by a second one that fails at once.
\<close>

definition demo_backend :: backend_config where
  "demo_backend = \<lparr>bc_jobStream = ''jobs'', bc_eventStream = ''events'', bc_controlStream = ''control'', bc_jobEnvelopeAad = ''job'',
     bc_credentialEnvelopeAadPrefix = ''credential:'', bc_resultEnvelopeAadPrefix = ''result:'', bc_eventEnvelopeAadPrefix = ''event:'',
     bc_idempotencyTtlMs = 300000, bc_deadlineMs = 60000, bc_eventBlockMs = 1000, bc_eventBatchSize = 100, bc_keyring = demo_ring,
     bc_executorReady = True\<rparr>"

lemma demo_shared: "shared_settings demo_config demo_backend"
  by (simp add: shared_settings_def demo_backend_def demo_config_def demo_ring_def demo_key_def)

lemma demo_aes: "aes_opens demo_platform"
  by (simp add: demo_platform_def table_aes)

definition demo_fields :: "automation_event \<Rightarrow> stream_fields" where
  "demo_fields e = (case publish_event demo_platform demo_config e 0 (replicate 12 0) of Inl x \<Rightarrow> [] | Inr kvs \<Rightarrow> kvs)"

lemma demo_event_ids:
  "e \<in> set (quick_event # demo_events) \<Longrightarrow> ev_jobId e = demo_id \<and> ev_expiresAt e = toISOString 60000"
  by (auto simp: quick_event_def demo_events_def event_at_def demo_deadline demo_job_id)

lemma demo_event_sealed:
  assumes "e \<in> set (quick_event # demo_events)"
  shows "sealed_by demo_platform demo_config (demo_fields e) e \<and> map_of (demo_fields e) ''jobId'' = Some demo_id \<and> alive 7000 e"
proof -
  define aad_text where "aad_text = ''event:'' @ demo_id"
  have aad: "aadBytes (TextAad aad_text) = Inr (utf8 aad_text)" unfolding aad_text_def by code_simp
  have v: "event_value e \<noteq> JUndefined" by (simp add: event_value_def)
  have ids: "ev_jobId e = demo_id" "ev_expiresAt e = toISOString 60000" using demo_event_ids [OF assms] by simp_all
  obtain env where "encryptEnvelope demo_platform (event_value e) demo_ring (TextAad aad_text) (toISOString 0) (toISOString 60000) (replicate 12 0) = Inr env"
    using demo_sealed [OF v aad] by blast
  then have p: "publish_event demo_platform demo_config e 0 (replicate 12 0) = Inr [(''jobId'', demo_id), (''eventEnvelope'', env)]"
    using ids by (simp add: publish_event_def codec_close_def demo_config_def aad_text_def)
  have "event_value e \<in> set demo_values" using assms by (auto simp: demo_values_def)
  then have "json_reads demo_platform (event_value e)" by (rule demo_reads)
  moreover have "header_reads demo_platform (sealed_header (wc_keyring demo_config) (toISOString 0) (ev_expiresAt e) (replicate 12 0))"
    using demo_header_reads(1) ids by (simp add: demo_header_def)
  ultimately have "sealed_by demo_platform demo_config (demo_fields e) e"
    unfolding sealed_by_def demo_fields_def using p by auto
  moreover have "alive 7000 e" using ids demo_dates [of 60000] by (simp add: alive_def del: canonicalIsoDate.simps)
  ultimately show ?thesis using p by (simp add: demo_fields_def)
qed

definition demo_poll :: "automation_event list \<Rightarrow> poll" where
  "demo_poll es = \<lparr>pl_aborted = None, pl_cancelled = Inr False,
     pl_reply = Inr (Some [RawStream (map (\<lambda>e. RawMessage ''1-0'' (Some (demo_fields e))) es)]), pl_clock = (\<lambda>i. 7000)\<rparr>"

lemma timed_const: "timed (\<lambda>i. t) ms = map (Pair t) ms"
proof -
  have "map (\<lambda>(i, m). (t, m)) (enumerate n ms) = map (Pair t) ms" for n by (induction ms arbitrary: n) auto
  then show ?thesis by (simp add: timed_def)
qed

lemma demo_polled: "poll_messages (demo_poll es) = Inr (map (\<lambda>e. (7000, ''1-0'', demo_fields e)) es)"
proof -
  have "traverse readMessage (map (\<lambda>e. RawMessage ''1-0'' (Some (demo_fields e))) es) = Inr (map (\<lambda>e. (''1-0'', demo_fields e)) es)"
    by (induction es) simp_all
  then show ?thesis by (simp add: poll_messages_def demo_poll_def readMessages_def timed_const comp_def)
qed

lemma demo_quiet: "quiet_poll (demo_poll es)"
  unfolding quiet_poll_def demo_polled by (simp add: demo_poll_def)

lemma demo_published:
  "set es \<subseteq> set (quick_event # demo_events) \<Longrightarrow> published demo_platform demo_config demo_job (map (\<lambda>e. (7000, ''1-0'', demo_fields e)) es) es"
proof (induction es)
  case (Cons e es)
  then have "e \<in> set (quick_event # demo_events)" by simp
  from demo_event_sealed [OF this] Cons show ?case by (simp add: demo_job_id)
qed simp

lemma demo_fate: "\<exists>s. job_fate demo_platform demo_backend demo_job 7000 (Succeeded (Some demo_result)) = Inr (Some s)"
proof -
  define aad_text where "aad_text = ''result:'' @ demo_id"
  have enc: "encryptEnvelope demo_platform demo_session demo_ring (TextAad aad_text) (toISOString 4000) (toISOString 60000) (replicate 12 0) = Inr demo_result"
    using demo_closes by (simp add: codec_close_def aad_text_def)
  have "json_reads demo_platform demo_session" by (rule demo_reads) (simp add: demo_values_def)
  from sealed_decrypts [OF enc demo_aes this, of 60000 7000 demo_key "replicate 32 7"]
  have "decryptEnvelope demo_platform demo_result demo_ring (TextAad aad_text) 7000 = Inr demo_session"
    using demo_header_reads(2) by (simp add: result_header_def demo_dates demo_ring_def demo_key_def del: canonicalIsoDate.simps)
  moreover have "session_ok demo_session 7000" by (simp add: session_ok_def demo_session_def google_credential_ok_def full_text_def credential_ok_def canonicalTime_toISOString max_time_def)
  ultimately show ?thesis
    unfolding job_fate_def by (simp add: demo_backend_def demo_job_id aad_text_def validateImportedSession_def) (simp add: demo_result_def)
qed

lemma polled_one: "polled [demo_poll es] = map (\<lambda>e. (7000, ''1-0'', demo_fields e)) es"
  by (simp add: polled_def demo_polled)

lemma fate_reaches_caller_witness:
  "\<exists>s. fst (consumeEvents demo_platform demo_backend demo_job quiet_hooks None [demo_poll demo_events] None) = Returns s"
proof -
  have r: "rn_events (snd (process demo_platform demo_config demo_script demo_message)) = demo_events" by (simp add: demo_process)
  have settled: "settled (snd (process demo_platform demo_config demo_script demo_message))"
    by (simp add: demo_process settled_def demo_events_def event_at_def)
  have "published demo_platform demo_config demo_job (polled [demo_poll demo_events]) demo_events"
    unfolding polled_one by (rule demo_published) auto
  note published = this
  have quiet: "list_all quiet_poll [demo_poll demo_events]" by (simp add: demo_quiet)
  from fate_reaches_caller [OF demo_parsed [OF demo_script_sel(1)] settled demo_shared demo_aes quiet, unfolded r, OF published]
  obtain now e where f: "e \<in> set demo_events" "isTerminalEvent (ev_body e)" "now \<in> fst ` set (polled [demo_poll demo_events])"
    "consumeEvents demo_platform demo_backend demo_job quiet_hooks None [demo_poll demo_events] None =
       (case job_fate demo_platform demo_backend demo_job now (ev_body e) of Inl x \<Rightarrow> Rejects x False | Inr None \<Rightarrow> Follows | Inr (Some s) \<Rightarrow> Returns s,
        through_terminal demo_events)"
    by blast
  have "now = 7000" using f(3) unfolding polled_one by auto
  moreover have "ev_body e = Succeeded (Some demo_result)" using f(1,2) by (auto simp: demo_events_def event_at_def)
  ultimately show ?thesis using f(4) demo_fate by auto
qed

section \<open>A run that is shut down and a second one\<close>

definition stopped_script :: script where
  "stopped_script = demo_script\<lparr>sc_stir := (\<lambda>at. if at = AtExecution
       then [Reports 2000 ''login'' 10 True True, Beats 3000 True True, Cancels Shutdown] else []),
     sc_execution := (\<lambda>c. Inl cancellationError)\<rparr>"

definition quick_script :: script where
  "quick_script = demo_script\<lparr>sc_stir := (\<lambda>at. []), sc_browser := Inl (WorkerError ''GOOGLE_AUTOMATION_BLOCKED'' False), sc_report := (6000, True)\<rparr>"

lemma stopped_script_sel [simp]:
  "sc_opened stopped_script = 500" "sc_lease stopped_script = Inr True" "sc_created stopped_script = 600"
  "sc_stir stopped_script at = (if at = AtExecution
       then [Reports 2000 ''login'' 10 True True, Beats 3000 True True, Cancels Shutdown] else [])"
  "sc_started stopped_script = (1000, True)" "sc_credential stopped_script = 1000" "sc_browser stopped_script = Inr ()"
  "sc_execution stopped_script c = Inl cancellationError" "sc_disconnect stopped_script = Inr ()" "sc_release stopped_script = Inr ()"
  by (simp_all add: stopped_script_def)

lemma quick_script_sel [simp]:
  "sc_opened quick_script = 500" "sc_lease quick_script = Inr True" "sc_created quick_script = 600" "sc_stir quick_script at = []"
  "sc_started quick_script = (1000, True)" "sc_credential quick_script = 1000"
  "sc_browser quick_script = Inl (WorkerError ''GOOGLE_AUTOMATION_BLOCKED'' False)" "sc_report quick_script = (6000, True)"
  "sc_acked quick_script at = True" "sc_disconnect quick_script = Inr ()" "sc_release quick_script = Inr ()"
  by (simp_all add: quick_script_def)

lemma stopped_runs:
  "run_job demo_platform demo_config stopped_script demo_job (fresh_run None) =
    (Inl cancellationError, \<lparr>rn_token = Some Shutdown, rn_sequence = 3, rn_events = take 3 demo_events, rn_acks = 0,
       rn_connected = True, rn_leased = True, rn_listed = True\<rparr>)"
  unfolding run_job_def Let_def demo_config_sel stopped_script_sel demo_job_id credential_aad_def [symmetric]
  by (simp add: and_then_def awaited_def fresh_run_def demo_emit given_def throwIfCancelled_def open_browser_def stir_defs PHASES_def
      demo_credential_opens [folded credential_aad_def] of_protocol_def token_cancel_def demo_events_def)

lemma stopped_process: "snd (process demo_platform demo_config stopped_script demo_message) =
    \<lparr>rn_token = Some Shutdown, rn_sequence = 3, rn_events = take 3 demo_events, rn_acks = 0,
       rn_connected = False, rn_leased = False, rn_listed = False\<rparr>"
proof -
  have "token_create (job_deadline demo_job) (sc_created stopped_script) = None" by (simp add: demo_deadline token_create_def)
  then show ?thesis
    by (simp add: process_def demo_parsed leased_run_def stopped_runs handle_error_def clean_up_def)
qed

lemma quick_runs:
  "run_job demo_platform demo_config quick_script demo_job (fresh_run None) =
    (Inl (WorkerError ''GOOGLE_AUTOMATION_BLOCKED'' False), \<lparr>rn_token = None, rn_sequence = 1, rn_events = take 1 demo_events, rn_acks = 0,
       rn_connected = False, rn_leased = True, rn_listed = True\<rparr>)"
  unfolding run_job_def Let_def demo_config_sel quick_script_sel demo_job_id credential_aad_def [symmetric]
  by (simp add: and_then_def awaited_def fresh_run_def demo_emit given_def throwIfCancelled_def open_browser_def
      demo_credential_opens [folded credential_aad_def] of_protocol_def demo_events_def)

lemma quick_process: "snd (process demo_platform demo_config quick_script demo_message) =
    \<lparr>rn_token = None, rn_sequence = 2, rn_events = take 1 demo_events @ [quick_event], rn_acks = 1,
       rn_connected = False, rn_leased = False, rn_listed = False\<rparr>"
proof -
  have "token_create (job_deadline demo_job) (sc_created quick_script) = None" by (simp add: demo_deadline token_create_def)
  moreover have "FAILURE_CODE_PATTERN ''GOOGLE_AUTOMATION_BLOCKED''" by code_simp
  ultimately show ?thesis
    by (simp add: process_def demo_parsed leased_run_def quick_runs handle_error_def report_and_ack_def and_then_def awaited_def
        demo_emit ack_message_def clean_up_def quick_event_def)
qed

lemma second_run_unheard_witness:
  "settled (snd (process demo_platform demo_config quick_script demo_message))
   \<and> consumeEvents demo_platform demo_backend demo_job quiet_hooks None
       [demo_poll (take 3 demo_events), demo_poll (take 1 demo_events @ [quick_event])] None = (Follows, take 3 demo_events)"
proof -
  have first: "\<not> settled (snd (process demo_platform demo_config stopped_script demo_message))"
    by (simp add: stopped_process settled_def demo_events_def event_at_def)
  have pub: "published demo_platform demo_config demo_job (polled [demo_poll (take 3 demo_events)])
      (rn_events (snd (process demo_platform demo_config stopped_script demo_message)))"
    "published demo_platform demo_config demo_job (polled [demo_poll (take 1 demo_events @ [quick_event])])
      (rn_events (snd (process demo_platform demo_config quick_script demo_message)))"
    unfolding polled_one by (simp_all only: stopped_process quick_process job_run.simps, rule_tac [!] demo_published)
      (auto dest: in_set_takeD)
  have "polled [demo_poll (take 3 demo_events), demo_poll (take 1 demo_events @ [quick_event])]
      = polled [demo_poll (take 3 demo_events)] @ polled [demo_poll (take 1 demo_events @ [quick_event])]"
    by (simp add: polled_def)
  from second_run_unheard [OF demo_parsed [OF stopped_script_sel(1)] first demo_parsed [OF quick_script_sel(1)] _ demo_shared demo_aes _ this pub]
  have "consumeEvents demo_platform demo_backend demo_job quiet_hooks None
       [demo_poll (take 3 demo_events), demo_poll (take 1 demo_events @ [quick_event])] None = (Follows, take 3 demo_events)"
    using demo_quiet by (simp add: stopped_process quick_process demo_events_def)
  moreover have "settled (snd (process demo_platform demo_config quick_script demo_message))"
    by (simp add: quick_process settled_def quick_event_def event_at_def)
  ultimately show ?thesis by simp
qed

end
