(* ===== verification/RedisClient.thy ===== *)
theory RedisClient
  imports Prelude
begin

text \<open>
  The Redis client of the Node deployment, \<open>apps/worker/src/node/redis/client.ts\<close>, for strings
  with an expiry: reading, writing and deleting a key at a time. Redis is not code of the
  repository: a client is a record of functions on an unknown store, and what is relied on is
  its documented behaviour, \<open>redis_laws\<close>.
\<close>

record 'r redis_client =
  rd_get :: "'r \<Rightarrow> int \<Rightarrow> string \<Rightarrow> string option"
  rd_set :: "'r \<Rightarrow> int \<Rightarrow> string \<Rightarrow> string \<Rightarrow> int \<Rightarrow> 'r"
  rd_del :: "'r \<Rightarrow> int \<Rightarrow> string \<Rightarrow> 'r"

text \<open>\<open>SET key value PX ttl NX\<close>\<close>

definition set_nx :: "'r redis_client \<Rightarrow> 'r \<Rightarrow> int \<Rightarrow> string \<Rightarrow> string \<Rightarrow> int \<Rightarrow> bool \<times> 'r" where
  "set_nx rd r now k v ttl = (if rd_get rd r now k = None then (True, rd_set rd r now k v ttl) else (False, r))"

text \<open>A key that was set is read until it expires or is written or deleted; others are not touched.\<close>

definition redis_laws :: "'r redis_client \<Rightarrow> bool" where
  "redis_laws rd \<longleftrightarrow>
     (\<forall>r now k v ttl k' t. now \<le> t \<longrightarrow> rd_get rd (rd_set rd r now k v ttl) t k' =
        (if k' = k then (if t < now + ttl then Some v else None) else rd_get rd r t k'))
   \<and> (\<forall>r now k k' t. now \<le> t \<longrightarrow> rd_get rd (rd_del rd r now k) t k' = (if k' = k then None else rd_get rd r t k'))
   \<and> (\<forall>r now t k. now \<le> t \<longrightarrow> rd_get rd r t k = None \<or> rd_get rd r t k = rd_get rd r now k)"

text \<open>A client that keeps its keys in a table, newest first.\<close>

type_synonym table_store = "(string \<times> (string \<times> int) option) list"

definition table_client :: "table_store redis_client" where
  "table_client = \<lparr>rd_get = (\<lambda>r now k. case map_of r k of Some (Some (v, t)) \<Rightarrow> if now < t then Some v else None | _ \<Rightarrow> None),
     rd_set = (\<lambda>r now k v ttl. (k, Some (v, now + ttl)) # r),
     rd_del = (\<lambda>r now k. (k, None) # r)\<rparr>"

lemma table_client_laws: "redis_laws table_client"
  by (auto simp: redis_laws_def table_client_def split: option.split)

end
