(* ===== verification/AutomationChallenge.thy ===== *)
theory AutomationChallenge
  imports AutomationBackend RedisClient
begin

text \<open>
  How the backend settles a challenge, \<open>apps/worker/src/node/automation/backend.ts\<close>: a challenge
  is stored as pending once, and a call that answers or cancels it reads it, replaces it by a
  script that Redis runs at once, and only then publishes its control. Calls of several requests
  and workers interleave between these steps. Redis is a client whose values can be read until
  they expire.
\<close>

section \<open>The store\<close>

definition COMPLETE_CHALLENGE_SCRIPT :: "'r redis_client \<Rightarrow> 'r \<Rightarrow> int \<Rightarrow> string \<Rightarrow> string \<Rightarrow> string \<Rightarrow> int \<Rightarrow> int \<times> 'r" where
  "COMPLETE_CHALLENGE_SCRIPT rd r now k expected replacement ttl =
    (if rd_get rd r now k \<noteq> Some expected then (0, r) else (1, rd_set rd r now k replacement ttl))"

record challenge_env =
  ce_core :: core_platform
  ce_secret :: string
  ce_hash :: "string \<Rightarrow> string"
  ce_text :: "jval \<Rightarrow> string"
  ce_parse :: "string \<Rightarrow> jval option"
  ce_config :: backend_config

definition redisKey :: "challenge_env \<Rightarrow> string \<Rightarrow> string \<Rightarrow> string" where
  "redisKey env kind value = ''hyeboard:v1:automation:{'' @ ce_hash env value @ ''}:'' @ kind"

section \<open>Challenges\<close>

definition challenge_value :: "job_record \<Rightarrow> string \<Rightarrow> jval" where
  "challenge_value job challenge = JObj [(''jobId'', JStr (jr_jobId job)), (''accountId'', JStr (jr_accountId job)),
     (''fence'', JInt (jr_fence job)), (''challengeId'', JStr challenge), (''status'', JStr ''pending'')]"

definition prepareChallenge ::
  "'r redis_client \<Rightarrow> challenge_env \<Rightarrow> 'r \<Rightarrow> int \<Rightarrow> job_record \<Rightarrow> string \<Rightarrow> int \<Rightarrow> bool \<times> 'r" where
  "prepareChallenge rd env r now job challenge expires =
     set_nx rd r now (redisKey env ''challenge'' challenge) (ce_text env (challenge_value job challenge)) (max 1 (expires - now))"

definition readChallenge :: "'r redis_client \<Rightarrow> challenge_env \<Rightarrow> 'r \<Rightarrow> int \<Rightarrow> string \<Rightarrow> jval option" where
  "readChallenge rd env r now k = (case rd_get rd r now k of
     None \<Rightarrow> None
   | Some s \<Rightarrow> if s = [] then None
       else (case ce_parse env s of
         None \<Rightarrow> None
       | Some v \<Rightarrow> if asRecord v \<and> matches (\<lambda>s. True) (prop_of ''jobId'' v) \<and> matches (\<lambda>s. True) (prop_of ''accountId'' v)
              \<and> matches (\<lambda>s. True) (prop_of ''challengeId'' v) \<and> is_number (prop_of ''fence'' v)
              \<and> string_among [''pending'', ''answered'', ''cancelled''] (prop_of ''status'' v)
           then Some v else None))"

text \<open>\<open>{ ...state, status }\<close> keeps the place of the status.\<close>

definition with_status :: "string \<Rightarrow> jval \<Rightarrow> jval" where
  "with_status s v = with_prop ''status'' (JStr s) v"

definition state_matches :: "jval \<Rightarrow> job_record \<Rightarrow> bool" where
  "state_matches v owner \<longleftrightarrow> prop_of ''jobId'' v = JStr (jr_jobId owner) \<and> prop_of ''accountId'' v = JStr (jr_accountId owner)
     \<and> prop_of ''fence'' v = JInt (jr_fence owner)"

datatype challenge_call = AnswerCall string | CancelCall

fun final_status :: "challenge_call \<Rightarrow> string" where
  "final_status (AnswerCall answer) = ''answered''"
| "final_status CancelCall = ''cancelled''"

text \<open>The first part of \<open>answerCaptcha\<close> and of \<open>cancelCaptcha\<close>: the key, the owner and the state read.\<close>

definition open_challenge ::
  "'r redis_client \<Rightarrow> challenge_env \<Rightarrow> 'r \<Rightarrow> int \<Rightarrow> string \<Rightarrow> challenge_call \<Rightarrow> hyeboard_error + string \<times> job_record \<times> jval" where
  "open_challenge rd env r now token call =
     sbind (parseCapability (ce_core env) (ce_secret env) token ChallengeCapability) (\<lambda>(owner, challenge).
       if (case call of AnswerCall answer \<Rightarrow> answer = [] \<or> 64 < length answer | CancelCall \<Rightarrow> False) then Inl automationNotFound
       else (let k = redisKey env ''challenge'' (the challenge) in
         case readChallenge rd env r now k of
           None \<Rightarrow> Inl automationNotFound
         | Some v \<Rightarrow> if \<not> state_matches v owner \<or> prop_of ''challengeId'' v \<noteq> JStr (the challenge) \<or> prop_of ''status'' v \<noteq> JStr ''pending''
             then Inl automationNotFound else Inr (k, owner, v)))"

definition completeChallenge ::
  "'r redis_client \<Rightarrow> challenge_env \<Rightarrow> 'r \<Rightarrow> int \<Rightarrow> string \<Rightarrow> jval \<Rightarrow> string \<Rightarrow> bool \<times> 'r" where
  "completeChallenge rd env r now k v status =
     (case COMPLETE_CHALLENGE_SCRIPT rd r now k (ce_text env (with_status ''pending'' v)) (ce_text env (with_status status v))
        (bc_idempotencyTtlMs (ce_config env)) of (n, r') \<Rightarrow> (n = 1, r'))"

section \<open>Interleaved calls\<close>

text \<open>A call that has read its challenge and has not completed it yet, and the calls accepted.\<close>

record 'r challenge_world =
  cw_redis :: 'r
  cw_open :: "(nat \<times> string \<times> jval \<times> challenge_call) list"
  cw_accepted :: "(nat \<times> string) list"
  cw_stored :: "string list"

datatype challenge_op =
    Prepares job_record string int
  | Opens nat string challenge_call
  | Completes nat

fun challenge_step :: "'r redis_client \<Rightarrow> challenge_env \<Rightarrow> 'r challenge_world \<Rightarrow> int \<times> challenge_op \<Rightarrow> 'r challenge_world" where
  "challenge_step rd env w (now, Prepares job challenge expires) =
     (case prepareChallenge rd env (cw_redis w) now job challenge expires of
        (stored, r') \<Rightarrow> w\<lparr>cw_redis := r',
          cw_stored := if stored then redisKey env ''challenge'' challenge # cw_stored w else cw_stored w\<rparr>)"
| "challenge_step rd env w (now, Opens i token call) =
     (case open_challenge rd env (cw_redis w) now token call of
        Inl e \<Rightarrow> w
      | Inr (k, owner, v) \<Rightarrow> w\<lparr>cw_open := (i, k, v, call) # cw_open w\<rparr>)"
| "challenge_step rd env w (now, Completes i) = (case map_of (cw_open w) i of
     None \<Rightarrow> w
   | Some (k, v, call) \<Rightarrow> (case completeChallenge rd env (cw_redis w) now k v (final_status call) of
        (accepted, r') \<Rightarrow> w\<lparr>cw_redis := r', cw_open := AList.delete i (cw_open w),
          cw_accepted := if accepted then (i, k) # cw_accepted w else cw_accepted w\<rparr>))"

definition fresh_challenges :: "'r \<Rightarrow> 'r challenge_world" where
  "fresh_challenges r = \<lparr>cw_redis = r, cw_open = [], cw_accepted = [], cw_stored = []\<rparr>"

section \<open>A challenge is settled once\<close>

text \<open>The text of a state tells whether it is pending.\<close>

definition texts_differ :: "challenge_env \<Rightarrow> bool" where
  "texts_differ env \<longleftrightarrow> (\<forall>kvs kvs'. ce_text env (JObj kvs) = ce_text env (JObj kvs') \<longrightarrow>
     field ''status'' kvs = JStr ''pending'' \<longrightarrow> field ''status'' kvs' = JStr ''pending'')"

definition pending_text :: "challenge_env \<Rightarrow> string \<Rightarrow> bool" where
  "pending_text env s \<longleftrightarrow> (\<exists>kvs. s = ce_text env (JObj kvs) \<and> field ''status'' kvs = JStr ''pending'')"

definition is_pending :: "'r redis_client \<Rightarrow> challenge_env \<Rightarrow> 'r \<Rightarrow> int \<Rightarrow> string \<Rightarrow> bool" where
  "is_pending rd env r now k \<longleftrightarrow> (\<exists>s. rd_get rd r now k = Some s \<and> pending_text env s)"

definition accepted_for :: "string \<Rightarrow> 'r challenge_world \<Rightarrow> nat" where
  "accepted_for k w = length (filter (\<lambda>(i, k'). k' = k) (cw_accepted w))"

definition stored_for :: "string \<Rightarrow> 'r challenge_world \<Rightarrow> nat" where
  "stored_for k w = length (filter (\<lambda>k'. k' = k) (cw_stored w))"

text \<open>What a store that holds nothing yet and no call satisfies, and every step keeps.\<close>

definition settled_inv :: "'r redis_client \<Rightarrow> challenge_env \<Rightarrow> string \<Rightarrow> int \<Rightarrow> 'r challenge_world \<Rightarrow> bool" where
  "settled_inv rd env k now w \<longleftrightarrow> accepted_for k w + (if is_pending rd env (cw_redis w) now k then 1 else 0) \<le> stored_for k w
     \<and> (\<forall>(i, k', v, call) \<in> set (cw_open w). asRecord v)"

end
