(* ===== verification/AutomationChallengeProps.thy ===== *)
theory AutomationChallengeProps
  imports AutomationChallenge AutomationCapabilityProps
begin

text \<open>
  A challenge is settled once: however the calls of its owners interleave, each time it is stored
  as pending at most one of them is accepted.
\<close>

lemma record_object: "asRecord v \<Longrightarrow> \<exists>kvs. v = JObj kvs"
  by (cases v) auto

lemma status_text:
  assumes "asRecord v"
  shows "\<exists>kvs. with_status s v = JObj kvs \<and> field ''status'' kvs = JStr s"
proof -
  from record_object [OF assms] obtain kvs where "v = JObj kvs" by blast
  moreover have "field ''status'' (AList.update ''status'' (JStr s) kvs) = JStr s"
    by (simp add: field_def map_of_update)
  ultimately show ?thesis by (simp add: with_status_def)
qed

lemma pending_status: "asRecord v \<Longrightarrow> pending_text env (ce_text env (with_status ''pending'' v))"
  using status_text [of v "''pending''"] unfolding pending_text_def by metis

lemma final_not_pending:
  assumes "texts_differ env" "asRecord v"
  shows "\<not> pending_text env (ce_text env (with_status (final_status call) v))"
proof
  assume "pending_text env (ce_text env (with_status (final_status call) v))"
  then obtain kvs where p: "ce_text env (with_status (final_status call) v) = ce_text env (JObj kvs)" "field ''status'' kvs = JStr ''pending''"
    unfolding pending_text_def by blast
  obtain kvs' where s: "with_status (final_status call) v = JObj kvs'" "field ''status'' kvs' = JStr (final_status call)"
    using status_text [OF assms(2)] by blast
  have "field ''status'' kvs' = JStr ''pending''" using assms(1) p s(1) unfolding texts_differ_def by metis
  then show False using s(2) by (cases call) auto
qed

lemma pending_earlier:
  "redis_laws rd \<Longrightarrow> now \<le> t \<Longrightarrow> is_pending rd env r t k \<Longrightarrow> is_pending rd env r now k"
  unfolding redis_laws_def is_pending_def by (metis option.distinct(1))

lemma opened_record: "open_challenge rd env r now token call = Inr (k, owner, v) \<Longrightarrow> asRecord v"
  by (auto simp: open_challenge_def readChallenge_def sbind_Inr_iff Let_def split: option.splits if_splits)

lemma get_set: "redis_laws rd \<Longrightarrow> rd_get rd (rd_set rd r t k v ttl) t k' = (if k' = k then (if 0 < ttl then Some v else None) else rd_get rd r t k')"
  by (simp add: redis_laws_def)

lemma settled_step:
  assumes laws: "redis_laws rd" "texts_differ env" and inv: "settled_inv rd env k now w" and t: "now \<le> t"
  shows "settled_inv rd env k t (challenge_step rd env w (t, x))"
proof -
  have le: "accepted_for k w + (if is_pending rd env (cw_redis w) t k then 1 else 0) \<le> stored_for k w"
    using inv pending_earlier [OF laws(1) t, of env "cw_redis w" k] unfolding settled_inv_def by (auto split: if_splits)
  have recs: "\<forall>(i, k', v, call) \<in> set (cw_open w). asRecord v" using inv by (simp add: settled_inv_def)
  show ?thesis
  proof (cases x)
    case (Prepares job challenge expires)
    let ?k = "redisKey env ''challenge'' challenge"
    show ?thesis
    proof (cases "rd_get rd (cw_redis w) t ?k = None")
      case True
      then have "\<not> is_pending rd env (cw_redis w) t ?k" by (simp add: is_pending_def)
      with True le recs show ?thesis
        by (cases "?k = k")
          (auto simp: Prepares prepareChallenge_def set_nx_def settled_inv_def accepted_for_def stored_for_def is_pending_def get_set [OF laws(1)])
    next
      case False
      then show ?thesis using le recs
        by (auto simp: Prepares prepareChallenge_def set_nx_def settled_inv_def accepted_for_def stored_for_def)
    qed
  next
    case (Opens i token call)
    then show ?thesis using le recs opened_record [of rd env "cw_redis w" t token call]
      by (auto simp: settled_inv_def accepted_for_def stored_for_def split: sum.splits)
  next
    case (Completes i)
    show ?thesis
    proof (cases "map_of (cw_open w) i")
      case None
      then show ?thesis using le recs by (simp add: Completes settled_inv_def)
    next
      case (Some c)
      obtain k' v call where c: "c = (k', v, call)" by (cases c)
      have v: "asRecord v" using Some c recs by (auto dest: map_of_SomeD)
      have rest: "\<forall>(i, k', v, call) \<in> set (AList.delete i (cw_open w)). asRecord v"
        using recs by (auto simp: AList.delete_eq)
      let ?pending = "ce_text env (with_status ''pending'' v)"
      show ?thesis
      proof (cases "rd_get rd (cw_redis w) t k' = Some ?pending")
        case False
        then show ?thesis using le rest
          by (simp add: Completes Some c completeChallenge_def COMPLETE_CHALLENGE_SCRIPT_def settled_inv_def accepted_for_def stored_for_def)
      next
        case True
        have was: "is_pending rd env (cw_redis w) t k'" using True pending_status [OF v] unfolding is_pending_def by blast
        have now_final: "\<not> is_pending rd env (rd_set rd (cw_redis w) t k' (ce_text env (with_status (final_status call) v)) ttl) t k'" for ttl
          using final_not_pending [OF laws(2) v] by (simp add: is_pending_def get_set [OF laws(1)])
        have other: "k \<noteq> k' \<Longrightarrow> is_pending rd env (rd_set rd (cw_redis w) t k' x ttl) t k = is_pending rd env (cw_redis w) t k" for x ttl
          by (simp add: is_pending_def get_set [OF laws(1)])
        show ?thesis using True le rest was now_final other
          by (cases "k' = k")
            (simp_all add: Completes Some c completeChallenge_def COMPLETE_CHALLENGE_SCRIPT_def settled_inv_def accepted_for_def stored_for_def)
      qed
    qed
  qed
qed

lemma settled_run:
  assumes laws: "redis_laws rd" "texts_differ env"
  shows "sorted (now # map fst ops) \<Longrightarrow> settled_inv rd env k now w \<Longrightarrow>
    \<exists>t. settled_inv rd env k t (fold (\<lambda>op w. challenge_step rd env w op) ops w)"
proof (induction ops arbitrary: now w)
  case (Cons op ops)
  obtain t x where op: "op = (t, x)" by fastforce
  with Cons.prems have "settled_inv rd env k t (challenge_step rd env w op)"
    using settled_step [OF laws Cons.prems(2), of t x] by simp
  with Cons op show ?case by auto
qed auto

text \<open>Whoever is accepted has opened the challenge with a capability for it.\<close>

definition opened_with :: "challenge_env \<Rightarrow> (int \<times> challenge_op) list \<Rightarrow> nat \<Rightarrow> string \<Rightarrow> bool" where
  "opened_with env ops i k \<longleftrightarrow> (\<exists>t token call owner challenge. (t, Opens i token call) \<in> set ops
     \<and> parseCapability (ce_core env) (ce_secret env) token ChallengeCapability = Inr (owner, Some challenge)
     \<and> k = redisKey env ''challenge'' challenge)"

lemma parse_challenge:
  assumes "parseCapability cp secret token ChallengeCapability = Inr (owner, c)"
  shows "\<exists>x. c = Some x"
proof -
  from assms have "parseCapability cp secret token ChallengeCapability \<noteq> Inl automationNotFound" by simp
  from seven_parts [OF this] obtain p k i a f x s where sp: "split_on CHR ''.'' token = [p, k, i, a, f, x, s]" by blast
  show ?thesis using assms unfolding parseCapability_def sp Let_def by (simp split: if_split_asm) blast
qed

lemma opens_with:
  "open_challenge rd env r now token call = Inr (k, owner, v) \<Longrightarrow>
   \<exists>challenge. parseCapability (ce_core env) (ce_secret env) token ChallengeCapability = Inr (owner, Some challenge)
     \<and> k = redisKey env ''challenge'' challenge"
proof -
  assume o: "open_challenge rd env r now token call = Inr (k, owner, v)"
  then obtain c where c: "parseCapability (ce_core env) (ce_secret env) token ChallengeCapability = Inr (owner, c)"
    "k = redisKey env ''challenge'' (the c)"
    by (auto simp: open_challenge_def sbind_Inr_iff Let_def split: option.splits if_splits)
  with parse_challenge [OF c(1)] show ?thesis by auto
qed

lemma accepted_opened:
  "(\<forall>(i, k, v, call) \<in> set (cw_open (fold (\<lambda>op w. challenge_step rd env w op) ops (fresh_challenges r))). opened_with env ops i k)
   \<and> (\<forall>(i, k) \<in> set (cw_accepted (fold (\<lambda>op w. challenge_step rd env w op) ops (fresh_challenges r))). opened_with env ops i k)"
proof (induction ops rule: rev_induct)
  case Nil
  then show ?case by (simp add: fresh_challenges_def)
next
  case (snoc op ops)
  let ?w = "fold (\<lambda>op w. challenge_step rd env w op) ops (fresh_challenges r)"
  have more: "opened_with env ops i k \<Longrightarrow> opened_with env (ops @ [op]) i k" for i k by (auto simp: opened_with_def)
  obtain t x where op: "op = (t, x)" by fastforce
  have opens: "opened_with env (ops @ [op]) i k" if "x = Opens i token call" "open_challenge rd env (cw_redis ?w) t token call = Inr (k, owner, v)"
    for i token call k owner v
    using opens_with [OF that(2)] that(1) op unfolding opened_with_def by fastforce
  show ?case
  proof (cases x)
    case (Prepares job challenge expires)
    then show ?thesis using snoc more by (auto simp: op split: prod.splits)
  next
    case (Opens i token call)
    then show ?thesis using snoc more opens [OF Opens] by (auto simp: op split: sum.splits)
  next
    case (Completes i)
    then show ?thesis using snoc more by (auto simp: op AList.delete_eq split: option.splits prod.splits dest!: map_of_SomeD)
  qed
qed

lemma fresh_settled: "\<not> is_pending rd env r now k \<Longrightarrow> settled_inv rd env k now (fresh_challenges r)"
  by (simp add: settled_inv_def fresh_challenges_def accepted_for_def stored_for_def)

text \<open>
  C31. A challenge is settled once. Whatever calls that answer or cancel interleave, each of them
  reading the challenge, replacing it and only then going on, and whatever expires in between,
  the calls accepted for a challenge are no more than the times it was stored as pending; and
  each of them presented a capability for this challenge.
\<close>

theorem challenge_settled_once:
  assumes "redis_laws rd" "texts_differ env" "sorted (now # map fst ops)" "\<not> is_pending rd env r now k"
    and w: "w = fold (\<lambda>op w. challenge_step rd env w op) ops (fresh_challenges r)"
  shows "accepted_for k w \<le> stored_for k w \<and> (\<forall>i. (i, k) \<in> set (cw_accepted w) \<longrightarrow> opened_with env ops i k)"
proof
  from settled_run [OF assms(1-3) fresh_settled [OF assms(4)]]
  obtain t where "settled_inv rd env k t w" unfolding w by blast
  then show "accepted_for k w \<le> stored_for k w" by (auto simp: settled_inv_def split: if_splits)
  show "\<forall>i. (i, k) \<in> set (cw_accepted w) \<longrightarrow> opened_with env ops i k"
    using accepted_opened [of rd env ops r] unfolding w by fast
qed

section \<open>Two answers at once\<close>

definition race_job :: job_record where
  "race_job = cap_job\<lparr>jr_ownershipToken := capability cap_platform ''s'' JobCapability cap_job None\<rparr>"

definition race_challenge :: string where "race_challenge = replicate 22 CHR ''C''"

definition race_token :: string where
  "race_token = capability cap_platform ''s'' ChallengeCapability race_job (Some race_challenge)"

definition race_config :: backend_config where
  "race_config = \<lparr>bc_jobStream = ''jobs'', bc_eventStream = ''events'', bc_controlStream = ''control'', bc_jobEnvelopeAad = ''job'',
     bc_credentialEnvelopeAadPrefix = ''credential:'', bc_resultEnvelopeAadPrefix = ''result:'', bc_eventEnvelopeAadPrefix = ''event:'',
     bc_idempotencyTtlMs = 300000, bc_deadlineMs = 60000, bc_eventBlockMs = 1000, bc_eventBatchSize = 100,
     bc_keyring = \<lparr>kr_current = None, kr_previous = None\<rparr>, bc_executorReady = True\<rparr>"

definition race_env :: challenge_env where
  "race_env = \<lparr>ce_core = cap_platform, ce_secret = ''s'', ce_hash = (\<lambda>s. s),
     ce_text = (\<lambda>v. if prop_of ''status'' v = JStr ''pending'' then ''p'' else ''f''),
     ce_parse = (\<lambda>s. if s = ''p'' then Some (challenge_value race_job race_challenge) else None), ce_config = race_config\<rparr>"

definition race_ops :: "(int \<times> challenge_op) list" where
  "race_ops = [(0, Prepares race_job race_challenge 1000), (1, Opens 1 race_token (AnswerCall ''ab'')), (2, Opens 2 race_token CancelCall),
     (3, Completes 2), (4, Completes 1)]"

definition race_world :: "table_store challenge_world" where
  "race_world = fold (\<lambda>op w. challenge_step table_client race_env w op) race_ops (fresh_challenges [])"

lemma race_settled: "cw_accepted race_world = [(2, redisKey race_env ''challenge'' race_challenge)]"
  "stored_for (redisKey race_env ''challenge'' race_challenge) race_world = 1"
  by code_simp+

lemma challenge_settled_once_witness:
  "\<exists>k. accepted_for k race_world \<le> stored_for k race_world \<and> stored_for k race_world = 1 \<and> opened_with race_env race_ops 2 k"
proof -
  let ?k = "redisKey race_env ''challenge'' race_challenge"
  have differ: "texts_differ race_env" by (auto simp: texts_differ_def race_env_def split: if_splits)
  have "sorted (0 # map fst race_ops)" by (simp add: race_ops_def)
  moreover have "\<not> is_pending table_client race_env [] 0 ?k" by (simp add: is_pending_def table_client_def)
  ultimately have "accepted_for ?k race_world \<le> stored_for ?k race_world
      \<and> (\<forall>i. (i, ?k) \<in> set (cw_accepted race_world) \<longrightarrow> opened_with race_env race_ops i ?k)"
    using challenge_settled_once [OF table_client_laws differ _ _ race_world_def] by blast
  then show ?thesis using race_settled by (intro exI [of _ ?k]) simp
qed

end
