(* ===== verification/AutomationControl.thy ===== *)
theory AutomationControl
  imports AutomationWorker AutomationBackend
begin

text \<open>
  The controls of a running job: \<open>apps/automation-worker/src/transport/control.ts\<close> (the parser,
  the bridge that holds the challenges of the executors of this process, the consumer of the
  control stream), the cancellation requests of \<open>runtime/worker.ts\<close> and \<open>applyControl\<close> of
  \<open>main.ts\<close>.
\<close>

section \<open>Controls\<close>

datatype control_kind = CaptchaAnswer string string | CancelRequest "string option"

record control =
  ct_jobId :: string
  ct_accountId :: string
  ct_fence :: int
  ct_kind :: control_kind

definition control_challenge :: "control \<Rightarrow> string option" where
  "control_challenge c = (case ct_kind c of CaptchaAnswer challenge answer \<Rightarrow> Some challenge | CancelRequest challenge \<Rightarrow> challenge)"

definition object_keys :: "jval \<Rightarrow> string list" where
  "object_keys v = (case v of JObj kvs \<Rightarrow> map fst kvs | _ \<Rightarrow> [])"

definition positive_fence :: "jval \<Rightarrow> bool" where
  "positive_fence v = (case v of JInt n \<Rightarrow> safe_integer n \<and> 1 \<le> n | _ \<Rightarrow> False)"

definition control_keys :: "string \<Rightarrow> string list" where
  "control_keys kind = (if kind = ''captcha-answer'' then [''type'', ''jobId'', ''accountId'', ''fence'', ''challengeId'', ''answer'']
     else [''type'', ''jobId'', ''accountId'', ''fence'', ''challengeId'', ''reason''])"

text \<open>\<open>None\<close> for any of the errors the parser throws: its callers treat them alike.\<close>

definition parseAutomationControl :: "jval \<Rightarrow> control option" where
  "parseAutomationControl v = (let p = (\<lambda>k. prop_of k v); kind = text_of_value (p ''type'') in
     if \<not> asRecord v
        \<or> p ''type'' \<noteq> JStr ''captcha-answer'' \<and> p ''type'' \<noteq> JStr ''cancel''
        \<or> \<not> matches (\<lambda>s. True) (p ''jobId'') \<or> \<not> matches (\<lambda>s. True) (p ''accountId'') \<or> \<not> positive_fence (p ''fence'')
     then None
     else if assertOpaqueId (p ''jobId'') \<noteq> Inr () \<or> assertOpaqueId (p ''accountId'') \<noteq> Inr () then None
     else if \<not> set (object_keys v) \<subseteq> set (control_keys kind) then None
     else if p ''challengeId'' \<noteq> JUndefined \<and> (\<not> matches (\<lambda>s. True) (p ''challengeId'') \<or> assertOpaqueId (p ''challengeId'') \<noteq> Inr ())
     then None
     else (let c = \<lparr>ct_jobId = text_of_value (p ''jobId''), ct_accountId = text_of_value (p ''accountId''),
               ct_fence = int_of_value (p ''fence''), ct_kind = CancelRequest (text_option (p ''challengeId''))\<rparr> in
       if kind = ''captcha-answer''
       then (if \<not> matches (\<lambda>s. True) (p ''challengeId'') \<or> \<not> matches (\<lambda>s. s \<noteq> [] \<and> length s \<le> 64) (p ''answer'') then None
             else Some (c\<lparr>ct_kind := CaptchaAnswer (text_of_value (p ''challengeId'')) (text_of_value (p ''answer''))\<rparr>))
       else (if p ''reason'' \<noteq> JStr ''requested'' \<or> p ''answer'' \<noteq> JUndefined then None else Some c)))"

section \<open>The bridge\<close>

text \<open>
  The waiting challenges, each with the identity of its job and its waiter, the waiters whose
  signal is listened to, and what each waiter was given, in order. A waiter is a promise: only the
  first settlement counts. A signal that has been aborted is not listened to any more, and its
  entry is gone.
\<close>

datatype wait_outcome = Answered string | Refused

record pending_captcha =
  pc_jobId :: string
  pc_accountId :: string
  pc_fence :: int
  pc_waiter :: nat

record bridge =
  bg_pending :: "(string \<times> pending_captcha) list"
  bg_listening :: "(nat \<times> string) list"
  bg_outcomes :: "(nat \<times> wait_outcome) list"

definition empty_bridge :: bridge where
  "empty_bridge = \<lparr>bg_pending = [], bg_listening = [], bg_outcomes = []\<rparr>"

definition settle_waiter :: "nat \<Rightarrow> wait_outcome \<Rightarrow> bridge \<Rightarrow> bridge" where
  "settle_waiter w x b = (if w \<in> fst ` set (bg_outcomes b) then b else b\<lparr>bg_outcomes := bg_outcomes b @ [(w, x)]\<rparr>)"

definition same_job :: "pending_captcha \<Rightarrow> control \<Rightarrow> bool" where
  "same_job p c \<longleftrightarrow> pc_jobId p = ct_jobId c \<and> pc_accountId p = ct_accountId c \<and> pc_fence p = ct_fence c"

text \<open>An aborted signal throws at once; otherwise the challenge is registered.\<close>

definition wait_register :: "bridge \<Rightarrow> uet_job \<Rightarrow> string \<Rightarrow> nat \<Rightarrow> bool \<Rightarrow> bridge" where
  "wait_register b job challenge w aborted =
    (if aborted then settle_waiter w Refused b
     else b\<lparr>bg_pending := AList.update challenge \<lparr>pc_jobId = uj_jobId job, pc_accountId = uj_accountId job, pc_fence = uj_fence job,
              pc_waiter = w\<rparr> (bg_pending b),
            bg_listening := (w, challenge) # bg_listening b\<rparr>)"

text \<open>\<open>onAbort\<close> of a waiter whose listener is still there.\<close>

definition wait_aborts :: "bridge \<Rightarrow> nat \<Rightarrow> bridge" where
  "wait_aborts b w = (case map_of (bg_listening b) w of
     None \<Rightarrow> b
   | Some challenge \<Rightarrow> settle_waiter w Refused
       (b\<lparr>bg_pending := AList.delete challenge (bg_pending b), bg_listening := AList.delete w (bg_listening b)\<rparr>))"

definition reject_challenge :: "bridge \<Rightarrow> string \<Rightarrow> bridge" where
  "reject_challenge b challenge = (case map_of (bg_pending b) challenge of
     None \<Rightarrow> b
   | Some p \<Rightarrow> settle_waiter (pc_waiter p) Refused
       (b\<lparr>bg_pending := AList.delete challenge (bg_pending b), bg_listening := AList.delete (pc_waiter p) (bg_listening b)\<rparr>))"

definition rejectForJob :: "bridge \<Rightarrow> string \<Rightarrow> bridge" where
  "rejectForJob b job = fold (\<lambda>(challenge, p) b. if pc_jobId p = job then reject_challenge b challenge else b) (bg_pending b) b"

definition applyAnswer :: "bridge \<Rightarrow> control \<Rightarrow> string \<Rightarrow> string \<Rightarrow> bool \<times> bridge" where
  "applyAnswer b c challenge answer = (case map_of (bg_pending b) challenge of
     None \<Rightarrow> (False, b)
   | Some p \<Rightarrow> if \<not> same_job p c then (False, b)
       else (True, settle_waiter (pc_waiter p) (Answered answer)
         (b\<lparr>bg_pending := AList.delete challenge (bg_pending b), bg_listening := AList.delete (pc_waiter p) (bg_listening b)\<rparr>)))"

definition matchesChallenge :: "bridge \<Rightarrow> control \<Rightarrow> bool" where
  "matchesChallenge b c = (case control_challenge c of
     None \<Rightarrow> False
   | Some challenge \<Rightarrow> (case map_of (bg_pending b) challenge of None \<Rightarrow> False | Some p \<Rightarrow> same_job p c))"

section \<open>The runs of a worker\<close>

record active_run =
  ar_accountId :: string
  ar_fence :: int
  ar_token :: cancellation

record host =
  ho_active :: "(string \<times> active_run) list"
  ho_bridge :: bridge

definition cancel_active :: "host \<Rightarrow> string \<Rightarrow> cancel_reason \<Rightarrow> host" where
  "cancel_active h job reason = (case map_of (ho_active h) job of
     None \<Rightarrow> h
   | Some r \<Rightarrow> h\<lparr>ho_active := AList.update job (r\<lparr>ar_token := token_cancel reason (ar_token r)\<rparr>) (ho_active h)\<rparr>)"

definition requestCancel :: "host \<Rightarrow> string \<Rightarrow> bool \<times> host" where
  "requestCancel h job = (map_of (ho_active h) job \<noteq> None, cancel_active h job Requested)"

definition requestFencedCancel :: "host \<Rightarrow> control \<Rightarrow> bool \<times> host" where
  "requestFencedCancel h c = (case map_of (ho_active h) (ct_jobId c) of
     None \<Rightarrow> (False, h)
   | Some r \<Rightarrow> if ar_accountId r \<noteq> ct_accountId c \<or> ar_fence r \<noteq> ct_fence c then (False, h)
       else (True, cancel_active h (ct_jobId c) Requested))"

text \<open>A worker that stops cancels every run.\<close>

definition stop_runs :: "host \<Rightarrow> cancel_reason \<Rightarrow> host" where
  "stop_runs h reason = h\<lparr>ho_active := map (\<lambda>(job, r). (job, r\<lparr>ar_token := token_cancel reason (ar_token r)\<rparr>)) (ho_active h)\<rparr>"

definition applyControl :: "host \<Rightarrow> control \<Rightarrow> bool \<times> host" where
  "applyControl h c = (case ct_kind c of
     CaptchaAnswer challenge answer \<Rightarrow> (case applyAnswer (ho_bridge h) c challenge answer of (ok, b) \<Rightarrow> (ok, h\<lparr>ho_bridge := b\<rparr>))
   | CancelRequest challenge \<Rightarrow>
       (if challenge \<noteq> None \<and> challenge \<noteq> Some [] \<and> \<not> matchesChallenge (ho_bridge h) c then (False, h)
        else requestFencedCancel h c))"

section \<open>The consumer\<close>

text \<open>Whatever a message holds, it is acknowledged; a failing acknowledgement ends the consumer.\<close>

definition control_of :: "automation_platform \<Rightarrow> worker_config \<Rightarrow> stream_message \<Rightarrow> int \<Rightarrow> control option" where
  "control_of ap cfg msg now = (case map_of (sm_fields msg) ''controlEnvelope'' of
     None \<Rightarrow> None
   | Some envelope \<Rightarrow>
       if envelope = [] then None
       else (case codec_open ap (wc_keyring cfg) envelope (wc_credentialEnvelopeAadPrefix cfg @
               (case map_of (sm_fields msg) ''jobId'' of None \<Rightarrow> [] | Some s \<Rightarrow> s)) now of
         Inl e \<Rightarrow> None
       | Inr v \<Rightarrow> (case parseAutomationControl v of
           None \<Rightarrow> None
         | Some c \<Rightarrow> if map_of (sm_fields msg) ''jobId'' = Some (ct_jobId c) then Some c else None)))"

definition control_process ::
  "automation_platform \<Rightarrow> worker_config \<Rightarrow> int \<Rightarrow> bool \<Rightarrow> stream_message \<Rightarrow> host \<times> broker \<Rightarrow> (worker_error + unit) \<times> host \<times> broker" where
  "control_process ap cfg now acked msg = (\<lambda>(h, b).
    (let h' = (case control_of ap cfg msg now of None \<Rightarrow> h | Some c \<Rightarrow> snd (applyControl h c)) in
     if acked then (Inr (), h', broker_ack b (wc_controlStream cfg) (wc_controlConsumerGroup cfg) (sm_id msg))
     else (Inl OtherError, h', b)))"

fun control_all ::
  "automation_platform \<Rightarrow> worker_config \<Rightarrow> (nat \<Rightarrow> int \<times> bool) \<Rightarrow> nat \<Rightarrow> stream_message list \<Rightarrow> host \<times> broker \<Rightarrow>
   (worker_error + unit) \<times> host \<times> broker" where
  "control_all ap cfg sc i [] w = (Inr (), w)"
| "control_all ap cfg sc i (msg # msgs) w = (case control_process ap cfg (fst (sc i)) (snd (sc i)) msg w of
     (Inl e, w') \<Rightarrow> (Inl e, w')
   | (Inr u, w') \<Rightarrow> control_all ap cfg sc (i + 1) msgs w')"

text \<open>The group was ensured before, so that the broker in memory answers both requests.\<close>

definition control_taken :: "worker_config \<Rightarrow> int \<Rightarrow> int \<Rightarrow> bool \<Rightarrow> broker \<Rightarrow> stream_message list \<times> broker" where
  "control_taken cfg reclaimed read aborted b =
    (let b1 = broker_ensureGroup b (wc_controlStream cfg) (wc_controlConsumerGroup cfg) in
     case broker_reclaimPending b1 (wc_controlStream cfg) (wc_controlConsumerGroup cfg) (wc_controlConsumerName cfg) 10
        (wc_reclaimIdleMs cfg) reclaimed aborted of
       (Inr (m # ms), b2) \<Rightarrow> (m # ms, b2)
     | (_, b2) \<Rightarrow> (case broker_readGroup b2 (wc_controlStream cfg) (wc_controlConsumerGroup cfg) (wc_controlConsumerName cfg) 10
          read aborted of (Inr ms, b3) \<Rightarrow> (ms, b3) | (Inl e, b3) \<Rightarrow> ([], b3)))"

definition control_round ::
  "automation_platform \<Rightarrow> worker_config \<Rightarrow> (nat \<Rightarrow> int \<times> bool) \<Rightarrow> int \<Rightarrow> int \<Rightarrow> bool \<Rightarrow> host \<Rightarrow> broker \<Rightarrow>
   (worker_error + nat) \<times> host \<times> broker" where
  "control_round ap cfg sc reclaimed read aborted h b =
    (case control_taken cfg reclaimed read aborted b of (msgs, b') \<Rightarrow>
      (case control_all ap cfg sc 0 msgs (h, b') of
         (Inl e, w) \<Rightarrow> (Inl e, w) | (Inr u, w) \<Rightarrow> (Inr (length msgs), w)))"

end
