(* ===== verification/AutomationControlProps.thy ===== *)
theory AutomationControlProps
  imports AutomationControl AutomationTransportProps
begin

text \<open>
  What controls do: an answer reaches the executor that waits for this challenge of this job, and
  each waiter hears one thing; a cancellation touches the run it names and no other; and a control
  that the wrong worker takes from the shared stream is lost.
\<close>

section \<open>Histories of the bridge\<close>

datatype bridge_op =
    Waits uet_job string nat bool
  | Aborts nat
  | Fails string
  | Answers control
  | RejectsJob string

fun bridge_step :: "bridge \<Rightarrow> bridge_op \<Rightarrow> bridge" where
  "bridge_step b (Waits job challenge w aborted) = wait_register b job challenge w aborted"
| "bridge_step b (Aborts w) = wait_aborts b w"
| "bridge_step b (Fails challenge) = reject_challenge b challenge"
| "bridge_step b (Answers c) = (case ct_kind c of
     CaptchaAnswer challenge answer \<Rightarrow> snd (applyAnswer b c challenge answer) | CancelRequest challenge \<Rightarrow> b)"
| "bridge_step b (RejectsJob job) = rejectForJob b job"

definition bridge_run :: "bridge_op list \<Rightarrow> bridge" where
  "bridge_run ops = fold (\<lambda>op b. bridge_step b op) ops empty_bridge"

definition waits_for :: "bridge_op list \<Rightarrow> nat \<Rightarrow> string \<Rightarrow> pending_captcha \<Rightarrow> bool" where
  "waits_for ops w challenge p \<longleftrightarrow> pc_waiter p = w \<and> (\<exists>job. Waits job challenge w False \<in> set ops
     \<and> pc_jobId p = uj_jobId job \<and> pc_accountId p = uj_accountId job \<and> pc_fence p = uj_fence job)"

definition answered_by :: "bridge_op list \<Rightarrow> nat \<Rightarrow> string \<Rightarrow> bool" where
  "answered_by ops w answer \<longleftrightarrow> (\<exists>challenge p c. waits_for ops w challenge p \<and> Answers c \<in> set ops
     \<and> ct_kind c = CaptchaAnswer challenge answer \<and> same_job p c)"

definition bridge_inv :: "bridge_op list \<Rightarrow> bridge \<Rightarrow> bool" where
  "bridge_inv ops b \<longleftrightarrow> distinct (map fst (bg_outcomes b))
     \<and> (\<forall>(challenge, p) \<in> set (bg_pending b). waits_for ops (pc_waiter p) challenge p)
     \<and> (\<forall>(w, x) \<in> set (bg_outcomes b). \<forall>a. x = Answered a \<longrightarrow> answered_by ops w a)"

lemma inv_more: "bridge_inv ops b \<Longrightarrow> bridge_inv (ops @ [op]) b"
  unfolding bridge_inv_def waits_for_def answered_by_def by fastforce

lemma inv_settle:
  assumes "bridge_inv ops b" "\<And>a. x = Answered a \<Longrightarrow> answered_by ops w a"
  shows "bridge_inv ops (settle_waiter w x b)"
  using assms by (auto simp: bridge_inv_def settle_waiter_def)

lemma inv_fewer:
  "bridge_inv ops b \<Longrightarrow> bridge_inv ops (b\<lparr>bg_pending := AList.delete k (bg_pending b), bg_listening := l\<rparr>)"
  by (auto simp: bridge_inv_def AList.delete_eq)

lemma inv_reject: "bridge_inv ops b \<Longrightarrow> bridge_inv ops (reject_challenge b challenge)"
  by (auto simp: reject_challenge_def intro!: inv_settle inv_fewer split: option.split)

lemma inv_reject_all:
  "bridge_inv ops b \<Longrightarrow> bridge_inv ops (fold (\<lambda>(challenge, p) b. if pc_jobId p = job then reject_challenge b challenge else b) ps b)"
  by (induction ps arbitrary: b) (auto simp: inv_reject)

lemma set_update_pair: "(x, y) \<in> set (AList.update k v al) \<Longrightarrow> (x = k \<and> y = v) \<or> (x, y) \<in> set al"
  by (induction al) (auto split: if_splits)

lemma bridge_step_inv:
  assumes inv: "bridge_inv ops b"
  shows "bridge_inv (ops @ [op]) (bridge_step b op)"
proof (cases op)
  case (Waits job challenge w aborted)
  show ?thesis
  proof (cases aborted)
    case True
    then show ?thesis using inv_more [OF inv] by (auto simp: Waits wait_register_def intro: inv_settle)
  next
    case False
    have "waits_for (ops @ [op]) w challenge \<lparr>pc_jobId = uj_jobId job, pc_accountId = uj_accountId job, pc_fence = uj_fence job, pc_waiter = w\<rparr>"
      using False by (auto simp: waits_for_def Waits)
    then show ?thesis using inv_more [OF inv, of op] False
      by (auto simp: Waits wait_register_def bridge_inv_def dest!: set_update_pair)
  qed
next
  case (Aborts w)
  then show ?thesis using inv_more [OF inv]
    by (auto simp: wait_aborts_def intro!: inv_settle inv_fewer split: option.split)
next
  case (Fails challenge)
  then show ?thesis using inv_more [OF inv] by (simp add: inv_reject)
next
  case (Answers c)
  show ?thesis
  proof (cases "ct_kind c")
    case (CaptchaAnswer challenge answer)
    show ?thesis
    proof (cases "map_of (bg_pending b) challenge")
      case None
      then show ?thesis using inv_more [OF inv] by (simp add: Answers CaptchaAnswer applyAnswer_def)
    next
      case (Some p)
      show ?thesis
      proof (cases "same_job p c")
        case True
        have "waits_for ops (pc_waiter p) challenge p" using inv map_of_SomeD [OF Some] by (auto simp: bridge_inv_def)
        then have "answered_by (ops @ [op]) (pc_waiter p) answer"
          using True CaptchaAnswer unfolding answered_by_def waits_for_def by (auto simp: Answers)
        then show ?thesis using inv_more [OF inv] Some True
          by (auto simp: Answers CaptchaAnswer applyAnswer_def intro!: inv_settle inv_fewer)
      next
        case False
        then show ?thesis using inv_more [OF inv] Some by (simp add: Answers CaptchaAnswer applyAnswer_def)
      qed
    qed
  qed (use inv_more [OF inv] in \<open>simp add: Answers\<close>)
next
  case (RejectsJob job)
  then show ?thesis using inv_reject_all [OF inv_more [OF inv]] by (simp add: rejectForJob_def)
qed

lemma bridge_run_inv: "bridge_inv ops (bridge_run ops)"
proof (induction ops rule: rev_induct)
  case Nil
  then show ?case by (simp add: bridge_run_def empty_bridge_def bridge_inv_def)
next
  case (snoc op ops)
  from bridge_step_inv [OF snoc] show ?case by (simp add: bridge_run_def)
qed

text \<open>
  An answer reaches the challenge it is for. In every history of the bridge each waiter is
  told one thing at most; and when a waiter is told an answer, it had registered a challenge of
  its job with a signal not yet aborted, and a control came that named this challenge, this job,
  its account and its fence, and carried this answer.
\<close>

theorem answer_reaches_challenge:
  "distinct (map fst (bg_outcomes (bridge_run ops)))
   \<and> {(w, a). (w, Answered a) \<in> set (bg_outcomes (bridge_run ops))}
     \<subseteq> {(w, a). \<exists>job challenge c. Waits job challenge w False \<in> set ops \<and> Answers c \<in> set ops
          \<and> ct_kind c = CaptchaAnswer challenge a \<and> ct_jobId c = uj_jobId job \<and> ct_accountId c = uj_accountId job \<and> ct_fence c = uj_fence job}"
proof -
  have told: "answered_by ops w a" if "(w, Answered a) \<in> set (bg_outcomes (bridge_run ops))" for w a
    using bridge_run_inv [of ops] that unfolding bridge_inv_def by fastforce
  have "\<exists>job challenge c. Waits job challenge w False \<in> set ops \<and> Answers c \<in> set ops
          \<and> ct_kind c = CaptchaAnswer challenge a \<and> ct_jobId c = uj_jobId job \<and> ct_accountId c = uj_accountId job \<and> ct_fence c = uj_fence job"
    if "answered_by ops w a" for w a
    using that unfolding answered_by_def waits_for_def same_job_def by metis
  with told show ?thesis using bridge_run_inv [of ops] by (auto simp: bridge_inv_def)
qed

section \<open>Controls at a worker\<close>

lemma cancel_active_other: "job \<noteq> j \<Longrightarrow> map_of (ho_active (cancel_active h j reason)) job = map_of (ho_active h) job"
  by (simp add: cancel_active_def map_of_update split: option.split)

lemma cancel_active_own:
  "map_of (ho_active h) j = Some r \<Longrightarrow> map_of (ho_active (cancel_active h j reason)) j = Some (r\<lparr>ar_token := token_cancel reason (ar_token r)\<rparr>)"
  by (simp add: cancel_active_def map_of_update)

definition runs_here :: "host \<Rightarrow> string \<Rightarrow> bool" where
  "runs_here h job \<longleftrightarrow> map_of (ho_active h) job \<noteq> None \<or> (\<exists>(challenge, p) \<in> set (bg_pending (ho_bridge h)). pc_jobId p = job)"

lemma foreign_control: "\<not> runs_here h (ct_jobId c) \<Longrightarrow> applyControl h c = (False, h)"
proof -
  assume n: "\<not> runs_here h (ct_jobId c)"
  have "\<not> same_job p c" if "map_of (bg_pending (ho_bridge h)) challenge = Some p" for challenge p
    using n map_of_SomeD [OF that] by (auto simp: runs_here_def same_job_def)
  moreover have "map_of (ho_active h) (ct_jobId c) = None" using n by (simp add: runs_here_def)
  ultimately show ?thesis
    by (cases "ct_kind c")
      (auto simp: applyControl_def applyAnswer_def matchesChallenge_def control_challenge_def requestFencedCancel_def split: option.split)
qed

text \<open>
  C35. A control that another worker takes is lost. The workers share the group of the control
  stream, so that each control is given to one of them. When it is given to a worker that does
  not run the job, the worker changes nothing, and acknowledges the message: it does not wait
  for any worker of the group any more. A worker that runs the job with the same account and
  fence would have cancelled it.
\<close>

theorem foreign_control_lost:
  assumes "control_of ap cfg msg now = Some c" "\<not> runs_here h (ct_jobId c)"
    "control_process ap cfg now True msg (h, b) = (out, h', b')"
  shows "out = Inr () \<and> h' = h
   \<and> broker_pending b' (wc_controlStream cfg) (wc_controlConsumerGroup cfg)
      = filter (\<lambda>m. sm_id m \<noteq> sm_id msg) (broker_pending b (wc_controlStream cfg) (wc_controlConsumerGroup cfg))
   \<and> (\<forall>h2 r. map_of (ho_active h2) (ct_jobId c) = Some r \<and> ar_accountId r = ct_accountId c \<and> ar_fence r = ct_fence c
        \<and> ct_kind c = CancelRequest None \<longrightarrow>
        map_of (ho_active (snd (applyControl h2 c))) (ct_jobId c) = Some (r\<lparr>ar_token := token_cancel Requested (ar_token r)\<rparr>))"
proof (intro conjI allI impI)
  have p: "control_process ap cfg now True msg (h, b) = (Inr (), h, broker_ack b (wc_controlStream cfg) (wc_controlConsumerGroup cfg) (sm_id msg))"
    using assms(1,2) by (simp add: control_process_def foreign_control Let_def)
  then show "out = Inr ()" "h' = h" using assms(3) by simp_all
  show "broker_pending b' (wc_controlStream cfg) (wc_controlConsumerGroup cfg)
      = filter (\<lambda>m. sm_id m \<noteq> sm_id msg) (broker_pending b (wc_controlStream cfg) (wc_controlConsumerGroup cfg))"
    using p assms(3)
    by (auto simp: broker_pending_def broker_ack_def map_of_update filter_map delivered_def comp_def split: option.split)
next
  fix h2 :: host and r :: active_run
  assume r: "map_of (ho_active h2) (ct_jobId c) = Some r \<and> ar_accountId r = ct_accountId c \<and> ar_fence r = ct_fence c
        \<and> ct_kind c = CancelRequest None"
  then show "map_of (ho_active (snd (applyControl h2 c))) (ct_jobId c) = Some (r\<lparr>ar_token := token_cancel Requested (ar_token r)\<rparr>)"
    by (simp add: applyControl_def requestFencedCancel_def cancel_active_own)
qed

end
