(* ===== verification/AutomationControlScenario.thy ===== *)
theory AutomationControlScenario
  imports AutomationScenario AutomationControlProps
begin

text \<open>A control for the job of the concrete scenario, taken by a worker that runs nothing.\<close>

definition control_message :: stream_message where
  "control_message = \<lparr>sm_id = ''1-0'',
     sm_fields = [(''jobId'', demo_id), (''controlEnvelope'', encodeEnvelope demo_platform demo_header (ap_json demo_platform demo_control @ replicate 16 0))],
     sm_deliveryCount = 1, sm_idleMs = None\<rparr>"

definition cancel_control :: control where
  "cancel_control = \<lparr>ct_jobId = demo_id, ct_accountId = demo_id, ct_fence = 1, ct_kind = CancelRequest None\<rparr>"

lemma demo_control_parsed: "parseAutomationControl demo_control = Some cancel_control"
  by code_simp

lemma control_read: "control_of demo_platform demo_config control_message 500 = Some cancel_control"
proof -
  define aad_text where "aad_text = ''credential:'' @ demo_id"
  have aad: "aadBytes (TextAad aad_text) = Inr (utf8 aad_text)" unfolding aad_text_def by code_simp
  have "json_reads demo_platform demo_control" by (rule demo_reads) (simp add: demo_values_def)
  from demo_opens [OF this _ aad, of 500]
  have "codec_open demo_platform demo_ring (encodeEnvelope demo_platform demo_header (ap_json demo_platform demo_control @ replicate 16 0)) aad_text 500
      = Inr demo_control" by (simp add: demo_control_def)
  moreover have "encodeEnvelope demo_platform demo_header (ap_json demo_platform demo_control @ replicate 16 0) \<noteq> []" by (simp add: encodeEnvelope_def)
  moreover have "ct_jobId cancel_control = demo_id" by (simp add: cancel_control_def)
  ultimately show ?thesis
    unfolding control_of_def control_message_def aad_text_def by (simp add: demo_control_parsed demo_config_def)
qed

lemma foreign_control_lost_witness:
  "fst (snd (control_process demo_platform demo_config 500 True control_message (\<lparr>ho_active = [], ho_bridge = empty_bridge\<rparr>, empty_broker)))
     = \<lparr>ho_active = [], ho_bridge = empty_bridge\<rparr>
   \<and> map_of (ho_active (snd (applyControl \<lparr>ho_active = [(demo_id, \<lparr>ar_accountId = demo_id, ar_fence = 1, ar_token = None\<rparr>)], ho_bridge = empty_bridge\<rparr>
       cancel_control))) demo_id = Some \<lparr>ar_accountId = demo_id, ar_fence = 1, ar_token = Some Requested\<rparr>"
proof -
  let ?h = "\<lparr>ho_active = [], ho_bridge = empty_bridge\<rparr>"
  obtain out h' b' where p: "control_process demo_platform demo_config 500 True control_message (?h, empty_broker) = (out, h', b')"
    using prod_cases3 by blast
  have "\<not> runs_here ?h (ct_jobId cancel_control)" by (simp add: runs_here_def empty_bridge_def)
  note lost = foreign_control_lost [OF control_read this p]
  have "ct_jobId cancel_control = demo_id" "ct_accountId cancel_control = demo_id" "ct_fence cancel_control = 1" "ct_kind cancel_control = CancelRequest None"
    by (simp_all add: cancel_control_def)
  then show ?thesis
    using lost lost [THEN conjunct2, THEN conjunct2, THEN conjunct2, rule_format,
      of "\<lparr>ho_active = [(demo_id, \<lparr>ar_accountId = demo_id, ar_fence = 1, ar_token = None\<rparr>)], ho_bridge = empty_bridge\<rparr>"
        "\<lparr>ar_accountId = demo_id, ar_fence = 1, ar_token = None\<rparr>"]
    by (simp add: p token_cancel_def)
qed

end
