(* ===== verification/AutomationEnqueue.thy ===== *)
theory AutomationEnqueue
  imports AutomationChallenge AutomationProtocolProps
begin

text \<open>
  How the backend enqueues a sign-in, \<open>enqueue\<close> of \<open>apps/worker/src/node/automation/backend.ts\<close>:
  a record under the client's idempotency key, claimed by one request, names the job; the job is
  sealed, stored and added to the stream of the workers. Then: a second request with the same key
  gets the first one's job, whatever its credentials are.
\<close>

section \<open>The store and the request\<close>

record import_request =
  iq_email :: string
  iq_password :: string
  iq_googleCookies :: "jval option"
  iq_expectedStudentCode :: "string option"
  iq_idempotencyKey :: string

text \<open>Redis with the messages added to the stream of jobs.\<close>

record 'r job_store =
  js_redis :: 'r
  js_jobs :: "stream_fields list"

text \<open>
  What one attempt draws and meets: the clock, the random bytes of the identifiers and of the two
  envelopes, what others do to the store before the record is claimed, and whether storing and
  adding the job succeed.
\<close>

record 'r attempt =
  at_now :: int
  at_jobId :: bytes
  at_accountId :: bytes
  at_credentialIv :: bytes
  at_jobIv :: bytes
  at_between :: "'r \<Rightarrow> 'r"
  at_stored :: bool
  at_added :: bool

definition record_value :: "job_record \<Rightarrow> jval" where
  "record_value r = JObj [(''jobId'', JStr (jr_jobId r)), (''accountId'', JStr (jr_accountId r)), (''fence'', JInt (jr_fence r)),
     (''ownershipToken'', JStr (jr_ownershipToken r))]"

text \<open>Of the values the code stores, the fence is an integer.\<close>

definition parseJobRecord :: "challenge_env \<Rightarrow> string \<Rightarrow> hyeboard_error + job_record" where
  "parseJobRecord env s = (case ce_parse env s of
     None \<Rightarrow> Inl automationUnavailable
   | Some v \<Rightarrow> if \<not> asRecord v \<or> \<not> matches (\<lambda>s. True) (prop_of ''jobId'' v) \<or> \<not> matches (\<lambda>s. True) (prop_of ''accountId'' v)
         \<or> \<not> is_number (prop_of ''fence'' v) \<or> \<not> matches (\<lambda>s. True) (prop_of ''ownershipToken'' v) then Inl automationUnavailable
       else Inr \<lparr>jr_jobId = text_of_value (prop_of ''jobId'' v), jr_accountId = text_of_value (prop_of ''accountId'' v),
         jr_fence = int_of_value (prop_of ''fence'' v), jr_ownershipToken = text_of_value (prop_of ''ownershipToken'' v)\<rparr>)"

definition idempotency_key :: "challenge_env \<Rightarrow> import_request \<Rightarrow> string" where
  "idempotency_key env q = redisKey env ''idempotency'' (hmac_hex (ce_core env) (ce_secret env) (iq_idempotencyKey q))"

definition credential_value :: "import_request \<Rightarrow> jval" where
  "credential_value q = JObj ([(''uetGoogleEmail'', JStr (iq_email q)), (''uetGooglePassword'', JStr (iq_password q))]
     @ (case iq_googleCookies q of None \<Rightarrow> [] | Some cs \<Rightarrow> [(''uetGoogleCookies'', cs)]))"

definition of_proto :: "protocol_error + 'a \<Rightarrow> consume_error + 'a" where
  "of_proto r = (case r of Inl e \<Rightarrow> Inl (ProtocolFailure e) | Inr x \<Rightarrow> Inr x)"

text \<open>The job that the record of an earlier request names.\<close>

definition existing_job ::
  "automation_platform \<Rightarrow> 'r redis_client \<Rightarrow> challenge_env \<Rightarrow> 'r \<Rightarrow> int \<Rightarrow> string \<Rightarrow> consume_error + uet_job \<times> job_record" where
  "existing_job ap rd env r now existing = (case parseJobRecord env existing of
     Inl e \<Rightarrow> Inl (AppError e)
   | Inr rec \<Rightarrow> (case rd_get rd r now (redisKey env ''job'' (jr_jobId rec)) of
       None \<Rightarrow> Inl (AppError automationUnavailable)
     | Some envelope \<Rightarrow> if envelope = [] then Inl (AppError automationUnavailable)
         else sbind (of_proto (decryptEnvelope ap envelope (bc_keyring (ce_config env)) (TextAad (bc_jobEnvelopeAad (ce_config env))) now)) (\<lambda>v.
              sbind (of_proto (parseUetImportJob v now)) (\<lambda>job. Inr (job, rec)))))"

text \<open>A new record, its job and the job's envelope.\<close>

definition new_record :: "challenge_env \<Rightarrow> string \<Rightarrow> string \<Rightarrow> job_record" where
  "new_record env jobId accountId = (let r = \<lparr>jr_jobId = jobId, jr_accountId = accountId, jr_fence = 1, jr_ownershipToken = []\<rparr> in
     r\<lparr>jr_ownershipToken := capability (ce_core env) (ce_secret env) JobCapability r None\<rparr>)"

definition new_job ::
  "automation_platform \<Rightarrow> challenge_env \<Rightarrow> import_request \<Rightarrow> 'r attempt \<Rightarrow> protocol_error + job_record \<times> uet_job \<times> string" where
  "new_job ap env q a = (let cfg = ce_config env; issuedAt = toISOString (at_now a); expiresAt = toISOString (at_now a + bc_deadlineMs cfg) in
     sbind (createOpaqueId (at_jobId a)) (\<lambda>jobId.
     sbind (createOpaqueId (at_accountId a)) (\<lambda>accountId.
     sbind (encryptEnvelope ap (credential_value q) (bc_keyring cfg) (TextAad (bc_credentialEnvelopeAadPrefix cfg @ jobId)) issuedAt expiresAt
       (at_credentialIv a)) (\<lambda>credentialEnvelope.
     let job = \<lparr>uj_jobId = jobId, uj_accountId = accountId, uj_fence = 1, uj_issuedAt = issuedAt, uj_expiresAt = expiresAt,
       uj_credentialEnvelope = credentialEnvelope, uj_expectedStudentCode = iq_expectedStudentCode q\<rparr> in
     sbind (createUetImportJob job) (\<lambda>v.
     sbind (encryptEnvelope ap v (bc_keyring cfg) (TextAad (bc_jobEnvelopeAad cfg)) issuedAt expiresAt (at_jobIv a)) (\<lambda>envelope.
     Inr (new_record env jobId accountId, job, envelope)))))))"

text \<open>
  A failure to store or add the job forgets the record, as far as Redis allows. The attempts are
  those that a request makes while others claim its key first; \<open>None\<close> when they are used up.
\<close>

fun enqueue ::
  "automation_platform \<Rightarrow> 'r redis_client \<Rightarrow> ('r \<Rightarrow> string \<Rightarrow> 'r) \<Rightarrow> challenge_env \<Rightarrow> import_request \<Rightarrow> 'r attempt list \<Rightarrow> 'r job_store \<Rightarrow>
   (consume_error + uet_job \<times> job_record) option \<times> 'r job_store" where
  "enqueue ap rd del env q [] st = (None, st)"
| "enqueue ap rd del env q (a # more_attempts) st = (let k = idempotency_key env q; ttl = bc_idempotencyTtlMs (ce_config env) in
     case rd_get rd (js_redis st) (at_now a) k of
       Some (c # cs) \<Rightarrow> (Some (existing_job ap rd env (js_redis st) (at_now a) (c # cs)), st)
     | _ \<Rightarrow> (case new_job ap env q a of
         Inl e \<Rightarrow> (Some (Inl (ProtocolFailure e)), st)
       | Inr (rec, job, envelope) \<Rightarrow>
          (case set_nx rd (at_between a (js_redis st)) (at_now a) k (ce_text env (record_value rec)) ttl of
             (False, r1) \<Rightarrow> enqueue ap rd del env q more_attempts (st\<lparr>js_redis := r1\<rparr>)
           | (True, r1) \<Rightarrow>
              (let r2 = if at_stored a then rd_set rd r1 (at_now a) (redisKey env ''job'' (jr_jobId rec)) envelope ttl else r1 in
               if at_stored a \<and> at_added a
               then (Some (Inr (job, rec)), st\<lparr>js_redis := r2, js_jobs := js_jobs st @ [[(''jobEnvelope'', envelope)]]\<rparr>)
               else (Some (Inl OtherFailure), st\<lparr>js_redis := del r2 k\<rparr>)))))"

section \<open>One job for one key\<close>

lemma job_ok_job: "createUetImportJob job = Inr v \<Longrightarrow> v = job_value job \<and> job_ok job"
  by (auto simp: createUetImportJob_def sbind_Inr_iff assert_job_value)

lemma record_reads:
  assumes "ce_parse env (ce_text env (record_value r)) = Some (record_value r)"
  shows "parseJobRecord env (ce_text env (record_value r)) = Inr r"
  using assms by (simp add: parseJobRecord_def record_value_def)

lemma key_kinds:
  assumes "k \<noteq> k'" "k \<in> {''idempotency'', ''job''}" "k' \<in> {''idempotency'', ''job''}"
  shows "redisKey env k v \<noteq> redisKey env k' v'"
proof
  assume "redisKey env k v = redisKey env k' v'"
  then have "last (redisKey env k v) = last (redisKey env k' v')" by simp
  then show False using assms by (auto simp: redisKey_def)
qed

text \<open>The platform reads back what it wrote of a job under the settings of the backend.\<close>

definition job_platform :: "automation_platform \<Rightarrow> challenge_env \<Rightarrow> bool" where
  "job_platform ap env \<longleftrightarrow> aes_opens ap \<and> (\<exists>k bs. kr_current (bc_keyring (ce_config env)) = Some k \<and> ak_material k = RawMaterial bs)"

lemma new_job_opens:
  assumes "new_job ap env q a = Inr (rec, job, envelope)" "job_platform ap env" "json_reads ap (job_value job)"
    "header_reads ap (sealed_header (bc_keyring (ce_config env)) (uj_issuedAt job) (uj_expiresAt job) (at_jobIv a))"
    "canonicalIsoDate (JStr (uj_expiresAt job)) = Some t" "now < t"
  shows "decryptEnvelope ap envelope (bc_keyring (ce_config env)) (TextAad (bc_jobEnvelopeAad (ce_config env))) now = Inr (job_value job)"
    "job_ok job" "envelope \<noteq> []" "jr_jobId rec = uj_jobId job"
proof -
  from assms(1) have j: "createUetImportJob job = Inr (job_value job)" "jr_jobId rec = uj_jobId job"
    "encryptEnvelope ap (job_value job) (bc_keyring (ce_config env)) (TextAad (bc_jobEnvelopeAad (ce_config env)))
       (uj_issuedAt job) (uj_expiresAt job) (at_jobIv a) = Inr envelope"
    by (auto simp: new_job_def sbind_Inr_iff Let_def new_record_def dest: job_ok_job)
  from assms(2) obtain k bs where k: "aes_opens ap" "kr_current (bc_keyring (ce_config env)) = Some k" "ak_material k = RawMaterial bs"
    by (auto simp: job_platform_def)
  show "decryptEnvelope ap envelope (bc_keyring (ce_config env)) (TextAad (bc_jobEnvelopeAad (ce_config env))) now = Inr (job_value job)"
    by (rule sealed_decrypts [OF j(3) k(1) assms(3,4,5,6) k(2,3)])
  show "job_ok job" using job_ok_job [OF j(1)] by simp
  show "envelope \<noteq> []" using j(3) by (rule encrypt_steps) (simp add: encodeEnvelope_def)
  show "jr_jobId rec = uj_jobId job" by (rule j(2))
qed

text \<open>
  C34. A request with a key that was used gets the job of the first request. Once a request has
  enqueued its job, any request with the same idempotency key gets the same job with the same
  ownership token while the record and the job last, and adds nothing to the stream. The
  credentials of the second request play no part: with others' credentials, or none that are
  right, it is given the job, and with it the session, of the first.
\<close>

theorem idempotency_ignores_credentials:
  assumes first: "enqueue ap rd del env q (a # as) st = (Some (Inr (job, rec)), st1)"
      "rd_get rd (js_redis st) (at_now a) (idempotency_key env q) = None" "at_between a = id"
    and laws: "redis_laws rd" "job_platform ap env" "json_reads ap (job_value job)"
      "header_reads ap (sealed_header (bc_keyring (ce_config env)) (uj_issuedAt job) (uj_expiresAt job) (at_jobIv a))"
      "ce_parse env (ce_text env (record_value rec)) = Some (record_value rec)" "ce_text env (record_value rec) \<noteq> []"
    and later: "iq_idempotencyKey q2 = iq_idempotencyKey q" "at_now a \<le> at_now a2" "at_now a2 < at_now a + bc_idempotencyTtlMs (ce_config env)"
      "canonicalIsoDate (JStr (uj_expiresAt job)) = Some t" "at_now a2 < t"
  shows "enqueue ap rd del env q2 (a2 # as2) st1 = (Some (Inr (job, rec)), st1)"
proof -
  let ?k = "idempotency_key env q" and ?ttl = "bc_idempotencyTtlMs (ce_config env)"
  have k2: "idempotency_key env q2 = ?k" using later(1) by (simp add: idempotency_key_def)
  from first obtain envelope where n: "new_job ap env q a = Inr (rec, job, envelope)"
    and st1: "js_redis st1 = rd_set rd (rd_set rd (js_redis st) (at_now a) ?k (ce_text env (record_value rec)) ?ttl) (at_now a)
        (redisKey env ''job'' (jr_jobId rec)) envelope ?ttl"
    by (auto simp: set_nx_def Let_def split: sum.splits if_splits prod.splits)
  note opens = new_job_opens [OF n laws(2-4) later(4,5)]
  have kinds: "redisKey env ''job'' (jr_jobId rec) \<noteq> ?k" unfolding idempotency_key_def by (rule key_kinds) simp_all
  have get: "rd_get rd (js_redis st1) (at_now a2) ?k = Some (ce_text env (record_value rec))"
    "rd_get rd (js_redis st1) (at_now a2) (redisKey env ''job'' (jr_jobId rec)) = Some envelope"
    using laws(1) later(2,3) kinds unfolding st1 redis_laws_def by simp_all
  have "parseUetImportJob (job_value job) (at_now a2) = Inr job"
    using opens(2) later(4,5) by (simp add: parseUetImportJob_def assert_job_value sbind_Inr_iff assert_not_expired del: canonicalIsoDate.simps)
  then have "existing_job ap rd env (js_redis st1) (at_now a2) (ce_text env (record_value rec)) = Inr (job, rec)"
    using opens(1,3) get(2) record_reads [OF laws(5)] by (simp add: existing_job_def of_proto_def)
  moreover obtain c cs where "ce_text env (record_value rec) = c # cs" using laws(6) by (cases "ce_text env (record_value rec)") auto
  ultimately show ?thesis using get(1) by (simp add: k2 Let_def)
qed

end
