(* ===== verification/AutomationEnqueueScenario.thy ===== *)
theory AutomationEnqueueScenario
  imports AutomationEnqueue AutomationBackendScenario AutomationChallengeProps
begin

text \<open>Two requests with one key: the second, with another's password, gets the first one's job.\<close>

definition first_record :: job_record where
  "first_record = new_record race_env demo_id demo_id"

definition key_env :: challenge_env where
  "key_env = race_env\<lparr>ce_text := (\<lambda>v. ''r''), ce_parse := (\<lambda>s. Some (record_value first_record)), ce_config := demo_backend\<rparr>"

definition first_request :: import_request where
  "first_request = \<lparr>iq_email = ''a@b'', iq_password = ''pw'', iq_googleCookies = None, iq_expectedStudentCode = None, iq_idempotencyKey = ''key''\<rparr>"

definition other_request :: import_request where
  "other_request = \<lparr>iq_email = ''c@d'', iq_password = ''wrong'', iq_googleCookies = None, iq_expectedStudentCode = None, iq_idempotencyKey = ''key''\<rparr>"

definition attempt_at :: "int \<Rightarrow> table_store attempt" where
  "attempt_at t = \<lparr>at_now = t, at_jobId = replicate 16 0, at_accountId = replicate 16 0, at_credentialIv = replicate 12 0,
     at_jobIv = replicate 12 0, at_between = id, at_stored = True, at_added = True\<rparr>"

definition empty_jobs :: "table_store job_store" where
  "empty_jobs = \<lparr>js_redis = [], js_jobs = []\<rparr>"

lemma attempt_sel [simp]: "at_now (attempt_at t) = t" "at_jobId (attempt_at t) = replicate 16 0" "at_accountId (attempt_at t) = replicate 16 0"
  "at_credentialIv (attempt_at t) = replicate 12 0" "at_jobIv (attempt_at t) = replicate 12 0" "at_between (attempt_at t) = id"
  "at_stored (attempt_at t)" "at_added (attempt_at t)"
  by (simp_all add: attempt_at_def)

lemma demo_id_created: "createOpaqueId (replicate 16 0) = Inr demo_id"
  by code_simp

lemma key_env_sel [simp]: "ce_config key_env = demo_backend" "ce_text key_env v = ''r''" "ce_parse key_env s = Some (record_value first_record)"
  by (simp_all add: key_env_def)

lemma demo_backend_sel [simp]: "bc_keyring demo_backend = demo_ring" "bc_jobEnvelopeAad demo_backend = ''job''"
  "bc_credentialEnvelopeAadPrefix demo_backend = ''credential:''" "bc_deadlineMs demo_backend = 60000" "bc_idempotencyTtlMs demo_backend = 300000"
  by (simp_all add: demo_backend_def)

lemma key_record: "new_record key_env demo_id demo_id = first_record"
  by (simp add: new_record_def first_record_def key_env_def)

lemma first_job: "new_job demo_platform key_env first_request (attempt_at 0) = Inr (first_record, demo_job, ''aep1.AA.AgAAAAAAAAAAAAAAAAAAAAA'')"
proof -
  define aad_text where "aad_text = ''credential:'' @ demo_id"
  have aad: "aadBytes (TextAad aad_text) = Inr (utf8 aad_text)" unfolding aad_text_def by code_simp
  have job_aad: "aadBytes (TextAad ''job'') = Inr (utf8 ''job'')" by code_simp
  have "credential_value first_request = demo_credential" by (simp add: credential_value_def first_request_def demo_credential_def)
  moreover have "demo_credential \<noteq> JUndefined" "job_value demo_job \<noteq> JUndefined" by (simp_all add: demo_credential_def job_value_def)
  moreover have "\<lparr>uj_jobId = demo_id, uj_accountId = demo_id, uj_fence = 1, uj_issuedAt = toISOString 0, uj_expiresAt = toISOString 60000,
      uj_credentialEnvelope = uj_credentialEnvelope demo_job, uj_expectedStudentCode = iq_expectedStudentCode first_request\<rparr> = demo_job"
    by (simp add: demo_job_def first_request_def)
  moreover have "createUetImportJob demo_job = Inr (job_value demo_job)"
  proof -
    have "assertUetImportJob (job_value demo_job) = Inr demo_job" using demo_job_ok by (simp add: assert_job_value)
    then show ?thesis by (simp add: createUetImportJob_def)
  qed
  ultimately show ?thesis
    unfolding new_job_def Let_def key_env_sel demo_backend_sel attempt_sel demo_id_created sbind_simps aad_text_def [symmetric]
    by (simp add: demo_sealed [OF _ aad] demo_sealed [OF _ job_aad] demo_tokens key_record)
qed

lemma idempotency_ignores_credentials_witness:
  "\<exists>st. enqueue demo_platform table_client (\<lambda>r k. r) key_env first_request [attempt_at 0] empty_jobs = (Some (Inr (demo_job, first_record)), st)
   \<and> enqueue demo_platform table_client (\<lambda>r k. r) key_env other_request [attempt_at 1000] st = (Some (Inr (demo_job, first_record)), st)"
proof -
  have none: "rd_get table_client (js_redis empty_jobs) (at_now (attempt_at 0)) (idempotency_key key_env first_request) = None"
    by (simp add: table_client_def empty_jobs_def)
  have set: "set_nx table_client [] 0 k v ttl = (True, rd_set table_client [] 0 k v ttl)" for k v ttl
    by (simp add: set_nx_def table_client_def)
  have "fst (enqueue demo_platform table_client (\<lambda>r k. r) key_env first_request [attempt_at 0] empty_jobs) = Some (Inr (demo_job, first_record))"
    using none by (simp add: first_job set empty_jobs_def Let_def)
  then obtain st where st: "enqueue demo_platform table_client (\<lambda>r k. r) key_env first_request [attempt_at 0] empty_jobs
      = (Some (Inr (demo_job, first_record)), st)"
    by (metis prod.collapse)
  have platform: "job_platform demo_platform key_env" using demo_aes by (simp add: job_platform_def demo_ring_def demo_key_def)
  have header: "header_reads demo_platform (sealed_header (bc_keyring (ce_config key_env)) (uj_issuedAt demo_job) (uj_expiresAt demo_job) (at_jobIv (attempt_at 0)))"
    using demo_header_reads(1) by (simp add: demo_header_def demo_job_def)
  have "canonicalIsoDate (JStr (uj_expiresAt demo_job)) = Some 60000"
    using job_deadline_date [OF demo_job_ok] by (simp add: demo_deadline)
  with idempotency_ignores_credentials [OF st none _ table_client_laws platform demo_job_reads header, of other_request "attempt_at 1000" 60000 "[]"] st
  have "enqueue demo_platform table_client (\<lambda>r k. r) key_env other_request [attempt_at 1000] st = (Some (Inr (demo_job, first_record)), st)"
    by (simp add: first_request_def other_request_def)
  with st show ?thesis by blast
qed

end
