(* ===== verification/PostgresRefresh.thy ===== *)
theory PostgresRefresh
  imports RefreshSpec JsText
begin

text \<open>
  The refresh authority of a distributed deployment,
  \<open>apps/worker/src/node/postgres/vnu-refresh-coordinator.ts\<close>, on the transactions of
  \<open>node/postgres/pool.ts\<close> and the tables of \<open>apps/worker/migrations\<close>: the transitions are those
  of the durable object, the state is one row per principal and one row per tombstone. A column
  is what an \<open>INSERT\<close> stores; a \<open>SELECT\<close> returns a \<open>bigint\<close> as its decimal text, an \<open>integer\<close> as
  a number, and the rows of a table in an order of its own, a parameter here.
\<close>

section \<open>Transactions\<close>

text \<open>
  What goes wrong in a transaction: no connection, \<open>BEGIN\<close> or a query of the body fails, or
  \<open>COMMIT\<close> fails, with the transaction applied or not. \<open>rollback\<close> tells whether a \<open>ROLLBACK\<close>
  would be answered. The connection is returned to the pool or destroyed.
\<close>

datatype pg_fault = Healthy | NoConnection | BeginFails | QueryFails | CommitFails bool

datatype connection_end = NeverOpened | Reused | Destroyed

datatype 'e tx_error = BodyThrew 'e | DatabaseFailed

definition pg_transaction ::
  "pg_fault \<Rightarrow> bool \<Rightarrow> ('s \<Rightarrow> 'e + 'a \<times> 's) \<Rightarrow> 's \<Rightarrow> ('e tx_error + 'a) \<times> 's \<times> connection_end" where
  "pg_transaction fault rollback body db = (
     if fault = NoConnection then (Inl DatabaseFailed, db, NeverOpened)
     else if fault = BeginFails then (Inl DatabaseFailed, db, Destroyed)
     else let closed = (if rollback then Reused else Destroyed) in
       if fault = QueryFails then (Inl DatabaseFailed, db, closed)
       else (case body db of
           Inl e \<Rightarrow> (Inl (BodyThrew e), db, closed)
         | Inr (x, db') \<Rightarrow> (case fault of
             CommitFails applied \<Rightarrow> (Inl DatabaseFailed, if applied then db' else db, Destroyed)
           | _ \<Rightarrow> (Inr x, db', Reused))))"

section \<open>Rows\<close>

record principal_row =
  pr_accessTokenId :: "string option"
  pr_accessExpiresAt :: "int option"
  pr_grantId :: "string option"
  pr_grantExpiresAt :: "int option"
  pr_leaseExpiresAt :: "int option"
  pr_attemptCount :: int
  pr_windowResetAt :: int
  pr_activationCount :: "int option"
  pr_activationResetAt :: "int option"

record tombstone_row =
  tr_kind :: string
  tr_id :: string
  tr_expiresAt :: int
  tr_linkedAccess :: "string option"
  tr_linkedAccessExpiresAt :: "int option"
  tr_linkedGrantExpiresAt :: "int option"
  tr_successorAccess :: "string option"
  tr_successorAccessExpiresAt :: "int option"
  tr_successorGrant :: "string option"
  tr_successorGrantExpiresAt :: "int option"

record pg_tables =
  pg_principals :: "string \<Rightarrow> principal_row option"
  pg_tombstones :: "string \<Rightarrow> tombstone_row list"

definition empty_tables_pg :: pg_tables where
  "empty_tables_pg = \<lparr>pg_principals = (\<lambda>_. None), pg_tombstones = (\<lambda>_. [])\<rparr>"

text \<open>What a query returns for a column.\<close>

definition text_column :: "string option \<Rightarrow> jval" where
  "text_column c = (case c of None \<Rightarrow> JNull | Some s \<Rightarrow> JStr s)"

definition bigint_text :: "int \<Rightarrow> string" where
  "bigint_text n = (if n < 0 then CHR ''-'' # nat_string (- n) else nat_string n)"

definition bigint_column :: "int option \<Rightarrow> jval" where
  "bigint_column c = (case c of None \<Rightarrow> JNull | Some n \<Rightarrow> JStr (bigint_text n))"

definition integer_column :: "int option \<Rightarrow> jval" where
  "integer_column c = (case c of None \<Rightarrow> JNull | Some n \<Rightarrow> JInt n)"

datatype pg_error =
    InvalidColumn
  | InvalidAuthorityRow
  | InvalidGrantTombstone
  | InvalidSuccessorTombstone
  | LegacyTombstone
  | CheckViolated
  | Refused refresh_error

text \<open>\<open>typeof value === "number" ? value : Number(value)\<close>, on the text of an integer.\<close>

fun column_number :: "jval \<Rightarrow> int option" where
  "column_number (JInt n) = Some n"
| "column_number (JStr (CHR ''-'' # s)) = (if s \<noteq> [] \<and> all_digits s then Some (- number_of s) else None)"
| "column_number (JStr s) = (if s \<noteq> [] \<and> all_digits s then Some (number_of s) else None)"
| "column_number _ = None"

definition epoch :: "jval \<Rightarrow> pg_error + int" where
  "epoch v = (case column_number v of
     None \<Rightarrow> Inl InvalidColumn
   | Some n \<Rightarrow> if \<not> safe_integer n \<or> n \<le> 0 then Inl InvalidColumn else Inr n)"

definition column_count :: "jval \<Rightarrow> pg_error + int" where
  "column_count v = (case column_number v of
     None \<Rightarrow> Inl InvalidColumn
   | Some n \<Rightarrow> if \<not> safe_integer n \<or> n < 0 then Inl InvalidColumn else Inr n)"

section \<open>Reading the state\<close>

text \<open>The object \<open>{ accessTokenId, accessExpiresAt, grantId, grantExpiresAt }\<close> of four columns.\<close>

definition pair_of_columns :: "jval \<Rightarrow> jval \<Rightarrow> jval \<Rightarrow> jval \<Rightarrow> pg_error + jval" where
  "pair_of_columns a ae g ge =
     sbind (epoch ae) (\<lambda>ae'. sbind (epoch ge) (\<lambda>ge'.
       Inr (JObj [(''accessTokenId'', a), (''accessExpiresAt'', JInt ae'), (''grantId'', g), (''grantExpiresAt'', JInt ge')])))"

definition pairFromPrincipal :: "principal_row \<Rightarrow> pg_error + jval option" where
  "pairFromPrincipal row = (let
     a = text_column (pr_accessTokenId row); ae = bigint_column (pr_accessExpiresAt row);
     g = text_column (pr_grantId row); ge = bigint_column (pr_grantExpiresAt row) in
     if list_all (\<lambda>v. v = JNull) [a, ae, g, ge] then Inr None
     else if list_ex (\<lambda>v. v = JNull) [a, ae, g, ge] then Inl InvalidAuthorityRow
     else sbind (pair_of_columns a ae g ge) (\<lambda>p. Inr (Some p)))"

definition successor_columns :: "tombstone_row \<Rightarrow> jval list" where
  "successor_columns t = [text_column (tr_successorAccess t), bigint_column (tr_successorAccessExpiresAt t),
     text_column (tr_successorGrant t), bigint_column (tr_successorGrantExpiresAt t)]"

definition grant_of_row :: "tombstone_row \<Rightarrow> pg_error + jval" where
  "grant_of_row t = (let
     a = text_column (tr_linkedAccess t); ae = bigint_column (tr_linkedAccessExpiresAt t);
     ge = bigint_column (tr_linkedGrantExpiresAt t); ss = successor_columns t in
     if a = JNull \<or> ae = JNull \<or> ge = JNull then Inl InvalidGrantTombstone
     else if list_ex (\<lambda>v. v = JNull) ss \<and> list_ex (\<lambda>v. v \<noteq> JNull) ss then Inl InvalidSuccessorTombstone
     else sbind (epoch ae) (\<lambda>ae'. sbind (epoch ge) (\<lambda>ge'.
       sbind (if list_all (\<lambda>v. v \<noteq> JNull) ss
              then sbind (pair_of_columns (ss ! 0) (ss ! 1) (ss ! 2) (ss ! 3)) (\<lambda>p. Inr [(''refreshSuccessor'', p)])
              else Inr []) (\<lambda>successor.
         Inr (JObj ([(''accessTokenId'', a), (''accessExpiresAt'', JInt ae'), (''grantExpiresAt'', JInt ge')] @ successor))))))"

text \<open>The two objects the loop over the tombstones fills.\<close>

fun load_tombstones ::
  "tombstone_row list \<Rightarrow> (string \<times> jval) list \<Rightarrow> (string \<times> jval) list \<Rightarrow>
   pg_error + (string \<times> jval) list \<times> (string \<times> jval) list" where
  "load_tombstones [] ra rg = Inr (ra, rg)"
| "load_tombstones (t # ts) ra rg = (
     if tr_kind t = ''access''
     then sbind (epoch (bigint_column (Some (tr_expiresAt t)))) (\<lambda>e. load_tombstones ts (AList.update (tr_id t) (JInt e) ra) rg)
     else sbind (grant_of_row t) (\<lambda>g. load_tombstones ts ra (AList.update (tr_id t) g rg)))"

definition opt_field :: "string \<Rightarrow> jval option \<Rightarrow> (string \<times> jval) list" where
  "opt_field k v = (case v of None \<Rightarrow> [] | Some x \<Rightarrow> [(k, x)])"

definition window_value :: "int \<Rightarrow> int \<Rightarrow> jval" where
  "window_value n r = JObj [(''count'', JInt n), (''resetAt'', JInt r)]"

definition lease_of_row :: "jval option \<Rightarrow> principal_row \<Rightarrow> pg_error + jval option" where
  "lease_of_row act row = (case pr_leaseExpiresAt row of
     None \<Rightarrow> Inr None
   | Some e \<Rightarrow> sbind (epoch (bigint_column (Some e))) (\<lambda>e'.
       Inr (Some (JObj [(''pair'', case act of None \<Rightarrow> JUndefined | Some p \<Rightarrow> p), (''expiresAt'', JInt e')]))))"

definition activation_of_row :: "principal_row \<Rightarrow> pg_error + jval option" where
  "activation_of_row row = (
     if integer_column (pr_activationCount row) = JNull \<or> bigint_column (pr_activationResetAt row) = JNull then Inr None
     else sbind (column_count (integer_column (pr_activationCount row))) (\<lambda>m.
       sbind (epoch (bigint_column (pr_activationResetAt row))) (\<lambda>q. Inr (Some (window_value m q)))))"

definition loadState ::
  "(tombstone_row list \<Rightarrow> tombstone_row list) \<Rightarrow> pg_tables \<Rightarrow> string \<Rightarrow> pg_error + refresh_state option" where
  "loadState arrange db principalKey = (case pg_principals db principalKey of
     None \<Rightarrow> Inr None
   | Some row \<Rightarrow>
       sbind (pairFromPrincipal row) (\<lambda>act.
       sbind (load_tombstones (arrange (pg_tombstones db principalKey)) [] []) (\<lambda>(ra, rg).
       sbind (lease_of_row act row) (\<lambda>lea.
       sbind (column_count (integer_column (Some (pr_attemptCount row)))) (\<lambda>n.
       sbind (epoch (bigint_column (Some (pr_windowResetAt row)))) (\<lambda>r.
       sbind (activation_of_row row) (\<lambda>aw.
       (case parseVnuRefreshControlState (JObj (opt_field ''active'' act @ opt_field ''lease'' lea @
            [(''revokedAccess'', JObj ra), (''revokedGrants'', JObj rg), (''window'', window_value n r)] @
            opt_field ''activationWindow'' aw)) of
          Inl e \<Rightarrow> Inl (Refused e)
        | Inr s \<Rightarrow> Inr s))))))))"

section \<open>Writing the state\<close>

text \<open>The row an upsert writes, and the checks of the table.\<close>

definition principal_columns :: "refresh_state \<Rightarrow> principal_row" where
  "principal_columns s = \<lparr>
     pr_accessTokenId = map_option accessTokenId (active s),
     pr_accessExpiresAt = map_option accessExpiresAt (active s),
     pr_grantId = map_option grantId (active s),
     pr_grantExpiresAt = map_option grantExpiresAt (active s),
     pr_leaseExpiresAt = map_option lease_expiresAt (lease s),
     pr_attemptCount = win_count (window s),
     pr_windowResetAt = win_resetAt (window s),
     pr_activationCount = map_option win_count (activationWindow s),
     pr_activationResetAt = map_option win_resetAt (activationWindow s)\<rparr>"

definition pair_shape :: "string option \<Rightarrow> int option \<Rightarrow> string option \<Rightarrow> int option \<Rightarrow> bool" where
  "pair_shape a ae g ge \<longleftrightarrow> a = None \<and> ae = None \<and> g = None \<and> ge = None \<or>
     (case (a, ae, g, ge) of
        (Some a', Some ae', Some g', Some ge') \<Rightarrow> token22 a' \<and> 0 < ae' \<and> token22 g' \<and> 0 < ge'
      | _ \<Rightarrow> False)"

definition principal_checks :: "string \<Rightarrow> principal_row \<Rightarrow> bool" where
  "principal_checks k row \<longleftrightarrow> hex_n 64 k
     \<and> pair_shape (pr_accessTokenId row) (pr_accessExpiresAt row) (pr_grantId row) (pr_grantExpiresAt row)
     \<and> (case pr_leaseExpiresAt row of None \<Rightarrow> True | Some e \<Rightarrow> 0 < e \<and> pr_accessTokenId row \<noteq> None)
     \<and> 0 \<le> pr_attemptCount row \<and> pr_attemptCount row \<le> 5 \<and> 0 < pr_windowResetAt row
     \<and> (case (pr_activationCount row, pr_activationResetAt row) of
          (None, None) \<Rightarrow> True
        | (Some n, Some r) \<Rightarrow> 1 \<le> n \<and> n \<le> 5 \<and> 0 < r
        | _ \<Rightarrow> False)"

definition access_row :: "string \<times> int \<Rightarrow> tombstone_row" where
  "access_row ke = \<lparr>tr_kind = ''access'', tr_id = fst ke, tr_expiresAt = snd ke, tr_linkedAccess = None,
     tr_linkedAccessExpiresAt = None, tr_linkedGrantExpiresAt = None, tr_successorAccess = None,
     tr_successorAccessExpiresAt = None, tr_successorGrant = None, tr_successorGrantExpiresAt = None\<rparr>"

fun grant_row :: "string \<times> tombstone \<Rightarrow> pg_error + tombstone_row" where
  "grant_row (k, Expiry e) = Inl LegacyTombstone"
| "grant_row (k, Linked a ae ge successor) = Inr \<lparr>tr_kind = ''grant'', tr_id = k, tr_expiresAt = ge,
     tr_linkedAccess = Some a, tr_linkedAccessExpiresAt = Some ae, tr_linkedGrantExpiresAt = Some ge,
     tr_successorAccess = map_option accessTokenId successor,
     tr_successorAccessExpiresAt = map_option accessExpiresAt successor,
     tr_successorGrant = map_option grantId successor,
     tr_successorGrantExpiresAt = map_option grantExpiresAt successor\<rparr>"

definition tombstone_checks :: "tombstone_row \<Rightarrow> bool" where
  "tombstone_checks t \<longleftrightarrow> token22 (tr_id t) \<and> 0 < tr_expiresAt t
     \<and> pair_shape (tr_successorAccess t) (tr_successorAccessExpiresAt t) (tr_successorGrant t) (tr_successorGrantExpiresAt t)
     \<and> (tr_kind t = ''access'' \<and> tr_linkedAccess t = None \<and> tr_linkedAccessExpiresAt t = None
           \<and> tr_linkedGrantExpiresAt t = None \<and> tr_successorAccess t = None
        \<or> tr_kind t = ''grant'' \<and> (case (tr_linkedAccess t, tr_linkedAccessExpiresAt t, tr_linkedGrantExpiresAt t) of
             (Some a, Some ae, Some ge) \<Rightarrow> token22 a \<and> 0 < ae \<and> 0 < ge
           | _ \<Rightarrow> False))"

text \<open>An \<open>INSERT\<close> of a tombstone fails on a check or on the primary key.\<close>

definition insert_tombstone :: "tombstone_row \<Rightarrow> tombstone_row list \<Rightarrow> pg_error + tombstone_row list" where
  "insert_tombstone t ts = (
     if \<not> tombstone_checks t \<or> (tr_kind t, tr_id t) \<in> set (map (\<lambda>u. (tr_kind u, tr_id u)) ts)
     then Inl CheckViolated else Inr (ts @ [t]))"

fun insert_all :: "('a \<Rightarrow> pg_error + tombstone_row) \<Rightarrow> 'a list \<Rightarrow> tombstone_row list \<Rightarrow> pg_error + tombstone_row list" where
  "insert_all f [] ts = Inr ts"
| "insert_all f (x # xs) ts = sbind (f x) (\<lambda>t. sbind (insert_tombstone t ts) (insert_all f xs))"

definition saveState :: "string \<Rightarrow> refresh_state \<Rightarrow> pg_tables \<Rightarrow> pg_error + pg_tables" where
  "saveState principalKey s db = (
     if \<not> principal_checks principalKey (principal_columns s) then Inl CheckViolated
     else sbind (insert_all (\<lambda>x. Inr (access_row x)) (revokedAccess s) []) (\<lambda>ts.
       sbind (insert_all grant_row (revokedGrants s) ts) (\<lambda>ts'.
         Inr (db\<lparr>pg_principals := (pg_principals db)(principalKey \<mapsto> principal_columns s),
                 pg_tombstones := (pg_tombstones db)(principalKey := ts')\<rparr>))))"

text \<open>\<open>DELETE\<close> of a principal cascades to its tombstones.\<close>

definition deleteState :: "string \<Rightarrow> pg_tables \<Rightarrow> pg_tables" where
  "deleteState principalKey db = db\<lparr>pg_principals := (pg_principals db)(principalKey := None),
     pg_tombstones := (pg_tombstones db)(principalKey := [])\<rparr>"

section \<open>The coordinator\<close>

definition pg_body ::
  "(tombstone_row list \<Rightarrow> tombstone_row list) \<Rightarrow> string \<Rightarrow> int \<Rightarrow>
   (refresh_state option \<Rightarrow> int \<Rightarrow> refresh_error + 'a transition_output) \<Rightarrow> pg_tables \<Rightarrow> pg_error + 'a \<times> pg_tables" where
  "pg_body arrange principalKey now transition db =
     sbind (loadState arrange db principalKey) (\<lambda>stored.
       case transition stored now of
         Inl e \<Rightarrow> Inl (Refused e)
       | Inr out \<Rightarrow>
           if \<not> out_changed out then Inr (out_result out, db)
           else if isQuiescentVnuRefreshState (out_state out) then Inr (out_result out, deleteState principalKey db)
           else sbind (saveState principalKey (out_state out) db) (\<lambda>db'. Inr (out_result out, db')))"

text \<open>The circumstances of a call: its fault, the order of rows, and the clock.\<close>

record pg_call_env =
  pe_fault :: pg_fault
  pe_rollback :: bool
  pe_arrange :: "tombstone_row list \<Rightarrow> tombstone_row list"
  pe_now :: int

definition pg_transition ::
  "pg_call_env \<Rightarrow> string \<Rightarrow> (refresh_state option \<Rightarrow> int \<Rightarrow> refresh_error + 'a transition_output) \<Rightarrow> ('a \<Rightarrow> refresh_reply) \<Rightarrow>
   pg_tables \<Rightarrow> (hyeboard_error + refresh_reply) \<times> pg_tables" where
  "pg_transition env principalKey transition k db = (
     if \<not> hex_n 64 principalKey then (Inl vnuRefreshUnavailable, db)
     else case pg_transaction (pe_fault env) (pe_rollback env)
         (pg_body (pe_arrange env) principalKey (pe_now env) transition) db of
       (Inl _, db', _) \<Rightarrow> (Inl vnuRefreshUnavailable, db')
     | (Inr x, db', _) \<Rightarrow> (Inr (k x), db'))"

text \<open>
  The methods. \<open>Inl None\<close> is the exception of \<open>assertLinkedPair\<close>, which leaves a method before
  its transition begins. The caller of \<open>abortRefresh\<close> is not given the result.
\<close>

fun pg_method :: "pg_call_env \<Rightarrow> string \<Rightarrow> refresh_call \<Rightarrow> pg_tables \<Rightarrow> (hyeboard_error + refresh_reply) \<times> pg_tables" where
  "pg_method env k (CActivate p) db = pg_transition env k (\<lambda>s t. applyActivatePair s p t) RActivate db"
| "pg_method env k (CCheck p) db = pg_transition env k (\<lambda>s t. applyCheckAccess s p t) RCheck db"
| "pg_method env k (CBegin p) db = pg_transition env k (\<lambda>s t. applyBeginRefresh s p t) RBegin db"
| "pg_method env k (CComplete old nxt) db = pg_transition env k (\<lambda>s t. applyCompleteRefresh s old nxt t) RComplete db"
| "pg_method env k (CAbort p terminal) db = pg_transition env k (\<lambda>s t. applyAbortRefresh s p terminal t) RAbort db"
| "pg_method env k (CRevokeByAccess p) db = pg_transition env k (\<lambda>s t. applyRevokeLinkedPairByAccess s p t) RRevoke db"
| "pg_method env k (CRevokePrincipal p) db = pg_transition env k (\<lambda>s t. applyRevokePrincipalByLinkedGrant s p t) RRevoke db"
| "pg_method env k (CRevokeExact p) db = pg_transition env k (\<lambda>s t. applyRevokeExactLinkedPair s p t) RRevoke db"
| "pg_method env k CAlarm db = (Inl vnuRefreshUnavailable, db)"

definition pg_call ::
  "pg_call_env \<Rightarrow> string \<Rightarrow> refresh_call \<Rightarrow> pg_tables \<Rightarrow> (hyeboard_error option + refresh_reply) \<times> pg_tables" where
  "pg_call env k call db = (
     if \<not> list_all valid_pair (call_pairs call) then (Inl None, db)
     else (case pg_method env k call db of (r, db') \<Rightarrow> (map_sum Some id r, db')))"

end
