(* ===== verification/PostgresRefreshProps.thy ===== *)
theory PostgresRefreshProps
  imports PostgresRefresh RefreshProps "HOL-Library.Multiset"
begin

text \<open>
  The authority on PostgreSQL keeps the contract of the durable object: what its rows hold is a
  well-formed state, written and read back up to the order of its tombstones, so that every
  method is the request on a durable object that holds this state. A lost connection or a failed
  commit leaves the state before the call or the one after it.
\<close>

section \<open>Columns\<close>

lemma column_number_bigint: "0 \<le> n \<Longrightarrow> column_number (JStr (nat_string n)) = Some n"
  using all_digits_nat_string [of n] number_of_nat_string [of n]
  by (cases "nat_string n" rule: list.exhaust)
    (auto simp: all_digits_def digit_chars_def split: if_splits char.splits elim!: column_number.elims)

lemma epoch_bigint [simp]: "pos_safe n \<Longrightarrow> epoch (bigint_column (Some n)) = Inr n"
  by (simp add: epoch_def bigint_column_def bigint_text_def pos_safe_iff column_number_bigint safe_integer_def max_safe_integer_def)

lemma column_not_null [simp]:
  "bigint_column (Some n) \<noteq> JNull" "bigint_column None = JNull" "text_column (Some s) = JStr s" "text_column None = JNull"
  "integer_column (Some n) = JInt n" "integer_column None = JNull"
  by (simp_all add: bigint_column_def text_column_def integer_column_def)

lemma pair_columns [simp]:
  "valid_pair p \<Longrightarrow> pair_of_columns (JStr (accessTokenId p)) (bigint_column (Some (accessExpiresAt p)))
     (JStr (grantId p)) (bigint_column (Some (grantExpiresAt p))) = Inr (enc_pair p)"
  by (simp add: pair_of_columns_def enc_pair_def valid_pair_def)

section \<open>Tombstones in rows\<close>

definition linked_form :: "tombstone \<Rightarrow> bool" where
  "linked_form t = (case t of Expiry _ \<Rightarrow> False | Linked _ _ _ _ \<Rightarrow> True)"

lemma linked_form_simps [simp]:
  "linked_form (Linked a ae ge successor)" "\<not> linked_form (Expiry e)"
  "linked_form (linkedGrantTombstone p)" "linked_form (refreshSuccessorGrantTombstone p q)"
  by (simp_all add: linked_form_def linkedGrantTombstone_def refreshSuccessorGrantTombstone_def)

definition no_legacy :: "refresh_state \<Rightarrow> bool" where
  "no_legacy s \<longleftrightarrow> (\<forall>kt \<in> set (revokedGrants s). linked_form (snd kt))"

definition grant_row_of :: "string \<times> tombstone \<Rightarrow> tombstone_row" where
  "grant_row_of kt = (case grant_row kt of Inr t \<Rightarrow> t | Inl _ \<Rightarrow> access_row (fst kt, 0))"

type_synonym revoked = "string \<times> int + string \<times> tombstone"

definition row_of :: "revoked \<Rightarrow> tombstone_row" where
  "row_of x = (case x of Inl ke \<Rightarrow> access_row ke | Inr kt \<Rightarrow> grant_row_of kt)"

lemma row_of_simps [simp]: "row_of (Inl ke) = access_row ke" "row_of (Inr kt) = grant_row_of kt"
  by (simp_all add: row_of_def)

definition row_ok :: "revoked \<Rightarrow> bool" where
  "row_ok x = (case x of Inl (k, e) \<Rightarrow> token22 k \<and> pos_safe e
     | Inr (k, t) \<Rightarrow> token22 k \<and> wf_tombstone k t \<and> linked_form t)"

definition lefts :: "('a + 'b) list \<Rightarrow> 'a list" where
  "lefts xs = concat (map (case_sum (\<lambda>x. [x]) (\<lambda>_. [])) xs)"

definition rights :: "('a + 'b) list \<Rightarrow> 'b list" where
  "rights xs = concat (map (case_sum (\<lambda>_. []) (\<lambda>x. [x])) xs)"

lemma lefts_simps [simp]:
  "lefts [] = []" "lefts (Inl a # xs) = a # lefts xs" "lefts (Inr b # xs) = lefts xs"
  "rights [] = []" "rights (Inl a # xs) = rights xs" "rights (Inr b # xs) = b # rights xs"
  "lefts (xs @ ys) = lefts xs @ lefts ys" "rights (xs @ ys) = rights xs @ rights ys"
  by (simp_all add: lefts_def rights_def)

lemma lefts_map [simp]:
  "lefts (map Inl as) = as" "rights (map Inl as) = []" "lefts (map Inr bs) = []" "rights (map Inr bs) = bs"
  by (induction as; simp)+ (induction bs; simp)+

lemma grant_row_of_simps [simp]:
  "grant_row_of (k, Linked a ae ge successor) = \<lparr>tr_kind = ''grant'', tr_id = k, tr_expiresAt = ge,
     tr_linkedAccess = Some a, tr_linkedAccessExpiresAt = Some ae, tr_linkedGrantExpiresAt = Some ge,
     tr_successorAccess = map_option accessTokenId successor,
     tr_successorAccessExpiresAt = map_option accessExpiresAt successor,
     tr_successorGrant = map_option grantId successor,
     tr_successorGrantExpiresAt = map_option grantExpiresAt successor\<rparr>"
  by (simp add: grant_row_of_def)

lemma grant_read:
  assumes "wf_tombstone k (Linked a ae ge successor)"
  shows "grant_of_row (grant_row_of (k, Linked a ae ge successor)) = Inr (enc_tombstone (Linked a ae ge successor))"
proof (cases successor)
  case None
  then show ?thesis using assms by (simp add: grant_of_row_def successor_columns_def Let_def)
next
  case (Some p)
  then have "valid_pair p" using assms by simp
  with pair_columns [OF this] show ?thesis using assms Some
    by (simp add: grant_of_row_def successor_columns_def Let_def del: pair_columns)
qed

lemma update_fresh: "k \<notin> fst ` set al \<Longrightarrow> AList.update k v al = al @ [(k, v)]"
  by (induction al) auto

lemma load_rows:
  assumes "\<forall>x \<in> set xs. row_ok x" "distinct (map fst (lefts xs))" "distinct (map fst (rights xs))"
    "fst ` set (lefts xs) \<inter> fst ` set ra = {}" "fst ` set (rights xs) \<inter> fst ` set rg = {}"
  shows "load_tombstones (map row_of xs) ra rg =
    Inr (ra @ map (\<lambda>(k, e). (k, JInt e)) (lefts xs), rg @ map (\<lambda>(k, t). (k, enc_tombstone t)) (rights xs))"
  using assms
proof (induction xs arbitrary: ra rg)
  case Nil
  then show ?case by simp
next
  case (Cons x xs)
  show ?case
  proof (cases x)
    case (Inl ke)
    obtain k e where ke: "ke = (k, e)" by (cases ke)
    have fresh: "AList.update k (JInt e) ra = ra @ [(k, JInt e)]"
      by (rule update_fresh) (use Cons.prems(4) Inl ke in auto)
    have "load_tombstones (map row_of xs) (ra @ [(k, JInt e)]) rg =
        Inr ((ra @ [(k, JInt e)]) @ map (\<lambda>(k, e). (k, JInt e)) (lefts xs), rg @ map (\<lambda>(k, t). (k, enc_tombstone t)) (rights xs))"
      by (rule Cons.IH) (use Cons.prems Inl ke in auto)
    then show ?thesis
      using Cons.prems(1) Inl ke fresh by (simp add: access_row_def row_ok_def)
  next
    case (Inr kt)
    obtain k t where kt: "kt = (k, t)" by (cases kt)
    obtain a ae ge successor where t: "t = Linked a ae ge successor"
      using Cons.prems(1) Inr kt by (cases t) (auto simp: row_ok_def)
    have ok: "wf_tombstone k t" using Cons.prems(1) Inr kt by (simp add: row_ok_def)
    have fresh: "AList.update k v rg = rg @ [(k, v)]" for v
      by (rule update_fresh) (use Cons.prems(5) Inr kt in auto)
    have "load_tombstones (map row_of xs) ra (rg @ [(k, enc_tombstone t)]) =
        Inr (ra @ map (\<lambda>(k, e). (k, JInt e)) (lefts xs), (rg @ [(k, enc_tombstone t)]) @ map (\<lambda>(k, t). (k, enc_tombstone t)) (rights xs))"
      by (rule Cons.IH) (use Cons.prems Inr kt in auto)
    then show ?thesis
      using Inr kt t ok fresh grant_read [of k a ae ge successor] by simp
  qed
qed

text \<open>Whatever order a query returns them in, rows come from a rearranged list of tombstones.\<close>

definition row_back :: "tombstone_row \<Rightarrow> revoked" where
  "row_back t = (if tr_kind t = ''access'' then Inl (tr_id t, tr_expiresAt t)
     else Inr (tr_id t, Linked (the (tr_linkedAccess t)) (the (tr_linkedAccessExpiresAt t)) (the (tr_linkedGrantExpiresAt t))
       (case tr_successorAccess t of None \<Rightarrow> None
        | Some a \<Rightarrow> Some \<lparr>accessTokenId = a, accessExpiresAt = the (tr_successorAccessExpiresAt t),
            grantId = the (tr_successorGrant t), grantExpiresAt = the (tr_successorGrantExpiresAt t)\<rparr>)))"

lemma row_back_of: "row_ok x \<Longrightarrow> row_back (row_of x) = x"
proof (cases x)
  case (Inl ke)
  then show ?thesis by (simp add: row_back_def access_row_def)
next
  case (Inr kt)
  assume "row_ok x"
  with Inr obtain k a ae ge successor where "kt = (k, Linked a ae ge successor)"
    by (cases kt; cases "snd kt") (auto simp: row_ok_def)
  with Inr show ?thesis by (cases successor) (simp_all add: row_back_def)
qed

lemma rows_rearranged:
  assumes "mset ts = mset (map row_of xs)" "\<forall>x \<in> set xs. row_ok x"
  obtains ys where "ts = map row_of ys" "mset ys = mset xs"
proof
  have sub: "\<forall>t \<in> set ts. \<exists>x \<in> set xs. t = row_of x"
    using arg_cong [OF assms(1), of set_mset] by auto
  then show "ts = map row_of (map row_back ts)"
    using assms(2) by (auto simp: row_back_of intro!: map_idI [symmetric])
  have "map (row_back \<circ> row_of) xs = xs" using assms(2) by (auto simp: row_back_of intro!: map_idI)
  then have "image_mset row_back (mset (map row_of xs)) = mset xs" by (metis map_map mset_map)
  with assms(1) show "mset (map row_back ts) = mset xs" by simp
qed

lemma lefts_mset: "mset ys = mset xs \<Longrightarrow> mset (lefts ys) = mset (lefts xs) \<and> mset (rights ys) = mset (rights xs)"
proof -
  have l: "mset (lefts zs) = image_mset (\<lambda>x. case x of Inl a \<Rightarrow> a | Inr _ \<Rightarrow> undefined) (filter_mset isl (mset zs))" for zs :: "('a + 'b) list"
    by (induction zs) (auto split: sum.splits simp: isl_def lefts_def)
  have r: "mset (rights zs) = image_mset (\<lambda>x. case x of Inr a \<Rightarrow> a | Inl _ \<Rightarrow> undefined) (filter_mset (\<lambda>x. \<not> isl x) (mset zs))" for zs :: "('a + 'b) list"
    by (induction zs) (auto split: sum.splits simp: isl_def rights_def)
  assume "mset ys = mset xs"
  then show ?thesis by (simp add: l r)
qed

section \<open>A state and its rows\<close>

definition revoked_of :: "refresh_state \<Rightarrow> revoked list" where
  "revoked_of s = map Inl (revokedAccess s) @ map Inr (revokedGrants s)"

definition holds :: "refresh_state \<Rightarrow> string \<Rightarrow> pg_tables \<Rightarrow> bool" where
  "holds s k db \<longleftrightarrow> wf_state s \<and> no_legacy s \<and> \<not> isQuiescentVnuRefreshState s \<and> hex_n 64 k
     \<and> pg_principals db k = Some (principal_columns s) \<and> pg_tombstones db k = map row_of (revoked_of s)"

definition pg_inv :: "pg_tables \<Rightarrow> bool" where
  "pg_inv db \<longleftrightarrow> (\<forall>k. pg_principals db k = None \<and> pg_tombstones db k = [] \<or> (\<exists>s. holds s k db))"

definition rearranged :: "refresh_state \<Rightarrow> refresh_state \<Rightarrow> bool" where
  "rearranged s s' \<longleftrightarrow> (\<exists>ra rg. mset ra = mset (revokedAccess s) \<and> mset rg = mset (revokedGrants s)
     \<and> s' = s\<lparr>revokedAccess := ra, revokedGrants := rg\<rparr>)"

definition arranges :: "('a list \<Rightarrow> 'a list) \<Rightarrow> bool" where
  "arranges f \<longleftrightarrow> (\<forall>ts. mset (f ts) = mset ts)"

lemma map_of_rearranged: "mset xs = mset ys \<Longrightarrow> map_of xs k = None \<longleftrightarrow> map_of ys k = None"
  by (metis map_of_eq_None_iff set_mset_mset)

lemma distinct_rearranged: "mset xs = mset ys \<Longrightarrow> distinct (map fst xs) = distinct (map fst ys)"
  by (metis mset_map mset_eq_imp_distinct_iff)

lemma rearranged_laws:
  assumes "rearranged s s'"
  shows "wf_state s' = wf_state s" "no_legacy s' = no_legacy s" "abs_state s' = abs_state s"
    "isQuiescentVnuRefreshState s' = isQuiescentVnuRefreshState s"
    "fresh_pair (cleanVnuRefreshState (Some s') now) p = fresh_pair (cleanVnuRefreshState (Some s) now) p"
proof -
  obtain ra rg where r: "mset ra = mset (revokedAccess s)" "mset rg = mset (revokedGrants s)"
    "s' = s\<lparr>revokedAccess := ra, revokedGrants := rg\<rparr>"
    using assms by (auto simp: rearranged_def)
  note sets = arg_cong [OF r(1), of set_mset, simplified] arg_cong [OF r(2), of set_mset, simplified]
  have "wf_access ra = wf_access (revokedAccess s)" "wf_grants rg = wf_grants (revokedGrants s)"
    using sets distinct_rearranged [OF r(1)] distinct_rearranged [OF r(2)] by (simp_all add: wf_access_def wf_grants_def)
  moreover have "active_consistent s' = active_consistent s"
    using map_of_rearranged [OF r(1)] map_of_rearranged [OF r(2)] r(3)
    by (simp add: active_consistent_def split: option.splits)
  ultimately show "wf_state s' = wf_state s"
    using r(3) by (simp add: wf_state_def wf_parts_def lease_consistent_def split: option.splits)
  show "no_legacy s' = no_legacy s" using r(3) sets by (simp add: no_legacy_def)
  show "abs_state s' = abs_state s" using r(3) by (simp add: abs_state_def)
  show "isQuiescentVnuRefreshState s' = isQuiescentVnuRefreshState s"
    using r sets by (auto simp: isQuiescentVnuRefreshState_def)
  have "mset (filter (\<lambda>(_, e). e > now) ra) = mset (filter (\<lambda>(_, e). e > now) (revokedAccess s))"
    "mset (filter (\<lambda>(_, t). grantTombstoneExpiresAt t > now) rg) = mset (filter (\<lambda>(_, t). grantTombstoneExpiresAt t > now) (revokedGrants s))"
    using r(1,2) by (simp_all add: mset_filter)
  note * = this [THEN map_of_rearranged]
  show "fresh_pair (cleanVnuRefreshState (Some s') now) p = fresh_pair (cleanVnuRefreshState (Some s) now) p"
    using r(3) * by (simp add: fresh_pair_def cleanVnuRefreshState_def Let_def stored_or_empty_def)
qed

lemma pair_read: "pred_option valid_pair (active s) \<Longrightarrow> pairFromPrincipal (principal_columns s) = Inr (map_option enc_pair (active s))"
  by (cases "active s") (simp_all add: pairFromPrincipal_def principal_columns_def Let_def)

lemma count_read: "0 \<le> n \<Longrightarrow> n \<le> 5 \<Longrightarrow> column_count (JInt n) = Inr n"
  by (simp add: column_count_def safe_integer_def max_safe_integer_def)

lemma load_held:
  assumes h: "holds s k db" and arr: "arranges arrange"
  shows "\<exists>s'. loadState arrange db k = Inr (Some s') \<and> rearranged s s' \<and> (arrange = id \<longrightarrow> s' = s)"
proof -
  have wf: "wf_state s" and nl: "no_legacy s" using h by (auto simp: holds_def)
  then have parts: "wf_parts s" by (simp add: wf_state_def)
  have ok: "\<forall>x \<in> set (revoked_of s). row_ok x"
    using parts nl by (fastforce simp: revoked_of_def row_ok_def wf_parts_def wf_access_def wf_grants_def no_legacy_def)
  have "mset (arrange (pg_tombstones db k)) = mset (map row_of (revoked_of s))"
    using arr h by (simp add: arranges_def holds_def)
  then obtain ys where ys: "arrange (pg_tombstones db k) = map row_of ys" "mset ys = mset (revoked_of s)"
    using rows_rearranged [OF _ ok] by metis
  obtain zs where ys': "arrange (pg_tombstones db k) = map row_of zs" "mset zs = mset (revoked_of s)"
    and same: "arrange = id \<longrightarrow> zs = revoked_of s"
    using ys h by (cases "arrange = id") (auto simp: holds_def)
  let ?s = "s\<lparr>revokedAccess := lefts zs, revokedGrants := rights zs\<rparr>"
  have lr: "mset (lefts zs) = mset (revokedAccess s)" "mset (rights zs) = mset (revokedGrants s)"
    using lefts_mset [OF ys'(2)] by (simp_all add: revoked_of_def)
  then have re: "rearranged s ?s" unfolding rearranged_def by (intro exI conjI) (assumption | rule refl)+
  have wf': "wf_state ?s" using rearranged_laws(1) [OF re] wf by simp
  have "load_tombstones (map row_of zs) [] [] =
      Inr (map (\<lambda>(k, e). (k, JInt e)) (lefts zs), map (\<lambda>(k, t). (k, enc_tombstone t)) (rights zs))"
    using load_rows [of zs "[]" "[]"] ok arg_cong [OF ys'(2), of set_mset] wf'
    by (simp add: wf_state_def wf_parts_def wf_access_def wf_grants_def)
  then have ts: "load_tombstones (arrange (pg_tombstones db k)) [] [] =
      Inr (map (\<lambda>(k, e). (k, JInt e)) (revokedAccess ?s), map (\<lambda>(k, t). (k, enc_tombstone t)) (revokedGrants ?s))"
    using ys'(1) by simp
  have w: "column_count (JInt (win_count (window s))) = Inr (win_count (window s))"
    "epoch (bigint_column (Some (win_resetAt (window s)))) = Inr (win_resetAt (window s))"
    using parts by (simp_all add: wf_parts_def wf_window_def refresh_constants count_read)
  have lea: "lease_of_row (map_option enc_pair (active s)) (principal_columns s) = Inr (map_option enc_lease (lease s))"
    using parts wf_state_lease_active [OF wf]
    by (cases "lease s") (auto simp: lease_of_row_def principal_columns_def wf_parts_def wf_lease_def enc_lease_def)
  have aw: "activation_of_row (principal_columns s) = Inr (map_option enc_window (activationWindow s))"
    using parts
    by (cases "activationWindow s")
      (auto simp: activation_of_row_def principal_columns_def wf_parts_def wf_window_def refresh_constants count_read
        window_value_def enc_window_def)
  have "parseVnuRefreshControlState (JObj (opt_field ''active'' (map_option enc_pair (active s))
      @ opt_field ''lease'' (map_option enc_lease (lease s))
      @ [(''revokedAccess'', JObj (map (\<lambda>(k, e). (k, JInt e)) (revokedAccess ?s))),
         (''revokedGrants'', JObj (map (\<lambda>(k, t). (k, enc_tombstone t)) (revokedGrants ?s))),
         (''window'', window_value (win_count (window s)) (win_resetAt (window s)))]
      @ opt_field ''activationWindow'' (map_option enc_window (activationWindow s)))) = parseVnuRefreshControlState (enc_state ?s)"
    unfolding enc_state_def
    by (rule parse_fields)
      (auto simp: state_keys_def opt_field_def enc_option_def window_value_def enc_window_def field_def split: option.splits)
  then have "loadState arrange db k = Inr (Some ?s)"
    using h ts w lea aw pair_read [of s] parts parse_enc_state [OF wf']
    by (simp add: loadState_def holds_def wf_parts_def) (simp add: principal_columns_def)
  then show ?thesis using re same by (auto simp: revoked_of_def)
qed

section \<open>Writing and reading back\<close>

lemma insert_all_rows:
  assumes "\<And>x. x \<in> set xs \<Longrightarrow> f x = Inr (g x) \<and> tombstone_checks (g x) \<and> tr_kind (g x) = kind \<and> tr_id (g x) = fst x"
    "distinct (map fst xs)" "(\<lambda>k. (kind, k)) ` fst ` set xs \<inter> (\<lambda>u. (tr_kind u, tr_id u)) ` set ts = {}"
  shows "insert_all f xs ts = Inr (ts @ map g xs)"
  using assms
proof (induction xs arbitrary: ts)
  case Nil
  then show ?case by simp
next
  case (Cons x xs)
  have x: "f x = Inr (g x)" "tombstone_checks (g x)" "tr_kind (g x) = kind" "tr_id (g x) = fst x"
    using Cons.prems(1) [of x] by auto
  have new: "(kind, fst x) \<notin> (\<lambda>u. (tr_kind u, tr_id u)) ` set ts" using Cons.prems(3) by auto
  have "insert_all f xs (ts @ [g x]) = Inr ((ts @ [g x]) @ map g xs)"
    by (rule Cons.IH) (use Cons.prems x in auto)
  then show ?case using x new by (auto simp: insert_tombstone_def)
qed

lemma access_row_simps [simp]: "tr_kind (access_row ke) = ''access''" "tr_id (access_row ke) = fst ke"
  by (simp_all add: access_row_def)

lemma pair_shape_active [simp]:
  "pair_shape (map_option accessTokenId p) (map_option accessExpiresAt p) (map_option grantId p) (map_option grantExpiresAt p)
    \<longleftrightarrow> pred_option (\<lambda>p. token22 (accessTokenId p) \<and> 0 < accessExpiresAt p \<and> token22 (grantId p) \<and> 0 < grantExpiresAt p) p"
  "pair_shape None None None None"
  by (cases p) (simp_all add: pair_shape_def)

lemma valid_pair_positive: "valid_pair p \<Longrightarrow> token22 (accessTokenId p) \<and> 0 < accessExpiresAt p \<and> token22 (grantId p) \<and> 0 < grantExpiresAt p"
  by (simp add: valid_pair_def pos_safe_iff)

lemma principal_stored: "wf_state s \<Longrightarrow> hex_n 64 k \<Longrightarrow> principal_checks k (principal_columns s)"
  using wf_state_lease_active [of s] option.pred_mono_strong [of valid_pair "active s", OF _ valid_pair_positive]
  by (auto simp: principal_checks_def principal_columns_def wf_state_def wf_parts_def wf_lease_def wf_window_def pos_safe_iff
      refresh_constants split: option.splits)

lemma access_checks: "token22 k \<Longrightarrow> pos_safe e \<Longrightarrow> tombstone_checks (access_row (k, e))"
  by (simp add: tombstone_checks_def access_row_def pos_safe_iff)

lemma grant_checks:
  "token22 k \<Longrightarrow> wf_tombstone k (Linked a ae ge successor) \<Longrightarrow> tombstone_checks (grant_row_of (k, Linked a ae ge successor))"
  by (auto simp: tombstone_checks_def pos_safe_iff valid_pair_positive split: option.splits)

lemma save_holds:
  assumes wf: "wf_state s" and nl: "no_legacy s" and q: "\<not> isQuiescentVnuRefreshState s" and k: "hex_n 64 k"
  obtains db' where "saveState k s db = Inr db'" "holds s k db'"
    "\<And>k'. k' \<noteq> k \<Longrightarrow> pg_principals db' k' = pg_principals db k' \<and> pg_tombstones db' k' = pg_tombstones db k'"
proof
  let ?ts = "map access_row (revokedAccess s)"
  let ?db = "db\<lparr>pg_principals := (pg_principals db)(k \<mapsto> principal_columns s),
    pg_tombstones := (pg_tombstones db)(k := ?ts @ map grant_row_of (revokedGrants s))\<rparr>"
  have parts: "wf_parts s" using wf by (simp add: wf_state_def)
  have "insert_all (\<lambda>x. Inr (access_row x)) (revokedAccess s) [] = Inr ([] @ ?ts)"
    by (rule insert_all_rows [where kind = "''access''"])
      (use parts in \<open>auto simp: wf_parts_def wf_access_def access_checks\<close>)
  moreover have g: "grant_row x = Inr (grant_row_of x) \<and> tombstone_checks (grant_row_of x) \<and>
      tr_kind (grant_row_of x) = ''grant'' \<and> tr_id (grant_row_of x) = fst x" if "x \<in> set (revokedGrants s)" for x
  proof -
    have ok: "token22 (fst x)" "wf_tombstone (fst x) (snd x)" "linked_form (snd x)"
      using parts nl that by (auto simp: wf_parts_def wf_grants_def no_legacy_def)
    then obtain j a ae ge successor where "x = (j, Linked a ae ge successor)"
      by (cases x; cases "snd x") auto
    with ok grant_checks [of j a ae ge successor] show ?thesis by simp
  qed
  moreover have "insert_all grant_row (revokedGrants s) ?ts = Inr (?ts @ map grant_row_of (revokedGrants s))"
    by (rule insert_all_rows [where kind = "''grant''"]) (use g parts in \<open>auto simp: wf_parts_def wf_grants_def\<close>)
  ultimately show "saveState k s db = Inr ?db"
    using principal_stored [OF wf k] by (simp add: saveState_def)
  show "holds s k ?db" using assms by (simp add: holds_def revoked_of_def comp_def)
  show "\<And>k'. k' \<noteq> k \<Longrightarrow> pg_principals ?db k' = pg_principals db k' \<and> pg_tombstones ?db k' = pg_tombstones db k'"
    by simp
qed

text \<open>No transition makes a tombstone of the oldest form.\<close>

lemma legacy_update: "no_legacy s \<Longrightarrow> linked_form t \<Longrightarrow> no_legacy (s\<lparr>revokedGrants := AList.update k t (revokedGrants s)\<rparr>)"
  unfolding no_legacy_def by simp (rule update_ball, auto)

lemma legacy_revoke: "no_legacy s \<Longrightarrow> linked_form t \<Longrightarrow> no_legacy (revokeExact s p t)"
  unfolding no_legacy_def revokeExact_def by simp (rule update_ball, auto)

lemma legacy_clean: "pred_option no_legacy stored \<Longrightarrow> no_legacy (cleanVnuRefreshState stored now)"
  by (cases stored) (auto simp: no_legacy_def cleanVnuRefreshState_def Let_def stored_or_empty_def emptyState_def)

lemma legacy_unchanged: "pred_option no_legacy stored \<Longrightarrow> no_legacy (out_state (unchanged stored now r))"
  by (cases stored) (auto simp: no_legacy_def unchanged_def stored_or_empty_def emptyState_def)

lemma legacy_fields [simp]:
  "no_legacy (s\<lparr>active := a\<rparr>) = no_legacy s" "no_legacy (s\<lparr>lease := l\<rparr>) = no_legacy s"
  "no_legacy (s\<lparr>activationWindow := w\<rparr>) = no_legacy s" "no_legacy (s\<lparr>window := w'\<rparr>) = no_legacy s"
  "no_legacy (s\<lparr>revokedAccess := ra\<rparr>) = no_legacy s"
  by (simp_all add: no_legacy_def)

lemma keeps_form:
  assumes "pred_option no_legacy stored"
  shows "applyActivatePair stored p now = Inr out1 \<Longrightarrow> no_legacy (out_state out1)"
    "applyBeginRefresh stored p now = Inr out2 \<Longrightarrow> no_legacy (out_state out2)"
    "applyCompleteRefresh stored p q now = Inr out3 \<Longrightarrow> no_legacy (out_state out3)"
    "applyAbortRefresh stored p b now = Inr out4 \<Longrightarrow> no_legacy (out_state out4)"
    "applyRevokeLinkedPairByAccess stored p now = Inr out5 \<Longrightarrow> no_legacy (out_state out5)"
    "applyRevokePrincipalByLinkedGrant stored p now = Inr out5 \<Longrightarrow> no_legacy (out_state out5)"
    "applyCheckAccess stored p now = Inr out6 \<Longrightarrow> no_legacy (out_state out6)"
proof -
  note laws = legacy_unchanged [OF assms] legacy_clean [OF assms, of now]
    legacy_revoke [OF legacy_clean [OF assms, of now]]
  show "applyActivatePair stored p now = Inr out1 \<Longrightarrow> no_legacy (out_state out1)"
    using laws by (auto simp: applyActivatePair_def Let_def changed_def split: if_splits option.splits)
  show "applyBeginRefresh stored p now = Inr out2 \<Longrightarrow> no_legacy (out_state out2)"
    using laws by (auto simp: applyBeginRefresh_def Let_def changed_def split: if_splits)
  show "no_legacy (out_state out3)" if "applyCompleteRefresh stored p q now = Inr out3"
    using applyCompleteRefresh_cases [OF that] laws by (auto simp: changed_def)
  show "applyAbortRefresh stored p b now = Inr out4 \<Longrightarrow> no_legacy (out_state out4)"
    using laws by (auto simp: applyAbortRefresh_def Let_def changed_def split: if_splits option.splits)
  show "applyRevokeLinkedPairByAccess stored p now = Inr out5 \<Longrightarrow> no_legacy (out_state out5)"
    using laws by (auto simp: applyRevokeLinkedPairByAccess_def Let_def changed_def split: if_splits)
  let ?s = "cleanVnuRefreshState stored now"
  have m: "no_legacy (?s\<lparr>revokedAccess := ra, revokedGrants := AList.update g (linkedGrantTombstone q) (revokedGrants ?s)\<rparr>)" for ra g q
    using legacy_update [OF laws(2), of "linkedGrantTombstone q" g] by (simp add: no_legacy_def)
  show "applyRevokePrincipalByLinkedGrant stored p now = Inr out5 \<Longrightarrow> no_legacy (out_state out5)"
    using laws m legacy_revoke [OF m]
    by (auto simp: applyRevokePrincipalByLinkedGrant_def Let_def changed_def split: if_splits option.splits)
  show "applyCheckAccess stored p now = Inr out6 \<Longrightarrow> no_legacy (out_state out6)"
    using laws by (auto simp: applyCheckAccess_def Let_def split: if_splits)
qed

section \<open>The tables and the durable object\<close>

text \<open>The durable object that holds a state, and the state the rows of a principal hold.\<close>

definition object_of :: "refresh_state option \<Rightarrow> do_store" where
  "object_of stored = (case stored of None \<Rightarrow> empty_store | Some s \<Rightarrow> \<lparr>cell = enc_state s, alarm_at = nextVnuRefreshAlarm s\<rparr>)"

definition pg_view :: "pg_tables \<Rightarrow> string \<Rightarrow> refresh_state option" where
  "pg_view db k = (case loadState id db k of Inr stored \<Rightarrow> stored | Inl _ \<Rightarrow> None)"

definition pg_authority :: "pg_tables \<Rightarrow> string \<Rightarrow> int \<Rightarrow> authority" where
  "pg_authority db k now = expire now (abs_stored (pg_view db k))"

definition storable :: "refresh_state option \<Rightarrow> bool" where
  "storable stored \<longleftrightarrow> pred_option (\<lambda>s. wf_state s \<and> no_legacy s \<and> \<not> isQuiescentVnuRefreshState s) stored"

lemma object_laws:
  assumes "storable stored"
  shows "store_inv (object_of stored)" "view (object_of stored) = stored"
    "parseVnuRefreshControlState (cell (object_of stored)) = Inr stored" "wf_stored stored" "pred_option no_legacy stored"
proof -
  show inv: "store_inv (object_of stored)" and wf: "wf_stored stored" and "pred_option no_legacy stored"
    using assms by (cases stored; auto simp: storable_def object_of_def store_inv_def wf_stored_def)+
  show v: "view (object_of stored) = stored"
    using assms by (cases stored) (simp_all add: storable_def object_of_def, simp add: view_def parse_enc_state)
  show "parseVnuRefreshControlState (cell (object_of stored)) = Inr stored"
    using store_inv_parse [OF inv] v by simp
qed

lemma pg_invE:
  assumes "pg_inv db"
  obtains "pg_principals db k = None" "pg_tombstones db k = []" | s where "holds s k db"
proof -
  have "pg_principals db k = None \<and> pg_tombstones db k = [] \<or> (\<exists>s. holds s k db)"
    using assms by (simp add: pg_inv_def)
  then show thesis using that by (elim disjE conjE exE)
qed

lemma arranges_id: "arranges id"
  by (simp add: arranges_def)

lemma pg_load:
  assumes inv: "pg_inv db" and arr: "arranges arrange"
  shows "\<exists>stored. loadState arrange db k = Inr stored \<and> storable stored \<and> storable (pg_view db k)
    \<and> rel_option rearranged (pg_view db k) stored \<and> abs_stored stored = abs_stored (pg_view db k)
    \<and> (\<forall>now p. fresh_pair (cleanVnuRefreshState stored now) p = fresh_pair (cleanVnuRefreshState (pg_view db k) now) p)"
  using inv
proof (rule pg_invE [where k = k])
  assume "pg_principals db k = None" "pg_tombstones db k = []"
  then show ?thesis by (simp add: loadState_def pg_view_def storable_def)
next
  fix s assume h: "holds s k db"
  obtain s' where s': "loadState arrange db k = Inr (Some s')" "rearranged s s'" using load_held [OF h arr] by blast
  have v: "pg_view db k = Some s" using load_held [OF h arranges_id] by (auto simp: pg_view_def)
  show ?thesis
    using s' v h rearranged_laws [OF s'(2)] by (simp add: storable_def holds_def abs_stored_def)
qed

lemma view_holds: "holds s k db \<Longrightarrow> pg_view db k = Some s"
  using load_held [OF _ arranges_id] by (fastforce simp: pg_view_def)

lemma inv_update:
  assumes "pg_inv db" "\<And>k'. k' \<noteq> k \<Longrightarrow> pg_principals db' k' = pg_principals db k' \<and> pg_tombstones db' k' = pg_tombstones db k'"
    "pg_principals db' k = None \<and> pg_tombstones db' k = [] \<or> (\<exists>s. holds s k db')"
  shows "pg_inv db'"
  unfolding pg_inv_def
proof
  fix k'
  show "pg_principals db' k' = None \<and> pg_tombstones db' k' = [] \<or> (\<exists>s. holds s k' db')"
  proof (cases "k' = k")
    case False
    then show ?thesis using assms(1) assms(2) [of k'] by (auto simp: pg_inv_def holds_def)
  qed (use assms(3) in simp)
qed

lemma view_other:
  "pg_principals db' k = pg_principals db k \<and> pg_tombstones db' k = pg_tombstones db k \<Longrightarrow> pg_view db' k = pg_view db k"
  by (simp add: pg_view_def loadState_def cong: option.case_cong sum.case_cong)

lemma body_as_object:
  assumes inv: "pg_inv db" and arr: "arranges arrange" and k: "hex_n 64 k"
    and load: "loadState arrange db k = Inr stored"
    and wf: "\<And>out. f stored now = Inr out \<Longrightarrow> wf_state (out_state out) \<and> no_legacy (out_state out)"
  shows "case pg_body arrange k now f db of
      Inl e \<Rightarrow> \<exists>e'. fst (mutate f (object_of stored) now) = Inl e'
    | Inr (x, db') \<Rightarrow> \<exists>st'. mutate f (object_of stored) now = (Inr x, st') \<and> pg_inv db'
        \<and> abs_stored (pg_view db' k) = abs_stored (view st') \<and> (\<forall>k'. k' \<noteq> k \<longrightarrow> pg_view db' k' = pg_view db k')"
proof (cases "f stored now")
  case (Inl e)
  have "storable stored" using pg_load [OF inv arr, of k] load by auto
  with Inl load object_laws(3) show ?thesis by (simp add: pg_body_def mutate_def)
next
  case (Inr out)
  have st: "storable stored" "abs_stored stored = abs_stored (pg_view db k)" using pg_load [OF inv arr, of k] load by auto
  note out = wf [OF Inr]
  have mut: "mutate f (object_of stored) now = (Inr (out_result out), commit out (object_of stored))"
    using Inr object_laws(3) [OF st(1)] by (simp add: mutate_def)
  have abs: "abs_stored (view (commit out (object_of stored))) = (if out_changed out then abs_state (out_state out) else abs_stored stored)"
    using view_commit [OF object_laws(1) [OF st(1)], of out] out object_laws(2) [OF st(1)] by simp
  show ?thesis
  proof (cases "out_changed out")
    case False
    then show ?thesis using load Inr mut abs st inv by (simp add: pg_body_def)
  next
    case True
    show ?thesis
    proof (cases "isQuiescentVnuRefreshState (out_state out)")
      case q: True
      have "pg_inv (deleteState k db)"
        by (rule inv_update [OF inv, of k]) (simp_all add: deleteState_def)
      moreover have "pg_view (deleteState k db) k' = pg_view db k'" if "k' \<noteq> k" for k'
        by (rule view_other) (use that in \<open>simp add: deleteState_def\<close>)
      moreover have "pg_view (deleteState k db) k = None" by (simp add: pg_view_def loadState_def deleteState_def)
      ultimately show ?thesis
        using load Inr mut abs True q abs_quiescent [OF q] by (simp add: pg_body_def abs_stored_def)
    next
      case q: False
      obtain db' where db': "saveState k (out_state out) db = Inr db'" "holds (out_state out) k db'"
        "\<And>k'. k' \<noteq> k \<Longrightarrow> pg_principals db' k' = pg_principals db k' \<and> pg_tombstones db' k' = pg_tombstones db k'"
        using save_holds [OF _ _ q k, of db] out by blast
      have "pg_inv db'" by (rule inv_update [OF inv db'(3)]) (use db'(2) in auto)
      moreover have "pg_view db' k' = pg_view db k'" if "k' \<noteq> k" for k' by (rule view_other [OF db'(3) [OF that]])
      ultimately show ?thesis
        using load Inr mut abs True q db'(1) view_holds [OF db'(2)] by (simp add: pg_body_def abs_stored_def)
    qed
  qed
qed

text \<open>A call, as a step, and what it may be given.\<close>

fun pg_step :: "pg_tables \<Rightarrow> pg_call_env \<times> string \<times> refresh_call \<Rightarrow> pg_tables" where
  "pg_step db (env, k, call) = snd (pg_call env k call db)"

fun pg_ok :: "pg_tables \<Rightarrow> pg_call_env \<times> string \<times> refresh_call \<Rightarrow> bool" where
  "pg_ok db (env, k, call) \<longleftrightarrow> arranges (pe_arrange env) \<and> valid_now (pe_now env) \<and> call \<noteq> CAlarm
     \<and> (case call of CActivate p \<Rightarrow> fresh_pair (cleanVnuRefreshState (pg_view db k) (pe_now env)) p | _ \<Rightarrow> True)"

text \<open>What a call leaves behind, beside the durable object that holds the same state.\<close>

definition as_object :: "pg_call_env \<Rightarrow> string \<Rightarrow> refresh_error + 'b \<Rightarrow> do_store \<Rightarrow> pg_tables \<Rightarrow> (hyeboard_error + 'b) \<times> pg_tables \<Rightarrow> bool" where
  "as_object env k answer st' db r \<longleftrightarrow> pg_inv (snd r) \<and> (\<forall>k'. k' \<noteq> k \<longrightarrow> pg_view (snd r) k' = pg_view db k')
     \<and> (case fst r of
          Inl e \<Rightarrow> (snd r = db \<or> pe_fault env = CommitFails True) \<and> (pe_fault env = Healthy \<and> hex_n 64 k \<longrightarrow> (\<exists>e'. answer = Inl e'))
        | Inr y \<Rightarrow> answer = Inr y \<and> hex_n 64 k \<and> abs_stored (pg_view (snd r) k) = abs_stored (view st'))"

lemma transition_as_object:
  assumes inv: "pg_inv db" and arr: "arranges (pe_arrange env)"
    and load: "loadState (pe_arrange env) db k = Inr stored"
    and wf: "\<And>out. f stored (pe_now env) = Inr out \<Longrightarrow> wf_state (out_state out) \<and> no_legacy (out_state out)"
    and m: "mutate f (object_of stored) (pe_now env) = (x, st')"
  shows "as_object env k (map_sum id r x) st' db (pg_transition env k f r db)"
proof (cases "hex_n 64 k")
  case False
  then show ?thesis using inv by (simp add: as_object_def pg_transition_def)
next
  case True
  note body = body_as_object [OF inv arr True load, of f "pe_now env", OF wf]
  show ?thesis
  proof (cases "pg_body (pe_arrange env) k (pe_now env) f db")
    case (Inl e)
    then obtain e' where "x = Inl e'" using body m by auto
    then show ?thesis using Inl inv True
      by (auto simp: as_object_def pg_transition_def pg_transaction_def Let_def)
  next
    case (Inr y)
    obtain z db' where y: "y = (z, db')" by (cases y)
    have b: "x = Inr z" "pg_inv db'" "abs_stored (pg_view db' k) = abs_stored (view st')"
      "\<forall>k'. k' \<noteq> k \<longrightarrow> pg_view db' k' = pg_view db k'"
      using body m Inr y by auto
    then show ?thesis using Inr y inv True
      by (cases "pe_fault env") (auto simp: as_object_def pg_transition_def pg_transaction_def Let_def)
  qed
qed

lemma check_as_mutate:
  "store_inv st \<Longrightarrow> valid_pair p \<Longrightarrow>
   checkAccessAuthoritatively (cell st) st p now = mutate (\<lambda>s t. applyCheckAccess s p t) st now"
  using store_inv_parse [of st]
  by (auto simp: checkAccessAuthoritatively_def mutate_def commit_def split: sum.splits)

lemma reply_cases: "reply r (x, st') = (map_sum id r x, st')"
  by (simp add: reply_def)

lemma method_as_object:
  assumes inv: "pg_inv db" and ok: "pg_ok db (env, k, call)" and valid: "list_all valid_pair (call_pairs call)"
  shows "\<exists>stored. storable stored \<and> rel_option rearranged (pg_view db k) stored
    \<and> abs_stored stored = abs_stored (pg_view db k) \<and> call_ok (object_of stored) (pe_now env, call)
    \<and> as_object env k (fst (handle (object_of stored) (pe_now env) call)) (snd (handle (object_of stored) (pe_now env) call)) db
        (pg_method env k call db)"
proof -
  have arr: "arranges (pe_arrange env)" and now: "valid_now (pe_now env)" and na: "call \<noteq> CAlarm" using ok by simp_all
  obtain stored where load: "loadState (pe_arrange env) db k = Inr stored" and st: "storable stored"
    and re: "rel_option rearranged (pg_view db k) stored" "abs_stored stored = abs_stored (pg_view db k)"
    and fr: "\<forall>now p. fresh_pair (cleanVnuRefreshState stored now) p = fresh_pair (cleanVnuRefreshState (pg_view db k) now) p"
    using pg_load [OF inv arr, of k] by blast
  note obj = object_laws [OF st]
  note forms = keeps_form [OF obj(5), where now = "pe_now env"]
  note wfs = transition_wf [OF _ obj(4) now]
  have co: "call_ok (object_of stored) (pe_now env, call)"
    using ok fr now obj(2) by (cases call) simp_all
  have T: "as_object env k (fst (reply r (mutate f (object_of stored) (pe_now env))))
      (snd (reply r (mutate f (object_of stored) (pe_now env)))) db (pg_transition env k f r db)"
    if "\<And>out. f stored (pe_now env) = Inr out \<Longrightarrow> wf_state (out_state out) \<and> no_legacy (out_state out)"
    for f :: "refresh_state option \<Rightarrow> int \<Rightarrow> refresh_error + 'b transition_output" and r
    using transition_as_object [OF inv arr load that] by (cases "mutate f (object_of stored) (pe_now env)") (simp add: reply_cases)
  have "as_object env k (fst (handle (object_of stored) (pe_now env) call)) (snd (handle (object_of stored) (pe_now env) call)) db
      (pg_method env k call db)"
  proof (cases call)
    case (CActivate p)
    have fp: "fresh_pair (cleanVnuRefreshState stored (pe_now env)) p" using ok fr CActivate by simp
    show ?thesis unfolding CActivate handle.simps pg_method.simps
      by (rule T) (intro conjI, erule applyActivatePair_wf [OF _ obj(4) now fp], erule forms(1))
  next
    case (CCheck p)
    then have "valid_pair p" using valid by simp
    note check = check_as_mutate [OF obj(1) this]
    show ?thesis unfolding CCheck handle.simps pg_method.simps check
      by (rule T) (intro conjI, erule applyCheckAccess_wf [OF _ obj(4) now], erule forms(7))
  next
    case (CBegin p)
    show ?thesis unfolding CBegin handle.simps pg_method.simps
      by (rule T) (intro conjI, erule applyBeginRefresh_wf [OF _ obj(4) now], erule forms(2))
  next
    case (CComplete old nxt)
    show ?thesis unfolding CComplete handle.simps pg_method.simps
      by (rule T) (intro conjI, erule applyCompleteRefresh_wf [OF _ obj(4) now], erule forms(3))
  next
    case (CAbort p b)
    show ?thesis unfolding CAbort handle.simps pg_method.simps
      by (rule T) (intro conjI, erule applyAbortRefresh_wf [OF _ obj(4) now], erule forms(4))
  next
    case (CRevokeByAccess p)
    show ?thesis unfolding CRevokeByAccess handle.simps pg_method.simps
      by (rule T) (intro conjI, erule applyRevokeLinkedPairByAccess_wf [OF _ obj(4) now], erule forms(5))
  next
    case (CRevokePrincipal p)
    show ?thesis unfolding CRevokePrincipal handle.simps pg_method.simps
      by (rule T) (intro conjI, erule applyRevokePrincipalByLinkedGrant_wf [OF _ obj(4) now], erule forms(6))
  next
    case (CRevokeExact p)
    show ?thesis unfolding CRevokeExact handle.simps pg_method.simps applyRevokeExactLinkedPair_def
      by (rule T) (intro conjI, erule applyRevokeLinkedPairByAccess_wf [OF _ obj(4) now], erule forms(5))
  next
    case CAlarm
    then show ?thesis using na by simp
  qed
  with st re co show ?thesis by blast
qed

lemma pg_step_inv:
  assumes "pg_inv db" "pg_ok db x"
  shows "pg_inv (pg_step db x)"
proof -
  obtain env k call where x: "x = (env, k, call)" by (cases x)
  show ?thesis
    using assms method_as_object [of db env k call]
    by (cases "list_all valid_pair (call_pairs call)")
      (auto simp: x pg_call_def as_object_def split: prod.splits)
qed

interpretation pg_machine: machine pg_step pg_ok pg_inv
  by unfold_locales (rule pg_step_inv)

lemma pg_inv_empty: "pg_inv empty_tables_pg"
  by (simp add: pg_inv_def empty_tables_pg_def)

text \<open>
  C36. The authority on PostgreSQL is the authority of the durable object. After any admissible
  history of calls by any number of nodes, with lost connections and failed commits among them
  and whatever order the database returns rows in, an answered call is a step of the authority
  contract for its principal; a call that throws leaves the tables as they were, or its effect
  where the commit was applied although it failed; no call touches another principal; and on a
  healthy database a call with a well-formed key and pairs is answered exactly when the durable
  object that holds the same state, up to the order of its tombstones, answers it, and alike.
\<close>

theorem postgres_refines_contract:
  assumes "run_ok pg_step pg_ok empty_tables_pg (h @ [(env, k, call)])"
    and "db = run pg_step empty_tables_pg h" and "pg_call env k call db = (answer, db')"
  shows "(case answer of
      Inr r \<Rightarrow> spec_step (pg_authority db k (pe_now env)) (pe_now env) call r (pg_authority db' k (pe_now env))
    | Inl e \<Rightarrow> db' = db \<or> pe_fault env = CommitFails True)
   \<and> (\<forall>k'. k' \<noteq> k \<longrightarrow> pg_view db' k' = pg_view db k')
   \<and> (pe_fault env = Healthy \<and> hex_n 64 k \<and> list_all valid_pair (call_pairs call) \<longrightarrow>
      (\<exists>stored. rel_option rearranged (pg_view db k) stored
        \<and> (\<forall>r. answer = Inr r \<longleftrightarrow> fst (handle (object_of stored) (pe_now env) call) = Inr r)))"
proof (cases "list_all valid_pair (call_pairs call)")
  case False
  then show ?thesis using assms(3) by (auto simp: pg_call_def)
next
  case True
  have ok: "pg_ok db (env, k, call)" and inv: "pg_inv db"
    using assms(1,2) pg_machine.run_inv [OF pg_inv_empty] by (auto simp: run_ok_append)
  obtain stored where st: "storable stored" "rel_option rearranged (pg_view db k) stored"
    "abs_stored stored = abs_stored (pg_view db k)" "call_ok (object_of stored) (pe_now env, call)"
    and as: "as_object env k (fst (handle (object_of stored) (pe_now env) call)) (snd (handle (object_of stored) (pe_now env) call)) db
        (pg_method env k call db)"
    using method_as_object [OF inv ok True] by blast
  obtain r where r: "pg_method env k call db = (r, db')" "answer = map_sum Some id r"
    using assms(3) True by (auto simp: pg_call_def split: prod.splits)
  obtain x st' where h: "handle (object_of stored) (pe_now env) call = (x, st')" by (cases "handle (object_of stored) (pe_now env) call")
  have auth: "authority_at (object_of stored) (pe_now env) = pg_authority db k (pe_now env)"
    using object_laws(2) [OF st(1)] st(3) by (simp add: authority_at_def pg_authority_def)
  have step: "spec_step (pg_authority db k (pe_now env)) (pe_now env) call y (pg_authority db' k (pe_now env))" if "r = Inr y" for y
  proof -
    have "x = Inr y" "abs_stored (pg_view db' k) = abs_stored (view st')" using as r(1) h that by (auto simp: as_object_def)
    then have "spec_step (authority_at (object_of stored) (pe_now env)) (pe_now env) call y (authority_at st' (pe_now env))"
      using handle_refines [OF object_laws(1) [OF st(1)] st(4)] h by simp
    with auth \<open>abs_stored (pg_view db' k) = abs_stored (view st')\<close> show ?thesis
      by (simp add: authority_at_def pg_authority_def)
  qed
  have "\<forall>y. answer = Inr y \<longleftrightarrow> x = Inr y" if "pe_fault env = Healthy" "hex_n 64 k"
    using as r h that by (cases r) (auto simp: as_object_def)
  then show ?thesis
    using as r step st(2) h by (cases r) (auto simp: as_object_def)
qed

text \<open>
  A pair is activated by a call whose commit fails although it is applied; then its refresh
  begins and completes, on rows that are returned in reverse.
\<close>

definition pg_sample_env :: "pg_fault \<Rightarrow> int \<Rightarrow> pg_call_env" where
  "pg_sample_env fault now = \<lparr>pe_fault = fault, pe_rollback = True, pe_arrange = rev, pe_now = now\<rparr>"

definition pg_sample_key :: string where "pg_sample_key = replicate 64 CHR ''a''"

definition pg_history :: "(pg_call_env \<times> string \<times> refresh_call) list" where
  "pg_history = [(pg_sample_env (CommitFails True) 1000, pg_sample_key, CActivate pair_a),
     (pg_sample_env Healthy 2000, pg_sample_key, CBegin pair_a)]"

definition pg_sample_tables :: pg_tables where
  "pg_sample_tables = run pg_step empty_tables_pg pg_history"

lemma pg_history_ok:
  "run_ok pg_step pg_ok empty_tables_pg (pg_history @ [(pg_sample_env Healthy 3000, pg_sample_key, CComplete pair_a pair_b)])"
proof -
  have "fresh_pair (cleanVnuRefreshState (pg_view empty_tables_pg pg_sample_key) 1000) pair_a" by code_simp
  then show ?thesis
    by (simp add: pg_history_def pg_sample_env_def arranges_def valid_now_def del: pg_step.simps)
qed

theorem postgres_refines_contract_witness:
  "\<exists>db'. pg_call (pg_sample_env Healthy 3000) pg_sample_key (CComplete pair_a pair_b) pg_sample_tables = (Inr (RComplete Completed), db')
    \<and> spec_step (pg_authority pg_sample_tables pg_sample_key 3000) 3000 (CComplete pair_a pair_b) (RComplete Completed)
        (pg_authority db' pg_sample_key 3000)"
proof -
  obtain db' where call: "pg_call (pg_sample_env Healthy 3000) pg_sample_key (CComplete pair_a pair_b) pg_sample_tables =
      (Inr (RComplete Completed), db')"
  proof -
    have "fst (pg_call (pg_sample_env Healthy 3000) pg_sample_key (CComplete pair_a pair_b) pg_sample_tables) = Inr (RComplete Completed)"
      by code_simp
    with that show thesis by (metis prod.collapse)
  qed
  have "pe_now (pg_sample_env Healthy 3000) = 3000" by (simp add: pg_sample_env_def)
  then show ?thesis
    using postgres_refines_contract [OF pg_history_ok pg_sample_tables_def call] call by auto
qed

end
