(* ===== verification/RedisRefresh.thy ===== *)
theory RedisRefresh
  imports RefreshSpec RedisClient
begin

text \<open>
  The refresh authority on Redis, \<open>apps/worker/src/node/redis/vnu-refresh-coordinator.ts\<close>: one
  key per principal holds the JSON text of its state; a transition is an optimistic transaction
  (\<open>WATCH\<close>, \<open>GET\<close>, \<open>MULTI\<close>, \<open>EXEC\<close>) that starts again when somebody else wrote the key. The client,
  the digest of a name and the JSON text of a value are parameters.
\<close>

section \<open>Keys and values\<close>

text \<open>\<open>scoped\<close> and \<open>refreshStateKey\<close> of \<open>keys.ts\<close>; \<open>None\<close> is a thrown error.\<close>

definition REDIS_KEY_PREFIX :: string where "REDIS_KEY_PREFIX = ''hyeboard:v1''"

definition scoped :: "(string \<Rightarrow> string) \<Rightarrow> string \<Rightarrow> string \<Rightarrow> string \<Rightarrow> string" where
  "scoped digest scope kind suffix = REDIS_KEY_PREFIX @ '':{'' @ digest scope @ ''}:'' @ kind @ (if suffix = [] then [] else '':'' @ suffix)"

definition refreshStateKey :: "(string \<Rightarrow> string) \<Rightarrow> string \<Rightarrow> string option" where
  "refreshStateKey digest principalKey =
     (if \<not> hex_n 64 principalKey then None else Some (scoped digest principalKey ''refresh'' []))"

record redis_env =
  re_digest :: "string \<Rightarrow> string"
  re_text :: "jval \<Rightarrow> string"
  re_parse :: "string \<Rightarrow> jval option"

text \<open>A state as \<open>JSON.stringify\<close> sees it: a field that is \<open>undefined\<close> is left out.\<close>

definition json_field :: "string \<Rightarrow> ('a \<Rightarrow> jval) \<Rightarrow> 'a option \<Rightarrow> (string \<times> jval) list" where
  "json_field k f x = (case x of None \<Rightarrow> [] | Some y \<Rightarrow> [(k, f y)])"

definition state_json :: "refresh_state \<Rightarrow> jval" where
  "state_json s = JObj (json_field ''active'' enc_pair (active s) @ json_field ''lease'' enc_lease (lease s) @
     [(''revokedAccess'', JObj (map (\<lambda>(k, e). (k, JInt e)) (revokedAccess s))),
      (''revokedGrants'', JObj (map (\<lambda>(k, t). (k, enc_tombstone t)) (revokedGrants s))),
      (''window'', enc_window (window s))] @ json_field ''activationWindow'' enc_window (activationWindow s))"

section \<open>Transitions\<close>

text \<open>
  One attempt: its clock, and the store after a write of the watched key by somebody else that
  came between \<open>WATCH\<close> and \<open>EXEC\<close>, if one did. The calls that follow one another on one node are
  queued, so that such a write is another node's.
\<close>

record 'r redis_attempt =
  at_now :: int
  at_disturbed :: "'r option"

definition read_state :: "'r redis_client \<Rightarrow> redis_env \<Rightarrow> 'r \<Rightarrow> int \<Rightarrow> string \<Rightarrow> refresh_error + refresh_state option" where
  "read_state rd env r now k = (case rd_get rd r now k of
     None \<Rightarrow> Inr None
   | Some raw \<Rightarrow> (case re_parse env raw of
       None \<Rightarrow> Inl InvalidState
     | Some v \<Rightarrow> parseVnuRefreshControlState v))"

definition exec_writes :: "'r redis_client \<Rightarrow> redis_env \<Rightarrow> 'r \<Rightarrow> int \<Rightarrow> string \<Rightarrow> refresh_state \<Rightarrow> 'r" where
  "exec_writes rd env r now k s = (
     if isQuiescentVnuRefreshState s then rd_del rd r now k
     else rd_set rd r now k (re_text env (state_json s))
       (max 1 ((case nextVnuRefreshAlarm s of None \<Rightarrow> now + 86400000 | Some t \<Rightarrow> t) - now)))"

fun redis_attempts ::
  "'r redis_client \<Rightarrow> redis_env \<Rightarrow> string \<Rightarrow> (refresh_state option \<Rightarrow> int \<Rightarrow> refresh_error + 'a transition_output) \<Rightarrow>
   'r redis_attempt list \<Rightarrow> 'r \<Rightarrow> (hyeboard_error + 'a) \<times> 'r" where
  "redis_attempts rd env k f [] r = (Inl vnuRefreshUnavailable, r)"
| "redis_attempts rd env k f (a # as) r = (case read_state rd env r (at_now a) k of
     Inl _ \<Rightarrow> (Inl vnuRefreshUnavailable, r)
   | Inr stored \<Rightarrow> (case f stored (at_now a) of
       Inl _ \<Rightarrow> (Inl vnuRefreshUnavailable, r)
     | Inr out \<Rightarrow>
         if \<not> out_changed out then (Inr (out_result out), r)
         else (case at_disturbed a of
             Some r' \<Rightarrow> redis_attempts rd env k f as r'
           | None \<Rightarrow> (Inr (out_result out), exec_writes rd env r (at_now a) k (out_state out)))))"

text \<open>\<open>maxAttempts\<close> is 8 unless the options say otherwise.\<close>

definition DEFAULT_ATTEMPTS :: nat where "DEFAULT_ATTEMPTS = 8"

definition redis_transition ::
  "'r redis_client \<Rightarrow> redis_env \<Rightarrow> nat \<Rightarrow> string \<Rightarrow> (refresh_state option \<Rightarrow> int \<Rightarrow> refresh_error + 'a transition_output) \<Rightarrow>
   ('a \<Rightarrow> refresh_reply) \<Rightarrow> 'r redis_attempt list \<Rightarrow> 'r \<Rightarrow> (hyeboard_error + refresh_reply) \<times> 'r" where
  "redis_transition rd env most principalKey f c as r = (case refreshStateKey (re_digest env) principalKey of
     None \<Rightarrow> (Inl vnuRefreshUnavailable, r)
   | Some k \<Rightarrow> (case redis_attempts rd env k f (take most as) r of (x, r') \<Rightarrow> (map_sum id c x, r')))"

text \<open>The methods; \<open>Inl None\<close> is the exception of \<open>assertLinkedPair\<close>.\<close>

fun redis_method ::
  "'r redis_client \<Rightarrow> redis_env \<Rightarrow> nat \<Rightarrow> string \<Rightarrow> refresh_call \<Rightarrow> 'r redis_attempt list \<Rightarrow> 'r \<Rightarrow> (hyeboard_error + refresh_reply) \<times> 'r" where
  "redis_method rd env n k (CActivate p) = redis_transition rd env n k (\<lambda>s t. applyActivatePair s p t) RActivate"
| "redis_method rd env n k (CCheck p) = redis_transition rd env n k (\<lambda>s t. applyCheckAccess s p t) RCheck"
| "redis_method rd env n k (CBegin p) = redis_transition rd env n k (\<lambda>s t. applyBeginRefresh s p t) RBegin"
| "redis_method rd env n k (CComplete old nxt) = redis_transition rd env n k (\<lambda>s t. applyCompleteRefresh s old nxt t) RComplete"
| "redis_method rd env n k (CAbort p b) = redis_transition rd env n k (\<lambda>s t. applyAbortRefresh s p b t) RAbort"
| "redis_method rd env n k (CRevokeByAccess p) = redis_transition rd env n k (\<lambda>s t. applyRevokeLinkedPairByAccess s p t) RRevoke"
| "redis_method rd env n k (CRevokePrincipal p) = redis_transition rd env n k (\<lambda>s t. applyRevokePrincipalByLinkedGrant s p t) RRevoke"
| "redis_method rd env n k (CRevokeExact p) = redis_transition rd env n k (\<lambda>s t. applyRevokeExactLinkedPair s p t) RRevoke"
| "redis_method rd env n k CAlarm = (\<lambda>as r. (Inl vnuRefreshUnavailable, r))"

definition redis_call ::
  "'r redis_client \<Rightarrow> redis_env \<Rightarrow> nat \<Rightarrow> string \<Rightarrow> refresh_call \<Rightarrow> 'r redis_attempt list \<Rightarrow> 'r \<Rightarrow> (hyeboard_error option + refresh_reply) \<times> 'r" where
  "redis_call rd env n k call as r = (
     if \<not> list_all valid_pair (call_pairs call) then (Inl None, r)
     else (case redis_method rd env n k call as r of (x, r') \<Rightarrow> (map_sum Some id x, r')))"

end
