(* ===== verification/RedisRefreshProps.thy ===== *)
theory RedisRefreshProps
  imports RedisRefresh RefreshProps
begin


text \<open>The stores an attempt may find: the first one and those others left.\<close>

definition stores_found :: "'r \<Rightarrow> 'r redis_attempt list \<Rightarrow> 'r set" where
  "stores_found r as = insert r {r'. \<exists>a \<in> set as. at_disturbed a = Some r'}"

lemma stores_found_later: "at_disturbed a = Some r1 \<Longrightarrow> stores_found r1 as \<subseteq> stores_found r (a # as)"
  by (auto simp: stores_found_def)

lemma redis_attempts_atomic:
  assumes "redis_attempts rd env k f as r = (Inr x, r')"
  shows "\<exists>a \<in> set as. \<exists>r0 \<in> stores_found r as. \<exists>stored out. read_state rd env r0 (at_now a) k = Inr stored
    \<and> f stored (at_now a) = Inr out \<and> x = out_result out
    \<and> r' = (if out_changed out then exec_writes rd env r0 (at_now a) k (out_state out) else r0)
    \<and> (out_changed out \<longrightarrow> at_disturbed a = None)"
  using assms
proof (induction "as" arbitrary: r)
  case Nil
  then show ?case by simp
next
  case (Cons a as)
  obtain stored out where so: "read_state rd env r (at_now a) k = Inr stored" "f stored (at_now a) = Inr out"
    using Cons.prems by (auto split: sum.splits)
  show ?case
  proof (cases "out_changed out \<and> at_disturbed a \<noteq> None")
    case True
    then obtain r1 where r1: "at_disturbed a = Some r1" by blast
    have "redis_attempts rd env k f as r1 = (Inr x, r')" using Cons.prems so True r1 by simp
    from Cons.IH [OF this] show ?thesis using stores_found_later [OF r1, of as r] by (meson list.set_intros(2) subsetD)
  next
    case False
    then show ?thesis using Cons.prems so by (auto simp: stores_found_def split: if_splits option.splits)
  qed
qed

lemma redis_attempts_exhausted:
  assumes "\<And>r t. r \<in> stores_found r0 as \<Longrightarrow> \<exists>stored out. read_state rd env r t k = Inr stored \<and> f stored t = Inr out"
    "redis_attempts rd env k f as r0 = (Inl e, r')"
  shows "\<forall>a \<in> set as. at_disturbed a \<noteq> None"
  using assms
proof (induction "as" arbitrary: r0)
  case (Cons a as)
  obtain stored out where so: "read_state rd env r0 (at_now a) k = Inr stored" "f stored (at_now a) = Inr out"
    using Cons.prems(1) [of r0 "at_now a"] by (auto simp: stores_found_def)
  then obtain r1 where r1: "at_disturbed a = Some r1" "redis_attempts rd env k f as r1 = (Inl e, r')"
    using Cons.prems(2) by (auto split: if_splits option.splits)
  have "\<forall>a \<in> set as. at_disturbed a \<noteq> None"
    by (rule Cons.IH [OF _ r1(2)]) (use Cons.prems(1) stores_found_later [OF r1(1), of as r0] in blast)
  then show ?case using r1(1) by simp
qed simp

section \<open>What is forgotten\<close>









definition undisturbed :: "int \<Rightarrow> 'r redis_attempt list" where
  "undisturbed now = [\<lparr>at_now = now, at_disturbed = None\<rparr>]"

lemma take_undisturbed [simp]: "0 < n \<Longrightarrow> take n (undisturbed t) = undisturbed t"
  by (cases n) (simp_all add: undisturbed_def)




text \<open>A pair that would live for a day, and one that replaces it ten minutes later.\<close>

definition day_pair :: "char \<Rightarrow> linked_pair" where
  "day_pair c = \<lparr>accessTokenId = replicate 22 c, accessExpiresAt = 86400000, grantId = replicate 22 c, grantExpiresAt = 86400000\<rparr>"






lemma day_times [simp]: "grantExpiresAt (day_pair c) = 86400000" "accessExpiresAt (day_pair c) = 86400000"
  by (simp_all add: day_pair_def)



end
