(* ===== verification/FeatureGate.thy ===== *)
theory FeatureGate
  imports FeaturePolicyProps VnuConfig ProbeBudget StudentResolver
begin

text \<open>
  What a deployment offers, in \<open>apps/worker/src/app.ts\<close>: the universities of the registry
  (\<open>packages/university-adapters\<close>), the limits the deployment adds to them, their resolution under
  the feature policy in force, and the gate \<open>requireFeature\<close> that every route of student data
  passes before it reaches an adapter.
\<close>

section \<open>The registry\<close>

definition mock_capabilities :: "capability \<Rightarrow> bool" where
  "mock_capabilities c \<longleftrightarrow> c \<notin> {ClassLookup, CrossLookup}"

definition uet_capabilities :: "capability \<Rightarrow> bool" where
  "uet_capabilities c \<longleftrightarrow> c \<notin> {Attendance, Documents, ClassLookup, CrossLookup}"

definition vnu_capabilities :: "capability \<Rightarrow> bool" where
  "vnu_capabilities c \<longleftrightarrow> c \<in> {Profile, Terms, Grades, Exams, Documents, TrainingPoints, ClassLookup, CrossLookup}"

definition theme :: "string \<Rightarrow> string \<Rightarrow> string \<Rightarrow> jval" where
  "theme primary accent soft = JObj [(''primary'', JStr primary), (''accent'', JStr accent), (''soft'', JStr soft)]"

definition mock_university :: university where
  "mock_university = \<lparr>uni_id = ''mock'', uni_name = ''Hyeboard Demo University'', uni_shortName = ''Demo'',
     uni_theme = theme ''#0A0A0A'' ''#525252'' ''#F5F5F5'', uni_capabilities = mock_capabilities, uni_limits = None\<rparr>"

definition uet_university :: university where
  "uet_university = \<lparr>uni_id = ''uet'', uni_name = ''University of Engineering and Technology, VNU'', uni_shortName = ''VNU-UET'',
     uni_theme = theme ''#003A70'' ''#0B6FAE'' ''#EFF6FF'', uni_capabilities = uet_capabilities, uni_limits = None\<rparr>"

definition vnu_university :: university where
  "vnu_university = \<lparr>uni_id = ''vnu'', uni_name = ''Vietnam National University, Hanoi (daotao portal)'', uni_shortName = ''VNU (daotao)'',
     uni_theme = theme ''#7A1E28'' ''#B23A47'' ''#FBEEEE'', uni_capabilities = vnu_capabilities, uni_limits = None\<rparr>"

definition listUniversities :: "university list" where
  "listUniversities = [mock_university, uet_university, vnu_university]"

definition unknownUniversity :: "string \<Rightarrow> hyeboard_error" where
  "unknownUniversity uid = core_error ''UNKNOWN_UNIVERSITY'' (''Unknown university: '' @ uid) 404"

section \<open>The limits of the deployment\<close>

text \<open>What the worker was started with: its settings, and whether a probe budget is installed.\<close>

record deployment =
  dp_config :: vnu_config
  dp_budget :: bool

definition code_mode_limit :: "int \<Rightarrow> int" where
  "code_mode_limit bulk = min bulk (300 div VNU_STUDENT_ID_RESOLVER_MAX_PROBES)"

definition native_limits :: "vnu_config \<Rightarrow> cross_lookup_limits" where
  "native_limits c = \<lparr>bulkMaxTargets = Whole (vc_bulkMaxTargets c),
     bulkDirectChunkMaxTargets = Some (Whole (vc_directChunkMaxTargets c)),
     bulkModeMaxTargets = Some [(''stdid-to-code'', Whole (vc_bulkMaxTargets c)),
       (''stdid-to-transcript'', Whole (vc_bulkMaxTargets c)),
       (''code-to-stdid'', Whole (code_mode_limit (vc_bulkMaxTargets c)))],
     crossDetail = (if vc_detailEnabled c then Some \<lparr>cd_maxTargets = Whole (vc_detailMaxTargets c),
       cd_maxRows = Whole (vc_detailMaxRows c), cd_concurrency = Whole (vc_detailConcurrency c)\<rparr> else None)\<rparr>"

definition serialize_native :: "deployment \<Rightarrow> university \<Rightarrow> university" where
  "serialize_native d u = (
     if \<not> dp_budget d \<and> uni_capabilities u CrossLookup
     then u\<lparr>uni_limits := None, uni_capabilities := (uni_capabilities u)(CrossLookup := False)\<rparr>
     else if dp_budget d \<and> uni_id u = ''vnu'' \<and> uni_capabilities u CrossLookup
     then u\<lparr>uni_limits := Some (Some (native_limits (dp_config d)))\<rparr>
     else u)"

definition serializeNativeUniversities :: "deployment \<Rightarrow> university list" where
  "serializeNativeUniversities d = map (serialize_native d) listUniversities"

definition find_native :: "deployment \<Rightarrow> string \<Rightarrow> university option" where
  "find_native d uid = List.find (\<lambda>u. uni_id u = uid) (serializeNativeUniversities d)"

text \<open>An entry for every limit that is there.\<close>

definition hard_entry :: "university \<Rightarrow> limit_key \<Rightarrow> (string \<times> js_number) option" where
  "hard_entry u k = map_option (\<lambda>v. (limit_name k, v)) (flattenLimits u k)"

definition effectiveHardLimits :: "deployment \<Rightarrow> hard_limits" where
  "effectiveHardLimits d = (case find_native d ''vnu'' of
     None \<Rightarrow> []
   | Some u \<Rightarrow> List.map_filter (hard_entry u) operationalLimitKeys)"

section \<open>The gate\<close>

text \<open>The policy in force is what the runtime answers (\<open>requireFeaturePolicyRuntime().current()\<close>).\<close>

definition resolveEffectiveUniversity ::
  "deployment \<Rightarrow> hyeboard_error + policy_content \<Rightarrow> string \<Rightarrow> hyeboard_error + university" where
  "resolveEffectiveUniversity d current uid = (case find_native d uid of
     None \<Rightarrow> Inl (unknownUniversity uid)
   | Some u \<Rightarrow> sbind current (\<lambda>policy. effectiveUniversity u policy (effectiveHardLimits d)))"

definition serializeUniversities :: "deployment \<Rightarrow> hyeboard_error + policy_content \<Rightarrow> hyeboard_error + university list" where
  "serializeUniversities d current = sbind current (\<lambda>policy.
     traverse (\<lambda>u. effectiveUniversity u policy (effectiveHardLimits d)) (serializeNativeUniversities d))"

definition featureDisabled :: "string \<Rightarrow> hyeboard_error" where
  "featureDisabled capability = \<lparr>err_code = ''FEATURE_DISABLED'', err_message = ''This feature is temporarily unavailable.'',
     err_status = 503, err_details = [(''capability'', JStr capability)]\<rparr>"

definition requireFeature ::
  "deployment \<Rightarrow> hyeboard_error + policy_content \<Rightarrow> string \<Rightarrow> capability \<Rightarrow> hyeboard_error + university" where
  "requireFeature d current uid c = sbind (resolveEffectiveUniversity d current uid) (\<lambda>u.
     if \<not> uni_capabilities u c then Inl (featureDisabled (capability_name c)) else Inr u)"

end
