(* ===== verification/CrossLookup.thy ===== *)
theory CrossLookup
  imports FeatureGate CrossDetail
begin

text \<open>
  The lookup of other students, in \<open>apps/worker/src/app.ts\<close>: the checks of its four routes, the
  reservation of oracle probes they make before any of them asks the portal, the permit each
  question holds, and the bulk route, whose workers resolve several students at a time. What
  the portal's pages parse to is an argument.
\<close>

section \<open>Bodies and limits\<close>

datatype bulk_mode = StdidToCode | CodeToStdid | StdidToTranscript

fun mode_name :: "bulk_mode \<Rightarrow> string" where
  "mode_name StdidToCode = ''stdid-to-code''"
| "mode_name CodeToStdid = ''code-to-stdid''"
| "mode_name StdidToTranscript = ''stdid-to-transcript''"

definition mode_of :: "jval \<Rightarrow> bulk_mode option" where
  "mode_of v = (case v of JStr s \<Rightarrow> List.find (\<lambda>m. mode_name m = s) [StdidToCode, CodeToStdid, StdidToTranscript] | _ \<Rightarrow> None)"

record bulk_body =
  bb_mode :: bulk_mode
  bb_targets :: "jval list"

text \<open>Limits in effect are whole numbers, so that the least of them is.\<close>

definition vnuBulkModeLimit :: "bulk_mode \<Rightarrow> cross_lookup_limits option \<Rightarrow> int" where
  "vnuBulkModeLimit mode limits = (case limits of
     None \<Rightarrow> 0
   | Some l \<Rightarrow> (let most = whole (bulkMaxTargets l) in
       min most (min
         (case bulkDirectChunkMaxTargets l of None \<Rightarrow> most | Some n \<Rightarrow> whole n)
         (case Option.bind (bulkModeMaxTargets l) (\<lambda>ms. map_of ms (mode_name mode)) of None \<Rightarrow> most | Some n \<Rightarrow> whole n))))"

definition bulk_error :: "string \<Rightarrow> string \<Rightarrow> hyeboard_error" where
  "bulk_error code message = core_error (''VNU_CROSS_LOOKUP_'' @ code) message 400"

definition parseVnuBulkLookupBody :: "jval \<Rightarrow> cross_lookup_limits option \<Rightarrow> hyeboard_error + bulk_body" where
  "parseVnuBulkLookupBody v limits = (case v of
     JObj _ \<Rightarrow>
       if prop_of ''allowCrossLookup'' v \<noteq> JBool True
       then Inl (bulk_error ''NOT_EXPLICITLY_ALLOWED'' ''Cross-student lookup requires the literal allowCrossLookup: true opt-in.'')
       else (case mode_of (prop_of ''mode'' v) of
         None \<Rightarrow> Inl (bulk_error ''MODE_INVALID'' ''Bulk cross-lookup mode is invalid.'')
       | Some mode \<Rightarrow> (case prop_of ''targets'' v of
           JArr (t # ts) \<Rightarrow>
             if int (length (t # ts)) > vnuBulkModeLimit mode limits
             then Inl (bulk_error ''CHUNK_TOO_LARGE'' ''Bulk cross-lookup chunk exceeds the selected mode limit.'')
             else Inr \<lparr>bb_mode = mode, bb_targets = t # ts\<rparr>
         | _ \<Rightarrow> Inl (bulk_error ''TARGETS_INVALID'' ''Bulk cross-lookup needs at least one target.'')))
   | _ \<Rightarrow> Inl (bulk_error ''BODY_INVALID'' ''Bulk cross-lookup needs a JSON object body.''))"

text \<open>\<open>request.json()\<close> may fail.\<close>

definition parseVnuBulkLookupRequest :: "jval option \<Rightarrow> cross_lookup_limits option \<Rightarrow> hyeboard_error + bulk_body" where
  "parseVnuBulkLookupRequest json limits = (case json of
     None \<Rightarrow> Inl (bulk_error ''BODY_INVALID'' ''Bulk cross-lookup needs a valid JSON object body.'')
   | Some v \<Rightarrow> parseVnuBulkLookupBody v limits)"

section \<open>Identities\<close>

definition std_id_pattern :: "string \<Rightarrow> bool" where
  "std_id_pattern s \<longleftrightarrow> 1 \<le> length s \<and> length s \<le> 11 \<and> all_digits s"

text \<open>What a profile page parses to.\<close>

record profile_ids =
  pf_internalStudentId :: "string option"
  pf_studentCode :: "string option"

record own_identity =
  ownStdId :: int
  ownCode :: "int option"

definition text_or_empty :: "string option \<Rightarrow> string" where
  "text_or_empty v = (case v of None \<Rightarrow> [] | Some s \<Rightarrow> s)"

definition parseVnuOwnIdentity :: "profile_ids \<Rightarrow> bool \<Rightarrow> hyeboard_error + own_identity" where
  "parseVnuOwnIdentity profile requireStudentCode = (let
     stdIdText = text_or_empty (pf_internalStudentId profile);
     codeText = text_or_empty (pf_studentCode profile) in
     if \<not> (std_id_pattern stdIdText \<and> pos_safe (number_of stdIdText)) then Inl incompleteVnuProfile
     else if STUDENT_CODE_PATTERN codeText \<and> pos_safe (number_of codeText)
     then Inr \<lparr>ownStdId = number_of stdIdText, ownCode = Some (number_of codeText)\<rparr>
     else if requireStudentCode then Inl incompleteVnuProfile
     else Inr \<lparr>ownStdId = number_of stdIdText, ownCode = None\<rparr>)"

definition isOwnStdId :: "own_identity \<Rightarrow> string \<Rightarrow> bool" where
  "isOwnStdId own target \<longleftrightarrow> number_of target = ownStdId own"

definition isOwnStudentCode :: "own_identity \<Rightarrow> string \<Rightarrow> bool" where
  "isOwnStudentCode own target \<longleftrightarrow> Some (number_of target) = ownCode own"

section \<open>Reservations and permits\<close>

text \<open>
  The allowance of a request: what is left of its reservation, how often the portal was asked,
  and how often \<open>consume\<close> threw because nothing was left, so that the portal was not asked.
\<close>

record allowance =
  al_remaining :: int
  al_asked :: nat
  al_refused :: nat

definition createVnuProbeAllowance :: "int \<Rightarrow> allowance" where
  "createVnuProbeAllowance units = \<lparr>al_remaining = units, al_asked = 0, al_refused = 0\<rparr>"

definition consume_unit :: "allowance \<Rightarrow> allowance" where
  "consume_unit a = (if al_remaining a \<le> 0 then a\<lparr>al_refused := al_refused a + 1\<rparr>
     else a\<lparr>al_remaining := al_remaining a - 1, al_asked := al_asked a + 1\<rparr>)"

definition vnuBulkReservationUnits :: "bulk_body \<Rightarrow> int" where
  "vnuBulkReservationUnits body =
     int (length (bb_targets body)) * (if bb_mode body = CodeToStdid then VNU_STUDENT_ID_RESOLVER_MAX_PROBES else 1)"

text \<open>\<open>None\<close> is the exception of an invalid worker count.\<close>

definition bulkResolverCandidateWidth :: "int \<Rightarrow> int option" where
  "bulkResolverCandidateWidth activeWorkerCount =
     (if \<not> safe_integer activeWorkerCount \<or> activeWorkerCount < 1 \<or> activeWorkerCount > int VNU_BRC1_PERMIT_LIMIT then None
      else Some (int VNU_BRC1_PERMIT_LIMIT div activeWorkerCount))"

definition reserveVnuOracleProbes ::
  "core_platform \<Rightarrow> string \<Rightarrow> budget_ns \<Rightarrow> jval \<Rightarrow> int \<Rightarrow> int \<Rightarrow> (hyeboard_error + unit) \<times> budget_ns" where
  "reserveVnuOracleProbes cp secret ns session amount now = (case vnuProbeBudgetKey cp secret session of
     Inl e \<Rightarrow> (Inl e, ns)
   | Inr key \<Rightarrow> (case budget_coordinator ns key now (OCharge True amount) of
       (Inl (Rejected h), ns') \<Rightarrow> (Inl h, ns')
     | (Inl _, ns') \<Rightarrow> (Inl probeBudgetUnavailable, ns')
     | (Inr _, ns') \<Rightarrow> (Inr (), ns')))"

text \<open>
  One question to the portal under a permit: the signal while the permit is asked for, whether
  it is aborted when the permit has come, what other requests do to the budget meanwhile, and
  the time of the release, whose failure is ignored.
\<close>

record permit_env =
  pm_now :: int
  pm_lease :: string
  pm_abort :: abort
  pm_cancelled :: bool
  pm_others :: "budget_ns \<Rightarrow> budget_ns"
  pm_later :: int

definition withVnuOraclePermit ::
  "core_platform \<Rightarrow> string \<Rightarrow> jval \<Rightarrow> permit_env \<Rightarrow> (hyeboard_error option + 'a) \<Rightarrow> budget_ns \<Rightarrow>
   (hyeboard_error option + 'a) \<times> budget_ns" where
  "withVnuOraclePermit cp secret session env work ns = (case vnuProbeBudgetKey cp secret session of
     Inl e \<Rightarrow> (Inl (Some e), ns)
   | Inr key \<Rightarrow> (case budget_coordinator ns key (pm_now env) (OAcquire (pm_lease env) (pm_abort env)) of
       (Inl e, ns') \<Rightarrow> (Inl (thrown e), ns')
     | (Inr (RLease (LeaseGranted i until)), ns') \<Rightarrow>
         (if pm_cancelled env then Inl None else work,
          snd (budget_coordinator (if pm_cancelled env then ns' else pm_others env ns') key (pm_later env) (ORelease i)))
     | (Inr _, ns') \<Rightarrow> (Inl None, ns')))"

section \<open>The checks of the routes\<close>

definition sessionMismatch :: hyeboard_error where
  "sessionMismatch = core_error ''SESSION_UNIVERSITY_MISMATCH'' ''Session university does not match route'' 403"

definition lookup_gate ::
  "deployment \<Rightarrow> hyeboard_error + policy_content \<Rightarrow> jval \<Rightarrow> hyeboard_error + university" where
  "lookup_gate d current session =
     (if prop_of ''universityId'' session \<noteq> JStr ''vnu'' then Inl sessionMismatch
      else requireFeature d current ''vnu'' CrossLookup)"

record lookup_query =
  lq_stdId :: "string option"
  lq_stdCode :: "string option"
  lq_allow :: "string option"

definition not_allowed :: hyeboard_error where
  "not_allowed = bulk_error ''NOT_EXPLICITLY_ALLOWED'' ''Cross-student lookup requires the explicit allowCrossLookup=true opt-in.''"

definition selfTarget :: "string \<Rightarrow> hyeboard_error" where
  "selfTarget message = bulk_error ''SELF_TARGET'' message"

definition studentNotFound :: "string \<Rightarrow> hyeboard_error" where
  "studentNotFound message = core_error ''VNU_CROSS_LOOKUP_NOT_FOUND'' message 404"

definition notConverged :: hyeboard_error where
  "notConverged = core_error ''VNU_CROSS_LOOKUP_NOT_CONVERGED''
     ''Could not resolve an internal student id within the bounded local window.'' 404"

text \<open>Whom a request asks for; both forms have passed their pattern.\<close>

datatype lookup_target = ById string | ByCode string

datatype lookup_route = StudentCodeRoute | StudentIdRoute | TranscriptRoute

fun target_of_query :: "lookup_route \<Rightarrow> lookup_query \<Rightarrow> hyeboard_error + lookup_target" where
  "target_of_query StudentCodeRoute q = (case lq_stdId q of
     Some s \<Rightarrow> if std_id_pattern s then Inr (ById s)
       else Inl (bulk_error ''QUERY_INCOMPLETE'' ''Cross-student student-code lookup needs a target student id.'')
   | None \<Rightarrow> Inl (bulk_error ''QUERY_INCOMPLETE'' ''Cross-student student-code lookup needs a target student id.''))"
| "target_of_query StudentIdRoute q = (case lq_stdCode q of
     Some s \<Rightarrow> if STUDENT_CODE_PATTERN s then Inr (ByCode s)
       else Inl (bulk_error ''QUERY_INCOMPLETE'' ''Cross-student student-id lookup needs a target 8-digit student code.'')
   | None \<Rightarrow> Inl (bulk_error ''QUERY_INCOMPLETE'' ''Cross-student student-id lookup needs a target 8-digit student code.''))"
| "target_of_query TranscriptRoute q = (case (lq_stdId q, lq_stdCode q) of
     (Some s, None) \<Rightarrow> if std_id_pattern s then Inr (ById s)
       else Inl (bulk_error ''QUERY_INCOMPLETE'' ''Cross-student transcript lookup needs exactly one valid target: stdId or 8-digit stdCode.'')
   | (None, Some s) \<Rightarrow> if STUDENT_CODE_PATTERN s then Inr (ByCode s)
       else Inl (bulk_error ''QUERY_INCOMPLETE'' ''Cross-student transcript lookup needs exactly one valid target: stdId or 8-digit stdCode.'')
   | _ \<Rightarrow> Inl (bulk_error ''QUERY_INCOMPLETE'' ''Cross-student transcript lookup needs exactly one valid target: stdId or 8-digit stdCode.''))"

fun requires_code :: "lookup_route \<Rightarrow> bool" where
  "requires_code StudentCodeRoute = False"
| "requires_code StudentIdRoute = True"
| "requires_code TranscriptRoute = True"

fun own_page :: "lookup_route \<Rightarrow> string" where
  "own_page TranscriptRoute = ''Your own transcript is on the Grades page''"
| "own_page _ = ''Your own ID mapping is on the Lookup page''"

fun self_target_checked :: "lookup_route \<Rightarrow> own_identity \<Rightarrow> lookup_target \<Rightarrow> hyeboard_error + unit" where
  "self_target_checked r own (ById s) = (if isOwnStdId own s
     then Inl (selfTarget (''That is your own student id. '' @ own_page r @ ''; cross-lookup is only for other students.'')) else Inr ())"
| "self_target_checked r own (ByCode s) = (if isOwnStudentCode own s
     then Inl (selfTarget (''That is your own student code. '' @ own_page r @ ''; cross-lookup is only for other students.'')) else Inr ())"

definition lookup_units :: "lookup_route \<Rightarrow> lookup_target \<Rightarrow> int" where
  "lookup_units r t = (case t of
     ById _ \<Rightarrow> 1
   | ByCode _ \<Rightarrow> if r = TranscriptRoute then VNU_STUDENT_ID_RESOLVER_MAX_PROBES + 1 else VNU_STUDENT_ID_RESOLVER_MAX_PROBES)"

text \<open>Everything a single lookup does before it asks for another student; the profile may fail to load.\<close>

definition lookup_admission ::
  "lookup_route \<Rightarrow> deployment \<Rightarrow> hyeboard_error + policy_content \<Rightarrow> jval \<Rightarrow> lookup_query \<Rightarrow> hyeboard_error option + profile_ids \<Rightarrow>
   hyeboard_error option + own_identity \<times> lookup_target" where
  "lookup_admission r d current session q profile =
     sbind (lift_core (lookup_gate d current session)) (\<lambda>_.
     if lq_allow q \<noteq> Some ''true'' then Inl (Some not_allowed)
     else sbind (lift_core (target_of_query r q)) (\<lambda>t.
     sbind profile (\<lambda>pf.
     sbind (lift_core (parseVnuOwnIdentity pf (requires_code r))) (\<lambda>own.
     sbind (lift_core (self_target_checked r own t)) (\<lambda>_. Inr (own, t))))))"

definition lookup_begin ::
  "lookup_route \<Rightarrow> deployment \<Rightarrow> hyeboard_error + policy_content \<Rightarrow> core_platform \<Rightarrow> string \<Rightarrow> budget_ns \<Rightarrow> jval \<Rightarrow> lookup_query \<Rightarrow>
   hyeboard_error option + profile_ids \<Rightarrow> int \<Rightarrow> (hyeboard_error option + own_identity \<times> lookup_target \<times> allowance) \<times> budget_ns" where
  "lookup_begin r d current cp secret ns session q profile now = (case lookup_admission r d current session q profile of
     Inl e \<Rightarrow> (Inl e, ns)
   | Inr (own, t) \<Rightarrow> (case reserveVnuOracleProbes cp secret ns session (lookup_units r t) now of
       (Inl e, ns') \<Rightarrow> (Inl (Some e), ns')
     | (Inr _, ns') \<Rightarrow> (Inr (own, t, createVnuProbeAllowance (lookup_units r t)), ns')))"

section \<open>The resolution of one student\<close>

text \<open>
  A resolver whose probes consume the allowance: each probe that starts calls \<open>fetchStudentCode\<close>,
  which consumes a unit first.
\<close>

definition resolver_arguments :: "own_identity \<Rightarrow> string \<Rightarrow> int \<Rightarrow> resolver_options" where
  "resolver_arguments own target conc = \<lparr>ro_own_std_id = Whole (ownStdId own),
     ro_own_code = (case ownCode own of Some c \<Rightarrow> Whole c | None \<Rightarrow> NotWhole),
     ro_target_code = target, ro_concurrency = Whole conc, ro_platform_limit = None\<rparr>"

definition started :: "'e resolver \<Rightarrow> 'e resolver \<Rightarrow> nat" where
  "started r r' = rv_probes r' - rv_probes r"

definition consume_units :: "nat \<Rightarrow> allowance \<Rightarrow> allowance" where
  "consume_units n a = (consume_unit ^^ n) a"

type_synonym thrown_value = "hyeboard_error option"

record metered =
  mt_resolver :: "thrown_value resolver"
  mt_allowance :: allowance

definition metered_begin :: "resolver_options \<Rightarrow> thrown_value option \<Rightarrow> allowance \<Rightarrow> thrown_value failure + metered" where
  "metered_begin o1 aborted a = sbind (begin_resolution o1 aborted) (\<lambda>r.
     Inr \<lparr>mt_resolver = r, mt_allowance = consume_units (rv_probes r) a\<rparr>)"

definition metered_step :: "(thrown_value \<Rightarrow> bool) \<Rightarrow> thrown_value \<Rightarrow> metered \<Rightarrow> thrown_value resolver_event \<Rightarrow> metered" where
  "metered_step is_abort reason m ev = (let r' = rv_step is_abort reason (mt_resolver m) ev in
     \<lparr>mt_resolver = r', mt_allowance = consume_units (started (mt_resolver m) r') (mt_allowance m)\<rparr>)"

definition metered_enabled :: "metered \<Rightarrow> thrown_value resolver_event \<Rightarrow> bool" where
  "metered_enabled m ev = rv_enabled (mt_resolver m) ev"

text \<open>What a failed resolution throws.\<close>

fun failure_thrown :: "thrown_value failure \<Rightarrow> thrown_value" where
  "failure_thrown NotConverged = Some notConverged"
| "failure_thrown (BadOption _) = None"
| "failure_thrown (Raised e) = e"

text \<open>
  The question for one identifier: the page under a permit, \<open>None\<close> if it names no student. The
  transcript route asks it after a resolution, with the unit that is left.
\<close>

definition answer_by_id :: "allowance \<Rightarrow> thrown_value + 'r option \<Rightarrow> (thrown_value + 'r) \<times> allowance" where
  "answer_by_id a page = (if al_remaining a \<le> 0 then Inl None
     else (case page of
         Inl e \<Rightarrow> Inl e
       | Inr None \<Rightarrow> Inl (Some (studentNotFound ''The portal did not return a student for that identifier.''))
       | Inr (Some r) \<Rightarrow> Inr r), consume_unit a)"

section \<open>The bulk route\<close>

definition isIsolatedBulkLookupError :: "thrown_value \<Rightarrow> bool" where
  "isIsolatedBulkLookupError e = (case e of None \<Rightarrow> False
     | Some h \<Rightarrow> err_code h = ''VNU_CROSS_LOOKUP_NOT_FOUND'' \<or> err_code h = ''VNU_CROSS_LOOKUP_NOT_CONVERGED'')"

datatype 'r bulk_item = BulkOk string 'r | BulkError string string

definition raw_target :: "jval \<Rightarrow> string" where
  "raw_target v = (case v of JStr s \<Rightarrow> s | _ \<Rightarrow> [])"

definition invalid_target :: "(string \<Rightarrow> bool) \<Rightarrow> jval \<Rightarrow> bool" where
  "invalid_target valid v = (case v of JStr s \<Rightarrow> \<not> valid s | _ \<Rightarrow> True)"

definition own_target :: "bulk_mode \<Rightarrow> own_identity \<Rightarrow> string \<Rightarrow> bool" where
  "own_target mode own s = (if mode = CodeToStdid then isOwnStudentCode own s else isOwnStdId own s)"

definition target_pattern :: "bulk_mode \<Rightarrow> string \<Rightarrow> bool" where
  "target_pattern mode = (if mode = CodeToStdid then STUDENT_CODE_PATTERN else std_id_pattern)"

text \<open>A target that is answered without asking the portal.\<close>

definition refused_target :: "bulk_mode \<Rightarrow> own_identity \<Rightarrow> jval \<Rightarrow> 'r bulk_item option" where
  "refused_target mode own v = (
     if invalid_target (target_pattern mode) v then Some (BulkError (raw_target v) ''VNU_CROSS_LOOKUP_INVALID_TARGET'')
     else if own_target mode own (raw_target v) then Some (BulkError (raw_target v) ''VNU_CROSS_LOOKUP_SELF_TARGET'')
     else None)"

text \<open>Admission of a bulk request up to its reservation.\<close>

definition bulk_begin ::
  "deployment \<Rightarrow> hyeboard_error + policy_content \<Rightarrow> core_platform \<Rightarrow> string \<Rightarrow> budget_ns \<Rightarrow> jval \<Rightarrow> jval option \<Rightarrow>
   hyeboard_error option + profile_ids \<Rightarrow> int \<Rightarrow> (hyeboard_error option + bulk_body \<times> own_identity \<times> allowance) \<times> budget_ns" where
  "bulk_begin d current cp secret ns session json profile now =
     (case sbind (lift_core (lookup_gate d current session)) (\<lambda>u.
           sbind (lift_core (parseVnuBulkLookupRequest json (Option.bind (uni_limits u) id))) (\<lambda>body.
           sbind profile (\<lambda>pf.
           sbind (lift_core (parseVnuOwnIdentity pf (bb_mode body = CodeToStdid))) (\<lambda>own. Inr (body, own))))) of
       Inl e \<Rightarrow> (Inl e, ns)
     | Inr (body, own) \<Rightarrow> (case reserveVnuOracleProbes cp secret ns session (vnuBulkReservationUnits body) now of
         (Inl e, ns') \<Rightarrow> (Inl (Some e), ns')
       | (Inr _, ns') \<Rightarrow> (Inr (body, own, createVnuProbeAllowance (vnuBulkReservationUnits body)), ns')))"

text \<open>
  The two direct modes: one target after the other. \<open>lookup\<close> is the answer to a question under a
  permit (the student's data, \<open>None\<close> if the page names no student), \<open>cancelled\<close> tells whether the
  deadline has passed when a target is reached.
\<close>

fun bulk_direct ::
  "bulk_mode \<Rightarrow> own_identity \<Rightarrow> (string \<Rightarrow> thrown_value + 'r option) \<Rightarrow> (nat \<Rightarrow> bool) \<Rightarrow> jval list \<Rightarrow>
   allowance \<Rightarrow> 'r bulk_item list \<Rightarrow> (thrown_value + 'r bulk_item list) \<times> allowance" where
  "bulk_direct mode own lookup cancelled [] a items = (Inr items, a)"
| "bulk_direct mode own lookup cancelled (v # vs) a items = (
     if cancelled (length items) then (Inl None, a)
     else case refused_target mode own v of
       Some item \<Rightarrow> bulk_direct mode own lookup cancelled vs a (items @ [item])
     | None \<Rightarrow>
         if al_remaining a \<le> 0 then (Inl None, consume_unit a)
         else (case lookup (raw_target v) of
             Inr (Some r) \<Rightarrow> bulk_direct mode own lookup cancelled vs (consume_unit a) (items @ [BulkOk (raw_target v) r])
           | Inr None \<Rightarrow> bulk_direct mode own lookup cancelled vs (consume_unit a)
               (items @ [BulkError (raw_target v) ''VNU_CROSS_LOOKUP_NOT_FOUND''])
           | Inl e \<Rightarrow> if isIsolatedBulkLookupError e
               then bulk_direct mode own lookup cancelled vs (consume_unit a)
                 (items @ [BulkError (raw_target v) (case e of Some h \<Rightarrow> err_code h | None \<Rightarrow> [])])
               else (Inl e, consume_unit a)))"

section \<open>The workers of a bulk resolution\<close>

text \<open>
  The mode that resolves student codes. A worker takes the next target, refuses it or resolves
  it with probes of its own, and goes on; an error that is not the target's own aborts the
  deadline, which every other resolution listens to. A step is a worker taking a target, one
  event of the resolution of a worker, or the deadline (or the caller) aborting.
\<close>

datatype lane = Ready | Working nat "thrown_value resolver" | Returned | Threw thrown_value

record bulk =
  bk_targets :: "jval list"
  bk_own :: own_identity
  bk_width :: int
  bk_next :: nat
  bk_items :: "resolution bulk_item option list"
  bk_lanes :: "lane list"
  bk_abort :: "thrown_value option"
  bk_allowance :: allowance

definition active_workers :: "vnu_config \<Rightarrow> jval list \<Rightarrow> nat" where
  "active_workers cfg targets = nat (min (vc_bulkTargetConcurrency cfg) (int (length targets)))"

definition bulk_workers :: "vnu_config \<Rightarrow> bulk_body \<Rightarrow> own_identity \<Rightarrow> allowance \<Rightarrow> thrown_value + bulk" where
  "bulk_workers cfg body own a =
     (case bulkResolverCandidateWidth (int (active_workers cfg (bb_targets body))) of
        None \<Rightarrow> Inl None
      | Some w \<Rightarrow> Inr \<lparr>bk_targets = bb_targets body, bk_own = own, bk_width = w, bk_next = 0,
          bk_items = replicate (length (bb_targets body)) None,
          bk_lanes = replicate (active_workers cfg (bb_targets body)) Ready, bk_abort = None, bk_allowance = a\<rparr>)"

fun lane_aborts :: "thrown_value \<Rightarrow> lane \<Rightarrow> lane" where
  "lane_aborts e (Working i r) = Working i (caller_aborts e r)"
| "lane_aborts e l = l"

definition abort_bulk :: "thrown_value \<Rightarrow> bulk \<Rightarrow> bulk" where
  "abort_bulk e b = (if bk_abort b \<noteq> None then b
     else b\<lparr>bk_abort := Some e, bk_lanes := map (lane_aborts e) (bk_lanes b)\<rparr>)"

definition put_item :: "nat \<Rightarrow> resolution bulk_item \<Rightarrow> bulk \<Rightarrow> bulk" where
  "put_item i x b = b\<lparr>bk_items := (bk_items b)[i := Some x]\<rparr>"

definition put_lane :: "nat \<Rightarrow> lane \<Rightarrow> bulk \<Rightarrow> bulk" where
  "put_lane w l b = b\<lparr>bk_lanes := (bk_lanes b)[w := l]\<rparr>"

text \<open>The end of a resolution in worker \<open>w\<close> for target \<open>i\<close>.\<close>

definition settle_target :: "nat \<Rightarrow> nat \<Rightarrow> thrown_value failure + resolution \<Rightarrow> bulk \<Rightarrow> bulk" where
  "settle_target w i r b = (let target = raw_target (bk_targets b ! i) in case r of
     Inr res \<Rightarrow> put_lane w Ready (put_item i (BulkOk target res) b)
   | Inl f \<Rightarrow> (case failure_thrown f of e \<Rightarrow>
       if isIsolatedBulkLookupError e
       then put_lane w Ready (put_item i (BulkError target (case e of Some h \<Rightarrow> err_code h | None \<Rightarrow> [])) b)
       else put_lane w (Threw e) (abort_bulk e (put_lane w Returned b))))"

text \<open>A resolution that is over leaves its worker.\<close>

definition after_event :: "nat \<Rightarrow> nat \<Rightarrow> thrown_value resolver \<Rightarrow> bulk \<Rightarrow> bulk" where
  "after_event w i r b = (case rv_phase r of
     Finished res \<Rightarrow> settle_target w i res b
   | _ \<Rightarrow> put_lane w (Working i r) b)"

definition take_target :: "nat \<Rightarrow> bulk \<Rightarrow> bulk" where
  "take_target w b = (case bk_abort b of
     Some e \<Rightarrow> put_lane w (Threw e) b
   | None \<Rightarrow> (let i = bk_next b; b1 = b\<lparr>bk_next := Suc (bk_next b)\<rparr> in
       if length (bk_targets b) \<le> i then put_lane w Returned b1
       else case refused_target CodeToStdid (bk_own b) (bk_targets b ! i) of
         Some item \<Rightarrow> put_item i item b1
       | None \<Rightarrow> (case begin_resolution (resolver_arguments (bk_own b) (raw_target (bk_targets b ! i)) (bk_width b)) None of
           Inl f \<Rightarrow> settle_target w i (Inl f) b1
         | Inr r \<Rightarrow> put_lane w (Working i r) (b1\<lparr>bk_allowance := consume_units (rv_probes r) (bk_allowance b1)\<rparr>))))"

datatype bulk_event = Takes nat | Probe nat "thrown_value resolver_event" | Aborts thrown_value

definition lane_of :: "bulk \<Rightarrow> nat \<Rightarrow> lane" where
  "lane_of b w = (if w < length (bk_lanes b) then bk_lanes b ! w else Returned)"

text \<open>\<open>reason\<close> is what the resolver cancels its other probes with once it has found the student.\<close>

fun bulk_step :: "(thrown_value \<Rightarrow> bool) \<Rightarrow> thrown_value \<Rightarrow> bulk \<Rightarrow> bulk_event \<Rightarrow> bulk" where
  "bulk_step is_abort reason b (Takes w) = take_target w b"
| "bulk_step is_abort reason b (Probe w ev) = (case lane_of b w of
     Working i r \<Rightarrow> (let r' = rv_step is_abort reason r ev in
       after_event w i r' (b\<lparr>bk_allowance := consume_units (started r r') (bk_allowance b)\<rparr>))
   | _ \<Rightarrow> b)"
| "bulk_step is_abort reason b (Aborts e) = abort_bulk e b"

fun caller_event :: "'e resolver_event \<Rightarrow> bool" where
  "caller_event (CallerAborts e) = True"
| "caller_event _ = False"

fun bulk_enabled :: "bulk \<Rightarrow> bulk_event \<Rightarrow> bool" where
  "bulk_enabled b (Takes w) = (w < length (bk_lanes b) \<and> bk_lanes b ! w = Ready)"
| "bulk_enabled b (Probe w ev) = (\<not> caller_event ev \<and> (case lane_of b w of Working i r \<Rightarrow> rv_enabled r ev | _ \<Rightarrow> False))"
| "bulk_enabled b (Aborts e) = (bk_abort b = None)"

fun lane_over :: "lane \<Rightarrow> bool" where
  "lane_over Returned = True"
| "lane_over (Threw e) = True"
| "lane_over _ = False"

fun lane_threw :: "lane \<Rightarrow> thrown_value option" where
  "lane_threw (Threw e) = Some e"
| "lane_threw _ = None"

text \<open>\<open>Promise.allSettled\<close>, the first rejection, or the items.\<close>

definition bulk_answer :: "bulk \<Rightarrow> (thrown_value + resolution bulk_item option list) option" where
  "bulk_answer b = (if \<not> list_all lane_over (bk_lanes b) then None
     else Some (case List.map_filter lane_threw (bk_lanes b) of
       [] \<Rightarrow> Inr (bk_items b) | e # es \<Rightarrow> Inl e))"

end
