(* ===== verification/FeatureGateProps.thy ===== *)
theory FeatureGateProps
  imports FeatureGate
begin

text \<open>
  What the gate lets through: the natives of the registry, the ceilings of a deployment, and that
  every effective limit of a lookup is within what one reservation of the probe budget allows.
\<close>

section \<open>Natives\<close>

lemma uni_simps [simp]:
  "uni_id mock_university = ''mock''" "uni_id uet_university = ''uet''" "uni_id vnu_university = ''vnu''"
  "uni_capabilities mock_university = mock_capabilities" "uni_capabilities uet_university = uet_capabilities"
  "uni_capabilities vnu_university = vnu_capabilities"
  by (simp_all add: mock_university_def uet_university_def vnu_university_def)

lemma no_lookup [simp]: "\<not> mock_capabilities CrossLookup" "\<not> uet_capabilities CrossLookup" "vnu_capabilities CrossLookup"
  by (simp_all add: mock_capabilities_def uet_capabilities_def vnu_capabilities_def)

lemma serialize_native_id [simp]: "uni_id (serialize_native d u) = uni_id u"
  by (simp add: serialize_native_def)

lemma find_native_simps:
  "find_native d ''mock'' = Some mock_university" "find_native d ''uet'' = Some uet_university"
  "find_native d ''vnu'' = Some (serialize_native d vnu_university)"
  by (simp_all add: find_native_def serializeNativeUniversities_def listUniversities_def serialize_native_def)

lemma find_native_unknown: "uid \<notin> {''mock'', ''uet'', ''vnu''} \<Longrightarrow> find_native d uid = None"
  by (auto simp: find_native_def serializeNativeUniversities_def listUniversities_def)

lemma find_native_iff:
  "find_native d uid = Some u \<longleftrightarrow> (uid = ''mock'' \<and> u = mock_university) \<or> (uid = ''uet'' \<and> u = uet_university)
     \<or> (uid = ''vnu'' \<and> u = serialize_native d vnu_university)"
proof -
  consider "uid = ''mock''" | "uid = ''uet''" | "uid = ''vnu''" | "uid \<notin> {''mock'', ''uet'', ''vnu''}" by blast
  then show ?thesis
    by cases (auto simp: find_native_simps find_native_unknown)
qed

text \<open>What an adapter supports as it is served: the lookup of others needs a budget.\<close>

definition supports :: "deployment \<Rightarrow> string \<Rightarrow> capability \<Rightarrow> bool" where
  "supports d uid c \<longleftrightarrow> (uid = ''mock'' \<and> mock_capabilities c) \<or> (uid = ''uet'' \<and> uet_capabilities c)
     \<or> (uid = ''vnu'' \<and> vnu_capabilities c \<and> (c = CrossLookup \<longrightarrow> dp_budget d))"

lemma vnu_served:
  "uni_capabilities (serialize_native d vnu_university) c \<longleftrightarrow> vnu_capabilities c \<and> (c = CrossLookup \<longrightarrow> dp_budget d)"
  by (cases "dp_budget d") (simp_all add: serialize_native_def)

lemma native_supports: "find_native d uid = Some u \<Longrightarrow> uni_capabilities u c \<longleftrightarrow> supports d uid c"
  unfolding find_native_iff by (elim disjE conjE; simp add: supports_def vnu_served)

section \<open>Ceilings\<close>

definition config_safe :: "vnu_config \<Rightarrow> bool" where
  "config_safe c \<longleftrightarrow> config_ok c \<and> 0 \<le> vc_detailMaxTargets c \<and> vc_detailMaxTargets c \<le> max_safe_integer
     \<and> 0 \<le> vc_detailMaxRows c \<and> vc_detailMaxRows c \<le> max_safe_integer
     \<and> 0 \<le> vc_detailConcurrency c \<and> vc_detailConcurrency c \<le> 16"

lemma effective_config_safe: "config_safe (effective_config input)"
  using config_ok [of input] parseCrossDetailBound_bounds [of 50 "input vnu_setting.DetailMaxTargets"]
    parseCrossDetailBound_bounds [of 200 "input vnu_setting.DetailMaxRows"]
    parseCrossDetailRanged_bounds [of 1 6 16 "input vnu_setting.DetailConcurrency"]
  by (auto simp: config_safe_def effective_config_def Let_def CROSS_DETAIL_DEFAULTS_def max_safe_integer_def)

lemma limit_of_vnu:
  "dp_budget d \<Longrightarrow> flattenLimits (serialize_native d vnu_university) k = (let c = dp_config d in
     case k of limit_key.BulkMaxTargets \<Rightarrow> Some (Whole (vc_bulkMaxTargets c))
     | BulkDirectChunk \<Rightarrow> Some (Whole (vc_directChunkMaxTargets c))
     | ModeStdidToCode \<Rightarrow> Some (Whole (vc_bulkMaxTargets c))
     | ModeStdidToTranscript \<Rightarrow> Some (Whole (vc_bulkMaxTargets c))
     | ModeCodeToStdid \<Rightarrow> Some (Whole (code_mode_limit (vc_bulkMaxTargets c)))
     | limit_key.DetailMaxTargets \<Rightarrow> if vc_detailEnabled c then Some (Whole (vc_detailMaxTargets c)) else None
     | limit_key.DetailMaxRows \<Rightarrow> if vc_detailEnabled c then Some (Whole (vc_detailMaxRows c)) else None
     | limit_key.DetailConcurrency \<Rightarrow> if vc_detailEnabled c then Some (Whole (vc_detailConcurrency c)) else None)"
  by (cases k) (simp_all add: flattenLimits_def serialize_native_def native_limits_def Let_def)

section \<open>Resolution\<close>

lemma limit_name_inject: "limit_name k = limit_name k' \<longleftrightarrow> k = k'"
  by (cases k; cases k'; simp)

text \<open>The hard limits are those of the natives, all of them safe.\<close>

lemma hard_of_vnu:
  "hard_limit (effectiveHardLimits d) k = flattenLimits (serialize_native d vnu_university) k"
proof -
  have "map_of (List.map_filter (hard_entry u) ks) (limit_name k) =
      (if k \<in> set ks then flattenLimits u k else None)" if "distinct ks" for u ks
    using that by (induction ks) (auto simp: List.map_filter_simps hard_entry_def limit_name_inject split: option.splits)
  then show ?thesis
    by (simp add: hard_limit_def effectiveHardLimits_def find_native_simps)
qed

lemma vnu_limit_range:
  assumes "config_safe (dp_config d)" "flattenLimits (serialize_native d vnu_university) k = Some v"
  shows "\<exists>n. v = Whole n \<and> 0 \<le> n \<and> n \<le> max_safe_integer"
proof (cases "dp_budget d")
  case True
  then show ?thesis using assms(2) limit_of_vnu [OF True, of k] assms(1)
    by (cases k) (auto simp: Let_def config_safe_def config_ok_def code_mode_limit_def max_safe_integer_def
        VNU_STUDENT_ID_RESOLVER_MAX_PROBES_def LOCAL_RADIUS_def split: if_splits)
next
  case False
  then show ?thesis using assms(2) by (simp add: serialize_native_def flattenLimits_def)
qed

lemma safe_ceiling: "0 \<le> n \<Longrightarrow> n \<le> max_safe_integer \<Longrightarrow> isSafeCeiling (Some (Whole n))"
  by (simp add: isSafeCeiling_def safe_integer_def max_safe_integer_def)

lemma hard_limits_valid:
  assumes "config_safe (dp_config d)"
  shows "validateHardLimits (effectiveHardLimits d) = Inr ()"
proof -
  have "validateHardLimits (List.map_filter (hard_entry (serialize_native d vnu_university)) ks) = Inr ()" for ks
  proof (induction ks)
    case (Cons k ks)
    have "limit_key_of (limit_name k) \<noteq> None"
      by (auto simp: limit_key_of_def find_None_iff)
    with Cons vnu_limit_range [OF assms, of k] show ?case
      by (auto simp: List.map_filter_simps hard_entry_def safe_ceiling split: option.splits)
  qed (simp add: List.map_filter_simps)
  then show ?thesis by (simp add: effectiveHardLimits_def find_native_simps)
qed

text \<open>The ceiling of a limit of the lookup is the limit of the deployment.\<close>

lemma vnu_ceiling:
  assumes "config_safe (dp_config d)" "flattenLimits (serialize_native d vnu_university) k = Some (Whole n)"
  shows "ceiling_of (flattenLimits (serialize_native d vnu_university) k) (hard_limit (effectiveHardLimits d) k) = Some n"
  using vnu_limit_range [OF assms] assms(2) by (simp add: hard_of_vnu ceiling_of_def safe_ceiling)

lemma resolves:
  assumes "config_safe (dp_config d)" "resolvable p" "find_native d uid = Some u"
  shows "\<exists>u'. resolveEffectiveUniversity d (Inr p) uid = Inr u' \<and> effectiveUniversity u p (effectiveHardLimits d) = Inr u'"
  using validated_resolves [OF assms(2) hard_limits_valid [OF assms(1)], of u] assms(3)
  by (simp add: resolveEffectiveUniversity_def sbind_def)

section \<open>The gate\<close>

definition disabled :: "policy_content \<Rightarrow> string \<Rightarrow> capability \<Rightarrow> bool" where
  "disabled p uid c \<longleftrightarrow> map_of (g_capabilities (p_global p)) c = Some False
     \<or> (\<exists>s. map_of (p_universities p) uid = Some s \<and> map_of (u_capabilities s) c = Some False)"

lemma effective_iff:
  assumes "config_safe (dp_config d)" "find_native d uid = Some u" "effectiveUniversity u p (effectiveHardLimits d) = Inr u'"
  shows "uni_capabilities u' c \<longleftrightarrow> supports d uid c \<and> \<not> disabled p uid c
    \<and> (c = CrossLookup \<longrightarrow> 0 < vc_bulkMaxTargets (dp_config d))"
proof -
  have u: "uni_id u = uid" using assms(2) by (auto simp: find_native_iff)
  have bulk: "(\<exists>n. ceiling_of (flattenLimits u limit_key.BulkMaxTargets) (hard_limit (effectiveHardLimits d) limit_key.BulkMaxTargets) = Some n \<and> n \<noteq> 0)
      \<longleftrightarrow> 0 < vc_bulkMaxTargets (dp_config d)" if s: "supports d uid CrossLookup"
  proof -
    from s assms(2) have v: "u = serialize_native d vnu_university" and b: "dp_budget d"
      by (auto simp: supports_def find_native_simps)
    have l: "flattenLimits (serialize_native d vnu_university) limit_key.BulkMaxTargets = Some (Whole (vc_bulkMaxTargets (dp_config d)))"
      using limit_of_vnu [OF b] by (simp add: Let_def)
    show ?thesis using vnu_limit_range [OF assms(1) l] by (auto simp: v vnu_ceiling [OF assms(1) l])
  qed
  show ?thesis
    using effective_capabilities_exact [OF assms(3)] native_supports [OF assms(2)] bulk
    unfolding u disabled_def by blast
qed

text \<open>
  C38. The gate is exact. Under a validated policy and settings that were parsed from any
  environment, a route that requires a capability is let through if and only if the adapter
  of the university supports it (the lookup of other students moreover needs an installed probe
  budget and a positive number of targets) and neither the deployment nor the university
  disables it; otherwise it is refused with 404 for an unknown university and 503 for a known one.
\<close>

theorem feature_gate_exact:
  assumes "config_safe (dp_config d)" "resolvable p"
  shows "((\<exists>u. requireFeature d (Inr p) uid c = Inr u) \<longleftrightarrow> supports d uid c \<and> \<not> disabled p uid c
      \<and> (c = CrossLookup \<longrightarrow> 0 < vc_bulkMaxTargets (dp_config d))) \<and>
    (\<forall>e. requireFeature d (Inr p) uid c = Inl e \<longrightarrow>
      e = (if uid \<in> {''mock'', ''uet'', ''vnu''} then featureDisabled (capability_name c) else unknownUniversity uid))"
proof -
  consider u where "find_native d uid = Some u" "uid \<in> {''mock'', ''uet'', ''vnu''}"
    | "find_native d uid = None" "uid \<notin> {''mock'', ''uet'', ''vnu''}"
    using find_native_simps find_native_unknown by (metis insert_iff singletonD)
  then show ?thesis
  proof cases
    case 1
    obtain u' where u': "resolveEffectiveUniversity d (Inr p) uid = Inr u'" "effectiveUniversity u p (effectiveHardLimits d) = Inr u'"
      using resolves [OF assms 1(1)] by blast
    show ?thesis using effective_iff [OF assms(1) 1(1) u'(2), of c] 1(2)
      by (auto simp: requireFeature_def u'(1) sbind_def)
  next
    case 2
    then show ?thesis by (auto simp: requireFeature_def resolveEffectiveUniversity_def supports_def sbind_def)
  qed
qed

definition sample_deployment :: deployment where
  "sample_deployment = \<lparr>dp_config = effective_config (\<lambda>_. None), dp_budget = True\<rparr>"

lemma sample_deployment_simps [simp]:
  "dp_config sample_deployment = effective_config (\<lambda>_. None)" "dp_budget sample_deployment"
  by (simp_all add: sample_deployment_def)

lemma resolvable_empty: "resolvable emptyPolicy"
  by (simp add: resolvable_def emptyPolicy_def)

lemma not_disabled_empty: "\<not> disabled emptyPolicy uid c"
  by (simp add: disabled_def emptyPolicy_def)

theorem feature_gate_exact_witness:
  "(\<exists>u. requireFeature sample_deployment (Inr emptyPolicy) ''vnu'' CrossLookup = Inr u)
   \<and> (\<nexists>u. requireFeature sample_deployment (Inr emptyPolicy) ''uet'' CrossLookup = Inr u)"
proof -
  have "config_safe (dp_config sample_deployment)" by (simp add: effective_config_safe)
  note gate = feature_gate_exact [OF this resolvable_empty]
  have "0 < vc_bulkMaxTargets (effective_config (\<lambda>_. None))"
    by (simp add: effective_config_def Let_def setting_or_def)
  then show ?thesis using gate by (simp add: supports_def not_disabled_empty)
qed

section \<open>The limits that are served\<close>

lemma traverse_defined: "traverse f xs = Inr ys \<Longrightarrow> x \<in> set xs \<Longrightarrow> \<exists>y. f x = Inr y"
  by (induction xs arbitrary: ys) (auto simp: sbind_Inr_iff)

text \<open>Whatever the policy, the limits in effect are there and within those of a deployment.\<close>

lemma served_limits:
  assumes "config_safe (dp_config d)" "resolveEffectiveUniversity d (Inr p) ''vnu'' = Inr u" "uni_limits u = Some (Some l)"
  obtains b n m where "bulkMaxTargets l = Whole b" "0 < b" "bulkDirectChunkMaxTargets l = Some (Whole n)" "0 < n" "n \<le> 300"
    "Option.bind (bulkModeMaxTargets l) (\<lambda>ms. map_of ms ''code-to-stdid'') = Some (Whole m)" "0 < m" "m \<le> 9"
proof -
  let ?v = "serialize_native d vnu_university" and ?hl = "effectiveHardLimits d"
  have e: "effectiveUniversity ?v p ?hl = Inr u"
    using assms(2) by (simp add: resolveEffectiveUniversity_def find_native_simps sbind_def)
  then obtain ls where ls: "projected_limits ?v p ?hl = Inr ls" "projectLimits ls = Some l"
    using assms(3) by (auto simp: effectiveUniversity_def sbind_Inr_iff Let_def split: if_splits)
  obtain b where b: "map_of ls limit_key.BulkMaxTargets = Some b"
    using ls(2) by (auto simp: projectLimits_def split: option.splits)
  have budget: "dp_budget d"
    using projected_value [OF ls(1), of limit_key.BulkMaxTargets b] b
    by (cases "dp_budget d") (auto simp: hard_of_vnu ceiling_of_def serialize_native_def flattenLimits_def isSafeCeiling_def)
  have val: "\<exists>n. map_of ls k = Some n \<and> 0 < n \<and> n \<le> c"
    if fl: "flattenLimits ?v k = Some (Whole c)" and c: "0 < c" for k c
  proof -
    have "\<exists>y. project_key ?v p ?hl k = Inr y"
      using ls(1) unfolding projected_limits_def sbind_Inr_iff by (metis all_limit_keys traverse_defined)
    then obtain el where el: "resolveLimit p (uni_id ?v) k c = Inr el"
      using c vnu_ceiling [OF assms(1) fl] by (auto simp: project_key_def sbind_Inr_iff)
    then show ?thesis
      using projected_value [OF ls(1), of k "el_value el"] vnu_ceiling [OF assms(1) fl] c
        resolveLimit_bounds [OF el c] by auto
  qed
  let ?c = "dp_config d"
  note limits = limit_of_vnu [OF budget, unfolded Let_def]
  have l: "flattenLimits ?v limit_key.BulkMaxTargets = Some (Whole (vc_bulkMaxTargets ?c))"
    using limits [of limit_key.BulkMaxTargets] by simp
  have "0 \<le> vc_bulkMaxTargets ?c" "vc_bulkMaxTargets ?c \<noteq> 0"
    using vnu_limit_range [OF assms(1) l] projected_value [OF ls(1), of limit_key.BulkMaxTargets b] b
      vnu_ceiling [OF assms(1) l] by auto
  then have pos: "0 < vc_bulkMaxTargets ?c" by simp
  obtain b' where b': "map_of ls limit_key.BulkMaxTargets = Some b'" "0 < b'" using val [OF l pos] by blast
  have chunk: "1 \<le> vc_directChunkMaxTargets ?c" "vc_directChunkMaxTargets ?c \<le> 300"
    using assms(1) by (simp_all add: config_safe_def config_ok_def)
  obtain n where n: "map_of ls BulkDirectChunk = Some n" "0 < n" "n \<le> vc_directChunkMaxTargets ?c"
    using val [of BulkDirectChunk "vc_directChunkMaxTargets ?c"] limits [of BulkDirectChunk] chunk(1) by auto
  have code: "0 < code_mode_limit (vc_bulkMaxTargets ?c)" "code_mode_limit (vc_bulkMaxTargets ?c) \<le> 9"
    using pos by (simp_all add: code_mode_limit_def VNU_STUDENT_ID_RESOLVER_MAX_PROBES_def LOCAL_RADIUS_def)
  obtain m where m: "map_of ls ModeCodeToStdid = Some m" "0 < m" "m \<le> code_mode_limit (vc_bulkMaxTargets ?c)"
    using val [of ModeCodeToStdid "code_mode_limit (vc_bulkMaxTargets ?c)"] limits [of ModeCodeToStdid] code(1) by auto
  have shape: "bulkMaxTargets l = Whole b'" "bulkDirectChunkMaxTargets l = Some (Whole n)"
    "Option.bind (bulkModeMaxTargets l) (\<lambda>ms. map_of ms ''code-to-stdid'') = Some (Whole m)"
    using ls(2) b'(1) n(1) m(1) by (auto simp: projectLimits_def Let_def List.map_filter_simps split: option.splits if_splits)
  show ?thesis using that [OF shape(1) b'(2) shape(2) n(2) _ shape(3) m(2)] n(3) m(3) chunk(2) code(2) by linarith
qed

end
