(* ===== verification/CrossLookupProps.thy ===== *)
theory CrossLookupProps
  imports CrossLookup FeatureGateProps ResolverProps BudgetLaws
begin

text \<open>
  What the lookups of other students keep to: a request reserves all the probes it may need
  before the first, within what one reservation may be; its workers never run out of their
  allowance nor hold more permits than a session has; and the bulk answer is, target by target,
  that of a sequential search.
\<close>

section \<open>Limits of a request\<close>

lemma gate_passed:
  assumes "lookup_gate d (Inr p) session = Inr u"
  shows "resolveEffectiveUniversity d (Inr p) ''vnu'' = Inr u"
  using assms by (auto simp: lookup_gate_def requireFeature_def sbind_Inr_iff split: if_splits)

lemma mode_limit_fits:
  assumes "config_safe (dp_config d)" "resolveEffectiveUniversity d (Inr p) ''vnu'' = Inr u"
  shows "vnuBulkModeLimit mode (Option.bind (uni_limits u) id) \<le> (if mode = CodeToStdid then 9 else 300)"
proof (cases "Option.bind (uni_limits u) id")
  case None
  then show ?thesis by (simp add: vnuBulkModeLimit_def)
next
  case (Some l)
  then have "uni_limits u = Some (Some l)" by (cases "uni_limits u") auto
  from served_limits [OF assms this] obtain b n m where l: "bulkMaxTargets l = Whole b"
      "bulkDirectChunkMaxTargets l = Some (Whole n)" "n \<le> 300"
      "Option.bind (bulkModeMaxTargets l) (\<lambda>ms. map_of ms ''code-to-stdid'') = Some (Whole m)" "m \<le> 9"
    by metis
  show ?thesis
  proof (cases "mode = CodeToStdid")
    case True
    then show ?thesis using l by (simp add: vnuBulkModeLimit_def Some Let_def)
  next
    case False
    then show ?thesis using l by (simp add: vnuBulkModeLimit_def Some Let_def min.coboundedI2 min.coboundedI1)
  qed
qed

lemma parsed_body:
  assumes "parseVnuBulkLookupRequest json limits = Inr body"
  shows "bb_targets body \<noteq> []" "int (length (bb_targets body)) \<le> vnuBulkModeLimit (bb_mode body) limits"
  using assms by (auto simp: parseVnuBulkLookupRequest_def parseVnuBulkLookupBody_def
      split: option.splits jval.splits if_splits list.splits)

lemma units_fit:
  assumes "bb_targets body \<noteq> []" "int (length (bb_targets body)) \<le> (if bb_mode body = CodeToStdid then 9 else 300)"
  shows "1 \<le> vnuBulkReservationUnits body" "vnuBulkReservationUnits body \<le> VNU_PROBE_BUDGET_LIMIT"
proof -
  have "1 \<le> int (length (bb_targets body))" using assms(1) by (cases "bb_targets body") auto
  then show "1 \<le> vnuBulkReservationUnits body" "vnuBulkReservationUnits body \<le> VNU_PROBE_BUDGET_LIMIT"
    using assms(2) by (auto simp: vnuBulkReservationUnits_def VNU_PROBE_BUDGET_LIMIT_def
        VNU_STUDENT_ID_RESOLVER_MAX_PROBES_def LOCAL_RADIUS_def)
qed

section \<open>Allowances\<close>

lemma consume_units_Suc: "consume_units (Suc n) a = consume_unit (consume_units n a)"
  by (simp add: consume_units_def)

lemma consume_units_0 [simp]: "consume_units 0 a = a"
  by (simp add: consume_units_def)

lemma consume_units_covered:
  "int n \<le> al_remaining a \<Longrightarrow> consume_units n a = a\<lparr>al_remaining := al_remaining a - int n, al_asked := al_asked a + n\<rparr>"
  by (induction n) (simp_all add: consume_units_Suc consume_unit_def)

section \<open>Sums over workers\<close>

lemma sum_update:
  "w < length xs \<Longrightarrow> sum_list (map f (xs[w := x])) + f (xs ! w) = sum_list (map f xs) + (f x :: nat)"
proof (induction xs arbitrary: w)
  case (Cons y ys)
  then show ?case by (cases w) (auto simp: ac_simps)
qed simp

section \<open>Probes of a resolution\<close>

lemma probes_fillPool: "rv_probes s \<le> rv_probes (fillPool s)"
proof (induction s rule: fillPool.induct)
  case (1 s)
  then show ?case by (subst fillPool.simps) (auto simp: startProbe_def)
qed

lemma probes_loop: "rv_probes s \<le> rv_probes (loop_or_stop s)"
  using probes_fillPool [of s] by (simp add: loop_or_stop_def Let_def)

lemma probes_loop_of: "rv_probes t = rv_probes s \<Longrightarrow> rv_probes s \<le> rv_probes (loop_or_stop t)"
  using probes_loop [of t] by simp

lemma probes_first: "rv_probes s \<le> rv_probes (first_settles r s)"
  by (auto simp: first_settles_def Let_def intro!: probes_loop_of split: option.splits sum.splits)

lemma probes_returns: "rv_probes s \<le> rv_probes (probe_returns i code s)"
  unfolding probe_returns_def Let_def
  by (simp split: option.split) (auto intro!: probes_loop_of)

lemma probes_finish [simp]: "rv_probes (finish r s) = rv_probes s"
  by (simp add: finish_def)

lemma probes_conclude [simp]: "rv_probes (conclude is_abort reason s) = rv_probes s"
  by (cases "rv_phase s") (simp_all add: conclude_def split: option.split)

lemma probes_aborts [simp]: "rv_probes (caller_aborts e s) = rv_probes s"
  by (cases "rv_phase s") (simp_all add: caller_aborts_def)

lemma probes_step: "rv_probes s \<le> rv_probes (rv_step is_abort reason s ev)"
  by (cases ev) (simp_all add: probes_first probes_returns probe_fails_def sibling_settles_def)

lemma probes_bounded: "rv_inv s \<Longrightarrow> rv_probes s \<le> 33"
  by (simp add: rv_inv_def pool_ok_def)

lemma idle_abort: "\<not> rv_enabled s (CallerAborts e) \<Longrightarrow> caller_aborts e s = s"
  by (cases "rv_phase s"; cases "rv_cancel s") (simp_all add: caller_aborts_def)

lemma rv_inv_aborts:
  assumes "rv_inv s" shows "rv_inv (caller_aborts e s)" "weight (caller_aborts e s) \<le> weight s"
proof -
  have "rv_inv (caller_aborts e s) \<and> weight (caller_aborts e s) \<le> weight s"
  proof (cases "rv_enabled s (CallerAborts e)")
    case True
    from good_rv_step [OF assms this, of undefined undefined] show ?thesis by (simp add: good_step_def)
  next
    case False
    show ?thesis using assms by (simp add: idle_abort [OF False])
  qed
  then show "rv_inv (caller_aborts e s)" "weight (caller_aborts e s) \<le> weight s" by simp_all
qed

lemma width_aborts [simp]: "rv_concurrency (caller_aborts e s) = rv_concurrency s"
  by (cases "rv_phase s") (simp_all add: caller_aborts_def)

definition unfinished :: "'e resolver \<Rightarrow> bool" where
  "unfinished s \<longleftrightarrow> (\<forall>r. rv_phase s \<noteq> Finished r)"

lemma unfinished_aborts: "unfinished s \<Longrightarrow> unfinished (caller_aborts e s)"
  by (cases "rv_phase s") (simp_all add: unfinished_def caller_aborts_def)

section \<open>A single resolution\<close>

definition metered_inv :: "int \<Rightarrow> metered \<Rightarrow> bool" where
  "metered_inv u m \<longleftrightarrow> rv_inv (mt_resolver m) \<and> al_refused (mt_allowance m) = 0
     \<and> al_asked (mt_allowance m) = rv_probes (mt_resolver m) \<and> al_remaining (mt_allowance m) = u - int (rv_probes (mt_resolver m))"

lemma metered_keeps:
  assumes "33 \<le> u" "metered_inv u m" "metered_enabled m ev"
  shows "metered_inv u (metered_step is_abort reason m ev)"
proof -
  let ?r = "mt_resolver m" and ?r' = "rv_step is_abort reason (mt_resolver m) ev"
  have r: "rv_inv ?r'" using good_rv_step [of ?r ev] assms(2,3) by (simp add: metered_inv_def metered_enabled_def good_step_def)
  have p: "rv_probes ?r \<le> rv_probes ?r'" by (rule probes_step)
  have "int (started ?r ?r') \<le> al_remaining (mt_allowance m)"
    using probes_bounded [OF r] p assms(1,2) by (simp add: started_def metered_inv_def)
  with r p assms(2) show ?thesis
    by (simp add: metered_step_def Let_def consume_units_covered metered_inv_def started_def)
qed

text \<open>A resolution that was reserved for never runs out, and leaves what was reserved beyond it.\<close>

lemma single_resolution_prepaid:
  assumes "33 \<le> u" "metered_begin o1 aborted (createVnuProbeAllowance u) = Inr m0"
    and "run_ok (metered_step is_abort reason) metered_enabled m0 xs" "m = run (metered_step is_abort reason) m0 xs"
  shows "al_refused (mt_allowance m) = 0" "al_asked (mt_allowance m) \<le> 33" "u - 33 \<le> al_remaining (mt_allowance m)"
proof -
  obtain r where r: "begin_resolution o1 aborted = Inr r" "m0 = \<lparr>mt_resolver = r, mt_allowance = consume_units (rv_probes r) (createVnuProbeAllowance u)\<rparr>"
    using assms(2) by (auto simp: metered_begin_def sbind_Inr_iff)
  have i: "rv_inv r" using begin_inv [OF r(1)] by simp
  have "int (rv_probes r) \<le> al_remaining (createVnuProbeAllowance u)"
    using probes_bounded [OF i] assms(1) by (simp add: createVnuProbeAllowance_def)
  then have "metered_inv u m0" using i by (simp add: r(2) metered_inv_def consume_units_covered) (simp add: createVnuProbeAllowance_def)
  then have "metered_inv u m"
    using assms(3) unfolding assms(4) by (induction xs arbitrary: m0) (auto intro: metered_keeps [OF assms(1)])
  then show "al_refused (mt_allowance m) = 0" "al_asked (mt_allowance m) \<le> 33" "u - 33 \<le> al_remaining (mt_allowance m)"
    using probes_bounded [of "mt_resolver m"] by (auto simp: metered_inv_def)
qed

section \<open>The invariant of the workers\<close>

fun slack :: "lane \<Rightarrow> nat" where
  "slack (Working i r) = 33 - rv_probes r"
| "slack l = 0"

fun lane_ok :: "nat \<Rightarrow> nat \<Rightarrow> int \<Rightarrow> lane \<Rightarrow> bool" where
  "lane_ok n taken width (Working i r) = (i < n \<and> i < taken \<and> rv_inv r \<and> unfinished r \<and> rv_concurrency r = width)"
| "lane_ok n taken width l = True"

abbreviation targets_of :: "bulk \<Rightarrow> nat" where "targets_of b \<equiv> length (bk_targets b)"

text \<open>\<open>credit\<close> units are covered by taken targets and not yet given to a worker.\<close>

definition bulk_inv :: "nat \<Rightarrow> bulk \<Rightarrow> bool" where
  "bulk_inv credit b \<longleftrightarrow> length (bk_items b) = targets_of b
     \<and> 0 < bk_width b \<and> bk_width b * int (length (bk_lanes b)) \<le> 6
     \<and> al_refused (bk_allowance b) = 0
     \<and> al_remaining (bk_allowance b) + int (al_asked (bk_allowance b)) = 33 * int (targets_of b)
     \<and> al_asked (bk_allowance b) + sum_list (map slack (bk_lanes b)) + credit \<le> 33 * min (bk_next b) (targets_of b)
     \<and> list_all (lane_ok (targets_of b) (bk_next b) (bk_width b)) (bk_lanes b)"

lemma bulk_inv_weaken: "bulk_inv c b \<Longrightarrow> c' \<le> c \<Longrightarrow> bulk_inv c' b"
  by (auto simp: bulk_inv_def)

lemma lane_okD:
  "bulk_inv c b \<Longrightarrow> w < length (bk_lanes b) \<Longrightarrow> lane_ok (targets_of b) (bk_next b) (bk_width b) (bk_lanes b ! w)"
  by (simp add: bulk_inv_def list_all_length)

text \<open>A worker goes on with \<open>n\<close> more probes asked.\<close>

lemma put_lane_inv:
  assumes b: "bulk_inv c b" and w: "w < length (bk_lanes b)" and ok: "lane_ok (targets_of b) (bk_next b) (bk_width b) l"
    and n: "n + slack l \<le> slack (bk_lanes b ! w) + c"
  shows "bulk_inv 0 (put_lane w l (b\<lparr>bk_allowance := consume_units n (bk_allowance b)\<rparr>))"
proof -
  let ?a = "bk_allowance b"
  have s: "sum_list (map slack ((bk_lanes b)[w := l])) + slack (bk_lanes b ! w) = sum_list (map slack (bk_lanes b)) + slack l"
    by (rule sum_update [OF w])
  have total: "al_asked ?a + sum_list (map slack (bk_lanes b)) + c \<le> 33 * min (bk_next b) (targets_of b)"
    and units: "al_remaining ?a + int (al_asked ?a) = 33 * int (targets_of b)"
    using b by (simp_all add: bulk_inv_def)
  have "slack (bk_lanes b ! w) \<le> sum_list (map slack (bk_lanes b))"
    using w by (intro member_le_sum_list) auto
  with n total have "al_asked ?a + n \<le> 33 * targets_of b" by linarith
  with units have cov: "int n \<le> al_remaining ?a" by linarith
  have "al_asked ?a + n + sum_list (map slack ((bk_lanes b)[w := l])) \<le> 33 * min (bk_next b) (targets_of b)"
    using s n total by linarith
  moreover have "list_all (lane_ok (targets_of b) (bk_next b) (bk_width b)) ((bk_lanes b)[w := l])"
    using b ok by (auto simp: bulk_inv_def list_all_iff dest!: set_update_subset_insert [THEN subsetD])
  ultimately show ?thesis
    using b units by (simp add: bulk_inv_def put_lane_def consume_units_covered [OF cov])
qed

lemma put_item_inv [simp]: "bulk_inv c (put_item i x b) \<longleftrightarrow> bulk_inv c b"
  by (simp add: bulk_inv_def put_item_def)

lemma put_item_sel [simp]:
  "bk_lanes (put_item i x b) = bk_lanes b" "bk_targets (put_item i x b) = bk_targets b" "bk_next (put_item i x b) = bk_next b"
  "bk_width (put_item i x b) = bk_width b" "bk_allowance (put_item i x b) = bk_allowance b" "bk_abort (put_item i x b) = bk_abort b"
  "bk_own (put_item i x b) = bk_own b" "bk_items (put_item i x b) = (bk_items b)[i := Some x]"
  by (simp_all add: put_item_def)

lemma put_lane_sel [simp]:
  "bk_lanes (put_lane w l b) = (bk_lanes b)[w := l]" "bk_targets (put_lane w l b) = bk_targets b" "bk_next (put_lane w l b) = bk_next b"
  "bk_width (put_lane w l b) = bk_width b" "bk_allowance (put_lane w l b) = bk_allowance b" "bk_abort (put_lane w l b) = bk_abort b"
  "bk_own (put_lane w l b) = bk_own b" "bk_items (put_lane w l b) = bk_items b"
  by (simp_all add: put_lane_def)

lemma abort_sel [simp]:
  "bk_targets (abort_bulk e b) = bk_targets b" "bk_next (abort_bulk e b) = bk_next b" "bk_width (abort_bulk e b) = bk_width b"
  "bk_allowance (abort_bulk e b) = bk_allowance b" "length (bk_lanes (abort_bulk e b)) = length (bk_lanes b)"
  "bk_abort (abort_bulk e b) \<noteq> None" "bk_items (abort_bulk e b) = bk_items b" "bk_own (abort_bulk e b) = bk_own b"
  by (auto simp: abort_bulk_def)

lemma slack_aborts [simp]: "slack (lane_aborts e l) = slack l"
  by (cases l) simp_all

lemma lane_ok_aborts: "lane_ok n t w l \<Longrightarrow> lane_ok n t w (lane_aborts e l)"
  by (cases l) (simp_all add: rv_inv_aborts(1) unfinished_aborts)

lemma abort_inv: "bulk_inv c b \<Longrightarrow> bulk_inv c (abort_bulk e b)"
  by (auto simp: abort_bulk_def bulk_inv_def comp_def list_all_iff intro: lane_ok_aborts)

lemma put_lane_idle:
  assumes "bulk_inv c b" "w < length (bk_lanes b)" "slack l = 0" "lane_ok (targets_of b) (bk_next b) (bk_width b) l"
  shows "bulk_inv 0 (put_lane w l b)"
  using put_lane_inv [OF assms(1,2,4), of 0] assms(3) by simp

lemma put_lane_item: "put_lane w l (put_item i x b) = put_item i x (put_lane w l b)"
  by (simp add: put_lane_def put_item_def)

text \<open>What a settled target does: an item and a free worker, or the end of the worker and of all others.\<close>

lemma settle_cases:
  obtains x where "settle_target w i res b = put_item i x (put_lane w Ready b)"
      "\<nexists>f. res = Inl f \<and> \<not> isIsolatedBulkLookupError (failure_thrown f)"
  | f where "res = Inl f" "\<not> isIsolatedBulkLookupError (failure_thrown f)"
      "settle_target w i res b = put_lane w (Threw (failure_thrown f)) (abort_bulk (failure_thrown f) (put_lane w Returned b))"
  by (cases res) (auto simp: settle_target_def Let_def put_lane_item split: if_splits)

lemma settle_inv:
  assumes "bulk_inv c b" "w < length (bk_lanes b)" "n \<le> slack (bk_lanes b ! w) + c"
  shows "bulk_inv 0 (settle_target w i res (b\<lparr>bk_allowance := consume_units n (bk_allowance b)\<rparr>))"
proof -
  let ?b = "b\<lparr>bk_allowance := consume_units n (bk_allowance b)\<rparr>"
  have p: "bulk_inv 0 (put_lane w l ?b)" if "slack l = 0" "\<And>a b c. lane_ok a b c l" for l
    using put_lane_inv [OF assms(1,2), of l n] assms(3) that by simp
  show ?thesis
  proof (cases rule: settle_cases [of w i res ?b])
    case (1 x)
    then show ?thesis using p [of Ready] by simp
  next
    case (2 f)
    have "bulk_inv 0 (abort_bulk (failure_thrown f) (put_lane w Returned ?b))" using p [of Returned] by (simp add: abort_inv)
    then show ?thesis unfolding 2(3) by (rule put_lane_idle) (simp_all add: assms(2))
  qed
qed

lemma lane_ok_later: "lane_ok n t w l \<Longrightarrow> lane_ok n (Suc t) w l"
  by (cases l) simp_all

lemma taken_inv:
  assumes "bulk_inv 0 b" "bk_next b < targets_of b"
  shows "bulk_inv 33 (b\<lparr>bk_next := Suc (bk_next b)\<rparr>)"
  using assms by (auto simp: bulk_inv_def list_all_iff intro: lane_ok_later)

lemma begins:
  assumes "begin_resolution (resolver_arguments own target width) None = Inr r"
  shows "rv_inv r" "unfinished r" "rv_probes r = 1" "rv_concurrency r = width" "weight r = 41"
  using begin_inv [OF assms] begin_fields(1) [OF assms]
  by (auto simp: unfinished_def resolver_arguments_def rv_inv_def pool_ok_def)

lemma take_inv:
  assumes b: "bulk_inv 0 b" and w: "w < length (bk_lanes b)"
  shows "bulk_inv 0 (take_target w b)"
proof (cases "bk_abort b")
  case (Some e)
  then show ?thesis using put_lane_idle [OF b w, of "Threw e"] by (simp add: take_target_def)
next
  case None
  let ?i = "bk_next b" and ?b = "b\<lparr>bk_next := Suc (bk_next b)\<rparr>"
  show ?thesis
  proof (cases "targets_of b \<le> ?i")
    case True
    have "bulk_inv 0 ?b"
    proof -
      from b True show ?thesis by (auto simp: bulk_inv_def list_all_iff min_def intro: lane_ok_later split: if_splits)
    qed
    then have "bulk_inv 0 (put_lane w Returned ?b)" by (rule put_lane_idle) (simp_all add: w)
    then show ?thesis using True None by (simp add: take_target_def Let_def)
  next
    case False
    then have t: "bulk_inv 33 ?b" using b by (simp add: taken_inv)
    show ?thesis
    proof (cases "refused_target CodeToStdid (bk_own b) (bk_targets b ! ?i) :: resolution bulk_item option")
      case (Some x)
      then show ?thesis using False None bulk_inv_weaken [OF t, of 0] by (simp add: take_target_def Let_def)
    next
      case none: None
      let ?o = "resolver_arguments (bk_own b) (raw_target (bk_targets b ! ?i)) (bk_width b)"
      show ?thesis
      proof (cases "begin_resolution ?o None :: thrown_value failure + thrown_value resolver")
        case (Inl f)
        then show ?thesis using False None none settle_inv [OF t, of w 0 ?i "Inl f"] w by (simp add: take_target_def Let_def)
      next
        case (Inr r)
        have "bulk_inv 0 (put_lane w (Working ?i r) (?b\<lparr>bk_allowance := consume_units (rv_probes r) (bk_allowance ?b)\<rparr>))"
          by (rule put_lane_inv [OF t]) (use begins [OF Inr] w False in simp_all)
        then show ?thesis using False None none Inr by (simp add: take_target_def Let_def)
      qed
    qed
  qed
qed

lemma event_inv:
  assumes b: "bulk_inv 0 b" and en: "bulk_enabled b (Probe w ev)"
  shows "bulk_inv 0 (bulk_step is_abort reason b (Probe w ev))"
proof -
  obtain i r where l: "lane_of b w = Working i r" "rv_enabled r ev" using en by (auto split: lane.splits)
  then have w: "w < length (bk_lanes b)" "bk_lanes b ! w = Working i r" by (auto simp: lane_of_def split: if_splits)
  have ok: "i < targets_of b" "i < bk_next b" "rv_inv r" "rv_concurrency r = bk_width b"
    using lane_okD [OF b w(1)] w(2) by simp_all
  let ?r = "rv_step is_abort reason r ev"
  have r: "rv_inv ?r" using good_rv_step [OF ok(3) l(2)] by (simp add: good_step_def)
  have cw: "rv_concurrency ?r = bk_width b" using step_widths [of is_abort reason r ev] ok(4) by simp
  have n: "started r ?r + (33 - rv_probes ?r) = 33 - rv_probes r"
    using probes_step [of r is_abort reason ev] probes_bounded [OF r] by (simp add: started_def)
  show ?thesis
  proof (cases "unfinished ?r")
    case True
    have "bulk_inv 0 (put_lane w (Working i ?r) (b\<lparr>bk_allowance := consume_units (started r ?r) (bk_allowance b)\<rparr>))"
      by (rule put_lane_inv [OF b w(1)]) (use ok r True n w(2) cw in simp_all)
    then show ?thesis using True by (auto simp: l(1) Let_def after_event_def unfinished_def split: phase.splits)
  next
    case False
    then obtain res where f: "rv_phase ?r = Finished res" by (auto simp: unfinished_def)
    have "bulk_inv 0 (settle_target w i res (b\<lparr>bk_allowance := consume_units (started r ?r) (bk_allowance b)\<rparr>))"
      by (rule settle_inv [OF b w(1)]) (use n w(2) in simp)
    then show ?thesis by (simp add: l(1) Let_def after_event_def f)
  qed
qed

interpretation bulk: machine "bulk_step is_abort reason" bulk_enabled "bulk_inv 0"
  for is_abort :: "thrown_value \<Rightarrow> bool" and reason
proof
  fix b x assume b: "bulk_inv 0 b" and en: "bulk_enabled b x"
  show "bulk_inv 0 (bulk_step is_abort reason b x)"
  proof (cases x)
    case (Takes w)
    then show ?thesis using take_inv [OF b] en by simp
  next
    case (Probe w ev)
    then show ?thesis using event_inv [OF b] en by simp
  next
    case (Aborts e)
    then show ?thesis using abort_inv [OF b] by simp
  qed
qed

section \<open>Every run ends\<close>

fun lane_weight :: "lane \<Rightarrow> nat" where
  "lane_weight Ready = 1"
| "lane_weight (Working i r) = weight r + 1"
| "lane_weight l = 0"

definition lanes_weight :: "bulk \<Rightarrow> nat" where
  "lanes_weight b = sum_list (map lane_weight (bk_lanes b)) + (if bk_abort b = None then 1 else 0)"

definition bulk_weight :: "bulk \<Rightarrow> nat" where
  "bulk_weight b = lanes_weight b + 44 * (targets_of b - bk_next b)"

lemma weight_put_lane:
  "w < length (bk_lanes b) \<Longrightarrow> lanes_weight (put_lane w l b) + lane_weight (bk_lanes b ! w) = lanes_weight b + lane_weight l"
  using sum_update [of w "bk_lanes b" lane_weight l] by (simp add: lanes_weight_def)

lemma weight_put_item [simp]: "lanes_weight (put_item i x b) = lanes_weight b"
  by (simp add: lanes_weight_def)

lemma weight_frame [simp]:
  "lanes_weight (b\<lparr>bk_allowance := a\<rparr>) = lanes_weight b" "lanes_weight (b\<lparr>bk_next := m\<rparr>) = lanes_weight b"
  by (simp_all add: lanes_weight_def)

lemma weight_lane_aborts: "lane_ok n t w l \<Longrightarrow> lane_weight (lane_aborts e l) \<le> lane_weight l"
  by (cases l) (simp_all add: rv_inv_aborts(2))

definition lanes_ok :: "bulk \<Rightarrow> bool" where
  "lanes_ok b \<longleftrightarrow> list_all (lane_ok (targets_of b) (bk_next b) (bk_width b)) (bk_lanes b)"

lemma lanes_ok: "bulk_inv c b \<Longrightarrow> lanes_ok b"
  by (simp add: bulk_inv_def lanes_ok_def)

lemma weight_aborts:
  assumes "lanes_ok b"
  shows "lanes_weight (abort_bulk e b) \<le> lanes_weight b" "bk_abort b = None \<Longrightarrow> lanes_weight (abort_bulk e b) < lanes_weight b"
proof -
  have "sum_list (map (\<lambda>l. lane_weight (lane_aborts e l)) (bk_lanes b)) \<le> sum_list (map lane_weight (bk_lanes b))"
    using assms by (intro sum_list_mono) (auto simp: lanes_ok_def list_all_iff intro: weight_lane_aborts)
  then show "lanes_weight (abort_bulk e b) \<le> lanes_weight b" "bk_abort b = None \<Longrightarrow> lanes_weight (abort_bulk e b) < lanes_weight b"
    by (auto simp: abort_bulk_def lanes_weight_def comp_def)
qed

lemma settle_sel [simp]:
  "bk_targets (settle_target w i res b) = bk_targets b" "bk_next (settle_target w i res b) = bk_next b"
  "bk_own (settle_target w i res b) = bk_own b"
  by (cases rule: settle_cases [of w i res b]; simp)+

lemma weight_settles:
  assumes b: "lanes_ok b" and w: "w < length (bk_lanes b)"
  shows "lanes_weight (settle_target w i res b) + lane_weight (bk_lanes b ! w) \<le> lanes_weight b + 1"
proof (cases rule: settle_cases [of w i res b])
  case 1
  then show ?thesis using weight_put_lane [OF w, of Ready] by simp
next
  case (2 f)
  let ?e = "failure_thrown f" and ?b = "put_lane w Returned b"
  have i: "lanes_ok ?b" using b by (auto simp: lanes_ok_def list_all_iff dest!: set_update_subset_insert [THEN subsetD])
  have "lanes_weight (put_lane w (Threw ?e) (abort_bulk ?e ?b)) \<le> lanes_weight (abort_bulk ?e ?b)"
    using weight_put_lane [of w "abort_bulk ?e ?b" "Threw ?e"] w by simp
  then show ?thesis using weight_aborts(1) [OF i, of ?e] weight_put_lane [OF w, of Returned] by (simp add: 2(3))
qed

lemma weight_takes:
  assumes b: "bulk_inv 0 b" and en: "bulk_enabled b (Takes w)"
  shows "bulk_weight (take_target w b) < bulk_weight b"
proof -
  have w: "w < length (bk_lanes b)" "bk_lanes b ! w = Ready" using en by simp_all
  let ?i = "bk_next b" and ?b = "b\<lparr>bk_next := Suc (bk_next b)\<rparr>"
  have put: "lanes_weight (put_lane w l b') + 1 = lanes_weight b + lane_weight l"
    if "bk_lanes b' = bk_lanes b" "bk_abort b' = bk_abort b" for l b'
    using weight_put_lane [of w b' l] w that by (simp add: lanes_weight_def)
  show ?thesis
  proof (cases "bk_abort b = None \<and> ?i < targets_of b")
    case False
    then show ?thesis using put [of b "Threw (the (bk_abort b))"] put [of ?b Returned]
      by (cases "bk_abort b") (auto simp: take_target_def Let_def bulk_weight_def)
  next
    case True
    then have t: "bulk_inv 33 ?b" using b by (simp add: taken_inv)
    have less: "bulk_weight b = lanes_weight b + 44 + 44 * (targets_of b - Suc ?i)"
      using True Suc_diff_Suc [of ?i "targets_of b"] by (simp add: bulk_weight_def)
    show ?thesis
    proof (cases "refused_target CodeToStdid (bk_own b) (bk_targets b ! ?i) :: resolution bulk_item option")
      case (Some x)
      then show ?thesis using True less by (simp add: take_target_def Let_def bulk_weight_def)
    next
      case none: None
      let ?o = "resolver_arguments (bk_own b) (raw_target (bk_targets b ! ?i)) (bk_width b)"
      show ?thesis
      proof (cases "begin_resolution ?o None :: thrown_value failure + thrown_value resolver")
        case (Inl f)
        then show ?thesis using True none less weight_settles [OF lanes_ok [OF t], of w ?i "Inl f"] w
          by (simp add: take_target_def Let_def bulk_weight_def)
      next
        case (Inr r)
        then show ?thesis using True none less begins(5) [OF Inr]
            put [of "?b\<lparr>bk_allowance := consume_units (rv_probes r) (bk_allowance ?b)\<rparr>" "Working ?i r"]
          by (simp add: take_target_def Let_def bulk_weight_def)
      qed
    qed
  qed
qed

lemma weight_events:
  assumes b: "bulk_inv 0 b" and en: "bulk_enabled b (Probe w ev)"
  shows "bulk_weight (bulk_step is_abort reason b (Probe w ev)) < bulk_weight b"
proof -
  obtain i r where l: "lane_of b w = Working i r" "rv_enabled r ev" using en by (auto split: lane.splits)
  then have w: "w < length (bk_lanes b)" "bk_lanes b ! w = Working i r" by (auto simp: lane_of_def split: if_splits)
  let ?r = "rv_step is_abort reason r ev"
  let ?b = "b\<lparr>bk_allowance := consume_units (started r ?r) (bk_allowance b)\<rparr>"
  have ok: "rv_inv r" "unfinished r" using lane_okD [OF b w(1)] w(2) by simp_all
  have less: "weight ?r < weight r" using good_rv_step [OF ok(1) l(2)] by (simp add: good_step_def)
  show ?thesis
  proof (cases "unfinished ?r")
    case True
    then show ?thesis using less weight_put_lane [of w ?b "Working i ?r"] w
      by (auto simp: l(1) Let_def after_event_def unfinished_def bulk_weight_def split: phase.splits)
  next
    case False
    then obtain res where f: "rv_phase ?r = Finished res" by (auto simp: unfinished_def)
    have "lanes_ok ?b" using lanes_ok [OF b] by (simp add: lanes_ok_def)
    from weight_settles [OF this, of w i res] w less show ?thesis
      by (simp add: l(1) Let_def after_event_def f bulk_weight_def)
  qed
qed

lemma bulk_decreases:
  assumes "bulk_inv 0 b" "bulk_enabled b x"
  shows "bulk_weight (bulk_step is_abort reason b x) < bulk_weight b"
proof (cases x)
  case (Takes w)
  then show ?thesis using weight_takes assms by simp
next
  case (Probe w ev)
  then show ?thesis using weight_events assms by blast
next
  case (Aborts e)
  then show ?thesis using weight_aborts(2) [OF lanes_ok [OF assms(1)], of e] assms(2) by (simp add: bulk_weight_def)
qed

lemma after_event_targets [simp]: "bk_targets (after_event w i r b) = bk_targets b"
  by (cases "rv_phase r") (simp_all add: after_event_def)

lemma take_targets [simp]: "bk_targets (take_target w b) = bk_targets b"
  by (auto simp: take_target_def Let_def split: option.splits sum.splits)

lemma step_targets [simp]: "bk_targets (bulk_step is_abort reason b x) = bk_targets b"
  by (cases x) (simp_all add: Let_def split: lane.split)

lemma run_targets: "bk_targets (run (bulk_step is_abort reason) b xs) = bk_targets b"
  by (induction xs arbitrary: b) simp_all

lemma bulk_run_short:
  "bulk_inv 0 b \<Longrightarrow> run_ok (bulk_step is_abort reason) bulk_enabled b xs \<Longrightarrow>
   bulk_weight (run (bulk_step is_abort reason) b xs) + length xs \<le> bulk_weight b"
proof (induction xs arbitrary: b)
  case (Cons x xs)
  then show ?case
    using bulk_decreases [of b x is_abort reason] bulk.step_inv [of b x is_abort reason] by fastforce
qed simp

text \<open>Until the answer is there, a worker can take a target or has a probe that can settle.\<close>

lemma bulk_progress:
  assumes "bulk_inv 0 b" "bulk_answer b = None"
  shows "\<exists>w. bulk_enabled b (Takes w) \<or> (\<exists>ev. bulk_enabled b (Probe w ev))"
proof -
  obtain w where w: "w < length (bk_lanes b)" "\<not> lane_over (bk_lanes b ! w)"
    using assms(2) by (auto simp: bulk_answer_def list_all_length split: if_splits)
  show ?thesis
  proof (cases "bk_lanes b ! w")
    case Ready
    then show ?thesis using w(1) by auto
  next
    case (Working i r)
    then have r: "rv_inv r" "unfinished r" using lane_okD [OF assms(1) w(1)] by simp_all
    have "\<exists>ev. rv_enabled r ev \<and> \<not> caller_event ev"
      using rv_progress [OF r(1)] r(2) by (elim disjE) (auto simp: unfinished_def intro: exI [of _ "FirstSettles (Inl None)"]
          exI [of _ Conclude] exI [of _ "Returns i c" for i c] exI [of _ "SiblingSettles i (SiblingCode None)" for i])
    then obtain ev where "bulk_enabled b (Probe w ev)" using w(1) Working by (auto simp: lane_of_def)
    then show ?thesis by blast
  qed (use w(2) in simp_all)
qed

text \<open>Probes in flight.\<close>

fun in_flight :: "lane \<Rightarrow> nat" where
  "in_flight (Working i r) = (if rv_phase r = First then 1 else length (rv_active r))"
| "in_flight l = 0"

definition probes_in_flight :: "bulk \<Rightarrow> nat" where
  "probes_in_flight b = sum_list (map in_flight (bk_lanes b))"

lemma in_flight_bounded:
  assumes "bulk_inv c b"
  shows "probes_in_flight b \<le> VNU_BRC1_PERMIT_LIMIT"
proof -
  have each: "int (in_flight l) \<le> bk_width b" if "l \<in> set (bk_lanes b)" for l
  proof -
    have "lane_ok (targets_of b) (bk_next b) (bk_width b) l" using that assms by (auto simp: bulk_inv_def list_all_iff)
    then show ?thesis using assms by (cases l) (auto simp: bulk_inv_def rv_inv_def pool_ok_def)
  qed
  have "int (sum_list (map in_flight ls)) \<le> bk_width b * int (length ls)" if "set ls \<subseteq> set (bk_lanes b)" for ls
    using that
  proof (induction ls)
    case (Cons l ls)
    then show ?case using each [of l] by (simp add: distrib_left)
  qed simp
  from this [of "bk_lanes b"] assms have "int (probes_in_flight b) \<le> 6" by (simp add: bulk_inv_def probes_in_flight_def)
  then show ?thesis by (simp add: VNU_BRC1_PERMIT_LIMIT_def)
qed

section \<open>The start\<close>

lemma active_workers_range:
  assumes "config_ok cfg" "targets \<noteq> []"
  shows "1 \<le> active_workers cfg targets" "active_workers cfg targets \<le> 3" "active_workers cfg targets \<le> length targets"
  using assms by (cases targets; auto simp: active_workers_def config_ok_def)+

lemma workers_begin:
  assumes "config_ok cfg" "bb_targets body \<noteq> []" "bb_mode body = CodeToStdid"
  obtains b where "bulk_workers cfg body own (createVnuProbeAllowance (vnuBulkReservationUnits body)) = Inr b"
    "bulk_inv 0 b" "bulk_weight b \<le> 44 * length (bb_targets body) + 4" "bk_targets b = bb_targets body" "bk_own b = own"
    "bk_next b = 0" "bk_abort b = None" "set (bk_lanes b) = {Ready}" "set (bk_items b) = {None}"
proof -
  let ?n = "active_workers cfg (bb_targets body)" and ?k = "length (bb_targets body)"
  define b where "b = \<lparr>bk_targets = bb_targets body, bk_own = own, bk_width = 6 div int ?n, bk_next = 0,
    bk_items = replicate ?k None, bk_lanes = replicate ?n Ready, bk_abort = None,
    bk_allowance = createVnuProbeAllowance (vnuBulkReservationUnits body)\<rparr>"
  have n: "1 \<le> ?n" "?n \<le> 3" using active_workers_range assms by blast+
  then have w: "bulkResolverCandidateWidth (int ?n) = Some (6 div int ?n)"
    by (simp add: bulkResolverCandidateWidth_def VNU_BRC1_PERMIT_LIMIT_def safe_integer_def max_safe_integer_def)
  have "0 < 6 div int ?n" using n by (simp add: pos_imp_zdiv_pos_iff)
  moreover have "6 div int ?n * int ?n \<le> 6"
    using n by (simp add: minus_mod_eq_div_mult [symmetric] pos_mod_sign)
  ultimately have "bulk_inv 0 b"
    using assms(3) by (simp add: b_def bulk_inv_def createVnuProbeAllowance_def vnuBulkReservationUnits_def
        VNU_STUDENT_ID_RESOLVER_MAX_PROBES_def LOCAL_RADIUS_def sum_list_replicate list_all_iff)
  moreover have "bulk_weight b \<le> 44 * ?k + 4"
    using n(2) by (simp add: b_def bulk_weight_def lanes_weight_def sum_list_replicate)
  moreover have "bulk_workers cfg body own (createVnuProbeAllowance (vnuBulkReservationUnits body)) = Inr b"
    by (simp add: bulk_workers_def w b_def)
  ultimately show ?thesis using that n(1) assms(2) by (simp add: b_def)
qed

section \<open>Admission\<close>

lemma reserve_grants:
  assumes "vnuProbeBudgetKey cp secret session = Inr key" "reserveVnuOracleProbes cp secret ns session units now = (Inr (), ns')"
  shows "budget_handle (ns key) now (BReserve units) = (Inr (RBudget BudgetAllowed), ns' key) \<and> (\<forall>k. k \<noteq> key \<longrightarrow> ns' k = ns k)"
proof -
  obtain r where c: "budget_coordinator ns key now (OCharge True units) = (Inr r, ns')"
    using assms by (auto simp: reserveVnuOracleProbes_def split: prod.splits sum.splits coordinator_error.splits)
  have reply: "\<exists>q. r = RBudget q" if "budget_handle st now (BReserve units) = (Inr r, st')" for r st st'
    using that by (auto simp: with_reply_def split: sum.splits)
  from c obtain st where h: "budget_handle (ns key) now (BReserve units) = (Inr r, st)" "ns' = ns(key := st)" "charge_verdict r = Inr r"
    by (auto simp: verdict_def rpc_def asserted_def sbind_def simp del: budget_handle.simps
        split: if_splits option.splits sum.splits prod.splits elim!: charge_verdict.elims)
  from reply [OF h(1)] obtain q where "r = RBudget q" by blast
  with h show ?thesis by (cases q) auto
qed

text \<open>One question for a target at most.\<close>

lemma direct_covered:
  fixes lookup :: "string \<Rightarrow> thrown_value + 'r option"
  shows "int (length vs) \<le> al_remaining a \<Longrightarrow> al_refused a = 0 \<Longrightarrow> bulk_direct mode own lookup cancelled vs a items = (r, a') \<Longrightarrow>
   al_refused a' = 0 \<and> al_asked a' \<le> al_asked a + length vs"
proof (induction vs arbitrary: a items)
  case (Cons v vs)
  have c: "consume_unit a = a\<lparr>al_remaining := al_remaining a - 1, al_asked := al_asked a + 1\<rparr>"
    using Cons.prems(1) by (simp add: consume_unit_def)
  consider "cancelled (length items)"
    | item where "\<not> cancelled (length items)" "refused_target mode own v = Some (item :: 'r bulk_item)"
    | "\<not> cancelled (length items)" "refused_target mode own v = (None :: 'r bulk_item option)" by fastforce
  then show ?case
  proof cases
    case 1
    then show ?thesis using Cons.prems by auto
  next
    case (2 item)
    then show ?thesis using Cons.IH [of a "items @ [item]"] Cons.prems by auto
  next
    case 3
    obtain out where "(r, a') = (out, consume_unit a) \<or>
        (\<exists>item. bulk_direct mode own lookup cancelled vs (consume_unit a) (items @ [item]) = (r, a'))"
      using 3 Cons.prems(1,3) by (auto split: sum.splits option.splits if_splits)
    then show ?thesis using Cons.IH [of "consume_unit a"] Cons.prems(1,2) by (fastforce simp: c)
  qed
qed auto

lemma bulk_admitted:
  assumes "config_safe (dp_config d)" "bulk_begin d (Inr p) cp secret ns session json profile now = (Inr (body, own, a), ns')"
  shows "bb_targets body \<noteq> []" "1 \<le> vnuBulkReservationUnits body" "vnuBulkReservationUnits body \<le> VNU_PROBE_BUDGET_LIMIT"
    "a = createVnuProbeAllowance (vnuBulkReservationUnits body)"
    "reserveVnuOracleProbes cp secret ns session (vnuBulkReservationUnits body) now = (Inr (), ns')"
    "\<exists>pf. profile = Inr pf \<and> parseVnuOwnIdentity pf (bb_mode body = CodeToStdid) = Inr own"
proof -
  obtain u where u: "lookup_gate d (Inr p) session = Inr u"
      "parseVnuBulkLookupRequest json (Option.bind (uni_limits u) id) = Inr body"
    using assms(2) by (auto simp: bulk_begin_def sbind_def lift_core_def split: sum.splits prod.splits)
  note fits = parsed_body [OF u(2)] mode_limit_fits [OF assms(1) gate_passed [OF u(1)], of "bb_mode body"]
  show "bb_targets body \<noteq> []" by (rule fits(1))
  show "1 \<le> vnuBulkReservationUnits body" "vnuBulkReservationUnits body \<le> VNU_PROBE_BUDGET_LIMIT"
    using units_fit [OF fits(1) order_trans [OF fits(2,3)]] by blast+
  show "a = createVnuProbeAllowance (vnuBulkReservationUnits body)"
    "reserveVnuOracleProbes cp secret ns session (vnuBulkReservationUnits body) now = (Inr (), ns')"
    "\<exists>pf. profile = Inr pf \<and> parseVnuOwnIdentity pf (bb_mode body = CodeToStdid) = Inr own"
    using assms(2) by (auto simp: bulk_begin_def sbind_def lift_core_def split: sum.splits prod.splits)
qed

text \<open>
  C39. Every probe of a bulk lookup is paid for before the first one. An admitted request has
  reserved, in the budget of its session and in no other, the units of its mode, at least one
  and never more than the budget of a window; the direct modes ask the portal at most once
  for each unit; and in every run of the workers of the resolving mode, whatever the portal
  answers and whenever the deadline passes, the allowance covers each probe that is started,
  at most six probes are in flight, as many as a session has permits, the run has at most 44
  events for each target and four more, and until there is an answer some worker can go on.
\<close>

theorem bulk_lookup_prepaid:
  assumes cfg: "config_safe (dp_config d)" and key: "vnuProbeBudgetKey cp secret session = Inr key"
    and admitted: "bulk_begin d (Inr p) cp secret ns session json profile now = (Inr (body, own, a), ns')"
  shows "1 \<le> vnuBulkReservationUnits body \<and> vnuBulkReservationUnits body \<le> VNU_PROBE_BUDGET_LIMIT
    \<and> budget_handle (ns key) now (BReserve (vnuBulkReservationUnits body)) = (Inr (RBudget BudgetAllowed), ns' key)
    \<and> (\<forall>k. k \<noteq> key \<longrightarrow> ns' k = ns k)
    \<and> (bb_mode body \<noteq> CodeToStdid \<longrightarrow> (\<forall>lookup cancelled items r a'.
        bulk_direct (bb_mode body) own lookup cancelled (bb_targets body) a items = (r, a') \<longrightarrow>
        al_refused a' = 0 \<and> int (al_asked a') \<le> vnuBulkReservationUnits body))
    \<and> (bb_mode body = CodeToStdid \<longrightarrow> (\<exists>b0. bulk_workers (dp_config d) body own a = Inr b0
        \<and> (\<forall>xs b. run_ok (bulk_step is_abort reason) bulk_enabled b0 xs \<longrightarrow> b = run (bulk_step is_abort reason) b0 xs \<longrightarrow>
            al_refused (bk_allowance b) = 0 \<and> int (al_asked (bk_allowance b)) \<le> vnuBulkReservationUnits body
          \<and> probes_in_flight b \<le> VNU_BRC1_PERMIT_LIMIT \<and> length xs \<le> 44 * length (bb_targets body) + 4
          \<and> (bulk_answer b = None \<longrightarrow> (\<exists>w. bulk_enabled b (Takes w) \<or> (\<exists>ev. bulk_enabled b (Probe w ev)))))))"
proof -
  note adm = bulk_admitted [OF cfg admitted]
  have direct: "al_refused a' = 0 \<and> int (al_asked a') \<le> vnuBulkReservationUnits body"
    if "bb_mode body \<noteq> CodeToStdid" "bulk_direct (bb_mode body) own lookup cancelled (bb_targets body) a items = (r, a')"
    for lookup cancelled items r a'
    using direct_covered [OF _ _ that(2)] that(1) by (simp add: adm(4) createVnuProbeAllowance_def vnuBulkReservationUnits_def)
  have workers: "\<exists>b0. bulk_workers (dp_config d) body own a = Inr b0
        \<and> (\<forall>xs b. run_ok (bulk_step is_abort reason) bulk_enabled b0 xs \<longrightarrow> b = run (bulk_step is_abort reason) b0 xs \<longrightarrow>
            al_refused (bk_allowance b) = 0 \<and> int (al_asked (bk_allowance b)) \<le> vnuBulkReservationUnits body
          \<and> probes_in_flight b \<le> VNU_BRC1_PERMIT_LIMIT \<and> length xs \<le> 44 * length (bb_targets body) + 4
          \<and> (bulk_answer b = None \<longrightarrow> (\<exists>w. bulk_enabled b (Takes w) \<or> (\<exists>ev. bulk_enabled b (Probe w ev)))))"
    if mode: "bb_mode body = CodeToStdid"
  proof -
    have "config_ok (dp_config d)" using cfg by (simp add: config_safe_def)
    from workers_begin [OF this adm(1) mode] obtain b0 where b0: "bulk_workers (dp_config d) body own a = Inr b0"
      "bulk_inv 0 b0" "bulk_weight b0 \<le> 44 * length (bb_targets body) + 4" "bk_targets b0 = bb_targets body"
      unfolding adm(4) by metis
    have targets: "bk_targets (run (bulk_step is_abort reason) b0 xs) = bb_targets body" for xs
      using run_targets [of is_abort reason b0 xs] b0(4) by simp
    have fin: "al_refused (bk_allowance b) = 0 \<and> int (al_asked (bk_allowance b)) \<le> vnuBulkReservationUnits body
          \<and> probes_in_flight b \<le> VNU_BRC1_PERMIT_LIMIT \<and> length xs \<le> 44 * length (bb_targets body) + 4
          \<and> (bulk_answer b = None \<longrightarrow> (\<exists>w. bulk_enabled b (Takes w) \<or> (\<exists>ev. bulk_enabled b (Probe w ev))))"
      if ok: "run_ok (bulk_step is_abort reason) bulk_enabled b0 xs" and b: "b = run (bulk_step is_abort reason) b0 xs" for xs b
    proof -
      have i: "bulk_inv 0 b" unfolding b by (rule bulk.run_inv [OF b0(2) ok])
      have "int (al_asked (bk_allowance b)) \<le> vnuBulkReservationUnits body"
        using i targets [of xs] mode by (auto simp: bulk_inv_def b vnuBulkReservationUnits_def
            VNU_STUDENT_ID_RESOLVER_MAX_PROBES_def LOCAL_RADIUS_def)
      moreover have "length xs \<le> 44 * length (bb_targets body) + 4"
        using bulk_run_short [OF b0(2) ok] b0(3) by simp
      ultimately show ?thesis
        using in_flight_bounded [OF i] bulk_progress [OF i] i by (simp add: bulk_inv_def)
    qed
    show ?thesis using b0(1) fin by blast
  qed
  show ?thesis using adm(2,3) reserve_grants [OF key adm(5)] direct workers by blast
qed

section \<open>The answer of a bulk resolution\<close>

text \<open>The reference: what one target is answered, up to the number of probes that were sent.\<close>

definition projection :: "own_identity \<Rightarrow> string \<Rightarrow> int option" where
  "projection own s = (case ownCode own of
     None \<Rightarrow> None
   | Some c \<Rightarrow> (let p = ownStdId own + (number_of s - c) in
       if valid_id (ownStdId own) \<and> valid_id c \<and> valid_id p then Some p else None))"

definition resolved_item :: "(int \<Rightarrow> string option) \<Rightarrow> own_identity \<Rightarrow> string \<Rightarrow> nat \<Rightarrow> resolution bulk_item" where
  "resolved_item f own s n = (case Option.bind (projection own s) (sequential f s) of
     None \<Rightarrow> BulkError s ''VNU_CROSS_LOOKUP_NOT_CONVERGED''
   | Some c \<Rightarrow> BulkOk s (resolved c s n))"

definition reference_item :: "(int \<Rightarrow> string option) \<Rightarrow> own_identity \<Rightarrow> jval \<Rightarrow> nat \<Rightarrow> resolution bulk_item" where
  "reference_item f own v n = (case refused_target CodeToStdid own v of
     Some x \<Rightarrow> x | None \<Rightarrow> resolved_item f own (raw_target v) n)"

text \<open>Runs in which the portal answers by \<open>f\<close> and nothing is aborted from outside.\<close>

fun bulk_quiet :: "(int \<Rightarrow> string option) \<Rightarrow> (thrown_value \<Rightarrow> bool) \<Rightarrow> thrown_value \<Rightarrow> bulk \<Rightarrow> bulk_event \<Rightarrow> bool" where
  "bulk_quiet f is_abort reason b (Takes w) = bulk_enabled b (Takes w)"
| "bulk_quiet f is_abort reason b (Probe w ev) = (case lane_of b w of Working i r \<Rightarrow> quiet f is_abort reason r ev | _ \<Rightarrow> False)"
| "bulk_quiet f is_abort reason b (Aborts e) = False"

fun quiet_lane :: "(int \<Rightarrow> string option) \<Rightarrow> (thrown_value \<Rightarrow> bool) \<Rightarrow> thrown_value \<Rightarrow> own_identity \<Rightarrow> jval list \<Rightarrow> nat \<Rightarrow> lane \<Rightarrow> bool" where
  "quiet_lane f is_abort reason own vs taken Ready = True"
| "quiet_lane f is_abort reason own vs taken Returned = (length vs \<le> taken)"
| "quiet_lane f is_abort reason own vs taken (Threw e) = False"
| "quiet_lane f is_abort reason own vs taken (Working i r) = (i < length vs
     \<and> (refused_target CodeToStdid own (vs ! i) :: resolution bulk_item option) = None \<and> unfinished r
     \<and> (\<exists>p. projection own (raw_target (vs ! i)) = Some p \<and> quiet_inv f is_abort reason (raw_target (vs ! i)) p r))"

definition bulk_quiet_inv :: "(int \<Rightarrow> string option) \<Rightarrow> (thrown_value \<Rightarrow> bool) \<Rightarrow> thrown_value \<Rightarrow> bulk \<Rightarrow> bool" where
  "bulk_quiet_inv f is_abort reason b \<longleftrightarrow> length (bk_items b) = targets_of b \<and> bk_abort b = None
     \<and> 0 < bk_width b \<and> bk_width b \<le> 6
     \<and> (\<forall>l \<in> set (bk_lanes b). quiet_lane f is_abort reason (bk_own b) (bk_targets b) (bk_next b) l)
     \<and> (\<forall>i < targets_of b. \<forall>x. bk_items b ! i = Some x \<longrightarrow> (\<exists>n. x = reference_item f (bk_own b) (bk_targets b ! i) n))
     \<and> (\<forall>i < targets_of b. i < bk_next b \<longrightarrow> bk_items b ! i \<noteq> None \<or> (\<exists>r. Working i r \<in> set (bk_lanes b)))"

lemma quiet_lane_later: "quiet_lane f is_abort reason own vs t l \<Longrightarrow> quiet_lane f is_abort reason own vs (Suc t) l"
  by (cases l) auto

lemma working_stays:
  assumes "Working j r \<in> set ls" "w < length ls" "\<And>r'. ls ! w \<noteq> Working j r'"
  shows "Working j r \<in> set (ls[w := l])"
proof -
  obtain k where k: "k < length ls" "ls ! k = Working j r" using assms(1) by (auto simp: in_set_conv_nth)
  with assms(3) have "k \<noteq> w" by auto
  with k show ?thesis by (auto simp: in_set_conv_nth intro!: exI [of _ k])
qed

lemma begin_valid:
  assumes "0 < width" "width \<le> 6" "STUDENT_CODE_PATTERN s"
  shows "begin_resolution (resolver_arguments own s width) None = (Inl NotConverged :: thrown_value failure + thrown_value resolver) \<and> projection own s = None
    \<or> (\<exists>p r. begin_resolution (resolver_arguments own s width) None = (Inr r :: thrown_value failure + thrown_value resolver)
        \<and> projection own s = Some p \<and> quiet_inv f is_abort reason s p r)"
proof -
  have w: "parsePositiveSafeInteger (Whole width) nm = (Inr width :: thrown_value failure + int)"
    "parsePositiveSafeInteger (Whole VNU_STUDENT_ID_RESOLVER_PLATFORM_CONCURRENCY) nm = (Inr 6 :: thrown_value failure + int)" for nm
    using assms(1,2) by (simp_all add: safe_integer_def max_safe_integer_def VNU_STUDENT_ID_RESOLVER_PLATFORM_CONCURRENCY_def)
  show ?thesis
  proof (cases "projection own s")
    case None
    then have "begin_resolution (resolver_arguments own s width) None = (Inl NotConverged :: thrown_value failure + thrown_value resolver)"
      using assms(3) w by (auto simp: begin_resolution_def resolver_arguments_def sbind_def projection_def Let_def split: option.splits if_splits)
    then show ?thesis using None by simp
  next
    case (Some p)
    then obtain r :: "thrown_value resolver" where r: "begin_resolution (resolver_arguments own s width) None = Inr r" "rv_projected r = p"
      using assms(3) w by (auto simp: begin_resolution_def resolver_arguments_def sbind_def projection_def Let_def split: option.splits if_splits)
    have "rv_inv r" "rv_phase r = First" using begin_inv [OF r(1)] by simp_all
    then have "quiet_inv f is_abort reason s p r"
      using begin_fields(2,3) [OF r(1)] r(2) by (simp add: quiet_inv_def resolver_arguments_def)
    then show ?thesis using r(1) Some by blast
  qed
qed

lemma settle_outcome:
  "settle_target w i (outcome s n (sequential f s p)) b = put_item i (resolved_item f own s n) (put_lane w Ready b)"
  if "raw_target (bk_targets b ! i) = s" "projection own s = Some p"
  using that by (cases "sequential f s p")
    (simp_all add: settle_target_def outcome_def resolved_item_def Let_def put_lane_item isIsolatedBulkLookupError_def notConverged_def core_error_def)

lemma settle_unprojected:
  "settle_target w i (Inl NotConverged) b = put_item i (resolved_item f own s n) (put_lane w Ready b)"
  if "raw_target (bk_targets b ! i) = s" "projection own s = None"
  using that
  by (simp add: settle_target_def resolved_item_def Let_def put_lane_item isIsolatedBulkLookupError_def notConverged_def core_error_def)

text \<open>The invariant but for target \<open>k\<close>, which was taken and has neither an item nor a worker.\<close>

definition quiet_but :: "(int \<Rightarrow> string option) \<Rightarrow> (thrown_value \<Rightarrow> bool) \<Rightarrow> thrown_value \<Rightarrow> nat \<Rightarrow> bulk \<Rightarrow> bool" where
  "quiet_but f is_abort reason k b \<longleftrightarrow> length (bk_items b) = targets_of b \<and> bk_abort b = None
     \<and> 0 < bk_width b \<and> bk_width b \<le> 6
     \<and> (\<forall>l \<in> set (bk_lanes b). quiet_lane f is_abort reason (bk_own b) (bk_targets b) (bk_next b) l)
     \<and> (\<forall>i < targets_of b. \<forall>x. bk_items b ! i = Some x \<longrightarrow> (\<exists>n. x = reference_item f (bk_own b) (bk_targets b ! i) n))
     \<and> (\<forall>i < targets_of b. i < bk_next b \<longrightarrow> i \<noteq> k \<longrightarrow> bk_items b ! i \<noteq> None \<or> (\<exists>r. Working i r \<in> set (bk_lanes b)))"

lemma quiet_but: "bulk_quiet_inv f is_abort reason b \<Longrightarrow> quiet_but f is_abort reason k b"
  by (simp add: bulk_quiet_inv_def quiet_but_def)

lemma quiet_but_allowance [simp]:
  "quiet_but f is_abort reason k (b\<lparr>bk_allowance := a\<rparr>) = quiet_but f is_abort reason k b"
  by (simp add: quiet_but_def)

lemma quiet_but_taken:
  assumes "bulk_quiet_inv f is_abort reason b"
  shows "quiet_but f is_abort reason (bk_next b) (b\<lparr>bk_next := Suc (bk_next b)\<rparr>)"
  using assms by (auto simp: bulk_quiet_inv_def quiet_but_def quiet_lane_later less_Suc_eq)

lemma put_item_quiet:
  assumes b: "quiet_but f is_abort reason k b" and x: "x = reference_item f (bk_own b) (bk_targets b ! k) n"
  shows "bulk_quiet_inv f is_abort reason (put_item k x b)"
proof -
  have "\<exists>n. y = reference_item f (bk_own b) (bk_targets b ! i) n"
    if "i < targets_of b" "(bk_items b)[k := Some x] ! i = Some y" for i y
    using that b x by (cases "i = k") (auto simp: quiet_but_def)
  moreover have "(bk_items b)[k := Some x] ! i \<noteq> None \<or> (\<exists>r. Working i r \<in> set (bk_lanes b))"
    if "i < targets_of b" "i < bk_next b" for i
    using that b by (cases "i = k") (auto simp: quiet_but_def)
  ultimately show ?thesis using b unfolding bulk_quiet_inv_def quiet_but_def by (simp del: not_None_eq)
qed

lemma put_lane_quiet:
  assumes b: "quiet_but f is_abort reason k b" and w: "w < length (bk_lanes b)"
    and k: "\<And>j r. bk_lanes b ! w = Working j r \<Longrightarrow> j = k"
    and l: "quiet_lane f is_abort reason (bk_own b) (bk_targets b) (bk_next b) l"
  shows "quiet_but f is_abort reason k (put_lane w l b)"
    and "(\<exists>r. l = Working k r) \<Longrightarrow> bulk_quiet_inv f is_abort reason (put_lane w l b)"
proof -
  have lanes: "\<forall>l' \<in> set ((bk_lanes b)[w := l]). quiet_lane f is_abort reason (bk_own b) (bk_targets b) (bk_next b) l'"
    using b l by (auto simp: quiet_but_def dest!: set_update_subset_insert [THEN subsetD])
  have others: "bk_items b ! i \<noteq> None \<or> (\<exists>r. Working i r \<in> set ((bk_lanes b)[w := l]))"
    if "i < targets_of b" "i < bk_next b" "i \<noteq> k" for i
    using that b working_stays [OF _ w, of i] k unfolding quiet_but_def by blast
  show but: "quiet_but f is_abort reason k (put_lane w l b)"
    using b lanes others unfolding quiet_but_def by (simp del: not_None_eq)
  assume "\<exists>r. l = Working k r"
  then have "\<exists>r. Working k r \<in> set ((bk_lanes b)[w := l])" using w set_update_memI by metis
  then show "bulk_quiet_inv f is_abort reason (put_lane w l b)"
    using but others unfolding quiet_but_def bulk_quiet_inv_def by (metis put_lane_sel(1-3,8))
qed

lemma take_quiet:
  assumes b: "bulk_quiet_inv f is_abort reason b" and w: "w < length (bk_lanes b)" "bk_lanes b ! w = Ready"
  shows "bulk_quiet_inv f is_abort reason (take_target w b)"
proof -
  let ?i = "bk_next b" and ?b = "b\<lparr>bk_next := Suc (bk_next b)\<rparr>" and ?v = "bk_targets b ! bk_next b"
  have none: "bk_abort b = None" "0 < bk_width b" "bk_width b \<le> 6" using b by (simp_all add: bulk_quiet_inv_def)
  have but: "quiet_but f is_abort reason ?i ?b" by (rule quiet_but_taken [OF b])
  have ready: "quiet_but f is_abort reason ?i (put_lane w Ready ?b)"
    by (rule put_lane_quiet(1) [OF but]) (use w in simp_all)
  show ?thesis
  proof (cases "?i < targets_of b")
    case False
    have "quiet_but f is_abort reason ?i (put_lane w Returned ?b)"
      by (rule put_lane_quiet(1) [OF but]) (use w False in simp_all)
    then have "bulk_quiet_inv f is_abort reason (put_lane w Returned ?b)"
      using False unfolding quiet_but_def bulk_quiet_inv_def by (auto simp del: not_None_eq)
    then show ?thesis using False none by (simp add: take_target_def Let_def)
  next
    case True
    show ?thesis
    proof (cases "refused_target CodeToStdid (bk_own b) ?v :: resolution bulk_item option")
      case (Some x)
      have "bulk_quiet_inv f is_abort reason (put_item ?i x ?b)"
        by (rule put_item_quiet [OF but, where n = 0]) (simp add: reference_item_def Some)
      then show ?thesis using True none Some by (simp add: take_target_def Let_def)
    next
      case refused: None
      let ?s = "raw_target ?v"
      have "STUDENT_CODE_PATTERN ?s"
        using refused by (auto simp: refused_target_def invalid_target_def target_pattern_def raw_target_def split: if_splits jval.splits)
      from begin_valid [OF none(2,3) this, of "bk_own b" f is_abort reason] show ?thesis
      proof (elim disjE exE conjE)
        assume r: "begin_resolution (resolver_arguments (bk_own b) ?s (bk_width b)) None = (Inl NotConverged :: thrown_value failure + thrown_value resolver)"
          "projection (bk_own b) ?s = None"
        have "bulk_quiet_inv f is_abort reason (put_item ?i (resolved_item f (bk_own b) ?s 0) (put_lane w Ready ?b))"
          by (rule put_item_quiet [OF ready, where n = 0]) (simp add: reference_item_def refused)
        then show ?thesis using True none refused r(1) settle_unprojected [of ?b ?i ?s "bk_own b" w f 0] r(2)
          by (simp add: take_target_def Let_def)
      next
        fix p and r :: "thrown_value resolver"
        assume r: "begin_resolution (resolver_arguments (bk_own b) ?s (bk_width b)) None = Inr r"
          "projection (bk_own b) ?s = Some p" "quiet_inv f is_abort reason ?s p r"
        have "bulk_quiet_inv f is_abort reason
            (put_lane w (Working ?i r) (?b\<lparr>bk_allowance := consume_units (rv_probes r) (bk_allowance ?b)\<rparr>))"
          by (rule put_lane_quiet(2)) (use but w True refused r begins(2) [OF r(1)] in simp_all)
        then show ?thesis using True none refused r(1) by (simp add: take_target_def Let_def)
      qed
    qed
  qed
qed

lemma event_quiet:
  assumes b: "bulk_quiet_inv f is_abort reason b" and q: "bulk_quiet f is_abort reason b (Probe w ev)"
  shows "bulk_quiet_inv f is_abort reason (bulk_step is_abort reason b (Probe w ev))"
proof -
  obtain i r where l: "lane_of b w = Working i r" "quiet f is_abort reason r ev" using q by (auto split: lane.splits)
  then have w: "w < length (bk_lanes b)" "bk_lanes b ! w = Working i r" by (auto simp: lane_of_def split: if_splits)
  let ?s = "raw_target (bk_targets b ! i)" and ?r = "rv_step is_abort reason r ev"
  let ?b = "b\<lparr>bk_allowance := consume_units (started r ?r) (bk_allowance b)\<rparr>"
  have "quiet_lane f is_abort reason (bk_own b) (bk_targets b) (bk_next b) (Working i r)"
    using b w nth_mem [OF w(1)] by (auto simp: bulk_quiet_inv_def simp del: quiet_lane.simps)
  then obtain p where i: "i < targets_of b" "(refused_target CodeToStdid (bk_own b) (bk_targets b ! i) :: resolution bulk_item option) = None"
    "projection (bk_own b) ?s = Some p" "quiet_inv f is_abort reason ?s p r" by auto
  have r: "quiet_inv f is_abort reason ?s p ?r" by (rule quiet_step [OF i(4) l(2)])
  have but: "quiet_but f is_abort reason i ?b" using quiet_but [OF b] by simp
  show ?thesis
  proof (cases "unfinished ?r")
    case True
    have "bulk_quiet_inv f is_abort reason (put_lane w (Working i ?r) ?b)"
      by (rule put_lane_quiet(2) [OF but]) (use w i r True in simp_all)
    then show ?thesis using True by (auto simp: l(1) Let_def after_event_def unfinished_def split: phase.splits)
  next
    case False
    then obtain res where f: "rv_phase ?r = Finished res" by (auto simp: unfinished_def)
    then have res: "res = outcome ?s (rv_probes ?r) (sequential f ?s p)" using r by (simp add: quiet_inv_def)
    have ready: "quiet_but f is_abort reason i (put_lane w Ready ?b)"
      by (rule put_lane_quiet(1) [OF but]) (use w in simp_all)
    have "bulk_quiet_inv f is_abort reason (put_item i (resolved_item f (bk_own b) ?s (rv_probes ?r)) (put_lane w Ready ?b))"
      by (rule put_item_quiet [OF ready, where n = "rv_probes ?r"]) (simp add: reference_item_def i(2))
    then show ?thesis
      using settle_outcome [of ?b i ?s "bk_own b" p w "rv_probes ?r" f] i(3)
      by (simp add: l(1) Let_def after_event_def f res)
  qed
qed

interpretation quiet_bulk: machine "bulk_step is_abort reason" "bulk_quiet f is_abort reason" "bulk_quiet_inv f is_abort reason"
  for f and is_abort :: "thrown_value \<Rightarrow> bool" and reason
proof
  fix b x assume b: "bulk_quiet_inv f is_abort reason b" and q: "bulk_quiet f is_abort reason b x"
  show "bulk_quiet_inv f is_abort reason (bulk_step is_abort reason b x)"
  proof (cases x)
    case (Takes w)
    then show ?thesis using take_quiet [OF b] q by simp
  next
    case (Probe w ev)
    then show ?thesis using event_quiet [OF b] q by blast
  qed (use q in simp)
qed

lemma settle_lanes [simp]: "length (bk_lanes (settle_target w i res b)) = length (bk_lanes b)"
  by (cases rule: settle_cases [of w i res b]) simp_all

lemma after_event_lanes [simp]: "length (bk_lanes (after_event w i r b)) = length (bk_lanes b)"
  by (cases "rv_phase r") (simp_all add: after_event_def)

lemma take_lanes [simp]: "length (bk_lanes (take_target w b)) = length (bk_lanes b)"
  by (auto simp: take_target_def Let_def split: option.splits sum.splits)

lemma take_own [simp]: "bk_own (take_target w b) = bk_own b"
  by (auto simp: take_target_def Let_def split: option.splits sum.splits)

lemma after_event_own [simp]: "bk_own (after_event w i r b) = bk_own b"
  by (cases "rv_phase r") (simp_all add: after_event_def)

lemma step_lanes [simp]: "length (bk_lanes (bulk_step is_abort reason b x)) = length (bk_lanes b)"
  "bk_own (bulk_step is_abort reason b x) = bk_own b"
  by (cases x; simp add: Let_def split: lane.split)+

lemma run_lanes: "length (bk_lanes (run (bulk_step is_abort reason) b xs)) = length (bk_lanes b)"
  "bk_own (run (bulk_step is_abort reason) b xs) = bk_own b"
  by (induction xs arbitrary: b) simp_all

lemma quiet_answer:
  assumes b: "bulk_quiet_inv f is_abort reason b" and lanes: "bk_lanes b \<noteq> []" and answer: "bulk_answer b = Some answer"
  shows "\<exists>items. answer = Inr (map Some items) \<and> length items = targets_of b
    \<and> (\<forall>i < targets_of b. \<exists>n. items ! i = reference_item f (bk_own b) (bk_targets b ! i) n)"
proof -
  have over: "lane_over l" if "l \<in> set (bk_lanes b)" for l
    using answer that by (auto simp: bulk_answer_def list_all_iff split: if_splits)
  have returned: "l = Returned \<and> targets_of b \<le> bk_next b" if l: "l \<in> set (bk_lanes b)" for l
  proof -
    have "quiet_lane f is_abort reason (bk_own b) (bk_targets b) (bk_next b) l" using b l by (auto simp: bulk_quiet_inv_def)
    then show ?thesis using over [OF l] by (cases l) auto
  qed
  have "List.map_filter lane_threw (bk_lanes b) = []"
    using returned by (auto simp: List.map_filter_def filter_empty_conv dest!: returned)
  then have a: "answer = Inr (bk_items b)" using answer by (simp add: bulk_answer_def split: if_splits)
  have items: "\<exists>x n. bk_items b ! i = Some x \<and> x = reference_item f (bk_own b) (bk_targets b ! i) n" if i: "i < targets_of b" for i
  proof -
    have "targets_of b \<le> bk_next b" using lanes returned [of "hd (bk_lanes b)"] by simp
    then have "bk_items b ! i \<noteq> None" using b i returned unfolding bulk_quiet_inv_def by (metis lane.distinct(7) order_less_le_trans)
    then show ?thesis using b i unfolding bulk_quiet_inv_def by auto
  qed
  have n: "length (bk_items b) = targets_of b" using b by (simp add: bulk_quiet_inv_def)
  have item: "bk_items b ! i = Some (the (bk_items b ! i)) \<and> (\<exists>n. the (bk_items b ! i) = reference_item f (bk_own b) (bk_targets b ! i) n)"
    if "i < targets_of b" for i using items [OF that] by auto
  have "bk_items b = map Some (map the (bk_items b))"
    by (rule nth_equalityI) (use item n in simp_all)
  then show ?thesis using a n item by (intro exI [of _ "map the (bk_items b)"]) simp
qed

text \<open>
  C40. A bulk resolution answers as one lookup after the other would. If the portal answers each
  student identifier by a function and nothing aborts the request, then the answer of the
  workers, however their turns and their probes interleave, lists an item for every target in
  the order of the request: a target that is no student code or is the caller's own is refused,
  and every other one gets the student that the sequential search around its projection finds,
  or the error that it did not converge; only the number of probes depends on the order.
\<close>

theorem bulk_items_exact:
  assumes cfg: "config_safe (dp_config d)"
    and admitted: "bulk_begin d (Inr p) cp secret ns session json profile now = (Inr (body, own, a), ns')"
    and mode: "bb_mode body = CodeToStdid" and b0: "bulk_workers (dp_config d) body own a = Inr b0"
    and quiet: "run_ok (bulk_step is_abort reason) (bulk_quiet f is_abort reason) b0 xs"
    and answer: "bulk_answer (run (bulk_step is_abort reason) b0 xs) = Some answer"
  shows "\<exists>items. answer = Inr (map Some items) \<and> length items = length (bb_targets body)
    \<and> (\<forall>i < length (bb_targets body). \<exists>n. items ! i = reference_item f own (bb_targets body ! i) n)"
proof -
  note adm = bulk_admitted [OF cfg admitted]
  have "config_ok (dp_config d)" using cfg by (simp add: config_safe_def)
  then obtain b1 where w1: "bulk_workers (dp_config d) body own (createVnuProbeAllowance (vnuBulkReservationUnits body)) = Inr b1"
    and i1: "bulk_inv 0 b1" and weight: "bulk_weight b1 \<le> 44 * length (bb_targets body) + 4" and v1: "bk_targets b1 = bb_targets body"
    and o1: "bk_own b1 = own" and n1: "bk_next b1 = 0" and a1: "bk_abort b1 = None" and l1: "set (bk_lanes b1) = {Ready}"
    and x1: "set (bk_items b1) = {None}"
    using adm(1) mode by (rule workers_begin)
  have eq: "b0 = b1" using b0 w1 by (simp add: adm(4))
  have lanes: "bk_lanes b1 \<noteq> []" using l1 by (metis empty_not_insert set_empty)
  have width: "0 < bk_width b1" "bk_width b1 * int (length (bk_lanes b1)) \<le> 6" "length (bk_items b1) = targets_of b1"
    using i1 by (simp_all add: bulk_inv_def)
  have "1 \<le> int (length (bk_lanes b1))" using lanes by (cases "bk_lanes b1") simp_all
  then have "bk_width b1 \<le> 6" using width(1,2) mult_left_mono [of 1 "int (length (bk_lanes b1))" "bk_width b1"] by linarith
  moreover have "bk_items b1 ! i = None" if "i < length (bk_items b1)" for i using x1 nth_mem [OF that] by blast
  ultimately have "bulk_quiet_inv f is_abort reason b1"
    using width(1,3) unfolding bulk_quiet_inv_def a1 n1 l1 by simp
  from quiet_bulk.run_inv [OF this quiet [unfolded eq]]
  have final: "bulk_quiet_inv f is_abort reason (run (bulk_step is_abort reason) b1 xs)" .
  have "bk_lanes (run (bulk_step is_abort reason) b1 xs) \<noteq> []"
    using lanes run_lanes(1) [of is_abort reason b1 xs] by (metis length_0_conv)
  from quiet_answer [OF final this answer [unfolded eq]] show ?thesis by (simp only: run_targets run_lanes(2) v1 o1)
qed

end
