(* ===== verification/CrossLookupScenario.thy ===== *)
theory CrossLookupScenario
  imports CrossLookupProps CrossDetailProps
begin

text \<open>
  One bulk lookup of three targets: a student two codes after the caller, the caller, and a value
  that is no code.
\<close>

definition sample_json :: jval where
  "sample_json = JObj [(''mode'', JStr ''code-to-stdid''), (''allowCrossLookup'', JBool True),
     (''targets'', JArr [JStr ''20020003'', JStr ''20020001'', JInt 3])]"

definition sample_profile :: profile_ids where
  "sample_profile = \<lparr>pf_internalStudentId = Some ''00000001000'', pf_studentCode = Some ''20020001''\<rparr>"

definition sample_own :: own_identity where
  "sample_own = \<lparr>ownStdId = 1000, ownCode = Some 20020001\<rparr>"

definition sample_bulk_body :: bulk_body where
  "sample_bulk_body = \<lparr>bb_mode = CodeToStdid, bb_targets = [JStr ''20020003'', JStr ''20020001'', JInt 3]\<rparr>"

definition sample_admission :: "(thrown_value + bulk_body \<times> own_identity \<times> allowance) \<times> budget_ns" where
  "sample_admission = bulk_begin sample_deployment (Inr emptyPolicy) (sample_platform JNull) sample_secret (\<lambda>_. empty_budget)
     sample_caller (Some sample_json) (Inr sample_profile) 1000"

lemma sample_admitted:
  "\<exists>ns'. sample_admission = (Inr (sample_bulk_body, sample_own, createVnuProbeAllowance 99), ns')"
proof -
  have "fst sample_admission = Inr (sample_bulk_body, sample_own, createVnuProbeAllowance 99)" by code_simp
  then show ?thesis by (metis prod.collapse)
qed

lemma sample_key: "\<exists>key. vnuProbeBudgetKey (sample_platform JNull) sample_secret sample_caller = Inr key"
proof -
  have "case vnuProbeBudgetKey (sample_platform JNull) sample_secret sample_caller of Inr k \<Rightarrow> True | Inl e \<Rightarrow> False" by code_simp
  then show ?thesis by (auto split: sum.splits)
qed

theorem bulk_lookup_prepaid_witness:
  "vnuBulkReservationUnits sample_bulk_body = 99 \<and> (99::int) \<le> VNU_PROBE_BUDGET_LIMIT
   \<and> (\<exists>b0. bulk_workers (effective_config (\<lambda>_. None)) sample_bulk_body sample_own (createVnuProbeAllowance 99) = Inr b0)"
proof -
  obtain ns' key where b: "bulk_begin sample_deployment (Inr emptyPolicy) (sample_platform JNull) sample_secret (\<lambda>_. empty_budget)
     sample_caller (Some sample_json) (Inr sample_profile) 1000 = (Inr (sample_bulk_body, sample_own, createVnuProbeAllowance 99), ns')"
    and key: "vnuProbeBudgetKey (sample_platform JNull) sample_secret sample_caller = Inr key"
    using sample_admitted sample_key unfolding sample_admission_def by blast
  have cfg: "config_safe (dp_config sample_deployment)" by (simp add: effective_config_safe)
  have "vnuBulkReservationUnits sample_bulk_body = 99" "bb_mode sample_bulk_body = CodeToStdid" by code_simp+
  with bulk_lookup_prepaid [OF cfg key b, where is_abort = "\<lambda>_. False" and reason = None] show ?thesis
    unfolding sample_deployment_simps(1) by metis
qed

text \<open>
  The projection 1002 answers with the code after the target's, so that 1001 is probed first, with
  its neighbour beside it.
\<close>

definition sample_portal :: "int \<Rightarrow> string option" where
  "sample_portal i = (if i = 1002 then Some ''20020004'' else if i = 1001 then Some ''20020003'' else None)"

definition sample_bulk :: bulk where
  "sample_bulk = (case bulk_workers (dp_config sample_deployment) sample_bulk_body sample_own (createVnuProbeAllowance 99) of
     Inr b \<Rightarrow> b | Inl e \<Rightarrow> undefined)"

definition sample_turns :: "bulk_event list" where
  "sample_turns = [Takes 0, Takes 1, Takes 2, Takes 1, Takes 2, Probe 0 (FirstSettles (Inl (Some ''20020004''))),
     Probe 0 (Returns 0 (Some ''20020003'')), Probe 0 (SiblingSettles 1 (SiblingCode None)), Probe 0 Conclude, Takes 0]"

theorem bulk_items_exact_witness:
  "bulk_answer (run (bulk_step (\<lambda>e. e = None) None) sample_bulk sample_turns) = Some (Inr [
     Some (BulkOk ''20020003'' \<lparr>res_std_id = ''00000001001'', res_std_code = ''20020003'', res_probes = 3\<rparr>),
     Some (BulkError ''20020001'' ''VNU_CROSS_LOOKUP_SELF_TARGET''),
     Some (BulkError [] ''VNU_CROSS_LOOKUP_INVALID_TARGET'')])
   \<and> (\<exists>n. reference_item sample_portal sample_own (JStr ''20020003'') n
        = BulkOk ''20020003'' \<lparr>res_std_id = ''00000001001'', res_std_code = ''20020003'', res_probes = 3\<rparr>)"
proof -
  obtain ns' where b: "bulk_begin sample_deployment (Inr emptyPolicy) (sample_platform JNull) sample_secret (\<lambda>_. empty_budget)
     sample_caller (Some sample_json) (Inr sample_profile) 1000 = (Inr (sample_bulk_body, sample_own, createVnuProbeAllowance 99), ns')"
    using sample_admitted unfolding sample_admission_def by blast
  have cfg: "config_safe (dp_config sample_deployment)" by (simp add: effective_config_safe)
  have mode: "bb_mode sample_bulk_body = CodeToStdid" "bb_targets sample_bulk_body ! 0 = JStr ''20020003''"
    "0 < length (bb_targets sample_bulk_body)" by (simp_all add: sample_bulk_body_def)
  have w: "bulk_workers (dp_config sample_deployment) sample_bulk_body sample_own (createVnuProbeAllowance 99) = Inr sample_bulk"
    by code_simp
  have q: "run_ok (bulk_step (\<lambda>e. e = None) None) (bulk_quiet sample_portal (\<lambda>e. e = None) None) sample_bulk sample_turns"
    by code_simp
  have a: "bulk_answer (run (bulk_step (\<lambda>e. e = None) None) sample_bulk sample_turns) = Some (Inr [
     Some (BulkOk ''20020003'' \<lparr>res_std_id = ''00000001001'', res_std_code = ''20020003'', res_probes = 3\<rparr>),
     Some (BulkError ''20020001'' ''VNU_CROSS_LOOKUP_SELF_TARGET''),
     Some (BulkError [] ''VNU_CROSS_LOOKUP_INVALID_TARGET'')])"
    by code_simp
  from bulk_items_exact [OF cfg b mode(1) w q a] obtain items
    where items: "map Some items = [
     Some (BulkOk ''20020003'' \<lparr>res_std_id = ''00000001001'', res_std_code = ''20020003'', res_probes = 3\<rparr>),
     Some (BulkError ''20020001'' ''VNU_CROSS_LOOKUP_SELF_TARGET''),
     Some (BulkError [] ''VNU_CROSS_LOOKUP_INVALID_TARGET'')]"
    and ref: "\<exists>n. items ! 0 = reference_item sample_portal sample_own (JStr ''20020003'') n"
    using mode(2,3) by (metis sum.inject(2))
  from items have "items ! 0 = BulkOk ''20020003'' \<lparr>res_std_id = ''00000001001'', res_std_code = ''20020003'', res_probes = 3\<rparr>"
    by (cases items) auto
  with a ref show ?thesis by metis
qed

end
